(* ===== verification/Prelude.thy ===== *)
theory Prelude
  imports Main "HOL-Library.Char_ord" "HOL-Library.List_Lexorder" "HOL-Library.Sublist"
begin

text \<open>
  Shared vocabulary of the development: Rust strings and their methods, integers and
  durations, results, and ordered string maps.

  A Rust \<open>str\<close> is a sequence of UTF-8 bytes; it is a \<open>string\<close> here, whose
  \<open>char\<close>s are bytes. Methods that work on bytes (\<open>len\<close>, \<open>find\<close>, slicing at
  found positions) work on the list; methods that work on Unicode scalar values
  (\<open>chars\<close>, \<open>trim\<close>, \<open>char::is_whitespace\<close>) go through \<open>chars\<close>, which
  cuts a string into its encoded characters by the width that the leading byte announces.
\<close>

named_theorems str_simps \<open>unfolding rules of the string methods\<close>
named_theorems res_simps \<open>unfolding rules of the result combinators\<close>

type_synonym timestamp = int \<comment> \<open>a UTC instant, in nanoseconds\<close>
type_synonym duration = nat  \<comment> \<open>a \<open>std::time::Duration\<close>, in nanoseconds\<close>
type_synonym uuid = string   \<comment> \<open>a UUID, named by its canonical hyphenated text\<close>

abbreviation secs :: "int \<Rightarrow> int" where
  "secs n \<equiv> n * 1000000000"

abbreviation i64_max :: int where "i64_max \<equiv> 9223372036854775807"
abbreviation i64_min :: int where "i64_min \<equiv> - 9223372036854775808"
abbreviation u32_max :: nat where "u32_max \<equiv> 4294967295"
abbreviation u64_max :: nat where "u64_max \<equiv> 18446744073709551615"

section \<open>Bytes\<close>

abbreviation byte :: "char \<Rightarrow> nat" where
  "byte c \<equiv> of_char c"

definition is_ascii_digit :: "char \<Rightarrow> bool" where
  "is_ascii_digit c \<longleftrightarrow> 48 \<le> byte c \<and> byte c \<le> 57"

definition is_ascii_lowercase :: "char \<Rightarrow> bool" where
  "is_ascii_lowercase c \<longleftrightarrow> 97 \<le> byte c \<and> byte c \<le> 122"

definition is_ascii_uppercase :: "char \<Rightarrow> bool" where
  "is_ascii_uppercase c \<longleftrightarrow> 65 \<le> byte c \<and> byte c \<le> 90"

definition is_ascii_alphabetic :: "char \<Rightarrow> bool" where
  "is_ascii_alphabetic c \<longleftrightarrow> is_ascii_lowercase c \<or> is_ascii_uppercase c"

definition is_ascii_alphanumeric :: "char \<Rightarrow> bool" where
  "is_ascii_alphanumeric c \<longleftrightarrow> is_ascii_alphabetic c \<or> is_ascii_digit c"

definition is_ascii_hexdigit :: "char \<Rightarrow> bool" where
  "is_ascii_hexdigit c \<longleftrightarrow>
     is_ascii_digit c \<or> (97 \<le> byte c \<and> byte c \<le> 102) \<or> (65 \<le> byte c \<and> byte c \<le> 70)"

definition to_ascii_lower :: "char \<Rightarrow> char" where
  "to_ascii_lower c = (if is_ascii_uppercase c then char_of (byte c + 32) else c)"

definition to_ascii_lowercase :: "string \<Rightarrow> string" where
  "to_ascii_lowercase s = map to_ascii_lower s"

lemmas ascii_defs =
  is_ascii_digit_def is_ascii_lowercase_def is_ascii_uppercase_def is_ascii_alphabetic_def
  is_ascii_alphanumeric_def is_ascii_hexdigit_def

section \<open>Characters\<close>

definition char_width :: "char \<Rightarrow> nat" where
  "char_width b =
     (if byte b < 128 then 1 else if byte b < 224 then 2 else if byte b < 240 then 3 else 4)"

lemma char_width_pos [simp]: "0 < char_width b"
  by (simp add: char_width_def)

function chars :: "string \<Rightarrow> string list" where
  "chars [] = []"
| "chars (b # bs) =
     (b # take (char_width b - 1) bs) # chars (drop (char_width b - 1) bs)"
  by pat_completeness auto
termination
  by (relation "measure length") auto

lemma concat_chars [simp]: "concat (chars s) = s"
  by (induction s rule: chars.induct) auto

lemma chars_eq_Nil [simp]: "chars s = [] \<longleftrightarrow> s = []"
  by (cases s) auto

text \<open>A list of characters is well cut when only its last element may be shorter than
  the width its leading byte announces.\<close>

fun well_cut :: "string list \<Rightarrow> bool" where
  "well_cut [] = True"
| "well_cut (c # cs) =
     (c \<noteq> [] \<and> length c \<le> char_width (hd c) \<and> (cs \<noteq> [] \<longrightarrow> length c = char_width (hd c))
      \<and> well_cut cs)"

lemma well_cut_chars [simp]: "well_cut (chars s)"
proof (induction s rule: chars.induct)
  case (2 b bs)
  have "Suc (min (length bs) (char_width b - 1)) \<le> char_width b"
    using char_width_pos [of b] by linarith
  moreover have "Suc (min (length bs) (char_width b - 1)) = char_width b"
    if "drop (char_width b - 1) bs \<noteq> []"
    using that char_width_pos [of b] by (simp add: min_def)
  ultimately show ?case using 2 by simp
qed simp

lemma chars_concat: "well_cut cs \<Longrightarrow> chars (concat cs) = cs"
proof (induction cs)
  case (Cons c cs)
  obtain b bs where c: "c = b # bs"
    using Cons.prems by (cases c) auto
  have "take (char_width b - 1) (bs @ concat cs) = bs \<and>
        drop (char_width b - 1) (bs @ concat cs) = concat cs"
  proof (cases "cs = []")
    case True
    with Cons.prems c show ?thesis by simp
  next
    case False
    with Cons.prems c have "Suc (length bs) = char_width b" by simp
    then have "length bs = char_width b - 1" by simp
    then show ?thesis by simp
  qed
  with Cons c show ?case by simp
qed simp

lemma well_cut_append: "well_cut (xs @ ys) \<Longrightarrow> well_cut xs \<and> well_cut ys"
  by (induction xs) auto

lemma well_cut_dropWhile: "well_cut cs \<Longrightarrow> well_cut (dropWhile P cs)"
  by (metis takeWhile_dropWhile_id well_cut_append)

lemma well_cut_takeWhile: "well_cut cs \<Longrightarrow> well_cut (takeWhile P cs)"
  by (metis takeWhile_dropWhile_id well_cut_append)

lemma well_cut_take: "well_cut cs \<Longrightarrow> well_cut (take n cs)"
  by (metis append_take_drop_id well_cut_append)

definition char_count :: "string \<Rightarrow> nat" where
  "char_count s = length (chars s)"

text \<open>\<open>char::is_whitespace\<close>: the Unicode \<open>White_Space\<close> property, on the encoded form.\<close>

definition white_space :: "string list" where
  "white_space =
     [[CHR 0x09], [CHR 0x0A], [CHR 0x0B], [CHR 0x0C], [CHR 0x0D], [CHR 0x20],
      [CHR 0xC2, CHR 0x85], [CHR 0xC2, CHR 0xA0], [CHR 0xE1, CHR 0x9A, CHR 0x80]]
     @ map (\<lambda>n. [CHR 0xE2, CHR 0x80, char_of n]) [128 ..< (139 :: nat)]
     @ [[CHR 0xE2, CHR 0x80, CHR 0xA8], [CHR 0xE2, CHR 0x80, CHR 0xA9],
        [CHR 0xE2, CHR 0x80, CHR 0xAF], [CHR 0xE2, CHR 0x81, CHR 0x9F],
        [CHR 0xE3, CHR 0x80, CHR 0x80]]"

definition is_whitespace :: "string \<Rightarrow> bool" where
  "is_whitespace c \<longleftrightarrow> c \<in> set white_space"

definition trim_start :: "string \<Rightarrow> string" where
  "trim_start s = concat (dropWhile is_whitespace (chars s))"

definition trim_end :: "string \<Rightarrow> string" where
  "trim_end s = concat (rev (dropWhile is_whitespace (rev (chars s))))"

definition trim :: "string \<Rightarrow> string" where
  "trim s = trim_end (trim_start s)"

lemma chars_trim_start: "chars (trim_start s) = dropWhile is_whitespace (chars s)"
  by (simp add: trim_start_def chars_concat well_cut_dropWhile)

lemma rev_dropWhile_rev_append:
  "rev (dropWhile P (rev xs)) @ rev (takeWhile P (rev xs)) = xs"
  by (metis rev_append rev_rev_ident takeWhile_dropWhile_id)

lemma well_cut_rev_dropWhile:
  assumes "well_cut xs"
  shows "well_cut (rev (dropWhile P (rev xs)))"
  using assms well_cut_append [of "rev (dropWhile P (rev xs))" "rev (takeWhile P (rev xs))"]
  by (simp only: rev_dropWhile_rev_append simp_thms)

lemma chars_trim_end:
  "chars (trim_end s) = rev (dropWhile is_whitespace (rev (chars s)))"
  by (simp add: trim_end_def chars_concat well_cut_rev_dropWhile)

lemma chars_trim:
  "chars (trim s) =
     rev (dropWhile is_whitespace (rev (dropWhile is_whitespace (chars s))))"
  by (simp add: trim_def chars_trim_end chars_trim_start)

lemma trim_Nil [simp]: "trim [] = []"
  by (simp add: trim_def trim_end_def trim_start_def)

lemma hd_rev_dropWhile_rev:
  assumes "rev (dropWhile P (rev xs)) \<noteq> []"
  shows "hd (rev (dropWhile P (rev xs))) = hd xs"
  using assms rev_dropWhile_rev_append [of P xs] by (metis hd_append2)

lemma hd_dropWhile_rev_dropWhile:
  assumes "rev (dropWhile P (rev (dropWhile P xs))) \<noteq> []"
  shows "\<not> P (hd (rev (dropWhile P (rev (dropWhile P xs)))))"
proof -
  have "dropWhile P xs \<noteq> []"
    using assms by (auto simp only: rev.simps dropWhile.simps)
  then show ?thesis using assms by (simp only: hd_rev_dropWhile_rev hd_dropWhile not_False_eq_True)
qed

lemma trim_chars_hd: "trim s \<noteq> [] \<Longrightarrow> \<not> is_whitespace (hd (chars (trim s)))"
  using hd_dropWhile_rev_dropWhile [of is_whitespace "chars s"]
  by (metis chars_eq_Nil chars_trim)

lemma trim_chars_last: "trim s \<noteq> [] \<Longrightarrow> \<not> is_whitespace (last (chars (trim s)))"
proof -
  assume "trim s \<noteq> []"
  then have "dropWhile is_whitespace (rev (dropWhile is_whitespace (chars s))) \<noteq> []"
    by (metis chars_eq_Nil chars_trim rev_is_Nil_conv)
  then show ?thesis by (simp add: chars_trim last_rev hd_dropWhile)
qed

lemma trim_fixed:
  assumes "s = [] \<or> (\<not> is_whitespace (hd (chars s)) \<and> \<not> is_whitespace (last (chars s)))"
  shows "trim s = s"
proof (cases "s = []")
  case False
  with assms obtain c cs where cs: "chars s = c # cs" "\<not> is_whitespace c"
    by (metis chars_eq_Nil list.exhaust list.sel(1))
  have "rev (chars s) \<noteq> []" "\<not> is_whitespace (hd (rev (chars s)))"
    using assms False by (simp_all add: hd_rev)
  then have "dropWhile is_whitespace (rev (chars s)) = rev (chars s)"
    by (metis dropWhile_eq_self_iff)
  with cs have "chars (trim s) = chars s"
    by (simp add: chars_trim)
  then show ?thesis by (metis concat_chars)
qed simp

lemma trim_idem [simp]: "trim (trim s) = trim s"
  using trim_chars_hd trim_chars_last trim_fixed by blast

lemma well_cut_take_snoc:
  "well_cut cs \<Longrightarrow> n < length cs \<Longrightarrow> c \<noteq> [] \<Longrightarrow> length c = char_width (hd c) \<Longrightarrow>
     well_cut (take n cs @ [c])"
  by (induction cs arbitrary: n) (auto simp: take_Cons split: nat.splits)

text \<open>What Rust guarantees of every \<open>str\<close>, as far as cutting goes: characters have their full
  width and the bytes after a leading one are not ASCII.\<close>

definition utf8 :: "string \<Rightarrow> bool" where
  "utf8 s \<longleftrightarrow>
     list_all (\<lambda>c. length c = char_width (hd c) \<and> list_all (\<lambda>b. 128 \<le> byte b) (tl c)) (chars s)"

abbreviation ascii :: "char \<Rightarrow> bool" where
  "ascii b \<equiv> byte b < 128"

lemma ascii_width: "ascii b \<Longrightarrow> char_width b = 1"
  by (simp add: char_width_def)

lemma chars_ascii_append: "list_all ascii a \<Longrightarrow> chars (a @ s) = map (\<lambda>b. [b]) a @ chars s"
  by (induction a) (auto simp: ascii_width)

lemma utf8_ascii_append: "list_all ascii a \<Longrightarrow> utf8 (a @ s) \<longleftrightarrow> utf8 s"
  by (induction a) (auto simp: utf8_def ascii_width)

lemma utf8_Nil [simp]: "utf8 []"
  by (simp add: utf8_def)

lemma utf8_Cons:
  "utf8 (b # bs) \<longleftrightarrow>
     length (take (char_width b - 1) bs) = char_width b - 1 \<and>
     list_all (\<lambda>b. 128 \<le> byte b) (take (char_width b - 1) bs) \<and> utf8 (drop (char_width b - 1) bs)"
proof -
  have "Suc (length (take (char_width b - 1) bs)) = char_width b \<longleftrightarrow>
        length (take (char_width b - 1) bs) = char_width b - 1"
    using char_width_pos [of b] by linarith
  then show ?thesis by (simp add: utf8_def)
qed

lemma utf8_concat: "utf8 s \<Longrightarrow> well_cut cs \<Longrightarrow> set cs \<subseteq> set (chars s) \<Longrightarrow> utf8 (concat cs)"
  by (auto simp: utf8_def chars_concat list_all_iff)

lemma chars_full_append:
  "length c = char_width b - 1 \<Longrightarrow> chars (b # c @ s) = (b # c) # chars s"
  by simp

lemma set_chars_trim: "set (chars (trim s)) \<subseteq> set (chars s)"
  by (auto simp: chars_trim dest!: set_dropWhileD)

lemma utf8_trim: "utf8 s \<Longrightarrow> utf8 (trim s)"
  using utf8_concat [of s "chars (trim s)"] set_chars_trim by simp

lemma set_concat_chars: "b \<in> set s \<longleftrightarrow> (\<exists>c \<in> set (chars s). b \<in> set c)"
  by (metis (no_types) concat_chars set_concat UN_iff)

lemma set_trim: "set (trim s) \<subseteq> set s"
proof
  fix b
  assume "b \<in> set (trim s)"
  then obtain c where "c \<in> set (chars (trim s))" "b \<in> set c"
    using set_concat_chars by blast
  with set_chars_trim show "b \<in> set s"
    using set_concat_chars by blast
qed

lemma whitespace_byte: "is_whitespace [b] \<Longrightarrow> byte b \<in> {9, 10, 11, 12, 13, 32}"
  by (auto simp: is_whitespace_def white_space_def)

lemma whitespace_space [simp]: "is_whitespace '' ''"
  by (simp add: is_whitespace_def white_space_def)

section \<open>Searching, cutting and joining\<close>

definition starts_with :: "string \<Rightarrow> string \<Rightarrow> bool" where
  "starts_with s p \<longleftrightarrow> take (length p) s = p"

definition ends_with :: "string \<Rightarrow> string \<Rightarrow> bool" where
  "ends_with s p \<longleftrightarrow> starts_with (rev s) (rev p)"

definition strip_prefix :: "string \<Rightarrow> string \<Rightarrow> string option" where
  "strip_prefix s p = (if starts_with s p then Some (drop (length p) s) else None)"

fun str_find :: "string \<Rightarrow> string \<Rightarrow> nat option" where
  "str_find [] p = (if p = [] then Some 0 else None)"
| "str_find (c # s) p =
     (if starts_with (c # s) p then Some 0 else map_option Suc (str_find s p))"

fun str_rfind :: "string \<Rightarrow> string \<Rightarrow> nat option" where
  "str_rfind [] p = (if p = [] then Some 0 else None)"
| "str_rfind (c # s) p =
     (case str_rfind s p of
        Some i \<Rightarrow> Some (Suc i)
      | None \<Rightarrow> (if starts_with (c # s) p then Some 0 else None))"

definition str_contains :: "string \<Rightarrow> string \<Rightarrow> bool" where
  "str_contains s p \<longleftrightarrow> str_find s p \<noteq> None"

fun split_on :: "(char \<Rightarrow> bool) \<Rightarrow> string \<Rightarrow> string list" where
  "split_on P [] = [[]]"
| "split_on P (c # s) =
     (if P c then [] # split_on P s
      else (case split_on P s of [] \<Rightarrow> [[c]] | w # ws \<Rightarrow> (c # w) # ws))"

definition split_once :: "char \<Rightarrow> string \<Rightarrow> (string \<times> string) option" where
  "split_once c s =
     (case str_find s [c] of None \<Rightarrow> None | Some i \<Rightarrow> Some (take i s, drop (Suc i) s))"

definition trim_start_char :: "char \<Rightarrow> string \<Rightarrow> string" where
  "trim_start_char c s = dropWhile (\<lambda>x. x = c) s"

definition trim_end_char :: "char \<Rightarrow> string \<Rightarrow> string" where
  "trim_end_char c s = rev (dropWhile (\<lambda>x. x = c) (rev s))"

definition trim_matches_char :: "char \<Rightarrow> string \<Rightarrow> string" where
  "trim_matches_char c s = trim_end_char c (trim_start_char c s)"

fun str_join :: "string \<Rightarrow> string list \<Rightarrow> string" where
  "str_join sep [] = []"
| "str_join sep [x] = x"
| "str_join sep (x # xs) = x @ sep @ str_join sep xs"

definition replace_char :: "char \<Rightarrow> string \<Rightarrow> string \<Rightarrow> string" where
  "replace_char c r s = concat (map (\<lambda>x. if x = c then r else [x]) s)"

definition eq_ignore_ascii_case :: "string \<Rightarrow> string \<Rightarrow> bool" where
  "eq_ignore_ascii_case a b \<longleftrightarrow> to_ascii_lowercase a = to_ascii_lowercase b"

lemma starts_with_append [simp]: "starts_with (p @ s) p"
  by (simp add: starts_with_def)

lemma starts_withE:
  assumes "starts_with s p"
  obtains t where "s = p @ t"
  using assms append_take_drop_id [of "length p" s] unfolding starts_with_def by metis

lemma starts_with_drop: "starts_with s p \<Longrightarrow> p @ drop (length p) s = s \<and> length p \<le> length s"
  using append_take_drop_id [of "length p" s] length_take [of "length p" s]
  by (auto simp: starts_with_def)

lemma str_find_Some:
  assumes "str_find s p = Some i"
  shows "s = take i s @ p @ drop (i + length p) s" and "i + length p \<le> length s"
proof -
  have "s = take i s @ p @ drop (i + length p) s \<and> i + length p \<le> length s"
    using assms
  proof (induction s arbitrary: i)
    case (Cons c s)
    show ?case
    proof (cases "starts_with (c # s) p")
      case True
      with Cons.prems have "i = 0" by simp
      with starts_with_drop [OF True] show ?thesis by simp
    next
      case False
      with Cons.prems obtain j where "str_find s p = Some j" "i = Suc j" by auto
      with Cons.IH [of j] show ?thesis by simp
    qed
  qed (simp split: if_splits)
  then show "s = take i s @ p @ drop (i + length p) s" "i + length p \<le> length s" by auto
qed

lemma str_find_lt: "str_find s p = Some i \<Longrightarrow> p \<noteq> [] \<Longrightarrow> i < length s"
  using str_find_Some(2) [of s p i] by (cases p) auto

lemma str_rfind_Some:
  assumes "str_rfind s p = Some i"
  shows "s = take i s @ p @ drop (i + length p) s \<and> i + length p \<le> length s"
  using assms
proof (induction s arbitrary: i)
  case (Cons c s)
  show ?case
  proof (cases "str_rfind s p")
    case None
    with Cons.prems have "i = 0" "starts_with (c # s) p" by (auto split: if_splits)
    then show ?thesis using starts_with_drop [of "c # s" p] by simp
  next
    case (Some j)
    with Cons.prems Cons.IH [OF Some] show ?thesis by auto
  qed
qed (simp split: if_splits)

lemma str_find_char_None: "str_find s [c] = None \<longleftrightarrow> c \<notin> set s"
  by (induction s) (auto simp: starts_with_def)

lemma str_find_char_take: "str_find s [c] = Some i \<Longrightarrow> c \<notin> set (take i s) \<and> i < length s \<and> s ! i = c"
proof (induction s arbitrary: i)
  case (Cons d s)
  then show ?case
    by (cases "d = c") (auto simp: starts_with_def)
qed simp

lemma str_rfind_char_None: "str_rfind s [c] = None \<longleftrightarrow> c \<notin> set s"
  by (induction s) (auto simp: starts_with_def split: option.splits)

lemma str_rfind_char: "c \<notin> set b \<Longrightarrow> str_rfind (a @ c # b) [c] = Some (length a)"
proof -
  assume "c \<notin> set b"
  then have "str_rfind (c # b) [c] = Some 0"
    using str_rfind_char_None [of b c] by (simp add: starts_with_def)
  then show ?thesis by (induction a) auto
qed

lemma str_rfind_nth: "str_rfind s [c] = Some i \<Longrightarrow> i < length s \<and> s ! i = c"
  by (induction s arbitrary: i) (auto simp: starts_with_def split: option.splits if_splits)

lemma split_onceE:
  assumes "split_once c s = Some (a, b)"
  shows "s = a @ c # b \<and> c \<notin> set a"
proof -
  from assms obtain i where i: "str_find s [c] = Some i" "a = take i s" "b = drop (Suc i) s"
    by (auto simp: split_once_def split: option.splits)
  from str_find_char_take [OF i(1)] i id_take_nth_drop [of i s] show ?thesis
    by metis
qed

lemma split_once_append: "c \<notin> set a \<Longrightarrow> split_once c (a @ c # b) = Some (a, b)"
proof -
  assume a: "c \<notin> set a"
  then have "str_find (a @ c # b) [c] = Some (length a)"
    by (induction a) (auto simp: starts_with_def)
  then show ?thesis by (simp add: split_once_def)
qed

section \<open>Numbers as text\<close>

fun nat_to_dec :: "nat \<Rightarrow> string" where
  "nat_to_dec n =
     (if n < 10 then [char_of (48 + n)] else nat_to_dec (n div 10) @ [char_of (48 + n mod 10)])"

declare nat_to_dec.simps [simp del]

definition int_to_dec :: "int \<Rightarrow> string" where
  "int_to_dec i = (if i < 0 then CHR ''-'' # nat_to_dec (nat (- i)) else nat_to_dec (nat i))"

definition digits_value :: "string \<Rightarrow> nat" where
  "digits_value s = foldl (\<lambda>n c. 10 * n + (byte c - 48)) 0 s"

text \<open>\<open>str::parse\<close> for an integer type with range \<open>lo..=hi\<close>.\<close>

definition parse_int :: "int \<Rightarrow> int \<Rightarrow> string \<Rightarrow> int option" where
  "parse_int lo hi s =
     (let neg = (take 1 s = ''-'');
          ds = (if neg \<or> take 1 s = ''+'' then drop 1 s else s);
          v = (if neg then - int (digits_value ds) else int (digits_value ds))
      in if ds = [] \<or> \<not> list_all is_ascii_digit ds \<or> v < lo \<or> hi < v then None else Some v)"

lemma byte_char_of_digit [simp]: "d < 10 \<Longrightarrow> byte (char_of (48 + d)) = 48 + d"
  by (simp add: of_char_of take_bit_eq_mod)

lemma digit_char: "(d :: nat) < 10 \<Longrightarrow> is_ascii_digit (char_of (48 + d))"
  by (simp add: is_ascii_digit_def)

lemma digits_value_append: "digits_value (s @ [c]) = 10 * digits_value s + (byte c - 48)"
  by (simp add: digits_value_def)

lemma nat_to_dec_digits: "nat_to_dec n \<noteq> [] \<and> list_all is_ascii_digit (nat_to_dec n)"
proof (induction n rule: nat_to_dec.induct)
  case (1 n)
  then show ?case
    by (subst (1 2) nat_to_dec.simps) (auto simp: digit_char)
qed

lemma digits_value_nat_to_dec [simp]: "digits_value (nat_to_dec n) = n"
proof (induction n rule: nat_to_dec.induct)
  case (1 n)
  then show ?case
    by (subst nat_to_dec.simps) (auto simp: digits_value_append digits_value_def)
qed

lemma nat_to_dec_inj: "nat_to_dec m = nat_to_dec n \<Longrightarrow> m = n"
  by (metis digits_value_nat_to_dec)

section \<open>Ordered string maps\<close>

text \<open>A \<open>BTreeMap<String, V>\<close> is its list of entries in key order.\<close>

type_synonym 'v bmap = "(string \<times> 'v) list"

fun bm_insert :: "string \<Rightarrow> 'v \<Rightarrow> 'v bmap \<Rightarrow> 'v bmap" where
  "bm_insert k v [] = [(k, v)]"
| "bm_insert k v ((k', v') # m) =
     (if k < k' then (k, v) # (k', v') # m
      else if k = k' then (k, v) # m
      else (k', v') # bm_insert k v m)"

definition bm_contains :: "string \<Rightarrow> 'v bmap \<Rightarrow> bool" where
  "bm_contains k m \<longleftrightarrow> map_of m k \<noteq> None"

definition bm_extend :: "'v bmap \<Rightarrow> 'v bmap \<Rightarrow> 'v bmap" where
  "bm_extend m n = fold (\<lambda>(k, v). bm_insert k v) n m"

definition bm_ok :: "'v bmap \<Rightarrow> bool" where
  "bm_ok m \<longleftrightarrow> sorted_wrt (<) (map fst m)"

lemma map_of_bm_insert [simp]: "map_of (bm_insert k v m) = (map_of m)(k \<mapsto> v)"
  by (induction k v m rule: bm_insert.induct) (auto simp: fun_eq_iff)

lemma fst_set_bm_insert: "fst ` set (bm_insert k v m) = insert k (fst ` set m)"
  by (induction k v m rule: bm_insert.induct) auto

lemma bm_ok_insert: "bm_ok m \<Longrightarrow> bm_ok (bm_insert k v m)"
proof (induction k v m rule: bm_insert.induct)
  case (2 k v k' v' m)
  then have IH: "\<not> k < k' \<Longrightarrow> k \<noteq> k' \<Longrightarrow> bm_ok (bm_insert k v m)"
    and lt: "\<forall>x \<in> fst ` set m. k' < x" and m: "sorted_wrt (<) (map fst m)"
    by (auto simp: bm_ok_def)
  have "\<forall>x \<in> fst ` set (bm_insert k v m). k' < x" if "\<not> k < k'" "k \<noteq> k'"
    using that lt by (auto simp: fst_set_bm_insert)
  with 2 IH lt m show ?case by (auto simp: bm_ok_def)
qed (simp add: bm_ok_def)

lemma bm_ok_Nil [simp]: "bm_ok []"
  by (simp add: bm_ok_def)

text \<open>The contract of a string map, as its clients use it.\<close>

locale string_map =
  fixes empty :: "'m"
    and insert_kv :: "string \<Rightarrow> 'v \<Rightarrow> 'm \<Rightarrow> 'm"
    and get :: "'m \<Rightarrow> string \<Rightarrow> 'v option"
    and ok :: "'m \<Rightarrow> bool"
  assumes get_empty: "get empty k = None"
    and get_insert: "get (insert_kv k v m) k' = (if k' = k then Some v else get m k')"
    and ok_empty: "ok empty"
    and ok_insert: "ok m \<Longrightarrow> ok (insert_kv k v m)"
begin

definition insert_absent :: "string \<Rightarrow> 'v \<Rightarrow> 'm \<Rightarrow> 'm" where
  "insert_absent k v m = (if get m k = None then insert_kv k v m else m)"

lemma get_insert_absent:
  "get (insert_absent k v m) k' = (if k' = k \<and> get m k = None then Some v else get m k')"
  by (simp add: insert_absent_def get_insert)

lemma insert_absent_keeps: "get m k' = Some w \<Longrightarrow> get (insert_absent k v m) k' = Some w"
  by (auto simp: get_insert_absent)

definition insert_all :: "(string \<times> 'v) list \<Rightarrow> 'm \<Rightarrow> 'm" where
  "insert_all kvs m = fold (\<lambda>(k, v). insert_kv k v) kvs m"

lemma get_insert_all:
  "get (insert_all kvs m) k = (case map_of (rev kvs) k of Some v \<Rightarrow> Some v | None \<Rightarrow> get m k)"
  by (induction kvs arbitrary: m)
    (auto simp: insert_all_def get_insert map_add_def split: option.splits)

lemma ok_insert_all: "ok m \<Longrightarrow> ok (insert_all kvs m)"
  by (induction kvs arbitrary: m) (auto simp: insert_all_def ok_insert)

end

interpretation bm: string_map "[]" bm_insert "map_of" bm_ok
  by unfold_locales (auto simp: bm_ok_insert)

end
