(* ===== verification/Errors.thy ===== *)
theory Errors
  imports Prelude
begin

text \<open>
  The error type of the library (\<open>src/error.rs\<close>), the classification of transient lock
  conflicts, the write policy (\<open>WritePolicy\<close> of \<open>src/config.rs\<close>) and the bounded
  retry loop that every adapter wraps around its writes (\<open>src/adapters/retry.rs\<close>).

  A driver error is what sqlx reports: a PostgreSQL error with its SQLSTATE, or an error of
  another driver with an optional numeric code. A panic (an arithmetic check of a library, an
  \<open>expect\<close>) ends the task that runs the operation; it is the extra constructor \<open>Panic\<close>
  of the error type. An operation on a state \<open>'s\<close> returns a
  result and the new state, so a failed operation says what it left behind.
\<close>

section \<open>Errors\<close>

datatype db_error =
    PgDatabaseError string string           \<comment> \<open>SQLSTATE, message\<close>
  | DriverError "string option" string      \<comment> \<open>code, message\<close>

datatype sqlx_error = Database db_error | RowNotFound | SqlxOther string

datatype error =
    NotFound string
  | Validation string
  | Auth string
  | Forbidden string
  | Conflict string
  | RateLimited
  | Db sqlx_error
  | DbBusy string error
  | Serde string
  | Mail string
  | Template string
  | Internal string
  | Alertmanager string
  | Panic string \<comment> \<open>not a variant of the source: a panic that unwinds the task\<close>

type_synonym 'a res = "error + 'a"
type_synonym ('s, 'a) op = "'s \<Rightarrow> 'a res \<times> 's"

definition SQLITE_BUSY :: int where "SQLITE_BUSY = 5"
definition SQLITE_LOCKED :: int where "SQLITE_LOCKED = 6"

definition PG_TRANSIENT_SQLSTATES :: "string list" where
  "PG_TRANSIENT_SQLSTATES = [''40001'', ''40P01'', ''55P03'']"

definition is_pg_transient :: "string \<Rightarrow> bool" where
  "is_pg_transient sqlstate \<longleftrightarrow> sqlstate \<in> set PG_TRANSIENT_SQLSTATES"

abbreviation parse_i32 :: "string \<Rightarrow> int option" where
  "parse_i32 \<equiv> parse_int (- 2147483648) 2147483647"

text \<open>\<open>code & 0xff\<close> on an \<open>i32\<close> is the residue modulo 256.\<close>

fun is_busy_code :: "db_error \<Rightarrow> bool" where
  "is_busy_code (PgDatabaseError sqlstate msg) = is_pg_transient sqlstate"
| "is_busy_code (DriverError code msg) =
     (case Option.bind code parse_i32 of
        Some c \<Rightarrow>
          (if c mod 256 = SQLITE_BUSY \<or> c mod 256 = SQLITE_LOCKED then True
           else str_contains (to_ascii_lowercase msg) ''database is locked''
             \<or> str_contains (to_ascii_lowercase msg) ''database table is locked'')
      | None \<Rightarrow>
          str_contains (to_ascii_lowercase msg) ''database is locked''
             \<or> str_contains (to_ascii_lowercase msg) ''database table is locked'')"

fun is_busy :: "error \<Rightarrow> bool" where
  "is_busy (DbBusy what src) = True"
| "is_busy (Db (Database e)) = is_busy_code e"
| "is_busy _ = False"

text \<open>\<open>Display\<close> of the domain variants, as they reach a client. The text of a driver error is
  the driver's.\<close>

fun error_to_string :: "(sqlx_error \<Rightarrow> string) \<Rightarrow> error \<Rightarrow> string" where
  "error_to_string drv (NotFound m) = ''not found: '' @ m"
| "error_to_string drv (Validation m) = ''validation error: '' @ m"
| "error_to_string drv (Auth m) = ''authentication error: '' @ m"
| "error_to_string drv (Forbidden m) = ''forbidden: '' @ m"
| "error_to_string drv (Conflict m) = ''conflict: '' @ m"
| "error_to_string drv RateLimited = ''rate limited''"
| "error_to_string drv (Db e) = ''database error: '' @ drv e"
| "error_to_string drv (DbBusy what src) = ''database is busy: '' @ what"
| "error_to_string drv (Serde m) = ''serialization error: '' @ m"
| "error_to_string drv (Mail m) = ''mail error: '' @ m"
| "error_to_string drv (Template m) = ''template error: '' @ m"
| "error_to_string drv (Internal m) = ''internal error: '' @ m"
| "error_to_string drv (Alertmanager m) = m"
| "error_to_string drv (Panic m) = m"

section \<open>Write policy\<close>

record write_policy =
  max_retries :: nat
  retry_base :: duration
  retry_max :: duration
  delete_batch :: int

definition default_write_policy :: write_policy where
  "default_write_policy =
     \<lparr>max_retries = 5, retry_base = 20000000, retry_max = 500000000, delete_batch = 500\<rparr>"

definition duration_max :: duration where
  "duration_max = u64_max * 1000000000 + 999999999"

text \<open>The delay before retry \<open>attempt\<close>, in milliseconds; \<open>jitter\<close> is the number that
  \<open>random_range(0..=spread)\<close> drew.\<close>

definition backoff_millis :: "write_policy \<Rightarrow> nat \<Rightarrow> nat" where
  "backoff_millis p attempt =
     (let factor = (if attempt < 32 then 2 ^ attempt else u32_max);
          delay = min (min (retry_base p * factor) duration_max) (retry_max p)
      in max (delay div 1000000) 1 mod 2 ^ 64)"

definition backoff_spread :: "nat \<Rightarrow> nat" where
  "backoff_spread millis = max (millis div 2) 1"

definition backoff :: "write_policy \<Rightarrow> nat \<Rightarrow> nat \<Rightarrow> nat" where
  "backoff p attempt jitter =
     (let millis = backoff_millis p attempt; spread = backoff_spread millis
      in (millis - spread div 2 + jitter) mod 2 ^ 64)"

section \<open>The retry loop\<close>

text \<open>\<open>env attempt\<close> is what other connections do to the state while the loop sleeps.\<close>

function retry_from ::
  "(nat \<Rightarrow> 's \<Rightarrow> 's) \<Rightarrow> write_policy \<Rightarrow> string \<Rightarrow> ('s, 'a) op \<Rightarrow> nat \<Rightarrow> ('s, 'a) op" where
  "retry_from env p what op attempt s =
     (case op s of
        (Inr v, s') \<Rightarrow> (Inr v, s')
      | (Inl e, s') \<Rightarrow>
          if is_busy e then
            (if max_retries p \<le> attempt then (Inl (DbBusy what e), s')
             else retry_from env p what op (attempt + 1) (env attempt s'))
          else (Inl e, s'))"
  by pat_completeness auto
termination
  by (relation "measure (\<lambda>(env, p, what, op, attempt, s). max_retries p - attempt)") auto

declare retry_from.simps [simp del]

definition retry_write ::
  "(nat \<Rightarrow> 's \<Rightarrow> 's) \<Rightarrow> write_policy \<Rightarrow> string \<Rightarrow> ('s, 'a) op \<Rightarrow> ('s, 'a) op" where
  "retry_write env p what op s = retry_from env p what op 0 s"

section \<open>What the retry loop guarantees\<close>

lemma retry_from_Ok:
  "op s = (Inr v, s') \<Longrightarrow> retry_from env p what op attempt s = (Inr v, s')"
  by (simp add: retry_from.simps)

lemma retry_from_fatal:
  "op s = (Inl e, s') \<Longrightarrow> \<not> is_busy e \<Longrightarrow> retry_from env p what op attempt s = (Inl e, s')"
  by (simp add: retry_from.simps)

lemma retry_from_busy:
  "op s = (Inl e, s') \<Longrightarrow> is_busy e \<Longrightarrow> attempt < max_retries p \<Longrightarrow>
     retry_from env p what op attempt s =
     retry_from env p what op (attempt + 1) (env attempt s')"
  by (subst retry_from.simps) simp

lemma retry_from_exhausted:
  "op s = (Inl e, s') \<Longrightarrow> is_busy e \<Longrightarrow> max_retries p \<le> attempt \<Longrightarrow>
     retry_from env p what op attempt s = (Inl (DbBusy what e), s')"
  by (simp add: retry_from.simps)

lemma retry_from_busy_error:
  "retry_from env p what op attempt s = (Inl e, s') \<Longrightarrow> is_busy e \<Longrightarrow> \<exists>src. e = DbBusy what src"
proof (induction env p what op attempt s arbitrary: e s' rule: retry_from.induct)
  case (1 env p what op attempt s)
  obtain r t where op: "op s = (r, t)" by fastforce
  show ?case
  proof (cases r)
    case (Inr v)
    with op 1 show ?thesis by (simp add: retry_from_Ok)
  next
    case (Inl f)
    with op 1 show ?thesis
      by (cases "is_busy f"; cases "max_retries p \<le> attempt")
        (auto simp: retry_from_fatal retry_from_exhausted retry_from_busy)
  qed
qed

text \<open>A fact that every attempt and every concurrent step keeps is kept by the loop.\<close>

lemma retry_from_preserves:
  assumes "\<And>s r t. I s \<Longrightarrow> op s = (r, t) \<Longrightarrow> I t"
    and "\<And>n s. I s \<Longrightarrow> I (env n s)"
    and "I s" and "retry_from env p what op attempt s = (r, t)"
  shows "I t"
  using assms(3,4)
proof (induction "max_retries p - attempt" arbitrary: attempt s rule: less_induct)
  case less
  obtain r' t' where op: "op s = (r', t')" by fastforce
  then have t': "I t'" using less.prems(1) assms(1) by blast
  show ?case
  proof (cases r')
    case (Inr v)
    with op less.prems t' show ?thesis by (simp add: retry_from_Ok)
  next
    case (Inl f)
    have "I (env attempt t')" using t' assms(2) by blast
    with op Inl less.prems t' less.hyps [of "Suc attempt" "env attempt t'"] show ?thesis
      by (cases "is_busy f"; cases "max_retries p \<le> attempt")
        (auto simp: retry_from_fatal retry_from_exhausted retry_from_busy)
  qed
qed

end
