(* ===== verification/Json.thy ===== *)
theory Json
  imports Prelude
begin

text \<open>
  JSON documents as \<open>serde_json::Value\<close> holds them, with the accessors the program uses.

  The crate is built without \<open>preserve_order\<close>, so an object is a \<open>BTreeMap\<close>: its
  entries are kept in key order (\<open>bm_ok\<close>). A number is an unsigned or a negative 64-bit
  integer, or a finite double \<open>m * 2 ^ e\<close>.
\<close>

datatype number = PosInt nat | NegInt int | Float int int

datatype val =
    Null
  | Bool bool
  | Number number
  | Str string
  | Array "val list"
  | Object "(string \<times> val) list"

fun val_get :: "val \<Rightarrow> string \<Rightarrow> val option" where
  "val_get (Object m) k = map_of m k"
| "val_get _ k = None"

fun as_array :: "val \<Rightarrow> val list option" where
  "as_array (Array xs) = Some xs"
| "as_array _ = None"

fun as_object :: "val \<Rightarrow> val bmap option" where
  "as_object (Object m) = Some m"
| "as_object _ = None"

fun as_str :: "val \<Rightarrow> string option" where
  "as_str (Str s) = Some s"
| "as_str _ = None"

fun as_bool :: "val \<Rightarrow> bool option" where
  "as_bool (Bool b) = Some b"
| "as_bool _ = None"

fun is_object :: "val \<Rightarrow> bool" where
  "is_object (Object m) = True"
| "is_object _ = False"

fun as_i64 :: "val \<Rightarrow> int option" where
  "as_i64 (Number (PosInt n)) = (if int n \<le> i64_max then Some (int n) else None)"
| "as_i64 (Number (NegInt i)) = Some i"
| "as_i64 _ = None"

fun as_u64 :: "val \<Rightarrow> nat option" where
  "as_u64 (Number (PosInt n)) = Some n"
| "as_u64 _ = None"

text \<open>\<open>v.as_f64().map(|f| f as i64)\<close>: the cast truncates toward zero and saturates. An integer
  above \<open>i64::MAX\<close> is at least \<open>2 ^ 63\<close> as a double, so it saturates too.\<close>

definition clamp_i64 :: "int \<Rightarrow> int" where
  "clamp_i64 i = max i64_min (min i64_max i)"

definition float_trunc :: "int \<Rightarrow> int \<Rightarrow> int" where
  "float_trunc m e =
     (if 0 \<le> e then m * 2 ^ nat e else sgn m * (\<bar>m\<bar> div 2 ^ nat (- e)))"

fun f64_as_i64 :: "val \<Rightarrow> int option" where
  "f64_as_i64 (Number (PosInt n)) = Some (clamp_i64 (int n))"
| "f64_as_i64 (Number (NegInt i)) = Some (clamp_i64 i)"
| "f64_as_i64 (Number (Float m e)) = Some (clamp_i64 (float_trunc m e))"
| "f64_as_i64 _ = None"

text \<open>What the parser guarantees of a document: 64-bit integers and ordered objects.\<close>

fun val_ok :: "val \<Rightarrow> bool" where
  "val_ok (Number (PosInt n)) = (n \<le> u64_max)"
| "val_ok (Number (NegInt i)) = (i64_min \<le> i \<and> i < 0)"
| "val_ok (Array xs) = list_all val_ok xs"
| "val_ok (Object m) = (bm_ok m \<and> list_all (\<lambda>(k, v). val_ok v) m)"
| "val_ok _ = True"

lemma clamp_i64_bounds: "i64_min \<le> clamp_i64 i \<and> clamp_i64 i \<le> i64_max"
  by (simp add: clamp_i64_def)

lemma f64_as_i64_bounds: "f64_as_i64 v = Some i \<Longrightarrow> i64_min \<le> i \<and> i \<le> i64_max"
  using clamp_i64_bounds by (cases v rule: f64_as_i64.cases) auto

lemma as_i64_bounds: "val_ok v \<Longrightarrow> as_i64 v = Some i \<Longrightarrow> i64_min \<le> i \<and> i \<le> i64_max"
  by (cases v rule: as_i64.cases) (auto split: if_splits)

lemma val_ok_get: "val_ok v \<Longrightarrow> val_get v k = Some w \<Longrightarrow> val_ok w"
  by (cases v) (auto simp: list_all_iff dest: map_of_SomeD)

end
