(* ===== verification/Domain.thy ===== *)
theory Domain
  imports Errors Json
begin

text \<open>
  The entities of \<open>src/domain/\<close>: issues, events, projects, teams, users, invites, passkeys and
  settings, the string forms of their enums, and the validation of the names and slugs that users
  choose. A record's fields carry a prefix where the source relies on the type to tell them apart.
\<close>

section \<open>Issues and events\<close>

datatype issue_status = Unresolved | Resolved | Muted

fun issue_status_as_str :: "issue_status \<Rightarrow> string" where
  "issue_status_as_str Unresolved = ''unresolved''"
| "issue_status_as_str Resolved = ''resolved''"
| "issue_status_as_str Muted = ''muted''"

definition issue_status_from_str :: "string \<Rightarrow> issue_status res" where
  "issue_status_from_str s =
     (if s = ''unresolved'' then Inr Unresolved
      else if s = ''resolved'' then Inr Resolved
      else if s = ''muted'' then Inr Muted
      else Inl (Validation (''invalid issue status: '' @ s)))"

record issue =
  iss_id :: uuid
  iss_short_id :: string
  iss_project_id :: uuid
  iss_fingerprint :: string
  iss_title :: string
  iss_culprit :: "string option"
  iss_level :: "string option"
  iss_environment :: "string option"
  iss_release :: "string option"
  iss_status :: issue_status
  iss_muted_at :: "timestamp option"
  iss_muted_until :: "timestamp option"
  iss_mute_threshold :: "int option"
  iss_mute_window_seconds :: "int option"
  iss_first_seen :: timestamp
  iss_last_seen :: timestamp
  iss_event_count :: int
  iss_created_at :: timestamp
  iss_updated_at :: timestamp

datatype mute_spec = Forever | Until timestamp | EventRate int int

record event =
  ev_id :: uuid
  ev_event_id :: string
  ev_issue_id :: uuid
  ev_project_id :: uuid
  ev_payload :: val
  ev_received_at :: timestamp

section \<open>Projects and slugs\<close>

record project =
  prj_id :: uuid
  prj_short_id :: string
  prj_team_id :: uuid
  prj_name :: string
  prj_slug :: string
  prj_dsn_public_key :: string
  prj_retention_events :: int
  prj_retention_days :: int
  prj_muted :: bool
  prj_webhook_url :: "string option"
  prj_created_at :: timestamp
  prj_updated_at :: timestamp
  prj_orphaned_at :: "timestamp option"

definition SLUG_MAX_LEN :: nat where "SLUG_MAX_LEN = 48"

datatype slug_error = SlugEmpty | SlugTooLong | SlugInvalidChar | SlugMisplacedDash

fun slug_error_to_string :: "slug_error \<Rightarrow> string" where
  "slug_error_to_string SlugEmpty = ''must not be empty''"
| "slug_error_to_string SlugTooLong =
     ''must be at most '' @ nat_to_dec SLUG_MAX_LEN @ '' characters''"
| "slug_error_to_string SlugInvalidChar =
     ''may contain only lowercase latin letters, digits and '' @ [CHR 0x27] @ ''-'' @ [CHR 0x27]"
| "slug_error_to_string SlugMisplacedDash =
     ''must not start or end with '' @ [CHR 0x27] @ ''-'' @ [CHR 0x27] @ '' or contain ''
       @ [CHR 0x27] @ ''--'' @ [CHR 0x27]"

abbreviation slug_byte :: "char \<Rightarrow> bool" where
  "slug_byte b \<equiv> is_ascii_lowercase b \<or> is_ascii_digit b \<or> b = CHR ''-''"

definition validate_slug :: "string \<Rightarrow> slug_error + unit" where
  "validate_slug slug =
     (if slug = [] then Inl SlugEmpty
      else if SLUG_MAX_LEN < length slug then Inl SlugTooLong
      else if \<not> list_all slug_byte slug then Inl SlugInvalidChar
      else if starts_with slug ''-'' \<or> ends_with slug ''-'' \<or> str_contains slug ''--''
      then Inl SlugMisplacedDash
      else Inr ())"

text \<open>\<open>Uuid::simple\<close>: the hexadecimal text without its hyphens.\<close>

definition uuid_simple :: "uuid \<Rightarrow> string" where
  "uuid_simple u = filter (\<lambda>c. c \<noteq> CHR ''-'') u"

fun slugify_loop :: "string \<Rightarrow> bool \<Rightarrow> string list \<Rightarrow> string" where
  "slugify_loop slug prev_dash [] = slug"
| "slugify_loop slug prev_dash (ch # chs) =
     (if SLUG_MAX_LEN \<le> length slug then slug
      else if length ch = 1 \<and> is_ascii_alphanumeric (hd ch)
      then slugify_loop (slug @ [to_ascii_lower (hd ch)]) False chs
      else if \<not> prev_dash \<and> slug \<noteq> [] then slugify_loop (slug @ ''-'') True chs
      else slugify_loop slug prev_dash chs)"

text \<open>\<open>new_v4\<close> is the UUID drawn for the fallback.\<close>

definition slugify :: "uuid \<Rightarrow> string \<Rightarrow> string" where
  "slugify new_v4 input =
     (let trimmed = trim_matches_char (CHR ''-'') (slugify_loop [] False (chars input)) in
      if trimmed = [] then ''project-'' @ take 8 (uuid_simple new_v4) else trimmed)"

text \<open>\<open>url_scheme\<close> is what \<open>reqwest::Url::parse\<close> says of a string: its scheme, or that it
  is no URL.\<close>

definition is_valid_webhook_url :: "(string \<Rightarrow> string option) \<Rightarrow> string \<Rightarrow> bool" where
  "is_valid_webhook_url url_scheme v =
     (case url_scheme v of Some s \<Rightarrow> s = ''http'' \<or> s = ''https'' | None \<Rightarrow> False)"

section \<open>Roles\<close>

datatype role = RoleAdmin | RoleMember

fun role_as_str :: "role \<Rightarrow> string" where
  "role_as_str RoleAdmin = ''admin''"
| "role_as_str RoleMember = ''member''"

definition role_from_str :: "string \<Rightarrow> role res" where
  "role_from_str s =
     (if s = ''admin'' then Inr RoleAdmin
      else if s = ''member'' then Inr RoleMember
      else Inl (Validation (''invalid role: '' @ s)))"

datatype team_role = TeamAdmin | TeamContributor

fun team_role_as_str :: "team_role \<Rightarrow> string" where
  "team_role_as_str TeamAdmin = ''admin''"
| "team_role_as_str TeamContributor = ''contributor''"

definition team_role_from_db :: "string \<Rightarrow> team_role" where
  "team_role_from_db s = (if s = ''admin'' then TeamAdmin else TeamContributor)"

definition team_role_from_str :: "string \<Rightarrow> team_role res" where
  "team_role_from_str s =
     (if s = ''admin'' then Inr TeamAdmin
      else if s = ''contributor'' then Inr TeamContributor
      else Inl (Validation (''invalid team role: '' @ s)))"

datatype instance_role = Owner | Manager | InstMember

fun instance_role_as_str :: "instance_role \<Rightarrow> string" where
  "instance_role_as_str Owner = ''owner''"
| "instance_role_as_str Manager = ''manager''"
| "instance_role_as_str InstMember = ''member''"

definition instance_role_from_db :: "string \<Rightarrow> instance_role" where
  "instance_role_from_db s =
     (if s = ''owner'' then Owner else if s = ''manager'' then Manager else InstMember)"

definition instance_role_from_str :: "string \<Rightarrow> instance_role res" where
  "instance_role_from_str s =
     (if s = ''owner'' then Inr Owner
      else if s = ''manager'' then Inr Manager
      else if s = ''member'' then Inr InstMember
      else Inl (Validation (''invalid instance role: '' @ s)))"

definition is_owner :: "instance_role \<Rightarrow> bool" where
  "is_owner r \<longleftrightarrow> r = Owner"

definition can_manage_instance :: "instance_role \<Rightarrow> bool" where
  "can_manage_instance r \<longleftrightarrow> r = Owner \<or> r = Manager"

section \<open>Users\<close>

datatype auth_provider = Local | Oidc

fun auth_provider_as_str :: "auth_provider \<Rightarrow> string" where
  "auth_provider_as_str Local = ''local''"
| "auth_provider_as_str Oidc = ''oidc''"

definition auth_provider_from_db :: "string \<Rightarrow> auth_provider" where
  "auth_provider_from_db s = (if s = ''oidc'' then Oidc else Local)"

datatype user_status = Active | Pending

fun user_status_as_str :: "user_status \<Rightarrow> string" where
  "user_status_as_str Active = ''active''"
| "user_status_as_str Pending = ''pending''"

definition user_status_from_db :: "string \<Rightarrow> user_status" where
  "user_status_from_db s = (if s = ''pending'' then Pending else Active)"

definition is_pending :: "user_status \<Rightarrow> bool" where
  "is_pending s \<longleftrightarrow> s = Pending"

datatype locale_pref = En | Ru

fun locale_as_str :: "locale_pref \<Rightarrow> string" where
  "locale_as_str En = ''en''"
| "locale_as_str Ru = ''ru''"

definition locale_from_str :: "string \<Rightarrow> locale_pref res" where
  "locale_from_str s =
     (if s = ''en'' then Inr En else if s = ''ru'' then Inr Ru
      else Inl (Validation ''unsupported locale''))"

record user =
  usr_id :: uuid
  usr_email :: string
  usr_display_name :: string
  usr_password_hash :: string
  usr_instance_role :: instance_role
  usr_notifications_enabled :: bool
  usr_locale :: "locale_pref option"
  usr_auth_provider :: auth_provider
  usr_status :: user_status
  usr_created_at :: timestamp
  usr_updated_at :: timestamp

record session =
  ses_id :: string
  ses_user_id :: uuid
  ses_created_at :: timestamp
  ses_expires_at :: timestamp

definition should_convert_to_sso :: "user \<Rightarrow> bool" where
  "should_convert_to_sso u \<longleftrightarrow> usr_auth_provider u = Local \<and> \<not> is_owner (usr_instance_role u)"

definition session_allowed_with_sso :: "user \<Rightarrow> bool" where
  "session_allowed_with_sso u \<longleftrightarrow> usr_auth_provider u = Oidc \<or> is_owner (usr_instance_role u)"

definition MIN_DISPLAY_NAME_LEN :: nat where "MIN_DISPLAY_NAME_LEN = 3"

definition normalize_display_name :: "string \<Rightarrow> string res" where
  "normalize_display_name name =
     (let trimmed = trim name in
      if char_count trimmed < MIN_DISPLAY_NAME_LEN
      then Inl (Validation (''display name must be at least '' @ nat_to_dec MIN_DISPLAY_NAME_LEN
             @ '' characters''))
      else Inr trimmed)"

section \<open>Teams, invites, passkeys, settings\<close>

record team =
  tm_id :: uuid
  tm_short_id :: string
  tm_name :: string
  tm_created_at :: timestamp
  tm_updated_at :: timestamp
  tm_orphaned_at :: "timestamp option"

record team_member =
  mb_team_id :: uuid
  mb_user_id :: uuid
  mb_role :: team_role
  mb_created_at :: timestamp

record invite =
  inv_token :: string
  inv_team_id :: uuid
  inv_role :: team_role
  inv_email :: "string option"
  inv_created_by :: "uuid option"
  inv_created_at :: timestamp
  inv_expires_at :: timestamp
  inv_accepted_at :: "timestamp option"

record passkey =
  pk_id :: uuid
  pk_user_id :: uuid
  pk_credential_id :: string
  pk_name :: string
  pk_credential :: string
  pk_created_at :: timestamp
  pk_last_used_at :: "timestamp option"

definition MAX_PASSKEY_NAME_LEN :: nat where "MAX_PASSKEY_NAME_LEN = 64"

definition normalize_passkey_name :: "string \<Rightarrow> string \<Rightarrow> string + string" where
  "normalize_passkey_name name default_name =
     (let trimmed = trim name in
      if trimmed = [] then Inr default_name
      else if MAX_PASSKEY_NAME_LEN < char_count trimmed
      then Inl (''passkey name must be at most '' @ nat_to_dec MAX_PASSKEY_NAME_LEN
             @ '' characters'')
      else Inr trimmed)"

record service_settings =
  set_allow_signup :: bool
  set_org_name :: string
  set_updated_at :: timestamp

record tag_match =
  tag_key :: string
  tag_value :: string

record tag_mute_rule =
  rule_id :: uuid
  rule_project_id :: uuid
  rule_name :: "string option"
  rule_tags :: "tag_match list"
  rule_created_by :: "uuid option"
  rule_created_at :: timestamp
  rule_updated_at :: timestamp

definition rule_matches :: "tag_mute_rule \<Rightarrow> string bmap \<Rightarrow> bool" where
  "rule_matches r event_tags \<longleftrightarrow>
     (if rule_tags r = [] then False
      else list_all (\<lambda>t. map_of event_tags (tag_key t) = Some (tag_value t)) (rule_tags r))"

section \<open>Stored strings read back\<close>

text \<open>Every enum survives its string form: what is written to a column is read back as the
  value it was, by the strict parsers and by the lenient ones.\<close>

theorem stored_enums_roundtrip:
  "issue_status_from_str (issue_status_as_str st) = Inr st \<and>
   role_from_str (role_as_str r) = Inr r \<and>
   team_role_from_str (team_role_as_str t) = Inr t \<and> team_role_from_db (team_role_as_str t) = t \<and>
   instance_role_from_str (instance_role_as_str i) = Inr i \<and>
   instance_role_from_db (instance_role_as_str i) = i \<and>
   auth_provider_from_db (auth_provider_as_str a) = a \<and>
   user_status_from_db (user_status_as_str u) = u \<and> locale_from_str (locale_as_str l) = Inr l"
  by (cases st; cases r; cases t; cases i; cases a; cases u; cases l)
    (simp_all add: issue_status_from_str_def role_from_str_def team_role_from_str_def
      team_role_from_db_def instance_role_from_str_def instance_role_from_db_def
      auth_provider_from_db_def user_status_from_db_def locale_from_str_def)

section \<open>Slugs\<close>

abbreviation no_double_dash :: "string \<Rightarrow> bool" where
  "no_double_dash s \<equiv> successively (\<lambda>a b. \<not> (a = CHR ''-'' \<and> b = CHR ''-'')) s"

lemma contains_double_dash: "str_contains s ''--'' \<longleftrightarrow> \<not> no_double_dash s"
proof (induction s)
  case (Cons c s)
  then show ?case by (cases s) (auto simp: str_contains_def starts_with_def)
qed (simp add: str_contains_def)

lemma starts_with_char: "starts_with s [c] \<longleftrightarrow> s \<noteq> [] \<and> hd s = c"
  by (cases s) (auto simp: starts_with_def)

lemma ends_with_char: "ends_with s [c] \<longleftrightarrow> s \<noteq> [] \<and> last s = c"
  by (auto simp: ends_with_def starts_with_char hd_rev)

lemma validate_slug_ok:
  "validate_slug s = Inr () \<longleftrightarrow>
     s \<noteq> [] \<and> length s \<le> 48 \<and> list_all slug_byte s \<and> hd s \<noteq> CHR ''-'' \<and> last s \<noteq> CHR ''-'' \<and>
     no_double_dash s"
  by (auto simp: validate_slug_def SLUG_MAX_LEN_def starts_with_char ends_with_char
      contains_double_dash split: if_splits)

text \<open>What the loop of \<open>slugify\<close> keeps of the slug it builds.\<close>

definition slug_inv :: "string \<Rightarrow> bool \<Rightarrow> bool" where
  "slug_inv s prev_dash \<longleftrightarrow>
     length s \<le> 48 \<and> list_all slug_byte s \<and> no_double_dash s \<and>
     (s \<noteq> [] \<longrightarrow> hd s \<noteq> CHR ''-'' \<and> (last s = CHR ''-'' \<longleftrightarrow> prev_dash))"

lemma lower_slug_byte:
  assumes "is_ascii_alphanumeric b"
  shows "(is_ascii_lowercase (to_ascii_lower b) \<or> is_ascii_digit (to_ascii_lower b)) \<and>
     to_ascii_lower b \<noteq> CHR ''-''"
proof -
  have "is_ascii_lowercase (to_ascii_lower b) \<or> is_ascii_digit (to_ascii_lower b)"
    using assms by (auto simp: to_ascii_lower_def ascii_defs of_char_of)
  then show ?thesis by (auto simp: ascii_defs)
qed

lemma slug_inv_push:
  "slug_inv s d \<Longrightarrow> length s < 48 \<Longrightarrow> slug_byte b \<Longrightarrow> b \<noteq> CHR ''-'' \<Longrightarrow> slug_inv (s @ [b]) False"
  by (auto simp: slug_inv_def successively_append_iff hd_append)

lemma slug_inv_dash:
  "slug_inv s False \<Longrightarrow> length s < 48 \<Longrightarrow> s \<noteq> [] \<Longrightarrow> slug_inv (s @ ''-'') True"
  by (auto simp: slug_inv_def successively_append_iff)

lemma slugify_loop_inv: "slug_inv s d \<Longrightarrow> \<exists>d'. slug_inv (slugify_loop s d chs) d'"
proof (induction s d chs rule: slugify_loop.induct)
  case (2 s d ch chs)
  then show ?case
    using lower_slug_byte [of "hd ch"] slug_inv_push [of s d "to_ascii_lower (hd ch)"]
      slug_inv_dash [of s]
    by (auto simp: SLUG_MAX_LEN_def)
qed auto

lemma slug_inv_prefix: "slug_inv (a @ b) d \<Longrightarrow> list_all slug_byte a \<and> no_double_dash a"
  by (simp add: slug_inv_def successively_append_iff)

lemma trim_dashes_valid:
  assumes inv: "slug_inv s d" and ne: "trim_matches_char (CHR ''-'') s \<noteq> []"
  shows "validate_slug (trim_matches_char (CHR ''-'') s) = Inr ()"
proof -
  let ?t = "rev (dropWhile (\<lambda>x. x = CHR ''-'') (rev s))"
    and ?u = "rev (takeWhile (\<lambda>x. x = CHR ''-'') (rev s))"
  have hd: "s = [] \<or> hd s \<noteq> CHR ''-''" using inv by (auto simp: slug_inv_def)
  then have t: "trim_matches_char (CHR ''-'') s = ?t"
    by (cases s) (auto simp: trim_matches_char_def trim_start_char_def trim_end_char_def)
  have s: "?t @ ?u = s" by (rule rev_dropWhile_rev_append)
  have "length ?t \<le> length s" using arg_cong [OF s, of length] by simp
  then have "length ?t \<le> 48" using inv by (simp add: slug_inv_def)
  moreover have "hd ?t \<noteq> CHR ''-''"
    using hd ne t hd_rev_dropWhile_rev [of "\<lambda>x. x = CHR ''-''" s] by auto
  moreover have "last ?t \<noteq> CHR ''-''"
    using ne t hd_dropWhile [of "\<lambda>x. x = CHR ''-''" "rev s"] by (simp add: last_rev)
  moreover have "slug_inv (?t @ ?u) d" using inv by (simp only: s)
  then have "list_all slug_byte ?t \<and> no_double_dash ?t" by (rule slug_inv_prefix)
  moreover have "?t \<noteq> []" using ne t by simp
  ultimately show ?thesis unfolding t validate_slug_ok by blast
qed

text \<open>What \<open>Uuid::to_string\<close> gives: 36 bytes, lowercase hex and hyphens, with eight hex digits
  among its first nine bytes.\<close>

definition uuid_text :: "uuid \<Rightarrow> bool" where
  "uuid_text u \<longleftrightarrow>
     length u = 36 \<and> 8 \<le> length (uuid_simple u) \<and>
     list_all (\<lambda>b. is_ascii_lowercase b \<or> is_ascii_digit b \<or> b = CHR ''-'') u"

lemma fallback_slug_valid:
  assumes "uuid_text u"
  shows "validate_slug (''project-'' @ take 8 (uuid_simple u)) = Inr ()"
proof -
  let ?x = "take 8 (uuid_simple u)"
  have len: "length ?x = 8" using assms by (simp add: uuid_text_def)
  have b: "is_ascii_lowercase c \<or> is_ascii_digit c" "c \<noteq> CHR ''-''" if "c \<in> set ?x" for c
    using that assms by (auto simp: uuid_text_def uuid_simple_def list_all_iff dest!: in_set_takeD)
  from len have ne: "?x \<noteq> []" by auto
  have "no_double_dash ?x"
    using b(2) by (auto simp: successively_conv_nth)
  moreover obtain c x where "?x = c # x" "c \<noteq> CHR ''-''"
    using ne b(2) by (cases ?x) auto
  ultimately have "no_double_dash (''project-'' @ ?x)" by simp
  then show ?thesis
    unfolding validate_slug_ok using len ne b b(2) [of "last ?x"]
    by (auto simp: list_all_iff ascii_defs last_append)
qed

text \<open>The slug derived from any text is a valid slug, the random fallback included.\<close>

theorem slugify_valid:
  assumes "uuid_text new_v4"
  shows "validate_slug (slugify new_v4 input) = Inr ()"
proof -
  have "slug_inv [] False" by (simp add: slug_inv_def)
  then obtain d where "slug_inv (slugify_loop [] False (chars input)) d"
    using slugify_loop_inv by blast
  with assms show ?thesis
    using trim_dashes_valid fallback_slug_valid by (simp add: slugify_def Let_def)
qed

definition example_uuid :: uuid where
  "example_uuid = ''6f1c2a34-0b5d-4e6f-8a9b-0c1d2e3f4a5b''"

lemma example_uuid_text: "uuid_text example_uuid"
  by (simp add: uuid_text_def uuid_simple_def example_uuid_def ascii_defs)

theorem slugify_valid_witness: "validate_slug (slugify example_uuid ''!!!'') = Inr ()"
  by (rule slugify_valid) (rule example_uuid_text)

lemma to_ascii_lower_id: "is_ascii_lowercase b \<or> is_ascii_digit b \<Longrightarrow> to_ascii_lower b = b"
  by (auto simp: to_ascii_lower_def ascii_defs)

lemma slugify_loop_valid:
  "slug_inv (acc @ s) d \<Longrightarrow> length (acc @ s) \<le> 48 \<Longrightarrow> (acc = [] \<longrightarrow> \<not> e) \<Longrightarrow>
     (acc \<noteq> [] \<longrightarrow> (e \<longleftrightarrow> last acc = CHR ''-'')) \<Longrightarrow>
     slugify_loop acc e (map (\<lambda>b. [b]) s) = acc @ s"
proof (induction s arbitrary: acc e)
  case (Cons b s)
  have b: "slug_byte b" using Cons.prems(1) by (simp add: slug_inv_def)
  show ?case
  proof (cases "b = CHR ''-''")
    case True
    have "acc \<noteq> []" "\<not> e"
      using Cons.prems True by (auto simp: slug_inv_def successively_append_iff)
    then show ?thesis
      using True Cons.prems Cons.IH [of "acc @ ''-''" True]
      by (simp add: SLUG_MAX_LEN_def is_ascii_alphanumeric_def is_ascii_alphabetic_def
          is_ascii_lowercase_def is_ascii_uppercase_def is_ascii_digit_def)
  next
    case False
    then have "is_ascii_alphanumeric b" "to_ascii_lower b = b"
      using b to_ascii_lower_id by (auto simp: is_ascii_alphanumeric_def is_ascii_alphabetic_def)
    then show ?thesis
      using False Cons.prems Cons.IH [of "acc @ [b]" False] by (simp add: SLUG_MAX_LEN_def)
  qed
qed simp

text \<open>A valid slug is its own slug: deriving one from it changes nothing.\<close>

theorem slugify_keeps_valid:
  assumes "validate_slug slug = Inr ()"
  shows "slugify new_v4 slug = slug"
proof -
  have v: "slug \<noteq> []" "list_all slug_byte slug" "hd slug \<noteq> CHR ''-''" "last slug \<noteq> CHR ''-''"
    and inv: "slug_inv slug False" "length slug \<le> 48"
    using assms by (auto simp: validate_slug_ok slug_inv_def)
  have "list_all ascii slug" using v(2) by (auto simp: list_all_iff ascii_defs)
  then have "chars slug = map (\<lambda>b. [b]) slug" using chars_ascii_append [of slug "[]"] by simp
  then have "slugify_loop [] False (chars slug) = slug"
    using slugify_loop_valid [of "[]" slug False False] inv by simp
  moreover have "trim_matches_char (CHR ''-'') slug = slug"
  proof -
    have "dropWhile (\<lambda>x. x = CHR ''-'') slug = slug"
      "dropWhile (\<lambda>x. x = CHR ''-'') (rev slug) = rev slug"
      using v by (auto simp: dropWhile_eq_self_iff hd_rev)
    then show ?thesis
      by (simp add: trim_matches_char_def trim_start_char_def trim_end_char_def)
  qed
  ultimately show ?thesis using v(1) by (simp add: slugify_def)
qed

theorem slugify_keeps_valid_witness:
  "validate_slug ''my-app-2'' = Inr () \<and> slugify example_uuid ''my-app-2'' = ''my-app-2''"
proof -
  have "validate_slug ''my-app-2'' = Inr ()" by (simp add: validate_slug_ok ascii_defs)
  with slugify_keeps_valid show ?thesis by blast
qed

end
