(* ===== verification/Store.thy ===== *)
theory Store
  imports Domain "HOL-Library.Product_Lexorder"
begin

text \<open>
  The database and the SQLite adapter of issues: \<open>src/adapters/sqlite/issue.rs\<close>, with the
  helpers of \<open>src/adapters/sqlite/convert.rs\<close> and \<open>write.rs\<close>.

  The database is a record of its tables, as lists of decoded rows, with the constraints of
  \<open>migrations/sqlite\<close>: primary keys, the unique indexes on (project, fingerprint) and on the
  short id, and the foreign keys with their cascades. \<open>faults\<close> is the script of driver errors
  that statements and transactions meet, one entry each: a transaction that meets an error leaves
  the tables as they were. \<open>rng_uuid\<close> and \<open>rng_short\<close> are the sequences of random UUIDs and
  short ids, \<open>rng_pos\<close> the number of draws made.
\<close>

section \<open>The database\<close>

record db =
  db_projects :: "project list"
  db_issues :: "issue list"
  db_events :: "event list"
  db_mute_rules :: "tag_mute_rule list"
  db_users :: "user list"
  db_teams :: "team list"
  db_members :: "team_member list"
  db_default_teams :: "uuid list"
  db_sessions :: "session list"
  db_passkeys :: "passkey list"
  db_invites :: "invite list"
  faults :: "sqlx_error option list"
  rng_uuid :: "nat \<Rightarrow> uuid"
  rng_short :: "nat \<Rightarrow> string"
  rng_pos :: nat

abbreviation project_ids :: "db \<Rightarrow> uuid list" where
  "project_ids s \<equiv> map prj_id (db_projects s)"

text \<open>A statement or a transaction: it takes the next entry of the fault script; on an error, its
  own or the driver's, the tables are rolled back.\<close>

definition transaction :: "(db, 'a) op \<Rightarrow> (db, 'a) op" where
  "transaction body s =
     (case faults s of
        Some e # fs \<Rightarrow> (Inl (Db e), s\<lparr>faults := fs\<rparr>)
      | _ \<Rightarrow>
          (let s0 = s\<lparr>faults := tl (faults s)\<rparr> in
           case body s0 of
             (Inr v, t) \<Rightarrow> (Inr v, t)
           | (Inl e, t) \<Rightarrow> (Inl e, s0\<lparr>rng_pos := rng_pos t\<rparr>)))"

definition constraint_failed :: "string \<Rightarrow> error" where
  "constraint_failed what = Db (Database (DriverError (Some ''2067'') what))"

definition foreign_key_failed :: error where
  "foreign_key_failed = Db (Database (DriverError (Some ''787'') ''FOREIGN KEY constraint failed''))"

definition conflict_or_db :: "sqlx_error \<Rightarrow> string \<Rightarrow> error" where
  "conflict_or_db err what =
     (case err of
        Database (DriverError code msg) \<Rightarrow>
          (if str_contains (to_ascii_lowercase msg) ''unique constraint''
              \<or> str_contains (to_ascii_lowercase msg) ''constraint failed''
           then Conflict what else Db err)
      | Database (PgDatabaseError sqlstate msg) \<Rightarrow>
          (if str_contains (to_ascii_lowercase msg) ''unique constraint''
              \<or> str_contains (to_ascii_lowercase msg) ''constraint failed''
           then Conflict what else Db err)
      | _ \<Rightarrow> Db err)"

definition SHORT_ID_LEN :: nat where "SHORT_ID_LEN = 6"

text \<open>\<open>unique_short_id_on\<close>: sixteen draws at most.\<close>

fun unique_short_id_loop :: "nat \<Rightarrow> (string \<Rightarrow> bool) \<Rightarrow> (db, string) op" where
  "unique_short_id_loop 0 taken s = (Inl (Internal ''could not allocate a unique short id''), s)"
| "unique_short_id_loop (Suc n) taken s =
     (let candidate = rng_short s (rng_pos s); s = s\<lparr>rng_pos := Suc (rng_pos s)\<rparr> in
      if taken candidate then unique_short_id_loop n taken s else (Inr candidate, s))"

definition issue_short_id_taken :: "db \<Rightarrow> string \<Rightarrow> bool" where
  "issue_short_id_taken s c \<longleftrightarrow> c \<in> set (map iss_short_id (db_issues s))"

definition unique_short_id_on :: "(db, string) op" where
  "unique_short_id_on s = unique_short_id_loop 16 (issue_short_id_taken s) s"

section \<open>Statements on the issues table\<close>

definition select_issue :: "(issue \<Rightarrow> bool) \<Rightarrow> db \<Rightarrow> issue option" where
  "select_issue P s = List.find P (db_issues s)"

definition insert_issue :: "issue \<Rightarrow> (db, issue) op" where
  "insert_issue i s =
     (if iss_id i \<in> set (map iss_id (db_issues s)) then
        (Inl (constraint_failed ''UNIQUE constraint failed: issues.id''), s)
      else if iss_short_id i \<in> set (map iss_short_id (db_issues s)) then
        (Inl (constraint_failed ''UNIQUE constraint failed: issues.short_id''), s)
      else if (iss_project_id i, iss_fingerprint i)
               \<in> set (map (\<lambda>j. (iss_project_id j, iss_fingerprint j)) (db_issues s)) then
        (Inl (constraint_failed
           ''UNIQUE constraint failed: issues.project_id, issues.fingerprint''), s)
      else if iss_project_id i \<notin> set (project_ids s) then
        (Inl foreign_key_failed, s)
      else (Inr i, s\<lparr>db_issues := db_issues s @ [i]\<rparr>))"

text \<open>\<open>UPDATE issues SET ... WHERE id = ? RETURNING ...\<close>, for changes of a row that keep its key
  columns.\<close>

definition update_issue :: "uuid \<Rightarrow> (issue \<Rightarrow> issue) \<Rightarrow> db \<Rightarrow> issue option \<times> db" where
  "update_issue iid f s =
     (map_option f (select_issue (\<lambda>i. iss_id i = iid) s),
      s\<lparr>db_issues := map (\<lambda>i. if iss_id i = iid then f i else i) (db_issues s)\<rparr>)"

text \<open>An \<open>UPDATE\<close> that sets the fingerprint is refused while another issue of the project holds
  it.\<close>

definition update_fingerprint :: "uuid \<Rightarrow> string \<Rightarrow> (issue \<Rightarrow> issue) \<Rightarrow> (db, issue option) op" where
  "update_fingerprint iid fp f s =
     (case select_issue (\<lambda>i. iss_id i = iid) s of
        None \<Rightarrow> (Inr None, s)
      | Some t \<Rightarrow>
          (if list_ex (\<lambda>j. iss_id j \<noteq> iid \<and> iss_project_id j = iss_project_id t
                         \<and> iss_fingerprint j = fp) (db_issues s)
           then (Inl (constraint_failed
                   ''UNIQUE constraint failed: issues.project_id, issues.fingerprint''), s)
           else (case update_issue iid (\<lambda>i. (f i)\<lparr>iss_fingerprint := fp\<rparr>) s of
                   (r, s') \<Rightarrow> (Inr r, s'))))"

text \<open>Deleting an issue deletes its events (\<open>ON DELETE CASCADE\<close>).\<close>

definition delete_issue_row :: "uuid \<Rightarrow> db \<Rightarrow> db" where
  "delete_issue_row iid s =
     s\<lparr>db_issues := filter (\<lambda>i. iss_id i \<noteq> iid) (db_issues s),
       db_events := filter (\<lambda>e. ev_issue_id e \<noteq> iid) (db_events s)\<rparr>"

section \<open>The issue repository\<close>

text \<open>The repository: its write policy, and what other connections do to the database while a
  write sleeps before a retry.\<close>

record repo =
  rp_write :: write_policy
  rp_env :: "nat \<Rightarrow> db \<Rightarrow> db"

record issue_upsert =
  up_project_id :: uuid
  up_fingerprint :: string
  up_title :: string
  up_culprit :: "string option"
  up_level :: "string option"
  up_environment :: "string option"
  up_release :: "string option"
  up_seen_at :: timestamp

record upsert_outcome =
  uo_issue :: issue
  uo_is_new :: bool
  uo_is_regression :: bool

text \<open>The row after an event on an existing issue.\<close>

definition bump_issue :: "issue_upsert \<Rightarrow> issue \<Rightarrow> issue" where
  "bump_issue u cur =
     cur\<lparr>iss_status := (if iss_status cur = Resolved then Unresolved else iss_status cur),
         iss_title := up_title u,
         iss_last_seen := up_seen_at u,
         iss_event_count := iss_event_count cur + 1,
         iss_updated_at := up_seen_at u\<rparr>"

text \<open>The row of a new issue.\<close>

definition new_issue :: "issue_upsert \<Rightarrow> uuid \<Rightarrow> string \<Rightarrow> issue" where
  "new_issue u iid short_id =
     \<lparr>iss_id = iid, iss_short_id = short_id, iss_project_id = up_project_id u,
      iss_fingerprint = up_fingerprint u, iss_title = up_title u, iss_culprit = up_culprit u,
      iss_level = up_level u, iss_environment = up_environment u, iss_release = up_release u,
      iss_status = Unresolved, iss_muted_at = None, iss_muted_until = None,
      iss_mute_threshold = None, iss_mute_window_seconds = None,
      iss_first_seen = up_seen_at u, iss_last_seen = up_seen_at u, iss_event_count = 1,
      iss_created_at = up_seen_at u, iss_updated_at = up_seen_at u\<rparr>"

definition upsert_body :: "issue_upsert \<Rightarrow> (db, upsert_outcome) op" where
  "upsert_body u s =
     (case select_issue (\<lambda>i. iss_project_id i = up_project_id u
                            \<and> iss_fingerprint i = up_fingerprint u) s of
        Some current \<Rightarrow>
          (let is_regression = (iss_status current = Resolved) in
           case update_issue (iss_id current) (bump_issue u) s of
             (Some i, s') \<Rightarrow>
               (Inr \<lparr>uo_issue = i, uo_is_new = False, uo_is_regression = is_regression\<rparr>, s')
           | (None, s') \<Rightarrow> (Inl (Db RowNotFound), s'))
      | None \<Rightarrow>
          (case unique_short_id_on s of
             (Inl e, s') \<Rightarrow> (Inl e, s')
           | (Inr short_id, s') \<Rightarrow>
               (let iid = rng_uuid s' (rng_pos s'); s'' = s'\<lparr>rng_pos := Suc (rng_pos s')\<rparr> in
                case insert_issue (new_issue u iid short_id) s'' of
                  (Inl e, t) \<Rightarrow> (Inl e, t)
                | (Inr i, t) \<Rightarrow>
                    (Inr \<lparr>uo_issue = i, uo_is_new = True, uo_is_regression = False\<rparr>, t))))"

definition upsert_once :: "issue_upsert \<Rightarrow> (db, upsert_outcome) op" where
  "upsert_once u = transaction (upsert_body u)"

definition upsert_by_fingerprint :: "repo \<Rightarrow> issue_upsert \<Rightarrow> (db, upsert_outcome) op" where
  "upsert_by_fingerprint r u =
     retry_write (rp_env r) (rp_write r) ''upsert issue by fingerprint'' (upsert_once u)"

definition find_issue_by_id :: "uuid \<Rightarrow> (db, issue option) op" where
  "find_issue_by_id iid =
     transaction (\<lambda>s. (Inr (select_issue (\<lambda>i. iss_id i = iid) s), s))"

definition find_by_short_id :: "string \<Rightarrow> (db, issue option) op" where
  "find_by_short_id c =
     transaction (\<lambda>s. (Inr (select_issue (\<lambda>i. iss_short_id i = c) s), s))"

definition find_by_fingerprint :: "uuid \<Rightarrow> string \<Rightarrow> (db, issue option) op" where
  "find_by_fingerprint p fp =
     transaction (\<lambda>s.
       (Inr (select_issue (\<lambda>i. iss_project_id i = p \<and> iss_fingerprint i = fp) s), s))"

definition issue_not_found :: "uuid \<Rightarrow> error" where
  "issue_not_found iid = NotFound (''issue '' @ iid)"

definition clear_mute :: "issue_status \<Rightarrow> timestamp \<Rightarrow> issue \<Rightarrow> issue" where
  "clear_mute st now i =
     i\<lparr>iss_status := st, iss_muted_at := None, iss_muted_until := None,
       iss_mute_threshold := None, iss_mute_window_seconds := None, iss_updated_at := now\<rparr>"

definition set_status :: "timestamp \<Rightarrow> uuid \<Rightarrow> issue_status \<Rightarrow> (db, issue) op" where
  "set_status now iid st =
     transaction (\<lambda>s.
       case update_issue iid (clear_mute st now) s of
         (Some i, s') \<Rightarrow> (Inr i, s')
       | (None, s') \<Rightarrow> (Inl (issue_not_found iid), s'))"

definition apply_mute :: "mute_spec \<Rightarrow> timestamp \<Rightarrow> issue \<Rightarrow> issue" where
  "apply_mute spec now i =
     (let (until, threshold, window) =
            (case spec of
               Forever \<Rightarrow> (None, None, None)
             | Until u \<Rightarrow> (Some u, None, None)
             | EventRate n w \<Rightarrow> (None, Some n, Some w))
      in i\<lparr>iss_status := Muted, iss_muted_at := Some now, iss_muted_until := until,
           iss_mute_threshold := threshold, iss_mute_window_seconds := window,
           iss_updated_at := now\<rparr>)"

definition mute :: "uuid \<Rightarrow> mute_spec \<Rightarrow> timestamp \<Rightarrow> (db, issue) op" where
  "mute iid spec now =
     transaction (\<lambda>s.
       case update_issue iid (apply_mute spec now) s of
         (Some i, s') \<Rightarrow> (Inr i, s')
       | (None, s') \<Rightarrow> (Inl (issue_not_found iid), s'))"

definition mute_expired :: "timestamp \<Rightarrow> issue \<Rightarrow> bool" where
  "mute_expired now i \<longleftrightarrow>
     iss_status i = Muted \<and> (case iss_muted_until i of Some u \<Rightarrow> u \<le> now | None \<Rightarrow> False)"

definition clear_expired_mutes :: "timestamp \<Rightarrow> (db, nat) op" where
  "clear_expired_mutes now =
     transaction (\<lambda>s.
       (Inr (length (filter (mute_expired now) (db_issues s))),
        s\<lparr>db_issues := map (\<lambda>i. if mute_expired now i then clear_mute Unresolved now i else i)
            (db_issues s)\<rparr>))"

definition delete_issue :: "uuid \<Rightarrow> (db, unit) op" where
  "delete_issue iid = transaction (\<lambda>s. (Inr (), delete_issue_row iid s))"

section \<open>Merging and splitting by fingerprint\<close>

definition repoint_events :: "uuid \<Rightarrow> uuid \<Rightarrow> db \<Rightarrow> db" where
  "repoint_events target source s =
     s\<lparr>db_events :=
         map (\<lambda>e. if ev_issue_id e = source then e\<lparr>ev_issue_id := target\<rparr> else e) (db_events s)\<rparr>"

definition fold_aggregates :: "issue \<Rightarrow> issue \<Rightarrow> timestamp \<Rightarrow> issue \<Rightarrow> issue" where
  "fold_aggregates target source now i =
     i\<lparr>iss_event_count := iss_event_count target + iss_event_count source,
       iss_first_seen := min (iss_first_seen target) (iss_first_seen source),
       iss_last_seen := max (iss_last_seen target) (iss_last_seen source),
       iss_updated_at := now\<rparr>"

definition override_body :: "timestamp \<Rightarrow> uuid \<Rightarrow> string \<Rightarrow> (db, issue) op" where
  "override_body now issue_id new_fingerprint s =
     (case select_issue (\<lambda>i. iss_id i = issue_id) s of
        None \<Rightarrow> (Inl (issue_not_found issue_id), s)
      | Some target \<Rightarrow>
          if iss_fingerprint target = new_fingerprint then (Inr target, s)
          else
            (let (r, s') =
               (case select_issue (\<lambda>i. iss_project_id i = iss_project_id target
                       \<and> iss_fingerprint i = new_fingerprint \<and> iss_id i \<noteq> issue_id) s of
                  Some source \<Rightarrow>
                    update_fingerprint (iss_id target) new_fingerprint
                      (fold_aggregates target source now)
                      (delete_issue_row (iss_id source)
                        (repoint_events (iss_id target) (iss_id source) s))
                | None \<Rightarrow>
                    update_fingerprint (iss_id target) new_fingerprint
                      (\<lambda>i. i\<lparr>iss_updated_at := now\<rparr>) s)
             in case r of
                  Inl e \<Rightarrow> (Inl e, s')
                | Inr None \<Rightarrow> (Inl (Db RowNotFound), s')
                | Inr (Some i) \<Rightarrow> (Inr i, s')))"

definition override_fingerprint_once :: "timestamp \<Rightarrow> uuid \<Rightarrow> string \<Rightarrow> (db, issue) op" where
  "override_fingerprint_once now iid fp = transaction (override_body now iid fp)"

definition override_fingerprint :: "repo \<Rightarrow> timestamp \<Rightarrow> uuid \<Rightarrow> string \<Rightarrow> (db, issue) op" where
  "override_fingerprint r now iid fp =
     retry_write (rp_env r) (rp_write r) ''override issue fingerprint''
       (override_fingerprint_once now iid fp)"

section \<open>Listing issues\<close>

datatype issue_sort = ByLastSeen | ByEventCount

record issue_filter =
  flt_status :: "issue_status option"
  flt_level :: "string option"
  flt_environment :: "string option"
  flt_release :: "string option"
  flt_query :: "string option"
  flt_limit :: "int option"
  flt_offset :: "int option"
  flt_sort :: issue_sort

text \<open>SQLite's \<open>LIKE\<close>: a percent sign matches any sequence, an underscore one character, and
  letters match regardless of their ASCII case. Characters are compared one by one.\<close>

fun like_chars :: "string list \<Rightarrow> string list \<Rightarrow> bool" where
  "like_chars [] cs = (cs = [])"
| "like_chars (p # ps) [] = (p = ''%'' \<and> like_chars ps [])"
| "like_chars (p # ps) (c # cs) =
     (if p = ''%'' then like_chars ps (c # cs) \<or> like_chars (p # ps) cs
      else if p = ''_'' then like_chars ps cs
      else to_ascii_lowercase p = to_ascii_lowercase c \<and> like_chars ps cs)"

definition sql_like :: "string option \<Rightarrow> string \<Rightarrow> bool" where
  "sql_like column pattern =
     (case column of Some v \<Rightarrow> like_chars (chars pattern) (chars v) | None \<Rightarrow> False)"

definition clamp :: "int \<Rightarrow> int \<Rightarrow> int \<Rightarrow> int" where
  "clamp lo hi x = max lo (min hi x)"

definition matches_opt :: "'a option \<Rightarrow> 'a option \<Rightarrow> bool" where
  "matches_opt wanted column \<longleftrightarrow> (case wanted of None \<Rightarrow> True | Some v \<Rightarrow> column = Some v)"

definition filter_matches :: "uuid \<Rightarrow> issue_filter \<Rightarrow> issue \<Rightarrow> bool" where
  "filter_matches p f i \<longleftrightarrow>
     iss_project_id i = p \<and> matches_opt (flt_status f) (Some (iss_status i)) \<and>
     matches_opt (flt_level f) (iss_level i) \<and>
     matches_opt (flt_environment f) (iss_environment i) \<and>
     matches_opt (flt_release f) (iss_release i) \<and>
     (case flt_query f of
        None \<Rightarrow> True
      | Some q \<Rightarrow> sql_like (Some (iss_title i)) (''%'' @ q @ ''%'')
               \<or> sql_like (iss_culprit i) (''%'' @ q @ ''%''))"

definition issue_order :: "issue_sort \<Rightarrow> issue list \<Rightarrow> issue list" where
  "issue_order so is =
     (case so of
        ByLastSeen \<Rightarrow> sort_key (\<lambda>i. - iss_last_seen i) is
      | ByEventCount \<Rightarrow> sort_key (\<lambda>i. (- iss_event_count i, - iss_last_seen i)) is)"

definition list_issues :: "uuid \<Rightarrow> issue_filter \<Rightarrow> (db, issue list) op" where
  "list_issues p f =
     transaction (\<lambda>s.
       (let limit = clamp 1 500 (case flt_limit f of Some n \<Rightarrow> n | None \<Rightarrow> 50);
            offset = max 0 (case flt_offset f of Some n \<Rightarrow> n | None \<Rightarrow> 0)
        in (Inr (take (nat limit) (drop (nat offset)
              (issue_order (flt_sort f) (filter (filter_matches p f) (db_issues s))))), s)))"

text \<open>The answer of a grouped count is a map from project id to number.\<close>

definition unresolved_counts :: "uuid list \<Rightarrow> (db, (uuid \<times> int) list) op" where
  "unresolved_counts ids s =
     (if ids = [] then (Inr [], s)
      else transaction (\<lambda>s.
        (let rows = filter (\<lambda>i. iss_status i = Unresolved \<and> iss_project_id i \<in> set ids) (db_issues s)
         in (Inr (map (\<lambda>p. (p, int (length (filter (\<lambda>i. iss_project_id i = p) rows))))
                   (remdups (map iss_project_id rows))), s))) s)"

definition last_seen_per_project :: "uuid list \<Rightarrow> (db, (uuid \<times> timestamp) list) op" where
  "last_seen_per_project ids s =
     (if ids = [] then (Inr [], s)
      else transaction (\<lambda>s.
        (let rows = filter (\<lambda>i. iss_status i = Unresolved \<and> iss_project_id i \<in> set ids) (db_issues s)
         in (Inr (map (\<lambda>p. (p, Max (set (map iss_last_seen
                       (filter (\<lambda>i. iss_project_id i = p) rows)))))
                   (remdups (map iss_project_id rows))), s))) s)"

section \<open>The invariant of the tables\<close>

text \<open>Only a muted issue carries mute columns.\<close>

definition mute_ok :: "issue \<Rightarrow> bool" where
  "mute_ok i \<longleftrightarrow>
     iss_status i \<noteq> Muted \<longrightarrow>
       iss_muted_at i = None \<and> iss_muted_until i = None \<and> iss_mute_threshold i = None \<and>
       iss_mute_window_seconds i = None"

definition issue_key :: "issue \<Rightarrow> uuid \<times> string" where
  "issue_key i = (iss_project_id i, iss_fingerprint i)"

definition issues_ok :: "db \<Rightarrow> bool" where
  "issues_ok s \<longleftrightarrow>
     distinct (map iss_id (db_issues s)) \<and> distinct (map iss_short_id (db_issues s)) \<and>
     distinct (map issue_key (db_issues s)) \<and> list_all mute_ok (db_issues s) \<and>
     list_all (\<lambda>i. iss_project_id i \<in> set (project_ids s)) (db_issues s)"

definition events_ok :: "db \<Rightarrow> bool" where
  "events_ok s \<longleftrightarrow>
     distinct (map ev_id (db_events s)) \<and>
     list_all (\<lambda>e. ev_issue_id e \<in> set (map iss_id (db_issues s)) \<and>
                   ev_project_id e \<in> set (project_ids s)) (db_events s)"

definition db_ok :: "db \<Rightarrow> bool" where
  "db_ok s \<longleftrightarrow> issues_ok s \<and> events_ok s"

lemmas db_ok_defs = db_ok_def issues_ok_def events_ok_def

lemma db_ok_script [simp]:
  "db_ok (s\<lparr>faults := fs\<rparr>) = db_ok s" "db_ok (s\<lparr>rng_pos := n\<rparr>) = db_ok s"
  by (simp_all add: db_ok_defs)

text \<open>The tables of a state, without the fault script and the draws.\<close>

definition accounts :: "db \<Rightarrow> user list \<times> team list \<times> team_member list \<times> uuid list \<times> session list \<times>
    passkey list \<times> invite list" where
  "accounts s = (db_users s, db_teams s, db_members s, db_default_teams s, db_sessions s, db_passkeys s,
     db_invites s)"

definition tables :: "db \<Rightarrow> project list \<times> issue list \<times> event list \<times> tag_mute_rule list \<times> _" where
  "tables s = (db_projects s, db_issues s, db_events s, db_mute_rules s, accounts s)"

lemma tables_script [simp]:
  "tables (s\<lparr>faults := fs\<rparr>) = tables s" "tables (s\<lparr>rng_pos := n\<rparr>) = tables s"
  by (simp_all add: tables_def accounts_def)

lemma db_ok_tables: "tables s = tables t \<Longrightarrow> db_ok s = db_ok t"
  by (simp add: tables_def db_ok_defs)

section \<open>Transactions\<close>

lemma transaction_fault:
  "faults s = Some e # fs \<Longrightarrow> transaction body s = (Inl (Db e), s\<lparr>faults := fs\<rparr>)"
  by (simp add: transaction_def)

lemma transaction_calm:
  assumes "faults s = [] \<or> hd (faults s) = None"
  shows "transaction body s =
     (case body (s\<lparr>faults := tl (faults s)\<rparr>) of
        (Inr v, t) \<Rightarrow> (Inr v, t)
      | (Inl e, t) \<Rightarrow> (Inl e, s\<lparr>faults := tl (faults s), rng_pos := rng_pos t\<rparr>))"
  using assms
  by (cases "faults s"; cases "hd (faults s)")
    (auto simp: transaction_def Let_def split: prod.split sum.split)

lemma transaction_cases:
  assumes "transaction body s = (r, t)"
  obtains e fs where "faults s = Some e # fs" "r = Inl (Db e)" "t = s\<lparr>faults := fs\<rparr>"
  | v where "body (s\<lparr>faults := tl (faults s)\<rparr>) = (Inr v, t)" "r = Inr v"
  | e t' where "body (s\<lparr>faults := tl (faults s)\<rparr>) = (Inl e, t')" "r = Inl e"
      "t = s\<lparr>faults := tl (faults s), rng_pos := rng_pos t'\<rparr>"
proof (cases "faults s = [] \<or> hd (faults s) = None")
  case True
  with assms that(2,3) show thesis
    by (auto simp: transaction_calm split: prod.splits sum.splits)
next
  case False
  then obtain e fs where "faults s = Some e # fs" by (cases "faults s") auto
  with assms that(1) show thesis by (simp add: transaction_fault)
qed

lemma transaction_no_fault:
  assumes "faults s = []" "body s = (Inr v, t)"
  shows "transaction body s = (Inr v, t)"
  using assms by (cases s) (simp add: transaction_def)

text \<open>A failed transaction leaves the tables alone, whatever its body did before it failed.\<close>

lemma transaction_error: "transaction body s = (Inl e, t) \<Longrightarrow> tables t = tables s"
  by (erule transaction_cases) auto

lemma transaction_ok:
  assumes "transaction body s = (Inr v, t)"
  obtains s0 where "tables s0 = tables s" "rng_pos s0 = rng_pos s" "body s0 = (Inr v, t)"
proof -
  have "body (s\<lparr>faults := tl (faults s)\<rparr>) = (Inr v, t)"
    using assms by (elim transaction_cases) auto
  then show thesis by (intro that [of "s\<lparr>faults := tl (faults s)\<rparr>"]) simp_all
qed

lemma transaction_preserves:
  assumes "\<And>s r t. db_ok s \<Longrightarrow> body s = (r, t) \<Longrightarrow> db_ok t" and "db_ok s"
    and "transaction body s = (r, t)"
  shows "db_ok t"
  using assms(3)
proof (cases rule: transaction_cases)
  case (2 v)
  then show ?thesis using assms(1,2) by (metis db_ok_script(1))
qed (use assms(2) in auto)

section \<open>Rows\<close>

lemma select_issue_Some:
  "select_issue P s = Some i \<Longrightarrow> i \<in> set (db_issues s) \<and> P i"
  by (auto simp: select_issue_def find_Some_iff)

lemma select_issue_None: "select_issue P s = None \<longleftrightarrow> (\<forall>i \<in> set (db_issues s). \<not> P i)"
  by (auto simp: select_issue_def find_None_iff)

lemma find_distinct:
  "distinct (map f xs) \<Longrightarrow> x \<in> set xs \<Longrightarrow> List.find (\<lambda>y. f y = f x) xs = Some x"
  by (induction xs) (auto simp: image_iff)

lemma find_map: "List.find P (map g xs) = map_option g (List.find (\<lambda>x. P (g x)) xs)"
  by (induction xs) auto

lemma distinct_map_inj: "distinct (map f xs) \<Longrightarrow> x \<in> set xs \<Longrightarrow> y \<in> set xs \<Longrightarrow> f x = f y \<Longrightarrow> x = y"
  by (metis distinct_map inj_onD)

text \<open>The issues of a database as a map: one issue per project and fingerprint.\<close>

definition issue_map :: "db \<Rightarrow> uuid \<times> string \<Rightarrow> issue option" where
  "issue_map s k = select_issue (\<lambda>i. issue_key i = k) s"

lemma issue_map_tables: "tables s = tables t \<Longrightarrow> issue_map s = issue_map t"
  by (simp add: tables_def issue_map_def select_issue_def fun_eq_iff)

lemma issue_map_mem: "issues_ok s \<Longrightarrow> i \<in> set (db_issues s) \<Longrightarrow> issue_map s (issue_key i) = Some i"
  by (simp add: issue_map_def select_issue_def issues_ok_def find_distinct)

text \<open>A change of a row that keeps its keys and its mute columns consistent.\<close>

definition row_change :: "(issue \<Rightarrow> issue) \<Rightarrow> bool" where
  "row_change f \<longleftrightarrow>
     (\<forall>i. iss_id (f i) = iss_id i \<and> iss_short_id (f i) = iss_short_id i \<and>
          issue_key (f i) = issue_key i \<and> (mute_ok i \<longrightarrow> mute_ok (f i)))"

lemma row_change_bump [simp]: "row_change (bump_issue u)"
  by (simp add: row_change_def bump_issue_def issue_key_def mute_ok_def)

lemma row_change_clear [simp]: "row_change (clear_mute st now)"
  by (simp add: row_change_def clear_mute_def issue_key_def mute_ok_def)

lemma row_change_mute [simp]: "row_change (apply_mute spec now)"
  by (cases spec) (simp_all add: row_change_def apply_mute_def issue_key_def mute_ok_def)

lemma row_change_if: "row_change f \<Longrightarrow> row_change (\<lambda>i. if P i then f i else i)"
  by (simp add: row_change_def)

lemma row_change_project: "row_change f \<Longrightarrow> iss_project_id (f i) = iss_project_id i"
  by (auto simp: row_change_def issue_key_def)

lemma change_rows_ok:
  assumes "row_change f" "db_ok s"
  shows "db_ok (s\<lparr>db_issues := map f (db_issues s)\<rparr>)"
proof -
  have "iss_id \<circ> f = iss_id" "iss_short_id \<circ> f = iss_short_id" "issue_key \<circ> f = issue_key"
    using assms(1) by (simp_all add: row_change_def fun_eq_iff)
  moreover have "list_all mute_ok (map f (db_issues s))"
    using assms by (auto simp: row_change_def db_ok_defs list_all_iff)
  moreover have "list_all (\<lambda>i. iss_project_id i \<in> set (project_ids s)) (map f (db_issues s))"
    using assms row_change_project [OF assms(1)] by (simp add: db_ok_defs list_all_iff)
  ultimately show ?thesis
    using assms(2) by (simp add: db_ok_defs image_comp)
qed

lemma update_issue_ok:
  "row_change f \<Longrightarrow> db_ok s \<Longrightarrow> update_issue iid f s = (r, t) \<Longrightarrow> db_ok t"
  using change_rows_ok [OF row_change_if, of f s "\<lambda>i. iss_id i = iid"]
  by (auto simp: update_issue_def)

lemma update_issue_map:
  assumes "row_change f" "db_ok s" "i \<in> set (db_issues s)"
  shows "fst (update_issue (iss_id i) f s) = Some (f i)"
    and "issue_map (snd (update_issue (iss_id i) f s)) = (issue_map s)(issue_key i \<mapsto> f i)"
proof -
  let ?g = "\<lambda>j. if iss_id j = iss_id i then f j else j"
  have d: "distinct (map iss_id (db_issues s))" and ok: "issues_ok s"
    using assms(2) by (simp_all add: db_ok_defs)
  show "fst (update_issue (iss_id i) f s) = Some (f i)"
    using find_distinct [OF d assms(3)] by (simp add: update_issue_def select_issue_def)
  have key: "issue_key (?g j) = issue_key j" for j
    using assms(1) by (simp add: row_change_def)
  have "map_option ?g (issue_map s k) = ((issue_map s)(issue_key i \<mapsto> f i)) k" for k
  proof (cases "issue_map s k")
    case None
    then have "k \<noteq> issue_key i" using issue_map_mem [OF ok assms(3)] by auto
    then show ?thesis using None by simp
  next
    case (Some j)
    then have j: "j \<in> set (db_issues s)" "issue_key j = k"
      using select_issue_Some [of _ s j] by (auto simp: issue_map_def)
    have "iss_id j = iss_id i \<longleftrightarrow> k = issue_key i"
      using j assms(3) ok by (auto simp: issues_ok_def dest: distinct_map_inj)
    moreover have "k = issue_key i \<Longrightarrow> j = i"
      using j assms(3) ok by (auto simp: issues_ok_def dest: distinct_map_inj)
    ultimately show ?thesis using Some by auto
  qed
  then show "issue_map (snd (update_issue (iss_id i) f s)) = (issue_map s)(issue_key i \<mapsto> f i)"
    by (auto simp: update_issue_def issue_map_def select_issue_def find_map key fun_eq_iff)
qed

lemma insert_issue_ok:
  assumes "db_ok s" "mute_ok i" "insert_issue i s = (r, t)"
  shows "db_ok t"
  using assms by (auto simp: insert_issue_def db_ok_defs issue_key_def list_all_iff split: if_splits)

lemma find_append: "List.find P (xs @ ys) = (case List.find P xs of Some x \<Rightarrow> Some x | None \<Rightarrow> List.find P ys)"
  by (induction xs) auto

lemma insert_issue_map:
  "insert_issue i s = (Inr j, t) \<Longrightarrow>
     j = i \<and> issue_map t = (issue_map s)(issue_key i \<mapsto> i) \<and> issue_map s (issue_key i) = None"
proof -
  assume ins: "insert_issue i s = (Inr j, t)"
  then have "issue_key i \<notin> set (map issue_key (db_issues s))"
    and t: "j = i" "db_issues t = db_issues s @ [i]"
    by (auto simp: insert_issue_def issue_key_def split: if_splits)
  then have none: "issue_map s (issue_key i) = None"
    by (auto simp: issue_map_def select_issue_None) (metis image_eqI)
  have "issue_map t k = ((issue_map s)(issue_key i \<mapsto> i)) k" for k
    using none t(2)
    by (cases "k = issue_key i")
      (auto simp: issue_map_def select_issue_def find_append split: option.split)
  with none t(1) show ?thesis by (simp add: fun_eq_iff)
qed

lemma unique_short_id_loop_state:
  "unique_short_id_loop n taken s = (r, t) \<Longrightarrow> \<exists>k. t = s\<lparr>rng_pos := k\<rparr>"
proof (induction n arbitrary: s)
  case 0
  then show ?case by (auto intro: exI [of _ "rng_pos s"])
next
  case (Suc n)
  then show ?case by (fastforce simp: Let_def split: if_splits)
qed

section \<open>The upsert\<close>

text \<open>What one attempt does, in one of three ways: it bumps the issue of the key, it adds a new one,
  or it fails.\<close>

lemma upsert_body_cases:
  assumes "db_ok s" "upsert_body u s = (r, t)"
  obtains (bump) cur where "issue_map s (up_project_id u, up_fingerprint u) = Some cur"
      "r = Inr \<lparr>uo_issue = bump_issue u cur, uo_is_new = False,
                uo_is_regression = (iss_status cur = Resolved)\<rparr>"
      "t = snd (update_issue (iss_id cur) (bump_issue u) s)" "cur \<in> set (db_issues s)"
  | (fresh) iid c k s' where "issue_map s (up_project_id u, up_fingerprint u) = None"
      "s' = s\<lparr>rng_pos := k\<rparr>" "insert_issue (new_issue u iid c) s' = (Inr (new_issue u iid c), t)"
      "r = Inr \<lparr>uo_issue = new_issue u iid c, uo_is_new = True, uo_is_regression = False\<rparr>"
  | (failed) e k where "r = Inl e" "t = s\<lparr>rng_pos := k\<rparr>"
      "issue_map s (up_project_id u, up_fingerprint u) = None"
proof (cases "issue_map s (up_project_id u, up_fingerprint u)")
  case (Some cur)
  then have sel: "select_issue (\<lambda>i. iss_project_id i = up_project_id u
      \<and> iss_fingerprint i = up_fingerprint u) s = Some cur"
    by (simp add: issue_map_def issue_key_def)
  then have mem: "cur \<in> set (db_issues s)" using select_issue_Some by blast
  then have "fst (update_issue (iss_id cur) (bump_issue u) s) = Some (bump_issue u cur)"
    using update_issue_map(1) [OF row_change_bump assms(1)] by blast
  then show thesis
    using assms(2) sel mem Some bump by (auto simp: upsert_body_def split: prod.splits)
next
  case None
  then have sel: "select_issue (\<lambda>i. iss_project_id i = up_project_id u
      \<and> iss_fingerprint i = up_fingerprint u) s = None"
    by (simp add: issue_map_def issue_key_def)
  obtain q s1 where q: "unique_short_id_on s = (q, s1)" by fastforce
  then obtain k where s1: "s1 = s\<lparr>rng_pos := k\<rparr>"
    using unique_short_id_loop_state by (fastforce simp: unique_short_id_on_def)
  show thesis
  proof (cases q)
    case (Inl e)
    with assms(2) sel q s1 None show thesis by (auto simp: upsert_body_def intro: failed)
  next
    case (Inr c)
    let ?i = "new_issue u (rng_uuid s1 (rng_pos s1)) c"
      and ?s = "s1\<lparr>rng_pos := Suc (rng_pos s1)\<rparr>"
    obtain p t' where p: "insert_issue ?i ?s = (p, t')" by fastforce
    show thesis
    proof (cases p)
      case (Inl e)
      with p have "t' = ?s" by (auto simp: insert_issue_def split: if_splits)
      with assms(2) sel q s1 Inr Inl p None show thesis
        by (auto simp: upsert_body_def Let_def intro: failed)
    next
      case (Inr j)
      with p have "j = ?i" using insert_issue_map by blast
      with assms(2) sel q s1 \<open>q = Inr c\<close> Inr p None show thesis
        by (intro fresh [of ?s "Suc k" "rng_uuid s1 (rng_pos s1)" c])
          (simp_all add: upsert_body_def Let_def)
    qed
  qed
qed

lemma upsert_body_existing:
  assumes "db_ok s" "issue_map s (up_project_id u, up_fingerprint u) = Some cur"
  shows "upsert_body u s =
    (Inr \<lparr>uo_issue = bump_issue u cur, uo_is_new = False, uo_is_regression = (iss_status cur = Resolved)\<rparr>,
     snd (update_issue (iss_id cur) (bump_issue u) s))"
proof -
  obtain r t where run: "upsert_body u s = (r, t)" by fastforce
  from assms(1) run show ?thesis by (cases rule: upsert_body_cases) (use assms(2) run in auto)
qed

lemma mute_ok_new_issue [simp]: "mute_ok (new_issue u iid c)"
  by (simp add: mute_ok_def new_issue_def)

lemma issue_key_new [simp]: "issue_key (new_issue u iid c) = (up_project_id u, up_fingerprint u)"
  by (simp add: issue_key_def new_issue_def)

lemma upsert_body_ok:
  assumes "db_ok s" "upsert_body u s = (r, t)"
  shows "db_ok t"
  using assms
proof (cases rule: upsert_body_cases)
  case (bump cur)
  then show ?thesis using update_issue_ok [OF row_change_bump assms(1)] by (metis prod.collapse)
next
  case (fresh iid c k s')
  then show ?thesis using assms(1) insert_issue_ok [of s' "new_issue u iid c"] by simp
next
  case (failed e k)
  then show ?thesis using assms(1) by simp
qed

text \<open>The outcome of an upsert on what was stored under its key, column by column: a stored issue is counted
  once more, takes the title and the time of the event, is reopened when it was resolved and keeps
  everything else, a mute included; an unknown one becomes a new row, unresolved and counted once.\<close>

definition upsert_spec :: "issue_upsert \<Rightarrow> issue option \<Rightarrow> upsert_outcome \<Rightarrow> bool" where
  "upsert_spec u before out \<longleftrightarrow>
     (case before of
        Some cur \<Rightarrow>
          uo_issue out =
            \<lparr>iss_id = iss_id cur, iss_short_id = iss_short_id cur, iss_project_id = iss_project_id cur,
             iss_fingerprint = iss_fingerprint cur, iss_title = up_title u, iss_culprit = iss_culprit cur,
             iss_level = iss_level cur, iss_environment = iss_environment cur, iss_release = iss_release cur,
             iss_status = (case iss_status cur of Resolved \<Rightarrow> Unresolved | Unresolved \<Rightarrow> Unresolved | Muted \<Rightarrow> Muted),
             iss_muted_at = iss_muted_at cur, iss_muted_until = iss_muted_until cur,
             iss_mute_threshold = iss_mute_threshold cur, iss_mute_window_seconds = iss_mute_window_seconds cur,
             iss_first_seen = iss_first_seen cur, iss_last_seen = up_seen_at u,
             iss_event_count = iss_event_count cur + 1,
             iss_created_at = iss_created_at cur, iss_updated_at = up_seen_at u\<rparr> \<and>
          \<not> uo_is_new out \<and> (uo_is_regression out \<longleftrightarrow> iss_status cur = Resolved)
      | None \<Rightarrow>
          (\<exists>iid short_id. uo_issue out =
            \<lparr>iss_id = iid, iss_short_id = short_id, iss_project_id = up_project_id u,
             iss_fingerprint = up_fingerprint u, iss_title = up_title u, iss_culprit = up_culprit u,
             iss_level = up_level u, iss_environment = up_environment u, iss_release = up_release u,
             iss_status = Unresolved, iss_muted_at = None, iss_muted_until = None,
             iss_mute_threshold = None, iss_mute_window_seconds = None,
             iss_first_seen = up_seen_at u, iss_last_seen = up_seen_at u, iss_event_count = 1,
             iss_created_at = up_seen_at u, iss_updated_at = up_seen_at u\<rparr>) \<and>
          uo_is_new out \<and> \<not> uo_is_regression out)"

lemma upsert_spec_iff:
  "upsert_spec u before out \<longleftrightarrow>
     (case before of
        Some cur \<Rightarrow>
          uo_issue out = bump_issue u cur \<and> \<not> uo_is_new out \<and>
          (uo_is_regression out \<longleftrightarrow> iss_status cur = Resolved)
      | None \<Rightarrow>
          (\<exists>iid c. uo_issue out = new_issue u iid c) \<and> uo_is_new out \<and> \<not> uo_is_regression out)"
proof (cases before)
  case None
  then show ?thesis by (simp add: upsert_spec_def new_issue_def)
next
  case (Some cur)
  then show ?thesis
    by (cases cur; cases "iss_status cur") (simp_all add: upsert_spec_def bump_issue_def)
qed

lemma upsert_body_map:
  assumes "db_ok s" "upsert_body u s = (Inr out, t)"
  defines "k \<equiv> (up_project_id u, up_fingerprint u)"
  shows "issue_map t = (issue_map s)(k \<mapsto> uo_issue out) \<and> upsert_spec u (issue_map s k) out"
  using assms(1,2)
proof (cases rule: upsert_body_cases)
  case (bump cur)
  then have "issue_key cur = k"
    using select_issue_Some [of _ s cur] by (auto simp: issue_map_def k_def)
  with bump show ?thesis
    using update_issue_map(2) [OF row_change_bump assms(1), of cur u]
    by (simp add: upsert_spec_iff k_def)
next
  case (fresh iid c n s')
  then have "issue_map t = (issue_map s')(k \<mapsto> new_issue u iid c)"
    using insert_issue_map [of "new_issue u iid c" s'] by (simp add: k_def)
  moreover have "issue_map s' = issue_map s" using fresh(2) issue_map_tables [of s' s] by simp
  ultimately show ?thesis using fresh by (auto simp: upsert_spec_iff k_def)
qed simp

lemma upsert_body_events:
  assumes "db_ok s" "upsert_body u s = (r, t)"
  shows "db_events t = db_events s" "db_projects t = db_projects s"
  using assms
  by (auto elim!: upsert_body_cases simp: update_issue_def insert_issue_def split: if_splits)

lemma upsert_once_ok: "db_ok s \<Longrightarrow> upsert_once u s = (r, t) \<Longrightarrow> db_ok t"
  unfolding upsert_once_def by (rule transaction_preserves [OF upsert_body_ok])

lemma upsert_once_map:
  assumes "db_ok s" "upsert_once u s = (Inr out, t)"
  defines "k \<equiv> (up_project_id u, up_fingerprint u)"
  shows "issue_map t = (issue_map s)(k \<mapsto> uo_issue out) \<and> upsert_spec u (issue_map s k) out \<and>
     db_events t = db_events s"
proof -
  from assms(2) obtain s0 where s0: "tables s0 = tables s" "upsert_body u s0 = (Inr out, t)"
    unfolding upsert_once_def by (elim transaction_ok) auto
  then have "db_ok s0" "issue_map s0 = issue_map s" "db_events s0 = db_events s"
    using assms(1) db_ok_tables [of s0 s] issue_map_tables [of s0 s] by (auto simp: tables_def)
  then show ?thesis
    using upsert_body_map [of s0 u out t] upsert_body_events [of s0 u "Inr out" t] s0
    by (simp add: k_def)
qed

section \<open>Retried transactions\<close>

text \<open>The attempt that decides the outcome of a retried operation ran in some state that the
  invariant holds of.\<close>

lemma retry_from_last:
  assumes "\<And>s e t. I s \<Longrightarrow> op s = (Inl e, t) \<Longrightarrow> I t" "\<And>n s. I s \<Longrightarrow> I (env n s)" "I s"
    and "retry_from env p what op k s = (Inr v, t)"
  shows "\<exists>s0. I s0 \<and> op s0 = (Inr v, t)"
  using assms(3,4)
proof (induction "max_retries p - k" arbitrary: k s rule: less_induct)
  case less
  obtain r s' where op: "op s = (r, s')" by fastforce
  show ?case
  proof (cases r)
    case (Inr w)
    with op less.prems show ?thesis by (auto simp: retry_from_Ok)
  next
    case (Inl e)
    have "I (env k s')" using op Inl less.prems(1) assms(1,2) by blast
    with op Inl less.prems less.hyps [of "Suc k" "env k s'"] show ?thesis
      by (cases "is_busy e"; cases "max_retries p \<le> k")
        (auto simp: retry_from_fatal retry_from_exhausted retry_from_busy)
  qed
qed

lemma retry_from_error:
  assumes "\<And>s e t. I s \<Longrightarrow> op s = (Inl e, t) \<Longrightarrow> I t" "\<And>n s. I s \<Longrightarrow> I (env n s)" "I s"
    and "retry_from env p what op k s = (Inl err, t)"
  shows "I t"
  using assms(3,4)
proof (induction "max_retries p - k" arbitrary: k s rule: less_induct)
  case less
  obtain r s' where op: "op s = (r, s')" by fastforce
  show ?case
  proof (cases r)
    case (Inr w)
    with op less.prems show ?thesis by (auto simp: retry_from_Ok)
  next
    case (Inl e)
    have "I s'" "I (env k s')" using op Inl less.prems(1) assms(1,2) by blast+
    with op Inl less.prems less.hyps [of "Suc k" "env k s'"] show ?thesis
      by (cases "is_busy e"; cases "max_retries p \<le> k")
        (auto simp: retry_from_fatal retry_from_exhausted retry_from_busy)
  qed
qed

text \<open>A repository that no other connection disturbs.\<close>

definition quiet_of :: "write_policy \<Rightarrow> repo" where
  "quiet_of w = \<lparr>rp_write = w, rp_env = (\<lambda>_ s. s)\<rparr>"

lemma quiet_of_simps [simp]: "rp_write (quiet_of w) = w" "rp_env (quiet_of w) = (\<lambda>_ s. s)"
  by (simp_all add: quiet_of_def)

lemma quiet_retry_Ok:
  assumes "retry_write (rp_env (quiet_of w)) w what (transaction body) s = (Inr v, t)"
  obtains s0 where "tables s0 = tables s" "body s0 = (Inr v, t)"
proof -
  have "\<exists>s0. tables s0 = tables s \<and> transaction body s0 = (Inr v, t)"
    using assms unfolding retry_write_def quiet_of_def
    by (intro retry_from_last [where I = "\<lambda>x. tables x = tables s" and env = "\<lambda>_ s. s"])
      (auto dest: transaction_error)
  then obtain s1 where s1: "tables s1 = tables s" "transaction body s1 = (Inr v, t)" by blast
  from s1(2) show thesis by (rule transaction_ok) (use s1(1) that in auto)
qed

lemma quiet_retry_Err:
  assumes "retry_write (rp_env (quiet_of w)) w what (transaction body) s = (Inl e, t)"
  shows "tables t = tables s"
proof (rule retry_from_error [of "\<lambda>x. tables x = tables s" "transaction body" "\<lambda>_ s. s" s w what 0 e t])
  fix x err y
  assume "tables x = tables s" "transaction body x = (Inl err, y)"
  then show "tables y = tables s" using transaction_error [of body x err y] by simp
qed (use assms in \<open>simp_all add: retry_write_def quiet_of_def\<close>)

text \<open>Lock conflicts within the budget delay a quiet repository's transaction and nothing else.\<close>

lemma retry_from_conflicts:
  assumes "rp_env r = (\<lambda>_ s. s)" "k + length es \<le> max_retries (rp_write r)"
    and "list_all (\<lambda>e. is_busy (Db e)) es" "faults s = map Some es @ fs"
  shows "retry_from (rp_env r) (rp_write r) what (transaction body) k s =
         retry_from (rp_env r) (rp_write r) what (transaction body) (k + length es)
           (s\<lparr>faults := fs\<rparr>)"
  using assms(2-4)
proof (induction es arbitrary: k s)
  case Nil
  then have "s\<lparr>faults := fs\<rparr> = s" by simp
  then show ?case by simp
next
  case (Cons e es)
  have "transaction body s = (Inl (Db e), s\<lparr>faults := map Some es @ fs\<rparr>)"
    using Cons.prems(3) by (simp add: transaction_fault)
  then have "retry_from (rp_env r) (rp_write r) what (transaction body) k s =
      retry_from (rp_env r) (rp_write r) what (transaction body) (k + 1)
        (s\<lparr>faults := map Some es @ fs\<rparr>)"
    using Cons.prems(1,2) assms(1) by (simp add: retry_from_busy)
  also have "\<dots> = retry_from (rp_env r) (rp_write r) what (transaction body) (k + 1 + length es)
        (s\<lparr>faults := fs\<rparr>)"
    using Cons.IH [of "k + 1" "s\<lparr>faults := map Some es @ fs\<rparr>"] Cons.prems by simp
  finally show ?case by simp
qed

lemma retry_calm:
  "faults s = [] \<Longrightarrow> body s = (Inr v, t) \<Longrightarrow> retry_write env p what (transaction body) s = (Inr v, t)"
  by (simp add: retry_write_def retry_from_Ok transaction_no_fault)

lemma retry_exhausted:
  assumes "rp_env r = (\<lambda>_ s. s)" "length es = max_retries (rp_write r)"
    and "list_all (\<lambda>e. is_busy (Db e)) (es @ [e])" "faults s = map Some (es @ [e]) @ fs"
  shows "retry_write (rp_env r) (rp_write r) what (transaction body) s =
         (Inl (DbBusy what (Db e)), s\<lparr>faults := fs\<rparr>)"
proof -
  have "transaction body (s\<lparr>faults := Some e # fs\<rparr>) = (Inl (Db e), s\<lparr>faults := fs\<rparr>)"
    using transaction_fault [of "s\<lparr>faults := Some e # fs\<rparr>" e fs body] by simp
  then have "retry_from (rp_env r) (rp_write r) what (transaction body) (0 + length es)
      (s\<lparr>faults := Some e # fs\<rparr>) = (Inl (DbBusy what (Db e)), s\<lparr>faults := fs\<rparr>)"
    using assms(2,3) by (intro retry_from_exhausted) simp_all
  moreover have "retry_from (rp_env r) (rp_write r) what (transaction body) 0 s =
      retry_from (rp_env r) (rp_write r) what (transaction body) (0 + length es) (s\<lparr>faults := Some e # fs\<rparr>)"
    using assms by (intro retry_from_conflicts) simp_all
  ultimately show ?thesis by (simp only: retry_write_def)
qed

section \<open>Merging\<close>

definition repoint :: "uuid \<Rightarrow> uuid \<Rightarrow> event \<Rightarrow> event" where
  "repoint target source e = (if ev_issue_id e = source then e\<lparr>ev_issue_id := target\<rparr> else e)"

definition merged_issue :: "issue \<Rightarrow> issue \<Rightarrow> timestamp \<Rightarrow> issue" where
  "merged_issue target source now =
     (fold_aggregates target source now target)\<lparr>iss_fingerprint := iss_fingerprint source\<rparr>"

definition merged_db :: "issue \<Rightarrow> issue \<Rightarrow> timestamp \<Rightarrow> db \<Rightarrow> db" where
  "merged_db target source now s =
     s\<lparr>db_issues := map (\<lambda>i. if i = target then merged_issue target source now else i)
          (filter (\<lambda>i. i \<noteq> source) (db_issues s)),
       db_events := map (repoint (iss_id target) (iss_id source)) (db_events s)\<rparr>"

definition mergeable :: "db \<Rightarrow> issue \<Rightarrow> issue \<Rightarrow> bool" where
  "mergeable s target source \<longleftrightarrow>
     db_ok s \<and> target \<in> set (db_issues s) \<and> source \<in> set (db_issues s) \<and>
     iss_project_id source = iss_project_id target \<and> iss_fingerprint source \<noteq> iss_fingerprint target"

lemma mergeable_ids:
  assumes "mergeable s target source"
  shows "iss_id source \<noteq> iss_id target" "target \<noteq> source"
  using assms by (auto simp: mergeable_def db_ok_defs dest: distinct_map_inj)

lemma issue_id_iff:
  "db_ok s \<Longrightarrow> i \<in> set (db_issues s) \<Longrightarrow> j \<in> set (db_issues s) \<Longrightarrow> iss_id i = iss_id j \<longleftrightarrow> i = j"
  by (auto simp: db_ok_defs dest: distinct_map_inj)

lemma issue_key_iff:
  "db_ok s \<Longrightarrow> i \<in> set (db_issues s) \<Longrightarrow> j \<in> set (db_issues s) \<Longrightarrow> issue_key i = issue_key j \<longleftrightarrow> i = j"
  by (auto simp: db_ok_defs dest: distinct_map_inj)

lemma select_by_id:
  "db_ok s \<Longrightarrow> i \<in> set (db_issues s) \<Longrightarrow> select_issue (\<lambda>j. iss_id j = iss_id i) s = Some i"
  by (simp add: select_issue_def db_ok_defs find_distinct)

lemma find_unique:
  "x \<in> set xs \<Longrightarrow> \<forall>y \<in> set xs. P y \<longleftrightarrow> y = x \<Longrightarrow> List.find P xs = Some x"
  by (induction xs) auto

lemma repoint_events_eq:
  "db_events (repoint_events target source s) = map (repoint target source) (db_events s)"
  by (simp add: repoint_events_def repoint_def)

lemma filter_repoint:
  "target \<noteq> source \<Longrightarrow>
     filter (\<lambda>e. ev_issue_id e \<noteq> source) (map (repoint target source) es) =
     map (repoint target source) es"
  by (induction es) (auto simp: repoint_def)

lemma override_merge:
  assumes m: "mergeable s target source"
  shows "override_body now (iss_id target) (iss_fingerprint source) s =
         (Inr (merged_issue target source now), merged_db target source now s)"
proof -
  note ids = mergeable_ids [OF m]
  have ok: "db_ok s" and mem: "target \<in> set (db_issues s)" "source \<in> set (db_issues s)"
    and same: "iss_project_id source = iss_project_id target"
    and diff: "iss_fingerprint source \<noteq> iss_fingerprint target"
    using m by (auto simp: mergeable_def)
  have iff: "iss_project_id i = iss_project_id target \<and> iss_fingerprint i = iss_fingerprint source
      \<longleftrightarrow> i = source" if "i \<in> set (db_issues s)" for i
    using issue_key_iff [OF ok that mem(2)] same by (auto simp: issue_key_def)
  have sel: "select_issue (\<lambda>i. iss_id i = iss_id target) s = Some target"
    using select_by_id ok mem(1) by blast
  have col: "select_issue (\<lambda>i. iss_project_id i = iss_project_id target
      \<and> iss_fingerprint i = iss_fingerprint source \<and> iss_id i \<noteq> iss_id target) s = Some source"
    unfolding select_issue_def using iff ids mem by (intro find_unique) auto
  let ?s = "delete_issue_row (iss_id source) (repoint_events (iss_id target) (iss_id source) s)"
  have issues: "db_issues ?s = filter (\<lambda>i. i \<noteq> source) (db_issues s)"
    using issue_id_iff [OF ok _ mem(2)] by (auto simp: delete_issue_row_def repoint_events_def
        intro!: filter_cong)
  have events: "db_events ?s = map (repoint (iss_id target) (iss_id source)) (db_events s)"
    using filter_repoint [OF ids(1) [symmetric]] by (simp add: delete_issue_row_def repoint_events_eq)
  have sel': "select_issue (\<lambda>i. iss_id i = iss_id target) ?s = Some target"
    unfolding select_issue_def issues using mem ids issue_id_iff [OF ok _ mem(1)]
    by (intro find_unique) auto
  have free: "\<not> list_ex (\<lambda>j. iss_id j \<noteq> iss_id target \<and> iss_project_id j = iss_project_id target
      \<and> iss_fingerprint j = iss_fingerprint source) (db_issues ?s)"
    unfolding issues using iff by (auto simp: list_ex_iff)
  have "map (\<lambda>i. if iss_id i = iss_id target
          then (fold_aggregates target source now i)\<lparr>iss_fingerprint := iss_fingerprint source\<rparr> else i)
          (filter (\<lambda>i. i \<noteq> source) (db_issues s)) =
        map (\<lambda>i. if i = target then merged_issue target source now else i)
          (filter (\<lambda>i. i \<noteq> source) (db_issues s))"
    using issue_id_iff [OF ok _ mem(1)] by (auto simp: merged_issue_def)
  then have "update_fingerprint (iss_id target) (iss_fingerprint source)
      (fold_aggregates target source now) ?s =
      (Inr (Some (merged_issue target source now)), merged_db target source now s)"
    using sel' free events issues
    by (simp add: update_fingerprint_def update_issue_def merged_db_def merged_issue_def
        delete_issue_row_def repoint_events_def)
  then show ?thesis using sel col diff by (simp add: override_body_def)
qed

lemma merged_issue_columns:
  assumes "iss_project_id source = iss_project_id target"
  shows "iss_id (merged_issue target source now) = iss_id target"
    "iss_short_id (merged_issue target source now) = iss_short_id target"
    "issue_key (merged_issue target source now) = issue_key source"
    "mute_ok (merged_issue target source now) = mute_ok target"
    "iss_project_id (merged_issue target source now) = iss_project_id target"
  using assms by (simp_all add: merged_issue_def fold_aggregates_def issue_key_def mute_ok_def)

lemma merged_issues_ok:
  assumes m: "mergeable s target source"
  shows "issues_ok (merged_db target source now s)"
proof -
  have ok: "db_ok s" and mem: "target \<in> set (db_issues s)" "source \<in> set (db_issues s)"
    and same: "iss_project_id source = iss_project_id target"
    using m by (auto simp: mergeable_def)
  note merged = merged_issue_columns [OF same, of now]
  let ?g = "\<lambda>i. if i = target then merged_issue target source now else i"
    and ?l = "filter (\<lambda>i. i \<noteq> source) (db_issues s)"
  have "map iss_id (map ?g ?l) = map iss_id ?l" "map iss_short_id (map ?g ?l) = map iss_short_id ?l"
    using merged by simp_all
  then have "distinct (map iss_id (map ?g ?l))" "distinct (map iss_short_id (map ?g ?l))"
    using ok by (simp_all only: db_ok_defs distinct_map_filter)
  moreover have "inj_on (issue_key \<circ> ?g) (set ?l)"
    using issue_key_iff [OF ok] mem merged(3) by (auto simp: inj_on_def)
  then have "distinct (map issue_key (map ?g ?l))"
    using ok by (simp add: db_ok_defs distinct_map)
  moreover have "list_all mute_ok (map ?g ?l)"
    using ok mem merged(4) by (auto simp: db_ok_defs list_all_iff)
  moreover have "list_all (\<lambda>i. iss_project_id i \<in> set (project_ids s)) (map ?g ?l)"
    using ok mem merged(5) by (auto simp: db_ok_defs list_all_iff)
  ultimately show ?thesis by (simp add: issues_ok_def merged_db_def)
qed

lemma event_issue_row:
  "db_ok s \<Longrightarrow> e \<in> set (db_events s) \<Longrightarrow> \<exists>i \<in> set (db_issues s). iss_id i = ev_issue_id e"
  by (force simp: db_ok_defs list_all_iff)

lemma merged_events_ok:
  assumes m: "mergeable s target source"
  shows "events_ok (merged_db target source now s)"
proof -
  have ok: "db_ok s" and mem: "target \<in> set (db_issues s)" "source \<in> set (db_issues s)"
    and same: "iss_project_id source = iss_project_id target"
    using m by (auto simp: mergeable_def)
  note merged = merged_issue_columns [OF same, of now]
  have ids: "iss_id i \<in> set (map iss_id (db_issues (merged_db target source now s)))"
    if "i \<in> set (db_issues s)" "i \<noteq> source" for i
    using that merged(1) by (auto simp: merged_db_def image_iff intro: bexI [of _ i])
  have "ev_issue_id (repoint (iss_id target) (iss_id source) e)
      \<in> set (map iss_id (db_issues (merged_db target source now s)))" if e: "e \<in> set (db_events s)" for e
  proof -
    obtain i where "i \<in> set (db_issues s)" "ev_issue_id e = iss_id i"
      using event_issue_row [OF ok e] by metis
    then show ?thesis
      using ids [of i] ids [of target] mem(1) mergeable_ids [OF m] by (auto simp: repoint_def)
  qed
  moreover have "ev_id (repoint a b e) = ev_id e" "ev_project_id (repoint a b e) = ev_project_id e"
    for a b e by (simp_all add: repoint_def)
  ultimately show ?thesis
    using ok by (auto simp: events_ok_def db_ok_def list_all_iff merged_db_def o_def)
qed

lemma replace_issues_ok:
  assumes "db_ok s" "map iss_id xs = map iss_id (db_issues s)"
    and "map iss_short_id xs = map iss_short_id (db_issues s)" "distinct (map issue_key xs)"
    and "list_all mute_ok xs" "list_all (\<lambda>i. iss_project_id i \<in> set (project_ids s)) xs"
  shows "db_ok (s\<lparr>db_issues := xs\<rparr>)"
proof -
  have "iss_id ` set xs = iss_id ` set (db_issues s)"
    using arg_cong [OF assms(2), of set] by simp
  with assms show ?thesis by (simp add: db_ok_defs)
qed

lemma rename_ok:
  assumes ok: "db_ok s" and mem: "target \<in> set (db_issues s)"
    and free: "\<forall>j \<in> set (db_issues s). j \<noteq> target \<longrightarrow> issue_key j \<noteq> (iss_project_id target, fp)"
  shows "db_ok (snd (update_issue (iss_id target)
           (\<lambda>i. i\<lparr>iss_updated_at := now, iss_fingerprint := fp\<rparr>) s))"
proof -
  let ?g = "\<lambda>i. if iss_id i = iss_id target then i\<lparr>iss_updated_at := now, iss_fingerprint := fp\<rparr> else i"
  have key: "issue_key (?g i) = (if i = target then (iss_project_id target, fp) else issue_key i)"
    if "i \<in> set (db_issues s)" for i
    using issue_id_iff [OF ok that mem] by (simp add: issue_key_def)
  have "inj_on (issue_key \<circ> ?g) (set (db_issues s))"
  proof (rule inj_onI)
    fix i j
    assume ij: "i \<in> set (db_issues s)" "j \<in> set (db_issues s)" "(issue_key \<circ> ?g) i = (issue_key \<circ> ?g) j"
    then show "i = j"
      using key [OF ij(1)] key [OF ij(2)] free issue_key_iff [OF ok ij(1,2)]
      by (cases "i = target"; cases "j = target") (auto simp del: if_split)
  qed
  then have "distinct (map issue_key (map ?g (db_issues s)))"
    using ok by (simp add: db_ok_defs distinct_map)
  moreover have "list_all mute_ok (map ?g (db_issues s))"
    "list_all (\<lambda>i. iss_project_id i \<in> set (project_ids s)) (map ?g (db_issues s))"
    using ok by (auto simp: db_ok_defs list_all_iff mute_ok_def)
  ultimately have "db_ok (s\<lparr>db_issues := map ?g (db_issues s)\<rparr>)"
    using ok by (intro replace_issues_ok) simp_all
  then show ?thesis by (simp add: update_issue_def)
qed

text \<open>The override, in its four ways: no such issue, nothing to change, a merge, a rename.\<close>

lemma override_body_cases:
  assumes ok: "db_ok s" and ov: "override_body now iid fp s = (r, t)"
  obtains (missing) "r = Inl (issue_not_found iid)" "t = s"
      "\<forall>i \<in> set (db_issues s). iss_id i \<noteq> iid"
  | (same) target where "target \<in> set (db_issues s)" "iss_id target = iid"
      "iss_fingerprint target = fp" "r = Inr target" "t = s"
  | (merge) target source where "mergeable s target source" "iss_id target = iid"
      "iss_fingerprint source = fp" "r = Inr (merged_issue target source now)"
      "t = merged_db target source now s"
  | (rename) target where "target \<in> set (db_issues s)" "iss_id target = iid"
      "\<forall>j \<in> set (db_issues s). issue_key j \<noteq> (iss_project_id target, fp)"
      "r = Inr (target\<lparr>iss_updated_at := now, iss_fingerprint := fp\<rparr>)"
      "t = snd (update_issue iid (\<lambda>i. i\<lparr>iss_updated_at := now, iss_fingerprint := fp\<rparr>) s)"
proof (cases "select_issue (\<lambda>i. iss_id i = iid) s")
  case None
  then have "\<forall>i \<in> set (db_issues s). iss_id i \<noteq> iid" by (simp add: select_issue_None)
  with None show thesis using ov by (intro missing) (simp_all add: override_body_def)
next
  case (Some target)
  then have target: "target \<in> set (db_issues s)" "iss_id target = iid"
    using select_issue_Some by blast+
  show thesis
  proof (cases "iss_fingerprint target = fp")
    case True
    with ov Some target show thesis by (intro same) (auto simp: override_body_def)
  next
    case False
    show thesis
    proof (cases "\<exists>source \<in> set (db_issues s). issue_key source = (iss_project_id target, fp)")
      case True
      then obtain source where "source \<in> set (db_issues s)" "iss_project_id source = iss_project_id target"
        "iss_fingerprint source = fp" by (auto simp: issue_key_def)
      with target False ok have "mergeable s target source" "iss_fingerprint source = fp"
        by (auto simp: mergeable_def)
      with target(2) ov override_merge [of s target source now] show thesis
        by (intro merge [of target source]) auto
    next
      case free: False
      then have none: "select_issue (\<lambda>i. iss_project_id i = iss_project_id target
          \<and> iss_fingerprint i = fp \<and> iss_id i \<noteq> iid) s = None"
        by (auto simp: select_issue_None issue_key_def)
      have "\<not> list_ex (\<lambda>j. iss_id j \<noteq> iid \<and> iss_project_id j = iss_project_id target
          \<and> iss_fingerprint j = fp) (db_issues s)"
        using free by (auto simp: list_ex_iff issue_key_def)
      with ov Some target False none have
        "r = Inr (target\<lparr>iss_updated_at := now, iss_fingerprint := fp\<rparr>)"
        "t = snd (update_issue iid (\<lambda>i. i\<lparr>iss_updated_at := now, iss_fingerprint := fp\<rparr>) s)"
        by (auto simp: override_body_def update_fingerprint_def update_issue_def)
      with target free show thesis by (intro rename) auto
    qed
  qed
qed

lemma merged_db_ok: "mergeable s target source \<Longrightarrow> db_ok (merged_db target source now s)"
  by (simp add: db_ok_def merged_issues_ok merged_events_ok)

lemma override_body_ok:
  assumes "db_ok s" "override_body now iid fp s = (r, t)"
  shows "db_ok t"
  using assms
proof (cases rule: override_body_cases)
  case (rename target)
  then show ?thesis using assms(1) rename_ok [of s target fp now] by auto
qed (use assms(1) merged_db_ok in auto)

lemma override_once_ok: "db_ok s \<Longrightarrow> override_fingerprint_once now iid fp s = (r, t) \<Longrightarrow> db_ok t"
  unfolding override_fingerprint_once_def by (rule transaction_preserves [OF override_body_ok])

lemma set_status_ok: "db_ok s \<Longrightarrow> set_status now iid st s = (r, t) \<Longrightarrow> db_ok t"
  unfolding set_status_def
  by (erule transaction_preserves [rotated])
    (auto split: prod.splits option.splits dest: update_issue_ok [OF row_change_clear])

lemma mute_keeps_ok: "db_ok s \<Longrightarrow> mute iid spec now s = (r, t) \<Longrightarrow> db_ok t"
  unfolding mute_def
  by (erule transaction_preserves [rotated])
    (auto split: prod.splits option.splits dest: update_issue_ok [OF row_change_mute])

lemma clear_expired_mutes_ok: "db_ok s \<Longrightarrow> clear_expired_mutes now s = (r, t) \<Longrightarrow> db_ok t"
  unfolding clear_expired_mutes_def
  by (erule transaction_preserves [rotated])
    (auto intro!: change_rows_ok row_change_if [OF row_change_clear])

lemma delete_issue_row_ok:
  assumes "db_ok s"
  shows "db_ok (delete_issue_row iid s)"
proof -
  have "ev_issue_id e \<in> iss_id ` {i \<in> set (db_issues s). iss_id i \<noteq> iid}"
    if "e \<in> set (db_events s)" "ev_issue_id e \<noteq> iid" for e
    using event_issue_row [OF assms that(1)] that(2) by force
  with assms show ?thesis
    by (auto simp: delete_issue_row_def db_ok_defs list_all_iff distinct_map_filter)
qed

lemma delete_issue_ok: "db_ok s \<Longrightarrow> delete_issue iid s = (r, t) \<Longrightarrow> db_ok t"
  unfolding delete_issue_def
  by (erule transaction_preserves [rotated]) (auto intro: delete_issue_row_ok)

section \<open>Properties of the issue repository\<close>

text \<open>A database that came from another one by what other connections did while a write slept.\<close>

inductive interfered :: "(nat \<Rightarrow> db \<Rightarrow> db) \<Rightarrow> db \<Rightarrow> db \<Rightarrow> bool" for env where
  start: "tables t = tables s \<Longrightarrow> interfered env s t"
| meanwhile: "interfered env s t \<Longrightarrow> tables v = tables (env n t) \<Longrightarrow> interfered env s v"

lemma interfered_tables: "interfered env s t \<Longrightarrow> tables v = tables t \<Longrightarrow> interfered env s v"
  by (erule interfered.cases) (auto intro: interfered.intros)

text \<open>C12. The upsert refines an update of one entry of a map from (project, fingerprint) to issue:
  when it succeeds, under any interference of other connections that keeps the tables consistent,
  there is a database that those connections alone made of the one it started from, such that the entry
  of its key is the stored issue counted once more, with the title and the time of the event, reopened and
  reported as a regression exactly when it was resolved, and every other column kept, those of a mute included;
  or, where nothing was stored, a new unresolved row counted once; no other issue and no event of that
  database changed, and the tables stay consistent.\<close>

theorem upsert_refines:
  assumes "db_ok s" and "\<And>n s. db_ok s \<Longrightarrow> db_ok (rp_env r n s)"
    and "upsert_by_fingerprint r u s = (Inr out, t)"
  defines "k \<equiv> (up_project_id u, up_fingerprint u)"
  shows "\<exists>s0. interfered (rp_env r) s s0 \<and> db_ok s0 \<and> issue_map t = (issue_map s0)(k \<mapsto> uo_issue out) \<and>
           upsert_spec u (issue_map s0 k) out \<and> db_events t = db_events s0 \<and> db_ok t"
proof -
  let ?I = "\<lambda>x. db_ok x \<and> interfered (rp_env r) s x"
  have failed: "?I y" if "?I x" "upsert_once u x = (Inl e, y)" for x e y
    using that upsert_once_ok [of x u "Inl e" y] interfered_tables [of "rp_env r" s x y]
    by (auto simp: upsert_once_def dest: transaction_error)
  have "\<exists>s0. ?I s0 \<and> upsert_once u s0 = (Inr out, t)"
    using assms(3) unfolding upsert_by_fingerprint_def retry_write_def
    by (intro retry_from_last [where I = ?I and op = "upsert_once u" and env = "rp_env r"])
      (auto intro: assms(1,2) interfered.intros failed [THEN conjunct1] failed [THEN conjunct2])
  then obtain s0 where s0: "interfered (rp_env r) s s0" "db_ok s0" "upsert_once u s0 = (Inr out, t)" by blast
  from upsert_once_map [OF s0(2,3)] upsert_once_ok [OF s0(2,3)] s0(1,2) show ?thesis
    unfolding k_def by blast
qed

text \<open>However many lock conflicts an upsert meets within its budget, the event is counted once:
  the stored issue is bumped exactly once and everything else is as it was.\<close>

theorem upsert_counts_once:
  assumes "db_ok s" "rp_env r = (\<lambda>_ s. s)" "length es \<le> max_retries (rp_write r)"
    and "list_all (\<lambda>e. is_busy (Db e)) es" "faults s = map Some es"
    and "issue_map s (up_project_id u, up_fingerprint u) = Some cur"
  shows "\<exists>t. upsert_by_fingerprint r u s =
               (Inr \<lparr>uo_issue = bump_issue u cur, uo_is_new = False,
                     uo_is_regression = (iss_status cur = Resolved)\<rparr>, t) \<and>
             iss_event_count (bump_issue u cur) = iss_event_count cur + 1 \<and>
             issue_map t = (issue_map s)((up_project_id u, up_fingerprint u) \<mapsto> bump_issue u cur) \<and>
             db_events t = db_events s"
proof -
  let ?s = "s\<lparr>faults := []\<rparr>"
  have ok: "db_ok ?s" and map: "issue_map ?s = issue_map s"
    using assms(1) issue_map_tables [of ?s s] by simp_all
  obtain q t where q: "upsert_body u ?s = (q, t)" by fastforce
  have out: "q = Inr \<lparr>uo_issue = bump_issue u cur, uo_is_new = False,
      uo_is_regression = (iss_status cur = Resolved)\<rparr>"
    using upsert_body_existing [OF ok, of u cur] q assms(6) map by simp
  have once: "upsert_once u ?s = (q, t)"
    using transaction_calm [of ?s "upsert_body u"] q out by (simp add: upsert_once_def)
  have "upsert_by_fingerprint r u s = (q, t)"
    using retry_from_conflicts [of r 0 es s "[]" _ "upsert_body u"] assms(2-5) once out
    by (simp add: upsert_by_fingerprint_def retry_write_def upsert_once_def retry_from_Ok)
  moreover have "db_events t = db_events s" "issue_map t = (issue_map s)
      ((up_project_id u, up_fingerprint u) \<mapsto> bump_issue u cur)"
    using upsert_body_map [of ?s u _ t] upsert_body_events [of ?s u q t] ok q out map by auto
  ultimately show ?thesis using out by (simp add: bump_issue_def)
qed

text \<open>A lock conflict that outlasts the budget surfaces as \<open>DbBusy\<close> naming the operation,
  and nothing was stored.\<close>

theorem upsert_busy_stores_nothing:
  assumes "rp_env r = (\<lambda>_ s. s)" "length es = max_retries (rp_write r)"
    and "list_all (\<lambda>e. is_busy (Db e)) (es @ [e])" "faults s = map Some (es @ [e]) @ fs"
  shows "\<exists>t. upsert_by_fingerprint r u s =
               (Inl (DbBusy ''upsert issue by fingerprint'' (Db e)), t) \<and> tables t = tables s"
  using retry_exhausted [OF assms, of "''upsert issue by fingerprint''" "upsert_body u"]
  by (simp add: upsert_by_fingerprint_def upsert_once_def)

lemma issue_map_Some_iff:
  "issues_ok s \<Longrightarrow> issue_map s k = Some i \<longleftrightarrow> i \<in> set (db_issues s) \<and> issue_key i = k"
  using issue_map_mem [of s i] by (auto simp: issue_map_def dest: select_issue_Some)

lemma merged_db_map:
  assumes m: "mergeable s target source"
  shows "issue_map (merged_db target source now s) =
    (issue_map s)(issue_key target := None, issue_key source \<mapsto> merged_issue target source now)"
proof -
  have ok: "issues_ok s" and mem: "target \<in> set (db_issues s)" "source \<in> set (db_issues s)"
    and same: "iss_project_id source = iss_project_id target"
    using m by (auto simp: mergeable_def db_ok_def)
  note ok' = merged_issues_ok [OF m, of now] and merged = merged_issue_columns [OF same, of now]
  have diff: "issue_key source \<noteq> issue_key target"
    using m by (auto simp: mergeable_def issue_key_def)
  have uniq: "issue_key i = issue_key j \<Longrightarrow> i = j"
    if "i \<in> set (db_issues s)" "j \<in> set (db_issues s)" for i j
    using that ok by (auto simp: issues_ok_def dest: distinct_map_inj)
  have rows: "i \<in> set (db_issues (merged_db target source now s)) \<longleftrightarrow>
      i = merged_issue target source now \<or> i \<in> set (db_issues s) \<and> i \<noteq> source \<and> i \<noteq> target" for i
    using mem diff by (auto simp: merged_db_def)
  have "issue_map (merged_db target source now s) k = Some i \<longleftrightarrow>
    ((issue_map s)(issue_key target := None, issue_key source \<mapsto> merged_issue target source now)) k = Some i"
    for k i
    unfolding issue_map_Some_iff [OF ok'] rows
    using mem merged(3) diff uniq [of i target] uniq [of i source]
    by (auto simp: issue_map_Some_iff [OF ok])
  then show ?thesis by (metis (no_types, lifting) ext not_Some_eq)
qed

text \<open>C16. Giving an issue the fingerprint of another one of its project merges them: the counters
  add up, the earliest and the latest sighting survive, every event of the source is kept and now
  belongs to the target, the source is gone, its key and no other changed, and the tables stay
  consistent.\<close>

theorem override_merges:
  fixes now :: timestamp
  assumes "mergeable s target source" "faults s = []"
  defines "i \<equiv> merged_issue target source now"
  shows "\<exists>t. override_fingerprint r now (iss_id target) (iss_fingerprint source) s = (Inr i, t) \<and>
    iss_event_count i = iss_event_count target + iss_event_count source \<and>
    iss_first_seen i = min (iss_first_seen target) (iss_first_seen source) \<and>
    iss_last_seen i = max (iss_last_seen target) (iss_last_seen source) \<and>
    iss_id i = iss_id target \<and>
    issue_map t = (issue_map s)(issue_key target := None, issue_key source \<mapsto> i) \<and>
    db_events t = map (repoint (iss_id target) (iss_id source)) (db_events s) \<and> db_ok t"
proof -
  let ?t = "merged_db target source now s"
  have "transaction (override_body now (iss_id target) (iss_fingerprint source)) s = (Inr i, ?t)"
    using override_merge [OF assms(1)] assms(2) unfolding i_def by (intro transaction_no_fault) auto
  then have "override_fingerprint r now (iss_id target) (iss_fingerprint source) s = (Inr i, ?t)"
    by (simp add: override_fingerprint_def override_fingerprint_once_def retry_write_def retry_from_Ok)
  then show ?thesis
    using merged_db_map [OF assms(1)] merged_db_ok [OF assms(1)]
    by (simp add: i_def merged_issue_def fold_aggregates_def) (simp add: merged_db_def)
qed

section \<open>Muting\<close>

text \<open>The scheduler's sweep unmutes exactly the issues whose time-based mute has passed: it
  reopens each and clears its mute columns, reports their number, and leaves every other row as it
  was, an indefinite and an event-rate mute included.\<close>

theorem clear_expired_mutes_exact:
  assumes "faults s = []"
  shows "\<exists>t. clear_expired_mutes now s = (Inr (length (filter (mute_expired now) (db_issues s))), t) \<and>
     db_issues t = map (\<lambda>i. if mute_expired now i then clear_mute Unresolved now i else i) (db_issues s) \<and>
     db_events t = db_events s \<and> list_all (\<lambda>i. \<not> mute_expired now i) (db_issues t)"
  using assms
  by (auto simp: clear_expired_mutes_def transaction_calm list_all_iff mute_expired_def clear_mute_def)

text \<open>Muting and reopening: after \<open>mute\<close> the issue is muted from now on with the columns of
  the chosen period only, and setting another status afterwards leaves no trace of the mute.\<close>

theorem mute_then_reopen:
  assumes "db_ok s" "i \<in> set (db_issues s)" "faults s = []" "st \<noteq> Muted"
  shows "\<exists>j t. mute (iss_id i) spec now s = (Inr j, t) \<and> iss_status j = Muted \<and>
           iss_muted_at j = Some now \<and>
           (iss_muted_until j \<noteq> None \<longrightarrow> iss_mute_threshold j = None \<and> iss_mute_window_seconds j = None) \<and>
           (\<exists>k u. set_status later (iss_id i) st t = (Inr k, u) \<and>
              issue_map u = (issue_map s)(issue_key i \<mapsto>
                i\<lparr>iss_status := st, iss_muted_at := None, iss_muted_until := None,
                  iss_mute_threshold := None, iss_mute_window_seconds := None,
                  iss_updated_at := later\<rparr>))"
proof -
  let ?j = "apply_mute spec now i" and ?t = "snd (update_issue (iss_id i) (apply_mute spec now) s)"
  have j: "iss_id ?j = iss_id i" "issue_key ?j = issue_key i" "?j \<in> set (db_issues ?t)"
    using row_change_mute [of spec now] assms(2) by (auto simp: row_change_def update_issue_def)
  have t: "db_ok ?t" "faults ?t = []"
    using assms(1,3) update_issue_ok [OF row_change_mute] by (metis prod.collapse, simp add: update_issue_def)
  have "mute (iss_id i) spec now s = (Inr ?j, ?t)"
    using update_issue_map(1) [OF row_change_mute assms(1,2), of spec now] assms(3)
    unfolding mute_def by (intro transaction_no_fault) (auto split: prod.split)
  moreover have "set_status later (iss_id i) st ?t =
      (Inr (clear_mute st later ?j), snd (update_issue (iss_id i) (clear_mute st later) ?t))"
    using update_issue_map(1) [OF row_change_clear t(1) j(3), unfolded j, of st later] t(2)
    unfolding set_status_def by (intro transaction_no_fault) (auto split: prod.split)
  moreover have "issue_map (snd (update_issue (iss_id i) (clear_mute st later) ?t)) =
      (issue_map s)(issue_key i \<mapsto> clear_mute st later ?j)"
    using update_issue_map(2) [OF row_change_clear t(1) j(3), unfolded j]
      update_issue_map(2) [OF row_change_mute assms(1,2)] by simp
  moreover have "clear_mute st later ?j = clear_mute st later i"
    by (cases spec) (simp_all add: clear_mute_def apply_mute_def)
  ultimately show ?thesis
    by (intro exI [of _ ?j] exI [of _ ?t]) (cases spec; simp add: apply_mute_def clear_mute_def)
qed

section \<open>A small database\<close>

definition example_upsert :: issue_upsert where
  "example_upsert =
     \<lparr>up_project_id = ''p'', up_fingerprint = ''f1'', up_title = ''boom'', up_culprit = None,
      up_level = None, up_environment = None, up_release = None, up_seen_at = 10\<rparr>"

definition example_issue :: issue where
  "example_issue = (new_issue example_upsert ''i1'' ''aaaaaa'')\<lparr>iss_status := Resolved\<rparr>"

definition example_other :: issue where
  "example_other = new_issue (example_upsert\<lparr>up_fingerprint := ''f2'', up_seen_at := 20\<rparr>) ''i2'' ''bbbbbb''"

definition example_project :: project where
  "example_project =
     \<lparr>prj_id = ''p'', prj_short_id = ''cccccc'', prj_team_id = ''t'', prj_name = ''P'', prj_slug = ''p'',
      prj_dsn_public_key = ''k'', prj_retention_events = 0, prj_retention_days = 0, prj_muted = False,
      prj_webhook_url = None, prj_created_at = 0, prj_updated_at = 0, prj_orphaned_at = None\<rparr>"

definition example_db :: db where
  "example_db =
     \<lparr>db_projects = [example_project], db_issues = [example_issue, example_other],
      db_events = [\<lparr>ev_id = ''e1'', ev_event_id = [], ev_issue_id = ''i2'', ev_project_id = ''p'',
                    ev_payload = Null, ev_received_at = 20\<rparr>],
      db_mute_rules = [], db_users = [], db_teams = [], db_members = [], db_default_teams = [],
      db_sessions = [], db_passkeys = [], db_invites = [],
      faults = [], rng_uuid = nat_to_dec, rng_short = nat_to_dec, rng_pos = 0\<rparr>"

definition quiet_repo :: repo where
  "quiet_repo = quiet_of default_write_policy"

definition locked :: sqlx_error where
  "locked = Database (DriverError (Some ''5'') ''database is locked'')"

lemmas example_defs = example_db_def example_project_def example_issue_def example_other_def new_issue_def
  example_upsert_def

lemma example_db_ok [simp]: "db_ok example_db" "db_ok (example_db\<lparr>faults := fs\<rparr>)"
  by (simp_all add: db_ok_defs example_defs issue_key_def mute_ok_def)

lemma example_issue_map [simp]:
  "issue_map example_db (''p'', ''f1'') = Some example_issue"
  "issue_map (example_db\<lparr>faults := fs\<rparr>) (''p'', ''f1'') = Some example_issue"
  by (simp_all add: issue_map_def select_issue_def example_defs issue_key_def)

lemma locked_busy [simp]: "is_busy (Db locked)"
  by (simp add: locked_def parse_int_def digits_value_def is_ascii_digit_def SQLITE_BUSY_def)

theorem upsert_refines_witness:
  "\<exists>out t s0. upsert_by_fingerprint quiet_repo example_upsert example_db = (Inr out, t) \<and> db_ok s0 \<and>
     upsert_spec example_upsert (issue_map s0 (''p'', ''f1'')) out"
proof -
  have env: "db_ok s \<Longrightarrow> db_ok (rp_env quiet_repo n s)" for n s by (simp add: quiet_repo_def quiet_of_def)
  obtain out t where ev: "upsert_by_fingerprint quiet_repo example_upsert example_db = (Inr out, t)"
    by (simp add: upsert_by_fingerprint_def retry_write_def retry_from.simps upsert_once_def
        transaction_def upsert_body_def select_issue_def update_issue_def example_defs)
  from upsert_refines [OF example_db_ok(1) env ev] ev show ?thesis
    by (auto simp: example_upsert_def)
qed

theorem upsert_counts_once_witness:
  "\<exists>t. issue_map t (''p'', ''f1'') = Some (bump_issue example_upsert example_issue) \<and>
       upsert_by_fingerprint quiet_repo example_upsert (example_db\<lparr>faults := [Some locked, Some locked]\<rparr>) =
         (Inr \<lparr>uo_issue = bump_issue example_upsert example_issue, uo_is_new = False,
               uo_is_regression = True\<rparr>, t)"
proof -
  have key: "(up_project_id example_upsert, up_fingerprint example_upsert) = (''p'', ''f1'')"
    by (simp add: example_upsert_def)
  have "iss_status example_issue = Resolved" by (simp add: example_issue_def)
  then show ?thesis
    using upsert_counts_once [of "example_db\<lparr>faults := [Some locked, Some locked]\<rparr>" quiet_repo
        "[locked, locked]" example_upsert example_issue]
    unfolding key by (auto simp: quiet_repo_def quiet_of_def default_write_policy_def)
qed

theorem upsert_busy_stores_nothing_witness:
  "\<exists>t. upsert_by_fingerprint quiet_repo example_upsert
         (example_db\<lparr>faults := map Some (replicate 5 locked @ [locked]) @ []\<rparr>) =
         (Inl (DbBusy ''upsert issue by fingerprint'' (Db locked)), t) \<and>
       tables t = tables (example_db\<lparr>faults := map Some (replicate 5 locked @ [locked]) @ []\<rparr>)"
proof (rule upsert_busy_stores_nothing [where fs = "[]"])
  show "rp_env quiet_repo = (\<lambda>_ s. s)" "length (replicate 5 locked) = max_retries (rp_write quiet_repo)"
    by (simp_all add: quiet_repo_def quiet_of_def default_write_policy_def)
  show "list_all (\<lambda>e. is_busy (Db e)) (replicate 5 locked @ [locked])"
    by (simp add: list_all_iff)
qed simp

lemma example_mergeable: "mergeable example_db example_issue example_other"
  by (simp add: mergeable_def) (simp add: example_defs)

theorem override_merges_witness:
  "\<exists>t. override_fingerprint quiet_repo 30 ''i1'' ''f2'' example_db =
         (Inr (merged_issue example_issue example_other 30), t) \<and>
       iss_event_count (merged_issue example_issue example_other 30) = 2 \<and> db_ok t"
  using override_merges [OF example_mergeable, of quiet_repo 30]
  by (auto simp: example_defs)

theorem clear_expired_mutes_exact_witness:
  "\<exists>t. clear_expired_mutes 5 example_db = (Inr 0, t) \<and> db_events t = db_events example_db"
  using clear_expired_mutes_exact [of example_db 5]
  by (auto simp: example_db_def example_issue_def example_other_def new_issue_def mute_expired_def)

theorem mute_then_reopen_witness:
  "\<exists>j t. mute ''i1'' Forever 40 example_db = (Inr j, t) \<and> iss_status j = Muted"
  using mute_then_reopen [OF example_db_ok(1), of example_issue Unresolved Forever 40 50]
  by (auto simp: example_defs)

end
