(* ===== verification/EventStore.thy ===== *)
theory EventStore
  imports Store
begin

text \<open>
  The SQLite adapter of events, \<open>src/adapters/sqlite/event.rs\<close>: insertion, the reads, and
  retention by batched deletes.
\<close>

section \<open>The event repository\<close>

record new_event =
  nev_event_id :: string
  nev_issue_id :: uuid
  nev_project_id :: uuid
  nev_payload :: val
  nev_received_at :: timestamp

definition event_row :: "uuid \<Rightarrow> new_event \<Rightarrow> event" where
  "event_row iid n =
     \<lparr>ev_id = iid, ev_event_id = nev_event_id n, ev_issue_id = nev_issue_id n,
      ev_project_id = nev_project_id n, ev_payload = nev_payload n,
      ev_received_at = nev_received_at n\<rparr>"

definition insert_event_row :: "event \<Rightarrow> (db, unit) op" where
  "insert_event_row e s =
     (if ev_id e \<in> set (map ev_id (db_events s)) then
        (Inl (constraint_failed ''UNIQUE constraint failed: events.id''), s)
      else if ev_issue_id e \<notin> set (map iss_id (db_issues s))
              \<or> ev_project_id e \<notin> set (project_ids s) then
        (Inl foreign_key_failed, s)
      else (Inr (), s\<lparr>db_events := db_events s @ [e]\<rparr>))"

text \<open>The id is drawn once, before the retries.\<close>

definition insert_event :: "repo \<Rightarrow> new_event \<Rightarrow> (db, event) op" where
  "insert_event r n s =
     (let e = event_row (rng_uuid s (rng_pos s)) n; s = s\<lparr>rng_pos := Suc (rng_pos s)\<rparr> in
      case retry_write (rp_env r) (rp_write r) ''insert event'' (transaction (insert_event_row e)) s of
        (Inl err, s') \<Rightarrow> (Inl err, s')
      | (Inr _, s') \<Rightarrow> (Inr e, s'))"

definition find_event_by_id :: "uuid \<Rightarrow> (db, event option) op" where
  "find_event_by_id iid =
     transaction (\<lambda>s. (Inr (List.find (\<lambda>e. ev_id e = iid) (db_events s)), s))"

text \<open>\<open>ORDER BY received_at DESC, id DESC\<close>.\<close>

definition newest_first :: "event list \<Rightarrow> event list" where
  "newest_first es = rev (sort_key (\<lambda>e. (ev_received_at e, ev_id e)) es)"

definition recent_events :: "uuid \<Rightarrow> int \<Rightarrow> (db, event list) op" where
  "recent_events iid limit =
     transaction (\<lambda>s.
       (Inr (take (nat (clamp 1 500 limit))
          (newest_first (filter (\<lambda>e. ev_issue_id e = iid) (db_events s)))), s))"

definition latest_for_issue :: "uuid \<Rightarrow> (db, event option) op" where
  "latest_for_issue iid =
     transaction (\<lambda>s.
       (Inr (case newest_first (filter (\<lambda>e. ev_issue_id e = iid) (db_events s)) of
               [] \<Rightarrow> None | e # es \<Rightarrow> Some e), s))"

definition count_for_project :: "uuid \<Rightarrow> (db, int) op" where
  "count_for_project p =
     transaction (\<lambda>s. (Inr (int (length (filter (\<lambda>e. ev_project_id e = p) (db_events s)))), s))"

definition count_in_window :: "uuid \<Rightarrow> timestamp \<Rightarrow> (db, int) op" where
  "count_in_window iid since =
     transaction (\<lambda>s.
       (Inr (int (length (filter (\<lambda>e. ev_issue_id e = iid \<and> since \<le> ev_received_at e)
          (db_events s)))), s))"

definition project_ids_with_events :: "(db, uuid list) op" where
  "project_ids_with_events =
     transaction (\<lambda>s. (Inr (remdups (map ev_project_id (db_events s))), s))"

section \<open>Batched deletes\<close>

text \<open>\<open>LIMIT ?\<close>: a negative limit is no limit.\<close>

definition sql_limit :: "int \<Rightarrow> 'a list \<Rightarrow> 'a list" where
  "sql_limit n xs = (if n < 0 then xs else take (nat n) xs)"

text \<open>\<open>DELETE FROM events WHERE id IN (...)\<close>; the answer is the number of rows.\<close>

definition delete_events :: "uuid list \<Rightarrow> (db, nat) op" where
  "delete_events ids s =
     (Inr (length (filter (\<lambda>e. ev_id e \<in> set ids) (db_events s))),
      s\<lparr>db_events := filter (\<lambda>e. ev_id e \<notin> set ids) (db_events s)\<rparr>)"

text \<open>The loop runs until a batch comes back short; \<open>batch as u64\<close> is the residue modulo
  \<open>2 ^ 64\<close>. Nothing in the loop bounds the number of rounds, so not returning is a value.\<close>

partial_function (option) delete_in_batches ::
  "repo \<Rightarrow> string \<Rightarrow> (int \<Rightarrow> (db, nat) op) \<Rightarrow> nat \<Rightarrow> db \<Rightarrow> (nat res \<times> db) option" where
  "delete_in_batches r what run_batch tot s =
     (case retry_write (rp_env r) (rp_write r) what (run_batch (delete_batch (rp_write r))) s of
        (Inl e, s') \<Rightarrow> Some (Inl e, s')
      | (Inr deleted, s') \<Rightarrow>
          if int deleted < delete_batch (rp_write r) mod 2 ^ 64 then Some (Inr (tot + deleted), s')
          else delete_in_batches r what run_batch (tot + deleted) s')"

definition over_retention :: "uuid \<Rightarrow> int \<Rightarrow> db \<Rightarrow> event list" where
  "over_retention p keep s =
     drop (nat keep) (newest_first (filter (\<lambda>e. ev_project_id e = p) (db_events s)))"

definition prune_batch :: "uuid \<Rightarrow> int \<Rightarrow> int \<Rightarrow> (db, nat) op" where
  "prune_batch p keep batch =
     transaction (\<lambda>s. delete_events (map ev_id (sql_limit batch (over_retention p keep s))) s)"

definition prune_events_over_retention ::
  "repo \<Rightarrow> uuid \<Rightarrow> int \<Rightarrow> db \<Rightarrow> (nat res \<times> db) option" where
  "prune_events_over_retention r p retention_events s =
     (let keep = max retention_events 0
      in delete_in_batches r ''prune events over retention'' (prune_batch p keep) 0 s)"

definition older_than :: "uuid \<Rightarrow> timestamp \<Rightarrow> db \<Rightarrow> event list" where
  "older_than p cutoff s =
     filter (\<lambda>e. ev_project_id e = p \<and> ev_received_at e < cutoff) (db_events s)"

definition older_batch :: "uuid \<Rightarrow> timestamp \<Rightarrow> int \<Rightarrow> (db, nat) op" where
  "older_batch p cutoff batch =
     transaction (\<lambda>s. delete_events (map ev_id (sql_limit batch (older_than p cutoff s))) s)"

definition delete_older_than :: "repo \<Rightarrow> uuid \<Rightarrow> timestamp \<Rightarrow> db \<Rightarrow> (nat res \<times> db) option" where
  "delete_older_than r p cutoff s =
     delete_in_batches r ''delete events older than cutoff'' (older_batch p cutoff) 0 s"

section \<open>Consistency\<close>

lemma insert_event_row_ok: "db_ok s \<Longrightarrow> insert_event_row e s = (r, t) \<Longrightarrow> db_ok t"
  by (auto simp: insert_event_row_def db_ok_defs split: if_splits)

lemma delete_events_ok: "db_ok s \<Longrightarrow> delete_events ids s = (r, t) \<Longrightarrow> db_ok t"
  by (auto simp: delete_events_def db_ok_defs list_all_iff distinct_map_filter)

lemma prune_batch_ok: "db_ok s \<Longrightarrow> prune_batch p keep b s = (r, t) \<Longrightarrow> db_ok t"
  unfolding prune_batch_def by (rule transaction_preserves [OF delete_events_ok])

lemma older_batch_ok: "db_ok s \<Longrightarrow> older_batch p cutoff b s = (r, t) \<Longrightarrow> db_ok t"
  unfolding older_batch_def by (rule transaction_preserves [OF delete_events_ok])

lemma insert_event_step_ok: "db_ok s \<Longrightarrow> transaction (insert_event_row e) s = (r, t) \<Longrightarrow> db_ok t"
  by (rule transaction_preserves [OF insert_event_row_ok])

text \<open>The steps of the database: what a connection may do to it between two moments of another
  one. A step is a transaction, committed or failed.\<close>

inductive db_step :: "db \<Rightarrow> db \<Rightarrow> bool" where
  step_upsert: "upsert_once u s = (r, t) \<Longrightarrow> db_step s t"
| step_override: "override_fingerprint_once now iid fp s = (r', t) \<Longrightarrow> db_step s t"
| step_set_status: "set_status now iid st s = (r', t) \<Longrightarrow> db_step s t"
| step_mute: "mute iid spec now s = (r', t) \<Longrightarrow> db_step s t"
| step_clear: "clear_expired_mutes now s = (n, t) \<Longrightarrow> db_step s t"
| step_delete: "delete_issue iid s = (v, t) \<Longrightarrow> db_step s t"
| step_insert: "transaction (insert_event_row e) s = (v, t) \<Longrightarrow> db_step s t"
| step_prune: "prune_batch p keep b s = (n, t) \<Longrightarrow> db_step s t"
| step_older: "older_batch p cutoff b s = (n, t) \<Longrightarrow> db_step s t"

inductive_cases db_stepE: "db_step s t"

lemmas step_ok = upsert_once_ok override_once_ok set_status_ok mute_keeps_ok clear_expired_mutes_ok
  delete_issue_ok insert_event_step_ok prune_batch_ok older_batch_ok

lemma db_step_ok: "db_step s t \<Longrightarrow> db_ok s \<Longrightarrow> db_ok t"
  by (erule db_stepE) (auto intro: step_ok)

text \<open>C15. The consistency of the tables is an invariant: one issue per project and fingerprint,
  unique ids and short ids, no event without its issue, mute columns on muted issues only. Every
  interleaving of the repositories' transactions keeps it, those that fail included.\<close>

theorem db_steps_keep_consistency:
  assumes "db_step\<^sup>*\<^sup>* s t" "db_ok s"
  shows "db_ok t"
  using assms by (induction rule: rtranclp_induct) (auto intro: db_step_ok)

theorem db_steps_keep_consistency_witness:
  "\<exists>t. db_step\<^sup>*\<^sup>* example_db t \<and> db_issues t = [example_issue] \<and> db_ok t"
proof -
  let ?t = "delete_issue_row ''i2'' example_db"
  have "delete_issue ''i2'' example_db = (Inr (), ?t)"
    unfolding delete_issue_def by (intro transaction_no_fault) (simp_all add: example_db_def)
  then have "db_step\<^sup>*\<^sup>* example_db ?t" by (blast intro: step_delete)
  moreover from db_steps_keep_consistency [OF this example_db_ok(1)] have "db_ok ?t" .
  moreover have "db_issues ?t = [example_issue]" by (simp add: delete_issue_row_def example_defs)
  ultimately show ?thesis by blast
qed

section \<open>Sweeps\<close>

text \<open>All tables but the events: what a sweep leaves alone.\<close>

definition but_events :: "db \<Rightarrow> project list \<times> issue list \<times> tag_mute_rule list \<times> _" where
  "but_events s = (db_projects s, db_issues s, db_mute_rules s, accounts s)"

lemma tables_but_events: "tables s = tables t \<longleftrightarrow> but_events s = but_events t \<and> db_events s = db_events t"
  by (auto simp: tables_def but_events_def)

lemma but_events_update [simp]: "but_events (s\<lparr>db_events := es\<rparr>) = but_events s"
  by (simp add: but_events_def accounts_def)

text \<open>What a sweep relies on: one batch deletes the next of the doomed rows, as many as the batch
  allows, and nothing else.\<close>

locale batch_sweep =
  fixes run :: "int \<Rightarrow> (db, nat) op"
    and doomed :: "db \<Rightarrow> event list"
  assumes run_ok:
    "0 < b \<Longrightarrow> db_ok s \<Longrightarrow> run b s = (Inr n, t) \<Longrightarrow>
       n = min (nat b) (length (doomed s)) \<and> doomed t = drop n (doomed s) \<and> db_ok t \<and>
       but_events t = but_events s \<and>
       db_events t = filter (\<lambda>e. e \<notin> set (take n (doomed s))) (db_events s)"
    and run_failed: "run b s = (Inl e, t) \<Longrightarrow> tables t = tables s"
    and doomed_tables: "tables s = tables t \<Longrightarrow> doomed s = doomed t"
    and run_no_fault: "faults s = [] \<Longrightarrow> \<exists>n t. run b s = (Inr n, t) \<and> faults t = []"
begin

lemma retried_batch:
  assumes "rp_env r = (\<lambda>_ s. s)" "0 < b" "db_ok s"
    and "retry_write (rp_env r) (rp_write r) what (run b) s = (Inr n, t)"
  shows "n = min (nat b) (length (doomed s)) \<and> doomed t = drop n (doomed s) \<and> db_ok t \<and>
    but_events t = but_events s \<and>
    db_events t = filter (\<lambda>e. e \<notin> set (take n (doomed s))) (db_events s)"
proof -
  have "\<exists>s0. tables s0 = tables s \<and> run b s0 = (Inr n, t)"
    using retry_from_last [of "\<lambda>x. tables x = tables s" "run b" "rp_env r" s] assms(1,4) run_failed
    unfolding retry_write_def by auto
  then obtain s0 where s0: "tables s0 = tables s" "run b s0 = (Inr n, t)" by blast
  then have "db_ok s0" "doomed s0 = doomed s" "but_events s0 = but_events s" "db_events s0 = db_events s"
    using assms(3) db_ok_tables [of s0 s] doomed_tables [of s0 s] by (auto simp: tables_but_events)
  with run_ok [OF assms(2) _ s0(2)] show ?thesis by simp
qed

lemma filter_take_drop:
  "filter (\<lambda>e. e \<notin> set (drop n xs)) (filter (\<lambda>e. e \<notin> set (take n xs)) es) =
   filter (\<lambda>e. e \<notin> set xs) es"
proof -
  have "set xs = set (take n xs) \<union> set (drop n xs)" by (metis append_take_drop_id set_append)
  then show ?thesis by (simp add: conj_commute)
qed

text \<open>The loop ends, whatever faults it meets: a full batch removes at least one doomed row.\<close>

lemma sweep_returns:
  assumes "rp_env r = (\<lambda>_ s. s)" "0 < delete_batch (rp_write r)"
    and "delete_batch (rp_write r) < 2 ^ 63" "db_ok s"
  shows "\<exists>res t. delete_in_batches r what run acc s = Some (res, t) \<and> db_ok t \<and> but_events t = but_events s"
  using assms(4)
proof (induction "length (doomed s)" arbitrary: s acc rule: less_induct)
  case less
  obtain q t where q: "retry_write (rp_env r) (rp_write r) what (run (delete_batch (rp_write r))) s = (q, t)"
    by fastforce
  show ?case
  proof (cases q)
    case (Inl e)
    have "tables t = tables s"
      using retry_from_error [of "\<lambda>x. tables x = tables s" "run (delete_batch (rp_write r))" "rp_env r" s]
        assms(1) q [unfolded Inl] run_failed
      unfolding retry_write_def by auto
    with q Inl less.prems db_ok_tables [of t s] show ?thesis
      by (subst delete_in_batches.simps) (simp add: tables_but_events)
  next
    case (Inr n)
    note batch = retried_batch [OF assms(1,2) less.prems q [unfolded Inr]]
    show ?thesis
    proof (cases "int n < delete_batch (rp_write r)")
      case True
      moreover have "db_ok t" "but_events t = but_events s" using batch by blast+
      ultimately show ?thesis using q Inr assms(2,3) by (subst delete_in_batches.simps) simp
    next
      case False
      with batch assms(2) have "length (doomed t) < length (doomed s)" "db_ok t" by auto
      from less.hyps [OF this] q Inr False batch assms(2,3) show ?thesis
        by (subst delete_in_batches.simps) simp
    qed
  qed
qed

lemma sweep_deletes:
  assumes "rp_env r = (\<lambda>_ s. s)" "0 < delete_batch (rp_write r)"
    and "delete_batch (rp_write r) < 2 ^ 63" "db_ok s"
    and "delete_in_batches r what run acc s = Some (Inr m, t)"
  shows "m = acc + length (doomed s) \<and> db_ok t \<and> but_events t = but_events s \<and>
    db_events t = filter (\<lambda>e. e \<notin> set (doomed s)) (db_events s)"
  using assms(4,5)
proof (induction "length (doomed s)" arbitrary: s acc rule: less_induct)
  case less
  obtain q u where q: "retry_write (rp_env r) (rp_write r) what (run (delete_batch (rp_write r))) s = (q, u)"
    by fastforce
  then obtain n where n: "q = Inr n"
    using less.prems(2) by (cases q) (auto simp: delete_in_batches.simps [of r what run acc s])
  note batch = retried_batch [OF assms(1,2) less.prems(1) q [unfolded n]]
  show ?case
  proof (cases "int n < delete_batch (rp_write r)")
    case True
    with less.prems(2) q n assms(2,3) have "m = acc + n" "t = u"
      by (simp_all add: delete_in_batches.simps [of r what run acc s])
    moreover have "n = length (doomed s)" using True batch by auto
    ultimately show ?thesis using batch by simp
  next
    case False
    with less.prems(2) q n assms(2,3)
    have "delete_in_batches r what run (acc + n) u = Some (Inr m, t)"
      by (simp add: delete_in_batches.simps [of r what run acc s])
    moreover have "length (doomed u) < length (doomed s)" "n \<le> length (doomed s)"
      using False batch assms(2) by auto
    ultimately show ?thesis
      using less.hyps [of u "acc + n"] batch filter_take_drop by auto
  qed
qed

lemma sweep_calm:
  assumes "rp_env r = (\<lambda>_ s. s)" "0 < delete_batch (rp_write r)"
    and "delete_batch (rp_write r) < 2 ^ 63" "db_ok s" "faults s = []"
  shows "\<exists>m t. delete_in_batches r what run acc s = Some (Inr m, t) \<and> faults t = []"
  using assms(4,5)
proof (induction "length (doomed s)" arbitrary: s acc rule: less_induct)
  case less
  obtain n t where n: "run (delete_batch (rp_write r)) s = (Inr n, t)" "faults t = []"
    using run_no_fault [OF less.prems(2)] by blast
  then have q: "retry_write (rp_env r) (rp_write r) what (run (delete_batch (rp_write r))) s = (Inr n, t)"
    by (simp add: retry_write_def retry_from_Ok)
  note batch = retried_batch [OF assms(1,2) less.prems(1) q]
  show ?case
  proof (cases "int n < delete_batch (rp_write r)")
    case True
    with q n(2) assms(2,3) show ?thesis by (subst delete_in_batches.simps) simp
  next
    case False
    with batch assms(2) have "length (doomed t) < length (doomed s)" "db_ok t" by auto
    from less.hyps [OF this n(2)] q False assms(2,3) show ?thesis
      by (subst delete_in_batches.simps) simp
  qed
qed

end

section \<open>The two sweeps\<close>

lemma newest_first_filter: "newest_first (filter P es) = filter P (newest_first es)"
  unfolding newest_first_def by (metis filter_sort rev_filter)

lemma set_newest_first [simp]: "set (newest_first es) = set es"
  by (simp add: newest_first_def)

lemma distinct_newest_first [simp]: "distinct (newest_first es) = distinct es"
  by (simp add: newest_first_def)

lemma filter_notin_part:
  assumes "distinct (a @ b @ c)"
  shows "filter (\<lambda>x. x \<notin> set b) (a @ b @ c) = a @ c"
proof -
  have "filter (\<lambda>x. x \<notin> set b) a = a" "filter (\<lambda>x. x \<notin> set b) c = c" "filter (\<lambda>x. x \<notin> set b) b = []"
    using assms by (auto simp: filter_id_conv filter_empty_conv)
  then show ?thesis by simp
qed

lemma filter_notin_middle:
  assumes "distinct xs"
  shows "drop k (filter (\<lambda>x. x \<notin> set (take n (drop k xs))) xs) = drop n (drop k xs)"
proof -
  have xs: "take k xs @ take n (drop k xs) @ drop n (drop k xs) = xs"
    by (simp only: append_take_drop_id)
  have "filter (\<lambda>x. x \<notin> set (take n (drop k xs))) xs = take k xs @ drop n (drop k xs)"
    using filter_notin_part [of "take k xs" "take n (drop k xs)" "drop n (drop k xs)"] assms
    by (simp only: xs)
  then show ?thesis by (simp add: min_def)
qed

lemma filter_notin_take: "distinct xs \<Longrightarrow> filter (\<lambda>x. x \<notin> set (take n xs)) xs = drop n xs"
  using filter_notin_middle [of xs 0 n] by simp

lemma events_distinct: "db_ok s \<Longrightarrow> distinct (db_events s)"
  by (simp add: db_ok_defs distinct_map)

lemma event_id_mem:
  assumes "db_ok s" "set xs \<subseteq> set (db_events s)" "e \<in> set (db_events s)"
  shows "ev_id e \<in> set (map ev_id xs) \<longleftrightarrow> e \<in> set xs"
  using assms by (auto simp: db_ok_defs dest: distinct_map_inj)

text \<open>Deleting rows by the ids of some of them.\<close>

lemma delete_events_rows:
  assumes "db_ok s" "set xs \<subseteq> set (db_events s)" "distinct xs"
  shows "delete_events (map ev_id xs) s =
    (Inr (length xs), s\<lparr>db_events := filter (\<lambda>e. e \<notin> set xs) (db_events s)\<rparr>)"
proof -
  have f: "filter (\<lambda>e. ev_id e \<in> set (map ev_id xs)) (db_events s) = filter (\<lambda>e. e \<in> set xs) (db_events s)"
    "filter (\<lambda>e. ev_id e \<notin> set (map ev_id xs)) (db_events s) = filter (\<lambda>e. e \<notin> set xs) (db_events s)"
    using event_id_mem [OF assms(1,2)] by (auto intro!: filter_cong)
  have "set (filter (\<lambda>e. e \<in> set xs) (db_events s)) = set xs"
    using assms(2) by auto
  then have "length (filter (\<lambda>e. e \<in> set xs) (db_events s)) = length xs"
    using assms(3) events_distinct [OF assms(1)] by (metis distinct_card distinct_filter)
  with f show ?thesis by (simp add: delete_events_def)
qed

lemma sql_limit_pos: "0 < b \<Longrightarrow> sql_limit b xs = take (nat b) xs"
  by (simp add: sql_limit_def)

text \<open>A batch is a transaction that deletes the first rows of a list of doomed ones.\<close>

lemma batch_ok:
  assumes "0 < b" "db_ok s" "\<And>s. set (d s) \<subseteq> set (db_events s)"
    and "\<And>s. db_ok s \<Longrightarrow> distinct (d s)" "\<And>s t. tables s = tables t \<Longrightarrow> d s = d t"
    and "transaction (\<lambda>s. delete_events (map ev_id (sql_limit b (d s))) s) s = (Inr n, t)"
  shows "n = min (nat b) (length (d s)) \<and> db_ok t \<and> but_events t = but_events s \<and>
    db_events t = filter (\<lambda>e. e \<notin> set (take n (d s))) (db_events s)"
proof -
  obtain s0 where s0: "tables s0 = tables s"
    "delete_events (map ev_id (take (nat b) (d s0))) s0 = (Inr n, t)"
    using assms(6) by (elim transaction_ok) (simp add: sql_limit_pos assms(1))
  have ok: "db_ok s0" and d: "d s0 = d s" and tb: "db_events s0 = db_events s" "but_events s0 = but_events s"
    using s0(1) assms(2) assms(5) [OF s0(1)] db_ok_tables [OF s0(1)] by (simp_all add: tables_but_events)
  have "set (take (nat b) (d s0)) \<subseteq> set (db_events s0)" "distinct (take (nat b) (d s0))"
    using assms(3) [of s0] assms(4) [OF ok] by (auto dest: in_set_takeD)
  from delete_events_rows [OF ok this] s0(2)
  have n: "n = min (length (d s)) (nat b)"
    and t: "t = s0\<lparr>db_events := filter (\<lambda>e. e \<notin> set (take (nat b) (d s))) (db_events s)\<rparr>"
    by (auto simp: d tb)
  moreover have "take (nat b) (d s) = take n (d s)" using n by (simp add: min_def)
  moreover have "db_ok t" using delete_events_ok [OF ok s0(2)] .
  ultimately show ?thesis by (simp add: tb min.commute)
qed

lemma batch_no_fault:
  "faults s = [] \<Longrightarrow> \<exists>n t. transaction (\<lambda>s. delete_events (ids s) s) s = (Inr n, t) \<and> faults t = []"
  using transaction_no_fault [of s "\<lambda>s. delete_events (ids s) s"] by (simp add: delete_events_def)

interpretation retention: batch_sweep "prune_batch p keep" "over_retention p keep" for p keep
proof unfold_locales
  fix b s n t
  assume b: "0 < b" "db_ok s" "prune_batch p keep b s = (Inr n, t)"
  have batch: "n = min (nat b) (length (over_retention p keep s)) \<and> db_ok t \<and>
    but_events t = but_events s \<and>
    db_events t = filter (\<lambda>e. e \<notin> set (take n (over_retention p keep s))) (db_events s)"
    using b(3) unfolding prune_batch_def
    by (rule batch_ok [OF b(1,2), rotated 3])
      (auto simp: over_retention_def tables_def events_distinct dest: in_set_dropD)
  let ?all = "newest_first (filter (\<lambda>e. ev_project_id e = p) (db_events s))"
  have "newest_first (filter (\<lambda>e. ev_project_id e = p) (db_events t)) =
      filter (\<lambda>e. e \<notin> set (take n (over_retention p keep s))) ?all"
    using batch by (simp add: newest_first_filter conj_commute)
  moreover have "distinct ?all" using events_distinct [OF b(2)] by simp
  ultimately have "over_retention p keep t = drop n (over_retention p keep s)"
    using filter_notin_middle [of ?all "nat keep" n] by (simp add: over_retention_def)
  with batch show "n = min (nat b) (length (over_retention p keep s)) \<and>
    over_retention p keep t = drop n (over_retention p keep s) \<and> db_ok t \<and>
    but_events t = but_events s \<and>
    db_events t = filter (\<lambda>e. e \<notin> set (take n (over_retention p keep s))) (db_events s)" by blast
qed (auto simp: prune_batch_def over_retention_def tables_def [abs_def] dest: transaction_error
    intro: batch_no_fault)

interpretation ageing: batch_sweep "older_batch p cutoff" "older_than p cutoff" for p cutoff
proof unfold_locales
  fix b s n t
  assume b: "0 < b" "db_ok s" "older_batch p cutoff b s = (Inr n, t)"
  have batch: "n = min (nat b) (length (older_than p cutoff s)) \<and> db_ok t \<and>
    but_events t = but_events s \<and>
    db_events t = filter (\<lambda>e. e \<notin> set (take n (older_than p cutoff s))) (db_events s)"
    using b(3) unfolding older_batch_def
    by (rule batch_ok [OF b(1,2), rotated 3])
      (auto simp: older_than_def tables_def events_distinct)
  then have "older_than p cutoff t = filter (\<lambda>e. e \<notin> set (take n (older_than p cutoff s))) (older_than p cutoff s)"
    by (auto simp: older_than_def intro: filter_cong)
  moreover have "distinct (older_than p cutoff s)"
    using events_distinct [OF b(2)] by (simp add: older_than_def)
  ultimately have "older_than p cutoff t = drop n (older_than p cutoff s)"
    by (simp add: filter_notin_take)
  with batch show "n = min (nat b) (length (older_than p cutoff s)) \<and>
    older_than p cutoff t = drop n (older_than p cutoff s) \<and> db_ok t \<and>
    but_events t = but_events s \<and>
    db_events t = filter (\<lambda>e. e \<notin> set (take n (older_than p cutoff s))) (db_events s)" by blast
qed (auto simp: older_batch_def older_than_def tables_def [abs_def] dest: transaction_error
    intro: batch_no_fault)

text \<open>A usable configuration: the loader refuses a batch below one.\<close>

definition sweep_repo :: "repo \<Rightarrow> bool" where
  "sweep_repo r \<longleftrightarrow>
     rp_env r = (\<lambda>_ s. s) \<and> 0 < delete_batch (rp_write r) \<and> delete_batch (rp_write r) < 2 ^ 63"

text \<open>The retention sweep of a project, batch by batch, returns and leaves exactly the newest
  events: of the project's events the \<open>retention_events\<close> most recent ones stay (none when the number
  is not positive), the count of the deleted ones is reported, and the events of other projects, the
  issues and their counters are untouched.\<close>

lemma prune_keeps_newest:
  fixes p :: uuid and n :: int
  assumes "sweep_repo r" "db_ok s" "faults s = []"
  defines "all \<equiv> newest_first (filter (\<lambda>e. ev_project_id e = p) (db_events s))"
  shows "\<exists>t. prune_events_over_retention r p n s = Some (Inr (length all - nat n), t) \<and>
    newest_first (filter (\<lambda>e. ev_project_id e = p) (db_events t)) = take (nat n) all \<and>
    filter (\<lambda>e. ev_project_id e \<noteq> p) (db_events t) = filter (\<lambda>e. ev_project_id e \<noteq> p) (db_events s) \<and>
    but_events t = but_events s \<and> db_ok t \<and> faults t = []"
proof -
  let ?d = "over_retention p (max n 0) s"
  have r: "rp_env r = (\<lambda>_ s. s)" "0 < delete_batch (rp_write r)" "delete_batch (rp_write r) < 2 ^ 63"
    using assms(1) by (simp_all add: sweep_repo_def)
  obtain m t where run: "delete_in_batches r ''prune events over retention''
      (prune_batch p (max n 0)) 0 s = Some (Inr m, t)" "faults t = []"
    using retention.sweep_calm [OF r assms(2,3)] by blast
  note del = retention.sweep_deletes [OF r assms(2) run(1)]
  have d: "?d = drop (nat n) all" by (simp add: over_retention_def all_def max_def)
  have ndist: "distinct all" using events_distinct [OF assms(2)] by (simp add: all_def)
  have "newest_first (filter (\<lambda>e. ev_project_id e = p) (db_events t)) =
      filter (\<lambda>e. e \<notin> set (drop (nat n) all)) all"
    using del by (simp add: d all_def newest_first_filter conj_commute)
  also have "\<dots> = take (nat n) all"
    using filter_notin_part [of "take (nat n) all" "drop (nat n) all" "[]"] ndist by simp
  finally have kept: "newest_first (filter (\<lambda>e. ev_project_id e = p) (db_events t)) = take (nat n) all" .
  have "set (drop (nat n) all) \<subseteq> {e. ev_project_id e = p}"
    by (auto simp: all_def dest: in_set_dropD)
  then have "filter (\<lambda>e. ev_project_id e \<noteq> p) (db_events t) = filter (\<lambda>e. ev_project_id e \<noteq> p) (db_events s)"
    using del by (auto simp: d intro!: filter_cong)
  with run kept del d show ?thesis by (simp add: prune_events_over_retention_def)
qed

text \<open>The age sweep deletes exactly the project's events before the cutoff, reports their number
  and keeps everything else.\<close>

lemma delete_older_than_exact:
  assumes "sweep_repo r" "db_ok s" "faults s = []"
  shows "\<exists>t. delete_older_than r p cutoff s = Some (Inr (length (older_than p cutoff s)), t) \<and>
    db_events t = filter (\<lambda>e. ev_project_id e \<noteq> p \<or> cutoff \<le> ev_received_at e) (db_events s) \<and>
    but_events t = but_events s \<and> db_ok t \<and> faults t = []"
proof -
  have r: "rp_env r = (\<lambda>_ s. s)" "0 < delete_batch (rp_write r)" "delete_batch (rp_write r) < 2 ^ 63"
    using assms(1) by (simp_all add: sweep_repo_def)
  obtain m t where run: "delete_in_batches r ''delete events older than cutoff''
      (older_batch p cutoff) 0 s = Some (Inr m, t)" "faults t = []"
    using ageing.sweep_calm [OF r assms(2,3)] by blast
  note del = ageing.sweep_deletes [OF r assms(2) run(1)]
  then have "db_events t = filter (\<lambda>e. ev_project_id e \<noteq> p \<or> cutoff \<le> ev_received_at e) (db_events s)"
    by (auto simp: older_than_def intro!: filter_cong)
  with run del show ?thesis by (simp add: delete_older_than_def)
qed

text \<open>Both sweeps return under every script of driver faults: a lock conflict or a fatal error
  ends them with that error at the latest when its retries are spent, and they never spin.\<close>

lemma sweeps_return:
  assumes "sweep_repo r" "db_ok s"
  shows "\<exists>res t. prune_events_over_retention r p n s = Some (res, t) \<and> db_ok t \<and> but_events t = but_events s"
    and "\<exists>res t. delete_older_than r p cutoff s = Some (res, t) \<and> db_ok t \<and> but_events t = but_events s"
  using assms retention.sweep_returns ageing.sweep_returns
  by (simp_all add: sweep_repo_def prune_events_over_retention_def delete_older_than_def)

lemma quiet_sweep_repo: "sweep_repo quiet_repo"
  by (simp add: sweep_repo_def quiet_repo_def quiet_of_def default_write_policy_def)

lemma example_newest:
  "newest_first (filter (\<lambda>e. ev_project_id e = ''p'') (db_events example_db)) = db_events example_db"
  by (simp add: newest_first_def example_db_def)

end
