(* ===== verification/Stacktrace.thy ===== *)
theory Stacktrace
  imports Json
begin

text \<open>
  \<open>src/domain/stacktrace.rs\<close>: frames, stacktraces and the normalized view of an event that
  grouping and display read, parsed from the raw payload.
\<close>

section \<open>Field readers\<close>

definition non_empty :: "string \<Rightarrow> string option" where
  "non_empty s = (let trimmed = trim s in if trimmed = [] then None else Some trimmed)"

definition string_field :: "val \<Rightarrow> string \<Rightarrow> string option" where
  "string_field value key =
     Option.bind (Option.bind (val_get value key) as_str) non_empty"

definition int_field :: "val \<Rightarrow> string \<Rightarrow> int option" where
  "int_field value key =
     (case val_get value key of
        None \<Rightarrow> None
      | Some v \<Rightarrow>
          (case as_i64 v of
             Some i \<Rightarrow> Some i
           | None \<Rightarrow>
               (case f64_as_i64 v of
                  Some i \<Rightarrow> Some i
                | None \<Rightarrow>
                    Option.bind (as_str v) (\<lambda>s. parse_int i64_min i64_max (trim s)))))"

definition string_array :: "val \<Rightarrow> string \<Rightarrow> string list" where
  "string_array value key =
     (case Option.bind (val_get value key) as_array of
        Some arr \<Rightarrow> List.map_filter as_str arr
      | None \<Rightarrow> [])"

section \<open>Frames\<close>

record frame =
  fr_module :: "string option"
  fr_function :: "string option"
  fr_filename :: "string option"
  fr_abs_path :: "string option"
  fr_lineno :: "int option"
  fr_colno :: "int option"
  fr_in_app :: "bool option"
  fr_context_line :: "string option"
  fr_pre_context :: "string list"
  fr_post_context :: "string list"

text \<open>\<open>as_deref().filter(|s| !s.is_empty())\<close>.\<close>

definition filled :: "string option \<Rightarrow> string option" where
  "filled s = (case s of Some t \<Rightarrow> if t = [] then None else Some t | None \<Rightarrow> None)"

definition is_in_app :: "frame \<Rightarrow> bool" where
  "is_in_app f \<longleftrightarrow> fr_in_app f = Some True"

definition has_source_context :: "frame \<Rightarrow> bool" where
  "has_source_context f \<longleftrightarrow>
     fr_context_line f \<noteq> None \<or> fr_pre_context f \<noteq> [] \<or> fr_post_context f \<noteq> []"

definition display_file :: "frame \<Rightarrow> string option" where
  "display_file f =
     (case filled (fr_filename f) of Some file \<Rightarrow> Some file | None \<Rightarrow> filled (fr_abs_path f))"

definition location :: "frame \<Rightarrow> string option" where
  "location f =
     (case filled (fr_function f) of
        Some fn \<Rightarrow>
          (case filled (fr_module f) of
             Some m \<Rightarrow> Some (m @ '' in '' @ fn)
           | None \<Rightarrow>
               (case display_file f of
                  Some file \<Rightarrow> Some (file @ '' in '' @ fn)
                | None \<Rightarrow> Some fn))
      | None \<Rightarrow>
          (case display_file f of
             Some file \<Rightarrow>
               (case fr_lineno f of
                  Some line \<Rightarrow> Some (file @ '':'' @ int_to_dec line)
                | None \<Rightarrow> Some file)
           | None \<Rightarrow> filled (fr_module f)))"

definition parse_frame :: "val \<Rightarrow> frame" where
  "parse_frame value =
     \<lparr>fr_module = string_field value ''module'',
      fr_function = string_field value ''function'',
      fr_filename = string_field value ''filename'',
      fr_abs_path = string_field value ''abs_path'',
      fr_lineno = int_field value ''lineno'',
      fr_colno = int_field value ''colno'',
      fr_in_app = Option.bind (val_get value ''in_app'') as_bool,
      fr_context_line = string_field value ''context_line'',
      fr_pre_context = string_array value ''pre_context'',
      fr_post_context = string_array value ''post_context''\<rparr>"

section \<open>Stacktraces\<close>

record stacktrace =
  st_frames :: "frame list"

definition stacktrace_from_value :: "val \<Rightarrow> stacktrace" where
  "stacktrace_from_value value =
     \<lparr>st_frames = (case Option.bind (val_get value ''frames'') as_array of
                     Some arr \<Rightarrow> map parse_frame arr
                   | None \<Rightarrow> [])\<rparr>"

definition st_is_empty :: "stacktrace \<Rightarrow> bool" where
  "st_is_empty st \<longleftrightarrow> st_frames st = []"

definition in_app_frames :: "stacktrace \<Rightarrow> frame list" where
  "in_app_frames st = filter is_in_app (st_frames st)"

definition most_relevant_frame :: "stacktrace \<Rightarrow> frame option" where
  "most_relevant_frame st =
     (case List.find is_in_app (rev (st_frames st)) of
        Some f \<Rightarrow> Some f
      | None \<Rightarrow> (if st_frames st = [] then None else Some (last (st_frames st))))"

section \<open>Exceptions and the normalized event\<close>

record exception_value =
  ex_ty :: "string option"
  ex_value :: "string option"
  ex_module :: "string option"
  ex_stacktrace :: "stacktrace option"

record normalized_event =
  ne_exception_type :: "string option"
  ne_exception_value :: "string option"
  ne_message :: "string option"
  ne_level :: "string option"
  ne_stacktrace :: "stacktrace option"
  ne_fingerprint :: "string list"

text \<open>\<open>v.get("stacktrace").filter(|s| s.is_object()).map(Stacktrace::from_value)\<close>.\<close>

definition stacktrace_of :: "val \<Rightarrow> stacktrace option" where
  "stacktrace_of v =
     (case val_get v ''stacktrace'' of
        Some s \<Rightarrow> if is_object s then Some (stacktrace_from_value s) else None
      | None \<Rightarrow> None)"

definition nested_values :: "val \<Rightarrow> string \<Rightarrow> val list option" where
  "nested_values event key =
     Option.bind (Option.bind (val_get event key) (\<lambda>e. val_get e ''values'')) as_array"

definition parse_exceptions :: "val \<Rightarrow> exception_value list" where
  "parse_exceptions event =
     (case nested_values event ''exception'' of
        None \<Rightarrow> []
      | Some values \<Rightarrow>
          map (\<lambda>v. \<lparr>ex_ty = string_field v ''type'', ex_value = string_field v ''value'',
                     ex_module = string_field v ''module'', ex_stacktrace = stacktrace_of v\<rparr>)
            values)"

text \<open>The first stacktrace that is present and not empty.\<close>

fun first_stacktrace :: "stacktrace option list \<Rightarrow> stacktrace option" where
  "first_stacktrace [] = None"
| "first_stacktrace (None # sts) = first_stacktrace sts"
| "first_stacktrace (Some st # sts) =
     (if st_is_empty st then first_stacktrace sts else Some st)"

definition thread_stacktrace :: "val \<Rightarrow> stacktrace option" where
  "thread_stacktrace event =
     (case nested_values event ''threads'' of
        None \<Rightarrow> None
      | Some values \<Rightarrow>
          (let crashed = List.find
                 (\<lambda>t. Option.bind (val_get t ''crashed'') as_bool = Some True) values;
               candidates = (case crashed of Some t \<Rightarrow> t # values | None \<Rightarrow> values)
           in first_stacktrace (map stacktrace_of candidates)))"

definition last_option :: "'a list \<Rightarrow> 'a option" where
  "last_option xs = (if xs = [] then None else Some (last xs))"

definition resolve_stacktrace :: "val \<Rightarrow> exception_value list \<Rightarrow> stacktrace option" where
  "resolve_stacktrace event exceptions =
     (case first_stacktrace [Option.bind (last_option exceptions) ex_stacktrace] of
        Some st \<Rightarrow> Some st
      | None \<Rightarrow>
          (case first_stacktrace (map ex_stacktrace exceptions) of
             Some st \<Rightarrow> Some st
           | None \<Rightarrow>
               (case first_stacktrace [thread_stacktrace event] of
                  Some st \<Rightarrow> Some st
                | None \<Rightarrow> first_stacktrace [stacktrace_of event])))"

definition message_object :: "val \<Rightarrow> string option" where
  "message_object value =
     (case Option.bind (Option.bind (val_get value ''formatted'') as_str) non_empty of
        Some s \<Rightarrow> Some s
      | None \<Rightarrow> Option.bind (Option.bind (val_get value ''message'') as_str) non_empty)"

definition parse_message :: "val \<Rightarrow> string option" where
  "parse_message event =
     (let fallback = Option.bind (val_get event ''logentry'') message_object in
      case val_get event ''message'' of
        None \<Rightarrow> fallback
      | Some msg \<Rightarrow>
          (case as_str msg of
             Some s \<Rightarrow> non_empty s
           | None \<Rightarrow>
               (case message_object msg of Some s \<Rightarrow> Some s | None \<Rightarrow> fallback)))"

definition normalized_from_value :: "val \<Rightarrow> normalized_event" where
  "normalized_from_value event =
     (let exceptions = parse_exceptions event; thrown = last_option exceptions in
      \<lparr>ne_exception_type = Option.bind thrown ex_ty,
       ne_exception_value = Option.bind thrown ex_value,
       ne_message = parse_message event,
       ne_level = string_field event ''level'',
       ne_stacktrace = resolve_stacktrace event exceptions,
       ne_fingerprint = string_array event ''fingerprint''\<rparr>)"

definition has_custom_fingerprint :: "normalized_event \<Rightarrow> bool" where
  "has_custom_fingerprint e \<longleftrightarrow> ne_fingerprint e \<noteq> []"

section \<open>Lemmas\<close>

lemma non_empty_Some: "non_empty s = Some t \<longleftrightarrow> t = trim s \<and> trim s \<noteq> []"
  by (auto simp: non_empty_def Let_def)

text \<open>Strings read from a payload are trimmed and not empty.\<close>

definition tidy :: "string option \<Rightarrow> bool" where
  "tidy s \<longleftrightarrow> (case s of None \<Rightarrow> True | Some t \<Rightarrow> t \<noteq> [] \<and> trim t = t)"

lemma tidy_bind_non_empty [simp]: "tidy (Option.bind s non_empty)"
  by (cases s) (auto simp: tidy_def non_empty_Some split: option.splits)

lemma tidy_non_empty [simp]: "tidy (non_empty s)"
  by (auto simp: tidy_def non_empty_Some split: option.splits)

lemma tidy_string_field [simp]: "tidy (string_field v k)"
  unfolding string_field_def by (rule tidy_bind_non_empty)

lemma tidy_None [simp]: "tidy None"
  by (simp add: tidy_def)

lemma tidy_or_else: "tidy a \<Longrightarrow> tidy b \<Longrightarrow> tidy (case a of Some s \<Rightarrow> Some s | None \<Rightarrow> b)"
  by (cases a) auto

lemma tidy_message_object [simp]: "tidy (message_object v)"
  unfolding message_object_def by (intro tidy_or_else tidy_bind_non_empty)

lemma tidy_bind_message_object [simp]: "tidy (Option.bind v message_object)"
  by (cases v) auto

lemma tidy_parse_message: "tidy (parse_message e)"
  unfolding parse_message_def Let_def
  by (cases "val_get e ''message''"; cases "as_str (the (val_get e ''message''))")
    (simp_all add: tidy_or_else)

lemma filled_tidy [simp]: "tidy s \<Longrightarrow> filled s = s"
  by (auto simp: filled_def tidy_def split: option.splits)

lemma first_stacktrace_not_empty: "first_stacktrace sts = Some st \<Longrightarrow> st_frames st \<noteq> []"
  by (induction sts rule: first_stacktrace.induct) (auto simp: st_is_empty_def split: if_splits)

lemma first_stacktrace_mem: "first_stacktrace sts = Some st \<Longrightarrow> Some st \<in> set sts"
  by (induction sts rule: first_stacktrace.induct) (auto split: if_splits)

lemma first_stacktrace_None:
  "first_stacktrace sts = None \<longleftrightarrow> (\<forall>st. Some st \<in> set sts \<longrightarrow> st_frames st = [])"
  by (induction sts rule: first_stacktrace.induct) (auto simp: st_is_empty_def)

lemma resolve_stacktrace_not_empty:
  "resolve_stacktrace e exs = Some st \<Longrightarrow> st_frames st \<noteq> []"
  unfolding resolve_stacktrace_def
  by (auto split: option.splits dest: first_stacktrace_not_empty)

lemma most_relevant_frame_mem:
  "most_relevant_frame st = Some f \<Longrightarrow> f \<in> set (st_frames st)"
  by (auto simp: most_relevant_frame_def find_Some_iff split: option.splits if_splits)
    (metis length_rev nth_mem set_rev)

lemma find_rev_last: "List.find P (rev xs) = last_option (filter P xs)"
  by (induction xs rule: rev_induct) (auto simp: last_option_def)

text \<open>The frame shown as the culprit is the last application frame, or the last frame of a trace
  without one.\<close>

lemma most_relevant_frame_eq:
  "most_relevant_frame st =
     (case last_option (in_app_frames st) of
        Some f \<Rightarrow> Some f
      | None \<Rightarrow> last_option (st_frames st))"
  unfolding most_relevant_frame_def find_rev_last in_app_frames_def
  by (simp add: last_option_def)

lemma int_field_bounds:
  assumes "val_ok v" and "int_field v k = Some i"
  shows "i64_min \<le> i \<and> i \<le> i64_max"
proof -
  from assms(2) obtain w where w: "val_get v k = Some w"
    by (auto simp: int_field_def split: option.splits)
  with assms(1) have "val_ok w" by (rule val_ok_get)
  with w assms(2) show ?thesis
    by (auto simp: int_field_def parse_int_def Let_def split: option.splits bind_splits if_splits
        dest: as_i64_bounds f64_as_i64_bounds)
qed

end
