(* ===== verification/Normalize.thy ===== *)
theory Normalize
  imports Stacktrace
begin

text \<open>
  \<open>src/grouping/normalize.rs\<close>: the helpers that strip volatile detail from frames and
  messages before they are hashed into a grouping key. The loops of the code run over a suffix of
  the input; here they recurse on that suffix.
\<close>

section \<open>Symbols\<close>

definition normalize_type :: "string \<Rightarrow> string" where
  "normalize_type ty = trim ty"

definition strip_rust_hash_suffix :: "string \<Rightarrow> string" where
  "strip_rust_hash_suffix symbol =
     (case str_rfind symbol ''::h'' of
        None \<Rightarrow> symbol
      | Some idx \<Rightarrow>
          (let suffix = drop (idx + 3) symbol in
           if 12 \<le> length suffix \<and> list_all is_ascii_hexdigit suffix then take idx symbol
           else symbol))"

definition normalize_function :: "string \<Rightarrow> string" where
  "normalize_function fn =
     (let f = strip_rust_hash_suffix (trim fn);
          f = (case str_find f ''+0x'' of Some idx \<Rightarrow> take idx f | None \<Rightarrow> f)
      in trim f)"

definition normalize_module :: "string \<Rightarrow> string" where
  "normalize_module m = strip_rust_hash_suffix (trim m)"

section \<open>Paths\<close>

definition is_hash_like :: "string \<Rightarrow> bool" where
  "is_hash_like token \<longleftrightarrow>
     6 \<le> length token \<and> length token \<le> 24 \<and>
     list_all is_ascii_alphanumeric token \<and> list_ex is_ascii_digit token"

definition strip_bundle_hash :: "string \<Rightarrow> string" where
  "strip_bundle_hash path =
     (let (dir, file) = (case str_rfind path ''/'' of
                           Some idx \<Rightarrow> (take (idx + 1) path, drop (idx + 1) path)
                         | None \<Rightarrow> ([], path))
      in case str_rfind file ''.'' of
           None \<Rightarrow> path
         | Some idx \<Rightarrow>
             (let stem = take idx file; ext = drop idx file;
                  dashed = (case str_rfind stem ''-'' of
                              Some dash \<Rightarrow>
                                (if is_hash_like (drop (dash + 1) stem)
                                 then dir @ take dash stem @ ext else path)
                            | None \<Rightarrow> path)
              in case str_rfind stem ''.'' of
                   Some dot \<Rightarrow>
                     (if is_hash_like (drop (dot + 1) stem) then dir @ take dot stem @ ext
                      else dashed)
                 | None \<Rightarrow> dashed))"

definition cut_at :: "string \<Rightarrow> string \<Rightarrow> string" where
  "cut_at p s = (case str_find s p of Some idx \<Rightarrow> take idx s | None \<Rightarrow> s)"

definition strip_scheme :: "string \<Rightarrow> string \<Rightarrow> string" where
  "strip_scheme scheme p = (case strip_prefix p scheme of Some rest \<Rightarrow> rest | None \<Rightarrow> p)"

definition normalize_path :: "string \<Rightarrow> string" where
  "normalize_path path =
     (let p = cut_at ''#'' (cut_at ''?'' (trim path));
          p = fold strip_scheme [''webpack://'', ''webpack-internal:///'', ''app://''] p
      in strip_bundle_hash p)"

definition frame_signature :: "frame \<Rightarrow> string option" where
  "frame_signature f =
     (let module = filled (map_option normalize_module (fr_module f));
          fn = filled (map_option normalize_function (fr_function f))
      in case fn of
           Some fn \<Rightarrow> Some (case module of Some m \<Rightarrow> m @ ''.'' @ fn | None \<Rightarrow> fn)
         | None \<Rightarrow>
             (let path = filled (map_option normalize_path
                    (case fr_filename f of Some x \<Rightarrow> Some x | None \<Rightarrow> fr_abs_path f))
              in case (module, path) of
                   (Some m, Some p) \<Rightarrow> Some (m @ ''@'' @ p)
                 | (Some m, None) \<Rightarrow> Some m
                 | (None, Some p) \<Rightarrow> Some p
                 | (None, None) \<Rightarrow> None))"

section \<open>Messages\<close>

definition PLACEHOLDER_INT :: string where "PLACEHOLDER_INT = ''<int>''"
definition PLACEHOLDER_UUID :: string where "PLACEHOLDER_UUID = ''<uuid>''"
definition PLACEHOLDER_ID :: string where "PLACEHOLDER_ID = ''<id>''"
definition MIN_RANDOM_TOKEN_LEN :: nat where "MIN_RANDOM_TOKEN_LEN = 6"

fun collapse_from :: "bool \<Rightarrow> string \<Rightarrow> string" where
  "collapse_from prev_digit [] = []"
| "collapse_from prev_digit (c # cs) =
     (if is_ascii_digit c
      then (if prev_digit then [] else PLACEHOLDER_INT) @ collapse_from True cs
      else c # collapse_from False cs)"

definition collapse_digit_runs :: "string \<Rightarrow> string" where
  "collapse_digit_runs token = collapse_from False token"

definition normalize_token :: "string \<Rightarrow> string" where
  "normalize_token token =
     (let has_digit = list_ex is_ascii_digit token;
          has_alpha = list_ex is_ascii_alphabetic token
      in if has_digit \<and> \<not> has_alpha then PLACEHOLDER_INT
         else if has_digit \<and> has_alpha \<and> MIN_RANDOM_TOKEN_LEN \<le> length token then PLACEHOLDER_ID
         else collapse_digit_runs token)"

definition is_uuid :: "string \<Rightarrow> bool" where
  "is_uuid s \<longleftrightarrow>
     length s = 36 \<and>
     list_all (\<lambda>(idx, b). if idx \<in> {8, 13, 18, 23} then b = CHR ''-'' else is_ascii_hexdigit b)
       (enumerate 0 s)"

text \<open>\<open>trimmed.get(i..i + 36).is_some_and(is_uuid)\<close> is \<open>is_uuid\<close> of the next 36 bytes: 36
  ASCII bytes end on a character boundary.\<close>

function normalize_loop :: "bool \<Rightarrow> string \<Rightarrow> string" where
  "normalize_loop prev_space [] = []"
| "normalize_loop prev_space (b # bs) =
     (let ch = b # take (char_width b - 1) bs; rest = drop (char_width b - 1) bs in
      if is_whitespace ch then
        (if prev_space then [] else '' '') @ normalize_loop True rest
      else if is_uuid (take 36 (b # bs)) then
        PLACEHOLDER_UUID @ normalize_loop False (drop 36 (b # bs))
      else if is_ascii_alphanumeric b then
        normalize_token (takeWhile is_ascii_alphanumeric (b # bs)) @
        normalize_loop False (dropWhile is_ascii_alphanumeric (b # bs))
      else ch @ normalize_loop False rest)"
  by pat_completeness auto
termination
  by (relation "measure (\<lambda>(p, s). length s)") (auto simp: less_Suc_eq_le length_dropWhile_le)

declare normalize_loop.simps(2) [simp del]

definition normalize_message :: "string \<Rightarrow> string" where
  "normalize_message message = trim (normalize_loop False (trim message))"

section \<open>The message loop, case by case\<close>

lemma alnum_ascii: "is_ascii_alphanumeric b \<Longrightarrow> ascii b"
  by (auto simp: ascii_defs)

lemma hexdigit_alnum: "is_ascii_hexdigit b \<Longrightarrow> is_ascii_alphanumeric b"
  by (auto simp: ascii_defs)

lemma alnum_not_whitespace: "is_ascii_alphanumeric b \<Longrightarrow> \<not> is_whitespace [b]"
  using whitespace_byte [of b] by (auto simp: ascii_defs)

text \<open>The loop looks at the first character of the suffix; the characters are full in a valid
  string.\<close>

lemma loop_other:
  assumes "length c = char_width b - 1" "\<not> is_whitespace (b # c)" "\<not> is_ascii_alphanumeric b"
  shows "normalize_loop p (b # c @ s) = (b # c) @ normalize_loop False s"
proof -
  have "\<not> is_uuid (take 36 (b # c @ s))"
    using assms(3) hexdigit_alnum [of b] by (auto simp: is_uuid_def)
  with assms show ?thesis by (simp add: normalize_loop.simps(2) Let_def)
qed

lemma loop_ascii_other:
  "ascii b \<Longrightarrow> \<not> is_whitespace [b] \<Longrightarrow> \<not> is_ascii_alphanumeric b \<Longrightarrow>
     normalize_loop p (b # s) = b # normalize_loop False s"
  using loop_other [of "[]" b p s] by (simp add: ascii_width)

lemma loop_space:
  "normalize_loop p (CHR '' '' # s) = (if p then [] else '' '') @ normalize_loop True s"
  by (simp add: normalize_loop.simps(2) char_width_def)

lemma loop_uuid:
  assumes "is_uuid (take 36 (b # bs))"
  shows "normalize_loop p (b # bs) = PLACEHOLDER_UUID @ normalize_loop False (drop 36 (b # bs))"
proof -
  from assms have "is_ascii_hexdigit b" by (auto simp: is_uuid_def)
  then have "ascii b" "\<not> is_whitespace [b]"
    by (auto dest: hexdigit_alnum alnum_ascii alnum_not_whitespace)
  with assms show ?thesis by (simp add: normalize_loop.simps(2) ascii_width)
qed

lemma loop_token:
  assumes "is_ascii_alphanumeric b" "\<not> is_uuid (take 36 (b # bs))"
  shows "normalize_loop p (b # bs) =
     normalize_token (takeWhile is_ascii_alphanumeric (b # bs)) @
     normalize_loop False (dropWhile is_ascii_alphanumeric (b # bs))"
  using assms alnum_ascii [OF assms(1)] alnum_not_whitespace [OF assms(1)]
  by (simp add: normalize_loop.simps(2) ascii_width del: takeWhile.simps dropWhile.simps)

lemma loop_word:
  assumes "t \<noteq> []" "list_all is_ascii_alphanumeric t"
    and "s = [] \<or> \<not> is_ascii_alphanumeric (hd s)" and "\<not> is_uuid (take 36 (t @ s))"
  shows "normalize_loop p (t @ s) = normalize_token t @ normalize_loop False s"
proof -
  obtain b bs where t: "t = b # bs" using assms(1) by (cases t) auto
  have "takeWhile is_ascii_alphanumeric s = []" "dropWhile is_ascii_alphanumeric s = s"
    using assms(3) by (cases s; auto)+
  then have "takeWhile is_ascii_alphanumeric (t @ s) = t" "dropWhile is_ascii_alphanumeric (t @ s) = s"
    using assms(2) by (simp_all add: takeWhile_append dropWhile_append list_all_iff)
  with assms t show ?thesis using loop_token [of b "bs @ s" p] by simp
qed

lemma uuid_nth_hex: "is_uuid u \<Longrightarrow> i < length u \<Longrightarrow> i \<notin> {8, 13, 18, 23} \<Longrightarrow> is_ascii_hexdigit (u ! i)"
  by (auto simp: is_uuid_def list_all_length enumerate_eq_zip split: if_splits)

lemma uuid_bytes: "is_uuid u \<Longrightarrow> b \<in> set u \<Longrightarrow> b = CHR ''-'' \<or> is_ascii_hexdigit b"
  by (auto simp: is_uuid_def list_all_iff in_set_conv_nth enumerate_eq_zip set_zip split: if_splits)

lemma uuid_ascii: "is_uuid u \<Longrightarrow> list_all ascii u"
  by (auto simp: list_all_iff dest!: uuid_bytes hexdigit_alnum alnum_ascii)

text \<open>The cases of the loop as a rule: a valid string is empty or starts with a white-space
  character, a UUID, a maximal alphanumeric token, or another character.\<close>

lemma loop_cases [consumes 1, case_names Nil space uuid word other]:
  assumes "utf8 s"
  obtains "s = []"
  | c r where "s = c @ r" "is_whitespace c" "utf8 r" "c \<noteq> []" "chars s = c # chars r"
      "\<And>p. normalize_loop p s = (if p then [] else '' '') @ normalize_loop True r"
  | u r where "s = u @ r" "is_uuid u" "utf8 r" "chars s = map (\<lambda>b. [b]) u @ chars r"
      "\<And>p. normalize_loop p s = PLACEHOLDER_UUID @ normalize_loop False r"
  | t r where "s = t @ r" "t \<noteq> []" "list_all is_ascii_alphanumeric t" "utf8 r"
      "r = [] \<or> \<not> is_ascii_alphanumeric (hd r)" "\<not> is_uuid (take 36 (t @ r))"
      "chars s = map (\<lambda>b. [b]) t @ chars r"
      "\<And>p. normalize_loop p s = normalize_token t @ normalize_loop False r"
  | b c r where "s = b # c @ r" "length c = char_width b - 1" "list_all (\<lambda>b. 128 \<le> byte b) c"
      "\<not> is_whitespace (b # c)" "\<not> is_ascii_alphanumeric b" "utf8 r" "chars s = (b # c) # chars r"
      "\<And>p. normalize_loop p s = (b # c) @ normalize_loop False r"
proof (cases s)
  case (Cons b bs)
  define c where "c = take (char_width b - 1) bs"
  define r where "r = drop (char_width b - 1) bs"
  have s: "s = b # c @ r" and w: "length c = char_width b - 1" and u: "utf8 r"
    and hi: "list_all (\<lambda>b. 128 \<le> byte b) c"
    using assms Cons by (auto simp: c_def r_def utf8_Cons)
  show thesis
  proof (cases "is_whitespace (b # c)")
    case True
    have "normalize_loop p s = (if p then [] else '' '') @ normalize_loop True r" for p
      using True Cons by (simp add: normalize_loop.simps(2) c_def r_def)
    with True s u w show thesis by (intro that(2) [of "b # c" r]) auto
  next
    case ws: False
    consider "is_uuid (take 36 s)" | "\<not> is_uuid (take 36 s)" "is_ascii_alphanumeric b"
      | "\<not> is_ascii_alphanumeric b" by blast
    then show thesis
    proof cases
      case 1
      then have a: "list_all ascii (take 36 s)" by (rule uuid_ascii)
      have "utf8 (drop 36 s)" "chars s = map (\<lambda>b. [b]) (take 36 s) @ chars (drop 36 s)"
        using assms utf8_ascii_append [OF a, of "drop 36 s"]
          chars_ascii_append [OF a, of "drop 36 s"]
        by simp_all
      then show thesis
        using 1 Cons loop_uuid [of b bs] that(3) [of "take 36 s" "drop 36 s"] by auto
    next
      case 2
      let ?t = "takeWhile is_ascii_alphanumeric s" and ?r = "dropWhile is_ascii_alphanumeric s"
      have t: "list_all is_ascii_alphanumeric ?t" "list_all ascii ?t"
        by (auto simp: list_all_iff dest: set_takeWhileD alnum_ascii)
      have "?t @ ?r = s" by simp
      then have "utf8 ?r" "chars s = map (\<lambda>b. [b]) ?t @ chars ?r"
        using assms t(2) by (metis utf8_ascii_append, metis chars_ascii_append)
      moreover have "?r = [] \<or> \<not> is_ascii_alphanumeric (hd ?r)"
        using hd_dropWhile by blast
      ultimately show thesis
        using 2 t Cons loop_token [of b bs] that(4) [of ?t ?r] by simp
    next
      case 3
      then show thesis
        using s w u ws hi loop_other [OF w ws 3] that(5) [of b c r] by simp
    qed
  qed
qed

section \<open>No digit survives\<close>

lemmas placeholder_defs = PLACEHOLDER_INT_def PLACEHOLDER_UUID_def PLACEHOLDER_ID_def

lemma collapse_no_digit: "c \<in> set (collapse_from p t) \<Longrightarrow> \<not> is_ascii_digit c"
  by (induction p t rule: collapse_from.induct)
    (auto simp: placeholder_defs is_ascii_digit_def split: if_splits)

lemma token_no_digit: "c \<in> set (normalize_token t) \<Longrightarrow> \<not> is_ascii_digit c"
  by (auto simp: normalize_token_def Let_def collapse_digit_runs_def placeholder_defs
      dest: collapse_no_digit split: if_splits) (auto simp: is_ascii_digit_def)

lemma loop_no_digit: "utf8 s \<Longrightarrow> c \<in> set (normalize_loop p s) \<Longrightarrow> \<not> is_ascii_digit c"
proof (induction s arbitrary: p rule: length_induct)
  case (1 s)
  note IH = 1(1) [rule_format]
  from 1(2) show ?case
  proof (cases rule: loop_cases)
    case Nil
    then show ?thesis using 1(3) by simp
  next
    case (space w r)
    then show ?thesis using 1(3) IH [of r True] by (auto simp: is_ascii_digit_def split: if_splits)
  next
    case (uuid u r)
    then show ?thesis
      using 1(3) IH [of r False] by (auto simp: placeholder_defs is_ascii_digit_def is_uuid_def)
  next
    case (word t r)
    then show ?thesis using 1(3) IH [of r False] token_no_digit by auto
  next
    case (other b w r)
    then have "\<not> is_ascii_digit d" if "d \<in> set (b # w)" for d
      using that by (auto simp: list_all_iff ascii_defs)
    with other show ?thesis using 1(3) IH [of r False] by auto
  qed
qed

section \<open>The loop on its own output\<close>

lemma loop_placeholder:
  assumes "ph \<in> {PLACEHOLDER_INT, PLACEHOLDER_UUID, PLACEHOLDER_ID}"
  shows "normalize_loop p (ph @ s) = ph @ normalize_loop False s"
proof -
  from assms obtain w where ph: "ph = ''<'' @ w @ ''>''" and w: "w \<in> {''int'', ''uuid'', ''id''}"
    by (auto simp: placeholder_defs)
  have word: "list_all is_ascii_alphanumeric w" "w \<noteq> []" "\<not> list_ex is_ascii_digit w"
    using w by (auto simp: ascii_defs)
  then have "normalize_token w = w"
    using w by (auto simp: normalize_token_def collapse_digit_runs_def is_ascii_digit_def)
  moreover have "\<not> is_uuid (take 36 (w @ x))" for x
    using w by (auto simp: is_uuid_def is_ascii_hexdigit_def is_ascii_digit_def)
  ultimately have "normalize_loop False (w @ CHR ''>'' # s) = w @ normalize_loop False (CHR ''>'' # s)"
    using loop_word [of w "CHR ''>'' # s" False] word by (simp add: ascii_defs)
  moreover have "\<not> is_whitespace ''<''" "\<not> is_whitespace ''>''"
    by (simp_all add: is_whitespace_def white_space_def)
  ultimately show ?thesis
    by (simp add: ph loop_ascii_other ascii_defs)
qed

lemma not_uuid_short:
  assumes "length t < 8" "s = [] \<or> \<not> is_ascii_alphanumeric (hd s)"
  shows "\<not> is_uuid (take 36 (t @ s))"
proof
  assume u: "is_uuid (take 36 (t @ s))"
  then have len: "length t < length (take 36 (t @ s))" and n: "s \<noteq> []"
    using assms(1) by (auto simp: is_uuid_def)
  then have "is_ascii_hexdigit (take 36 (t @ s) ! length t)"
    using u assms(1) by (intro uuid_nth_hex) auto
  moreover have "take 36 (t @ s) ! length t = hd s"
    using len n by (simp add: nth_append hd_conv_nth)
  ultimately show False using assms(2) n hexdigit_alnum by simp
qed

lemma collapse_letters: "list_all (\<lambda>c. \<not> is_ascii_digit c) t \<Longrightarrow> collapse_from p (t @ u) = t @ collapse_from (p \<and> t = []) u"
  by (induction t arbitrary: p) auto

lemma token_letters: "list_all (\<lambda>c. \<not> is_ascii_digit c) t \<Longrightarrow> normalize_token t = t"
  using collapse_letters [of t False "[]"]
  by (auto simp: normalize_token_def collapse_digit_runs_def list_all_iff list_ex_iff)

lemma collapse_hd:
  "t \<noteq> [] \<Longrightarrow> is_ascii_digit (hd t) \<Longrightarrow>
     collapse_from False t = PLACEHOLDER_INT @ collapse_from True (tl t)"
  by (cases t) auto

text \<open>A short token with collapsed digits is read back as it was written.\<close>

lemma loop_collapse:
  assumes "length t < 8" "list_all is_ascii_alphanumeric t" "s = [] \<or> \<not> is_ascii_alphanumeric (hd s)"
  shows "normalize_loop False (collapse_from p t @ s) = collapse_from p t @ normalize_loop False s"
  using assms(1,2)
proof (induction t arbitrary: p rule: length_induct)
  case (1 t)
  note IH = 1(1) [rule_format]
  show ?case
  proof (cases t)
    case (Cons c cs)
    show ?thesis
    proof (cases "is_ascii_digit c")
      case True
      with Cons 1 IH [of cs True] show ?thesis by (simp add: loop_placeholder)
    next
      case False
      define l where "l = takeWhile (\<lambda>c. \<not> is_ascii_digit c) t"
      define u where "u = dropWhile (\<lambda>c. \<not> is_ascii_digit c) t"
      have t: "t = l @ u" and l: "l \<noteq> []" "list_all (\<lambda>c. \<not> is_ascii_digit c) l"
        using False Cons by (auto simp: l_def u_def list_all_iff dest: set_takeWhileD)
      have u: "u = [] \<or> is_ascii_digit (hd u)"
        unfolding u_def using hd_dropWhile [of "\<lambda>c. \<not> is_ascii_digit c" t] by blast
      have "collapse_from False u @ s = [] \<or> \<not> is_ascii_alphanumeric (hd (collapse_from False u @ s))"
        using u assms(3) by (cases "u = []") (auto simp: collapse_hd placeholder_defs ascii_defs)
      moreover have "length l < 8" "list_all is_ascii_alphanumeric l"
        using 1(2,3) t by auto
      ultimately have "normalize_loop False (l @ collapse_from False u @ s) =
          l @ normalize_loop False (collapse_from False u @ s)"
        using loop_word [of l "collapse_from False u @ s" False] l token_letters [of l]
          not_uuid_short [of l "collapse_from False u @ s"]
        by (simp only: simp_thms)
      then show ?thesis
        using 1(2,3) t l IH [of u False] by (simp add: collapse_letters)
    qed
  qed simp
qed

text \<open>A token with a digit starts with letters copied from the input, then a placeholder.\<close>

lemma collapse_shape:
  "list_ex is_ascii_digit t \<Longrightarrow> \<exists>l x. collapse_from False t = l @ CHR ''<'' # x \<and> prefix l t"
proof (induction t)
  case (Cons c cs)
  show ?case
  proof (cases "is_ascii_digit c")
    case True
    then show ?thesis by - (rule exI [of _ "[]"], simp add: placeholder_defs)
  next
    case False
    with Cons obtain l x where "collapse_from False cs = l @ CHR ''<'' # x" "prefix l cs" by auto
    with False show ?thesis by - (rule exI [of _ "c # l"], simp)
  qed
qed simp

lemma token_shape:
  assumes "list_ex is_ascii_digit t"
  shows "\<exists>l x. normalize_token t = l @ CHR ''<'' # x \<and> prefix l t"
proof (cases "normalize_token t = collapse_from False t")
  case True
  with collapse_shape [OF assms] show ?thesis by simp
next
  case False
  then have "normalize_token t = PLACEHOLDER_INT \<or> normalize_token t = PLACEHOLDER_ID"
    by (auto simp: normalize_token_def Let_def collapse_digit_runs_def)
  then show ?thesis by - (rule exI [of _ "[]"], auto simp: placeholder_defs)
qed

abbreviation letter_dash :: "char \<Rightarrow> bool" where
  "letter_dash c \<equiv> c = CHR ''-'' \<or> is_ascii_alphabetic c"

lemma prefix_stop:
  "prefix v (l @ c # x) \<Longrightarrow> list_all P v \<Longrightarrow> \<not> P c \<Longrightarrow> prefix v l"
  by (induction l arbitrary: v) (auto simp: prefix_Cons)

lemma loop_prefix:
  "utf8 s \<Longrightarrow> prefix v (normalize_loop False s) \<Longrightarrow> list_all letter_dash v \<Longrightarrow> prefix v s"
proof (induction s arbitrary: v rule: length_induct)
  case (1 s)
  note IH = 1(1) [rule_format] and pre = 1(3) and ld = 1(4)
  have lt: "\<not> letter_dash (CHR ''<'')" and sp: "\<not> letter_dash (CHR '' '')"
    by (simp_all add: ascii_defs)
  from 1(2) show ?case
  proof (cases rule: loop_cases)
    case Nil
    then show ?thesis using pre by simp
  next
    case (space w r)
    then have "prefix v []"
      using pre ld sp prefix_stop [of v "[]" "CHR '' ''" _ letter_dash] by simp
    then show ?thesis by simp
  next
    case (uuid u r)
    then have "prefix v []"
      using pre ld lt prefix_stop [of v "[]" "CHR ''<''" _ letter_dash] by (simp add: placeholder_defs)
    then show ?thesis by simp
  next
    case (word t r)
    show ?thesis
    proof (cases "list_ex is_ascii_digit t")
      case True
      then obtain l x where "normalize_token t = l @ CHR ''<'' # x" "prefix l t"
        using token_shape by blast
      then show ?thesis
        using word pre ld lt prefix_stop [of v l "CHR ''<''" _ letter_dash]
        by (metis append.assoc append_Cons prefix_order.trans prefix_prefix)
    next
      case False
      then have t: "normalize_token t = t"
        using token_letters by (simp add: list_ex_iff list_all_iff)
      from pre word t consider "prefix v t" | v' where "v = t @ v'" "prefix v' (normalize_loop False r)"
        by (auto simp: prefix_append)
      then show ?thesis
        using word ld IH [of r] by cases (auto simp: prefix_append)
    qed
  next
    case (other b w r)
    show ?thesis
    proof (cases v)
      case (Cons c v')
      with pre other ld have b: "letter_dash b" "c = b" by auto
      then have "w = []" using other(2) by (auto simp: char_width_def ascii_defs)
      with Cons b other pre ld IH [of r v'] show ?thesis by simp
    qed simp
  qed
qed

lemma uuid_in_output:
  assumes "utf8 r" "list_all is_ascii_alphanumeric t" "\<not> list_ex is_ascii_digit t"
    and "is_uuid (take 36 (t @ normalize_loop False r))"
  shows "is_uuid (take 36 (t @ r))"
proof -
  define v where "v = take (36 - length t) (normalize_loop False r)"
  have nd: "\<not> is_ascii_digit c" if "c \<in> set t \<union> set v" for c
    using that assms(1,3) loop_no_digit by (auto simp: v_def list_ex_iff dest: in_set_takeD)
  have "letter_dash c" if "c \<in> set v" for c
    using uuid_bytes [OF assms(4), of c] nd [of c] that by (auto simp: v_def ascii_defs)
  then have "list_all letter_dash v" by (simp add: list_all_iff)
  moreover have "prefix v (normalize_loop False r)"
    by (simp add: v_def take_is_prefix)
  ultimately have "prefix v r" using loop_prefix assms(1) by blast
  moreover have "length v = 36 - length t"
    using assms(4) by (auto simp: is_uuid_def v_def)
  ultimately have "take (36 - length t) r = v" by (auto simp: prefix_def)
  with assms(4) show ?thesis by (simp add: v_def)
qed

lemma loop_output_hd:
  assumes "utf8 r" "r = [] \<or> \<not> is_ascii_alphanumeric (hd r)"
  shows "normalize_loop False r = [] \<or> \<not> is_ascii_alphanumeric (hd (normalize_loop False r))"
  using assms(1)
proof (cases rule: loop_cases)
  case (space c r')
  then show ?thesis by (simp add: ascii_defs)
next
  case (uuid u r')
  then show ?thesis by (simp add: placeholder_defs ascii_defs)
next
  case (word t r')
  then have "r \<noteq> []" "is_ascii_alphanumeric (hd r)"
    by (metis append_is_Nil_conv, metis hd_append2 hd_in_set list_all_iff)
  then show ?thesis using assms(2) by blast
qed auto

text \<open>What a token becomes is read back unchanged, in front of the rest of the output.\<close>

lemma loop_token_output:
  assumes "t \<noteq> []" "list_all is_ascii_alphanumeric t" "utf8 r"
    and "r = [] \<or> \<not> is_ascii_alphanumeric (hd r)" "\<not> is_uuid (take 36 (t @ r))"
  shows "normalize_loop False (normalize_token t @ normalize_loop False r) =
         normalize_token t @ normalize_loop False (normalize_loop False r)"
proof -
  let ?o = "normalize_loop False r"
  have hd: "?o = [] \<or> \<not> is_ascii_alphanumeric (hd ?o)"
    using loop_output_hd assms(3,4) by blast
  consider "normalize_token t \<in> {PLACEHOLDER_INT, PLACEHOLDER_ID}"
    | "\<not> list_ex is_ascii_digit t"
    | "length t < 6" "normalize_token t = collapse_from False t"
    unfolding normalize_token_def Let_def collapse_digit_runs_def MIN_RANDOM_TOKEN_LEN_def
    by (cases "list_ex is_ascii_digit t"; cases "list_ex is_ascii_alphabetic t"; cases "6 \<le> length t")
      auto
  then show ?thesis
  proof cases
    case 1
    then show ?thesis using loop_placeholder by auto
  next
    case 2
    then have "normalize_token t = t" using token_letters by (simp add: list_ex_iff list_all_iff)
    then show ?thesis
      using 2 hd assms loop_word [of t ?o False] uuid_in_output [of r t] by auto
  next
    case 3
    then show ?thesis using loop_collapse [of t ?o False] assms(2) hd by simp
  qed
qed

lemma token_hd:
  assumes "t \<noteq> []" "list_all is_ascii_alphanumeric t"
  shows "\<exists>b x. normalize_token t = b # x \<and> (b = CHR ''<'' \<or> is_ascii_alphanumeric b)"
proof (cases "list_ex is_ascii_digit t")
  case True
  then obtain l x where "normalize_token t = l @ CHR ''<'' # x" "prefix l t"
    using token_shape by blast
  with assms(2) show ?thesis by (cases l) (auto simp: prefix_def)
next
  case False
  then have "normalize_token t = t" using token_letters by (simp add: list_ex_iff list_all_iff)
  with assms show ?thesis by (cases t) auto
qed

lemma loop_token_start:
  assumes "t \<noteq> []" "list_all is_ascii_alphanumeric t"
  shows "normalize_loop p (normalize_token t @ s) = normalize_loop False (normalize_token t @ s)"
proof -
  obtain b x where b: "normalize_token t = b # x" "b = CHR ''<'' \<or> is_ascii_alphanumeric b"
    using token_hd assms by blast
  then have "ascii b" "\<not> is_whitespace [b]"
    using alnum_ascii alnum_not_whitespace by (auto dest: whitespace_byte)
  with b show ?thesis by (simp add: normalize_loop.simps(2) ascii_width)
qed

lemma loop_idem: "utf8 s \<Longrightarrow> normalize_loop p (normalize_loop p s) = normalize_loop p s"
proof (induction s arbitrary: p rule: length_induct)
  case (1 s)
  note IH = 1(1) [rule_format]
  from 1(2) show ?case
  proof (cases rule: loop_cases)
    case (space w r)
    then show ?thesis using IH [of r True] by (simp add: loop_space)
  next
    case (uuid u r)
    then have "length r < length s" by (auto simp: is_uuid_def)
    with uuid show ?thesis using IH [of r False] by (simp add: loop_placeholder)
  next
    case (word t r)
    then show ?thesis
      using IH [of r False] loop_token_output [of t r] loop_token_start [of t p] by simp
  next
    case (other b w r)
    then show ?thesis using IH [of r False] loop_other [of w b p "normalize_loop False r"] by simp
  qed simp
qed

section \<open>Trimming the output\<close>

lemma placeholder_ascii:
  "ph \<in> {PLACEHOLDER_INT, PLACEHOLDER_UUID, PLACEHOLDER_ID} \<Longrightarrow>
     list_all ascii ph \<and> ph \<noteq> [] \<and> \<not> is_whitespace [hd ph] \<and> \<not> is_whitespace [last ph]"
  by (auto simp: placeholder_defs dest!: whitespace_byte)

abbreviation token_byte :: "char \<Rightarrow> bool" where
  "token_byte b \<equiv> is_ascii_alphanumeric b \<or> b = CHR ''<'' \<or> b = CHR ''>''"

lemma placeholder_bytes:
  "list_all token_byte PLACEHOLDER_INT \<and> list_all token_byte PLACEHOLDER_ID"
  by (simp add: placeholder_defs ascii_defs)

lemma collapse_bytes:
  "list_all is_ascii_alphanumeric t \<Longrightarrow> list_all token_byte (collapse_from p t)"
  using placeholder_bytes by (induction p t rule: collapse_from.induct) simp_all

lemma token_bytes: "list_all is_ascii_alphanumeric t \<Longrightarrow> list_all token_byte (normalize_token t)"
  using collapse_bytes [of t False] placeholder_bytes
  by (simp add: normalize_token_def Let_def collapse_digit_runs_def)

lemma token_ascii:
  assumes "t \<noteq> []" "list_all is_ascii_alphanumeric t"
  shows "list_all ascii (normalize_token t) \<and> normalize_token t \<noteq> [] \<and>
         \<not> is_whitespace [hd (normalize_token t)] \<and> \<not> is_whitespace [last (normalize_token t)]"
proof -
  have b: "ascii b \<and> \<not> is_whitespace [b]" if "b \<in> set (normalize_token t)" for b
    using token_bytes [OF assms(2)] that alnum_ascii [of b] alnum_not_whitespace [of b]
      whitespace_byte [of b]
    unfolding list_all_iff by fastforce
  have "normalize_token t \<noteq> []" using token_hd assms by fastforce
  with b show ?thesis by (auto simp: list_all_iff)
qed

text \<open>A piece of output in front of the rest: its first character starts the output, and the last
  character is the rest's or its own.\<close>

lemma loop_piece:
  assumes "chars (ph @ x) = cs @ chars x" "cs \<noteq> []" "\<not> is_whitespace (last cs)"
    and "x = [] \<or> \<not> is_whitespace (last (chars x))"
  shows "ph @ x \<noteq> [] \<and> \<not> is_whitespace (last (chars (ph @ x))) \<and> hd (chars (ph @ x)) = hd cs"
proof -
  have "ph @ x \<noteq> []" using assms(1,2) chars_eq_Nil [of "ph @ x"] by auto
  then show ?thesis using assms by (cases "x = []") (auto simp: last_append)
qed

lemma loop_ascii_piece:
  assumes "list_all ascii ph \<and> ph \<noteq> [] \<and> \<not> is_whitespace [hd ph] \<and> \<not> is_whitespace [last ph]"
    and "x = [] \<or> \<not> is_whitespace (last (chars x))"
  shows "ph @ x \<noteq> [] \<and> \<not> is_whitespace (last (chars (ph @ x))) \<and> \<not> is_whitespace (hd (chars (ph @ x)))"
proof -
  have "chars (ph @ x) = map (\<lambda>b. [b]) ph @ chars x"
    using assms(1) by (simp add: chars_ascii_append)
  from loop_piece [OF this] assms show ?thesis
    by (simp add: last_map hd_map)
qed

lemma loop_last:
  "utf8 s \<Longrightarrow> s = [] \<or> \<not> is_whitespace (last (chars s)) \<Longrightarrow>
     (normalize_loop p s = [] \<longleftrightarrow> s = []) \<and>
     (normalize_loop p s = [] \<or> \<not> is_whitespace (last (chars (normalize_loop p s))))"
proof (induction s arbitrary: p rule: length_induct)
  case (1 s)
  note IH = 1(1) [rule_format]
  from 1(2) show ?case
  proof (cases rule: loop_cases)
    case (space w r)
    then have "r \<noteq> []" "\<not> is_whitespace (last (chars r))"
      using 1(3) by (auto split: if_splits)
    with space IH [of r True] show ?thesis
      by (auto simp: char_width_def)
  next
    case (uuid u r)
    then have u: "u \<noteq> []" by (auto simp: is_uuid_def)
    with uuid have "r = [] \<or> \<not> is_whitespace (last (chars r))"
      using 1(3) by (auto split: if_splits)
    with u uuid IH [of r False] show ?thesis
      using loop_ascii_piece [OF placeholder_ascii, of PLACEHOLDER_UUID "normalize_loop False r"]
      by auto
  next
    case (word t r)
    then have "r = [] \<or> \<not> is_whitespace (last (chars r))"
      using 1(3) by (auto split: if_splits)
    with word IH [of r False] show ?thesis
      using loop_ascii_piece [OF token_ascii [OF word(2,3)], of "normalize_loop False r"] by auto
  next
    case (other b w r)
    then have "r = [] \<or> \<not> is_whitespace (last (chars r))"
      using 1(3) by (auto split: if_splits)
    with other IH [of r False] show ?thesis
      using loop_piece [of "b # w" "normalize_loop False r" "[b # w]"] by auto
  qed simp
qed

lemma loop_first:
  assumes "utf8 s" "s \<noteq> []" "\<not> is_whitespace (hd (chars s))" "\<not> is_whitespace (last (chars s))"
  shows "\<not> is_whitespace (hd (chars (normalize_loop p s)))"
  using assms(1)
proof (cases rule: loop_cases)
  case (uuid u r)
  then have "r = [] \<or> \<not> is_whitespace (last (chars r))"
    using assms by (auto split: if_splits)
  with uuid loop_last [of r False] show ?thesis
    using loop_ascii_piece [OF placeholder_ascii, of PLACEHOLDER_UUID "normalize_loop False r"]
    by auto
next
  case (word t r)
  then have "r = [] \<or> \<not> is_whitespace (last (chars r))"
    using assms by (auto split: if_splits)
  with word loop_last [of r False] show ?thesis
    using loop_ascii_piece [OF token_ascii [OF word(2,3)], of "normalize_loop False r"] by auto
qed (use assms in auto)

lemma trim_loop_trim: "utf8 m \<Longrightarrow> trim (normalize_loop False (trim m)) = normalize_loop False (trim m)"
  using loop_first [of "trim m" False] loop_last [of "trim m" False] trim_chars_hd trim_chars_last
  by (intro trim_fixed) (auto simp: utf8_trim)

section \<open>Properties\<close>

text \<open>A message key carries no digit: every integer, UUID and random token of the message has
  been replaced by its placeholder.\<close>

theorem normalize_message_no_digits:
  assumes "utf8 message"
  shows "list_all (\<lambda>c. \<not> is_ascii_digit c) (normalize_message message)"
  using loop_no_digit [OF utf8_trim [OF assms]] set_trim
  by (fastforce simp: normalize_message_def list_all_iff)

theorem normalize_message_no_digits_witness:
  "utf8 ''retry 12 of v2'' \<and>
   list_all (\<lambda>c. \<not> is_ascii_digit c) (normalize_message ''retry 12 of v2'')"
proof -
  have "utf8 ''retry 12 of v2''" by (simp add: utf8_def char_width_def)
  with normalize_message_no_digits show ?thesis by blast
qed

text \<open>Normalizing a message is idempotent: a key (or a title, which shows the key) normalizes
  to itself, placeholders and all, so an event whose message is a title joins its group.\<close>

theorem normalize_message_idem:
  assumes "utf8 message"
  shows "normalize_message (normalize_message message) = normalize_message message"
proof -
  have "normalize_message message = normalize_loop False (trim message)"
    using trim_loop_trim [OF assms] by (simp add: normalize_message_def)
  moreover have "trim (normalize_loop False (trim message)) = normalize_loop False (trim message)"
    using trim_loop_trim [OF assms] .
  ultimately show ?thesis
    using loop_idem [OF utf8_trim [OF assms]] by (simp add: normalize_message_def)
qed

theorem normalize_message_idem_witness:
  "utf8 '' id 7'' \<and> normalize_message (normalize_message '' id 7'') = normalize_message '' id 7''"
proof -
  have "utf8 '' id 7''" by (simp add: utf8_def char_width_def)
  with normalize_message_idem show ?thesis by blast
qed

lemma hash_like_chars: "is_hash_like h \<Longrightarrow> b \<in> set h \<Longrightarrow> is_ascii_alphanumeric b"
  by (simp add: is_hash_like_def list_all_iff)

lemma hash_like_avoids:
  "is_hash_like h \<Longrightarrow> CHR ''.'' \<notin> set h \<and> CHR ''-'' \<notin> set h \<and> CHR ''/'' \<notin> set h"
  using hash_like_chars [of h "CHR ''.''"] hash_like_chars [of h "CHR ''-''"]
    hash_like_chars [of h "CHR ''/''"]
  by (auto simp: ascii_defs)

lemma dashed_not_hash_like: "\<not> is_hash_like (a @ CHR ''-'' # h)"
  by (simp add: is_hash_like_def ascii_defs)

text \<open>How \<open>strip_bundle_hash\<close> cuts a path into directory, stem and extension.\<close>

lemma strip_bundle_hash_cut:
  assumes "dir = [] \<or> last dir = CHR ''/''" and "CHR ''/'' \<notin> set fname"
    and "fname = stem @ CHR ''.'' # ext" and "CHR ''.'' \<notin> set ext"
  shows "strip_bundle_hash (dir @ fname) =
     (let dashed = (case str_rfind stem ''-'' of
                      Some dash \<Rightarrow>
                        (if is_hash_like (drop (dash + 1) stem)
                         then dir @ take dash stem @ CHR ''.'' # ext else dir @ fname)
                    | None \<Rightarrow> dir @ fname)
      in case str_rfind stem ''.'' of
           Some dot \<Rightarrow>
             (if is_hash_like (drop (dot + 1) stem) then dir @ take dot stem @ CHR ''.'' # ext
              else dashed)
         | None \<Rightarrow> dashed)"
proof -
  have cut: "(case str_rfind (dir @ fname) ''/'' of
           Some idx \<Rightarrow> (take (idx + 1) (dir @ fname), drop (idx + 1) (dir @ fname))
         | None \<Rightarrow> ([], dir @ fname)) = (dir, fname)"
  proof (cases "dir = []")
    case True
    with assms(2) show ?thesis using str_rfind_char_None [of fname "CHR ''/''"] by simp
  next
    case False
    then obtain d where "dir = d @ [CHR ''/'']" using assms(1) by (metis append_butlast_last_id)
    with str_rfind_char [OF assms(2), of d] show ?thesis by simp
  qed
  have "str_rfind fname ''.'' = Some (length stem)"
    using str_rfind_char [OF assms(4)] assms(3) by simp
  moreover have "take (length stem) fname = stem" "drop (length stem) fname = CHR ''.'' # ext"
    using assms(3) by simp_all
  ultimately show ?thesis unfolding strip_bundle_hash_def cut by (simp add: Let_def)
qed

text \<open>The content hash that a bundler puts into a file name, after a dot or a dash, does not
  reach the grouping key: every build of the file has the same path.\<close>

theorem strip_bundle_hash_removes:
  assumes "dir = [] \<or> last dir = CHR ''/''" and "CHR ''/'' \<notin> set name" and "is_hash_like h"
    and "sep = CHR ''.'' \<or> sep = CHR ''-''" and "CHR ''.'' \<notin> set ext" and "CHR ''/'' \<notin> set ext"
  shows "strip_bundle_hash (dir @ name @ sep # h @ ''.'' @ ext) = dir @ name @ ''.'' @ ext"
proof -
  note avoid = hash_like_avoids [OF assms(3)]
  have "CHR ''/'' \<notin> set (name @ sep # h @ CHR ''.'' # ext)" using assms avoid by auto
  note cut = strip_bundle_hash_cut [OF assms(1) this, of "name @ sep # h" ext, simplified,
      OF assms(5)]
  have sep: "str_rfind (name @ sep # h) [sep] = Some (length name)"
    using str_rfind_char [of sep h name] avoid assms(4) by auto
  show ?thesis
  proof (cases "sep = CHR ''.''")
    case True
    then show ?thesis using cut sep assms(3) by simp
  next
    case False
    then have dash: "sep = CHR ''-''" using assms(4) by simp
    have "\<not> is_hash_like (drop (dot + 1) (name @ sep # h))"
      if "str_rfind (name @ sep # h) ''.'' = Some dot" for dot
    proof -
      have "dot < length name"
      proof (rule ccontr)
        assume "\<not> dot < length name"
        with str_rfind_nth [OF that]
        have "dot - length name < length (sep # h)" "(sep # h) ! (dot - length name) = CHR ''.''"
          by (auto simp: nth_append)
        then have "CHR ''.'' \<in> set (sep # h)" by (metis nth_mem)
        with avoid dash show False by simp
      qed
      then show ?thesis using dash dashed_not_hash_like by (simp add: Suc_diff_le)
    qed
    then show ?thesis using cut sep assms(3) dash by (simp add: Let_def split: option.split)
  qed
qed

theorem strip_bundle_hash_removes_witness:
  "strip_bundle_hash ''static/main.4f3a9b2c.js'' = ''static/main.js'' \<and>
   is_hash_like ''4f3a9b2c''"
  using strip_bundle_hash_removes [of "''static/''" "''main''" "''4f3a9b2c''" "CHR ''.''" "''js''"]
  by (simp add: is_hash_like_def ascii_defs)

end
