(* ===== verification/Fingerprint.thy ===== *)
theory Fingerprint
  imports Normalize "HOL-Library.Word"
begin

text \<open>
  \<open>src/grouping/fingerprint.rs\<close>: the grouping fingerprint of an event, its title and its
  culprit. The hash is FNV-1a on 64-bit words, rendered as sixteen hex digits.
\<close>

section \<open>The hash\<close>

definition FNV_OFFSET :: "64 word" where "FNV_OFFSET = 0xcbf29ce484222325"
definition FNV_PRIME :: "64 word" where "FNV_PRIME = 0x100000001b3"

definition hash_step :: "char \<Rightarrow> 64 word \<Rightarrow> 64 word" where
  "hash_step b hash = Bit_Operations.xor hash (of_nat (byte b)) * FNV_PRIME"

definition fnv1a :: "string \<Rightarrow> 64 word" where
  "fnv1a s = fold hash_step s FNV_OFFSET"

definition hex_digit :: "nat \<Rightarrow> char" where
  "hex_digit n = (if n < 10 then char_of (48 + n) else char_of (87 + n))"

definition nibble :: "64 word \<Rightarrow> nat \<Rightarrow> nat" where
  "nibble w i = unat w div 16 ^ i mod 16"

definition hex16 :: "64 word \<Rightarrow> string" where
  "hex16 w = map (\<lambda>i. hex_digit (nibble w i)) (rev [0..<16])"

definition hash_hex :: "string \<Rightarrow> string" where
  "hash_hex s = hex16 (fnv1a s)"

section \<open>The fingerprint\<close>

definition DEFAULT_PLACEHOLDER :: string where "DEFAULT_PLACEHOLDER = ''{{ default }}''"
definition DEFAULT_PLACEHOLDER_TIGHT :: string where "DEFAULT_PLACEHOLDER_TIGHT = ''{{default}}''"

definition grouping_frame_signatures :: "stacktrace \<Rightarrow> string list" where
  "grouping_frame_signatures st =
     (let in_app = in_app_frames st;
          frames = (if in_app = [] then st_frames st else in_app)
      in map (\<lambda>sig. ''frame:'' @ sig) (List.map_filter frame_signature frames))"

definition default_material :: "normalized_event \<Rightarrow> string" where
  "default_material e =
     (let components =
            (case filled (ne_exception_type e) of
               Some ty \<Rightarrow> [''type:'' @ normalize_type ty] | None \<Rightarrow> []);
          components = components @
            (case ne_stacktrace e of Some st \<Rightarrow> grouping_frame_signatures st | None \<Rightarrow> []);
          components =
            (if components = [] then
               (case filled (ne_message e) of
                  Some msg \<Rightarrow> [''message:'' @ normalize_message msg]
                | None \<Rightarrow>
                    (case filled (ne_exception_value e) of
                       Some v \<Rightarrow> [''value:'' @ normalize_message v]
                     | None \<Rightarrow> []))
             else components)
      in str_join [CHR 0x0A] components)"

definition default_fingerprint :: "normalized_event \<Rightarrow> string" where
  "default_fingerprint e = hash_hex (default_material e)"

definition custom_fingerprint :: "normalized_event \<Rightarrow> string" where
  "custom_fingerprint e =
     (let material = default_material e;
          parts = map (\<lambda>component.
            (let trimmed = trim component in
             if trimmed = DEFAULT_PLACEHOLDER \<or> trimmed = DEFAULT_PLACEHOLDER_TIGHT then material
             else component)) (ne_fingerprint e)
      in if length parts = 1 \<and> hd parts = material then hash_hex material
         else hash_hex (str_join [CHR 0x1F] parts))"

definition fingerprint_normalized :: "normalized_event \<Rightarrow> string" where
  "fingerprint_normalized e =
     (if has_custom_fingerprint e then custom_fingerprint e else default_fingerprint e)"

definition fingerprint :: "val \<Rightarrow> string" where
  "fingerprint event = fingerprint_normalized (normalized_from_value event)"

section \<open>Title and culprit\<close>

definition TITLE_MAX :: nat where "TITLE_MAX = 200"

text \<open>The ellipsis is U+2026, three bytes.\<close>

definition ellipsis :: string where "ellipsis = [CHR 0xE2, CHR 0x80, CHR 0xA6]"

definition truncate_title :: "string \<Rightarrow> string" where
  "truncate_title s =
     (let s = trim s in
      if char_count s \<le> TITLE_MAX then s else concat (take TITLE_MAX (chars s)) @ ellipsis)"

definition title_from_normalized :: "normalized_event \<Rightarrow> string" where
  "title_from_normalized e =
     (case filled (ne_exception_type e) of
        Some ty \<Rightarrow>
          (case filled (ne_exception_value e) of
             Some v \<Rightarrow> ty @ '': '' @ truncate_title (normalize_message v)
           | None \<Rightarrow> ty)
      | None \<Rightarrow>
          (case filled (ne_message e) of
             Some msg \<Rightarrow> truncate_title (normalize_message msg)
           | None \<Rightarrow>
               (case filled (ne_exception_value e) of
                  Some v \<Rightarrow> truncate_title (normalize_message v)
                | None \<Rightarrow> ''Unknown error'')))"

definition issue_title :: "val \<Rightarrow> string" where
  "issue_title event = title_from_normalized (normalized_from_value event)"

definition culprit_from_normalized :: "normalized_event \<Rightarrow> string option" where
  "culprit_from_normalized e =
     Option.bind (Option.bind (ne_stacktrace e) most_relevant_frame) location"

definition culprit :: "val \<Rightarrow> string option" where
  "culprit event = culprit_from_normalized (normalized_from_value event)"

section \<open>The hash step is a bijection\<close>

lemma FNV_PRIME_inverse: "FNV_PRIME * 0xce965057aff6957b = 1"
  by (simp add: FNV_PRIME_def)

lemma mult_FNV_PRIME_inj:
  assumes "a * FNV_PRIME = b * FNV_PRIME"
  shows "a = b"
proof -
  have "x = x * FNV_PRIME * 0xce965057aff6957b" for x
    using FNV_PRIME_inverse by (simp only: mult.assoc mult.right_neutral)
  then show ?thesis using assms by metis
qed

lemma xor_right_inj:
  assumes "Bit_Operations.xor a c = Bit_Operations.xor b c"
  shows "a = (b :: 64 word)"
proof -
  have "Bit_Operations.xor (Bit_Operations.xor x c) c = x" for x :: "64 word"
    by (simp add: xor.assoc)
  with assms show ?thesis by metis
qed

lemma hash_step_inj: "hash_step b g = hash_step b h \<Longrightarrow> g = h"
  unfolding hash_step_def by (drule mult_FNV_PRIME_inj) (rule xor_right_inj)

lemma byte_word_inj:
  assumes "of_nat (byte x) = (of_nat (byte y) :: 64 word)"
  shows "x = y"
proof -
  have "unat (of_nat (byte c) :: 64 word) = byte c" for c
    using nat_of_char_less_256 [of c] less_trans [of "byte c" 256 "2 ^ 64"]
    by (simp add: unat_of_nat mod_less)
  with assms have "byte x = byte y" by metis
  then show ?thesis by simp
qed

lemma hash_step_byte_inj: "hash_step x h = hash_step y h \<Longrightarrow> x = y"
  unfolding hash_step_def
  by (drule mult_FNV_PRIME_inj, subst (asm) (1 2) xor.commute, drule xor_right_inj)
    (rule byte_word_inj)

lemma fold_hash_inj: "fold hash_step s g = fold hash_step s h \<Longrightarrow> g = h"
  by (induction s arbitrary: g h) (auto dest: hash_step_inj)

lemma fnv1a_byte_inj:
  "fnv1a (pre @ x # post) = fnv1a (pre @ y # post) \<Longrightarrow> x = y"
  by (auto simp: fnv1a_def dest: fold_hash_inj hash_step_byte_inj)

section \<open>The rendering loses nothing\<close>

lemma byte_hex_digit: "k < 16 \<Longrightarrow> byte (hex_digit k) = (if k < 10 then 48 + k else 87 + k)"
  by (simp add: hex_digit_def of_char_of take_bit_eq_mod)

lemma hex_digit_inj:
  assumes "m < 16" "n < 16" "hex_digit m = hex_digit n"
  shows "m = n"
proof -
  have "(if m < 10 then 48 + m else 87 + m) = (if n < 10 then 48 + n else 87 + n)"
    using assms(3) byte_hex_digit [OF assms(1)] byte_hex_digit [OF assms(2)] by argo
  with assms(1,2) show ?thesis by (simp split: if_splits)
qed

lemma nibble_lt [simp]: "nibble w i < 16"
  by (simp add: nibble_def)

lemma digits_16_inj:
  "m < 16 ^ k \<Longrightarrow> n < 16 ^ k \<Longrightarrow> \<forall>i<k. m div 16 ^ i mod 16 = n div 16 ^ i mod 16 \<Longrightarrow> m = (n :: nat)"
proof (induction k arbitrary: m n)
  case (Suc k)
  have "\<forall>i<k. (m div 16) div 16 ^ i mod 16 = (n div 16) div 16 ^ i mod 16"
    using Suc.prems(3) by (auto simp flip: div_mult2_eq power_Suc)
  moreover have "m div 16 < 16 ^ k" "n div 16 < 16 ^ k"
    using Suc.prems(1,2) by (auto simp: div_less_iff_less_mult mult.commute)
  ultimately have "m div 16 = n div 16" using Suc.IH by blast
  moreover have "m mod 16 = n mod 16" using Suc.prems(3) by (metis div_by_1 power_0 zero_less_Suc)
  ultimately show ?case by (metis div_mult_mod_eq)
qed simp

lemma hex16_inj:
  assumes "hex16 v = hex16 w"
  shows "v = w"
proof -
  have "nibble v i = nibble w i" if "i < 16" for i
    using assms that hex_digit_inj [of "nibble v i" "nibble w i"] by (simp add: hex16_def)
  moreover have "unat v < 16 ^ 16" "unat w < 16 ^ 16"
    using unsigned_less [of v, where ?'a = nat] unsigned_less [of w, where ?'a = nat] by simp_all
  ultimately have "unat v = unat w"
    using digits_16_inj [of "unat v" 16 "unat w"] by (simp add: nibble_def)
  then show ?thesis by (rule word_unat_eq_iff [THEN iffD2])
qed

lemma hex_digit_lower: "k < 16 \<Longrightarrow> is_ascii_hexdigit (hex_digit k) \<and> \<not> is_ascii_uppercase (hex_digit k)"
  by (auto simp: is_ascii_hexdigit_def is_ascii_digit_def is_ascii_uppercase_def byte_hex_digit)


text \<open>The hash separates materials that differ in one byte, at any place: no two such
  materials share a fingerprint.\<close>

theorem hash_hex_one_byte:
  "hash_hex (pre @ x # post) = hash_hex (pre @ y # post) \<longleftrightarrow> x = y"
  unfolding hash_hex_def using hex16_inj fnv1a_byte_inj by metis

section \<open>What grouping looks at\<close>

abbreviation event_signatures :: "normalized_event \<Rightarrow> string list" where
  "event_signatures e \<equiv>
     (case ne_stacktrace e of Some st \<Rightarrow> grouping_frame_signatures st | None \<Rightarrow> [])"

lemma default_material_cong:
  assumes "ne_exception_type d = ne_exception_type e" "ne_exception_value d = ne_exception_value e"
    and "ne_message d = ne_message e" "event_signatures d = event_signatures e"
  shows "default_material d = default_material e"
  unfolding default_material_def assms ..

lemma fingerprint_normalized_cong:
  "default_material d = default_material e \<Longrightarrow> ne_fingerprint d = ne_fingerprint e \<Longrightarrow>
     fingerprint_normalized d = fingerprint_normalized e"
  by (simp add: fingerprint_normalized_def has_custom_fingerprint_def custom_fingerprint_def
      default_fingerprint_def)

text \<open>A custom fingerprint of exactly the default placeholder reproduces the default
  fingerprint.\<close>

theorem lone_default_placeholder:
  assumes "ne_fingerprint e = [c]"
    and "trim c = DEFAULT_PLACEHOLDER \<or> trim c = DEFAULT_PLACEHOLDER_TIGHT"
  shows "fingerprint_normalized e = default_fingerprint e"
  using assms
  by (auto simp: fingerprint_normalized_def has_custom_fingerprint_def custom_fingerprint_def
      default_fingerprint_def)

definition example_event :: normalized_event where
  "example_event =
     \<lparr>ne_exception_type = Some ''ValueError'', ne_exception_value = None, ne_message = None,
      ne_level = None, ne_stacktrace = None, ne_fingerprint = ['' {{default}}'']\<rparr>"

theorem lone_default_placeholder_witness:
  "fingerprint_normalized example_event = default_fingerprint example_event"
proof (rule lone_default_placeholder)
  show "ne_fingerprint example_event = ['' {{default}}'']" by (simp add: example_event_def)
  show "trim '' {{default}}'' = DEFAULT_PLACEHOLDER \<or> trim '' {{default}}'' = DEFAULT_PLACEHOLDER_TIGHT"
    by (simp add: trim_def trim_start_def trim_end_def DEFAULT_PLACEHOLDER_TIGHT_def char_width_def
        is_whitespace_def white_space_def)
qed

text \<open>The parts of a frame that a rebuild or an edit elsewhere in the file changes.\<close>

definition erase_volatile :: "frame \<Rightarrow> frame" where
  "erase_volatile f =
     f\<lparr>fr_lineno := None, fr_colno := None, fr_context_line := None,
       fr_pre_context := [], fr_post_context := []\<rparr>"

definition erase_event :: "normalized_event \<Rightarrow> normalized_event" where
  "erase_event e =
     e\<lparr>ne_stacktrace :=
         map_option (\<lambda>st. st\<lparr>st_frames := map erase_volatile (st_frames st)\<rparr>) (ne_stacktrace e),
       ne_level := None\<rparr>"

lemma frame_signature_erase [simp]: "frame_signature (erase_volatile f) = frame_signature f"
  by (simp add: frame_signature_def erase_volatile_def Let_def cong: option.case_cong)

lemma is_in_app_erase [simp]: "is_in_app (erase_volatile f) = is_in_app f"
  by (simp add: is_in_app_def erase_volatile_def)

lemma grouping_frame_signatures_erase:
  "grouping_frame_signatures (st\<lparr>st_frames := map erase_volatile (st_frames st)\<rparr>) =
   grouping_frame_signatures st"
proof -
  have "in_app_frames (st\<lparr>st_frames := map erase_volatile (st_frames st)\<rparr>) =
        map erase_volatile (in_app_frames st)"
    by (simp add: in_app_frames_def filter_map o_def)
  then show ?thesis
    by (simp add: grouping_frame_signatures_def Let_def List.map_filter_def filter_map o_def)
qed

text \<open>Line and column numbers, source context and the severity level do not reach the
  fingerprint, with or without a custom one.\<close>

theorem fingerprint_ignores_volatile:
  "fingerprint_normalized (erase_event e) = fingerprint_normalized e"
  by (intro fingerprint_normalized_cong default_material_cong)
    (simp_all add: erase_event_def grouping_frame_signatures_erase split: option.split)

text \<open>Once a trace has an application frame, library and system frames do not reach the
  fingerprint, wherever they stand.\<close>

theorem fingerprint_ignores_library_frames:
  assumes "\<not> is_in_app f" and "g \<in> set (xs @ ys)" and "is_in_app g"
  shows "fingerprint_normalized (e\<lparr>ne_stacktrace := Some \<lparr>st_frames = xs @ f # ys\<rparr>\<rparr>) =
         fingerprint_normalized (e\<lparr>ne_stacktrace := Some \<lparr>st_frames = xs @ ys\<rparr>\<rparr>)"
proof -
  have "in_app_frames \<lparr>st_frames = xs @ f # ys\<rparr> = in_app_frames \<lparr>st_frames = xs @ ys\<rparr>"
    using assms(1) by (simp add: in_app_frames_def)
  moreover have "in_app_frames \<lparr>st_frames = xs @ ys\<rparr> \<noteq> []"
    using assms(2,3) by (auto simp: in_app_frames_def filter_empty_conv)
  ultimately have "grouping_frame_signatures \<lparr>st_frames = xs @ f # ys\<rparr> =
      grouping_frame_signatures \<lparr>st_frames = xs @ ys\<rparr>"
    by (simp add: grouping_frame_signatures_def)
  then show ?thesis by (intro fingerprint_normalized_cong default_material_cong) simp_all
qed

definition app_frame :: frame where
  "app_frame = (parse_frame Null)\<lparr>fr_function := Some ''main'', fr_in_app := Some True\<rparr>"

theorem fingerprint_ignores_library_frames_witness:
  "\<not> is_in_app (parse_frame Null) \<and> is_in_app app_frame \<and>
   fingerprint_normalized
     (example_event\<lparr>ne_stacktrace := Some \<lparr>st_frames = [app_frame] @ parse_frame Null # []\<rparr>\<rparr>) =
   fingerprint_normalized (example_event\<lparr>ne_stacktrace := Some \<lparr>st_frames = [app_frame] @ []\<rparr>\<rparr>)"
proof -
  have a: "\<not> is_in_app (parse_frame Null)" "is_in_app app_frame"
    by (simp_all add: is_in_app_def parse_frame_def app_frame_def)
  with fingerprint_ignores_library_frames [of "parse_frame Null" app_frame "[app_frame]" "[]"]
  show ?thesis by simp
qed

text \<open>A custom fingerprint without a placeholder is the whole grouping key: events with the
  same components share a fingerprint whatever else they carry.\<close>

theorem custom_fingerprint_decides:
  assumes "ne_fingerprint d = ne_fingerprint e" and "ne_fingerprint e \<noteq> []"
    and "\<forall>c \<in> set (ne_fingerprint e).
           trim c \<noteq> DEFAULT_PLACEHOLDER \<and> trim c \<noteq> DEFAULT_PLACEHOLDER_TIGHT"
  shows "fingerprint_normalized d = fingerprint_normalized e"
proof -
  have "fingerprint_normalized x = hash_hex (str_join [CHR 0x1F] (ne_fingerprint e))"
    if x: "ne_fingerprint x = ne_fingerprint e" for x
  proof -
    have "map (\<lambda>c. let t = trim c in
        if t = DEFAULT_PLACEHOLDER \<or> t = DEFAULT_PLACEHOLDER_TIGHT then default_material x else c)
        (ne_fingerprint x) = ne_fingerprint e"
      using assms(3) x by (simp add: map_idI)
    then have "custom_fingerprint x =
        (if length (ne_fingerprint e) = 1 \<and> hd (ne_fingerprint e) = default_material x
         then hash_hex (default_material x) else hash_hex (str_join [CHR 0x1F] (ne_fingerprint e)))"
      by (simp only: custom_fingerprint_def Let_def)
    then show ?thesis
      using assms(2) x
      by (auto simp: fingerprint_normalized_def has_custom_fingerprint_def length_Suc_conv)
  qed
  from this [of d] this [of e] assms(1) show ?thesis by simp
qed

theorem custom_fingerprint_decides_witness:
  "fingerprint_normalized (example_event\<lparr>ne_fingerprint := [''db'']\<rparr>) =
   fingerprint_normalized (example_event\<lparr>ne_fingerprint := [''db''], ne_exception_type := None\<rparr>)"
proof (rule custom_fingerprint_decides)
  show "\<forall>c \<in> set (ne_fingerprint
      (example_event\<lparr>ne_fingerprint := [''db''], ne_exception_type := None\<rparr>)).
      trim c \<noteq> DEFAULT_PLACEHOLDER \<and> trim c \<noteq> DEFAULT_PLACEHOLDER_TIGHT"
    by (simp add: trim_def trim_start_def trim_end_def DEFAULT_PLACEHOLDER_TIGHT_def char_width_def
        is_whitespace_def white_space_def DEFAULT_PLACEHOLDER_def)
qed simp_all

section \<open>Titles\<close>

lemma char_count_truncate_title: "char_count (truncate_title s) \<le> 201"
proof (cases "char_count (trim s) \<le> TITLE_MAX")
  case True
  then show ?thesis by (simp add: truncate_title_def TITLE_MAX_def)
next
  case False
  then have "well_cut (take TITLE_MAX (chars (trim s)) @ [ellipsis])"
    by (intro well_cut_take_snoc) (simp_all add: char_count_def ellipsis_def char_width_def)
  from chars_concat [OF this] False show ?thesis
    by (simp add: truncate_title_def char_count_def TITLE_MAX_def)
qed

text \<open>A bare message event: no exception, no trace, no custom fingerprint.\<close>

definition message_event :: "string \<Rightarrow> normalized_event \<Rightarrow> bool" where
  "message_event msg e \<longleftrightarrow>
     ne_exception_type e = None \<and> ne_stacktrace e = None \<and> ne_fingerprint e = [] \<and>
     ne_message e = Some msg \<and> msg \<noteq> []"

lemma message_event_title:
  "message_event msg e \<Longrightarrow> char_count (normalize_message msg) \<le> TITLE_MAX \<Longrightarrow>
     title_from_normalized e = normalize_message msg"
  by (simp add: message_event_def title_from_normalized_def filled_def truncate_title_def
      normalize_message_def)

lemma message_event_fingerprint:
  "message_event msg e \<Longrightarrow> fingerprint_normalized e = hash_hex (''message:'' @ normalize_message msg)"
  by (simp add: message_event_def fingerprint_normalized_def has_custom_fingerprint_def
      default_fingerprint_def default_material_def filled_def)

text \<open>The displayed title of a bare message event tells its group: two such events whose titles
  were not cut have the same fingerprint when they have the same title.\<close>

theorem title_tells_group:
  assumes "message_event m d" "char_count (normalize_message m) \<le> TITLE_MAX"
    and "message_event n e" "char_count (normalize_message n) \<le> TITLE_MAX"
    and "title_from_normalized d = title_from_normalized e"
  shows "fingerprint_normalized d = fingerprint_normalized e"
  using message_event_title [OF assms(1,2)] message_event_title [OF assms(3,4)] assms(5)
    message_event_fingerprint [OF assms(1)] message_event_fingerprint [OF assms(3)]
  by argo

definition plain_message :: "string \<Rightarrow> normalized_event" where
  "plain_message msg =
     \<lparr>ne_exception_type = None, ne_exception_value = None, ne_message = Some msg,
      ne_level = None, ne_stacktrace = None, ne_fingerprint = []\<rparr>"

theorem title_tells_group_witness:
  "fingerprint_normalized (plain_message ''job 7'') = fingerprint_normalized (plain_message ''job 42'')"
proof -
  have norm: "normalize_message ''job 7'' = ''job <int>''" "normalize_message ''job 42'' = ''job <int>''"
    by (simp_all add: normalize_message_def trim_def trim_start_def trim_end_def char_width_def
        is_whitespace_def white_space_def normalize_loop.simps(2) is_uuid_def normalize_token_def
        collapse_digit_runs_def PLACEHOLDER_INT_def ascii_defs)
  have ev: "message_event m (plain_message m)" if "m \<noteq> []" for m
    using that by (simp add: message_event_def plain_message_def)
  have short: "char_count ''job <int>'' \<le> TITLE_MAX"
    by (simp add: char_count_def TITLE_MAX_def char_width_def)
  show ?thesis
    by (rule title_tells_group [OF ev _ ev])
      (simp_all add: norm short message_event_title [OF ev])
qed

end
