(* ===== verification/Chrono.thy ===== *)
theory Chrono
  imports Errors
begin

text \<open>
  What the program uses of the \<open>chrono\<close> types: \<open>DateTime<Utc>\<close> is a number of nanoseconds
  within the range of the calendar, \<open>TimeDelta::seconds\<close> and the operators \<open>+\<close> and \<open>-\<close>
  panic outside their ranges.
\<close>

definition DT_MIN :: timestamp where "DT_MIN = secs (- 8334601228800)"
definition DT_MAX :: timestamp where "DT_MAX = secs 8210266876799 + 999999999"

definition time_ok :: "timestamp \<Rightarrow> bool" where
  "time_ok t \<longleftrightarrow> DT_MIN \<le> t \<and> t \<le> DT_MAX"

definition delta_seconds :: "int \<Rightarrow> int res" where
  "delta_seconds s =
     (if - (i64_max div 1000) \<le> s \<and> s \<le> i64_max div 1000 then Inr (secs s)
      else Inl (Panic ''TimeDelta::seconds out of bounds''))"

definition dt_add :: "timestamp \<Rightarrow> int \<Rightarrow> timestamp res" where
  "dt_add t d =
     (if time_ok (t + d) then Inr (t + d) else Inl (Panic ''`DateTime + TimeDelta` overflowed''))"

definition dt_sub :: "timestamp \<Rightarrow> int \<Rightarrow> timestamp res" where
  "dt_sub t d =
     (if time_ok (t - d) then Inr (t - d) else Inl (Panic ''`DateTime - TimeDelta` overflowed''))"

text \<open>\<open>t - Duration::seconds(s)\<close> and \<open>t + Duration::seconds(s)\<close>.\<close>

definition dt_sub_seconds :: "timestamp \<Rightarrow> int \<Rightarrow> timestamp res" where
  "dt_sub_seconds t s = (case delta_seconds s of Inl e \<Rightarrow> Inl e | Inr d \<Rightarrow> dt_sub t d)"

definition dt_add_seconds :: "timestamp \<Rightarrow> int \<Rightarrow> timestamp res" where
  "dt_add_seconds t s = (case delta_seconds s of Inl e \<Rightarrow> Inl e | Inr d \<Rightarrow> dt_add t d)"

text \<open>\<open>t - Duration::days(n)\<close>: a number of days whose seconds leave the range panics.\<close>

definition delta_days :: "int \<Rightarrow> int res" where
  "delta_days n =
     (if - (i64_max div 1000) \<le> n * 86400 \<and> n * 86400 \<le> i64_max div 1000 then Inr (secs (n * 86400))
      else Inl (Panic ''TimeDelta::days out of bounds''))"

definition dt_sub_days :: "timestamp \<Rightarrow> int \<Rightarrow> timestamp res" where
  "dt_sub_days t n = (case delta_days n of Inl e \<Rightarrow> Inl e | Inr d \<Rightarrow> dt_sub t d)"

lemmas chrono_defs = DT_MIN_def DT_MAX_def time_ok_def delta_seconds_def delta_days_def dt_add_def
  dt_sub_def dt_sub_days_def
  dt_sub_seconds_def dt_add_seconds_def

text \<open>Between the years 1970 and 9999 a window of up to a hundred millennia causes no panic.\<close>

lemma dt_sub_seconds_ok:
  "0 \<le> t \<Longrightarrow> t \<le> secs 253402300799 \<Longrightarrow> 0 \<le> s \<Longrightarrow> s \<le> 3155760000000 \<Longrightarrow>
     dt_sub_seconds t s = Inr (t - secs s)"
  by (simp add: chrono_defs)

lemma dt_sub_days_ok:
  "0 \<le> t \<Longrightarrow> t \<le> secs 253402300799 \<Longrightarrow> 0 \<le> n \<Longrightarrow> n \<le> 36525000 \<Longrightarrow>
     dt_sub_days t n = Inr (t - secs (n * 86400))"
  by (simp add: chrono_defs)

lemma dt_add_seconds_ok:
  "0 \<le> t \<Longrightarrow> t \<le> secs 253402300799 \<Longrightarrow> 0 \<le> s \<Longrightarrow> s \<le> 3155760000000 \<Longrightarrow>
     dt_add_seconds t s = Inr (t + secs s)"
  by (simp add: chrono_defs)

end
