(* ===== verification/Pipeline.thy ===== *)
theory Pipeline
  imports EventStore Fingerprint Chrono
begin

text \<open>
  \<open>src/grouping/pipeline.rs\<close>: the tail of ingestion, from a normalized event to a stored
  issue and event and the notification to send. The repositories are arguments, records of the
  operations of the traits \<open>IssueRepository\<close> and \<open>EventRepository\<close> (\<open>src/ports\<close>) that
  the pipeline calls; the interface is stated as a locale and interpreted on the SQLite adapters.
\<close>

datatype notify_kind = NotifyNone | NewIssue | Regression

record ingest_input =
  ii_project_id :: uuid
  ii_event_id :: string
  ii_normalized :: normalized_event
  ii_payload :: val

record ingest_outcome =
  io_issue :: issue
  io_event :: event
  io_fingerprint :: string
  io_notify :: notify_kind

record 's issue_port =
  ip_upsert :: "issue_upsert \<Rightarrow> ('s, upsert_outcome) op"
  ip_set_status :: "uuid \<Rightarrow> issue_status \<Rightarrow> ('s, issue) op"

record 's event_port =
  ep_insert :: "new_event \<Rightarrow> ('s, event) op"
  ep_count_in_window :: "uuid \<Rightarrow> timestamp \<Rightarrow> ('s, int) op"

definition notify_kind_of :: "upsert_outcome \<Rightarrow> notify_kind" where
  "notify_kind_of u =
     (if uo_is_regression u then Regression else if uo_is_new u then NewIssue else NotifyNone)"

definition payload_string :: "val \<Rightarrow> string \<Rightarrow> string option" where
  "payload_string payload key =
     filled (map_option trim (Option.bind (val_get payload key) as_str))"

text \<open>The start of the counting window: the mute, or the window before now, whichever is later.\<close>

definition window_since :: "issue \<Rightarrow> timestamp \<Rightarrow> timestamp" where
  "window_since i window_start =
     (case iss_muted_at i of None \<Rightarrow> window_start | Some at \<Rightarrow> max at window_start)"

definition resurface_if_rate_exceeded ::
  "'s issue_port \<Rightarrow> 's event_port \<Rightarrow> issue \<Rightarrow> timestamp \<Rightarrow> ('s, issue option) op" where
  "resurface_if_rate_exceeded issues events i now s =
     (if iss_status i \<noteq> Muted then (Inr None, s)
      else case (iss_mute_threshold i, iss_mute_window_seconds i) of
        (Some threshold, Some window_seconds) \<Rightarrow>
          (case dt_sub_seconds now (max window_seconds 0) of
             Inl e \<Rightarrow> (Inl e, s)
           | Inr window_start \<Rightarrow>
               (case ep_count_in_window events (iss_id i) (window_since i window_start) s of
                  (Inl e, s') \<Rightarrow> (Inl e, s')
                | (Inr count, s') \<Rightarrow>
                    if count < threshold then (Inr None, s')
                    else (case ip_set_status issues (iss_id i) Unresolved s' of
                            (Inl e, s'') \<Rightarrow> (Inl e, s'')
                          | (Inr unmuted, s'') \<Rightarrow> (Inr (Some unmuted), s''))))
      | _ \<Rightarrow> (Inr None, s))"

definition upsert_of :: "ingest_input \<Rightarrow> timestamp \<Rightarrow> issue_upsert" where
  "upsert_of input seen_at =
     \<lparr>up_project_id = ii_project_id input,
      up_fingerprint = fingerprint_normalized (ii_normalized input),
      up_title = title_from_normalized (ii_normalized input),
      up_culprit = culprit_from_normalized (ii_normalized input),
      up_level = ne_level (ii_normalized input),
      up_environment = payload_string (ii_payload input) ''environment'',
      up_release = payload_string (ii_payload input) ''release'',
      up_seen_at = seen_at\<rparr>"

definition new_event_of :: "ingest_input \<Rightarrow> uuid \<Rightarrow> timestamp \<Rightarrow> new_event" where
  "new_event_of input iid seen_at =
     \<lparr>nev_event_id = ii_event_id input, nev_issue_id = iid, nev_project_id = ii_project_id input,
      nev_payload = ii_payload input, nev_received_at = seen_at\<rparr>"

lemma restamped [simp]:
  "(upsert_of input at)\<lparr>up_seen_at := at'\<rparr> = upsert_of input at'" "up_seen_at (upsert_of input at) = at"
  "(new_event_of input iid at)\<lparr>nev_received_at := at'\<rparr> = new_event_of input iid at'"
  "nev_received_at (new_event_of input iid at) = at"
  by (simp_all add: upsert_of_def new_event_of_def)

definition ingest_normalized ::
  "'s issue_port \<Rightarrow> 's event_port \<Rightarrow> ingest_input \<Rightarrow> timestamp \<Rightarrow> ('s, ingest_outcome) op" where
  "ingest_normalized issues events input seen_at s =
     (case ip_upsert issues (upsert_of input seen_at) s of
        (Inl e, s1) \<Rightarrow> (Inl e, s1)
      | (Inr upsert, s1) \<Rightarrow>
          (case ep_insert events (new_event_of input (iss_id (uo_issue upsert)) seen_at) s1 of
             (Inl e, s2) \<Rightarrow> (Inl e, s2)
           | (Inr event, s2) \<Rightarrow>
               (case resurface_if_rate_exceeded issues events (uo_issue upsert) seen_at s2 of
                  (Inl e, s3) \<Rightarrow> (Inl e, s3)
                | (Inr resurfaced, s3) \<Rightarrow>
                    (Inr \<lparr>io_issue = (case resurfaced of Some i \<Rightarrow> i | None \<Rightarrow> uo_issue upsert),
                          io_event = event,
                          io_fingerprint = fingerprint_normalized (ii_normalized input),
                          io_notify = (if resurfaced = None then notify_kind_of upsert
                                       else Regression)\<rparr>, s3))))"

text \<open>Whether an event-rate mute is exceeded, given the issue after the event, in a database that
  compares times at the precision \<open>stamp\<close>.\<close>

definition rate_exceeded_by :: "(timestamp \<Rightarrow> timestamp) \<Rightarrow> issue \<Rightarrow> timestamp \<Rightarrow> event list \<Rightarrow> bool" where
  "rate_exceeded_by stamp i now es \<longleftrightarrow>
     iss_status i = Muted \<and>
     (case (iss_mute_threshold i, iss_mute_window_seconds i) of
        (Some n, Some w) \<Rightarrow>
          n \<le> int (length (filter (\<lambda>e. ev_issue_id e = iss_id i \<and>
                 stamp (window_since i (now - secs (max w 0))) \<le> ev_received_at e) es))
      | _ \<Rightarrow> False)"

abbreviation rate_exceeded :: "issue \<Rightarrow> timestamp \<Rightarrow> event list \<Rightarrow> bool" where
  "rate_exceeded \<equiv> rate_exceeded_by (\<lambda>t. t)"

section \<open>The ports\<close>

text \<open>What the pipeline relies on: the upsert updates the entry of its key, the insertion appends
  one event, counting reads, and setting a status rewrites one issue and clears its mute. Times are
  kept at the precision \<open>stamp\<close> of the database.\<close>

locale ingest_ports =
  fixes issues :: "'s issue_port"
    and events :: "'s event_port"
    and inv :: "'s \<Rightarrow> bool"
    and imap :: "'s \<Rightarrow> uuid \<times> string \<Rightarrow> issue option"
    and evs :: "'s \<Rightarrow> event list"
    and stamp :: "timestamp \<Rightarrow> timestamp"
  assumes upsert_Ok:
    "inv s \<Longrightarrow> ip_upsert issues u s = (Inr out, t) \<Longrightarrow>
       inv t \<and> imap t = (imap s)((up_project_id u, up_fingerprint u) \<mapsto> uo_issue out) \<and>
       upsert_spec (u\<lparr>up_seen_at := stamp (up_seen_at u)\<rparr>) (imap s (up_project_id u, up_fingerprint u)) out \<and>
       evs t = evs s"
    and upsert_Err: "inv s \<Longrightarrow> ip_upsert issues u s = (Inl err, t) \<Longrightarrow> inv t \<and> imap t = imap s \<and> evs t = evs s"
    and insert_Ok:
    "inv s \<Longrightarrow> ep_insert events n s = (Inr e, t) \<Longrightarrow>
       inv t \<and> imap t = imap s \<and> evs t = evs s @ [e] \<and>
       e = event_row (ev_id e) (n\<lparr>nev_received_at := stamp (nev_received_at n)\<rparr>)"
    and insert_Err: "inv s \<Longrightarrow> ep_insert events n s = (Inl err, t) \<Longrightarrow> inv t \<and> imap t = imap s \<and> evs t = evs s"
    and count_Ok:
    "inv s \<Longrightarrow> ep_count_in_window events iid since s = (Inr c, t) \<Longrightarrow>
       inv t \<and> imap t = imap s \<and> evs t = evs s \<and>
       c = int (length (filter (\<lambda>e. ev_issue_id e = iid \<and> stamp since \<le> ev_received_at e) (evs s)))"
    and count_Err: "inv s \<Longrightarrow> ep_count_in_window events iid since s = (Inl err, t) \<Longrightarrow>
       inv t \<and> imap t = imap s \<and> evs t = evs s"
    and set_status_Ok:
    "inv s \<Longrightarrow> imap s (issue_key i) = Some i \<Longrightarrow> ip_set_status issues (iss_id i) st s = (Inr j, t) \<Longrightarrow>
       inv t \<and> imap t = (imap s)(issue_key i \<mapsto> j) \<and> evs t = evs s \<and>
       (\<exists>now. j = clear_mute st now i)"
    and set_status_Err: "inv s \<Longrightarrow> ip_set_status issues iid st s = (Inl err, t) \<Longrightarrow>
       inv t \<and> imap t = imap s \<and> evs t = evs s"
    and imap_key: "inv s \<Longrightarrow> imap s k = Some i \<Longrightarrow> issue_key i = k"
begin

lemma resurface_Ok:
  assumes "inv s" "imap s (issue_key i) = Some i"
    and "resurface_if_rate_exceeded issues events i now s = (Inr r, t)"
  shows "inv t \<and> evs t = evs s \<and>
    (if rate_exceeded_by stamp i now (evs s)
     then \<exists>at. r = Some (clear_mute Unresolved at i) \<and>
            imap t = (imap s)(issue_key i \<mapsto> clear_mute Unresolved at i)
     else r = None \<and> imap t = imap s)"
proof (cases "iss_status i = Muted \<and> iss_mute_threshold i \<noteq> None \<and> iss_mute_window_seconds i \<noteq> None")
  case False
  then have "\<not> rate_exceeded_by stamp i now (evs s)" by (auto simp: rate_exceeded_by_def split: option.splits)
  moreover have "r = None" "t = s"
    using False assms(3) by (auto simp: resurface_if_rate_exceeded_def split: option.splits if_splits)
  ultimately show ?thesis using assms(1) by simp
next
  case True
  then obtain n w where nw: "iss_mute_threshold i = Some n" "iss_mute_window_seconds i = Some w" by auto
  from True assms(3) nw obtain ws where "dt_sub_seconds now (max w 0) = Inr ws"
    by (auto simp: resurface_if_rate_exceeded_def split: sum.splits)
  moreover from this have ws: "ws = now - secs (max w 0)"
    by (auto simp: dt_sub_seconds_def delta_seconds_def dt_sub_def split: if_splits sum.splits)
  moreover obtain q u where q: "ep_count_in_window events (iss_id i) (window_since i ws) s = (q, u)"
    by fastforce
  ultimately obtain c where c: "q = Inr c"
    using True assms(3) nw by (cases q) (auto simp: resurface_if_rate_exceeded_def)
  note cnt = count_Ok [OF assms(1) q [unfolded c]]
  have rest: "(if c < n then (Inr None, u)
      else case ip_set_status issues (iss_id i) Unresolved u of
             (Inl e, s'') \<Rightarrow> (Inl e, s'') | (Inr unmuted, s'') \<Rightarrow> (Inr (Some unmuted), s'')) = (Inr r, t)"
    using True assms(3) nw c q \<open>dt_sub_seconds now (max w 0) = Inr ws\<close>
    by (simp add: resurface_if_rate_exceeded_def)
  have exc: "rate_exceeded_by stamp i now (evs s) \<longleftrightarrow> n \<le> c"
    using True nw cnt ws by (simp add: rate_exceeded_by_def)
  show ?thesis
  proof (cases "c < n")
    case True
    with rest exc cnt show ?thesis by auto
  next
    case False
    with rest obtain j where j: "ip_set_status issues (iss_id i) Unresolved u = (Inr j, t)" "r = Some j"
      by (auto split: prod.splits sum.splits)
    from set_status_Ok [OF _ _ j(1)] cnt assms(2) obtain at where
      "inv t" "imap t = (imap s)(issue_key i \<mapsto> j)" "evs t = evs s" "j = clear_mute Unresolved at i"
      by auto
    with False exc j show ?thesis by auto
  qed
qed

lemma upsert_spec_key:
  "upsert_spec u before out \<Longrightarrow> (\<And>i. before = Some i \<Longrightarrow> issue_key i = (up_project_id u, up_fingerprint u)) \<Longrightarrow>
     issue_key (uo_issue out) = (up_project_id u, up_fingerprint u)"
  using row_change_bump [of u] by (auto simp: upsert_spec_iff row_change_def split: option.splits)

lemma ingest_Ok:
  assumes "inv s" "ingest_normalized issues events input now s = (Inr out, t)"
  defines "k \<equiv> (ii_project_id input, fingerprint_normalized (ii_normalized input))"
  shows "\<exists>up. upsert_spec (upsert_of input (stamp now)) (imap s k) up \<and> inv t \<and>
    evs t = evs s @ [io_event out] \<and>
    io_event out = event_row (ev_id (io_event out)) (new_event_of input (iss_id (uo_issue up)) (stamp now)) \<and>
    imap t = (imap s)(k \<mapsto> io_issue out) \<and>
    (if rate_exceeded_by stamp (uo_issue up) now (evs t)
     then (\<exists>at. io_issue out = clear_mute Unresolved at (uo_issue up)) \<and> io_notify out = Regression
     else io_issue out = uo_issue up \<and> io_notify out = notify_kind_of up)"
proof -
  have k: "(up_project_id (upsert_of input now), up_fingerprint (upsert_of input now)) = k"
    by (simp add: upsert_of_def k_def)
  obtain q s1 where q: "ip_upsert issues (upsert_of input now) s = (q, s1)" by fastforce
  then obtain up where up: "q = Inr up"
    using assms(2) by (cases q) (auto simp: ingest_normalized_def)
  note U = upsert_Ok [OF assms(1) q [unfolded up], unfolded k restamped]
  obtain p s2 where p: "ep_insert events (new_event_of input (iss_id (uo_issue up)) now) s1 = (p, s2)"
    by fastforce
  then obtain ev where ev: "p = Inr ev"
    using assms(2) q up by (cases p) (auto simp: ingest_normalized_def)
  note E = insert_Ok [OF conjunct1 [OF U] p [unfolded ev], unfolded restamped]
  obtain w where w: "resurface_if_rate_exceeded issues events (uo_issue up) now s2 = (Inr w, t)"
    and out: "out = \<lparr>io_issue = (case w of Some i \<Rightarrow> i | None \<Rightarrow> uo_issue up), io_event = ev,
        io_fingerprint = fingerprint_normalized (ii_normalized input),
        io_notify = (if w = None then notify_kind_of up else Regression)\<rparr>"
    using assms(2) q up p ev by (auto simp: ingest_normalized_def split: prod.splits sum.splits)
  have key: "issue_key (uo_issue up) = k"
    using upsert_spec_key [of "upsert_of input (stamp now)" "imap s k" up] U imap_key [OF assms(1)]
    by (simp add: upsert_of_def k_def)
  have "imap s2 (issue_key (uo_issue up)) = Some (uo_issue up)" using U E key by simp
  note R = resurface_Ok [OF conjunct1 [OF E] this w]
  show ?thesis
    using U E R key out by (cases "rate_exceeded_by stamp (uo_issue up) now (evs s2)") (auto intro!: exI [of _ up])
qed

end

section \<open>The ports on SQLite\<close>

definition sqlite_issues :: "repo \<Rightarrow> timestamp \<Rightarrow> db issue_port" where
  "sqlite_issues r now = \<lparr>ip_upsert = upsert_by_fingerprint r, ip_set_status = set_status now\<rparr>"

definition sqlite_events :: "repo \<Rightarrow> db event_port" where
  "sqlite_events r = \<lparr>ep_insert = insert_event r, ep_count_in_window = count_in_window\<rparr>"

lemma tables_eqs:
  "tables s = tables t \<Longrightarrow>
     db_ok s = db_ok t \<and> issue_map s = issue_map t \<and> db_events s = db_events t \<and> db_issues s = db_issues t"
  using db_ok_tables [of s t] issue_map_tables [of s t] by (simp add: tables_def)

lemma upsert_quiet_Ok:
  assumes "db_ok s" "upsert_by_fingerprint (quiet_of w) u s = (Inr out, t)"
  shows "db_ok t \<and> issue_map t = (issue_map s)((up_project_id u, up_fingerprint u) \<mapsto> uo_issue out) \<and>
    upsert_spec u (issue_map s (up_project_id u, up_fingerprint u)) out \<and> db_events t = db_events s"
proof -
  obtain s0 where s0: "tables s0 = tables s" "upsert_body u s0 = (Inr out, t)"
    using assms(2) quiet_retry_Ok [of w _ "upsert_body u" s out t]
    by (auto simp: upsert_by_fingerprint_def upsert_once_def quiet_of_def)
  with assms(1) tables_eqs [OF s0(1)] show ?thesis
    using upsert_body_map [of s0 u out t] upsert_body_ok [of s0 u _ t] upsert_body_events [of s0 u _ t]
    by metis
qed

lemma insert_event_quiet_Ok:
  assumes "db_ok s" "insert_event (quiet_of w) n s = (Inr e, t)"
  shows "db_ok t \<and> issue_map t = issue_map s \<and> db_events t = db_events s @ [e] \<and> e = event_row (ev_id e) n"
proof -
  let ?e = "event_row (rng_uuid s (rng_pos s)) n" and ?s = "s\<lparr>rng_pos := Suc (rng_pos s)\<rparr>"
  obtain v where v: "retry_write (rp_env (quiet_of w)) w ''insert event''
      (transaction (insert_event_row ?e)) ?s = (Inr v, t)" and e: "e = ?e"
    using assms(2) by (auto simp: insert_event_def Let_def quiet_of_def split: prod.splits sum.splits)
  from v obtain s0 where s0: "tables s0 = tables ?s" "insert_event_row ?e s0 = (Inr v, t)"
    by (rule quiet_retry_Ok)
  then have t: "t = s0\<lparr>db_events := db_events s0 @ [?e]\<rparr>"
    by (auto simp: insert_event_row_def split: if_splits)
  then have "issue_map t = issue_map s0" by (simp add: issue_map_def select_issue_def fun_eq_iff)
  moreover have "db_ok t"
    using insert_event_row_ok [OF _ s0(2)] tables_eqs [OF s0(1)] assms(1) by simp
  moreover have "db_events t = db_events s @ [e]"
    using t e tables_eqs [OF s0(1)] by simp
  moreover have "issue_map s0 = issue_map s"
    using tables_eqs [of s0 s] s0(1) by simp
  ultimately show ?thesis using e by (simp add: event_row_def)
qed

lemma insert_event_quiet_Err:
  assumes "insert_event (quiet_of w) n s = (Inl e, t)"
  shows "tables t = tables s"
proof -
  let ?e = "event_row (rng_uuid s (rng_pos s)) n" and ?s = "s\<lparr>rng_pos := Suc (rng_pos s)\<rparr>"
  have "retry_write (rp_env (quiet_of w)) w ''insert event'' (transaction (insert_event_row ?e)) ?s = (Inl e, t)"
    using assms by (auto simp: insert_event_def Let_def quiet_of_def split: prod.splits sum.splits)
  then have "tables t = tables ?s" by (rule quiet_retry_Err)
  then show ?thesis by simp
qed

lemma upsert_quiet_Err: "upsert_by_fingerprint (quiet_of w) u s = (Inl e, t) \<Longrightarrow> tables t = tables s"
  using quiet_retry_Err [of w _ "upsert_body u" s e t]
  by (simp add: upsert_by_fingerprint_def upsert_once_def quiet_of_def)

lemma count_in_window_result:
  assumes "count_in_window iid since s = (r, t)"
  shows "tables t = tables s \<and>
    (\<forall>c. r = Inr c \<longrightarrow>
       c = int (length (filter (\<lambda>e. ev_issue_id e = iid \<and> since \<le> ev_received_at e) (db_events s))))"
  using assms unfolding count_in_window_def by (elim transaction_cases) auto

lemma set_status_Ok_map:
  assumes "db_ok s" "issue_map s (issue_key i) = Some i" "set_status now (iss_id i) st s = (Inr j, t)"
  shows "db_ok t \<and> issue_map t = (issue_map s)(issue_key i \<mapsto> j) \<and> db_events t = db_events s \<and>
    j = clear_mute st now i"
proof -
  from assms(3) obtain s0 where s0: "tables s0 = tables s"
    "(case update_issue (iss_id i) (clear_mute st now) s0 of
        (Some i, s') \<Rightarrow> (Inr i, s') | (None, s') \<Rightarrow> (Inl (issue_not_found (iss_id i)), s')) = (Inr j, t)"
    unfolding set_status_def by (elim transaction_ok) auto
  note eqs = tables_eqs [OF s0(1)]
  have mem: "i \<in> set (db_issues s0)"
    using assms(1,2) eqs by (simp add: db_ok_def issue_map_Some_iff)
  have ok: "db_ok s0" using assms(1) eqs by simp
  note upd = update_issue_map [OF row_change_clear ok mem, of st now]
  have j: "j = clear_mute st now i" "t = snd (update_issue (iss_id i) (clear_mute st now) s0)"
    using s0(2) upd(1) by (auto split: prod.splits)
  moreover have "db_events t = db_events s0" using j(2) by (simp add: update_issue_def)
  ultimately show ?thesis
    using upd(2) eqs set_status_ok [OF assms(1,3)] by simp
qed

interpretation sqlite: ingest_ports "sqlite_issues (quiet_of w) now" "sqlite_events (quiet_of w)"
  db_ok issue_map db_events "\<lambda>t. t" for w now
proof unfold_locales
  fix s k i
  assume "db_ok s" "issue_map s k = Some i"
  then show "issue_key i = k" by (simp add: db_ok_def issue_map_Some_iff)
next
  fix s iid st err t
  assume "db_ok s" "ip_set_status (sqlite_issues (quiet_of w) now) iid st s = (Inl err, t)"
  then show "db_ok t \<and> issue_map t = issue_map s \<and> db_events t = db_events s"
    using tables_eqs [of t s] by (auto simp: sqlite_issues_def set_status_def dest: transaction_error)
next
  fix s i st j t
  assume "db_ok s" "issue_map s (issue_key i) = Some i"
    "ip_set_status (sqlite_issues (quiet_of w) now) (iss_id i) st s = (Inr j, t)"
  then show "db_ok t \<and> issue_map t = (issue_map s)(issue_key i \<mapsto> j) \<and> db_events t = db_events s \<and>
      (\<exists>now. j = clear_mute st now i)"
    using set_status_Ok_map [of s i now st j t] by (auto simp: sqlite_issues_def)
qed (auto simp: sqlite_issues_def sqlite_events_def
    dest: upsert_quiet_Ok upsert_quiet_Err insert_event_quiet_Ok insert_event_quiet_Err
      count_in_window_result tables_eqs)

abbreviation sqlite_ingest ::
  "write_policy \<Rightarrow> timestamp \<Rightarrow> ingest_input \<Rightarrow> timestamp \<Rightarrow> (db, ingest_outcome) op" where
  "sqlite_ingest w clock input now \<equiv>
     ingest_normalized (sqlite_issues (quiet_of w) clock) (sqlite_events (quiet_of w)) input now"

abbreviation input_key :: "ingest_input \<Rightarrow> uuid \<times> string" where
  "input_key input \<equiv> (ii_project_id input, fingerprint_normalized (ii_normalized input))"

section \<open>Properties\<close>

text \<open>C9. An event that is ingested is stored once and counted once: exactly one event row is
  appended, verbatim and attached to the issue of its group; that issue's counter grows by one (a new
  issue starts at one) and its last sighting is the event's; every other issue and event is as it
  was.\<close>

theorem ingest_stores_and_counts:
  assumes "db_ok s" "sqlite_ingest w clock input now s = (Inr out, t)"
  shows "db_events t = db_events s @ [io_event out] \<and>
    ev_payload (io_event out) = ii_payload input \<and> ev_event_id (io_event out) = ii_event_id input \<and>
    ev_issue_id (io_event out) = iss_id (io_issue out) \<and> ev_received_at (io_event out) = now \<and>
    issue_map t = (issue_map s)(input_key input \<mapsto> io_issue out) \<and>
    iss_event_count (io_issue out) =
      (case issue_map s (input_key input) of Some cur \<Rightarrow> iss_event_count cur + 1 | None \<Rightarrow> 1) \<and>
    iss_last_seen (io_issue out) = now \<and> db_ok t"
proof -
  obtain up where up: "upsert_spec (upsert_of input now) (issue_map s (input_key input)) up"
    and ing: "db_ok t" "db_events t = db_events s @ [io_event out]"
      "io_event out = event_row (ev_id (io_event out)) (new_event_of input (iss_id (uo_issue up)) now)"
      "issue_map t = (issue_map s)(input_key input \<mapsto> io_issue out)"
    and iss: "(\<exists>at. io_issue out = clear_mute Unresolved at (uo_issue up)) \<or> io_issue out = uo_issue up"
    using sqlite.ingest_Ok [OF assms] by (auto split: if_splits)
  have "iss_event_count (io_issue out) = iss_event_count (uo_issue up)"
    "iss_last_seen (io_issue out) = iss_last_seen (uo_issue up)" "iss_id (io_issue out) = iss_id (uo_issue up)"
    using iss by (auto simp: clear_mute_def)
  moreover have "iss_event_count (uo_issue up) =
      (case issue_map s (input_key input) of Some cur \<Rightarrow> iss_event_count cur + 1 | None \<Rightarrow> 1)"
    "iss_last_seen (uo_issue up) = now"
    using up by (auto simp: upsert_spec_iff bump_issue_def new_issue_def upsert_of_def split: option.splits)
  moreover have "ev_payload (io_event out) = ii_payload input" "ev_event_id (io_event out) = ii_event_id input"
    "ev_issue_id (io_event out) = iss_id (uo_issue up)" "ev_received_at (io_event out) = now"
    by (subst ing(3), simp add: event_row_def new_event_of_def)+
  ultimately show ?thesis using ing(1,2,4) by simp
qed

text \<open>C10. Which notification an ingested event asks for: a first sighting, a regression when its
  issue was resolved or when it pushed a rate-muted issue over its threshold (which reopens it), and
  none otherwise; a muted issue that is not over its threshold stays muted and silent.\<close>

theorem ingest_notifies:
  assumes "db_ok s" "sqlite_ingest w clock input now s = (Inr out, t)"
  shows "case issue_map s (input_key input) of
           None \<Rightarrow> io_notify out = NewIssue \<and> iss_status (io_issue out) = Unresolved
         | Some cur \<Rightarrow>
             (if iss_status cur = Resolved then
                io_notify out = Regression \<and> iss_status (io_issue out) = Unresolved
              else if rate_exceeded (bump_issue (upsert_of input now) cur) now (db_events t) then
                io_notify out = Regression \<and> iss_status (io_issue out) = Unresolved
              else io_notify out = NotifyNone \<and> iss_status (io_issue out) = iss_status cur)"
proof -
  obtain up where up: "upsert_spec (upsert_of input now) (issue_map s (input_key input)) up"
    and res: "if rate_exceeded (uo_issue up) now (db_events t)
      then (\<exists>at. io_issue out = clear_mute Unresolved at (uo_issue up)) \<and> io_notify out = Regression
      else io_issue out = uo_issue up \<and> io_notify out = notify_kind_of up"
    using sqlite.ingest_Ok [OF assms] by blast
  show ?thesis
  proof (cases "issue_map s (input_key input)")
    case None
    with up obtain iid c where new: "uo_issue up = new_issue (upsert_of input now) iid c"
      "uo_is_new up" "\<not> uo_is_regression up" by (auto simp: upsert_spec_iff)
    then have "\<not> rate_exceeded (uo_issue up) now (db_events t)"
      by (simp add: rate_exceeded_by_def new_issue_def)
    with res new None show ?thesis by (simp add: notify_kind_of_def new_issue_def)
  next
    case (Some cur)
    with up have old: "uo_issue up = bump_issue (upsert_of input now) cur" "\<not> uo_is_new up"
      "uo_is_regression up \<longleftrightarrow> iss_status cur = Resolved" by (auto simp: upsert_spec_iff)
    show ?thesis
    proof (cases "iss_status cur = Resolved")
      case True
      then have "\<not> rate_exceeded (uo_issue up) now (db_events t)"
        using old by (simp add: rate_exceeded_by_def bump_issue_def)
      with True res old Some show ?thesis by (simp add: notify_kind_of_def bump_issue_def)
    next
      case False
      with res old Some show ?thesis
        by (auto simp: notify_kind_of_def bump_issue_def clear_mute_def split: if_splits)
    qed
  qed
qed

text \<open>The upsert and the insertion of the event are two transactions: when the database stays
  locked for the second one, the request fails as busy, for the client to send the event again, but
  the issue has already counted it although no event was stored.\<close>

theorem ingest_busy_insert_counts:
  assumes "db_ok s" "issue_map s (input_key input) = Some cur"
    and "faults s = None # map Some (es @ [e])" "length es = max_retries w"
    and "list_all (\<lambda>e. is_busy (Db e)) (es @ [e])"
  shows "\<exists>t. sqlite_ingest w clock input now s = (Inl (DbBusy ''insert event'' (Db e)), t) \<and>
           db_events t = db_events s \<and>
           issue_map t (input_key input) = Some (bump_issue (upsert_of input now) cur) \<and>
           iss_event_count (bump_issue (upsert_of input now) cur) = iss_event_count cur + 1"
proof -
  let ?u = "upsert_of input now" and ?s = "s\<lparr>faults := map Some (es @ [e])\<rparr>"
  let ?t = "snd (update_issue (iss_id cur) (bump_issue ?u) ?s)"
    and ?out = "\<lparr>uo_issue = bump_issue ?u cur, uo_is_new = False, uo_is_regression = (iss_status cur = Resolved)\<rparr>"
  have key: "(up_project_id ?u, up_fingerprint ?u) = input_key input" by (simp add: upsert_of_def)
  have s: "db_ok ?s" "issue_map ?s = issue_map s" using assms(1) issue_map_tables [of ?s s] by simp_all
  have body: "upsert_body ?u ?s = (Inr ?out, ?t)"
    using upsert_body_existing [OF s(1), of ?u cur] s(2) assms(2) key by simp
  note map = upsert_body_map [OF s(1) body, unfolded key s(2)]
  have "upsert_once ?u s = (Inr ?out, ?t)"
    using transaction_calm [of s "upsert_body ?u"] assms(3) body by (simp add: upsert_once_def)
  then have up: "ip_upsert (sqlite_issues (quiet_of w) clock) ?u s = (Inr ?out, ?t)"
    by (simp add: sqlite_issues_def upsert_by_fingerprint_def retry_write_def retry_from_Ok)
  let ?n = "new_event_of input (iss_id (bump_issue ?u cur)) now"
    and ?t' = "?t\<lparr>rng_pos := Suc (rng_pos ?t)\<rparr>"
  have "faults ?t' = map Some (es @ [e]) @ []" by (simp add: update_issue_def)
  then have "retry_write (rp_env (quiet_of w)) (rp_write (quiet_of w)) ''insert event''
      (transaction (insert_event_row (event_row (rng_uuid ?t (rng_pos ?t)) ?n))) ?t' =
      (Inl (DbBusy ''insert event'' (Db e)), ?t'\<lparr>faults := []\<rparr>)"
    using assms(4,5) by (intro retry_exhausted) simp_all
  then have "ep_insert (sqlite_events (quiet_of w)) ?n ?t =
      (Inl (DbBusy ''insert event'' (Db e)), ?t'\<lparr>faults := []\<rparr>)"
    unfolding sqlite_events_def insert_event_def Let_def by (simp only: event_port.simps prod.case sum.case)
  with up have "sqlite_ingest w clock input now s =
      (Inl (DbBusy ''insert event'' (Db e)), ?t'\<lparr>faults := []\<rparr>)"
    by (simp add: ingest_normalized_def)
  moreover have "issue_map (?t'\<lparr>faults := []\<rparr>) = issue_map ?t"
    by (rule issue_map_tables) simp
  moreover have "db_events (?t'\<lparr>faults := []\<rparr>) = db_events s" by (simp add: update_issue_def)
  ultimately show ?thesis using map by (simp add: bump_issue_def)
qed

text \<open>An event-rate mute whose window is beyond what a \<open>TimeDelta\<close> holds makes every later
  event of its issue panic after the event was stored: the window is not bounded before the
  subtraction.\<close>

theorem huge_mute_window_panics:
  assumes "iss_status i = Muted" "iss_mute_threshold i = Some n" "iss_mute_window_seconds i = Some w"
    and "i64_max div 1000 < w"
  shows "resurface_if_rate_exceeded issues events i now s =
           (Inl (Panic ''TimeDelta::seconds out of bounds''), s)"
  using assms by (simp add: resurface_if_rate_exceeded_def dt_sub_seconds_def delta_seconds_def)

section \<open>Witnesses\<close>

definition example_input :: ingest_input where
  "example_input =
     \<lparr>ii_project_id = ''p'', ii_event_id = ''ev'', ii_normalized = plain_message ''boom'',
      ii_payload = Null\<rparr>"

text \<open>The database with the issue of the example input, which is resolved.\<close>

definition grouped_db :: db where
  "grouped_db =
     example_db\<lparr>db_issues := [example_issue\<lparr>iss_fingerprint := fingerprint_normalized (plain_message ''boom'')\<rparr>]\<rparr>
       \<lparr>db_events := []\<rparr>"

lemma grouped_db_ok: "db_ok (grouped_db\<lparr>faults := fs\<rparr>)" "db_ok grouped_db"
  by (simp_all add: db_ok_defs grouped_db_def example_defs issue_key_def mute_ok_def)

lemma grouped_issue:
  "issue_map grouped_db (input_key example_input) =
     Some (example_issue\<lparr>iss_fingerprint := fingerprint_normalized (plain_message ''boom'')\<rparr>)"
  by (simp add: issue_map_def select_issue_def grouped_db_def issue_key_def example_input_def example_defs)

lemma grouped_ingest:
  "\<exists>out t. sqlite_ingest default_write_policy clock example_input now grouped_db = (Inr out, t)"
proof -
  let ?u = "upsert_of example_input now"
    and ?c = "example_issue\<lparr>iss_fingerprint := fingerprint_normalized (plain_message ''boom'')\<rparr>"
  let ?t = "snd (update_issue (iss_id ?c) (bump_issue ?u) grouped_db)"
  have f: "faults grouped_db = []" by (simp add: grouped_db_def example_db_def)
  have key: "(up_project_id ?u, up_fingerprint ?u) = input_key example_input"
    by (simp add: upsert_of_def)
  have up: "ip_upsert (sqlite_issues (quiet_of default_write_policy) clock) ?u grouped_db =
      (Inr \<lparr>uo_issue = bump_issue ?u ?c, uo_is_new = False, uo_is_regression = (iss_status ?c = Resolved)\<rparr>, ?t)"
    using retry_calm [of grouped_db "upsert_body ?u", OF f] upsert_body_existing [OF grouped_db_ok(2), of ?u ?c]
      grouped_issue key
    by (simp add: sqlite_issues_def upsert_by_fingerprint_def upsert_once_def)
  let ?n = "new_event_of example_input (iss_id (bump_issue ?u ?c)) now"
    and ?t' = "?t\<lparr>rng_pos := Suc (rng_pos ?t)\<rparr>"
  have "insert_event_row (event_row (rng_uuid ?t (rng_pos ?t)) ?n) ?t' =
      (Inr (), ?t'\<lparr>db_events := db_events ?t' @ [event_row (rng_uuid ?t (rng_pos ?t)) ?n]\<rparr>)"
    by (simp add: insert_event_row_def update_issue_def event_row_def new_event_of_def grouped_db_def
        example_defs example_input_def bump_issue_def)
  then have "retry_write (\<lambda>_ s. s) default_write_policy ''insert event''
      (transaction (insert_event_row (event_row (rng_uuid ?t (rng_pos ?t)) ?n))) ?t' =
      (Inr (), ?t'\<lparr>db_events := db_events ?t' @ [event_row (rng_uuid ?t (rng_pos ?t)) ?n]\<rparr>)"
    using f by (intro retry_calm) (simp_all add: update_issue_def)
  then have "\<exists>s2. ep_insert (sqlite_events (quiet_of default_write_policy)) ?n ?t =
      (Inr (event_row (rng_uuid ?t (rng_pos ?t)) ?n), s2)"
    by (simp add: sqlite_events_def insert_event_def Let_def)
  moreover have "iss_status (bump_issue ?u ?c) \<noteq> Muted" by (simp add: bump_issue_def example_defs)
  ultimately show ?thesis
    using up by (auto simp: ingest_normalized_def resurface_if_rate_exceeded_def)
qed

theorem ingest_stores_and_counts_witness:
  "\<exists>out t. sqlite_ingest default_write_policy 99 example_input 50 grouped_db = (Inr out, t) \<and>
     iss_event_count (io_issue out) = 2 \<and> db_events t = [io_event out]"
proof -
  obtain out t where run: "sqlite_ingest default_write_policy 99 example_input 50 grouped_db = (Inr out, t)"
    using grouped_ingest by blast
  from ingest_stores_and_counts [OF grouped_db_ok(2) run] run show ?thesis
    unfolding grouped_issue by (auto simp: grouped_db_def example_defs)
qed

theorem ingest_notifies_witness:
  "\<exists>out t. sqlite_ingest default_write_policy 99 example_input 50 grouped_db = (Inr out, t) \<and>
     io_notify out = Regression \<and> iss_status (io_issue out) = Unresolved"
proof -
  obtain out t where run: "sqlite_ingest default_write_policy 99 example_input 50 grouped_db = (Inr out, t)"
    using grouped_ingest by blast
  from ingest_notifies [OF grouped_db_ok(2) run] run show ?thesis
    unfolding grouped_issue by (auto simp: example_issue_def)
qed

theorem ingest_busy_insert_counts_witness:
  "\<exists>t. sqlite_ingest (default_write_policy\<lparr>max_retries := 0\<rparr>) 99 example_input 50
         (grouped_db\<lparr>faults := [None, Some locked]\<rparr>) = (Inl (DbBusy ''insert event'' (Db locked)), t) \<and>
       db_events t = []"
proof -
  have "issue_map (grouped_db\<lparr>faults := [None, Some locked]\<rparr>) = issue_map grouped_db"
    by (rule issue_map_tables) simp
  with grouped_issue ingest_busy_insert_counts [OF grouped_db_ok(1), of "[None, Some locked]" example_input
      _ "[]" locked "default_write_policy\<lparr>max_retries := 0\<rparr>" 99 50]
  show ?thesis by (auto simp: grouped_db_def)
qed

theorem huge_mute_window_panics_witness:
  "resurface_if_rate_exceeded (sqlite_issues quiet_repo 0) (sqlite_events quiet_repo)
     (example_issue\<lparr>iss_status := Muted, iss_mute_threshold := Some 5,
        iss_mute_window_seconds := Some 9223372036854776\<rparr>) 0 example_db =
   (Inl (Panic ''TimeDelta::seconds out of bounds''), example_db)"
  by (rule huge_mute_window_panics [where n = 5 and w = 9223372036854776]) simp_all

end
