(* ===== verification/Envelope.thy ===== *)
theory Envelope
  imports Json
begin

text \<open>
  \<open>src/ingest/envelope.rs\<close>: the parser of the newline-delimited envelope protocol. The cursor of
  the code is the suffix still to be read. \<open>from_slice\<close> is \<open>serde_json::from_slice\<close>, an
  argument of the definitions that use it.
\<close>

record envelope_item =
  eit_header :: val
  eit_payload :: string

record envelope =
  env_header :: val
  env_items :: "envelope_item list"

datatype envelope_error =
  EnvEmpty | EnvHeaderJson | EnvItemHeaderJson | EnvTruncatedItem | EnvItemPayloadJson

fun envelope_error_to_string :: "envelope_error \<Rightarrow> string" where
  "envelope_error_to_string EnvEmpty = ''empty envelope''"
| "envelope_error_to_string EnvHeaderJson = ''invalid envelope header JSON''"
| "envelope_error_to_string EnvItemHeaderJson = ''invalid item header JSON''"
| "envelope_error_to_string EnvTruncatedItem = ''item length exceeds payload''"
| "envelope_error_to_string EnvItemPayloadJson = ''invalid item payload JSON''"

definition header_event_id :: "envelope \<Rightarrow> string option" where
  "header_event_id e = Option.bind (val_get (env_header e) ''event_id'') as_str"

definition item_type :: "envelope_item \<Rightarrow> string option" where
  "item_type i = Option.bind (val_get (eit_header i) ''type'') as_str"

definition payload_json :: "(string \<Rightarrow> val option) \<Rightarrow> envelope_item \<Rightarrow> envelope_error + val" where
  "payload_json from_slice i =
     (case from_slice (eit_payload i) of Some v \<Rightarrow> Inr v | None \<Rightarrow> Inl EnvItemPayloadJson)"

abbreviation newline :: char where "newline \<equiv> CHR 0x0A"

definition next_line :: "string \<Rightarrow> (string \<times> string) option" where
  "next_line bytes =
     (if bytes = [] then None
      else Some (takeWhile (\<lambda>b. b \<noteq> newline) bytes, drop 1 (dropWhile (\<lambda>b. b \<noteq> newline) bytes)))"

definition declared_length :: "val \<Rightarrow> nat option" where
  "declared_length item_header = Option.bind (val_get item_header ''length'') as_u64"

text \<open>\<open>start.checked_add(len)\<close> overflows only when the sum exceeds the input as well.\<close>

definition read_payload :: "string \<Rightarrow> val \<Rightarrow> envelope_error + (string \<times> string)" where
  "read_payload bytes item_header =
     (case declared_length item_header of
        Some len \<Rightarrow>
          (if length bytes < len then Inl EnvTruncatedItem
           else let rest = drop len bytes in
             Inr (take len bytes, if take 1 rest = [newline] then drop 1 rest else rest))
      | None \<Rightarrow>
          (case next_line bytes of
             Some (line, rest) \<Rightarrow> Inr (line, rest)
           | None \<Rightarrow> Inr ([], bytes)))"

lemma next_line_shorter: "next_line bytes = Some (line, rest) \<Longrightarrow> length rest < length bytes"
proof -
  assume "next_line bytes = Some (line, rest)"
  then have "bytes \<noteq> []" "rest = drop 1 (dropWhile (\<lambda>b. b \<noteq> newline) bytes)"
    by (auto simp: next_line_def split: if_splits)
  then show ?thesis
    using length_dropWhile_le [of "\<lambda>b. b \<noteq> newline" bytes] by (cases bytes) auto
qed

lemma read_payload_shorter:
  "read_payload bytes h = Inr (payload, rest) \<Longrightarrow> length rest \<le> length bytes"
  using next_line_shorter [of bytes]
  by (fastforce simp: read_payload_def Let_def split: option.splits if_splits)

function parse_items ::
  "(string \<Rightarrow> val option) \<Rightarrow> string \<Rightarrow> envelope_error + envelope_item list" where
  "parse_items from_slice bytes =
     (case next_line bytes of
        None \<Rightarrow> Inr []
      | Some (line, rest) \<Rightarrow>
          if line = [] then parse_items from_slice rest
          else
            (case from_slice line of
               None \<Rightarrow> Inl EnvItemHeaderJson
             | Some h \<Rightarrow>
                 (case read_payload rest h of
                    Inl e \<Rightarrow> Inl e
                  | Inr (payload, rest') \<Rightarrow>
                      (case parse_items from_slice rest' of
                         Inl e \<Rightarrow> Inl e
                       | Inr items \<Rightarrow> Inr (\<lparr>eit_header = h, eit_payload = payload\<rparr> # items)))))"
  by pat_completeness auto
termination
  by (relation "measure (\<lambda>(f, bytes). length bytes)")
    (auto dest!: next_line_shorter read_payload_shorter)

declare parse_items.simps [simp del]

definition parse_envelope :: "(string \<Rightarrow> val option) \<Rightarrow> string \<Rightarrow> envelope_error + envelope" where
  "parse_envelope from_slice bytes =
     (case next_line bytes of
        None \<Rightarrow> Inl EnvEmpty
      | Some (header_line, rest) \<Rightarrow>
          if header_line = [] then Inl EnvEmpty
          else
            (case from_slice header_line of
               None \<Rightarrow> Inl EnvHeaderJson
             | Some header \<Rightarrow>
                 (case parse_items from_slice rest of
                    Inl e \<Rightarrow> Inl e
                  | Inr items \<Rightarrow> Inr \<lparr>env_header = header, env_items = items\<rparr>)))"

section \<open>Writing an envelope\<close>

text \<open>The wire format: \<open>print\<close> writes a JSON header on one line.\<close>

definition render_item :: "(val \<Rightarrow> string) \<Rightarrow> envelope_item \<Rightarrow> string" where
  "render_item print i = print (eit_header i) @ [newline] @ eit_payload i @ [newline]"

definition render_envelope :: "(val \<Rightarrow> string) \<Rightarrow> envelope \<Rightarrow> string" where
  "render_envelope print e =
     print (env_header e) @ [newline] @ concat (map (render_item print) (env_items e))"

text \<open>What the JSON library promises of a value: its text is one non-empty line that is read back.\<close>

definition json_line :: "(string \<Rightarrow> val option) \<Rightarrow> (val \<Rightarrow> string) \<Rightarrow> val \<Rightarrow> bool" where
  "json_line from_slice print v \<longleftrightarrow>
     from_slice (print v) = Some v \<and> print v \<noteq> [] \<and> newline \<notin> set (print v)"

text \<open>An item a client may send: its declared length, if any, is that of the payload, and without
  one the payload has no newline.\<close>

definition sendable :: "envelope_item \<Rightarrow> bool" where
  "sendable i \<longleftrightarrow>
     (case declared_length (eit_header i) of
        Some n \<Rightarrow> n = length (eit_payload i)
      | None \<Rightarrow> newline \<notin> set (eit_payload i))"

lemma next_line_append:
  "newline \<notin> set l \<Longrightarrow> next_line (l @ newline # r) = Some (l, r)"
  by (induction l) (auto simp: next_line_def)

lemma read_payload_rendered:
  "sendable i \<Longrightarrow> read_payload (eit_payload i @ newline # r) (eit_header i) = Inr (eit_payload i, r)"
  by (auto simp: sendable_def read_payload_def next_line_append split: option.splits)

lemma parse_items_rendered:
  "\<forall>i \<in> set items. json_line from_slice print (eit_header i) \<and> sendable i \<Longrightarrow>
     parse_items from_slice (concat (map (render_item print) items)) = Inr items"
proof (induction items)
  case Nil
  then show ?case by (simp add: parse_items.simps [of from_slice "[]"] next_line_def)
next
  case (Cons i items)
  then have i: "json_line from_slice print (eit_header i)" "sendable i" by auto
  then have "next_line (concat (map (render_item print) (i # items))) =
      Some (print (eit_header i), eit_payload i @ newline # concat (map (render_item print) items))"
    using next_line_append [of "print (eit_header i)"] by (simp add: json_line_def render_item_def)
  then show ?case
    using i Cons read_payload_rendered [OF i(2)]
    by (subst parse_items.simps) (simp add: json_line_def)
qed

text \<open>C40. The parser reads back every envelope a client writes: headers, items in wire order, and
  payloads byte for byte, a payload with newlines included when its header declares its length.\<close>

theorem parse_render_envelope:
  assumes "json_line from_slice print (env_header e)"
    and "\<forall>i \<in> set (env_items e). json_line from_slice print (eit_header i) \<and> sendable i"
  shows "parse_envelope from_slice (render_envelope print e) = Inr e"
  using assms next_line_append [of "print (env_header e)"] parse_items_rendered [OF assms(2)]
  by (simp add: parse_envelope_def render_envelope_def json_line_def)

definition toy_from_slice :: "string \<Rightarrow> val option" where
  "toy_from_slice s = (if s = ''{}'' then Some (Object []) else None)"

theorem parse_render_envelope_witness:
  "parse_envelope toy_from_slice
     (render_envelope (\<lambda>v. ''{}'')
       \<lparr>env_header = Object [], env_items = [\<lparr>eit_header = Object [], eit_payload = ''hi''\<rparr>]\<rparr>) =
   Inr \<lparr>env_header = Object [], env_items = [\<lparr>eit_header = Object [], eit_payload = ''hi''\<rparr>]\<rparr>"
  by (rule parse_render_envelope)
    (auto simp: json_line_def toy_from_slice_def sendable_def declared_length_def)

text \<open>A declared length is never trusted beyond the input: an item that claims more bytes than
  remain is refused as truncated, and what an accepted item carries are bytes of the input.\<close>

theorem declared_length_checked:
  assumes "declared_length h = Some len"
  shows "read_payload bytes h =
    (if length bytes < len then Inl EnvTruncatedItem
     else Inr (take len bytes,
               if take 1 (drop len bytes) = [newline] then drop (len + 1) bytes else drop len bytes)) \<and>
    (\<forall>payload rest. read_payload bytes h = Inr (payload, rest) \<longrightarrow>
       length payload = len \<and> (\<exists>gap. bytes = payload @ gap @ rest \<and> length gap \<le> 1))"
proof -
  have eq: "read_payload bytes h =
    (if length bytes < len then Inl EnvTruncatedItem
     else Inr (take len bytes,
               if take 1 (drop len bytes) = [newline] then drop (len + 1) bytes else drop len bytes))"
    using assms by (simp add: read_payload_def Let_def)
  have one: "bytes = take len bytes @ take 1 (drop len bytes) @ drop (len + 1) bytes"
    by (metis append_take_drop_id drop_drop add.commute)
  have none: "bytes = take len bytes @ [] @ drop len bytes" by simp
  have "\<exists>gap. bytes = payload @ gap @ rest \<and> length gap \<le> 1"
    if "read_payload bytes h = Inr (payload, rest)" for payload rest
  proof (cases "take 1 (drop len bytes) = [newline]")
    case True
    with that eq have "payload = take len bytes" "rest = drop (len + 1) bytes" by (auto split: if_splits)
    with one show ?thesis by (intro exI [of _ "take 1 (drop len bytes)"]) simp
  next
    case False
    with that eq have "payload = take len bytes" "rest = drop len bytes" by (auto split: if_splits)
    with none show ?thesis by (intro exI [of _ "[]"]) simp
  qed
  with eq show ?thesis by (auto split: if_splits)
qed

theorem declared_length_checked_witness:
  "read_payload ''abc'' (Object [(''length'', Number (PosInt 9))]) = Inl EnvTruncatedItem"
  using declared_length_checked [of "Object [(''length'', Number (PosInt 9))]" 9 "''abc''"]
  by (simp add: declared_length_def)

end
