(* ===== verification/Tags.thy ===== *)
theory Tags
  imports Domain
begin

text \<open>
  \<open>src/ingest/tags.rs\<close>: the tags of an event as a flat map, from either shape the SDKs send, and
  what a project's tag mute rules (\<open>src/domain/mute_rule.rs\<close>) say of them. \<open>float_str\<close> is the
  text of a floating-point JSON number.
\<close>

fun scalar_str :: "(int \<Rightarrow> int \<Rightarrow> string) \<Rightarrow> val \<Rightarrow> string" where
  "scalar_str float_str (Str s) = s"
| "scalar_str float_str (Number (PosInt n)) = nat_to_dec n"
| "scalar_str float_str (Number (NegInt i)) = int_to_dec i"
| "scalar_str float_str (Number (Float m e)) = float_str m e"
| "scalar_str float_str (Bool b) = (if b then ''true'' else ''false'')"
| "scalar_str float_str _ = []"

definition insert_pair :: "string \<Rightarrow> string \<Rightarrow> string bmap \<Rightarrow> string bmap" where
  "insert_pair key v out = (if key \<noteq> [] \<and> v \<noteq> [] then bm_insert key v out else out)"

text \<open>One entry of the array form: a pair, or an object with \<open>key\<close> and \<open>value\<close>.\<close>

definition insert_entry :: "(int \<Rightarrow> int \<Rightarrow> string) \<Rightarrow> val \<Rightarrow> string bmap \<Rightarrow> string bmap" where
  "insert_entry float_str entry out =
     (case entry of
        Array [k, v] \<Rightarrow> insert_pair (scalar_str float_str k) (scalar_str float_str v) out
      | Object obj \<Rightarrow>
          insert_pair
            (case map_of obj ''key'' of Some k \<Rightarrow> scalar_str float_str k | None \<Rightarrow> [])
            (case map_of obj ''value'' of Some v \<Rightarrow> scalar_str float_str v | None \<Rightarrow> []) out
      | _ \<Rightarrow> out)"

definition event_tags :: "(int \<Rightarrow> int \<Rightarrow> string) \<Rightarrow> val \<Rightarrow> string bmap" where
  "event_tags float_str payload =
     (case val_get payload ''tags'' of
        None \<Rightarrow> []
      | Some (Object m) \<Rightarrow> fold (\<lambda>(k, v). insert_pair k (scalar_str float_str v)) m []
      | Some (Array arr) \<Rightarrow> fold (insert_entry float_str) arr []
      | Some _ \<Rightarrow> [])"

definition any_rule_matches :: "tag_mute_rule list \<Rightarrow> string bmap \<Rightarrow> bool" where
  "any_rule_matches rules tags \<longleftrightarrow> list_ex (\<lambda>r. rule_matches r tags) rules"

section \<open>Properties\<close>

lemma fold_insert_pair_ok: "bm_ok out \<Longrightarrow> bm_ok (fold (\<lambda>(k, v). insert_pair k (f v)) m out)"
  by (induction m arbitrary: out) (auto simp: insert_pair_def bm_ok_insert)

lemma insert_entry_ok: "bm_ok out \<Longrightarrow> bm_ok (insert_entry float_str e out)"
  by (auto simp: insert_entry_def insert_pair_def bm_ok_insert split: val.splits list.splits option.splits)

lemma fold_insert_entry_ok: "bm_ok out \<Longrightarrow> bm_ok (fold (insert_entry float_str) arr out)"
  by (induction arr arbitrary: out) (auto simp: insert_entry_ok)

lemma event_tags_ok: "bm_ok (event_tags float_str payload)"
  by (auto simp: event_tags_def fold_insert_pair_ok fold_insert_entry_ok split: option.split val.split)

lemma fold_pairs_eq:
  "fold (insert_entry float_str) (map (\<lambda>(k, v). Array [Str k, v]) kvs) out =
   fold (\<lambda>(k, v). insert_pair k (scalar_str float_str v)) kvs out"
  "fold (insert_entry float_str) (map (\<lambda>(k, v). Object [(''key'', Str k), (''value'', v)]) kvs) out =
   fold (\<lambda>(k, v). insert_pair k (scalar_str float_str v)) kvs out"
  by (induction kvs arbitrary: out) (auto simp: insert_entry_def)

text \<open>The shapes of the tags are interchangeable: an object, an array of pairs and an array of
  key-value objects with the same entries give the same tags.\<close>

theorem tag_shapes_agree:
  "event_tags float_str (Object [(''tags'', Object kvs)]) =
     event_tags float_str (Object [(''tags'', Array (map (\<lambda>(k, v). Array [Str k, v]) kvs))]) \<and>
   event_tags float_str (Object [(''tags'', Object kvs)]) =
     event_tags float_str (Object [(''tags'',
       Array (map (\<lambda>(k, v). Object [(''key'', Str k), (''value'', v)]) kvs))])"
  by (simp add: event_tags_def fold_pairs_eq)

lemma rule_matches_iff:
  "rule_matches r tags \<longleftrightarrow>
     rule_tags r \<noteq> [] \<and> (\<forall>t \<in> set (rule_tags r). map_of tags (tag_key t) = Some (tag_value t))"
  by (simp add: rule_matches_def list_all_iff)

text \<open>A rule is the conjunction of its pairs: it fires when all of them are among the event's
  tags, never when it has none, and narrowing it by more pairs only makes it fire less.\<close>

theorem rule_is_conjunction:
  "rule_matches r (event_tags float_str payload) \<longleftrightarrow>
     rule_tags r \<noteq> [] \<and>
     (\<forall>t \<in> set (rule_tags r). (tag_key t, tag_value t) \<in> set (event_tags float_str payload))"
proof -
  have "distinct (map fst (event_tags float_str payload))"
    using event_tags_ok [of float_str payload] by (simp add: bm_ok_def strict_sorted_iff)
  then show ?thesis by (simp add: rule_matches_iff)
qed

end
