(* ===== verification/RateLimit.thy ===== *)
theory RateLimit
  imports Prelude
begin

text \<open>
  \<open>src/ingest/ratelimit.rs\<close>: the fixed-window rate limiter of ingestion, one counter per project.
  An instant of the monotonic clock is a number of nanoseconds; the mutex makes each check atomic,
  so a history of the limiter is a sequence of checks.
\<close>

definition DEFAULT_LIMIT :: nat where "DEFAULT_LIMIT = 300"
definition DEFAULT_WINDOW :: int where "DEFAULT_WINDOW = secs 60"

datatype decision = Allow | Limited int

definition is_limited :: "decision \<Rightarrow> bool" where
  "is_limited d \<longleftrightarrow> d \<noteq> Allow"

record rate_window =
  rw_start :: int
  rw_count :: nat

record rate_limiter =
  rl_limit :: nat
  rl_window :: int
  rl_state :: "string \<Rightarrow> rate_window option"

definition new_limiter :: "nat \<Rightarrow> int \<Rightarrow> rate_limiter" where
  "new_limiter limit window = \<lparr>rl_limit = limit, rl_window = window, rl_state = (\<lambda>_. None)\<rparr>"

text \<open>\<open>Instant::duration_since\<close> is zero for an earlier instant.\<close>

definition duration_since :: "int \<Rightarrow> int \<Rightarrow> int" where
  "duration_since now start = max 0 (now - start)"

text \<open>The counter a check works on: created on first sight of the project, started anew once a
  whole window has elapsed.\<close>

definition current_window :: "rate_limiter \<Rightarrow> string \<Rightarrow> int \<Rightarrow> rate_window" where
  "current_window l key now =
     (let entry = (case rl_state l key of Some w \<Rightarrow> w | None \<Rightarrow> \<lparr>rw_start = now, rw_count = 0\<rparr>)
      in if rl_window l \<le> duration_since now (rw_start entry)
         then \<lparr>rw_start = now, rw_count = 0\<rparr> else entry)"

definition check_at :: "rate_limiter \<Rightarrow> string \<Rightarrow> int \<Rightarrow> decision \<times> rate_limiter" where
  "check_at l key now =
     (let entry = current_window l key now
      in if rl_limit l \<le> rw_count entry then
           (let elapsed = duration_since now (rw_start entry);
                remaining = max 0 (rl_window l - elapsed)
            in (Limited (max (remaining div 1000000000) 1),
                l\<lparr>rl_state := (rl_state l)(key \<mapsto> entry)\<rparr>))
         else (Allow, l\<lparr>rl_state := (rl_state l)(key \<mapsto> entry\<lparr>rw_count := rw_count entry + 1\<rparr>)\<rparr>))"

text \<open>A history: checks of several projects in the order the lock was taken; the result pairs each
  with its decision.\<close>

fun run_checks :: "rate_limiter \<Rightarrow> (string \<times> int) list \<Rightarrow> (string \<times> int \<times> decision) list \<times> rate_limiter" where
  "run_checks l [] = ([], l)"
| "run_checks l ((key, now) # reqs) =
     (let (d, l') = check_at l key now; (ds, l'') = run_checks l' reqs in ((key, now, d) # ds, l''))"

definition allowed_times :: "string \<Rightarrow> (string \<times> int \<times> decision) list \<Rightarrow> int list" where
  "allowed_times key log = map (\<lambda>(k, t, d). t) (filter (\<lambda>(k, t, d). k = key \<and> d = Allow) log)"

abbreviation count_between :: "int \<Rightarrow> int \<Rightarrow> int list \<Rightarrow> nat" where
  "count_between a b ts \<equiv> length (filter (\<lambda>t. a \<le> t \<and> t < b) ts)"

section \<open>One check\<close>

lemma check_at_limit [simp]:
  "rl_limit (snd (check_at l key now)) = rl_limit l" "rl_window (snd (check_at l key now)) = rl_window l"
  by (simp_all add: check_at_def Let_def)

lemma check_at_other [simp]: "other \<noteq> key \<Longrightarrow> rl_state (snd (check_at l key now)) other = rl_state l other"
  by (simp add: check_at_def Let_def)

lemma current_window_cong:
  "rl_state l' key = rl_state l key \<Longrightarrow> rl_window l' = rl_window l \<Longrightarrow>
   current_window l' key now = current_window l key now"
  by (simp add: current_window_def)

lemma check_at_cong:
  assumes "rl_state l' key = rl_state l key" "rl_window l' = rl_window l" "rl_limit l' = rl_limit l"
  shows "fst (check_at l' key now) = fst (check_at l key now)"
  using assms(2-3) current_window_cong [OF assms(1-2)] by (simp add: check_at_def Let_def)

lemma check_at_cases:
  "fst (check_at l key now) = Allow \<and> rw_count (current_window l key now) < rl_limit l \<and>
     rl_state (snd (check_at l key now)) key =
       Some ((current_window l key now)\<lparr>rw_count := rw_count (current_window l key now) + 1\<rparr>) \<or>
   fst (check_at l key now) \<noteq> Allow \<and> rl_limit l \<le> rw_count (current_window l key now) \<and>
     rl_state (snd (check_at l key now)) key = Some (current_window l key now)"
  by (simp add: check_at_def Let_def)

text \<open>Projects do not share a budget: a check of one project changes no decision on another.\<close>

theorem check_at_independent:
  assumes "other \<noteq> key"
  shows "fst (check_at (snd (check_at l key now)) other later) = fst (check_at l other later)"
  using assms by (intro check_at_cong) simp_all

theorem check_at_independent_witness:
  "fst (check_at (snd (check_at (new_limiter 0 5) ''a'' 0)) ''b'' 1) = fst (check_at (new_limiter 0 5) ''b'' 1)"
  using check_at_independent [of "''b''" "''a''" "new_limiter 0 5" 0 1] by simp

section \<open>The budget over time\<close>

abbreviation count_from :: "int \<Rightarrow> int list \<Rightarrow> nat" where
  "count_from a ts \<equiv> length (filter (\<lambda>t. a \<le> t) ts)"

lemma count_split:
  "a \<le> s \<Longrightarrow> s \<le> b \<Longrightarrow> count_between a b ts = count_between a s ts + count_between s b ts"
  by (induction ts) auto

lemma count_le_from: "s \<le> a \<Longrightarrow> count_between a b ts \<le> count_from s ts"
  by (induction ts) auto

lemma count_from_0: "(\<And>t. t \<in> set ts \<Longrightarrow> t < a) \<Longrightarrow> count_from a ts = 0"
  by (induction ts) force+

text \<open>What the limiter's state says of the times at which a project was allowed so far: the counter
  counts those of the current window, and within one window's length before its start there is at
  most one budget.\<close>

definition window_inv :: "nat \<Rightarrow> int \<Rightarrow> int \<Rightarrow> rate_window \<Rightarrow> int list \<Rightarrow> bool" where
  "window_inv lim win now e ts \<longleftrightarrow>
     rw_start e \<le> now \<and> rw_count e \<le> lim \<and> count_from (rw_start e) ts = rw_count e \<and>
     (\<forall>t \<in> set ts. t < rw_start e + win) \<and>
     (\<forall>a > rw_start e - win. count_between a (rw_start e) ts \<le> lim)"

definition budget_inv :: "nat \<Rightarrow> int \<Rightarrow> int \<Rightarrow> rate_window option \<Rightarrow> int list \<Rightarrow> bool" where
  "budget_inv lim win now w ts \<longleftrightarrow>
     (\<forall>a. count_between a (a + win) ts \<le> 2 * lim) \<and>
     (case w of None \<Rightarrow> ts = [] | Some e \<Rightarrow> window_inv lim win now e ts)"

lemma budget_inv_later: "budget_inv lim win now w ts \<Longrightarrow> now \<le> later \<Longrightarrow> budget_inv lim win later w ts"
  by (auto simp: budget_inv_def window_inv_def split: option.splits)

lemma window_inv_roll:
  assumes "0 < win" "window_inv lim win now e ts" "win \<le> later - rw_start e"
  shows "window_inv lim win later \<lparr>rw_start = later, rw_count = 0\<rparr> ts"
proof -
  have before: "t < later" if "t \<in> set ts" for t
    using assms(2,3) that by (fastforce simp: window_inv_def)
  have "count_between a later ts \<le> lim" if "later - win < a" for a
  proof -
    have "count_between a later ts \<le> count_from (rw_start e) ts"
      using that assms(3) by (intro count_le_from) simp
    also have "\<dots> \<le> lim" using assms(2) by (simp add: window_inv_def)
    finally show ?thesis .
  qed
  then show ?thesis
    using before assms(1) count_from_0 [of ts later, OF before] by (fastforce simp: window_inv_def)
qed

lemma window_inv_fresh: "0 < win \<Longrightarrow> window_inv lim win now \<lparr>rw_start = now, rw_count = 0\<rparr> []"
  by (simp add: window_inv_def)

lemma current_window_inv:
  assumes "0 < rl_window l" "budget_inv lim (rl_window l) now (rl_state l key) ts"
  shows "window_inv lim (rl_window l) now (current_window l key now) ts \<and>
         now < rw_start (current_window l key now) + rl_window l"
proof (cases "rl_state l key")
  case None
  then show ?thesis
    using assms by (simp add: budget_inv_def current_window_def duration_since_def window_inv_fresh)
next
  case (Some e)
  then have "window_inv lim (rl_window l) now e ts" using assms(2) by (simp add: budget_inv_def)
  then show ?thesis
    using assms(1) Some window_inv_roll [OF assms(1), of lim now e ts now]
    by (auto simp: current_window_def duration_since_def Let_def)
qed

lemma window_inv_allow:
  assumes "window_inv lim win now e ts" "now < rw_start e + win" "rw_count e < lim"
  shows "window_inv lim win now (e\<lparr>rw_count := rw_count e + 1\<rparr>) (ts @ [now])"
  using assms by (auto simp: window_inv_def)

lemma window_budget:
  assumes "window_inv lim win now e ts" "a \<le> now" "now < a + win"
  shows "count_between a (a + win) ts \<le> 2 * lim"
proof -
  have from_start: "count_from (rw_start e) ts \<le> lim" using assms(1) by (simp add: window_inv_def)
  show ?thesis
  proof (cases "a \<le> rw_start e")
    case True
    then have "count_between a (a + win) ts
               = count_between a (rw_start e) ts + count_between (rw_start e) (a + win) ts"
      using assms by (intro count_split) (auto simp: window_inv_def)
    moreover have "count_between a (rw_start e) ts \<le> lim"
      using assms by (auto simp: window_inv_def)
    moreover have "count_between (rw_start e) (a + win) ts \<le> lim"
      using count_le_from [of "rw_start e" "rw_start e" "a + win" ts] from_start by simp
    ultimately show ?thesis by simp
  next
    case False
    then show ?thesis using count_le_from [of "rw_start e" a "a + win" ts] from_start by simp
  qed
qed

lemma check_at_budget:
  assumes "0 < rl_window l" "budget_inv (rl_limit l) (rl_window l) now (rl_state l key) ts"
  shows "budget_inv (rl_limit l) (rl_window l) now (rl_state (snd (check_at l key now)) key)
           (if fst (check_at l key now) = Allow then ts @ [now] else ts)"
proof -
  note cur = current_window_inv [OF assms]
  have old: "count_between a (a + rl_window l) ts \<le> 2 * rl_limit l" for a
    using assms(2) by (simp add: budget_inv_def)
  from check_at_cases [of l key now] show ?thesis
  proof (elim disjE conjE)
    assume allow: "fst (check_at l key now) = Allow" "rw_count (current_window l key now) < rl_limit l"
      and st: "rl_state (snd (check_at l key now)) key =
                 Some ((current_window l key now)\<lparr>rw_count := rw_count (current_window l key now) + 1\<rparr>)"
    let ?e = "(current_window l key now)\<lparr>rw_count := rw_count (current_window l key now) + 1\<rparr>"
    have w: "window_inv (rl_limit l) (rl_window l) now ?e (ts @ [now])"
      using cur allow(2) window_inv_allow by blast
    have "count_between a (a + rl_window l) (ts @ [now]) \<le> 2 * rl_limit l" for a
      using window_budget [OF w, of a] old [of a] by (cases "a \<le> now \<and> now < a + rl_window l") auto
    then show ?thesis using w allow(1) st by (simp add: budget_inv_def)
  next
    assume "fst (check_at l key now) \<noteq> Allow"
      "rl_state (snd (check_at l key now)) key = Some (current_window l key now)"
    then show ?thesis using cur old by (simp add: budget_inv_def)
  qed
qed

lemma run_checks_budget:
  assumes "0 < rl_window l" "sorted (now # map snd reqs)"
    and "budget_inv (rl_limit l) (rl_window l) now (rl_state l key) ts"
  shows "\<forall>a. count_between a (a + rl_window l) (ts @ allowed_times key (fst (run_checks l reqs)))
           \<le> 2 * rl_limit l"
  using assms
proof (induction reqs arbitrary: l now ts)
  case Nil
  then show ?case by (simp add: budget_inv_def allowed_times_def)
next
  case (Cons r reqs)
  obtain k t where r: "r = (k, t)" by fastforce
  let ?l = "snd (check_at l k t)"
  let ?ts = "if k = key \<and> fst (check_at l k t) = Allow then ts @ [t] else ts"
  have at_t: "budget_inv (rl_limit l) (rl_window l) t (rl_state l key) ts"
    using Cons.prems(2,3) r budget_inv_later by fastforce
  have "budget_inv (rl_limit l) (rl_window l) t (rl_state ?l key) ?ts"
    using check_at_budget [OF Cons.prems(1), of t k ts] at_t by (cases "k = key") auto
  then have "\<forall>a. count_between a (a + rl_window ?l) (?ts @ allowed_times key (fst (run_checks ?l reqs)))
               \<le> 2 * rl_limit ?l"
    using Cons.prems(1,2) r by (intro Cons.IH [of ?l t ?ts]) auto
  moreover have "?ts @ allowed_times key (fst (run_checks ?l reqs)) =
                 ts @ allowed_times key (fst (run_checks l (r # reqs)))"
    by (auto simp: r allowed_times_def split_beta Let_def)
  ultimately show ?case by simp
qed

text \<open>The budget holds over every stretch of time: whatever the sequence of requests, in any
  interval of one window's length a project is allowed at most twice the limit (the two fixed windows
  such an interval can meet), other projects' requests notwithstanding.\<close>

theorem allowed_within_budget:
  assumes "0 < window" "sorted (map snd reqs)"
  shows "count_between a (a + window) (allowed_times key (fst (run_checks (new_limiter limit window) reqs)))
           \<le> 2 * limit"
proof -
  let ?now = "case reqs of [] \<Rightarrow> 0 | r # _ \<Rightarrow> snd r"
  have "sorted (?now # map snd reqs)" using assms(2) by (cases reqs) auto
  then show ?thesis
    using run_checks_budget [of "new_limiter limit window" ?now reqs key "[]"] assms(1)
    by (simp add: new_limiter_def budget_inv_def)
qed

theorem allowed_within_budget_witness:
  "count_between 5 15 (allowed_times ''p'' (fst (run_checks (new_limiter 1 10)
      [(''p'', 0), (''q'', 2), (''p'', 3), (''p'', 10), (''p'', 14)]))) \<le> 2"
  using allowed_within_budget [of 10 "[(''p'', 0), (''q'', 2), (''p'', 3), (''p'', 10), (''p'', 14)]" 5 "''p''" 1]
  by simp

text \<open>A limited project is let in again: a check at least one window after the counter's start is
  allowed, for a limiter with a positive limit, and the delay it names is never zero.\<close>

theorem window_reopens:
  assumes "0 < rl_limit l" "rl_state l key = Some e" "rw_start e + rl_window l \<le> now"
  shows "fst (check_at l key now) = Allow \<and>
         (\<forall>n d. fst (check_at l key n) = Limited d \<longrightarrow> 1 \<le> d)"
proof -
  have "fst (check_at l key now) = Allow"
    using assms by (auto simp: check_at_def current_window_def duration_since_def)
  moreover have "1 \<le> d" if "fst (check_at l key n) = Limited d" for n d
    using that by (auto simp: check_at_def Let_def split: if_splits)
  ultimately show ?thesis by blast
qed

theorem window_reopens_witness:
  "fst (check_at (snd (check_at (new_limiter 1 5) ''a'' 0)) ''a'' 5) = Allow"
  using window_reopens [of "snd (check_at (new_limiter 1 5) ''a'' 0)" "''a''" "\<lparr>rw_start = 0, rw_count = 1\<rparr>" 5]
  by (simp add: check_at_def new_limiter_def current_window_def duration_since_def)

end
