(* ===== verification/Lockout.thy ===== *)
theory Lockout
  imports Errors "HOL-Library.Word" "HOL-Library.AList"
begin

text \<open>
  \<open>src/auth/lockout.rs\<close>: the brute-force guard of password logins. An instant of the monotonic
  clock is a number of nanoseconds; the hash map is an association list with distinct keys; the
  counters are 32 bits wide. Each operation runs under the mutex, so a history of the guard is a
  sequence of operations.
\<close>

record lockout_config =
  lc_enabled :: bool
  lc_max_attempts :: "32 word"
  lc_window :: duration
  lc_base_lockout :: duration
  lc_max_lockout :: duration

definition default_lockout_config :: lockout_config where
  "default_lockout_config = \<lparr>lc_enabled = True, lc_max_attempts = 5, lc_window = 900 * 1000000000,
     lc_base_lockout = 60 * 1000000000, lc_max_lockout = 3600 * 1000000000\<rparr>"

definition PRUNE_THRESHOLD :: nat where "PRUNE_THRESHOLD = 10000"
definition OVERFLOW_KEY :: string where "OVERFLOW_KEY = ''<overflow>''"

datatype lockout_decision = Allowed | Locked nat

fun is_locked :: "lockout_decision \<Rightarrow> bool" where
  "is_locked (Locked _) = True"
| "is_locked Allowed = False"

record lock_entry =
  le_failures :: "32 word"
  le_window_start :: int
  le_locked_until :: "int option"
  le_level :: "32 word"

definition new_entry :: "int \<Rightarrow> lock_entry" where
  "new_entry now = \<lparr>le_failures = 0, le_window_start = now, le_locked_until = None, le_level = 0\<rparr>"

text \<open>\<open>Instant::duration_since\<close> and \<open>saturating_duration_since\<close> are zero for an earlier instant.\<close>

definition elapsed_since :: "int \<Rightarrow> int \<Rightarrow> duration" where
  "elapsed_since now start = nat (now - start)"

definition is_idle :: "lock_entry \<Rightarrow> int \<Rightarrow> duration \<Rightarrow> bool" where
  "is_idle e now window \<longleftrightarrow>
     (case le_locked_until e of None \<Rightarrow> True | Some until \<Rightarrow> until \<le> now) \<and>
     window \<le> elapsed_since now (le_window_start e)"

type_synonym lock_map = "(string \<times> lock_entry) list"

record login_guard =
  lg_config :: lockout_config
  lg_entries :: lock_map

definition new_guard :: "lockout_config \<Rightarrow> login_guard" where
  "new_guard c = \<lparr>lg_config = c, lg_entries = []\<rparr>"

definition record_success :: "login_guard \<Rightarrow> string \<Rightarrow> login_guard" where
  "record_success g key =
     (if \<not> lc_enabled (lg_config g) then g else g\<lparr>lg_entries := AList.delete key (lg_entries g)\<rparr>)"

definition secs_until :: "int \<Rightarrow> int \<Rightarrow> nat" where
  "secs_until now until =
     (let remaining = elapsed_since until now;
          ceil = (if 0 < remaining mod 1000000000 then remaining div 1000000000 + 1
                  else remaining div 1000000000)
      in max ceil 1)"

definition check_lock_at :: "login_guard \<Rightarrow> string \<Rightarrow> int \<Rightarrow> lockout_decision" where
  "check_lock_at g key now =
     (if \<not> lc_enabled (lg_config g) then Allowed
      else
        let entry = (case map_of (lg_entries g) key of
                       Some e \<Rightarrow> Some e
                     | None \<Rightarrow> (if PRUNE_THRESHOLD \<le> length (lg_entries g)
                                then map_of (lg_entries g) OVERFLOW_KEY else None))
        in case Option.bind entry le_locked_until of
             Some until \<Rightarrow> (if now < until then Locked (secs_until now until) else Allowed)
           | None \<Rightarrow> Allowed)"

definition lockout_duration :: "lockout_config \<Rightarrow> 32 word \<Rightarrow> duration" where
  "lockout_duration c level =
     (let shift = (if level = 0 then 0 else level - 1);
          factor = (if 31 \<le> shift then - 1 else push_bit (unat shift) (1 :: 32 word));
          product = lc_base_lockout c * unat factor
      in min (if duration_max < product then lc_max_lockout c else product) (lc_max_lockout c))"

text \<open>\<open>Instant + Duration\<close> panics beyond the range of the clock's 64-bit seconds.\<close>

definition instant_add :: "int \<Rightarrow> duration \<Rightarrow> int res" where
  "instant_add now d =
     (if now + int d \<le> secs i64_max + 999999999 then Inr (now + int d)
      else Inl (Panic ''overflow when adding duration to instant''))"

definition prune_idle :: "duration \<Rightarrow> int \<Rightarrow> lock_map \<Rightarrow> lock_map" where
  "prune_idle window now entries =
     (if PRUNE_THRESHOLD \<le> length entries
      then filter (\<lambda>(_, e). \<not> is_idle e now window) entries else entries)"

definition tracked_key :: "lock_map \<Rightarrow> string \<Rightarrow> string" where
  "tracked_key entries key =
     (if PRUNE_THRESHOLD \<le> length entries \<and> map_of entries key = None then OVERFLOW_KEY else key)"

text \<open>The failure-counting window is rolled forward when it has elapsed and no lock is active.\<close>

definition roll_window :: "duration \<Rightarrow> int \<Rightarrow> lock_entry \<Rightarrow> lock_entry" where
  "roll_window window now e =
     (let lock_active = (case le_locked_until e of Some until \<Rightarrow> now < until | None \<Rightarrow> False)
      in if \<not> lock_active \<and> window \<le> elapsed_since now (le_window_start e)
         then e\<lparr>le_failures := 0, le_window_start := now\<rparr> else e)"

text \<open>The update of the entry itself: count the failure, and at the threshold escalate and arm the
  lock.\<close>

definition count_failure :: "lockout_config \<Rightarrow> int \<Rightarrow> lock_entry \<Rightarrow> unit res \<times> lock_entry" where
  "count_failure c now e0 =
     (let e = roll_window (lc_window c) now e0;
          e = e\<lparr>le_failures := le_failures e + 1\<rparr>
      in if le_failures e < lc_max_attempts c then (Inr (), e)
         else
           let e = e\<lparr>le_level := le_level e + 1\<rparr>
           in case instant_add now (lockout_duration c (le_level e)) of
                Inl err \<Rightarrow> (Inl err, e)
              | Inr until \<Rightarrow>
                  (Inr (), e\<lparr>le_locked_until := Some until, le_failures := 0, le_window_start := now\<rparr>))"

definition record_failure_at :: "login_guard \<Rightarrow> string \<Rightarrow> int \<Rightarrow> unit res \<times> login_guard" where
  "record_failure_at g key now =
     (let c = lg_config g in
      if \<not> lc_enabled c then (Inr (), g)
      else
        let entries = prune_idle (lc_window c) now (lg_entries g);
            k = tracked_key entries key;
            entry = (case map_of entries k of Some e \<Rightarrow> e | None \<Rightarrow> new_entry now);
            (r, entry') = count_failure c now entry
        in (r, g\<lparr>lg_entries := AList.update k entry' entries\<rparr>))"

definition lockout_key :: "string \<Rightarrow> string \<Rightarrow> string" where
  "lockout_key ip email = ip @ ''|'' @ email"

definition client_ip :: "string option \<Rightarrow> string" where
  "client_ip peer = (case peer of Some addr \<Rightarrow> addr | None \<Rightarrow> ''unknown'')"

section \<open>The lock's length\<close>

lemma push_bit_one: "n < 31 \<Longrightarrow> unat (push_bit n (1 :: 32 word)) = 2 ^ n"
  using power_strict_increasing [of n 32 "2 :: nat"]
  by (intro of_nat_inverse) (auto simp: push_bit_eq_mult)

lemma lockout_duration_eq:
  assumes "lc_max_lockout c \<le> duration_max"
  shows "lockout_duration c level =
    min (lc_base_lockout c * (if 32 \<le> unat level then u32_max else 2 ^ (unat level - 1))) (lc_max_lockout c)"
proof -
  define shift where "shift = (if level = 0 then 0 else level - 1)"
  have shift: "unat shift = unat level - 1"
    by (simp add: shift_def unat_minus_one)
  have factor: "unat (if 31 \<le> shift then - 1 else push_bit (unat shift) (1 :: 32 word)) =
                (if 32 \<le> unat level then u32_max else 2 ^ (unat level - 1))"
    using push_bit_one [of "unat shift"] shift
    by (auto simp: word_le_nat_alt unsigned_minus_1_eq_mask mask_eq_exp_minus_1)
  show ?thesis
    using assms unfolding lockout_duration_def Let_def shift_def [symmetric] factor by auto
qed

text \<open>The lock grows exponentially and stays within its cap: the n-th lock of a key lasts
  \<open>base * 2 ^ (n - 1)\<close> up to the cap, never longer than the cap, and a later lock is never shorter
  than an earlier one.\<close>

theorem lockout_duration_grows:
  assumes "lc_max_lockout c \<le> duration_max"
  shows "lockout_duration c level \<le> lc_max_lockout c \<and>
    (1 \<le> unat level \<and> unat level \<le> 31 \<longrightarrow>
       lockout_duration c level = min (lc_base_lockout c * 2 ^ (unat level - 1)) (lc_max_lockout c)) \<and>
    (level \<le> level' \<longrightarrow> lockout_duration c level \<le> lockout_duration c level')"
proof (intro conjI impI)
  assume "level \<le> level'"
  then have le: "unat level \<le> unat level'" by (simp add: word_le_nat_alt)
  have pow: "(2 :: nat) ^ (unat level - 1) \<le> 2 ^ 31" if "unat level < 32" for level :: "32 word"
    using that by (intro power_increasing) auto
  have "(if 32 \<le> unat level then u32_max else 2 ^ (unat level - 1)) \<le>
        (if 32 \<le> unat level' then u32_max else 2 ^ (unat level' - 1))"
    using le pow [of level] by (auto intro: power_increasing)
  then show "lockout_duration c level \<le> lockout_duration c level'"
    by (simp add: lockout_duration_eq [OF assms] min.coboundedI1 min.mono)
qed (auto simp: lockout_duration_eq [OF assms])

theorem lockout_duration_grows_witness:
  "lockout_duration default_lockout_config 3 = 240 * 1000000000"
  using lockout_duration_grows [of default_lockout_config 3 4]
  by (simp add: default_lockout_config_def duration_max_def)

section \<open>The table stays bounded\<close>

definition table_ok :: "lock_map \<Rightarrow> bool" where
  "table_ok al \<longleftrightarrow>
     distinct (map fst al) \<and> length al \<le> PRUNE_THRESHOLD + 1 \<and>
     (length al = PRUNE_THRESHOLD + 1 \<longrightarrow> OVERFLOW_KEY \<in> fst ` set al)"

lemma length_update:
  "length (AList.update k v al) = (if map_of al k = None then length al + 1 else length al)"
  by (induction al) auto

lemma table_ok_update: "table_ok al \<Longrightarrow> table_ok (AList.update (tracked_key al key) e al)"
  by (auto simp: table_ok_def length_update tracked_key_def distinct_update dom_update map_of_eq_None_iff)

lemma table_ok_filter:
  assumes "table_ok al"
  shows "table_ok (filter P al)"
proof -
  have "filter P al = al" if "length (filter P al) = PRUNE_THRESHOLD + 1"
    using that assms length_filter_less [of _ al P]
    by (intro filter_True) (fastforce simp: table_ok_def)
  moreover have "length (filter P al) \<le> length al" by simp
  ultimately show ?thesis
    using assms unfolding table_ok_def by (metis distinct_map_filter le_trans)
qed

lemma table_ok_prune: "table_ok al \<Longrightarrow> table_ok (prune_idle w now al)"
  by (simp add: prune_idle_def table_ok_filter)

datatype guard_op = Failure string int | Success string

fun guard_step :: "login_guard \<Rightarrow> guard_op \<Rightarrow> login_guard" where
  "guard_step g (Failure key now) = snd (record_failure_at g key now)"
| "guard_step g (Success key) = record_success g key"

lemma guard_step_ok:
  assumes "table_ok (lg_entries g)"
  shows "table_ok (lg_entries (guard_step g op))"
proof (cases op)
  case (Failure key now)
  then show ?thesis
    using assms by (simp add: record_failure_at_def Let_def split_beta table_ok_update table_ok_prune)
next
  case (Success key)
  then show ?thesis
    using assms by (simp add: record_success_def AList.delete_eq table_ok_filter)
qed

text \<open>The guard's table is bounded whatever is thrown at it: after any sequence of failed and
  successful logins it holds at most one key more than its pruning threshold.\<close>

theorem lockout_table_bounded:
  "length (lg_entries (fold (\<lambda>op g. guard_step g op) ops (new_guard c))) \<le> 10001"
proof -
  have "table_ok (lg_entries (fold (\<lambda>op g. guard_step g op) ops g))" if "table_ok (lg_entries g)" for g
    using that by (induction ops arbitrary: g) (auto simp: guard_step_ok)
  then have "table_ok (lg_entries (fold (\<lambda>op g. guard_step g op) ops (new_guard c)))"
    by (simp add: table_ok_def new_guard_def)
  then show ?thesis by (simp add: table_ok_def PRUNE_THRESHOLD_def)
qed

section \<open>When the lock trips\<close>

abbreviation fail_run :: "login_guard \<Rightarrow> string \<Rightarrow> int list \<Rightarrow> login_guard" where
  "fail_run g key ts \<equiv> fold (\<lambda>t g. snd (record_failure_at g key t)) ts g"

lemma record_failure_config [simp]: "lg_config (snd (record_failure_at g key now)) = lg_config g"
  by (simp add: record_failure_at_def Let_def split_beta)

text \<open>Below the pruning threshold a failure only touches its own key.\<close>

lemma record_failure_room:
  assumes "lc_enabled (lg_config g)" "length (lg_entries g) < PRUNE_THRESHOLD"
  shows "record_failure_at g key now =
    (let (r, e) = count_failure (lg_config g) now
           (case map_of (lg_entries g) key of Some e \<Rightarrow> e | None \<Rightarrow> new_entry now)
     in (r, g\<lparr>lg_entries := AList.update key e (lg_entries g)\<rparr>))"
  using assms by (simp add: record_failure_at_def Let_def prune_idle_def tracked_key_def)

text \<open>The entry after \<open>n\<close> failures in one window.\<close>

abbreviation failing :: "nat \<Rightarrow> int \<Rightarrow> lock_entry" where
  "failing n start \<equiv>
     \<lparr>le_failures = of_nat n, le_window_start = start, le_locked_until = None, le_level = 0\<rparr>"

lemma elapsed_less: "0 < w \<Longrightarrow> now < start + int w \<Longrightarrow> elapsed_since now start < w"
  by (auto simp: elapsed_since_def)

lemma count_failure_failing:
  assumes "Suc n < unat (lc_max_attempts c)" "elapsed_since now start < lc_window c"
  shows "count_failure c now (failing n start) = (Inr (), failing (Suc n) start)"
proof -
  have "unat (lc_max_attempts c) < 2 ^ LENGTH(32)" by (rule unsigned_less)
  then have "Suc n < 2 ^ LENGTH(32)" using assms(1) by simp
  then have "unat (1 + of_nat n :: 32 word) = Suc n" by (intro of_nat_inverse) auto
  then show ?thesis
    using assms by (simp add: count_failure_def roll_window_def Let_def word_less_nat_alt add.commute)
qed

lemma count_failure_trips:
  assumes "Suc n = unat (lc_max_attempts c)" "elapsed_since now start < lc_window c"
    and "instant_add now (lockout_duration c 1) = Inr until"
  shows "count_failure c now (failing n start) =
    (Inr (), \<lparr>le_failures = 0, le_window_start = now, le_locked_until = Some until, le_level = 1\<rparr>)"
proof -
  have "unat (lc_max_attempts c) < 2 ^ LENGTH(32)" by (rule unsigned_less)
  then have "Suc n < 2 ^ LENGTH(32)" using assms(1) by simp
  then have "unat (1 + of_nat n :: 32 word) = Suc n" by (intro of_nat_inverse) auto
  then show ?thesis
    using assms by (simp add: count_failure_def roll_window_def Let_def word_less_nat_alt add.commute)
qed

lemma new_entry_failing: "new_entry now = failing 0 now"
  by (simp add: new_entry_def)

lemma fail_run_config [simp]: "lg_config (fail_run g key ts) = lg_config g"
  by (induction ts arbitrary: g) auto

lemma fail_run_entry:
  assumes "lc_enabled (lg_config g)" "map_of (lg_entries g) key = None"
    and "length (lg_entries g) + 1 < PRUNE_THRESHOLD" "0 < lc_window (lg_config g)"
    and "\<forall>t \<in> set ts. t < start + int (lc_window (lg_config g))"
    and "length ts + 1 < unat (lc_max_attempts (lg_config g))"
  shows "length (lg_entries (fail_run g key (start # ts))) = length (lg_entries g) + 1 \<and>
    map_of (lg_entries (fail_run g key (start # ts))) key = Some (failing (length ts + 1) start)"
  using assms(5,6)
proof (induction ts rule: rev_induct)
  case Nil
  have "count_failure (lg_config g) start (failing 0 start) = (Inr (), failing 1 start)"
    using count_failure_failing [of 0 "lg_config g" start start] Nil assms(4)
    by (simp add: elapsed_since_def)
  then show ?case
    using assms(1-3) by (simp add: record_failure_room new_entry_failing length_update update_conv')
next
  case (snoc t ts)
  let ?g = "fail_run g key (start # ts)"
  have IH: "length (lg_entries ?g) = length (lg_entries g) + 1"
    "map_of (lg_entries ?g) key = Some (failing (length ts + 1) start)"
    using snoc by simp_all
  have "count_failure (lg_config g) t (failing (length ts + 1) start) = (Inr (), failing (length ts + 2) start)"
    using count_failure_failing [of "length ts + 1" "lg_config g" t start] snoc.prems assms(4)
    by (simp add: elapsed_less)
  then show ?case
    using IH assms(1,3) record_failure_room [of ?g key t]
    by (simp add: length_update update_conv')
qed

text \<open>The lock trips exactly at the threshold: fewer than \<open>max_attempts\<close> failures of a fresh key
  within one window leave it open; the failure that reaches the threshold closes it until the base
  lockout has passed since then, and it is open from that moment on.\<close>

theorem lockout_trips:
  assumes "lc_enabled (lg_config g)" "map_of (lg_entries g) key = None"
    and "length (lg_entries g) + 1 < PRUNE_THRESHOLD" "0 < lc_window (lg_config g)"
    and "\<forall>t \<in> set ts. t < start + int (lc_window (lg_config g))"
    and "t < start + int (lc_window (lg_config g))"
    and "instant_add t (lockout_duration (lg_config g) 1) = Inr until"
    and "length ts + 2 = unat (lc_max_attempts (lg_config g))"
  shows "check_lock_at (fail_run g key (start # ts)) key now = Allowed \<and>
    (is_locked (check_lock_at (fail_run g key (start # ts @ [t])) key now) \<longleftrightarrow> now < until)"
proof
  let ?g = "fail_run g key (start # ts)"
  have entry: "length (lg_entries ?g) = length (lg_entries g) + 1"
    "map_of (lg_entries ?g) key = Some (failing (length ts + 1) start)"
    using fail_run_entry [OF assms(1-5)] assms(8) by simp_all
  show "check_lock_at ?g key now = Allowed"
    using entry(2) by (simp add: check_lock_at_def)
  have "count_failure (lg_config g) t (failing (length ts + 1) start) =
    (Inr (), \<lparr>le_failures = 0, le_window_start = t, le_locked_until = Some until, le_level = 1\<rparr>)"
    using assms by (intro count_failure_trips) (simp_all add: elapsed_less)
  then have "map_of (lg_entries (fail_run g key (start # ts @ [t]))) key =
    Some \<lparr>le_failures = 0, le_window_start = t, le_locked_until = Some until, le_level = 1\<rparr>"
    using entry assms(1,3) record_failure_room [of ?g key t] by (simp add: update_conv')
  then show "is_locked (check_lock_at (fail_run g key (start # ts @ [t])) key now) \<longleftrightarrow> now < until"
    using assms(1) fail_run_config [of key "start # ts @ [t]" g]
    by (simp add: check_lock_at_def)
qed

theorem lockout_trips_witness:
  "is_locked (check_lock_at (fail_run (new_guard (default_lockout_config\<lparr>lc_max_attempts := 3\<rparr>)) ''k'' [0, 5, 9])
     ''k'' 60000000008)"
proof -
  let ?g = "new_guard (default_lockout_config\<lparr>lc_max_attempts := 3\<rparr>)"
  have "lockout_duration (lg_config ?g) 1 = 60000000000"
    by (simp add: new_guard_def default_lockout_config_def lockout_duration_eq duration_max_def)
  then show ?thesis
    using lockout_trips [of ?g "''k''" "[5]" 0 9 60000000009 60000000008]
    by (simp add: new_guard_def default_lockout_config_def instant_add_def PRUNE_THRESHOLD_def)
qed

section \<open>A lock is armed\<close>

text \<open>The failures an entry has counted are below the threshold, or none: so every failure that does
  not panic leaves it.\<close>

definition below_threshold :: "lockout_config \<Rightarrow> lock_entry \<Rightarrow> bool" where
  "below_threshold c e \<longleftrightarrow> le_failures e = 0 \<or> le_failures e < lc_max_attempts c"

definition guard_counts :: "login_guard \<Rightarrow> bool" where
  "guard_counts g \<longleftrightarrow> (\<forall>(k, e) \<in> set (lg_entries g). below_threshold (lg_config g) e)"

lemma below_threshold_new [simp]: "below_threshold c (new_entry now)"
  by (simp add: below_threshold_def new_entry_def)

lemma count_failure_below:
  "count_failure c now e = (Inr (), e') \<Longrightarrow> below_threshold c e'"
  by (auto simp: count_failure_def below_threshold_def Let_def split: if_splits sum.splits)

lemma guard_counts_new [simp]: "guard_counts (new_guard c)"
  by (simp add: guard_counts_def new_guard_def)

lemma set_update_subset: "set (AList.update k v al) \<subseteq> insert (k, v) (set al)"
  by (induction al) auto

lemma guard_counts_step:
  assumes "guard_counts g" "fst (record_failure_at g key now) = Inr ()"
  shows "guard_counts (snd (record_failure_at g key now))" "guard_counts (record_success g key')"
proof -
  show "guard_counts (record_success g key')"
    using assms(1) by (auto simp: guard_counts_def record_success_def AList.delete_eq)
  show "guard_counts (snd (record_failure_at g key now))"
  proof (cases "lc_enabled (lg_config g)")
    case True
    let ?al = "prune_idle (lc_window (lg_config g)) now (lg_entries g)"
    let ?k = "tracked_key ?al key"
    let ?e = "case map_of ?al ?k of Some e \<Rightarrow> e | None \<Rightarrow> new_entry now"
    obtain e' where e': "count_failure (lg_config g) now ?e = (Inr (), e')"
      using True assms(2) by (cases "count_failure (lg_config g) now ?e") (simp add: record_failure_at_def Let_def)
    then have "snd (record_failure_at g key now) = g\<lparr>lg_entries := AList.update ?k e' ?al\<rparr>"
      using True by (simp add: record_failure_at_def Let_def)
    moreover have "set ?al \<subseteq> set (lg_entries g)" by (auto simp: prune_idle_def)
    ultimately show ?thesis
      using assms(1) count_failure_below [OF e'] set_update_subset [of ?k e' ?al] by (fastforce simp: guard_counts_def)
  qed (use assms in \<open>simp add: record_failure_at_def\<close>)
qed

text \<open>The shortest lock: the base lockout, or the cap where that is less.\<close>

definition shortest_lock :: "lockout_config \<Rightarrow> duration" where
  "shortest_lock c = min (lc_base_lockout c) (lc_max_lockout c)"

lemma shortest_lock_le: "shortest_lock c \<le> lockout_duration c level"
proof -
  define shift where "shift = (if level = 0 then 0 else level - 1)"
  define factor where "factor = (if 31 \<le> shift then - 1 else push_bit (unat shift) (1 :: 32 word))"
  have "1 \<le> unat factor"
    using push_bit_one [of "unat shift"]
    by (auto simp: factor_def word_le_nat_alt unsigned_minus_1_eq_mask mask_eq_exp_minus_1)
  then have "lc_base_lockout c \<le> lc_base_lockout c * unat factor" by (cases "unat factor") simp_all
  moreover define product where "product = lc_base_lockout c * unat factor"
  ultimately have "lc_base_lockout c \<le> product" by simp
  then show ?thesis
    unfolding lockout_duration_def Let_def shift_def [symmetric] factor_def [symmetric] product_def [symmetric]
      shortest_lock_def by auto
qed

text \<open>The number of failures that arm the lock; a configured zero is as good as one.\<close>

definition attempts :: "lockout_config \<Rightarrow> nat" where
  "attempts c = max 1 (unat (lc_max_attempts c))"

lemma below_threshold_nat: "below_threshold c e \<Longrightarrow> unat (le_failures e) < attempts c"
  by (auto simp: below_threshold_def attempts_def word_less_nat_alt)

lemma next_failure:
  assumes "below_threshold c e"
  shows "unat (le_failures e + 1) = Suc (unat (le_failures e))"
proof -
  have "unat (lc_max_attempts c) < 2 ^ LENGTH(32)" by (rule unsigned_less)
  then have "Suc (unat (le_failures e)) < 2 ^ LENGTH(32)"
    using assms by (auto simp: below_threshold_def word_less_nat_alt)
  then show ?thesis by (simp add: unat_word_ariths mod_less)
qed

text \<open>One failure inside the window of the entry: it is counted, and the one that reaches the threshold arms
  the lock.\<close>

lemma count_failure_step:
  assumes "below_threshold c e" "roll_window (lc_window c) now e = e" "count_failure c now e = (Inr (), e')"
  shows "if Suc (unat (le_failures e)) = attempts c
     then \<exists>until. le_locked_until e' = Some until \<and> now + int (shortest_lock c) \<le> until
     else unat (le_failures e') = Suc (unat (le_failures e)) \<and> le_window_start e' = le_window_start e"
proof -
  have "le_failures e + 1 < lc_max_attempts c \<longleftrightarrow> Suc (unat (le_failures e)) \<noteq> attempts c"
    using next_failure [OF assms(1)] assms(1) below_threshold_nat [OF assms(1)]
    by (auto simp: word_less_nat_alt attempts_def max_def split: if_splits)
  then show ?thesis
    using assms(2,3) next_failure [OF assms(1)] shortest_lock_le [of c "le_level e + 1"]
    by (auto simp: count_failure_def Let_def instant_add_def split: if_splits sum.splits)
qed

lemma count_failure_rolled:
  assumes "0 < lc_window c"
  shows "count_failure c now (roll_window (lc_window c) now e) = count_failure c now e"
  using assms by (simp add: count_failure_def roll_window_def Let_def elapsed_since_def)

abbreviation count_run :: "lockout_config \<Rightarrow> int list \<Rightarrow> lock_entry \<Rightarrow> lock_entry" where
  "count_run c ts e \<equiv> fold (\<lambda>t e. snd (count_failure c t e)) ts e"

text \<open>Failures none of which panics, and the one of them that arms the lock.\<close>

definition counted :: "lockout_config \<Rightarrow> int list \<Rightarrow> lock_entry \<Rightarrow> bool" where
  "counted c ts e \<longleftrightarrow> (\<forall>i < length ts. fst (count_failure c (ts ! i) (count_run c (take i ts) e)) = Inr ())"

definition armed_at :: "lockout_config \<Rightarrow> int list \<Rightarrow> lock_entry \<Rightarrow> nat \<Rightarrow> bool" where
  "armed_at c ts e k \<longleftrightarrow> k < length ts \<and>
     (\<exists>until. le_locked_until (count_run c (take (Suc k) ts) e) = Some until \<and> ts ! k + int (shortest_lock c) \<le> until)"

lemma counted_Cons:
  "counted c (t # ts) e \<longleftrightarrow> fst (count_failure c t e) = Inr () \<and> counted c ts (snd (count_failure c t e))"
  by (auto simp: counted_def nth_Cons take_Cons less_Suc_eq_0_disj split: nat.splits)

lemma armed_at_Suc: "armed_at c (t # ts) e (Suc k) \<longleftrightarrow> armed_at c ts (snd (count_failure c t e)) k"
  by (simp add: armed_at_def)

lemma armed_in_window:
  assumes "counted c ts e" "below_threshold c e" "\<forall>t \<in> set ts. elapsed_since t (le_window_start e) < lc_window c"
    and "attempts c \<le> length ts + unat (le_failures e)"
  shows "\<exists>k. armed_at c ts e k \<and> Suc k + unat (le_failures e) = attempts c"
  using assms
proof (induction ts arbitrary: e)
  case Nil
  then show ?case using below_threshold_nat by fastforce
next
  case (Cons t ts)
  obtain e' where e': "count_failure c t e = (Inr (), e')"
    using Cons.prems(1) by (metis counted_Cons prod.collapse)
  have "roll_window (lc_window c) t e = e" using Cons.prems(3) by (simp add: roll_window_def)
  note step = count_failure_step [OF Cons.prems(2) this e']
  show ?case
  proof (cases "Suc (unat (le_failures e)) = attempts c")
    case True
    with step e' have "armed_at c (t # ts) e 0" by (auto simp: armed_at_def)
    with True show ?thesis by auto
  next
    case False
    with step have next_e: "unat (le_failures e') = Suc (unat (le_failures e))"
      "le_window_start e' = le_window_start e" by auto
    then obtain k where "armed_at c ts e' k" "Suc k + unat (le_failures e') = attempts c"
      using Cons.IH [of e'] Cons.prems e' count_failure_below [OF e'] by (auto simp: counted_Cons)
    then show ?thesis using e' next_e by (intro exI [of _ "Suc k"]) (simp add: armed_at_Suc)
  qed
qed

text \<open>The window is a fixed one, so it may roll in the middle of a series: then twice as many failures less one
  are enough.\<close>

lemma armed_across_windows:
  assumes "counted c ts e" "below_threshold c e" "sorted ts" "\<forall>t \<in> set ts. t < hd ts + int (lc_window c)"
    and "2 * attempts c \<le> length ts + unat (le_failures e) + 1"
  shows "\<exists>k. armed_at c ts e k"
  using assms
proof (induction ts arbitrary: e)
  case Nil
  then show ?case using below_threshold_nat [of c e] by (simp add: attempts_def)
next
  case (Cons t ts)
  obtain e' where e': "count_failure c t e = (Inr (), e')"
    using Cons.prems(1) by (metis counted_Cons prod.collapse)
  have window: "0 < lc_window c" using Cons.prems(4) by auto
  let ?r = "roll_window (lc_window c) t e"
  show ?case
  proof (cases "?r = e")
    case False
    then have r: "le_failures ?r = 0" "le_window_start ?r = t" by (auto simp: roll_window_def Let_def split: if_splits)
    have "counted c (t # ts) ?r"
      using Cons.prems(1) by (simp add: counted_Cons count_failure_rolled [OF window])
    moreover have "\<forall>x \<in> set (t # ts). elapsed_since x (le_window_start ?r) < lc_window c"
      using Cons.prems(4) window by (auto simp: elapsed_since_def r)
    ultimately obtain k where k: "armed_at c (t # ts) ?r k"
      using armed_in_window [of c "t # ts" ?r] r Cons.prems(5) below_threshold_nat [OF Cons.prems(2)]
      by (auto simp: below_threshold_def)
    then have "armed_at c (t # ts) e k"
      by (cases k) (simp_all add: armed_at_def count_failure_rolled [OF window])
    then show ?thesis ..
  next
    case True
    note step = count_failure_step [OF Cons.prems(2) True e']
    show ?thesis
    proof (cases "Suc (unat (le_failures e)) = attempts c")
      case False
      then have next_e: "unat (le_failures e') = Suc (unat (le_failures e))"
        using step by auto
      have "\<forall>x \<in> set ts. x < hd ts + int (lc_window c)"
        using Cons.prems(3,4) by (cases ts) (auto intro: less_le_trans)
      then obtain k where "armed_at c ts e' k"
        using Cons.IH [of e'] Cons.prems e' next_e count_failure_below [OF e'] by (auto simp: counted_Cons)
      then show ?thesis using e' by (intro exI [of _ "Suc k"]) (simp add: armed_at_Suc)
    next
      case True
      with step e' have "armed_at c (t # ts) e 0" by (auto simp: armed_at_def)
      then show ?thesis ..
    qed
  qed
qed

text \<open>On a table with room the failures of a key run through its entry alone.\<close>

lemma fail_run_counts:
  assumes "lc_enabled (lg_config g)" "length (lg_entries g) + 1 < PRUNE_THRESHOLD"
    and "e = (case map_of (lg_entries g) key of Some e \<Rightarrow> e | None \<Rightarrow> new_entry (hd ts))"
  shows "length (lg_entries (fail_run g key ts)) \<le> length (lg_entries g) + (if map_of (lg_entries g) key = None then 1 else 0) \<and>
     (ts \<noteq> [] \<longrightarrow> map_of (lg_entries (fail_run g key ts)) key = Some (count_run (lg_config g) ts e)) \<and>
     (ts = [] \<longrightarrow> fail_run g key ts = g)"
  using assms(3)
proof (induction ts rule: rev_induct)
  case (snoc t ts)
  let ?g = "fail_run g key ts"
  have e: "e = (case map_of (lg_entries g) key of Some e \<Rightarrow> e | None \<Rightarrow> new_entry (hd ts))"
    if "ts \<noteq> []" using snoc.prems that by (simp cong: option.case_cong)
  have room: "length (lg_entries ?g) < PRUNE_THRESHOLD"
    using snoc.IH [OF e] assms(2) by (cases "ts = []") (auto split: if_splits)
  show ?case
  proof (cases "ts = []")
    case True
    then show ?thesis
      using snoc.prems assms(1,2) by (auto simp: record_failure_room Let_def split_beta length_update update_conv' split: option.splits)
  next
    case False
    with snoc.IH [OF e] have "map_of (lg_entries ?g) key = Some (count_run (lg_config g) ts e)"
      "length (lg_entries ?g) \<le> length (lg_entries g) + (if map_of (lg_entries g) key = None then 1 else 0)" by blast+
    then show ?thesis
      using assms(1) room by (simp add: record_failure_room Let_def split_beta length_update update_conv')
  qed
qed simp

text \<open>The failures of one key within one window arm its lock.\<close>

lemma guard_locks:
  assumes "lc_enabled (lg_config g)" "length (lg_entries g) + 1 < PRUNE_THRESHOLD" "guard_counts g"
    and "\<forall>i < length ts. fst (record_failure_at (fail_run g key (take i ts)) key (ts ! i)) = Inr ()"
    and "sorted ts" "\<forall>t \<in> set ts. t < hd ts + int (lc_window (lg_config g))"
    and "if map_of (lg_entries g) key = None then attempts (lg_config g) \<le> length ts
         else 2 * attempts (lg_config g) \<le> length ts + 1"
  shows "\<exists>k < length ts. (\<forall>now < ts ! k + int (shortest_lock (lg_config g)).
        is_locked (check_lock_at (fail_run g key (take (Suc k) ts)) key now)) \<and>
     (map_of (lg_entries g) key = None \<longrightarrow> Suc k = attempts (lg_config g))"
proof -
  let ?c = "lg_config g"
  define e where "e = (case map_of (lg_entries g) key of Some e \<Rightarrow> e | None \<Rightarrow> new_entry (hd ts))"
  note runs = fail_run_counts [OF assms(1,2), where key = key]
  have e_take: "e = (case map_of (lg_entries g) key of Some e \<Rightarrow> e | None \<Rightarrow> new_entry (hd (take i ts)))" if "0 < i" for i
    using that by (cases ts; cases i) (auto simp: e_def cong: option.case_cong)
  have below: "below_threshold ?c e"
    using assms(3) by (auto simp: e_def guard_counts_def dest: map_of_SomeD split: option.splits)
  have "counted ?c ts e"
    unfolding counted_def
  proof (intro allI impI)
    fix i assume i: "i < length ts"
    let ?g = "fail_run g key (take i ts)"
    have room: "length (lg_entries ?g) < PRUNE_THRESHOLD"
      using runs [of _ "take i ts", OF refl] assms(2) by (auto split: if_splits)
    have "(case map_of (lg_entries ?g) key of Some e \<Rightarrow> e | None \<Rightarrow> new_entry (ts ! i)) = count_run ?c (take i ts) e"
    proof (cases i)
      case 0
      then show ?thesis using i by (cases ts) (simp_all add: e_def cong: option.case_cong)
    next
      case (Suc n)
      then have "take i ts \<noteq> []" using i by auto
      with runs [of e "take i ts"] e_take [of i] Suc show ?thesis by simp
    qed
    then have "fst (record_failure_at ?g key (ts ! i)) = fst (count_failure ?c (ts ! i) (count_run ?c (take i ts) e))"
      using record_failure_room [of ?g key "ts ! i"] assms(1) room by (simp add: Let_def split_beta)
    with assms(4) i show "fst (count_failure ?c (ts ! i) (count_run ?c (take i ts) e)) = Inr ()" by metis
  qed
  moreover have "\<exists>k. armed_at ?c ts e k \<and> (map_of (lg_entries g) key = None \<longrightarrow> Suc k = attempts ?c)"
    if counted: "counted ?c ts e"
  proof (cases "map_of (lg_entries g) key")
    case None
    then have new: "e = new_entry (hd ts)" by (simp add: e_def)
    have "\<forall>t \<in> set ts. elapsed_since t (hd ts) < lc_window ?c"
      using assms(6) by (cases ts) (auto simp: elapsed_since_def)
    then show ?thesis
      using armed_in_window [OF counted below] assms(7) None by (auto simp: new new_entry_def)
  next
    case (Some x)
    then show ?thesis using armed_across_windows [OF counted below assms(5,6)] assms(7) by auto
  qed
  ultimately obtain k until where k: "k < length ts" "le_locked_until (count_run ?c (take (Suc k) ts) e) = Some until"
    "ts ! k + int (shortest_lock ?c) \<le> until" "map_of (lg_entries g) key = None \<longrightarrow> Suc k = attempts ?c"
    by (auto simp: armed_at_def)
  from k(1) have "take (Suc k) ts \<noteq> []" by auto
  with runs [OF e_take [OF zero_less_Suc [of k]]]
  have "map_of (lg_entries (fail_run g key (take (Suc k) ts))) key = Some (count_run ?c (take (Suc k) ts) e)" by blast
  moreover define h where "h = fail_run g key (take (Suc k) ts)"
  moreover define x where "x = count_run ?c (take (Suc k) ts) e"
  ultimately have "map_of (lg_entries h) key = Some x" "le_locked_until x = Some until" "lc_enabled (lg_config h)"
    using assms(1) k(2) by (simp_all only: fail_run_config)
  then have "is_locked (check_lock_at h key now)" if "now < until" for now
    using that by (simp add: check_lock_at_def)
  then have "is_locked (check_lock_at h key now)" if "now < ts ! k + int (shortest_lock ?c)" for now
    using that k(3) by (meson less_le_trans)
  then show ?thesis
    using k(1,4) unfolding h_def by (intro exI [of _ k] conjI) simp_all
qed

text \<open>A successful login clears its key and no other, unless the table is full.\<close>

lemma success_unlocks:
  assumes "length (lg_entries g) < PRUNE_THRESHOLD"
  shows "check_lock_at (record_success g key) key now = Allowed \<and>
    (\<forall>other. other \<noteq> key \<longrightarrow>
       check_lock_at (record_success g key) other now = check_lock_at g other now)"
proof -
  have "length (AList.delete key (lg_entries g)) < PRUNE_THRESHOLD"
    using assms by (simp add: AList.delete_eq le_less_trans [OF length_filter_le])
  then show ?thesis
    using assms by (auto simp: check_lock_at_def record_success_def delete_conv')
qed

text \<open>The configuration accepts any number of seconds; above the range of the clock the failure that
  would arm the lock panics.\<close>

lemma huge_lockout_panics:
  assumes "0 \<le> now"
  shows "fst (record_failure_at (new_guard \<lparr>lc_enabled = True, lc_max_attempts = 1, lc_window = 1,
            lc_base_lockout = u64_max * 1000000000, lc_max_lockout = u64_max * 1000000000\<rparr>) key now) =
         Inl (Panic ''overflow when adding duration to instant'')"
  using assms
  by (simp add: record_failure_room new_guard_def PRUNE_THRESHOLD_def count_failure_def roll_window_def
      new_entry_def elapsed_since_def lockout_duration_eq duration_max_def instant_add_def)

end
