(* ===== verification/Enrich.thy ===== *)
theory Enrich
  imports Json Lockout
begin

text \<open>
  \<open>src/ingest/enrich.rs\<close>: request-derived context merged into an event payload, and the
  User-Agent parser. The headers of a request are an association list from lower-case names to raw
  values. A function that mutates a map in place returns the new map; \<open>with_object\<close> is the code's
  \<open>ensure_object\<close> followed by an update of the nested map it returns.
\<close>

type_synonym headers = "(string \<times> string) list"

definition AUTO_IP :: string where "AUTO_IP = ''{{auto}}''"

record request_meta =
  rm_client_ip :: "string option"
  rm_user_agent :: "string option"
  rm_referer :: "string option"
  rm_accept_language :: "string option"

text \<open>\<open>HeaderValue::to_str\<close>: only visible ASCII and the tab are text.\<close>

definition header_to_str :: "string \<Rightarrow> string option" where
  "header_to_str v = (if list_all (\<lambda>b. 32 \<le> byte b \<and> byte b < 127 \<or> byte b = 9) v then Some v else None)"

definition header_get :: "headers \<Rightarrow> string \<Rightarrow> string option" where
  "header_get hs name = Option.bind (map_of hs name) header_to_str"

definition header_str :: "headers \<Rightarrow> string \<Rightarrow> string option" where
  "header_str hs name =
     (case header_get hs name of
        None \<Rightarrow> None
      | Some v \<Rightarrow> (let t = trim v in if t = [] then None else Some t))"

definition from_request :: "headers \<Rightarrow> string option \<Rightarrow> request_meta" where
  "from_request hs peer =
     (let ip = client_ip peer in
      \<lparr>rm_client_ip = (if ip = ''unknown'' then None else Some ip),
       rm_user_agent = header_str hs ''user-agent'',
       rm_referer = header_str hs ''referer'',
       rm_accept_language = header_str hs ''accept-language''\<rparr>)"

section \<open>User-Agent parsing\<close>

type_synonym product = "string \<times> string option"

definition after_token :: "string \<Rightarrow> string \<Rightarrow> string option" where
  "after_token ua token = map_option (\<lambda>i. drop (i + length token) ua) (str_find ua token)"

definition version_after :: "string \<Rightarrow> string \<Rightarrow> string option" where
  "version_after ua token =
     (case after_token ua token of
        None \<Rightarrow> None
      | Some rest \<Rightarrow>
          (let version = trim (takeWhile (\<lambda>c. c \<notin> set '' ;),'') rest)
           in if version = [] then None else Some version))"

definition version_token :: "string \<Rightarrow> string \<Rightarrow> string option" where
  "version_token ua token =
     (case after_token ua token of
        None \<Rightarrow> None
      | Some rest \<Rightarrow>
          (let version = takeWhile (\<lambda>c. is_ascii_digit c \<or> c = CHR ''.'' \<or> c = CHR ''_'') rest
           in if version = [] then None else Some version))"

definition browser_rules :: "(string \<times> string) list" where
  "browser_rules =
     [(''Microsoft Edge'', ''Edg/''), (''Microsoft Edge'', ''EdgA/''), (''Microsoft Edge'', ''EdgiOS/''),
      (''Microsoft Edge'', ''Edge/''), (''Opera'', ''OPR/''), (''Opera'', ''Opera/''),
      (''Samsung Internet'', ''SamsungBrowser/''), (''Firefox'', ''Firefox/''), (''Firefox'', ''FxiOS/''),
      (''Chrome'', ''Chrome/''), (''Chrome'', ''CriOS/'')]"

fun first_rule :: "string \<Rightarrow> (string \<times> string) list \<Rightarrow> product option" where
  "first_rule ua [] = None"
| "first_rule ua ((name, token) # rules) =
     (case version_after ua token of
        Some version \<Rightarrow> Some (name, Some version)
      | None \<Rightarrow> first_rule ua rules)"

definition parse_browser :: "string \<Rightarrow> product option" where
  "parse_browser ua =
     (case first_rule ua browser_rules of
        Some p \<Rightarrow> Some p
      | None \<Rightarrow>
          if str_contains ua ''Safari/'' then Some (''Safari'', version_after ua ''Version/'')
          else if str_contains ua ''Trident/'' \<or> str_contains ua ''MSIE '' then
            Some (''Internet Explorer'',
              (case version_after ua ''rv:'' of Some v \<Rightarrow> Some v | None \<Rightarrow> version_after ua ''MSIE ''))
          else None)"

definition map_windows_nt :: "string \<Rightarrow> string" where
  "map_windows_nt nt =
     (if nt = ''10.0'' then ''10''
      else if nt = ''6.3'' then ''8.1''
      else if nt = ''6.2'' then ''8''
      else if nt = ''6.1'' then ''7''
      else if nt = ''6.0'' then ''Vista''
      else if nt = ''5.1'' \<or> nt = ''5.2'' then ''XP''
      else nt)"

definition parse_os :: "string \<Rightarrow> product option" where
  "parse_os ua =
     (if str_contains ua ''iPhone'' \<or> str_contains ua ''iPad'' \<or> str_contains ua ''iPod'' then
        Some (''iOS'', map_option (replace_char (CHR ''_'') ''.'') (version_token ua ''OS ''))
      else if str_contains ua ''Android'' then Some (''Android'', version_token ua ''Android '')
      else if str_contains ua ''Windows NT'' then
        Some (''Windows'', map_option map_windows_nt (version_token ua ''Windows NT ''))
      else if str_contains ua ''Mac OS X'' then
        Some (''macOS'', map_option (replace_char (CHR ''_'') ''.'') (version_token ua ''Mac OS X ''))
      else if str_contains ua ''CrOS'' then Some (''Chrome OS'', None)
      else if str_contains ua ''Linux'' then Some (''Linux'', None)
      else None)"

section \<open>Merging\<close>

definition nested_object :: "string \<Rightarrow> val bmap \<Rightarrow> val bmap" where
  "nested_object key parent = (case map_of parent key of Some (Object m) \<Rightarrow> m | _ \<Rightarrow> [])"

definition with_object :: "string \<Rightarrow> (val bmap \<Rightarrow> val bmap) \<Rightarrow> val bmap \<Rightarrow> val bmap" where
  "with_object key f parent = bm_insert key (Object (f (nested_object key parent))) parent"

definition set_ip_address :: "string \<Rightarrow> val bmap \<Rightarrow> val bmap" where
  "set_ip_address ip =
     with_object ''user'' (\<lambda>user.
       case Option.bind (map_of user ''ip_address'') as_str of
         Some existing \<Rightarrow>
           (if existing \<noteq> AUTO_IP \<and> trim existing \<noteq> [] then user
            else bm_insert ''ip_address'' (Str ip) user)
       | None \<Rightarrow> bm_insert ''ip_address'' (Str ip) user)"

definition insert_if_absent :: "string \<Rightarrow> val \<Rightarrow> val bmap \<Rightarrow> val bmap" where
  "insert_if_absent key v m = (if bm_contains key m then m else bm_insert key v m)"

definition context_entry :: "string \<Rightarrow> product \<Rightarrow> val" where
  "context_entry key p =
     (let entry = bm_insert ''name'' (Str (fst p)) (bm_insert ''type'' (Str key) [])
      in Object (case snd p of Some v \<Rightarrow> bm_insert ''version'' (Str v) entry | None \<Rightarrow> entry))"

definition set_named_context :: "string \<Rightarrow> product option \<Rightarrow> val bmap \<Rightarrow> val bmap" where
  "set_named_context key p contexts =
     (case p of None \<Rightarrow> contexts | Some p \<Rightarrow> insert_if_absent key (context_entry key p) contexts)"

definition set_ua_contexts :: "string \<Rightarrow> val bmap \<Rightarrow> val bmap" where
  "set_ua_contexts ua event =
     (if parse_browser ua = None \<and> parse_os ua = None then event
      else with_object ''contexts''
             (set_named_context ''os'' (parse_os ua) \<circ> set_named_context ''browser'' (parse_browser ua))
             event)"

definition insert_header_if_absent :: "string \<Rightarrow> string option \<Rightarrow> val bmap \<Rightarrow> val bmap" where
  "insert_header_if_absent key v hs =
     (case v of None \<Rightarrow> hs | Some s \<Rightarrow> insert_if_absent key (Str s) hs)"

definition set_request :: "request_meta \<Rightarrow> val bmap \<Rightarrow> val bmap" where
  "set_request meta event =
     (if rm_referer meta = None \<and> rm_user_agent meta = None \<and>
         rm_accept_language meta = None \<and> rm_client_ip meta = None then event
      else with_object ''request''
        ((\<lambda>request. case rm_client_ip meta of
             None \<Rightarrow> request
           | Some ip \<Rightarrow> with_object ''env'' (insert_if_absent ''REMOTE_ADDR'' (Str ip)) request) \<circ>
         with_object ''headers''
           (insert_header_if_absent ''Accept-Language'' (rm_accept_language meta) \<circ>
            insert_header_if_absent ''Referer'' (rm_referer meta) \<circ>
            insert_header_if_absent ''User-Agent'' (rm_user_agent meta)) \<circ>
         (\<lambda>request. case rm_referer meta of
             None \<Rightarrow> request
           | Some referer \<Rightarrow> insert_if_absent ''url'' (Str referer) request)) event)"

definition enrich :: "request_meta \<Rightarrow> val \<Rightarrow> val" where
  "enrich meta payload =
     (case payload of
        Object obj \<Rightarrow>
          (let obj = (case rm_client_ip meta of Some ip \<Rightarrow> set_ip_address ip obj | None \<Rightarrow> obj);
               obj = (case rm_user_agent meta of Some ua \<Rightarrow> set_ua_contexts ua obj | None \<Rightarrow> obj)
           in Object (set_request meta obj))
      | other \<Rightarrow> other)"

section \<open>Enrichment is additive\<close>

fun at_path :: "val \<Rightarrow> string list \<Rightarrow> val option" where
  "at_path v [] = Some v"
| "at_path v (k # ks) = Option.bind (val_get v k) (\<lambda>w. at_path w ks)"

text \<open>\<open>keeps ps m m'\<close>: every value of \<open>m\<close> that is not itself an object is in \<open>m'\<close> at the same
  path, but for the paths \<open>ps\<close>.\<close>

definition keeps :: "string list set \<Rightarrow> val bmap \<Rightarrow> val bmap \<Rightarrow> bool" where
  "keeps ps m m' \<longleftrightarrow>
     (\<forall>ks w. at_path (Object m) ks = Some w \<longrightarrow> \<not> is_object w \<longrightarrow> ks \<notin> ps \<longrightarrow>
        at_path (Object m') ks = Some w)"

lemma keeps_refl [simp]: "keeps ps m m"
  by (simp add: keeps_def)

lemma keeps_trans: "keeps ps a b \<Longrightarrow> keeps ps b c \<Longrightarrow> keeps ps a c"
  by (simp add: keeps_def)

lemma keeps_mono: "keeps ps a b \<Longrightarrow> ps \<subseteq> qs \<Longrightarrow> keeps qs a b"
  by (auto simp: keeps_def)

lemma keeps_comp: "(\<And>m. keeps ps m (f m)) \<Longrightarrow> (\<And>m. keeps ps m (g m)) \<Longrightarrow> keeps ps m ((f \<circ> g) m)"
  using keeps_trans by fastforce

lemma keeps_insert_if_absent [simp]: "keeps ps m (insert_if_absent k v m)"
proof -
  have "at_path (Object (insert_if_absent k v m)) ks = Some w"
    if "at_path (Object m) ks = Some w" "\<not> is_object w" for ks w
    using that by (cases ks) (auto simp: insert_if_absent_def bm_contains_def)
  then show ?thesis by (simp add: keeps_def)
qed

lemma keeps_with_object:
  assumes "keeps ps (nested_object key m) (f (nested_object key m))"
  shows "keeps (insert [key] ((#) key ` ps)) m (with_object key f m)"
  unfolding keeps_def
proof (intro allI impI)
  fix ks w
  assume ks: "at_path (Object m) ks = Some w" "\<not> is_object w" "ks \<notin> insert [key] ((#) key ` ps)"
  then obtain k ks' v where k: "ks = k # ks'" "map_of m k = Some v" "at_path v ks' = Some w"
    by (cases ks) (auto simp: bind_eq_Some_conv)
  show "at_path (Object (with_object key f m)) ks = Some w"
  proof (cases "k = key")
    case True
    then obtain k' rest where ks': "ks' = k' # rest" using ks(3) k(1) by (cases ks') auto
    then obtain n where v: "v = Object n" using k(3) by (cases v) auto
    then have "nested_object key m = n" using k(2) True by (simp add: nested_object_def)
    moreover have "ks' \<notin> ps" using ks(3) k(1) True by blast
    ultimately have "at_path (Object (f n)) ks' = Some w"
      using assms k(3) v ks(2) by (auto simp: keeps_def)
    then show ?thesis using k(1) True \<open>nested_object key m = n\<close> by (simp add: with_object_def)
  next
    case False
    then show ?thesis using k by (simp add: with_object_def)
  qed
qed

definition containers :: "string list set" where
  "containers = {[''user''], [''contexts''], [''request''], [''request'', ''headers''], [''request'', ''env'']}"

lemma keeps_header [simp]: "keeps ps m (insert_header_if_absent key v m)"
  by (simp add: insert_header_if_absent_def split: option.split)

lemma keeps_named_context [simp]: "keeps ps m (set_named_context key p m)"
  by (simp add: set_named_context_def split: option.split)

lemma keeps_set_ua_contexts: "keeps containers m (set_ua_contexts ua m)"
  unfolding set_ua_contexts_def
  by (auto intro!: keeps_mono [OF keeps_with_object [of "{}"]] keeps_comp simp: containers_def)

lemma keeps_set_request: "keeps containers m (set_request meta m)"
proof -
  let ?sub = "{[''headers''], [''env'']}"
  have env: "keeps ?sub m (case ip of None \<Rightarrow> m | Some a \<Rightarrow> with_object ''env'' (insert_if_absent k (Str a)) m)"
    for m ip k
    by (auto split: option.split intro!: keeps_mono [OF keeps_with_object [of "{}"]])
  have url: "keeps ?sub m (case r of None \<Rightarrow> m | Some a \<Rightarrow> insert_if_absent k (Str a) m)" for m r k
    by (simp split: option.split)
  have hs: "keeps ?sub m (with_object ''headers'' (insert_header_if_absent a x \<circ>
      insert_header_if_absent b y \<circ> insert_header_if_absent c z) m)" for m a b c x y z
    by (intro keeps_mono [OF keeps_with_object [of "{}"]] keeps_comp keeps_header) simp
  show ?thesis
    unfolding set_request_def
    by (auto intro!: keeps_mono [OF keeps_with_object [of ?sub]] keeps_comp env url hs simp: containers_def)
qed

text \<open>A value of \<open>user.ip_address\<close> that the server does not replace.\<close>

fun real_ip :: "val \<Rightarrow> bool" where
  "real_ip (Str s) \<longleftrightarrow> s \<noteq> AUTO_IP \<and> trim s \<noteq> []"
| "real_ip _ \<longleftrightarrow> False"

definition ip_paths :: "string list set" where
  "ip_paths = {ks. take 2 ks = [''user'', ''ip_address'']}"

lemma keeps_bm_insert: "keeps {ks. take 1 ks = [k]} m (bm_insert k v m)"
proof -
  have "at_path (Object (bm_insert k v m)) ks = Some w"
    if "at_path (Object m) ks = Some w" "\<not> is_object w" "take 1 ks \<noteq> [k]" for ks w
    using that by (cases ks) auto
  then show ?thesis by (simp add: keeps_def)
qed

lemma set_ip_address_eq:
  "set_ip_address ip m =
     with_object ''user'' (\<lambda>user.
       if (case map_of user ''ip_address'' of Some w \<Rightarrow> real_ip w | None \<Rightarrow> False) then user
       else bm_insert ''ip_address'' (Str ip) user) m"
proof -
  have "(case Option.bind o1 as_str of
          Some existing \<Rightarrow> (if existing \<noteq> AUTO_IP \<and> trim existing \<noteq> [] then u else u')
        | None \<Rightarrow> u') = (if (case o1 of Some w \<Rightarrow> real_ip w | None \<Rightarrow> False) then u else u')"
    for o1 and u u' :: "val bmap"
    by (auto split: option.splits val.splits elim!: as_str.elims)
  then show ?thesis by (simp only: set_ip_address_def)
qed

lemma keeps_set_ip: "keeps (containers \<union> ip_paths) m (set_ip_address ip m)"
proof -
  let ?below = "{ks. take 1 ks = [''ip_address'']}"
  have "keeps ?below user (if c then user else bm_insert ''ip_address'' v user)" for user c v
    by (cases c) (simp_all only: if_True if_False keeps_bm_insert keeps_refl)
  then have "keeps (insert [''user''] ((#) ''user'' ` ?below)) m (set_ip_address ip m)"
    unfolding set_ip_address_eq by (intro keeps_with_object)
  moreover have "''user'' # ks \<in> ip_paths" if "ks \<in> ?below" for ks
    using that by (cases ks) (simp_all add: ip_paths_def)
  then have "insert [''user''] ((#) ''user'' ` ?below) \<subseteq> containers \<union> ip_paths"
    by (intro insert_subsetI image_subsetI) (simp_all add: containers_def)
  ultimately show ?thesis by (rule keeps_mono)
qed

lemma real_ip_kept:
  assumes "at_path (Object m) [''user'', ''ip_address''] = Some w" "real_ip w"
  shows "at_path (Object (set_ip_address ip m)) [''user'', ''ip_address''] = Some w"
proof -
  obtain u where "map_of m ''user'' = Some (Object u)" "map_of u ''ip_address'' = Some w"
    using assms(1) by (auto simp: bind_eq_Some_conv elim!: val_get.elims)
  then show ?thesis using assms(2) by (simp add: set_ip_address_eq with_object_def nested_object_def)
qed

text \<open>Enrichment adds and never overwrites: a value the SDK sent, at any depth, is still there at
  its path after enrichment. The exceptions are the sentinel, blank or non-text values of
  \<open>user.ip_address\<close> and a non-object in the place of one of the five objects that are filled in.\<close>

theorem enrich_additive:
  assumes "at_path payload ks = Some w" "\<not> is_object w" "ks \<notin> containers"
    and "ks \<notin> ip_paths \<or> ks = [''user'', ''ip_address''] \<and> real_ip w"
  shows "at_path (enrich meta payload) ks = Some w"
proof (cases payload)
  case (Object m)
  let ?m1 = "case rm_client_ip meta of Some ip \<Rightarrow> set_ip_address ip m | None \<Rightarrow> m"
  let ?m2 = "case rm_user_agent meta of Some ua \<Rightarrow> set_ua_contexts ua ?m1 | None \<Rightarrow> ?m1"
  have "at_path (Object ?m1) ks = Some w"
    using assms Object keeps_set_ip [of m] real_ip_kept [of m w]
    by (auto simp: keeps_def split: option.split)
  moreover have "keeps containers ?m1 ?m2" by (simp add: keeps_set_ua_contexts split: option.split)
  ultimately have "at_path (Object (set_request meta ?m2)) ks = Some w"
    using assms(2,3) keeps_set_request [of ?m2 meta] by (simp add: keeps_def)
  then show ?thesis using Object by (simp add: enrich_def Let_def)
qed (use assms(1) in \<open>simp_all add: enrich_def\<close>)

theorem enrich_additive_witness:
  "at_path (enrich \<lparr>rm_client_ip = Some ''10.0.0.1'', rm_user_agent = None, rm_referer = Some ''r'',
       rm_accept_language = None\<rparr> (Object [(''user'', Object [(''name'', Str ''x'')])])) [''user'', ''name'']
   = Some (Str ''x'')"
  by (rule enrich_additive) (simp_all add: containers_def ip_paths_def)

text \<open>The server's answer to the sentinel, and to a missing address.\<close>

lemma enrich_fills_ip:
  assumes "rm_client_ip meta = Some ip" "\<not> (\<exists>w. at_path payload [''user'', ''ip_address''] = Some w \<and> real_ip w)"
    and "is_object payload"
  shows "at_path (enrich meta payload) [''user'', ''ip_address''] = Some (Str ip)"
proof -
  obtain m where m: "payload = Object m" using assms(3) by (cases payload) auto
  have "at_path (Object (set_ip_address ip m)) [''user'', ''ip_address''] = Some (Str ip)"
    using assms(2) m
    by (auto simp: set_ip_address_eq with_object_def nested_object_def split: option.splits val.splits)
  moreover have "keeps containers n (set_request meta (case ua of Some u \<Rightarrow> set_ua_contexts u n | None \<Rightarrow> n))"
    for n ua
    by (rule keeps_trans [OF _ keeps_set_request]) (simp add: keeps_set_ua_contexts split: option.split)
  ultimately have "at_path (Object (set_request meta (case rm_user_agent meta of
       Some u \<Rightarrow> set_ua_contexts u (set_ip_address ip m) | None \<Rightarrow> set_ip_address ip m)))
     [''user'', ''ip_address''] = Some (Str ip)"
    unfolding keeps_def by (fastforce simp: containers_def)
  then show ?thesis using m assms(1) by (simp add: enrich_def Let_def)
qed

end
