(* ===== verification/ProjectStore.thy ===== *)
theory ProjectStore
  imports EventStore
begin

text \<open>
  The SQLite adapters of projects and of tag-mute rules: \<open>src/adapters/sqlite/project.rs\<close> and
  \<open>src/adapters/sqlite/mute_rule.rs\<close>, on the tables of \<^theory_text>\<open>Store\<close>. A statement outside an explicit
  transaction is a transaction of its own. Deleting a project cascades to its issues, events and
  rules; a team that owns a project cannot be deleted.
\<close>

section \<open>Projects\<close>

record new_project =
  np_team_id :: uuid
  np_name :: string
  np_slug :: string
  np_dsn_public_key :: string
  np_retention_events :: int
  np_retention_days :: int
  np_webhook_url :: "string option"

record project_update =
  pu_name :: "string option"
  pu_team_id :: "uuid option"
  pu_retention_events :: "int option"
  pu_retention_days :: "int option"
  pu_muted :: "bool option"
  pu_webhook_url :: "string option option"

text \<open>\<open>unique_short_id\<close> on the pool: every probe is a statement of its own.\<close>

fun unique_project_short_id_loop :: "nat \<Rightarrow> (db, string) op" where
  "unique_project_short_id_loop 0 s = (Inl (Internal ''could not allocate a unique short id''), s)"
| "unique_project_short_id_loop (Suc n) s =
     (let candidate = rng_short s (rng_pos s); s = s\<lparr>rng_pos := Suc (rng_pos s)\<rparr> in
      case transaction (\<lambda>s. (Inr (candidate \<in> set (map prj_short_id (db_projects s))), s)) s of
        (Inl e, s') \<Rightarrow> (Inl e, s')
      | (Inr taken, s') \<Rightarrow>
          (if taken then unique_project_short_id_loop n s' else (Inr candidate, s')))"

definition unique_project_short_id :: "(db, string) op" where
  "unique_project_short_id = unique_project_short_id_loop 16"

text \<open>A unique violation is known by its code.\<close>

definition map_conflict :: "error \<Rightarrow> error" where
  "map_conflict e =
     (case e of
        Db (Database (DriverError (Some code) _)) \<Rightarrow>
          (if code = ''2067'' \<or> code = ''1555'' then Conflict ''project slug or DSN already exists'' else e)
      | _ \<Rightarrow> e)"

definition map_err :: "(error \<Rightarrow> error) \<Rightarrow> (db, 'a) op \<Rightarrow> (db, 'a) op" where
  "map_err f op s = (case op s of (Inl e, t) \<Rightarrow> (Inl (f e), t) | (Inr v, t) \<Rightarrow> (Inr v, t))"

definition project_row :: "uuid \<Rightarrow> string \<Rightarrow> timestamp \<Rightarrow> new_project \<Rightarrow> project" where
  "project_row pid short now n =
     \<lparr>prj_id = pid, prj_short_id = short, prj_team_id = np_team_id n, prj_name = np_name n,
      prj_slug = np_slug n, prj_dsn_public_key = np_dsn_public_key n,
      prj_retention_events = np_retention_events n, prj_retention_days = np_retention_days n,
      prj_muted = False, prj_webhook_url = np_webhook_url n, prj_created_at = now,
      prj_updated_at = now, prj_orphaned_at = None\<rparr>"

definition insert_project :: "project \<Rightarrow> (db, project) op" where
  "insert_project p s =
     (if prj_id p \<in> set (project_ids s) then
        (Inl (Db (Database (DriverError (Some ''1555'') ''UNIQUE constraint failed: projects.id''))), s)
      else if prj_slug p \<in> set (map prj_slug (db_projects s)) then
        (Inl (constraint_failed ''UNIQUE constraint failed: projects.slug''), s)
      else if prj_dsn_public_key p \<in> set (map prj_dsn_public_key (db_projects s)) then
        (Inl (constraint_failed ''UNIQUE constraint failed: projects.dsn_public_key''), s)
      else if prj_short_id p \<in> set (map prj_short_id (db_projects s)) then
        (Inl (constraint_failed ''UNIQUE constraint failed: projects.short_id''), s)
      else if prj_team_id p \<notin> set (map tm_id (db_teams s)) then (Inl foreign_key_failed, s)
      else (Inr p, s\<lparr>db_projects := db_projects s @ [p]\<rparr>))"

definition create_project :: "timestamp \<Rightarrow> new_project \<Rightarrow> (db, project) op" where
  "create_project now n s =
     (let pid = rng_uuid s (rng_pos s); s = s\<lparr>rng_pos := Suc (rng_pos s)\<rparr> in
      case unique_project_short_id s of
        (Inl e, s') \<Rightarrow> (Inl e, s')
      | (Inr short, s') \<Rightarrow>
          map_err map_conflict (transaction (insert_project (project_row pid short now n))) s')"

definition select_project :: "(project \<Rightarrow> bool) \<Rightarrow> (db, project option) op" where
  "select_project P = transaction (\<lambda>s. (Inr (List.find P (db_projects s)), s))"

definition find_project_by_id :: "uuid \<Rightarrow> (db, project option) op" where
  "find_project_by_id pid = select_project (\<lambda>p. prj_id p = pid)"

definition find_project_by_short_id :: "string \<Rightarrow> (db, project option) op" where
  "find_project_by_short_id short = select_project (\<lambda>p. prj_short_id p = short)"

definition find_project_by_slug :: "string \<Rightarrow> (db, project option) op" where
  "find_project_by_slug slug = select_project (\<lambda>p. prj_slug p = slug)"

definition find_project_by_dsn :: "string \<Rightarrow> (db, project option) op" where
  "find_project_by_dsn key = select_project (\<lambda>p. prj_dsn_public_key p = key)"

definition list_projects :: "(db, project list) op" where
  "list_projects = transaction (\<lambda>s. (Inr (sort_key prj_name (db_projects s)), s))"

definition list_projects_for_team :: "uuid \<Rightarrow> (db, project list) op" where
  "list_projects_for_team tid =
     transaction (\<lambda>s. (Inr (sort_key prj_name (filter (\<lambda>p. prj_team_id p = tid) (db_projects s))), s))"

text \<open>The join with the memberships: their key is (team, user), so it repeats no project.\<close>

definition list_projects_for_user :: "uuid \<Rightarrow> (db, project list) op" where
  "list_projects_for_user uid =
     transaction (\<lambda>s.
       (Inr (sort_key prj_name
          (filter (\<lambda>p. list_ex (\<lambda>m. mb_team_id m = prj_team_id p \<and> mb_user_id m = uid) (db_members s))
             (db_projects s))), s))"

abbreviation coalesce :: "'a option \<Rightarrow> 'a \<Rightarrow> 'a" where
  "coalesce new old \<equiv> (case new of Some v \<Rightarrow> v | None \<Rightarrow> old)"

definition apply_project_update :: "project_update \<Rightarrow> timestamp \<Rightarrow> project \<Rightarrow> project" where
  "apply_project_update u now p =
     p\<lparr>prj_name := coalesce (pu_name u) (prj_name p),
       prj_team_id := coalesce (pu_team_id u) (prj_team_id p),
       prj_retention_events := coalesce (pu_retention_events u) (prj_retention_events p),
       prj_retention_days := coalesce (pu_retention_days u) (prj_retention_days p),
       prj_muted := coalesce (pu_muted u) (prj_muted p),
       prj_webhook_url := coalesce (pu_webhook_url u) (prj_webhook_url p),
       prj_updated_at := now\<rparr>"

definition project_not_found :: "uuid \<Rightarrow> error" where
  "project_not_found pid = NotFound (''project '' @ pid)"

text \<open>\<open>UPDATE projects SET ... WHERE id = ? RETURNING ...\<close>\<close>

definition set_project :: "uuid \<Rightarrow> (project \<Rightarrow> project) \<Rightarrow> db \<Rightarrow> db" where
  "set_project pid f s =
     s\<lparr>db_projects := map (\<lambda>p. if prj_id p = pid then f p else p) (db_projects s)\<rparr>"

definition update_project :: "timestamp \<Rightarrow> uuid \<Rightarrow> project_update \<Rightarrow> (db, project) op" where
  "update_project now pid u =
     transaction (\<lambda>s.
       case List.find (\<lambda>p. prj_id p = pid) (db_projects s) of
         None \<Rightarrow> (Inl (project_not_found pid), s)
       | Some p \<Rightarrow>
           (let p' = apply_project_update u now p in
            if prj_team_id p' \<notin> set (map tm_id (db_teams s)) then (Inl foreign_key_failed, s)
            else (Inr p', set_project pid (apply_project_update u now) s)))"

definition regenerate_dsn :: "timestamp \<Rightarrow> uuid \<Rightarrow> string \<Rightarrow> (db, project) op" where
  "regenerate_dsn now pid key =
     map_err map_conflict (transaction (\<lambda>s.
       case List.find (\<lambda>p. prj_id p = pid) (db_projects s) of
         None \<Rightarrow> (Inl (project_not_found pid), s)
       | Some p \<Rightarrow>
           (if list_ex (\<lambda>q. prj_id q \<noteq> pid \<and> prj_dsn_public_key q = key) (db_projects s)
            then (Inl (constraint_failed ''UNIQUE constraint failed: projects.dsn_public_key''), s)
            else (let f = (\<lambda>p. p\<lparr>prj_dsn_public_key := key, prj_updated_at := now\<rparr>)
                  in (Inr (f p), set_project pid f s)))))"

definition delete_project_rows :: "uuid \<Rightarrow> db \<Rightarrow> db" where
  "delete_project_rows pid s =
     s\<lparr>db_projects := filter (\<lambda>p. prj_id p \<noteq> pid) (db_projects s),
       db_issues := filter (\<lambda>i. iss_project_id i \<noteq> pid) (db_issues s),
       db_events := filter (\<lambda>e. ev_project_id e \<noteq> pid \<and>
          ev_issue_id e \<notin> set (map iss_id (filter (\<lambda>i. iss_project_id i = pid) (db_issues s)))) (db_events s),
       db_mute_rules := filter (\<lambda>r. rule_project_id r \<noteq> pid) (db_mute_rules s)\<rparr>"

definition delete_project :: "uuid \<Rightarrow> (db, unit) op" where
  "delete_project pid = transaction (\<lambda>s. (Inr (), delete_project_rows pid s))"

section \<open>Tag-mute rules\<close>

record new_tag_mute_rule =
  nr_project_id :: uuid
  nr_name :: "string option"
  nr_created_by :: "uuid option"
  nr_tags :: "tag_match list"

definition rule_row :: "uuid \<Rightarrow> timestamp \<Rightarrow> new_tag_mute_rule \<Rightarrow> tag_mute_rule" where
  "rule_row rid now n =
     \<lparr>rule_id = rid, rule_project_id = nr_project_id n, rule_name = nr_name n, rule_tags = nr_tags n,
      rule_created_by = nr_created_by n, rule_created_at = now, rule_updated_at = now\<rparr>"

text \<open>The rule and its tags are inserted in one transaction; the tags' key is (rule, tag key).\<close>

definition create_mute_rule :: "timestamp \<Rightarrow> new_tag_mute_rule \<Rightarrow> (db, tag_mute_rule) op" where
  "create_mute_rule now n s =
     (let rid = rng_uuid s (rng_pos s); s = s\<lparr>rng_pos := Suc (rng_pos s)\<rparr>; r = rule_row rid now n in
      transaction (\<lambda>s.
        if rid \<in> set (map rule_id (db_mute_rules s)) then
          (Inl (Db (Database (DriverError (Some ''1555'') ''UNIQUE constraint failed: tag_mute_rules.id''))), s)
        else if nr_project_id n \<notin> set (project_ids s) \<or>
                (case nr_created_by n of Some u \<Rightarrow> u \<notin> set (map usr_id (db_users s)) | None \<Rightarrow> False) then
          (Inl foreign_key_failed, s)
        else if \<not> distinct (map tag_key (nr_tags n)) then
          (Inl (Db (Database (DriverError (Some ''1555'')
             ''UNIQUE constraint failed: tag_mute_rule_tags.rule_id, tag_mute_rule_tags.tag_key''))), s)
        else (Inr r, s\<lparr>db_mute_rules := db_mute_rules s @ [r]\<rparr>)) s)"

definition tags_for :: "uuid \<Rightarrow> (db, tag_match list) op" where
  "tags_for rid =
     transaction (\<lambda>s.
       (Inr (sort_key tag_key (concat (map rule_tags (filter (\<lambda>r. rule_id r = rid) (db_mute_rules s))))), s))"

text \<open>One statement for the rules, then one per rule for its tags.\<close>

fun load_tags :: "tag_mute_rule list \<Rightarrow> (db, tag_mute_rule list) op" where
  "load_tags [] s = (Inr [], s)"
| "load_tags (r # rs) s =
     (case tags_for (rule_id r) s of
        (Inl e, s') \<Rightarrow> (Inl e, s')
      | (Inr tags, s') \<Rightarrow>
          (case load_tags rs s' of
             (Inl e, s'') \<Rightarrow> (Inl e, s'')
           | (Inr rules, s'') \<Rightarrow> (Inr (r\<lparr>rule_tags := tags\<rparr> # rules), s'')))"

definition list_rules_for_project :: "uuid \<Rightarrow> (db, tag_mute_rule list) op" where
  "list_rules_for_project pid s =
     (case transaction (\<lambda>s.
        (Inr (sort_key (\<lambda>r. (- rule_created_at r, rule_id r))
           (filter (\<lambda>r. rule_project_id r = pid) (db_mute_rules s))), s)) s of
        (Inl e, s') \<Rightarrow> (Inl e, s')
      | (Inr rows, s') \<Rightarrow> load_tags rows s')"

definition delete_mute_rule :: "uuid \<Rightarrow> uuid \<Rightarrow> (db, bool) op" where
  "delete_mute_rule pid rid =
     transaction (\<lambda>s.
       (let doomed = (\<lambda>r. rule_id r = rid \<and> rule_project_id r = pid)
        in (Inr (list_ex doomed (db_mute_rules s)),
            s\<lparr>db_mute_rules := filter (\<lambda>r. \<not> doomed r) (db_mute_rules s)\<rparr>)))"

section \<open>The invariant\<close>

definition projects_ok :: "db \<Rightarrow> bool" where
  "projects_ok s \<longleftrightarrow>
     distinct (project_ids s) \<and> distinct (map prj_short_id (db_projects s)) \<and>
     distinct (map prj_slug (db_projects s)) \<and> distinct (map prj_dsn_public_key (db_projects s)) \<and>
     list_all (\<lambda>p. prj_team_id p \<in> set (map tm_id (db_teams s))) (db_projects s)"

definition rules_ok :: "db \<Rightarrow> bool" where
  "rules_ok s \<longleftrightarrow>
     distinct (map rule_id (db_mute_rules s)) \<and>
     list_all (\<lambda>r. rule_project_id r \<in> set (project_ids s) \<and> distinct (map tag_key (rule_tags r)))
       (db_mute_rules s)"

definition store_ok :: "db \<Rightarrow> bool" where
  "store_ok s \<longleftrightarrow> db_ok s \<and> projects_ok s \<and> rules_ok s"

lemma store_ok_tables: "tables s = tables t \<Longrightarrow> store_ok s = store_ok t"
  using db_ok_tables [of s t]
  by (simp add: store_ok_def projects_ok_def rules_ok_def tables_def accounts_def)

lemma store_ok_script [simp]:
  "store_ok (s\<lparr>faults := fs\<rparr>) = store_ok s" "store_ok (s\<lparr>rng_pos := n\<rparr>) = store_ok s"
  by (rule store_ok_tables, simp)+

lemma transaction_keeps:
  assumes "\<And>s v t. store_ok s \<Longrightarrow> body s = (Inr v, t) \<Longrightarrow> store_ok t" and "store_ok s"
    and "transaction body s = (r, t)"
  shows "store_ok t"
proof (cases r)
  case (Inl e)
  then have "tables t = tables s" using assms(3) by (auto dest: transaction_error)
  then show ?thesis using assms(2) store_ok_tables [of t s] by simp
next
  case (Inr v)
  then have "transaction body s = (Inr v, t)" using assms(3) by simp
  then obtain s0 where s0: "tables s0 = tables s" "body s0 = (Inr v, t)"
    by (rule transaction_ok)
  have "store_ok s0" using assms(2) store_ok_tables [OF s0(1)] by simp
  then show ?thesis using s0(2) by (rule assms(1))
qed

lemma map_err_keeps: "map_err f op s = (r, t) \<Longrightarrow> \<exists>r'. op s = (r', t)"
  by (auto simp: map_err_def split: prod.splits sum.splits)

lemma insert_project_keeps:
  "store_ok s \<Longrightarrow> insert_project p s = (Inr v, t) \<Longrightarrow> store_ok t"
proof -
  assume ok: "store_ok s" and ins: "insert_project p s = (Inr v, t)"
  have t: "t = s\<lparr>db_projects := db_projects s @ [p]\<rparr>"
    and fresh: "prj_id p \<notin> set (project_ids s)" "prj_slug p \<notin> set (map prj_slug (db_projects s))"
      "prj_dsn_public_key p \<notin> set (map prj_dsn_public_key (db_projects s))"
      "prj_short_id p \<notin> set (map prj_short_id (db_projects s))"
      "prj_team_id p \<in> set (map tm_id (db_teams s))"
    using ins unfolding insert_project_def by (auto split: if_splits)
  have "db_ok t" using ok unfolding store_ok_def db_ok_defs t by (simp add: list_all_iff)
  moreover have "rules_ok t" using ok unfolding store_ok_def rules_ok_def t by (simp add: list_all_iff)
  moreover have "projects_ok t" using ok fresh unfolding store_ok_def projects_ok_def t by simp
  ultimately show "store_ok t" by (simp add: store_ok_def)
qed

lemma unique_project_short_id_loop_tables:
  "unique_project_short_id_loop n s = (r, t) \<Longrightarrow> tables t = tables s"
proof (induction n arbitrary: s)
  case (Suc n)
  let ?s = "s\<lparr>rng_pos := Suc (rng_pos s)\<rparr>" and ?c = "rng_short s (rng_pos s)"
  obtain r' s' where t: "transaction (\<lambda>s. (Inr (?c \<in> set (map prj_short_id (db_projects s))), s)) ?s = (r', s')"
    by fastforce
  have "tables s' = tables s"
    using t by (cases r') (auto dest: transaction_error elim!: transaction_ok)
  then show ?case using Suc t by (auto simp: Let_def split: sum.splits if_splits)
qed simp

lemma create_project_keeps:
  assumes "store_ok s" "create_project now n s = (r, t)"
  shows "store_ok t"
proof -
  let ?s = "s\<lparr>rng_pos := Suc (rng_pos s)\<rparr>"
  obtain q s' where u: "unique_project_short_id ?s = (q, s')" by fastforce
  then have "tables s' = tables s"
    using unique_project_short_id_loop_tables by (fastforce simp: unique_project_short_id_def)
  then have s': "store_ok s'" using assms(1) store_ok_tables [of s' s] by simp
  show ?thesis
  proof (cases q)
    case (Inl e)
    then show ?thesis using assms(2) u s' by (simp add: create_project_def Let_def)
  next
    case (Inr short)
    then obtain r' where
      "transaction (insert_project (project_row (rng_uuid s (rng_pos s)) short now n)) s' = (r', t)"
      using assms(2) u by (auto simp: create_project_def Let_def dest: map_err_keeps)
    then show ?thesis using s' insert_project_keeps by (blast intro: transaction_keeps)
  qed
qed

text \<open>Changing a project's row keeps the invariant when its keys stay unique and its team exists.\<close>

lemma set_project_ids: "(\<And>p. prj_id (f p) = prj_id p) \<Longrightarrow> project_ids (set_project pid f s) = project_ids s"
  by (simp add: set_project_def comp_def)

lemma set_project_keeps:
  assumes "store_ok s" "\<And>p. prj_id (f p) = prj_id p" "\<And>p. prj_short_id (f p) = prj_short_id p"
    and "\<And>p. prj_slug (f p) = prj_slug p"
    and "\<And>p. p \<in> set (db_projects s) \<Longrightarrow> prj_id p = pid \<Longrightarrow> prj_team_id (f p) \<in> set (map tm_id (db_teams s))"
    and "distinct (map prj_dsn_public_key (db_projects (set_project pid f s)))"
  shows "store_ok (set_project pid f s)"
proof -
  have keys: "map g (db_projects (set_project pid f s)) = map g (db_projects s)"
    if "\<And>p. g (f p) = g p" for g :: "project \<Rightarrow> string"
    using that by (simp add: set_project_def comp_def)
  note ids = keys [of prj_id, OF assms(2)] keys [of prj_short_id, OF assms(3)] keys [of prj_slug, OF assms(4)]
  have "db_ok (set_project pid f s) = db_ok s"
    unfolding db_ok_defs ids(1) by (simp add: set_project_def)
  moreover have "rules_ok (set_project pid f s) = rules_ok s"
    unfolding rules_ok_def ids(1) by (simp add: set_project_def)
  moreover have "projects_ok (set_project pid f s)"
    using assms(1,5,6) unfolding store_ok_def projects_ok_def ids
    by (auto simp: set_project_def list_all_iff)
  ultimately show ?thesis using assms(1) by (simp add: store_ok_def)
qed

lemma find_project: "List.find (\<lambda>p. prj_id p = pid) ps = Some p \<Longrightarrow> p \<in> set ps \<and> prj_id p = pid"
  by (auto simp: find_Some_iff)

lemma update_project_keeps:
  assumes "store_ok s" "update_project now pid u s = (r, t)"
  shows "store_ok t"
  using _ assms(1) assms(2) [unfolded update_project_def]
proof (rule transaction_keeps)
  fix s v t
  let ?f = "apply_project_update u now"
  assume ok: "store_ok s"
    and "(case List.find (\<lambda>p. prj_id p = pid) (db_projects s) of
         None \<Rightarrow> (Inl (project_not_found pid), s)
       | Some p \<Rightarrow>
           (let p' = ?f p in
            if prj_team_id p' \<notin> set (map tm_id (db_teams s)) then (Inl foreign_key_failed, s)
            else (Inr p', set_project pid ?f s))) = (Inr v, t)"
  then obtain p where p: "List.find (\<lambda>p. prj_id p = pid) (db_projects s) = Some p"
    "prj_team_id (?f p) \<in> set (map tm_id (db_teams s))" "t = set_project pid ?f s"
    by (auto simp: Let_def split: option.splits if_splits)
  have "prj_team_id (?f q) \<in> set (map tm_id (db_teams s))" if "q \<in> set (db_projects s)" "prj_id q = pid" for q
  proof -
    have "q = p"
      using ok that find_project [OF p(1)] by (auto simp: store_ok_def projects_ok_def dest: distinct_map_inj)
    then show ?thesis using p(2) by simp
  qed
  moreover have "map prj_dsn_public_key (db_projects (set_project pid ?f s)) = map prj_dsn_public_key (db_projects s)"
    by (simp add: set_project_def apply_project_update_def)
  ultimately show "store_ok t"
    unfolding p(3) using ok
    by (intro set_project_keeps) (simp_all add: apply_project_update_def store_ok_def projects_ok_def)
qed

lemma distinct_map_replace:
  assumes "distinct (map g xs)" "distinct (map k xs)" "\<And>x. x \<in> set xs \<Longrightarrow> k x \<noteq> a \<Longrightarrow> g x \<noteq> b"
  shows "distinct (map (\<lambda>x. if k x = a then b else g x) xs)"
  using assms
proof (induction xs)
  case (Cons x xs)
  have "k y \<noteq> a" if "k x = a" "y \<in> set xs" for y
    using that Cons.prems(2) by (auto simp: image_iff)
  moreover have "g y \<noteq> g x" if "y \<in> set xs" for y
    using that Cons.prems(1) by (auto simp: image_iff)
  ultimately show ?case using Cons by (auto split: if_splits)
qed simp

lemma regenerate_dsn_keeps:
  assumes "store_ok s" "regenerate_dsn now pid key s = (r, t)"
  shows "store_ok t"
proof -
  let ?f = "\<lambda>p. p\<lparr>prj_dsn_public_key := key, prj_updated_at := now\<rparr>"
  let ?body = "\<lambda>s. case List.find (\<lambda>p. prj_id p = pid) (db_projects s) of
         None \<Rightarrow> (Inl (project_not_found pid), s)
       | Some p \<Rightarrow>
           (if list_ex (\<lambda>q. prj_id q \<noteq> pid \<and> prj_dsn_public_key q = key) (db_projects s)
            then (Inl (constraint_failed ''UNIQUE constraint failed: projects.dsn_public_key''), s)
            else (let f = ?f in (Inr (f p), set_project pid f s)))"
  obtain r' where "transaction ?body s = (r', t)"
    using assms(2) unfolding regenerate_dsn_def by (auto dest: map_err_keeps)
  then show ?thesis
  proof (rule transaction_keeps [rotated 2])
    fix s v t
    assume ok: "store_ok s" and "?body s = (Inr v, t)"
    then have t: "t = set_project pid ?f s"
      and other: "\<not> list_ex (\<lambda>q. prj_id q \<noteq> pid \<and> prj_dsn_public_key q = key) (db_projects s)"
      by (auto simp: Let_def split: option.splits if_splits)
    have "distinct (map (\<lambda>p. if prj_id p = pid then key else prj_dsn_public_key p) (db_projects s))"
      using ok other by (intro distinct_map_replace) (auto simp: store_ok_def projects_ok_def list_ex_iff)
    moreover have "map prj_dsn_public_key (db_projects t) =
        map (\<lambda>p. if prj_id p = pid then key else prj_dsn_public_key p) (db_projects s)"
      by (simp add: t set_project_def)
    ultimately show "store_ok t"
      unfolding t using ok
      by (intro set_project_keeps) (auto simp: store_ok_def projects_ok_def list_all_iff)
  qed (rule assms(1))
qed

lemma delete_project_rows_keeps:
  assumes "store_ok s"
  shows "store_ok (delete_project_rows pid s)"
proof -
  let ?t = "delete_project_rows pid s"
  have "issues_ok ?t"
    using assms unfolding store_ok_def db_ok_def issues_ok_def delete_project_rows_def
    by (auto simp: list_all_iff distinct_map_filter)
  moreover have "events_ok ?t"
    using assms unfolding store_ok_def db_ok_def events_ok_def delete_project_rows_def
    by (auto simp: list_all_iff distinct_map_filter)
  moreover have "projects_ok ?t"
    using assms unfolding store_ok_def projects_ok_def delete_project_rows_def
    by (auto simp: list_all_iff distinct_map_filter)
  moreover have "rules_ok ?t"
    using assms unfolding store_ok_def rules_ok_def delete_project_rows_def
    by (auto simp: list_all_iff distinct_map_filter)
  ultimately show ?thesis by (simp add: store_ok_def db_ok_def)
qed

lemma delete_project_keeps: "store_ok s \<Longrightarrow> delete_project pid s = (r, t) \<Longrightarrow> store_ok t"
  unfolding delete_project_def
  by (erule (1) transaction_keeps [rotated]) (auto simp: delete_project_rows_keeps)

lemma rules_keep:
  assumes "store_ok s" "distinct (map rule_id rs)"
    and "\<And>r. r \<in> set rs \<Longrightarrow> rule_project_id r \<in> set (project_ids s) \<and> distinct (map tag_key (rule_tags r))"
  shows "store_ok (s\<lparr>db_mute_rules := rs\<rparr>)"
  using assms by (simp add: store_ok_def rules_ok_def projects_ok_def db_ok_defs list_all_iff)

lemma delete_mute_rule_keeps:
  assumes "store_ok s" "delete_mute_rule pid rid s = (r, t)"
  shows "store_ok t"
  using _ assms(1) assms(2) [unfolded delete_mute_rule_def]
proof (rule transaction_keeps)
  fix s v t
  assume ok: "store_ok s" and "(let doomed = \<lambda>r. rule_id r = rid \<and> rule_project_id r = pid
     in (Inr (list_ex doomed (db_mute_rules s)),
         s\<lparr>db_mute_rules := filter (\<lambda>r. \<not> doomed r) (db_mute_rules s)\<rparr>)) = (Inr v, t)"
  then have t: "t = s\<lparr>db_mute_rules := filter (\<lambda>r. \<not> (rule_id r = rid \<and> rule_project_id r = pid)) (db_mute_rules s)\<rparr>"
    by (simp add: Let_def)
  show "store_ok t"
    unfolding t using ok
    by (intro rules_keep) (auto simp: store_ok_def rules_ok_def list_all_iff distinct_map_filter)
qed

lemma create_mute_rule_keeps:
  assumes "store_ok s" "create_mute_rule now n s = (r, t)"
  shows "store_ok t"
proof -
  let ?rid = "rng_uuid s (rng_pos s)"
  have "transaction (\<lambda>s.
        if ?rid \<in> set (map rule_id (db_mute_rules s)) then
          (Inl (Db (Database (DriverError (Some ''1555'') ''UNIQUE constraint failed: tag_mute_rules.id''))), s)
        else if nr_project_id n \<notin> set (project_ids s) \<or>
                (case nr_created_by n of Some u \<Rightarrow> u \<notin> set (map usr_id (db_users s)) | None \<Rightarrow> False) then
          (Inl foreign_key_failed, s)
        else if \<not> distinct (map tag_key (nr_tags n)) then
          (Inl (Db (Database (DriverError (Some ''1555'')
             ''UNIQUE constraint failed: tag_mute_rule_tags.rule_id, tag_mute_rule_tags.tag_key''))), s)
        else (Inr (rule_row ?rid now n), s\<lparr>db_mute_rules := db_mute_rules s @ [rule_row ?rid now n]\<rparr>))
      (s\<lparr>rng_pos := Suc (rng_pos s)\<rparr>) = (r, t)"
    using assms(2) unfolding create_mute_rule_def Let_def .
  then show ?thesis
  proof (rule transaction_keeps [rotated 2], goal_cases)
    case (1 s v t)
    then have t: "t = s\<lparr>db_mute_rules := db_mute_rules s @ [rule_row ?rid now n]\<rparr>"
      and new: "?rid \<notin> set (map rule_id (db_mute_rules s))" "nr_project_id n \<in> set (project_ids s)"
        "distinct (map tag_key (nr_tags n))"
      by (auto split: if_splits)
    show ?case
      unfolding t using 1(1) new
      by (intro rules_keep) (auto simp: store_ok_def rules_ok_def list_all_iff rule_row_def)
  next
    case 2
    then show ?case using assms(1) by simp
  qed
qed

section \<open>Properties\<close>

inductive project_step :: "db \<Rightarrow> db \<Rightarrow> bool" where
  create: "create_project now n s = (r, t) \<Longrightarrow> project_step s t"
| update: "update_project now pid u s = (r, t) \<Longrightarrow> project_step s t"
| rotate: "regenerate_dsn now pid key s = (r, t) \<Longrightarrow> project_step s t"
| remove: "delete_project pid s = (r, t) \<Longrightarrow> project_step s t"
| mute: "create_mute_rule now rule s = (r, t) \<Longrightarrow> project_step s t"
| unmute: "delete_mute_rule pid rid s = (r, t) \<Longrightarrow> project_step s t"

lemmas project_keeps = create_project_keeps update_project_keeps regenerate_dsn_keeps delete_project_keeps
  create_mute_rule_keeps delete_mute_rule_keeps

lemma project_step_keeps: "project_step s t \<Longrightarrow> store_ok s \<Longrightarrow> store_ok t"
  by (induction rule: project_step.induct) (blast intro: project_keeps)+

text \<open>Whatever sequence of project and rule operations runs, failures included, the database stays
  consistent: project ids, slugs, short ids and DSN keys are unique, every project has its team, every
  issue, event and rule its project, and a rule names no tag key twice.\<close>

theorem project_steps_keep:
  assumes "project_step\<^sup>*\<^sup>* s t" "store_ok s"
  shows "store_ok t"
  using assms by (induction rule: rtranclp_induct) (auto intro: project_step_keeps)

lemma example_store_ok [simp]:
  "store_ok (example_db\<lparr>db_teams := [\<lparr>tm_id = ''t'', tm_short_id = [], tm_name = ''T'', tm_created_at = 0,
     tm_updated_at = 0, tm_orphaned_at = None\<rparr>]\<rparr>)"
proof -
  have "db_ok (s\<lparr>db_teams := ts\<rparr>) = db_ok s" for s ts by (simp add: db_ok_defs)
  then show ?thesis by (simp add: store_ok_def projects_ok_def rules_ok_def) (simp add: example_defs)
qed

theorem project_steps_keep_witness:
  "store_ok (snd (delete_project ''p'' (example_db\<lparr>db_teams := [\<lparr>tm_id = ''t'', tm_short_id = [],
     tm_name = ''T'', tm_created_at = 0, tm_updated_at = 0, tm_orphaned_at = None\<rparr>]\<rparr>)))"
proof -
  let ?s = "example_db\<lparr>db_teams := [\<lparr>tm_id = ''t'', tm_short_id = [], tm_name = ''T'', tm_created_at = 0,
     tm_updated_at = 0, tm_orphaned_at = None\<rparr>]\<rparr>"
  have "project_step ?s (snd (delete_project ''p'' ?s))"
    by (rule project_step.remove) (rule surjective_pairing)
  then have "project_step\<^sup>*\<^sup>* ?s (snd (delete_project ''p'' ?s))" by (rule r_into_rtranclp)
  then show ?thesis by (rule project_steps_keep) (rule example_store_ok)
qed

lemma select_project_calm:
  "faults s = [] \<Longrightarrow> select_project P s = (Inr (List.find P (db_projects s)), s)"
  by (simp add: select_project_def transaction_no_fault)

lemma find_replace:
  assumes "\<And>x. x \<in> set xs \<Longrightarrow> Q x \<Longrightarrow> \<not> P (f x)" "\<And>x. x \<in> set xs \<Longrightarrow> Q x \<Longrightarrow> \<not> P x"
  shows "List.find P (map (\<lambda>x. if Q x then f x else x) xs) = List.find P xs"
  using assms by (induction xs) auto

lemma regenerate_dsn_result:
  assumes "regenerate_dsn now pid key s = (Inr p', t)"
  obtains p where "List.find (\<lambda>p. prj_id p = pid) (db_projects s) = Some p"
    and "p' = p\<lparr>prj_dsn_public_key := key, prj_updated_at := now\<rparr>"
    and "db_projects t = map (\<lambda>p. if prj_id p = pid then p\<lparr>prj_dsn_public_key := key, prj_updated_at := now\<rparr> else p)
           (db_projects s)"
    and "tables (t\<lparr>db_projects := db_projects s\<rparr>) = tables s"
proof -
  let ?f = "\<lambda>p. p\<lparr>prj_dsn_public_key := key, prj_updated_at := now\<rparr>"
  let ?body = "\<lambda>s. case List.find (\<lambda>p. prj_id p = pid) (db_projects s) of
         None \<Rightarrow> (Inl (project_not_found pid), s)
       | Some p \<Rightarrow>
           (if list_ex (\<lambda>q. prj_id q \<noteq> pid \<and> prj_dsn_public_key q = key) (db_projects s)
            then (Inl (constraint_failed ''UNIQUE constraint failed: projects.dsn_public_key''), s)
            else (let f = ?f in (Inr (f p), set_project pid f s)))"
  have "transaction ?body s = (Inr p', t)"
    using assms unfolding regenerate_dsn_def by (simp add: map_err_def split: prod.splits sum.splits)
  then obtain s0 where s0: "tables s0 = tables s" "?body s0 = (Inr p', t)" by (rule transaction_ok)
  have same: "db_projects s0 = db_projects s" using s0(1) by (simp add: tables_def)
  obtain p where p: "List.find (\<lambda>p. prj_id p = pid) (db_projects s) = Some p"
    "\<not> list_ex (\<lambda>q. prj_id q \<noteq> pid \<and> prj_dsn_public_key q = key) (db_projects s)"
    "p' = ?f p" "t = set_project pid ?f s0"
    using s0(2) unfolding same by (auto simp: Let_def split: option.splits if_splits)
  show thesis
    using p same s0(1) by (intro that [of p]) (auto simp: set_project_def list_ex_iff tables_def accounts_def)
qed

text \<open>C0. Rotating a DSN key takes effect at once and touches no one else: in the row of the project only the key
  and the time of the update change, and in the database nothing else; ingestion then finds the project under the new
  key, nothing under the old one, and under every other key the same project as before. The new key was no other
  project's.\<close>

theorem rotated_key:
  assumes "store_ok s" "p \<in> set (db_projects s)" "prj_id p = pid"
    and "regenerate_dsn now pid key s = (Inr p', t)" "faults t = []"
  shows "p' = p\<lparr>prj_dsn_public_key := key, prj_updated_at := now\<rparr> \<and>
    db_projects t = map (\<lambda>q. if prj_id q = pid then p' else q) (db_projects s) \<and>
    tables (t\<lparr>db_projects := db_projects s\<rparr>) = tables s \<and>
    (\<forall>q \<in> set (db_projects s). prj_dsn_public_key q = key \<longrightarrow> prj_id q = pid) \<and>
    fst (find_project_by_dsn key t) = Inr (Some p') \<and>
    (prj_dsn_public_key p \<noteq> key \<longrightarrow> fst (find_project_by_dsn (prj_dsn_public_key p) t) = Inr None) \<and>
    (\<forall>k. k \<noteq> key \<and> k \<noteq> prj_dsn_public_key p \<longrightarrow>
       fst (find_project_by_dsn k t) = Inr (List.find (\<lambda>q. prj_dsn_public_key q = k) (db_projects s)))"
proof -
  let ?f = "\<lambda>p. p\<lparr>prj_dsn_public_key := key, prj_updated_at := now\<rparr>"
  obtain q where q1: "List.find (\<lambda>p. prj_id p = pid) (db_projects s) = Some q"
    and q2: "p' = ?f q" "db_projects t = map (\<lambda>p. if prj_id p = pid then ?f p else p) (db_projects s)"
    and frame: "tables (t\<lparr>db_projects := db_projects s\<rparr>) = tables s"
    using assms(4) by (rule regenerate_dsn_result)
  note q = q1 q2
  have same: "x = p" if "x \<in> set (db_projects s)" "prj_id x = pid" for x
    using assms(1-3) that by (auto simp: store_ok_def projects_ok_def dest: distinct_map_inj)
  have keys: "x = y" if "x \<in> set (db_projects s)" "y \<in> set (db_projects s)"
    "prj_dsn_public_key x = prj_dsn_public_key y" for x y
    using assms(1) that by (auto simp: store_ok_def projects_ok_def dest: distinct_map_inj)
  have qp: "q = p" using find_project [OF q(1)] same by blast
  have look: "fst (find_project_by_dsn k t) = Inr (List.find (\<lambda>p. prj_dsn_public_key p = k) (db_projects t))" for k
    using assms(5) by (simp add: find_project_by_dsn_def select_project_calm)
  have keys_t: "distinct (map prj_dsn_public_key (db_projects t))"
    using regenerate_dsn_keeps [OF assms(1,4)] by (simp add: store_ok_def projects_ok_def)
  moreover have mem_t: "p' \<in> set (db_projects t)" unfolding q(2,3) qp using assms(2,3) by force
  ultimately have new: "List.find (\<lambda>x. prj_dsn_public_key x = key) (db_projects t) = Some p'"
    using find_distinct [of prj_dsn_public_key "db_projects t" p'] q(2) by simp
  have old: "List.find (\<lambda>x. prj_dsn_public_key x = prj_dsn_public_key p) (db_projects t) = None"
    if "prj_dsn_public_key p \<noteq> key"
    unfolding q(3) using that keys assms(2,3) by (auto simp: find_None_iff)
  have rest: "List.find (\<lambda>x. prj_dsn_public_key x = k) (db_projects t) =
      List.find (\<lambda>x. prj_dsn_public_key x = k) (db_projects s)"
    if "k \<noteq> key" "k \<noteq> prj_dsn_public_key p" for k
    unfolding q(3) using that same by (intro find_replace) auto
  have row: "db_projects t = map (\<lambda>q. if prj_id q = pid then p' else q) (db_projects s)"
    unfolding q(2,3) qp using same by (intro map_cong refl) auto
  have "prj_id x = pid" if x: "x \<in> set (db_projects s)" "prj_dsn_public_key x = key" for x
  proof (rule ccontr)
    assume other: "prj_id x \<noteq> pid"
    then have "x \<in> set (db_projects t)" using x(1) unfolding row by force
    then have "x = p'"
      using mem_t keys_t x(2) q(2)
      by (auto dest: distinct_map_inj)
    then show False using other q(2) qp assms(3) by simp
  qed
  then show ?thesis using look new old rest q(2) qp row frame by simp
qed

theorem rotated_key_witness:
  "fst (find_project_by_dsn ''k'' (snd (regenerate_dsn 9 ''p'' ''k2'' (example_db\<lparr>db_teams := [\<lparr>tm_id = ''t'',
     tm_short_id = [], tm_name = ''T'', tm_created_at = 0, tm_updated_at = 0, tm_orphaned_at = None\<rparr>]\<rparr>)))) = Inr None"
proof -
  let ?s = "example_db\<lparr>db_teams := [\<lparr>tm_id = ''t'', tm_short_id = [], tm_name = ''T'', tm_created_at = 0,
     tm_updated_at = 0, tm_orphaned_at = None\<rparr>]\<rparr>"
  let ?f = "\<lambda>p. p\<lparr>prj_dsn_public_key := ''k2'', prj_updated_at := 9\<rparr>"
  have r: "regenerate_dsn 9 ''p'' ''k2'' ?s = (Inr (?f example_project), set_project ''p'' ?f ?s)"
    by (simp add: regenerate_dsn_def map_err_def transaction_def Let_def)
      (simp add: example_db_def example_project_def set_project_def)
  have ex: "example_project \<in> set (db_projects ?s)" "prj_id example_project = ''p''"
    "faults (set_project ''p'' ?f ?s) = []" "prj_dsn_public_key example_project = ''k''"
    by (simp_all add: example_db_def set_project_def) (simp_all add: example_project_def)
  have "prj_dsn_public_key example_project \<noteq> ''k2'' \<longrightarrow>
      fst (find_project_by_dsn (prj_dsn_public_key example_project) (set_project ''p'' ?f ?s)) = Inr None"
    using rotated_key [OF example_store_ok ex(1,2) r ex(3)] by (elim conjE)
  then show ?thesis using ex(4) r by simp
qed

end
