(* ===== verification/AccountStore.thy ===== *)
theory AccountStore
  imports ProjectStore
begin

text \<open>
  The SQLite adapters of users and teams: \<open>src/adapters/sqlite/user.rs\<close> and
  \<open>src/adapters/sqlite/team.rs\<close>. A write transaction is a body (\<open>..._body\<close>), run once
  (\<open>transaction\<close>) per attempt and retried under the default write policy; \<open>env\<close> is what other
  connections do between two attempts. Deleting a user removes its memberships, sessions and passkeys
  and clears it from the rules and invites it created.
\<close>

section \<open>Users\<close>

record new_user =
  nu_email :: string
  nu_display_name :: string
  nu_password_hash :: string
  nu_instance_role :: instance_role
  nu_auth_provider :: auth_provider
  nu_status :: user_status

record user_update =
  uu_display_name :: "string option"
  uu_password_hash :: "string option"
  uu_notifications_enabled :: "bool option"
  uu_locale :: "locale_pref option"
  uu_initial_locale :: "locale_pref option"
  uu_status :: "user_status option"

type_synonym env = "nat \<Rightarrow> db \<Rightarrow> db"

abbreviation account_write :: "env \<Rightarrow> string \<Rightarrow> (db, 'a) op \<Rightarrow> (db, 'a) op" where
  "account_write env what body \<equiv> retry_write env default_write_policy what (transaction body)"

definition owners :: "db \<Rightarrow> user list" where
  "owners s = filter (\<lambda>u. usr_instance_role u = Owner) (db_users s)"

definition user_row :: "uuid \<Rightarrow> timestamp \<Rightarrow> new_user \<Rightarrow> user" where
  "user_row uid now n =
     \<lparr>usr_id = uid, usr_email = nu_email n, usr_display_name = nu_display_name n,
      usr_password_hash = nu_password_hash n, usr_instance_role = nu_instance_role n,
      usr_notifications_enabled = True, usr_locale = None, usr_auth_provider = nu_auth_provider n,
      usr_status = nu_status n, usr_created_at = now, usr_updated_at = now\<rparr>"

definition default_memberships :: "uuid \<Rightarrow> timestamp \<Rightarrow> db \<Rightarrow> team_member list" where
  "default_memberships uid now s =
     map (\<lambda>tid. \<lparr>mb_team_id = tid, mb_user_id = uid, mb_role = TeamContributor, mb_created_at = now\<rparr>)
       (db_default_teams s)"

definition create_account_body :: "bool \<Rightarrow> uuid \<Rightarrow> timestamp \<Rightarrow> new_user \<Rightarrow> bool \<Rightarrow> (db, unit) op" where
  "create_account_body assign_default_teams uid now n initial_owner s =
     (if initial_owner \<and> owners s \<noteq> [] then (Inl (Conflict ''the service is already initialized''), s)
      else if uid \<in> set (map usr_id (db_users s)) \<or> nu_email n \<in> set (map usr_email (db_users s)) then
        (Inl (Conflict (''user email already exists: '' @ nu_email n)), s)
      else
        (Inr (), s\<lparr>db_users := db_users s @ [user_row uid now n],
           db_members := db_members s @ (if assign_default_teams then default_memberships uid now s else [])\<rparr>))"

definition create_account :: "env \<Rightarrow> bool \<Rightarrow> timestamp \<Rightarrow> new_user \<Rightarrow> bool \<Rightarrow> (db, user) op" where
  "create_account env assign_default_teams now n initial_owner s =
     (let uid = rng_uuid s (rng_pos s); s = s\<lparr>rng_pos := Suc (rng_pos s)\<rparr> in
      case account_write env ''create user with default teams''
             (create_account_body assign_default_teams uid now n initial_owner) s of
        (Inl e, t) \<Rightarrow> (Inl e, t)
      | (Inr _, t) \<Rightarrow> (Inr (user_row uid now n), t))"

definition create_user :: "env \<Rightarrow> bool \<Rightarrow> timestamp \<Rightarrow> new_user \<Rightarrow> (db, user) op" where
  "create_user env assign now n = create_account env assign now n False"

definition create_initial_owner :: "env \<Rightarrow> bool \<Rightarrow> timestamp \<Rightarrow> new_user \<Rightarrow> (db, user) op" where
  "create_initial_owner env assign now n s =
     (if nu_instance_role n \<noteq> Owner then (Inl (Validation ''initial account must be an owner''), s)
      else create_account env assign now n True s)"

definition select_user :: "(user \<Rightarrow> bool) \<Rightarrow> (db, user option) op" where
  "select_user P = transaction (\<lambda>s. (Inr (List.find P (db_users s)), s))"

definition find_user_by_id :: "uuid \<Rightarrow> (db, user option) op" where
  "find_user_by_id uid = select_user (\<lambda>u. usr_id u = uid)"

definition find_user_by_email :: "string \<Rightarrow> (db, user option) op" where
  "find_user_by_email email = select_user (\<lambda>u. usr_email u = email)"

definition user_not_found :: "uuid \<Rightarrow> error" where
  "user_not_found uid = NotFound (''user not found: '' @ uid)"

text \<open>The fields that \<open>profile_update_sql\<close> sets.\<close>

definition profile_update :: "timestamp \<Rightarrow> user_update \<Rightarrow> user \<Rightarrow> user" where
  "profile_update now up u =
     u\<lparr>usr_updated_at := now,
       usr_display_name := coalesce (uu_display_name up) (usr_display_name u),
       usr_password_hash := coalesce (uu_password_hash up) (usr_password_hash u),
       usr_notifications_enabled := coalesce (uu_notifications_enabled up) (usr_notifications_enabled u),
       usr_locale := (case uu_locale up of
          Some l \<Rightarrow> Some l
        | None \<Rightarrow> (case uu_initial_locale up of
             Some l \<Rightarrow> Some (coalesce (usr_locale u) l)
           | None \<Rightarrow> usr_locale u)),
       usr_status := coalesce (uu_status up) (usr_status u)\<rparr>"

definition set_user :: "uuid \<Rightarrow> (user \<Rightarrow> user) \<Rightarrow> db \<Rightarrow> db" where
  "set_user uid f s = s\<lparr>db_users := map (\<lambda>u. if usr_id u = uid then f u else u) (db_users s)\<rparr>"

definition update_user_body :: "timestamp \<Rightarrow> uuid \<Rightarrow> user_update \<Rightarrow> (db, nat) op" where
  "update_user_body now uid up s =
     (Inr (length (filter (\<lambda>u. usr_id u = uid) (db_users s))), set_user uid (profile_update now up) s)"

definition reread_user :: "uuid \<Rightarrow> error \<Rightarrow> (db, user) op" where
  "reread_user uid missing s =
     (case find_user_by_id uid s of
        (Inl e, t) \<Rightarrow> (Inl e, t)
      | (Inr None, t) \<Rightarrow> (Inl missing, t)
      | (Inr (Some u), t) \<Rightarrow> (Inr u, t))"

definition update_user :: "env \<Rightarrow> timestamp \<Rightarrow> uuid \<Rightarrow> user_update \<Rightarrow> (db, user) op" where
  "update_user env now uid up s =
     (case account_write env ''update user profile'' (update_user_body now uid up) s of
        (Inl e, t) \<Rightarrow> (Inl e, t)
      | (Inr rows, t) \<Rightarrow>
          (if rows = 0 then (Inl (user_not_found uid), t) else reread_user uid (user_not_found uid) t))"

text \<open>The guard of demotion and deletion: the user is an owner, and there is no other.\<close>

definition last_owner :: "uuid \<Rightarrow> db \<Rightarrow> bool" where
  "last_owner uid s \<longleftrightarrow> list_ex (\<lambda>u. usr_id u = uid) (owners s) \<and> length (owners s) \<le> 1"

definition set_instance_role_body :: "timestamp \<Rightarrow> uuid \<Rightarrow> instance_role \<Rightarrow> (db, user) op" where
  "set_instance_role_body now uid role s =
     (if role \<noteq> Owner \<and> last_owner uid s then (Inl (Conflict ''cannot remove or demote the last owner''), s)
      else case List.find (\<lambda>u. usr_id u = uid) (db_users s) of
             None \<Rightarrow> (Inl (user_not_found uid), s)
           | Some u \<Rightarrow>
               (let f = (\<lambda>u. u\<lparr>usr_instance_role := role, usr_updated_at := now\<rparr>)
                in (Inr (f u), set_user uid f s)))"

definition set_instance_role :: "env \<Rightarrow> timestamp \<Rightarrow> uuid \<Rightarrow> instance_role \<Rightarrow> (db, user) op" where
  "set_instance_role env now uid role =
     account_write env ''user set_instance_role'' (set_instance_role_body now uid role)"

definition list_users :: "(db, user list) op" where
  "list_users = transaction (\<lambda>s. (Inr (sort_key usr_created_at (db_users s)), s))"

text \<open>The only admin of one of its teams: no other user is an admin there.\<close>

definition sole_admin :: "db \<Rightarrow> team_member \<Rightarrow> bool" where
  "sole_admin s m \<longleftrightarrow>
     mb_role m = TeamAdmin \<and>
     \<not> list_ex (\<lambda>other. mb_team_id other = mb_team_id m \<and> mb_role other = TeamAdmin \<and>
                        mb_user_id other \<noteq> mb_user_id m) (db_members s)"

definition delete_user_rows :: "uuid \<Rightarrow> db \<Rightarrow> db" where
  "delete_user_rows uid s =
     s\<lparr>db_users := filter (\<lambda>u. usr_id u \<noteq> uid) (db_users s),
       db_members := filter (\<lambda>m. mb_user_id m \<noteq> uid) (db_members s),
       db_sessions := filter (\<lambda>x. ses_user_id x \<noteq> uid) (db_sessions s),
       db_passkeys := filter (\<lambda>k. pk_user_id k \<noteq> uid) (db_passkeys s),
       db_invites := map (\<lambda>i. if inv_created_by i = Some uid then i\<lparr>inv_created_by := None\<rparr> else i) (db_invites s),
       db_mute_rules := map (\<lambda>r. if rule_created_by r = Some uid then r\<lparr>rule_created_by := None\<rparr> else r)
          (db_mute_rules s)\<rparr>"

definition delete_user_body :: "uuid \<Rightarrow> (db, unit) op" where
  "delete_user_body uid s =
     (if last_owner uid s then (Inl (Conflict ''cannot remove or demote the last owner''), s)
      else if list_ex (\<lambda>m. mb_user_id m = uid \<and> sole_admin s m) (db_members s) then
        (Inl (Conflict ''user is the last admin of a team; assign another admin first''), s)
      else (Inr (), delete_user_rows uid s))"

definition delete_user :: "env \<Rightarrow> uuid \<Rightarrow> (db, unit) op" where
  "delete_user env uid = account_write env ''user delete'' (delete_user_body uid)"

definition convert_to_sso_body :: "uuid \<Rightarrow> (db, unit) op" where
  "convert_to_sso_body uid s =
     (case List.find (\<lambda>u. usr_id u = uid) (db_users s) of
        None \<Rightarrow> (Inl (NotFound ''user not found''), s)
      | Some u \<Rightarrow>
          (if usr_instance_role u = Owner then
             (Inl (Forbidden ''owner account cannot be converted to SSO-only''), s)
           else (Inr (), (set_user uid (\<lambda>u. u\<lparr>usr_auth_provider := Oidc, usr_password_hash := []\<rparr>) s)
                  \<lparr>db_sessions := filter (\<lambda>x. ses_user_id x \<noteq> uid) (db_sessions s),
                   db_passkeys := filter (\<lambda>k. pk_user_id k \<noteq> uid) (db_passkeys s)\<rparr>)))"

definition convert_to_sso :: "env \<Rightarrow> uuid \<Rightarrow> (db, user) op" where
  "convert_to_sso env uid s =
     (case account_write env ''convert account to SSO'' (convert_to_sso_body uid) s of
        (Inl e, t) \<Rightarrow> (Inl e, t)
      | (Inr _, t) \<Rightarrow> reread_user uid (NotFound ''user not found'') t)"

definition count_users :: "(db, int) op" where
  "count_users = transaction (\<lambda>s. (Inr (int (length (db_users s))), s))"

definition count_owners :: "(db, int) op" where
  "count_owners = transaction (\<lambda>s. (Inr (int (length (owners s))), s))"

section \<open>Teams\<close>

definition require_another_admin :: "uuid \<Rightarrow> uuid \<Rightarrow> db \<Rightarrow> error option" where
  "require_another_admin tid uid s =
     (if list_ex (\<lambda>m. mb_team_id m = tid \<and> mb_user_id m = uid \<and> sole_admin s m) (db_members s)
      then Some (Conflict ''cannot remove or demote the last admin of the team'') else None)"

definition team_name_taken :: "string \<Rightarrow> error" where
  "team_name_taken name = Conflict (''team name already exists: '' @ name)"

text \<open>The short id is drawn by a trigger of the table; a clash fails the statement like a taken
  name.\<close>

definition create_team_body :: "uuid \<Rightarrow> string \<Rightarrow> timestamp \<Rightarrow> string \<Rightarrow> (db, unit) op" where
  "create_team_body tid short now name s =
     (if tid \<in> set (map tm_id (db_teams s)) \<or> name \<in> set (map tm_name (db_teams s)) \<or>
         short \<in> set (map tm_short_id (db_teams s)) then (Inl (team_name_taken name), s)
      else (Inr (), s\<lparr>db_teams := db_teams s @
        [\<lparr>tm_id = tid, tm_short_id = short, tm_name = name, tm_created_at = now, tm_updated_at = now,
          tm_orphaned_at = None\<rparr>]\<rparr>))"

definition create_team :: "timestamp \<Rightarrow> string \<Rightarrow> (db, team) op" where
  "create_team now name s =
     (let tid = rng_uuid s (rng_pos s); short = rng_short s (rng_pos s); s = s\<lparr>rng_pos := Suc (rng_pos s)\<rparr> in
      case transaction (create_team_body tid short now name) s of
        (Inl e, t) \<Rightarrow> (Inl e, t)
      | (Inr _, t) \<Rightarrow>
          (case transaction (\<lambda>s. case List.find (\<lambda>x. tm_id x = tid) (db_teams s) of
                  Some x \<Rightarrow> (Inr (tm_short_id x), s) | None \<Rightarrow> (Inl (Db RowNotFound), s)) t of
             (Inl e, t') \<Rightarrow> (Inl e, t')
           | (Inr short, t') \<Rightarrow>
               (Inr \<lparr>tm_id = tid, tm_short_id = short, tm_name = name, tm_created_at = now,
                     tm_updated_at = now, tm_orphaned_at = None\<rparr>, t')))"

definition find_team_by_id :: "uuid \<Rightarrow> (db, team option) op" where
  "find_team_by_id tid = transaction (\<lambda>s. (Inr (List.find (\<lambda>x. tm_id x = tid) (db_teams s)), s))"

definition find_team_by_short_id :: "string \<Rightarrow> (db, team option) op" where
  "find_team_by_short_id short =
     transaction (\<lambda>s. (Inr (List.find (\<lambda>x. tm_short_id x = short) (db_teams s)), s))"

definition list_teams :: "(db, team list) op" where
  "list_teams = transaction (\<lambda>s. (Inr (sort_key tm_name (db_teams s)), s))"

definition team_not_found :: "uuid \<Rightarrow> error" where
  "team_not_found tid = NotFound (''team not found: '' @ tid)"

definition rename_team_body :: "timestamp \<Rightarrow> uuid \<Rightarrow> string \<Rightarrow> (db, nat) op" where
  "rename_team_body now tid name s =
     (if list_ex (\<lambda>x. tm_id x = tid) (db_teams s) \<and>
         list_ex (\<lambda>x. tm_id x \<noteq> tid \<and> tm_name x = name) (db_teams s) then (Inl (team_name_taken name), s)
      else (Inr (length (filter (\<lambda>x. tm_id x = tid) (db_teams s))),
            s\<lparr>db_teams := map (\<lambda>x. if tm_id x = tid then x\<lparr>tm_name := name, tm_updated_at := now\<rparr> else x)
               (db_teams s)\<rparr>))"

definition rename_team :: "timestamp \<Rightarrow> uuid \<Rightarrow> string \<Rightarrow> (db, team) op" where
  "rename_team now tid name s =
     (case transaction (rename_team_body now tid name) s of
        (Inl e, t) \<Rightarrow> (Inl e, t)
      | (Inr rows, t) \<Rightarrow>
          (if rows = 0 then (Inl (team_not_found tid), t)
           else case find_team_by_id tid t of
                  (Inl e, t') \<Rightarrow> (Inl e, t')
                | (Inr None, t') \<Rightarrow> (Inl (team_not_found tid), t')
                | (Inr (Some x), t') \<Rightarrow> (Inr x, t')))"

definition move_projects :: "timestamp \<Rightarrow> uuid \<Rightarrow> uuid \<Rightarrow> db \<Rightarrow> db" where
  "move_projects now from_team target s =
     s\<lparr>db_projects := map (\<lambda>p. if prj_team_id p = from_team then p\<lparr>prj_team_id := target, prj_updated_at := now\<rparr>
         else p) (db_projects s)\<rparr>"

definition delete_team_rows :: "uuid \<Rightarrow> db \<Rightarrow> db" where
  "delete_team_rows tid s =
     s\<lparr>db_teams := filter (\<lambda>x. tm_id x \<noteq> tid) (db_teams s),
       db_members := filter (\<lambda>m. mb_team_id m \<noteq> tid) (db_members s),
       db_default_teams := filter (\<lambda>d. d \<noteq> tid) (db_default_teams s),
       db_invites := filter (\<lambda>i. inv_team_id i \<noteq> tid) (db_invites s)\<rparr>"

definition delete_empty_team :: "uuid \<Rightarrow> (db, unit) op" where
  "delete_empty_team tid s =
     (if list_ex (\<lambda>p. prj_team_id p = tid) (db_projects s) then
        (Inl (Conflict ''team still owns projects; move them to another team first''), s)
      else (Inr (), delete_team_rows tid s))"

definition delete_team_body :: "timestamp \<Rightarrow> uuid \<Rightarrow> uuid option \<Rightarrow> (db, unit) op" where
  "delete_team_body now tid move_projects_to s =
     (case move_projects_to of
        Some target \<Rightarrow>
          (if target \<notin> set (map tm_id (db_teams s)) then (Inl (NotFound ''target team not found''), s)
           else delete_empty_team tid (move_projects now tid target s))
      | None \<Rightarrow> delete_empty_team tid s)"

definition delete_team :: "env \<Rightarrow> timestamp \<Rightarrow> uuid \<Rightarrow> uuid option \<Rightarrow> (db, unit) op" where
  "delete_team env now tid move_projects_to s =
     (if move_projects_to = Some tid then (Inl (Validation ''target team must differ from deleted team''), s)
      else account_write env ''delete team'' (delete_team_body now tid move_projects_to) s)"

definition list_teams_for_user :: "uuid \<Rightarrow> (db, team list) op" where
  "list_teams_for_user uid =
     transaction (\<lambda>s.
       (Inr (sort_key tm_name (filter (\<lambda>x. list_ex (\<lambda>m. mb_team_id m = tm_id x \<and> mb_user_id m = uid)
          (db_members s)) (db_teams s))), s))"

definition is_member :: "uuid \<Rightarrow> uuid \<Rightarrow> (db, bool) op" where
  "is_member tid uid =
     transaction (\<lambda>s. (Inr (list_ex (\<lambda>m. mb_team_id m = tid \<and> mb_user_id m = uid) (db_members s)), s))"

definition set_role_rows :: "uuid \<Rightarrow> uuid \<Rightarrow> (team_role \<Rightarrow> team_role) \<Rightarrow> team_member list \<Rightarrow> team_member list" where
  "set_role_rows tid uid f =
     map (\<lambda>m. if mb_team_id m = tid \<and> mb_user_id m = uid then m\<lparr>mb_role := f (mb_role m)\<rparr> else m)"

text \<open>\<open>INSERT INTO team_members ... ON CONFLICT (team_id, user_id) DO UPDATE SET role = ...\<close>\<close>

definition upsert_member :: "team_member \<Rightarrow> (team_role \<Rightarrow> team_role) \<Rightarrow> (db, unit) op" where
  "upsert_member m on_conflict s =
     (if mb_team_id m \<notin> set (map tm_id (db_teams s)) \<or> mb_user_id m \<notin> set (map usr_id (db_users s)) then
        (Inl foreign_key_failed, s)
      else if list_ex (\<lambda>x. mb_team_id x = mb_team_id m \<and> mb_user_id x = mb_user_id m) (db_members s) then
        (Inr (), s\<lparr>db_members := set_role_rows (mb_team_id m) (mb_user_id m) on_conflict (db_members s)\<rparr>)
      else (Inr (), s\<lparr>db_members := db_members s @ [m]\<rparr>))"

definition add_member_body :: "timestamp \<Rightarrow> uuid \<Rightarrow> uuid \<Rightarrow> team_role \<Rightarrow> (db, team_member) op" where
  "add_member_body now tid uid role s =
     (let m = \<lparr>mb_team_id = tid, mb_user_id = uid, mb_role = role, mb_created_at = now\<rparr> in
      case (if role \<noteq> TeamAdmin then require_another_admin tid uid s else None) of
        Some e \<Rightarrow> (Inl e, s)
      | None \<Rightarrow>
          (case upsert_member m (\<lambda>_. role) s of (Inl e, t) \<Rightarrow> (Inl e, t) | (Inr _, t) \<Rightarrow> (Inr m, t)))"

definition add_member :: "env \<Rightarrow> timestamp \<Rightarrow> uuid \<Rightarrow> uuid \<Rightarrow> team_role \<Rightarrow> (db, team_member) op" where
  "add_member env now tid uid role =
     account_write env ''team add_member'' (add_member_body now tid uid role)"

definition set_member_role_body :: "uuid \<Rightarrow> uuid \<Rightarrow> team_role \<Rightarrow> (db, team_member) op" where
  "set_member_role_body tid uid role s =
     (case (if role \<noteq> TeamAdmin then require_another_admin tid uid s else None) of
        Some e \<Rightarrow> (Inl e, s)
      | None \<Rightarrow>
          (case List.find (\<lambda>m. mb_team_id m = tid \<and> mb_user_id m = uid) (db_members s) of
             None \<Rightarrow> (Inl (NotFound (''team membership not found: team '' @ tid @ '', user '' @ uid)), s)
           | Some m \<Rightarrow> (Inr (m\<lparr>mb_role := role\<rparr>), s\<lparr>db_members := set_role_rows tid uid (\<lambda>_. role) (db_members s)\<rparr>)))"

definition set_member_role :: "env \<Rightarrow> uuid \<Rightarrow> uuid \<Rightarrow> team_role \<Rightarrow> (db, team_member) op" where
  "set_member_role env tid uid role =
     account_write env ''team set_member_role'' (set_member_role_body tid uid role)"

definition remove_member_body :: "uuid \<Rightarrow> uuid \<Rightarrow> (db, unit) op" where
  "remove_member_body tid uid s =
     (case require_another_admin tid uid s of
        Some e \<Rightarrow> (Inl e, s)
      | None \<Rightarrow>
          (Inr (), s\<lparr>db_members := filter (\<lambda>m. \<not> (mb_team_id m = tid \<and> mb_user_id m = uid)) (db_members s)\<rparr>))"

definition remove_member :: "env \<Rightarrow> uuid \<Rightarrow> uuid \<Rightarrow> (db, unit) op" where
  "remove_member env tid uid = account_write env ''team remove_member'' (remove_member_body tid uid)"

definition member_role :: "uuid \<Rightarrow> uuid \<Rightarrow> (db, team_role option) op" where
  "member_role tid uid =
     transaction (\<lambda>s.
       (Inr (map_option mb_role (List.find (\<lambda>m. mb_team_id m = tid \<and> mb_user_id m = uid) (db_members s))), s))"

text \<open>The join of users and memberships, ordered by display name.\<close>

definition team_members :: "uuid \<Rightarrow> (db, (user \<times> team_role) list) op" where
  "team_members tid =
     transaction (\<lambda>s.
       (Inr (sort_key (\<lambda>(u, _). usr_display_name u)
          (concat (map (\<lambda>u. map (\<lambda>m. (u, mb_role m))
             (filter (\<lambda>m. mb_user_id m = usr_id u \<and> mb_team_id m = tid) (db_members s))) (db_users s)))), s))"

section \<open>The invariant\<close>

abbreviation user_ids :: "db \<Rightarrow> uuid list" where "user_ids s \<equiv> map usr_id (db_users s)"
abbreviation team_ids :: "db \<Rightarrow> uuid list" where "team_ids s \<equiv> map tm_id (db_teams s)"
abbreviation member_key :: "team_member \<Rightarrow> uuid \<times> uuid" where
  "member_key m \<equiv> (mb_team_id m, mb_user_id m)"

definition users_ok :: "db \<Rightarrow> bool" where
  "users_ok s \<longleftrightarrow>
     distinct (user_ids s) \<and> distinct (map usr_email (db_users s)) \<and>
     list_all (\<lambda>x. ses_user_id x \<in> set (user_ids s)) (db_sessions s) \<and> distinct (map ses_id (db_sessions s)) \<and>
     list_all (\<lambda>k. pk_user_id k \<in> set (user_ids s)) (db_passkeys s)"

definition teams_ok :: "db \<Rightarrow> bool" where
  "teams_ok s \<longleftrightarrow>
     distinct (team_ids s) \<and> distinct (map tm_name (db_teams s)) \<and> distinct (map tm_short_id (db_teams s)) \<and>
     distinct (db_default_teams s) \<and> set (db_default_teams s) \<subseteq> set (team_ids s) \<and>
     list_all (\<lambda>i. inv_team_id i \<in> set (team_ids s)) (db_invites s) \<and> distinct (map inv_token (db_invites s))"

definition members_ok :: "db \<Rightarrow> bool" where
  "members_ok s \<longleftrightarrow>
     distinct (map member_key (db_members s)) \<and>
     list_all (\<lambda>m. mb_team_id m \<in> set (team_ids s) \<and> mb_user_id m \<in> set (user_ids s)) (db_members s)"

definition world_ok :: "db \<Rightarrow> bool" where
  "world_ok s \<longleftrightarrow> store_ok s \<and> users_ok s \<and> teams_ok s \<and> members_ok s"

definition has_admin :: "uuid \<Rightarrow> db \<Rightarrow> bool" where
  "has_admin tid s \<longleftrightarrow> (\<exists>m \<in> set (db_members s). mb_team_id m = tid \<and> mb_role m = TeamAdmin)"

text \<open>What a step of the account operations may do: it keeps the database consistent, an owner if
  there was one, and an admin of every team that had one and still exists.\<close>

definition safe_change :: "db \<Rightarrow> db \<Rightarrow> bool" where
  "safe_change s t \<longleftrightarrow>
     world_ok t \<and> (owners s \<noteq> [] \<longrightarrow> owners t \<noteq> []) \<and>
     (\<forall>tid. has_admin tid s \<and> tid \<in> set (team_ids t) \<longrightarrow> has_admin tid t)"

lemma safe_refl: "world_ok s \<Longrightarrow> safe_change s s"
  by (simp add: safe_change_def)

lemma tables_accounts:
  "tables s = tables t \<Longrightarrow> world_ok s = world_ok t \<and> owners s = owners t \<and> has_admin tid s = has_admin tid t \<and>
     team_ids s = team_ids t"
  using store_ok_tables [of s t]
  by (simp add: tables_def accounts_def world_ok_def users_ok_def teams_ok_def members_ok_def owners_def
      has_admin_def)

lemma safe_change_tables:
  assumes "tables s0 = tables s" "safe_change s0 t"
  shows "safe_change s t"
  using assms(2) tables_accounts [OF assms(1)] unfolding safe_change_def by metis

lemma transaction_safe:
  assumes "\<And>s v t. world_ok s \<Longrightarrow> body s = (Inr v, t) \<Longrightarrow> safe_change s t" and "world_ok s"
    and "transaction body s = (r, t)"
  shows "safe_change s t"
proof (cases r)
  case (Inl e)
  then have eq: "tables t = tables s" using assms(3) by (auto dest: transaction_error)
  then have "safe_change t t" using assms(2) tables_accounts [OF eq] by (simp add: safe_refl)
  then show ?thesis using eq by (rule safe_change_tables [rotated])
next
  case (Inr v)
  then have "transaction body s = (Inr v, t)" using assms(3) by simp
  then obtain s0 where s0: "tables s0 = tables s" "body s0 = (Inr v, t)" by (rule transaction_ok)
  have "world_ok s0" using assms(2) tables_accounts [OF s0(1)] by simp
  then show ?thesis using assms(1) s0 safe_change_tables by blast
qed

text \<open>Consistency of the projects, issues, events and rules does not depend on users and members.\<close>

lemma store_ok_frame:
  assumes "store_ok s" "db_projects t = db_projects s" "db_issues t = db_issues s" "db_events t = db_events s"
    and "db_mute_rules t = db_mute_rules s" "set (team_ids s) \<subseteq> set (team_ids t)"
  shows "store_ok t"
proof -
  have "db_ok t" using assms(1-4) unfolding store_ok_def db_ok_defs by simp
  moreover have "rules_ok t" using assms(1,2,5) unfolding store_ok_def rules_ok_def by simp
  moreover have "projects_ok t"
    using assms(1,2,6) unfolding store_ok_def projects_ok_def by (auto simp: list_all_iff)
  ultimately show ?thesis by (simp add: store_ok_def)
qed

lemma owners_Nil: "owners s = [] \<longleftrightarrow> (\<forall>u \<in> set (db_users s). usr_instance_role u \<noteq> Owner)"
  by (auto simp: owners_def filter_empty_conv)

section \<open>Users' operations\<close>

lemma create_account_safe:
  assumes ok: "world_ok s" and run: "create_account_body assign uid now n initial s = (Inr v, t)"
  shows "safe_change s t"
proof -
  have t: "t = s\<lparr>db_users := db_users s @ [user_row uid now n],
      db_members := db_members s @ (if assign then default_memberships uid now s else [])\<rparr>"
    and fresh: "uid \<notin> set (user_ids s)" "nu_email n \<notin> set (map usr_email (db_users s))"
    using run unfolding create_account_body_def by (auto split: if_splits)
  have teams: "db_teams t = db_teams s" "db_default_teams t = db_default_teams s" "db_invites t = db_invites s"
    "db_sessions t = db_sessions s" "db_passkeys t = db_passkeys s"
    by (simp_all add: t)
  have users: "db_users t = db_users s @ [user_row uid now n]" by (simp add: t)
  have "store_ok t" using ok unfolding world_ok_def by (intro store_ok_frame [of s t]) (simp_all add: t)
  moreover have "users_ok t"
    using ok fresh unfolding world_ok_def users_ok_def users teams
    by (auto simp: user_row_def list_all_iff)
  moreover have "teams_ok t" using ok unfolding world_ok_def teams_ok_def teams by simp
  moreover have "members_ok t"
  proof -
    have "\<forall>m \<in> set (db_members s). mb_user_id m \<noteq> uid"
      using ok fresh(1) by (auto simp: world_ok_def members_ok_def list_all_iff)
    then show ?thesis
      using ok unfolding world_ok_def members_ok_def teams_ok_def teams users
      by (auto simp: t default_memberships_def list_all_iff user_row_def comp_def distinct_map inj_on_def)
  qed
  moreover have "owners s \<noteq> [] \<longrightarrow> owners t \<noteq> []" by (simp add: owners_def users)
  moreover have "has_admin tid s \<longrightarrow> has_admin tid t" for tid
    by (auto simp: has_admin_def t)
  ultimately show ?thesis by (simp add: safe_change_def world_ok_def)
qed

text \<open>A change of one user's row that keeps its id and address.\<close>

lemma set_user_safe:
  assumes ok: "world_ok s" and f: "\<And>u. usr_id (f u) = usr_id u" "\<And>u. usr_email (f u) = usr_email u"
    and owner: "owners s \<noteq> [] \<Longrightarrow> owners (set_user uid f s) \<noteq> []"
  shows "safe_change s (set_user uid f s)"
proof -
  let ?t = "set_user uid f s"
  have ids: "user_ids ?t = user_ids s" "map usr_email (db_users ?t) = map usr_email (db_users s)"
    using f by (simp_all add: set_user_def comp_def)
  have "store_ok ?t" using ok unfolding world_ok_def by (intro store_ok_frame [of s ?t]) (simp_all add: set_user_def)
  moreover have "users_ok ?t" using ok unfolding world_ok_def users_ok_def ids by (simp add: set_user_def)
  moreover have "teams_ok ?t" using ok unfolding world_ok_def teams_ok_def by (simp add: set_user_def)
  moreover have "members_ok ?t" using ok unfolding world_ok_def members_ok_def ids by (simp add: set_user_def)
  moreover have "has_admin tid s \<longrightarrow> has_admin tid ?t" for tid by (simp add: has_admin_def set_user_def)
  ultimately show ?thesis using owner by (simp add: safe_change_def world_ok_def)
qed

lemma owner_after:
  assumes "u \<in> set (db_users s)" "usr_instance_role (if usr_id u = uid then f u else u) = Owner"
  shows "owners (set_user uid f s) \<noteq> []"
proof -
  have "(if usr_id u = uid then f u else u) \<in> set (db_users (set_user uid f s))"
    using assms(1) by (simp add: set_user_def)
  then show ?thesis unfolding owners_Nil using assms(2) by blast
qed

lemma owners_obtain:
  assumes "owners s \<noteq> []"
  obtains u where "u \<in> set (db_users s)" "usr_instance_role u = Owner"
  using assms by (auto simp: owners_Nil)

lemma set_user_same_roles:
  assumes "\<And>u. usr_instance_role (f u) = usr_instance_role u" "owners s \<noteq> []"
  shows "owners (set_user uid f s) \<noteq> []"
proof -
  obtain u where "u \<in> set (db_users s)" "usr_instance_role u = Owner" using assms(2) by (rule owners_obtain)
  then show ?thesis using assms(1) by (intro owner_after [of u]) simp_all
qed

lemma update_user_safe:
  "world_ok s \<Longrightarrow> update_user_body now uid up s = (Inr v, t) \<Longrightarrow> safe_change s t"
  using set_user_safe [of s "profile_update now up" uid] set_user_same_roles [of "profile_update now up" s uid]
  by (auto simp: update_user_body_def profile_update_def)

text \<open>While a user is not the last owner, another owner is left when it goes.\<close>

lemma not_last_owner:
  assumes "distinct (user_ids s)" "\<not> last_owner uid s" "owners s \<noteq> []"
  obtains u where "u \<in> set (db_users s)" "usr_id u \<noteq> uid" "usr_instance_role u = Owner"
proof (cases "list_ex (\<lambda>u. usr_id u = uid) (owners s)")
  case True
  then have two: "1 < length (owners s)" using assms(2) by (simp add: last_owner_def)
  have "distinct (map usr_id (owners s))" unfolding owners_def using assms(1) by (rule distinct_map_filter)
  then obtain a b where ab: "a \<in> set (owners s)" "b \<in> set (owners s)" "usr_id a \<noteq> usr_id b"
    using two by (cases "owners s"; cases "tl (owners s)") auto
  then show thesis using that by (cases "usr_id a = uid") (auto simp: owners_def)
next
  case False
  moreover obtain u where "u \<in> set (db_users s)" "usr_instance_role u = Owner"
    using assms(3) by (rule owners_obtain)
  ultimately show thesis using that [of u] by (auto simp: owners_def list_ex_iff)
qed

lemma set_instance_role_safe:
  assumes ok: "world_ok s" and run: "set_instance_role_body now uid role s = (Inr v, t)"
  shows "safe_change s t"
proof -
  let ?f = "\<lambda>u. u\<lparr>usr_instance_role := role, usr_updated_at := now\<rparr>"
  have t: "t = set_user uid ?f s" and guard: "role = Owner \<or> \<not> last_owner uid s"
    using run unfolding set_instance_role_body_def by (auto simp: Let_def split: if_splits option.splits)
  have "owners (set_user uid ?f s) \<noteq> []" if some: "owners s \<noteq> []"
  proof (cases "role = Owner")
    case True
    obtain u where "u \<in> set (db_users s)" "usr_instance_role u = Owner" using some by (rule owners_obtain)
    then show ?thesis using True by (intro owner_after [of u]) simp_all
  next
    case False
    then obtain u where "u \<in> set (db_users s)" "usr_id u \<noteq> uid" "usr_instance_role u = Owner"
      using not_last_owner [of s uid] guard some ok by (auto simp: world_ok_def users_ok_def)
    then show ?thesis by (intro owner_after [of u]) simp_all
  qed
  then show ?thesis unfolding t using ok by (intro set_user_safe) simp_all
qed

lemma delete_user_store:
  assumes "store_ok s"
  shows "store_ok (delete_user_rows uid s)"
proof -
  let ?t = "delete_user_rows uid s"
  let ?g = "\<lambda>r. if rule_created_by r = Some uid then r\<lparr>rule_created_by := None\<rparr> else r"
  have rules: "db_mute_rules ?t = map ?g (db_mute_rules s)" by (simp add: delete_user_rows_def)
  have keys: "map rule_id (map ?g rs) = map rule_id rs" for rs by simp
  have "db_ok ?t" using assms unfolding store_ok_def db_ok_defs by (simp add: delete_user_rows_def)
  moreover have "projects_ok ?t" using assms unfolding store_ok_def projects_ok_def by (simp add: delete_user_rows_def)
  moreover have "rules_ok ?t"
    using assms unfolding store_ok_def rules_ok_def rules keys
    by (auto simp: list_all_iff delete_user_rows_def)
  ultimately show ?thesis by (simp add: store_ok_def)
qed

lemma admin_left:
  assumes "m \<in> set (db_members s)" "mb_team_id m = tid" "mb_role m = TeamAdmin" "\<not> sole_admin s m"
  obtains a where "a \<in> set (db_members s)" "mb_team_id a = tid" "mb_role a = TeamAdmin" "mb_user_id a \<noteq> mb_user_id m"
  using assms by (auto simp: sole_admin_def list_ex_iff)

lemma delete_user_safe:
  assumes ok: "world_ok s" and run: "delete_user_body uid s = (Inr v, t)"
  shows "safe_change s t"
proof -
  have t: "t = delete_user_rows uid s" and owner: "\<not> last_owner uid s"
    and admin: "\<And>m. m \<in> set (db_members s) \<Longrightarrow> mb_user_id m = uid \<Longrightarrow> \<not> sole_admin s m"
    using run unfolding delete_user_body_def by (auto simp: list_ex_iff split: if_splits)
  have "store_ok t" unfolding t using ok by (simp add: world_ok_def delete_user_store)
  moreover have "users_ok t"
    using ok unfolding world_ok_def users_ok_def t delete_user_rows_def
    by (auto simp: list_all_iff distinct_map_filter)
  moreover have "teams_ok t"
  proof -
    let ?g = "\<lambda>i. if inv_created_by i = Some uid then i\<lparr>inv_created_by := None\<rparr> else i"
    have inv: "db_invites t = map ?g (db_invites s)" by (simp add: t delete_user_rows_def)
    have tokens: "map inv_token (map ?g xs) = map inv_token xs" for xs by simp
    have "db_teams t = db_teams s" "db_default_teams t = db_default_teams s"
      by (simp_all add: t delete_user_rows_def)
    then show ?thesis
      using ok unfolding world_ok_def teams_ok_def inv tokens by (auto simp: list_all_iff)
  qed
  moreover have "members_ok t"
    using ok unfolding world_ok_def members_ok_def t delete_user_rows_def
    by (auto simp: list_all_iff distinct_map_filter)
  moreover have "owners t \<noteq> []" if some: "owners s \<noteq> []"
  proof -
    obtain u where "u \<in> set (db_users s)" "usr_id u \<noteq> uid" "usr_instance_role u = Owner"
      using not_last_owner [of s uid] owner some ok by (auto simp: world_ok_def users_ok_def)
    then show ?thesis unfolding owners_Nil t delete_user_rows_def by auto
  qed
  moreover have "has_admin tid t" if had: "has_admin tid s" for tid
  proof -
    obtain m where m: "m \<in> set (db_members s)" "mb_team_id m = tid" "mb_role m = TeamAdmin"
      using had by (auto simp: has_admin_def)
    obtain a where "a \<in> set (db_members s)" "mb_team_id a = tid" "mb_role a = TeamAdmin" "mb_user_id a \<noteq> uid"
    proof (cases "mb_user_id m = uid")
      case True
      then have "\<not> sole_admin s m" using admin m(1) by blast
      with m show thesis using that True by (metis admin_left)
    next
      case False
      then show thesis using that [of m] m by blast
    qed
    then show ?thesis by (auto simp: has_admin_def t delete_user_rows_def)
  qed
  ultimately show ?thesis by (simp add: safe_change_def world_ok_def)
qed

lemma convert_to_sso_safe:
  assumes ok: "world_ok s" and run: "convert_to_sso_body uid s = (Inr v, t)"
  shows "safe_change s t"
proof -
  let ?f = "\<lambda>u. u\<lparr>usr_auth_provider := Oidc, usr_password_hash := []\<rparr>"
  have t: "t = (set_user uid ?f s)
      \<lparr>db_sessions := filter (\<lambda>x. ses_user_id x \<noteq> uid) (db_sessions s),
       db_passkeys := filter (\<lambda>k. pk_user_id k \<noteq> uid) (db_passkeys s)\<rparr>"
    using run unfolding convert_to_sso_body_def by (auto split: option.splits if_splits)
  have set_safe: "safe_change s (set_user uid ?f s)"
    using ok set_user_same_roles [of ?f s uid] by (intro set_user_safe) simp_all
  then have "world_ok (set_user uid ?f s)" by (simp add: safe_change_def)
  then have w: "store_ok (set_user uid ?f s)" "users_ok (set_user uid ?f s)" "teams_ok (set_user uid ?f s)"
    "members_ok (set_user uid ?f s)" by (simp_all add: world_ok_def)
  have "store_ok t" by (rule store_ok_frame [OF w(1)]) (simp_all add: t)
  moreover have "users_ok t"
    using w(2) unfolding users_ok_def t by (auto simp: list_all_iff distinct_map_filter set_user_def)
  moreover have "teams_ok t" using w(3) unfolding teams_ok_def t by simp
  moreover have "members_ok t" using w(4) unfolding members_ok_def t by simp
  moreover have "owners t = owners (set_user uid ?f s)" by (simp add: owners_def t)
  moreover have "has_admin tid t = has_admin tid (set_user uid ?f s)" "team_ids t = team_ids (set_user uid ?f s)" for tid
    by (simp_all add: has_admin_def t)
  ultimately show ?thesis using set_safe by (simp add: safe_change_def world_ok_def)
qed

section \<open>Teams' operations\<close>

lemma create_team_safe:
  assumes ok: "world_ok s" and run: "create_team_body tid short now name s = (Inr v, t)"
  shows "safe_change s t"
proof -
  obtain x where t: "t = s\<lparr>db_teams := db_teams s @ [x]\<rparr>"
    and x: "tm_id x \<notin> set (team_ids s)" "tm_name x \<notin> set (map tm_name (db_teams s))"
      "tm_short_id x \<notin> set (map tm_short_id (db_teams s))"
    using run unfolding create_team_body_def by (fastforce split: if_splits)
  have "store_ok t" using ok unfolding world_ok_def by (intro store_ok_frame [of s t]) (auto simp: t)
  moreover have "users_ok t" using ok unfolding world_ok_def users_ok_def by (simp add: t)
  moreover have "teams_ok t" using ok x unfolding world_ok_def teams_ok_def t by (auto simp: list_all_iff)
  moreover have "members_ok t" using ok unfolding world_ok_def members_ok_def t by (auto simp: list_all_iff)
  moreover have "owners t = owners s" "has_admin tid' t = has_admin tid' s" for tid'
    by (simp_all add: owners_def has_admin_def t)
  ultimately show ?thesis by (simp add: safe_change_def world_ok_def)
qed

lemma rename_team_safe:
  assumes ok: "world_ok s" and run: "rename_team_body now tid name s = (Inr v, t)"
  shows "safe_change s t"
proof -
  let ?f = "\<lambda>x. if tm_id x = tid then x\<lparr>tm_name := name, tm_updated_at := now\<rparr> else x"
  have t: "t = s\<lparr>db_teams := map ?f (db_teams s)\<rparr>"
    and free: "\<And>x. x \<in> set (db_teams s) \<Longrightarrow> tm_id x \<noteq> tid \<Longrightarrow>
        (\<exists>y \<in> set (db_teams s). tm_id y = tid) \<Longrightarrow> tm_name x \<noteq> name"
    using run unfolding rename_team_body_def by (auto simp: list_ex_iff split: if_splits)
  have ids: "team_ids t = team_ids s" "map tm_short_id (db_teams t) = map tm_short_id (db_teams s)"
    by (simp_all add: t)
  have teams: "teams_ok s" and names: "distinct (map tm_name (db_teams s))" "distinct (team_ids s)"
    using ok by (simp_all add: world_ok_def teams_ok_def)
  have "distinct (map tm_name (map ?f (db_teams s)))"
  proof (cases "\<exists>y \<in> set (db_teams s). tm_id y = tid")
    case True
    then have "distinct (map (\<lambda>x. if tm_id x = tid then name else tm_name x) (db_teams s))"
      using names free by (intro distinct_map_replace) auto
    moreover have "map tm_name (map ?f (db_teams s)) = map (\<lambda>x. if tm_id x = tid then name else tm_name x) (db_teams s)"
      by simp
    ultimately show ?thesis by (simp only:)
  next
    case False
    then have "map ?f (db_teams s) = db_teams s" by (intro map_idI) auto
    then show ?thesis using names(1) by simp
  qed
  then have "teams_ok t" using teams unfolding teams_ok_def ids by (simp add: t)
  moreover have "store_ok t" using ok ids unfolding world_ok_def by (intro store_ok_frame [of s t]) (auto simp: t)
  moreover have "users_ok t" using ok unfolding world_ok_def users_ok_def by (simp add: t)
  moreover have "members_ok t" using ok unfolding world_ok_def members_ok_def ids by (simp add: t)
  moreover have "owners t = owners s" "has_admin tid' t = has_admin tid' s" for tid'
    by (simp_all add: owners_def has_admin_def t)
  ultimately show ?thesis by (simp add: safe_change_def world_ok_def)
qed

lemma delete_team_rows_safe:
  assumes ok: "world_ok s" and empty: "\<And>p. p \<in> set (db_projects s) \<Longrightarrow> prj_team_id p \<noteq> tid"
  shows "safe_change s (delete_team_rows tid s)"
proof -
  let ?t = "delete_team_rows tid s"
  have store: "store_ok s" using ok by (simp add: world_ok_def)
  have "db_ok ?t" using store unfolding store_ok_def db_ok_defs by (simp add: delete_team_rows_def)
  moreover have "rules_ok ?t" using store unfolding store_ok_def rules_ok_def by (simp add: delete_team_rows_def)
  moreover have "projects_ok ?t"
    using store empty unfolding store_ok_def projects_ok_def by (auto simp: delete_team_rows_def list_all_iff)
  moreover have "users_ok ?t" using ok unfolding world_ok_def users_ok_def by (simp add: delete_team_rows_def)
  moreover have "teams_ok ?t"
    using ok unfolding world_ok_def teams_ok_def delete_team_rows_def
    by (auto simp: list_all_iff distinct_map_filter)
  moreover have "members_ok ?t"
    using ok unfolding world_ok_def members_ok_def delete_team_rows_def
    by (auto simp: list_all_iff distinct_map_filter)
  moreover have "owners ?t = owners s" by (simp add: owners_def delete_team_rows_def)
  moreover have "has_admin d ?t" if "has_admin d s" "d \<in> set (team_ids ?t)" for d
    using that by (auto simp: has_admin_def delete_team_rows_def)
  ultimately show ?thesis by (simp add: safe_change_def world_ok_def store_ok_def)
qed

lemma move_projects_ok:
  assumes ok: "world_ok s" and target: "target \<in> set (team_ids s)"
  shows "world_ok (move_projects now tid target s)"
proof -
  let ?t = "move_projects now tid target s"
  let ?f = "\<lambda>p. if prj_team_id p = tid then p\<lparr>prj_team_id := target, prj_updated_at := now\<rparr> else p"
  have store: "store_ok s" using ok by (simp add: world_ok_def)
  have proj: "db_projects ?t = map ?f (db_projects s)" by (simp add: move_projects_def)
  have keys: "map prj_id (map ?f ps) = map prj_id ps" "map prj_short_id (map ?f ps) = map prj_short_id ps"
    "map prj_slug (map ?f ps) = map prj_slug ps" "map prj_dsn_public_key (map ?f ps) = map prj_dsn_public_key ps" for ps
    by simp_all
  have "db_ok ?t" using store unfolding store_ok_def db_ok_defs proj keys by (simp add: move_projects_def)
  moreover have "rules_ok ?t"
    using store unfolding store_ok_def rules_ok_def proj keys by (simp add: move_projects_def)
  moreover have "projects_ok ?t"
    using store target unfolding store_ok_def projects_ok_def proj keys
    by (auto simp: list_all_iff move_projects_def)
  moreover have "users_ok ?t" "teams_ok ?t" "members_ok ?t"
    using ok unfolding world_ok_def users_ok_def teams_ok_def members_ok_def by (simp_all add: move_projects_def)
  ultimately show ?thesis by (simp add: world_ok_def store_ok_def)
qed

lemma delete_empty_team_safe:
  "world_ok s \<Longrightarrow> delete_empty_team tid s = (Inr v, t) \<Longrightarrow> safe_change s t"
  using delete_team_rows_safe by (auto simp: delete_empty_team_def list_ex_iff split: if_splits)

lemma delete_team_safe:
  assumes ok: "world_ok s" and run: "delete_team_body now tid to s = (Inr v, t)"
  shows "safe_change s t"
proof (cases to)
  case None
  then show ?thesis using ok run delete_empty_team_safe by (simp add: delete_team_body_def)
next
  case (Some target)
  let ?m = "move_projects now tid target s"
  have target: "target \<in> set (team_ids s)" and run': "delete_empty_team tid ?m = (Inr v, t)"
    using run Some by (auto simp: delete_team_body_def split: if_splits)
  have "safe_change ?m t" using move_projects_ok [OF ok target] run' by (rule delete_empty_team_safe)
  moreover have "owners ?m = owners s" "has_admin d ?m = has_admin d s" for d
    by (simp_all add: owners_def has_admin_def move_projects_def)
  ultimately show ?thesis by (simp add: safe_change_def)
qed

text \<open>A change of the memberships alone.\<close>

lemma members_safe:
  assumes ok: "world_ok s" and "distinct (map member_key ms)"
    and "\<And>m. m \<in> set ms \<Longrightarrow> mb_team_id m \<in> set (team_ids s) \<and> mb_user_id m \<in> set (user_ids s)"
    and "\<And>tid. has_admin tid s \<Longrightarrow> \<exists>m \<in> set ms. mb_team_id m = tid \<and> mb_role m = TeamAdmin"
  shows "safe_change s (s\<lparr>db_members := ms\<rparr>)"
proof -
  let ?t = "s\<lparr>db_members := ms\<rparr>"
  have "store_ok ?t" using ok unfolding world_ok_def by (intro store_ok_frame [of s ?t]) simp_all
  moreover have "users_ok ?t" "teams_ok ?t"
    using ok unfolding world_ok_def users_ok_def teams_ok_def by simp_all
  moreover have "members_ok ?t" using assms(2,3) by (simp add: members_ok_def list_all_iff)
  moreover have "owners ?t = owners s" by (simp add: owners_def)
  moreover have "has_admin tid ?t" if "has_admin tid s" for tid
    using assms(4) [OF that] by (simp add: has_admin_def)
  ultimately show ?thesis by (simp add: safe_change_def world_ok_def)
qed

lemma set_role_rows_keys: "map member_key (set_role_rows tid uid f ms) = map member_key ms"
  by (simp add: set_role_rows_def)

lemma set_role_rows_admin:
  assumes "m \<in> set ms" "mb_role (if mb_team_id m = tid \<and> mb_user_id m = uid then m\<lparr>mb_role := f (mb_role m)\<rparr> else m) = TeamAdmin"
  shows "\<exists>x \<in> set (set_role_rows tid uid f ms). mb_team_id x = mb_team_id m \<and> mb_role x = TeamAdmin"
proof -
  let ?m = "if mb_team_id m = tid \<and> mb_user_id m = uid then m\<lparr>mb_role := f (mb_role m)\<rparr> else m"
  have "?m \<in> set (set_role_rows tid uid f ms)" using assms(1) by (simp add: set_role_rows_def)
  moreover have "mb_team_id ?m = mb_team_id m" by simp
  ultimately show ?thesis using assms(2) by blast
qed

text \<open>Setting a role is safe when it promotes, keeps admins, or the guard has passed.\<close>

lemma set_role_safe:
  assumes ok: "world_ok s"
    and guard: "(\<forall>r. f r = TeamAdmin \<or> r = TeamContributor) \<or> require_another_admin tid uid s = None"
  shows "safe_change s (s\<lparr>db_members := set_role_rows tid uid f (db_members s)\<rparr>)"
proof (rule members_safe [OF ok])
  show "distinct (map member_key (set_role_rows tid uid f (db_members s)))"
    unfolding set_role_rows_keys using ok by (simp add: world_ok_def members_ok_def)
  show "mb_team_id m \<in> set (team_ids s) \<and> mb_user_id m \<in> set (user_ids s)"
    if "m \<in> set (set_role_rows tid uid f (db_members s))" for m
    using that ok by (auto simp: set_role_rows_def world_ok_def members_ok_def list_all_iff)
  fix d assume "has_admin d s"
  then obtain m where m: "m \<in> set (db_members s)" "mb_team_id m = d" "mb_role m = TeamAdmin"
    by (auto simp: has_admin_def)
  obtain a where a: "a \<in> set (db_members s)" "mb_team_id a = d"
    "mb_role (if mb_team_id a = tid \<and> mb_user_id a = uid then a\<lparr>mb_role := f (mb_role a)\<rparr> else a) = TeamAdmin"
  proof (cases "f TeamAdmin = TeamAdmin \<or> \<not> (mb_team_id m = tid \<and> mb_user_id m = uid)")
    case True
    then show thesis using that [of m] m by auto
  next
    case False
    then have "require_another_admin tid uid s = None" using guard by auto
    then have "\<not> sole_admin s m" using m False by (auto simp: require_another_admin_def list_ex_iff split: if_splits)
    with m obtain a where "a \<in> set (db_members s)" "mb_team_id a = d" "mb_role a = TeamAdmin"
      "mb_user_id a \<noteq> mb_user_id m" by (rule admin_left)
    then show thesis using that [of a] False by auto
  qed
  then show "\<exists>x \<in> set (set_role_rows tid uid f (db_members s)). mb_team_id x = d \<and> mb_role x = TeamAdmin"
    using set_role_rows_admin by blast
qed

lemma upsert_member_safe:
  assumes ok: "world_ok s" and run: "upsert_member m f s = (Inr v, t)"
    and guard: "(\<forall>r. f r = TeamAdmin \<or> r = TeamContributor) \<or>
      require_another_admin (mb_team_id m) (mb_user_id m) s = None"
  shows "safe_change s t"
proof (cases "list_ex (\<lambda>x. mb_team_id x = mb_team_id m \<and> mb_user_id x = mb_user_id m) (db_members s)")
  case True
  then have "t = s\<lparr>db_members := set_role_rows (mb_team_id m) (mb_user_id m) f (db_members s)\<rparr>"
    using run by (auto simp: upsert_member_def split: if_splits)
  then show ?thesis using set_role_safe [OF ok guard] by simp
next
  case False
  then have t: "t = s\<lparr>db_members := db_members s @ [m]\<rparr>"
    and fk: "mb_team_id m \<in> set (team_ids s)" "mb_user_id m \<in> set (user_ids s)"
    using run by (auto simp: upsert_member_def split: if_splits)
  have key: "member_key m \<notin> set (map member_key (db_members s))"
    using False by (auto simp: list_ex_iff)
  show ?thesis
    unfolding t
  proof (rule members_safe [OF ok])
    show "distinct (map member_key (db_members s @ [m]))"
      using key ok by (simp add: world_ok_def members_ok_def)
  qed (use ok fk in \<open>auto simp: world_ok_def members_ok_def list_all_iff has_admin_def\<close>)
qed

lemma add_member_safe:
  assumes "world_ok s" "add_member_body now tid uid role s = (Inr v, t)"
  shows "safe_change s t"
proof -
  let ?m = "\<lparr>mb_team_id = tid, mb_user_id = uid, mb_role = role, mb_created_at = now\<rparr>"
  have "role = TeamAdmin \<or> require_another_admin tid uid s = None"
    "upsert_member ?m (\<lambda>_. role) s = (Inr (), t)"
    using assms(2) by (auto simp: add_member_body_def Let_def split: option.splits if_splits prod.splits sum.splits)
  then show ?thesis using assms(1) by (intro upsert_member_safe [of s ?m "\<lambda>_. role"]) auto
qed

lemma set_member_role_safe:
  assumes "world_ok s" "set_member_role_body tid uid role s = (Inr v, t)"
  shows "safe_change s t"
proof -
  have "role = TeamAdmin \<or> require_another_admin tid uid s = None"
    "t = s\<lparr>db_members := set_role_rows tid uid (\<lambda>_. role) (db_members s)\<rparr>"
    using assms(2) by (auto simp: set_member_role_body_def split: option.splits if_splits)
  then show ?thesis using set_role_safe [OF assms(1), of "\<lambda>_. role" tid uid] by auto
qed

lemma remove_member_safe:
  assumes ok: "world_ok s" and run: "remove_member_body tid uid s = (Inr v, t)"
  shows "safe_change s t"
proof -
  have guard: "require_another_admin tid uid s = None"
    and t: "t = s\<lparr>db_members := filter (\<lambda>m. \<not> (mb_team_id m = tid \<and> mb_user_id m = uid)) (db_members s)\<rparr>"
    using run by (auto simp: remove_member_body_def split: option.splits)
  show ?thesis
    unfolding t
  proof (rule members_safe [OF ok])
    show "distinct (map member_key (filter (\<lambda>m. \<not> (mb_team_id m = tid \<and> mb_user_id m = uid)) (db_members s)))"
      using ok by (simp add: world_ok_def members_ok_def distinct_map_filter)
    show "mb_team_id m \<in> set (team_ids s) \<and> mb_user_id m \<in> set (user_ids s)"
      if "m \<in> set (filter (\<lambda>m. \<not> (mb_team_id m = tid \<and> mb_user_id m = uid)) (db_members s))" for m
      using that ok by (auto simp: world_ok_def members_ok_def list_all_iff)
    fix d assume "has_admin d s"
    then obtain m where m: "m \<in> set (db_members s)" "mb_team_id m = d" "mb_role m = TeamAdmin"
      by (auto simp: has_admin_def)
    show "\<exists>x \<in> set (filter (\<lambda>m. \<not> (mb_team_id m = tid \<and> mb_user_id m = uid)) (db_members s)).
        mb_team_id x = d \<and> mb_role x = TeamAdmin"
    proof (cases "mb_team_id m = tid \<and> mb_user_id m = uid")
      case True
      then have "\<not> sole_admin s m" using guard m by (auto simp: require_another_admin_def list_ex_iff split: if_splits)
      with m obtain a where "a \<in> set (db_members s)" "mb_team_id a = d" "mb_role a = TeamAdmin"
        "mb_user_id a \<noteq> mb_user_id m" by (rule admin_left)
      then show ?thesis using True by auto
    next
      case False
      then show ?thesis using m by auto
    qed
  qed
qed

section \<open>Sequences of operations\<close>

text \<open>One attempt of one operation. The retries of an operation and the operations of other
  connections between them are sequences of attempts.\<close>

inductive account_step :: "db \<Rightarrow> db \<Rightarrow> bool" where
  create: "transaction (create_account_body assign uid now n initial) s = (r, t) \<Longrightarrow> account_step s t"
| profile: "transaction (update_user_body now uid up) s = (r, t) \<Longrightarrow> account_step s t"
| role: "transaction (set_instance_role_body now uid inst) s = (r, t) \<Longrightarrow> account_step s t"
| delete: "transaction (delete_user_body uid) s = (r, t) \<Longrightarrow> account_step s t"
| sso: "transaction (convert_to_sso_body uid) s = (r, t) \<Longrightarrow> account_step s t"
| new_team: "transaction (create_team_body tid short now name) s = (r, t) \<Longrightarrow> account_step s t"
| rename: "transaction (rename_team_body now tid name) s = (r, t) \<Longrightarrow> account_step s t"
| drop_team: "transaction (delete_team_body now tid to) s = (r, t) \<Longrightarrow> account_step s t"
| add: "transaction (add_member_body now tid uid team_r) s = (r, t) \<Longrightarrow> account_step s t"
| set_role: "transaction (set_member_role_body tid uid team_r) s = (r, t) \<Longrightarrow> account_step s t"
| remove: "transaction (remove_member_body tid uid) s = (r, t) \<Longrightarrow> account_step s t"

lemmas bodies_safe = create_account_safe update_user_safe set_instance_role_safe delete_user_safe
  convert_to_sso_safe create_team_safe rename_team_safe delete_team_safe add_member_safe
  set_member_role_safe remove_member_safe

lemma account_step_safe: "account_step s t \<Longrightarrow> world_ok s \<Longrightarrow> safe_change s t"
  by (induction rule: account_step.induct)
    (erule (1) transaction_safe [rotated], erule (1) bodies_safe)+

lemma account_steps_ok: "account_step\<^sup>*\<^sup>* s t \<Longrightarrow> world_ok s \<Longrightarrow> world_ok t"
  by (induction rule: rtranclp_induct) (auto dest: account_step_safe simp: safe_change_def)

lemma account_steps_owner:
  "account_step\<^sup>*\<^sup>* s t \<Longrightarrow> world_ok s \<Longrightarrow> owners s \<noteq> [] \<Longrightarrow> owners t \<noteq> []"
proof (induction rule: rtranclp_induct)
  case (step t t')
  then show ?case using account_steps_ok account_step_safe by (auto simp: safe_change_def)
qed

lemma initial_owner_refused:
  assumes "world_ok t" "owners t \<noteq> []" "\<forall>k x. account_step\<^sup>*\<^sup>* x (env k x)"
  shows "create_initial_owner env assign now n t \<noteq> (Inr u, t')"
proof
  assume run: "create_initial_owner env assign now n t = (Inr u, t')"
  let ?uid = "rng_uuid t (rng_pos t)" and ?t = "t\<lparr>rng_pos := Suc (rng_pos t)\<rparr>"
  let ?op = "transaction (create_account_body assign ?uid now n True)"
  let ?I = "\<lambda>x. world_ok x \<and> owners x \<noteq> []"
  have "tables ?t = tables t" by simp
  then have I: "?I ?t" using assms(1,2) tables_accounts [of ?t t] by simp
  obtain v where "retry_from env default_write_policy ''create user with default teams'' ?op 0 ?t = (Inr v, t')"
    using run unfolding create_initial_owner_def create_account_def retry_write_def
    by (auto simp: Let_def split: if_splits prod.splits sum.splits)
  then have "\<exists>x. ?I x \<and> ?op x = (Inr v, t')"
  proof (rule retry_from_last [where I = ?I, rotated 3])
    show "?I y" if "?I x" "?op x = (Inl e, y)" for x e y
      using that account_step_safe [OF account_step.create [OF that(2)]] by (simp add: safe_change_def)
    show "?I (env k x)" if "?I x" for k x
      using that assms(3) account_steps_ok [of x] account_steps_owner [of x] by blast
  qed (rule I)
  then obtain x x0 where "owners x \<noteq> []" "tables x0 = tables x"
    "create_account_body assign ?uid now n True x0 = (Inr v, t')" by (auto elim!: transaction_ok)
  then show False using tables_accounts [of x0 x] by (simp add: create_account_body_def)
qed

text \<open>C34. An instance never loses its last owner, and setup can never be run again: whatever sequence of
  account operations follows, once there is an owner there is one, and creating an initial owner never
  succeeds, with any account operations of other connections between its retries.\<close>

theorem owner_forever:
  assumes "account_step\<^sup>*\<^sup>* s t" "world_ok s" "owners s \<noteq> []" "\<forall>k x. account_step\<^sup>*\<^sup>* x (env k x)"
  shows "owners t \<noteq> [] \<and> create_initial_owner env assign now n t \<noteq> (Inr u, t')"
  using account_steps_owner [OF assms(1-3)] account_steps_ok [OF assms(1,2)] initial_owner_refused [OF _ _ assms(4)]
  by blast

text \<open>A step of the account operations leaves no team without an admin: a team that had one and was
  not deleted has one, and the database stays consistent.\<close>

theorem admin_kept:
  assumes "account_step s t" "world_ok s" "has_admin tid s" "tid \<in> set (team_ids t)"
  shows "has_admin tid t \<and> world_ok t"
  using account_step_safe [OF assms(1,2)] assms(3,4) by (simp add: safe_change_def)

text \<open>What a body leaves alone, its transaction leaves alone.\<close>

lemma transaction_frame:
  assumes "\<And>x. g (snd (body x)) = g x" "\<And>x fs. g (x\<lparr>faults := fs\<rparr>) = g x" "\<And>x n. g (x\<lparr>rng_pos := n\<rparr>) = g x"
  shows "g (snd (transaction body s)) = g s"
proof -
  obtain r t where rt: "transaction body s = (r, t)" by fastforce
  then have "g t = g s"
  proof (cases rule: transaction_cases)
    case (2 v)
    then show ?thesis using assms(1) [of "s\<lparr>faults := tl (faults s)\<rparr>"] assms(2) by simp
  qed (simp_all add: assms(2,3))
  then show ?thesis using rt by simp
qed

definition example_user :: user where
  "example_user = user_row ''u'' 0 \<lparr>nu_email = ''a@b'', nu_display_name = ''Ann'', nu_password_hash = [],
     nu_instance_role = Owner, nu_auth_provider = Local, nu_status = Active\<rparr>"

definition example_world :: db where
  "example_world = example_db\<lparr>
     db_teams := [\<lparr>tm_id = ''t'', tm_short_id = [], tm_name = ''T'', tm_created_at = 0,
       tm_updated_at = 0, tm_orphaned_at = None\<rparr>],
     db_users := [example_user],
     db_members := [\<lparr>mb_team_id = ''t'', mb_user_id = ''u'', mb_role = TeamAdmin, mb_created_at = 0\<rparr>]\<rparr>"

lemma example_world_ok [simp]: "world_ok example_world" "owners example_world \<noteq> []" "has_admin ''t'' example_world"
proof -
  have "store_ok example_world"
    by (rule store_ok_frame [OF example_store_ok]) (simp_all add: example_world_def)
  moreover have "users_ok example_world" "teams_ok example_world" "members_ok example_world"
    by (simp_all add: users_ok_def teams_ok_def members_ok_def example_world_def example_user_def user_row_def)
      (simp_all add: example_db_def)
  ultimately show "world_ok example_world" by (simp add: world_ok_def)
  show "owners example_world \<noteq> []" "has_admin ''t'' example_world"
    by (simp_all add: owners_def has_admin_def example_world_def example_user_def user_row_def)
qed

theorem owner_forever_witness:
  "owners (snd (transaction (delete_user_body ''u'') example_world)) \<noteq> []"
proof -
  have "account_step\<^sup>*\<^sup>* example_world (snd (transaction (delete_user_body ''u'') example_world))"
    by (intro r_into_rtranclp account_step.delete) (rule surjective_pairing)
  then show ?thesis using owner_forever [of example_world _ "\<lambda>_ s. s" False 0] by simp
qed

theorem admin_kept_witness:
  "has_admin ''t'' (snd (transaction (remove_member_body ''t'' ''u'') example_world))"
proof -
  let ?t = "snd (transaction (remove_member_body ''t'' ''u'') example_world)"
  have step: "account_step example_world ?t" by (intro account_step.remove) (rule surjective_pairing)
  have "team_ids (snd (remove_member_body a b s)) = team_ids s" for a b s
    by (simp add: remove_member_body_def split: option.split)
  then have "team_ids (snd (transaction (remove_member_body a b) s)) = team_ids s" for a b s
    by (rule transaction_frame) simp_all
  then have "team_ids ?t = team_ids example_world" .
  then have "''t'' \<in> set (team_ids ?t)" by (simp add: example_world_def)
  with step show ?thesis using admin_kept by simp
qed

end
