(* ===== verification/Access.thy ===== *)
theory Access
  imports AccountStore Enrich Chrono
begin

text \<open>
  Sessions, invites and passkeys in the database (\<open>src/adapters/sqlite/session.rs\<close>,
  \<open>invite.rs\<close>, \<open>passkey.rs\<close>) and the authentication that rests on them: signed tokens
  (\<open>src/auth/signing.rs\<close>), the session cookie (\<open>src/auth/session.rs\<close>), the extractors
  (\<open>src/auth/extractor.rs\<close>), invites (\<open>src/auth/invite_token.rs\<close>) and the same-origin check
  (\<open>src/auth/csrf.rs\<close>), with the owner grants of \<open>src/config.rs\<close>.

  HMAC-SHA256 and base64 are arguments (\<open>crypto\<close>); what the code relies on is \<open>crypto_ok\<close>.
  The random session ids come from the sequence of random strings of the database record.
\<close>

section \<open>Session rows\<close>

definition create_session :: "timestamp \<Rightarrow> string \<Rightarrow> uuid \<Rightarrow> timestamp \<Rightarrow> (db, session) op" where
  "create_session now sid uid expires_at =
     transaction (\<lambda>s.
       let x = \<lparr>ses_id = sid, ses_user_id = uid, ses_created_at = now, ses_expires_at = expires_at\<rparr> in
       if sid \<in> set (map ses_id (db_sessions s)) then
         (Inl (Db (Database (DriverError (Some ''1555'') ''UNIQUE constraint failed: sessions.id''))), s)
       else if uid \<notin> set (user_ids s) then (Inl foreign_key_failed, s)
       else (Inr x, s\<lparr>db_sessions := db_sessions s @ [x]\<rparr>))"

definition find_session :: "timestamp \<Rightarrow> string \<Rightarrow> (db, session option) op" where
  "find_session now sid =
     transaction (\<lambda>s. (Inr (List.find (\<lambda>x. ses_id x = sid \<and> now < ses_expires_at x) (db_sessions s)), s))"

definition delete_session :: "string \<Rightarrow> (db, unit) op" where
  "delete_session sid =
     transaction (\<lambda>s. (Inr (), s\<lparr>db_sessions := filter (\<lambda>x. ses_id x \<noteq> sid) (db_sessions s)\<rparr>))"

definition delete_sessions_for_user :: "uuid \<Rightarrow> (db, unit) op" where
  "delete_sessions_for_user uid =
     transaction (\<lambda>s. (Inr (), s\<lparr>db_sessions := filter (\<lambda>x. ses_user_id x \<noteq> uid) (db_sessions s)\<rparr>))"

definition delete_expired_sessions :: "timestamp \<Rightarrow> (db, nat) op" where
  "delete_expired_sessions now =
     transaction (\<lambda>s.
       (Inr (length (filter (\<lambda>x. ses_expires_at x \<le> now) (db_sessions s))),
        s\<lparr>db_sessions := filter (\<lambda>x. now < ses_expires_at x) (db_sessions s)\<rparr>))"

section \<open>Invite rows\<close>

record new_invite =
  ni_token :: string
  ni_team_id :: uuid
  ni_role :: team_role
  ni_email :: "string option"
  ni_created_by :: "uuid option"
  ni_expires_at :: timestamp

definition create_invite :: "timestamp \<Rightarrow> new_invite \<Rightarrow> (db, invite) op" where
  "create_invite now n =
     transaction (\<lambda>s.
       let i = \<lparr>inv_token = ni_token n, inv_team_id = ni_team_id n, inv_role = ni_role n, inv_email = ni_email n,
                inv_created_by = ni_created_by n, inv_created_at = now, inv_expires_at = ni_expires_at n,
                inv_accepted_at = None\<rparr> in
       if ni_token n \<in> set (map inv_token (db_invites s)) then
         (Inl (Db (Database (DriverError (Some ''1555'') ''UNIQUE constraint failed: invites.token''))), s)
       else if ni_team_id n \<notin> set (team_ids s) \<or>
               (case ni_created_by n of Some u \<Rightarrow> u \<notin> set (user_ids s) | None \<Rightarrow> False) then
         (Inl foreign_key_failed, s)
       else (Inr i, s\<lparr>db_invites := db_invites s @ [i]\<rparr>))"

definition find_invite_by_token :: "string \<Rightarrow> (db, invite option) op" where
  "find_invite_by_token token =
     transaction (\<lambda>s. (Inr (List.find (\<lambda>i. inv_token i = token) (db_invites s)), s))"

definition list_invites_for_team :: "uuid \<Rightarrow> (db, invite list) op" where
  "list_invites_for_team tid =
     transaction (\<lambda>s. (Inr (sort_key inv_created_at (filter (\<lambda>i. inv_team_id i = tid) (db_invites s))), s))"

definition mark_accepted :: "string \<Rightarrow> timestamp \<Rightarrow> (db, unit) op" where
  "mark_accepted token accepted_at =
     transaction (\<lambda>s. (Inr (), s\<lparr>db_invites :=
       map (\<lambda>i. if inv_token i = token then i\<lparr>inv_accepted_at := Some accepted_at\<rparr> else i) (db_invites s)\<rparr>))"

definition delete_invite :: "string \<Rightarrow> (db, unit) op" where
  "delete_invite token =
     transaction (\<lambda>s. (Inr (), s\<lparr>db_invites := filter (\<lambda>i. inv_token i \<noteq> token) (db_invites s)\<rparr>))"

text \<open>The guard of the \<open>UPDATE invites ... RETURNING\<close>.\<close>

definition usable :: "timestamp \<Rightarrow> string \<Rightarrow> invite \<Rightarrow> bool" where
  "usable now token i \<longleftrightarrow> inv_token i = token \<and> inv_accepted_at i = None \<and> now < inv_expires_at i"

definition accept_body :: "string \<Rightarrow> uuid \<Rightarrow> timestamp \<Rightarrow> (db, unit) op" where
  "accept_body token uid now s =
     (case List.find (usable now token) (db_invites s) of
        None \<Rightarrow> (Inl (Auth ''invite expired or already used''), s)
      | Some i \<Rightarrow>
          (let s1 = s\<lparr>db_invites := map (\<lambda>i. if usable now token i then i\<lparr>inv_accepted_at := Some now\<rparr> else i)
                        (db_invites s)\<rparr>
           in case List.find (\<lambda>u. usr_id u = uid) (db_users s) of
                None \<Rightarrow> (Inl (Auth ''user no longer exists''), s1)
              | Some u \<Rightarrow>
                  (if usr_status u \<noteq> Active \<or>
                      (case inv_email i of
                         Some target \<Rightarrow> \<not> eq_ignore_ascii_case target (usr_email u) | None \<Rightarrow> False) then
                     (Inl (Forbidden ''invite is not available to this account''), s1)
                   else upsert_member
                     \<lparr>mb_team_id = inv_team_id i, mb_user_id = uid, mb_role = inv_role i, mb_created_at = now\<rparr>
                     (\<lambda>r. if r = TeamAdmin then TeamAdmin else inv_role i) s1)))"

definition accept_invite :: "env \<Rightarrow> string \<Rightarrow> uuid \<Rightarrow> timestamp \<Rightarrow> (db, unit) op" where
  "accept_invite env token uid now = account_write env ''accept invite'' (accept_body token uid now)"

section \<open>Passkey rows\<close>

record new_passkey =
  nk_user_id :: uuid
  nk_credential_id :: string
  nk_name :: string
  nk_credential :: string

definition passkey_row :: "uuid \<Rightarrow> timestamp \<Rightarrow> new_passkey \<Rightarrow> passkey" where
  "passkey_row kid now n =
     \<lparr>pk_id = kid, pk_user_id = nk_user_id n, pk_credential_id = nk_credential_id n, pk_name = nk_name n,
      pk_credential = nk_credential n, pk_created_at = now, pk_last_used_at = None\<rparr>"

text \<open>Any constraint failure of the statement, the foreign key's included, reads as a registered
  passkey: the classification goes by the words \<open>constraint failed\<close>.\<close>

definition create_passkey_body :: "uuid \<Rightarrow> timestamp \<Rightarrow> new_passkey \<Rightarrow> (db, unit) op" where
  "create_passkey_body kid now n s =
     (if kid \<in> set (map pk_id (db_passkeys s)) \<or> nk_credential_id n \<in> set (map pk_credential_id (db_passkeys s)) \<or>
         nk_user_id n \<notin> set (user_ids s)
      then (Inl (Conflict ''passkey is already registered''), s)
      else (Inr (), s\<lparr>db_passkeys := db_passkeys s @ [passkey_row kid now n]\<rparr>))"

definition create_passkey :: "repo \<Rightarrow> timestamp \<Rightarrow> new_passkey \<Rightarrow> (db, passkey) op" where
  "create_passkey r now n s =
     (let kid = rng_uuid s (rng_pos s); s = s\<lparr>rng_pos := Suc (rng_pos s)\<rparr> in
      case retry_write (rp_env r) (rp_write r) ''insert passkey'' (transaction (create_passkey_body kid now n)) s of
        (Inl e, t) \<Rightarrow> (Inl e, t)
      | (Inr _, t) \<Rightarrow> (Inr (passkey_row kid now n), t))"

definition list_passkeys_for_user :: "uuid \<Rightarrow> (db, passkey list) op" where
  "list_passkeys_for_user uid =
     transaction (\<lambda>s. (Inr (sort_key (\<lambda>k. - pk_created_at k) (filter (\<lambda>k. pk_user_id k = uid) (db_passkeys s))), s))"

definition find_by_credential_id :: "string \<Rightarrow> (db, passkey option) op" where
  "find_by_credential_id cid =
     transaction (\<lambda>s. (Inr (List.find (\<lambda>k. pk_credential_id k = cid) (db_passkeys s)), s))"

definition find_passkey_for_user :: "uuid \<Rightarrow> uuid \<Rightarrow> (db, passkey option) op" where
  "find_passkey_for_user uid kid =
     transaction (\<lambda>s. (Inr (List.find (\<lambda>k. pk_id k = kid \<and> pk_user_id k = uid) (db_passkeys s)), s))"

definition rename_passkey :: "repo \<Rightarrow> uuid \<Rightarrow> uuid \<Rightarrow> string \<Rightarrow> (db, passkey) op" where
  "rename_passkey r uid kid name s =
     (case retry_write (rp_env r) (rp_write r) ''rename passkey''
             (transaction (\<lambda>s.
                (Inr (length (filter (\<lambda>k. pk_id k = kid \<and> pk_user_id k = uid) (db_passkeys s))),
                 s\<lparr>db_passkeys := map (\<lambda>k. if pk_id k = kid \<and> pk_user_id k = uid then k\<lparr>pk_name := name\<rparr> else k)
                    (db_passkeys s)\<rparr>))) s of
        (Inl e, t) \<Rightarrow> (Inl e, t)
      | (Inr affected, t) \<Rightarrow>
          (if affected = 0 then (Inl (NotFound ''passkey''), t)
           else case find_passkey_for_user uid kid t of
                  (Inl e, t') \<Rightarrow> (Inl e, t')
                | (Inr None, t') \<Rightarrow> (Inl (NotFound ''passkey''), t')
                | (Inr (Some k), t') \<Rightarrow> (Inr k, t')))"

definition touch_passkey :: "repo \<Rightarrow> uuid \<Rightarrow> string \<Rightarrow> timestamp \<Rightarrow> (db, unit) op" where
  "touch_passkey r kid credential used_at =
     retry_write (rp_env r) (rp_write r) ''update passkey after assertion''
       (transaction (\<lambda>s.
          (Inr (), s\<lparr>db_passkeys := map (\<lambda>k. if pk_id k = kid
             then k\<lparr>pk_credential := credential, pk_last_used_at := Some used_at\<rparr> else k) (db_passkeys s)\<rparr>)))"

definition delete_passkey :: "repo \<Rightarrow> uuid \<Rightarrow> uuid \<Rightarrow> (db, unit) op" where
  "delete_passkey r uid kid s =
     (case retry_write (rp_env r) (rp_write r) ''delete passkey''
             (transaction (\<lambda>s.
                (Inr (length (filter (\<lambda>k. pk_id k = kid \<and> pk_user_id k = uid) (db_passkeys s))),
                 s\<lparr>db_passkeys := filter (\<lambda>k. \<not> (pk_id k = kid \<and> pk_user_id k = uid)) (db_passkeys s)\<rparr>))) s of
        (Inl e, t) \<Rightarrow> (Inl e, t)
      | (Inr affected, t) \<Rightarrow> (if affected = 0 then (Inl (NotFound ''passkey''), t) else (Inr (), t)))"

definition count_passkeys_for_user :: "uuid \<Rightarrow> (db, int) op" where
  "count_passkeys_for_user uid =
     transaction (\<lambda>s. (Inr (int (length (filter (\<lambda>k. pk_user_id k = uid) (db_passkeys s)))), s))"

section \<open>Signed tokens\<close>

record crypto =
  b64_encode :: "string \<Rightarrow> string"
  b64_decode :: "string \<Rightarrow> string option"
  hmac_sha256 :: "string \<Rightarrow> string \<Rightarrow> string"

text \<open>Base64 without padding decodes what it encodes and uses letters, digits, \<open>-\<close> and \<open>_\<close>
  only.\<close>

definition crypto_ok :: "crypto \<Rightarrow> bool" where
  "crypto_ok c \<longleftrightarrow>
     (\<forall>x. b64_decode c (b64_encode c x) = Some x \<and>
          list_all (\<lambda>b. is_ascii_alphanumeric b \<or> b = CHR ''-'' \<or> b = CHR ''_'') (b64_encode c x))"

definition sign :: "crypto \<Rightarrow> string \<Rightarrow> string \<Rightarrow> string" where
  "sign c secret payload =
     (let encoded_payload = b64_encode c payload
      in encoded_payload @ ''.'' @ b64_encode c (hmac_sha256 c secret encoded_payload))"

definition verify :: "crypto \<Rightarrow> string \<Rightarrow> string \<Rightarrow> string res" where
  "verify c secret token =
     (case split_once (CHR ''.'') token of
        None \<Rightarrow> Inl (Auth ''malformed signed token'')
      | Some (encoded_payload, encoded_sig) \<Rightarrow>
          (case b64_decode c encoded_sig of
             None \<Rightarrow> Inl (Auth ''malformed signature encoding'')
           | Some expected \<Rightarrow>
               (if hmac_sha256 c secret encoded_payload \<noteq> expected then Inl (Auth ''invalid signature'')
                else case b64_decode c encoded_payload of
                       None \<Rightarrow> Inl (Auth ''malformed payload encoding'')
                     | Some payload \<Rightarrow> Inr payload)))"

text \<open>\<open>String::from_utf8\<close>: well-formed byte sequences of the Unicode standard.\<close>

definition cont :: "char \<Rightarrow> bool" where "cont b \<longleftrightarrow> 128 \<le> byte b \<and> byte b < 192"

fun valid_char :: "string \<Rightarrow> bool" where
  "valid_char [a] \<longleftrightarrow> byte a < 128"
| "valid_char [a, b] \<longleftrightarrow> 194 \<le> byte a \<and> byte a < 224 \<and> cont b"
| "valid_char [a, b, c] \<longleftrightarrow>
     224 \<le> byte a \<and> byte a < 240 \<and> cont b \<and> cont c \<and>
     (byte a = 224 \<longrightarrow> 160 \<le> byte b) \<and> (byte a = 237 \<longrightarrow> byte b < 160)"
| "valid_char [a, b, c, d] \<longleftrightarrow>
     240 \<le> byte a \<and> byte a < 245 \<and> cont b \<and> cont c \<and> cont d \<and>
     (byte a = 240 \<longrightarrow> 144 \<le> byte b) \<and> (byte a = 244 \<longrightarrow> byte b < 144)"
| "valid_char _ \<longleftrightarrow> False"

definition from_utf8 :: "string \<Rightarrow> string option" where
  "from_utf8 bytes = (if list_all valid_char (chars bytes) then Some bytes else None)"

definition verify_str :: "crypto \<Rightarrow> string \<Rightarrow> string \<Rightarrow> string res" where
  "verify_str c secret token =
     (case verify c secret token of
        Inl e \<Rightarrow> Inl e
      | Inr bytes \<Rightarrow> (case from_utf8 bytes of Some s \<Rightarrow> Inr s | None \<Rightarrow> Inl (Auth ''payload is not valid UTF-8'')))"

section \<open>Owner grants by configuration\<close>

text \<open>\<open>AdminUsers\<close>: a set of lower-case addresses.\<close>

type_synonym admin_users = "string list"

definition split_list :: "string \<Rightarrow> char \<Rightarrow> string list" where
  "split_list s sep = filter (\<lambda>p. p \<noteq> []) (map trim (split_on (\<lambda>c. c = sep) s))"

definition admin_email_ok :: "string \<Rightarrow> bool" where
  "admin_email_ok email \<longleftrightarrow>
     (case split_once (CHR ''@'') email of
        Some (local, domain) \<Rightarrow> local \<noteq> [] \<and> domain \<noteq> [] \<and> CHR ''@'' \<notin> set domain
      | None \<Rightarrow> False) \<and>
     \<not> list_ex (\<lambda>c. is_whitespace c \<or> c \<in> set (map (\<lambda>b. [b]) [CHR ''*'', CHR '';'', CHR ''<'', CHR ''>'', CHR 0x22]))
         (chars email)"

definition admin_users_parse :: "string \<Rightarrow> admin_users res" where
  "admin_users_parse raw =
     (let emails = split_list raw (CHR '','') in
      if list_all admin_email_ok emails then Inr (remdups (map to_ascii_lowercase emails))
      else Inl (Validation ''ADMIN_USERS must contain full email addresses separated by commas''))"

definition admin_users_contains :: "admin_users \<Rightarrow> string \<Rightarrow> bool" where
  "admin_users_contains a email \<longleftrightarrow> to_ascii_lowercase (trim email) \<in> set a"

definition effective_instance_role :: "admin_users \<Rightarrow> string \<Rightarrow> instance_role \<Rightarrow> instance_role" where
  "effective_instance_role a email stored = (if admin_users_contains a email then Owner else stored)"

definition admin_users_apply :: "admin_users \<Rightarrow> user \<Rightarrow> user" where
  "admin_users_apply a u =
     u\<lparr>usr_instance_role := effective_instance_role a (usr_email u) (usr_instance_role u)\<rparr>"

section \<open>The session cookie\<close>

text \<open>What authentication reads of the configuration and of the application state.\<close>

record auth_config =
  ac_crypto :: crypto
  ac_secret_key :: string
  ac_base_url :: string
  ac_admin_users :: admin_users
  ac_oidc :: bool

definition SESSION_COOKIE :: string where "SESSION_COOKIE = ''soika_session''"
definition SESSION_TTL_DAYS :: int where "SESSION_TTL_DAYS = 30"

definition build_session_cookie :: "crypto \<Rightarrow> string \<Rightarrow> string \<Rightarrow> bool \<Rightarrow> string" where
  "build_session_cookie c secret_key session_id secure =
     SESSION_COOKIE @ ''='' @ sign c secret_key session_id @ ''; HttpOnly; SameSite=Lax; Path=/; Max-Age='' @
     int_to_dec (SESSION_TTL_DAYS * 24 * 60 * 60) @ (if secure then ''; Secure'' else [])"

definition build_clearing_cookie :: "bool \<Rightarrow> string" where
  "build_clearing_cookie secure =
     SESSION_COOKIE @ ''=; HttpOnly; SameSite=Lax; Path=/; Max-Age=0'' @ (if secure then ''; Secure'' else [])"

definition cookie_secure :: "string \<Rightarrow> bool" where
  "cookie_secure base_url \<longleftrightarrow> starts_with (to_ascii_lowercase (trim_start base_url)) ''https://''"

fun cookie_in :: "string \<Rightarrow> string list \<Rightarrow> string option" where
  "cookie_in name [] = None"
| "cookie_in name (part # parts) =
     (case split_once (CHR ''='') (trim part) of
        Some (k, v) \<Rightarrow> (if trim k = name then Some (trim v) else cookie_in name parts)
      | None \<Rightarrow> cookie_in name parts)"

definition read_cookie :: "headers \<Rightarrow> string \<Rightarrow> string option" where
  "read_cookie hs name =
     (case header_get hs ''cookie'' of
        None \<Rightarrow> None
      | Some header \<Rightarrow> cookie_in name (split_on (\<lambda>c. c = CHR '';'') header))"

definition session_id_from_headers :: "crypto \<Rightarrow> string \<Rightarrow> headers \<Rightarrow> string option" where
  "session_id_from_headers c secret_key hs =
     (case read_cookie hs SESSION_COOKIE of
        None \<Rightarrow> None
      | Some raw \<Rightarrow> (case verify_str c secret_key raw of Inr sid \<Rightarrow> Some sid | Inl _ \<Rightarrow> None))"

definition authenticate_user :: "auth_config \<Rightarrow> timestamp \<Rightarrow> headers \<Rightarrow> (db, user) op" where
  "authenticate_user cfg now hs s =
     (case session_id_from_headers (ac_crypto cfg) (ac_secret_key cfg) hs of
        None \<Rightarrow> (Inl (Auth ''missing or invalid session''), s)
      | Some sid \<Rightarrow>
          (case find_session now sid s of
             (Inl e, s1) \<Rightarrow> (Inl e, s1)
           | (Inr None, s1) \<Rightarrow> (Inl (Auth ''session not found or expired''), s1)
           | (Inr (Some x), s1) \<Rightarrow>
               (case find_user_by_id (ses_user_id x) s1 of
                  (Inl e, s2) \<Rightarrow> (Inl e, s2)
                | (Inr None, s2) \<Rightarrow> (Inl (Auth ''user no longer exists''), s2)
                | (Inr (Some u), s2) \<Rightarrow>
                    (if is_pending (usr_status u) then (Inl (Auth ''account is awaiting approval''), s2)
                     else let u = admin_users_apply (ac_admin_users cfg) u in
                          if ac_oidc cfg \<and> \<not> session_allowed_with_sso u
                          then (Inl (Auth ''sign in with SSO''), s2) else (Inr u, s2)))))"

definition start_session :: "auth_config \<Rightarrow> timestamp \<Rightarrow> uuid \<Rightarrow> (db, session \<times> string) op" where
  "start_session cfg now uid s =
     (let sid = rng_short s (rng_pos s); s = s\<lparr>rng_pos := Suc (rng_pos s)\<rparr> in
      case dt_add_seconds now (SESSION_TTL_DAYS * 86400) of
        Inl e \<Rightarrow> (Inl e, s)
      | Inr expires_at \<Rightarrow>
          (case create_session now sid uid expires_at s of
             (Inl e, s') \<Rightarrow> (Inl e, s')
           | (Inr x, s') \<Rightarrow>
               (Inr (x, build_session_cookie (ac_crypto cfg) (ac_secret_key cfg) sid (cookie_secure (ac_base_url cfg))), s')))"

definition end_session :: "auth_config \<Rightarrow> headers \<Rightarrow> (db, string) op" where
  "end_session cfg hs s =
     (case session_id_from_headers (ac_crypto cfg) (ac_secret_key cfg) hs of
        Some sid \<Rightarrow>
          (case delete_session sid s of
             (Inl e, s') \<Rightarrow> (Inl e, s')
           | (Inr _, s') \<Rightarrow> (Inr (build_clearing_cookie (cookie_secure (ac_base_url cfg))), s'))
      | None \<Rightarrow> (Inr (build_clearing_cookie (cookie_secure (ac_base_url cfg))), s))"

definition require_manager :: "user \<Rightarrow> unit res" where
  "require_manager u =
     (if can_manage_instance (usr_instance_role u) then Inr ()
      else Inl (Forbidden ''requires instance manager or owner''))"

definition require_owner :: "user \<Rightarrow> unit res" where
  "require_owner u =
     (if is_owner (usr_instance_role u) then Inr () else Inl (Forbidden ''requires instance owner''))"

section \<open>Invite links\<close>

definition INVITE_TTL_DAYS :: int where "INVITE_TTL_DAYS = 7"

definition invite_link :: "string \<Rightarrow> string \<Rightarrow> string" where
  "invite_link base_url token = trim_end_char (CHR ''/'') base_url @ ''/invite/'' @ token"

definition check_invite_usable :: "invite \<Rightarrow> timestamp \<Rightarrow> unit res" where
  "check_invite_usable i now =
     (if inv_accepted_at i \<noteq> None then Inl (Auth ''invite has already been accepted'')
      else if inv_expires_at i \<le> now then Inl (Auth ''invite has expired'')
      else Inr ())"

section \<open>Same-origin requests\<close>

text \<open>What \<open>Url::parse\<close> says of a string: its origin, when that is a (scheme, host, port) tuple its
  ASCII serialization, and its normal form.\<close>

record url =
  url_origin :: "string option"
  url_as_str :: string

datatype http_method = GET | HEAD | OPTIONS | POST | PUT | PATCH | DELETE | OtherMethod string

definition csrf_allowed :: "(string \<Rightarrow> url option) \<Rightarrow> string \<Rightarrow> http_method \<Rightarrow> headers \<Rightarrow> bool" where
  "csrf_allowed url_parse base_url meth hs =
     (if meth \<in> {GET, HEAD, OPTIONS} then True
      else
        let expected = Option.bind (url_parse base_url) url_origin;
            supplied_origin = map_of hs ''origin'';
            source = (case supplied_origin of Some v \<Rightarrow> Some v | None \<Rightarrow> map_of hs ''referer'');
            valid_source = (case Option.bind (Option.bind source header_to_str) url_parse of
               Some u \<Rightarrow> (case url_origin u of
                  Some origin \<Rightarrow> expected = Some origin \<and>
                     (supplied_origin = None \<or> url_as_str u = origin @ ''/'')
                | None \<Rightarrow> False)
             | None \<Rightarrow> False);
            cross_site = (map_of hs ''sec-fetch-site'' = Some ''cross-site'');
            explicit_client = (source = None \<and> map_of hs ''x-soika-request'' = Some ''1'')
        in \<not> (cross_site \<or> \<not> (valid_source \<or> explicit_client)))"

end
