(* ===== verification/AccessFacts.thy ===== *)
theory AccessFacts
  imports Access
begin

text \<open>
  What authentication guarantees: a signed token verifies to its payload, the cookie of a new session
  signs its user in until it expires or is ended, whoever is signed in holds a live session with a
  valid signature, deleting or converting an account ends its sessions, and an invite is accepted at
  most once, by the account it is meant for.
\<close>

section \<open>Signed tokens\<close>

definition token_char :: "char \<Rightarrow> bool" where
  "token_char b \<longleftrightarrow> is_ascii_alphanumeric b \<or> b \<in> {CHR ''-'', CHR ''_'', CHR ''.''}"

lemma b64_chars:
  assumes "crypto_ok c"
  shows "list_all token_char (b64_encode c x)" "CHR ''.'' \<notin> set (b64_encode c x)"
proof -
  have all: "\<forall>b \<in> set (b64_encode c x). is_ascii_alphanumeric b \<or> b = CHR ''-'' \<or> b = CHR ''_''"
    using assms by (simp add: crypto_ok_def list_all_iff)
  then show "list_all token_char (b64_encode c x)" by (auto simp: list_all_iff token_char_def)
  have "\<not> is_ascii_alphanumeric (CHR ''.'')" by (simp add: ascii_defs)
  then show "CHR ''.'' \<notin> set (b64_encode c x)" using all by auto
qed

lemma sign_chars: "crypto_ok c \<Longrightarrow> list_all token_char (sign c k p) \<and> sign c k p \<noteq> []"
  using b64_chars(1) [of c] by (simp add: sign_def Let_def token_char_def)

lemma verify_sign: "crypto_ok c \<Longrightarrow> verify c k (sign c k p) = Inr p"
  using b64_chars(2) [of c p] by (simp add: verify_def sign_def Let_def split_once_append crypto_ok_def)

lemma verify_sound:
  assumes "verify c k token = Inr p"
  obtains encoded mac where "token = encoded @ CHR ''.'' # mac" "b64_decode c mac = Some (hmac_sha256 c k encoded)"
    "b64_decode c encoded = Some p"
proof -
  obtain a b where ab: "split_once (CHR ''.'') token = Some (a, b)" and
    "b64_decode c b = Some (hmac_sha256 c k a)" "b64_decode c a = Some p"
    using assms by (auto simp: verify_def split: option.splits if_splits)
  with split_onceE [OF ab] show thesis using that by blast
qed

lemma from_utf8_ascii: "list_all ascii s \<Longrightarrow> from_utf8 s = Some s"
  using chars_ascii_append [of s "[]"] by (simp add: from_utf8_def list_all_iff)

lemma from_utf8_same: "from_utf8 s = Some t \<Longrightarrow> t = s"
  by (auto simp: from_utf8_def split: if_splits)

section \<open>The cookie\<close>

lemma token_char_plain:
  assumes "token_char b"
  shows "ascii b" "b \<noteq> CHR '';''" "b \<noteq> CHR ''=''" "\<not> is_whitespace [b]" "32 \<le> byte b \<and> byte b < 127"
proof -
  show "ascii b" "b \<noteq> CHR '';''" "b \<noteq> CHR ''=''" "32 \<le> byte b \<and> byte b < 127"
    using assms by (auto simp: token_char_def ascii_defs)
  then show "\<not> is_whitespace [b]" using assms whitespace_byte [of b] by (auto simp: token_char_def ascii_defs)
qed

lemma trim_plain:
  assumes "list_all (\<lambda>b. ascii b \<and> \<not> is_whitespace [b]) s"
  shows "trim s = s"
proof (rule trim_fixed)
  have "chars s = map (\<lambda>b. [b]) s" using chars_ascii_append [of s "[]"] assms by (simp add: list_all_iff)
  then show "s = [] \<or> \<not> is_whitespace (hd (chars s)) \<and> \<not> is_whitespace (last (chars s))"
    using assms by (cases s) (auto simp: list_all_iff last_map)
qed

lemma split_on_absent: "list_all (\<lambda>b. \<not> P b) s \<Longrightarrow> split_on P s = [s]"
  by (induction s) auto

lemma session_cookie_chars: "list_all token_char SESSION_COOKIE"
  by (simp add: SESSION_COOKIE_def token_char_def ascii_defs)

text \<open>The name and value of a cookie, as a browser sends them back: what stands before the first
  semicolon.\<close>

definition cookie_pair :: "string \<Rightarrow> string" where
  "cookie_pair set_cookie = takeWhile (\<lambda>b. b \<noteq> CHR '';'') set_cookie"

lemma cookie_pair_named:
  assumes "list_all token_char name" "list_all token_char tok"
  shows "cookie_pair (name @ ''='' @ tok @ CHR '';'' # rest) = name @ ''='' @ tok"
proof -
  have "list_all (\<lambda>b. b \<noteq> CHR '';'') (name @ ''='' @ tok)"
    using assms token_char_plain(2) by (fastforce simp: list_all_iff)
  then show ?thesis
    using takeWhile_append2 [of "name @ ''='' @ tok" "\<lambda>b. b \<noteq> CHR '';''" "CHR '';'' # rest"]
    unfolding cookie_pair_def list_all_iff by simp
qed

lemma read_named_cookie:
  assumes "list_all token_char name" "list_all token_char tok" "map_of hs ''cookie'' = Some (name @ ''='' @ tok)"
  shows "read_cookie hs name = Some tok"
proof -
  let ?pair = "name @ ''='' @ tok"
  have chars: "token_char b \<or> b = CHR ''=''" if "b \<in> set ?pair" for b
    using that assms(1,2) by (auto simp: list_all_iff)
  have ws: "\<not> is_whitespace [CHR ''='']" using whitespace_byte [of "CHR ''=''"] by auto
  have "list_all (\<lambda>b. 32 \<le> byte b \<and> byte b < 127 \<or> byte b = 9) ?pair"
    using chars token_char_plain(5) by (fastforce simp: list_all_iff)
  then have get: "header_get hs ''cookie'' = Some ?pair"
    unfolding header_get_def assms(3) header_to_str_def by simp
  have "list_all (\<lambda>b. \<not> b = CHR '';'') ?pair"
    using chars token_char_plain(2) by (fastforce simp: list_all_iff)
  then have split: "split_on (\<lambda>b. b = CHR '';'') ?pair = [?pair]" by (rule split_on_absent)
  have "list_all (\<lambda>b. ascii b \<and> \<not> is_whitespace [b]) ?pair"
    using chars token_char_plain(1,4) ws by (fastforce simp: list_all_iff)
  then have trim: "trim ?pair = ?pair" by (rule trim_plain)
  have parts: "trim name = name" "trim tok = tok"
    using assms(1,2) token_char_plain(1,4) by (auto simp: list_all_iff intro!: trim_plain)
  have "CHR ''='' \<notin> set name" using assms(1) token_char_plain(3) by (auto simp: list_all_iff)
  then have "split_once (CHR ''='') ?pair = Some (name, tok)"
    using split_once_append [of "CHR ''=''" name tok] by simp
  then show ?thesis using parts by (simp add: read_cookie_def get split trim del: append.simps)
qed

lemma cookie_pair_session:
  assumes "crypto_ok c"
  shows "cookie_pair (build_session_cookie c k sid secure) = SESSION_COOKIE @ ''='' @ sign c k sid"
  using cookie_pair_named [OF session_cookie_chars, of "sign c k sid"] sign_chars [OF assms]
  by (simp add: build_session_cookie_def)

lemma read_session_cookie:
  assumes "list_all token_char token" "map_of hs ''cookie'' = Some (SESSION_COOKIE @ ''='' @ token)"
  shows "read_cookie hs SESSION_COOKIE = Some token"
  using session_cookie_chars assms by (rule read_named_cookie)

lemma session_id_read_back:
  assumes "crypto_ok c" "list_all ascii sid"
    "map_of hs ''cookie'' = Some (cookie_pair (build_session_cookie c k sid secure))"
  shows "session_id_from_headers c k hs = Some sid"
proof -
  have "read_cookie hs SESSION_COOKIE = Some (sign c k sid)"
    using sign_chars [OF assms(1)] assms(3) cookie_pair_session [OF assms(1)] by (intro read_session_cookie) simp_all
  then show ?thesis
    by (simp add: session_id_from_headers_def verify_str_def verify_sign [OF assms(1)] from_utf8_ascii [OF assms(2)])
qed

section \<open>Sessions\<close>

lemma select_calm:
  "faults s = [] \<Longrightarrow> transaction (\<lambda>s. (Inr (f s), s)) s = (Inr (f s), s)"
  by (rule transaction_no_fault) simp_all

lemma find_the_row:
  assumes "distinct (map key xs)" "x \<in> set xs" "P x" "\<And>y. P y \<Longrightarrow> key y = key x"
  shows "List.find P xs = Some x"
  using assms(1,2)
proof (induction xs)
  case (Cons a xs)
  show ?case
  proof (cases "a = x")
    case False
    then have "x \<in> set xs" "key a \<noteq> key x" using Cons.prems by auto
    then have "\<not> P a" using assms(4) by blast
    then show ?thesis using Cons \<open>x \<in> set xs\<close> by simp
  qed (simp add: assms(3))
qed simp

lemma start_session_cases:
  assumes "start_session cfg now uid s = (Inr (x, set_cookie), t)"
  obtains sid where "x = \<lparr>ses_id = sid, ses_user_id = uid, ses_created_at = now, ses_expires_at = now + secs (SESSION_TTL_DAYS * 86400)\<rparr>"
    "sid = rng_short s (rng_pos s)" "sid \<notin> set (map ses_id (db_sessions s))"
    "db_sessions t = db_sessions s @ [x]" "db_users t = db_users s"
    "set_cookie = build_session_cookie (ac_crypto cfg) (ac_secret_key cfg) sid (cookie_secure (ac_base_url cfg))"
proof -
  let ?sid = "rng_short s (rng_pos s)" and ?s = "s\<lparr>rng_pos := Suc (rng_pos s)\<rparr>"
  have "dt_add_seconds now (SESSION_TTL_DAYS * 86400) = Inr e \<Longrightarrow> e = now + secs (SESSION_TTL_DAYS * 86400)" for e
    by (auto simp: chrono_defs SESSION_TTL_DAYS_def split: if_splits)
  then obtain v where run: "create_session now ?sid uid (now + secs (SESSION_TTL_DAYS * 86400)) ?s = (Inr x, t)"
    and c: "set_cookie = build_session_cookie (ac_crypto cfg) (ac_secret_key cfg) ?sid (cookie_secure (ac_base_url cfg))"
    using assms by (auto simp: start_session_def Let_def split: sum.splits prod.splits)
  then obtain s0 where "tables s0 = tables ?s" and
    "x = \<lparr>ses_id = ?sid, ses_user_id = uid, ses_created_at = now, ses_expires_at = now + secs (SESSION_TTL_DAYS * 86400)\<rparr>"
    "?sid \<notin> set (map ses_id (db_sessions s0))" "t = s0\<lparr>db_sessions := db_sessions s0 @ [x]\<rparr>"
    unfolding create_session_def by (elim transaction_ok) (auto simp: Let_def split: if_splits)
  moreover from this(1) have "db_sessions s0 = db_sessions s" "db_users s0 = db_users s"
    by (simp_all add: tables_def accounts_def)
  ultimately show thesis using that [of ?sid] c by simp
qed

lemma authenticate_live:
  assumes "faults t = []" "session_id_from_headers (ac_crypto cfg) (ac_secret_key cfg) hs = Some sid"
    "List.find (\<lambda>x. ses_id x = sid \<and> now < ses_expires_at x) (db_sessions t) = Some x"
    "List.find (\<lambda>u. usr_id u = ses_user_id x) (db_users t) = Some u"
    "usr_status u = Active" "ac_oidc cfg \<longrightarrow> session_allowed_with_sso (admin_users_apply (ac_admin_users cfg) u)"
  shows "authenticate_user cfg now hs t = (Inr (admin_users_apply (ac_admin_users cfg) u), t)"
  using assms
  by (simp add: authenticate_user_def find_session_def find_user_by_id_def select_user_def select_calm is_pending_def Let_def)

lemma authenticate_dead:
  assumes "faults t = []" "session_id_from_headers (ac_crypto cfg) (ac_secret_key cfg) hs = Some sid"
    "\<forall>x \<in> set (db_sessions t). ses_id x = sid \<longrightarrow> ses_expires_at x \<le> now"
  shows "authenticate_user cfg now hs t = (Inl (Auth ''session not found or expired''), t)"
proof -
  have "List.find (\<lambda>x. ses_id x = sid \<and> now < ses_expires_at x) (db_sessions t) = None"
    using assms(3) by (auto simp: find_None_iff)
  then show ?thesis using assms(1,2) by (simp add: authenticate_user_def find_session_def select_calm)
qed

text \<open>C36. The cookie of a new session signs its user in: sent back with a request at any time before the
  thirty days are over it authenticates exactly that user, with the role of the configuration; from then
  on, or once the session was ended with it, it authenticates nobody.\<close>

theorem session_lifetime:
  assumes c: "crypto_ok (ac_crypto cfg)" and ok: "world_ok s"
    and start: "start_session cfg now (usr_id u) s = (Inr (x, set_cookie), t)" and calm: "faults t = []"
    and u: "u \<in> set (db_users s)" "usr_status u = Active" and sid: "list_all ascii (ses_id x)"
    and sso: "ac_oidc cfg \<longrightarrow> session_allowed_with_sso (admin_users_apply (ac_admin_users cfg) u)"
    and cookie: "map_of hs ''cookie'' = Some (cookie_pair set_cookie)"
  shows "authenticate_user cfg later hs t =
      (if later < now + secs (30 * 86400) then Inr (admin_users_apply (ac_admin_users cfg) u)
       else Inl (Auth ''session not found or expired''), t) \<and>
     fst (authenticate_user cfg later hs (snd (end_session cfg hs t))) =
      Inl (Auth ''session not found or expired'')"
proof -
  obtain i where x: "x = \<lparr>ses_id = i, ses_user_id = usr_id u, ses_created_at = now,
      ses_expires_at = now + secs (SESSION_TTL_DAYS * 86400)\<rparr>"
    and i: "i \<notin> set (map ses_id (db_sessions s))" and t: "db_sessions t = db_sessions s @ [x]" "db_users t = db_users s"
    and set_cookie: "set_cookie = build_session_cookie (ac_crypto cfg) (ac_secret_key cfg) i (cookie_secure (ac_base_url cfg))"
    using start by (rule start_session_cases)
  have "list_all ascii i" using sid by (simp add: x)
  then have id: "session_id_from_headers (ac_crypto cfg) (ac_secret_key cfg) hs = Some i"
    using c cookie unfolding set_cookie by (intro session_id_read_back) simp_all
  have dist: "distinct (map ses_id (db_sessions t))" "distinct (user_ids s)"
    using ok i by (auto simp: t x world_ok_def users_ok_def)
  have user: "List.find (\<lambda>v. usr_id v = ses_user_id x) (db_users t) = Some u"
    using dist(2) u(1) unfolding t by (intro find_the_row [where key = usr_id]) (simp_all add: x)
  have live: "authenticate_user cfg later hs t =
      (if later < now + secs (30 * 86400) then Inr (admin_users_apply (ac_admin_users cfg) u)
       else Inl (Auth ''session not found or expired''), t)"
  proof (cases "later < now + secs (30 * 86400)")
    case True
    then have "List.find (\<lambda>y. ses_id y = i \<and> later < ses_expires_at y) (db_sessions t) = Some x"
      using dist(1) by (intro find_the_row [where key = ses_id]) (simp_all add: t x SESSION_TTL_DAYS_def)
    then show ?thesis using authenticate_live [OF calm id _ user u(2) sso] True by simp
  next
    case False
    have "\<forall>y \<in> set (db_sessions t). ses_id y = i \<longrightarrow> ses_expires_at y \<le> later"
      using i False by (auto simp: t x SESSION_TTL_DAYS_def)
    then show ?thesis using authenticate_dead [OF calm id] False by simp
  qed
  have "snd (end_session cfg hs t) = t\<lparr>db_sessions := filter (\<lambda>y. ses_id y \<noteq> i) (db_sessions t)\<rparr>"
    using calm by (simp add: end_session_def id delete_session_def transaction_no_fault)
  then have "fst (authenticate_user cfg later hs (snd (end_session cfg hs t))) =
      Inl (Auth ''session not found or expired'')"
    using calm id by (simp add: authenticate_dead)
  with live show ?thesis by blast
qed

section \<open>Who is signed in\<close>

lemma find_row: "List.find P xs = Some x \<Longrightarrow> x \<in> set xs \<and> P x"
  by (induction xs) (auto split: if_splits)

lemma find_session_sound:
  "find_session now sid s = (Inr (Some x), t) \<Longrightarrow>
     x \<in> set (db_sessions s) \<and> ses_id x = sid \<and> now < ses_expires_at x \<and> tables t = tables s"
  unfolding find_session_def by (elim transaction_ok) (auto dest!: find_row simp: tables_def accounts_def)

lemma find_user_sound:
  "find_user_by_id uid s = (Inr (Some u), t) \<Longrightarrow>
     u \<in> set (db_users s) \<and> usr_id u = uid \<and> tables t = tables s"
  unfolding find_user_by_id_def select_user_def
  by (elim transaction_ok) (auto dest!: find_row simp: tables_def accounts_def)

lemma session_id_sound:
  assumes "session_id_from_headers c k hs = Some sid"
  obtains encoded mac where "read_cookie hs SESSION_COOKIE = Some (encoded @ CHR ''.'' # mac)"
    "b64_decode c mac = Some (hmac_sha256 c k encoded)" "b64_decode c encoded = Some sid"
proof -
  obtain raw bytes where raw: "read_cookie hs SESSION_COOKIE = Some raw" "verify c k raw = Inr bytes"
    "from_utf8 bytes = Some sid"
    using assms by (auto simp: session_id_from_headers_def verify_str_def split: option.splits sum.splits)
  have sid: "sid = bytes" using raw(3) by (rule from_utf8_same)
  obtain encoded mac where "raw = encoded @ CHR ''.'' # mac" "b64_decode c mac = Some (hmac_sha256 c k encoded)"
    "b64_decode c encoded = Some bytes" using raw(2) by (rule verify_sound)
  then show thesis using that raw(1) sid by blast
qed

lemma authenticate_cases:
  assumes "authenticate_user cfg now hs s = (Inr u, t)"
  obtains sid x v where "session_id_from_headers (ac_crypto cfg) (ac_secret_key cfg) hs = Some sid"
    "x \<in> set (db_sessions s)" "ses_id x = sid" "now < ses_expires_at x"
    "v \<in> set (db_users s)" "usr_id v = ses_user_id x" "usr_status v = Active"
    "u = admin_users_apply (ac_admin_users cfg) v" "ac_oidc cfg \<longrightarrow> session_allowed_with_sso u"
    "tables t = tables s"
proof -
  obtain sid s1 x v where run: "session_id_from_headers (ac_crypto cfg) (ac_secret_key cfg) hs = Some sid"
    "find_session now sid s = (Inr (Some x), s1)" "find_user_by_id (ses_user_id x) s1 = (Inr (Some v), t)"
    "\<not> is_pending (usr_status v)" "u = admin_users_apply (ac_admin_users cfg) v"
    "ac_oidc cfg \<longrightarrow> session_allowed_with_sso u"
    using assms unfolding authenticate_user_def
    by (auto simp: Let_def split: option.splits prod.splits sum.splits if_splits)
  have "usr_status v = Active" using run(4) by (cases "usr_status v") (auto simp: is_pending_def)
  with run find_session_sound [OF run(2)] find_user_sound [OF run(3)] show thesis
    by (intro that [of sid x v]) (auto simp: tables_def accounts_def)
qed

text \<open>C37. Whoever is signed in holds a live session: the cookie carries a session id with its MAC under the
  secret key, the row of that id has not expired, the account is active, under single sign-on it is an
  SSO account or an owner, and only the configuration can raise its stored role; the request changed
  nothing in the database.\<close>

theorem signed_in_sound:
  assumes "authenticate_user cfg now hs s = (Inr u, t)"
  shows "\<exists>encoded mac x v.
      read_cookie hs SESSION_COOKIE = Some (encoded @ ''.'' @ mac) \<and>
      b64_decode (ac_crypto cfg) mac = Some (hmac_sha256 (ac_crypto cfg) (ac_secret_key cfg) encoded) \<and>
      b64_decode (ac_crypto cfg) encoded = Some (ses_id x) \<and>
      x \<in> set (db_sessions s) \<and> now < ses_expires_at x \<and>
      v \<in> set (db_users s) \<and> usr_id v = ses_user_id x \<and> usr_status v = Active \<and>
      u = v\<lparr>usr_instance_role := (if admin_users_contains (ac_admin_users cfg) (usr_email v) then Owner
                                 else usr_instance_role v)\<rparr> \<and>
      (ac_oidc cfg \<longrightarrow> usr_auth_provider v = Oidc \<or> usr_instance_role u = Owner) \<and>
      tables t = tables s"
proof -
  obtain sid x v where a: "session_id_from_headers (ac_crypto cfg) (ac_secret_key cfg) hs = Some sid"
    "x \<in> set (db_sessions s)" "ses_id x = sid" "now < ses_expires_at x"
    "v \<in> set (db_users s)" "usr_id v = ses_user_id x" "usr_status v = Active"
    "u = admin_users_apply (ac_admin_users cfg) v" "ac_oidc cfg \<longrightarrow> session_allowed_with_sso u"
    "tables t = tables s" using assms by (rule authenticate_cases)
  obtain encoded mac where m: "read_cookie hs SESSION_COOKIE = Some (encoded @ CHR ''.'' # mac)"
    "b64_decode (ac_crypto cfg) mac = Some (hmac_sha256 (ac_crypto cfg) (ac_secret_key cfg) encoded)"
    "b64_decode (ac_crypto cfg) encoded = Some sid" using a(1) by (rule session_id_sound)
  have "u = v\<lparr>usr_instance_role := (if admin_users_contains (ac_admin_users cfg) (usr_email v) then Owner
                                 else usr_instance_role v)\<rparr>"
    by (simp add: a(8) admin_users_apply_def effective_instance_role_def)
  moreover have "ac_oidc cfg \<longrightarrow> usr_auth_provider v = Oidc \<or> usr_instance_role u = Owner"
    using a(8,9) by (auto simp: session_allowed_with_sso_def is_owner_def admin_users_apply_def)
  ultimately show ?thesis using a m by (intro exI [of _ encoded] exI [of _ mac] exI [of _ x] exI [of _ v]) simp
qed

section \<open>Revocation\<close>

lemma no_session_no_login:
  assumes "\<forall>x \<in> set (db_sessions s). ses_user_id x \<noteq> uid" "authenticate_user cfg now hs s = (Inr u, t)"
  shows "usr_id u \<noteq> uid"
proof -
  obtain sid x v where "x \<in> set (db_sessions s)" "usr_id v = ses_user_id x" "u = admin_users_apply (ac_admin_users cfg) v"
    using assms(2) by (rule authenticate_cases)
  then show ?thesis using assms(1) by (auto simp: admin_users_apply_def)
qed

text \<open>The last attempt of a write that succeeded ran its body on some state.\<close>

lemma account_write_ok:
  assumes "account_write env what body s = (Inr v, t)"
  obtains s0 where "body s0 = (Inr v, t)"
proof -
  have "\<exists>x. True \<and> transaction body x = (Inr v, t)"
    using assms unfolding retry_write_def by (intro retry_from_last [where I = "\<lambda>_. True"]) simp_all
  then obtain x where "transaction body x = (Inr v, t)" by blast
  then show thesis by (rule transaction_ok) (rule that)
qed

text \<open>C38. Deleting an account, converting it to single sign-on or signing it out everywhere ends its
  sessions: as soon as the operation has returned, whatever other connections did between its retries, no
  cookie signs that user in.\<close>

theorem revoked_at_once:
  assumes "delete_user env uid s = (Inr (), t) \<or> convert_to_sso env uid s = (Inr v, t) \<or>
      delete_sessions_for_user uid s = (Inr (), t)"
  shows "authenticate_user cfg now hs t \<noteq> (Inr u, t') \<or> usr_id u \<noteq> uid"
proof -
  have "\<forall>x \<in> set (db_sessions t). ses_user_id x \<noteq> uid"
    using assms
  proof (elim disjE)
    assume "delete_user env uid s = (Inr (), t)"
    then obtain s0 where "delete_user_body uid s0 = (Inr (), t)"
      unfolding delete_user_def by (rule account_write_ok)
    then show ?thesis by (auto simp: delete_user_body_def delete_user_rows_def split: if_splits)
  next
    assume "convert_to_sso env uid s = (Inr v, t)"
    then obtain t1 where t1: "account_write env ''convert account to SSO'' (convert_to_sso_body uid) s = (Inr (), t1)"
      "find_user_by_id uid t1 = (Inr (Some v), t)"
      unfolding convert_to_sso_def reread_user_def by (auto split: prod.splits sum.splits option.splits)
    obtain s0 where "convert_to_sso_body uid s0 = (Inr (), t1)" using t1(1) by (rule account_write_ok)
    then have "\<forall>x \<in> set (db_sessions t1). ses_user_id x \<noteq> uid"
      by (auto simp: convert_to_sso_body_def split: if_splits option.splits)
    then show ?thesis using find_user_sound [OF t1(2)] by (simp add: tables_def accounts_def)
  next
    assume "delete_sessions_for_user uid s = (Inr (), t)"
    then show ?thesis unfolding delete_sessions_for_user_def by (elim transaction_ok) auto
  qed
  then show ?thesis using no_session_no_login by blast
qed

section \<open>Invites\<close>

text \<open>An invite that no transaction at \<open>now\<close> or later can accept.\<close>

definition invite_spent :: "timestamp \<Rightarrow> string \<Rightarrow> db \<Rightarrow> bool" where
  "invite_spent now token s \<longleftrightarrow>
     (\<forall>i \<in> set (db_invites s). inv_token i = token \<longrightarrow> inv_accepted_at i \<noteq> None \<or> inv_expires_at i \<le> now)"

abbreviation spend :: "timestamp \<Rightarrow> string \<Rightarrow> db \<Rightarrow> db" where
  "spend now token s \<equiv>
     s\<lparr>db_invites := map (\<lambda>i. if usable now token i then i\<lparr>inv_accepted_at := Some now\<rparr> else i) (db_invites s)\<rparr>"

abbreviation join :: "uuid \<Rightarrow> timestamp \<Rightarrow> invite \<Rightarrow> (db, unit) op" where
  "join uid now i \<equiv>
     upsert_member \<lparr>mb_team_id = inv_team_id i, mb_user_id = uid, mb_role = inv_role i, mb_created_at = now\<rparr>
       (\<lambda>r. if r = TeamAdmin then TeamAdmin else inv_role i)"

lemma accept_body_cases:
  assumes "accept_body token uid now s = (Inr (), t)"
  obtains i u where "i \<in> set (db_invites s)" "usable now token i" "u \<in> set (db_users s)" "usr_id u = uid"
    "usr_status u = Active" "\<forall>a. inv_email i = Some a \<longrightarrow> eq_ignore_ascii_case a (usr_email u)"
    "join uid now i (spend now token s) = (Inr (), t)"
proof -
  obtain i u where iu: "List.find (usable now token) (db_invites s) = Some i"
    "List.find (\<lambda>u. usr_id u = uid) (db_users s) = Some u" "usr_status u = Active"
    "\<forall>a. inv_email i = Some a \<longrightarrow> eq_ignore_ascii_case a (usr_email u)" and
    "join uid now i (spend now token s) = (Inr (), t)"
    using assms unfolding accept_body_def Let_def by (auto split: option.splits if_splits)
  with find_row [OF iu(1)] find_row [OF iu(2)] show thesis by (intro that [of i u]) auto
qed

lemma upsert_member_member:
  assumes "upsert_member m f s = (Inr (), t)"
  shows "db_users t = db_users s" "db_invites t = db_invites s"
    "\<exists>x \<in> set (db_members t). mb_team_id x = mb_team_id m \<and> mb_user_id x = mb_user_id m \<and>
       (mb_role x = mb_role m \<or> (\<exists>r. mb_role x = f r))"
proof -
  show "db_users t = db_users s" "db_invites t = db_invites s"
    using assms by (auto simp: upsert_member_def split: if_splits)
  show "\<exists>x \<in> set (db_members t). mb_team_id x = mb_team_id m \<and> mb_user_id x = mb_user_id m \<and>
       (mb_role x = mb_role m \<or> (\<exists>r. mb_role x = f r))"
  proof (cases "list_ex (\<lambda>x. mb_team_id x = mb_team_id m \<and> mb_user_id x = mb_user_id m) (db_members s)")
    case True
    then obtain x where x: "x \<in> set (db_members s)" "mb_team_id x = mb_team_id m" "mb_user_id x = mb_user_id m"
      by (auto simp: list_ex_iff)
    have "db_members t = set_role_rows (mb_team_id m) (mb_user_id m) f (db_members s)"
      using assms True by (auto simp: upsert_member_def split: if_splits)
    then have "x\<lparr>mb_role := f (mb_role x)\<rparr> \<in> set (db_members t)" using x by (force simp: set_role_rows_def)
    then show ?thesis using x by (intro bexI [of _ "x\<lparr>mb_role := f (mb_role x)\<rparr>"]) auto
  next
    case False
    then have "db_members t = db_members s @ [m]" using assms by (auto simp: upsert_member_def split: if_splits)
    then show ?thesis by auto
  qed
qed

lemma accept_spends:
  assumes "accept_body token uid now s = (Inr (), t)"
  shows "invite_spent now token t"
proof -
  obtain i u where "i \<in> set (db_invites s)" "usable now token i" "u \<in> set (db_users s)" "usr_id u = uid"
    "usr_status u = Active" "\<forall>a. inv_email i = Some a \<longrightarrow> eq_ignore_ascii_case a (usr_email u)"
    and up: "join uid now i (spend now token s) = (Inr (), t)" using assms by (rule accept_body_cases)
  have t: "db_invites t = db_invites (spend now token s)" by (fact upsert_member_member(2) [OF up])
  have "inv_accepted_at x \<noteq> None \<or> inv_expires_at x \<le> now" if "\<not> usable now token x" "inv_token x = token" for x
    using that by (auto simp: usable_def)
  then show ?thesis unfolding invite_spent_def t by (simp add: ball_Un)
qed

lemma spent_refused:
  assumes "invite_spent now token s" "now \<le> later"
  shows "accept_body token uid later s = (Inl (Auth ''invite expired or already used''), s)"
proof -
  have "List.find (usable later token) (db_invites s) = None"
    using assms by (auto simp: find_None_iff usable_def invite_spent_def)
  then show ?thesis by (simp add: accept_body_def)
qed

lemma spent_tables: "tables s = tables t \<Longrightarrow> invite_spent now token s = invite_spent now token t"
  by (simp add: invite_spent_def tables_def accounts_def)

text \<open>C39. An invite is accepted at most once and by the account it is meant for: when accepting it succeeds the
  account exists, is active and has the address the invite names (if it names one), and is now a member
  of the team in the invited role or as the admin it already was; from then on accepting the same token
  never succeeds for anyone, unless another connection puts an unused invite with that token back.\<close>

theorem invite_once:
  assumes acc: "accept_invite env token uid now s = (Inr (), t)"
  shows "(\<exists>i u m. i \<in> set (db_invites t) \<and> inv_token i = token \<and> inv_accepted_at i = Some now \<and> now < inv_expires_at i \<and>
      u \<in> set (db_users t) \<and> usr_id u = uid \<and> usr_status u = Active \<and>
      (\<forall>a. inv_email i = Some a \<longrightarrow> eq_ignore_ascii_case a (usr_email u)) \<and>
      m \<in> set (db_members t) \<and> mb_team_id m = inv_team_id i \<and> mb_user_id m = uid \<and> mb_role m \<in> {inv_role i, TeamAdmin}) \<and>
    (now \<le> later \<longrightarrow> (\<forall>k x. invite_spent now token x \<longrightarrow> invite_spent now token (env' k x)) \<longrightarrow>
      fst (accept_invite env' token uid' later t) \<noteq> Inr ())"
proof -
  obtain s0 where body: "accept_body token uid now s0 = (Inr (), t)"
    using acc unfolding accept_invite_def by (rule account_write_ok)
  obtain i u where a: "i \<in> set (db_invites s0)" "usable now token i" "u \<in> set (db_users s0)" "usr_id u = uid"
    "usr_status u = Active" "\<forall>a. inv_email i = Some a \<longrightarrow> eq_ignore_ascii_case a (usr_email u)"
    and up: "join uid now i (spend now token s0) = (Inr (), t)" using body by (rule accept_body_cases)
  let ?i = "i\<lparr>inv_accepted_at := Some now\<rparr>"
  obtain m where m: "m \<in> set (db_members t)" "mb_team_id m = inv_team_id i" "mb_user_id m = uid"
    "mb_role m \<in> {inv_role i, TeamAdmin}"
    using upsert_member_member(3) [OF up] by (auto split: if_splits)
  have "?i \<in> set (db_invites t)" using a(1,2) by (force simp: upsert_member_member(2) [OF up])
  moreover have "u \<in> set (db_users t)" using a(3) by (simp add: upsert_member_member(1) [OF up])
  ultimately have once: "\<exists>i u m. i \<in> set (db_invites t) \<and> inv_token i = token \<and> inv_accepted_at i = Some now \<and> now < inv_expires_at i \<and>
      u \<in> set (db_users t) \<and> usr_id u = uid \<and> usr_status u = Active \<and>
      (\<forall>a. inv_email i = Some a \<longrightarrow> eq_ignore_ascii_case a (usr_email u)) \<and>
      m \<in> set (db_members t) \<and> mb_team_id m = inv_team_id i \<and> mb_user_id m = uid \<and> mb_role m \<in> {inv_role i, TeamAdmin}"
    using a m by (intro exI [of _ ?i] exI [of _ u] exI [of _ m]) (simp add: usable_def)
  let ?op = "transaction (accept_body token uid' later)"
  have "fst (accept_invite env' token uid' later t) \<noteq> Inr ()"
    if later: "now \<le> later" and env: "\<forall>k x. invite_spent now token x \<longrightarrow> invite_spent now token (env' k x)"
  proof
    assume "fst (accept_invite env' token uid' later t) = Inr ()"
    then obtain t' where "retry_from env' default_write_policy ''accept invite'' ?op 0 t = (Inr (), t')"
      unfolding accept_invite_def retry_write_def by (metis prod.collapse)
    then have "\<exists>x. invite_spent now token x \<and> ?op x = (Inr (), t')"
    proof (rule retry_from_last [where I = "invite_spent now token", rotated 3])
      show "invite_spent now token y" if "invite_spent now token x" "?op x = (Inl e, y)" for x e y
        using that spent_tables transaction_error by blast
    qed (use env accept_spends [OF body] in auto)
    then obtain x x0 where "invite_spent now token x" "tables x0 = tables x" "accept_body token uid' later x0 = (Inr (), t')"
      by (auto elim!: transaction_ok)
    then have "invite_spent now token x0" using spent_tables by blast
    then have "accept_body token uid' later x0 = (Inl (Auth ''invite expired or already used''), x0)"
      using later by (rule spent_refused)
    then show False using \<open>accept_body token uid' later x0 = (Inr (), t')\<close> by simp
  qed
  with once show ?thesis by blast
qed

section \<open>The operations keep the database consistent\<close>

lemma sessions_safe:
  assumes "world_ok s" "distinct (map ses_id xs)" "list_all (\<lambda>x. ses_user_id x \<in> set (user_ids s)) xs"
  shows "safe_change s (s\<lparr>db_sessions := xs\<rparr>)"
proof -
  let ?t = "s\<lparr>db_sessions := xs\<rparr>"
  have "store_ok ?t" by (rule store_ok_frame [of s]) (use assms in \<open>simp_all add: world_ok_def\<close>)
  moreover have "users_ok ?t" using assms unfolding world_ok_def users_ok_def by simp
  moreover have "teams_ok ?t" "members_ok ?t"
    using assms(1) unfolding world_ok_def teams_ok_def members_ok_def by simp_all
  ultimately show ?thesis by (simp add: safe_change_def world_ok_def owners_def has_admin_def)
qed

lemma passkeys_safe:
  assumes "world_ok s" "list_all (\<lambda>k. pk_user_id k \<in> set (user_ids s)) xs"
  shows "safe_change s (s\<lparr>db_passkeys := xs\<rparr>)"
proof -
  let ?t = "s\<lparr>db_passkeys := xs\<rparr>"
  have "store_ok ?t" by (rule store_ok_frame [of s]) (use assms in \<open>simp_all add: world_ok_def\<close>)
  moreover have "users_ok ?t" using assms unfolding world_ok_def users_ok_def by simp
  moreover have "teams_ok ?t" "members_ok ?t"
    using assms(1) unfolding world_ok_def teams_ok_def members_ok_def by simp_all
  ultimately show ?thesis by (simp add: safe_change_def world_ok_def owners_def has_admin_def)
qed

lemma invites_safe:
  assumes "world_ok s" "distinct (map inv_token xs)" "list_all (\<lambda>i. inv_team_id i \<in> set (team_ids s)) xs"
  shows "safe_change s (s\<lparr>db_invites := xs\<rparr>)"
proof -
  let ?t = "s\<lparr>db_invites := xs\<rparr>"
  have "store_ok ?t" by (rule store_ok_frame [of s]) (use assms in \<open>simp_all add: world_ok_def\<close>)
  moreover have "teams_ok ?t" using assms unfolding world_ok_def teams_ok_def by simp
  moreover have "users_ok ?t" "members_ok ?t"
    using assms(1) unfolding world_ok_def users_ok_def members_ok_def by simp_all
  ultimately show ?thesis by (simp add: safe_change_def world_ok_def owners_def has_admin_def)
qed

lemma safe_change_trans:
  assumes "safe_change s t" "safe_change t v" "set (team_ids v) \<subseteq> set (team_ids t)"
  shows "safe_change s v"
  using assms unfolding safe_change_def by blast

lemma upsert_member_teams: "upsert_member m f s = (r, t) \<Longrightarrow> db_teams t = db_teams s"
  by (auto simp: upsert_member_def split: if_splits)

lemma accept_body_safe:
  assumes ok: "world_ok s" and run: "accept_body token uid now s = (Inr v, t)"
  shows "safe_change s t"
proof -
  have run': "accept_body token uid now s = (Inr (), t)" using run by simp
  obtain i u where "i \<in> set (db_invites s)" "usable now token i" "u \<in> set (db_users s)" "usr_id u = uid"
    "usr_status u = Active" "\<forall>a. inv_email i = Some a \<longrightarrow> eq_ignore_ascii_case a (usr_email u)"
    and up: "join uid now i (spend now token s) = (Inr (), t)" using run' by (rule accept_body_cases)
  let ?f = "\<lambda>i. if usable now token i then i\<lparr>inv_accepted_at := Some now\<rparr> else i"
  let ?m = "\<lparr>mb_team_id = inv_team_id i, mb_user_id = uid, mb_role = inv_role i, mb_created_at = now\<rparr>"
  have "inv_token (?f x) = inv_token x" "inv_team_id (?f x) = inv_team_id x" for x by simp_all
  then have spend: "safe_change s (spend now token s)"
    using ok by (intro invites_safe) (simp_all add: world_ok_def teams_ok_def list_all_iff comp_def ball_Un)
  moreover have "safe_change (spend now token s) t"
  proof (rule upsert_member_safe [OF _ up])
    show "world_ok (spend now token s)" using spend by (simp add: safe_change_def)
    show "(\<forall>r. (if r = TeamAdmin then TeamAdmin else inv_role i) = TeamAdmin \<or> r = TeamContributor) \<or>
        require_another_admin (mb_team_id ?m) (mb_user_id ?m) (spend now token s) = None"
      using team_role.exhaust by auto
  qed
  moreover have "team_ids t = team_ids (spend now token s)" using upsert_member_teams [OF up] by simp
  ultimately show ?thesis by (auto intro: safe_change_trans [of s "spend now token s" t])
qed

inductive access_step :: "db \<Rightarrow> db \<Rightarrow> bool" where
  account: "account_step s t \<Longrightarrow> access_step s t"
| accept: "transaction (accept_body token uid now) s = (r, t) \<Longrightarrow> access_step s t"
| login: "create_session now sid uid expires_at s = (r, t) \<Longrightarrow> access_step s t"
| logout: "delete_session sid s = (r, t) \<Longrightarrow> access_step s t"
| logout_all: "delete_sessions_for_user uid s = (r, t) \<Longrightarrow> access_step s t"
| expire: "delete_expired_sessions now s = (r, t) \<Longrightarrow> access_step s t"
| invite: "create_invite now n s = (r, t) \<Longrightarrow> access_step s t"
| mark: "mark_accepted token accepted_at s = (r, t) \<Longrightarrow> access_step s t"
| drop_invite: "delete_invite token s = (r, t) \<Longrightarrow> access_step s t"
| register: "transaction (create_passkey_body kid now k) s = (r, t) \<Longrightarrow> access_step s t"

lemma session_ops_safe:
  assumes ok: "world_ok s"
  shows "create_session now sid uid e s = (r, t) \<Longrightarrow> safe_change s t"
    and "delete_session sid s = (r', t) \<Longrightarrow> safe_change s t"
    and "delete_sessions_for_user uid s = (r', t) \<Longrightarrow> safe_change s t"
    and "delete_expired_sessions now s = (r'', t) \<Longrightarrow> safe_change s t"
proof -
  have filter_safe: "safe_change x (x\<lparr>db_sessions := filter P (db_sessions x)\<rparr>)" if "world_ok x" for x P
    using that by (intro sessions_safe) (auto simp: world_ok_def users_ok_def list_all_iff distinct_map_filter)
  show "safe_change s t" if "create_session now sid uid e s = (r, t)"
    using _ ok that unfolding create_session_def
  proof (rule transaction_safe)
    fix x v y assume x: "world_ok x" and run: "(let z = \<lparr>ses_id = sid, ses_user_id = uid, ses_created_at = now, ses_expires_at = e\<rparr>
       in if sid \<in> set (map ses_id (db_sessions x)) then
         (Inl (Db (Database (DriverError (Some ''1555'') ''UNIQUE constraint failed: sessions.id''))), x)
       else if uid \<notin> set (user_ids x) then (Inl foreign_key_failed, x)
       else (Inr z, x\<lparr>db_sessions := db_sessions x @ [z]\<rparr>)) = (Inr v, y)"
    then obtain z where "y = x\<lparr>db_sessions := db_sessions x @ [z]\<rparr>" "ses_id z \<notin> set (map ses_id (db_sessions x))"
      "ses_user_id z \<in> set (user_ids x)" by (auto simp: Let_def split: if_splits)
    then show "safe_change x y" using x by (auto simp: world_ok_def users_ok_def intro!: sessions_safe)
  qed
  show "safe_change s t" if "delete_session sid s = (r', t)"
    using _ ok that unfolding delete_session_def by (rule transaction_safe) (auto intro: filter_safe)
  show "safe_change s t" if "delete_sessions_for_user uid s = (r', t)"
    using _ ok that unfolding delete_sessions_for_user_def by (rule transaction_safe) (auto intro: filter_safe)
  show "safe_change s t" if "delete_expired_sessions now s = (r'', t)"
    using _ ok that unfolding delete_expired_sessions_def by (rule transaction_safe) (auto intro: filter_safe)
qed

lemma invite_ops_safe:
  assumes ok: "world_ok s"
  shows "create_invite now n s = (r, t) \<Longrightarrow> safe_change s t"
    and "mark_accepted token a s = (r', t) \<Longrightarrow> safe_change s t"
    and "delete_invite token s = (r', t) \<Longrightarrow> safe_change s t"
proof -
  show "safe_change s t" if "create_invite now n s = (r, t)"
    using _ ok that unfolding create_invite_def
    by (rule transaction_safe)
      (auto simp: Let_def world_ok_def teams_ok_def intro!: invites_safe split: if_splits)
  show "safe_change s t" if "mark_accepted token a s = (r', t)"
    using _ ok that unfolding mark_accepted_def
  proof (rule transaction_safe)
    let ?f = "\<lambda>i. if inv_token i = token then i\<lparr>inv_accepted_at := Some a\<rparr> else i"
    fix x v y assume x: "world_ok x" and "(Inr (), x\<lparr>db_invites := map ?f (db_invites x)\<rparr>) = (Inr v, y)"
    then have y: "y = x\<lparr>db_invites := map ?f (db_invites x)\<rparr>" by simp
    have tokens: "map inv_token (map ?f xs) = map inv_token xs" for xs by simp
    have "distinct (map inv_token (map ?f (db_invites x)))"
      unfolding tokens using x by (simp add: world_ok_def teams_ok_def)
    moreover have "list_all (\<lambda>i. inv_team_id i \<in> set (team_ids x)) (map ?f (db_invites x))"
      using x by (simp add: world_ok_def teams_ok_def list_all_iff ball_Un)
    ultimately show "safe_change x y" unfolding y using x by (intro invites_safe)
  qed
  show "safe_change s t" if "delete_invite token s = (r', t)"
    using _ ok that unfolding delete_invite_def
    by (rule transaction_safe)
      (auto simp: world_ok_def teams_ok_def list_all_iff distinct_map_filter intro!: invites_safe)
qed

lemma create_passkey_safe:
  "world_ok s \<Longrightarrow> create_passkey_body kid now k s = (Inr v, t) \<Longrightarrow> safe_change s t"
  by (auto simp: create_passkey_body_def passkey_row_def world_ok_def users_ok_def intro!: passkeys_safe split: if_splits)

lemma access_step_safe:
  assumes "access_step s t" "world_ok s"
  shows "safe_change s t"
  using assms(1)
proof (cases rule: access_step.cases)
  case account
  then show ?thesis using assms(2) by (rule account_step_safe)
next
  case (accept token uid now r)
  show ?thesis by (rule transaction_safe [OF _ assms(2) accept]) (rule accept_body_safe)
next
  case (register kid now k r)
  show ?thesis by (rule transaction_safe [OF _ assms(2) register]) (rule create_passkey_safe)
next
  case login
  with assms(2) show ?thesis by (rule session_ops_safe(1))
next
  case logout
  with assms(2) show ?thesis by (rule session_ops_safe(2))
next
  case logout_all
  with assms(2) show ?thesis by (rule session_ops_safe(3))
next
  case expire
  with assms(2) show ?thesis by (rule session_ops_safe(4))
next
  case invite
  with assms(2) show ?thesis by (rule invite_ops_safe(1))
next
  case mark
  with assms(2) show ?thesis by (rule invite_ops_safe(2))
next
  case drop_invite
  with assms(2) show ?thesis by (rule invite_ops_safe(3))
qed

text \<open>The keys of the passkeys, their ids and their credential ids, and the users that issued invites or wrote mute
  rules: \<open>NULL\<close> once the user is gone.\<close>

definition creators :: "db \<Rightarrow> uuid option list" where
  "creators s = map inv_created_by (db_invites s) @ map rule_created_by (db_mute_rules s)"

definition keys_ok :: "db \<Rightarrow> bool" where
  "keys_ok s \<longleftrightarrow>
     distinct (map pk_id (db_passkeys s)) \<and> distinct (map pk_credential_id (db_passkeys s)) \<and>
     set (creators s) \<subseteq> insert None (Some ` set (user_ids s))"

lemma keys_ok_tables:
  assumes "tables s = tables t"
  shows "keys_ok s = keys_ok t"
proof -
  have "db_passkeys s = db_passkeys t" "db_invites s = db_invites t" "db_mute_rules s = db_mute_rules t"
    "db_users s = db_users t" using assms by (simp_all add: tables_def accounts_def)
  then show ?thesis by (simp only: keys_ok_def creators_def)
qed

lemma keys_ok_same:
  assumes "keys_ok s" "db_passkeys t = db_passkeys s" "db_invites t = db_invites s" "db_mute_rules t = db_mute_rules s"
    "set (user_ids s) \<subseteq> set (user_ids t)"
  shows "keys_ok t"
proof -
  have "creators t = creators s" using assms(3,4) by (simp only: creators_def)
  moreover have "Some ` set (user_ids s) \<subseteq> Some ` set (user_ids t)" using assms(5) by (rule image_mono)
  ultimately show ?thesis using assms(1,2) unfolding keys_ok_def by (simp only:) blast
qed

lemma keys_ok_fewer:
  assumes "keys_ok s" "db_passkeys t = filter P (db_passkeys s)" "db_invites t = filter Q (db_invites s)"
    "db_mute_rules t = db_mute_rules s" "user_ids t = user_ids s"
  shows "keys_ok t"
proof -
  have "set (creators t) \<subseteq> set (creators s)" using assms(3,4) by (auto simp: creators_def)
  then show ?thesis using assms(1,2,5) unfolding keys_ok_def by (auto simp: distinct_map_filter simp del: set_map)
qed

lemma set_user_ids: "(\<And>u. usr_id (f u) = usr_id u) \<Longrightarrow> user_ids (set_user uid f s) = user_ids s"
  by (simp add: set_user_def)

lemma set_user_id_set:
  "(\<And>u. usr_id (f u) = usr_id u) \<Longrightarrow> usr_id ` set (db_users (set_user uid f s)) = usr_id ` set (db_users s)"
  using set_user_ids [of f uid s] by (metis list.set_map)

lemma set_user_keeps [simp]:
  "db_passkeys (set_user uid f s) = db_passkeys s" "db_invites (set_user uid f s) = db_invites s"
  "db_mute_rules (set_user uid f s) = db_mute_rules s"
  by (simp_all add: set_user_def)

lemma delete_user_keys:
  assumes "keys_ok s"
  shows "keys_ok (delete_user_rows uid s)"
  using assms unfolding keys_ok_def creators_def delete_user_rows_def
  by (auto simp: distinct_map_filter image_iff subset_iff)

lemma upsert_member_keys: "keys_ok s \<Longrightarrow> upsert_member m f s = (r, t) \<Longrightarrow> keys_ok t"
  by (auto simp: upsert_member_def elim!: keys_ok_same split: if_splits)

lemma delete_empty_team_keys: "keys_ok s \<Longrightarrow> delete_empty_team tid s = (Inr v, t) \<Longrightarrow> keys_ok t"
  by (auto simp: delete_empty_team_def delete_team_rows_def split: if_splits
      intro: keys_ok_fewer [of s _ "\<lambda>_. True" "\<lambda>i. inv_team_id i \<noteq> tid"])

lemma account_bodies_keys:
  assumes ok: "keys_ok s"
  shows "create_account_body assign uid now n initial s = (Inr v, t) \<Longrightarrow> keys_ok t"
    and "update_user_body now uid up s = (Inr v1, t) \<Longrightarrow> keys_ok t"
    and "set_instance_role_body now uid inst s = (Inr v2, t) \<Longrightarrow> keys_ok t"
    and "delete_user_body uid s = (Inr v, t) \<Longrightarrow> keys_ok t"
    and "convert_to_sso_body uid s = (Inr v, t) \<Longrightarrow> keys_ok t"
    and "create_team_body tid short now name s = (Inr v, t) \<Longrightarrow> keys_ok t"
    and "rename_team_body now tid name s = (Inr v1, t) \<Longrightarrow> keys_ok t"
    and "delete_team_body now tid to s = (Inr v, t) \<Longrightarrow> keys_ok t"
    and "add_member_body now tid uid role s = (Inr v3, t) \<Longrightarrow> keys_ok t"
    and "set_member_role_body tid uid role s = (Inr v3, t) \<Longrightarrow> keys_ok t"
    and "remove_member_body tid uid s = (Inr v, t) \<Longrightarrow> keys_ok t"
proof -
  show "keys_ok t" if "create_account_body assign uid now n initial s = (Inr v, t)"
    using that by (intro keys_ok_same [OF ok]) (auto simp: create_account_body_def split: if_splits)
  show "keys_ok t" if "update_user_body now uid up s = (Inr v1, t)"
    using that by (intro keys_ok_same [OF ok]) (auto simp: update_user_body_def set_user_id_set profile_update_def)
  show "keys_ok t" if "set_instance_role_body now uid inst s = (Inr v2, t)"
    using that by (intro keys_ok_same [OF ok])
      (auto simp: set_instance_role_body_def set_user_id_set Let_def split: if_splits option.splits)
  show "keys_ok t" if "delete_user_body uid s = (Inr v, t)"
    using that delete_user_keys [OF ok] by (auto simp: delete_user_body_def split: if_splits)
  show "keys_ok t" if "convert_to_sso_body uid s = (Inr v, t)"
    using that by (intro keys_ok_fewer [OF ok, of _ "\<lambda>k. pk_user_id k \<noteq> uid" "\<lambda>_. True"])
      (auto simp: convert_to_sso_body_def set_user_ids split: if_splits option.splits)
  show "keys_ok t" if "create_team_body tid short now name s = (Inr v, t)"
    using that by (intro keys_ok_same [OF ok]) (auto simp: create_team_body_def split: if_splits)
  show "keys_ok t" if "rename_team_body now tid name s = (Inr v1, t)"
    using that by (intro keys_ok_same [OF ok]) (auto simp: rename_team_body_def split: if_splits)
  have moved: "keys_ok (move_projects now tid target s)" for target
    by (rule keys_ok_same [OF ok]) (simp_all add: move_projects_def)
  show "keys_ok t" if "delete_team_body now tid to s = (Inr v, t)"
    using that delete_empty_team_keys [OF ok] delete_empty_team_keys [OF moved]
    by (auto simp: delete_team_body_def split: option.splits if_splits)
  show "keys_ok t" if "add_member_body now tid uid role s = (Inr v3, t)"
    using that upsert_member_keys [OF ok]
    by (auto simp: add_member_body_def Let_def split: option.splits if_splits prod.splits sum.splits)
  show "keys_ok t" if "set_member_role_body tid uid role s = (Inr v3, t)"
    using that by (intro keys_ok_same [OF ok]) (auto simp: set_member_role_body_def split: option.splits if_splits)
  show "keys_ok t" if "remove_member_body tid uid s = (Inr v, t)"
    using that by (intro keys_ok_same [OF ok]) (auto simp: remove_member_body_def split: option.splits)
qed

lemma transaction_keys:
  assumes "\<And>s v t. keys_ok s \<Longrightarrow> body s = (Inr v, t) \<Longrightarrow> keys_ok t" and "keys_ok s" and run: "transaction body s = (r, t)"
  shows "keys_ok t"
proof (cases r)
  case (Inl e)
  then have "transaction body s = (Inl e, t)" using run by simp
  then show ?thesis using assms(2) keys_ok_tables [OF transaction_error] by blast
next
  case (Inr v)
  then have "transaction body s = (Inr v, t)" using run by simp
  then obtain s0 where "tables s0 = tables s" "body s0 = (Inr v, t)" by (rule transaction_ok)
  then show ?thesis using assms(1,2) keys_ok_tables by blast
qed

lemma account_step_keys: "account_step s t \<Longrightarrow> keys_ok s \<Longrightarrow> keys_ok t"
  by (induction rule: account_step.induct)
    (erule (1) transaction_keys [rotated], erule (1) account_bodies_keys)+

lemma access_bodies_keys:
  assumes ok: "keys_ok s"
  shows "accept_body token uid now s = (Inr v, t) \<Longrightarrow> keys_ok t"
    and "create_passkey_body kid now k s = (Inr v, t) \<Longrightarrow> keys_ok t"
proof -
  show "keys_ok t" if "accept_body token uid now s = (Inr v, t)"
  proof -
    have run: "accept_body token uid now s = (Inr (), t)" using that by simp
    obtain i where up: "join uid now i (spend now token s) = (Inr (), t)" using run by (rule accept_body_cases)
    have "keys_ok (spend now token s)"
      using ok by (auto simp: keys_ok_def creators_def)
    then show ?thesis using up by (rule upsert_member_keys)
  qed
  show "keys_ok t" if "create_passkey_body kid now k s = (Inr v, t)"
    using that ok by (auto simp: create_passkey_body_def passkey_row_def keys_ok_def creators_def split: if_splits) blast+
qed

lemma access_step_keys:
  assumes "access_step s t" "keys_ok s"
  shows "keys_ok t"
  using assms(1)
proof (cases rule: access_step.cases)
  case account
  then show ?thesis using assms(2) by (rule account_step_keys)
next
  case (accept token uid now r)
  show ?thesis by (rule transaction_keys [OF _ assms(2) accept]) (rule access_bodies_keys(1))
next
  case (login now sid uid e r)
  show ?thesis
    by (rule transaction_keys [OF _ assms(2) login [unfolded create_session_def]])
      (auto simp: Let_def elim!: keys_ok_same split: if_splits)
next
  case (logout sid r)
  show ?thesis
    by (rule transaction_keys [OF _ assms(2) logout [unfolded delete_session_def]]) (auto elim!: keys_ok_same)
next
  case (logout_all uid r)
  show ?thesis
    by (rule transaction_keys [OF _ assms(2) logout_all [unfolded delete_sessions_for_user_def]]) (auto elim!: keys_ok_same)
next
  case (expire now r)
  show ?thesis
    by (rule transaction_keys [OF _ assms(2) expire [unfolded delete_expired_sessions_def]]) (auto elim!: keys_ok_same)
next
  case (invite now n r)
  show ?thesis
    by (rule transaction_keys [OF _ assms(2) invite [unfolded create_invite_def]])
      (auto simp: Let_def keys_ok_def creators_def split: if_splits option.splits)
next
  case (mark token a r)
  show ?thesis
    by (rule transaction_keys [OF _ assms(2) mark [unfolded mark_accepted_def]])
      (auto simp: keys_ok_def creators_def; blast)+
next
  case (drop_invite token r)
  show ?thesis
    by (rule transaction_keys [OF _ assms(2) drop_invite [unfolded delete_invite_def]])
      (auto simp: keys_ok_def creators_def; blast)+
next
  case (register kid now k r)
  show ?thesis by (rule transaction_keys [OF _ assms(2) register]) (rule access_bodies_keys(2))
qed

text \<open>C35. Signing in and out, expiring sessions, issuing, accepting and revoking invites and registering
  passkeys, interleaved with any account operations, keep every key unique and every reference resolved
  (\<open>world_ok\<close>; for the ids and credential ids of passkeys and the users that issued invites and wrote mute rules
  \<open>keys_ok\<close>), an owner of the instance and an admin of every team that stays.\<close>

theorem access_steps_keep:
  assumes "access_step\<^sup>*\<^sup>* s t" "world_ok s"
  shows "world_ok t \<and> (keys_ok s \<longrightarrow> keys_ok t) \<and> (owners s \<noteq> [] \<longrightarrow> owners t \<noteq> []) \<and>
    (has_admin tid s \<and> (\<forall>x. access_step\<^sup>*\<^sup>* s x \<and> access_step\<^sup>*\<^sup>* x t \<longrightarrow> tid \<in> set (team_ids x)) \<longrightarrow> has_admin tid t)"
proof -
  have ok: "world_ok x" if "access_step\<^sup>*\<^sup>* s x" for x
    using that assms(2) by (induction rule: rtranclp_induct) (auto dest: access_step_safe simp: safe_change_def)
  have "owners t \<noteq> []" if "owners s \<noteq> []"
    using assms(1) that
  proof (induction rule: rtranclp_induct)
    case (step x y)
    then show ?case using ok access_step_safe by (auto simp: safe_change_def)
  qed
  moreover have "has_admin tid t" if "has_admin tid s"
    "\<forall>x. access_step\<^sup>*\<^sup>* s x \<and> access_step\<^sup>*\<^sup>* x t \<longrightarrow> tid \<in> set (team_ids x)"
    using assms(1) that
  proof (induction rule: rtranclp_induct)
    case (step x y)
    have "has_admin tid x"
      using step.IH step.prems step.hyps by (meson rtranclp.rtrancl_into_rtrancl)
    moreover have "tid \<in> set (team_ids y)"
      using step.prems(2) step.hyps by (meson rtranclp.rtrancl_into_rtrancl rtranclp.rtrancl_refl)
    ultimately show ?case using access_step_safe [OF step.hyps(2) ok [OF step.hyps(1)]] by (simp add: safe_change_def)
  qed
  moreover have "keys_ok t" if "keys_ok s"
    using assms(1) that by (induction rule: rtranclp_induct) (auto dest: access_step_keys)
  ultimately show ?thesis using ok [OF assms(1)] by blast
qed

section \<open>An instance with one user\<close>

text \<open>Two letters per byte, and a keyed code that is not secret but is a function of key and message.\<close>

fun letters :: "string \<Rightarrow> string" where
  "letters [] = []"
| "letters (b # s) = char_of (97 + byte b div 16) # char_of (97 + byte b mod 16) # letters s"

fun unletters :: "string \<Rightarrow> string option" where
  "unletters [] = Some []"
| "unletters (a # b # s) = map_option ((#) (char_of ((byte a - 97) * 16 + (byte b - 97)))) (unletters s)"
| "unletters _ = None"

definition letter_crypto :: crypto where
  "letter_crypto = \<lparr>b64_encode = letters, b64_decode = unletters, hmac_sha256 = (\<lambda>k m. k @ m)\<rparr>"

lemma unletters_letters: "unletters (letters s) = Some s"
proof (induction s)
  case (Cons b s)
  have "byte b < 256" by simp
  then have "byte b div 16 < 16" by linarith
  then have "byte (char_of (97 + byte b div 16)) = 97 + byte b div 16" "byte (char_of (97 + byte b mod 16)) = 97 + byte b mod 16"
    by simp_all
  then show ?case using Cons by (simp add: mult.commute)
qed simp

lemma letters_chars: "list_all is_ascii_alphanumeric (letters s)"
proof (induction s)
  case (Cons b s)
  have "byte b < 256" by simp
  then have "byte b div 16 < 16" by linarith
  then show ?case using Cons by (simp add: ascii_defs)
qed simp

lemma letter_crypto_ok [simp]: "crypto_ok letter_crypto"
  using letters_chars by (simp add: crypto_ok_def letter_crypto_def unletters_letters list_all_iff)

definition example_auth :: auth_config where
  "example_auth = \<lparr>ac_crypto = letter_crypto, ac_secret_key = ''key'', ac_base_url = ''https://s'',
     ac_admin_users = [], ac_oidc = False\<rparr>"

definition example_session :: session where
  "example_session = \<lparr>ses_id = ''0'', ses_user_id = ''u'', ses_created_at = 0, ses_expires_at = secs (30 * 86400)\<rparr>"

definition logged_in :: db where
  "logged_in = example_world\<lparr>rng_pos := 1, db_sessions := [example_session]\<rparr>"

definition example_cookie :: string where
  "example_cookie = build_session_cookie letter_crypto ''key'' ''0'' True"

lemma nat_to_dec_zero: "nat_to_dec 0 = ''0''"
  by code_simp

lemma example_login:
  "start_session example_auth 0 (usr_id example_user) example_world = (Inr (example_session, example_cookie), logged_in)"
proof -
  have secure: "cookie_secure ''https://s''" by (simp add: cookie_secure_def str_simps starts_with_def to_ascii_lowercase_def
      to_ascii_lower_def ascii_defs trim_start_def is_whitespace_def white_space_def char_width_def)
  have "dt_add_seconds 0 (SESSION_TTL_DAYS * 86400) = Inr (secs (30 * 86400))"
    by (simp add: chrono_defs SESSION_TTL_DAYS_def)
  then show ?thesis
    using secure
    by (simp add: start_session_def example_auth_def example_world_def example_db_def create_session_def transaction_def
        example_user_def user_row_def logged_in_def example_session_def example_cookie_def Let_def
        nat_to_dec_zero)
qed

theorem session_lifetime_witness:
  "authenticate_user example_auth 5 [(''cookie'', cookie_pair example_cookie)] logged_in =
     (Inr (admin_users_apply [] example_user), logged_in)"
proof -
  have "faults logged_in = []" "example_user \<in> set (db_users example_world)" "usr_status example_user = Active"
    "list_all ascii (ses_id example_session)"
    by (simp_all add: logged_in_def example_world_def example_db_def example_user_def user_row_def example_session_def)
  then show ?thesis
    using session_lifetime [of example_auth example_world 0 example_user example_session example_cookie logged_in
        "[(''cookie'', cookie_pair example_cookie)]" 5] example_login
    by (simp add: example_auth_def)
qed

theorem signed_in_sound_witness:
  "\<exists>x v. x \<in> set (db_sessions logged_in) \<and> 5 < ses_expires_at x \<and> v \<in> set (db_users logged_in) \<and>
     usr_id v = ses_user_id x"
proof -
  have "faults logged_in = []" "usr_status example_user = Active" "\<not> ac_oidc example_auth"
    by (simp_all add: logged_in_def example_world_def example_db_def example_user_def user_row_def example_auth_def)
  moreover have "session_id_from_headers (ac_crypto example_auth) (ac_secret_key example_auth)
      [(''cookie'', cookie_pair example_cookie)] = Some ''0''"
    by (rule session_id_read_back [where secure = True]) (simp_all add: example_auth_def example_cookie_def)
  moreover have "List.find (\<lambda>x. ses_id x = ''0'' \<and> 5 < ses_expires_at x) (db_sessions logged_in) = Some example_session"
    "List.find (\<lambda>u. usr_id u = ses_user_id example_session) (db_users logged_in) = Some example_user"
    by (simp_all add: logged_in_def example_session_def example_world_def example_user_def user_row_def)
  ultimately have "authenticate_user example_auth 5 [(''cookie'', cookie_pair example_cookie)] logged_in =
      (Inr (admin_users_apply (ac_admin_users example_auth) example_user), logged_in)"
    by (intro authenticate_live) simp_all
  from signed_in_sound [OF this] show ?thesis by blast
qed

theorem revoked_at_once_witness:
  "\<forall>hs t. authenticate_user example_auth 5 hs (snd (delete_sessions_for_user ''u'' logged_in)) \<noteq> (Inr example_user, t)"
proof -
  have "fst (delete_sessions_for_user ''u'' logged_in) = Inr ()"
    by (simp add: delete_sessions_for_user_def transaction_def logged_in_def example_world_def example_db_def)
  then have "delete_sessions_for_user ''u'' logged_in = (Inr (), snd (delete_sessions_for_user ''u'' logged_in))"
    by (metis prod.collapse)
  then show ?thesis
    using revoked_at_once [of "\<lambda>_ s. s" "''u''" logged_in "snd (delete_sessions_for_user ''u'' logged_in)" example_user
        example_auth 5 _ example_user] by (simp add: example_user_def user_row_def)
qed

definition example_invite :: invite where
  "example_invite = \<lparr>inv_token = ''k'', inv_team_id = ''t'', inv_role = TeamContributor, inv_email = Some ''a@b'',
     inv_created_by = None, inv_created_at = 0, inv_expires_at = 9, inv_accepted_at = None\<rparr>"

theorem invite_once_witness:
  "\<exists>t. accept_invite (\<lambda>_ s. s) ''k'' ''u'' 5 (example_world\<lparr>db_invites := [example_invite]\<rparr>) = (Inr (), t) \<and>
     fst (accept_invite (\<lambda>_ s. s) ''k'' ''u'' 6 t) \<noteq> Inr ()"
proof -
  let ?s = "example_world\<lparr>db_invites := [example_invite]\<rparr>"
  have "fst (transaction (accept_body ''k'' ''u'' 5) ?s) = Inr ()"
    by (simp add: transaction_def accept_body_def usable_def example_invite_def example_world_def example_db_def
        example_user_def user_row_def upsert_member_def eq_ignore_ascii_case_def to_ascii_lowercase_def
        to_ascii_lower_def ascii_defs Let_def)
  then obtain t where "transaction (accept_body ''k'' ''u'' 5) ?s = (Inr (), t)" by (metis prod.collapse)
  then have run: "accept_invite (\<lambda>_ s. s) ''k'' ''u'' 5 ?s = (Inr (), t)"
    unfolding accept_invite_def retry_write_def by (rule retry_from_Ok)
  then show ?thesis using invite_once [OF run, of 6 "\<lambda>_ s. s"] by auto
qed

theorem access_steps_keep_witness:
  "world_ok logged_in \<and> keys_ok (snd (delete_session ''0'' logged_in)) \<and>
     has_admin ''t'' (snd (delete_session ''0'' logged_in))"
proof -
  let ?t = "snd (delete_session ''0'' logged_in)"
  have step: "access_step example_world (logged_in\<lparr>rng_pos := 0\<rparr>)"
    by (rule access_step.login [of 0 "''0''" "''u''" "secs (30 * 86400)" _ "Inr example_session"])
      (simp add: create_session_def transaction_def logged_in_def example_session_def example_world_def example_db_def
        example_user_def user_row_def Let_def)
  then have "world_ok (logged_in\<lparr>rng_pos := 0\<rparr>)" using access_steps_keep example_world_ok(1) by blast
  then have ok: "world_ok logged_in" using tables_accounts [of "logged_in\<lparr>rng_pos := 0\<rparr>" logged_in] by simp
  have bye: "access_step logged_in ?t" by (intro access_step.logout) (rule surjective_pairing)
  have "access_step\<^sup>*\<^sup>* logged_in ?t" using bye by (rule r_into_rtranclp)
  then have "world_ok ?t" using access_steps_keep ok by blast
  moreover have "keys_ok logged_in"
    by (simp add: keys_ok_def creators_def logged_in_def example_world_def example_db_def)
  then have "keys_ok ?t" using access_steps_keep [OF r_into_rtranclp [of access_step, OF bye] ok] by blast
  moreover have "db_members ?t = db_members example_world"
    by (simp add: delete_session_def transaction_def logged_in_def example_world_def example_db_def)
  ultimately show ?thesis using ok example_world_ok(3) by (simp add: has_admin_def)
qed

end
