(* ===== verification/Ops.thy ===== *)
theory Ops
  imports Store
begin

text \<open>
  Sequencing of operations: Rust's \<open>?\<close> on a result, on a state-passing operation. Long handlers are
  written with \<open>op_bind\<close>; the rules below take a run apart into the runs of its steps. A run that
  fails answers a value of any type \<open>'e\<close>: the \<open>error\<close> of the repositories, or what an HTTP handler
  answers instead.
\<close>

type_synonym ('s, 'e, 'a) run = "'s \<Rightarrow> ('e + 'a) \<times> 's"

definition op_ok :: "'a \<Rightarrow> ('s, 'e, 'a) run" where
  "op_ok v s = (Inr v, s)"

definition op_err :: "'e \<Rightarrow> ('s, 'e, 'a) run" where
  "op_err e s = (Inl e, s)"

definition op_res :: "'e + 'a \<Rightarrow> ('s, 'e, 'a) run" where
  "op_res r s = (r, s)"

definition op_bind :: "('s, 'e, 'a) run \<Rightarrow> ('a \<Rightarrow> ('s, 'e, 'b) run) \<Rightarrow> ('s, 'e, 'b) run" where
  "op_bind m f s = (case m s of (Inl e, t) \<Rightarrow> (Inl e, t) | (Inr v, t) \<Rightarrow> f v t)"

text \<open>The result of an operation as a value: a caller that looks at the error and goes on.\<close>

definition op_try :: "('s, 'e, 'a) run \<Rightarrow> ('s, 'f, 'e + 'a) run" where
  "op_try m s = (case m s of (r, t) \<Rightarrow> (Inr r, t))"

lemma op_bind_Inr:
  "op_bind m f s = (Inr v, t) \<longleftrightarrow> (\<exists>a u. m s = (Inr a, u) \<and> f a u = (Inr v, t))"
  by (auto simp: op_bind_def split: prod.splits sum.splits)

lemma op_bind_cases:
  assumes "op_bind m f s = (r, t)"
  obtains e where "m s = (Inl e, t)" "r = Inl e"
  | a u where "m s = (Inr a, u)" "f a u = (r, t)"
  using assms by (auto simp: op_bind_def split: prod.splits sum.splits)

lemmas op_simps [simp] = op_ok_def op_err_def op_res_def

lemma op_bind_run: "m s = (Inr a, u) \<Longrightarrow> op_bind m f s = f a u"
  by (simp add: op_bind_def)

lemma op_bind_fail: "m s = (Inl e, u) \<Longrightarrow> op_bind m f s = (Inl e, u)"
  by (simp add: op_bind_def)

text \<open>A relation between the states before and after an operation.\<close>

definition moves :: "('s \<Rightarrow> 's \<Rightarrow> bool) \<Rightarrow> ('s, 'e, 'a) run \<Rightarrow> bool" where
  "moves R m \<longleftrightarrow> (\<forall>s r t. m s = (r, t) \<longrightarrow> R s t)"

lemma movesI: "(\<And>s r t. m s = (r, t) \<Longrightarrow> R s t) \<Longrightarrow> moves R m"
  by (auto simp: moves_def)

lemma movesD: "moves R m \<Longrightarrow> m s = (r, t) \<Longrightarrow> R s t"
  by (auto simp: moves_def)

locale step_relation =
  fixes R :: "'s \<Rightarrow> 's \<Rightarrow> bool"
  assumes refl: "R s s" and trans: "R s t \<Longrightarrow> R t u \<Longrightarrow> R s u"
begin

lemma moves_ok: "moves R (op_ok v)" "moves R (op_err e)" "moves R (op_res r)"
  by (auto intro!: movesI simp: refl)

lemma moves_bind:
  assumes "moves R m" "\<And>a. moves R (f a)"
  shows "moves R (op_bind m f)"
proof (rule movesI)
  fix s r t assume "op_bind m f s = (r, t)"
  then show "R s t"
  proof (cases rule: op_bind_cases)
    case (2 a u)
    then show ?thesis using movesD [OF assms(1)] movesD [OF assms(2)] trans by blast
  qed (use movesD [OF assms(1)] in blast)
qed

lemma moves_try: "moves R m \<Longrightarrow> moves R (op_try m)"
  by (auto simp: moves_def op_try_def split: prod.splits)

lemma moves_if: "(b \<Longrightarrow> moves R m) \<Longrightarrow> (\<not> b \<Longrightarrow> moves R m') \<Longrightarrow> moves R (if b then m else m')"
  by simp

lemma moves_retry:
  assumes "moves R m" "\<forall>k s. R s (env k s)"
  shows "moves R (retry_write env p what m)"
proof (rule movesI)
  fix s r t assume run: "retry_write env p what m s = (r, t)"
  show "R s t"
  proof (rule retry_from_preserves [where I = "R s" and op = m and env = env and s = s])
    show "R s u" if "R s v" "m v = (q, u)" for v q u
      using that movesD [OF assms(1)] trans by blast
    show "R s (env n v)" if "R s v" for n v using that assms(2) trans by blast
  qed (use run refl in \<open>auto simp: retry_write_def\<close>)
qed

end

end
