(* ===== verification/Notifications.thy ===== *)
theory Notifications
  imports Domain
begin

text \<open>
  Notification settings and templates (\<open>src/domain/notifications.rs\<close>): the substitution of
  \<open>{{ variable }}\<close> placeholders, the validation of an Alertmanager configuration, alert names,
  severities and refresh intervals.

  A \<open>BTreeMap\<close> is a sorted association list. \<open>reqwest::Url::parse\<close> is an argument that
  gives the parts of a URL the code looks at.
\<close>

section \<open>Severities and names\<close>

datatype alert_severity = Critical | Warning | Info

fun alert_name :: "alert_severity \<Rightarrow> string" where
  "alert_name Critical = ''SoikaIssueCritical''"
| "alert_name Warning = ''SoikaIssueWarning''"
| "alert_name Info = ''SoikaIssueInfo''"

fun severity_as_str :: "alert_severity \<Rightarrow> string" where
  "severity_as_str Critical = ''critical''"
| "severity_as_str Warning = ''warning''"
| "severity_as_str Info = ''info''"

definition severity_from_str :: "string \<Rightarrow> alert_severity res" where
  "severity_from_str value =
     (if value = ''critical'' then Inr Critical
      else if value = ''warning'' then Inr Warning
      else if value = ''info'' then Inr Info
      else Inl (Validation ''severity must be critical, warning or info''))"

record alertmanager_names =
  an_critical :: string
  an_warning :: string
  an_info :: string
  an_project_test :: string

definition default_names :: alertmanager_names where
  "default_names = \<lparr>an_critical = alert_name Critical, an_warning = alert_name Warning, an_info = alert_name Info,
     an_project_test = ''SoikaIssueCritical''\<rparr>"

fun for_severity :: "alertmanager_names \<Rightarrow> alert_severity \<Rightarrow> string" where
  "for_severity n Critical = an_critical n"
| "for_severity n Warning = an_warning n"
| "for_severity n Info = an_info n"

definition normalized_names :: "alertmanager_names \<Rightarrow> alertmanager_names res" where
  "normalized_names n =
     (let n = \<lparr>an_critical = trim (an_critical n), an_warning = trim (an_warning n), an_info = trim (an_info n),
               an_project_test = trim (an_project_test n)\<rparr> in
      if [] \<in> {an_critical n, an_warning n, an_info n, an_project_test n}
      then Inl (Validation ''alert names must not be empty'') else Inr n)"

section \<open>Templates\<close>

definition VARIABLES :: "string list" where
  "VARIABLES =
     [''project_name'', ''project_slug'', ''project_id'', ''team_id'', ''issue_id'', ''issue_short_id'', ''title'',
      ''culprit'', ''level'', ''environment'', ''release'', ''event_count'', ''first_seen'', ''last_seen'',
      ''issue_url'', ''org_name'', ''trigger'']"

lemma str_find_bound: "str_find s p = Some i \<Longrightarrow> i + length p \<le> length s"
  using str_find_Some [of s p i] by (auto dest: starts_with_drop)

text \<open>The loop of \<open>render_template\<close>: \<open>out\<close> is what has been rendered, \<open>remaining\<close> the template
  behind the last placeholder.\<close>

function render_loop :: "string \<Rightarrow> string \<Rightarrow> string bmap \<Rightarrow> string res" where
  "render_loop out remaining variables =
     (case str_find remaining ''{{'' of
        None \<Rightarrow>
          (if str_contains remaining ''}}'' then Inl (Validation ''invalid notification placeholder'')
           else Inr (out @ remaining))
      | Some start \<Rightarrow>
          (let prefix = take start remaining; tail = drop (start + 2) remaining in
           if str_contains prefix ''}}'' then Inl (Validation ''invalid notification placeholder'')
           else case str_find tail ''}}'' of
                  None \<Rightarrow> Inl (Validation ''unclosed notification placeholder'')
                | Some stop \<Rightarrow>
                    (let name = trim (take stop tail) in
                     if name \<notin> set VARIABLES then Inl (Validation (''unknown notification variable: '' @ name))
                     else case map_of variables name of
                            None \<Rightarrow> Inl (Validation ''missing notification variable'')
                          | Some v \<Rightarrow> render_loop (out @ prefix @ v) (drop (stop + 2) tail) variables)))"
  by pat_completeness auto
termination
  by (relation "measure (\<lambda>(out, remaining, variables). length remaining)") (auto dest: str_find_bound)

declare render_loop.simps [simp del]

definition render_template :: "string \<Rightarrow> string bmap \<Rightarrow> string res" where
  "render_template template variables =
     (if str_contains template ''{%'' \<or> str_contains template ''{#''
      then Inl (Validation ''only {{ variable }} placeholders are supported'')
      else render_loop [] template variables)"

definition sample_value :: "string \<Rightarrow> string" where
  "sample_value key =
     (case map_of
        [(''project_name'', ''Example project''), (''project_slug'', ''example''),
         (''project_id'', ''00000000-0000-0000-0000-000000000001''),
         (''team_id'', ''00000000-0000-0000-0000-000000000002''),
         (''issue_id'', ''00000000-0000-0000-0000-000000000003''), (''issue_short_id'', ''iss001''),
         (''title'', ''ValueError: example error''), (''culprit'', ''app.checkout''), (''level'', ''error''),
         (''environment'', ''production''), (''release'', ''1.0.0''), (''event_count'', ''42''),
         (''first_seen'', ''2026-01-01T12:00:00Z''), (''last_seen'', ''2026-01-01T12:00:00Z''),
         (''issue_url'', ''https://errors.example.com/projects/web001/issues/iss001''),
         (''org_name'', ''soika''), (''trigger'', ''new_issue'')] key of
        Some v \<Rightarrow> v | None \<Rightarrow> [])"

definition sample_variables :: "string bmap" where
  "sample_variables = fold (\<lambda>k. bm_insert k (sample_value k)) VARIABLES []"

section \<open>Configuration\<close>

record base_url =
  bu_scheme :: string
  bu_host :: "string option"
  bu_username :: string
  bu_password :: "string option"
  bu_query :: "string option"
  bu_fragment :: "string option"

record alertmanager_config =
  am_enabled :: bool
  am_url :: string
  am_labels :: "string bmap"
  am_annotations :: "string bmap"

text \<open>The struct \<open>NotificationConfig\<close> has this one field.\<close>

type_synonym notification_config = alertmanager_config

definition default_config :: notification_config where
  "default_config =
     \<lparr>am_enabled = False, am_url = [],
      am_labels = [(''alertname'', ''SoikaIssue''), (''project'', ''{{ project_slug }}''), (''severity'', ''{{ level }}'')],
      am_annotations =
        [(''description'', ''{{ culprit }}''), (''environment'', ''{{ environment }}''),
         (''event_count'', ''{{ event_count }}''), (''issue_url'', ''{{ issue_url }}''),
         (''release'', ''{{ release }}''), (''summary'', ''{{ title }}''), (''trigger'', ''{{ trigger }}'')]\<rparr>"

definition label_char :: "string \<Rightarrow> bool" where
  "label_char c \<longleftrightarrow> (case c of [b] \<Rightarrow> is_ascii_alphanumeric b \<or> b = CHR ''_'' | _ \<Rightarrow> False)"

definition label_start :: "string \<Rightarrow> bool" where
  "label_start c \<longleftrightarrow> (case c of [b] \<Rightarrow> is_ascii_alphabetic b \<or> b = CHR ''_'' | _ \<Rightarrow> False)"

definition valid_label_name :: "string \<Rightarrow> bool" where
  "valid_label_name key \<longleftrightarrow>
     (case chars key of [] \<Rightarrow> False | c # cs \<Rightarrow> label_start c \<and> list_all label_char cs) \<and> length key \<le> 128"

fun validate_entries :: "string bmap \<Rightarrow> unit res" where
  "validate_entries [] = Inr ()"
| "validate_entries ((key, value) # rest) =
     (if \<not> valid_label_name key then Inl (Validation ''invalid label or annotation name'')
      else if 8192 < length value then Inl (Validation ''notification template is too long'')
      else case render_template value sample_variables of
             Inl e \<Rightarrow> Inl e
           | Inr _ \<Rightarrow> validate_entries rest)"

definition validate_map :: "string bmap \<Rightarrow> unit res" where
  "validate_map m =
     (if 64 < length m then Inl (Validation ''at most 64 labels or annotations are allowed'') else validate_entries m)"

definition validate_base_url :: "(string \<Rightarrow> base_url option) \<Rightarrow> alertmanager_config \<Rightarrow> unit res" where
  "validate_base_url url_parse c =
     (if am_enabled c \<or> am_url c \<noteq> [] then
        (case url_parse (am_url c) of
           None \<Rightarrow> Inl (Validation ''invalid Alertmanager base URL'')
         | Some u \<Rightarrow>
             (if bu_scheme u \<notin> {''http'', ''https''} \<or> bu_host u = None \<or> bu_username u \<noteq> [] \<or> bu_password u \<noteq> None \<or>
                 bu_query u \<noteq> None \<or> bu_fragment u \<noteq> None
              then Inl (Validation ''Alertmanager requires an HTTP(S) base URL without credentials, query or fragment'')
              else Inr ()))
      else Inr ())"

definition validate_config :: "(string \<Rightarrow> base_url option) \<Rightarrow> alertmanager_config \<Rightarrow> unit res" where
  "validate_config url_parse c =
     (case validate_base_url url_parse c of
        Inl e \<Rightarrow> Inl e
      | Inr _ \<Rightarrow>
          (case validate_map (am_labels c) of
             Inl e \<Rightarrow> Inl e
           | Inr _ \<Rightarrow>
               (case validate_map (am_annotations c) of
                  Inl e \<Rightarrow> Inl e
                | Inr _ \<Rightarrow>
                    (if bm_contains ''issue_id'' (am_labels c) \<or> bm_contains ''project_id'' (am_labels c) then
                       Inl (Validation ''issue_id and project_id labels are reserved'')
                     else if (case map_of (am_labels c) ''alertname'' of None \<Rightarrow> True | Some s \<Rightarrow> trim s = []) then
                       Inl (Validation ''alertname label is required'')
                     else Inr ()))))"

definition validate_stored :: "(string \<Rightarrow> base_url option) \<Rightarrow> notification_config \<Rightarrow> unit res" where
  "validate_stored url_parse c = validate_config url_parse (c\<lparr>am_enabled := False\<rparr>)"

definition effective_config ::
  "(string \<Rightarrow> base_url option) \<Rightarrow> notification_config \<Rightarrow> string option \<Rightarrow> notification_config res" where
  "effective_config url_parse c default_url =
     (let c = (if trim (am_url c) = [] then c\<lparr>am_url := (case default_url of Some u \<Rightarrow> u | None \<Rightarrow> [])\<rparr> else c) in
      case validate_config url_parse c of Inl e \<Rightarrow> Inl e | Inr _ \<Rightarrow> Inr c)"

section \<open>Alerts and intervals\<close>

record alertmanager_alert =
  al_labels :: "string bmap"
  al_annotations :: "string bmap"
  al_starts_at :: timestamp
  al_ends_at :: timestamp
  al_generator_url :: string

record active_alert =
  aa_last_sent_at :: "timestamp option"
  aa_issue_id :: uuid
  aa_endpoint :: string
  aa_trigger :: string
  aa_alert :: alertmanager_alert

record alertmanager_interval =
  ai_interval_seconds :: "int option"
  ai_effective_interval_seconds :: int

definition validate_interval :: "int \<Rightarrow> unit res" where
  "validate_interval seconds =
     (if 10 \<le> seconds \<and> seconds \<le> 86400 then Inr ()
      else Inl (Validation ''Alertmanager interval must be between 10 and 86400 seconds''))"

section \<open>Rendering is substitution\<close>

text \<open>A template without its variables: literal text and placeholders.\<close>

datatype piece = Text string | Var string

function template_pieces :: "string \<Rightarrow> piece list res" where
  "template_pieces remaining =
     (case str_find remaining ''{{'' of
        None \<Rightarrow>
          (if str_contains remaining ''}}'' then Inl (Validation ''invalid notification placeholder'')
           else Inr [Text remaining])
      | Some start \<Rightarrow>
          (let prefix = take start remaining; tail = drop (start + 2) remaining in
           if str_contains prefix ''}}'' then Inl (Validation ''invalid notification placeholder'')
           else case str_find tail ''}}'' of
                  None \<Rightarrow> Inl (Validation ''unclosed notification placeholder'')
                | Some stop \<Rightarrow>
                    (let name = trim (take stop tail) in
                     if name \<notin> set VARIABLES then Inl (Validation (''unknown notification variable: '' @ name))
                     else case template_pieces (drop (stop + 2) tail) of
                            Inl e \<Rightarrow> Inl e
                          | Inr ps \<Rightarrow> Inr (Text prefix # Var name # ps))))"
  by pat_completeness auto
termination
  by (relation "measure length") (auto dest: str_find_bound)

declare template_pieces.simps [simp del]

definition complete :: "string bmap \<Rightarrow> bool" where
  "complete variables \<longleftrightarrow> (\<forall>v \<in> set VARIABLES. map_of variables v \<noteq> None)"

fun piece_text :: "string bmap \<Rightarrow> piece \<Rightarrow> string" where
  "piece_text variables (Text t) = t"
| "piece_text variables (Var v) = the (map_of variables v)"

lemma render_loop_pieces:
  assumes "complete variables"
  shows "render_loop out remaining variables =
     (case template_pieces remaining of
        Inl e \<Rightarrow> Inl e
      | Inr ps \<Rightarrow> Inr (out @ concat (map (piece_text variables) ps)))"
  using assms
proof (induction out remaining variables rule: render_loop.induct)
  case (1 out remaining variables)
  show ?case
  proof (cases "str_find remaining ''{{''")
    case None
    then show ?thesis by (simp add: render_loop.simps [of out remaining] template_pieces.simps [of remaining])
  next
    case (Some start)
    let ?tail = "drop (start + 2) remaining"
    show ?thesis
    proof (cases "str_find ?tail ''}}''")
      case None
      with Some show ?thesis
        by (simp add: render_loop.simps [of out remaining] template_pieces.simps [of remaining] Let_def)
    next
      case (Some stop)
      let ?name = "trim (take stop ?tail)"
      have "?name \<in> set VARIABLES \<Longrightarrow> \<exists>v. map_of variables ?name = Some v"
        using 1(2) by (auto simp: complete_def)
      then show ?thesis
        using \<open>str_find remaining ''{{'' = Some start\<close> Some
          1(1) [OF \<open>str_find remaining ''{{'' = Some start\<close> refl refl _ Some refl _ _ 1(2)]
        by (cases "?name \<in> set VARIABLES")
          (auto simp: render_loop.simps [of out remaining] template_pieces.simps [of remaining] Let_def split: sum.split)
    qed
  qed
qed

lemma render_template_pieces:
  assumes "complete variables"
  shows "render_template template variables =
     (if str_contains template ''{%'' \<or> str_contains template ''{#''
      then Inl (Validation ''only {{ variable }} placeholders are supported'')
      else case template_pieces template of
             Inl e \<Rightarrow> Inl e
           | Inr ps \<Rightarrow> Inr (concat (map (piece_text variables) ps)))"
  by (simp add: render_template_def render_loop_pieces [OF assms] split: sum.split)

lemma complete_fold:
  "map_of (fold (\<lambda>k. bm_insert k (f k)) ks m) v \<noteq> None \<longleftrightarrow> v \<in> set ks \<or> map_of m v \<noteq> None"
  by (induction ks arbitrary: m) auto

lemma complete_sample: "complete sample_variables"
  unfolding complete_def sample_variables_def complete_fold by simp

lemma validate_entries_mem:
  assumes "validate_entries m = Inr ()" "(key, value) \<in> set m"
  shows "valid_label_name key" "length value \<le> 8192" "\<exists>r. render_template value sample_variables = Inr r"
  using assms by (induction m rule: validate_entries.induct) (auto split: if_splits sum.splits)

lemma validate_config_ok:
  assumes "validate_config url_parse c = Inr ()"
  shows "validate_entries (am_labels c) = Inr ()" "validate_entries (am_annotations c) = Inr ()"
    "length (am_labels c) \<le> 64" "length (am_annotations c) \<le> 64"
    "validate_base_url url_parse c = Inr ()"
    "map_of (am_labels c) ''issue_id'' = None" "map_of (am_labels c) ''project_id'' = None"
    "\<exists>s. map_of (am_labels c) ''alertname'' = Some s \<and> trim s \<noteq> []"
  using assms
  by (auto simp: validate_config_def validate_map_def bm_contains_def split: sum.splits if_splits option.splits)

lemma effective_config_valid:
  "effective_config url_parse c u = Inr c' \<Longrightarrow>
     validate_config url_parse c' = Inr () \<and> am_labels c' = am_labels c \<and> am_annotations c' = am_annotations c \<and>
     am_enabled c' = am_enabled c"
  by (auto simp: effective_config_def Let_def split: sum.splits if_splits)

text \<open>How a piece is written in a template: a text stands for itself and holds no brace pair, a variable stands
  between \<open>{{\<close> and \<open>}}\<close> and may be surrounded by white space.\<close>

fun spells :: "piece \<Rightarrow> string \<Rightarrow> bool" where
  "spells (Text t) s \<longleftrightarrow> s = t \<and> \<not> str_contains t ''{{'' \<and> \<not> str_contains t ''}}''"
| "spells (Var v) s \<longleftrightarrow> v \<in> set VARIABLES \<and> (\<exists>name. s = ''{{'' @ name @ ''}}'' \<and> trim name = v)"

lemma str_find_first: "str_find s p = Some i \<Longrightarrow> p \<noteq> [] \<Longrightarrow> \<not> str_contains (take i s) p"
proof (induction s arbitrary: i)
  case (Cons c s)
  show ?case
  proof (cases "starts_with (c # s) p")
    case False
    then obtain j where j: "str_find s p = Some j" "i = Suc j" using Cons.prems by auto
    have "\<not> starts_with (c # take j s) p"
    proof
      assume "starts_with (c # take j s) p"
      then obtain r where r: "c # take j s = p @ r" by (rule starts_withE) simp
      have "c # s = p @ r @ drop j s" using arg_cong [OF r, of "\<lambda>x. x @ drop j s"] by simp
      then show False using False by (simp add: starts_with_def)
    qed
    then show ?thesis using Cons.IH [OF j(1) Cons.prems(2)] j(2) by (simp add: str_contains_def)
  qed (use Cons.prems in \<open>simp add: str_contains_def\<close>)
qed (auto simp: str_contains_def split: if_splits)

lemma template_pieces_spelled:
  "template_pieces template = Inr ps \<Longrightarrow> \<exists>ss. list_all2 spells ps ss \<and> concat ss = template"
proof (induction template arbitrary: ps rule: template_pieces.induct)
  case (1 remaining)
  show ?case
  proof (cases "str_find remaining ''{{''")
    case None
    then have "ps = [Text remaining]" "\<not> str_contains remaining ''}}''"
      using 1(2) by (auto simp: template_pieces.simps [of remaining] split: if_splits)
    then show ?thesis using None by (intro exI [of _ "[remaining]"]) (simp add: str_contains_def)
  next
    case (Some start)
    let ?tail = "drop (start + 2) remaining"
    obtain stop qs where q: "\<not> str_contains (take start remaining) ''}}''" "str_find ?tail ''}}'' = Some stop"
      "trim (take stop ?tail) \<in> set VARIABLES" "template_pieces (drop (stop + 2) ?tail) = Inr qs"
      "ps = Text (take start remaining) # Var (trim (take stop ?tail)) # qs"
      using 1(2) Some by (auto simp: template_pieces.simps [of remaining] Let_def split: option.splits if_splits sum.splits)
    then obtain ss where ss: "list_all2 spells qs ss" "concat ss = drop (stop + 2) ?tail"
      using 1(1) [OF Some refl refl _ _ refl] by blast
    have cut: "remaining = take start remaining @ ''{{'' @ ?tail" "?tail = take stop ?tail @ ''}}'' @ drop (stop + 2) ?tail"
      using str_find_Some(1) [OF Some] str_find_Some(1) [OF q(2)] by simp_all
    let ?ss = "take start remaining # (''{{'' @ take stop ?tail @ ''}}'') # ss"
    have "list_all2 spells ps ?ss" using ss(1) q str_find_first [OF Some] by auto
    moreover have "concat ?ss = remaining" using cut ss(2) by simp
    ultimately show ?thesis by blast
  qed
qed

text \<open>C32. A configuration that validates renders: the text of each of its labels and annotations is, read from
  left to right, a sequence of literal texts without a brace pair and of known variables between \<open>{{\<close> and
  \<open>}}\<close>; and with every complete set of variables it renders to exactly that sequence, each text of it kept and
  each variable replaced by its value, so nothing of the template is lost and no value is ever read as a template.\<close>

theorem validated_templates_render:
  assumes "validate_config url_parse c = Inr ()" "(key, template) \<in> set (am_labels c) \<union> set (am_annotations c)"
  shows "\<exists>ps ss. list_all2 spells ps ss \<and> concat ss = template \<and>
     (\<forall>variables. complete variables \<longrightarrow>
        render_template template variables = Inr (concat (map (piece_text variables) ps)))"
proof -
  have "\<exists>r. render_template template sample_variables = Inr r"
    using assms validate_config_ok(1,2) [OF assms(1)] validate_entries_mem(3) by blast
  then obtain ps where ps: "template_pieces template = Inr ps" "\<not> str_contains template ''{%''" "\<not> str_contains template ''{#''"
    by (auto simp: render_template_pieces [OF complete_sample] split: if_splits sum.splits)
  moreover obtain ss where "list_all2 spells ps ss" "concat ss = template"
    using template_pieces_spelled [OF ps(1)] by blast
  ultimately show ?thesis
    by (intro exI [of _ ps] exI [of _ ss]) (simp add: render_template_pieces)
qed

definition small_config :: notification_config where
  "small_config = \<lparr>am_enabled = False, am_url = [], am_labels = [(''alertname'', ''{{title}}'')], am_annotations = []\<rparr>"

lemma trim_title: "trim ''title'' = ''title''" "trim ''{{title}}'' \<noteq> []"
  by (simp_all add: trim_def trim_start_def trim_end_def is_whitespace_def white_space_def char_width_def)

lemma small_config_valid: "validate_config (\<lambda>_. None) small_config = Inr ()"
proof -
  have "template_pieces ''{{title}}'' = Inr [Text [], Var ''title'', Text []]"
    by (simp add: template_pieces.simps [of "''{{title}}''"] template_pieces.simps [of "[]"] starts_with_def str_contains_def
        trim_title VARIABLES_def)
  then have "\<exists>r. render_template ''{{title}}'' sample_variables = Inr r"
    by (simp add: render_template_pieces [OF complete_sample] str_contains_def starts_with_def)
  moreover have "valid_label_name ''alertname''"
    by (simp add: valid_label_name_def label_start_def label_char_def ascii_defs char_width_def)
  ultimately show ?thesis
    by (auto simp: validate_config_def validate_base_url_def validate_map_def small_config_def bm_contains_def trim_title)
qed

theorem validated_templates_render_witness:
  "\<exists>ps ss. list_all2 spells ps ss \<and> concat ss = ''{{title}}'' \<and>
     (\<forall>variables. complete variables \<longrightarrow>
        render_template ''{{title}}'' variables = Inr (concat (map (piece_text variables) ps)))"
  by (rule validated_templates_render [OF small_config_valid, of "''alertname''"]) (simp add: small_config_def)

end
