(* ===== verification/NotifyStore.thy ===== *)
theory NotifyStore
  imports Ops AccountStore Notifications Chrono
begin

text \<open>
  The settings and notification tables (\<open>src/adapters/sqlite/settings.rs\<close>,
  \<open>notifications.rs\<close>), in the state \<open>hub\<close> that the delivery of notifications works on: the
  database, the singleton settings rows, the tracked alerts, the clock, and what was sent over HTTP and by
  mail, with a script of what each delivery answers.

  The columns \<open>alertmanager_severity\<close> and \<open>alertmanager_interval_seconds\<close> of a project are
  functions of its id. JSON columns hold decoded values.
\<close>

record webhook_alert =
  wa_status :: string
  wa_labels :: "string bmap"
  wa_annotations :: "string bmap"
  wa_starts_at :: timestamp
  wa_ends_at :: string
  wa_generator_url :: string
  wa_fingerprint :: string

record webhook_payload =
  wp_version :: string
  wp_group_key :: string
  wp_truncated_alerts :: nat
  wp_status :: string
  wp_receiver :: string
  wp_group_labels :: "string bmap"
  wp_common_labels :: "string bmap"
  wp_common_annotations :: "string bmap"
  wp_external_url :: string
  wp_alerts :: "webhook_alert list"

record sent_alert =
  sent_endpoint :: string
  sent_alert :: alertmanager_alert
  sent_ok :: bool

record email =
  em_to :: string
  em_subject :: string
  em_body :: string

record hub =
  hub_db :: db
  hub_settings :: service_settings
  hub_names :: alertmanager_names
  hub_default_severity :: string
  hub_interval :: int
  hub_severities :: "uuid \<Rightarrow> string"
  hub_intervals :: "uuid \<Rightarrow> int"
  hub_config :: notification_config
  hub_alerts :: "active_alert list"
  hub_project_labels :: "string \<Rightarrow> string bmap option"
  hub_clock :: "nat \<Rightarrow> timestamp"
  hub_tick :: nat
  hub_answers :: "error option list"
  hub_sent :: "sent_alert list"
  hub_webhooks :: "(string \<times> webhook_payload) list"
  hub_mail_answers :: "error option list"
  hub_mails :: "email list"

definition read_clock :: "(hub, timestamp) op" where
  "read_clock h = (Inr (hub_clock h (hub_tick h)), h\<lparr>hub_tick := Suc (hub_tick h)\<rparr>)"

text \<open>An operation of a repository of the database, and a statement on the tables of this record: each
  takes the next entry of the fault script.\<close>

definition on_db :: "(db, 'a) op \<Rightarrow> (hub, 'a) op" where
  "on_db m h = (case m (hub_db h) of (r, s) \<Rightarrow> (r, h\<lparr>hub_db := s\<rparr>))"

definition statement :: "(hub, 'a) op \<Rightarrow> (hub, 'a) op" where
  "statement body h =
     (case faults (hub_db h) of
        Some e # fs \<Rightarrow> (Inl (Db e), h\<lparr>hub_db := hub_db h\<lparr>faults := fs\<rparr>\<rparr>)
      | _ \<Rightarrow>
          (let h0 = h\<lparr>hub_db := hub_db h\<lparr>faults := tl (faults (hub_db h))\<rparr>\<rparr> in
           case body h0 of (Inr v, t) \<Rightarrow> (Inr v, t) | (Inl e, t) \<Rightarrow> (Inl e, h0)))"

type_synonym hub_env = "nat \<Rightarrow> hub \<Rightarrow> hub"

abbreviation hub_write :: "hub_env \<Rightarrow> string \<Rightarrow> (hub, 'a) op \<Rightarrow> (hub, 'a) op" where
  "hub_write env what body \<equiv> retry_write env default_write_policy what (statement body)"

section \<open>Service settings\<close>

definition get_settings :: "(hub, service_settings) op" where
  "get_settings = statement (\<lambda>h. (Inr (hub_settings h), h))"

definition default_team_ids :: "(hub, uuid list) op" where
  "default_team_ids = statement (\<lambda>h. (Inr (sort (db_default_teams (hub_db h))), h))"

definition set_default_team_ids :: "hub_env \<Rightarrow> timestamp \<Rightarrow> uuid list \<Rightarrow> (hub, unit) op" where
  "set_default_team_ids env now ids =
     (let wanted = remdups (sort ids) in
      hub_write env ''set default teams'' (\<lambda>h.
        case List.find (\<lambda>t. t \<notin> set (team_ids (hub_db h))) wanted of
          Some t \<Rightarrow> (Inl (Validation (''unknown default team: '' @ t)), h)
        | None \<Rightarrow> (Inr (), h\<lparr>hub_db := hub_db h\<lparr>db_default_teams := wanted\<rparr>,
             hub_settings := hub_settings h\<lparr>set_updated_at := now\<rparr>\<rparr>)))"

definition set_allow_signup_to :: "timestamp \<Rightarrow> bool \<Rightarrow> (hub, service_settings) op" where
  "set_allow_signup_to now allow =
     op_bind (statement (\<lambda>h. (Inr (), h\<lparr>hub_settings := hub_settings h\<lparr>set_allow_signup := allow, set_updated_at := now\<rparr>\<rparr>)))
       (\<lambda>_. get_settings)"

definition set_org_name_to :: "timestamp \<Rightarrow> string \<Rightarrow> (hub, service_settings) op" where
  "set_org_name_to now org =
     op_bind (statement (\<lambda>h. (Inr (), h\<lparr>hub_settings := hub_settings h\<lparr>set_org_name := org, set_updated_at := now\<rparr>\<rparr>)))
       (\<lambda>_. get_settings)"

section \<open>Notification settings\<close>

definition get_names :: "(hub, alertmanager_names) op" where
  "get_names = statement (\<lambda>h. (Inr (hub_names h), h))"

definition set_names :: "hub_env \<Rightarrow> alertmanager_names \<Rightarrow> (hub, unit) op" where
  "set_names env names =
     op_bind (op_res (normalized_names names)) (\<lambda>names.
       hub_write env ''set Alertmanager names'' (\<lambda>h. (Inr (), h\<lparr>hub_names := names\<rparr>)))"

definition has_project :: "uuid \<Rightarrow> hub \<Rightarrow> bool" where
  "has_project p h \<longleftrightarrow> p \<in> set (project_ids (hub_db h))"

definition severity_text :: "uuid option \<Rightarrow> (hub, string) op" where
  "severity_text project =
     statement (\<lambda>h.
       case project of
         None \<Rightarrow> (Inr (hub_default_severity h), h)
       | Some p \<Rightarrow> (if has_project p h then (Inr (hub_severities h p), h) else (Inl (Db RowNotFound), h)))"

definition severity :: "uuid option \<Rightarrow> (hub, alert_severity option) op" where
  "severity project =
     op_bind (severity_text project) (\<lambda>value.
       if value = [] then op_ok None
       else op_bind (op_res (severity_from_str value)) (\<lambda>s. op_ok (Some s)))"

definition set_severity :: "hub_env \<Rightarrow> uuid option \<Rightarrow> alert_severity option \<Rightarrow> (hub, unit) op" where
  "set_severity env project sev =
     (let value = (case sev of None \<Rightarrow> [] | Some s \<Rightarrow> severity_as_str s) in
      hub_write env ''set project alert severity'' (\<lambda>h.
        case project of
          None \<Rightarrow> (Inr (), h\<lparr>hub_default_severity := value\<rparr>)
        | Some p \<Rightarrow> (Inr (), if has_project p h then h\<lparr>hub_severities := (hub_severities h)(p := value)\<rparr> else h)))"

definition interval :: "uuid option \<Rightarrow> (hub, alertmanager_interval) op" where
  "interval project =
     op_bind (statement (\<lambda>h. (Inr (hub_interval h), h))) (\<lambda>global.
       op_bind
         (case project of
            None \<Rightarrow> op_ok (Some global)
          | Some p \<Rightarrow>
              op_bind (statement (\<lambda>h. if has_project p h then (Inr (hub_intervals h p), h) else (Inl (Db RowNotFound), h)))
                (\<lambda>value. op_ok (if value \<noteq> 0 then Some value else None)))
         (\<lambda>seconds. op_ok \<lparr>ai_interval_seconds = seconds,
            ai_effective_interval_seconds = (case seconds of Some s \<Rightarrow> s | None \<Rightarrow> global)\<rparr>))"

definition set_interval :: "hub_env \<Rightarrow> uuid option \<Rightarrow> int option \<Rightarrow> (hub, unit) op" where
  "set_interval env project seconds =
     op_bind (case seconds of Some s \<Rightarrow> op_res (validate_interval s) | None \<Rightarrow> op_ok ()) (\<lambda>_.
       if project = None \<and> seconds = None then op_err (Validation ''global interval is required'')
       else hub_write env ''set Alertmanager interval'' (\<lambda>h.
         case project of
           None \<Rightarrow> (Inr (), h\<lparr>hub_interval := the seconds\<rparr>)
         | Some p \<Rightarrow>
             (Inr (), if has_project p h
                      then h\<lparr>hub_intervals := (hub_intervals h)(p := (case seconds of Some s \<Rightarrow> s | None \<Rightarrow> 0))\<rparr>
                      else h)))"

definition get_notifications :: "(hub, notification_config) op" where
  "get_notifications = statement (\<lambda>h. (Inr (hub_config h), h))"

definition set_notifications ::
  "(string \<Rightarrow> base_url option) \<Rightarrow> hub_env \<Rightarrow> notification_config \<Rightarrow> (hub, unit) op" where
  "set_notifications url_parse env config =
     op_bind (op_res (validate_stored url_parse config)) (\<lambda>_.
       hub_write env ''set notification settings'' (\<lambda>h. (Inr (), h\<lparr>hub_config := config\<rparr>)))"

section \<open>Tracked alerts\<close>

definition find_alert :: "uuid \<Rightarrow> (hub, active_alert option) op" where
  "find_alert iid = statement (\<lambda>h. (Inr (List.find (\<lambda>a. aa_issue_id a = iid) (hub_alerts h)), h))"

definition active :: "string \<Rightarrow> nat \<Rightarrow> (hub, active_alert list) op" where
  "active after limit =
     statement (\<lambda>h. (Inr (take limit (sort_key aa_issue_id (filter (\<lambda>a. after < aa_issue_id a) (hub_alerts h)))), h))"

definition put_alert :: "active_alert \<Rightarrow> active_alert list \<Rightarrow> active_alert list" where
  "put_alert a rows =
     (if list_ex (\<lambda>b. aa_issue_id b = aa_issue_id a) rows
      then map (\<lambda>b. if aa_issue_id b = aa_issue_id a then a else b) rows else rows @ [a])"

definition save_alert :: "hub_env \<Rightarrow> active_alert \<Rightarrow> (hub, unit) op" where
  "save_alert env a =
     hub_write env ''save notification alert'' (\<lambda>h. (Inr (), h\<lparr>hub_alerts := put_alert a (hub_alerts h)\<rparr>))"

definition remove_alert :: "hub_env \<Rightarrow> uuid \<Rightarrow> (hub, unit) op" where
  "remove_alert env iid =
     hub_write env ''remove notification alert''
       (\<lambda>h. (Inr (), h\<lparr>hub_alerts := filter (\<lambda>a. aa_issue_id a \<noteq> iid) (hub_alerts h)\<rparr>))"

end
