(* ===== verification/Alerting.thy ===== *)
theory Alerting
  imports NotifyStore
begin

text \<open>
  Delivery of notifications (\<open>src/alertmanager.rs\<close>, \<open>src/notify.rs\<close>): the alert of an issue,
  its first delivery, its reconciliation with the state of the issue, test alerts, and the dispatch of a
  notification to Alertmanager, the webhook of the project and the members of the team.

  The HTTP client, the mailer and the e-mail templates are outside: each delivery takes its answer from a
  script in the state, and rendering an e-mail is an argument, as are \<open>Url::parse\<close> and
  \<open>to_rfc3339\<close>. The lock of \<open>Alertmanager\<close> makes one \<open>notify\<close> or \<open>reconcile\<close> run at
  a time, so each of them is one operation.
\<close>

section \<open>The alert of an issue\<close>

record alert_config =
  cfg_alertmanager_enabled :: bool
  cfg_alertmanager_url :: "string option"
  cfg_service_from_env :: bool
  cfg_env_names :: alertmanager_names
  cfg_base_url :: string
  cfg_webhooks_enabled :: bool
  cfg_mail_enabled :: bool

record externals =
  ex_url_parse :: "string \<Rightarrow> base_url option"
  ex_rfc3339 :: "timestamp \<Rightarrow> string"
  ex_env :: hub_env

definition ALERT_TTL :: int where "ALERT_TTL = 300"

definition alert_ttl :: "int \<Rightarrow> int" where
  "alert_ttl interval_seconds = max ALERT_TTL (interval_seconds * 3)"

definition endpoint :: "alertmanager_config \<Rightarrow> string" where
  "endpoint c = trim_end_char (CHR ''/'') (am_url c) @ ''/api/v2/alerts''"

definition project_config ::
  "alertmanager_config \<Rightarrow> string \<Rightarrow> alertmanager_names \<Rightarrow> alert_severity option \<Rightarrow> (hub, alertmanager_config) op" where
  "project_config c slug names sev h =
     (let c = (case hub_project_labels h slug of
                 None \<Rightarrow> c | Some labels \<Rightarrow> c\<lparr>am_labels := bm_extend (am_labels c) labels\<rparr>);
          c = (case sev of
                 None \<Rightarrow> c
               | Some s \<Rightarrow> c\<lparr>am_labels := bm_insert ''severity'' (severity_as_str s)
                               (bm_insert ''alertname'' (for_severity names s) (am_labels c))\<rparr>)
      in (Inr c, h))"

definition effective_names :: "alert_config \<Rightarrow> (hub, alertmanager_names) op" where
  "effective_names cfg = (if cfg_service_from_env cfg then op_ok (cfg_env_names cfg) else get_names)"

definition issue_url :: "string \<Rightarrow> project \<Rightarrow> issue \<Rightarrow> string" where
  "issue_url base_url p i =
     trim_end_char (CHR ''/'') base_url @ ''/projects/'' @ prj_slug p @ ''/issues/'' @ iss_short_id i"

definition text_or :: "string \<Rightarrow> string option \<Rightarrow> string" where
  "text_or d v = (case v of Some s \<Rightarrow> s | None \<Rightarrow> d)"

definition variables ::
  "alert_config \<Rightarrow> (timestamp \<Rightarrow> string) \<Rightarrow> string \<Rightarrow> project \<Rightarrow> issue \<Rightarrow> string \<Rightarrow> string bmap" where
  "variables cfg rfc3339 org p i trigger =
     fold (\<lambda>(k, v). bm_insert k v)
       [(''project_name'', prj_name p), (''project_slug'', prj_slug p), (''project_id'', prj_id p),
        (''team_id'', prj_team_id p), (''issue_id'', iss_id i), (''issue_short_id'', iss_short_id i),
        (''title'', iss_title i), (''culprit'', text_or [] (iss_culprit i)),
        (''level'', text_or ''error'' (iss_level i)), (''environment'', text_or [] (iss_environment i)),
        (''release'', text_or [] (iss_release i)), (''event_count'', int_to_dec (iss_event_count i)),
        (''first_seen'', rfc3339 (iss_first_seen i)), (''last_seen'', rfc3339 (iss_last_seen i)),
        (''issue_url'', issue_url (cfg_base_url cfg) p i), (''org_name'', org), (''trigger'', trigger)] []"

fun render_map :: "string bmap \<Rightarrow> string bmap \<Rightarrow> string bmap res" where
  "render_map [] vars = Inr []"
| "render_map ((key, value) # rest) vars =
     (case render_template value vars of
        Inl e \<Rightarrow> Inl e
      | Inr v \<Rightarrow> (case render_map rest vars of Inl e \<Rightarrow> Inl e | Inr m \<Rightarrow> Inr ((key, v) # m)))"

definition required :: "string bmap \<Rightarrow> string \<Rightarrow> string res" where
  "required vars key =
     (case map_of vars key of
        Some v \<Rightarrow> Inr v | None \<Rightarrow> Inl (Validation (''missing notification variable: '' @ key)))"

definition render_alert :: "alertmanager_config \<Rightarrow> string bmap \<Rightarrow> timestamp \<Rightarrow> alertmanager_alert res" where
  "render_alert c vars now =
     (case render_map (am_labels c) vars of
        Inl e \<Rightarrow> Inl e
      | Inr labels \<Rightarrow>
          (case required vars ''issue_id'' of
             Inl e \<Rightarrow> Inl e
           | Inr issue_id \<Rightarrow>
               (case required vars ''project_id'' of
                  Inl e \<Rightarrow> Inl e
                | Inr project_id \<Rightarrow>
                    (let labels = bm_insert ''project_id'' project_id (bm_insert ''issue_id'' issue_id labels) in
                     if (case map_of labels ''alertname'' of None \<Rightarrow> True | Some s \<Rightarrow> trim s = [])
                     then Inl (Validation ''rendered alertname must not be empty'')
                     else
                       (case render_map (am_annotations c) vars of
                          Inl e \<Rightarrow> Inl e
                        | Inr annotations \<Rightarrow>
                            (case dt_add_seconds now ALERT_TTL of
                               Inl e \<Rightarrow> Inl e
                             | Inr ends_at \<Rightarrow>
                                 (case required vars ''issue_url'' of
                                    Inl e \<Rightarrow> Inl e
                                  | Inr url \<Rightarrow>
                                      Inr \<lparr>al_labels = labels, al_annotations = annotations, al_starts_at = now,
                                           al_ends_at = ends_at, al_generator_url = url\<rparr>)))))))"

section \<open>Delivery to Alertmanager\<close>

definition send :: "string \<Rightarrow> alertmanager_alert \<Rightarrow> (hub, unit) op" where
  "send ep a h =
     (let answer = (case hub_answers h of [] \<Rightarrow> None | r # _ \<Rightarrow> r);
          h = h\<lparr>hub_answers := tl (hub_answers h),
                hub_sent := hub_sent h @ [\<lparr>sent_endpoint = ep, sent_alert = a, sent_ok = (answer = None)\<rparr>]\<rparr>
      in (case answer of None \<Rightarrow> Inr () | Some e \<Rightarrow> Inl e, h))"

definition resolve :: "active_alert \<Rightarrow> (hub, unit) op" where
  "resolve a = op_bind read_clock (\<lambda>now. send (aa_endpoint a) ((aa_alert a)\<lparr>al_ends_at := now\<rparr>))"

definition severity_of :: "project \<Rightarrow> (hub, alert_severity option) op" where
  "severity_of p =
     op_bind (severity (Some (prj_id p))) (\<lambda>own.
       op_bind (severity None) (\<lambda>global. op_ok (case own of None \<Rightarrow> global | Some s \<Rightarrow> Some s)))"

definition effective_of :: "alert_config \<Rightarrow> externals \<Rightarrow> (hub, alertmanager_config) op" where
  "effective_of cfg ex =
     op_bind get_notifications (\<lambda>c. op_res (effective_config (ex_url_parse ex) c (cfg_alertmanager_url cfg)))"

text \<open>The alert with its lease: the second half of \<open>notify\<close> and of \<open>reconcile\<close> starts with it.\<close>

definition current_alert ::
  "alert_config \<Rightarrow> externals \<Rightarrow> alertmanager_config \<Rightarrow> string \<Rightarrow> project \<Rightarrow> issue \<Rightarrow> string \<Rightarrow>
     (hub, alertmanager_alert \<times> int) op" where
  "current_alert cfg ex c org p i trigger =
     op_bind (effective_names cfg) (\<lambda>names.
     op_bind (severity_of p) (\<lambda>sev.
     op_bind (project_config c (prj_slug p) names sev) (\<lambda>pc.
     op_bind read_clock (\<lambda>now.
     op_bind (op_res (render_alert pc (variables cfg (ex_rfc3339 ex) org p i trigger) now)) (\<lambda>alert.
     op_bind (interval (Some (prj_id p))) (\<lambda>iv.
     op_bind read_clock (\<lambda>now2.
     op_bind (op_res (dt_add_seconds now2 (alert_ttl (ai_effective_interval_seconds iv)))) (\<lambda>ends_at.
       op_ok (alert\<lparr>al_ends_at := ends_at\<rparr>, ai_effective_interval_seconds iv)))))))))"

text \<open>Save, send, and save again with the time of delivery.\<close>

definition deliver :: "externals \<Rightarrow> active_alert \<Rightarrow> (hub, unit) op" where
  "deliver ex a =
     op_bind (save_alert (ex_env ex) a) (\<lambda>_.
     op_bind (send (aa_endpoint a) (aa_alert a)) (\<lambda>_.
     op_bind read_clock (\<lambda>now. save_alert (ex_env ex) (a\<lparr>aa_last_sent_at := Some now\<rparr>))))"

definition notify_alertmanager ::
  "alert_config \<Rightarrow> externals \<Rightarrow> project \<Rightarrow> issue \<Rightarrow> string \<Rightarrow> (hub, unit) op" where
  "notify_alertmanager cfg ex p i trigger =
     (if \<not> cfg_alertmanager_enabled cfg then op_ok ()
      else
        op_bind (effective_of cfg ex) (\<lambda>c.
        if \<not> am_enabled c then op_ok ()
        else
          op_bind get_settings (\<lambda>settings.
          op_bind (current_alert cfg ex c (set_org_name settings) p i trigger) (\<lambda>(alert, _).
          op_bind (find_alert (iss_id i)) (\<lambda>old.
          op_bind (case old of Some a \<Rightarrow> resolve a | None \<Rightarrow> op_ok ()) (\<lambda>_.
            deliver ex \<lparr>aa_last_sent_at = None, aa_issue_id = iss_id i, aa_endpoint = endpoint c, aa_trigger = trigger,
                         aa_alert = alert\<rparr>))))))"

section \<open>Reconciliation\<close>

definition live :: "alertmanager_config \<Rightarrow> project option \<Rightarrow> issue option \<Rightarrow> bool" where
  "live c p i \<longleftrightarrow>
     (case (p, i) of
        (Some p, Some i) \<Rightarrow> am_enabled c \<and> \<not> prj_muted p \<and> prj_orphaned_at p = None \<and> iss_status i = Unresolved
      | _ \<Rightarrow> False)"

text \<open>\<open>state.clock.now() < sent + interval\<close>; the clock is read only when the alert was sent.\<close>

definition sent_recently :: "int \<Rightarrow> timestamp option \<Rightarrow> (hub, bool) op" where
  "sent_recently seconds last_sent =
     (case last_sent of
        None \<Rightarrow> op_ok False
      | Some sent \<Rightarrow>
          op_bind read_clock (\<lambda>now.
          op_bind (op_res (dt_add_seconds sent seconds)) (\<lambda>due. op_ok (now < due))))"

definition lease_lasts :: "int \<Rightarrow> timestamp \<Rightarrow> (hub, bool) op" where
  "lease_lasts seconds ends_at =
     op_bind read_clock (\<lambda>now.
     op_bind (op_res (dt_add_seconds now seconds)) (\<lambda>next. op_ok (next < ends_at)))"

definition fresh_enough :: "bool \<Rightarrow> int \<Rightarrow> active_alert \<Rightarrow> (hub, bool) op" where
  "fresh_enough identity_changed seconds saved =
     (if identity_changed then op_ok False
      else op_bind (sent_recently seconds (aa_last_sent_at saved)) (\<lambda>recent.
             if recent then lease_lasts seconds (al_ends_at (aa_alert saved)) else op_ok False))"

definition find_issue_project :: "active_alert \<Rightarrow> (hub, project option \<times> issue option) op" where
  "find_issue_project saved =
     op_bind (on_db (find_issue_by_id (aa_issue_id saved))) (\<lambda>i.
     op_bind (case i of None \<Rightarrow> op_ok None | Some i \<Rightarrow> on_db (find_project_by_id (iss_project_id i))) (\<lambda>p.
       op_ok (p, i)))"

definition reconcile :: "alert_config \<Rightarrow> externals \<Rightarrow> alertmanager_config \<Rightarrow> string \<Rightarrow> active_alert \<Rightarrow> (hub, unit) op" where
  "reconcile cfg ex c org saved =
     op_bind (find_issue_project saved) (\<lambda>(project, issue).
     if \<not> live c project issue then
       op_bind (resolve saved) (\<lambda>_. remove_alert (ex_env ex) (aa_issue_id saved))
     else
       (case (project, issue) of
          (Some p, Some i) \<Rightarrow>
            op_bind (current_alert cfg ex c org p i (aa_trigger saved)) (\<lambda>(alert, seconds).
            let identity_changed = (aa_endpoint saved \<noteq> endpoint c \<or> al_labels (aa_alert saved) \<noteq> al_labels alert) in
            op_bind (fresh_enough identity_changed seconds saved) (\<lambda>fresh.
            if fresh then op_ok ()
            else
              op_bind (if identity_changed then resolve saved else op_ok ()) (\<lambda>_.
                let alert = (if identity_changed then alert else alert\<lparr>al_starts_at := al_starts_at (aa_alert saved)\<rparr>)
                in deliver ex (saved\<lparr>aa_endpoint := endpoint c, aa_alert := alert, aa_last_sent_at := None\<rparr>))))
        | _ \<Rightarrow> op_err (Internal ''live alert has no issue or project'')))"

text \<open>The loop over one page, then over the pages; an error of \<open>reconcile\<close> is logged, an error of
  the database ends the sweep. Fuel bounds the number of pages.\<close>

fun refresh_page ::
  "alert_config \<Rightarrow> externals \<Rightarrow> alertmanager_config \<Rightarrow> string \<Rightarrow> active_alert list \<Rightarrow> string \<Rightarrow> (hub, string) op" where
  "refresh_page cfg ex c org [] after = op_ok after"
| "refresh_page cfg ex c org (entry # entries) after =
     op_bind (find_alert (aa_issue_id entry)) (\<lambda>found.
     case found of
       None \<Rightarrow> refresh_page cfg ex c org entries (aa_issue_id entry)
     | Some saved \<Rightarrow>
         op_bind (op_try (reconcile cfg ex c org saved)) (\<lambda>_. refresh_page cfg ex c org entries (aa_issue_id entry)))"

fun refresh_pages ::
  "alert_config \<Rightarrow> externals \<Rightarrow> alertmanager_config \<Rightarrow> string \<Rightarrow> nat \<Rightarrow> string \<Rightarrow> (hub, unit option) op" where
  "refresh_pages cfg ex c org 0 after = op_ok None"
| "refresh_pages cfg ex c org (Suc fuel) after =
     op_bind (active after 100) (\<lambda>page.
     if page = [] then op_ok (Some ())
     else op_bind (refresh_page cfg ex c org page after) (refresh_pages cfg ex c org fuel))"

definition refresh :: "alert_config \<Rightarrow> externals \<Rightarrow> nat \<Rightarrow> (hub, unit option) op" where
  "refresh cfg ex fuel =
     (if \<not> cfg_alertmanager_enabled cfg then op_ok (Some ())
      else
        op_bind (effective_of cfg ex) (\<lambda>c.
        op_bind get_settings (\<lambda>settings. refresh_pages cfg ex c (set_org_name settings) fuel [])))"

section \<open>Dispatch\<close>

datatype suppression = NotSuppressed | ProjectMuted | IssueMuted

definition is_suppressed :: "project \<Rightarrow> issue \<Rightarrow> suppression" where
  "is_suppressed p i =
     (if prj_muted p then ProjectMuted else if iss_status i = Muted then IssueMuted else NotSuppressed)"

definition user_opted_in :: "user \<Rightarrow> bool" where
  "user_opted_in u = usr_notifications_enabled u"

definition recipients :: "(user \<times> 'r) list \<Rightarrow> string list" where
  "recipients members = map (\<lambda>(u, _). usr_email u) (filter (\<lambda>(u, _). user_opted_in u) members)"

datatype trigger = NewIssueTrigger | RegressionTrigger

fun trigger_as_str :: "trigger \<Rightarrow> string" where
  "trigger_as_str NewIssueTrigger = ''new_issue''"
| "trigger_as_str RegressionTrigger = ''regression''"

definition build_webhook_payload :: "string \<Rightarrow> project \<Rightarrow> issue \<Rightarrow> trigger \<Rightarrow> webhook_payload" where
  "build_webhook_payload base_url p i trigger =
     (let base = trim_end_char (CHR ''/'') base_url;
          group_labels = bm_insert ''issue_id'' (iss_id i) [(''project_id'', prj_id p)];
          labels = bm_insert ''project'' (prj_slug p) (bm_insert ''alertname'' ''SoikaIssue'' group_labels);
          labels = (case iss_level i of Some level \<Rightarrow> bm_insert ''severity'' level labels | None \<Rightarrow> labels);
          annotations = bm_insert ''event_count'' (int_to_dec (iss_event_count i))
             (bm_insert ''trigger'' (trigger_as_str trigger) [(''summary'', iss_title i)]);
          alert = \<lparr>wa_status = ''firing'', wa_labels = labels, wa_annotations = annotations,
             wa_starts_at = (case trigger of NewIssueTrigger \<Rightarrow> iss_first_seen i | RegressionTrigger \<Rightarrow> iss_last_seen i),
             wa_ends_at = ''0001-01-01T00:00:00Z'', wa_generator_url = issue_url base_url p i,
             wa_fingerprint = uuid_simple (iss_id i)\<rparr>
      in \<lparr>wp_version = ''4'', wp_group_key = ''soika:'' @ prj_id p @ '':'' @ iss_id i, wp_truncated_alerts = 0,
          wp_status = ''firing'', wp_receiver = ''soika'', wp_group_labels = group_labels, wp_common_labels = labels,
          wp_common_annotations = annotations, wp_external_url = base, wp_alerts = [alert]\<rparr>)"

definition send_webhook :: "alert_config \<Rightarrow> project \<Rightarrow> issue \<Rightarrow> trigger \<Rightarrow> string \<Rightarrow> (hub, unit) op" where
  "send_webhook cfg p i trigger url h =
     (Inr (), h\<lparr>hub_webhooks := hub_webhooks h @ [(url, build_webhook_payload (cfg_base_url cfg) p i trigger)]\<rparr>)"

definition send_mail :: "email \<Rightarrow> (hub, unit) op" where
  "send_mail m h =
     (let answer = (case hub_mail_answers h of [] \<Rightarrow> None | r # _ \<Rightarrow> r);
          h = h\<lparr>hub_mail_answers := tl (hub_mail_answers h), hub_mails := hub_mails h @ [m]\<rparr>
      in (case answer of None \<Rightarrow> Inr () | Some e \<Rightarrow> Inl e, h))"

fun mail_all :: "(string \<Rightarrow> email res) \<Rightarrow> string list \<Rightarrow> (hub, unit) op" where
  "mail_all render [] = op_ok ()"
| "mail_all render (to # rest) =
     (case render to of
        Inl _ \<Rightarrow> op_ok ()
      | Inr m \<Rightarrow> op_bind (op_try (send_mail m)) (\<lambda>_. mail_all render rest))"

definition dispatch ::
  "alert_config \<Rightarrow> externals \<Rightarrow> (trigger \<Rightarrow> project \<Rightarrow> issue \<Rightarrow> string \<Rightarrow> email res) \<Rightarrow> project \<Rightarrow> issue \<Rightarrow> trigger \<Rightarrow>
     (hub, unit) op" where
  "dispatch cfg ex render p i trigger =
     (if is_suppressed p i \<noteq> NotSuppressed then op_ok ()
      else
        op_bind (op_try (notify_alertmanager cfg ex p i (trigger_as_str trigger))) (\<lambda>_.
        op_bind (case prj_webhook_url p of
                   Some url \<Rightarrow> if cfg_webhooks_enabled cfg then send_webhook cfg p i trigger url else op_ok ()
                 | None \<Rightarrow> op_ok ()) (\<lambda>_.
        if \<not> cfg_mail_enabled cfg then op_ok ()
        else
          op_bind (on_db (team_members (prj_team_id p))) (\<lambda>members.
            mail_all (render trigger p i) (recipients members)))))"

definition notify_new_issue where
  "notify_new_issue cfg ex render p i = dispatch cfg ex render p i NewIssueTrigger"

definition notify_regression where
  "notify_regression cfg ex render p i = dispatch cfg ex render p i RegressionTrigger"

end
