(* ===== verification/AlertingFacts.thy ===== *)
theory AlertingFacts
  imports Alerting
begin

text \<open>
  What delivery guarantees. Everything sent to Alertmanager is accounted for: while an alert may be firing
  there, a row of \<open>notification_alerts\<close> has its endpoint and labels, whatever deliveries and
  statements fail. The sweep over the tracked alerts ends. A muted notification does nothing; otherwise
  every member of the team who wants e-mail gets one.
\<close>

section \<open>Steps that leave the tracked alerts and the requests alone\<close>

definition quiet :: "hub \<Rightarrow> hub \<Rightarrow> bool" where
  "quiet h t \<longleftrightarrow> hub_alerts t = hub_alerts h \<and> hub_sent t = hub_sent h \<and> hub_clock t = hub_clock h \<and> hub_tick h \<le> hub_tick t"

interpretation quiet: step_relation quiet
  by unfold_locales (auto simp: quiet_def)

lemma quiet_read_clock: "moves quiet read_clock"
  by (auto simp: moves_def read_clock_def quiet_def)

lemma quiet_on_db: "moves quiet (on_db m)"
  by (auto simp: moves_def on_db_def quiet_def split: prod.splits)

lemma statement_cases:
  assumes "statement body h = (r, t)"
  obtains (fault) e where "r = Inl (Db e)" "quiet h t"
  | (ok) v h0 where "quiet h h0" "body h0 = (Inr v, t)" "r = Inr v"
  | (err) e where "r = Inl e" "quiet h t"
proof (cases "\<exists>e fs. faults (hub_db h) = Some e # fs")
  case True
  then obtain e fs where "faults (hub_db h) = Some e # fs" by blast
  then show thesis using assms fault by (auto simp: statement_def quiet_def)
next
  case False
  let ?h0 = "h\<lparr>hub_db := hub_db h\<lparr>faults := tl (faults (hub_db h))\<rparr>\<rparr>"
  have "statement body h = (case body ?h0 of (Inr v, t) \<Rightarrow> (Inr v, t) | (Inl e, t) \<Rightarrow> (Inl e, ?h0))"
    using False by (cases "faults (hub_db h)"; cases "hd (faults (hub_db h))") (auto simp: statement_def Let_def split: prod.split sum.split)
  then show thesis
    using assms ok [of ?h0] err by (auto simp: quiet_def split: prod.splits sum.splits)
qed

lemma quiet_statement:
  assumes "\<And>h. snd (body h) = h"
  shows "moves quiet (statement body)"
proof (rule movesI)
  fix h r t assume "statement body h = (r, t)"
  then show "quiet h t"
  proof (cases rule: statement_cases)
    case (ok v h0)
    then show ?thesis using assms [of h0] by simp
  qed auto
qed

lemmas moves_step = quiet.moves_bind quiet.moves_ok quiet_read_clock quiet_on_db

lemma quiet_reads:
  "moves quiet get_settings" "moves quiet get_names" "moves quiet get_notifications" "moves quiet (find_alert i)"
  "moves quiet (active after n)" "moves quiet (severity_text p)"
  unfolding get_settings_def get_names_def get_notifications_def find_alert_def active_def severity_text_def
  by (rule quiet_statement, simp split: option.split)+

lemma quiet_severity: "moves quiet (severity p)"
  unfolding severity_def by (intro moves_step quiet_reads quiet.moves_if)

lemma quiet_interval: "moves quiet (interval p)"
  unfolding interval_def
  by (cases p) (auto intro!: moves_step quiet_statement)

lemma quiet_project_config: "moves quiet (project_config c slug names sev)"
  by (auto simp: moves_def project_config_def Let_def quiet.refl)

lemma quiet_effective_names: "moves quiet (effective_names cfg)"
  by (simp add: effective_names_def moves_step quiet_reads)

lemma quiet_current_alert: "moves quiet (current_alert cfg ex c org p i trigger)"
  unfolding current_alert_def severity_of_def
  by (intro moves_step quiet_effective_names quiet_severity quiet_project_config quiet_interval)

lemma quiet_effective_of: "moves quiet (effective_of cfg ex)"
  unfolding effective_of_def by (intro moves_step quiet_reads)

lemma quiet_fresh_enough: "moves quiet (fresh_enough changed seconds saved)"
  unfolding fresh_enough_def sent_recently_def lease_lasts_def
  by (cases "aa_last_sent_at saved") (auto intro!: moves_step quiet.moves_if)

lemma quiet_find_issue_project: "moves quiet (find_issue_project saved)"
  unfolding find_issue_project_def by (intro moves_step) (auto split: option.split intro!: moves_step)

section \<open>Everything sent is accounted for\<close>

definition identity :: "string \<Rightarrow> alertmanager_alert \<Rightarrow> string \<times> string bmap" where
  "identity ep a = (ep, al_labels a)"

abbreviation row_identity :: "active_alert \<Rightarrow> string \<times> string bmap" where
  "row_identity a \<equiv> identity (aa_endpoint a) (aa_alert a)"

abbreviation sent_identity :: "sent_alert \<Rightarrow> string \<times> string bmap" where
  "sent_identity e \<equiv> identity (sent_endpoint e) (sent_alert e)"

text \<open>A request after which Alertmanager takes the alert of \<open>e\<close> for resolved: it was accepted, and it ends
  in the past.\<close>

definition closes :: "hub \<Rightarrow> sent_alert \<Rightarrow> sent_alert \<Rightarrow> bool" where
  "closes h e f \<longleftrightarrow>
     sent_ok f \<and> sent_identity f = sent_identity e \<and> al_ends_at (sent_alert f) \<le> hub_clock h (hub_tick h)"

text \<open>Every request with this identity was followed by one that resolves it (or resolves it itself).\<close>

definition settled :: "hub \<Rightarrow> string \<times> string bmap \<Rightarrow> bool" where
  "settled h k \<longleftrightarrow>
     (\<forall>xs e ys. hub_sent h = xs @ e # ys \<and> sent_identity e = k \<longrightarrow> (\<exists>f \<in> set (e # ys). closes h e f))"

definition accounted :: "hub \<Rightarrow> bool" where
  "accounted h \<longleftrightarrow>
     mono (hub_clock h) \<and> distinct (map aa_issue_id (hub_alerts h)) \<and>
     (\<forall>e \<in> set (hub_sent h). sent_identity e \<in> row_identity ` set (hub_alerts h) \<or> settled h (sent_identity e))"

lemma settled_quiet:
  assumes "quiet h t" "mono (hub_clock h)" "settled h k"
  shows "settled t k"
proof -
  have "hub_clock h (hub_tick h) \<le> hub_clock t (hub_tick t)" "hub_sent t = hub_sent h"
    using assms(1,2) by (auto simp: quiet_def mono_def)
  moreover have "closes h e f \<Longrightarrow> closes t e f" for e f using calculation(1) by (auto simp: closes_def)
  ultimately show ?thesis using assms(3) unfolding settled_def by (metis (no_types, lifting))
qed

lemma accounted_quiet:
  assumes "quiet h t" "accounted h"
  shows "accounted t"
proof -
  have "settled h k \<Longrightarrow> settled t k" for k using assms settled_quiet by (auto simp: accounted_def)
  moreover have "hub_alerts t = hub_alerts h" "hub_sent t = hub_sent h" "hub_clock t = hub_clock h"
    using assms(1) by (simp_all add: quiet_def)
  ultimately show ?thesis using assms(2) unfolding accounted_def by metis
qed

text \<open>The tracked rows change: every identity that is no longer tracked must be settled.\<close>

lemma accounted_rows:
  assumes "accounted h" "hub_alerts t = rows" "hub_sent t = hub_sent h" "hub_clock t = hub_clock h" "hub_tick t = hub_tick h"
    and "distinct (map aa_issue_id rows)"
    and "\<And>a. a \<in> set (hub_alerts h) \<Longrightarrow> row_identity a \<in> row_identity ` set rows \<or> settled h (row_identity a)"
  shows "accounted t"
proof -
  have same: "settled t k = settled h k" for k using assms(3-5) by (simp add: settled_def closes_def)
  show ?thesis
    unfolding accounted_def
  proof (intro conjI ballI)
    fix e assume "e \<in> set (hub_sent t)"
    then have "sent_identity e \<in> row_identity ` set (hub_alerts h) \<or> settled h (sent_identity e)"
      using assms(1,3) by (auto simp: accounted_def)
    then show "sent_identity e \<in> row_identity ` set (hub_alerts t) \<or> settled t (sent_identity e)"
    proof
      assume "sent_identity e \<in> row_identity ` set (hub_alerts h)"
      then obtain a where "a \<in> set (hub_alerts h)" "sent_identity e = row_identity a" by blast
      then show ?thesis using assms(7) [of a] unfolding assms(2) same by simp
    qed (simp add: same)
  qed (use assms in \<open>auto simp: accounted_def\<close>)
qed

text \<open>A request whose identity is tracked.\<close>

lemma send_result:
  assumes "send ep a h = (r, t)"
  shows "hub_alerts t = hub_alerts h" "hub_clock t = hub_clock h" "hub_tick t = hub_tick h"
    "hub_sent t = hub_sent h @ [\<lparr>sent_endpoint = ep, sent_alert = a, sent_ok = (r = Inr ())\<rparr>]"
  using assms by (auto simp: send_def Let_def split: option.splits list.splits)

lemma settled_append:
  assumes "settled h k" "hub_sent t = hub_sent h @ [f]" "hub_clock t = hub_clock h" "hub_tick t = hub_tick h"
    "sent_identity f \<noteq> k"
  shows "settled t k"
  unfolding settled_def
proof (intro allI impI, elim conjE)
  fix xs e ys assume split: "hub_sent t = xs @ e # ys" and k: "sent_identity e = k"
  then obtain zs where "ys = zs @ [f]" "hub_sent h = xs @ e # zs"
    using assms(2,5) by (cases ys rule: rev_cases) auto
  then obtain g where "g \<in> set (e # zs)" "closes h e g" using assms(1) k unfolding settled_def by blast
  then show "\<exists>g \<in> set (e # ys). closes t e g" using assms(3,4) \<open>ys = zs @ [f]\<close> by (auto simp: closes_def)
qed

lemma accounted_send:
  assumes "accounted h" "send ep a h = (r, t)" "identity ep a \<in> row_identity ` set (hub_alerts h)"
  shows "accounted t"
proof -
  note t = send_result [OF assms(2)]
  let ?f = "\<lparr>sent_endpoint = ep, sent_alert = a, sent_ok = (r = Inr ())\<rparr>"
  have f: "sent_identity ?f = identity ep a" by simp
  show ?thesis
    unfolding accounted_def
  proof (intro conjI ballI)
    fix e assume e: "e \<in> set (hub_sent t)"
    show "sent_identity e \<in> row_identity ` set (hub_alerts t) \<or> settled t (sent_identity e)"
    proof (cases "sent_identity e = identity ep a")
      case False
      then have "e \<in> set (hub_sent h)" using e t(4) by auto
      then have "sent_identity e \<in> row_identity ` set (hub_alerts h) \<or> settled h (sent_identity e)"
        using assms(1) by (auto simp: accounted_def)
      then show ?thesis using settled_append [OF _ t(4) t(2,3), of "sent_identity e"] False f t(1) by auto
    qed (use assms(3) t(1) in simp)
  qed (use assms(1) t in \<open>auto simp: accounted_def\<close>)
qed

lemma resolve_cases:
  assumes "resolve a h = (r, t)"
  obtains now h0 where "read_clock h = (Inr now, h0)" "send (aa_endpoint a) ((aa_alert a)\<lparr>al_ends_at := now\<rparr>) h0 = (r, t)"
  using assms unfolding resolve_def by (elim op_bind_cases) (auto simp: read_clock_def)

lemma accounted_resolve:
  assumes "accounted h" "resolve a h = (r, t)" "a \<in> set (hub_alerts h)"
  shows "accounted t" "hub_alerts t = hub_alerts h" "r = Inr () \<Longrightarrow> settled t (row_identity a)"
proof -
  obtain now h0 where clock: "read_clock h = (Inr now, h0)"
    and sent: "send (aa_endpoint a) ((aa_alert a)\<lparr>al_ends_at := now\<rparr>) h0 = (r, t)"
    using assms(2) by (rule resolve_cases)
  let ?f = "\<lparr>sent_endpoint = aa_endpoint a, sent_alert = (aa_alert a)\<lparr>al_ends_at := now\<rparr>, sent_ok = (r = Inr ())\<rparr>"
  note t = send_result [OF sent]
  have h0: "quiet h h0" using movesD [OF quiet_read_clock clock] .
  then have ok: "accounted h0" and rows: "hub_alerts h0 = hub_alerts h" using assms(1) accounted_quiet by (auto simp: quiet_def)
  have same: "identity (aa_endpoint a) ((aa_alert a)\<lparr>al_ends_at := now\<rparr>) = row_identity a" by (simp add: identity_def)
  then have "identity (aa_endpoint a) ((aa_alert a)\<lparr>al_ends_at := now\<rparr>) \<in> row_identity ` set (hub_alerts h0)"
    using assms(3) rows by simp
  with ok sent show "accounted t" by (rule accounted_send)
  show "hub_alerts t = hub_alerts h" using t(1) rows by simp
  assume r: "r = Inr ()"
  have "hub_clock h (hub_tick h) \<le> hub_clock t (hub_tick t)" "now = hub_clock h (hub_tick h)"
    using assms(1) clock t(2,3) by (auto simp: read_clock_def accounted_def mono_def)
  then have closes: "closes t e ?f" if "sent_identity e = row_identity a" for e
    using that r by (simp add: closes_def identity_def)
  show "settled t (row_identity a)"
    unfolding settled_def
  proof (intro allI impI, elim conjE)
    fix xs e ys assume split: "hub_sent t = xs @ e # ys" and k: "sent_identity e = row_identity a"
    have "last (e # ys) = ?f" using split t(4) by (metis last_appendR last_snoc list.distinct(1))
    then have "?f \<in> set (e # ys)" by (metis last_in_set list.distinct(1))
    then show "\<exists>g \<in> set (e # ys). closes t e g" using closes [OF k] by blast
  qed
qed

section \<open>Writes to the tracked alerts\<close>

lemma hub_write_cases:
  assumes env: "\<forall>k x. quiet x (env k x)" and run: "hub_write env what (\<lambda>x. (Inr (), f x)) h = (r, t)"
  obtains (failed) e where "r = Inl e" "quiet h t"
  | (written) x where "r = Inr ()" "quiet h x" "t = f x"
proof -
  let ?op = "statement (\<lambda>x. (Inr (), f x))"
  have err: "quiet h y" if x: "quiet h x" and op: "?op x = (Inl e, y)" for x e y
    using op
  proof (cases rule: statement_cases)
    case fault
    then show ?thesis using x quiet.trans by blast
  next
    case err
    then show ?thesis using x quiet.trans by blast
  qed auto
  have env': "quiet h (env n x)" if "quiet h x" for n x using that env quiet.trans by blast
  show thesis
  proof (cases r)
    case (Inl e)
    from run have "retry_from env default_write_policy what ?op 0 h = (Inl e, t)" by (simp add: Inl retry_write_def)
    then have "quiet h t"
      by (rule retry_from_error [where I = "quiet h", rotated 3]) (fact err env' quiet.refl)+
    then show thesis using failed Inl by blast
  next
    case (Inr v)
    from run have "retry_from env default_write_policy what ?op 0 h = (Inr v, t)" by (simp add: Inr retry_write_def)
    then have "\<exists>x. quiet h x \<and> ?op x = (Inr v, t)"
      by (rule retry_from_last [where I = "quiet h", rotated 3]) (fact err env' quiet.refl)+
    then obtain x where x: "quiet h x" and op: "?op x = (Inr v, t)" by blast
    from op show thesis
    proof (cases rule: statement_cases)
      case (ok v' h0)
      then show thesis using written [of h0] Inr x quiet.trans by auto
    qed auto
  qed
qed

lemma put_alert_set:
  "set (put_alert a rows) = insert a {b \<in> set rows. aa_issue_id b \<noteq> aa_issue_id a}"
  by (auto simp: put_alert_def list_ex_iff)

lemma put_alert_keys: "distinct (map aa_issue_id rows) \<Longrightarrow> distinct (map aa_issue_id (put_alert a rows))"
proof -
  assume d: "distinct (map aa_issue_id rows)"
  have "map aa_issue_id (map (\<lambda>b. if aa_issue_id b = aa_issue_id a then a else b) rows) = map aa_issue_id rows" by simp
  then show ?thesis using d by (auto simp: put_alert_def list_ex_iff simp del: map_map)
qed

text \<open>A row of \<open>rows\<close> that a new row of the same issue replaces is settled or keeps its identity.\<close>

definition replaceable :: "hub \<Rightarrow> active_alert \<Rightarrow> bool" where
  "replaceable h a \<longleftrightarrow>
     (\<forall>b \<in> set (hub_alerts h). aa_issue_id b = aa_issue_id a \<longrightarrow> row_identity b = row_identity a \<or> settled h (row_identity b))"

lemma replaceable_quiet:
  assumes "quiet h t" "mono (hub_clock h)" "replaceable h a"
  shows "replaceable t a"
  using assms settled_quiet [OF assms(1,2)] unfolding replaceable_def by (metis quiet_def)

lemma accounted_save:
  assumes env: "\<forall>k x. quiet x (env k x)" and ok: "accounted h" and rep: "replaceable h a"
    and run: "save_alert env a h = (r, t)"
  shows "accounted t" "r = Inr () \<Longrightarrow> a \<in> set (hub_alerts t) \<and> (\<forall>b \<in> set (hub_alerts t). aa_issue_id b = aa_issue_id a \<longrightarrow> b = a)"
proof -
  have "accounted t \<and> (r = Inr () \<longrightarrow> a \<in> set (hub_alerts t) \<and> (\<forall>b \<in> set (hub_alerts t). aa_issue_id b = aa_issue_id a \<longrightarrow> b = a))"
    using env run unfolding save_alert_def
  proof (cases rule: hub_write_cases)
    case failed
    then show ?thesis using ok accounted_quiet by auto
  next
    case (written x)
    have x: "accounted x" "replaceable x a"
      using written ok rep accounted_quiet replaceable_quiet by (auto simp: accounted_def)
    have "accounted t"
    proof (rule accounted_rows [OF x(1)])
      show "hub_alerts t = put_alert a (hub_alerts x)" "hub_sent t = hub_sent x" "hub_clock t = hub_clock x"
        "hub_tick t = hub_tick x" by (simp_all add: written)
      show "distinct (map aa_issue_id (put_alert a (hub_alerts x)))"
        using x(1) by (simp add: put_alert_keys accounted_def)
      show "row_identity b \<in> row_identity ` set (put_alert a (hub_alerts x)) \<or> settled x (row_identity b)"
        if "b \<in> set (hub_alerts x)" for b
        using that x(2) unfolding replaceable_def put_alert_set by (cases "aa_issue_id b = aa_issue_id a") auto
    qed
    then show ?thesis by (auto simp: written put_alert_set)
  qed
  then show "accounted t" "r = Inr () \<Longrightarrow> a \<in> set (hub_alerts t) \<and> (\<forall>b \<in> set (hub_alerts t). aa_issue_id b = aa_issue_id a \<longrightarrow> b = a)"
    by blast+
qed

lemma accounted_remove:
  assumes env: "\<forall>k x. quiet x (env k x)" and ok: "accounted h"
    and over: "\<forall>b \<in> set (hub_alerts h). aa_issue_id b = iid \<longrightarrow> settled h (row_identity b)"
    and run: "remove_alert env iid h = (r, t)"
  shows "accounted t"
  using env run unfolding remove_alert_def
proof (cases rule: hub_write_cases)
  case failed
  then show ?thesis using ok accounted_quiet by auto
next
  case (written x)
  have x: "accounted x" using written ok accounted_quiet by auto
  have over': "settled x (row_identity b)" if "b \<in> set (hub_alerts x)" "aa_issue_id b = iid" for b
    using that over written(2) ok settled_quiet [OF written(2)] by (auto simp: accounted_def quiet_def)
  show ?thesis
  proof (rule accounted_rows [OF x])
    show "hub_alerts t = filter (\<lambda>a. aa_issue_id a \<noteq> iid) (hub_alerts x)" "hub_sent t = hub_sent x"
      "hub_clock t = hub_clock x" "hub_tick t = hub_tick x" by (simp_all add: written)
    show "distinct (map aa_issue_id (filter (\<lambda>a. aa_issue_id a \<noteq> iid) (hub_alerts x)))"
      using x by (simp add: accounted_def distinct_map_filter)
    show "row_identity b \<in> row_identity ` set (filter (\<lambda>a. aa_issue_id a \<noteq> iid) (hub_alerts x)) \<or> settled x (row_identity b)"
      if "b \<in> set (hub_alerts x)" for b
      using that over' by (cases "aa_issue_id b = iid") auto
  qed
qed

abbreviation keys :: "hub \<Rightarrow> uuid set" where
  "keys h \<equiv> aa_issue_id ` set (hub_alerts h)"

lemma save_keys:
  assumes "\<forall>k x. quiet x (env k x)" "save_alert env a h = (r, t)"
  shows "keys t \<subseteq> insert (aa_issue_id a) (keys h)"
  using assms unfolding save_alert_def
  by (cases rule: hub_write_cases) (auto simp: quiet_def put_alert_set)

lemma remove_keys:
  assumes "\<forall>k x. quiet x (env k x)" "remove_alert env iid h = (r, t)"
  shows "keys t \<subseteq> keys h"
  using assms unfolding remove_alert_def
  by (cases rule: hub_write_cases) (auto simp: quiet_def)

lemma deliver_accounted:
  assumes env: "\<forall>k x. quiet x (ex_env ex k x)" and ok: "accounted h" and rep: "replaceable h a"
    and run: "deliver ex a h = (r, t)"
  shows "accounted t \<and> keys t \<subseteq> insert (aa_issue_id a) (keys h)"
  using run unfolding deliver_def
proof (cases rule: op_bind_cases)
  case (1 e)
  then show ?thesis using accounted_save(1) [OF env ok rep] save_keys [OF env] by blast
next
  case (2 u h1)
  then have h1: "accounted h1" "a \<in> set (hub_alerts h1)" "keys h1 \<subseteq> insert (aa_issue_id a) (keys h)"
    "\<forall>b \<in> set (hub_alerts h1). aa_issue_id b = aa_issue_id a \<longrightarrow> b = a"
    using accounted_save [OF env ok rep 2(1)] save_keys [OF env 2(1)] by auto
  have sent: "accounted h2 \<and> hub_alerts h2 = hub_alerts h1" if "send (aa_endpoint a) (aa_alert a) h1 = (q, h2)" for q h2
    using that accounted_send [OF h1(1) that] send_result(1) [OF that] h1(2) by simp
  from 2(2) show ?thesis
  proof (cases rule: op_bind_cases)
    case (1 e)
    then show ?thesis using sent h1(3) by auto
  next
    case (2 v h2)
    let ?now = "hub_clock h2 (hub_tick h2)" and ?h3 = "h2\<lparr>hub_tick := Suc (hub_tick h2)\<rparr>"
    let ?a = "a\<lparr>aa_last_sent_at := Some ?now\<rparr>"
    have h3: "quiet h2 ?h3" by (simp add: quiet_def)
    then have ok3: "accounted ?h3" using sent [OF 2(1)] accounted_quiet by blast
    have rep3: "replaceable ?h3 ?a"
      using sent [OF 2(1)] h1(4) by (auto simp: replaceable_def identity_def)
    have "save_alert (ex_env ex) ?a ?h3 = (r, t)" using 2(2) by (simp add: op_bind_def read_clock_def)
    from accounted_save(1) [OF env ok3 rep3 this] save_keys [OF env this] sent [OF 2(1)] h1(3) show ?thesis by auto
  qed
qed

lemma find_alert_row:
  assumes "find_alert iid h = (Inr found, t)"
  shows "quiet h t" "found = Some a \<Longrightarrow> a \<in> set (hub_alerts t) \<and> aa_issue_id a = iid"
    "found = None \<Longrightarrow> iid \<notin> keys t"
proof -
  show "quiet h t" using assms movesD [OF quiet_reads(4)] by blast
  obtain h0 where "found = List.find (\<lambda>a. aa_issue_id a = iid) (hub_alerts h0)" "t = h0"
    using assms unfolding find_alert_def by (cases rule: statement_cases) auto
  then show "found = Some a \<Longrightarrow> a \<in> set (hub_alerts t) \<and> aa_issue_id a = iid" "found = None \<Longrightarrow> iid \<notin> keys t"
    by (auto simp: find_None_iff) (auto simp: find_Some_iff)
qed

lemma row_unique:
  "accounted h \<Longrightarrow> a \<in> set (hub_alerts h) \<Longrightarrow> b \<in> set (hub_alerts h) \<Longrightarrow> aa_issue_id b = aa_issue_id a \<Longrightarrow> b = a"
  unfolding accounted_def by (meson distinct_map inj_onD)

lemma redeliver_accounted:
  assumes env: "\<forall>k x. quiet x (ex_env ex k x)" and ok: "accounted h" and saved: "saved \<in> set (hub_alerts h)"
    and changed: "changed \<longleftrightarrow> aa_endpoint saved \<noteq> ep \<or> al_labels (aa_alert saved) \<noteq> al_labels alert"
    and run: "op_bind (if changed then resolve saved else op_ok ()) (\<lambda>_.
        let alert = (if changed then alert else alert\<lparr>al_starts_at := al_starts_at (aa_alert saved)\<rparr>)
        in deliver ex (saved\<lparr>aa_endpoint := ep, aa_alert := alert, aa_last_sent_at := None\<rparr>)) h = (r, t)"
  shows "accounted t \<and> keys t \<subseteq> keys h"
proof (cases changed)
  case True
  let ?a = "saved\<lparr>aa_endpoint := ep, aa_alert := alert, aa_last_sent_at := None\<rparr>"
  have "op_bind (resolve saved) (\<lambda>_. deliver ex ?a) h = (r, t)" using run True by simp
  then show ?thesis
  proof (cases rule: op_bind_cases)
    case (1 e)
    then show ?thesis using accounted_resolve [OF ok _ saved] by auto
  next
    case (2 u h1)
    note res = accounted_resolve [OF ok 2(1) saved]
    have "replaceable h1 ?a" using row_unique [OF ok saved] res(2,3) by (auto simp: replaceable_def)
    from deliver_accounted [OF env res(1) this 2(2)] show ?thesis using res(2) saved by auto
  qed
next
  case False
  let ?a = "saved\<lparr>aa_endpoint := ep, aa_alert := alert\<lparr>al_starts_at := al_starts_at (aa_alert saved)\<rparr>, aa_last_sent_at := None\<rparr>"
  have "deliver ex ?a h = (r, t)" using run False by (simp add: op_bind_def)
  moreover have "replaceable h ?a"
    using row_unique [OF ok saved] False changed by (auto simp: replaceable_def identity_def)
  ultimately show ?thesis using deliver_accounted [OF env ok] saved by fastforce
qed

lemma reconcile_accounted:
  assumes env: "\<forall>k x. quiet x (ex_env ex k x)" and ok: "accounted h" and saved: "saved \<in> set (hub_alerts h)"
    and run: "reconcile cfg ex c org saved h = (r, t)"
  shows "accounted t \<and> keys t \<subseteq> keys h"
  using run unfolding reconcile_def
proof (cases rule: op_bind_cases)
  case (1 e)
  then have "quiet h t" using movesD [OF quiet_find_issue_project] by blast
  then show ?thesis using ok accounted_quiet by (auto simp: quiet_def)
next
  case (2 pi h1)
  obtain project issue where pi: "pi = (project, issue)" by fastforce
  have q1: "quiet h h1" using movesD [OF quiet_find_issue_project 2(1)] .
  then have ok1: "accounted h1" and saved1: "saved \<in> set (hub_alerts h1)" and k1: "keys h1 = keys h"
    using ok saved accounted_quiet by (auto simp: quiet_def)
  show ?thesis
  proof (cases "live c project issue")
    case False
    then have run': "op_bind (resolve saved) (\<lambda>_. remove_alert (ex_env ex) (aa_issue_id saved)) h1 = (r, t)"
      using 2(2) by (simp add: pi)
    then show ?thesis
    proof (cases rule: op_bind_cases)
      case (1 e)
      then show ?thesis using accounted_resolve [OF ok1 _ saved1] k1 by auto
    next
      case (2 u h2)
      note res = accounted_resolve [OF ok1 2(1) saved1]
      have "\<forall>b \<in> set (hub_alerts h2). aa_issue_id b = aa_issue_id saved \<longrightarrow> settled h2 (row_identity b)"
        using row_unique [OF ok1 saved1] res(2,3) by auto
      then show ?thesis using accounted_remove [OF env res(1) _ 2(2)] remove_keys [OF env 2(2)] res(2) k1 by auto
    qed
  next
    case True
    then obtain p i where pi': "project = Some p" "issue = Some i" by (auto simp: live_def split: option.splits)
    have "op_bind (current_alert cfg ex c org p i (aa_trigger saved)) (\<lambda>(alert, seconds).
            let identity_changed = (aa_endpoint saved \<noteq> endpoint c \<or> al_labels (aa_alert saved) \<noteq> al_labels alert) in
            op_bind (fresh_enough identity_changed seconds saved) (\<lambda>fresh.
            if fresh then op_ok ()
            else
              op_bind (if identity_changed then resolve saved else op_ok ()) (\<lambda>_.
                let alert = (if identity_changed then alert else alert\<lparr>al_starts_at := al_starts_at (aa_alert saved)\<rparr>)
                in deliver ex (saved\<lparr>aa_endpoint := endpoint c, aa_alert := alert, aa_last_sent_at := None\<rparr>)))) h1 = (r, t)"
      using 2(2) True by (simp add: pi pi')
    then show ?thesis
    proof (cases rule: op_bind_cases)
      case (1 e)
      then have "quiet h1 t" using movesD [OF quiet_current_alert] by blast
      then show ?thesis using ok1 accounted_quiet k1 by (auto simp: quiet_def)
    next
      case (2 as h2)
      obtain alert seconds where as: "as = (alert, seconds)" by fastforce
      have q2: "quiet h1 h2" using movesD [OF quiet_current_alert 2(1)] .
      from 2(2) show ?thesis
        unfolding as prod.case Let_def
      proof (cases rule: op_bind_cases)
        case (1 e)
        then have "quiet h1 t" using movesD [OF quiet_fresh_enough] q2 quiet.trans by blast
        then show ?thesis using ok1 accounted_quiet k1 by (auto simp: quiet_def)
      next
        case (2 fresh h3)
        have q3: "quiet h1 h3" using movesD [OF quiet_fresh_enough 2(1)] q2 quiet.trans by blast
        then have h3: "accounted h3" "saved \<in> set (hub_alerts h3)" "keys h3 = keys h"
          using ok1 saved1 k1 accounted_quiet by (auto simp: quiet_def)
        show ?thesis
        proof (cases fresh)
          case False
          then show ?thesis using redeliver_accounted [OF env h3(1,2) refl] 2(2) h3(3) by (simp add: Let_def)
        qed (use 2(2) h3 in auto)
      qed
    qed
  qed
qed

lemma first_delivery_accounted:
  assumes env: "\<forall>k x. quiet x (ex_env ex k x)" and ok: "accounted h" and new: "aa_issue_id a = iid"
    and run: "op_bind (find_alert iid) (\<lambda>old.
        op_bind (case old of Some a \<Rightarrow> resolve a | None \<Rightarrow> op_ok ()) (\<lambda>_. deliver ex a)) h = (r, t)"
  shows "accounted t"
  using run
proof (cases rule: op_bind_cases)
  case (1 e)
  then show ?thesis using ok accounted_quiet movesD [OF quiet_reads(4)] by blast
next
  case (2 old h1)
  note found = find_alert_row [OF 2(1)]
  have ok1: "accounted h1" using ok accounted_quiet found(1) by blast
  show ?thesis
  proof (cases old)
    case None
    then have "replaceable h1 a" unfolding replaceable_def using found(3) new by (metis image_eqI)
    then show ?thesis using deliver_accounted [OF env ok1] 2(2) None by (simp add: op_bind_def)
  next
    case (Some b)
    then have b: "b \<in> set (hub_alerts h1)" "aa_issue_id b = iid" using found(2) by auto
    have "op_bind (resolve b) (\<lambda>_. deliver ex a) h1 = (r, t)" using 2(2) Some by simp
    then show ?thesis
    proof (cases rule: op_bind_cases)
      case (1 e)
      then show ?thesis using accounted_resolve [OF ok1 _ b(1)] by auto
    next
      case (2 u h2)
      note res = accounted_resolve [OF ok1 2(1) b(1)]
      have "replaceable h2 a" using row_unique [OF ok1 b(1)] b(2) res(2,3) new by (auto simp: replaceable_def)
      then show ?thesis using deliver_accounted [OF env res(1)] 2(2) by blast
    qed
  qed
qed

lemma notify_accounted:
  assumes env: "\<forall>k x. quiet x (ex_env ex k x)" and ok: "accounted h"
    and run: "notify_alertmanager cfg ex p i trigger h = (r, t)"
  shows "accounted t"
proof (cases "cfg_alertmanager_enabled cfg")
  case False
  then show ?thesis using run ok by (simp add: notify_alertmanager_def)
next
  case True
  note run' = run [unfolded notify_alertmanager_def if_not_P [OF iffD2 [OF not_not True]]]
  from run' show ?thesis
  proof (cases rule: op_bind_cases)
    case (1 e)
    then show ?thesis using ok accounted_quiet movesD [OF quiet_effective_of] by blast
  next
    case (2 c h1)
    have ok1: "accounted h1" using ok accounted_quiet movesD [OF quiet_effective_of 2(1)] by blast
    show ?thesis
    proof (cases "am_enabled c")
      case False
      then show ?thesis using 2(2) ok1 by simp
    next
      case True
      note run2 = 2(2) [unfolded if_not_P [OF iffD2 [OF not_not True]]]
      from run2 show ?thesis
      proof (cases rule: op_bind_cases)
        case (1 e)
        then show ?thesis using ok1 accounted_quiet movesD [OF quiet_reads(1)] by blast
      next
        case (2 settings h2)
        have ok2: "accounted h2" using ok1 accounted_quiet movesD [OF quiet_reads(1) 2(1)] by blast
        from 2(2) show ?thesis
        proof (cases rule: op_bind_cases)
          case (1 e)
          then show ?thesis using ok2 accounted_quiet movesD [OF quiet_current_alert] by blast
        next
          case (2 alert h3)
          have ok3: "accounted h3" using ok2 accounted_quiet movesD [OF quiet_current_alert 2(1)] by blast
          show ?thesis
            by (rule first_delivery_accounted [OF env ok3 _ 2(2) [unfolded case_prod_beta]]) simp
        qed
      qed
    qed
  qed
qed

lemma refresh_page_accounted:
  assumes env: "\<forall>k x. quiet x (ex_env ex k x)"
  shows "accounted h \<Longrightarrow> refresh_page cfg ex c org page after h = (r, t) \<Longrightarrow> accounted t \<and> keys t \<subseteq> keys h"
proof (induction page arbitrary: after h)
  case (Cons entry page)
  from Cons.prems(2) show ?case
    unfolding refresh_page.simps
  proof (cases rule: op_bind_cases)
    case (1 e)
    then have "quiet h t" using movesD [OF quiet_reads(4)] by blast
    then show ?thesis using Cons.prems(1) accounted_quiet by (auto simp: quiet_def)
  next
    case (2 found h1)
    note row = find_alert_row [OF 2(1)]
    have ok1: "accounted h1" "keys h1 = keys h" using row(1) Cons.prems(1) accounted_quiet by (auto simp: quiet_def)
    show ?thesis
    proof (cases found)
      case None
      then show ?thesis using Cons.IH [OF ok1(1)] 2(2) ok1(2) by simp
    next
      case (Some saved)
      obtain q h2 where rec: "reconcile cfg ex c org saved h1 = (q, h2)" by fastforce
      have "refresh_page cfg ex c org page (aa_issue_id entry) h2 = (r, t)"
        using 2(2) Some rec by (simp add: op_bind_def op_try_def)
      moreover have "accounted h2 \<and> keys h2 \<subseteq> keys h1"
        using row(2) [OF Some] by (intro reconcile_accounted [OF env ok1(1) _ rec]) simp
      ultimately have "accounted t \<and> keys t \<subseteq> keys h2" using Cons.IH by blast
      with \<open>accounted h2 \<and> keys h2 \<subseteq> keys h1\<close> show ?thesis unfolding ok1(2) by (meson order_trans)
    qed
  qed
qed (auto simp: quiet.refl)

lemma refresh_pages_accounted:
  assumes env: "\<forall>k x. quiet x (ex_env ex k x)"
  shows "accounted h \<Longrightarrow> refresh_pages cfg ex c org fuel after h = (r, t) \<Longrightarrow> accounted t"
proof (induction fuel arbitrary: after h)
  case (Suc fuel)
  from Suc.prems(2) show ?case
    unfolding refresh_pages.simps
  proof (cases rule: op_bind_cases)
    case (1 e)
    then show ?thesis using Suc.prems(1) accounted_quiet movesD [OF quiet_reads(5)] by blast
  next
    case (2 page h1)
    have ok1: "accounted h1" using Suc.prems(1) accounted_quiet movesD [OF quiet_reads(5) 2(1)] by blast
    show ?thesis
    proof (cases "page = []")
      case False
      then have "op_bind (refresh_page cfg ex c org page after) (refresh_pages cfg ex c org fuel) h1 = (r, t)"
        using 2(2) by simp
      then show ?thesis
      proof (cases rule: op_bind_cases)
        case (1 e)
        show ?thesis using refresh_page_accounted [OF env ok1 1(1)] by simp
      next
        case (2 after' h2)
        have "accounted h2" using refresh_page_accounted [OF env ok1 2(1)] by simp
        then show ?thesis using 2(2) by (rule Suc.IH)
      qed
    qed (use 2(2) ok1 in simp)
  qed
qed auto

lemma refresh_accounted:
  assumes env: "\<forall>k x. quiet x (ex_env ex k x)" and ok: "accounted h" and run: "refresh cfg ex fuel h = (r, t)"
  shows "accounted t"
proof (cases "cfg_alertmanager_enabled cfg")
  case False
  then show ?thesis using run ok by (simp add: refresh_def)
next
  case True
  note run' = run [unfolded refresh_def if_not_P [OF iffD2 [OF not_not True]]]
  from run' show ?thesis
  proof (cases rule: op_bind_cases)
    case (1 e)
    then show ?thesis using ok accounted_quiet movesD [OF quiet_effective_of] by blast
  next
    case (2 c h1)
    have ok1: "accounted h1" using ok accounted_quiet movesD [OF quiet_effective_of 2(1)] by blast
    from 2(2) show ?thesis
    proof (cases rule: op_bind_cases)
      case (1 e)
      then show ?thesis using ok1 accounted_quiet movesD [OF quiet_reads(1)] by blast
    next
      case (2 settings h2)
      have ok2: "accounted h2" using ok1 accounted_quiet movesD [OF quiet_reads(1) 2(1)] by blast
      show ?thesis using ok2 2(2) by (rule refresh_pages_accounted [OF env])
    qed
  qed
qed

text \<open>The life of the alerts: deliveries and sweeps, in any order, with whatever else the program does to
  the database, the settings and the issues in between.\<close>

inductive alert_step :: "hub \<Rightarrow> hub \<Rightarrow> bool" where
  notify: "\<forall>k x. quiet x (ex_env ex k x) \<Longrightarrow> notify_alertmanager cfg ex p i trigger h = (r, t) \<Longrightarrow> alert_step h t"
| sweep: "\<forall>k x. quiet x (ex_env ex k x) \<Longrightarrow> refresh cfg ex fuel h = (q, t) \<Longrightarrow> alert_step h t"
| other: "quiet h t \<Longrightarrow> alert_step h t"

text \<open>C29. No alert of an issue is left firing by accident (the test alerts of the interface are not tracked; they end
  by themselves): whatever deliveries and statements fail, whatever settings
  change in between, every request that was sent to Alertmanager has a tracked alert with its endpoint and
  labels, or was followed by an accepted request with the same endpoint and labels whose end lies in the
  past.\<close>

theorem alerts_accounted:
  assumes "alert_step\<^sup>*\<^sup>* h t" "accounted h" "hub_sent t = xs @ e # ys"
  shows "(\<exists>a \<in> set (hub_alerts t). aa_endpoint a = sent_endpoint e \<and> al_labels (aa_alert a) = al_labels (sent_alert e)) \<or>
    (\<exists>f \<in> set (e # ys). sent_ok f \<and> sent_endpoint f = sent_endpoint e \<and>
       al_labels (sent_alert f) = al_labels (sent_alert e) \<and> al_ends_at (sent_alert f) \<le> hub_clock t (hub_tick t))"
proof -
  have "accounted t"
    using assms(1,2)
  proof (induction rule: rtranclp_induct)
    case (step u v)
    from step.hyps(2) show ?case
      by (cases rule: alert_step.cases) (use step notify_accounted refresh_accounted accounted_quiet in blast)+
  qed
  then have "sent_identity e \<in> row_identity ` set (hub_alerts t) \<or> settled t (sent_identity e)"
    using assms(3) by (auto simp: accounted_def)
  then show ?thesis
  proof
    assume "settled t (sent_identity e)"
    then obtain f where "f \<in> set (e # ys)" "closes t e f" using assms(3) unfolding settled_def by blast
    then show ?thesis by (auto simp: closes_def identity_def)
  qed (auto simp: identity_def)
qed

section \<open>The sweep ends\<close>

lemma refresh_page_after:
  "refresh_page cfg ex c org page after h = (Inr after', t) \<Longrightarrow> page \<noteq> [] \<Longrightarrow> after' = aa_issue_id (last page)"
proof (induction page arbitrary: after h)
  case (Cons entry page)
  from Cons.prems(1) obtain h1 where "refresh_page cfg ex c org page (aa_issue_id entry) h1 = (Inr after', t)"
    by (auto simp: op_bind_Inr op_try_def case_prod_beta split: option.splits)
  then show ?case using Cons.IH by (cases "page = []") auto
qed simp

lemma active_rows:
  assumes "active after n h = (Inr page, t)"
  shows "set page \<subseteq> {a \<in> set (hub_alerts t). after < aa_issue_id a}"
  using assms unfolding active_def
  by (cases rule: statement_cases) (auto dest: in_set_takeD)

lemma refresh_pages_return:
  assumes env: "\<forall>k x. quiet x (ex_env ex k x)"
  shows "accounted h \<Longrightarrow> card {k \<in> keys h. after < k} < fuel \<Longrightarrow> refresh_pages cfg ex c org fuel after h \<noteq> (Inr None, t)"
proof (induction fuel arbitrary: after h)
  case (Suc fuel)
  show ?case
  proof
    assume "refresh_pages cfg ex c org (Suc fuel) after h = (Inr None, t)"
    then obtain page h1 where page: "active after 100 h = (Inr page, h1)" and
      rest: "(if page = [] then op_ok (Some ()) else op_bind (refresh_page cfg ex c org page after) (refresh_pages cfg ex c org fuel)) h1 = (Inr None, t)"
      by (auto simp: op_bind_Inr)
    from rest obtain after' h2 where ne: "page \<noteq> []" and p2: "refresh_page cfg ex c org page after h1 = (Inr after', h2)"
      and more: "refresh_pages cfg ex c org fuel after' h2 = (Inr None, t)"
      by (auto simp: op_bind_Inr split: if_splits)
    have q: "quiet h h1" using movesD [OF quiet_reads(5) page] .
    then have ok1: "accounted h1" and k1: "keys h1 = keys h" using Suc.prems(1) accounted_quiet by (auto simp: quiet_def)
    have ok2: "accounted h2" and k2: "keys h2 \<subseteq> keys h" using refresh_page_accounted [OF env ok1 p2] k1 by simp_all
    have "last page \<in> set (hub_alerts h1)" "after < aa_issue_id (last page)"
      using active_rows [OF page] last_in_set [OF ne] by auto
    then have after': "after' \<in> keys h" "after < after'"
      using refresh_page_after [OF p2 ne] k1 by auto
    have "{k \<in> keys h2. after' < k} \<subset> {k \<in> keys h. after < k}" using k2 after' by auto
    then have "card {k \<in> keys h2. after' < k} < card {k \<in> keys h. after < k}" by (intro psubset_card_mono) auto
    then show False using Suc.IH [OF ok2] Suc.prems(2) more by auto
  qed
qed simp

text \<open>C30. The sweep over the tracked alerts returns: it reads them a page at a time behind the last issue it
  saw, so as many rounds as there are tracked alerts, and one more, always suffice, also when deliveries fail
  and alerts are removed on the way.\<close>

theorem refresh_returns:
  assumes "\<forall>k x. quiet x (ex_env ex k x)" "accounted h" "length (hub_alerts h) < fuel"
  shows "fst (refresh cfg ex fuel h) \<noteq> Inr None"
proof
  assume "fst (refresh cfg ex fuel h) = Inr None"
  then obtain t where "refresh cfg ex fuel h = (Inr None, t)" by (metis prod.collapse)
  then obtain c h1 settings h2 where run: "effective_of cfg ex h = (Inr c, h1)" "get_settings h1 = (Inr settings, h2)"
    "refresh_pages cfg ex c (set_org_name settings) fuel [] h2 = (Inr None, t)"
    by (auto simp: refresh_def op_bind_Inr split: if_splits)
  have q: "quiet h h2" using movesD [OF quiet_effective_of run(1)] movesD [OF quiet_reads(1) run(2)] quiet.trans by blast
  have "card {k \<in> keys h2. [] < k} \<le> card (keys h2)" by (intro card_mono) auto
  also have "\<dots> \<le> length (hub_alerts h2)" using card_image_le card_length le_trans by blast
  finally have "card {k \<in> keys h2. [] < k} < fuel" using q assms(3) by (simp add: quiet_def)
  then show False using refresh_pages_return [OF assms(1) accounted_quiet [OF q assms(2)]] run(3) by blast
qed

section \<open>Dispatch\<close>

text \<open>A relation of states that allows whatever leaves the mails and the tables, the entry of the fault script that a
  statement takes apart.\<close>

locale notification_relation = step_relation R for R :: "hub \<Rightarrow> hub \<Rightarrow> bool" +
  assumes aside: "hub_mails t = hub_mails h \<Longrightarrow>
    hub_db t = hub_db h \<or> hub_db t = (hub_db h)\<lparr>faults := tl (faults (hub_db h))\<rparr> \<Longrightarrow> R h t"
begin

lemma moves_statement:
  assumes "\<And>h. hub_mails (snd (body h)) = hub_mails h \<and> hub_db (snd (body h)) = hub_db h"
  shows "moves R (statement body)"
proof (rule movesI)
  fix h r t assume run: "statement body h = (r, t)"
  have "hub_mails u = hub_mails h \<and> hub_db u = d" if "body (h\<lparr>hub_db := d\<rparr>) = (v, u)" for d v u
    using assms [of "h\<lparr>hub_db := d\<rparr>"] that by simp
  then show "R h t"
    using run by (intro aside) (auto simp: statement_def Let_def split: list.splits option.splits prod.splits sum.splits)
qed

lemma moves_steps: "moves R read_clock" "moves R (send ep a)" "moves R (project_config c slug names sev)"
  by (auto simp: moves_def read_clock_def send_def project_config_def Let_def intro!: aside)

lemma moves_reads:
  "moves R get_settings" "moves R get_names" "moves R get_notifications" "moves R (find_alert i)" "moves R (severity_text p)"
  unfolding get_settings_def get_names_def get_notifications_def find_alert_def severity_text_def
  by (rule moves_statement, simp split: option.split)+

lemmas rules = moves_bind moves_ok moves_if moves_steps moves_reads

lemma moves_current_alert: "moves R (current_alert cfg ex c org p i trigger)"
proof -
  have "moves R (severity q)" for q unfolding severity_def by (intro rules)
  moreover have "moves R (interval q)" for q
    unfolding interval_def by (cases q) (auto intro!: rules moves_statement)
  moreover have "moves R (effective_names cfg)" by (simp add: effective_names_def rules)
  ultimately show ?thesis unfolding current_alert_def severity_of_def by (intro rules)
qed

lemma moves_notify:
  assumes env: "\<forall>k x. R x (ex_env ex k x)"
  shows "moves R (notify_alertmanager cfg ex p i trigger)"
proof -
  have save: "moves R (save_alert (ex_env ex) a)" for a
    unfolding save_alert_def using env by (intro moves_retry moves_statement) simp_all
  have deliver: "moves R (deliver ex a)" for a unfolding deliver_def by (intro rules save)
  have resolve: "moves R (case old of Some a \<Rightarrow> resolve a | None \<Rightarrow> op_ok ())" for old
    by (cases old) (auto simp: resolve_def intro!: rules)
  show ?thesis
    unfolding notify_alertmanager_def effective_of_def case_prod_beta
    by (intro rules moves_current_alert deliver resolve)
qed

end

definition same_mail :: "hub \<Rightarrow> hub \<Rightarrow> bool" where
  "same_mail h t \<longleftrightarrow> hub_mails t = hub_mails h"

interpretation mailbox: notification_relation same_mail
  by unfold_locales (auto simp: same_mail_def)

text \<open>The driver does not fail for the rest of the run, once its script of failures is empty.\<close>

definition stays_calm :: "hub \<Rightarrow> hub \<Rightarrow> bool" where
  "stays_calm h t \<longleftrightarrow> (faults (hub_db h) = [] \<longrightarrow> faults (hub_db t) = [])"

interpretation calm: notification_relation stays_calm
  by unfold_locales (auto simp: stays_calm_def)

lemma mail_all_sends:
  "\<exists>t. mail_all (\<lambda>a. Inr (mk a)) tos h = (Inr (), t) \<and> hub_mails t = hub_mails h @ map mk tos \<and> hub_db t = hub_db h"
proof (induction tos arbitrary: h)
  case (Cons a tos)
  obtain q h1 where s: "send_mail (mk a) h = (q, h1)" by fastforce
  then have h1: "hub_mails h1 = hub_mails h @ [mk a]" "hub_db h1 = hub_db h" by (auto simp: send_mail_def Let_def)
  from Cons.IH [of h1] obtain t where "mail_all (\<lambda>a. Inr (mk a)) tos h1 = (Inr (), t)" "hub_mails t = hub_mails h1 @ map mk tos"
    "hub_db t = hub_db h1" by blast
  then show ?case using s h1 by (simp add: op_bind_def op_try_def)
qed simp

text \<open>The members of a team who want e-mail.\<close>

definition wants_mail :: "db \<Rightarrow> uuid \<Rightarrow> user \<Rightarrow> bool" where
  "wants_mail s tid u \<longleftrightarrow>
     u \<in> set (db_users s) \<and> usr_notifications_enabled u \<and>
     (\<exists>m \<in> set (db_members s). mb_team_id m = tid \<and> mb_user_id m = usr_id u)"

lemma team_members_rows:
  assumes "team_members tid s = (Inr members, s')"
  shows "set members = {(u, mb_role m) |u m. u \<in> set (db_users s') \<and> m \<in> set (db_members s') \<and>
       mb_user_id m = usr_id u \<and> mb_team_id m = tid}"
    "distinct (map usr_email (db_users s')) \<Longrightarrow> distinct (user_ids s') \<Longrightarrow> distinct (map member_key (db_members s')) \<Longrightarrow>
       distinct (map (\<lambda>x. usr_email (fst x)) members)"
proof -
  let ?rows = "\<lambda>s u. map (\<lambda>m. (u, mb_role m)) (filter (\<lambda>m. mb_user_id m = usr_id u \<and> mb_team_id m = tid) (db_members s))"
  have m: "members = sort_key (\<lambda>(u, _). usr_display_name u) (concat (map (?rows s') (db_users s')))"
    using assms unfolding team_members_def by (elim transaction_ok) auto
  show "set members = {(u, mb_role m) |u m. u \<in> set (db_users s') \<and> m \<in> set (db_members s') \<and>
       mb_user_id m = usr_id u \<and> mb_team_id m = tid}"
    unfolding m by auto
  assume d: "distinct (map usr_email (db_users s'))" "distinct (user_ids s')" "distinct (map member_key (db_members s'))"
  have one: "length (filter (\<lambda>m. mb_user_id m = uid \<and> mb_team_id m = tid) ms) \<le> 1"
    if "distinct (map member_key ms)" for ms uid
    using that by (induction ms) (auto simp: filter_empty_conv image_iff)
  have "distinct (map (\<lambda>x. usr_email (fst x)) (concat (map (?rows s') us)))" if "distinct (map usr_email us)" for us
    using that
  proof (induction us)
    case (Cons u us)
    have "length (?rows s' u) \<le> 1" using one [OF d(3)] by simp
    then have one_row: "distinct (map (\<lambda>x. usr_email (fst x)) (?rows s' u))"
      by (cases "?rows s' u") (auto simp: le_Suc_eq simp del: map_map)
    have "set (map (\<lambda>x. usr_email (fst x)) (?rows s' u)) \<subseteq> {usr_email u}"
      "set (map (\<lambda>x. usr_email (fst x)) (concat (map (?rows s') us))) \<subseteq> usr_email ` set us" by auto
    moreover have "usr_email u \<notin> usr_email ` set us" using Cons.prems by simp
    ultimately have "set (map (\<lambda>x. usr_email (fst x)) (?rows s' u)) \<inter> set (map (\<lambda>x. usr_email (fst x)) (concat (map (?rows s') us))) = {}"
      by blast
    moreover have "distinct (map usr_email us)" using Cons.prems by simp
    then have "distinct (map (\<lambda>x. usr_email (fst x)) (concat (map (?rows s') us)))" by (rule Cons.IH)
    ultimately show ?case
      unfolding list.map(2) [of "?rows s'"] concat.simps map_append distinct_append using one_row by (intro conjI)
  qed simp
  from this [OF d(1)] show "distinct (map (\<lambda>x. usr_email (fst x)) members)"
    unfolding m by (simp add: distinct_map)
qed

text \<open>C31. A notification of a muted project or issue does nothing at all. Any other one, when e-mail is
  configured and the templates render, mails each member of the owning team who has notifications on exactly
  once and nobody else and succeeds, whatever becomes of the deliveries to Alertmanager, to the webhook and to the
  addresses. The one exception is a driver failure at the very read of the members, after the alert was tried: it is
  the error returned, and nobody is mailed; without driver failures during the run there is no error.\<close>

theorem dispatch_mails:
  assumes run: "dispatch cfg ex (\<lambda>_ _ _ a. Inr (mk a)) p i trigger h = (r, t)"
    and env: "\<forall>k x. same_mail x (ex_env ex k x)" and mail: "cfg_mail_enabled cfg" and ok: "world_ok (hub_db t)"
  shows "if prj_muted p \<or> iss_status i = Muted then (r, t) = (Inr (), h)
    else
      (case faults (hub_db (snd (notify_alertmanager cfg ex p i (trigger_as_str trigger) h))) of
         Some e # _ \<Rightarrow> r = Inl (Db e) \<and> hub_mails t = hub_mails h
       | _ \<Rightarrow> r = Inr () \<and>
           (\<exists>tos. hub_mails t = hub_mails h @ map mk tos \<and> distinct tos \<and>
              set tos = usr_email ` {u. wants_mail (hub_db t) (prj_team_id p) u})) \<and>
      (faults (hub_db h) = [] \<and> (\<forall>k x. stays_calm x (ex_env ex k x)) \<longrightarrow> r = Inr ())"
proof (cases "is_suppressed p i = NotSuppressed")
  case False
  then have "prj_muted p \<or> iss_status i = Muted" by (auto simp: is_suppressed_def split: if_splits)
  then show ?thesis using run False by (simp add: dispatch_def)
next
  case True
  then have live: "\<not> (prj_muted p \<or> iss_status i = Muted)" by (auto simp: is_suppressed_def split: if_splits)
  let ?n = "notify_alertmanager cfg ex p i (trigger_as_str trigger)"
  let ?w = "case prj_webhook_url p of Some url \<Rightarrow> if cfg_webhooks_enabled cfg then send_webhook cfg p i trigger url else op_ok ()
      | None \<Rightarrow> op_ok ()"
  let ?sent = "\<lambda>t. \<exists>tos. hub_mails t = hub_mails h @ map mk tos \<and> distinct tos \<and>
         set tos = usr_email ` {u. wants_mail (hub_db t) (prj_team_id p) u}"
  obtain h2 where w: "?w (snd (?n h)) = (Inr (), h2)" "hub_mails h2 = hub_mails (snd (?n h))" "hub_db h2 = hub_db (snd (?n h))"
    by (cases "prj_webhook_url p"; cases "cfg_webhooks_enabled cfg") (auto simp: send_webhook_def)
  have mails2: "hub_mails h2 = hub_mails h"
    using movesD [OF mailbox.moves_notify [OF env], of cfg p i "trigger_as_str trigger" h "fst (?n h)" "snd (?n h)"] w(2)
    by (simp add: same_mail_def)
  have tail: "op_bind (on_db (team_members (prj_team_id p))) (\<lambda>members. mail_all (\<lambda>a. Inr (mk a)) (recipients members)) h2 = (r, t)"
    using run True mail w(1) by (simp add: dispatch_def op_bind_def [of "op_try ?n"] op_bind_def [of ?w] op_try_def case_prod_beta)
  have "(case faults (hub_db h2) of Some e # _ \<Rightarrow> r = Inl (Db e) \<and> hub_mails t = hub_mails h | _ \<Rightarrow> r = Inr () \<and> ?sent t)"
  proof (cases "\<exists>e fs. faults (hub_db h2) = Some e # fs")
    case True
    then show ?thesis
      using tail mails2 by (auto simp: op_bind_def on_db_def team_members_def transaction_fault)
  next
    case False
    then have calm: "faults (hub_db h2) = [] \<or> hd (faults (hub_db h2)) = None"
      by (cases "faults (hub_db h2)"; cases "hd (faults (hub_db h2))") auto
    have "\<exists>members s'. team_members (prj_team_id p) (hub_db h2) = (Inr members, s')"
      unfolding team_members_def by (subst transaction_calm [OF calm]) simp
    then obtain members s' where m: "team_members (prj_team_id p) (hub_db h2) = (Inr members, s')" by blast
    let ?h3 = "h2\<lparr>hub_db := s'\<rparr>"
    obtain t' where t': "mail_all (\<lambda>a. Inr (mk a)) (recipients members) ?h3 = (Inr (), t')"
      "hub_mails t' = hub_mails ?h3 @ map mk (recipients members)" "hub_db t' = hub_db ?h3" using mail_all_sends by blast
    then have t: "r = Inr ()" "t = t'" "hub_db t = s'" using tail m by (auto simp: op_bind_def on_db_def)
    note rows = team_members_rows [OF m]
    have "distinct (map (\<lambda>x. usr_email (fst x)) members)"
      using ok t(3) by (intro rows(2)) (auto simp: world_ok_def users_ok_def members_ok_def)
    moreover have "recipients members = map (\<lambda>x. usr_email (fst x)) (filter (\<lambda>x. user_opted_in (fst x)) members)"
      by (simp add: recipients_def case_prod_unfold)
    ultimately have "distinct (recipients members)" by (simp only: distinct_map_filter)
    moreover have "set (recipients members) = usr_email ` {u. wants_mail s' (prj_team_id p) u}"
      unfolding recipients_def user_opted_in_def wants_mail_def using rows(1) by (auto simp: image_iff) blast
    ultimately have "?sent t" using t(3) t'(2) t(2) mails2 by auto
    then show ?thesis using t(1) False by (auto split: list.split option.split)
  qed
  moreover have "faults (hub_db h2) = []" if "faults (hub_db h) = []" "\<forall>k x. stays_calm x (ex_env ex k x)"
    using movesD [OF calm.moves_notify [OF that(2)], of cfg p i "trigger_as_str trigger" h "fst (?n h)" "snd (?n h)"] w(3) that(1)
    by (simp add: stays_calm_def)
  ultimately show ?thesis using live w(3) by auto
qed

section \<open>Alerts render\<close>

lemma complete_fold_pairs:
  "map_of (fold (\<lambda>(k, v). bm_insert k v) kvs m) x \<noteq> None \<longleftrightarrow> x \<in> fst ` set kvs \<or> map_of m x \<noteq> None"
  by (induction kvs arbitrary: m) (auto split: if_splits)

lemma variables_complete: "complete (variables cfg rfc3339 org p i trigger)"
  unfolding complete_def variables_def complete_fold_pairs by (simp add: VARIABLES_def)

lemma render_map_ok:
  "(\<And>k t. (k, t) \<in> set m \<Longrightarrow> \<exists>v. render_template t vars = Inr v) \<Longrightarrow> \<exists>m'. render_map m vars = Inr m'"
proof (induction m)
  case (Cons kt m)
  obtain k t where kt: "kt = (k, t)" by fastforce
  obtain v where "render_template t vars = Inr v" using Cons.prems [of k t] kt by auto
  moreover obtain m' where "render_map m vars = Inr m'" using Cons by auto
  ultimately show ?case by (simp add: kt)
qed simp

text \<open>A validated configuration renders an alert for every issue; the one thing that can go wrong is that the
  alert name comes out blank.\<close>

lemma alert_renders:
  assumes "validate_config url_parse c = Inr ()" "0 \<le> now" "now \<le> secs 253402300799"
  shows "(\<exists>a. render_alert c (variables cfg rfc3339 org p i trigger) now = Inr a) \<or>
    render_alert c (variables cfg rfc3339 org p i trigger) now = Inl (Validation ''rendered alertname must not be empty'')"
proof -
  let ?vars = "variables cfg rfc3339 org p i trigger"
  have each: "\<exists>v. render_template t ?vars = Inr v" if "(k, t) \<in> set (am_labels c) \<union> set (am_annotations c)" for k t
  proof -
    have "\<exists>r. render_template t sample_variables = Inr r"
      using that validate_config_ok(1,2) [OF assms(1)] validate_entries_mem(3) by blast
    then show ?thesis
      by (auto simp: render_template_pieces [OF complete_sample] render_template_pieces [OF variables_complete]
          split: if_splits sum.splits)
  qed
  obtain l where "render_map (am_labels c) ?vars = Inr l" using render_map_ok each by (metis UnI1)
  moreover obtain a where "render_map (am_annotations c) ?vars = Inr a" using render_map_ok each by (metis UnI2)
  moreover have "\<exists>v. required ?vars k = Inr v" if "k \<in> set VARIABLES" for k
    using variables_complete that by (auto simp: complete_def required_def split: option.split)
  then obtain x y z where "required ?vars ''issue_id'' = Inr x" "required ?vars ''project_id'' = Inr y"
    "required ?vars ''issue_url'' = Inr z"
    by (metis VARIABLES_def list.set_intros(1,2))
  moreover have "dt_add_seconds now ALERT_TTL = Inr (now + secs ALERT_TTL)"
    using assms(2,3) by (simp add: dt_add_seconds_ok ALERT_TTL_def)
  ultimately show ?thesis by (simp add: render_alert_def Let_def)
qed

section \<open>An instance with one tracked alert\<close>

definition example_alert :: active_alert where
  "example_alert = \<lparr>aa_last_sent_at = None, aa_issue_id = ''i'', aa_endpoint = ''e'', aa_trigger = ''new_issue'',
     aa_alert = \<lparr>al_labels = [], al_annotations = [], al_starts_at = 0, al_ends_at = 300, al_generator_url = []\<rparr>\<rparr>"

definition example_hub :: hub where
  "example_hub = \<lparr>hub_db = example_world, hub_settings = \<lparr>set_allow_signup = False, set_org_name = [], set_updated_at = 0\<rparr>,
     hub_names = default_names, hub_default_severity = [], hub_interval = 60, hub_severities = (\<lambda>_. []),
     hub_intervals = (\<lambda>_. 0), hub_config = small_config, hub_alerts = [example_alert], hub_project_labels = (\<lambda>_. None),
     hub_clock = int, hub_tick = 0, hub_answers = [],
     hub_sent = [\<lparr>sent_endpoint = ''e'', sent_alert = aa_alert example_alert, sent_ok = False\<rparr>],
     hub_webhooks = [], hub_mail_answers = [], hub_mails = []\<rparr>"

definition example_externals :: externals where
  "example_externals = \<lparr>ex_url_parse = (\<lambda>_. None), ex_rfc3339 = int_to_dec, ex_env = (\<lambda>_ h. h)\<rparr>"

definition mail_only :: alert_config where
  "mail_only = \<lparr>cfg_alertmanager_enabled = False, cfg_alertmanager_url = None, cfg_service_from_env = False,
     cfg_env_names = default_names, cfg_base_url = [], cfg_webhooks_enabled = False, cfg_mail_enabled = True\<rparr>"

lemma example_accounted: "accounted example_hub"
  by (auto simp: accounted_def example_hub_def example_alert_def identity_def mono_def)

lemma example_env: "\<forall>k x. quiet x (ex_env example_externals k x)" "\<forall>k x. same_mail x (ex_env example_externals k x)"
  by (simp_all add: example_externals_def quiet.refl mailbox.refl)

theorem alerts_accounted_witness:
  "\<exists>a \<in> set (hub_alerts (example_hub\<lparr>hub_tick := 9\<rparr>)). aa_endpoint a = ''e''"
proof -
  let ?e = "\<lparr>sent_endpoint = ''e'', sent_alert = aa_alert example_alert, sent_ok = False\<rparr>"
  have "alert_step\<^sup>*\<^sup>* example_hub (example_hub\<lparr>hub_tick := 9\<rparr>)"
    by (intro r_into_rtranclp alert_step.other) (simp add: quiet_def example_hub_def)
  moreover have "hub_sent (example_hub\<lparr>hub_tick := 9\<rparr>) = [] @ ?e # []" by (simp add: example_hub_def)
  ultimately show ?thesis using alerts_accounted [OF _ example_accounted, of _ "[]" ?e "[]"] by auto
qed

theorem refresh_returns_witness:
  "fst (refresh (mail_only\<lparr>cfg_alertmanager_enabled := True\<rparr>) example_externals 2 example_hub) \<noteq> Inr None"
  by (rule refresh_returns [OF example_env(1) example_accounted]) (simp add: example_hub_def)

theorem dispatch_mails_witness:
  "\<exists>t tos. dispatch mail_only example_externals (\<lambda>_ _ _ a. Inr \<lparr>em_to = a, em_subject = [], em_body = []\<rparr>)
       (example_project\<lparr>prj_team_id := ''t'', prj_muted := False\<rparr>) (example_issue\<lparr>iss_status := Unresolved\<rparr>) NewIssueTrigger
       example_hub = (Inr (), t) \<and>
     hub_mails t = map (\<lambda>a. \<lparr>em_to = a, em_subject = [], em_body = []\<rparr>) tos \<and> set tos = {''a@b''}"
proof -
  let ?mk = "\<lambda>a. \<lparr>em_to = a, em_subject = [], em_body = []\<rparr> :: email"
  let ?p = "example_project\<lparr>prj_team_id := ''t'', prj_muted := False\<rparr>" and ?i = "example_issue\<lparr>iss_status := Unresolved\<rparr>"
  obtain r t where run: "dispatch mail_only example_externals (\<lambda>_ _ _ a. Inr (?mk a)) ?p ?i NewIssueTrigger example_hub = (r, t)"
    by fastforce
  have calm: "faults example_world = []" by (simp add: example_world_def example_db_def)
  have "is_suppressed ?p ?i = NotSuppressed" by (simp add: is_suppressed_def)
  then have tail: "op_bind (on_db (team_members ''t'')) (\<lambda>members. mail_all (\<lambda>a. Inr (?mk a)) (recipients members)) example_hub = (r, t)"
    using run by (simp add: dispatch_def mail_only_def notify_alertmanager_def op_bind_def op_try_def split: option.splits)
  have "\<exists>ms. team_members ''t'' example_world = (Inr ms, example_world)"
    unfolding team_members_def by (rule exI, rule transaction_no_fault [OF calm]) simp
  then obtain ms where ms: "team_members ''t'' example_world = (Inr ms, example_world)" by blast
  have "mail_all (\<lambda>a. Inr (?mk a)) (recipients ms) example_hub = (r, t)"
    using tail ms by (simp add: op_bind_def on_db_def example_hub_def)
  then have rt: "r = Inr ()" "hub_db t = example_world"
    using mail_all_sends [of ?mk "recipients ms" example_hub] by (auto simp: example_hub_def)
  have user: "usr_notifications_enabled example_user" "usr_id example_user = ''u''" "usr_email example_user = ''a@b''"
    by (simp_all add: example_user_def user_row_def)
  have rows: "db_users example_world = [example_user]" "db_members example_world =
      [\<lparr>mb_team_id = ''t'', mb_user_id = ''u'', mb_role = TeamAdmin, mb_created_at = 0\<rparr>]"
    by (simp_all add: example_world_def)
  have "wants_mail example_world ''t'' u \<longleftrightarrow> u = example_user" for u
    unfolding wants_mail_def rows using user by auto
  then have "usr_email ` {u. wants_mail example_world ''t'' u} = {''a@b''}" using user(3) by simp
  moreover have "notify_alertmanager mail_only example_externals ?p ?i (trigger_as_str NewIssueTrigger) example_hub = (Inr (), example_hub)"
    by (simp add: notify_alertmanager_def mail_only_def)
  moreover have "hub_mails example_hub = []" "hub_db example_hub = example_world" by (simp_all add: example_hub_def)
  moreover have "cfg_mail_enabled mail_only" "\<not> prj_muted ?p" "iss_status ?i \<noteq> Muted" "prj_team_id ?p = ''t''"
    by (simp_all add: mail_only_def)
  ultimately have "r = Inr () \<and> (\<exists>tos. hub_mails t = [] @ map ?mk tos \<and> distinct tos \<and> set tos = {''a@b''})"
    using dispatch_mails [OF run example_env(2)] rt(2) example_world_ok(1) calm by (simp split: if_splits)
  then show ?thesis using run by auto
qed

end
