(* ===== verification/Ingest.thy ===== *)
theory Ingest
  imports Pipeline Envelope Tags RateLimit Enrich ProjectStore Ops
begin

text \<open>
  The ingestion endpoints (\<open>src/ingest/handlers.rs\<close>): authentication by DSN key, the rate limit,
  decoding of the body, the envelope and the legacy store endpoint, the pipeline of one event and the
  decision to notify.

  \<open>serde_json::from_slice\<close>, the text of a float and the gzip and zlib decoders are arguments. A decoder
  gives the bytes it produces and whether it then ends or fails. Delivery runs in a spawned task: the model
  records what was spawned. A panic ends the request without an answer.
\<close>

section \<open>Requests and answers\<close>

record wire =
  wi_from_slice :: "string \<Rightarrow> val option"
  wi_float_str :: "int \<Rightarrow> int \<Rightarrow> string"
  wi_gzip :: "string \<Rightarrow> string \<times> bool"
  wi_zlib :: "string \<Rightarrow> string \<times> bool"

record ingest_env =
  ie_wire :: wire
  ie_repo :: repo
  ie_wall :: timestamp
  ie_now :: timestamp
  ie_instant :: int
  ie_busy_retry_after :: duration

record gate =
  ga_db :: db
  ga_limiter :: rate_limiter
  ga_spawned :: "(project \<times> issue \<times> notify_kind) list"

record response =
  rs_status :: nat
  rs_retry_after :: "int option"
  rs_body :: "string \<times> string"

definition answer :: "nat \<Rightarrow> string \<Rightarrow> string \<Rightarrow> response" where
  "answer status key text = \<lparr>rs_status = status, rs_retry_after = None, rs_body = (key, text)\<rparr>"

definition unauthorized :: "string \<Rightarrow> response" where "unauthorized msg = answer 401 ''detail'' msg"
definition bad_request :: "string \<Rightarrow> response" where "bad_request msg = answer 400 ''detail'' msg"
definition payload_too_large :: "string \<Rightarrow> response" where "payload_too_large msg = answer 413 ''detail'' msg"
definition internal_error :: response where "internal_error = answer 500 ''detail'' ''internal error''"
definition read_only :: response where "read_only = answer 403 ''error'' ''project is read-only''"
definition accepted :: "string \<Rightarrow> response" where "accepted event_id = answer 200 ''id'' event_id"

definition rate_limited :: "int \<Rightarrow> response" where
  "rate_limited retry_after_secs = (answer 429 ''detail'' ''rate limited'')\<lparr>rs_retry_after := Some retry_after_secs\<rparr>"

definition busy :: "int \<Rightarrow> response" where
  "busy retry_after_secs = (answer 429 ''detail'' ''database busy'')\<lparr>rs_retry_after := Some retry_after_secs\<rparr>"

definition failed_response :: "ingest_env \<Rightarrow> error \<Rightarrow> response" where
  "failed_response env err =
     (if is_busy err then busy (max (int (ie_busy_retry_after env div 1000000000)) 1) else internal_error)"

section \<open>Authentication\<close>

definition is_auth_separator :: "char \<Rightarrow> bool" where
  "is_auth_separator c \<longleftrightarrow> c = CHR '','' \<or> c = CHR '' '' \<or> byte c = 9"

definition parse_sentry_auth_key :: "string \<Rightarrow> string option" where
  "parse_sentry_auth_key value =
     (case List.find (\<lambda>(k, _). eq_ignore_ascii_case (trim k) ''sentry_key'')
             (List.map_filter (\<lambda>part. split_once (CHR ''='') (trim part)) (split_on is_auth_separator value)) of
        None \<Rightarrow> None
      | Some (_, v) \<Rightarrow>
          (let key = trim_matches_char (CHR 0x22) (trim v) in if key = [] then None else Some key))"

definition sentry_key_from_query :: "string \<Rightarrow> string option" where
  "sentry_key_from_query query =
     (case List.find (\<lambda>(k, _). k = ''sentry_key'')
             (List.map_filter (\<lambda>pair. split_once (CHR ''='') pair) (split_on (\<lambda>c. c = CHR ''&'') query)) of
        None \<Rightarrow> None
      | Some (_, v) \<Rightarrow> (let key = trim v in if key = [] then None else Some key))"

definition extract_dsn_key :: "headers \<Rightarrow> string option \<Rightarrow> string option" where
  "extract_dsn_key hs query =
     (case Option.bind (header_get hs ''x-sentry-auth'') parse_sentry_auth_key of
        Some value \<Rightarrow> Some value
      | None \<Rightarrow>
          (case Option.bind query sentry_key_from_query of
             Some value \<Rightarrow> Some value
           | None \<Rightarrow> header_get hs ''x-sentry-key''))"

section \<open>Decoding\<close>

datatype decode_error = Corrupt | TooLarge

definition MAX_DECOMPRESSED_BODY :: nat where "MAX_DECOMPRESSED_BODY = 20 * 1024 * 1024"

definition read_capped :: "string \<times> bool \<Rightarrow> decode_error + string" where
  "read_capped decoder =
     (let out = take (MAX_DECOMPRESSED_BODY + 1) (fst decoder);
          reached = MAX_DECOMPRESSED_BODY + 1 \<le> length (fst decoder)
      in if \<not> reached \<and> \<not> snd decoder then Inl Corrupt
         else if MAX_DECOMPRESSED_BODY < length out then Inl TooLarge else Inr out)"

definition gunzip :: "wire \<Rightarrow> string \<Rightarrow> decode_error + string" where
  "gunzip w body = read_capped (wi_gzip w body)"

definition inflate_zlib :: "wire \<Rightarrow> string \<Rightarrow> decode_error + string" where
  "inflate_zlib w body = read_capped (wi_zlib w body)"

definition decode_sniffed :: "wire \<Rightarrow> string \<Rightarrow> decode_error + string" where
  "decode_sniffed w body =
     (if 2 \<le> length body \<and> byte (body ! 0) = 31 \<and> byte (body ! 1) = 139 then gunzip w body
      else if 2 \<le> length body \<and> byte (body ! 0) = 120 \<and> byte (body ! 1) \<in> {1, 156, 218, 94} then inflate_zlib w body
      else Inr body)"

definition decode_body :: "wire \<Rightarrow> headers \<Rightarrow> string \<Rightarrow> decode_error + string" where
  "decode_body w hs body =
     (case map_option to_ascii_lowercase (header_get hs ''content-encoding'') of
        None \<Rightarrow> decode_sniffed w body
      | Some encoding \<Rightarrow>
          (if encoding \<in> {''gzip'', ''x-gzip''} then gunzip w body
           else if encoding \<in> {''deflate'', ''zlib''} then inflate_zlib w body
           else decode_sniffed w body))"

section \<open>Event ids\<close>

definition normalize_event_id :: "string \<Rightarrow> string" where
  "normalize_event_id raw = to_ascii_lowercase (filter (\<lambda>c. c \<noteq> CHR ''-'') (trim raw))"

definition event_id_from_payload :: "val \<Rightarrow> string option" where
  "event_id_from_payload payload =
     (case map_option normalize_event_id (Option.bind (val_get payload ''event_id'') as_str) of
        None \<Rightarrow> None
      | Some s \<Rightarrow> (if s = [] then None else Some s))"

definition new_event_id :: "(gate, string) op" where
  "new_event_id g =
     (let d = ga_db g in
      (Inr (filter (\<lambda>c. c \<noteq> CHR ''-'') (rng_uuid d (rng_pos d))), g\<lparr>ga_db := d\<lparr>rng_pos := Suc (rng_pos d)\<rparr>\<rparr>))"

section \<open>One event\<close>

definition at_db :: "(db, 'a) op \<Rightarrow> (gate, 'a) op" where
  "at_db m g = (case m (ga_db g) of (r, d) \<Rightarrow> (r, g\<lparr>ga_db := d\<rparr>))"

definition tag_muted :: "uuid \<Rightarrow> string bmap \<Rightarrow> (gate, bool) op" where
  "tag_muted pid tags =
     (if tags = [] then op_ok False
      else op_bind (op_try (at_db (list_rules_for_project pid))) (\<lambda>found.
        op_ok (case found of Inr rules \<Rightarrow> list_ex (\<lambda>r. rule_matches r tags) rules | Inl _ \<Rightarrow> False)))"

definition spawn_notification :: "project \<Rightarrow> issue \<Rightarrow> notify_kind \<Rightarrow> (gate, unit) op" where
  "spawn_notification p i kind g = (Inr (), g\<lparr>ga_spawned := ga_spawned g @ [(p, i, kind)]\<rparr>)"

definition input_of :: "project \<Rightarrow> string \<Rightarrow> val \<Rightarrow> ingest_input" where
  "input_of p event_id payload =
     \<lparr>ii_project_id = prj_id p, ii_event_id = event_id, ii_normalized = normalized_from_value payload, ii_payload = payload\<rparr>"

definition process_event :: "ingest_env \<Rightarrow> project \<Rightarrow> val \<Rightarrow> request_meta \<Rightarrow> (gate, string) op" where
  "process_event env p payload meta =
     (let payload = enrich meta payload in
      op_bind (case event_id_from_payload payload of Some i \<Rightarrow> op_ok i | None \<Rightarrow> new_event_id) (\<lambda>event_id.
      op_bind (at_db (ingest_normalized (sqlite_issues (ie_repo env) (ie_wall env)) (sqlite_events (ie_repo env))
                 (input_of p event_id payload) (ie_now env))) (\<lambda>outcome.
      if io_notify outcome = NotifyNone \<or> prj_muted p then op_ok event_id
      else
        op_bind (tag_muted (prj_id p) (event_tags (wi_float_str (ie_wire env)) (ev_payload (io_event outcome)))) (\<lambda>muted.
        if muted then op_ok event_id
        else op_bind (spawn_notification p (io_issue outcome) (io_notify outcome)) (\<lambda>_. op_ok event_id)))))"

section \<open>The endpoints\<close>

text \<open>The outcome of a step that may answer early: \<open>Err(response)\<close> or a value.\<close>

definition rate_check :: "ingest_env \<Rightarrow> string \<Rightarrow> (gate, decision) op" where
  "rate_check env key g =
     (case check_at (ga_limiter g) key (ie_instant env) of (d, l) \<Rightarrow> (Inr d, g\<lparr>ga_limiter := l\<rparr>))"

definition authorize_and_decode ::
  "ingest_env \<Rightarrow> string option \<Rightarrow> headers \<Rightarrow> string \<Rightarrow> (gate, response + (project \<times> string)) op" where
  "authorize_and_decode env query hs body =
     (case extract_dsn_key hs query of
        None \<Rightarrow> op_ok (Inl (unauthorized ''missing sentry key''))
      | Some key \<Rightarrow>
          op_bind (op_try (at_db (find_project_by_dsn key))) (\<lambda>found.
          case found of
            Inl e \<Rightarrow> op_ok (Inl internal_error)
          | Inr None \<Rightarrow> op_ok (Inl (unauthorized ''unknown sentry key''))
          | Inr (Some p) \<Rightarrow>
              op_bind (rate_check env (prj_id p)) (\<lambda>d.
              if prj_orphaned_at p \<noteq> None then op_ok (Inl read_only)
              else
                (case d of
                   Limited retry_after_secs \<Rightarrow> op_ok (Inl (rate_limited retry_after_secs))
                 | Allow \<Rightarrow>
                     op_ok (case decode_body (ie_wire env) hs body of
                              Inr decoded \<Rightarrow> Inr (p, decoded)
                            | Inl TooLarge \<Rightarrow> Inl (payload_too_large ''decompressed body too large'')
                            | Inl Corrupt \<Rightarrow> Inl (bad_request ''could not decode body''))))))"

text \<open>The match on the result of \<open>process_event\<close>; a panic is not an error value.\<close>

definition processed :: "ingest_env \<Rightarrow> project \<Rightarrow> val \<Rightarrow> request_meta \<Rightarrow> (gate, response + string) op" where
  "processed env p payload meta g =
     (case process_event env p payload meta g of
        (Inr event_id, t) \<Rightarrow> (Inr (Inr event_id), t)
      | (Inl (Panic m), t) \<Rightarrow> (Inl (Panic m), t)
      | (Inl e, t) \<Rightarrow> (Inr (Inl (failed_response env e)), t))"

definition is_ingestible_event :: "envelope_item \<Rightarrow> bool" where
  "is_ingestible_event item \<longleftrightarrow> item_type item = Some ''event''"

fun process_items ::
  "ingest_env \<Rightarrow> project \<Rightarrow> request_meta \<Rightarrow> envelope_item list \<Rightarrow> string option \<Rightarrow> (gate, response + string option) op" where
  "process_items env p meta [] accepted_id = op_ok (Inr accepted_id)"
| "process_items env p meta (item # items) accepted_id =
     (if \<not> is_ingestible_event item then process_items env p meta items accepted_id
      else
        (case payload_json (wi_from_slice (ie_wire env)) item of
           Inl _ \<Rightarrow> process_items env p meta items accepted_id
         | Inr payload \<Rightarrow>
             op_bind (processed env p payload meta) (\<lambda>r.
             case r of
               Inl resp \<Rightarrow> op_ok (Inl resp)
             | Inr event_id \<Rightarrow>
                 process_items env p meta items (case accepted_id of None \<Rightarrow> Some event_id | Some i \<Rightarrow> Some i))))"

definition envelope_endpoint ::
  "ingest_env \<Rightarrow> string option \<Rightarrow> string option \<Rightarrow> headers \<Rightarrow> string \<Rightarrow> (gate, response) op" where
  "envelope_endpoint env query peer hs body =
     op_bind (authorize_and_decode env query hs body) (\<lambda>r.
     case r of
       Inl resp \<Rightarrow> op_ok resp
     | Inr (p, decoded) \<Rightarrow>
         (case parse_envelope (wi_from_slice (ie_wire env)) decoded of
            Inl _ \<Rightarrow> op_ok (bad_request ''malformed envelope'')
          | Inr parsed \<Rightarrow>
              op_bind (process_items env p (from_request hs peer) (env_items parsed) None) (\<lambda>r.
              case r of
                Inl resp \<Rightarrow> op_ok resp
              | Inr accepted_id \<Rightarrow>
                  op_bind (case (accepted_id, header_event_id parsed) of
                             (Some i, _) \<Rightarrow> op_ok i | (None, Some i) \<Rightarrow> op_ok i | (None, None) \<Rightarrow> new_event_id)
                    (\<lambda>event_id. op_ok (accepted event_id)))))"

definition store_endpoint ::
  "ingest_env \<Rightarrow> string option \<Rightarrow> string option \<Rightarrow> headers \<Rightarrow> string \<Rightarrow> (gate, response) op" where
  "store_endpoint env query peer hs body =
     op_bind (authorize_and_decode env query hs body) (\<lambda>r.
     case r of
       Inl resp \<Rightarrow> op_ok resp
     | Inr (p, decoded) \<Rightarrow>
         (case wi_from_slice (ie_wire env) decoded of
            None \<Rightarrow> op_ok (bad_request ''malformed event payload'')
          | Some payload \<Rightarrow>
              op_bind (processed env p payload (from_request hs peer)) (\<lambda>r.
                op_ok (case r of Inl resp \<Rightarrow> resp | Inr event_id \<Rightarrow> accepted event_id))))"

section \<open>What the pipeline leaves behind\<close>

context ingest_ports
begin

lemma resurface_any:
  assumes "inv s" "imap s (issue_key i) = Some i" "resurface_if_rate_exceeded issues events i now s = (r, t)"
  shows "inv t \<and> evs t = evs s"
proof (cases r)
  case (Inr v)
  then show ?thesis using resurface_Ok [OF assms(1,2)] assms(3) by simp
next
  case (Inl e)
  then obtain n w where nw: "iss_status i = Muted" "iss_mute_threshold i = Some n" "iss_mute_window_seconds i = Some w"
    using assms(3) by (auto simp: resurface_if_rate_exceeded_def split: option.splits if_splits)
  show ?thesis
  proof (cases "dt_sub_seconds now (max w 0)")
    case (Inl f)
    then show ?thesis using assms nw by (auto simp: resurface_if_rate_exceeded_def)
  next
    case (Inr ws)
    obtain q u where q: "ep_count_in_window events (iss_id i) (window_since i ws) s = (q, u)" by fastforce
    show ?thesis
    proof (cases q)
      case (Inl f)
      then show ?thesis using assms nw \<open>dt_sub_seconds now (max w 0) = Inr ws\<close> q count_Err [OF assms(1)]
        by (auto simp: resurface_if_rate_exceeded_def)
    next
      case (Inr c)
      note cnt = count_Ok [OF assms(1) q [unfolded Inr]]
      have "ip_set_status issues (iss_id i) Unresolved u = (Inl e, t)"
        using assms(3) nw \<open>dt_sub_seconds now (max w 0) = Inr ws\<close> q Inr \<open>r = Inl e\<close>
        by (auto simp: resurface_if_rate_exceeded_def split: if_splits sum.splits prod.splits)
      then show ?thesis using set_status_Err [of u] cnt by auto
    qed
  qed
qed

text \<open>Whatever an ingestion answers, it appended at most one event.\<close>

lemma ingest_any:
  assumes "inv s" "ingest_normalized issues events input now s = (r, t)"
  shows "inv t \<and> (\<exists>es. evs t = evs s @ es \<and> length es \<le> 1)"
proof -
  obtain q s1 where q: "ip_upsert issues (upsert_of input now) s = (q, s1)" by fastforce
  show ?thesis
  proof (cases q)
    case (Inl e)
    then show ?thesis using assms q upsert_Err [OF assms(1)] by (auto simp: ingest_normalized_def)
  next
    case (Inr up)
    note U = upsert_Ok [OF assms(1) q [unfolded Inr], unfolded restamped]
    obtain p s2 where p: "ep_insert events (new_event_of input (iss_id (uo_issue up)) now) s1 = (p, s2)" by fastforce
    show ?thesis
    proof (cases p)
      case (Inl e)
      then show ?thesis using assms(2) q Inr p U insert_Err [OF conjunct1 [OF U]] by (auto simp: ingest_normalized_def)
    next
      case (Inr ev)
      note E = insert_Ok [OF conjunct1 [OF U] p [unfolded Inr]]
      let ?k = "(up_project_id (upsert_of input now), up_fingerprint (upsert_of input now))"
      obtain w where w: "resurface_if_rate_exceeded issues events (uo_issue up) now s2 = (w, t)"
        using assms(2) q \<open>q = Inr up\<close> p Inr by (auto simp: ingest_normalized_def split: prod.splits sum.splits)
      have "issue_key (uo_issue up) = ?k"
        using upsert_spec_key [of "upsert_of input (stamp now)" "imap s ?k" up] U imap_key [OF assms(1)]
        by (simp add: upsert_of_def)
      then have "imap s2 (issue_key (uo_issue up)) = Some (uo_issue up)" using U E by simp
      from resurface_any [OF conjunct1 [OF E] this w] show ?thesis using U E by simp
    qed
  qed
qed

end

section \<open>Steps that leave the tables alone\<close>

definition still :: "gate \<Rightarrow> gate \<Rightarrow> bool" where
  "still g t \<longleftrightarrow> tables (ga_db t) = tables (ga_db g) \<and> ga_spawned t = ga_spawned g"

interpretation still: step_relation still
  by unfold_locales (auto simp: still_def)

lemma still_at_db:
  assumes "\<And>d r e. m d = (r, e) \<Longrightarrow> tables e = tables d"
  shows "moves still (at_db m)"
  using assms by (auto simp: moves_def at_db_def still_def split: prod.splits)

lemma transaction_select: "transaction (\<lambda>s. (Inr (f s), s)) d = (r, e) \<Longrightarrow> tables e = tables d"
  by (erule transaction_cases) auto

lemma still_new_event_id: "moves still new_event_id"
  by (auto simp: moves_def new_event_id_def still_def Let_def)

lemma still_rate_check: "moves still (rate_check env key)"
  by (auto simp: moves_def rate_check_def still_def split: prod.splits)

lemma load_tags_tables: "load_tags rows d = (r, e) \<Longrightarrow> tables e = tables d"
proof (induction rows arbitrary: d r e)
  case (Cons x rows)
  obtain q d1 where q: "tags_for (rule_id x) d = (q, d1)" by fastforce
  then have d1: "tables d1 = tables d" unfolding tags_for_def by (rule transaction_select)
  show ?case
  proof (cases q)
    case (Inl err)
    then show ?thesis using Cons.prems q d1 by simp
  next
    case (Inr tags)
    obtain q2 d2 where q2: "load_tags rows d1 = (q2, d2)" by fastforce
    then have "tables d2 = tables d" using Cons.IH d1 by metis
    then show ?thesis using Cons.prems q Inr q2 by (cases q2) auto
  qed
qed simp

lemma still_tag_muted: "moves still (tag_muted pid tags)"
proof -
  have "tables e = tables d" if "list_rules_for_project pid d = (r, e)" for d r e
    using that unfolding list_rules_for_project_def
    by (auto dest!: transaction_select load_tags_tables split: prod.splits sum.splits)
  then show ?thesis
    unfolding tag_muted_def by (intro still.moves_if still.moves_ok still.moves_bind still.moves_try still_at_db)
qed

lemma still_authorize: "moves still (authorize_and_decode env query hs body)"
proof -
  have find: "moves still (at_db (find_project_by_dsn key))" for key
    unfolding find_project_by_dsn_def select_project_def by (intro still_at_db) (rule transaction_select)
  have limit: "moves still (if b then op_ok x else (case d of Limited n \<Rightarrow> op_ok (y n) | Allow \<Rightarrow> op_ok z))" for b x d y z
    by (cases d) (auto intro: still.moves_ok)
  have step: "moves still (case found of Inl e \<Rightarrow> op_ok (Inl internal_error) | Inr None \<Rightarrow> op_ok (Inl (unauthorized ''unknown sentry key''))
      | Inr (Some p) \<Rightarrow> op_bind (rate_check env (prj_id p)) (\<lambda>d. if prj_orphaned_at p \<noteq> None then op_ok (x p)
           else (case d of Limited n \<Rightarrow> op_ok (y n) | Allow \<Rightarrow> op_ok (z p))))"
    for found :: "project option res" and x z and y :: "int \<Rightarrow> response + (project \<times> string)"
    by (auto split: sum.split option.split intro!: still.moves_ok still.moves_bind still_rate_check limit)
  show ?thesis
  proof (cases "extract_dsn_key hs query")
    case (Some key)
    show ?thesis
      unfolding authorize_and_decode_def Some option.case
      by (intro still.moves_bind still.moves_try find) (rule step)
  qed (simp add: authorize_and_decode_def still.moves_ok)
qed

lemma db_ok_still: "still g t \<Longrightarrow> db_ok (ga_db g) \<Longrightarrow> db_ok (ga_db t)"
  unfolding still_def using db_ok_tables by metis

lemma events_still: "still g t \<Longrightarrow> db_events (ga_db t) = db_events (ga_db g)"
  by (auto simp: still_def tables_def)

section \<open>One event\<close>

abbreviation event_id_step :: "val \<Rightarrow> (gate, string) op" where
  "event_id_step payload \<equiv> (case event_id_from_payload payload of Some i \<Rightarrow> op_ok i | None \<Rightarrow> new_event_id)"

lemma still_event_id: "moves still (event_id_step payload)"
  by (auto split: option.split intro!: still.moves_ok still_new_event_id)

lemma process_event_Ok:
  assumes ok: "db_ok (ga_db g)" and repo: "ie_repo env = quiet_of w"
    and run: "process_event env p payload meta g = (Inr i, t)"
  shows "db_ok (ga_db t) \<and> (\<exists>e. db_events (ga_db t) = db_events (ga_db g) @ [e] \<and> ev_event_id e = i \<and>
    ev_project_id e = prj_id p \<and> ev_payload e = enrich meta payload \<and> ev_received_at e = ie_now env)"
proof -
  let ?v = "enrich meta payload"
  obtain j g1 out g2 where id: "event_id_step ?v g = (Inr j, g1)" and
    ing: "at_db (ingest_normalized (sqlite_issues (ie_repo env) (ie_wall env)) (sqlite_events (ie_repo env))
                 (input_of p j ?v) (ie_now env)) g1 = (Inr out, g2)" and
    rest: "(if io_notify out = NotifyNone \<or> prj_muted p then op_ok j
      else op_bind (tag_muted (prj_id p) (event_tags (wi_float_str (ie_wire env)) (ev_payload (io_event out)))) (\<lambda>muted.
        if muted then op_ok j
        else op_bind (spawn_notification p (io_issue out) (io_notify out)) (\<lambda>_. op_ok j))) g2 = (Inr i, t)"
    using run unfolding process_event_def Let_def op_bind_Inr by blast
  have g1: "db_ok (ga_db g1)" "db_events (ga_db g1) = db_events (ga_db g)"
    using movesD [OF still_event_id id] ok db_ok_still events_still by auto
  obtain d where d: "sqlite_ingest w (ie_wall env) (input_of p j ?v) (ie_now env) (ga_db g1) = (Inr out, d)" "g2 = g1\<lparr>ga_db := d\<rparr>"
    using ing repo by (auto simp: at_db_def split: prod.splits)
  obtain up :: upsert_outcome where s: "db_ok d" "db_events d = db_events (ga_db g1) @ [io_event out]"
    "io_event out = event_row (ev_id (io_event out)) (new_event_of (input_of p j ?v) (iss_id (uo_issue up)) (ie_now env))"
    using sqlite.ingest_Ok [OF g1(1) d(1)] by (elim exE conjE) (rule that)
  have e: "ev_event_id (io_event out) = j" "ev_project_id (io_event out) = prj_id p" "ev_payload (io_event out) = ?v"
    "ev_received_at (io_event out) = ie_now env"
    by (subst s(3), simp add: event_row_def new_event_of_def input_of_def)+
  have "i = j" "tables (ga_db t) = tables (ga_db g2)"
    using rest movesD [OF still_tag_muted]
    by (auto simp: op_bind_Inr spawn_notification_def still_def split: if_splits)
  then have "db_ok (ga_db t)" "db_events (ga_db t) = db_events (ga_db g2)"
    using s(1) d(2) db_ok_tables [of "ga_db t"] by (auto simp: tables_def)
  then show ?thesis using s(2) d(2) e g1(2) \<open>i = j\<close> by auto
qed

lemma process_event_any:
  assumes ok: "db_ok (ga_db g)" and repo: "ie_repo env = quiet_of w"
    and run: "process_event env p payload meta g = (r, t)"
  shows "db_ok (ga_db t) \<and> (\<exists>es. db_events (ga_db t) = db_events (ga_db g) @ es \<and> length es \<le> 1)"
proof (cases r)
  case (Inr i)
  obtain e where "db_ok (ga_db t)" "db_events (ga_db t) = db_events (ga_db g) @ [e]"
    using process_event_Ok [OF ok repo] run Inr by blast
  then show ?thesis by auto
next
  case (Inl err)
  let ?v = "enrich meta payload"
  from run show ?thesis
    unfolding process_event_def Let_def
  proof (cases rule: op_bind_cases)
    case (1 e)
    then have "still g t" using movesD [OF still_event_id] by blast
    then show ?thesis using ok db_ok_still events_still by auto
  next
    case (2 j g1)
    have g1: "db_ok (ga_db g1)" "db_events (ga_db g1) = db_events (ga_db g)"
      using movesD [OF still_event_id 2(1)] ok db_ok_still events_still by auto
    from 2(2) show ?thesis
    proof (cases rule: op_bind_cases)
      case (1 e)
      then obtain d where d: "sqlite_ingest w (ie_wall env) (input_of p j ?v) (ie_now env) (ga_db g1) = (Inl e, d)" "t = g1\<lparr>ga_db := d\<rparr>"
        using repo by (auto simp: at_db_def split: prod.splits)
      show ?thesis using sqlite.ingest_any [OF g1(1) d(1)] d(2) g1(2) by simp
    next
      case (2 out g2)
      then obtain d where d: "sqlite_ingest w (ie_wall env) (input_of p j ?v) (ie_now env) (ga_db g1) = (Inr out, d)" "g2 = g1\<lparr>ga_db := d\<rparr>"
        using repo by (auto simp: at_db_def split: prod.splits)
      have "tables (ga_db t) = tables (ga_db g2)"
        using 2(2) movesD [OF still_tag_muted]
        by (auto simp: spawn_notification_def still_def split: if_splits elim!: op_bind_cases)
      then have "db_ok (ga_db t) = db_ok d" "db_events (ga_db t) = db_events d"
        using d(2) db_ok_tables [of "ga_db t" d] by (auto simp: tables_def)
      then show ?thesis using sqlite.ingest_any [OF g1(1) d(1)] g1(2) by simp
    qed
  qed
qed

section \<open>Answers\<close>

lemma authorize_project:
  assumes "authorize_and_decode env query hs body g = (Inr (Inr (p, decoded)), t)"
  shows "\<exists>key. extract_dsn_key hs query = Some key \<and> p \<in> set (db_projects (ga_db g)) \<and> prj_dsn_public_key p = key \<and>
    prj_orphaned_at p = None \<and> decode_body (ie_wire env) hs body = Inr decoded"
proof -
  obtain key where key: "extract_dsn_key hs query = Some key"
    and find: "fst (at_db (find_project_by_dsn key) g) = Inr (Some p)"
    and rest: "prj_orphaned_at p = None" "decode_body (ie_wire env) hs body = Inr decoded"
    using assms unfolding authorize_and_decode_def
    by (auto simp: op_bind_Inr op_try_def rate_check_def case_prod_beta split: option.splits sum.splits if_splits decision.splits
        decode_error.splits prod.splits)
  obtain d where "find_project_by_dsn key (ga_db g) = (Inr (Some p), d)"
    using find by (auto simp: at_db_def split: prod.splits)
  then have "p \<in> set (db_projects (ga_db g))" "prj_dsn_public_key p = key"
    unfolding find_project_by_dsn_def select_project_def
    by (auto elim!: transaction_cases simp: find_Some_iff)
  then show ?thesis using key rest by blast
qed

definition refused :: "response \<Rightarrow> bool" where
  "refused resp \<longleftrightarrow> rs_status resp \<in> {400, 401, 403, 413} \<or> rs_body resp = (''detail'', ''rate limited'')"

lemma failed_not_refused: "\<not> refused (failed_response env e)" "rs_status (failed_response env e) \<noteq> 200"
  by (auto simp: refused_def failed_response_def busy_def internal_error_def answer_def)

lemma authorize_answers:
  assumes "authorize_and_decode env query hs body g = (Inr (Inl resp), t)"
  shows "rs_status resp \<noteq> 200"
  using assms unfolding authorize_and_decode_def
  by (auto simp: op_bind_Inr op_try_def rate_check_def case_prod_beta unauthorized_def internal_error_def read_only_def
      rate_limited_def payload_too_large_def bad_request_def answer_def
      split: option.splits sum.splits if_splits decision.splits decode_error.splits prod.splits)

text \<open>The payloads of an envelope that are ingested.\<close>

definition event_payloads :: "(string \<Rightarrow> val option) \<Rightarrow> envelope_item list \<Rightarrow> val list" where
  "event_payloads from_slice items =
     List.map_filter (\<lambda>i. if is_ingestible_event i then from_slice (eit_payload i) else None) items"

lemma event_payloads_Cons:
  "event_payloads f (i # is) =
     (if is_ingestible_event i then (case f (eit_payload i) of Some v \<Rightarrow> v # event_payloads f is | None \<Rightarrow> event_payloads f is)
      else event_payloads f is)"
  by (simp add: event_payloads_def List.map_filter_simps split: option.split)

text \<open>The events of an envelope, one row per payload, in order.\<close>

definition rows_of :: "ingest_env \<Rightarrow> project \<Rightarrow> request_meta \<Rightarrow> val list \<Rightarrow> event list \<Rightarrow> bool" where
  "rows_of env p meta payloads es \<longleftrightarrow>
     map ev_payload es = map (enrich meta) payloads \<and>
     (\<forall>e \<in> set es. ev_project_id e = prj_id p \<and> ev_received_at e = ie_now env)"

lemma processed_Ok:
  "processed env p payload meta g = (Inr (Inr i), t) \<longleftrightarrow> process_event env p payload meta g = (Inr i, t)"
  by (auto simp: processed_def split: prod.splits sum.splits error.splits)

lemma processed_Inl: "processed env p payload meta g = (Inr (Inl resp), t) \<Longrightarrow> \<exists>e. resp = failed_response env e"
  by (auto simp: processed_def split: prod.splits sum.splits error.splits)

lemma process_items_all:
  assumes repo: "ie_repo env = quiet_of w"
  shows "db_ok (ga_db g) \<Longrightarrow> process_items env p meta items acc g = (Inr (Inr acc'), t) \<Longrightarrow>
    db_ok (ga_db t) \<and> (\<exists>es. db_events (ga_db t) = db_events (ga_db g) @ es \<and>
      rows_of env p meta (event_payloads (wi_from_slice (ie_wire env)) items) es \<and>
      acc' = (case acc of Some i \<Rightarrow> Some i | None \<Rightarrow> (case es of [] \<Rightarrow> None | e # _ \<Rightarrow> Some (ev_event_id e))))"
proof (induction items arbitrary: acc g)
  case Nil
  then show ?case by (auto simp: event_payloads_def rows_of_def List.map_filter_simps split: option.split)
next
  case (Cons item items)
  let ?f = "wi_from_slice (ie_wire env)"
  show ?case
  proof (cases "is_ingestible_event item \<and> ?f (eit_payload item) \<noteq> None")
    case False
    then have "process_items env p meta items acc g = (Inr (Inr acc'), t)"
      "event_payloads ?f (item # items) = event_payloads ?f items"
      using Cons.prems(2) by (auto simp: payload_json_def event_payloads_Cons split: if_splits option.splits)
    then show ?thesis using Cons.IH [OF Cons.prems(1)] by simp
  next
    case True
    then obtain v where v: "is_ingestible_event item" "?f (eit_payload item) = Some v" by auto
    obtain i g1 where run: "process_event env p v meta g = (Inr i, g1)"
      and rest: "process_items env p meta items (case acc of None \<Rightarrow> Some i | Some i \<Rightarrow> Some i) g1 = (Inr (Inr acc'), t)"
    proof -
      obtain q u where q: "processed env p v meta g = (Inr q, u)"
        "(case q of Inl resp \<Rightarrow> op_ok (Inl resp) | Inr event_id \<Rightarrow>
            process_items env p meta items (case acc of None \<Rightarrow> Some event_id | Some i \<Rightarrow> Some i)) u = (Inr (Inr acc'), t)"
        using Cons.prems(2) v by (auto simp: payload_json_def op_bind_Inr)
      then show thesis using that by (cases q) (auto simp: processed_Ok)
    qed
    obtain e where e: "db_ok (ga_db g1)" "db_events (ga_db g1) = db_events (ga_db g) @ [e]" "ev_event_id e = i"
      "ev_project_id e = prj_id p" "ev_payload e = enrich meta v" "ev_received_at e = ie_now env"
      using process_event_Ok [OF Cons.prems(1) repo run] by blast
    from Cons.IH [OF e(1) rest] obtain es where es: "db_ok (ga_db t)" "db_events (ga_db t) = db_events (ga_db g1) @ es"
      "rows_of env p meta (event_payloads ?f items) es"
      "acc' = (case (case acc of None \<Rightarrow> Some i | Some i \<Rightarrow> Some i) of Some i \<Rightarrow> Some i
         | None \<Rightarrow> (case es of [] \<Rightarrow> None | e # _ \<Rightarrow> Some (ev_event_id e)))" by blast
    have "rows_of env p meta (event_payloads ?f (item # items)) (e # es)"
      using es(3) e v by (simp add: rows_of_def event_payloads_Cons)
    moreover have "acc' = (case acc of Some i \<Rightarrow> Some i | None \<Rightarrow> Some (ev_event_id e))"
      using es(4) e(3) by (cases acc) auto
    ultimately show ?thesis using es(1,2) e(2) by (intro conjI exI [of _ "e # es"]) (auto split: option.split)
  qed
qed

lemma process_items_answers:
  "process_items env p meta items acc g = (Inr (Inl resp), t) \<Longrightarrow> \<exists>e. resp = failed_response env e"
proof (induction items arbitrary: acc g)
  case (Cons item items)
  let ?v = "wi_from_slice (ie_wire env) (eit_payload item)"
  show ?case
  proof (cases "is_ingestible_event item \<and> ?v \<noteq> None")
    case False
    then show ?thesis using Cons by (auto simp: payload_json_def split: if_splits option.splits)
  next
    case True
    then obtain q u where q: "processed env p (the ?v) meta g = (Inr q, u)"
      "(case q of Inl resp \<Rightarrow> op_ok (Inl resp) | Inr event_id \<Rightarrow>
          process_items env p meta items (case acc of None \<Rightarrow> Some event_id | Some i \<Rightarrow> Some i)) u = (Inr (Inl resp), t)"
      using Cons.prems by (auto simp: payload_json_def op_bind_Inr)
    then show ?thesis using Cons.IH processed_Inl by (cases q) auto
  qed
qed auto

lemma still_same: "still g t \<Longrightarrow> tables (ga_db t) = tables (ga_db g) \<and> ga_spawned t = ga_spawned g"
  by (simp add: still_def)

text \<open>C11. What an envelope's answer means. 200: the key named a live project and every event of the envelope with
  a well-formed payload was stored exactly once, in order, in that project, with the request's details
  filled in, and the answered id is the first event's. Any refusal (missing or unknown key, read-only
  project, over the rate limit, a body or an envelope that does not decode): nothing was stored and nobody
  is notified.\<close>

theorem envelope_answers:
  assumes ok: "db_ok (ga_db g)" and repo: "ie_repo env = quiet_of w"
    and run: "envelope_endpoint env query peer hs body g = (Inr resp, t)"
  shows "(rs_status resp = 200 \<longrightarrow>
      (\<exists>p decoded parsed es. p \<in> set (db_projects (ga_db g)) \<and> extract_dsn_key hs query = Some (prj_dsn_public_key p) \<and>
         prj_orphaned_at p = None \<and> decode_body (ie_wire env) hs body = Inr decoded \<and>
         parse_envelope (wi_from_slice (ie_wire env)) decoded = Inr parsed \<and>
         db_events (ga_db t) = db_events (ga_db g) @ es \<and>
         rows_of env p (from_request hs peer) (event_payloads (wi_from_slice (ie_wire env)) (env_items parsed)) es \<and>
         (es \<noteq> [] \<longrightarrow> rs_body resp = (''id'', ev_event_id (hd es))))) \<and>
    (refused resp \<longrightarrow> tables (ga_db t) = tables (ga_db g) \<and> ga_spawned t = ga_spawned g)"
proof -
  obtain r g1 where auth: "authorize_and_decode env query hs body g = (Inr r, g1)"
    and rest: "(case r of Inl resp \<Rightarrow> op_ok resp
     | Inr (p, decoded) \<Rightarrow>
         (case parse_envelope (wi_from_slice (ie_wire env)) decoded of
            Inl _ \<Rightarrow> op_ok (bad_request ''malformed envelope'')
          | Inr parsed \<Rightarrow>
              op_bind (process_items env p (from_request hs peer) (env_items parsed) None) (\<lambda>r.
              case r of
                Inl resp \<Rightarrow> op_ok resp
              | Inr accepted_id \<Rightarrow>
                  op_bind (case (accepted_id, header_event_id parsed) of
                             (Some i, _) \<Rightarrow> op_ok i | (None, Some i) \<Rightarrow> op_ok i | (None, None) \<Rightarrow> new_event_id)
                    (\<lambda>event_id. op_ok (accepted event_id))))) g1 = (Inr resp, t)"
    using run unfolding envelope_endpoint_def op_bind_Inr by blast
  have g1: "still g g1" using movesD [OF still_authorize auth] .
  then have ok1: "db_ok (ga_db g1)" "db_events (ga_db g1) = db_events (ga_db g)" using ok db_ok_still events_still by auto
  show ?thesis
  proof (cases r)
    case (Inl early)
    then have "resp = early" "t = g1" using rest by auto
    then show ?thesis using authorize_answers [OF auth [unfolded Inl]] still_same [OF g1] by simp
  next
    case (Inr pd)
    obtain p decoded where pd: "r = Inr (p, decoded)" using Inr by (cases pd) auto
    note proj = authorize_project [OF auth [unfolded pd]]
    show ?thesis
    proof (cases "parse_envelope (wi_from_slice (ie_wire env)) decoded")
      case (Inl e)
      then have "resp = bad_request ''malformed envelope''" "t = g1" using rest pd by auto
      then show ?thesis using still_same [OF g1] by (simp add: bad_request_def answer_def)
    next
      case (Inr parsed)
      obtain q g2 where items: "process_items env p (from_request hs peer) (env_items parsed) None g1 = (Inr q, g2)"
        and tail: "(case q of Inl resp \<Rightarrow> op_ok resp
              | Inr accepted_id \<Rightarrow>
                  op_bind (case (accepted_id, header_event_id parsed) of
                             (Some i, _) \<Rightarrow> op_ok i | (None, Some i) \<Rightarrow> op_ok i | (None, None) \<Rightarrow> new_event_id)
                    (\<lambda>event_id. op_ok (accepted event_id))) g2 = (Inr resp, t)"
        using rest pd Inr by (auto simp: op_bind_Inr)
      show ?thesis
      proof (cases q)
        case (Inl early)
        then have "resp = early" using tail by simp
        then show ?thesis using process_items_answers [OF items [unfolded Inl]] failed_not_refused by auto
      next
        case (Inr acc)
        obtain es where es: "db_events (ga_db g2) = db_events (ga_db g1) @ es"
          "rows_of env p (from_request hs peer) (event_payloads (wi_from_slice (ie_wire env)) (env_items parsed)) es"
          "acc = (case es of [] \<Rightarrow> None | e # _ \<Rightarrow> Some (ev_event_id e))"
          using process_items_all [OF repo ok1(1) items [unfolded Inr]] by auto
        have pick: "moves still (case (acc, header_event_id parsed) of
                             (Some i, _) \<Rightarrow> op_ok i | (None, Some i) \<Rightarrow> op_ok i | (None, None) \<Rightarrow> new_event_id)"
          by (auto split: option.split intro!: still.moves_ok still_new_event_id)
        obtain i where i: "(case (acc, header_event_id parsed) of
                             (Some i, _) \<Rightarrow> op_ok i | (None, Some i) \<Rightarrow> op_ok i | (None, None) \<Rightarrow> new_event_id) g2 = (Inr i, t)"
          "resp = accepted i" using tail Inr by (auto simp: op_bind_Inr)
        have "db_events (ga_db t) = db_events (ga_db g) @ es"
          using movesD [OF pick i(1)] es(1) ok1(2) events_still by auto
        moreover have "es \<noteq> [] \<longrightarrow> i = ev_event_id (hd es)" using i(1) es(3) by (auto split: list.splits)
        moreover have "\<not> refused resp" "rs_body resp = (''id'', i)"
          by (auto simp: i(2) refused_def accepted_def answer_def)
        ultimately show ?thesis using proj \<open>parse_envelope (wi_from_slice (ie_wire env)) decoded = Inr parsed\<close> es(2) by auto
      qed
    qed
  qed
qed

section \<open>Events that are sent again\<close>

text \<open>The events of an envelope are stored one by one: when a later one meets a busy database the answer is 429,
  for the client to send the whole envelope again, and the earlier ones stay stored. Sent again, they are
  stored a second time: nothing compares event ids.\<close>

lemma partial_envelope_busy:
  assumes ok: "db_ok (ga_db g)" and repo: "ie_repo env = quiet_of w"
    and a: "is_ingestible_event a" "wi_from_slice (ie_wire env) (eit_payload a) = Some va"
    and b: "is_ingestible_event b" "wi_from_slice (ie_wire env) (eit_payload b) = Some vb"
    and first: "process_event env p va meta g = (Inr i, g1)"
    and second: "process_event env p vb meta g1 = (Inl e, g2)" "is_busy e"
    and again: "process_event env p va meta g2 = (Inr i, g3)"
  shows "process_items env p meta [a, b] None g = (Inr (Inl (failed_response env e)), g2) \<and>
    rs_status (failed_response env e) = 429 \<and>
    (\<exists>x es y. ev_event_id x = i \<and> ev_event_id y = i \<and> db_events (ga_db g3) = db_events (ga_db g) @ x # es @ [y])"
proof -
  have "processed env p va meta g = (Inr (Inr i), g1)" using first by (simp add: processed_Ok)
  moreover have "processed env p vb meta g1 = (Inr (Inl (failed_response env e)), g2)"
    using second by (cases e) (auto simp: processed_def)
  ultimately have "process_items env p meta [a, b] None g = (Inr (Inl (failed_response env e)), g2)"
    using a b by (simp add: payload_json_def op_bind_run)
  moreover have "rs_status (failed_response env e) = 429"
    using second(2) by (simp add: failed_response_def busy_def answer_def)
  moreover obtain x where x: "db_ok (ga_db g1)" "db_events (ga_db g1) = db_events (ga_db g) @ [x]" "ev_event_id x = i"
    using process_event_Ok [OF ok repo first] by blast
  moreover obtain es where es: "db_ok (ga_db g2)" "db_events (ga_db g2) = db_events (ga_db g1) @ es"
    using process_event_any [OF x(1) repo second(1)] by blast
  moreover obtain y where "db_events (ga_db g3) = db_events (ga_db g2) @ [y]" "ev_event_id y = i"
    using process_event_Ok [OF es(1) repo again] by blast
  ultimately show ?thesis by (auto intro!: exI [of _ x] exI [of _ es] exI [of _ y])
qed

definition example_ingest :: ingest_env where
  "example_ingest = \<lparr>ie_wire = \<lparr>wi_from_slice = toy_from_slice, wi_float_str = (\<lambda>_ _. []), wi_gzip = (\<lambda>_. ([], False)),
     wi_zlib = (\<lambda>_. ([], False))\<rparr>, ie_repo = quiet_repo, ie_wall = 0, ie_now = 0, ie_instant = 0, ie_busy_retry_after = 0\<rparr>"

definition example_gate :: gate where
  "example_gate = \<lparr>ga_db = example_db, ga_limiter = new_limiter 1 1, ga_spawned = []\<rparr>"

theorem envelope_answers_witness:
  "\<exists>resp t. envelope_endpoint example_ingest (Some ''sentry_key=nobody'') None [] [] example_gate = (Inr resp, t) \<and>
     rs_status resp = 401 \<and> tables (ga_db t) = tables example_db"
proof -
  let ?q = "Some ''sentry_key=nobody''"
  have trim: "trim ''nobody'' = ''nobody''"
    by (simp add: trim_def trim_start_def trim_end_def is_whitespace_def white_space_def char_width_def)
  have key: "extract_dsn_key [] ?q = Some ''nobody''"
    by (simp add: extract_dsn_key_def header_get_def sentry_key_from_query_def split_once_def starts_with_def
        List.map_filter_simps Let_def trim)
  have "find_project_by_dsn ''nobody'' example_db = (Inr None, example_db)"
    by (simp add: find_project_by_dsn_def select_project_def transaction_def example_db_def example_project_def)
  then have run: "envelope_endpoint example_ingest ?q None [] [] example_gate = (Inr (unauthorized ''unknown sentry key''), example_gate)"
    using key by (simp add: envelope_endpoint_def authorize_and_decode_def op_bind_def op_try_def at_db_def example_gate_def)
  moreover have "refused (unauthorized ''unknown sentry key'')" by (simp add: refused_def unauthorized_def answer_def)
  moreover have "ie_repo example_ingest = quiet_of default_write_policy" by (simp add: example_ingest_def quiet_repo_def)
  ultimately show ?thesis
    using envelope_answers [OF _ _ run] example_db_ok by (auto simp: example_gate_def unauthorized_def answer_def)
qed

end
