(* ===== verification/Scheduler.thy ===== *)
theory Scheduler
  imports ProjectStore Chrono
begin

text \<open>
  The background scheduler, \<open>src/scheduler.rs\<close>: the retention sweep over all projects with events,
  the mute-expiry sweep and the loop that runs both at the occurrences of a cron expression. The cron
  parser is a library: the loop takes the function from an instant to the next occurrence.
\<close>

section \<open>Limits\<close>

definition effective_retention :: "int \<Rightarrow> int \<Rightarrow> int" where
  "effective_retention project_retention default_retention =
     (if 0 < project_retention then project_retention else max default_retention 0)"

definition effective_retention_days :: "int \<Rightarrow> int \<Rightarrow> int" where
  "effective_retention_days project_days default_days =
     (if 0 < project_days then project_days else max default_days 0)"

definition MAX_SLEEP :: int where "MAX_SLEEP = secs 60"

text \<open>\<open>to_std\<close> refuses a negative difference; the wait is then zero.\<close>

definition sleep_until :: "timestamp \<Rightarrow> timestamp \<Rightarrow> int" where
  "sleep_until target now = min (if target - now < 0 then 0 else target - now) MAX_SLEEP"

section \<open>The sweeps\<close>

text \<open>The configuration the sweep reads, and the instant the clock shows when a project's turn comes:
  each project has one turn in a sweep.\<close>

record sweep_config =
  default_events_retention :: int
  default_retention_days :: int

definition project_limits :: "project option \<Rightarrow> int \<times> int" where
  "project_limits found =
     (case found of Some p \<Rightarrow> (prj_retention_events p, prj_retention_days p) | None \<Rightarrow> (0, 0))"

text \<open>The age-based half of a project's turn: nothing when the window is zero.\<close>

definition prune_by_age :: "repo \<Rightarrow> int \<Rightarrow> timestamp \<Rightarrow> uuid \<Rightarrow> db \<Rightarrow> (unit res \<times> db) option" where
  "prune_by_age r days now p s =
     (if 0 < days then
        (case dt_sub_days now days of
           Inl e \<Rightarrow> Some (Inl e, s)
         | Inr cutoff \<Rightarrow>
             (case delete_older_than r p cutoff s of
                None \<Rightarrow> None
              | Some (Inl e, t) \<Rightarrow> Some (Inl e, t)
              | Some (Inr deleted, t) \<Rightarrow> Some (Inr (), t)))
      else Some (Inr (), s))"

definition retain_project ::
  "repo \<Rightarrow> sweep_config \<Rightarrow> (uuid \<Rightarrow> timestamp) \<Rightarrow> uuid \<Rightarrow> db \<Rightarrow> (unit res \<times> db) option" where
  "retain_project r cfg clk p s =
     (case find_project_by_id p s of
        (Inl e, s1) \<Rightarrow> Some (Inl e, s1)
      | (Inr found, s1) \<Rightarrow>
          (let (n, d) = project_limits found in
           case prune_events_over_retention r p (effective_retention n (default_events_retention cfg)) s1 of
             None \<Rightarrow> None
           | Some (Inl e, s2) \<Rightarrow> Some (Inl e, s2)
           | Some (Inr deleted, s2) \<Rightarrow>
               prune_by_age r (effective_retention_days d (default_retention_days cfg)) (clk p) p s2))"

fun retain_projects ::
  "repo \<Rightarrow> sweep_config \<Rightarrow> (uuid \<Rightarrow> timestamp) \<Rightarrow> uuid list \<Rightarrow> db \<Rightarrow> (unit res \<times> db) option" where
  "retain_projects r cfg clk [] s = Some (Inr (), s)"
| "retain_projects r cfg clk (p # ps) s =
     (case retain_project r cfg clk p s of
        None \<Rightarrow> None
      | Some (Inl e, t) \<Rightarrow> Some (Inl e, t)
      | Some (Inr _, t) \<Rightarrow> retain_projects r cfg clk ps t)"

definition run_retention ::
  "repo \<Rightarrow> sweep_config \<Rightarrow> (uuid \<Rightarrow> timestamp) \<Rightarrow> db \<Rightarrow> (unit res \<times> db) option" where
  "run_retention r cfg clk s =
     (case project_ids_with_events s of
        (Inl e, t) \<Rightarrow> Some (Inl e, t)
      | (Inr ids, t) \<Rightarrow> retain_projects r cfg clk ids t)"

definition run_mute_expiry :: "timestamp \<Rightarrow> (db, unit) op" where
  "run_mute_expiry now s =
     (case clear_expired_mutes now s of
        (Inl e, t) \<Rightarrow> (Inl e, t)
      | (Inr unmuted, t) \<Rightarrow> (Inr (), t))"

section \<open>The loop\<close>

text \<open>One turn of the loop: it sleeps when the target lies ahead, else it runs both sweeps, whatever
  each answers, and moves the target to the occurrence after it. A panic ends the task.\<close>

datatype loop_turn = Slept int | Swept "unit res" "unit res"

definition run_loop_turn ::
  "(timestamp \<Rightarrow> timestamp res) \<Rightarrow> repo \<Rightarrow> sweep_config \<Rightarrow> timestamp \<Rightarrow> (uuid \<Rightarrow> timestamp) \<Rightarrow> timestamp \<Rightarrow>
     timestamp \<Rightarrow> db \<Rightarrow> ((loop_turn \<times> timestamp res) \<times> db) option" where
  "run_loop_turn next_occurrence r cfg now clk later target s =
     (if now < target then Some ((Slept (sleep_until target now), Inr target), s)
      else
        (case run_retention r cfg clk s of
           None \<Rightarrow> None
         | Some (Inl (Panic m), t) \<Rightarrow> Some ((Swept (Inl (Panic m)) (Inr ()), Inl (Panic m)), t)
         | Some (retention, t) \<Rightarrow>
             (case run_mute_expiry later t of
                (mute_expiry, u) \<Rightarrow>
                  Some ((Swept retention mute_expiry, next_occurrence target), u))))"

section \<open>What a sweep leaves\<close>

definition project_events :: "db \<Rightarrow> uuid \<Rightarrow> event list" where
  "project_events s p = newest_first (filter (\<lambda>e. ev_project_id e = p) (db_events s))"

definition limits_of :: "db \<Rightarrow> uuid \<Rightarrow> int \<times> int" where
  "limits_of s p = project_limits (List.find (\<lambda>q. prj_id q = p) (db_projects s))"

definition keep_of :: "sweep_config \<Rightarrow> db \<Rightarrow> uuid \<Rightarrow> int" where
  "keep_of cfg s p = effective_retention (fst (limits_of s p)) (default_events_retention cfg)"

definition days_of :: "sweep_config \<Rightarrow> db \<Rightarrow> uuid \<Rightarrow> int" where
  "days_of cfg s p = effective_retention_days (snd (limits_of s p)) (default_retention_days cfg)"

text \<open>The policy: of a project's events, newest first, the first \<open>keep\<close> ones, and of those the ones
  no older than the window, if there is one.\<close>

definition retained :: "sweep_config \<Rightarrow> db \<Rightarrow> timestamp \<Rightarrow> uuid \<Rightarrow> event list" where
  "retained cfg s now p =
     filter (\<lambda>e. days_of cfg s p = 0 \<or> now - secs (days_of cfg s p * 86400) \<le> ev_received_at e)
       (take (nat (keep_of cfg s p)) (project_events s p))"

text \<open>Windows a calendar can hold: up to a hundred millennia, between the years 1970 and 9999.\<close>

definition windows_fit :: "sweep_config \<Rightarrow> (uuid \<Rightarrow> timestamp) \<Rightarrow> db \<Rightarrow> bool" where
  "windows_fit cfg clk s \<longleftrightarrow>
     default_retention_days cfg \<le> 36525000 \<and>
     list_all (\<lambda>p. prj_retention_days p \<le> 36525000) (db_projects s) \<and>
     (\<forall>p. 0 \<le> clk p \<and> clk p \<le> secs 253402300799)"

lemma days_of_bounds:
  assumes "windows_fit cfg clk s"
  shows "0 \<le> days_of cfg s p" "days_of cfg s p \<le> 36525000"
  using assms
  by (auto simp: days_of_def limits_of_def project_limits_def effective_retention_days_def
      windows_fit_def list_all_iff find_Some_iff split: option.splits)

lemma but_events_projects: "but_events t = but_events s \<Longrightarrow> db_projects t = db_projects s"
  by (simp add: but_events_def)

lemma policy_but_events:
  assumes "but_events t = but_events s"
  shows "days_of cfg t p = days_of cfg s p" "keep_of cfg t p = keep_of cfg s p"
    "windows_fit cfg clk t = windows_fit cfg clk s"
  using but_events_projects [OF assms]
  unfolding days_of_def keep_of_def limits_of_def windows_fit_def by simp_all

lemma retained_cong:
  "but_events t = but_events s \<Longrightarrow> project_events t p = project_events s p \<Longrightarrow>
     retained cfg t now p = retained cfg s now p"
  using policy_but_events(1,2) [of t s cfg p] by (simp add: retained_def)

lemma project_events_other:
  assumes "filter (\<lambda>e. ev_project_id e \<noteq> p) (db_events t) = filter (\<lambda>e. ev_project_id e \<noteq> p) (db_events s)"
    and "q \<noteq> p"
  shows "project_events t q = project_events s q"
proof -
  have "filter (\<lambda>e. ev_project_id e = q) es = filter (\<lambda>e. ev_project_id e = q) (filter (\<lambda>e. ev_project_id e \<noteq> p) es)"
    for es using assms(2) by (simp add: filter_filter) (rule filter_cong, auto)
  with assms(1) show ?thesis unfolding project_events_def by metis
qed

lemma find_project_calm:
  "faults s = [] \<Longrightarrow> find_project_by_id p s = (Inr (List.find (\<lambda>q. prj_id q = p) (db_projects s)), s)"
  unfolding find_project_by_id_def select_project_def by (rule transaction_no_fault) simp_all

lemma prune_by_age_calm:
  assumes "sweep_repo r" "db_ok s" "faults s = []" "0 \<le> now" "now \<le> secs 253402300799"
    and "0 \<le> days" "days \<le> 36525000"
  shows "\<exists>t. prune_by_age r days now p s = Some (Inr (), t) \<and>
    db_events t = filter (\<lambda>e. ev_project_id e \<noteq> p \<or> days = 0 \<or> now - secs (days * 86400) \<le> ev_received_at e)
      (db_events s) \<and>
    but_events t = but_events s \<and> db_ok t \<and> faults t = []"
proof (cases "0 < days")
  case True
  obtain t where "delete_older_than r p (now - secs (days * 86400)) s =
      Some (Inr (length (older_than p (now - secs (days * 86400)) s)), t)"
    "db_events t = filter (\<lambda>e. ev_project_id e \<noteq> p \<or> now - secs (days * 86400) \<le> ev_received_at e)
       (db_events s)" "but_events t = but_events s" "db_ok t" "faults t = []"
    using delete_older_than_exact [OF assms(1-3)] by blast
  with True dt_sub_days_ok [OF assms(4-7)] show ?thesis by (simp add: prune_by_age_def)
next
  case False
  with assms show ?thesis by (simp add: prune_by_age_def)
qed

lemma retain_project_calm:
  assumes "sweep_repo r" "db_ok s" "faults s = []" "windows_fit cfg clk s"
  shows "\<exists>t. retain_project r cfg clk p s = Some (Inr (), t) \<and>
    project_events t p = retained cfg s (clk p) p \<and>
    (\<forall>q. q \<noteq> p \<longrightarrow> project_events t q = project_events s q) \<and>
    but_events t = but_events s \<and> db_ok t \<and> faults t = []"
proof -
  obtain s2 where s2: "prune_events_over_retention r p (keep_of cfg s p) s =
      Some (Inr (length (project_events s p) - nat (keep_of cfg s p)), s2)"
    and kept: "project_events s2 p = take (nat (keep_of cfg s p)) (project_events s p)"
    and others: "filter (\<lambda>e. ev_project_id e \<noteq> p) (db_events s2) = filter (\<lambda>e. ev_project_id e \<noteq> p) (db_events s)"
    and s2_ok: "but_events s2 = but_events s" "db_ok s2" "faults s2 = []"
    using prune_keeps_newest [OF assms(1-3), of p "keep_of cfg s p"] unfolding project_events_def by blast
  have clk: "0 \<le> clk p" "clk p \<le> secs 253402300799" using assms(4) by (simp_all add: windows_fit_def)
  let ?fresh = "\<lambda>e. days_of cfg s p = 0 \<or> clk p - secs (days_of cfg s p * 86400) \<le> ev_received_at e"
  obtain t where t: "prune_by_age r (days_of cfg s p) (clk p) p s2 = Some (Inr (), t)"
    and ev: "db_events t = filter (\<lambda>e. ev_project_id e \<noteq> p \<or> ?fresh e) (db_events s2)"
    and t_ok: "but_events t = but_events s2" "db_ok t" "faults t = []"
    using prune_by_age_calm [OF assms(1) s2_ok(2,3) clk days_of_bounds [OF assms(4)]] by blast
  have "retain_project r cfg clk p s = Some (Inr (), t)"
    using s2 t by (simp add: retain_project_def find_project_calm [OF assms(3)] keep_of_def days_of_def
        limits_of_def split_def)
  moreover have "filter (\<lambda>e. ev_project_id e = p) (db_events t) =
      filter ?fresh (filter (\<lambda>e. ev_project_id e = p) (db_events s2))"
    unfolding ev by (auto intro: filter_cong)
  then have "project_events t p = retained cfg s (clk p) p"
    using kept unfolding project_events_def retained_def by (simp only: newest_first_filter)
  moreover have "filter (\<lambda>e. ev_project_id e \<noteq> p) (db_events t) = filter (\<lambda>e. ev_project_id e \<noteq> p) (db_events s)"
    unfolding ev filter_filter others [symmetric] by (auto intro: filter_cong)
  then have "\<forall>q. q \<noteq> p \<longrightarrow> project_events t q = project_events s q" by (blast intro: project_events_other)
  ultimately show ?thesis using t_ok s2_ok by metis
qed

lemma retain_projects_calm:
  assumes "sweep_repo r" "distinct ps" "db_ok s" "faults s = []" "windows_fit cfg clk s"
  shows "\<exists>t. retain_projects r cfg clk ps s = Some (Inr (), t) \<and>
    (\<forall>p. project_events t p =
       (if p \<in> set ps then retained cfg s (clk p) p else project_events s p)) \<and>
    but_events t = but_events s \<and> db_ok t \<and> faults t = []"
  using assms(2-5)
proof (induction ps arbitrary: s)
  case (Cons p ps)
  obtain u where u: "retain_project r cfg clk p s = Some (Inr (), u)"
    "project_events u p = retained cfg s (clk p) p"
    "\<forall>q. q \<noteq> p \<longrightarrow> project_events u q = project_events s q"
    "but_events u = but_events s" "db_ok u" "faults u = []"
    using retain_project_calm [OF assms(1) Cons.prems(2-4)] by blast
  have "windows_fit cfg clk u" using Cons.prems(4) policy_but_events(3) [OF u(4)] by simp
  with Cons.IH [of u] Cons.prems(1) u(5,6) obtain t where
    t: "retain_projects r cfg clk ps u = Some (Inr (), t)"
    "\<forall>q. project_events t q = (if q \<in> set ps then retained cfg u (clk q) q else project_events u q)"
    "but_events t = but_events u" "db_ok t" "faults t = []" by (metis distinct.simps(2))
  have "project_events t q = (if q \<in> set (p # ps) then retained cfg s (clk q) q else project_events s q)" for q
    using t(2) u(2,3) Cons.prems(1) retained_cong [OF u(4), of q cfg "clk q"] by (cases "q = p") auto
  with t u show ?case by simp
qed simp

lemma no_events_retained: "p \<notin> ev_project_id ` set (db_events s) \<Longrightarrow> project_events s p = []"
  by (subst set_empty [symmetric]) (auto simp: project_events_def)


section \<open>The sweep returns\<close>

text \<open>A run that returns, with a result or an error, and leaves all but the events alone.\<close>

definition settles :: "db \<Rightarrow> ('a \<times> db) option \<Rightarrow> bool" where
  "settles s run \<longleftrightarrow> (\<exists>res t. run = Some (res, t) \<and> db_ok t \<and> but_events t = but_events s)"

lemma settles_Some [simp]: "settles s (Some (res, t)) \<longleftrightarrow> db_ok t \<and> but_events t = but_events s"
  by (auto simp: settles_def)

lemma settlesE:
  assumes "settles s run"
  obtains res t where "run = Some (res, t)" "db_ok t" "but_events t = but_events s"
  using assms by (auto simp: settles_def)

lemma prune_by_age_returns:
  assumes "sweep_repo r" "db_ok s"
  shows "settles s (prune_by_age r days now p s)"
proof (cases "dt_sub_days now days")
  case (Inr cutoff)
  have "settles s (delete_older_than r p cutoff s)"
    unfolding settles_def by (rule sweeps_return(2) [OF assms])
  with Inr assms(2) show ?thesis by (auto simp: prune_by_age_def elim!: settlesE split: sum.splits)
qed (use assms(2) in \<open>simp add: prune_by_age_def\<close>)

lemma select_project_tables: "select_project P s = (res, t) \<Longrightarrow> tables t = tables s"
  unfolding select_project_def by (erule transaction_cases) auto

lemma retain_project_returns:
  assumes "sweep_repo r" "db_ok s"
  shows "settles s (retain_project r cfg clk p s)"
proof -
  obtain found s1 where s1: "find_project_by_id p s = (found, s1)" by fastforce
  then have tb: "db_ok s1" "but_events s1 = but_events s"
    using select_project_tables [of _ s found s1] assms(2) db_ok_tables [of s1 s]
    by (auto simp: find_project_by_id_def tables_but_events)
  have count: "settles s1 (prune_events_over_retention r p n s1)" for n
    unfolding settles_def by (rule sweeps_return(1) [OF assms(1) tb(1)])
  show ?thesis
  proof (cases found)
    case (Inr project)
    let ?n = "effective_retention (fst (project_limits project)) (default_events_retention cfg)"
    obtain res s2 where s2: "prune_events_over_retention r p ?n s1 = Some (res, s2)"
      "db_ok s2" "but_events s2 = but_events s1" using count by (rule settlesE)
    have "settles s2 (prune_by_age r d now p s2)" for d now by (rule prune_by_age_returns [OF assms(1) s2(2)])
    with s1 Inr s2 tb show ?thesis
      by (cases res) (simp_all add: retain_project_def split_def settles_def)
  qed (use s1 tb in \<open>simp add: retain_project_def\<close>)
qed

lemma retain_projects_returns:
  assumes "sweep_repo r" "db_ok s"
  shows "settles s (retain_projects r cfg clk ps s)"
  using assms(2)
proof (induction ps arbitrary: s)
  case (Cons p ps)
  from retain_project_returns [OF assms(1) Cons.prems] obtain res t
    where t: "retain_project r cfg clk p s = Some (res, t)" "db_ok t" "but_events t = but_events s"
    by (rule settlesE)
  with Cons.IH [OF t(2)] show ?case by (cases res) (simp_all add: settles_def)
qed simp

text \<open>The retention sweep returns under every script of driver faults and under every retention
  setting, a lock conflict or a fatal error ending it with that error at the latest when its retries
  are spent; however it ends, the database is consistent and only events have gone.\<close>

theorem retention_returns:
  assumes "sweep_repo r" "db_ok s"
  shows "\<exists>res t. run_retention r cfg clk s = Some (res, t) \<and> db_ok t \<and> but_events t = but_events s"
proof -
  obtain ids t where t: "project_ids_with_events s = (ids, t)" by fastforce
  then have "tables t = tables s"
    unfolding project_ids_with_events_def by (elim transaction_cases) auto
  then have "db_ok t" "but_events t = but_events s"
    using assms(2) db_ok_tables [of t s] by (simp_all add: tables_but_events)
  moreover from retain_projects_returns [OF assms(1) this(1)]
  have "settles t (retain_projects r cfg clk ps t)" for ps .
  ultimately show ?thesis using t by (cases ids) (simp_all add: run_retention_def settles_def)
qed

text \<open>A window beyond what a \<open>TimeDelta\<close> holds ends the sweep of its project in a panic: neither the
  API nor the sweep bounds \<open>retention_days\<close> from above.\<close>

lemma huge_retention_days_panics:
  assumes "i64_max div 1000 < days * 86400" "0 < days"
  shows "prune_by_age r days now p s = Some (Inl (Panic ''TimeDelta::days out of bounds''), s)"
  using assms by (simp add: prune_by_age_def dt_sub_days_def delta_days_def)

section \<open>The loop makes progress\<close>

text \<open>A wait is never negative and never longer than a minute, and one that is shorter ends at the
  target.\<close>

lemma sleep_until_bounds:
  "0 \<le> sleep_until target now \<and> sleep_until target now \<le> MAX_SLEEP \<and>
   (now < target \<longrightarrow> 0 < sleep_until target now \<and> now + sleep_until target now \<le> target)"
  by (auto simp: sleep_until_def MAX_SLEEP_def)

text \<open>The occurrences a run of the loop serves: the clock readings of the turns and what each turn did.\<close>

inductive served :: "(timestamp \<Rightarrow> timestamp res) \<Rightarrow> repo \<Rightarrow> sweep_config \<Rightarrow>
    timestamp \<Rightarrow> db \<Rightarrow> timestamp list \<Rightarrow> timestamp \<Rightarrow> db \<Rightarrow> bool"
  for next_occurrence r cfg where
  served_none: "served next_occurrence r cfg target s [] target s"
| served_sleep:
    "served next_occurrence r cfg target s fired target' t \<Longrightarrow>
     run_loop_turn next_occurrence r cfg now clk later target' t = Some ((Slept d, Inr target'), u) \<Longrightarrow>
     served next_occurrence r cfg target s fired target' u"
| served_sweep:
    "served next_occurrence r cfg target s fired target' t \<Longrightarrow>
     run_loop_turn next_occurrence r cfg now clk later target' t = Some ((Swept a b, Inr target''), u) \<Longrightarrow>
     served next_occurrence r cfg target s (fired @ [target']) target'' u"

lemma swept_next:
  "run_loop_turn next_occurrence r cfg now clk later target s = Some ((Swept a b, Inr target'), t) \<Longrightarrow>
     next_occurrence target = Inr target' \<and> target \<le> now"
  by (auto simp: run_loop_turn_def split: if_splits option.splits sum.splits error.splits prod.splits)

text \<open>With a schedule that moves forward, no occurrence is served twice and none out of order.\<close>

lemma served_in_order:
  assumes "served next_occurrence r cfg target s fired target' t"
    and "\<And>x y. next_occurrence x = Inr y \<Longrightarrow> x < y"
  shows "sorted_wrt (<) (fired @ [target']) \<and> hd (fired @ [target']) = target"
  using assms(1)
proof (induction rule: served.induct)
  case (served_sweep target s fired target' t now clk later a b target'' u)
  from swept_next [OF served_sweep.hyps(2)] assms(2) have "target' < target''" by blast
  with served_sweep.IH show ?case by (auto simp: sorted_wrt_append hd_append)
qed simp_all

section \<open>Witnesses\<close>

definition example_sweep :: sweep_config where
  "example_sweep = \<lparr>default_events_retention = 10, default_retention_days = 30\<rparr>"

lemma example_windows: "windows_fit example_sweep (\<lambda>_. secs (31 * 86400)) example_db"
  by (simp add: windows_fit_def example_sweep_def example_db_def example_project_def)

lemma example_retained:
  "retained example_sweep example_db (secs (31 * 86400)) ''p'' = []"
  by (simp add: retained_def days_of_def keep_of_def limits_of_def project_limits_def example_sweep_def
      example_db_def example_project_def project_events_def newest_first_def
      effective_retention_def effective_retention_days_def)


theorem retention_returns_witness:
  "\<exists>res t. run_retention quiet_repo example_sweep (\<lambda>_. 0) (example_db\<lparr>faults := [Some locked]\<rparr>) = Some (res, t)"
  using retention_returns [OF quiet_sweep_repo example_db_ok(2)] by blast

end
