(* ===== verification/ConfigFile.thy ===== *)
theory ConfigFile
  imports Notifications Domain
begin

text \<open>
  Declarative management, \<open>src/domain/config_file.rs\<close> and the loading half of
  \<open>src/config_sync.rs\<close>: the YAML tree with the sections a source owns, the expansion of environment
  references, the checks of projects, teams and grants, and the validation of the ownership graph before
  anything is written.

  The YAML reader and the serde decoders of the sections are libraries: parameters. So are the
  \<open>Debug\<close> text of a string and \<open>str::to_lowercase\<close>, which rest on the Unicode tables.
\<close>

section \<open>Data\<close>

datatype management_source = Ui | Env | Yaml
datatype orphan_policy = Readonly | DeleteOrphan

record management_settings =
  ms_path :: string
  ms_project_source :: management_source
  ms_team_source :: management_source
  ms_service_source :: management_source
  ms_default_team_ids :: "uuid list"
  ms_notification_source :: management_source
  ms_project_orphan_policy :: orphan_policy
  ms_team_orphan_policy :: orphan_policy

definition default_management :: management_settings where
  "default_management =
     \<lparr>ms_path = ''/etc/soika/config.yaml'', ms_project_source = Ui, ms_team_source = Ui,
      ms_service_source = Ui, ms_default_team_ids = [], ms_notification_source = Ui,
      ms_project_orphan_policy = Readonly, ms_team_orphan_policy = Readonly\<rparr>"

record project_config =
  pc_severity :: "alert_severity option"
  pc_interval :: "int option"
  pc_slug :: string
  pc_name :: string
  pc_team :: string
  pc_retention_events :: "int option"
  pc_retention_days :: "int option"
  pc_webhook_url :: "string option"

record email_grant =
  eg_email :: string
  eg_role :: team_role

record group_grant =
  gg_group :: string
  gg_role :: team_role

record team_config =
  tc_name :: string
  tc_members :: "email_grant list option"
  tc_sso_groups :: "group_grant list option"

record config_file =
  cf_version :: nat
  cf_notifications :: "notification_config option"
  cf_projects :: "project_config list option"
  cf_teams :: "team_config list option"
  cf_project_labels :: "string bmap bmap"

abbreviation opt_list :: "'a list option \<Rightarrow> 'a list" where
  "opt_list x \<equiv> (case x of None \<Rightarrow> [] | Some xs \<Rightarrow> xs)"

abbreviation is_some_and :: "('a \<Rightarrow> bool) \<Rightarrow> 'a option \<Rightarrow> bool" where
  "is_some_and P x \<equiv> (case x of None \<Rightarrow> False | Some v \<Rightarrow> P v)"

section \<open>The YAML tree\<close>

datatype yaml = YNull | YBool bool | YNumber string | YString string | YSequence "yaml list"
  | YMapping "(yaml \<times> yaml) list" | YTagged string yaml

text \<open>\<open>as_str\<close> and \<open>as_mapping_mut\<close> look through tags.\<close>

fun yaml_as_str :: "yaml \<Rightarrow> string option" where
  "yaml_as_str (YString s) = Some s"
| "yaml_as_str (YTagged t v) = yaml_as_str v"
| "yaml_as_str _ = None"

fun on_mapping :: "((yaml \<times> yaml) list \<Rightarrow> (yaml \<times> yaml) list) \<Rightarrow> yaml \<Rightarrow> yaml" where
  "on_mapping f (YMapping m) = YMapping (f m)"
| "on_mapping f (YTagged t v) = YTagged t (on_mapping f v)"
| "on_mapping f v = v"

fun yaml_mapping :: "yaml \<Rightarrow> (yaml \<times> yaml) list option" where
  "yaml_mapping (YMapping m) = Some m"
| "yaml_mapping (YTagged t v) = yaml_mapping v"
| "yaml_mapping _ = None"

definition yremove :: "string \<Rightarrow> (yaml \<times> yaml) list \<Rightarrow> (yaml \<times> yaml) list" where
  "yremove k m = filter (\<lambda>(key, v). key \<noteq> YString k) m"

definition yupdate :: "string \<Rightarrow> (yaml \<Rightarrow> yaml) \<Rightarrow> (yaml \<times> yaml) list \<Rightarrow> (yaml \<times> yaml) list" where
  "yupdate k f m = map (\<lambda>(key, v). (key, if key = YString k then f v else v)) m"

definition yretain :: "string \<Rightarrow> (yaml \<times> yaml) list \<Rightarrow> (yaml \<times> yaml) list" where
  "yretain k m = filter (\<lambda>(key, v). yaml_as_str key = Some k) m"

text \<open>Sections owned by the UI go before their values are read; with the service managed by the
  environment only the project labels of the Alertmanager remain of the notifications.\<close>

definition discard_ui_sections :: "management_settings \<Rightarrow> yaml \<Rightarrow> yaml" where
  "discard_ui_sections settings value =
     (case value of
        YMapping m \<Rightarrow>
          (let m = (if ms_service_source settings = Env then
                      yupdate ''notifications''
                        (on_mapping (\<lambda>n. yupdate ''alertmanager'' (on_mapping (yretain ''project_labels''))
                           (yretain ''alertmanager'' n))) m
                    else if ms_notification_source settings \<noteq> Yaml then yremove ''notifications'' m
                    else m);
               m = (if ms_project_source settings = Ui then yremove ''projects'' m else m);
               m = (if ms_team_source settings = Ui then yremove ''teams'' m else m)
           in YMapping m)
      | v \<Rightarrow> v)"

section \<open>Expansion of environment references\<close>

text \<open>The text up to the reference, its value, then the rest: a value is not expanded again.\<close>

function expand_loop :: "(string \<Rightarrow> string option) \<Rightarrow> string \<Rightarrow> string \<Rightarrow> string res" where
  "expand_loop env_var out remaining =
     (case str_find remaining ''${'' of
        None \<Rightarrow> Inr (out @ remaining)
      | Some start \<Rightarrow>
          (let out = out @ take start remaining; tail = drop (start + 2) remaining in
           case str_find tail ''}'' of
             None \<Rightarrow> Inl (Validation ''unterminated environment variable reference'')
           | Some stop \<Rightarrow>
               (let key = take stop tail in
                case env_var key of
                  None \<Rightarrow> Inl (Validation (''environment variable '' @ key @ '' is not set''))
                | Some v \<Rightarrow> expand_loop env_var (out @ v) (drop (stop + 1) tail))))"
  by pat_completeness auto
termination
  by (relation "measure (\<lambda>(env_var, out, remaining). length remaining)") (auto dest: str_find_bound)

declare expand_loop.simps [simp del]

definition expand :: "(string \<Rightarrow> string option) \<Rightarrow> string \<Rightarrow> string res" where
  "expand env_var value = expand_loop env_var [] value"

text \<open>Only string values are expanded: neither keys nor what a tag wraps.\<close>

fun visit :: "(string \<Rightarrow> string option) \<Rightarrow> yaml \<Rightarrow> yaml res"
  and visit_seq :: "(string \<Rightarrow> string option) \<Rightarrow> yaml list \<Rightarrow> yaml list res"
  and visit_map :: "(string \<Rightarrow> string option) \<Rightarrow> (yaml \<times> yaml) list \<Rightarrow> (yaml \<times> yaml) list res" where
  "visit env_var (YString s) = (case expand env_var s of Inl e \<Rightarrow> Inl e | Inr s' \<Rightarrow> Inr (YString s'))"
| "visit env_var (YSequence vs) = (case visit_seq env_var vs of Inl e \<Rightarrow> Inl e | Inr vs' \<Rightarrow> Inr (YSequence vs'))"
| "visit env_var (YMapping m) = (case visit_map env_var m of Inl e \<Rightarrow> Inl e | Inr m' \<Rightarrow> Inr (YMapping m'))"
| "visit env_var v = Inr v"
| "visit_seq env_var [] = Inr []"
| "visit_seq env_var (v # vs) =
     (case visit env_var v of
        Inl e \<Rightarrow> Inl e
      | Inr v' \<Rightarrow> (case visit_seq env_var vs of Inl e \<Rightarrow> Inl e | Inr vs' \<Rightarrow> Inr (v' # vs')))"
| "visit_map env_var [] = Inr []"
| "visit_map env_var ((k, v) # m) =
     (case visit env_var v of
        Inl e \<Rightarrow> Inl e
      | Inr v' \<Rightarrow> (case visit_map env_var m of Inl e \<Rightarrow> Inl e | Inr m' \<Rightarrow> Inr ((k, v') # m')))"

section \<open>Checks of the file\<close>

text \<open>The loop keeps the slugs seen, those reported as duplicates and the messages.\<close>

fun slug_errors :: "(string \<Rightarrow> string) \<Rightarrow> string list \<Rightarrow> string list \<Rightarrow> project_config list \<Rightarrow> string list" where
  "slug_errors dbg seen dups [] = []"
| "slug_errors dbg seen dups (p # ps) =
     (case validate_slug (pc_slug p) of
        Inl reason \<Rightarrow>
          (''invalid project slug '' @ dbg (pc_slug p) @ '': '' @ slug_error_to_string reason) # slug_errors dbg seen dups ps
      | Inr _ \<Rightarrow>
          (if pc_slug p \<notin> set seen then slug_errors dbg (pc_slug p # seen) dups ps
           else if pc_slug p \<notin> set dups then
             (''duplicate project slug '' @ dbg (pc_slug p)) # slug_errors dbg seen (pc_slug p # dups) ps
           else slug_errors dbg seen dups ps))"

definition errors_res :: "string list \<Rightarrow> unit res" where
  "errors_res errors = (if errors = [] then Inr () else Inl (Validation (str_join ''; '' errors)))"

definition validate_project_slugs :: "(string \<Rightarrow> string) \<Rightarrow> project_config list \<Rightarrow> unit res" where
  "validate_project_slugs dbg projects = errors_res (slug_errors dbg [] [] projects)"

definition validate_project :: "(string \<Rightarrow> string option) \<Rightarrow> project_config \<Rightarrow> unit res" where
  "validate_project url_scheme p =
     (case (case pc_interval p of Some s \<Rightarrow> validate_interval s | None \<Rightarrow> Inr ()) of
        Inl e \<Rightarrow> Inl e
      | Inr _ \<Rightarrow>
          (if trim (pc_name p) = [] \<or> trim (pc_team p) = [] then
             Inl (Validation ''project name and team are required'')
           else if is_some_and (\<lambda>v. v < 1) (pc_retention_events p) \<or> is_some_and (\<lambda>v. v < 0) (pc_retention_days p) then
             Inl (Validation ''invalid project retention'')
           else if is_some_and (\<lambda>v. \<not> is_valid_webhook_url url_scheme v) (pc_webhook_url p) then
             Inl (Validation ''invalid webhook URL'')
           else Inr ()))"

fun validate_each_project :: "(string \<Rightarrow> string option) \<Rightarrow> project_config list \<Rightarrow> unit res" where
  "validate_each_project url_scheme [] = Inr ()"
| "validate_each_project url_scheme (p # ps) =
     (case validate_project url_scheme p of Inl e \<Rightarrow> Inl e | Inr _ \<Rightarrow> validate_each_project url_scheme ps)"

definition validate_projects ::
  "(string \<Rightarrow> string) \<Rightarrow> (string \<Rightarrow> string option) \<Rightarrow> project_config list \<Rightarrow> unit res" where
  "validate_projects dbg url_scheme projects =
     (case validate_project_slugs dbg projects of
        Inl e \<Rightarrow> Inl e
      | Inr _ \<Rightarrow> validate_each_project url_scheme projects)"

fun validate_members :: "(string \<Rightarrow> string) \<Rightarrow> string list \<Rightarrow> email_grant list \<Rightarrow> unit res" where
  "validate_members lower emails [] = Inr ()"
| "validate_members lower emails (m # ms) =
     (if \<not> str_contains (eg_email m) ''@'' \<or> list_ex is_whitespace (chars (eg_email m)) \<or>
         lower (eg_email m) \<in> set emails
      then Inl (Validation ''invalid or duplicate member email'')
      else validate_members lower (lower (eg_email m) # emails) ms)"

fun validate_groups :: "string list \<Rightarrow> group_grant list \<Rightarrow> unit res" where
  "validate_groups groups [] = Inr ()"
| "validate_groups groups (g # gs) =
     (if trim (gg_group g) = [] \<or> gg_group g \<in> set groups
      then Inl (Validation ''empty or duplicate SSO group'')
      else validate_groups (gg_group g # groups) gs)"

definition validate_team_grants :: "(string \<Rightarrow> string) \<Rightarrow> team_config \<Rightarrow> unit res" where
  "validate_team_grants lower t =
     (if tc_members t = None \<and> tc_sso_groups t = None then
        Inl (Validation ''team requires members or sso_groups (use members: [] for an empty team)'')
      else case validate_members lower [] (opt_list (tc_members t)) of
             Inl e \<Rightarrow> Inl e
           | Inr _ \<Rightarrow> validate_groups [] (opt_list (tc_sso_groups t)))"

fun validate_teams_from :: "(string \<Rightarrow> string) \<Rightarrow> string list \<Rightarrow> team_config list \<Rightarrow> unit res" where
  "validate_teams_from lower seen [] = Inr ()"
| "validate_teams_from lower seen (t # ts) =
     (if trim (tc_name t) = [] \<or> tc_name t \<in> set seen then Inl (Validation ''empty or duplicate team name'')
      else case validate_team_grants lower t of
             Inl e \<Rightarrow> Inl e
           | Inr _ \<Rightarrow> validate_teams_from lower (tc_name t # seen) ts)"

definition validate_teams :: "(string \<Rightarrow> string) \<Rightarrow> team_config list \<Rightarrow> unit res" where
  "validate_teams lower ts = validate_teams_from lower [] ts"

section \<open>Parsing\<close>

text \<open>The libraries behind the parser: YAML text to a tree, a tree to the file's sections, a tree to the
  project labels, URLs.\<close>

record file_readers =
  rd_yaml :: "string \<Rightarrow> yaml option"
  rd_file :: "yaml \<Rightarrow> config_file option"
  rd_labels :: "yaml \<Rightarrow> string bmap bmap option"
  rd_url :: "string \<Rightarrow> base_url option"
  rd_scheme :: "string \<Rightarrow> string option"
  rd_debug :: "string \<Rightarrow> string"
  rd_lower :: "string \<Rightarrow> string"

text \<open>With the service managed by the environment the notifications leave the tree and only their labels
  are read.\<close>

definition take_labels :: "file_readers \<Rightarrow> management_settings \<Rightarrow> yaml \<Rightarrow> (yaml \<times> string bmap bmap) res" where
  "take_labels rd settings value =
     (if ms_service_source settings = Env then
        (let found = (case yaml_mapping value of None \<Rightarrow> None | Some m \<Rightarrow> map_of m (YString ''notifications''));
             value = on_mapping (yremove ''notifications'') value in
         case found of
           None \<Rightarrow> Inr (value, [])
         | Some v \<Rightarrow>
             (case rd_labels rd v of
                None \<Rightarrow> Inl (Validation ''invalid Alertmanager project labels'')
              | Some l \<Rightarrow> Inr (value, l)))
      else Inr (value, []))"

fun validate_labels :: "file_readers \<Rightarrow> string bmap bmap \<Rightarrow> unit res" where
  "validate_labels rd [] = Inr ()"
| "validate_labels rd ((slug, labels) # ls) =
     (case validate_slug slug of
        Inl reason \<Rightarrow> Inl (Validation (''invalid project slug '' @ rd_debug rd slug @
          '' in Alertmanager labels: '' @ slug_error_to_string reason))
      | Inr _ \<Rightarrow>
          (case validate_config (rd_url rd)
                  (default_config\<lparr>am_labels := bm_extend (am_labels default_config) labels\<rparr>) of
             Inl e \<Rightarrow> Inl e
           | Inr _ \<Rightarrow> validate_labels rd ls))"

text \<open>A section is required of its file source, and dropped when the UI owns it.\<close>

definition check_sections :: "file_readers \<Rightarrow> management_settings \<Rightarrow> config_file \<Rightarrow> config_file res" where
  "check_sections rd settings file =
     (if cf_version file \<noteq> 1 then Inl (Validation ''configuration version must be 1'')
      else if ms_project_source settings \<noteq> Ui \<and> cf_projects file = None then
        Inl (Validation ''projects section is required'')
      else if ms_team_source settings \<noteq> Ui \<and> cf_teams file = None then
        Inl (Validation ''teams section is required'')
      else
        (let file = file\<lparr>cf_projects := (if ms_project_source settings = Ui then None else cf_projects file),
                         cf_teams := (if ms_team_source settings = Ui then None else cf_teams file)\<rparr> in
         case (if ms_notification_source settings = Yaml then
                 (case cf_notifications file of
                    None \<Rightarrow> Inl (Validation ''notifications section is required'')
                  | Some n \<Rightarrow> validate_stored (rd_url rd) n)
               else Inr ()) of
           Inl e \<Rightarrow> Inl e
         | Inr _ \<Rightarrow>
             (case validate_projects (rd_debug rd) (rd_scheme rd) (opt_list (cf_projects file)) of
                Inl e \<Rightarrow> Inl e
              | Inr _ \<Rightarrow>
                  (case validate_teams (rd_lower rd) (opt_list (cf_teams file)) of
                     Inl e \<Rightarrow> Inl e
                   | Inr _ \<Rightarrow> Inr file))))"

definition parse_config :: "file_readers \<Rightarrow> string \<Rightarrow> management_settings \<Rightarrow> config_file res" where
  "parse_config rd text settings =
     (case rd_yaml rd text of
        None \<Rightarrow> Inl (Validation ''invalid configuration YAML (duplicate key or invalid value)'')
      | Some value \<Rightarrow>
          (case take_labels rd settings (discard_ui_sections settings value) of
             Inl e \<Rightarrow> Inl e
           | Inr (value, labels) \<Rightarrow>
               (case rd_file rd value of
                  None \<Rightarrow> Inl (Validation ''invalid configuration YAML (unknown field or invalid value)'')
                | Some file \<Rightarrow>
                    (case validate_labels rd labels of
                       Inl e \<Rightarrow> Inl e
                     | Inr _ \<Rightarrow> check_sections rd settings (file\<lparr>cf_project_labels := labels\<rparr>)))))"

text \<open>\<open>read_configuration\<close>: the text of the file is parsed, expanded and written out again before it is
  parsed for good; the result says whether it is the file shipped with the image.\<close>

definition DEFAULT_FILE :: string where
  "DEFAULT_FILE =
     ''version: 1'' @ [CHR 0x0A] @ ''projects: []'' @ [CHR 0x0A] @ ''teams: []'' @ [CHR 0x0A] @
     ''notifications: {}'' @ [CHR 0x0A]"

definition read_configuration ::
  "file_readers \<Rightarrow> (string \<Rightarrow> string option) \<Rightarrow> (string \<Rightarrow> string option) \<Rightarrow> (yaml \<Rightarrow> string option) \<Rightarrow>
     management_settings \<Rightarrow> (config_file \<times> bool) res" where
  "read_configuration rd read_file env_var yaml_text settings =
     (case read_file (ms_path settings) of
        None \<Rightarrow> Inl (Validation (''configuration file not found or unreadable at '' @ ms_path settings))
      | Some text \<Rightarrow>
          (case rd_yaml rd text of
             None \<Rightarrow> Inl (Validation ''invalid configuration YAML'')
           | Some value \<Rightarrow>
               (case visit env_var (discard_ui_sections settings value) of
                  Inl e \<Rightarrow> Inl e
                | Inr value \<Rightarrow>
                    (case yaml_text value of
                       None \<Rightarrow> Inl (Validation ''invalid configuration YAML'')
                     | Some expanded \<Rightarrow>
                         (case parse_config rd expanded settings of
                            Inl e \<Rightarrow> Inl e
                          | Inr desired \<Rightarrow> Inr (desired, text = DEFAULT_FILE))))))"

fun apply_label_entries :: "string list \<Rightarrow> string bmap \<Rightarrow> string list \<Rightarrow> string bmap res" where
  "apply_label_entries seen labels [] = Inr labels"
| "apply_label_entries seen labels (entry # es) =
     (case split_once (CHR ''='') entry of
        None \<Rightarrow> Inl (Validation ''ALERTMANAGER_DEFAULT_LABELS must contain comma-separated name=value pairs'')
      | Some (key, value) \<Rightarrow>
          (if trim key = [] \<or> trim key \<in> set seen then
             Inl (Validation ''ALERTMANAGER_DEFAULT_LABELS contains an empty or duplicate name'')
           else apply_label_entries (trim key # seen) (bm_insert (trim key) (trim value) labels) es))"

definition apply_alertmanager_labels :: "alertmanager_config \<Rightarrow> string \<Rightarrow> alertmanager_config res" where
  "apply_alertmanager_labels config value =
     (if trim value = [] then Inr config
      else case apply_label_entries [] (am_labels config) (split_on (\<lambda>c. c = CHR '','') value) of
             Inl e \<Rightarrow> Inl e
           | Inr labels \<Rightarrow> Inr (config\<lparr>am_labels := labels\<rparr>))"

section \<open>The plan\<close>

fun reconcile_memberships_from :: "team_role option \<Rightarrow> team_role list \<Rightarrow> team_role option" where
  "reconcile_memberships_from result [] = result"
| "reconcile_memberships_from result (r # rs) =
     (if r = TeamAdmin then Some r else reconcile_memberships_from (Some r) rs)"

definition reconcile_memberships :: "team_role list \<Rightarrow> team_role option" where
  "reconcile_memberships roles = reconcile_memberships_from None roles"

datatype sync_action_kind = ActCreate | ActUpdate | ActUnchanged | ActRestore | ActOrphan | ActDelete

record sync_action =
  sa_entity :: string
  sa_key :: string
  sa_action :: sync_action_kind

record grant_binding =
  gb_email :: string
  gb_role :: team_role
  gb_user_id :: "uuid option"
  gb_local_account :: bool

record sync_report =
  sr_actions :: "sync_action list"
  sr_loaded :: bool
  sr_default_file :: bool
  sr_synced_at :: "timestamp option"
  sr_created :: nat
  sr_updated :: nat
  sr_unchanged :: nat
  sr_restored :: nat
  sr_orphaned :: nat
  sr_deleted :: nat
  sr_projects_in_file :: nat
  sr_teams_in_file :: nat
  sr_pending_grants :: nat
  sr_local_grants :: nat
  sr_local_accounts :: "grant_binding list"
  sr_orphaned_projects :: int
  sr_orphaned_teams :: int

definition empty_report :: sync_report where
  "empty_report =
     \<lparr>sr_actions = [], sr_loaded = False, sr_default_file = False, sr_synced_at = None, sr_created = 0,
      sr_updated = 0, sr_unchanged = 0, sr_restored = 0, sr_orphaned = 0, sr_deleted = 0,
      sr_projects_in_file = 0, sr_teams_in_file = 0, sr_pending_grants = 0, sr_local_grants = 0,
      sr_local_accounts = [], sr_orphaned_projects = 0, sr_orphaned_teams = 0\<rparr>"

definition plan_present :: "bool \<Rightarrow> bool \<Rightarrow> bool \<Rightarrow> sync_action_kind" where
  "plan_present exists orphaned changed =
     (if \<not> exists then ActCreate else if orphaned then ActRestore else if changed then ActUpdate else ActUnchanged)"

definition record_action :: "string \<Rightarrow> string \<Rightarrow> sync_action_kind \<Rightarrow> sync_report \<Rightarrow> sync_report" where
  "record_action entity key action rep =
     (case action of
        ActCreate \<Rightarrow> rep\<lparr>sr_created := sr_created rep + 1\<rparr>
      | ActUpdate \<Rightarrow> rep\<lparr>sr_updated := sr_updated rep + 1\<rparr>
      | ActUnchanged \<Rightarrow> rep\<lparr>sr_unchanged := sr_unchanged rep + 1\<rparr>
      | ActRestore \<Rightarrow> rep\<lparr>sr_restored := sr_restored rep + 1\<rparr>
      | ActOrphan \<Rightarrow> rep\<lparr>sr_orphaned := sr_orphaned rep + 1\<rparr>
      | ActDelete \<Rightarrow> rep\<lparr>sr_deleted := sr_deleted rep + 1\<rparr>)
     \<lparr>sr_actions := sr_actions rep @ [\<lparr>sa_entity = entity, sa_key = key, sa_action = action\<rparr>]\<rparr>"

definition unknown_team_errors :: "config_file \<Rightarrow> string list \<Rightarrow> string list" where
  "unknown_team_errors file existing_teams =
     (let names = (case cf_teams file of Some ts \<Rightarrow> map tc_name ts | None \<Rightarrow> existing_teams) in
      map (\<lambda>p. ''project '' @ pc_slug p @ '' references unknown team '' @ pc_team p)
        (filter (\<lambda>p. pc_team p \<notin> set names) (opt_list (cf_projects file))))"

definition validate_references :: "config_file \<Rightarrow> string list \<Rightarrow> unit res" where
  "validate_references file existing_teams = errors_res (unknown_team_errors file existing_teams)"

definition final_project_team ::
  "config_file \<Rightarrow> management_settings \<Rightarrow> string \<Rightarrow> string \<Rightarrow> string option" where
  "final_project_team file settings slug current_team =
     (case cf_projects file of
        None \<Rightarrow> Some current_team
      | Some desired \<Rightarrow>
          (case List.find (\<lambda>p. pc_slug p = slug) desired of
             Some p \<Rightarrow> Some (pc_team p)
           | None \<Rightarrow> (if ms_project_orphan_policy settings = DeleteOrphan then None else Some current_team)))"

definition remaining_projects ::
  "config_file \<Rightarrow> management_settings \<Rightarrow> (string \<times> string) list \<Rightarrow> string \<Rightarrow> string list" where
  "remaining_projects file settings projects team =
     map fst (filter (\<lambda>(slug, current). final_project_team file settings slug current = Some team) projects)"

definition removal_errors ::
  "config_file \<Rightarrow> management_settings \<Rightarrow> string list \<Rightarrow> (string \<times> string) list \<Rightarrow> string list" where
  "removal_errors file settings teams projects =
     (case cf_teams file of
        None \<Rightarrow> []
      | Some desired \<Rightarrow>
          (if ms_team_orphan_policy settings = DeleteOrphan then
             map (\<lambda>team. ''team '' @ team @ '' still owns projects: '' @
                    str_join '', '' (remaining_projects file settings projects team))
               (filter (\<lambda>team. team \<notin> set (map tc_name desired) \<and> remaining_projects file settings projects team \<noteq> [])
                  teams)
           else []))"

text \<open>The text of a nested error is its display: a validation error prefixes its message.\<close>

definition validate_plan ::
  "config_file \<Rightarrow> management_settings \<Rightarrow> string list \<Rightarrow> (string \<times> string) list \<Rightarrow> unit res" where
  "validate_plan file settings teams projects =
     (let references = unknown_team_errors file teams in
      errors_res ((if references = [] then [] else [''validation error: '' @ str_join ''; '' references]) @
        removal_errors file settings teams projects))"

lemma validate_plan_ok:
  "validate_plan file settings teams projects = Inr () \<longleftrightarrow>
     unknown_team_errors file teams = [] \<and> removal_errors file settings teams projects = []"
  by (simp add: validate_plan_def errors_res_def Let_def)

section \<open>What the source of management forbids\<close>

definition require_ui_management :: "management_settings \<Rightarrow> bool \<Rightarrow> unit res" where
  "require_ui_management settings team =
     (let (source, kind) = (if team then (ms_team_source settings, ''teams'')
                            else (ms_project_source settings, ''projects'')) in
      if source = Yaml then Inl (Forbidden (kind @ '' are managed by the configuration file'')) else Inr ())"

definition invites_enabled :: "bool \<Rightarrow> management_settings \<Rightarrow> bool" where
  "invites_enabled allow_invites settings \<longleftrightarrow> allow_invites \<and> ms_team_source settings \<noteq> Yaml"

definition require_invites_enabled :: "bool \<Rightarrow> management_settings \<Rightarrow> unit res" where
  "require_invites_enabled allow_invites settings =
     (case require_ui_management settings True of
        Inl e \<Rightarrow> Inl e
      | Inr _ \<Rightarrow> (if allow_invites then Inr () else Inl (Forbidden ''invites are disabled'')))"

end
