(* ===== verification/ConfigSync.thy ===== *)
theory ConfigSync
  imports ConfigFile AccountStore Ops
begin

text \<open>
  The reconciliation of the database with the configuration file,
  \<open>src/adapters/config_sync.rs\<close> on SQLite: one transaction validates the plan, brings teams, grants,
  memberships and projects to what the file declares and orphans or deletes the rest; and the
  reconciliation of one user's memberships at sign-in.

  The state \<open>desk\<close> is the database with the tables of grants and the columns only this adapter and the
  notifications touch.
\<close>

section \<open>State\<close>

record member_grant =
  mg_team :: uuid
  mg_email :: string
  mg_role :: team_role

record team_group_grant =
  tg_team :: uuid
  tg_group :: string
  tg_role :: team_role

record sso_group =
  sg_user :: uuid
  sg_group :: string
  sg_seen_at :: timestamp

record desk =
  dk_db :: db
  dk_config :: notification_config
  dk_severities :: "uuid \<Rightarrow> string"
  dk_intervals :: "uuid \<Rightarrow> int"
  dk_member_grants :: "member_grant list"
  dk_group_grants :: "team_group_grant list"
  dk_sso_groups :: "sso_group list"

definition desk_transaction :: "(desk, 'a) op \<Rightarrow> (desk, 'a) op" where
  "desk_transaction body d =
     (case faults (dk_db d) of
        Some e # fs \<Rightarrow> (Inl (Db e), d\<lparr>dk_db := dk_db d\<lparr>faults := fs\<rparr>\<rparr>)
      | _ \<Rightarrow>
          (let d0 = d\<lparr>dk_db := dk_db d\<lparr>faults := tl (faults (dk_db d))\<rparr>\<rparr> in
           case body d0 of
             (Inr v, t) \<Rightarrow> (Inr v, t)
           | (Inl e, t) \<Rightarrow> (Inl e, d0\<lparr>dk_db := dk_db d0\<lparr>rng_pos := rng_pos (dk_db t)\<rparr>\<rparr>)))"

definition in_db :: "(db, 'a) op \<Rightarrow> (desk, 'a) op" where
  "in_db m d = (case m (dk_db d) of (r, s) \<Rightarrow> (r, d\<lparr>dk_db := s\<rparr>))"

text \<open>A loop of fallible steps.\<close>

fun op_each :: "('a \<Rightarrow> ('s, unit) op) \<Rightarrow> 'a list \<Rightarrow> ('s, unit) op" where
  "op_each f [] = op_ok ()"
| "op_each f (x # xs) = op_bind (f x) (\<lambda>_. op_each f xs)"

text \<open>A loop that threads the report.\<close>

fun op_fold :: "('a \<Rightarrow> 'r \<Rightarrow> ('s, 'r) op) \<Rightarrow> 'a list \<Rightarrow> 'r \<Rightarrow> ('s, 'r) op" where
  "op_fold f [] acc = op_ok acc"
| "op_fold f (x # xs) acc = op_bind (f x acc) (op_fold f xs)"

text \<open>A loop moves the state as its steps do.\<close>

context step_relation
begin

lemma moves_each: "(\<And>x. moves R (f x)) \<Longrightarrow> moves R (op_each f xs)"
  by (induction xs) (simp_all only: op_each.simps moves_ok moves_bind)

lemma moves_fold: "(\<And>x acc. moves R (f x acc)) \<Longrightarrow> moves R (op_fold f xs acc)"
  by (induction xs arbitrary: acc) (simp_all only: op_fold.simps moves_ok moves_bind)

end

section \<open>Memberships\<close>

definition granted_roles :: "(string \<Rightarrow> string) \<Rightarrow> uuid \<Rightarrow> uuid \<Rightarrow> string \<Rightarrow> desk \<Rightarrow> team_role list" where
  "granted_roles lower tid uid email d =
     map mg_role (filter (\<lambda>g. mg_team g = tid \<and> mg_email g = lower email) (dk_member_grants d)) @
     concat (map (\<lambda>g. map (\<lambda>u. tg_role g)
         (filter (\<lambda>u. sg_group u = tg_group g \<and> sg_user u = uid) (dk_sso_groups d)))
       (filter (\<lambda>g. tg_team g = tid) (dk_group_grants d)))"

definition reconcile_member :: "(string \<Rightarrow> string) \<Rightarrow> timestamp \<Rightarrow> uuid \<Rightarrow> uuid \<Rightarrow> string \<Rightarrow> (desk, bool) op" where
  "reconcile_member lower now tid uid email d =
     (case reconcile_memberships (granted_roles lower tid uid email d) of
        Some role \<Rightarrow>
          op_bind (in_db (upsert_member \<lparr>mb_team_id = tid, mb_user_id = uid, mb_role = role, mb_created_at = now\<rparr>
            (\<lambda>_. role))) (\<lambda>_. op_ok True) d
      | None \<Rightarrow>
          (Inr False, d\<lparr>dk_db := dk_db d\<lparr>db_members :=
             filter (\<lambda>m. \<not> (mb_team_id m = tid \<and> mb_user_id m = uid)) (db_members (dk_db d))\<rparr>\<rparr>))"

section \<open>Teams\<close>

definition email_grants :: "(string \<Rightarrow> string) \<Rightarrow> team_config \<Rightarrow> (string \<times> team_role) list" where
  "email_grants lower team = map (\<lambda>g. (lower (eg_email g), eg_role g)) (opt_list (tc_members team))"

definition group_grants :: "team_config \<Rightarrow> (string \<times> team_role) list" where
  "group_grants team = map (\<lambda>g. (gg_group g, gg_role g)) (opt_list (tc_sso_groups team))"

definition grants_changed :: "(string \<Rightarrow> string) \<Rightarrow> team_config \<Rightarrow> uuid \<Rightarrow> desk \<Rightarrow> bool" where
  "grants_changed lower team tid d \<longleftrightarrow>
     set (map (\<lambda>g. (mg_email g, mg_role g)) (filter (\<lambda>g. mg_team g = tid) (dk_member_grants d))) \<noteq>
       set (email_grants lower team) \<or>
     set (map (\<lambda>g. (tg_group g, tg_role g)) (filter (\<lambda>g. tg_team g = tid) (dk_group_grants d))) \<noteq>
       set (group_grants team)"

definition set_team :: "uuid \<Rightarrow> (team \<Rightarrow> team) \<Rightarrow> db \<Rightarrow> db" where
  "set_team tid f s = s\<lparr>db_teams := map (\<lambda>x. if tm_id x = tid then f x else x) (db_teams s)\<rparr>"

definition insert_team :: "timestamp \<Rightarrow> string \<Rightarrow> (db, uuid) op" where
  "insert_team now name s =
     (let tid = rng_uuid s (rng_pos s); short = rng_short s (rng_pos s); s = s\<lparr>rng_pos := Suc (rng_pos s)\<rparr> in
      if tid \<in> set (team_ids s) then (Inl (constraint_failed ''UNIQUE constraint failed: teams.id''), s)
      else if name \<in> set (map tm_name (db_teams s)) then
        (Inl (constraint_failed ''UNIQUE constraint failed: teams.name''), s)
      else if short \<in> set (map tm_short_id (db_teams s)) then
        (Inl (constraint_failed ''UNIQUE constraint failed: teams.short_id''), s)
      else (Inr tid, s\<lparr>db_teams := db_teams s @
        [\<lparr>tm_id = tid, tm_short_id = short, tm_name = name, tm_created_at = now, tm_updated_at = now,
          tm_orphaned_at = None\<rparr>]\<rparr>))"

definition upsert_team ::
  "(string \<Rightarrow> string) \<Rightarrow> timestamp \<Rightarrow> team_config \<Rightarrow> sync_report \<Rightarrow> (desk, uuid \<times> sync_report) op" where
  "upsert_team lower now team rep d =
     (case List.find (\<lambda>x. tm_name x = tc_name team) (db_teams (dk_db d)) of
        Some row \<Rightarrow>
          (if tm_orphaned_at row \<noteq> None then
             (Inr (tm_id row, record_action ''team'' (tc_name team) ActRestore rep),
              d\<lparr>dk_db := set_team (tm_id row) (\<lambda>x. x\<lparr>tm_orphaned_at := None, tm_updated_at := now\<rparr>) (dk_db d)\<rparr>)
           else if grants_changed lower team (tm_id row) d then
             (Inr (tm_id row, record_action ''team'' (tc_name team) ActUpdate rep),
              d\<lparr>dk_db := set_team (tm_id row) (\<lambda>x. x\<lparr>tm_updated_at := now\<rparr>) (dk_db d)\<rparr>)
           else (Inr (tm_id row, record_action ''team'' (tc_name team) ActUnchanged rep), d))
      | None \<Rightarrow>
          op_bind (in_db (insert_team now (tc_name team)))
            (\<lambda>tid. op_ok (tid, record_action ''team'' (tc_name team) ActCreate rep)) d)"

definition insert_member_grant :: "uuid \<Rightarrow> string \<times> team_role \<Rightarrow> (desk, unit) op" where
  "insert_member_grant tid grant d =
     (if list_ex (\<lambda>g. mg_team g = tid \<and> mg_email g = fst grant) (dk_member_grants d) then
        (Inl (constraint_failed ''UNIQUE constraint failed: team_member_grants.team_id, team_member_grants.email''), d)
      else (Inr (), d\<lparr>dk_member_grants := dk_member_grants d @
        [\<lparr>mg_team = tid, mg_email = fst grant, mg_role = snd grant\<rparr>]\<rparr>))"

definition insert_group_grant :: "uuid \<Rightarrow> string \<times> team_role \<Rightarrow> (desk, unit) op" where
  "insert_group_grant tid grant d =
     (if list_ex (\<lambda>g. tg_team g = tid \<and> tg_group g = fst grant) (dk_group_grants d) then
        (Inl (constraint_failed ''UNIQUE constraint failed: team_group_grants.team_id, team_group_grants.group_path''), d)
      else (Inr (), d\<lparr>dk_group_grants := dk_group_grants d @
        [\<lparr>tg_team = tid, tg_group = fst grant, tg_role = snd grant\<rparr>]\<rparr>))"

definition clear_grants :: "uuid \<Rightarrow> (desk, unit) op" where
  "clear_grants tid d =
     (Inr (), d\<lparr>dk_member_grants := filter (\<lambda>g. mg_team g \<noteq> tid) (dk_member_grants d),
               dk_group_grants := filter (\<lambda>g. tg_team g \<noteq> tid) (dk_group_grants d)\<rparr>)"

text \<open>Every user is reconciled with the new grants; the count of administrators is only logged.\<close>

definition reconcile_one :: "(string \<Rightarrow> string) \<Rightarrow> timestamp \<Rightarrow> uuid \<Rightarrow> user \<Rightarrow> (desk, unit) op" where
  "reconcile_one lower now tid u = op_bind (reconcile_member lower now tid (usr_id u) (usr_email u)) (\<lambda>_. op_ok ())"

definition reconcile_users :: "(string \<Rightarrow> string) \<Rightarrow> timestamp \<Rightarrow> uuid \<Rightarrow> (desk, unit) op" where
  "reconcile_users lower now tid d =
     op_each (reconcile_one lower now tid) (db_users (dk_db d)) d"

definition sync_team ::
  "(string \<Rightarrow> string) \<Rightarrow> timestamp \<Rightarrow> team_config \<Rightarrow> sync_report \<Rightarrow> (desk, sync_report) op" where
  "sync_team lower now team rep =
     op_bind (upsert_team lower now team rep) (\<lambda>(tid, rep).
     op_bind (clear_grants tid) (\<lambda>_.
     op_bind (op_each (insert_member_grant tid) (email_grants lower team)) (\<lambda>_.
     op_bind (op_each (insert_group_grant tid) (group_grants team)) (\<lambda>_.
     op_bind (reconcile_users lower now tid) (\<lambda>_. op_ok rep)))))"

section \<open>Projects\<close>

definition severity_column :: "project_config \<Rightarrow> string" where
  "severity_column p = (case pc_severity p of None \<Rightarrow> [] | Some s \<Rightarrow> severity_as_str s)"

definition project_changed :: "project \<Rightarrow> uuid \<Rightarrow> int \<Rightarrow> int \<Rightarrow> int \<Rightarrow> project_config \<Rightarrow> desk \<Rightarrow> bool" where
  "project_changed row tid events days interval p d \<longleftrightarrow>
     prj_name row \<noteq> pc_name p \<or> prj_team_id row \<noteq> tid \<or> prj_retention_events row \<noteq> events \<or>
     prj_retention_days row \<noteq> days \<or> prj_webhook_url row \<noteq> pc_webhook_url p \<or>
     dk_intervals d (prj_id row) \<noteq> interval \<or> dk_severities d (prj_id row) \<noteq> severity_column p"

definition set_project :: "uuid \<Rightarrow> (project \<Rightarrow> project) \<Rightarrow> db \<Rightarrow> db" where
  "set_project pid f s = s\<lparr>db_projects := map (\<lambda>x. if prj_id x = pid then f x else x) (db_projects s)\<rparr>"

definition declared_row :: "timestamp \<Rightarrow> uuid \<Rightarrow> int \<Rightarrow> int \<Rightarrow> project_config \<Rightarrow> project \<Rightarrow> project" where
  "declared_row now tid events days p x =
     x\<lparr>prj_name := pc_name p, prj_team_id := tid, prj_retention_events := events, prj_retention_days := days,
       prj_webhook_url := pc_webhook_url p, prj_orphaned_at := None, prj_updated_at := now\<rparr>"

definition update_project_row ::
  "timestamp \<Rightarrow> project \<Rightarrow> uuid \<Rightarrow> int \<Rightarrow> int \<Rightarrow> int \<Rightarrow> project_config \<Rightarrow> sync_report \<Rightarrow> (desk, sync_report) op" where
  "update_project_row now row tid events days interval p rep d =
     (let action = plan_present True (prj_orphaned_at row \<noteq> None) (project_changed row tid events days interval p d) in
      (Inr (record_action ''project'' (pc_slug p) action rep),
       if action \<noteq> ActUnchanged then
         d\<lparr>dk_db := set_project (prj_id row) (declared_row now tid events days p) (dk_db d),
           dk_intervals := (dk_intervals d)(prj_id row := interval),
           dk_severities := (dk_severities d)(prj_id row := severity_column p)\<rparr>
       else d))"

definition insert_project_row ::
  "timestamp \<Rightarrow> uuid \<Rightarrow> int \<Rightarrow> int \<Rightarrow> int \<Rightarrow> project_config \<Rightarrow> sync_report \<Rightarrow> (desk, sync_report) op" where
  "insert_project_row now tid events days interval p rep d =
     (let s = dk_db d; pid = rng_uuid s (rng_pos s); short = rng_short s (rng_pos s);
          dsn = uuid_simple (rng_uuid s (Suc (rng_pos s))); s = s\<lparr>rng_pos := rng_pos s + 2\<rparr> in
      case insert_project
             \<lparr>prj_id = pid, prj_short_id = short, prj_team_id = tid, prj_name = pc_name p, prj_slug = pc_slug p,
              prj_dsn_public_key = dsn, prj_retention_events = events, prj_retention_days = days,
              prj_muted = False, prj_webhook_url = pc_webhook_url p, prj_created_at = now,
              prj_updated_at = now, prj_orphaned_at = None\<rparr> s of
        (Inl e, t) \<Rightarrow> (Inl e, d\<lparr>dk_db := t\<rparr>)
      | (Inr _, t) \<Rightarrow>
          (Inr (record_action ''project'' (pc_slug p) ActCreate rep),
           d\<lparr>dk_db := t, dk_intervals := (dk_intervals d)(pid := interval),
             dk_severities := (dk_severities d)(pid := severity_column p)\<rparr>))"

definition sync_project ::
  "timestamp \<Rightarrow> int \<Rightarrow> project_config \<Rightarrow> sync_report \<Rightarrow> (desk, sync_report) op" where
  "sync_project now retention p rep d =
     (case List.find (\<lambda>x. tm_name x = pc_team p) (db_teams (dk_db d)) of
        None \<Rightarrow> (Inl (Validation (''project '' @ pc_slug p @ '' references an unknown team'')), d)
      | Some team \<Rightarrow>
          (let events = (case pc_retention_events p of Some v \<Rightarrow> v | None \<Rightarrow> retention);
               days = (case pc_retention_days p of Some v \<Rightarrow> v | None \<Rightarrow> 0);
               interval = (case pc_interval p of Some v \<Rightarrow> v | None \<Rightarrow> 0) in
           case (if interval \<noteq> 0 then validate_interval interval else Inr ()) of
             Inl e \<Rightarrow> (Inl e, d)
           | Inr _ \<Rightarrow>
               (case List.find (\<lambda>x. prj_slug x = pc_slug p) (db_projects (dk_db d)) of
                  Some row \<Rightarrow> update_project_row now row (tm_id team) events days interval p rep d
                | None \<Rightarrow> insert_project_row now (tm_id team) events days interval p rep d)))"

section \<open>Pruning\<close>

text \<open>The events of a project go in batches; the last batch deletes nothing.\<close>

lemma sql_limit_subset: "set (sql_limit n xs) \<subseteq> set xs"
  by (auto simp: sql_limit_def dest: in_set_takeD)

function delete_project_events :: "int \<Rightarrow> uuid \<Rightarrow> event list \<Rightarrow> event list" where
  "delete_project_events batch pid es =
     (let gone = sql_limit batch (filter (\<lambda>e. ev_project_id e = pid) es) in
      if gone = [] then es
      else delete_project_events batch pid (filter (\<lambda>e. ev_id e \<notin> set (map ev_id gone)) es))"
  by pat_completeness auto

termination
proof (relation "measure (\<lambda>(batch, pid, es). length es)", goal_cases)
  case (2 batch pid es gone)
  from 2(2) obtain e where "e \<in> set gone" by (cases gone) auto
  moreover have "e \<in> set es"
    using calculation sql_limit_subset [of batch "filter (\<lambda>e. ev_project_id e = pid) es"] 2(1) by auto
  ultimately show ?case by (auto intro: length_filter_less)
qed simp

declare delete_project_events.simps [simp del]

definition mark_project_orphan :: "timestamp \<Rightarrow> project \<Rightarrow> sync_report \<Rightarrow> (desk, sync_report) op" where
  "mark_project_orphan now row rep d =
     (if prj_orphaned_at row \<noteq> None then (Inr rep, d)
      else (Inr (record_action ''project'' (prj_slug row) ActOrphan rep),
            d\<lparr>dk_db := set_project (prj_id row) (\<lambda>x. x\<lparr>prj_orphaned_at := Some now\<rparr>) (dk_db d)\<rparr>))"

definition mark_team_orphan :: "timestamp \<Rightarrow> team \<Rightarrow> sync_report \<Rightarrow> (desk, sync_report) op" where
  "mark_team_orphan now row rep d =
     (if tm_orphaned_at row \<noteq> None then (Inr rep, d)
      else (Inr (record_action ''team'' (tm_name row) ActOrphan rep),
            d\<lparr>dk_db := set_team (tm_id row) (\<lambda>x. x\<lparr>tm_orphaned_at := Some now\<rparr>) (dk_db d)\<rparr>))"

definition prune_project ::
  "int \<Rightarrow> orphan_policy \<Rightarrow> timestamp \<Rightarrow> project \<Rightarrow> sync_report \<Rightarrow> (desk, sync_report) op" where
  "prune_project batch policy now row rep d =
     (case policy of
        Readonly \<Rightarrow> mark_project_orphan now row rep d
      | DeleteOrphan \<Rightarrow>
          (let s = dk_db d; s = s\<lparr>db_events := delete_project_events batch (prj_id row) (db_events s)\<rparr> in
           (Inr (record_action ''project'' (prj_slug row) ActDelete rep),
            d\<lparr>dk_db := delete_project_rows (prj_id row) s\<rparr>)))"

text \<open>Deleting a team takes its grants with it.\<close>

definition delete_team_desk :: "uuid \<Rightarrow> desk \<Rightarrow> desk" where
  "delete_team_desk tid d =
     d\<lparr>dk_db := delete_team_rows tid (dk_db d),
       dk_member_grants := filter (\<lambda>g. mg_team g \<noteq> tid) (dk_member_grants d),
       dk_group_grants := filter (\<lambda>g. tg_team g \<noteq> tid) (dk_group_grants d)\<rparr>"

definition prune_team :: "orphan_policy \<Rightarrow> timestamp \<Rightarrow> team \<Rightarrow> sync_report \<Rightarrow> (desk, sync_report) op" where
  "prune_team policy now row rep d =
     (case policy of
        Readonly \<Rightarrow> mark_team_orphan now row rep d
      | DeleteOrphan \<Rightarrow>
          (let slugs = map prj_slug (filter (\<lambda>p. prj_team_id p = tm_id row) (db_projects (dk_db d))) in
           if slugs \<noteq> [] then
             (Inl (Validation (''team '' @ tm_name row @ '' still owns projects: '' @ str_join '', '' slugs)), d)
           else (Inr (record_action ''team'' (tm_name row) ActDelete rep), delete_team_desk (tm_id row) d)))"

section \<open>The report\<close>

definition local_bindings :: "desk \<Rightarrow> grant_binding list" where
  "local_bindings d =
     concat (map (\<lambda>g. map (\<lambda>u. \<lparr>gb_email = mg_email g, gb_role = mg_role g, gb_user_id = Some (usr_id u),
                              gb_local_account = True\<rparr>)
         (filter (\<lambda>u. to_ascii_lowercase (usr_email u) = mg_email g \<and> usr_auth_provider u = Local)
            (db_users (dk_db d))))
       (dk_member_grants d))"

definition pending_grants :: "desk \<Rightarrow> nat" where
  "pending_grants d =
     length (filter (\<lambda>g. \<not> list_ex (\<lambda>u. to_ascii_lowercase (usr_email u) = mg_email g) (db_users (dk_db d)))
       (dk_member_grants d))"

definition populate_report :: "sync_report \<Rightarrow> (desk, sync_report) op" where
  "populate_report rep d =
     (Inr (rep\<lparr>sr_orphaned_projects :=
             int (length (filter (\<lambda>p. prj_orphaned_at p \<noteq> None) (db_projects (dk_db d)))),
           sr_orphaned_teams := int (length (filter (\<lambda>x. tm_orphaned_at x \<noteq> None) (db_teams (dk_db d)))),
           sr_local_accounts := sr_local_accounts rep @ local_bindings d\<rparr>), d)"

section \<open>The transaction\<close>

definition prune_projects ::
  "int \<Rightarrow> orphan_policy \<Rightarrow> timestamp \<Rightarrow> project_config list \<Rightarrow> sync_report \<Rightarrow> (desk, sync_report) op" where
  "prune_projects batch policy now projects rep d =
     op_fold (prune_project batch policy now)
       (filter (\<lambda>row. prj_slug row \<notin> set (map pc_slug projects)) (db_projects (dk_db d))) rep d"

definition prune_teams ::
  "orphan_policy \<Rightarrow> timestamp \<Rightarrow> team_config list \<Rightarrow> sync_report \<Rightarrow> (desk, sync_report) op" where
  "prune_teams policy now teams rep d =
     op_fold (prune_team policy now)
       (filter (\<lambda>row. tm_name row \<notin> set (map tc_name teams)) (db_teams (dk_db d))) rep d"

definition prune_and_sync_projects ::
  "int \<Rightarrow> config_file \<Rightarrow> management_settings \<Rightarrow> int \<Rightarrow> timestamp \<Rightarrow> sync_report \<Rightarrow> (desk, sync_report) op" where
  "prune_and_sync_projects batch desired settings retention now rep =
     op_bind
       (case cf_projects desired of
          None \<Rightarrow> op_ok rep
        | Some projects \<Rightarrow>
            op_bind (op_fold (sync_project now retention) projects rep)
              (prune_projects batch (ms_project_orphan_policy settings) now projects))
       (\<lambda>rep. case cf_teams desired of
          None \<Rightarrow> op_ok rep
        | Some teams \<Rightarrow>
            op_bind (prune_teams (ms_team_orphan_policy settings) now teams rep)
              (\<lambda>rep d. (Inr (rep\<lparr>sr_pending_grants := pending_grants d,
                                sr_local_grants := length (local_bindings d)\<rparr>), d)))"

definition team_names :: "desk \<Rightarrow> string list" where
  "team_names d = map tm_name (db_teams (dk_db d))"

text \<open>The join of projects and teams: a project's slug with the name of its team.\<close>

definition owned_projects :: "desk \<Rightarrow> (string \<times> string) list" where
  "owned_projects d =
     concat (map (\<lambda>p. map (\<lambda>x. (prj_slug p, tm_name x))
         (filter (\<lambda>x. tm_id x = prj_team_id p) (db_teams (dk_db d))))
       (db_projects (dk_db d)))"

definition store_notifications ::
  "(string \<Rightarrow> base_url option) \<Rightarrow> config_file \<Rightarrow> management_settings \<Rightarrow> (desk, unit) op" where
  "store_notifications url_parse desired settings d =
     (case (if ms_notification_source settings = Yaml then cf_notifications desired else None) of
        None \<Rightarrow> (Inr (), d)
      | Some n \<Rightarrow>
          (case validate_stored url_parse n of
             Inl e \<Rightarrow> (Inl e, d)
           | Inr _ \<Rightarrow> (Inr (), d\<lparr>dk_config := n\<rparr>)))"

definition start_report :: "timestamp \<Rightarrow> config_file \<Rightarrow> management_settings \<Rightarrow> sync_report" where
  "start_report now desired settings =
     empty_report\<lparr>sr_loaded := (Yaml \<in> {ms_project_source settings, ms_team_source settings,
                                        ms_notification_source settings}),
       sr_synced_at := Some now, sr_projects_in_file := length (opt_list (cf_projects desired)),
       sr_teams_in_file := length (opt_list (cf_teams desired))\<rparr>"

text \<open>A kind managed by the UI has no orphans.\<close>

definition adopt_teams :: "management_settings \<Rightarrow> (desk, unit) op" where
  "adopt_teams settings d =
     (Inr (), if ms_team_source settings = Ui then
        d\<lparr>dk_db := dk_db d\<lparr>db_teams := map (\<lambda>x. x\<lparr>tm_orphaned_at := None\<rparr>) (db_teams (dk_db d))\<rparr>\<rparr> else d)"

definition adopt_projects :: "management_settings \<Rightarrow> (desk, unit) op" where
  "adopt_projects settings d =
     (Inr (), if ms_project_source settings = Ui then
        d\<lparr>dk_db := dk_db d\<lparr>db_projects := map (\<lambda>x. x\<lparr>prj_orphaned_at := None\<rparr>) (db_projects (dk_db d))\<rparr>\<rparr> else d)"

record sync_env =
  se_url :: "string \<Rightarrow> base_url option"
  se_lower :: "string \<Rightarrow> string"
  se_batch :: int

definition apply_body ::
  "sync_env \<Rightarrow> config_file \<Rightarrow> management_settings \<Rightarrow> int \<Rightarrow> timestamp \<Rightarrow> (desk, sync_report) op" where
  "apply_body se desired settings retention now =
     op_bind (\<lambda>d. (validate_plan desired settings (team_names d) (owned_projects d), d)) (\<lambda>_.
     op_bind (store_notifications (se_url se) desired settings) (\<lambda>_.
     op_bind (adopt_teams settings) (\<lambda>_.
     op_bind (op_fold (sync_team (se_lower se) now) (opt_list (cf_teams desired)) (start_report now desired settings)) (\<lambda>rep.
     op_bind (adopt_projects settings) (\<lambda>_.
     op_bind (prune_and_sync_projects (se_batch se) desired settings retention now rep)
       populate_report)))))"

definition apply_once ::
  "sync_env \<Rightarrow> config_file \<Rightarrow> management_settings \<Rightarrow> int \<Rightarrow> timestamp \<Rightarrow> (desk, sync_report) op" where
  "apply_once se desired settings retention now =
     desk_transaction (apply_body se desired settings retention now)"

definition apply_with_retry ::
  "(nat \<Rightarrow> desk \<Rightarrow> desk) \<Rightarrow> write_policy \<Rightarrow> sync_env \<Rightarrow> config_file \<Rightarrow> management_settings \<Rightarrow> int \<Rightarrow> timestamp \<Rightarrow>
     (desk, sync_report) op" where
  "apply_with_retry env policy se desired settings retention now =
     retry_write env policy ''synchronize configuration'' (apply_once se desired settings retention now)"

section \<open>Grants of a team and of a user\<close>

record membership_source =
  src_user :: uuid
  src_source :: string

record team_grant_view =
  gv_members :: "grant_binding list"
  gv_groups :: "group_grant list"
  gv_sources :: "membership_source list"

text \<open>A left join: a grant no user answers to is listed once, without a user.\<close>

definition grant_rows :: "uuid \<Rightarrow> desk \<Rightarrow> (member_grant \<times> user option) list" where
  "grant_rows tid d =
     concat (map (\<lambda>g. case filter (\<lambda>u. to_ascii_lowercase (usr_email u) = mg_email g) (db_users (dk_db d)) of
                        [] \<Rightarrow> [(g, None)] | us \<Rightarrow> map (\<lambda>u. (g, Some u)) us)
       (filter (\<lambda>g. mg_team g = tid) (dk_member_grants d)))"

definition team_grants_view :: "uuid \<Rightarrow> desk \<Rightarrow> team_grant_view" where
  "team_grants_view tid d =
     \<lparr>gv_members = map (\<lambda>(g, u). \<lparr>gb_email = mg_email g, gb_role = mg_role g, gb_user_id = map_option usr_id u,
         gb_local_account = (map_option usr_auth_provider u = Some Local)\<rparr>) (grant_rows tid d),
      gv_groups = map (\<lambda>g. \<lparr>gg_group = tg_group g, gg_role = tg_role g\<rparr>)
         (filter (\<lambda>g. tg_team g = tid) (dk_group_grants d)),
      gv_sources =
         map (\<lambda>(g, u). \<lparr>src_user = usr_id (the u), src_source = ''email''\<rparr>)
           (filter (\<lambda>(g, u). u \<noteq> None) (grant_rows tid d)) @
         concat (map (\<lambda>g. map (\<lambda>u. \<lparr>src_user = sg_user u, src_source = tg_group g\<rparr>)
             (filter (\<lambda>u. sg_group u = tg_group g) (dk_sso_groups d)))
           (filter (\<lambda>g. tg_team g = tid) (dk_group_grants d)))\<rparr>"

text \<open>The three reads run outside a transaction.\<close>

definition read_only :: "(desk, unit) op" where
  "read_only = desk_transaction (\<lambda>d. (Inr (), d))"

definition team_grants :: "uuid \<Rightarrow> (desk, team_grant_view) op" where
  "team_grants tid =
     op_bind read_only (\<lambda>_. op_bind read_only (\<lambda>_. op_bind read_only (\<lambda>_ d. (Inr (team_grants_view tid d), d))))"

definition replace_sso_groups :: "timestamp \<Rightarrow> uuid \<Rightarrow> string list \<Rightarrow> (desk, unit) op" where
  "replace_sso_groups now uid groups d =
     (if groups \<noteq> [] \<and> uid \<notin> set (user_ids (dk_db d)) then (Inl foreign_key_failed, d)
      else (Inr (), d\<lparr>dk_sso_groups := filter (\<lambda>g. sg_user g \<noteq> uid) (dk_sso_groups d) @
        map (\<lambda>g. \<lparr>sg_user = uid, sg_group = g, sg_seen_at = now\<rparr>) (remdups (sort groups))\<rparr>))"

definition reconcile_user_body ::
  "(string \<Rightarrow> string) \<Rightarrow> timestamp \<Rightarrow> uuid \<Rightarrow> string list \<Rightarrow> (desk, bool) op" where
  "reconcile_user_body lower now uid groups =
     op_bind (replace_sso_groups now uid groups) (\<lambda>_ d.
       case List.find (\<lambda>u. usr_id u = uid) (db_users (dk_db d)) of
         None \<Rightarrow> (Inl (Db RowNotFound), d)
       | Some u \<Rightarrow>
           op_fold (\<lambda>x granted. op_bind (reconcile_member lower now (tm_id x) uid (usr_email u)) (\<lambda>b. op_ok (granted \<or> b)))
             (filter (\<lambda>x. tm_orphaned_at x = None) (db_teams (dk_db d))) False d)"

definition reconcile_user_grants ::
  "(nat \<Rightarrow> desk \<Rightarrow> desk) \<Rightarrow> write_policy \<Rightarrow> (string \<Rightarrow> string) \<Rightarrow> timestamp \<Rightarrow> uuid \<Rightarrow> string list \<Rightarrow> (desk, bool) op" where
  "reconcile_user_grants env policy lower now uid groups =
     retry_write env policy ''reconcile SSO grants''
       (desk_transaction (reconcile_user_body lower now uid groups))"

end
