(* ===== verification/ConfigSyncFacts.thy ===== *)
theory ConfigSyncFacts
  imports ConfigSync
begin

text \<open>
  What a synchronisation achieves: a successful run leaves the database as the file declares it, and a
  plan that was accepted is never refused halfway.
\<close>

section \<open>Loops\<close>

lemma op_fold_inv:
  assumes "\<And>x acc s v t. x \<in> A \<Longrightarrow> I s \<Longrightarrow> f x acc s = (Inr v, t) \<Longrightarrow> I t"
    and "op_fold f xs acc s = (Inr v, t)" "set xs \<subseteq> A" "I s"
  shows "I t"
  using assms(2-)
proof (induction xs arbitrary: acc s)
  case (Cons x xs)
  from Cons.prems(1) obtain a u where u: "f x acc s = (Inr a, u)" "op_fold f xs a u = (Inr v, t)"
    by (auto simp: op_bind_Inr)
  have "I u" by (rule assms(1) [OF _ Cons.prems(3) u(1)]) (use Cons.prems(2) in simp)
  with Cons.IH [OF u(2)] Cons.prems(2) show ?case by simp
qed simp

text \<open>Each step of a loop establishes its own property and keeps those of the other keys.\<close>

lemma op_fold_each:
  assumes step: "\<And>x acc s v t. x \<in> A \<Longrightarrow> I s \<Longrightarrow> f x acc s = (Inr v, t) \<Longrightarrow> I t \<and> Q x t"
    and keep: "\<And>x y acc s v t. x \<in> A \<Longrightarrow> y \<in> A \<Longrightarrow> key y \<noteq> key x \<Longrightarrow> I s \<Longrightarrow> Q y s \<Longrightarrow>
      f x acc s = (Inr v, t) \<Longrightarrow> Q y t"
    and "op_fold f xs acc s = (Inr v, t)" "set xs \<subseteq> A" "distinct (map key xs)" "I s"
  shows "I t \<and> (\<forall>x \<in> set xs. Q x t)"
  using assms(3-)
proof (induction xs arbitrary: acc s)
  case (Cons x xs)
  from Cons.prems(1) obtain a u where u: "f x acc s = (Inr a, u)" "op_fold f xs a u = (Inr v, t)"
    by (auto simp: op_bind_Inr)
  have x: "x \<in> A" "key x \<notin> key ` set xs" "set xs \<subseteq> A" "distinct (map key xs)" using Cons.prems by simp_all
  have Q: "I u" "Q x u" using step [OF x(1) Cons.prems(4) u(1)] by simp_all
  have "I t \<and> (\<forall>x \<in> set xs. Q x t)" by (rule Cons.IH [OF u(2) x(3,4) Q(1)])
  moreover have "I t \<and> Q x t"
  proof (rule op_fold_inv [where I = "\<lambda>s. I s \<and> Q x s" and A = "set xs", OF _ u(2)])
    show "I t \<and> Q x t" if "y \<in> set xs" "I s \<and> Q x s" "f y acc s = (Inr v, t)" for y acc s v t
      using that x step [of y s acc v t] keep [of y x s acc v t] by (metis imageI subsetD)
  qed (use Q in simp_all)
  ultimately show ?case by simp
qed simp

text \<open>No step of a loop fails in a given way.\<close>

lemma op_fold_no_error:
  assumes "\<And>x acc s v t. x \<in> A \<Longrightarrow> I s \<Longrightarrow> f x acc s = (Inr v, t) \<Longrightarrow> I t"
    and "\<And>x acc s e t. x \<in> A \<Longrightarrow> I s \<Longrightarrow> f x acc s = (Inl e, t) \<Longrightarrow> E e"
    and "op_fold f xs acc s = (Inl e, t)" "set xs \<subseteq> A" "I s"
  shows "E e"
  using assms(3-)
proof (induction xs arbitrary: acc s)
  case (Cons x xs)
  have x: "x \<in> A" "set xs \<subseteq> A" using Cons.prems by simp_all
  from Cons.prems(1) [unfolded op_fold.simps] show ?case
  proof (cases rule: op_bind_cases)
    case (1 e')
    with assms(2) [OF x(1) Cons.prems(3)] show ?thesis by simp
  next
    case (2 a u)
    from Cons.IH [OF 2(2) x(2)] assms(1) [OF x(1) Cons.prems(3) 2(1)] show ?thesis .
  qed
qed simp

section \<open>Memberships\<close>

definition role_in :: "team_member list \<Rightarrow> uuid \<Rightarrow> uuid \<Rightarrow> team_role option" where
  "role_in ms tid uid = map_option mb_role (List.find (\<lambda>m. mb_team_id m = tid \<and> mb_user_id m = uid) ms)"

lemma role_in_set_role:
  "role_in (set_role_rows tid uid f ms) tid' uid' =
     (if tid' = tid \<and> uid' = uid then map_option f (role_in ms tid uid) else role_in ms tid' uid')"
  by (induction ms) (auto simp: role_in_def set_role_rows_def)

lemma role_in_remove:
  "role_in (filter (\<lambda>m. \<not> (mb_team_id m = tid \<and> mb_user_id m = uid)) ms) tid' uid' =
     (if tid' = tid \<and> uid' = uid then None else role_in ms tid' uid')"
  by (induction ms) (auto simp: role_in_def)

lemmas role_in_removed = role_in_remove [simplified]

lemma role_in_append:
  "role_in (ms @ [m]) tid uid =
     (case role_in ms tid uid of
        Some r \<Rightarrow> Some r
      | None \<Rightarrow> if mb_team_id m = tid \<and> mb_user_id m = uid then Some (mb_role m) else None)"
  by (induction ms) (auto simp: role_in_def)

lemma role_in_None: "role_in ms tid uid = None \<longleftrightarrow> \<not> list_ex (\<lambda>m. mb_team_id m = tid \<and> mb_user_id m = uid) ms"
  by (auto simp: role_in_def find_None_iff list_ex_iff)

text \<open>The adapter touches one membership of the database and nothing else.\<close>

lemma reconcile_effect:
  assumes "reconcile_member lower now tid uid email d = (Inr b, t)"
  obtains ms where "t = d\<lparr>dk_db := dk_db d\<lparr>db_members := ms\<rparr>\<rparr>"
    and "\<forall>tid' uid'. role_in ms tid' uid' =
      (if tid' = tid \<and> uid' = uid then reconcile_memberships (granted_roles lower tid uid email d)
       else role_in (db_members (dk_db d)) tid' uid')"
proof (cases "reconcile_memberships (granted_roles lower tid uid email d)")
  case None
  with assms have "t = d\<lparr>dk_db := dk_db d\<lparr>db_members :=
      filter (\<lambda>m. \<not> (mb_team_id m = tid \<and> mb_user_id m = uid)) (db_members (dk_db d))\<rparr>\<rparr>"
    by (simp add: reconcile_member_def)
  then show thesis by (rule that) (simp add: role_in_removed None)
next
  case (Some role)
  let ?m = "\<lparr>mb_team_id = tid, mb_user_id = uid, mb_role = role, mb_created_at = now\<rparr>"
  let ?old = "db_members (dk_db d)"
  let ?here = "list_ex (\<lambda>x. mb_team_id x = tid \<and> mb_user_id x = uid) ?old"
  have t: "t = d\<lparr>dk_db := dk_db d\<lparr>db_members :=
      (if ?here then set_role_rows tid uid (\<lambda>_. role) ?old else ?old @ [?m])\<rparr>\<rparr>"
    using assms Some
    by (auto simp: reconcile_member_def op_bind_def in_db_def upsert_member_def split: if_splits)
  show thesis
  proof (rule that [OF t], cases ?here)
    case True
    then have "role_in ?old tid uid \<noteq> None" by (simp add: role_in_None)
    with True Some show "\<forall>tid' uid'. role_in (if ?here then set_role_rows tid uid (\<lambda>_. role) ?old else ?old @ [?m]) tid' uid' =
        (if tid' = tid \<and> uid' = uid then reconcile_memberships (granted_roles lower tid uid email d)
         else role_in ?old tid' uid')"
      by (auto simp: role_in_set_role)
  next
    case False
    then have "role_in ?old tid uid = None" by (simp add: role_in_None)
    with False Some show "\<forall>tid' uid'. role_in (if ?here then set_role_rows tid uid (\<lambda>_. role) ?old else ?old @ [?m]) tid' uid' =
        (if tid' = tid \<and> uid' = uid then reconcile_memberships (granted_roles lower tid uid email d)
         else role_in ?old tid' uid')"
      by (auto simp: role_in_append split: option.splits)
  qed
qed

lemma granted_roles_members [simp]:
  "granted_roles lower tid uid email (d\<lparr>dk_db := s\<rparr>) = granted_roles lower tid uid email d"
  by (simp add: granted_roles_def)

lemma reconcile_one_Inr:
  "reconcile_one lower now tid u d = (Inr v, t) \<longleftrightarrow>
     (\<exists>b. reconcile_member lower now tid (usr_id u) (usr_email u) d = (Inr b, t))"
  by (auto simp: reconcile_one_def op_bind_Inr)

lemma reconcile_each_effect:
  assumes "op_each (reconcile_one lower now tid) us d = (Inr (), t)"
    and "distinct (map usr_id us)"
  shows "\<exists>ms. t = d\<lparr>dk_db := dk_db d\<lparr>db_members := ms\<rparr>\<rparr> \<and>
    (\<forall>u \<in> set us. role_in ms tid (usr_id u) =
       reconcile_memberships (granted_roles lower tid (usr_id u) (usr_email u) d)) \<and>
    (\<forall>tid' uid'. tid' \<noteq> tid \<or> uid' \<notin> usr_id ` set us \<longrightarrow>
       role_in ms tid' uid' = role_in (db_members (dk_db d)) tid' uid')"
  using assms
proof (induction us arbitrary: d)
  case Nil
  then show ?case by (intro exI [of _ "db_members (dk_db d)"]) simp
next
  case (Cons u us)
  from Cons.prems(1) obtain b d1 where d1: "reconcile_member lower now tid (usr_id u) (usr_email u) d = (Inr b, d1)"
    and rest: "op_each (reconcile_one lower now tid) us d1 = (Inr (), t)"
    by (auto simp: op_bind_Inr reconcile_one_Inr)
  from d1 obtain ms1 where ms1: "d1 = d\<lparr>dk_db := dk_db d\<lparr>db_members := ms1\<rparr>\<rparr>"
    "\<forall>tid' uid'. role_in ms1 tid' uid' =
      (if tid' = tid \<and> uid' = usr_id u then reconcile_memberships (granted_roles lower tid (usr_id u) (usr_email u) d)
       else role_in (db_members (dk_db d)) tid' uid')"
    by (rule reconcile_effect)
  from Cons.IH [OF rest] Cons.prems(2) obtain ms where
    ms: "t = d1\<lparr>dk_db := dk_db d1\<lparr>db_members := ms\<rparr>\<rparr>"
    "\<forall>u \<in> set us. role_in ms tid (usr_id u) =
       reconcile_memberships (granted_roles lower tid (usr_id u) (usr_email u) d1)"
    "\<forall>tid' uid'. tid' \<noteq> tid \<or> uid' \<notin> usr_id ` set us \<longrightarrow>
       role_in ms tid' uid' = role_in (db_members (dk_db d1)) tid' uid'" by auto
  have "role_in ms tid (usr_id u) = reconcile_memberships (granted_roles lower tid (usr_id u) (usr_email u) d)"
    using ms(3) ms1 Cons.prems(2) by simp
  with ms ms1 show ?case by (intro exI [of _ ms]) auto
qed

section \<open>Teams\<close>

lemma find_map_same: "(\<And>x. P (g x) = P x) \<Longrightarrow> List.find P (map g xs) = map_option g (List.find P xs)"
  by (induction xs) auto

lemma find_snoc: "List.find P (xs @ [x]) = (case List.find P xs of Some y \<Rightarrow> Some y | None \<Rightarrow> if P x then Some x else None)"
  by (induction xs) auto

text \<open>Rows found by a key, in a table whose ids and keys are unique.\<close>

definition named :: "('r \<Rightarrow> string) \<Rightarrow> 'r list \<Rightarrow> string \<Rightarrow> 'r option" where
  "named key rows k = List.find (\<lambda>x. key x = k) rows"

definition keyed_by :: "('r \<Rightarrow> uuid) \<Rightarrow> ('r \<Rightarrow> string) \<Rightarrow> 'r list \<Rightarrow> bool" where
  "keyed_by idf key rows \<longleftrightarrow> distinct (map idf rows) \<and> distinct (map key rows)"

lemma named_mem: "named key rows k = Some x \<Longrightarrow> x \<in> set rows \<and> key x = k"
  by (auto simp: named_def find_Some_iff)

lemma named_key: "named key rows k = Some x \<Longrightarrow> k \<in> key ` set rows"
  using named_mem [of key rows k x] by blast

lemma named_Some: "keyed_by idf key rows \<Longrightarrow> x \<in> set rows \<Longrightarrow> named key rows (key x) = Some x"
  by (induction rows) (auto simp: keyed_by_def named_def)

lemma named_None: "named key rows k = None \<longleftrightarrow> k \<notin> key ` set rows"
  by (auto simp: named_def find_None_iff)

lemma named_apart:
  assumes "keyed_by idf key rows" "named key rows a = Some x" "named key rows b = Some y" "a \<noteq> b"
  shows "idf x \<noteq> idf y"
  using assms named_mem [OF assms(2)] named_mem [OF assms(3)]
  by (auto simp: keyed_by_def dest: distinct_map_inj)

text \<open>An update of one row, which keeps its id and key; and a new row.\<close>

lemma update_row:
  assumes "keyed_by idf key rows" "named key rows k = Some row" "\<And>x. idf (f x) = idf x \<and> key (f x) = key x"
  defines "us \<equiv> map (\<lambda>x. if idf x = idf row then f x else x) rows"
  shows "keyed_by idf key us" "named key us k = Some (f row)"
    "k' \<noteq> k \<Longrightarrow> named key us k' = named key rows k'" "map idf us = map idf rows" "map key us = map key rows"
proof -
  let ?g = "\<lambda>x. if idf x = idf row then f x else x"
  have g: "key (?g x) = key x" "idf (?g x) = idf x" for x using assms(3) by auto
  then show "map idf us = map idf rows" "map key us = map key rows" by (simp_all add: us_def)
  with assms(1) show "keyed_by idf key us" by (simp add: keyed_by_def)
  have named: "named key us n = map_option ?g (named key rows n)" for n
    unfolding us_def named_def by (rule find_map_same) (simp add: g)
  then show "named key us k = Some (f row)" using assms(2) by simp
  assume "k' \<noteq> k"
  then have "idf x \<noteq> idf row" if "named key rows k' = Some x" for x
    using named_apart [OF assms(1) that assms(2)] by simp
  then show "named key us k' = named key rows k'"
    unfolding named by (cases "named key rows k'") auto
qed

lemma new_row:
  assumes "keyed_by idf key rows" "named key rows (key row) = None" "idf row \<notin> set (map idf rows)"
  shows "keyed_by idf key (rows @ [row])" "named key (rows @ [row]) (key row) = Some row"
    "k \<noteq> key row \<Longrightarrow> named key (rows @ [row]) k = named key rows k"
  using assms by (auto simp: keyed_by_def named_None, auto simp: named_def find_snoc split: option.split)

abbreviation team_named :: "team list \<Rightarrow> string \<Rightarrow> team option" where
  "team_named \<equiv> named tm_name"

abbreviation keyed :: "team list \<Rightarrow> bool" where
  "keyed \<equiv> keyed_by tm_id tm_name"

lemma upsert_team_effect:
  assumes "upsert_team lower now team rep d = (Inr (tid, rep'), t)" "keyed (db_teams (dk_db d))"
  shows "\<exists>ts n x. t = d\<lparr>dk_db := dk_db d\<lparr>db_teams := ts, rng_pos := n\<rparr>\<rparr> \<and> keyed ts \<and>
    team_named ts (tc_name team) = Some x \<and> tm_id x = tid \<and> tm_orphaned_at x = None \<and>
    (\<forall>name. name \<noteq> tc_name team \<longrightarrow> team_named ts name = team_named (db_teams (dk_db d)) name) \<and>
    set (team_ids (dk_db d)) \<subseteq> set (map tm_id ts) \<and>
    set (map tm_name ts) = insert (tc_name team) (set (map tm_name (db_teams (dk_db d))))"
proof (cases "team_named (db_teams (dk_db d)) (tc_name team)")
  case (Some row)
  let ?old = "db_teams (dk_db d)"
  have mem: "row \<in> set ?old" "tm_name row = tc_name team" using named_mem [OF Some] by simp_all
  have row: "List.find (\<lambda>x. tm_name x = tc_name team) ?old = Some row" using Some by (simp add: named_def)
  have ex: "\<exists>f. t = d\<lparr>dk_db := set_team (tm_id row) f (dk_db d)\<rparr> \<and> tid = tm_id row \<and> tm_orphaned_at (f row) = None \<and>
      (\<forall>x. tm_id (f x) = tm_id x \<and> tm_name (f x) = tm_name x)"
  proof (cases "tm_orphaned_at row \<noteq> None \<or> grants_changed lower team (tm_id row) d")
    case True
    then show ?thesis using assms(1) unfolding upsert_team_def row by (fastforce split: if_splits)
  next
    case False
    have "map (\<lambda>x. if tm_id x = tm_id row then id x else x) ?old = ?old" by (simp add: map_idI)
    then have "set_team (tm_id row) id (dk_db d) = dk_db d" by (simp add: set_team_def)
    with False assms(1) show ?thesis
      unfolding upsert_team_def row by (intro exI [of _ id]) simp
  qed
  then obtain f where t: "t = d\<lparr>dk_db := set_team (tm_id row) f (dk_db d)\<rparr>" and "tid = tm_id row"
    and f: "tm_orphaned_at (f row) = None" "\<And>x. tm_id (f x) = tm_id x \<and> tm_name (f x) = tm_name x" by blast
  let ?ts = "map (\<lambda>x. if tm_id x = tm_id row then f x else x) ?old"
  note upd = update_row [of tm_id tm_name ?old "tc_name team" row f, OF assms(2) Some f(2)]
  have "t = d\<lparr>dk_db := dk_db d\<lparr>db_teams := ?ts, rng_pos := rng_pos (dk_db d)\<rparr>\<rparr>"
    by (simp add: t set_team_def)
  moreover have "map tm_name ?ts = map tm_name ?old" using f(2) by auto
  ultimately show ?thesis
    using upd f \<open>tid = tm_id row\<close> imageI [OF mem(1), of tm_name, unfolded mem(2)]
    by (intro exI [of _ ?ts] exI [of _ "rng_pos (dk_db d)"] exI [of _ "f row"]) auto
next
  case None
  let ?old = "db_teams (dk_db d)" and ?n = "rng_pos (dk_db d)"
  let ?row = "\<lparr>tm_id = tid, tm_short_id = rng_short (dk_db d) ?n, tm_name = tc_name team, tm_created_at = now,
    tm_updated_at = now, tm_orphaned_at = None\<rparr>"
  have none: "List.find (\<lambda>x. tm_name x = tc_name team) ?old = None" using None by (simp add: named_def)
  then have fresh: "tc_name team \<notin> set (map tm_name ?old)" by (auto simp: find_None_iff)
  from assms(1) fresh have t: "t = d\<lparr>dk_db := dk_db d\<lparr>db_teams := ?old @ [?row], rng_pos := Suc ?n\<rparr>\<rparr>"
    and tid: "tid \<notin> set (map tm_id ?old)"
    unfolding upsert_team_def none
    by (auto simp: op_bind_def in_db_def insert_team_def Let_def split: if_splits)
  note add = new_row [of tm_id tm_name ?old ?row, OF assms(2)]
  show ?thesis using t add None tid
    by (intro exI [of _ "?old @ [?row]"] exI [of _ "Suc ?n"] exI [of _ ?row]) auto
qed

lemma insert_member_grants:
  "op_each (insert_member_grant tid) gs d = (Inr v, t) \<Longrightarrow>
     t = d\<lparr>dk_member_grants := dk_member_grants d @
       map (\<lambda>g. \<lparr>mg_team = tid, mg_email = fst g, mg_role = snd g\<rparr>) gs\<rparr>"
proof (induction gs arbitrary: d)
  case (Cons g gs)
  then obtain u where u: "insert_member_grant tid g d = (Inr (), u)" "op_each (insert_member_grant tid) gs u = (Inr v, t)"
    by (auto simp: op_bind_Inr)
  from Cons.IH [OF u(2)] u(1) show ?case by (auto simp: insert_member_grant_def split: if_splits)
qed simp

lemma insert_group_grants:
  "op_each (insert_group_grant tid) gs d = (Inr v, t) \<Longrightarrow>
     t = d\<lparr>dk_group_grants := dk_group_grants d @
       map (\<lambda>g. \<lparr>tg_team = tid, tg_group = fst g, tg_role = snd g\<rparr>) gs\<rparr>"
proof (induction gs arbitrary: d)
  case (Cons g gs)
  then obtain u where u: "insert_group_grant tid g d = (Inr (), u)" "op_each (insert_group_grant tid) gs u = (Inr v, t)"
    by (auto simp: op_bind_Inr)
  from Cons.IH [OF u(2)] u(1) show ?case by (auto simp: insert_group_grant_def split: if_splits)
qed simp

text \<open>What the file grants a user in a team: by address, and by the groups the identity provider named.\<close>

definition file_roles :: "(string \<Rightarrow> string) \<Rightarrow> team_config \<Rightarrow> user \<Rightarrow> sso_group list \<Rightarrow> team_role list" where
  "file_roles lower team u groups =
     map snd (filter (\<lambda>g. fst g = lower (usr_email u)) (email_grants lower team)) @
     concat (map (\<lambda>g. map (\<lambda>_. snd g) (filter (\<lambda>s. sg_group s = fst g \<and> sg_user s = usr_id u) groups))
       (group_grants team))"

lemma granted_is_declared:
  assumes "dk_member_grants d = filter (\<lambda>g. mg_team g \<noteq> tid) old @
      map (\<lambda>g. \<lparr>mg_team = tid, mg_email = fst g, mg_role = snd g\<rparr>) (email_grants lower team)"
    and "dk_group_grants d = filter (\<lambda>g. tg_team g \<noteq> tid) old' @
      map (\<lambda>g. \<lparr>tg_team = tid, tg_group = fst g, tg_role = snd g\<rparr>) (group_grants team)"
  shows "granted_roles lower tid (usr_id u) (usr_email u) d = file_roles lower team u (dk_sso_groups d)"
proof -
  have none: "filter (\<lambda>g. mg_team g = tid \<and> mg_email g = a) (filter (\<lambda>g. mg_team g \<noteq> tid) old) = []" for a
    by (auto simp: filter_empty_conv)
  have none': "filter (\<lambda>g. tg_team g = tid) (filter (\<lambda>g. tg_team g \<noteq> tid) old') = []"
    by (auto simp: filter_empty_conv)
  show ?thesis
    unfolding granted_roles_def file_roles_def assms filter_append none none'
    by (simp add: filter_map comp_def)
qed

text \<open>A declared team: not an orphan, and each user's role in it is what the file grants.\<close>

definition team_synced :: "(string \<Rightarrow> string) \<Rightarrow> team_config \<Rightarrow> desk \<Rightarrow> bool" where
  "team_synced lower team d \<longleftrightarrow>
     (\<exists>x. team_named (db_teams (dk_db d)) (tc_name team) = Some x \<and> tm_orphaned_at x = None \<and>
       (\<forall>u \<in> set (db_users (dk_db d)). role_in (db_members (dk_db d)) (tm_id x) (usr_id u) =
          reconcile_memberships (file_roles lower team u (dk_sso_groups d))))"

text \<open>What a step of the teams' loop may touch.\<close>

definition team_frame :: "desk \<Rightarrow> desk \<Rightarrow> bool" where
  "team_frame d t \<longleftrightarrow>
     db_users (dk_db t) = db_users (dk_db d) \<and> db_projects (dk_db t) = db_projects (dk_db d) \<and>
     dk_sso_groups t = dk_sso_groups d \<and> set (team_ids (dk_db d)) \<subseteq> set (team_ids (dk_db t))"

lemma sync_team_effect:
  assumes "sync_team lower now team rep d = (Inr rep', t)" "keyed (db_teams (dk_db d))"
    and "distinct (user_ids (dk_db d))"
  shows "team_synced lower team t" "keyed (db_teams (dk_db t))" "team_frame d t"
    "set (team_names t) = insert (tc_name team) (set (team_names d))"
    "tc_name other \<noteq> tc_name team \<Longrightarrow> team_synced lower other d \<Longrightarrow> team_synced lower other t"
    "name \<noteq> tc_name team \<Longrightarrow> team_named (db_teams (dk_db t)) name = team_named (db_teams (dk_db d)) name"
proof -
  let ?grants = "\<lambda>tid d. d\<lparr>dk_member_grants := filter (\<lambda>g. mg_team g \<noteq> tid) (dk_member_grants d) @
        map (\<lambda>g. \<lparr>mg_team = tid, mg_email = fst g, mg_role = snd g\<rparr>) (email_grants lower team),
      dk_group_grants := filter (\<lambda>g. tg_team g \<noteq> tid) (dk_group_grants d) @
        map (\<lambda>g. \<lparr>tg_team = tid, tg_group = fst g, tg_role = snd g\<rparr>) (group_grants team)\<rparr>"
  from assms(1) obtain tid rep'' d1 d2 where d1: "upsert_team lower now team rep d = (Inr (tid, rep''), d1)"
    and d2: "d2 = ?grants tid d1" and users: "reconcile_users lower now tid d2 = (Inr (), t)"
    unfolding sync_team_def
    by (force simp: op_bind_Inr clear_grants_def dest!: insert_member_grants insert_group_grants)
  from upsert_team_effect [OF d1 assms(2)] obtain ts n x where
    up: "d1 = d\<lparr>dk_db := dk_db d\<lparr>db_teams := ts, rng_pos := n\<rparr>\<rparr>" "keyed ts"
    "team_named ts (tc_name team) = Some x" "tm_id x = tid" "tm_orphaned_at x = None"
    "\<forall>name. name \<noteq> tc_name team \<longrightarrow> team_named ts name = team_named (db_teams (dk_db d)) name"
    "set (team_ids (dk_db d)) \<subseteq> set (map tm_id ts)"
    "set (map tm_name ts) = insert (tc_name team) (set (map tm_name (db_teams (dk_db d))))" by blast
  have us: "db_users (dk_db d2) = db_users (dk_db d)" by (simp add: d2 up(1))
  from reconcile_each_effect [OF users [unfolded reconcile_users_def]] assms(3) us
  obtain ms where ms: "t = d2\<lparr>dk_db := dk_db d2\<lparr>db_members := ms\<rparr>\<rparr>"
    "\<forall>u \<in> set (db_users (dk_db d2)). role_in ms tid (usr_id u) =
       reconcile_memberships (granted_roles lower tid (usr_id u) (usr_email u) d2)"
    "\<forall>tid' uid'. tid' \<noteq> tid \<or> uid' \<notin> usr_id ` set (db_users (dk_db d2)) \<longrightarrow>
       role_in ms tid' uid' = role_in (db_members (dk_db d2)) tid' uid'" by auto
  have granted: "granted_roles lower tid (usr_id u) (usr_email u) d2 = file_roles lower team u (dk_sso_groups d)" for u
    using granted_is_declared [of d2 tid "dk_member_grants d1" lower team "dk_group_grants d1" u]
    by (simp add: d2 up(1))
  have tb: "db_teams (dk_db t) = ts" "db_members (dk_db t) = ms" "db_users (dk_db t) = db_users (dk_db d)"
    "db_projects (dk_db t) = db_projects (dk_db d)" "dk_sso_groups t = dk_sso_groups d"
    "db_members (dk_db d2) = db_members (dk_db d)"
    by (simp_all add: ms(1) d2 up(1))
  show "team_synced lower team t"
    using up(3,4,5) ms(2) us by (simp add: team_synced_def tb granted)
  show "keyed (db_teams (dk_db t))" "team_frame d t" using up(2,7) by (simp_all add: tb team_frame_def)
  show "set (team_names t) = insert (tc_name team) (set (team_names d))"
    using up(8) by (simp add: team_names_def tb)
  show "name \<noteq> tc_name team \<Longrightarrow> team_named (db_teams (dk_db t)) name = team_named (db_teams (dk_db d)) name"
    using up(6) by (simp add: tb)
  assume other: "tc_name other \<noteq> tc_name team" "team_synced lower other d"
  then obtain y where y: "team_named (db_teams (dk_db d)) (tc_name other) = Some y" "tm_orphaned_at y = None"
    "\<forall>u \<in> set (db_users (dk_db d)). role_in (db_members (dk_db d)) (tm_id y) (usr_id u) =
       reconcile_memberships (file_roles lower other u (dk_sso_groups d))" by (auto simp: team_synced_def)
  have y': "team_named ts (tc_name other) = Some y" using y(1) up(6) other(1) by simp
  have "tm_id y \<noteq> tid" using named_apart [OF up(2) y' up(3) other(1)] up(4) by simp
  then have "role_in ms (tm_id y) uid = role_in (db_members (dk_db d)) (tm_id y) uid" for uid
    using ms(3) tb(6) by simp
  with y y' show "team_synced lower other t" by (auto simp: team_synced_def tb)
qed

section \<open>Projects\<close>

abbreviation project_named :: "project list \<Rightarrow> string \<Rightarrow> project option" where
  "project_named \<equiv> named prj_slug"

definition declared_events :: "int \<Rightarrow> project_config \<Rightarrow> int" where
  "declared_events retention p = (case pc_retention_events p of Some v \<Rightarrow> v | None \<Rightarrow> retention)"

definition declared_days :: "project_config \<Rightarrow> int" where
  "declared_days p = (case pc_retention_days p of Some v \<Rightarrow> v | None \<Rightarrow> 0)"

definition declared_interval :: "project_config \<Rightarrow> int" where
  "declared_interval p = (case pc_interval p of Some v \<Rightarrow> v | None \<Rightarrow> 0)"

text \<open>A row with what the file declares of it.\<close>

definition row_declared :: "int \<Rightarrow> project_config \<Rightarrow> uuid \<Rightarrow> project \<Rightarrow> desk \<Rightarrow> bool" where
  "row_declared retention p tid row d \<longleftrightarrow>
     prj_team_id row = tid \<and> prj_name row = pc_name p \<and>
     prj_retention_events row = declared_events retention p \<and> prj_retention_days row = declared_days p \<and>
     prj_webhook_url row = pc_webhook_url p \<and> prj_orphaned_at row = None \<and>
     dk_intervals d (prj_id row) = declared_interval p \<and> dk_severities d (prj_id row) = severity_column p"

definition project_synced :: "int \<Rightarrow> project_config \<Rightarrow> desk \<Rightarrow> bool" where
  "project_synced retention p d \<longleftrightarrow>
     (\<exists>row x. project_named (db_projects (dk_db d)) (pc_slug p) = Some row \<and>
        team_named (db_teams (dk_db d)) (pc_team p) = Some x \<and> row_declared retention p (tm_id x) row d)"

text \<open>The tables of teams, which the loop over projects only reads.\<close>

definition team_side :: "desk \<Rightarrow> team list \<times> user list \<times> team_member list \<times> sso_group list" where
  "team_side d = (db_teams (dk_db d), db_users (dk_db d), db_members (dk_db d), dk_sso_groups d)"

lemma team_synced_side: "team_side t = team_side d \<Longrightarrow> team_synced lower team t = team_synced lower team d"
  by (simp add: team_side_def team_synced_def)

abbreviation slugs :: "desk \<Rightarrow> string list" where
  "slugs d \<equiv> map prj_slug (db_projects (dk_db d))"

abbreviation keyed_projects :: "desk \<Rightarrow> bool" where
  "keyed_projects d \<equiv> keyed_by prj_id prj_slug (db_projects (dk_db d))"

lemma sync_project_cases:
  assumes "sync_project now retention p rep d = (r, t)"
  obtains "team_named (db_teams (dk_db d)) (pc_team p) = None"
    "r = Inl (Validation (''project '' @ pc_slug p @ '' references an unknown team''))"
  | e where "declared_interval p \<noteq> 0" "validate_interval (declared_interval p) = Inl e" "r = Inl e"
  | x row where "team_named (db_teams (dk_db d)) (pc_team p) = Some x"
    "project_named (db_projects (dk_db d)) (pc_slug p) = Some row"
    "update_project_row now row (tm_id x) (declared_events retention p) (declared_days p) (declared_interval p) p rep d = (r, t)"
  | x where "team_named (db_teams (dk_db d)) (pc_team p) = Some x"
    "project_named (db_projects (dk_db d)) (pc_slug p) = None"
    "insert_project_row now (tm_id x) (declared_events retention p) (declared_days p) (declared_interval p) p rep d = (r, t)"
  using assms
  unfolding sync_project_def declared_events_def [symmetric] declared_days_def [symmetric]
    declared_interval_def [symmetric] named_def [symmetric] Let_def
  by (cases "team_named (db_teams (dk_db d)) (pc_team p)";
      cases "project_named (db_projects (dk_db d)) (pc_slug p)")
    (auto split: if_splits sum.splits)

text \<open>What one project's turn does to the table: its own row is as declared, every other one is as it was.\<close>

definition project_turn :: "int \<Rightarrow> project_config \<Rightarrow> desk \<Rightarrow> desk \<Rightarrow> bool" where
  "project_turn retention p d t \<longleftrightarrow>
     project_synced retention p t \<and> keyed_projects t \<and> team_side t = team_side d \<and>
     set (slugs t) = insert (pc_slug p) (set (slugs d)) \<and>
     (\<forall>slug. slug \<noteq> pc_slug p \<longrightarrow>
        project_named (db_projects (dk_db t)) slug = project_named (db_projects (dk_db d)) slug) \<and>
     (\<forall>slug row. slug \<noteq> pc_slug p \<longrightarrow> project_named (db_projects (dk_db d)) slug = Some row \<longrightarrow>
        dk_intervals t (prj_id row) = dk_intervals d (prj_id row) \<and>
        dk_severities t (prj_id row) = dk_severities d (prj_id row))"

lemma update_project_turn:
  assumes "update_project_row now row (tm_id x) (declared_events retention p) (declared_days p)
      (declared_interval p) p rep d = (r, t)"
    and "keyed_projects d" "team_named (db_teams (dk_db d)) (pc_team p) = Some x"
    and row: "project_named (db_projects (dk_db d)) (pc_slug p) = Some row"
  shows "project_turn retention p d t"
proof (cases "prj_orphaned_at row \<noteq> None \<or>
    project_changed row (tm_id x) (declared_events retention p) (declared_days p) (declared_interval p) p d")
  case True
  let ?f = "declared_row now (tm_id x) (declared_events retention p) (declared_days p) p"
  let ?us = "map (\<lambda>x. if prj_id x = prj_id row then ?f x else x) (db_projects (dk_db d))"
  have t: "t = d\<lparr>dk_db := dk_db d\<lparr>db_projects := ?us\<rparr>,
      dk_intervals := (dk_intervals d)(prj_id row := declared_interval p),
      dk_severities := (dk_severities d)(prj_id row := severity_column p)\<rparr>"
    using assms(1) True
    by (auto simp: update_project_row_def plan_present_def set_project_def Let_def split: if_splits)
  have f: "prj_id (?f y) = prj_id y \<and> prj_slug (?f y) = prj_slug y" for y by (simp add: declared_row_def)
  note upd = update_row [of prj_id prj_slug "db_projects (dk_db d)" "pc_slug p" row ?f, OF assms(2) row f]
  have "row_declared retention p (tm_id x) (?f row) t"
    by (simp add: row_declared_def t declared_row_def)
  then have "project_synced retention p t"
    using upd(2) assms(3) by (auto simp: project_synced_def t)
  moreover have "team_side t = team_side d" by (simp add: t team_side_def)
  moreover have "pc_slug p \<in> set (slugs d)" using named_key [OF row] by simp
  moreover have "slugs t = slugs d" using upd(5) by (simp add: t)
  moreover have "prj_id y \<noteq> prj_id row" if "slug \<noteq> pc_slug p" "project_named (db_projects (dk_db d)) slug = Some y" for slug y
    using named_apart [OF assms(2) that(2) row that(1)] .
  ultimately show ?thesis using upd(1,3) by (auto simp: project_turn_def t)
next
  case False
  then have t: "t = d"
    using assms(1) by (auto simp: update_project_row_def plan_present_def Let_def)
  have "row_declared retention p (tm_id x) row d" using False by (simp add: row_declared_def project_changed_def)
  moreover have "pc_slug p \<in> set (slugs d)" using named_key [OF row] by simp
  ultimately show ?thesis using assms(2,3) row by (auto simp: project_turn_def project_synced_def t)
qed

lemma insert_project_turn:
  assumes "insert_project_row now (tm_id x) (declared_events retention p) (declared_days p)
      (declared_interval p) p rep d = (Inr rep', t)"
    and "keyed_projects d" "team_named (db_teams (dk_db d)) (pc_team p) = Some x"
    and none: "project_named (db_projects (dk_db d)) (pc_slug p) = None"
  shows "project_turn retention p d t"
proof -
  let ?n = "rng_pos (dk_db d)" and ?old = "db_projects (dk_db d)"
  let ?row = "\<lparr>prj_id = rng_uuid (dk_db d) ?n, prj_short_id = rng_short (dk_db d) ?n, prj_team_id = tm_id x,
     prj_name = pc_name p, prj_slug = pc_slug p, prj_dsn_public_key = uuid_simple (rng_uuid (dk_db d) (Suc ?n)),
     prj_retention_events = declared_events retention p, prj_retention_days = declared_days p,
     prj_muted = False, prj_webhook_url = pc_webhook_url p, prj_created_at = now,
     prj_updated_at = now, prj_orphaned_at = None\<rparr>"
  have t: "t = d\<lparr>dk_db := dk_db d\<lparr>rng_pos := ?n + 2, db_projects := ?old @ [?row]\<rparr>,
      dk_intervals := (dk_intervals d)(prj_id ?row := declared_interval p),
      dk_severities := (dk_severities d)(prj_id ?row := severity_column p)\<rparr>"
    and fresh: "prj_id ?row \<notin> set (map prj_id ?old)"
    using assms(1) by (auto simp: insert_project_row_def insert_project_def Let_def split: if_splits)
  note add = new_row [of prj_id prj_slug ?old ?row, OF assms(2) _ fresh]
  have none': "project_named ?old (prj_slug ?row) = None" using none by simp
  have "row_declared retention p (tm_id x) ?row t" by (simp add: row_declared_def t)
  then have "project_synced retention p t"
    using add(2) [OF none'] assms(3) by (auto simp: project_synced_def t)
  moreover have "team_side t = team_side d" by (simp add: t team_side_def)
  moreover have "prj_id y \<noteq> prj_id ?row" if "project_named ?old slug = Some y" for slug y
    using imageI [OF conjunct1 [OF named_mem [OF that]], of prj_id] fresh by auto
  ultimately show ?thesis using add(1,3) [OF none'] by (auto simp: project_turn_def t)
qed

lemma sync_project_turn:
  assumes "sync_project now retention p rep d = (Inr rep', t)" "keyed_projects d"
  shows "project_turn retention p d t"
  using assms(1)
proof (cases rule: sync_project_cases)
  case (3 x row)
  then show ?thesis using assms(2) by (intro update_project_turn [of now row x retention p rep d]) auto
next
  case (4 x)
  then show ?thesis using assms(2) by (intro insert_project_turn [of now x retention p rep d]) auto
qed simp_all

lemma project_turn_keeps:
  assumes "project_turn retention p d t" "pc_slug other \<noteq> pc_slug p" "project_synced retention other d"
  shows "project_synced retention other t"
proof -
  from assms(3) obtain row x where row: "project_named (db_projects (dk_db d)) (pc_slug other) = Some row"
    "team_named (db_teams (dk_db d)) (pc_team other) = Some x" "row_declared retention other (tm_id x) row d"
    by (auto simp: project_synced_def)
  then have "row_declared retention other (tm_id x) row t"
    using assms(1,2) by (auto simp: project_turn_def row_declared_def)
  with row assms(1,2) show ?thesis by (auto simp: project_turn_def project_synced_def team_side_def)
qed

section \<open>Pruning\<close>

text \<open>What pruning a row does to its table, for projects and for teams.\<close>

definition pruned ::
  "('r \<Rightarrow> uuid) \<Rightarrow> ('r \<Rightarrow> bool) \<Rightarrow> ('r \<Rightarrow> 'r) \<Rightarrow> orphan_policy \<Rightarrow> 'r \<Rightarrow> 'r list \<Rightarrow> 'r list" where
  "pruned idf orph mark policy row rows =
     (case policy of
        Readonly \<Rightarrow> (if orph row then rows else map (\<lambda>x. if idf x = idf row then mark x else x) rows)
      | DeleteOrphan \<Rightarrow> filter (\<lambda>x. idf x \<noteq> idf row) rows)"

text \<open>A table whose rows can be marked as orphans.\<close>

locale orphanable =
  fixes idf :: "'r \<Rightarrow> uuid" and key :: "'r \<Rightarrow> string" and orph :: "'r \<Rightarrow> bool" and mark :: "'r \<Rightarrow> 'r"
  assumes mark_id: "idf (mark x) = idf x" and mark_key: "key (mark x) = key x" and mark_orph: "orph (mark x)"
    and mark_mark: "mark (mark x) = mark x"
begin

lemma pruned_mem:
  assumes "x \<in> set (pruned idf orph mark policy row rows)"
  obtains "x \<in> set rows" "policy = Readonly \<longrightarrow> orph row \<or> idf x \<noteq> idf row" "policy = DeleteOrphan \<longrightarrow> idf x \<noteq> idf row"
  | y where "y \<in> set rows" "x = mark y" "policy = Readonly" "idf y = idf row"
  using assms by (auto simp: pruned_def split: orphan_policy.splits if_splits)

text \<open>Between the start and the end of a loop a row is as it was, or it has been marked.\<close>

definition going :: "orphan_policy \<Rightarrow> 'r list \<Rightarrow> 'r list \<Rightarrow> bool" where
  "going policy start rows \<longleftrightarrow>
     (\<forall>x \<in> set rows. x \<in> set start \<or>
        policy = Readonly \<and> (\<exists>y \<in> set start. x = mark y))"

definition settled :: "orphan_policy \<Rightarrow> 'r \<Rightarrow> 'r list \<Rightarrow> bool" where
  "settled policy row rows \<longleftrightarrow> (\<forall>x \<in> set rows. idf x = idf row \<longrightarrow> policy = Readonly \<and> orph x)"

lemma going_start: "going policy rows rows"
  by (simp add: going_def)

lemma going_origin:
  assumes "going policy start rows" "x \<in> set rows"
  shows "\<exists>y \<in> set start. idf y = idf x \<and> key y = key x"
proof -
  from assms consider "x \<in> set start" | y where "y \<in> set start" "x = mark y" by (auto simp: going_def)
  then show ?thesis by cases (auto simp: mark_id mark_key)
qed

lemma going_pruned:
  assumes "going policy start rows"
  shows "going policy start (pruned idf orph mark policy row rows)"
  unfolding going_def
proof
  fix x assume "x \<in> set (pruned idf orph mark policy row rows)"
  then show "x \<in> set start \<or> policy = Readonly \<and> (\<exists>y \<in> set start. x = mark y)"
  proof (cases rule: pruned_mem)
    case 1
    with assms show ?thesis by (auto simp: going_def)
  next
    case (2 y)
    with assms have "\<exists>z \<in> set start. y = z \<or> y = mark z" unfolding going_def by blast
    with 2 show ?thesis by (auto simp: mark_mark)
  qed
qed

lemma settled_pruned:
  assumes "going policy start rows" "keyed_by idf key start" "row \<in> set start"
  shows "settled policy row (pruned idf orph mark policy row rows)"
  unfolding settled_def
proof (intro ballI impI)
  fix x assume x: "x \<in> set (pruned idf orph mark policy row rows)" "idf x = idf row"
  from x(1) show "policy = Readonly \<and> orph x"
  proof (cases rule: pruned_mem)
    case 1
    then have ro: "policy = Readonly" "orph row" using x(2) by (cases policy; simp)+
    from 1(1) assms(1) consider "x \<in> set start" | "orph x" by (auto simp: going_def mark_orph)
    then show ?thesis
    proof cases
      case 1
      then have "x = row" using assms(2,3) x(2) by (auto simp: keyed_by_def dest: distinct_map_inj)
      with ro show ?thesis by simp
    qed (use ro in simp)
  next
    case (2 y)
    then show ?thesis by (simp add: mark_orph)
  qed
qed

lemma settled_keep:
  assumes "settled policy other rows"
  shows "settled policy other (pruned idf orph mark policy row rows)"
  unfolding settled_def
proof (intro ballI impI)
  fix x assume x: "x \<in> set (pruned idf orph mark policy row rows)" "idf x = idf other"
  from x(1) show "policy = Readonly \<and> orph x"
    by (cases rule: pruned_mem) (use assms x(2) in \<open>auto simp: settled_def mark_id mark_orph\<close>)
qed

lemma keyed_pruned:
  assumes "keyed_by idf key rows"
  shows "keyed_by idf key (pruned idf orph mark policy row rows)"
proof (cases policy)
  case Readonly
  have "map idf (map (\<lambda>x. if idf x = idf row then mark x else x) rows) = map idf rows"
    "map key (map (\<lambda>x. if idf x = idf row then mark x else x) rows) = map key rows"
    by (auto simp: mark_id mark_key)
  with assms Readonly show ?thesis
    unfolding keyed_by_def pruned_def by (simp del: map_map map_eq_conv)
next
  case DeleteOrphan
  with assms show ?thesis by (simp add: keyed_by_def pruned_def distinct_map_filter)
qed

lemma named_pruned:
  assumes "keyed_by idf key rows" "named key rows k = Some x" "idf x \<noteq> idf row"
  shows "named key (pruned idf orph mark policy row rows) k = Some x"
proof -
  have x: "x \<in> set rows" "key x = k" using named_mem [OF assms(2)] by simp_all
  have "x \<in> set (pruned idf orph mark policy row rows)"
    using x assms(3) by (auto simp: pruned_def split: orphan_policy.split)
  from named_Some [OF keyed_pruned [OF assms(1)] this] x(2) show ?thesis by simp
qed

text \<open>Once all undeclared rows have had their turn, only declared rows and marked ones are left.\<close>

lemma all_settled:
  assumes "going policy start rows" "\<forall>row \<in> set (filter (\<lambda>r. key r \<notin> D) start). settled policy row rows"
    and "x \<in> set rows"
  shows "key x \<in> D \<or> policy = Readonly \<and> orph x"
  using assms by (auto simp: going_def settled_def mark_id mark_key mark_orph)

end

interpretation orphan_projects: orphanable prj_id prj_slug "\<lambda>x. prj_orphaned_at x \<noteq> None"
  "\<lambda>x. x\<lparr>prj_orphaned_at := Some now\<rparr>" for now
  by unfold_locales simp_all

interpretation orphan_teams: orphanable tm_id tm_name "\<lambda>x. tm_orphaned_at x \<noteq> None"
  "\<lambda>x. x\<lparr>tm_orphaned_at := Some now\<rparr>" for now
  by unfold_locales simp_all

abbreviation pruned_projects :: "orphan_policy \<Rightarrow> timestamp \<Rightarrow> project \<Rightarrow> project list \<Rightarrow> project list" where
  "pruned_projects policy now \<equiv>
     pruned prj_id (\<lambda>x. prj_orphaned_at x \<noteq> None) (\<lambda>x. x\<lparr>prj_orphaned_at := Some now\<rparr>) policy"

abbreviation pruned_teams :: "orphan_policy \<Rightarrow> timestamp \<Rightarrow> team \<Rightarrow> team list \<Rightarrow> team list" where
  "pruned_teams policy now \<equiv>
     pruned tm_id (\<lambda>x. tm_orphaned_at x \<noteq> None) (\<lambda>x. x\<lparr>tm_orphaned_at := Some now\<rparr>) policy"

lemma prune_project_effect:
  assumes "prune_project batch policy now row rep d = (r, t)"
  shows "\<exists>rep'. r = Inr rep'" "db_projects (dk_db t) = pruned_projects policy now row (db_projects (dk_db d))"
    "team_side t = team_side d" "dk_intervals t = dk_intervals d" "dk_severities t = dk_severities d"
  using assms
  by (auto simp: prune_project_def mark_project_orphan_def set_project_def pruned_def team_side_def
      delete_project_rows_def Let_def split: orphan_policy.splits if_splits)

lemma prune_team_effect:
  assumes "prune_team policy now row rep d = (Inr rep', t)"
  shows "db_teams (dk_db t) = pruned_teams policy now row (db_teams (dk_db d))"
    "db_projects (dk_db t) = db_projects (dk_db d)" "db_users (dk_db t) = db_users (dk_db d)"
    "dk_sso_groups t = dk_sso_groups d" "dk_intervals t = dk_intervals d" "dk_severities t = dk_severities d"
    "tid \<noteq> tm_id row \<Longrightarrow> role_in (db_members (dk_db t)) tid uid = role_in (db_members (dk_db d)) tid uid"
proof -
  have "tid \<noteq> tm_id row \<Longrightarrow> role_in (filter (\<lambda>m. mb_team_id m \<noteq> tm_id row) ms) tid uid = role_in ms tid uid" for ms
    by (induction ms) (auto simp: role_in_def)
  with assms show "tid \<noteq> tm_id row \<Longrightarrow> role_in (db_members (dk_db t)) tid uid = role_in (db_members (dk_db d)) tid uid"
    by (auto simp: prune_team_def mark_team_orphan_def set_team_def delete_team_desk_def
        delete_team_rows_def Let_def split: orphan_policy.splits if_splits)
qed (use assms in \<open>auto simp: prune_team_def mark_team_orphan_def set_team_def pruned_def
      delete_team_desk_def delete_team_rows_def Let_def split: orphan_policy.splits if_splits\<close>)

section \<open>The phases of a synchronisation\<close>

lemma team_frame_trans: "team_frame d s \<Longrightarrow> team_frame s t \<Longrightarrow> team_frame d t"
  unfolding team_frame_def by (intro conjI) (simp_all, elim conjE, rule subset_trans)

lemma teams_phase:
  assumes "op_fold (sync_team lower now) ts rep d = (Inr rep', t)" "distinct (map tc_name ts)"
    and "keyed (db_teams (dk_db d))" "distinct (user_ids (dk_db d))"
  shows "keyed (db_teams (dk_db t)) \<and> team_frame d t \<and>
    (\<forall>name. name \<notin> tc_name ` set ts \<longrightarrow> team_named (db_teams (dk_db t)) name = team_named (db_teams (dk_db d)) name) \<and>
    (\<forall>team \<in> set ts. team_synced lower team t)"
proof -
  let ?I = "\<lambda>s. keyed (db_teams (dk_db s)) \<and> team_frame d s \<and>
    (\<forall>name. name \<notin> tc_name ` set ts \<longrightarrow> team_named (db_teams (dk_db s)) name = team_named (db_teams (dk_db d)) name)"
  have "?I t \<and> (\<forall>team \<in> set ts. team_synced lower team t)"
  proof (rule op_fold_each [where I = ?I and A = "set ts" and key = tc_name, OF _ _ assms(1)])
    fix x acc s v u assume x: "x \<in> set ts" "?I s" "sync_team lower now x acc s = (Inr v, u)"
    have "distinct (user_ids (dk_db s))" using x(2) assms(4) by (simp add: team_frame_def)
    note eff = sync_team_effect [OF x(3) conjunct1 [OF x(2)] this]
    have "team_frame d u" using eff(3) x(2) team_frame_trans by blast
    moreover have "team_named (db_teams (dk_db u)) name = team_named (db_teams (dk_db d)) name"
      if "name \<notin> tc_name ` set ts" for name using that x eff(6) [of name] by (metis imageI)
    ultimately show "?I u \<and> team_synced lower x u" using eff(1,2) by simp
    fix y assume "tc_name y \<noteq> tc_name x" "team_synced lower y s"
    then show "team_synced lower y u" using eff(5) by blast
  qed (use assms in \<open>auto simp: team_frame_def\<close>)
  then show ?thesis by blast
qed

lemma projects_phase:
  assumes "op_fold (sync_project now retention) ps rep d = (Inr rep', t)" "distinct (map pc_slug ps)"
    and "keyed_projects d"
  shows "keyed_projects t \<and> team_side t = team_side d \<and>
    (\<forall>slug. slug \<notin> pc_slug ` set ps \<longrightarrow>
       project_named (db_projects (dk_db t)) slug = project_named (db_projects (dk_db d)) slug) \<and>
    (\<forall>p \<in> set ps. project_synced retention p t)"
proof -
  let ?I = "\<lambda>s. keyed_projects s \<and> team_side s = team_side d \<and>
    (\<forall>slug. slug \<notin> pc_slug ` set ps \<longrightarrow>
       project_named (db_projects (dk_db s)) slug = project_named (db_projects (dk_db d)) slug)"
  have "?I t \<and> (\<forall>p \<in> set ps. project_synced retention p t)"
  proof (rule op_fold_each [where I = ?I and A = "set ps" and key = pc_slug, OF _ _ assms(1)])
    fix x acc s v u assume x: "x \<in> set ps" "?I s" "sync_project now retention x acc s = (Inr v, u)"
    note turn = sync_project_turn [OF x(3) conjunct1 [OF x(2)]]
    with x show "?I u \<and> project_synced retention x u" by (auto simp: project_turn_def)
    fix y assume "pc_slug y \<noteq> pc_slug x" "project_synced retention y s"
    then show "project_synced retention y u" using project_turn_keeps [OF turn] by blast
  qed (use assms in auto)
  then show ?thesis by blast
qed

text \<open>The rows of a table that the file declares or that are marked as orphans.\<close>

definition projects_settled :: "orphan_policy \<Rightarrow> project_config list \<Rightarrow> desk \<Rightarrow> bool" where
  "projects_settled policy ps d \<longleftrightarrow>
     (\<forall>x \<in> set (db_projects (dk_db d)). prj_slug x \<in> pc_slug ` set ps \<or>
        policy = Readonly \<and> prj_orphaned_at x \<noteq> None)"

definition teams_settled :: "orphan_policy \<Rightarrow> team_config list \<Rightarrow> desk \<Rightarrow> bool" where
  "teams_settled policy ts d \<longleftrightarrow>
     (\<forall>x \<in> set (db_teams (dk_db d)). tm_name x \<in> tc_name ` set ts \<or> policy = Readonly \<and> tm_orphaned_at x \<noteq> None)"

lemma prune_keeps_synced:
  assumes "project_synced retention p d" "keyed_projects d" "prune_project batch policy now row acc d = (r, t)"
    and "\<And>x. project_named (db_projects (dk_db d)) (pc_slug p) = Some x \<Longrightarrow> prj_id x \<noteq> prj_id row"
  shows "project_synced retention p t"
proof -
  note eff = prune_project_effect [OF assms(3)]
  from assms(1) obtain x y where x: "project_named (db_projects (dk_db d)) (pc_slug p) = Some x"
    "team_named (db_teams (dk_db d)) (pc_team p) = Some y" "row_declared retention p (tm_id y) x d"
    by (auto simp: project_synced_def)
  have "project_named (db_projects (dk_db t)) (pc_slug p) = Some x"
    unfolding eff(2) by (rule orphan_projects.named_pruned [OF assms(2) x(1) assms(4) [OF x(1)]])
  with x eff(3,4,5) show ?thesis by (auto simp: project_synced_def row_declared_def team_side_def)
qed

lemma op_fold_ok:
  assumes "\<And>x acc s. \<exists>v t. f x acc s = (Inr v, t)"
  shows "\<exists>v t. op_fold f xs acc s = (Inr v, t)"
proof (induction xs arbitrary: acc s)
  case (Cons x xs)
  obtain v t where "f x acc s = (Inr v, t)" using assms by blast
  with Cons.IH [of v t] show ?case by (auto simp: op_bind_def)
qed simp

lemma prune_projects_phase:
  assumes "prune_projects batch policy now ps rep d = (r, t)" "keyed_projects d"
    and "\<forall>p \<in> set ps. project_synced retention p d"
  shows "\<exists>rep'. r = Inr rep'" "team_side t = team_side d" "projects_settled policy ps t"
    "\<forall>p \<in> set ps. project_synced retention p t"
    "orphan_projects.going now policy (db_projects (dk_db d)) (db_projects (dk_db t))" "keyed_projects t"
proof -
  let ?P = "db_projects (dk_db d)"
  let ?rows = "filter (\<lambda>row. prj_slug row \<notin> set (map pc_slug ps)) ?P"
  have "\<exists>v t. op_fold (prune_project batch policy now) ?rows rep d = (Inr v, t)"
    by (rule op_fold_ok) (metis prune_project_effect(1) surj_pair)
  with assms(1) show "\<exists>rep'. r = Inr rep'" by (auto simp: prune_projects_def)
  then obtain rep' where run: "op_fold (prune_project batch policy now) ?rows rep d = (Inr rep', t)"
    using assms(1) by (auto simp: prune_projects_def)
  let ?I = "\<lambda>s. orphan_projects.going now policy ?P (db_projects (dk_db s)) \<and> keyed_projects s \<and>
    team_side s = team_side d \<and> (\<forall>p \<in> set ps. project_synced retention p s)"
  let ?Q = "\<lambda>row s. orphan_projects.settled policy row (db_projects (dk_db s))"
  have "?I t \<and> (\<forall>row \<in> set ?rows. ?Q row t)"
  proof (rule op_fold_each [where I = ?I and A = "set ?rows" and key = prj_id, OF _ _ run])
    fix row acc s v u assume row: "row \<in> set ?rows" "?I s" "prune_project batch policy now row acc s = (Inr v, u)"
    note eff = prune_project_effect [OF row(3)]
    have "row \<in> set ?P" using row(1) by simp
    then have "?Q row u" unfolding eff(2) using row(2) assms(2) by (blast intro: orphan_projects.settled_pruned)
    moreover have "project_synced retention p u" if p: "p \<in> set ps" for p
    proof (rule prune_keeps_synced [OF _ _ row(3)])
      fix x assume "project_named (db_projects (dk_db s)) (pc_slug p) = Some x"
      from named_mem [OF this] have "x \<in> set (db_projects (dk_db s))" "prj_slug x = pc_slug p" by simp_all
      moreover obtain y where "y \<in> set ?P" "prj_id y = prj_id x" "prj_slug y = pc_slug p"
        using orphan_projects.going_origin [OF conjunct1 [OF row(2)] calculation(1)] calculation(2) by auto
      moreover have "y \<noteq> row" using row(1) p calculation(5) by auto
      ultimately show "prj_id x \<noteq> prj_id row"
        using row(1) assms(2) distinct_map_inj [of prj_id ?P y row] by (auto simp: keyed_by_def)
    qed (use row(2) p in blast)+
    ultimately show "?I u \<and> ?Q row u"
      using row(2) eff(3) orphan_projects.going_pruned [OF conjunct1 [OF row(2)]]
        orphan_projects.keyed_pruned [OF conjunct1 [OF conjunct2 [OF row(2)]]] unfolding eff(2) by simp
    fix other assume "?Q other s"
    then show "?Q other u" unfolding eff(2) by (rule orphan_projects.settled_keep)
  qed (use assms orphan_projects.going_start in \<open>auto simp: keyed_by_def distinct_map_filter\<close>)
  then have I: "?I t" and Q: "\<forall>row \<in> set ?rows. ?Q row t" by blast+
  from I show "team_side t = team_side d" "\<forall>p \<in> set ps. project_synced retention p t" "keyed_projects t" by blast+
  from I show going: "orphan_projects.going now policy ?P (db_projects (dk_db t))" by blast
  show "projects_settled policy ps t"
    unfolding projects_settled_def using orphan_projects.all_settled [OF going Q] by simp
qed

lemma prune_team_keeps:
  assumes "prune_team policy now row acc s = (Inr v, u)" "keyed (db_teams (dk_db s))"
    and "team_named (db_teams (dk_db s)) name = Some x" "tm_id x \<noteq> tm_id row"
  shows "team_named (db_teams (dk_db u)) name = Some x"
  unfolding prune_team_effect(1) [OF assms(1)] by (rule orphan_teams.named_pruned [OF assms(2-4)])

lemma prune_keeps_team_synced:
  assumes "team_synced lower team s" "keyed (db_teams (dk_db s))" "prune_team policy now row acc s = (Inr v, u)"
    and "\<And>x. team_named (db_teams (dk_db s)) (tc_name team) = Some x \<Longrightarrow> tm_id x \<noteq> tm_id row"
  shows "team_synced lower team u"
proof -
  note eff = prune_team_effect [OF assms(3)]
  from assms(1) obtain x where x: "team_named (db_teams (dk_db s)) (tc_name team) = Some x" "tm_orphaned_at x = None"
    "\<forall>u \<in> set (db_users (dk_db s)). role_in (db_members (dk_db s)) (tm_id x) (usr_id u) =
       reconcile_memberships (file_roles lower team u (dk_sso_groups s))" by (auto simp: team_synced_def)
  note ne = assms(4) [OF x(1)]
  have "team_named (db_teams (dk_db u)) (tc_name team) = Some x"
    by (rule prune_team_keeps [OF assms(3,2) x(1) ne])
  with x eff(3,4) eff(7) [OF ne] show ?thesis by (auto simp: team_synced_def)
qed

text \<open>A declared project whose team is declared keeps both.\<close>

lemma prune_keeps_project_synced:
  assumes "project_synced retention p s" "keyed (db_teams (dk_db s))" "prune_team policy now row acc s = (Inr v, u)"
    and "\<And>x. team_named (db_teams (dk_db s)) (pc_team p) = Some x \<Longrightarrow> tm_id x \<noteq> tm_id row"
  shows "project_synced retention p u"
proof -
  note eff = prune_team_effect [OF assms(3)]
  from assms(1) obtain r x where x: "project_named (db_projects (dk_db s)) (pc_slug p) = Some r"
    "team_named (db_teams (dk_db s)) (pc_team p) = Some x" "row_declared retention p (tm_id x) r s"
    by (auto simp: project_synced_def)
  have "team_named (db_teams (dk_db u)) (pc_team p) = Some x"
    by (rule prune_team_keeps [OF assms(3,2) x(2) assms(4) [OF x(2)]])
  with x eff(2,5,6) show ?thesis by (auto simp: project_synced_def row_declared_def)
qed

lemma going_apart:
  assumes "orphan_teams.going now policy T (db_teams (dk_db s))" "keyed T" "row \<in> set T" "tm_name row \<noteq> name"
    and "team_named (db_teams (dk_db s)) name = Some x"
  shows "tm_id x \<noteq> tm_id row"
proof -
  from named_mem [OF assms(5)] have x: "x \<in> set (db_teams (dk_db s))" "tm_name x = name" by simp_all
  obtain y where y: "y \<in> set T" "tm_id y = tm_id x" "tm_name y = name"
    using orphan_teams.going_origin [OF assms(1) x(1)] x(2) by auto
  with assms(2-4) distinct_map_inj [of tm_id T y row] show ?thesis by (auto simp: keyed_by_def)
qed

lemma prune_teams_phase:
  assumes "prune_teams policy now ts rep d = (Inr rep', t)" "keyed (db_teams (dk_db d))"
    and "\<forall>team \<in> set ts. team_synced lower team d" "\<forall>p \<in> P. project_synced retention p d"
    and "\<forall>p \<in> P. pc_team p \<in> tc_name ` set ts"
  shows "\<forall>team \<in> set ts. team_synced lower team t" "\<forall>p \<in> P. project_synced retention p t"
    "teams_settled policy ts t" "db_projects (dk_db t) = db_projects (dk_db d)"
proof -
  let ?T = "db_teams (dk_db d)"
  let ?rows = "filter (\<lambda>row. tm_name row \<notin> set (map tc_name ts)) ?T"
  have run: "op_fold (prune_team policy now) ?rows rep d = (Inr rep', t)"
    using assms(1) by (simp add: prune_teams_def)
  let ?I = "\<lambda>s. orphan_teams.going now policy ?T (db_teams (dk_db s)) \<and> keyed (db_teams (dk_db s)) \<and>
    db_projects (dk_db s) = db_projects (dk_db d) \<and>
    (\<forall>team \<in> set ts. team_synced lower team s) \<and> (\<forall>p \<in> P. project_synced retention p s)"
  let ?Q = "\<lambda>row s. orphan_teams.settled policy row (db_teams (dk_db s))"
  have "?I t \<and> (\<forall>row \<in> set ?rows. ?Q row t)"
  proof (rule op_fold_each [where I = ?I and A = "set ?rows" and key = tm_id, OF _ _ run])
    fix row acc s v u assume row: "row \<in> set ?rows" "?I s" "prune_team policy now row acc s = (Inr v, u)"
    note eff = prune_team_effect [OF row(3)]
    have mem: "row \<in> set ?T" "tm_name row \<notin> tc_name ` set ts" using row(1) by simp_all
    have going: "orphan_teams.going now policy ?T (db_teams (dk_db s))" and keyed: "keyed (db_teams (dk_db s))"
      using row(2) by blast+
    have apart: "tm_id x \<noteq> tm_id row"
      if "team_named (db_teams (dk_db s)) name = Some x" "name \<in> tc_name ` set ts" for name x
      using going_apart [OF going assms(2) mem(1) _ that(1)] mem(2) that(2) by blast
    have "team_synced lower team u" if "team \<in> set ts" for team
      using prune_keeps_team_synced [OF _ keyed row(3), of lower team] apart row(2) that by blast
    moreover have "project_synced retention p u" if "p \<in> P" for p
      using prune_keeps_project_synced [OF _ keyed row(3), of retention p] apart row(2) that assms(5) by blast
    moreover have "?Q row u" unfolding eff(1) by (rule orphan_teams.settled_pruned [OF going assms(2) mem(1)])
    ultimately show "?I u \<and> ?Q row u"
      using row(2) eff(2) orphan_teams.going_pruned [OF going] orphan_teams.keyed_pruned [OF keyed] unfolding eff(1) by simp
    fix other assume "?Q other s"
    then show "?Q other u" unfolding eff(1) by (rule orphan_teams.settled_keep)
  qed (use assms orphan_teams.going_start in \<open>auto simp: keyed_by_def distinct_map_filter\<close>)
  then have I: "?I t" and Q: "\<forall>row \<in> set ?rows. ?Q row t" by blast+
  from I show "\<forall>team \<in> set ts. team_synced lower team t" "\<forall>p \<in> P. project_synced retention p t"
    "db_projects (dk_db t) = db_projects (dk_db d)" by blast+
  show "teams_settled policy ts t"
    unfolding teams_settled_def using orphan_teams.all_settled [OF conjunct1 [OF I] Q] by simp
qed

section \<open>What the checks of the file give\<close>

lemma slug_errors_none:
  assumes "slug_errors dbg seen [] ps = []"
  shows "distinct (map pc_slug ps) \<and> (\<forall>p \<in> set ps. pc_slug p \<notin> set seen)"
  using assms
proof (induction ps arbitrary: seen)
  case (Cons p ps)
  from Cons.prems have "pc_slug p \<notin> set seen" "slug_errors dbg (pc_slug p # seen) [] ps = []"
    by (auto split: sum.splits if_splits)
  with Cons.IH [OF this(2)] show ?case by auto
qed simp

lemma validate_teams_from_ok:
  "validate_teams_from lower seen ts = Inr () \<Longrightarrow>
     distinct (map tc_name ts) \<and> (\<forall>t \<in> set ts. tc_name t \<notin> set seen)"
  by (induction ts arbitrary: seen) (fastforce split: if_splits sum.splits)+

lemma validate_each_project_ok:
  assumes "validate_each_project url_scheme ps = Inr ()" "p \<in> set ps"
  shows "declared_interval p \<noteq> 0 \<Longrightarrow> validate_interval (declared_interval p) = Inr ()"
  using assms
  by (induction ps) (auto simp: validate_project_def declared_interval_def split: sum.splits option.splits if_splits)

text \<open>A file that passed the checks.\<close>

lemma check_sections_ok:
  assumes "check_sections rd settings file = Inr desired"
  shows "distinct (map pc_slug (opt_list (cf_projects desired)))" "distinct (map tc_name (opt_list (cf_teams desired)))"
    "p \<in> set (opt_list (cf_projects desired)) \<Longrightarrow> declared_interval p \<noteq> 0 \<Longrightarrow>
       validate_interval (declared_interval p) = Inr ()"
    "ms_notification_source settings = Yaml \<Longrightarrow> cf_notifications desired = Some n \<Longrightarrow> validate_stored (rd_url rd) n = Inr ()"
proof -
  have checks: "validate_projects (rd_debug rd) (rd_scheme rd) (opt_list (cf_projects desired)) = Inr ()"
    "validate_teams (rd_lower rd) (opt_list (cf_teams desired)) = Inr ()"
    and notif: "ms_notification_source settings = Yaml \<Longrightarrow> cf_notifications desired = Some n \<Longrightarrow>
       validate_stored (rd_url rd) n = Inr ()"
    using assms by (auto simp: check_sections_def Let_def split: if_splits sum.splits option.splits)
  from checks(1) have "validate_each_project (rd_scheme rd) (opt_list (cf_projects desired)) = Inr ()"
    "slug_errors (rd_debug rd) [] [] (opt_list (cf_projects desired)) = []"
    by (auto simp: validate_projects_def validate_project_slugs_def errors_res_def split: sum.splits if_splits)
  with checks(2) notif show "distinct (map pc_slug (opt_list (cf_projects desired)))"
    "distinct (map tc_name (opt_list (cf_teams desired)))"
    "p \<in> set (opt_list (cf_projects desired)) \<Longrightarrow> declared_interval p \<noteq> 0 \<Longrightarrow>
       validate_interval (declared_interval p) = Inr ()"
    "ms_notification_source settings = Yaml \<Longrightarrow> cf_notifications desired = Some n \<Longrightarrow> validate_stored (rd_url rd) n = Inr ()"
    using slug_errors_none validate_teams_from_ok [of "rd_lower rd" "[]"] validate_each_project_ok
    unfolding validate_teams_def by blast+
qed

section \<open>The first half of the transaction\<close>

text \<open>Up to the projects: the plan is checked, notifications stored, teams brought to the file.\<close>

definition sync_teams_half ::
  "sync_env \<Rightarrow> config_file \<Rightarrow> management_settings \<Rightarrow> timestamp \<Rightarrow> (desk, sync_report) op" where
  "sync_teams_half se desired settings now =
     op_bind (\<lambda>d. (validate_plan desired settings (team_names d) (owned_projects d), d)) (\<lambda>_.
     op_bind (store_notifications (se_url se) desired settings) (\<lambda>_.
     op_bind (adopt_teams settings) (\<lambda>_.
     op_bind (op_fold (sync_team (se_lower se) now) (opt_list (cf_teams desired)) (start_report now desired settings)) (\<lambda>rep.
     op_bind (adopt_projects settings) (\<lambda>_. op_ok rep)))))"

lemma op_bind_assoc: "op_bind (op_bind m f) g = op_bind m (\<lambda>x. op_bind (f x) g)"
  by (rule ext) (auto simp: op_bind_def split: prod.splits sum.splits)

lemma op_bind_ok: "op_bind (op_ok v) f = f v"
  by (rule ext) (simp add: op_bind_def)

lemma apply_body_halves:
  "apply_body se desired settings retention now =
     op_bind (sync_teams_half se desired settings now) (\<lambda>rep.
     op_bind (prune_and_sync_projects (se_batch se) desired settings retention now rep) populate_report)"
  unfolding apply_body_def sync_teams_half_def op_bind_assoc op_bind_ok ..

text \<open>What holds between the halves: the tables are keyed, the declared teams are as declared, an
  undeclared team and every project come from the row of the same key before the transaction.\<close>

definition halfway :: "(string \<Rightarrow> string) \<Rightarrow> config_file \<Rightarrow> desk \<Rightarrow> desk \<Rightarrow> bool" where
  "halfway lower desired d h \<longleftrightarrow>
     keyed (db_teams (dk_db h)) \<and> keyed_projects h \<and>
     (\<forall>team \<in> set (opt_list (cf_teams desired)). team_synced lower team h) \<and>
     (\<forall>name x. name \<notin> tc_name ` set (opt_list (cf_teams desired)) \<longrightarrow>
        team_named (db_teams (dk_db h)) name = Some x \<longrightarrow>
        (\<exists>y. team_named (db_teams (dk_db d)) name = Some y \<and> tm_id y = tm_id x)) \<and>
     (\<forall>name. name \<in> set (team_names d) \<longrightarrow> name \<in> set (team_names h)) \<and>
     (\<forall>slug row. project_named (db_projects (dk_db h)) slug = Some row \<longrightarrow>
        (\<exists>r. project_named (db_projects (dk_db d)) slug = Some r \<and> prj_team_id r = prj_team_id row))"

lemma halfway_team:
  assumes "halfway lower desired d h" "name \<notin> tc_name ` set (opt_list (cf_teams desired))"
    and "team_named (db_teams (dk_db h)) name = Some x"
  shows "\<exists>y. team_named (db_teams (dk_db d)) name = Some y \<and> tm_id y = tm_id x"
  using assms unfolding halfway_def by blast

lemma halfway_project:
  assumes "halfway lower desired d h" "q \<in> set (db_projects (dk_db h))"
  shows "\<exists>r \<in> set (db_projects (dk_db d)). prj_slug r = prj_slug q \<and> prj_team_id r = prj_team_id q"
proof -
  have "project_named (db_projects (dk_db h)) (prj_slug q) = Some q"
    using named_Some [of prj_id prj_slug, OF _ assms(2)] assms(1) unfolding halfway_def by blast
  then obtain r where r: "project_named (db_projects (dk_db d)) (prj_slug q) = Some r" "prj_team_id r = prj_team_id q"
    using assms(1) unfolding halfway_def by blast
  from named_mem [OF r(1)] r(2) show ?thesis by auto
qed

lemma keyed_map:
  assumes "\<And>x. idf (g x) = idf x" "\<And>x. key (g x) = key x"
  shows "keyed_by idf key (map g rows) = keyed_by idf key rows"
    "named key (map g rows) k = map_option g (named key rows k)"
proof -
  have "map idf (map g rows) = map idf rows" "map key (map g rows) = map key rows" by (simp_all add: assms)
  then show "keyed_by idf key (map g rows) = keyed_by idf key rows" by (simp only: keyed_by_def)
  show "named key (map g rows) k = map_option g (named key rows k)"
    unfolding named_def by (rule find_map_same) (simp add: assms)
qed

lemma adopted_teams:
  assumes "adopt_teams settings d = (r, t)"
  shows "keyed (db_teams (dk_db t)) = keyed (db_teams (dk_db d))"
    "team_named (db_teams (dk_db t)) name = Some x \<Longrightarrow>
       \<exists>y. team_named (db_teams (dk_db d)) name = Some y \<and> tm_id y = tm_id x"
    "team_names t = team_names d" "db_users (dk_db t) = db_users (dk_db d)"
    "db_projects (dk_db t) = db_projects (dk_db d)"
  using assms keyed_map [of tm_id "\<lambda>x. x\<lparr>tm_orphaned_at := None\<rparr>" tm_name "db_teams (dk_db d)"]
  by (auto simp: adopt_teams_def team_names_def split: if_splits)

lemma adopted_projects:
  assumes "adopt_projects settings d = (r, t)"
  shows "keyed_projects t = keyed_projects d"
    "project_named (db_projects (dk_db t)) slug = Some row \<Longrightarrow>
       \<exists>q. project_named (db_projects (dk_db d)) slug = Some q \<and> prj_team_id q = prj_team_id row"
    "team_side t = team_side d"
  using assms keyed_map [of prj_id "\<lambda>x. x\<lparr>prj_orphaned_at := None\<rparr>" prj_slug "db_projects (dk_db d)"]
  by (auto simp: adopt_projects_def team_side_def split: if_splits)

lemma stored_notifications:
  "store_notifications url desired settings d = (Inr v, t) \<Longrightarrow> \<exists>c. t = d\<lparr>dk_config := c\<rparr>"
  by (auto simp: store_notifications_def split: option.splits sum.splits)
    (metis desk.surjective desk.update_convs(2))

lemma halfway_reached:
  assumes "sync_teams_half se desired settings now d = (Inr rep, h)"
    and "distinct (map tc_name (opt_list (cf_teams desired)))"
    and "keyed (db_teams (dk_db d))" "keyed_projects d" "distinct (user_ids (dk_db d))"
  shows "halfway (se_lower se) desired d h"
    "validate_plan desired settings (team_names d) (owned_projects d) = Inr ()"
proof -
  let ?ts = "opt_list (cf_teams desired)"
  from assms(1) obtain d1 d2 d3 rep' where
    plan: "validate_plan desired settings (team_names d) (owned_projects d) = Inr ()"
    and d1: "store_notifications (se_url se) desired settings d = (Inr (), d1)"
    and d2: "adopt_teams settings d1 = (Inr (), d2)"
    and d3: "op_fold (sync_team (se_lower se) now) ?ts (start_report now desired settings) d2 = (Inr rep', d3)"
    and h: "adopt_projects settings d3 = (Inr (), h)"
    unfolding sync_teams_half_def by (auto simp: op_bind_Inr)
  show "validate_plan desired settings (team_names d) (owned_projects d) = Inr ()" by (fact plan)
  obtain c where c: "d1 = d\<lparr>dk_config := c\<rparr>" using stored_notifications [OF d1] by blast
  note t = adopted_teams [OF d2, unfolded c, simplified]
  have "keyed (db_teams (dk_db d2))" "distinct (user_ids (dk_db d2))" using t(1,4) assms(3,5) by simp_all
  note ph = teams_phase [OF d3 assms(2) this]
  note p = adopted_projects [OF h]
  have projects: "db_projects (dk_db d3) = db_projects (dk_db d)" using ph t(5) by (simp add: team_frame_def)
  have named: "team_named (db_teams (dk_db h)) name = team_named (db_teams (dk_db d2)) name" if "name \<notin> tc_name ` set ?ts" for name
    using ph p(3) that by (simp add: team_side_def)
  have "name \<in> set (team_names h)" if "name \<in> set (team_names d)" for name
  proof (cases "name \<in> tc_name ` set ?ts")
    case True
    then obtain team where "team \<in> set ?ts" "name = tc_name team" by blast
    with ph p(3) obtain x where "team_named (db_teams (dk_db h)) name = Some x"
      by (auto simp: team_synced_def team_side_def)
    from named_key [OF this] show ?thesis by (simp add: team_names_def)
  next
    case False
    have "team_named (db_teams (dk_db h)) name \<noteq> None"
      using named [OF False] that arg_cong [OF t(3), of set] by (simp add: named_None team_names_def)
    then show ?thesis by (simp add: named_None team_names_def)
  qed
  moreover have "\<forall>team \<in> set ?ts. team_synced (se_lower se) team h"
    using ph team_synced_side [OF p(3)] by blast
  moreover have "keyed (db_teams (dk_db h))" "keyed_projects h"
    using ph p(1,3) projects assms(4) by (simp_all add: team_side_def)
  moreover have "\<exists>r. project_named (db_projects (dk_db d)) slug = Some r \<and> prj_team_id r = prj_team_id row"
    if "project_named (db_projects (dk_db h)) slug = Some row" for slug row
    using p(2) [OF that] projects by simp
  moreover have "\<exists>y. team_named (db_teams (dk_db d)) name = Some y \<and> tm_id y = tm_id x"
    if "name \<notin> tc_name ` set ?ts" "team_named (db_teams (dk_db h)) name = Some x" for name x
    using t(2) that named [OF that(1)] by simp
  ultimately show "halfway (se_lower se) desired d h" by (simp add: halfway_def)
qed

section \<open>The second half\<close>

definition sync_projects_part ::
  "int \<Rightarrow> config_file \<Rightarrow> management_settings \<Rightarrow> int \<Rightarrow> timestamp \<Rightarrow> sync_report \<Rightarrow> (desk, sync_report) op" where
  "sync_projects_part batch desired settings retention now rep =
     (case cf_projects desired of
        None \<Rightarrow> op_ok rep
      | Some projects \<Rightarrow>
          op_bind (op_fold (sync_project now retention) projects rep)
            (prune_projects batch (ms_project_orphan_policy settings) now projects))"

definition sync_teams_part :: "config_file \<Rightarrow> management_settings \<Rightarrow> timestamp \<Rightarrow> sync_report \<Rightarrow> (desk, sync_report) op" where
  "sync_teams_part desired settings now rep =
     (case cf_teams desired of
        None \<Rightarrow> op_ok rep
      | Some teams \<Rightarrow>
          op_bind (prune_teams (ms_team_orphan_policy settings) now teams rep)
            (\<lambda>rep d. (Inr (rep\<lparr>sr_pending_grants := pending_grants d,
                              sr_local_grants := length (local_bindings d)\<rparr>), d)))"

lemma prune_and_sync_parts:
  "prune_and_sync_projects batch desired settings retention now rep =
     op_bind (sync_projects_part batch desired settings retention now rep) (sync_teams_part desired settings now)"
  unfolding prune_and_sync_projects_def sync_projects_part_def sync_teams_part_def ..

lemma references_known:
  assumes "validate_plan desired settings teams projects = Inr ()" "p \<in> set (opt_list (cf_projects desired))"
  shows "pc_team p \<in> (case cf_teams desired of Some ts \<Rightarrow> tc_name ` set ts | None \<Rightarrow> set teams)"
  using assms
  by (auto simp: validate_plan_ok unknown_team_errors_def Let_def filter_empty_conv split: option.splits)

lemma projects_part_ok:
  assumes "sync_projects_part batch desired settings retention now rep h = (Inr rep', u)"
    and "keyed_projects h" "distinct (map pc_slug (opt_list (cf_projects desired)))"
  shows "team_side u = team_side h" "\<forall>p \<in> set (opt_list (cf_projects desired)). project_synced retention p u"
    "cf_projects desired = Some ps \<Longrightarrow> projects_settled (ms_project_orphan_policy settings) ps u"
proof -
  have "team_side u = team_side h \<and> (\<forall>p \<in> set (opt_list (cf_projects desired)). project_synced retention p u) \<and>
    (cf_projects desired = Some ps \<longrightarrow> projects_settled (ms_project_orphan_policy settings) ps u)"
  proof (cases "cf_projects desired")
    case None
    with assms(1) show ?thesis by (simp add: sync_projects_part_def)
  next
    case (Some qs)
    with assms(1) obtain rep1 d1 where d1: "op_fold (sync_project now retention) qs rep h = (Inr rep1, d1)"
      "prune_projects batch (ms_project_orphan_policy settings) now qs rep1 d1 = (Inr rep', u)"
      by (auto simp: sync_projects_part_def op_bind_Inr)
    have "distinct (map pc_slug qs)" using assms(3) Some by simp
    note ph = projects_phase [OF d1(1) this assms(2)]
    have "keyed_projects d1" "\<forall>p \<in> set qs. project_synced retention p d1" using ph by blast+
    note pr = prune_projects_phase [OF d1(2) this]
    show ?thesis using pr(2,3,4) ph Some by auto
  qed
  then show "team_side u = team_side h" "\<forall>p \<in> set (opt_list (cf_projects desired)). project_synced retention p u"
    "cf_projects desired = Some ps \<Longrightarrow> projects_settled (ms_project_orphan_policy settings) ps u" by blast+
qed

lemma teams_part_ok:
  assumes "sync_teams_part desired settings now rep u = (Inr rep', t)" "keyed (db_teams (dk_db u))"
    and "\<forall>team \<in> set (opt_list (cf_teams desired)). team_synced lower team u"
    and "\<forall>p \<in> P. project_synced retention p u"
    and "cf_teams desired \<noteq> None \<longrightarrow> (\<forall>p \<in> P. pc_team p \<in> tc_name ` set (opt_list (cf_teams desired)))"
  shows "\<forall>team \<in> set (opt_list (cf_teams desired)). team_synced lower team t"
    "\<forall>p \<in> P. project_synced retention p t" "db_projects (dk_db t) = db_projects (dk_db u)"
    "cf_teams desired = Some ts \<Longrightarrow> teams_settled (ms_team_orphan_policy settings) ts t"
proof -
  have "(\<forall>team \<in> set (opt_list (cf_teams desired)). team_synced lower team t) \<and>
    (\<forall>p \<in> P. project_synced retention p t) \<and> db_projects (dk_db t) = db_projects (dk_db u) \<and>
    (cf_teams desired = Some ts \<longrightarrow> teams_settled (ms_team_orphan_policy settings) ts t)"
  proof (cases "cf_teams desired")
    case None
    with assms show ?thesis by (simp add: sync_teams_part_def)
  next
    case (Some us)
    with assms(1) obtain rep1 where run: "prune_teams (ms_team_orphan_policy settings) now us rep u = (Inr rep1, t)"
      by (auto simp: sync_teams_part_def op_bind_Inr)
    have *: "\<forall>team \<in> set us. team_synced lower team u" "\<forall>p \<in> P. pc_team p \<in> tc_name ` set us"
      using assms(3,5) Some by simp_all
    note ph = prune_teams_phase [OF run assms(2) *(1) assms(4) *(2)]
    show ?thesis using ph Some by auto
  qed
  then show "\<forall>team \<in> set (opt_list (cf_teams desired)). team_synced lower team t"
    "\<forall>p \<in> P. project_synced retention p t" "db_projects (dk_db t) = db_projects (dk_db u)"
    "cf_teams desired = Some ts \<Longrightarrow> teams_settled (ms_team_orphan_policy settings) ts t" by blast+
qed

lemma world_keyed:
  assumes "world_ok (dk_db d)"
  shows "keyed (db_teams (dk_db d))" "keyed_projects d" "distinct (user_ids (dk_db d))"
  using assms by (simp_all add: world_ok_def store_ok_def teams_ok_def projects_ok_def users_ok_def keyed_by_def)

lemma desk_transaction_Inr:
  assumes "desk_transaction body d = (Inr v, t)"
  shows "body (d\<lparr>dk_db := dk_db d\<lparr>faults := tl (faults (dk_db d))\<rparr>\<rparr>) = (Inr v, t)"
  using assms by (auto simp: desk_transaction_def Let_def split: list.splits option.splits prod.splits sum.splits)

lemma world_ok_faults [simp]: "world_ok (s\<lparr>faults := fs\<rparr>) = world_ok s"
  by (simp add: world_ok_def users_ok_def teams_ok_def members_ok_def)

lemma committed_sync:
  assumes "check_sections rd settings file = Inr desired" "world_ok (dk_db d)"
    and "apply_once se desired settings retention now d = (Inr rep, t)"
  shows "(\<forall>team \<in> set (opt_list (cf_teams desired)). team_synced (se_lower se) team t) \<and>
    (\<forall>p \<in> set (opt_list (cf_projects desired)). project_synced retention p t) \<and>
    (cf_teams desired \<noteq> None \<longrightarrow> teams_settled (ms_team_orphan_policy settings) (opt_list (cf_teams desired)) t) \<and>
    (cf_projects desired \<noteq> None \<longrightarrow>
       projects_settled (ms_project_orphan_policy settings) (opt_list (cf_projects desired)) t)"
proof -
  let ?d = "d\<lparr>dk_db := dk_db d\<lparr>faults := tl (faults (dk_db d))\<rparr>\<rparr>"
  let ?P = "set (opt_list (cf_projects desired))"
  note parsed = check_sections_ok [OF assms(1)]
  have "world_ok (dk_db ?d)" using assms(2) by simp
  note k = world_keyed [OF this]
  have "apply_body se desired settings retention now ?d = (Inr rep, t)"
    using desk_transaction_Inr assms(3) by (simp add: apply_once_def)
  then obtain rep1 h rep2 u rep3 where h: "sync_teams_half se desired settings now ?d = (Inr rep1, h)"
    and u: "sync_projects_part (se_batch se) desired settings retention now rep1 h = (Inr rep2, u)"
    and t: "sync_teams_part desired settings now rep2 u = (Inr rep3, t)"
    by (auto simp: apply_body_halves prune_and_sync_parts op_bind_Inr populate_report_def)
  note half = halfway_reached [OF h parsed(2) k]
  then have keyed: "keyed (db_teams (dk_db h))" "keyed_projects h"
    and teams: "\<forall>team \<in> set (opt_list (cf_teams desired)). team_synced (se_lower se) team h"
    by (simp_all add: halfway_def)
  note pr = projects_part_ok [OF u keyed(2) parsed(1)]
  have "keyed (db_teams (dk_db u))" using keyed(1) pr(1) by (simp add: team_side_def)
  moreover have "\<forall>team \<in> set (opt_list (cf_teams desired)). team_synced (se_lower se) team u"
    using teams team_synced_side [OF pr(1)] by blast
  moreover have "pc_team p \<in> tc_name ` set ts" if "cf_teams desired = Some ts" "p \<in> ?P" for ts p
    using references_known [OF half(2) that(2)] that(1) by simp
  then have "cf_teams desired \<noteq> None \<longrightarrow> (\<forall>p \<in> ?P. pc_team p \<in> tc_name ` set (opt_list (cf_teams desired)))"
    by (cases "cf_teams desired") simp_all
  ultimately have fin: "\<forall>team \<in> set (opt_list (cf_teams desired)). team_synced (se_lower se) team t"
    "\<forall>p \<in> ?P. project_synced retention p t" "db_projects (dk_db t) = db_projects (dk_db u)"
    "\<And>ts. cf_teams desired = Some ts \<Longrightarrow> teams_settled (ms_team_orphan_policy settings) ts t"
    using teams_part_ok [OF t _ _ pr(2)] by blast+
  moreover have "cf_projects desired \<noteq> None \<longrightarrow>
      projects_settled (ms_project_orphan_policy settings) (opt_list (cf_projects desired)) t"
    using pr(3) fin(3) by (auto simp: projects_settled_def)
  ultimately show ?thesis by auto
qed

section \<open>Nothing occurs twice\<close>

text \<open>Teams, projects and memberships are unique under their keys.\<close>

definition tidy :: "desk \<Rightarrow> bool" where
  "tidy d \<longleftrightarrow> keyed (db_teams (dk_db d)) \<and> keyed_projects d \<and> distinct (map member_key (db_members (dk_db d)))"

interpretation tidying: step_relation "\<lambda>s t. tidy s \<longrightarrow> tidy t"
  by unfold_locales simp_all

abbreviation tidies :: "(desk, 'e, 'a) run \<Rightarrow> bool" where
  "tidies \<equiv> moves (\<lambda>s t. tidy s \<longrightarrow> tidy t)"

lemma keyed_update [simp]: "(\<And>x. idf (f x) = idf x) \<Longrightarrow> (\<And>x. key (f x) = key x) \<Longrightarrow>
   keyed_by idf key (map (\<lambda>x. if idf x = i then f x else x) rows) = keyed_by idf key rows"
proof -
  assume "\<And>x. idf (f x) = idf x" "\<And>x. key (f x) = key x"
  then have "map idf (map (\<lambda>x. if idf x = i then f x else x) rows) = map idf rows"
    "map key (map (\<lambda>x. if idf x = i then f x else x) rows) = map key rows" by simp_all
  then show ?thesis by (simp only: keyed_by_def)
qed

lemma keyed_filter: "keyed_by idf key rows \<Longrightarrow> keyed_by idf key (filter P rows)"
  by (simp add: keyed_by_def distinct_map_filter)

lemma tidy_upsert_team: "tidies (upsert_team lower now team rep)"
proof (rule movesI, rule impI)
  fix s r t assume run: "upsert_team lower now team rep s = (r, t)" and tidy: "tidy s"
  have new: "tidy u" if "insert_team now (tc_name team) (dk_db s) = (q, d)" "u = s\<lparr>dk_db := d\<rparr>" for q d u
    using that tidy by (auto simp: insert_team_def tidy_def keyed_by_def Let_def split: if_splits)
  show "tidy t"
    using run tidy
    by (auto simp: upsert_team_def set_team_def tidy_def op_bind_def in_db_def split: option.splits if_splits prod.splits sum.splits
        dest!: new [OF _ refl, unfolded tidy_def, simplified])
qed

lemma tidy_reconcile: "tidies (reconcile_member lower now tid uid email)"
proof (rule movesI, rule impI)
  fix s r t assume run: "reconcile_member lower now tid uid email s = (r, t)" and "tidy s"
  have same: "map member_key (set_role_rows a b f ms) = map member_key ms" for a b f ms
    by (simp add: set_role_rows_def)
  show "tidy t"
    using run \<open>tidy s\<close>
    by (auto simp: reconcile_member_def op_bind_def in_db_def upsert_member_def tidy_def same distinct_map_filter list_ex_iff
        split: option.splits if_splits) blast
qed

lemma tidy_sync_team: "tidies (sync_team lower now team rep)"
proof -
  have one: "tidies (reconcile_one lower now tid u)" for tid u
    unfolding reconcile_one_def by (intro tidying.moves_bind tidying.moves_ok tidy_reconcile)
  have users: "tidies (reconcile_users lower now tid)" for tid
    by (rule movesI) (auto simp: reconcile_users_def dest: movesD [OF tidying.moves_each [OF one]])
  have grants: "tidies (clear_grants tid)" "tidies (insert_member_grant tid g)" "tidies (insert_group_grant tid g)" for tid g
    by (auto intro!: movesI simp: clear_grants_def insert_member_grant_def insert_group_grant_def tidy_def split: if_splits)
  show ?thesis
    unfolding sync_team_def split_def
    by (intro tidying.moves_bind tidying.moves_each tidying.moves_ok tidy_upsert_team users grants)
qed

lemma tidy_sync_project: "tidies (sync_project now retention p rep)"
proof (rule movesI, rule impI)
  fix s r t assume run: "sync_project now retention p rep s = (r, t)" and tidy: "tidy s"
  show "tidy t"
  proof (cases r)
    case (Inr rep')
    with run sync_project_turn [of now retention p rep s rep' t] tidy show ?thesis
      by (simp add: tidy_def project_turn_def team_side_def)
  next
    case (Inl e)
    have "db_projects d = db_projects (dk_db s) \<and> db_teams d = db_teams (dk_db s) \<and> db_members d = db_members (dk_db s)"
      if "insert_project x ((dk_db s)\<lparr>rng_pos := n\<rparr>) = (Inl e, d)" for x n e d
      using that by (auto simp: insert_project_def split: if_splits)
    with run Inl tidy show ?thesis
      by (cases rule: sync_project_cases [OF run])
        (auto simp: update_project_row_def insert_project_row_def tidy_def Let_def sync_project_def split: option.splits sum.splits prod.splits if_splits)
  qed
qed

lemma tidy_prune: "tidies (prune_projects batch policy now ps rep)" "tidies (prune_teams policy' now ts rep')"
proof -
  have project: "tidies (prune_project batch policy now row rep)" for row rep
    by (rule movesI) (auto simp: prune_project_def mark_project_orphan_def set_project_def delete_project_rows_def tidy_def Let_def
        keyed_filter split: orphan_policy.splits if_splits)
  have team: "tidies (prune_team policy' now row rep)" for row rep
    by (rule movesI) (auto simp: prune_team_def mark_team_orphan_def set_team_def delete_team_desk_def delete_team_rows_def
        tidy_def Let_def keyed_filter distinct_map_filter split: orphan_policy.splits if_splits)
  show "tidies (prune_projects batch policy now ps rep)" "tidies (prune_teams policy' now ts rep')"
    by (auto intro!: movesI simp: prune_projects_def prune_teams_def
        dest: movesD [OF tidying.moves_fold [OF project]] movesD [OF tidying.moves_fold [OF team]])
qed

lemma tidy_apply: "tidies (apply_body se desired settings retention now)"
proof -
  have simple: "tidies (store_notifications url desired settings)" "tidies (populate_report rep)"
    "tidies (\<lambda>d. (validate_plan desired settings (team_names d) (owned_projects d), d))" for url rep
    by (auto intro!: movesI simp: store_notifications_def populate_report_def Let_def tidy_def
        split: option.splits sum.splits if_splits)
  have adopt: "tidies (adopt_teams settings)" "tidies (adopt_projects settings)"
    by (auto intro!: movesI simp: adopt_teams_def adopt_projects_def tidy_def keyed_by_def comp_def)
  have report: "tidies (\<lambda>d. (Inr (f d), d))" for f :: "desk \<Rightarrow> sync_report" by (rule movesI) simp
  have half: "tidies (prune_and_sync_projects batch desired settings retention now rep)" for batch rep
    unfolding prune_and_sync_projects_def
    by (cases "cf_projects desired"; cases "cf_teams desired")
      (simp_all only: option.case, (intro tidying.moves_bind tidying.moves_ok tidying.moves_fold tidy_sync_project tidy_prune report)+)
  show ?thesis
    unfolding apply_body_def
    by (intro tidying.moves_bind tidying.moves_fold simple adopt tidy_sync_team half)
qed

section \<open>The database as the file declares it\<close>

text \<open>The role of a user whom several grants name: administrator if one of them says so.\<close>

definition highest_role :: "team_role list \<Rightarrow> team_role list" where
  "highest_role roles =
     (if TeamAdmin \<in> set roles then [TeamAdmin] else if roles = [] then [] else [TeamContributor])"

lemma reconcile_highest:
  "highest_role roles = (case reconcile_memberships roles of None \<Rightarrow> [] | Some r \<Rightarrow> [r])"
proof -
  have "reconcile_memberships_from r roles =
      (if TeamAdmin \<in> set roles then Some TeamAdmin else if roles = [] then r else Some TeamContributor)" for r
  proof (induction roles arbitrary: r)
    case (Cons x xs)
    then show ?case by (cases x) auto
  qed simp
  then show ?thesis by (simp add: highest_role_def reconcile_memberships_def)
qed

text \<open>A declared team: exactly one row has its name, which is no orphan, and the rows that make a user a member of
  it are one with the highest of the roles the file grants him, or none.\<close>

definition team_as_declared :: "(string \<Rightarrow> string) \<Rightarrow> team_config \<Rightarrow> desk \<Rightarrow> bool" where
  "team_as_declared lower team d \<longleftrightarrow>
     (\<exists>x. filter (\<lambda>y. tm_name y = tc_name team) (db_teams (dk_db d)) = [x] \<and> tm_orphaned_at x = None \<and>
       (\<forall>u \<in> set (db_users (dk_db d)).
          map mb_role (filter (\<lambda>m. mb_team_id m = tm_id x \<and> mb_user_id m = usr_id u) (db_members (dk_db d))) =
          highest_role (file_roles lower team u (dk_sso_groups d))))"

text \<open>A declared project: exactly one row has its slug, and it is as declared, in the one team of the declared name.\<close>

definition project_as_declared :: "int \<Rightarrow> project_config \<Rightarrow> desk \<Rightarrow> bool" where
  "project_as_declared retention p d \<longleftrightarrow>
     (\<exists>row x. filter (\<lambda>r. prj_slug r = pc_slug p) (db_projects (dk_db d)) = [row] \<and>
        filter (\<lambda>y. tm_name y = pc_team p) (db_teams (dk_db d)) = [x] \<and> row_declared retention p (tm_id x) row d)"

lemma filter_unique:
  "distinct (map key rows) \<Longrightarrow> (\<And>x. P x \<longleftrightarrow> key x = k) \<Longrightarrow>
     filter P rows = (case List.find P rows of None \<Rightarrow> [] | Some x \<Rightarrow> [x])"
proof (induction rows)
  case (Cons y rows)
  show ?case
  proof (cases "key y = k")
    case True
    then have "filter (\<lambda>x. key x = k) rows = []" using Cons.prems by (auto simp: filter_empty_conv) (metis image_eqI)
    with True Cons.prems(2) show ?thesis by simp
  next
    case False
    with Cons show ?thesis by simp
  qed
qed simp

lemma filter_named:
  assumes "keyed_by idf key rows" "named key rows k = Some x"
  shows "filter (\<lambda>y. key y = k) rows = [x]"
  using assms filter_unique [of key rows "\<lambda>y. key y = k" k] by (simp add: keyed_by_def named_def)

lemma synced_as_declared:
  assumes "tidy d"
  shows "team_synced lower team d \<Longrightarrow> team_as_declared lower team d"
    "project_synced retention p d \<Longrightarrow> project_as_declared retention p d"
proof -
  have keyed: "keyed (db_teams (dk_db d))" "keyed_projects d" and members: "distinct (map member_key (db_members (dk_db d)))"
    using assms by (simp_all add: tidy_def)
  have roles: "map mb_role (filter (\<lambda>m. mb_team_id m = tid \<and> mb_user_id m = uid) (db_members (dk_db d))) =
      (case role_in (db_members (dk_db d)) tid uid of None \<Rightarrow> [] | Some r \<Rightarrow> [r])" for tid uid
    using filter_unique [OF members, of "\<lambda>m. mb_team_id m = tid \<and> mb_user_id m = uid" "(tid, uid)"]
    by (simp add: role_in_def split: option.splits)
  show "team_synced lower team d \<Longrightarrow> team_as_declared lower team d"
    using filter_named [OF keyed(1)] by (auto simp: team_synced_def team_as_declared_def roles reconcile_highest)
  show "project_synced retention p d \<Longrightarrow> project_as_declared retention p d"
    using filter_named [OF keyed(1)] filter_named [OF keyed(2)] by (auto simp: project_synced_def project_as_declared_def)
qed

text \<open>The database as the file declares it: the declared teams and projects, and the end of the others.\<close>

definition as_declared :: "(string \<Rightarrow> string) \<Rightarrow> management_settings \<Rightarrow> int \<Rightarrow> config_file \<Rightarrow> desk \<Rightarrow> bool" where
  "as_declared lower settings retention desired d \<longleftrightarrow>
     (\<forall>team \<in> set (opt_list (cf_teams desired)). team_as_declared lower team d) \<and>
     (\<forall>p \<in> set (opt_list (cf_projects desired)). project_as_declared retention p d) \<and>
     (cf_teams desired \<noteq> None \<longrightarrow> teams_settled (ms_team_orphan_policy settings) (opt_list (cf_teams desired)) d) \<and>
     (cf_projects desired \<noteq> None \<longrightarrow>
        projects_settled (ms_project_orphan_policy settings) (opt_list (cf_projects desired)) d)"

lemma committed_as_declared:
  assumes "check_sections rd settings file = Inr desired" "world_ok (dk_db d)"
    and "apply_once se desired settings retention now d = (Inr rep, t)"
  shows "as_declared (se_lower se) settings retention desired t"
proof -
  let ?d = "d\<lparr>dk_db := dk_db d\<lparr>faults := tl (faults (dk_db d))\<rparr>\<rparr>"
  have "tidy ?d"
    using assms(2) world_keyed [OF assms(2)] by (simp add: tidy_def world_ok_def members_ok_def)
  moreover have "apply_body se desired settings retention now ?d = (Inr rep, t)"
    using desk_transaction_Inr assms(3) by (simp add: apply_once_def)
  ultimately have "tidy t" using movesD [OF tidy_apply] by blast
  from committed_sync [OF assms] synced_as_declared [OF this] show ?thesis by (auto simp: as_declared_def)
qed

text \<open>C7. A synchronisation that commits leaves the database as the configuration file declares it.
  Every declared team is there exactly once under its name and is no orphan, and what makes a user a member of it
  is exactly one row with the highest role the file grants him by address or by group (administrator if one grant
  says so, else contributor), or none where it grants none. Every declared project is there exactly once under
  its slug, owned by the declared team, with the declared name, limits, webhook and alert settings, and is no
  orphan. What the file does not declare is gone under the policy \<open>delete\<close> and marked as an orphan under
  \<open>readonly\<close>.\<close>

theorem config_applied:
  assumes "check_sections rd settings file = Inr desired" "world_ok (dk_db d)"
    and "apply_once se desired settings retention now d = (Inr rep, t)"
  shows "(\<forall>team \<in> set (opt_list (cf_teams desired)). team_as_declared (se_lower se) team t) \<and>
    (\<forall>p \<in> set (opt_list (cf_projects desired)). project_as_declared retention p t) \<and>
    (cf_teams desired \<noteq> None \<longrightarrow> teams_settled (ms_team_orphan_policy settings) (opt_list (cf_teams desired)) t) \<and>
    (cf_projects desired \<noteq> None \<longrightarrow>
       projects_settled (ms_project_orphan_policy settings) (opt_list (cf_projects desired)) t)"
  using committed_as_declared [OF assms] by (simp only: as_declared_def)

section \<open>No refusal halfway\<close>

definition db_error :: "error \<Rightarrow> bool" where
  "db_error e \<longleftrightarrow> (\<exists>x. e = Db x)"

lemma db_errors [simp]: "db_error (constraint_failed what)" "db_error foreign_key_failed"
  by (simp_all add: db_error_def constraint_failed_def foreign_key_failed_def)

definition fails_only :: "(error \<Rightarrow> bool) \<Rightarrow> ('s, 'a) op \<Rightarrow> bool" where
  "fails_only E m \<longleftrightarrow> (\<forall>s e t. m s = (Inl e, t) \<longrightarrow> E e)"

lemma fails_onlyI: "(\<And>s e t. m s = (Inl e, t) \<Longrightarrow> E e) \<Longrightarrow> fails_only E m"
  by (auto simp: fails_only_def)

lemma fails_onlyD: "fails_only E m \<Longrightarrow> m s = (Inl e, t) \<Longrightarrow> E e"
  by (auto simp: fails_only_def)

lemma fails_only_bind: "fails_only E m \<Longrightarrow> (\<And>a. fails_only E (f a)) \<Longrightarrow> fails_only E (op_bind m f)"
  by (rule fails_onlyI, erule op_bind_cases) (auto dest: fails_onlyD)

lemma fails_only_ok: "fails_only E (op_ok v)"
  by (simp add: fails_only_def)

lemma fails_only_each: "(\<And>x. fails_only E (f x)) \<Longrightarrow> fails_only E (op_each f xs)"
  by (induction xs) (auto simp del: op_simps intro: fails_only_bind fails_only_ok)

lemma fails_only_fold: "(\<And>x acc. fails_only E (f x acc)) \<Longrightarrow> fails_only E (op_fold f xs acc)"
  by (induction xs arbitrary: acc) (auto simp del: op_simps intro: fails_only_bind fails_only_ok)

lemma sync_team_error: "fails_only db_error (sync_team lower now team rep)"
proof -
  have 1: "fails_only db_error (upsert_team lower now team rep)"
    by (rule fails_onlyI) (auto simp: upsert_team_def op_bind_def in_db_def insert_team_def Let_def
        split: option.splits if_splits prod.splits sum.splits)
  have 2: "fails_only db_error (insert_member_grant tid g)" for tid g
    by (rule fails_onlyI) (auto simp: insert_member_grant_def split: if_splits)
  have 3: "fails_only db_error (insert_group_grant tid g)" for tid g
    by (rule fails_onlyI) (auto simp: insert_group_grant_def split: if_splits)
  have 4: "fails_only db_error (reconcile_one lower now tid u)" for tid u
    by (rule fails_onlyI) (auto simp: reconcile_one_def reconcile_member_def op_bind_def in_db_def upsert_member_def
        split: option.splits if_splits prod.splits sum.splits)
  have 5: "fails_only db_error (reconcile_users lower now tid)" for tid
    by (rule fails_onlyI) (auto simp: reconcile_users_def dest: fails_onlyD [OF fails_only_each [OF 4]])
  have 6: "fails_only db_error (clear_grants tid)" for tid
    by (rule fails_onlyI) (simp add: clear_grants_def)
  show ?thesis
    unfolding sync_team_def split_def
    by (intro fails_only_bind 1 5 6 fails_only_ok fails_only_each 2 3)
qed

text \<open>The first half fails with the driver only, once the plan and the notifications are accepted.\<close>

lemma half_error:
  assumes "sync_teams_half se desired settings now d = (Inl e, t)"
    and "validate_plan desired settings (team_names d) (owned_projects d) = Inr ()"
    and "\<And>n. ms_notification_source settings = Yaml \<Longrightarrow> cf_notifications desired = Some n \<Longrightarrow>
      validate_stored (se_url se) n = Inr ()"
  shows "db_error e"
proof -
  have "fails_only db_error (store_notifications (se_url se) desired settings)"
    using assms(3) by (intro fails_onlyI) (auto simp: store_notifications_def split: option.splits sum.splits if_splits)
  moreover have "fails_only db_error (adopt_teams settings)" "fails_only db_error (adopt_projects settings)"
    by (auto intro!: fails_onlyI simp: adopt_teams_def adopt_projects_def)
  ultimately have "fails_only db_error (op_bind (store_notifications (se_url se) desired settings) (\<lambda>_.
     op_bind (adopt_teams settings) (\<lambda>_.
     op_bind (op_fold (sync_team (se_lower se) now) (opt_list (cf_teams desired)) (start_report now desired settings)) (\<lambda>rep.
     op_bind (adopt_projects settings) (\<lambda>_. op_ok rep)))))"
    by (intro fails_only_bind fails_only_ok fails_only_fold sync_team_error)
  from fails_onlyD [OF this] assms(1,2) show ?thesis
    unfolding sync_teams_half_def by (subst (asm) op_bind_run [of _ d "()" d]) auto
qed

text \<open>The loop over the projects: every reference is known, every interval in range.\<close>

lemma projects_part_error:
  assumes "sync_projects_part batch desired settings retention now rep h = (Inl e, t)" "keyed_projects h"
    and "\<And>p. p \<in> set (opt_list (cf_projects desired)) \<Longrightarrow> pc_team p \<in> set (team_names h)"
    and "\<And>p. p \<in> set (opt_list (cf_projects desired)) \<Longrightarrow> declared_interval p \<noteq> 0 \<Longrightarrow>
      validate_interval (declared_interval p) = Inr ()"
    and "distinct (map pc_slug (opt_list (cf_projects desired)))"
  shows "db_error e"
proof (cases "cf_projects desired")
  case (Some ps)
  let ?I = "\<lambda>s. keyed_projects s \<and> team_side s = team_side h"
  have step: "?I u" if "?I s" "sync_project now retention x acc s = (Inr v, u)" for x acc s v u
    using sync_project_turn [OF that(2)] that(1) by (simp add: project_turn_def)
  have err: "db_error e" if x: "x \<in> set ps" "?I s" "sync_project now retention x acc s = (Inl e, u)" for x acc s e u
  proof -
    have "team_named (db_teams (dk_db s)) (pc_team x) \<noteq> None"
      using assms(3) [of x] x(1,2) Some by (simp add: named_None team_names_def team_side_def)
    with x(3) show ?thesis
      by (cases rule: sync_project_cases)
        (use assms(4) [of x] x(1) Some in \<open>auto simp: update_project_row_def insert_project_row_def
          insert_project_def Let_def db_error_def constraint_failed_def foreign_key_failed_def split: if_splits\<close>)
  qed
  from assms(1) consider (sync) "op_fold (sync_project now retention) ps rep h = (Inl e, t)"
    | (prune) rep1 d1 where "op_fold (sync_project now retention) ps rep h = (Inr rep1, d1)"
      "prune_projects batch (ms_project_orphan_policy settings) now ps rep1 d1 = (Inl e, t)"
    by (auto simp: sync_projects_part_def Some elim!: op_bind_cases)
  then show ?thesis
  proof cases
    case sync
    show ?thesis
      by (rule op_fold_no_error [where I = ?I and A = "set ps", OF _ _ sync])
        (use step err assms(2) in \<open>blast+\<close>)
  next
    case prune
    have "distinct (map pc_slug ps)" using assms(5) Some by simp
    note ph = projects_phase [OF prune(1) this assms(2)]
    have "keyed_projects d1" "\<forall>p \<in> set ps. project_synced retention p d1" using ph by blast+
    from prune_projects_phase(1) [OF prune(2) this] show ?thesis by simp
  qed
qed (use assms(1) in \<open>simp add: sync_projects_part_def\<close>)

lemma prune_teams_no_error:
  assumes "prune_teams policy now ts rep u = (Inl e, t)"
    and "\<And>row p. policy = DeleteOrphan \<Longrightarrow> row \<in> set (db_teams (dk_db u)) \<Longrightarrow> tm_name row \<notin> tc_name ` set ts \<Longrightarrow>
      p \<in> set (db_projects (dk_db u)) \<Longrightarrow> prj_team_id p \<noteq> tm_id row"
  shows False
proof -
  let ?rows = "filter (\<lambda>row. tm_name row \<notin> set (map tc_name ts)) (db_teams (dk_db u))"
  have run: "op_fold (prune_team policy now) ?rows rep u = (Inl e, t)" using assms(1) by (simp add: prune_teams_def)
  let ?I = "\<lambda>s. db_projects (dk_db s) = db_projects (dk_db u)"
  show False
  proof (rule op_fold_no_error [where E = "\<lambda>_. False" and I = ?I and A = "set ?rows", OF _ _ run])
    show "?I t" if "?I s" "prune_team policy now x acc s = (Inr v, t)" for x acc s v t
      using prune_team_effect(2) [OF that(2)] that(1) by simp
    show False if "x \<in> set ?rows" "?I s" "prune_team policy now x acc s = (Inl e, t)" for x acc s e t
      using that assms(2) [of x]
      by (auto simp: prune_team_def mark_team_orphan_def Let_def filter_empty_conv split: orphan_policy.splits if_splits)
  qed simp_all
qed

text \<open>A project the file leaves in a team that goes is in the plan's list of what remains.\<close>

lemma plan_covers:
  assumes "validate_plan desired settings (team_names d) (owned_projects d) = Inr ()"
    and "cf_teams desired = Some ts" "ms_team_orphan_policy settings = DeleteOrphan"
    and "y \<in> set (db_teams (dk_db d))" "tm_name y \<notin> tc_name ` set ts"
    and "r \<in> set (db_projects (dk_db d))" "prj_team_id r = tm_id y"
  shows "final_project_team desired settings (prj_slug r) (tm_name y) \<noteq> Some (tm_name y)"
proof
  assume fin: "final_project_team desired settings (prj_slug r) (tm_name y) = Some (tm_name y)"
  have "(prj_slug r, tm_name y) \<in> set (owned_projects d)"
    using assms(4,6,7) by (force simp: owned_projects_def)
  then have "remaining_projects desired settings (owned_projects d) (tm_name y) \<noteq> []"
    using fin by (auto simp: remaining_projects_def filter_empty_conv)
  moreover have "tm_name y \<in> set (team_names d)" using assms(4) by (simp add: team_names_def)
  ultimately show False
    using assms(1,2,3,5) by (auto simp: validate_plan_ok removal_errors_def filter_empty_conv)
qed

text \<open>A declared project is owned by the team it declares.\<close>

lemma declared_owner:
  assumes "c \<in> set ps" "\<forall>p \<in> set ps. project_synced retention p u" "keyed_projects u" "keyed (db_teams (dk_db u))"
    and "row \<in> set (db_teams (dk_db u))" "p \<in> set (db_projects (dk_db u))" "prj_team_id p = tm_id row"
    and "prj_slug p = pc_slug c"
  shows "pc_team c = tm_name row"
proof -
  from assms(1,2) obtain r x where x: "project_named (db_projects (dk_db u)) (pc_slug c) = Some r"
    "team_named (db_teams (dk_db u)) (pc_team c) = Some x" "row_declared retention c (tm_id x) r u"
    by (auto simp: project_synced_def)
  have "r = p" using named_Some [OF assms(3,6)] assms(8) x(1) by simp
  then have "tm_id x = tm_id row" using x(3) assms(7) by (simp add: row_declared_def)
  with named_mem [OF x(2)] assms(4,5) distinct_map_inj [of tm_id "db_teams (dk_db u)" x row] show ?thesis
    by (auto simp: keyed_by_def)
qed

text \<open>After the first half every team the file or the database knew is there.\<close>

lemma known_team:
  assumes "halfway lower desired d h" "name \<in> (case cf_teams desired of Some ts \<Rightarrow> tc_name ` set ts | None \<Rightarrow> set (team_names d))"
  shows "name \<in> set (team_names h)"
proof (cases "cf_teams desired")
  case (Some ts)
  with assms obtain team where "team \<in> set ts" "name = tc_name team" "team_synced lower team h"
    by (auto simp: halfway_def)
  then obtain x where "team_named (db_teams (dk_db h)) name = Some x" by (auto simp: team_synced_def)
  from named_key [OF this] show ?thesis by (simp add: team_names_def)
qed (use assms in \<open>simp add: halfway_def\<close>)

text \<open>After the projects' part an undeclared team owns a project only if it did before and the file
  leaves it there.\<close>

lemma owner_before:
  assumes half: "halfway lower desired d h" and keyed: "keyed (db_teams (dk_db d))"
    and run: "sync_projects_part batch desired settings retention now rep h = (Inr rep', u)"
    and slugs: "distinct (map pc_slug (opt_list (cf_projects desired)))"
    and plan: "validate_plan desired settings (team_names d) (owned_projects d) = Inr ()"
    and ts: "cf_teams desired = Some ts" and row: "row \<in> set (db_teams (dk_db u))" "tm_name row \<notin> tc_name ` set ts"
    and p: "p \<in> set (db_projects (dk_db u))" "prj_team_id p = tm_id row"
  shows "\<exists>y r. y \<in> set (db_teams (dk_db d)) \<and> tm_name y = tm_name row \<and> r \<in> set (db_projects (dk_db d)) \<and>
    prj_team_id r = tm_id y \<and> final_project_team desired settings (prj_slug r) (tm_name y) = Some (tm_name y)"
proof -
  have hk: "keyed (db_teams (dk_db h))" "keyed_projects h" using half by (simp_all add: halfway_def)
  note part = projects_part_ok [OF run hk(2) slugs]
  have rowh: "team_named (db_teams (dk_db h)) (tm_name row) = Some row"
    using named_Some [OF hk(1)] row(1) part(1) by (simp add: team_side_def)
  obtain y where y: "team_named (db_teams (dk_db d)) (tm_name row) = Some y" "tm_id y = tm_id row"
    using halfway_team [OF half _ rowh] row(2) ts by auto
  have y': "y \<in> set (db_teams (dk_db d))" "tm_name y = tm_name row" using named_mem [OF y(1)] by simp_all
  show ?thesis
  proof (cases "cf_projects desired")
    case None
    then have "u = h" using run by (simp add: sync_projects_part_def)
    with halfway_project [OF half, of p] p obtain r where
      "r \<in> set (db_projects (dk_db d))" "prj_team_id r = tm_id row" by auto
    with y y' None show ?thesis
      by (intro exI [of _ y] exI [of _ r]) (simp add: final_project_team_def)
  next
    case (Some ps)
    have "distinct (map pc_slug ps)" using slugs Some by simp
    from run obtain rep1 d1 where d1: "op_fold (sync_project now retention) ps rep h = (Inr rep1, d1)"
      "prune_projects batch (ms_project_orphan_policy settings) now ps rep1 d1 = (Inr rep', u)"
      by (auto simp: sync_projects_part_def op_bind_Inr Some)
    note ph = projects_phase [OF d1(1) \<open>distinct (map pc_slug ps)\<close> hk(2)]
    have d1k: "keyed_projects d1" "\<forall>p \<in> set ps. project_synced retention p d1" using ph by blast+
    note pr = prune_projects_phase [OF d1(2) d1k]
    have undeclared: "prj_slug p \<notin> pc_slug ` set ps"
      using declared_owner [OF _ pr(4) pr(6) _ row(1) p] references_known [OF plan] hk(1) part(1) Some ts row(2)
      by (fastforce simp: team_side_def)
    then have ro: "ms_project_orphan_policy settings = Readonly"
      using pr(3) p(1) by (auto simp: projects_settled_def)
    obtain q where q: "q \<in> set (db_projects (dk_db d1))" "prj_slug q = prj_slug p" "prj_team_id q = prj_team_id p"
      using pr(5) p(1) by (auto simp: orphan_projects.going_def)
    have "project_named (db_projects (dk_db h)) (prj_slug p) = Some q"
      using ph undeclared named_Some [OF d1k(1) q(1)] q(2) by simp
    from named_mem [OF this] have "q \<in> set (db_projects (dk_db h))" by simp
    from halfway_project [OF half this] q p(2) y(2) obtain r where
      r: "r \<in> set (db_projects (dk_db d))" "prj_slug r = prj_slug p" "prj_team_id r = tm_id y" by auto
    have "List.find (\<lambda>c. pc_slug c = prj_slug p) ps = None"
      using undeclared unfolding find_None_iff by (metis imageI)
    with r y' ro Some show ?thesis
      by (intro exI [of _ y] exI [of _ r]) (simp add: final_project_team_def)
  qed
qed

lemma desk_transaction_Inl:
  assumes "desk_transaction body d = (Inl e, t)"
  shows "t = d\<lparr>dk_db := dk_db d\<lparr>faults := tl (faults (dk_db d)), rng_pos := rng_pos (dk_db t)\<rparr>\<rparr>"
  using assms by (auto simp: desk_transaction_def Let_def split: list.splits option.splits prod.splits sum.splits)

text \<open>C8. A plan the validation accepts is never refused halfway: once the checks of the file and the
  ownership graph have passed, a synchronisation of a consistent database can fail only with an error of
  the driver, never because a project names an unknown team, an
  interval is out of range or a team to be deleted still owns projects. The failure leaves every table, the
  grants, the notification settings, the severities and the intervals as they were; only the fault script and
  the random draws have moved.\<close>

theorem accepted_plan_applies:
  assumes "check_sections rd settings file = Inr desired" "rd_url rd = se_url se" "world_ok (dk_db d)"
    and "validate_plan desired settings (team_names d) (owned_projects d) = Inr ()"
    and "apply_once se desired settings retention now d = (Inl e, t)"
  shows "db_error e \<and>
    t = d\<lparr>dk_db := dk_db d\<lparr>faults := tl (faults (dk_db d)), rng_pos := rng_pos (dk_db t)\<rparr>\<rparr>"
proof
  show "t = d\<lparr>dk_db := dk_db d\<lparr>faults := tl (faults (dk_db d)), rng_pos := rng_pos (dk_db t)\<rparr>\<rparr>"
    using assms(5) unfolding apply_once_def by (rule desk_transaction_Inl)
next
  let ?d = "d\<lparr>dk_db := dk_db d\<lparr>faults := tl (faults (dk_db d))\<rparr>\<rparr>"
  note parsed = check_sections_ok [OF assms(1)]
  have "world_ok (dk_db ?d)" using assms(3) by simp
  note k = world_keyed [OF this]
  have plan: "validate_plan desired settings (team_names ?d) (owned_projects ?d) = Inr ()"
    using assms(4) by (simp add: team_names_def owned_projects_def)
  from assms(5) consider (fault) "db_error e"
    | (body) t' where "apply_body se desired settings retention now ?d = (Inl e, t')"
    by (auto simp: apply_once_def desk_transaction_def Let_def db_error_def
        split: list.splits option.splits prod.splits sum.splits)
  then show "db_error e"
  proof cases
    case body
    then consider (half) "sync_teams_half se desired settings now ?d = (Inl e, t')"
      | (projects) rep1 h where "sync_teams_half se desired settings now ?d = (Inr rep1, h)"
        "sync_projects_part (se_batch se) desired settings retention now rep1 h = (Inl e, t')"
      | (teams) rep1 h rep2 u where "sync_teams_half se desired settings now ?d = (Inr rep1, h)"
        "sync_projects_part (se_batch se) desired settings retention now rep1 h = (Inr rep2, u)"
        "sync_teams_part desired settings now rep2 u = (Inl e, t')"
      by (auto simp: apply_body_halves prune_and_sync_parts populate_report_def elim!: op_bind_cases)
    then show "db_error e"
    proof cases
      case half
      show ?thesis by (rule half_error [OF half plan]) (use parsed(4) assms(2) in simp)
    next
      case projects
      note hw = halfway_reached [OF projects(1) parsed(2) k]
      show ?thesis
        by (rule projects_part_error [OF projects(2) _ known_team [OF hw(1) references_known [OF plan]] parsed(3) parsed(1)])
          (use hw(1) in \<open>simp_all add: halfway_def\<close>)
    next
      case teams
      note hw = halfway_reached [OF teams(1) parsed(2) k]
      from teams(3) obtain ts where ts: "cf_teams desired = Some ts"
        "prune_teams (ms_team_orphan_policy settings) now ts rep2 u = (Inl e, t')"
        by (auto simp: sync_teams_part_def split: option.splits elim!: op_bind_cases)
      have False
        by (rule prune_teams_no_error [OF ts(2)])
          (use owner_before [OF hw(1) k(1) teams(2) parsed(1) plan ts(1)] plan_covers [OF plan ts(1)] in metis)
      then show ?thesis ..
    qed
  qed
qed

section \<open>Witnesses\<close>

definition example_readers :: file_readers where
  "example_readers = \<lparr>rd_yaml = \<lambda>_. None, rd_file = \<lambda>_. None, rd_labels = \<lambda>_. None, rd_url = \<lambda>_. None,
     rd_scheme = \<lambda>_. None, rd_debug = \<lambda>s. s, rd_lower = \<lambda>s. s\<rparr>"

definition example_file :: config_file where
  "example_file =
     \<lparr>cf_version = 1, cf_notifications = None,
      cf_projects = Some [\<lparr>pc_severity = None, pc_interval = None, pc_slug = ''shop'', pc_name = ''Shop'',
        pc_team = ''web'', pc_retention_events = None, pc_retention_days = None, pc_webhook_url = None\<rparr>],
      cf_teams = Some [\<lparr>tc_name = ''web'', tc_members = Some [], tc_sso_groups = None\<rparr>],
      cf_project_labels = []\<rparr>"

definition example_management :: management_settings where
  "example_management = default_management\<lparr>ms_project_source := Yaml, ms_team_source := Yaml,
     ms_project_orphan_policy := DeleteOrphan, ms_team_orphan_policy := DeleteOrphan\<rparr>"

definition example_sync :: sync_env where
  "example_sync = \<lparr>se_url = \<lambda>_. None, se_lower = \<lambda>s. s, se_batch = 100\<rparr>"

text \<open>An empty database, but for a team and a project the file does not declare.\<close>

definition bare_db :: db where
  "bare_db =
     example_db\<lparr>db_projects := [example_project], db_issues := [], db_events := [],
       db_teams := [\<lparr>tm_id = ''t'', tm_short_id = ''s'', tm_name = ''old'', tm_created_at = 0, tm_updated_at = 0,
         tm_orphaned_at = None\<rparr>]\<rparr>"

definition example_desk :: desk where
  "example_desk =
     \<lparr>dk_db = bare_db, dk_config = default_config, dk_severities = \<lambda>_. [], dk_intervals = \<lambda>_. 0,
      dk_member_grants = [], dk_group_grants = [], dk_sso_groups = []\<rparr>"

lemma example_file_ok: "check_sections example_readers example_management example_file = Inr example_file"
proof -
  have "validate_slug ''shop'' = Inr ()" by (simp add: validate_slug_ok ascii_defs)
  moreover have "trim ''Shop'' \<noteq> []" "trim ''web'' \<noteq> []"
    by (simp_all add: trim_def trim_start_def trim_end_def is_whitespace_def white_space_def char_width_def)
  ultimately show ?thesis
    by (simp add: check_sections_def example_readers_def example_management_def default_management_def
        example_file_def validate_projects_def validate_project_slugs_def errors_res_def validate_project_def
        validate_teams_def validate_team_grants_def)
qed

lemma example_world: "world_ok (dk_db example_desk)"
  by (simp add: world_ok_def store_ok_def db_ok_defs projects_ok_def rules_ok_def users_ok_def teams_ok_def
      members_ok_def example_desk_def bare_db_def example_db_def example_project_def)

lemma example_run:
  "case apply_once example_sync example_file example_management 1000 5 example_desk of
     (Inr rep, t) \<Rightarrow> True | (Inl e, t) \<Rightarrow> False"
  by code_simp

theorem config_applied_witness:
  "\<exists>rep t. apply_once example_sync example_file example_management 1000 5 example_desk = (Inr rep, t) \<and>
     (\<forall>team \<in> set (opt_list (cf_teams example_file)). team_as_declared (\<lambda>s. s) team t) \<and>
     (\<forall>p \<in> set (opt_list (cf_projects example_file)). project_as_declared 1000 p t) \<and>
     projects_settled DeleteOrphan (opt_list (cf_projects example_file)) t"
proof -
  obtain rep t where run: "apply_once example_sync example_file example_management 1000 5 example_desk = (Inr rep, t)"
    using example_run by (auto split: prod.splits sum.splits)
  from config_applied [OF example_file_ok example_world run] run show ?thesis
    by (auto simp: example_file_def example_management_def example_sync_def)
qed

lemma example_plan:
  "validate_plan example_file example_management (team_names example_desk) (owned_projects example_desk) = Inr ()"
  by code_simp

theorem accepted_plan_applies_witness:
  "\<exists>t. apply_once example_sync example_file example_management 1000 5
         (example_desk\<lparr>dk_db := bare_db\<lparr>faults := [Some locked]\<rparr>\<rparr>) = (Inl (Db locked), t) \<and> db_error (Db locked) \<and>
     t = example_desk\<lparr>dk_db := bare_db\<lparr>faults := []\<rparr>\<rparr>"
proof -
  let ?d = "example_desk\<lparr>dk_db := bare_db\<lparr>faults := [Some locked]\<rparr>\<rparr>"
  have run: "apply_once example_sync example_file example_management 1000 5 ?d =
      (Inl (Db locked), ?d\<lparr>dk_db := bare_db\<lparr>faults := []\<rparr>\<rparr>)"
    by (simp add: apply_once_def desk_transaction_def)
  have rd: "rd_url example_readers = se_url example_sync" by (simp add: example_readers_def example_sync_def)
  have "world_ok (dk_db ?d)" using example_world by (simp add: example_desk_def)
  moreover have "validate_plan example_file example_management (team_names ?d) (owned_projects ?d) = Inr ()"
    using example_plan by (simp add: team_names_def owned_projects_def example_desk_def)
  ultimately have "db_error (Db locked) \<and> ?d\<lparr>dk_db := bare_db\<lparr>faults := []\<rparr>\<rparr> =
      ?d\<lparr>dk_db := (dk_db ?d)\<lparr>faults := tl (faults (dk_db ?d)), rng_pos := rng_pos (dk_db (?d\<lparr>dk_db := bare_db\<lparr>faults := []\<rparr>\<rparr>))\<rparr>\<rparr>"
    by (rule accepted_plan_applies [OF example_file_ok rd _ _ run])
  with run show ?thesis by auto
qed

end
