(* ===== verification/Server.thy ===== *)
theory Server
  imports ConfigSync Alerting Lockout Access RateLimit
begin

text \<open>
  What the HTTP handlers share: the state of the server, the part of the configuration they read, the
  answers (\<open>src/api/projects.rs\<close>, \<open>src/api/teams.rs\<close> and \<open>src/auth/handlers.rs\<close> each map an
  \<open>error\<close> to a status), the extractors of the signed-in user, the resolution of public ids, and the
  favourites of \<open>src/adapters/sqlite/favorite.rs\<close>.

  A handler runs alone: the calls of one request are not interleaved with those of another, except
  that a retried write sees what the interference of its retry loop does. A request arrives decoded:
  the JSON, path and query extractors of the web framework are outside the model.
\<close>

section \<open>State\<close>

text \<open>A ceremony of sign-in that waits for its answer, a row of \<open>auth_challenges\<close>.\<close>

record challenge =
  ch_id :: string
  ch_purpose :: string
  ch_state :: string
  ch_expires_at :: timestamp

text \<open>The database with its singleton rows is \<open>hub\<close>; the tables of grants are those of
  \<^theory_text>\<open>ConfigSync\<close>. \<open>sv_instants\<close> answers the reads of the monotonic clock.\<close>

record server =
  sv_hub :: hub
  sv_member_grants :: "member_grant list"
  sv_group_grants :: "team_group_grant list"
  sv_sso_groups :: "sso_group list"
  sv_favorites :: "(uuid \<times> uuid) list"
  sv_guard :: login_guard
  sv_instants :: "nat \<Rightarrow> int"
  sv_instant_tick :: nat
  sv_challenges :: "challenge list"
  sv_limiter :: rate_limiter

abbreviation sv_db :: "server \<Rightarrow> db" where
  "sv_db s \<equiv> hub_db (sv_hub s)"

definition set_db :: "db \<Rightarrow> server \<Rightarrow> server" where
  "set_db d s = s\<lparr>sv_hub := (sv_hub s)\<lparr>hub_db := d\<rparr>\<rparr>"

definition on_hub :: "(hub, 'a) op \<Rightarrow> (server, 'a) op" where
  "on_hub m s = (case m (sv_hub s) of (r, h) \<Rightarrow> (r, s\<lparr>sv_hub := h\<rparr>))"

definition on_tables :: "(db, 'a) op \<Rightarrow> (server, 'a) op" where
  "on_tables m s = (case m (sv_db s) of (r, d) \<Rightarrow> (r, set_db d s))"

text \<open>Rows of the tables outside \<open>db\<close> go with the user, project or team they refer to
  (\<open>ON DELETE CASCADE\<close>).\<close>

definition cascade :: "server \<Rightarrow> server" where
  "cascade s =
     s\<lparr>sv_favorites := filter (\<lambda>(u, p). u \<in> set (user_ids (sv_db s)) \<and> p \<in> set (project_ids (sv_db s))) (sv_favorites s),
       sv_member_grants := filter (\<lambda>g. mg_team g \<in> set (team_ids (sv_db s))) (sv_member_grants s),
       sv_group_grants := filter (\<lambda>g. tg_team g \<in> set (team_ids (sv_db s))) (sv_group_grants s),
       sv_sso_groups := filter (\<lambda>g. sg_user g \<in> set (user_ids (sv_db s))) (sv_sso_groups s)\<rparr>"

definition deleting :: "(server, 'a) op \<Rightarrow> (server, 'a) op" where
  "deleting m s = (case m s of (r, t) \<Rightarrow> (r, cascade t))"

text \<open>The view of the reconciliation of grants on the same state.\<close>

definition desk_of :: "server \<Rightarrow> desk" where
  "desk_of s =
     \<lparr>dk_db = sv_db s, dk_config = hub_config (sv_hub s), dk_severities = hub_severities (sv_hub s),
      dk_intervals = hub_intervals (sv_hub s), dk_member_grants = sv_member_grants s,
      dk_group_grants = sv_group_grants s, dk_sso_groups = sv_sso_groups s\<rparr>"

definition put_desk :: "desk \<Rightarrow> server \<Rightarrow> server" where
  "put_desk d s =
     s\<lparr>sv_hub := (sv_hub s)\<lparr>hub_db := dk_db d, hub_config := dk_config d, hub_severities := dk_severities d,
         hub_intervals := dk_intervals d\<rparr>,
       sv_member_grants := dk_member_grants d, sv_group_grants := dk_group_grants d,
       sv_sso_groups := dk_sso_groups d\<rparr>"

definition on_desk :: "(desk, 'a) op \<Rightarrow> (server, 'a) op" where
  "on_desk m s = (case m (desk_of s) of (r, d) \<Rightarrow> (r, put_desk d s))"

text \<open>The wall clock, the monotonic clock, and the random draws made outside the repositories.\<close>

definition clock_now :: "(server, 'e, timestamp) run" where
  "clock_now s = (Inr (hub_clock (sv_hub s) (hub_tick (sv_hub s))),
     s\<lparr>sv_hub := (sv_hub s)\<lparr>hub_tick := Suc (hub_tick (sv_hub s))\<rparr>\<rparr>)"

definition instant_now :: "(server, 'e, int) run" where
  "instant_now s = (Inr (sv_instants s (sv_instant_tick s)), s\<lparr>sv_instant_tick := Suc (sv_instant_tick s)\<rparr>)"

definition new_uuid :: "(server, 'e, uuid) run" where
  "new_uuid s = (let d = sv_db s in (Inr (rng_uuid d (rng_pos d)), set_db (d\<lparr>rng_pos := Suc (rng_pos d)\<rparr>) s))"

definition new_token :: "(server, 'e, string) run" where
  "new_token s = (let d = sv_db s in (Inr (rng_short d (rng_pos d)), set_db (d\<lparr>rng_pos := Suc (rng_pos d)\<rparr>) s))"

text \<open>A repository operation that reads the wall clock itself.\<close>

definition timed :: "(timestamp \<Rightarrow> (db, 'a) op) \<Rightarrow> (server, 'a) op" where
  "timed m = op_bind clock_now (\<lambda>now. on_tables (m now))"

definition timed_hub :: "(timestamp \<Rightarrow> (hub, 'a) op) \<Rightarrow> (server, 'a) op" where
  "timed_hub m = op_bind clock_now (\<lambda>now. on_hub (m now))"

section \<open>Configuration\<close>

record sso_status =
  ss_provider_name :: string
  ss_allowed_email_domains :: "string list"
  ss_require_approval :: bool

record passkey_status =
  ps_rp_id :: string
  ps_rp_origin :: string
  ps_max_per_user :: int

record smtp_config =
  sm_host :: string
  sm_port :: nat
  sm_from :: "string option"

text \<open>\<open>ap_auth\<close> holds what authentication reads, the base URL among it. The library functions the
  handlers call are here too: the UUID parser, the URL parsers, argon2 (\<open>ap_hash\<close> with a
  random salt, \<open>ap_phc\<close> the check a stored hash stands for), and the text of a driver error.\<close>

record app =
  ap_auth :: auth_config
  ap_management :: management_settings
  ap_allow_invites :: bool
  ap_events_retention :: int
  ap_org_name :: string
  ap_email_login :: bool
  ap_admin_enabled :: bool
  ap_mailer :: bool
  ap_sso_rename :: bool
  ap_assign_default_teams :: bool
  ap_sso :: sso_status
  ap_webauthn :: bool
  ap_passkey :: "passkey_status option"
  ap_smtp_enabled :: bool
  ap_smtp :: "smtp_config option"
  ap_deploy_url :: "string option"
  ap_sync_report :: sync_report
  ap_alerts :: alert_config
  ap_externals :: externals
  ap_repo :: repo
  ap_env :: env
  ap_parse_uuid :: "string \<Rightarrow> uuid option"
  ap_url_scheme :: "string \<Rightarrow> string option"
  ap_driver_text :: "sqlx_error \<Rightarrow> string"
  ap_hash :: "string \<Rightarrow> string \<Rightarrow> string option"
  ap_phc :: "string \<Rightarrow> (string \<Rightarrow> bool option) option"

abbreviation ap_base_url :: "app \<Rightarrow> string" where "ap_base_url app \<equiv> ac_base_url (ap_auth app)"
abbreviation ap_admin_users :: "app \<Rightarrow> admin_users" where "ap_admin_users app \<equiv> ac_admin_users (ap_auth app)"
abbreviation ap_oidc :: "app \<Rightarrow> bool" where "ap_oidc app \<equiv> ac_oidc (ap_auth app)"

section \<open>Answers\<close>

text \<open>What a handler answers instead of its result: an error with its status and message, the 429 of the
  login guard with its \<open>Retry-After\<close>, or nothing at all because the task panicked.\<close>

datatype failure = Refusal nat string | RetryAfter nat | Crash string

type_synonym 'a handler = "(server, failure, nat \<times> 'a) run"

definition error_status :: "bool \<Rightarrow> error \<Rightarrow> nat" where
  "error_status serde_is_bad_request e =
     (case e of
        NotFound _ \<Rightarrow> 404
      | Validation _ \<Rightarrow> 400
      | Serde _ \<Rightarrow> (if serde_is_bad_request then 400 else 500)
      | Auth _ \<Rightarrow> 401
      | Forbidden _ \<Rightarrow> 403
      | Conflict _ \<Rightarrow> 409
      | RateLimited \<Rightarrow> 429
      | DbBusy _ _ \<Rightarrow> 503
      | _ \<Rightarrow> 500)"

definition hide_internal :: "(sqlx_error \<Rightarrow> string) \<Rightarrow> nat \<Rightarrow> error \<Rightarrow> failure" where
  "hide_internal drv status e =
     Refusal status (if 500 \<le> status then ''internal server error'' else error_to_string drv e)"

text \<open>\<open>error_response\<close> of the project handlers, \<open>ApiError\<close> of the team handlers and
  \<open>AuthError\<close> of the sign-in handlers.\<close>

definition error_response :: "app \<Rightarrow> error \<Rightarrow> failure" where
  "error_response app e =
     (case e of Panic m \<Rightarrow> Crash m | _ \<Rightarrow> hide_internal (ap_driver_text app) (error_status True e) e)"

definition api_error :: "app \<Rightarrow> error \<Rightarrow> failure" where
  "api_error app e =
     (case e of
        Panic m \<Rightarrow> Crash m
      | Alertmanager message \<Rightarrow> Refusal 500 message
      | _ \<Rightarrow> hide_internal (ap_driver_text app) (error_status False e) e)"

definition auth_error :: "app \<Rightarrow> error \<Rightarrow> failure" where
  "auth_error app e =
     (case e of Panic m \<Rightarrow> Crash m | _ \<Rightarrow> hide_internal (ap_driver_text app) (error_status False e) e)"

text \<open>\<open>map_err\<close> on an operation, and an error response made on the spot.\<close>

definition answer :: "(error \<Rightarrow> failure) \<Rightarrow> ('s, 'a) op \<Rightarrow> ('s, failure, 'a) run" where
  "answer f m s = (case m s of (Inl e, t) \<Rightarrow> (Inl (f e), t) | (Inr v, t) \<Rightarrow> (Inr v, t))"

definition json_error :: "nat \<Rightarrow> string \<Rightarrow> ('s, failure, 'a) run" where
  "json_error status message = op_err (Refusal status message)"

abbreviation ok_json :: "'a \<Rightarrow> 'a handler" where "ok_json v \<equiv> op_ok (200, v)"
abbreviation created :: "'a \<Rightarrow> 'a handler" where "created v \<equiv> op_ok (201, v)"
abbreviation no_content :: "unit handler" where "no_content \<equiv> op_ok (204, ())"

definition guard_that :: "bool \<Rightarrow> nat \<Rightarrow> string \<Rightarrow> ('s, failure, unit) run" where
  "guard_that b status message = (if b then op_ok () else json_error status message)"

text \<open>\<open>filter(|v| !v.is_empty())\<close> on an optional string.\<close>

definition non_empty :: "string option \<Rightarrow> string option" where
  "non_empty s = (case s of Some v \<Rightarrow> (if v = [] then None else Some v) | None \<Rightarrow> None)"

section \<open>The signed-in user\<close>

definition current_user :: "app \<Rightarrow> (error \<Rightarrow> failure) \<Rightarrow> headers \<Rightarrow> (server, failure, user) run" where
  "current_user app f hs =
     op_bind clock_now (\<lambda>now. answer f (on_tables (authenticate_user (ap_auth app) now hs)))"

text \<open>\<open>AdminUser\<close>: an instance manager or owner.\<close>

definition admin_user :: "user \<Rightarrow> (server, unit) op" where
  "admin_user u = op_res (require_manager u)"

section \<open>Public ids\<close>

text \<open>\<open>parse_id\<close> of the project handlers.\<close>

definition parse_id :: "app \<Rightarrow> string \<Rightarrow> (server, failure, uuid) run" where
  "parse_id app raw =
     (case ap_parse_uuid app raw of Some i \<Rightarrow> op_ok i | None \<Rightarrow> json_error 400 ''invalid id'')"

definition found :: "'a option \<Rightarrow> nat \<Rightarrow> string \<Rightarrow> ('s, failure, 'a) run" where
  "found x status message = (case x of Some v \<Rightarrow> op_ok v | None \<Rightarrow> json_error status message)"

definition resolve_project :: "app \<Rightarrow> string \<Rightarrow> (server, failure, project) run" where
  "resolve_project app public_id =
     op_bind (answer (error_response app) (on_tables (find_project_by_slug public_id))) (\<lambda>by_slug.
       case by_slug of
         Some p \<Rightarrow> op_ok p
       | None \<Rightarrow>
           op_bind (answer (error_response app) (on_tables (find_project_by_short_id public_id)))
             (\<lambda>by_short. found by_short 404 ''project not found''))"

definition resolve_team :: "app \<Rightarrow> string \<Rightarrow> (server, team) op" where
  "resolve_team app raw =
     op_bind (case ap_parse_uuid app raw of
                Some i \<Rightarrow> on_tables (find_team_by_id i)
              | None \<Rightarrow> on_tables (find_team_by_short_id raw))
       (\<lambda>team. case team of Some t \<Rightarrow> op_ok t | None \<Rightarrow> op_err (NotFound (''team '' @ raw)))"

definition resolve_team_id :: "app \<Rightarrow> string \<Rightarrow> (server, uuid) op" where
  "resolve_team_id app raw = op_bind (resolve_team app raw) (\<lambda>t. op_ok (tm_id t))"

section \<open>Roles\<close>

definition resolve_role :: "instance_role \<Rightarrow> team_role option \<Rightarrow> role option" where
  "resolve_role instance_role team_role =
     (if can_manage_instance instance_role then Some RoleAdmin
      else map_option (\<lambda>r. case r of TeamAdmin \<Rightarrow> RoleAdmin | TeamContributor \<Rightarrow> RoleMember) team_role)"

definition effective_role :: "app \<Rightarrow> user \<Rightarrow> uuid \<Rightarrow> (server, failure, role option) run" where
  "effective_role app u pid =
     (if can_manage_instance (usr_instance_role u) then op_ok (Some RoleAdmin)
      else
        op_bind (answer (error_response app) (on_tables (find_project_by_id pid))) (\<lambda>found_project.
          case found_project of
            None \<Rightarrow> op_ok None
          | Some p \<Rightarrow>
              op_bind (answer (error_response app) (on_tables (member_role (prj_team_id p) (usr_id u))))
                (\<lambda>team_role. op_ok (resolve_role (usr_instance_role u) team_role))))"

definition require_member :: "app \<Rightarrow> user \<Rightarrow> uuid \<Rightarrow> (server, failure, role) run" where
  "require_member app u pid =
     op_bind (effective_role app u pid)
       (\<lambda>role. found role 403 ''you do not have access to this project'')"

definition require_admin :: "app \<Rightarrow> user \<Rightarrow> uuid \<Rightarrow> (server, failure, unit) run" where
  "require_admin app u pid =
     op_bind (require_member app u pid)
       (\<lambda>role. guard_that (role = RoleAdmin) 403 ''admin role required for this action'')"

definition require_manager_response :: "user \<Rightarrow> (server, failure, unit) run" where
  "require_manager_response u =
     guard_that (can_manage_instance (usr_instance_role u)) 403 ''requires instance manager or owner''"

definition ui_managed :: "app \<Rightarrow> bool \<Rightarrow> (server, unit) op" where
  "ui_managed app team = op_res (require_ui_management (ap_management app) team)"

section \<open>Favourites\<close>

text \<open>One statement: it takes the next entry of the fault script.\<close>

definition stmt :: "(server, unit) op" where
  "stmt = on_tables (transaction (\<lambda>d. (Inr (), d)))"

text \<open>\<open>INSERT OR IGNORE\<close> ignores the duplicate, not the foreign keys.\<close>

definition add_favorite :: "uuid \<Rightarrow> uuid \<Rightarrow> (server, unit) op" where
  "add_favorite uid pid =
     op_bind stmt (\<lambda>_ s.
       if (uid, pid) \<in> set (sv_favorites s) then (Inr (), s)
       else if uid \<notin> set (user_ids (sv_db s)) \<or> pid \<notin> set (project_ids (sv_db s)) then (Inl foreign_key_failed, s)
       else (Inr (), s\<lparr>sv_favorites := sv_favorites s @ [(uid, pid)]\<rparr>))"

definition remove_favorite :: "uuid \<Rightarrow> uuid \<Rightarrow> (server, unit) op" where
  "remove_favorite uid pid =
     op_bind stmt (\<lambda>_ s. (Inr (), s\<lparr>sv_favorites := filter (\<lambda>f. f \<noteq> (uid, pid)) (sv_favorites s)\<rparr>))"

definition favorites_of :: "uuid \<Rightarrow> (server, uuid list) op" where
  "favorites_of uid = op_bind stmt (\<lambda>_ s. (Inr (map snd (filter (\<lambda>f. fst f = uid) (sv_favorites s))), s))"

end
