(* ===== verification/ApiIssues.thy ===== *)
theory ApiIssues
  imports Server
begin

text \<open>
  The handlers of issues, events and tag-mute rules: \<open>src/api/issues.rs\<close>, \<open>src/api/events.rs\<close>
  and \<open>src/api/mute_rules.rs\<close>. A handler takes the signed-in user as its extractor resolved it.
\<close>

section \<open>Views\<close>

record issue_view =
  iv_id :: string
  iv_project_id :: string
  iv_fingerprint :: string
  iv_title :: string
  iv_culprit :: "string option"
  iv_level :: "string option"
  iv_environment :: "string option"
  iv_release :: "string option"
  iv_status :: issue_status
  iv_muted_until :: "timestamp option"
  iv_mute_threshold :: "int option"
  iv_mute_window_seconds :: "int option"
  iv_first_seen :: timestamp
  iv_last_seen :: timestamp
  iv_event_count :: int

definition issue_view_of :: "issue \<Rightarrow> string \<Rightarrow> issue_view" where
  "issue_view_of i project_slug =
     \<lparr>iv_id = iss_short_id i, iv_project_id = project_slug, iv_fingerprint = iss_fingerprint i,
      iv_title = iss_title i, iv_culprit = iss_culprit i, iv_level = iss_level i,
      iv_environment = iss_environment i, iv_release = iss_release i, iv_status = iss_status i,
      iv_muted_until = iss_muted_until i, iv_mute_threshold = iss_mute_threshold i,
      iv_mute_window_seconds = iss_mute_window_seconds i, iv_first_seen = iss_first_seen i,
      iv_last_seen = iss_last_seen i, iv_event_count = iss_event_count i\<rparr>"

record event_view =
  ew_id :: uuid
  ew_event_id :: string
  ew_issue_id :: uuid
  ew_project_id :: uuid
  ew_payload :: val
  ew_received_at :: timestamp

definition event_view_of :: "event \<Rightarrow> event_view" where
  "event_view_of e =
     \<lparr>ew_id = ev_id e, ew_event_id = ev_event_id e, ew_issue_id = ev_issue_id e,
      ew_project_id = ev_project_id e, ew_payload = ev_payload e, ew_received_at = ev_received_at e\<rparr>"

section \<open>Listing issues\<close>

record issue_list_query =
  iq_status :: "string option"
  iq_level :: "string option"
  iq_environment :: "string option"
  iq_release :: "string option"
  iq_query :: "string option"
  iq_limit :: "int option"
  iq_offset :: "int option"
  iq_sort :: "string option"

definition blank_to_none :: "string option \<Rightarrow> string option" where
  "blank_to_none s = (case s of Some v \<Rightarrow> (if trim v = [] then None else Some v) | None \<Rightarrow> None)"

definition status_filter :: "string option \<Rightarrow> failure + issue_status option" where
  "status_filter s =
     (case blank_to_none s of
        None \<Rightarrow> Inr None
      | Some v \<Rightarrow>
          (case issue_status_from_str (trim v) of
             Inr st \<Rightarrow> Inr (Some st)
           | Inl _ \<Rightarrow> Inl (Refusal 400 ''invalid status filter'')))"

definition sort_order :: "string option \<Rightarrow> failure + issue_sort" where
  "sort_order s =
     (case map_option trim s of
        None \<Rightarrow> Inr ByLastSeen
      | Some v \<Rightarrow>
          (if v = [] \<or> v = ''recency'' \<or> v = ''last_seen'' then Inr ByLastSeen
           else if v = ''frequency'' \<or> v = ''event_count'' then Inr ByEventCount
           else Inl (Refusal 400 ''invalid sort'')))"

abbreviation negative :: "int option \<Rightarrow> bool" where
  "negative n \<equiv> (case n of Some v \<Rightarrow> v < 0 | None \<Rightarrow> False)"

definition to_filter :: "issue_list_query \<Rightarrow> failure + issue_filter" where
  "to_filter q =
     (case status_filter (iq_status q) of
        Inl f \<Rightarrow> Inl f
      | Inr status \<Rightarrow>
          (if negative (iq_limit q) then Inl (Refusal 400 ''limit must be non-negative'')
           else if negative (iq_offset q) then Inl (Refusal 400 ''offset must be non-negative'')
           else case sort_order (iq_sort q) of
                  Inl f \<Rightarrow> Inl f
                | Inr order \<Rightarrow>
                    Inr \<lparr>flt_status = status, flt_level = blank_to_none (iq_level q),
                         flt_environment = blank_to_none (iq_environment q),
                         flt_release = blank_to_none (iq_release q), flt_query = blank_to_none (iq_query q),
                         flt_limit = iq_limit q, flt_offset = iq_offset q, flt_sort = order\<rparr>))"

definition list_for_project :: "app \<Rightarrow> user \<Rightarrow> string \<Rightarrow> issue_list_query \<Rightarrow> issue_view list handler" where
  "list_for_project app u raw_project_id query =
     op_bind (resolve_project app raw_project_id) (\<lambda>p.
     op_bind (require_member app u (prj_id p)) (\<lambda>_.
     op_bind (op_res (to_filter query)) (\<lambda>filt.
     op_bind (answer (error_response app) (on_tables (list_issues (prj_id p) filt))) (\<lambda>is.
     ok_json (map (\<lambda>i. issue_view_of i (prj_slug p)) is)))))"

text \<open>The list the project page opens with.\<close>

definition default_project_issues :: "project \<Rightarrow> (server, issue_view list) op" where
  "default_project_issues p =
     op_bind (on_tables (list_issues (prj_id p)
         \<lparr>flt_status = Some Unresolved, flt_level = None, flt_environment = None, flt_release = None,
          flt_query = None, flt_limit = None, flt_offset = None, flt_sort = ByLastSeen\<rparr>))
       (\<lambda>is. op_ok (map (\<lambda>i. issue_view_of i (prj_slug p)) is))"

section \<open>One issue\<close>

definition authorize_issue :: "app \<Rightarrow> user \<Rightarrow> string \<Rightarrow> (server, failure, issue \<times> project) run" where
  "authorize_issue app u raw_id =
     op_bind (answer (error_response app) (on_tables (find_by_short_id raw_id))) (\<lambda>row.
     op_bind (found row 404 ''issue not found'') (\<lambda>i.
     op_bind (answer (error_response app) (on_tables (find_project_by_id (iss_project_id i)))) (\<lambda>owner.
     op_bind (found owner 404 ''project not found'') (\<lambda>p.
     op_bind (require_member app u (prj_id p)) (\<lambda>_.
     op_ok (i, p))))))"

definition get_issue :: "app \<Rightarrow> user \<Rightarrow> string \<Rightarrow> (issue_view \<times> event_view option) handler" where
  "get_issue app u raw_id =
     op_bind (authorize_issue app u raw_id) (\<lambda>(i, p).
     op_bind (answer (error_response app) (on_tables (latest_for_issue (iss_id i)))) (\<lambda>latest.
     ok_json (issue_view_of i (prj_slug p), map_option event_view_of latest)))"

definition default_events_limit :: int where "default_events_limit = 50"

definition list_events :: "app \<Rightarrow> user \<Rightarrow> string \<Rightarrow> int \<Rightarrow> event_view list handler" where
  "list_events app u raw_id limit =
     op_bind (authorize_issue app u raw_id) (\<lambda>(i, p).
     op_bind (answer (error_response app) (on_tables (recent_events (iss_id i) (clamp 1 200 limit)))) (\<lambda>es.
     ok_json (map event_view_of es)))"

definition set_issue_status :: "app \<Rightarrow> user \<Rightarrow> string \<Rightarrow> issue_status \<Rightarrow> issue_view handler" where
  "set_issue_status app u raw_id status =
     op_bind (authorize_issue app u raw_id) (\<lambda>(i, p).
     op_bind (answer (error_response app) (timed (\<lambda>now. set_status now (iss_id i) status))) (\<lambda>i'.
     ok_json (issue_view_of i' (prj_slug p))))"

definition resolve_issue :: "app \<Rightarrow> user \<Rightarrow> string \<Rightarrow> issue_view handler" where
  "resolve_issue app u raw_id = set_issue_status app u raw_id Resolved"

definition unresolve_issue :: "app \<Rightarrow> user \<Rightarrow> string \<Rightarrow> issue_view handler" where
  "unresolve_issue app u raw_id = set_issue_status app u raw_id Unresolved"

record mute_request =
  mq_duration_seconds :: "int option"
  mq_events :: "int option"
  mq_window_seconds :: "int option"

text \<open>\<open>now + chrono::Duration::seconds(secs)\<close> panics out of range, before anything is checked.\<close>

definition to_spec :: "mute_request \<Rightarrow> timestamp \<Rightarrow> failure + mute_spec" where
  "to_spec req now =
     (let has_rate = mq_events req \<noteq> None \<or> mq_window_seconds req \<noteq> None in
      if mq_duration_seconds req \<noteq> None \<and> has_rate then
        Inl (Refusal 400 ''specify either duration_seconds or events/window_seconds, not both'')
      else case mq_duration_seconds req of
             Some duration \<Rightarrow>
               (if duration \<le> 0 then Inl (Refusal 400 ''duration_seconds must be positive'')
                else case dt_add_seconds now duration of
                       Inr until \<Rightarrow> Inr (Until until)
                     | Inl (Panic m) \<Rightarrow> Inl (Crash m)
                     | Inl _ \<Rightarrow> Inl (Crash []))
           | None \<Rightarrow>
               (if has_rate then
                  (case (mq_events req, mq_window_seconds req) of
                     (Some events, Some window_seconds) \<Rightarrow>
                       (if events \<le> 0 \<or> window_seconds \<le> 0 then
                          Inl (Refusal 400 ''events and window_seconds must be positive'')
                        else Inr (EventRate events window_seconds))
                   | _ \<Rightarrow> Inl (Refusal 400 ''event-rate mute requires both events and window_seconds''))
                else Inr Forever))"

definition empty_mute :: mute_request where
  "empty_mute = \<lparr>mq_duration_seconds = None, mq_events = None, mq_window_seconds = None\<rparr>"

definition mute_issue :: "app \<Rightarrow> user \<Rightarrow> string \<Rightarrow> mute_request option \<Rightarrow> issue_view handler" where
  "mute_issue app u raw_id body =
     op_bind clock_now (\<lambda>now.
     op_bind (op_res (to_spec (case body of Some r \<Rightarrow> r | None \<Rightarrow> empty_mute) now)) (\<lambda>spec.
     op_bind (authorize_issue app u raw_id) (\<lambda>(i, p).
     op_bind (answer (error_response app) (timed (mute (iss_id i) spec))) (\<lambda>i'.
     ok_json (issue_view_of i' (prj_slug p))))))"

definition update_issue_fingerprint :: "app \<Rightarrow> user \<Rightarrow> string \<Rightarrow> string \<Rightarrow> issue_view handler" where
  "update_issue_fingerprint app u raw_id fingerprint =
     op_bind (guard_that (trim fingerprint \<noteq> []) 400 ''fingerprint must not be empty'') (\<lambda>_.
     op_bind (authorize_issue app u raw_id) (\<lambda>(i, p).
     op_bind (answer (error_response app)
         (timed (\<lambda>now. override_fingerprint (ap_repo app) now (iss_id i) (trim fingerprint)))) (\<lambda>i'.
     ok_json (issue_view_of i' (prj_slug p)))))"

definition get_event :: "app \<Rightarrow> user \<Rightarrow> string \<Rightarrow> event_view handler" where
  "get_event app u raw_id =
     op_bind (parse_id app raw_id) (\<lambda>eid.
     op_bind (answer (error_response app) (on_tables (find_event_by_id eid))) (\<lambda>row.
     op_bind (found row 404 ''event not found'') (\<lambda>e.
     op_bind (require_member app u (ev_project_id e)) (\<lambda>_.
     ok_json (event_view_of e)))))"

section \<open>Tag-mute rules\<close>

record rule_view =
  rv_id :: string
  rv_name :: "string option"
  rv_tags :: "tag_match list"
  rv_created_at :: timestamp

definition rule_view_of :: "tag_mute_rule \<Rightarrow> rule_view" where
  "rule_view_of r =
     \<lparr>rv_id = rule_id r, rv_name = rule_name r, rv_tags = rule_tags r, rv_created_at = rule_created_at r\<rparr>"

fun clean_tags :: "string list \<Rightarrow> tag_match list \<Rightarrow> failure + tag_match list" where
  "clean_tags seen [] = Inr []"
| "clean_tags seen (tag # tags) =
     (let key = trim (tag_key tag); value = trim (tag_value tag) in
      if key = [] \<or> value = [] then Inl (Refusal 400 ''tag key and value must not be empty'')
      else if key \<in> set seen then Inl (Refusal 400 (''duplicate tag key: '' @ key))
      else case clean_tags (key # seen) tags of
             Inl f \<Rightarrow> Inl f
           | Inr cleaned \<Rightarrow> Inr (\<lparr>tag_key = key, tag_value = value\<rparr> # cleaned))"

definition validate_tags :: "tag_match list \<Rightarrow> failure + tag_match list" where
  "validate_tags tags =
     (if tags = [] then Inl (Refusal 400 ''at least one tag is required'') else clean_tags [] tags)"

definition list_rules :: "app \<Rightarrow> user \<Rightarrow> string \<Rightarrow> rule_view list handler" where
  "list_rules app u project_public_id =
     op_bind (resolve_project app project_public_id) (\<lambda>p.
     op_bind (require_member app u (prj_id p)) (\<lambda>_.
     op_bind (answer (error_response app) (on_tables (list_rules_for_project (prj_id p)))) (\<lambda>rules.
     ok_json (map rule_view_of rules))))"

definition create_rule ::
  "app \<Rightarrow> user \<Rightarrow> string \<Rightarrow> string option \<Rightarrow> tag_match list \<Rightarrow> rule_view handler" where
  "create_rule app u project_public_id name tags =
     op_bind (resolve_project app project_public_id) (\<lambda>p.
     op_bind (require_member app u (prj_id p)) (\<lambda>_.
     op_bind (op_res (validate_tags tags)) (\<lambda>tags.
     op_bind (answer (error_response app) (timed (\<lambda>now. create_mute_rule now
         \<lparr>nr_project_id = prj_id p, nr_name = non_empty (map_option trim name),
          nr_created_by = Some (usr_id u), nr_tags = tags\<rparr>))) (\<lambda>rule.
     created (rule_view_of rule)))))"

definition delete_rule :: "app \<Rightarrow> user \<Rightarrow> string \<Rightarrow> string \<Rightarrow> unit handler" where
  "delete_rule app u project_public_id raw_rule_id =
     op_bind (resolve_project app project_public_id) (\<lambda>p.
     op_bind (require_member app u (prj_id p)) (\<lambda>_.
     op_bind (parse_id app raw_rule_id) (\<lambda>rid.
     op_bind (answer (error_response app) (on_tables (delete_mute_rule (prj_id p) rid))) (\<lambda>removed.
     op_bind (guard_that removed 404 ''mute rule not found'') (\<lambda>_. no_content)))))"

end
