(* ===== verification/ApiProjects.thy ===== *)
theory ApiProjects
  imports ApiIssues
begin

text \<open>
  The handlers of projects, \<open>src/api/projects.rs\<close>: listing, the dashboard overview, creation, the
  settings, moving to another team, deletion, the DSN, the SDK snippets, muting and favourites.
\<close>

section \<open>Addresses\<close>

definition build_dsn :: "string \<Rightarrow> string \<Rightarrow> uuid \<Rightarrow> string" where
  "build_dsn base_url public_key project_id =
     (let (scheme, rest) = (case str_find base_url ''://'' of
                              Some i \<Rightarrow> (take i base_url, drop (i + 3) base_url)
                            | None \<Rightarrow> (''http'', base_url)) in
      scheme @ ''://'' @ public_key @ ''@'' @ trim_end_char (CHR ''/'') rest @ ''/'' @ project_id)"

definition ingest_urls :: "string \<Rightarrow> uuid \<Rightarrow> string \<times> string" where
  "ingest_urls base_url project_id =
     (let base = trim_end_char (CHR ''/'') base_url in
      (base @ ''/api/'' @ project_id @ ''/envelope/'', base @ ''/api/'' @ project_id @ ''/store/''))"

section \<open>Views\<close>

record project_view =
  pv_orphaned_at :: "timestamp option"
  pv_id :: string
  pv_team_id :: uuid
  pv_name :: string
  pv_slug :: string
  pv_dsn_public_key :: string
  pv_dsn :: string
  pv_retention_events :: int
  pv_retention_days :: int
  pv_muted :: bool
  pv_webhook_url :: "string option"
  pv_created_at :: timestamp
  pv_updated_at :: timestamp

definition project_view_of :: "string \<Rightarrow> project \<Rightarrow> project_view" where
  "project_view_of base_url p =
     \<lparr>pv_orphaned_at = prj_orphaned_at p, pv_id = prj_slug p, pv_team_id = prj_team_id p,
      pv_name = prj_name p, pv_slug = prj_slug p, pv_dsn_public_key = prj_dsn_public_key p,
      pv_dsn = build_dsn base_url (prj_dsn_public_key p) (prj_id p),
      pv_retention_events = prj_retention_events p, pv_retention_days = prj_retention_days p,
      pv_muted = prj_muted p, pv_webhook_url = prj_webhook_url p, pv_created_at = prj_created_at p,
      pv_updated_at = prj_updated_at p\<rparr>"

record project_detail_view =
  pd_project :: project_view
  pd_issues :: "issue_view list"

record project_overview_view =
  po_project :: project_view
  po_unresolved_count :: int
  po_favorited :: bool
  po_last_issue_at :: "string option"

section \<open>Listing\<close>

definition visible_projects :: "user \<Rightarrow> (server, project list) op" where
  "visible_projects u =
     (if can_manage_instance (usr_instance_role u) then on_tables list_projects
      else on_tables (list_projects_for_user (usr_id u)))"

definition list_handler :: "app \<Rightarrow> user \<Rightarrow> project_view list handler" where
  "list_handler app u =
     op_bind (answer (error_response app) (visible_projects u)) (\<lambda>ps.
     ok_json (map (project_view_of (ap_base_url app)) ps))"

text \<open>Favourites first, then by name: a stable sort on the pair.\<close>

definition overview_key :: "project_overview_view \<Rightarrow> nat \<times> string" where
  "overview_key v = (if po_favorited v then 0 else 1, pv_name (po_project v))"

definition overview_of ::
  "app \<Rightarrow> (uuid \<times> int) list \<Rightarrow> (uuid \<times> timestamp) list \<Rightarrow> uuid list \<Rightarrow> project \<Rightarrow> project_overview_view" where
  "overview_of app counts last_seen favorites p =
     \<lparr>po_project = project_view_of (ap_base_url app) p,
      po_unresolved_count = (case map_of counts (prj_id p) of Some n \<Rightarrow> n | None \<Rightarrow> 0),
      po_favorited = (prj_id p \<in> set favorites),
      po_last_issue_at = map_option (ex_rfc3339 (ap_externals app)) (map_of last_seen (prj_id p))\<rparr>"

definition overviews :: "app \<Rightarrow> user \<Rightarrow> (server, project_overview_view list) op" where
  "overviews app u =
     op_bind (visible_projects u) (\<lambda>ps.
     op_bind (on_tables (unresolved_counts (map prj_id ps))) (\<lambda>counts.
     op_bind (on_tables (last_seen_per_project (map prj_id ps))) (\<lambda>last_seen.
     op_bind (favorites_of (usr_id u)) (\<lambda>favorites.
     op_ok (sort_key overview_key (map (overview_of app counts last_seen favorites) ps))))))"

section \<open>Creation\<close>

record create_project_request =
  cp_name :: string
  cp_team_id :: uuid
  cp_slug :: "string option"
  cp_retention_events :: "int option"
  cp_retention_days :: "int option"
  cp_webhook_url :: "string option"

definition positive_or :: "int \<Rightarrow> int option \<Rightarrow> int" where
  "positive_or d v = (case v of Some n \<Rightarrow> (if 0 < n then n else d) | None \<Rightarrow> d)"

text \<open>An absent or blank URL is unset; a present one must be \<open>http(s)\<close>.\<close>

definition webhook_of :: "app \<Rightarrow> string option \<Rightarrow> failure + string option" where
  "webhook_of app url =
     (case map_option trim url of
        None \<Rightarrow> Inr None
      | Some v \<Rightarrow>
          (if v = [] then Inr None
           else if is_valid_webhook_url (ap_url_scheme app) v then Inr (Some v)
           else Inl (Refusal 400 ''webhook_url must be a valid http(s) URL'')))"

text \<open>\<open>generate_dsn_key\<close>: 32 hexadecimal digits.\<close>

definition generate_dsn_key :: "(server, 'e, string) run" where
  "generate_dsn_key = op_bind new_uuid (\<lambda>u. op_ok (uuid_simple u))"

definition may_create_in :: "app \<Rightarrow> user \<Rightarrow> uuid \<Rightarrow> (server, failure, unit) run" where
  "may_create_in app u tid =
     (if can_manage_instance (usr_instance_role u) then op_ok ()
      else
        op_bind (answer (error_response app) (on_tables (member_role tid (usr_id u)))) (\<lambda>role.
          guard_that (role = Some TeamAdmin) 403
            ''you must be an admin of the target team to create a project''))"

text \<open>The columns outside \<open>project\<close> start at their defaults.\<close>

definition default_columns :: "uuid \<Rightarrow> server \<Rightarrow> server" where
  "default_columns pid s =
     s\<lparr>sv_hub := (sv_hub s)\<lparr>hub_severities := (hub_severities (sv_hub s))(pid := []),
                          hub_intervals := (hub_intervals (sv_hub s))(pid := 0)\<rparr>\<rparr>"

definition insert_new_project :: "new_project \<Rightarrow> (server, project) op" where
  "insert_new_project n =
     op_bind (timed (\<lambda>now. create_project now n)) (\<lambda>p s. (Inr p, default_columns (prj_id p) s))"

definition create_handler :: "app \<Rightarrow> user \<Rightarrow> create_project_request \<Rightarrow> project_view handler" where
  "create_handler app u req =
     op_bind (answer (error_response app) (ui_managed app False)) (\<lambda>_.
     op_bind (guard_that (trim (cp_name req) \<noteq> []) 400 ''name must not be empty'') (\<lambda>_.
     op_bind (may_create_in app u (cp_team_id req)) (\<lambda>_.
     op_bind new_uuid (\<lambda>v4.
     let slug = (case map_option trim (cp_slug req) of
                   Some s \<Rightarrow> (if s \<noteq> [] then slugify v4 s else slugify v4 (trim (cp_name req)))
                 | None \<Rightarrow> slugify v4 (trim (cp_name req))) in
     op_bind (op_res (webhook_of app (cp_webhook_url req))) (\<lambda>webhook.
     op_bind generate_dsn_key (\<lambda>key.
     op_bind (answer (error_response app) (insert_new_project
         \<lparr>np_team_id = cp_team_id req, np_name = trim (cp_name req), np_slug = slug, np_dsn_public_key = key,
          np_retention_events = positive_or (ap_events_retention app) (cp_retention_events req),
          np_retention_days = positive_or 0 (cp_retention_days req), np_webhook_url = webhook\<rparr>)) (\<lambda>p.
     created (project_view_of (ap_base_url app) p))))))))"

section \<open>One project\<close>

definition get_handler :: "app \<Rightarrow> user \<Rightarrow> string \<Rightarrow> project_detail_view handler" where
  "get_handler app u raw =
     op_bind (resolve_project app raw) (\<lambda>p.
     op_bind (require_member app u (prj_id p)) (\<lambda>_.
     op_bind (answer (error_response app) (default_project_issues p)) (\<lambda>is.
     ok_json \<lparr>pd_project = project_view_of (ap_base_url app) p, pd_issues = is\<rparr>)))"

record update_project_request =
  up_name :: "string option"
  up_retention_events :: "int option"
  up_retention_days :: "int option"
  up_muted :: "bool option"
  up_webhook_url :: "string option"

text \<open>Absent leaves the URL, blank clears it, a valid one sets it.\<close>

definition webhook_change :: "app \<Rightarrow> string option \<Rightarrow> failure + string option option" where
  "webhook_change app url =
     (case map_option trim url of
        None \<Rightarrow> Inr None
      | Some v \<Rightarrow>
          (if v = [] then Inr (Some None)
           else if is_valid_webhook_url (ap_url_scheme app) v then Inr (Some (Some v))
           else Inl (Refusal 400 ''webhook_url must be a valid http(s) URL'')))"

definition no_update :: project_update where
  "no_update = \<lparr>pu_name = None, pu_team_id = None, pu_retention_events = None, pu_retention_days = None,
     pu_muted = None, pu_webhook_url = None\<rparr>"

definition save_project :: "app \<Rightarrow> uuid \<Rightarrow> project_update \<Rightarrow> project_view handler" where
  "save_project app pid upd =
     op_bind (answer (error_response app) (timed (\<lambda>now. update_project now pid upd))) (\<lambda>p.
     ok_json (project_view_of (ap_base_url app) p))"

definition update_handler :: "app \<Rightarrow> user \<Rightarrow> string \<Rightarrow> update_project_request \<Rightarrow> project_view handler" where
  "update_handler app u raw req =
     op_bind (answer (error_response app) (ui_managed app False)) (\<lambda>_.
     op_bind (resolve_project app raw) (\<lambda>p.
     op_bind (require_admin app u (prj_id p)) (\<lambda>_.
     op_bind (guard_that (map_option trim (up_name req) \<noteq> Some []) 400 ''name must not be empty'') (\<lambda>_.
     op_bind (guard_that (case up_retention_events req of Some n \<Rightarrow> 0 < n | None \<Rightarrow> True) 400
         ''retention_events must be positive'') (\<lambda>_.
     op_bind (guard_that (case up_retention_days req of Some n \<Rightarrow> 0 \<le> n | None \<Rightarrow> True) 400
         ''retention_days must not be negative'') (\<lambda>_.
     op_bind (op_res (webhook_change app (up_webhook_url req))) (\<lambda>webhook.
     save_project app (prj_id p)
       (no_update\<lparr>pu_name := map_option trim (up_name req), pu_retention_events := up_retention_events req,
          pu_retention_days := up_retention_days req, pu_muted := up_muted req, pu_webhook_url := webhook\<rparr>))))))))"

definition change_team :: "app \<Rightarrow> user \<Rightarrow> string \<Rightarrow> uuid \<Rightarrow> project_view handler" where
  "change_team app u raw tid =
     op_bind (answer (error_response app) (ui_managed app False)) (\<lambda>_.
     op_bind (resolve_project app raw) (\<lambda>p.
     op_bind (require_manager_response u) (\<lambda>_.
     op_bind (answer (error_response app) (on_tables (find_team_by_id tid))) (\<lambda>target.
     op_bind (found target 404 ''team not found'') (\<lambda>_.
     save_project app (prj_id p) (no_update\<lparr>pu_team_id := Some tid\<rparr>))))))"

definition delete_handler :: "app \<Rightarrow> user \<Rightarrow> string \<Rightarrow> unit handler" where
  "delete_handler app u raw =
     op_bind (answer (error_response app) (ui_managed app False)) (\<lambda>_.
     op_bind (resolve_project app raw) (\<lambda>p.
     op_bind (require_admin app u (prj_id p)) (\<lambda>_.
     op_bind (answer (error_response app) (deleting (on_tables (delete_project (prj_id p))))) (\<lambda>_.
     no_content))))"

section \<open>Connecting an SDK\<close>

record dsn_view =
  dv_dsn :: string
  dv_public_key :: string
  dv_project_id :: uuid

definition dsn_view_of :: "app \<Rightarrow> project \<Rightarrow> dsn_view" where
  "dsn_view_of app p =
     \<lparr>dv_dsn = build_dsn (ap_base_url app) (prj_dsn_public_key p) (prj_id p),
      dv_public_key = prj_dsn_public_key p, dv_project_id = prj_id p\<rparr>"

definition dsn_handler :: "app \<Rightarrow> user \<Rightarrow> string \<Rightarrow> dsn_view handler" where
  "dsn_handler app u raw =
     op_bind (resolve_project app raw) (\<lambda>p.
     op_bind (require_member app u (prj_id p)) (\<lambda>_. ok_json (dsn_view_of app p)))"

record sdk_snippet =
  sn_language :: string
  sn_label :: string
  sn_code :: string

definition sdk_snippets :: "string \<Rightarrow> string \<Rightarrow> string \<Rightarrow> string \<Rightarrow> sdk_snippet list" where
  "sdk_snippets dsn public_key envelope_url store_url =
     [\<lparr>sn_language = ''go'', sn_label = ''Go'', sn_code =
          ''import '' @ [CHR 0x22] @ ''github.com/getsentry/sentry-go'' @ [CHR 0x22, CHR 0x0A, CHR 0x0A] @
          ''err := sentry.Init(sentry.ClientOptions{'' @ [CHR 0x0A] @ ''    Dsn: '' @ [CHR 0x22] @ dsn @
          [CHR 0x22] @ '','' @ [CHR 0x0A] @ ''})'' @ [CHR 0x0A] @ ''if err != nil {'' @ [CHR 0x0A] @
          ''    log.Fatalf('' @ [CHR 0x22] @ ''sentry.Init: %s'' @ [CHR 0x22] @ '', err)'' @ [CHR 0x0A] @
          ''}'' @ [CHR 0x0A] @ ''defer sentry.Flush(2 * time.Second)''\<rparr>,
      \<lparr>sn_language = ''rust'', sn_label = ''Rust'', sn_code =
          ''let _guard = sentry::init(('' @ [CHR 0x0A] @ ''    '' @ [CHR 0x22] @ dsn @ [CHR 0x22] @ '','' @
          [CHR 0x0A] @ ''    sentry::ClientOptions {'' @ [CHR 0x0A] @
          ''        release: sentry::release_name!(),'' @ [CHR 0x0A] @ ''        ..Default::default()'' @
          [CHR 0x0A] @ ''    },'' @ [CHR 0x0A] @ ''));''\<rparr>,
      \<lparr>sn_language = ''javascript'', sn_label = ''Svelte / JavaScript'', sn_code =
          ''import * as Sentry from '' @ [CHR 0x22] @ ''@sentry/svelte'' @ [CHR 0x22] @ '';'' @
          [CHR 0x0A, CHR 0x0A] @ ''Sentry.init({'' @ [CHR 0x0A] @ ''  dsn: '' @ [CHR 0x22] @ dsn @
          [CHR 0x22] @ '','' @ [CHR 0x0A] @ ''  tracesSampleRate: 0,'' @ [CHR 0x0A] @ ''});''\<rparr>,
      \<lparr>sn_language = ''python'', sn_label = ''Python'', sn_code =
          ''import sentry_sdk'' @ [CHR 0x0A, CHR 0x0A] @ ''sentry_sdk.init('' @ [CHR 0x0A] @ ''    dsn='' @
          [CHR 0x22] @ dsn @ [CHR 0x22] @ '','' @ [CHR 0x0A] @ ''    traces_sample_rate=0,'' @ [CHR 0x0A] @
          '')''\<rparr>,
      \<lparr>sn_language = ''java'', sn_label = ''Java'', sn_code =
          ''import io.sentry.Sentry;'' @ [CHR 0x0A, CHR 0x0A] @ ''Sentry.init(options -> {'' @ [CHR 0x0A] @
          ''  options.setDsn('' @ [CHR 0x22] @ dsn @ [CHR 0x22] @ '');'' @ [CHR 0x0A] @ ''});''\<rparr>,
      \<lparr>sn_language = ''kotlin'', sn_label = ''Kotlin'', sn_code =
          ''import io.sentry.Sentry'' @ [CHR 0x0A, CHR 0x0A] @ ''Sentry.init { options ->'' @ [CHR 0x0A] @
          ''  options.dsn = '' @ [CHR 0x22] @ dsn @ [CHR 0x22, CHR 0x0A] @ ''}''\<rparr>,
      \<lparr>sn_language = ''generic'', sn_label = ''Generic / raw HTTP'', sn_code =
          ''# Point any Sentry-compatible SDK at this DSN:'' @ [CHR 0x0A] @ ''SENTRY_DSN='' @ dsn @
          [CHR 0x0A, CHR 0x0A] @ ''# --- Or send events over raw HTTP ---'' @ [CHR 0x0A] @
          ''# Auth via the `X-Sentry-Auth` header (or `?sentry_key=` query).'' @ [CHR 0x0A, CHR 0x0A] @
          ''# Modern: newline-delimited envelope (recommended).'' @ [CHR 0x0A] @ ''printf '' @ [CHR 0x27] @
          ''{'' @ [CHR 0x22] @ ''event_id'' @ [CHR 0x22] @ '':'' @ [CHR 0x22] @ ''%s'' @ [CHR 0x22] @
          ''}'' @ [CHR 0x5C] @ ''n{'' @ [CHR 0x22] @ ''type'' @ [CHR 0x22] @ '':'' @ [CHR 0x22] @
          ''event'' @ [CHR 0x22] @ ''}'' @ [CHR 0x5C] @ ''n{'' @ [CHR 0x22] @ ''message'' @ [CHR 0x22] @
          '':'' @ [CHR 0x22] @ ''hello'' @ [CHR 0x22] @ ''}'' @ [CHR 0x5C] @ ''n'' @ [CHR 0x27] @ '' '' @
          [CHR 0x5C, CHR 0x0A] @ ''  '' @ [CHR 0x22] @ ''$(uuidgen | tr -d - | tr '' @ [CHR 0x27] @
          ''A-Z'' @ [CHR 0x27] @ '' '' @ [CHR 0x27] @ ''a-z'' @ [CHR 0x27] @ '')'' @ [CHR 0x22] @ '' '' @
          [CHR 0x5C, CHR 0x0A] @ ''| curl -X POST '' @ [CHR 0x27] @ envelope_url @ [CHR 0x27] @ '' '' @
          [CHR 0x5C, CHR 0x0A] @ ''    -H '' @ [CHR 0x27] @
          ''X-Sentry-Auth: Sentry sentry_version=7, sentry_key='' @ public_key @ [CHR 0x27] @ '' '' @
          [CHR 0x5C, CHR 0x0A] @ ''    -H '' @ [CHR 0x27] @
          ''Content-Type: application/x-sentry-envelope'' @ [CHR 0x27] @ '' '' @ [CHR 0x5C, CHR 0x0A] @
          ''    --data-binary @-'' @ [CHR 0x0A, CHR 0x0A] @
          ''# Legacy: a single bare JSON event (pre-envelope SDKs).'' @ [CHR 0x0A] @ ''curl -X POST '' @
          [CHR 0x27] @ store_url @ [CHR 0x27] @ '' '' @ [CHR 0x5C, CHR 0x0A] @ ''    -H '' @ [CHR 0x27] @
          ''X-Sentry-Auth: Sentry sentry_version=7, sentry_key='' @ public_key @ [CHR 0x27] @ '' '' @
          [CHR 0x5C, CHR 0x0A] @ ''    -H '' @ [CHR 0x27] @ ''Content-Type: application/json'' @
          [CHR 0x27] @ '' '' @ [CHR 0x5C, CHR 0x0A] @ ''    -d '' @ [CHR 0x27] @ ''{'' @ [CHR 0x22] @
          ''message'' @ [CHR 0x22] @ '':'' @ [CHR 0x22] @ ''hello'' @ [CHR 0x22] @ ''}'' @ [CHR 0x27]\<rparr>]"

record sdk_setup_view =
  su_dsn :: string
  su_snippets :: "sdk_snippet list"

definition sdk_setup :: "app \<Rightarrow> user \<Rightarrow> string \<Rightarrow> sdk_setup_view handler" where
  "sdk_setup app u raw =
     op_bind (resolve_project app raw) (\<lambda>p.
     op_bind (require_member app u (prj_id p)) (\<lambda>_.
     let dsn = build_dsn (ap_base_url app) (prj_dsn_public_key p) (prj_id p);
         (envelope_url, store_url) = ingest_urls (ap_base_url app) (prj_id p) in
     ok_json \<lparr>su_dsn = dsn, su_snippets = sdk_snippets dsn (prj_dsn_public_key p) envelope_url store_url\<rparr>))"

section \<open>Muting, rotating the key, favourites\<close>

definition mute_project :: "app \<Rightarrow> user \<Rightarrow> string \<Rightarrow> bool option \<Rightarrow> project_view handler" where
  "mute_project app u raw muted =
     op_bind (resolve_project app raw) (\<lambda>p.
     op_bind (require_admin app u (prj_id p)) (\<lambda>_.
     let target = (case muted of Some b \<Rightarrow> b | None \<Rightarrow> \<not> prj_muted p) in
     save_project app (prj_id p) (no_update\<lparr>pu_muted := Some target\<rparr>)))"

definition regenerate_dsn_handler :: "app \<Rightarrow> user \<Rightarrow> string \<Rightarrow> dsn_view handler" where
  "regenerate_dsn_handler app u raw =
     op_bind (resolve_project app raw) (\<lambda>p.
     op_bind (require_admin app u (prj_id p)) (\<lambda>_.
     op_bind generate_dsn_key (\<lambda>key.
     op_bind (answer (error_response app) (timed (\<lambda>now. regenerate_dsn now (prj_id p) key))) (\<lambda>p'.
     ok_json (dsn_view_of app p')))))"

definition favorite_target :: "app \<Rightarrow> user \<Rightarrow> uuid \<Rightarrow> bool option \<Rightarrow> (server, failure, bool) run" where
  "favorite_target app u pid favorited =
     (case favorited of
        Some b \<Rightarrow> op_ok b
      | None \<Rightarrow>
          op_bind (answer (error_response app) (favorites_of (usr_id u)))
            (\<lambda>favorites. op_ok (pid \<notin> set favorites)))"

definition favorite :: "app \<Rightarrow> user \<Rightarrow> string \<Rightarrow> bool option \<Rightarrow> bool handler" where
  "favorite app u raw favorited =
     op_bind (resolve_project app raw) (\<lambda>p.
     op_bind (require_member app u (prj_id p)) (\<lambda>_.
     op_bind (favorite_target app u (prj_id p) favorited) (\<lambda>target.
     op_bind (answer (error_response app)
         (if target then add_favorite (usr_id u) (prj_id p) else remove_favorite (usr_id u) (prj_id p))) (\<lambda>_.
     ok_json target))))"

end
