(* ===== verification/ApiTeams.thy ===== *)
theory ApiTeams
  imports Server
begin

text \<open>
  The handlers of teams and of the invites to them: \<open>src/api/teams.rs\<close> and \<open>src/api/invites.rs\<close>.
  The team handlers propagate an \<open>error\<close> and render it at the end (\<open>ApiError\<close>): here they are
  operations that \<^theory_text>\<open>rendered\<close> turns into handlers.
\<close>

definition rendered :: "app \<Rightarrow> (server, nat \<times> 'a) op \<Rightarrow> 'a handler" where
  "rendered app m = answer (api_error app) m"

section \<open>Views\<close>

record member_view =
  mw_id :: uuid
  mw_email :: string
  mw_display_name :: string
  mw_role :: team_role

definition from_member :: "user \<times> team_role \<Rightarrow> member_view" where
  "from_member m =
     \<lparr>mw_id = usr_id (fst m), mw_email = usr_email (fst m), mw_display_name = usr_display_name (fst m),
      mw_role = snd m\<rparr>"

record team_project_view =
  tp_id :: string
  tp_name :: string
  tp_slug :: string

record team_view =
  tv_grants :: "team_grant_view option"
  tv_orphaned_at :: "timestamp option"
  tv_id :: uuid
  tv_short_id :: string
  tv_name :: string
  tv_created_at :: timestamp
  tv_updated_at :: timestamp
  tv_members :: "member_view list"
  tv_projects :: "team_project_view list"

record team_summary =
  ts_role :: "team_role option"
  ts_id :: uuid
  ts_short_id :: string
  ts_name :: string
  ts_member_count :: nat
  ts_project_count :: nat

definition inspect_team :: "app \<Rightarrow> uuid \<Rightarrow> (server, team_grant_view option) op" where
  "inspect_team app tid =
     (if ms_team_source (ap_management app) = Yaml
      then op_bind (on_desk (team_grants tid)) (\<lambda>g. op_ok (Some g)) else op_ok None)"

definition load_team_view :: "app \<Rightarrow> team \<Rightarrow> (server, team_view) op" where
  "load_team_view app t =
     op_bind (on_tables (team_members (tm_id t))) (\<lambda>members.
     op_bind (on_tables (list_projects_for_team (tm_id t))) (\<lambda>ps.
     op_bind (inspect_team app (tm_id t)) (\<lambda>grants.
     op_ok \<lparr>tv_grants = grants, tv_orphaned_at = tm_orphaned_at t, tv_id = tm_id t,
       tv_short_id = tm_short_id t, tv_name = tm_name t, tv_created_at = tm_created_at t,
       tv_updated_at = tm_updated_at t, tv_members = map from_member members,
       tv_projects = map (\<lambda>p. \<lparr>tp_id = prj_slug p, tp_name = prj_name p, tp_slug = prj_slug p\<rparr>) ps\<rparr>)))"

section \<open>Listing\<close>

definition visible_teams :: "user \<Rightarrow> (server, team list) op" where
  "visible_teams u =
     (if can_manage_instance (usr_instance_role u) then on_tables list_teams
      else on_tables (list_teams_for_user (usr_id u)))"

fun summarize :: "user \<Rightarrow> team list \<Rightarrow> (server, team_summary list) op" where
  "summarize u [] = op_ok []"
| "summarize u (t # ts) =
     op_bind (on_tables (team_members (tm_id t))) (\<lambda>members.
     op_bind (on_tables (list_projects_for_team (tm_id t))) (\<lambda>ps.
     op_bind (on_tables (member_role (tm_id t) (usr_id u))) (\<lambda>role.
     op_bind (summarize u ts) (\<lambda>rest.
     op_ok (\<lparr>ts_role = role, ts_id = tm_id t, ts_short_id = tm_short_id t, ts_name = tm_name t,
       ts_member_count = length members, ts_project_count = length ps\<rparr> # rest)))))"

definition summaries :: "user \<Rightarrow> (server, team_summary list) op" where
  "summaries u = op_bind (visible_teams u) (summarize u)"

definition list_teams_handler :: "app \<Rightarrow> user \<Rightarrow> team_summary list handler" where
  "list_teams_handler app u = rendered app (op_bind (summaries u) (\<lambda>v. op_ok (200, v)))"

section \<open>Teams\<close>

definition validate_team_name :: "string \<Rightarrow> string res" where
  "validate_team_name name =
     (if trim name = [] then Inl (Validation ''team name must not be empty'') else Inr (trim name))"

definition create_team_handler :: "app \<Rightarrow> user \<Rightarrow> string \<Rightarrow> team_view handler" where
  "create_team_handler app u name = rendered app (
     op_bind (admin_user u) (\<lambda>_.
     op_bind (ui_managed app True) (\<lambda>_.
     op_bind (op_res (validate_team_name name)) (\<lambda>name.
     op_bind (timed (\<lambda>now. create_team now name)) (\<lambda>t.
     op_bind (load_team_view app t) (\<lambda>v. op_ok (201, v)))))))"

definition get_team_handler :: "app \<Rightarrow> user \<Rightarrow> string \<Rightarrow> team_view handler" where
  "get_team_handler app u raw = rendered app (
     op_bind (resolve_team app raw) (\<lambda>t.
     op_bind (if can_manage_instance (usr_instance_role u) then op_ok True
              else on_tables (is_member (tm_id t) (usr_id u))) (\<lambda>allowed.
     if allowed then op_bind (load_team_view app t) (\<lambda>v. op_ok (200, v))
     else op_err (Forbidden ''you do not have access to this team''))))"

definition update_team_handler :: "app \<Rightarrow> user \<Rightarrow> string \<Rightarrow> string \<Rightarrow> team_view handler" where
  "update_team_handler app u raw name = rendered app (
     op_bind (admin_user u) (\<lambda>_.
     op_bind (ui_managed app True) (\<lambda>_.
     op_bind (resolve_team_id app raw) (\<lambda>tid.
     op_bind (op_res (validate_team_name name)) (\<lambda>name.
     op_bind (timed (\<lambda>now. rename_team now tid name)) (\<lambda>t.
     op_bind (load_team_view app t) (\<lambda>v. op_ok (200, v))))))))"

definition delete_team_handler :: "app \<Rightarrow> user \<Rightarrow> string \<Rightarrow> uuid option \<Rightarrow> unit handler" where
  "delete_team_handler app u raw move_projects_to = rendered app (
     op_bind (admin_user u) (\<lambda>_.
     op_bind (ui_managed app True) (\<lambda>_.
     op_bind (resolve_team_id app raw) (\<lambda>tid.
     op_bind (if move_projects_to \<noteq> None then ui_managed app False else op_ok ()) (\<lambda>_.
     op_bind (deleting (timed (\<lambda>now. delete_team (ap_env app) now tid move_projects_to))) (\<lambda>_.
     op_ok (204, ())))))))"

section \<open>Members\<close>

definition require_team_manager :: "user \<Rightarrow> uuid \<Rightarrow> (server, unit) op" where
  "require_team_manager u tid =
     (if can_manage_instance (usr_instance_role u) then op_ok ()
      else
        op_bind (on_tables (member_role tid (usr_id u))) (\<lambda>role.
          if role = Some TeamAdmin then op_ok ()
          else op_err (Forbidden ''requires team admin (or instance manager/owner)'')))"

definition find_team :: "uuid \<Rightarrow> (server, team) op" where
  "find_team tid =
     op_bind (on_tables (find_team_by_id tid)) (\<lambda>t.
       case t of Some t \<Rightarrow> op_ok t | None \<Rightarrow> op_err (NotFound (''team '' @ tid)))"

definition team_parse_id :: "app \<Rightarrow> string \<Rightarrow> (server, uuid) op" where
  "team_parse_id app raw =
     (case ap_parse_uuid app raw of
        Some i \<Rightarrow> op_ok i | None \<Rightarrow> op_err (Validation (''invalid id: '' @ raw)))"

definition add_member_handler :: "app \<Rightarrow> user \<Rightarrow> string \<Rightarrow> uuid \<Rightarrow> team_role option \<Rightarrow> team_view handler" where
  "add_member_handler app u raw uid role = rendered app (
     op_bind (ui_managed app True) (\<lambda>_.
     op_bind (resolve_team_id app raw) (\<lambda>tid.
     op_bind (require_team_manager u tid) (\<lambda>_.
     op_bind (find_team tid) (\<lambda>t.
     op_bind (on_tables (find_user_by_id uid)) (\<lambda>target.
     op_bind (if target = None then op_err (NotFound (''user '' @ uid)) else op_ok ()) (\<lambda>_.
     op_bind (timed (\<lambda>now. add_member (ap_env app) now tid uid
         (case role of Some r \<Rightarrow> r | None \<Rightarrow> TeamContributor))) (\<lambda>_.
     op_bind (load_team_view app t) (\<lambda>v. op_ok (200, v))))))))))"

definition admin_count :: "(user \<times> team_role) list \<Rightarrow> nat" where
  "admin_count members = length (filter (\<lambda>(_, r). r = TeamAdmin) members)"

definition keep_an_admin :: "(user \<times> team_role) list \<Rightarrow> bool \<Rightarrow> string \<Rightarrow> (server, unit) op" where
  "keep_an_admin members loses_admin message =
     (if loses_admin \<and> admin_count members \<le> 1 then op_err (Conflict message) else op_ok ())"

definition role_in :: "uuid \<Rightarrow> (user \<times> team_role) list \<Rightarrow> team_role option" where
  "role_in uid members = map_option snd (List.find (\<lambda>(m, _). usr_id m = uid) members)"

definition set_member_role_handler ::
  "app \<Rightarrow> user \<Rightarrow> string \<Rightarrow> string \<Rightarrow> team_role \<Rightarrow> team_view handler" where
  "set_member_role_handler app u raw raw_user role = rendered app (
     op_bind (ui_managed app True) (\<lambda>_.
     op_bind (resolve_team_id app raw) (\<lambda>tid.
     op_bind (team_parse_id app raw_user) (\<lambda>uid.
     op_bind (require_team_manager u tid) (\<lambda>_.
     op_bind (find_team tid) (\<lambda>t.
     op_bind (on_tables (team_members tid)) (\<lambda>members.
     op_bind (case role_in uid members of
                None \<Rightarrow> op_err (NotFound ''member not found in team'')
              | Some current \<Rightarrow> keep_an_admin members (current = TeamAdmin \<and> role \<noteq> TeamAdmin)
                  ''cannot demote the last admin of the team'') (\<lambda>_.
     op_bind (on_tables (set_member_role (ap_env app) tid uid role)) (\<lambda>_.
     op_bind (load_team_view app t) (\<lambda>v. op_ok (200, v)))))))))))"

definition remove_member_handler :: "app \<Rightarrow> user \<Rightarrow> string \<Rightarrow> string \<Rightarrow> unit handler" where
  "remove_member_handler app u raw raw_user = rendered app (
     op_bind (ui_managed app True) (\<lambda>_.
     op_bind (resolve_team_id app raw) (\<lambda>tid.
     op_bind (team_parse_id app raw_user) (\<lambda>uid.
     op_bind (require_team_manager u tid) (\<lambda>_.
     op_bind (on_tables (team_members tid)) (\<lambda>members.
     op_bind (keep_an_admin members (role_in uid members = Some TeamAdmin)
         ''cannot remove the last admin of the team'') (\<lambda>_.
     op_bind (on_tables (remove_member (ap_env app) tid uid)) (\<lambda>_.
     op_ok (204, ())))))))))"

section \<open>Invites\<close>

record invite_view =
  nv_token :: string
  nv_team_id :: uuid
  nv_role :: team_role
  nv_email :: "string option"
  nv_link :: string
  nv_created_at :: timestamp
  nv_expires_at :: timestamp
  nv_accepted_at :: "timestamp option"
  nv_email_sent :: bool

definition invite_view_of :: "string \<Rightarrow> bool \<Rightarrow> invite \<Rightarrow> invite_view" where
  "invite_view_of base_url email_sent i =
     \<lparr>nv_token = inv_token i, nv_team_id = inv_team_id i, nv_role = inv_role i, nv_email = inv_email i,
      nv_link = invite_link base_url (inv_token i), nv_created_at = inv_created_at i,
      nv_expires_at = inv_expires_at i, nv_accepted_at = inv_accepted_at i, nv_email_sent = email_sent\<rparr>"

definition parse_team_id :: "app \<Rightarrow> string \<Rightarrow> (server, failure, uuid) run" where
  "parse_team_id app raw = answer (error_response app) (resolve_team_id app raw)"

definition require_invite_manager :: "app \<Rightarrow> user \<Rightarrow> uuid \<Rightarrow> (server, failure, unit) run" where
  "require_invite_manager app u tid =
     (if can_manage_instance (usr_instance_role u) then op_ok ()
      else
        op_bind (answer (error_response app) (on_tables (member_role tid (usr_id u)))) (\<lambda>role.
          guard_that (role = Some TeamAdmin) 403 ''requires team admin (or instance manager/owner)''))"

definition list_invites :: "app \<Rightarrow> user \<Rightarrow> string \<Rightarrow> invite_view list handler" where
  "list_invites app u raw =
     op_bind (parse_team_id app raw) (\<lambda>tid.
     op_bind (require_invite_manager app u tid) (\<lambda>_.
     op_bind (answer (error_response app) (on_tables (list_invites_for_team tid))) (\<lambda>is.
     ok_json (map (invite_view_of (ap_base_url app) False) is))))"

text \<open>A single \<open>@\<close> with something on both sides, and a domain with an inner dot.\<close>

definition looks_like_email :: "string \<Rightarrow> bool" where
  "looks_like_email addr \<longleftrightarrow>
     (case split_on (\<lambda>c. c = CHR ''@'') addr of
        [local, domain] \<Rightarrow>
          local \<noteq> [] \<and> CHR ''.'' \<in> set domain \<and> \<not> starts_with domain ''.'' \<and> \<not> ends_with domain ''.''
      | _ \<Rightarrow> False)"

definition invite_message :: "app \<Rightarrow> string \<Rightarrow> string \<Rightarrow> email" where
  "invite_message app addr link =
     \<lparr>em_to = addr, em_subject = ''You'' @ [CHR 0x27] @ ''ve been invited to '' @ ap_org_name app @ '' on soika'',
      em_body = ''You have been invited to join a team on soika.'' @ [CHR 0x0A, CHR 0x0A] @
        ''Accept your invite:'' @ [CHR 0x0A] @ link @ [CHR 0x0A, CHR 0x0A] @
        ''This link expires in '' @ int_to_dec INVITE_TTL_DAYS @ '' days.''\<rparr>"

text \<open>Delivery takes its answer from the script of the mailer; a failed one only leaves
  \<open>email_sent\<close> false.\<close>

definition mail_invite :: "app \<Rightarrow> string option \<Rightarrow> string \<Rightarrow> (server, failure, bool) run" where
  "mail_invite app addr link =
     (case addr of
        None \<Rightarrow> op_ok False
      | Some addr \<Rightarrow>
          (if \<not> ap_mailer app then op_ok False
           else op_bind (op_try (on_hub (send_mail (invite_message app addr link))))
                  (\<lambda>r. op_ok (case r of Inr _ \<Rightarrow> True | Inl _ \<Rightarrow> False))))"

record create_invite_request =
  ci_role :: "team_role option"
  ci_email :: "string option"

definition empty_invite_request :: create_invite_request where
  "empty_invite_request = \<lparr>ci_role = None, ci_email = None\<rparr>"

definition create_invite_handler ::
  "app \<Rightarrow> user \<Rightarrow> string \<Rightarrow> create_invite_request option \<Rightarrow> invite_view handler" where
  "create_invite_handler app u raw body =
     op_bind (answer (error_response app)
         (op_res (require_invites_enabled (ap_allow_invites app) (ap_management app)))) (\<lambda>_.
     op_bind (parse_team_id app raw) (\<lambda>tid.
     op_bind (require_invite_manager app u tid) (\<lambda>_.
     op_bind (answer (error_response app) (on_tables (find_team_by_id tid))) (\<lambda>target.
     op_bind (found target 404 ''team not found'') (\<lambda>_.
     let req = (case body of Some r \<Rightarrow> r | None \<Rightarrow> empty_invite_request);
         role = (case ci_role req of Some r \<Rightarrow> r | None \<Rightarrow> TeamContributor);
         email = non_empty (map_option trim (ci_email req)) in
     op_bind (guard_that (case email of Some addr \<Rightarrow> looks_like_email addr | None \<Rightarrow> True) 400
         ''invalid email address'') (\<lambda>_.
     op_bind clock_now (\<lambda>now.
     op_bind (answer (error_response app) (op_res (dt_add_seconds now (INVITE_TTL_DAYS * 86400)))) (\<lambda>expires_at.
     op_bind new_token (\<lambda>token.
     op_bind (answer (error_response app) (timed (\<lambda>now. create_invite now
         \<lparr>ni_token = token, ni_team_id = tid, ni_role = role, ni_email = email,
          ni_created_by = Some (usr_id u), ni_expires_at = expires_at\<rparr>))) (\<lambda>i.
     op_bind (mail_invite app email (invite_link (ap_base_url app) (inv_token i))) (\<lambda>email_sent.
     created (invite_view_of (ap_base_url app) email_sent i))))))))))))"

definition revoke_invite :: "app \<Rightarrow> user \<Rightarrow> string \<Rightarrow> string \<Rightarrow> unit handler" where
  "revoke_invite app u raw token =
     op_bind (parse_team_id app raw) (\<lambda>tid.
     op_bind (require_invite_manager app u tid) (\<lambda>_.
     op_bind (answer (error_response app) (on_tables (find_invite_by_token token))) (\<lambda>row.
     op_bind (guard_that (map_option inv_team_id row = Some tid) 404 ''invite not found'') (\<lambda>_.
     op_bind (answer (error_response app) (on_tables (delete_invite token))) (\<lambda>_. no_content)))))"

end
