(* ===== verification/ApiNotifications.thy ===== *)
theory ApiNotifications
  imports ApiProjects ApiTeams
begin

text \<open>
  The administration of notifications, \<open>src/api/notifications.rs\<close>, with the two synthetic alerts of
  \<open>src/alertmanager.rs\<close> it can send.
\<close>

section \<open>Synthetic alerts\<close>

text \<open>The Russian texts are their UTF-8 bytes.\<close>

definition cyr :: "nat list \<Rightarrow> string" where "cyr bytes = map char_of bytes"

definition test_texts :: "locale_pref \<Rightarrow> string \<times> string" where
  "test_texts l =
     (case l of
        En \<Rightarrow> (''Soika test notification'',
               ''This is a test alert sent from Soika administration to verify the Alertmanager integration.'')
      | Ru \<Rightarrow>
          (cyr [208, 162, 208, 181, 209, 129, 209, 130, 208, 190, 208, 178, 208, 190, 208, 181, 32,
           209, 131, 208, 178, 208, 181, 208, 180, 208, 190, 208, 188, 208, 187, 208, 181, 208, 189,
           208, 184, 208, 181, 32] @ ''Soika'',
           cyr [208, 173, 209, 130, 208, 190, 32, 209, 130, 208, 181, 209, 129, 209, 130, 208, 190,
           208, 178, 209, 139, 208, 185, 32, 208, 176, 208, 187, 208, 181, 209, 128, 209, 130, 32,
           208, 184, 208, 183, 32, 208, 176, 208, 180, 208, 188, 208, 184, 208, 189, 208, 186, 208,
           184, 32] @ ''Soika '' @
           cyr [208, 180, 208, 187, 209, 143, 32, 208, 191, 209, 128, 208, 190, 208, 178, 208, 181,
           209, 128, 208, 186, 208, 184, 32, 208, 184, 208, 189, 209, 130, 208, 181, 208, 179, 209,
           128, 208, 176, 209, 134, 208, 184, 208, 184, 32, 209, 129, 32] @ ''Alertmanager.''))"

definition test_alert_at :: "app \<Rightarrow> locale_pref \<Rightarrow> timestamp \<Rightarrow> alertmanager_alert res" where
  "test_alert_at app l now =
     (case dt_add_seconds now ALERT_TTL of
        Inl e \<Rightarrow> Inl e
      | Inr ends_at \<Rightarrow>
          Inr \<lparr>al_labels = fold (\<lambda>(k, v). bm_insert k v)
                 [(''alertname'', ''SoikaTestAlert''), (''severity'', ''info''), (''test'', ''true''),
                  (''instance'', ap_base_url app)] [],
               al_annotations = fold (\<lambda>(k, v). bm_insert k v)
                 [(''summary'', fst (test_texts l)), (''description'', snd (test_texts l))] [],
               al_starts_at = now, al_ends_at = ends_at, al_generator_url = ap_base_url app\<rparr>)"

definition feature_enabled :: "app \<Rightarrow> bool" where
  "feature_enabled app \<longleftrightarrow> cfg_alertmanager_enabled (ap_alerts app)"

definition send_test :: "app \<Rightarrow> locale_pref \<Rightarrow> (server, unit) op" where
  "send_test app l =
     (if \<not> feature_enabled app then op_err (Forbidden ''Alertmanager feature is disabled'')
      else
        op_bind (on_hub get_notifications) (\<lambda>c.
        op_bind (op_res (effective_config (ex_url_parse (ap_externals app)) (c\<lparr>am_enabled := True\<rparr>)
            (cfg_alertmanager_url (ap_alerts app)))) (\<lambda>c.
        op_bind clock_now (\<lambda>now.
        op_bind (op_res (test_alert_at app l now)) (\<lambda>a.
        on_hub (send (endpoint c) a))))))"

definition test_title :: "locale_pref \<Rightarrow> string \<Rightarrow> string" where
  "test_title l name =
     (case l of
        En \<Rightarrow> ''Test alert: '' @ name
      | Ru \<Rightarrow> cyr [208, 162, 208, 181, 209, 129, 209, 130, 208, 190, 208, 178, 209, 139, 208, 185, 32,
           208, 176, 208, 187, 208, 181, 209, 128, 209, 130, 58, 32] @ name)"

definition test_variables :: "app \<Rightarrow> project \<Rightarrow> string \<Rightarrow> locale_pref \<Rightarrow> timestamp \<Rightarrow> string bmap" where
  "test_variables app p org l now =
     (let stamp = ex_rfc3339 (ap_externals app) now in
      fold (\<lambda>(k, v). bm_insert k v)
       [(''project_name'', prj_name p), (''project_slug'', prj_slug p), (''project_id'', prj_id p),
        (''team_id'', prj_team_id p), (''org_name'', org), (''issue_id'', ''test-'' @ prj_id p),
        (''issue_short_id'', ''test''), (''title'', test_title l (prj_name p)), (''trigger'', ''test''),
        (''event_count'', ''1''), (''first_seen'', stamp), (''last_seen'', stamp),
        (''issue_url'', trim_end_char (CHR ''/'') (ap_base_url app) @ ''/projects/'' @ prj_slug p)]
       sample_variables)"

definition send_project_test :: "app \<Rightarrow> project \<Rightarrow> locale_pref \<Rightarrow> (server, unit) op" where
  "send_project_test app p l =
     (if \<not> feature_enabled app then op_err (Forbidden ''Alertmanager feature is disabled'')
      else
        op_bind (on_hub (effective_of (ap_alerts app) (ap_externals app))) (\<lambda>c.
        if \<not> am_enabled c then op_err (Forbidden ''Alertmanager integration is disabled'')
        else
          op_bind (on_hub (effective_names (ap_alerts app))) (\<lambda>names.
          op_bind (on_hub (severity_of p)) (\<lambda>sev.
          op_bind (on_hub (project_config c (prj_slug p) names sev)) (\<lambda>c.
          op_bind clock_now (\<lambda>now.
          op_bind (on_hub get_settings) (\<lambda>st.
          op_bind (on_hub (effective_names (ap_alerts app))) (\<lambda>names.
          let c = c\<lparr>am_labels := bm_insert ''alertname'' (an_project_test names) (am_labels c)\<rparr> in
          op_bind (op_res (render_alert c (test_variables app p (set_org_name st) l now) now)) (\<lambda>a.
          on_hub (send (endpoint c) (a\<lparr>al_labels := bm_insert ''test'' ''true'' (al_labels a)\<rparr>)))))))))))"

section \<open>Instance settings\<close>

record notification_view =
  nw_source :: management_source
  nw_names :: alertmanager_names
  nw_interval_source :: management_source
  nw_default_severity :: "alert_severity option"
  nw_interval :: alertmanager_interval
  nw_feature_enabled :: bool
  nw_skip_tls :: bool
  nw_default_url :: "string option"
  nw_config :: notification_config
  nw_variables :: "string list"

definition view_notifications :: "app \<Rightarrow> bool \<Rightarrow> (server, nat \<times> notification_view) op" where
  "view_notifications app skip_tls =
     op_bind (on_hub (effective_names (ap_alerts app))) (\<lambda>names.
     op_bind (on_hub (severity None)) (\<lambda>sev.
     op_bind (on_hub (interval None)) (\<lambda>iv.
     op_bind (on_hub get_notifications) (\<lambda>c.
     op_ok (200, \<lparr>nw_source = (if ms_service_source (ap_management app) = Env then Env
                                else ms_notification_source (ap_management app)),
       nw_names = names, nw_interval_source = ms_service_source (ap_management app),
       nw_default_severity = sev, nw_interval = iv, nw_feature_enabled = feature_enabled app,
       nw_skip_tls = skip_tls, nw_default_url = cfg_alertmanager_url (ap_alerts app), nw_config = c,
       nw_variables = VARIABLES\<rparr>)))))"

definition get_notifications_handler :: "app \<Rightarrow> bool \<Rightarrow> user \<Rightarrow> notification_view handler" where
  "get_notifications_handler app skip_tls u =
     rendered app (op_bind (admin_user u) (\<lambda>_. view_notifications app skip_tls))"

definition require_feature :: "app \<Rightarrow> unit res" where
  "require_feature app =
     (if feature_enabled app then Inr ()
      else Inl (Forbidden ''Alertmanager is disabled by NOTIFICATIONS_ALERTMANAGER_ENABLED''))"

definition require_ui_defaults :: "app \<Rightarrow> unit res" where
  "require_ui_defaults app =
     (if ms_service_source (ap_management app) \<noteq> Ui
      then Inl (Forbidden ''Alertmanager defaults are managed through environment variables'') else Inr ())"

definition require_ui_notifications :: "app \<Rightarrow> unit res" where
  "require_ui_notifications app =
     (if ms_service_source (ap_management app) = Env \<or> ms_notification_source (ap_management app) \<noteq> Ui
      then Inl (Forbidden ''notifications are managed by external configuration'') else Inr ())"

definition effective_for :: "app \<Rightarrow> notification_config \<Rightarrow> notification_config res" where
  "effective_for app c = effective_config (ex_url_parse (ap_externals app)) c (cfg_alertmanager_url (ap_alerts app))"

definition update_notifications_handler ::
  "app \<Rightarrow> bool \<Rightarrow> user \<Rightarrow> notification_config \<Rightarrow> notification_view handler" where
  "update_notifications_handler app skip_tls u c = rendered app (
     op_bind (admin_user u) (\<lambda>_.
     op_bind (op_res (require_feature app)) (\<lambda>_.
     op_bind (op_res (require_ui_notifications app)) (\<lambda>_.
     op_bind (op_res (effective_for app c)) (\<lambda>_.
     op_bind (on_hub (set_notifications (ex_url_parse (ap_externals app)) (ex_env (ap_externals app)) c)) (\<lambda>_.
     view_notifications app skip_tls))))))"

definition preview_notifications :: "app \<Rightarrow> user \<Rightarrow> notification_config \<Rightarrow> alertmanager_alert handler" where
  "preview_notifications app u c = rendered app (
     op_bind (admin_user u) (\<lambda>_.
     op_bind (op_res (require_feature app)) (\<lambda>_.
     op_bind (op_res (effective_for app c)) (\<lambda>c.
     op_bind (on_hub (severity None)) (\<lambda>sev.
     op_bind (case sev of
                None \<Rightarrow> op_ok c
              | Some s \<Rightarrow>
                  op_bind (on_hub (effective_names (ap_alerts app))) (\<lambda>names.
                  op_ok (c\<lparr>am_labels := bm_insert ''severity'' (severity_as_str s)
                    (bm_insert ''alertname'' (for_severity names s) (am_labels c))\<rparr>))) (\<lambda>c.
     op_bind clock_now (\<lambda>now.
     op_bind (op_res (render_alert c sample_variables now)) (\<lambda>a. op_ok (200, a)))))))))"

definition test_alert_handler :: "app \<Rightarrow> user \<Rightarrow> locale_pref \<Rightarrow> unit handler" where
  "test_alert_handler app u l = rendered app (
     op_bind (admin_user u) (\<lambda>_.
     op_bind (op_res (require_feature app)) (\<lambda>_.
     op_bind (if ms_service_source (ap_management app) = Ui \<and> ms_notification_source (ap_management app) = Ui
              then op_bind (on_hub get_notifications) (\<lambda>c. op_ok (trim (am_url c) = [])) else op_ok False) (\<lambda>unsaved.
     if unsaved then op_err (Validation ''save the Alertmanager URL before sending a test alert'')
     else op_bind (send_test app l) (\<lambda>_. op_ok (200, ()))))))"

definition update_interval_handler :: "app \<Rightarrow> user \<Rightarrow> int option \<Rightarrow> alertmanager_interval handler" where
  "update_interval_handler app u seconds = rendered app (
     op_bind (admin_user u) (\<lambda>_.
     op_bind (op_res (require_ui_defaults app)) (\<lambda>_.
     op_bind (on_hub (set_interval (ex_env (ap_externals app)) None seconds)) (\<lambda>_.
     op_bind (on_hub (interval None)) (\<lambda>iv. op_ok (200, iv))))))"

definition update_names_handler :: "app \<Rightarrow> user \<Rightarrow> alertmanager_names \<Rightarrow> alertmanager_names handler" where
  "update_names_handler app u names = rendered app (
     op_bind (admin_user u) (\<lambda>_.
     op_bind (op_res (require_feature app)) (\<lambda>_.
     op_bind (op_res (require_ui_defaults app)) (\<lambda>_.
     op_bind (op_res (normalized_names names)) (\<lambda>names.
     op_bind (on_hub (set_names (ex_env (ap_externals app)) names)) (\<lambda>_. op_ok (200, names)))))))"

text \<open>\<open>None\<close> is a body the JSON extractor rejected.\<close>

definition severity_body :: "alert_severity option option \<Rightarrow> alert_severity option res" where
  "severity_body body =
     (case body of
        Some sev \<Rightarrow> Inr sev | None \<Rightarrow> Inl (Validation ''severity must be critical, warning, info or null''))"

definition update_default_severity ::
  "app \<Rightarrow> user \<Rightarrow> alert_severity option option \<Rightarrow> alert_severity option handler" where
  "update_default_severity app u body = rendered app (
     op_bind (admin_user u) (\<lambda>_.
     op_bind (op_res (require_ui_defaults app)) (\<lambda>_.
     op_bind (op_res (severity_body body)) (\<lambda>sev.
     op_bind (on_hub (set_severity (ex_env (ap_externals app)) None sev)) (\<lambda>_. op_ok (200, sev))))))"

section \<open>Settings of one project\<close>

definition project_interval :: "app \<Rightarrow> user \<Rightarrow> string \<Rightarrow> alertmanager_interval handler" where
  "project_interval app u raw =
     op_bind (resolve_project app raw) (\<lambda>p.
     op_bind (require_member app u (prj_id p)) (\<lambda>_.
     op_bind (answer (api_error app) (on_hub (interval (Some (prj_id p))))) (\<lambda>iv. ok_json iv)))"

definition update_project_interval :: "app \<Rightarrow> user \<Rightarrow> string \<Rightarrow> int option \<Rightarrow> alertmanager_interval handler" where
  "update_project_interval app u raw seconds =
     op_bind (answer (api_error app) (ui_managed app False)) (\<lambda>_.
     op_bind (resolve_project app raw) (\<lambda>p.
     op_bind (require_admin app u (prj_id p)) (\<lambda>_.
     op_bind (answer (api_error app)
         (on_hub (set_interval (ex_env (ap_externals app)) (Some (prj_id p)) seconds))) (\<lambda>_.
     op_bind (answer (api_error app) (on_hub (interval (Some (prj_id p))))) (\<lambda>iv. ok_json iv)))))"

definition project_severity :: "app \<Rightarrow> user \<Rightarrow> string \<Rightarrow> alert_severity option handler" where
  "project_severity app u raw =
     op_bind (resolve_project app raw) (\<lambda>p.
     op_bind (require_member app u (prj_id p)) (\<lambda>_.
     op_bind (answer (api_error app) (on_hub (severity (Some (prj_id p))))) (\<lambda>sev. ok_json sev)))"

definition update_project_severity ::
  "app \<Rightarrow> user \<Rightarrow> string \<Rightarrow> alert_severity option option \<Rightarrow> alert_severity option handler" where
  "update_project_severity app u raw body =
     op_bind (answer (api_error app) (op_res (severity_body body))) (\<lambda>sev.
     op_bind (answer (api_error app) (ui_managed app False)) (\<lambda>_.
     op_bind (resolve_project app raw) (\<lambda>p.
     op_bind (require_admin app u (prj_id p)) (\<lambda>_.
     op_bind (answer (api_error app)
         (on_hub (set_severity (ex_env (ap_externals app)) (Some (prj_id p)) sev))) (\<lambda>_. ok_json sev)))))"

definition project_test_status :: "app \<Rightarrow> user \<Rightarrow> string \<Rightarrow> bool handler" where
  "project_test_status app u raw =
     op_bind (resolve_project app raw) (\<lambda>p.
     op_bind (require_member app u (prj_id p)) (\<lambda>_.
     op_bind (answer (api_error app) (on_hub get_notifications)) (\<lambda>c.
     ok_json (feature_enabled app \<and> am_enabled c))))"

definition project_test_alert :: "app \<Rightarrow> user \<Rightarrow> string \<Rightarrow> locale_pref \<Rightarrow> unit handler" where
  "project_test_alert app u raw l =
     op_bind (resolve_project app raw) (\<lambda>p.
     op_bind (require_admin app u (prj_id p)) (\<lambda>_.
     op_bind (answer (api_error app) (send_project_test app p l)) (\<lambda>_. ok_json ())))"

end
