(* ===== verification/ApiAccounts.thy ===== *)
theory ApiAccounts
  imports ApiTeams
begin

text \<open>
  The handlers of the instance settings and of user administration (\<open>src/api/settings.rs\<close>) and of the
  caller's profile (\<open>src/api/profile.rs\<close>), with the password functions of
  \<open>src/auth/password.rs\<close> over argon2.
\<close>

section \<open>Passwords\<close>

definition hash_password :: "app \<Rightarrow> string \<Rightarrow> (server, string) op" where
  "hash_password app password =
     (if password = [] then op_err (Validation ''password must not be empty'')
      else op_bind new_token (\<lambda>salt.
             case ap_hash app salt password of
               Some h \<Rightarrow> op_ok h | None \<Rightarrow> op_err (Internal ''argon2 hashing failed'')))"

definition verify_password :: "app \<Rightarrow> string \<Rightarrow> string \<Rightarrow> bool res" where
  "verify_password app password hash =
     (if hash = [] then Inr False
      else case ap_phc app hash of
             None \<Rightarrow> Inl (Internal ''stored password hash is malformed'')
           | Some check \<Rightarrow>
               (case check password of
                  Some b \<Rightarrow> Inr b | None \<Rightarrow> Inl (Internal ''argon2 verification failed'')))"

section \<open>Settings\<close>

record authentication_status =
  as_password_login :: string
  as_sso :: "sso_status option"
  as_passkeys :: "passkey_status option"
  as_public_signup :: bool
  as_yaml_teams :: bool
  as_invites_enabled :: bool
  as_admin_setup_enabled :: bool
  as_login_protection_enabled :: bool

definition yaml_teams :: "app \<Rightarrow> bool" where
  "yaml_teams app \<longleftrightarrow> ms_team_source (ap_management app) = Yaml"

definition authentication_status_of :: "app \<Rightarrow> bool \<Rightarrow> bool \<Rightarrow> authentication_status" where
  "authentication_status_of app lockout_enabled allow_signup =
     \<lparr>as_password_login = (if \<not> ap_email_login app then ''disabled'' else if ap_oidc app then ''owners'' else ''all''),
      as_sso = (if ap_oidc app then Some (ap_sso app) else None),
      as_passkeys = (if ap_webauthn app then ap_passkey app else None),
      as_public_signup = (allow_signup \<and> ap_email_login app \<and> \<not> ap_oidc app \<and> \<not> yaml_teams app),
      as_yaml_teams = yaml_teams app,
      as_invites_enabled = invites_enabled (ap_allow_invites app) (ap_management app),
      as_admin_setup_enabled = (ap_admin_enabled app \<and> ap_admin_users app = []),
      as_login_protection_enabled = lockout_enabled\<rparr>"

record smtp_status =
  st_enabled :: bool
  st_configured :: bool
  st_host :: "string option"
  st_port :: "nat option"
  st_from :: "string option"

definition smtp_status_of :: "app \<Rightarrow> smtp_status" where
  "smtp_status_of app =
     (case ap_smtp app of
        Some c \<Rightarrow> \<lparr>st_enabled = ap_smtp_enabled app, st_configured = True, st_host = Some (sm_host c),
                   st_port = Some (sm_port c), st_from = sm_from c\<rparr>
      | None \<Rightarrow> \<lparr>st_enabled = ap_smtp_enabled app, st_configured = False, st_host = None, st_port = None,
                 st_from = None\<rparr>)"

record settings_view =
  vs_settings :: management_settings
  vs_report :: sync_report
  vs_oauth_enabled :: bool
  vs_authentication :: authentication_status
  vs_allow_signup :: bool
  vs_org_name :: string
  vs_default_team_ids :: "uuid list"
  vs_updated_at :: timestamp
  vs_smtp :: smtp_status
  vs_deploy_url :: "string option"

definition to_view :: "app \<Rightarrow> bool \<Rightarrow> service_settings \<Rightarrow> uuid list \<Rightarrow> settings_view" where
  "to_view app lockout_enabled st default_ids =
     \<lparr>vs_settings = ap_management app, vs_report = ap_sync_report app, vs_oauth_enabled = ap_oidc app,
      vs_authentication = authentication_status_of app lockout_enabled (set_allow_signup st),
      vs_allow_signup = set_allow_signup st, vs_org_name = set_org_name st,
      vs_default_team_ids = default_ids, vs_updated_at = set_updated_at st,
      vs_smtp = smtp_status_of app, vs_deploy_url = ap_deploy_url app\<rparr>"

definition read_settings :: "app \<Rightarrow> (server, nat \<times> settings_view) op" where
  "read_settings app =
     op_bind (on_hub get_settings) (\<lambda>st.
     op_bind (on_hub default_team_ids) (\<lambda>ids s.
     op_ok (200, to_view app (lc_enabled (lg_config (sv_guard s))) st ids) s))"

definition get_settings_handler :: "app \<Rightarrow> user \<Rightarrow> settings_view handler" where
  "get_settings_handler app u = rendered app (op_bind (admin_user u) (\<lambda>_. read_settings app))"

record update_settings =
  us_allow_signup :: "bool option"
  us_org_name :: "string option"
  us_default_team_ids :: "uuid list option"

definition when_some :: "'a option \<Rightarrow> ('a \<Rightarrow> ('s, 'e, unit) run) \<Rightarrow> ('s, 'e, unit) run" where
  "when_some x f = (case x of Some v \<Rightarrow> f v | None \<Rightarrow> op_ok ())"

definition update_settings_handler :: "app \<Rightarrow> user \<Rightarrow> update_settings \<Rightarrow> settings_view handler" where
  "update_settings_handler app u body = rendered app (
     op_bind (admin_user u) (\<lambda>_.
     if ms_service_source (ap_management app) = Env then
       op_err (Forbidden ''service settings are configured through environment variables'')
     else
       op_bind (if us_allow_signup body \<noteq> None \<or> us_default_team_ids body \<noteq> None
                then ui_managed app True else op_ok ()) (\<lambda>_.
       if us_allow_signup body = None \<and> us_org_name body = None \<and> us_default_team_ids body = None then
         op_err (Validation ''no settings fields provided'')
       else if map_option trim (us_org_name body) = Some [] then
         op_err (Validation ''organization name must not be empty'')
       else
         op_bind (when_some (us_default_team_ids body) (\<lambda>ids.
           timed_hub (\<lambda>now. set_default_team_ids (ex_env (ap_externals app)) now ids))) (\<lambda>_.
         op_bind (when_some (us_org_name body) (\<lambda>name.
           op_bind (timed_hub (\<lambda>now. set_org_name_to now (trim name))) (\<lambda>_. op_ok ()))) (\<lambda>_.
         op_bind (when_some (us_allow_signup body) (\<lambda>allow.
           op_bind (timed_hub (\<lambda>now. set_allow_signup_to now allow)) (\<lambda>_. op_ok ()))) (\<lambda>_.
         read_settings app))))))"

definition test_message :: "app \<Rightarrow> string \<Rightarrow> email" where
  "test_message app to =
     \<lparr>em_to = to, em_subject = ''['' @ ap_org_name app @ ''] Test email'',
      em_body = ''This is a test email from '' @ ap_org_name app @ ''.'' @ [CHR 0x0A, CHR 0x0A] @
        ''If you can read this, SMTP delivery is configured correctly.'' @ [CHR 0x0A, CHR 0x0A] @
        [CHR 0xE2, CHR 0x80, CHR 0x94] @ '' '' @ ap_org_name app\<rparr>"

definition test_recipient :: "user \<Rightarrow> string option \<Rightarrow> string res" where
  "test_recipient u to =
     (case map_option trim to of
        Some t \<Rightarrow> (if t \<noteq> [] then Inr t else Inl (Validation ''recipient must not be empty''))
      | None \<Rightarrow> Inr (usr_email u))"

definition test_email_handler :: "app \<Rightarrow> user \<Rightarrow> string option \<Rightarrow> string handler" where
  "test_email_handler app u to = rendered app (
     op_bind (admin_user u) (\<lambda>_.
     if \<not> ap_mailer app then
       op_err (Validation ''SMTP is not configured; set SMTP_HOST and related variables to enable email'')
     else
       op_bind (op_res (test_recipient u to)) (\<lambda>to.
       op_bind (on_hub (send_mail (test_message app to))) (\<lambda>_. op_ok (200, to)))))"

section \<open>User administration\<close>

record admin_user_row =
  ar_id :: uuid
  ar_email :: string
  ar_display_name :: string
  ar_instance_role :: instance_role
  ar_stored_instance_role :: instance_role
  ar_role_locked :: bool
  ar_notifications_enabled :: bool
  ar_status :: user_status
  ar_created_at :: timestamp

definition row_with_config :: "app \<Rightarrow> user \<Rightarrow> admin_user_row" where
  "row_with_config app u =
     (let locked = admin_users_contains (ap_admin_users app) (usr_email u) in
      \<lparr>ar_id = usr_id u, ar_email = usr_email u, ar_display_name = usr_display_name u,
       ar_instance_role = (if locked then Owner else usr_instance_role u),
       ar_stored_instance_role = usr_instance_role u, ar_role_locked = locked,
       ar_notifications_enabled = usr_notifications_enabled u, ar_status = usr_status u,
       ar_created_at = usr_created_at u\<rparr>)"

definition list_users_handler :: "app \<Rightarrow> user \<Rightarrow> admin_user_row list handler" where
  "list_users_handler app u = rendered app (
     op_bind (admin_user u) (\<lambda>_.
     op_bind (on_tables list_users) (\<lambda>us. op_ok (200, map (row_with_config app) us))))"

definition parse_user_id :: "app \<Rightarrow> string \<Rightarrow> (server, uuid) op" where
  "parse_user_id app raw =
     (case ap_parse_uuid app raw of
        Some i \<Rightarrow> op_ok i | None \<Rightarrow> op_err (Validation (''invalid user id: '' @ raw)))"

definition find_target :: "uuid \<Rightarrow> string \<Rightarrow> (server, user) op" where
  "find_target uid missing =
     op_bind (on_tables (find_user_by_id uid)) (\<lambda>row.
       case row of Some t \<Rightarrow> op_ok t | None \<Rightarrow> op_err (NotFound missing))"

definition effectively_owner :: "app \<Rightarrow> user \<Rightarrow> bool" where
  "effectively_owner app t \<longleftrightarrow>
     is_owner (effective_instance_role (ap_admin_users app) (usr_email t) (usr_instance_role t))"

definition no_user_update :: user_update where
  "no_user_update = \<lparr>uu_display_name = None, uu_password_hash = None, uu_notifications_enabled = None,
     uu_locale = None, uu_initial_locale = None, uu_status = None\<rparr>"

definition approve_user :: "app \<Rightarrow> user \<Rightarrow> string \<Rightarrow> admin_user_row handler" where
  "approve_user app u raw = rendered app (
     op_bind (admin_user u) (\<lambda>_.
     op_bind (parse_user_id app raw) (\<lambda>uid.
     op_bind (find_target uid ''user'') (\<lambda>t.
     if effectively_owner app t \<and> \<not> is_owner (usr_instance_role u) then
       op_err (Forbidden ''only an owner can approve an owner account'')
     else
       op_bind (timed (\<lambda>now. update_user (ap_env app) now uid (no_user_update\<lparr>uu_status := Some Active\<rparr>))) (\<lambda>t.
       op_ok (200, row_with_config app t))))))"

text \<open>The owners are counted only when the target's stored role is owner.\<close>

definition keep_an_owner :: "bool \<Rightarrow> string \<Rightarrow> (server, unit) op" where
  "keep_an_owner loses_owner message =
     (if \<not> loses_owner then op_ok ()
      else op_bind (on_tables count_owners) (\<lambda>n. if n \<le> 1 then op_err (Conflict message) else op_ok ()))"

definition may_delete :: "app \<Rightarrow> user \<Rightarrow> user \<Rightarrow> (server, unit) op" where
  "may_delete app u t =
     (if effectively_owner app t then
        (if \<not> is_owner (usr_instance_role u) then op_err (Forbidden ''only an owner can delete an owner'')
         else keep_an_owner (is_owner (usr_instance_role t)) ''cannot delete the last owner'')
      else op_ok ())"

definition delete_user_handler :: "app \<Rightarrow> user \<Rightarrow> string \<Rightarrow> uuid handler" where
  "delete_user_handler app u raw = rendered app (
     op_bind (admin_user u) (\<lambda>_.
     op_bind (parse_user_id app raw) (\<lambda>uid.
     if uid = usr_id u then op_err (Forbidden ''you cannot delete your own account'')
     else
       op_bind (find_target uid (''user not found: '' @ uid)) (\<lambda>t.
       op_bind (may_delete app u t) (\<lambda>_.
       op_bind (deleting (on_tables (delete_user (ap_env app) uid))) (\<lambda>_. op_ok (200, uid)))))))"

definition set_user_role :: "app \<Rightarrow> user \<Rightarrow> string \<Rightarrow> instance_role \<Rightarrow> admin_user_row handler" where
  "set_user_role app u raw new_role = rendered app (
     op_bind (admin_user u) (\<lambda>_.
     op_bind (parse_user_id app raw) (\<lambda>uid.
     op_bind (find_target uid (''user not found: '' @ uid)) (\<lambda>t.
     if admin_users_contains (ap_admin_users app) (usr_email t) then
       op_err (Forbidden ''role is managed by ADMIN_USERS and cannot be changed'')
     else if (is_owner (usr_instance_role t) \<or> is_owner new_role) \<and> \<not> is_owner (usr_instance_role u) then
       op_err (Forbidden ''only an owner can grant or revoke the owner role'')
     else
       op_bind (keep_an_owner (is_owner (usr_instance_role t) \<and> \<not> is_owner new_role)
         ''cannot demote the last owner'') (\<lambda>_.
       op_bind (timed (\<lambda>now. set_instance_role (ap_env app) now uid new_role)) (\<lambda>t.
       op_ok (200, row_with_config app t)))))))"

section \<open>Profile\<close>

record profile_view =
  pr_id :: uuid
  pr_email :: string
  pr_display_name :: string
  pr_instance_role :: instance_role
  pr_notifications_enabled :: bool
  pr_locale :: "locale_pref option"
  pr_auth_provider :: auth_provider

definition profile_view_of :: "user \<Rightarrow> profile_view" where
  "profile_view_of u =
     \<lparr>pr_id = usr_id u, pr_email = usr_email u, pr_display_name = usr_display_name u,
      pr_instance_role = usr_instance_role u, pr_notifications_enabled = usr_notifications_enabled u,
      pr_locale = usr_locale u, pr_auth_provider = usr_auth_provider u\<rparr>"

record update_profile =
  uf_display_name :: "string option"
  uf_notifications_enabled :: "bool option"
  uf_locale :: "locale_pref option"
  uf_initial_locale :: "locale_pref option"
  uf_current_password :: "string option"
  uf_new_password :: "string option"

definition MIN_PASSWORD_LEN :: nat where "MIN_PASSWORD_LEN = 8"

text \<open>The length of a password is its number of bytes.\<close>

definition validate_new_password :: "string \<Rightarrow> string \<Rightarrow> unit res" where
  "validate_new_password current new =
     (if length new < MIN_PASSWORD_LEN then
        Inl (Validation (''new password must be at least '' @ nat_to_dec MIN_PASSWORD_LEN @ '' characters''))
      else if new = current then Inl (Validation ''new password must differ from the current one'')
      else Inr ())"

definition build_password_hash :: "app \<Rightarrow> string \<Rightarrow> string \<Rightarrow> string \<Rightarrow> (server, string) op" where
  "build_password_hash app current new stored_hash =
     op_bind (op_res (verify_password app current stored_hash)) (\<lambda>matches.
     if \<not> matches then op_err (Auth ''current password is incorrect'')
     else op_bind (op_res (validate_new_password current new)) (\<lambda>_. hash_password app new))"

definition new_display_name :: "app \<Rightarrow> user \<Rightarrow> string option \<Rightarrow> string option res" where
  "new_display_name app u name =
     (case name of
        None \<Rightarrow> Inr None
      | Some n \<Rightarrow>
          (if usr_auth_provider u = Oidc \<and> \<not> ap_sso_rename app then
             Inl (Forbidden ''display name changes are disabled for SSO accounts'')
           else case normalize_display_name n of Inl e \<Rightarrow> Inl e | Inr n \<Rightarrow> Inr (Some n)))"

definition new_password_hash :: "app \<Rightarrow> user \<Rightarrow> update_profile \<Rightarrow> (server, string option) op" where
  "new_password_hash app u body =
     (case (uf_current_password body, uf_new_password body) of
        (Some current, Some new) \<Rightarrow>
          op_bind (build_password_hash app current new (usr_password_hash u)) (\<lambda>h. op_ok (Some h))
      | (None, None) \<Rightarrow> op_ok None
      | _ \<Rightarrow> op_err (Validation ''both current_password and new_password are required to change password''))"

definition update_profile_handler :: "app \<Rightarrow> user \<Rightarrow> update_profile \<Rightarrow> profile_view handler" where
  "update_profile_handler app u body = rendered app (
     op_bind (op_res (new_display_name app u (uf_display_name body))) (\<lambda>name.
     op_bind (new_password_hash app u body) (\<lambda>hash.
     op_bind (timed (\<lambda>now. update_user (ap_env app) now (usr_id u)
         \<lparr>uu_display_name = name, uu_password_hash = hash,
          uu_notifications_enabled = uf_notifications_enabled body, uu_locale = uf_locale body,
          uu_initial_locale = uf_initial_locale body, uu_status = None\<rparr>)) (\<lambda>updated.
     op_bind (if hash \<noteq> None then on_tables (delete_sessions_for_user (usr_id u)) else op_ok ()) (\<lambda>_.
     op_ok (200, profile_view_of (admin_users_apply (ap_admin_users app) updated)))))))"

end
