(* ===== verification/AuthHandlers.thy ===== *)
theory AuthHandlers
  imports ApiAccounts
begin

text \<open>
  Signing in and joining, \<open>src/auth/handlers.rs\<close>: password login behind the brute-force guard, the
  first-run setup, logout, self-registration, and the acceptance of an invite by a signed-in user, an
  existing account or a new one.

  The cookies are printable ASCII, so \<open>set_cookie_header\<close> does not fail; an answer carries its cookie.
\<close>

section \<open>Answers\<close>

record user_view =
  uv_id :: uuid
  uv_email :: string
  uv_display_name :: string
  uv_instance_role :: instance_role
  uv_notifications_enabled :: bool
  uv_locale :: "locale_pref option"
  uv_auth_provider :: auth_provider

definition user_view_of :: "user \<Rightarrow> user_view" where
  "user_view_of u =
     \<lparr>uv_id = usr_id u, uv_email = usr_email u, uv_display_name = usr_display_name u,
      uv_instance_role = usr_instance_role u, uv_notifications_enabled = usr_notifications_enabled u,
      uv_locale = usr_locale u, uv_auth_provider = usr_auth_provider u\<rparr>"

type_synonym 'a cookie_handler = "(server, failure, nat \<times> string option \<times> 'a) run"

section \<open>Validation\<close>

text \<open>\<open>char::is_control\<close>: U+0000 to U+001F and U+007F to U+009F.\<close>

definition is_control :: "string \<Rightarrow> bool" where
  "is_control c \<longleftrightarrow>
     (case c of
        [b] \<Rightarrow> byte b < 32 \<or> byte b = 127
      | [a, b] \<Rightarrow> byte a = 194 \<and> byte b < 160
      | _ \<Rightarrow> False)"

definition normalize_email :: "string \<Rightarrow> string res" where
  "normalize_email email =
     (let e = to_ascii_lowercase (trim email) in
      if 254 < length e \<or> list_ex (\<lambda>c. is_whitespace c \<or> is_control c) (chars e) \<or>
         \<not> (case split_once (CHR ''@'') e of
              Some (local, domain) \<Rightarrow> local \<noteq> [] \<and> domain \<noteq> [] \<and> CHR ''@'' \<notin> set domain
            | None \<Rightarrow> False)
      then Inl (Validation ''a valid email is required'') else Inr e)"

definition validate_password :: "string \<Rightarrow> unit res" where
  "validate_password password =
     (if length password < 8 then Inl (Validation ''password must be at least 8 characters'') else Inr ())"

definition require_email_login :: "app \<Rightarrow> unit res" where
  "require_email_login app =
     (if ap_email_login app then Inr () else Inl (Forbidden ''email/password sign-in is disabled''))"

section \<open>The brute-force guard\<close>

text \<open>\<open>check\<close> reads the monotonic clock; a locked key answers 429.\<close>

definition not_locked :: "string \<Rightarrow> (server, failure, unit) run" where
  "not_locked key =
     op_bind instant_now (\<lambda>now s.
       case check_lock_at (sv_guard s) key now of
         Locked retry_after \<Rightarrow> (Inl (RetryAfter retry_after), s)
       | Allowed \<Rightarrow> (Inr (), s))"

definition note_failure :: "string \<Rightarrow> (server, unit) op" where
  "note_failure key =
     op_bind instant_now (\<lambda>now s.
       case record_failure_at (sv_guard s) key now of (r, g) \<Rightarrow> (r, s\<lparr>sv_guard := g\<rparr>))"

definition note_success :: "string \<Rightarrow> (server, 'e, unit) run" where
  "note_success key s = (Inr (), s\<lparr>sv_guard := record_success (sv_guard s) key\<rparr>)"

section \<open>Login\<close>

record login_request =
  lr_email :: string
  lr_password :: string

text \<open>An unknown or SSO-only account spends the same hashing effort and never verifies.\<close>

definition verified_login :: "app \<Rightarrow> user option \<Rightarrow> string \<Rightarrow> bool res" where
  "verified_login app u password =
     (case u of
        Some u \<Rightarrow> (if usr_password_hash u \<noteq> [] then verify_password app password (usr_password_hash u) else Inr False)
      | None \<Rightarrow> Inr False)"

definition may_sign_in :: "app \<Rightarrow> user \<Rightarrow> bool" where
  "may_sign_in app u \<longleftrightarrow>
     \<not> is_pending (usr_status u) \<and> (\<not> ap_oidc app \<or> is_owner (usr_instance_role u))"

definition open_session :: "app \<Rightarrow> uuid \<Rightarrow> (server, session \<times> string) op" where
  "open_session app uid = timed (\<lambda>now. start_session (ap_auth app) now uid)"

definition refuse_login :: "app \<Rightarrow> string \<Rightarrow> bool \<Rightarrow> user option \<Rightarrow> (server, failure, 'a) run" where
  "refuse_login app key verified u =
     (if verified \<and> ap_oidc app \<and>
         (case u of Some u \<Rightarrow> \<not> is_pending (usr_status u) \<and> \<not> is_owner (usr_instance_role u) | None \<Rightarrow> False)
      then op_err (auth_error app (Forbidden ''password login is disabled; use SSO''))
      else op_bind (answer (auth_error app) (note_failure key))
             (\<lambda>_. op_err (auth_error app (Auth ''invalid email or password''))))"

definition finish_login :: "app \<Rightarrow> string \<Rightarrow> user \<Rightarrow> user_view cookie_handler" where
  "finish_login app key u =
     op_bind (note_success key) (\<lambda>_.
     op_bind (answer (auth_error app) (open_session app (usr_id u))) (\<lambda>(_, cookie).
     op_ok (200, Some cookie, user_view_of u)))"

definition judge_login :: "app \<Rightarrow> string \<Rightarrow> user option \<Rightarrow> string \<Rightarrow> user_view cookie_handler" where
  "judge_login app key found_user password =
     op_bind (answer (auth_error app) (op_res (verified_login app found_user password))) (\<lambda>verified.
     case found_user of
       Some u \<Rightarrow> (if verified \<and> may_sign_in app u then finish_login app key u
                  else refuse_login app key verified found_user)
     | None \<Rightarrow> refuse_login app key verified found_user)"

definition login :: "app \<Rightarrow> string option \<Rightarrow> login_request \<Rightarrow> user_view cookie_handler" where
  "login app peer body =
     op_bind (answer (auth_error app) (op_res (require_email_login app))) (\<lambda>_.
     op_bind (answer (auth_error app) (op_res (normalize_email (lr_email body)))) (\<lambda>email.
     let key = lockout_key (client_ip peer) email in
     op_bind (not_locked key) (\<lambda>_.
     op_bind (answer (auth_error app) (on_tables (find_user_by_email email))) (\<lambda>row.
     judge_login app key (map_option (admin_users_apply (ap_admin_users app)) row) (lr_password body)))))"

section \<open>Setup\<close>

record setup_request =
  sr_email :: string
  sr_password :: string
  sr_display_name :: string
  sr_org_name :: string

text \<open>A conflict of the atomic creation reads as an initialized service.\<close>

definition initialized_conflict :: "(server, 'a) op \<Rightarrow> (server, 'a) op" where
  "initialized_conflict m s =
     (case m s of
        (Inl (Conflict _), t) \<Rightarrow> (Inl (Conflict ''the service is already initialized''), t)
      | (r, t) \<Rightarrow> (r, t))"

definition create_owner :: "app \<Rightarrow> string \<Rightarrow> string \<Rightarrow> string \<Rightarrow> (server, user) op" where
  "create_owner app email display_name password_hash =
     initialized_conflict (timed (\<lambda>now. create_initial_owner (ap_env app) (ap_assign_default_teams app) now
       \<lparr>nu_email = email, nu_display_name = display_name, nu_password_hash = password_hash,
        nu_instance_role = Owner, nu_auth_provider = Local, nu_status = Active\<rparr>))"

definition setup_op :: "app \<Rightarrow> setup_request \<Rightarrow> (server, nat \<times> string option \<times> user_view) op" where
  "setup_op app body =
     (if \<not> ap_admin_enabled app then op_err (NotFound ''setup is disabled'')
      else if ap_admin_users app \<noteq> [] then
        op_err (Forbidden ''setup is disabled when ADMIN_USERS is configured'')
      else
        op_bind (on_tables count_owners) (\<lambda>n.
        if 0 < n then op_err (Conflict ''the service is already initialized'')
        else
          op_bind (op_res (normalize_email (sr_email body))) (\<lambda>email.
          op_bind (op_res (validate_password (sr_password body))) (\<lambda>_.
          op_bind (op_res (normalize_display_name (sr_display_name body))) (\<lambda>display_name.
          if trim (sr_org_name body) = [] then op_err (Validation ''organization name must not be empty'')
          else
            op_bind (hash_password app (sr_password body)) (\<lambda>hash.
            op_bind (create_owner app email display_name hash) (\<lambda>u.
            op_bind (if ms_service_source (ap_management app) \<noteq> Env
                     then op_bind (timed_hub (\<lambda>now. set_org_name_to now (trim (sr_org_name body)))) (\<lambda>_. op_ok ())
                     else op_ok ()) (\<lambda>_.
            op_bind (open_session app (usr_id u)) (\<lambda>(_, cookie).
            op_ok (201, Some cookie, user_view_of u))))))))))"

definition setup_handler :: "app \<Rightarrow> setup_request \<Rightarrow> user_view cookie_handler" where
  "setup_handler app body = answer (auth_error app) (setup_op app body)"

section \<open>Logout\<close>

definition logout :: "app \<Rightarrow> headers \<Rightarrow> unit cookie_handler" where
  "logout app hs =
     op_bind (answer (auth_error app) (on_tables (end_session (ap_auth app) hs))) (\<lambda>clearing.
     op_ok (204, Some clearing, ()))"

section \<open>Registration\<close>

text \<open>A local registration never claims an address that \<open>ADMIN_USERS\<close> makes an owner.\<close>

definition create_local_user :: "app \<Rightarrow> string \<Rightarrow> string \<Rightarrow> string \<Rightarrow> (server, user) op" where
  "create_local_user app email password display_name =
     op_bind (op_res (normalize_email email)) (\<lambda>email.
     if admin_users_contains (ap_admin_users app) email then
       op_err (Forbidden ''this address requires administrator provisioning or verified SSO'')
     else
       op_bind (op_res (validate_password password)) (\<lambda>_.
       op_bind (op_res (normalize_display_name display_name)) (\<lambda>display_name.
       op_bind (on_tables (find_user_by_email email)) (\<lambda>existing.
       if existing \<noteq> None then op_err (Conflict ''an account with this email already exists'')
       else
         op_bind (hash_password app password) (\<lambda>hash.
         op_bind (timed (\<lambda>now. create_user (ap_env app) (ap_assign_default_teams app) now
           \<lparr>nu_email = email, nu_display_name = display_name, nu_password_hash = hash,
            nu_instance_role = InstMember, nu_auth_provider = Local, nu_status = Active\<rparr>)) (\<lambda>u.
         op_ok (admin_users_apply (ap_admin_users app) u)))))))"

record register_request =
  rr_email :: string
  rr_password :: string
  rr_display_name :: string

definition register_op :: "app \<Rightarrow> register_request \<Rightarrow> (server, nat \<times> string option \<times> user_view) op" where
  "register_op app body =
     op_bind (ui_managed app True) (\<lambda>_.
     op_bind (op_res (require_email_login app)) (\<lambda>_.
     if ap_oidc app then op_err (Forbidden ''self-registration is disabled; use SSO'')
     else
       op_bind (on_hub get_settings) (\<lambda>st.
       if \<not> set_allow_signup st then op_err (Forbidden ''public sign-up is disabled'')
       else
         op_bind (create_local_user app (rr_email body) (rr_password body) (rr_display_name body)) (\<lambda>u.
         op_bind (open_session app (usr_id u)) (\<lambda>(_, cookie).
         op_ok (201, Some cookie, user_view_of u))))))"

definition register :: "app \<Rightarrow> register_request \<Rightarrow> user_view cookie_handler" where
  "register app body = answer (auth_error app) (register_op app body)"

section \<open>Invites\<close>

definition load_usable_invite :: "string \<Rightarrow> (server, invite) op" where
  "load_usable_invite token =
     op_bind (on_tables (find_invite_by_token token)) (\<lambda>row.
       case row of
         None \<Rightarrow> op_err (Auth ''unknown invite'')
       | Some i \<Rightarrow>
           op_bind clock_now (\<lambda>now. op_bind (op_res (check_invite_usable i now)) (\<lambda>_. op_ok i)))"

record pending_invite_view =
  pi_token :: string
  pi_team_id :: uuid
  pi_team_short_id :: string
  pi_team_name :: string
  pi_role :: team_role
  pi_email :: "string option"
  pi_requires_registration :: bool

definition get_invite_op :: "string \<Rightarrow> (server, nat \<times> pending_invite_view) op" where
  "get_invite_op token =
     op_bind (load_usable_invite token) (\<lambda>i.
     op_bind (case inv_email i of
                Some email \<Rightarrow> op_bind (on_tables (find_user_by_email email)) (\<lambda>row. op_ok (row = None))
              | None \<Rightarrow> op_ok False) (\<lambda>requires_registration.
     op_bind (on_tables (find_team_by_id (inv_team_id i))) (\<lambda>row.
       case row of
         None \<Rightarrow> op_err (NotFound ''team'')
       | Some t \<Rightarrow>
           op_ok (200, \<lparr>pi_token = inv_token i, pi_team_id = tm_id t, pi_team_short_id = tm_short_id t,
             pi_team_name = tm_name t, pi_role = inv_role i, pi_email = inv_email i,
             pi_requires_registration = requires_registration\<rparr>))))"

definition get_invite :: "app \<Rightarrow> string \<Rightarrow> pending_invite_view handler" where
  "get_invite app token = answer (auth_error app) (get_invite_op token)"

record accept_invite_request =
  ac_email :: "string option"
  ac_password :: "string option"
  ac_display_name :: "string option"

definition required_field :: "string \<Rightarrow> 'a option \<Rightarrow> (server, 'a) op" where
  "required_field message x = (case x of Some v \<Rightarrow> op_ok v | None \<Rightarrow> op_err (Validation message))"

abbreviation sso_first :: error where
  "sso_first \<equiv> Forbidden ''sign in with SSO first, then accept this invite''"

definition authenticate_invitee :: "app \<Rightarrow> user \<Rightarrow> string \<Rightarrow> (server, user) op" where
  "authenticate_invitee app existing password =
     (if ap_oidc app \<and> \<not> is_owner (usr_instance_role (admin_users_apply (ap_admin_users app) existing)) then
        op_err sso_first
      else if is_pending (usr_status existing) then op_err (Auth ''invalid email or password'')
      else
        op_bind (op_res (verify_password app password (usr_password_hash existing))) (\<lambda>matches.
          if matches then op_ok existing else op_err (Auth ''invalid email or password'')))"

definition resolve_or_register_invitee ::
  "app \<Rightarrow> invite \<Rightarrow> accept_invite_request \<Rightarrow> (server, user \<times> string) op" where
  "resolve_or_register_invitee app i req =
     op_bind (op_res (require_email_login app)) (\<lambda>_.
     op_bind (required_field ''email is required to accept this invite''
         (case ac_email req of Some e \<Rightarrow> Some e | None \<Rightarrow> inv_email i)) (\<lambda>email.
     op_bind (op_res (normalize_email email)) (\<lambda>email.
     op_bind (required_field ''password is required to accept this invite'' (ac_password req)) (\<lambda>password.
     op_bind (on_tables (find_user_by_email email)) (\<lambda>row.
     op_bind (case row of
                Some existing \<Rightarrow> authenticate_invitee app existing password
              | None \<Rightarrow>
                  (if ap_oidc app then op_err sso_first
                   else create_local_user app email password
                     (case ac_display_name req of Some n \<Rightarrow> n | None \<Rightarrow> email))) (\<lambda>u.
     op_bind (open_session app (usr_id u)) (\<lambda>(_, cookie). op_ok (u, cookie))))))))"

text \<open>Only a credential failure counts against the key.\<close>

definition anonymous_invitee ::
  "app \<Rightarrow> string option \<Rightarrow> invite \<Rightarrow> accept_invite_request \<Rightarrow> (server, failure, user \<times> string) run" where
  "anonymous_invitee app peer i req =
     (let candidate = to_ascii_lowercase (trim (case ac_email req of Some e \<Rightarrow> e | None \<Rightarrow>
            (case inv_email i of Some e \<Rightarrow> e | None \<Rightarrow> ''unknown'')));
          key = lockout_key (client_ip peer) candidate in
      op_bind (not_locked key) (\<lambda>_.
      op_bind (op_try (resolve_or_register_invitee app i req)) (\<lambda>r.
        case r of
          Inr (u, cookie) \<Rightarrow> op_bind (note_success key) (\<lambda>_. op_ok (u, cookie))
        | Inl e \<Rightarrow>
            (case e of
               Auth m \<Rightarrow> op_bind (answer (auth_error app) (note_failure key)) (\<lambda>_. op_err (auth_error app e))
             | _ \<Rightarrow> op_err (auth_error app e)))))"

definition addressed_to :: "invite \<Rightarrow> user option \<Rightarrow> accept_invite_request \<Rightarrow> bool" where
  "addressed_to i current req \<longleftrightarrow>
     (case inv_email i of
        None \<Rightarrow> True
      | Some target \<Rightarrow>
          eq_ignore_ascii_case target (trim (case current of Some u \<Rightarrow> usr_email u | None \<Rightarrow>
            (case ac_email req of Some e \<Rightarrow> e | None \<Rightarrow> target))))"

definition accept_invite_handler ::
  "app \<Rightarrow> user option \<Rightarrow> string \<Rightarrow> string option \<Rightarrow> accept_invite_request \<Rightarrow> user_view cookie_handler" where
  "accept_invite_handler app current token peer req =
     op_bind (answer (auth_error app)
         (op_res (require_invites_enabled (ap_allow_invites app) (ap_management app)))) (\<lambda>_.
     op_bind (answer (auth_error app) (load_usable_invite token)) (\<lambda>i.
     op_bind (if addressed_to i current req then op_ok ()
              else op_err (auth_error app (Forbidden ''invite is addressed to a different account''))) (\<lambda>_.
     op_bind (case current of
                Some u \<Rightarrow> op_ok (u, None)
              | None \<Rightarrow> op_bind (anonymous_invitee app peer i req) (\<lambda>(u, cookie). op_ok (u, Some cookie))) (\<lambda>(u, set_cookie).
     op_bind clock_now (\<lambda>now.
     op_bind (answer (auth_error app) (on_tables (accept_invite (ap_env app) (inv_token i) (usr_id u) now))) (\<lambda>_.
     op_ok (200, set_cookie, user_view_of (admin_users_apply (ap_admin_users app) u))))))))"

end
