(* ===== verification/ApiPolicy.thy ===== *)
theory ApiPolicy
  imports ApiNotifications AuthHandlers
begin

text \<open>
  Who may do what: the requests of the JSON API as one datatype, the policy that permits them, stated on
  the tables alone, and the proof that the handlers enforce it. A request that the policy does not permit
  is refused and leaves everything as it was.

  \<open>content\<close> is the state without what a read moves: the fault script, the random sequence and the
  clocks.
\<close>

section \<open>What a handler learns before it acts\<close>

definition content :: "server \<Rightarrow> server" where
  "content s =
     s\<lparr>sv_hub := (sv_hub s)\<lparr>hub_db := (sv_db s)\<lparr>faults := [], rng_pos := 0\<rparr>, hub_tick := 0\<rparr>, sv_instant_tick := 0\<rparr>"

lemma content_db [simp]:
  "db_projects (sv_db (content s)) = db_projects (sv_db s)" "db_issues (sv_db (content s)) = db_issues (sv_db s)"
  "db_events (sv_db (content s)) = db_events (sv_db s)" "db_mute_rules (sv_db (content s)) = db_mute_rules (sv_db s)"
  "db_users (sv_db (content s)) = db_users (sv_db s)" "db_teams (sv_db (content s)) = db_teams (sv_db s)"
  "db_members (sv_db (content s)) = db_members (sv_db s)" "db_sessions (sv_db (content s)) = db_sessions (sv_db s)"
  "db_invites (sv_db (content s)) = db_invites (sv_db s)" "db_passkeys (sv_db (content s)) = db_passkeys (sv_db s)"
  "db_default_teams (sv_db (content s)) = db_default_teams (sv_db s)"
  by (simp_all add: content_def)

text \<open>\<open>learns c P m\<close>: in a state with content \<open>c\<close> the operation changes nothing, and its result
  satisfies \<open>P\<close>. \<open>needs c Q m\<close>: it acts or answers only if \<open>Q\<close> holds.\<close>

definition learns :: "server \<Rightarrow> ('a \<Rightarrow> bool) \<Rightarrow> (server, 'e, 'a) run \<Rightarrow> bool" where
  "learns c P m \<longleftrightarrow> (\<forall>s r t. content s = c \<and> m s = (r, t) \<longrightarrow> content t = c \<and> (\<forall>v. r = Inr v \<longrightarrow> P v))"

definition needs :: "server \<Rightarrow> bool \<Rightarrow> (server, 'e, 'a) run \<Rightarrow> bool" where
  "needs c Q m \<longleftrightarrow> (\<forall>s r t. content s = c \<and> m s = (r, t) \<longrightarrow> Q \<or> content t = c \<and> (\<exists>e. r = Inl e))"

lemma learnsI:
  "(\<And>s r t. content s = c \<Longrightarrow> m s = (r, t) \<Longrightarrow> content t = c \<and> (\<forall>v. r = Inr v \<longrightarrow> P v)) \<Longrightarrow> learns c P m"
  unfolding learns_def by blast

lemma learnsD:
  "learns c P m \<Longrightarrow> content s = c \<Longrightarrow> m s = (r, t) \<Longrightarrow> content t = c \<and> (\<forall>v. r = Inr v \<longrightarrow> P v)"
  unfolding learns_def by blast

lemma needsI:
  "(\<And>s r t. content s = c \<Longrightarrow> m s = (r, t) \<Longrightarrow> Q \<or> content t = c \<and> (\<exists>e. r = Inl e)) \<Longrightarrow> needs c Q m"
  unfolding needs_def by blast

lemma needsD: "needs c Q m \<Longrightarrow> content s = c \<Longrightarrow> m s = (r, t) \<Longrightarrow> Q \<or> content t = c \<and> (\<exists>e. r = Inl e)"
  unfolding needs_def by blast

lemma learns_weaken: "learns c P m \<Longrightarrow> (\<And>v. P v \<Longrightarrow> R v) \<Longrightarrow> learns c R m"
  unfolding learns_def by blast

lemma needs_weaken: "needs c Q m \<Longrightarrow> (Q \<Longrightarrow> R) \<Longrightarrow> needs c R m"
  unfolding needs_def by blast

lemma learns_bind:
  assumes "learns c P m" "\<And>v. P v \<Longrightarrow> learns c R (f v)"
  shows "learns c R (op_bind m f)"
proof (rule learnsI)
  fix s r t assume s: "content s = c" and run: "op_bind m f s = (r, t)"
  from run show "content t = c \<and> (\<forall>v. r = Inr v \<longrightarrow> R v)"
  proof (cases rule: op_bind_cases)
    case (1 e)
    then show ?thesis using learnsD [OF assms(1) s] by auto
  next
    case (2 a u)
    then have "content u = c" "P a" using learnsD [OF assms(1) s 2(1)] by auto
    then show ?thesis using learnsD [OF assms(2) _ 2(2)] by auto
  qed
qed

lemma needs_bind:
  assumes "learns c P m" "\<And>v. P v \<Longrightarrow> needs c Q (f v)"
  shows "needs c Q (op_bind m f)"
proof (rule needsI)
  fix s r t assume s: "content s = c" and run: "op_bind m f s = (r, t)"
  from run show "Q \<or> content t = c \<and> (\<exists>e. r = Inl e)"
  proof (cases rule: op_bind_cases)
    case (1 e)
    then show ?thesis using learnsD [OF assms(1) s] by auto
  next
    case (2 a u)
    then have "content u = c" "P a" using learnsD [OF assms(1) s 2(1)] by auto
    then show ?thesis using needsD [OF assms(2) _ 2(2)] by auto
  qed
qed

lemma needs_true: "Q \<Longrightarrow> needs c Q m"
  by (simp add: needs_def)

lemma needs_err [simp]: "needs c Q (op_err e)"
  by (simp add: needs_def)

text \<open>\<open>reading\<close> collects those of the repositories, whose errors a handler maps.\<close>

named_theorems learning
named_theorems reading

lemma learns_ok [learning]: "learns c (\<lambda>v. v = a) (op_ok a)"
  by (simp add: learns_def)

lemma learns_err [learning]: "learns c P (op_err e)"
  by (simp add: learns_def)

lemma learns_res [learning, reading]: "learns c (\<lambda>v. r = Inr v) (op_res r)"
  by (simp add: learns_def)

lemma learns_guard [learning]: "learns c (\<lambda>_. b) (guard_that b st m)"
  by (simp add: learns_def guard_that_def json_error_def)

lemma learns_found [learning]: "learns c (\<lambda>v. x = Some v) (found x st m)"
  by (simp add: learns_def found_def json_error_def split: option.splits)

lemma answer_cases:
  assumes "answer f m s = (r, t)"
  obtains q where "m s = (q, t)" "r = (case q of Inl e \<Rightarrow> Inl (f e) | Inr v \<Rightarrow> Inr v)"
  using assms by (cases "m s") (auto simp: answer_def split: sum.splits)

lemma learns_answer:
  assumes "learns c P m"
  shows "learns c P (answer f m)"
proof (rule learnsI)
  fix s r t assume s: "content s = c" and run: "answer f m s = (r, t)"
  obtain q where "m s = (q, t)" "r = (case q of Inl e \<Rightarrow> Inl (f e) | Inr v \<Rightarrow> Inr v)"
    using run by (rule answer_cases)
  then show "content t = c \<and> (\<forall>v. r = Inr v \<longrightarrow> P v)"
    using learnsD [OF assms s] by (auto split: sum.splits)
qed

lemma needs_answer:
  assumes "needs c Q m"
  shows "needs c Q (answer f m)"
proof (rule needsI)
  fix s r t assume s: "content s = c" and run: "answer f m s = (r, t)"
  obtain q where "m s = (q, t)" "r = (case q of Inl e \<Rightarrow> Inl (f e) | Inr v \<Rightarrow> Inr v)"
    using run by (rule answer_cases)
  then show "Q \<or> content t = c \<and> (\<exists>e. r = Inl e)"
    using needsD [OF assms s] by (auto split: sum.splits)
qed

lemma learns_clock [learning]: "learns c (\<lambda>_. True) clock_now" "learns c (\<lambda>_. True) instant_now"
    "learns c (\<lambda>_. True) new_uuid" "learns c (\<lambda>_. True) new_token"
  by (auto simp: learns_def clock_now_def instant_now_def new_uuid_def new_token_def content_def set_db_def Let_def)

lemma learns_if: "(b \<Longrightarrow> learns c P m) \<Longrightarrow> (\<not> b \<Longrightarrow> learns c P m') \<Longrightarrow> learns c P (if b then m else m')"
  by simp

text \<open>A read of the tables.\<close>

lemma learns_read:
  assumes "\<And>d. sv_db c = d\<lparr>faults := [], rng_pos := 0\<rparr> \<Longrightarrow> P (f d)"
  shows "learns c P (on_tables (transaction (\<lambda>d. (Inr (f d), d))))"
proof (rule learnsI)
  fix s r t assume s: "content s = c" and run: "on_tables (transaction (\<lambda>d. (Inr (f d), d))) s = (r, t)"
  have "P (f ((sv_db s)\<lparr>faults := fs\<rparr>))" for fs using assms s by (auto simp: content_def)
  then show "content t = c \<and> (\<forall>v. r = Inr v \<longrightarrow> P v)"
    using run s by (auto simp: on_tables_def transaction_def set_db_def content_def Let_def
        split: prod.splits list.splits option.splits)
qed

section \<open>Who may see and who may run what\<close>

text \<open>The policy, on the tables alone.\<close>

definition manages :: "user \<Rightarrow> bool" where
  "manages u \<longleftrightarrow> usr_instance_role u = Owner \<or> usr_instance_role u = Manager"

definition has_team_role :: "db \<Rightarrow> user \<Rightarrow> uuid \<Rightarrow> team_role \<Rightarrow> bool" where
  "has_team_role d u tid role \<longleftrightarrow>
     (\<exists>m \<in> set (db_members d). mb_team_id m = tid \<and> mb_user_id m = usr_id u \<and> mb_role m = role)"

definition runs_team :: "db \<Rightarrow> user \<Rightarrow> uuid \<Rightarrow> bool" where
  "runs_team d u tid \<longleftrightarrow> manages u \<or> has_team_role d u tid TeamAdmin"

definition sees_team :: "db \<Rightarrow> user \<Rightarrow> uuid \<Rightarrow> bool" where
  "sees_team d u tid \<longleftrightarrow> manages u \<or> (\<exists>role. has_team_role d u tid role)"

definition sees_project :: "db \<Rightarrow> user \<Rightarrow> uuid \<Rightarrow> bool" where
  "sees_project d u pid \<longleftrightarrow> manages u \<or> (\<exists>p \<in> set (db_projects d). prj_id p = pid \<and> sees_team d u (prj_team_id p))"

definition runs_project :: "db \<Rightarrow> user \<Rightarrow> uuid \<Rightarrow> bool" where
  "runs_project d u pid \<longleftrightarrow> manages u \<or> (\<exists>p \<in> set (db_projects d). prj_id p = pid \<and> runs_team d u (prj_team_id p))"

definition names_project :: "db \<Rightarrow> string \<Rightarrow> uuid \<Rightarrow> bool" where
  "names_project d raw pid \<longleftrightarrow>
     (\<exists>p \<in> set (db_projects d). prj_id p = pid \<and> (prj_slug p = raw \<or> prj_short_id p = raw))"

definition names_team :: "app \<Rightarrow> db \<Rightarrow> string \<Rightarrow> uuid \<Rightarrow> bool" where
  "names_team app d raw tid \<longleftrightarrow>
     (\<exists>t \<in> set (db_teams d). tm_id t = tid \<and> (tm_short_id t = raw \<or> ap_parse_uuid app raw = Some tid))"

definition names_issue :: "db \<Rightarrow> string \<Rightarrow> uuid \<Rightarrow> bool" where
  "names_issue d raw pid \<longleftrightarrow> (\<exists>i \<in> set (db_issues d). iss_short_id i = raw \<and> iss_project_id i = pid)"

text \<open>The rows that are stored as owners are more than one.\<close>

definition several_owners :: "db \<Rightarrow> bool" where
  "several_owners d \<longleftrightarrow> 1 < length (filter (\<lambda>x. usr_instance_role x = Owner) (db_users d))"

lemma can_manage [simp]: "can_manage_instance (usr_instance_role u) = manages u"
  by (simp add: can_manage_instance_def manages_def)

text \<open>What each read of the guards teaches.\<close>

lemma find_Some_in: "List.find P xs = Some x \<Longrightarrow> x \<in> set xs \<and> P x"
  by (auto simp: find_Some_iff)

lemma learns_find_project [learning, reading]:
  "learns c (\<lambda>v. \<forall>p. v = Some p \<longrightarrow> p \<in> set (db_projects (sv_db c)) \<and> prj_slug p = raw)
     (on_tables (find_project_by_slug raw))"
  "learns c (\<lambda>v. \<forall>p. v = Some p \<longrightarrow> p \<in> set (db_projects (sv_db c)) \<and> prj_short_id p = raw)
     (on_tables (find_project_by_short_id raw))"
  "learns c (\<lambda>v. \<forall>p. v = Some p \<longrightarrow> p \<in> set (db_projects (sv_db c)) \<and> prj_id p = pid)
     (on_tables (find_project_by_id pid))"
  unfolding find_project_by_slug_def find_project_by_short_id_def find_project_by_id_def select_project_def
  by (rule learns_read, auto dest!: find_Some_in)+

lemma learns_member_role [learning, reading]:
  "learns c (\<lambda>v. \<forall>role. v = Some role \<longrightarrow> has_team_role (sv_db c) u tid role) (on_tables (member_role tid (usr_id u)))"
  unfolding member_role_def by (rule learns_read) (auto simp: has_team_role_def dest!: find_Some_in)

lemma learns_is_member [learning, reading]:
  "learns c (\<lambda>v. v \<longrightarrow> (\<exists>role. has_team_role (sv_db c) u tid role)) (on_tables (is_member tid (usr_id u)))"
  unfolding is_member_def by (rule learns_read) (auto simp: has_team_role_def list_ex_iff)

lemma learns_find_team [learning, reading]:
  "learns c (\<lambda>v. \<forall>x. v = Some x \<longrightarrow> x \<in> set (db_teams (sv_db c)) \<and> tm_id x = tid) (on_tables (find_team_by_id tid))"
  "learns c (\<lambda>v. \<forall>x. v = Some x \<longrightarrow> x \<in> set (db_teams (sv_db c)) \<and> tm_short_id x = raw)
     (on_tables (find_team_by_short_id raw))"
  unfolding find_team_by_id_def find_team_by_short_id_def
  by (rule learns_read, auto dest!: find_Some_in)+

lemma learns_find_issue [learning, reading]:
  "learns c (\<lambda>v. \<forall>i. v = Some i \<longrightarrow> i \<in> set (db_issues (sv_db c)) \<and> iss_short_id i = raw)
     (on_tables (find_by_short_id raw))"
  unfolding find_by_short_id_def by (rule learns_read) (auto simp: select_issue_def dest!: find_Some_in)

lemma learns_find_event [learning, reading]:
  "learns c (\<lambda>v. \<forall>e. v = Some e \<longrightarrow> e \<in> set (db_events (sv_db c)) \<and> ev_id e = eid)
     (on_tables (find_event_by_id eid))"
  unfolding find_event_by_id_def by (rule learns_read) (auto dest!: find_Some_in)

lemma learns_find_user [learning, reading]:
  "learns c (\<lambda>v. \<forall>x. v = Some x \<longrightarrow> x \<in> set (db_users (sv_db c)) \<and> usr_id x = uid) (on_tables (find_user_by_id uid))"
  unfolding find_user_by_id_def select_user_def by (rule learns_read) (auto dest!: find_Some_in)

lemma learns_find_invite [learning, reading]:
  "learns c (\<lambda>v. \<forall>i. v = Some i \<longrightarrow> i \<in> set (db_invites (sv_db c)) \<and> inv_token i = token)
     (on_tables (find_invite_by_token token))"
  unfolding find_invite_by_token_def by (rule learns_read) (auto dest!: find_Some_in)

lemma learns_members [learning, reading]: "learns c (\<lambda>_. True) (on_tables (team_members tid))"
  unfolding team_members_def by (rule learns_read) simp

lemma learns_count_owners [learning, reading]:
  "learns c (\<lambda>n. n = int (length (filter (\<lambda>x. usr_instance_role x = Owner) (db_users (sv_db c))))) (on_tables count_owners)"
  unfolding count_owners_def owners_def by (rule learns_read) simp

lemma learns_keep_an_owner [learning]:
  "learns c (\<lambda>_. b \<longrightarrow> several_owners (sv_db c)) (keep_an_owner b m)"
proof (cases b)
  case True
  have "learns c (\<lambda>_. several_owners (sv_db c)) (if n \<le> 1 then op_err e else op_ok ())"
    if "n = int (length (filter (\<lambda>x. usr_instance_role x = Owner) (db_users (sv_db c))))" for n e
    using that by (auto simp: several_owners_def intro: learns_err learns_weaken [OF learns_ok])
  then have "learns c (\<lambda>_. several_owners (sv_db c))
      (op_bind (on_tables count_owners) (\<lambda>n. if n \<le> 1 then op_err (Conflict m) else op_ok ()))"
    by (rule learns_bind [OF learns_count_owners])
  with True show ?thesis by (simp add: keep_an_owner_def)
next
  case False
  then show ?thesis by (auto simp: keep_an_owner_def intro: learns_weaken [OF learns_ok])
qed

lemma learns_may_delete [learning]:
  "learns c (\<lambda>_. (effectively_owner app t \<longrightarrow> usr_instance_role u = Owner) \<and>
     (usr_instance_role t = Owner \<longrightarrow> several_owners (sv_db c))) (may_delete app u t)"
proof (cases "effectively_owner app t")
  case True
  then show ?thesis
    by (auto simp: may_delete_def is_owner_def intro: learns_err learns_weaken [OF learns_keep_an_owner])
next
  case False
  then have "usr_instance_role t \<noteq> Owner"
    by (cases "usr_instance_role t") (auto simp: effectively_owner_def effective_instance_role_def is_owner_def split: if_splits)
  with False show ?thesis by (auto simp: may_delete_def intro: learns_weaken [OF learns_ok])
qed

text \<open>The guards.\<close>

lemma learns_resolve_project [learning]:
  "learns c (\<lambda>p. names_project (sv_db c) raw (prj_id p)) (resolve_project app raw)"
  unfolding resolve_project_def
proof (rule learns_bind [OF learns_answer [OF learns_find_project(1)]])
  fix v :: "project option"
  assume slug: "\<forall>p. v = Some p \<longrightarrow> p \<in> set (db_projects (sv_db c)) \<and> prj_slug p = raw"
  show "learns c (\<lambda>p. names_project (sv_db c) raw (prj_id p))
     (case v of None \<Rightarrow> op_bind (answer (error_response app) (on_tables (find_project_by_short_id raw)))
        (\<lambda>by_short. found by_short 404 ''project not found'') | Some p \<Rightarrow> op_ok p)"
  proof (cases v)
    case None
    then show ?thesis
      by (simp, intro learns_bind [OF learns_answer [OF learns_find_project(2)]])
        (rule learns_weaken [OF learns_found], auto simp: names_project_def)
  next
    case (Some p)
    with slug show ?thesis
      by (simp, intro learns_weaken [OF learns_ok]) (auto simp: names_project_def)
  qed
qed

lemma learns_effective_role [learning]:
  "learns c (\<lambda>v. (v \<noteq> None \<longrightarrow> sees_project (sv_db c) u pid) \<and> (v = Some RoleAdmin \<longrightarrow> runs_project (sv_db c) u pid))
     (effective_role app u pid)"
proof (cases "manages u")
  case True
  then show ?thesis
    by (simp add: effective_role_def, intro learns_weaken [OF learns_ok]) (auto simp: sees_project_def runs_project_def)
next
  case False
  show ?thesis
    unfolding effective_role_def can_manage if_not_P [OF False]
  proof (rule learns_bind [OF learns_answer [OF learns_find_project(3)]])
    fix v :: "project option"
    assume v: "\<forall>p. v = Some p \<longrightarrow> p \<in> set (db_projects (sv_db c)) \<and> prj_id p = pid"
    show "learns c (\<lambda>v. (v \<noteq> None \<longrightarrow> sees_project (sv_db c) u pid) \<and> (v = Some RoleAdmin \<longrightarrow> runs_project (sv_db c) u pid))
       (case v of None \<Rightarrow> op_ok None
        | Some p \<Rightarrow> op_bind (answer (error_response app) (on_tables (member_role (prj_team_id p) (usr_id u))))
            (\<lambda>team_role. op_ok (resolve_role (usr_instance_role u) team_role)))"
    proof (cases v)
      case None
      then show ?thesis by (simp, intro learns_weaken [OF learns_ok]) auto
    next
      case (Some p)
      with v have p: "p \<in> set (db_projects (sv_db c))" "prj_id p = pid" by auto
      have "learns c (\<lambda>v. (v \<noteq> None \<longrightarrow> sees_project (sv_db c) u pid) \<and> (v = Some RoleAdmin \<longrightarrow> runs_project (sv_db c) u pid))
         (op_ok (resolve_role (usr_instance_role u) role))"
        if "\<forall>r. role = Some r \<longrightarrow> has_team_role (sv_db c) u (prj_team_id p) r" for role
        using that p False
        by (cases "the role"; intro learns_weaken [OF learns_ok])
          (auto simp: resolve_role_def sees_project_def runs_project_def sees_team_def runs_team_def)
      then show ?thesis
        unfolding Some option.case by (rule learns_bind [OF learns_answer [OF learns_member_role]])
    qed
  qed
qed

lemma learns_require_member [learning]:
  "learns c (\<lambda>v. sees_project (sv_db c) u pid \<and> (v = RoleAdmin \<longrightarrow> runs_project (sv_db c) u pid)) (require_member app u pid)"
  unfolding require_member_def
  by (rule learns_bind [OF learns_effective_role], rule learns_weaken [OF learns_found]) auto

lemma learns_require_admin [learning]: "learns c (\<lambda>_. runs_project (sv_db c) u pid) (require_admin app u pid)"
  unfolding require_admin_def
  by (rule learns_bind [OF learns_require_member], rule learns_weaken [OF learns_guard]) auto

lemma learns_ui_managed [learning, reading]:
  "learns c (\<lambda>_. (if team then ms_team_source (ap_management app) else ms_project_source (ap_management app)) \<noteq> Yaml)
     (ui_managed app team)"
  unfolding ui_managed_def
  by (rule learns_weaken [OF learns_res]) (auto simp: require_ui_management_def split: if_splits prod.splits)

lemma learns_manager [learning]: "learns c (\<lambda>_. manages u) (admin_user u)"
    "learns c (\<lambda>_. manages u) (require_manager_response u)"
  unfolding admin_user_def require_manager_response_def
  by (rule learns_weaken [OF learns_res], simp add: require_manager_def split: if_splits)
    (rule learns_weaken [OF learns_guard], simp)

lemma learns_parse_id [learning]: "learns c (\<lambda>v. ap_parse_uuid app raw = Some v) (parse_id app raw)"
    "learns c (\<lambda>v. ap_parse_uuid app raw = Some v) (team_parse_id app raw)"
    "learns c (\<lambda>v. ap_parse_uuid app raw = Some v) (parse_user_id app raw)"
  by (auto simp: learns_def parse_id_def team_parse_id_def parse_user_id_def json_error_def split: option.splits)

lemma learns_resolve_team [learning]: "learns c (\<lambda>t. names_team app (sv_db c) raw (tm_id t)) (resolve_team app raw)"
  unfolding resolve_team_def
proof (rule learns_bind)
  show "learns c (\<lambda>v. \<forall>t. v = Some t \<longrightarrow> names_team app (sv_db c) raw (tm_id t))
     (case ap_parse_uuid app raw of None \<Rightarrow> on_tables (find_team_by_short_id raw) | Some i \<Rightarrow> on_tables (find_team_by_id i))"
  proof (cases "ap_parse_uuid app raw")
    case None
    then show ?thesis
      by (simp, intro learns_weaken [OF learns_find_team(2)]) (auto simp: names_team_def)
  next
    case (Some i)
    then show ?thesis
      by (simp, intro learns_weaken [OF learns_find_team(1)]) (auto simp: names_team_def)
  qed
  show "learns c (\<lambda>t. names_team app (sv_db c) raw (tm_id t))
      (case v of None \<Rightarrow> op_err (NotFound (''team '' @ raw)) | Some t \<Rightarrow> op_ok t)"
    if "\<forall>t. v = Some t \<longrightarrow> names_team app (sv_db c) raw (tm_id t)" for v
    using that by (cases v) (auto intro: learns_err learns_weaken [OF learns_ok])
qed

lemma learns_resolve_team_id [learning]: "learns c (\<lambda>tid. names_team app (sv_db c) raw tid) (resolve_team_id app raw)"
    "learns c (\<lambda>tid. names_team app (sv_db c) raw tid) (parse_team_id app raw)"
proof -
  show id: "learns c (\<lambda>tid. names_team app (sv_db c) raw tid) (resolve_team_id app raw)"
    unfolding resolve_team_id_def
    by (rule learns_bind [OF learns_resolve_team]) (rule learns_weaken [OF learns_ok], simp)
  show "learns c (\<lambda>tid. names_team app (sv_db c) raw tid) (parse_team_id app raw)"
    unfolding parse_team_id_def by (rule learns_answer [OF id])
qed

lemma learns_team_admin:
  assumes "\<not> manages u \<Longrightarrow> learns c (\<lambda>_. has_team_role (sv_db c) u tid TeamAdmin) m"
  shows "learns c (\<lambda>_. runs_team (sv_db c) u tid) (if manages u then op_ok () else m)"
  using assms by (auto intro: learns_weaken [OF learns_ok] learns_weaken simp: runs_team_def)

lemma learns_require_team_manager [learning]:
  "learns c (\<lambda>_. runs_team (sv_db c) u tid) (require_team_manager u tid)"
  "learns c (\<lambda>_. runs_team (sv_db c) u tid) (require_invite_manager app u tid)"
  "learns c (\<lambda>_. runs_team (sv_db c) u tid) (may_create_in app u tid)"
proof -
  show "learns c (\<lambda>_. runs_team (sv_db c) u tid) (require_team_manager u tid)"
    unfolding require_team_manager_def can_manage
    by (rule learns_team_admin, rule learns_bind [OF learns_member_role])
      (auto intro: learns_err learns_weaken [OF learns_ok])
  show "learns c (\<lambda>_. runs_team (sv_db c) u tid) (require_invite_manager app u tid)"
    unfolding require_invite_manager_def can_manage
    by (rule learns_team_admin, rule learns_bind [OF learns_answer [OF learns_member_role]])
      (rule learns_weaken [OF learns_guard], auto)
  show "learns c (\<lambda>_. runs_team (sv_db c) u tid) (may_create_in app u tid)"
    unfolding may_create_in_def can_manage
    by (rule learns_team_admin, rule learns_bind [OF learns_answer [OF learns_member_role]])
      (rule learns_weaken [OF learns_guard], auto)
qed

lemma learns_authorize_issue [learning]:
  "learns c (\<lambda>(i, p). names_issue (sv_db c) raw (prj_id p) \<and> sees_project (sv_db c) u (prj_id p)) (authorize_issue app u raw)"
  unfolding authorize_issue_def
  by (rule learns_bind, (rule learning | rule learns_answer, rule learning))+
    (rule learns_weaken [OF learns_ok], auto simp: names_issue_def)

lemma learns_find_target [learning]:
  "learns c (\<lambda>t. t \<in> set (db_users (sv_db c)) \<and> usr_id t = uid) (find_target uid m)"
  unfolding find_target_def
  by (rule learns_bind [OF learns_find_user])
    (auto split: option.splits intro: learns_err learns_weaken [OF learns_ok])

lemma learns_find_team_row [learning]: "learns c (\<lambda>_. True) (find_team tid)"
  unfolding find_team_def
  by (rule learns_bind [OF learns_find_team(1)])
    (auto split: option.splits intro: learns_err learns_weaken [OF learns_ok])

section \<open>The requests and the policy\<close>

datatype project_request =
    ListProjects | CreateProject create_project_request | GetProject string
  | UpdateProject string update_project_request | ChangeTeam string uuid | DeleteProject string
  | ProjectDsn string | SdkSetup string | MuteProject string "bool option" | RegenerateDsn string
  | Favorite string "bool option"

datatype issue_request =
    ListIssues string issue_list_query | GetIssue string | ListEvents string int | ResolveIssue string
  | UnresolveIssue string | MuteIssue string "mute_request option" | UpdateFingerprint string string
  | GetEvent string
  | ListRules string | CreateRule string "string option" "tag_match list" | DeleteRule string string

datatype team_request =
    ListTeams | CreateTeam string | GetTeam string | UpdateTeam string string
  | DeleteTeam string "uuid option" | AddMember string uuid "team_role option"
  | SetMemberRole string string team_role | RemoveMember string string
  | ListInvites string | CreateInvite string "create_invite_request option" | RevokeInvite string string

datatype account_request =
    GetSettings | UpdateSettings update_settings | TestEmail "string option" | ListUsers
  | ApproveUser string | DeleteUser string | SetUserRole string instance_role
  | UpdateProfile update_profile

datatype notification_request =
    GetNotifications | UpdateNotifications notification_config | PreviewNotifications notification_config
  | TestAlert locale_pref | UpdateInterval "int option" | UpdateNames alertmanager_names
  | UpdateDefaultSeverity "alert_severity option option"
  | ProjectInterval string | UpdateProjectInterval string "int option" | ProjectSeverity string
  | UpdateProjectSeverity string "alert_severity option option" | ProjectTestStatus string
  | ProjectTestAlert string locale_pref

datatype request =
    OnProjects project_request | OnIssues issue_request | OnTeams team_request
  | OnAccounts account_request | OnNotifications notification_request

text \<open>The handler of each request; of the answer only the status is kept.\<close>

definition status :: "'a handler \<Rightarrow> (server, failure, nat) run" where
  "status h = op_bind h (\<lambda>(n, _). op_ok n)"

primrec handle_project :: "app \<Rightarrow> user \<Rightarrow> project_request \<Rightarrow> (server, failure, nat) run" where
  "handle_project app u ListProjects = status (list_handler app u)"
| "handle_project app u (CreateProject req) = status (create_handler app u req)"
| "handle_project app u (GetProject raw) = status (get_handler app u raw)"
| "handle_project app u (UpdateProject raw req) = status (update_handler app u raw req)"
| "handle_project app u (ChangeTeam raw tid) = status (change_team app u raw tid)"
| "handle_project app u (DeleteProject raw) = status (delete_handler app u raw)"
| "handle_project app u (ProjectDsn raw) = status (dsn_handler app u raw)"
| "handle_project app u (SdkSetup raw) = status (sdk_setup app u raw)"
| "handle_project app u (MuteProject raw muted) = status (mute_project app u raw muted)"
| "handle_project app u (RegenerateDsn raw) = status (regenerate_dsn_handler app u raw)"
| "handle_project app u (Favorite raw b) = status (favorite app u raw b)"

primrec handle_issue :: "app \<Rightarrow> user \<Rightarrow> issue_request \<Rightarrow> (server, failure, nat) run" where
  "handle_issue app u (ListIssues raw q) = status (list_for_project app u raw q)"
| "handle_issue app u (GetIssue raw) = status (get_issue app u raw)"
| "handle_issue app u (ListEvents raw limit) = status (list_events app u raw limit)"
| "handle_issue app u (ResolveIssue raw) = status (resolve_issue app u raw)"
| "handle_issue app u (UnresolveIssue raw) = status (unresolve_issue app u raw)"
| "handle_issue app u (MuteIssue raw body) = status (mute_issue app u raw body)"
| "handle_issue app u (UpdateFingerprint raw fp) = status (update_issue_fingerprint app u raw fp)"
| "handle_issue app u (GetEvent raw) = status (get_event app u raw)"
| "handle_issue app u (ListRules raw) = status (list_rules app u raw)"
| "handle_issue app u (CreateRule raw name tags) = status (create_rule app u raw name tags)"
| "handle_issue app u (DeleteRule raw rule) = status (delete_rule app u raw rule)"

primrec handle_team :: "app \<Rightarrow> user \<Rightarrow> team_request \<Rightarrow> (server, failure, nat) run" where
  "handle_team app u ListTeams = status (list_teams_handler app u)"
| "handle_team app u (CreateTeam name) = status (create_team_handler app u name)"
| "handle_team app u (GetTeam raw) = status (get_team_handler app u raw)"
| "handle_team app u (UpdateTeam raw name) = status (update_team_handler app u raw name)"
| "handle_team app u (DeleteTeam raw target) = status (delete_team_handler app u raw target)"
| "handle_team app u (AddMember raw uid role) = status (add_member_handler app u raw uid role)"
| "handle_team app u (SetMemberRole raw uid role) = status (set_member_role_handler app u raw uid role)"
| "handle_team app u (RemoveMember raw uid) = status (remove_member_handler app u raw uid)"
| "handle_team app u (ListInvites raw) = status (list_invites app u raw)"
| "handle_team app u (CreateInvite raw body) = status (create_invite_handler app u raw body)"
| "handle_team app u (RevokeInvite raw token) = status (revoke_invite app u raw token)"

primrec handle_account :: "app \<Rightarrow> user \<Rightarrow> account_request \<Rightarrow> (server, failure, nat) run" where
  "handle_account app u GetSettings = status (get_settings_handler app u)"
| "handle_account app u (UpdateSettings body) = status (update_settings_handler app u body)"
| "handle_account app u (TestEmail to) = status (test_email_handler app u to)"
| "handle_account app u ListUsers = status (list_users_handler app u)"
| "handle_account app u (ApproveUser raw) = status (approve_user app u raw)"
| "handle_account app u (DeleteUser raw) = status (delete_user_handler app u raw)"
| "handle_account app u (SetUserRole raw role) = status (set_user_role app u raw role)"
| "handle_account app u (UpdateProfile body) = status (update_profile_handler app u body)"

primrec handle_notification :: "app \<Rightarrow> bool \<Rightarrow> user \<Rightarrow> notification_request \<Rightarrow> (server, failure, nat) run" where
  "handle_notification app tls u GetNotifications = status (get_notifications_handler app tls u)"
| "handle_notification app tls u (UpdateNotifications c) = status (update_notifications_handler app tls u c)"
| "handle_notification app tls u (PreviewNotifications c) = status (preview_notifications app u c)"
| "handle_notification app tls u (TestAlert l) = status (test_alert_handler app u l)"
| "handle_notification app tls u (UpdateInterval seconds) = status (update_interval_handler app u seconds)"
| "handle_notification app tls u (UpdateNames names) = status (update_names_handler app u names)"
| "handle_notification app tls u (UpdateDefaultSeverity body) = status (update_default_severity app u body)"
| "handle_notification app tls u (ProjectInterval raw) = status (project_interval app u raw)"
| "handle_notification app tls u (UpdateProjectInterval raw seconds) = status (update_project_interval app u raw seconds)"
| "handle_notification app tls u (ProjectSeverity raw) = status (project_severity app u raw)"
| "handle_notification app tls u (UpdateProjectSeverity raw body) = status (update_project_severity app u raw body)"
| "handle_notification app tls u (ProjectTestStatus raw) = status (project_test_status app u raw)"
| "handle_notification app tls u (ProjectTestAlert raw l) = status (project_test_alert app u raw l)"

primrec handle :: "app \<Rightarrow> bool \<Rightarrow> user \<Rightarrow> request \<Rightarrow> (server, failure, nat) run" where
  "handle app tls u (OnProjects req) = handle_project app u req"
| "handle app tls u (OnIssues req) = handle_issue app u req"
| "handle app tls u (OnTeams req) = handle_team app u req"
| "handle app tls u (OnAccounts req) = handle_account app u req"
| "handle app tls u (OnNotifications req) = handle_notification app tls u req"

definition seen_project :: "db \<Rightarrow> user \<Rightarrow> string \<Rightarrow> bool" where
  "seen_project d u raw \<longleftrightarrow> (\<exists>pid. names_project d raw pid \<and> sees_project d u pid)"

definition run_project :: "db \<Rightarrow> user \<Rightarrow> string \<Rightarrow> bool" where
  "run_project d u raw \<longleftrightarrow> (\<exists>pid. names_project d raw pid \<and> runs_project d u pid)"

definition seen_issue :: "db \<Rightarrow> user \<Rightarrow> string \<Rightarrow> bool" where
  "seen_issue d u raw \<longleftrightarrow> (\<exists>pid. names_issue d raw pid \<and> sees_project d u pid)"

definition run_team :: "app \<Rightarrow> db \<Rightarrow> user \<Rightarrow> string \<Rightarrow> bool" where
  "run_team app d u raw \<longleftrightarrow> (\<exists>tid. names_team app d raw tid \<and> runs_team d u tid)"

definition names_user :: "app \<Rightarrow> db \<Rightarrow> string \<Rightarrow> user \<Rightarrow> bool" where
  "names_user app d raw t \<longleftrightarrow> t \<in> set (db_users d) \<and> ap_parse_uuid app raw = Some (usr_id t)"

abbreviation ui_projects :: "app \<Rightarrow> bool" where
  "ui_projects app \<equiv> ms_project_source (ap_management app) \<noteq> Yaml"

abbreviation ui_teams :: "app \<Rightarrow> bool" where
  "ui_teams app \<equiv> ms_team_source (ap_management app) \<noteq> Yaml"

primrec permitted_project :: "app \<Rightarrow> db \<Rightarrow> user \<Rightarrow> project_request \<Rightarrow> bool" where
  "permitted_project app d u ListProjects = True"
| "permitted_project app d u (CreateProject req) = (ui_projects app \<and> runs_team d u (cp_team_id req))"
| "permitted_project app d u (GetProject raw) = seen_project d u raw"
| "permitted_project app d u (UpdateProject raw req) = (ui_projects app \<and> run_project d u raw)"
| "permitted_project app d u (ChangeTeam raw tid) = (ui_projects app \<and> manages u \<and> (\<exists>t \<in> set (db_teams d). tm_id t = tid))"
| "permitted_project app d u (DeleteProject raw) = (ui_projects app \<and> run_project d u raw)"
| "permitted_project app d u (ProjectDsn raw) = seen_project d u raw"
| "permitted_project app d u (SdkSetup raw) = seen_project d u raw"
| "permitted_project app d u (MuteProject raw muted) = run_project d u raw"
| "permitted_project app d u (RegenerateDsn raw) = run_project d u raw"
| "permitted_project app d u (Favorite raw b) = seen_project d u raw"

primrec permitted_issue :: "app \<Rightarrow> db \<Rightarrow> user \<Rightarrow> issue_request \<Rightarrow> bool" where
  "permitted_issue app d u (ListIssues raw q) = seen_project d u raw"
| "permitted_issue app d u (GetIssue raw) = seen_issue d u raw"
| "permitted_issue app d u (ListEvents raw limit) = seen_issue d u raw"
| "permitted_issue app d u (ResolveIssue raw) = seen_issue d u raw"
| "permitted_issue app d u (UnresolveIssue raw) = seen_issue d u raw"
| "permitted_issue app d u (MuteIssue raw body) = seen_issue d u raw"
| "permitted_issue app d u (UpdateFingerprint raw fp) = seen_issue d u raw"
| "permitted_issue app d u (GetEvent raw) =
     (\<exists>e \<in> set (db_events d). ap_parse_uuid app raw = Some (ev_id e) \<and> sees_project d u (ev_project_id e))"
| "permitted_issue app d u (ListRules raw) = seen_project d u raw"
| "permitted_issue app d u (CreateRule raw name tags) = seen_project d u raw"
| "permitted_issue app d u (DeleteRule raw rule) = seen_project d u raw"

primrec permitted_team :: "app \<Rightarrow> db \<Rightarrow> user \<Rightarrow> team_request \<Rightarrow> bool" where
  "permitted_team app d u ListTeams = True"
| "permitted_team app d u (CreateTeam name) = (ui_teams app \<and> manages u)"
| "permitted_team app d u (GetTeam raw) = (\<exists>tid. names_team app d raw tid \<and> sees_team d u tid)"
| "permitted_team app d u (UpdateTeam raw name) = (ui_teams app \<and> manages u)"
| "permitted_team app d u (DeleteTeam raw target) =
     (ui_teams app \<and> manages u \<and> (target \<noteq> None \<longrightarrow> ui_projects app))"
| "permitted_team app d u (AddMember raw uid role) = (ui_teams app \<and> run_team app d u raw)"
| "permitted_team app d u (SetMemberRole raw uid role) = (ui_teams app \<and> run_team app d u raw)"
| "permitted_team app d u (RemoveMember raw uid) = (ui_teams app \<and> run_team app d u raw)"
| "permitted_team app d u (ListInvites raw) = run_team app d u raw"
| "permitted_team app d u (CreateInvite raw body) =
     (ui_teams app \<and> ap_allow_invites app \<and> run_team app d u raw)"
| "permitted_team app d u (RevokeInvite raw token) =
     (\<exists>tid. names_team app d raw tid \<and> runs_team d u tid \<and>
        (\<exists>i \<in> set (db_invites d). inv_token i = token \<and> inv_team_id i = tid))"

primrec permitted_account :: "app \<Rightarrow> db \<Rightarrow> user \<Rightarrow> account_request \<Rightarrow> bool" where
  "permitted_account app d u GetSettings = manages u"
| "permitted_account app d u (UpdateSettings body) =
     (manages u \<and> ms_service_source (ap_management app) \<noteq> Env \<and>
      (us_allow_signup body \<noteq> None \<or> us_default_team_ids body \<noteq> None \<longrightarrow> ui_teams app))"
| "permitted_account app d u (TestEmail to) = (manages u \<and> ap_mailer app)"
| "permitted_account app d u ListUsers = manages u"
| "permitted_account app d u (ApproveUser raw) =
     (manages u \<and> (\<exists>t. names_user app d raw t \<and> (effectively_owner app t \<longrightarrow> usr_instance_role u = Owner)))"
| "permitted_account app d u (DeleteUser raw) =
     (manages u \<and> (\<exists>t. names_user app d raw t \<and> usr_id t \<noteq> usr_id u \<and>
        (effectively_owner app t \<longrightarrow> usr_instance_role u = Owner) \<and>
        (usr_instance_role t = Owner \<longrightarrow> several_owners d)))"
| "permitted_account app d u (SetUserRole raw role) =
     (manages u \<and> (\<exists>t. names_user app d raw t \<and> \<not> admin_users_contains (ap_admin_users app) (usr_email t) \<and>
        (usr_instance_role t = Owner \<or> role = Owner \<longrightarrow> usr_instance_role u = Owner) \<and>
        (usr_instance_role t = Owner \<and> role \<noteq> Owner \<longrightarrow> several_owners d)))"
| "permitted_account app d u (UpdateProfile body) =
     (uf_display_name body \<noteq> None \<and> usr_auth_provider u = Oidc \<longrightarrow> ap_sso_rename app)"

primrec permitted_notification :: "app \<Rightarrow> db \<Rightarrow> user \<Rightarrow> notification_request \<Rightarrow> bool" where
  "permitted_notification app d u GetNotifications = manages u"
| "permitted_notification app d u (UpdateNotifications c) =
     (manages u \<and> feature_enabled app \<and> ms_service_source (ap_management app) \<noteq> Env \<and>
      ms_notification_source (ap_management app) = Ui)"
| "permitted_notification app d u (PreviewNotifications c) = (manages u \<and> feature_enabled app)"
| "permitted_notification app d u (TestAlert l) = (manages u \<and> feature_enabled app)"
| "permitted_notification app d u (UpdateInterval seconds) = (manages u \<and> ms_service_source (ap_management app) = Ui)"
| "permitted_notification app d u (UpdateNames names) =
     (manages u \<and> feature_enabled app \<and> ms_service_source (ap_management app) = Ui)"
| "permitted_notification app d u (UpdateDefaultSeverity body) = (manages u \<and> ms_service_source (ap_management app) = Ui)"
| "permitted_notification app d u (ProjectInterval raw) = seen_project d u raw"
| "permitted_notification app d u (UpdateProjectInterval raw seconds) = (ui_projects app \<and> run_project d u raw)"
| "permitted_notification app d u (ProjectSeverity raw) = seen_project d u raw"
| "permitted_notification app d u (UpdateProjectSeverity raw body) = (ui_projects app \<and> run_project d u raw)"
| "permitted_notification app d u (ProjectTestStatus raw) = seen_project d u raw"
| "permitted_notification app d u (ProjectTestAlert raw l) = run_project d u raw"

primrec permitted :: "app \<Rightarrow> db \<Rightarrow> user \<Rightarrow> request \<Rightarrow> bool" where
  "permitted app d u (OnProjects req) = permitted_project app d u req"
| "permitted app d u (OnIssues req) = permitted_issue app d u req"
| "permitted app d u (OnTeams req) = permitted_team app d u req"
| "permitted app d u (OnAccounts req) = permitted_account app d u req"
| "permitted app d u (OnNotifications req) = permitted_notification app d u req"

section \<open>Serving a request\<close>

text \<open>The method a request is routed under (\<open>src/router.rs\<close>).\<close>

primrec project_method :: "project_request \<Rightarrow> http_method" where
  "project_method ListProjects = GET"
| "project_method (CreateProject req) = POST"
| "project_method (GetProject raw) = GET"
| "project_method (UpdateProject raw req) = PATCH"
| "project_method (ChangeTeam raw tid) = PATCH"
| "project_method (DeleteProject raw) = DELETE"
| "project_method (ProjectDsn raw) = GET"
| "project_method (SdkSetup raw) = GET"
| "project_method (MuteProject raw muted) = POST"
| "project_method (RegenerateDsn raw) = POST"
| "project_method (Favorite raw b) = POST"

primrec issue_method :: "issue_request \<Rightarrow> http_method" where
  "issue_method (ListIssues raw q) = GET"
| "issue_method (GetIssue raw) = GET"
| "issue_method (ListEvents raw limit) = GET"
| "issue_method (ResolveIssue raw) = POST"
| "issue_method (UnresolveIssue raw) = POST"
| "issue_method (MuteIssue raw body) = POST"
| "issue_method (UpdateFingerprint raw fp) = PATCH"
| "issue_method (GetEvent raw) = GET"
| "issue_method (ListRules raw) = GET"
| "issue_method (CreateRule raw name tags) = POST"
| "issue_method (DeleteRule raw rule) = DELETE"

primrec team_method :: "team_request \<Rightarrow> http_method" where
  "team_method ListTeams = GET"
| "team_method (CreateTeam name) = POST"
| "team_method (GetTeam raw) = GET"
| "team_method (UpdateTeam raw name) = PATCH"
| "team_method (DeleteTeam raw target) = DELETE"
| "team_method (AddMember raw uid role) = POST"
| "team_method (SetMemberRole raw uid role) = PATCH"
| "team_method (RemoveMember raw uid) = DELETE"
| "team_method (ListInvites raw) = GET"
| "team_method (CreateInvite raw body) = POST"
| "team_method (RevokeInvite raw token) = DELETE"

primrec account_method :: "account_request \<Rightarrow> http_method" where
  "account_method GetSettings = GET"
| "account_method (UpdateSettings body) = PATCH"
| "account_method (TestEmail to) = POST"
| "account_method ListUsers = GET"
| "account_method (ApproveUser raw) = POST"
| "account_method (DeleteUser raw) = DELETE"
| "account_method (SetUserRole raw role) = PATCH"
| "account_method (UpdateProfile body) = PATCH"

primrec notification_method :: "notification_request \<Rightarrow> http_method" where
  "notification_method GetNotifications = GET"
| "notification_method (UpdateNotifications c) = PUT"
| "notification_method (PreviewNotifications c) = POST"
| "notification_method (TestAlert l) = POST"
| "notification_method (UpdateInterval seconds) = PUT"
| "notification_method (UpdateNames names) = PUT"
| "notification_method (UpdateDefaultSeverity body) = PUT"
| "notification_method (ProjectInterval raw) = GET"
| "notification_method (UpdateProjectInterval raw seconds) = PUT"
| "notification_method (ProjectSeverity raw) = GET"
| "notification_method (UpdateProjectSeverity raw body) = PUT"
| "notification_method (ProjectTestStatus raw) = GET"
| "notification_method (ProjectTestAlert raw l) = POST"

primrec request_method :: "request \<Rightarrow> http_method" where
  "request_method (OnProjects req) = project_method req"
| "request_method (OnIssues req) = issue_method req"
| "request_method (OnTeams req) = team_method req"
| "request_method (OnAccounts req) = account_method req"
| "request_method (OnNotifications req) = notification_method req"

text \<open>The project, issue and invite handlers render a failed sign-in with \<open>error_response\<close>, the others
  with \<open>ApiError\<close>.\<close>

definition about_invites :: "team_request \<Rightarrow> bool" where
  "about_invites req \<longleftrightarrow>
     (case req of ListInvites _ \<Rightarrow> True | CreateInvite _ _ \<Rightarrow> True | RevokeInvite _ _ \<Rightarrow> True | _ \<Rightarrow> False)"

definition about_one_project :: "notification_request \<Rightarrow> bool" where
  "about_one_project req \<longleftrightarrow>
     (case req of ProjectInterval _ \<Rightarrow> True | UpdateProjectInterval _ _ \<Rightarrow> True | ProjectSeverity _ \<Rightarrow> True
      | UpdateProjectSeverity _ _ \<Rightarrow> True | ProjectTestStatus _ \<Rightarrow> True | ProjectTestAlert _ _ \<Rightarrow> True | _ \<Rightarrow> False)"

definition rejection :: "app \<Rightarrow> request \<Rightarrow> error \<Rightarrow> failure" where
  "rejection app req =
     (if (case req of
            OnProjects _ \<Rightarrow> True | OnIssues _ \<Rightarrow> True | OnTeams r \<Rightarrow> about_invites r
          | OnAccounts _ \<Rightarrow> False | OnNotifications r \<Rightarrow> about_one_project r)
      then error_response app else api_error app)"

text \<open>The same-origin check, the session, the handler.\<close>

definition serve :: "app \<Rightarrow> bool \<Rightarrow> (string \<Rightarrow> url option) \<Rightarrow> headers \<Rightarrow> request \<Rightarrow> (server, failure, nat) run" where
  "serve app tls url_parse hs req =
     (if csrf_allowed url_parse (ap_base_url app) (request_method req) hs then
        op_bind (current_user app (rejection app req) hs) (\<lambda>u. handle app tls u req)
      else json_error 403 ''same-origin request required'')"

end
