(* ===== verification/ApiFacts.thy ===== *)
theory ApiFacts
  imports ApiPolicy
begin

text \<open>
  The handlers enforce the policy of \<^theory_text>\<open>ApiPolicy\<close>.
\<close>

section \<open>Each handler needs its permission\<close>

lemma needs_if: "(b \<Longrightarrow> needs c Q m) \<Longrightarrow> (\<not> b \<Longrightarrow> needs c Q m') \<Longrightarrow> needs c Q (if b then m else m')"
  by simp

lemma learns_both:
  "learns c P m \<Longrightarrow> learns c R m' \<Longrightarrow> learns c (\<lambda>v. if b then P v else R v) (if b then m else m')"
  by simp

lemmas permission_defs = seen_project_def run_project_def seen_issue_def run_team_def names_user_def is_owner_def
  require_feature_def require_ui_defaults_def require_ui_notifications_def severity_body_def
  sees_team_def require_invites_enabled_def require_ui_management_def new_display_name_def

lemma needs_status:
  assumes "needs c Q h"
  shows "needs c Q (status h)"
proof (rule needsI)
  fix s r t assume s: "content s = c" and run: "status h s = (r, t)"
  show "Q \<or> content t = c \<and> (\<exists>e. r = Inl e)"
    using run needsD [OF assms s] unfolding status_def by (cases rule: op_bind_cases) (fastforce split: prod.splits)+
qed

lemmas needing = needs_answer needs_err needs_if learning [THEN needs_bind] reading [THEN learns_answer, THEN needs_bind]
  learns_both [OF learns_ui_managed learns_ok, THEN needs_bind]
  learns_both [OF learns_ok learns_is_member, THEN needs_bind]

lemma needs_create_handler:
  "needs c (ui_projects app \<and> runs_team (sv_db c) u (cp_team_id req))
     (create_handler app u req)"
  unfolding create_handler_def Let_def
  by (intro needing) (rule needs_true, force simp: permission_defs split: if_splits)+

lemma needs_get_handler:
  "needs c (seen_project (sv_db c) u raw)
     (get_handler app u raw)"
  unfolding get_handler_def Let_def
  by (intro needing) (rule needs_true, force simp: permission_defs split: if_splits)+

lemma needs_update_handler:
  "needs c (ui_projects app \<and> run_project (sv_db c) u raw)
     (update_handler app u raw req)"
  unfolding update_handler_def Let_def
  by (intro needing) (rule needs_true, force simp: permission_defs split: if_splits)+

lemma needs_change_team:
  "needs c (ui_projects app \<and> manages u \<and> (\<exists>t \<in> set (db_teams (sv_db c)). tm_id t = tid))
     (change_team app u raw tid)"
  unfolding change_team_def Let_def
  by (intro needing) (rule needs_true, force simp: permission_defs split: if_splits)+

lemma needs_delete_handler:
  "needs c (ui_projects app \<and> run_project (sv_db c) u raw)
     (delete_handler app u raw)"
  unfolding delete_handler_def Let_def
  by (intro needing) (rule needs_true, force simp: permission_defs split: if_splits)+

lemma needs_dsn_handler:
  "needs c (seen_project (sv_db c) u raw)
     (dsn_handler app u raw)"
  unfolding dsn_handler_def Let_def
  by (intro needing) (rule needs_true, force simp: permission_defs split: if_splits)+

lemma needs_sdk_setup:
  "needs c (seen_project (sv_db c) u raw)
     (sdk_setup app u raw)"
  unfolding sdk_setup_def Let_def
  by (intro needing) (rule needs_true, force simp: permission_defs split: if_splits)+

lemma needs_mute_project:
  "needs c (run_project (sv_db c) u raw)
     (mute_project app u raw muted)"
  unfolding mute_project_def Let_def
  by (intro needing) (rule needs_true, force simp: permission_defs split: if_splits)+

lemma needs_regenerate_dsn_handler:
  "needs c (run_project (sv_db c) u raw)
     (regenerate_dsn_handler app u raw)"
  unfolding regenerate_dsn_handler_def Let_def
  by (intro needing) (rule needs_true, force simp: permission_defs split: if_splits)+

lemma needs_favorite:
  "needs c (seen_project (sv_db c) u raw)
     (favorite app u raw b)"
  unfolding favorite_def Let_def
  by (intro needing) (rule needs_true, force simp: permission_defs split: if_splits)+

lemma needs_list_for_project:
  "needs c (seen_project (sv_db c) u raw)
     (list_for_project app u raw q)"
  unfolding list_for_project_def Let_def
  by (intro needing) (rule needs_true, force simp: permission_defs split: if_splits)+

lemma needs_get_issue:
  "needs c (seen_issue (sv_db c) u raw)
     (get_issue app u raw)"
  unfolding get_issue_def Let_def
  by (intro needing) (rule needs_true, force simp: permission_defs split: if_splits)+

lemma needs_list_events:
  "needs c (seen_issue (sv_db c) u raw)
     (list_events app u raw limit)"
  unfolding list_events_def Let_def
  by (intro needing) (rule needs_true, force simp: permission_defs split: if_splits)+

lemma needs_resolve_issue:
  "needs c (seen_issue (sv_db c) u raw)
     (resolve_issue app u raw)"
  unfolding resolve_issue_def set_issue_status_def Let_def
  by (intro needing) (rule needs_true, force simp: permission_defs split: if_splits)+

lemma needs_unresolve_issue:
  "needs c (seen_issue (sv_db c) u raw)
     (unresolve_issue app u raw)"
  unfolding unresolve_issue_def set_issue_status_def Let_def
  by (intro needing) (rule needs_true, force simp: permission_defs split: if_splits)+

lemma needs_mute_issue:
  "needs c (seen_issue (sv_db c) u raw)
     (mute_issue app u raw body)"
  unfolding mute_issue_def Let_def
  by (intro needing) (rule needs_true, force simp: permission_defs split: if_splits)+

lemma needs_update_issue_fingerprint:
  "needs c (seen_issue (sv_db c) u raw)
     (update_issue_fingerprint app u raw fp)"
  unfolding update_issue_fingerprint_def Let_def
  by (intro needing) (rule needs_true, force simp: permission_defs split: if_splits)+

lemma needs_get_event:
  "needs c (\<exists>e \<in> set (db_events (sv_db c)). ap_parse_uuid app raw = Some (ev_id e) \<and> sees_project (sv_db c) u (ev_project_id e))
     (get_event app u raw)"
  unfolding get_event_def Let_def
  by (intro needing) (rule needs_true, force simp: permission_defs split: if_splits)+

lemma needs_list_rules:
  "needs c (seen_project (sv_db c) u raw)
     (list_rules app u raw)"
  unfolding list_rules_def Let_def
  by (intro needing) (rule needs_true, force simp: permission_defs split: if_splits)+

lemma needs_create_rule:
  "needs c (seen_project (sv_db c) u raw)
     (create_rule app u raw name tags)"
  unfolding create_rule_def Let_def
  by (intro needing) (rule needs_true, force simp: permission_defs split: if_splits)+

lemma needs_delete_rule:
  "needs c (seen_project (sv_db c) u raw)
     (delete_rule app u raw rule)"
  unfolding delete_rule_def Let_def
  by (intro needing) (rule needs_true, force simp: permission_defs split: if_splits)+

lemma needs_create_team_handler:
  "needs c (ui_teams app \<and> manages u)
     (create_team_handler app u name)"
  unfolding create_team_handler_def rendered_def
  by (intro needing) (rule needs_true, force simp: permission_defs split: if_splits)+

lemma needs_get_team_handler:
  "needs c (\<exists>tid. names_team app (sv_db c) raw tid \<and> sees_team (sv_db c) u tid)
     (get_team_handler app u raw)"
  unfolding get_team_handler_def rendered_def
  by (intro needing) (rule needs_true, force simp: permission_defs split: if_splits)+

lemma needs_update_team_handler:
  "needs c (ui_teams app \<and> manages u)
     (update_team_handler app u raw name)"
  unfolding update_team_handler_def rendered_def
  by (intro needing) (rule needs_true, force simp: permission_defs split: if_splits)+

lemma needs_delete_team_handler:
  "needs c (ui_teams app \<and> manages u \<and> (target \<noteq> None \<longrightarrow> ui_projects app))
     (delete_team_handler app u raw target)"
  unfolding delete_team_handler_def rendered_def
  by (intro needing) (rule needs_true, force simp: permission_defs split: if_splits)+

lemma needs_add_member_handler:
  "needs c (ui_teams app \<and> run_team app (sv_db c) u raw)
     (add_member_handler app u raw uid role)"
  unfolding add_member_handler_def rendered_def
  by (intro needing) (rule needs_true, force simp: permission_defs split: if_splits)+

lemma needs_set_member_role_handler:
  "needs c (ui_teams app \<and> run_team app (sv_db c) u raw)
     (set_member_role_handler app u raw uid role)"
  unfolding set_member_role_handler_def rendered_def
  by (intro needing) (rule needs_true, force simp: permission_defs split: if_splits)+

lemma needs_remove_member_handler:
  "needs c (ui_teams app \<and> run_team app (sv_db c) u raw)
     (remove_member_handler app u raw uid)"
  unfolding remove_member_handler_def rendered_def
  by (intro needing) (rule needs_true, force simp: permission_defs split: if_splits)+

lemma needs_list_invites:
  "needs c (run_team app (sv_db c) u raw)
     (list_invites app u raw)"
  unfolding list_invites_def Let_def
  by (intro needing) (rule needs_true, force simp: permission_defs split: if_splits)+

lemma needs_create_invite_handler:
  "needs c (ui_teams app \<and> ap_allow_invites app \<and> run_team app (sv_db c) u raw)
     (create_invite_handler app u raw body)"
  unfolding create_invite_handler_def Let_def
  by (intro needing) (rule needs_true, force simp: permission_defs split: if_splits)+

lemma needs_revoke_invite:
  "needs c (\<exists>tid. names_team app (sv_db c) raw tid \<and> runs_team (sv_db c) u tid \<and> (\<exists>i \<in> set (db_invites (sv_db c)). inv_token i = token \<and> inv_team_id i = tid))
     (revoke_invite app u raw token)"
  unfolding revoke_invite_def Let_def
  by (intro needing) (rule needs_true, force simp: permission_defs split: if_splits)+

lemma needs_get_settings_handler:
  "needs c (manages u)
     (get_settings_handler app u)"
  unfolding get_settings_handler_def rendered_def
  by (intro needing) (rule needs_true, force simp: permission_defs split: if_splits)+

lemma needs_update_settings_handler:
  "needs c (manages u \<and> ms_service_source (ap_management app) \<noteq> Env \<and> (us_allow_signup body \<noteq> None \<or> us_default_team_ids body \<noteq> None \<longrightarrow> ui_teams app))
     (update_settings_handler app u body)"
  unfolding update_settings_handler_def rendered_def
  by (intro needing) (rule needs_true, force simp: permission_defs split: if_splits)+

lemma needs_test_email_handler:
  "needs c (manages u \<and> ap_mailer app)
     (test_email_handler app u to)"
  unfolding test_email_handler_def rendered_def
  by (intro needing) (rule needs_true, force simp: permission_defs split: if_splits)+

lemma needs_list_users_handler:
  "needs c (manages u)
     (list_users_handler app u)"
  unfolding list_users_handler_def rendered_def
  by (intro needing) (rule needs_true, force simp: permission_defs split: if_splits)+

lemma needs_approve_user:
  "needs c (manages u \<and> (\<exists>t. names_user app (sv_db c) raw t \<and> (effectively_owner app t \<longrightarrow> usr_instance_role u = Owner)))
     (approve_user app u raw)"
  unfolding approve_user_def rendered_def
  by (intro needing) (rule needs_true, force simp: permission_defs split: if_splits)+

lemma needs_delete_user_handler:
  "needs c (manages u \<and> (\<exists>t. names_user app (sv_db c) raw t \<and> usr_id t \<noteq> usr_id u \<and>
       (effectively_owner app t \<longrightarrow> usr_instance_role u = Owner) \<and>
       (usr_instance_role t = Owner \<longrightarrow> several_owners (sv_db c))))
     (delete_user_handler app u raw)"
  unfolding delete_user_handler_def rendered_def
  by (intro needing) (rule needs_true, force simp: permission_defs split: if_splits)+

lemma needs_set_user_role:
  "needs c (manages u \<and> (\<exists>t. names_user app (sv_db c) raw t \<and> \<not> admin_users_contains (ap_admin_users app) (usr_email t) \<and> (usr_instance_role t = Owner \<or> role = Owner \<longrightarrow> usr_instance_role u = Owner) \<and>
       (usr_instance_role t = Owner \<and> role \<noteq> Owner \<longrightarrow> several_owners (sv_db c))))
     (set_user_role app u raw role)"
  unfolding set_user_role_def rendered_def
  by (intro needing) (rule needs_true, force simp: permission_defs split: if_splits)+

lemma needs_update_profile_handler:
  "needs c (uf_display_name body \<noteq> None \<and> usr_auth_provider u = Oidc \<longrightarrow> ap_sso_rename app)
     (update_profile_handler app u body)"
  unfolding update_profile_handler_def rendered_def
  by (intro needing) (rule needs_true, force simp: permission_defs split: if_splits option.splits sum.splits)+

lemma needs_get_notifications_handler:
  "needs c (manages u)
     (get_notifications_handler app tls u)"
  unfolding get_notifications_handler_def rendered_def
  by (intro needing) (rule needs_true, force simp: permission_defs split: if_splits)+

lemma needs_update_notifications_handler:
  "needs c (manages u \<and> feature_enabled app \<and> ms_service_source (ap_management app) \<noteq> Env \<and> ms_notification_source (ap_management app) = Ui)
     (update_notifications_handler app tls u conf)"
  unfolding update_notifications_handler_def rendered_def
  by (intro needing) (rule needs_true, force simp: permission_defs split: if_splits)+

lemma needs_preview_notifications:
  "needs c (manages u \<and> feature_enabled app)
     (preview_notifications app u conf)"
  unfolding preview_notifications_def rendered_def
  by (intro needing) (rule needs_true, force simp: permission_defs split: if_splits)+

lemma needs_test_alert_handler:
  "needs c (manages u \<and> feature_enabled app)
     (test_alert_handler app u l)"
  unfolding test_alert_handler_def rendered_def
  by (intro needing) (rule needs_true, force simp: permission_defs split: if_splits)+

lemma needs_update_interval_handler:
  "needs c (manages u \<and> ms_service_source (ap_management app) = Ui)
     (update_interval_handler app u seconds)"
  unfolding update_interval_handler_def rendered_def
  by (intro needing) (rule needs_true, force simp: permission_defs split: if_splits)+

lemma needs_update_names_handler:
  "needs c (manages u \<and> feature_enabled app \<and> ms_service_source (ap_management app) = Ui)
     (update_names_handler app u names)"
  unfolding update_names_handler_def rendered_def
  by (intro needing) (rule needs_true, force simp: permission_defs split: if_splits)+

lemma needs_update_default_severity:
  "needs c (manages u \<and> ms_service_source (ap_management app) = Ui)
     (update_default_severity app u body)"
  unfolding update_default_severity_def rendered_def
  by (intro needing) (rule needs_true, force simp: permission_defs split: if_splits)+

lemma needs_project_interval:
  "needs c (seen_project (sv_db c) u raw)
     (project_interval app u raw)"
  unfolding project_interval_def Let_def
  by (intro needing) (rule needs_true, force simp: permission_defs split: if_splits)+

lemma needs_update_project_interval:
  "needs c (ui_projects app \<and> run_project (sv_db c) u raw)
     (update_project_interval app u raw seconds)"
  unfolding update_project_interval_def Let_def
  by (intro needing) (rule needs_true, force simp: permission_defs split: if_splits)+

lemma needs_project_severity:
  "needs c (seen_project (sv_db c) u raw)
     (project_severity app u raw)"
  unfolding project_severity_def Let_def
  by (intro needing) (rule needs_true, force simp: permission_defs split: if_splits)+

lemma needs_update_project_severity:
  "needs c (ui_projects app \<and> run_project (sv_db c) u raw)
     (update_project_severity app u raw body)"
  unfolding update_project_severity_def Let_def
  by (intro needing) (rule needs_true, force simp: permission_defs split: if_splits)+

lemma needs_project_test_status:
  "needs c (seen_project (sv_db c) u raw)
     (project_test_status app u raw)"
  unfolding project_test_status_def Let_def
  by (intro needing) (rule needs_true, force simp: permission_defs split: if_splits)+

lemma needs_project_test_alert:
  "needs c (run_project (sv_db c) u raw)
     (project_test_alert app u raw l)"
  unfolding project_test_alert_def Let_def
  by (intro needing) (rule needs_true, force simp: permission_defs split: if_splits)+

section \<open>All requests\<close>

lemmas needs_handlers =
  needs_create_handler needs_get_handler needs_update_handler needs_change_team needs_delete_handler
  needs_dsn_handler needs_sdk_setup needs_mute_project needs_regenerate_dsn_handler needs_favorite
  needs_list_for_project needs_get_issue needs_list_events needs_resolve_issue needs_unresolve_issue
  needs_mute_issue needs_update_issue_fingerprint needs_get_event needs_list_rules needs_create_rule
  needs_delete_rule needs_create_team_handler needs_get_team_handler needs_update_team_handler
  needs_delete_team_handler needs_add_member_handler needs_set_member_role_handler needs_remove_member_handler
  needs_list_invites needs_create_invite_handler needs_revoke_invite needs_get_settings_handler
  needs_update_settings_handler needs_test_email_handler needs_list_users_handler needs_approve_user
  needs_delete_user_handler needs_set_user_role needs_update_profile_handler needs_get_notifications_handler
  needs_update_notifications_handler needs_preview_notifications needs_test_alert_handler
  needs_update_interval_handler needs_update_names_handler needs_update_default_severity
  needs_project_interval needs_update_project_interval needs_project_severity needs_update_project_severity
  needs_project_test_status needs_project_test_alert

lemmas handling = handle.simps permitted.simps handle_project.simps permitted_project.simps handle_issue.simps
  permitted_issue.simps handle_team.simps permitted_team.simps handle_account.simps permitted_account.simps
  handle_notification.simps permitted_notification.simps

lemma needs_handle: "needs c (permitted app (sv_db c) u req) (handle app tls u req)"
proof (cases req)
  case (OnProjects p)
  show ?thesis unfolding OnProjects
    by (cases p; simp only: handling; (rule needs_status, rule needs_handlers | rule needs_true, rule TrueI))
next
  case (OnIssues p)
  show ?thesis unfolding OnIssues
    by (cases p; simp only: handling; (rule needs_status, rule needs_handlers | rule needs_true, rule TrueI))
next
  case (OnTeams p)
  show ?thesis unfolding OnTeams
    by (cases p; simp only: handling; (rule needs_status, rule needs_handlers | rule needs_true, rule TrueI))
next
  case (OnAccounts p)
  show ?thesis unfolding OnAccounts
    by (cases p; simp only: handling; (rule needs_status, rule needs_handlers | rule needs_true, rule TrueI))
next
  case (OnNotifications p)
  show ?thesis unfolding OnNotifications
    by (cases p; simp only: handling; (rule needs_status, rule needs_handlers | rule needs_true, rule TrueI))
qed

end
