(* ===== verification/Requests.thy ===== *)
theory Requests
  imports ApiFacts AccessFacts
begin

text \<open>
  Serving a request: the same-origin check, the session and the handler together. Only permitted requests
  act, and what a GET may not do.
\<close>

section \<open>Only permitted requests act\<close>

lemma permitted_content [simp]: "permitted app (sv_db (content s)) u req = permitted app (sv_db s) u req"
proof -
  have roles [simp]: "has_team_role (sv_db (content s)) = has_team_role (sv_db s)"
    "names_project (sv_db (content s)) = names_project (sv_db s)"
    "names_issue (sv_db (content s)) = names_issue (sv_db s)"
    "names_team app (sv_db (content s)) = names_team app (sv_db s)"
    "names_user app (sv_db (content s)) = names_user app (sv_db s)"
    "several_owners (sv_db (content s)) = several_owners (sv_db s)"
    by (simp_all add: fun_eq_iff several_owners_def has_team_role_def names_project_def names_issue_def names_team_def names_user_def)
  then have rights [simp]: "runs_team (sv_db (content s)) = runs_team (sv_db s)"
    "sees_team (sv_db (content s)) = sees_team (sv_db s)"
    by (simp_all add: fun_eq_iff runs_team_def sees_team_def)
  then have [simp]: "sees_project (sv_db (content s)) = sees_project (sv_db s)"
    "runs_project (sv_db (content s)) = runs_project (sv_db s)"
    by (simp_all add: fun_eq_iff sees_project_def runs_project_def)
  then have seen [simp]: "seen_project (sv_db (content s)) = seen_project (sv_db s)"
    "run_project (sv_db (content s)) = run_project (sv_db s)" "seen_issue (sv_db (content s)) = seen_issue (sv_db s)"
    "run_team app (sv_db (content s)) = run_team app (sv_db s)"
    by (simp_all add: fun_eq_iff seen_project_def run_project_def seen_issue_def run_team_def)
  show ?thesis
  proof (cases req)
    case (OnProjects p)
    then show ?thesis by (cases p) simp_all
  next
    case (OnIssues p)
    then show ?thesis by (cases p) simp_all
  next
    case (OnTeams p)
    then show ?thesis by (cases p) simp_all
  next
    case (OnAccounts p)
    then show ?thesis by (cases p) simp_all
  next
    case (OnNotifications p)
    then show ?thesis by (cases p) simp_all
  qed
qed

abbreviation quiet_db :: "db \<Rightarrow> db" where
  "quiet_db d \<equiv> d\<lparr>faults := [], rng_pos := 0\<rparr>"

lemma read_quiet: "transaction (\<lambda>s. (Inr (f s), s)) d = (r, e) \<Longrightarrow> quiet_db e = quiet_db d"
  by (auto simp: transaction_def Let_def split: list.splits option.splits)

lemma authenticate_quiet: "authenticate_user cfg now hs d = (r, e) \<Longrightarrow> quiet_db e = quiet_db d"
  unfolding authenticate_user_def find_session_def find_user_by_id_def select_user_def Let_def
  by (auto dest!: read_quiet split: option.splits prod.splits sum.splits if_splits)

lemma current_user_run:
  assumes "current_user app f hs s = (r, t)"
  shows "content t = content s \<and>
     (\<forall>u. r = Inr u \<longrightarrow>
        (\<exists>d. authenticate_user (ap_auth app) (hub_clock (sv_hub s) (hub_tick (sv_hub s))) hs (sv_db s) = (Inr u, d)))"
proof -
  obtain q d where run: "authenticate_user (ap_auth app) (hub_clock (sv_hub s) (hub_tick (sv_hub s))) hs (sv_db s) = (q, d)"
    by (cases "authenticate_user (ap_auth app) (hub_clock (sv_hub s) (hub_tick (sv_hub s))) hs (sv_db s)")
  from authenticate_quiet [OF run] have "quiet_db d = quiet_db (sv_db s)" .
  then show ?thesis
    using assms run
    by (auto simp: current_user_def op_bind_def clock_now_def answer_def on_tables_def set_db_def content_def
        split: sum.splits prod.splits)
qed


section \<open>A GET changes nothing\<close>

definition hub_content :: "hub \<Rightarrow> hub" where
  "hub_content h = h\<lparr>hub_db := quiet_db (hub_db h), hub_tick := 0\<rparr>"

abbreviation idle :: "(server, 'e, 'a) run \<Rightarrow> bool" where
  "idle \<equiv> moves (\<lambda>s t. content t = content s)"

abbreviation hub_idle :: "(hub, 'e, 'a) run \<Rightarrow> bool" where
  "hub_idle \<equiv> moves (\<lambda>s t. hub_content t = hub_content s)"

interpretation idling: step_relation "\<lambda>s t. content t = content s"
  by unfold_locales simp_all

interpretation hub_idling: step_relation "\<lambda>s t. hub_content t = hub_content s"
  by unfold_locales simp_all

named_theorems reads

lemmas [reads] = idling.moves_ok idling.moves_bind idling.moves_if hub_idling.moves_ok hub_idling.moves_bind
  hub_idling.moves_if

lemma idle_learns: "(\<And>c. learns c (P c) m) \<Longrightarrow> idle m"
  unfolding learns_def moves_def by blast

lemma idle_answer [reads]: "idle m \<Longrightarrow> idle (answer f m)"
  by (force simp: moves_def elim: answer_cases)

lemma idle_tables [reads]: "idle (on_tables (transaction (\<lambda>d. (Inr (f d), d))))"
  by (rule idle_learns, rule learns_read, rule TrueI)

lemma idle_hub [reads]:
  assumes "hub_idle m"
  shows "idle (on_hub m)"
proof (rule movesI)
  fix s r t assume "on_hub m s = (r, t)"
  then obtain h where "m (sv_hub s) = (r, h)" "t = s\<lparr>sv_hub := h\<rparr>"
    by (auto simp: on_hub_def split: prod.splits)
  with movesD [OF assms this(1)] show "content t = content s"
    by (simp add: content_def hub_content_def)
qed

lemma idle_statement [reads]: "(\<And>h. snd (body h) = h) \<Longrightarrow> hub_idle (statement body)"
  by (rule movesI) (auto simp: statement_def hub_content_def Let_def split: list.splits option.splits prod.splits
      sum.splits dest!: arg_cong [where f = snd])

lemma idle_stmt [reads]: "idle stmt"
  unfolding stmt_def by (rule idle_tables)

lemma idle_case_option [reads]:
  "idle m \<Longrightarrow> (\<And>v. idle (f v)) \<Longrightarrow> idle (case x of None \<Rightarrow> m | Some v \<Rightarrow> f v)"
  "hub_idle n \<Longrightarrow> (\<And>v. hub_idle (g v)) \<Longrightarrow> hub_idle (case x of None \<Rightarrow> n | Some v \<Rightarrow> g v)"
  by (simp_all split: option.splits)

lemma idle_case_pair [reads]: "(\<And>a b. idle (f a b)) \<Longrightarrow> idle (case x of (a, b) \<Rightarrow> f a b)"
  by (simp split: prod.splits)

lemma idle_guards [reads]: "idle (guard_that b n m)" "idle (found x n m)" "idle (parse_id app raw)"
    "idle (resolve_project app raw)" "idle (require_member app u pid)" "idle (require_admin app u pid)"
    "idle (authorize_issue app u raw)" "idle (admin_user u)" "idle (resolve_team app raw)"
    "idle (parse_team_id app raw)" "idle (require_invite_manager app u tid)"
  by (rule idle_learns, rule learning)+

lemma idle_repositories [reads]:
  "idle (on_tables list_projects)" "idle (on_tables (list_projects_for_user uid))"
  "idle (on_tables (list_projects_for_team tid))" "idle (on_tables (list_issues pid filt))"
  "idle (on_tables (latest_for_issue iid))" "idle (on_tables (recent_events iid n))"
  "idle (on_tables (find_event_by_id eid))" "idle (on_tables list_teams)" "idle (on_tables (list_teams_for_user uid))"
  "idle (on_tables (team_members tid))" "idle (on_tables (member_role tid uid))" "idle (on_tables (is_member tid uid))"
  "idle (on_tables (list_invites_for_team tid))" "idle (on_tables list_users)"
  unfolding list_projects_def list_projects_for_user_def list_projects_for_team_def list_issues_def Let_def
    latest_for_issue_def recent_events_def find_event_by_id_def list_teams_def list_teams_for_user_def
    team_members_def member_role_def is_member_def list_invites_for_team_def list_users_def
  by (rule idle_tables)+

lemma idle_hub_repositories [reads]:
  "hub_idle get_settings" "hub_idle default_team_ids" "hub_idle get_notifications" "hub_idle (severity p)"
  "hub_idle (interval p)" "hub_idle (effective_names cfg)"
  unfolding get_settings_def default_team_ids_def get_notifications_def severity_def severity_text_def interval_def
    effective_names_def get_names_def
  by (intro reads; simp split: option.splits)+

lemma tags_quiet: "load_tags rs d = (r, e) \<Longrightarrow> quiet_db e = quiet_db d"
proof (induction rs arbitrary: d r e)
  case (Cons x rs)
  then show ?case
    by (auto simp: tags_for_def split: prod.splits sum.splits dest!: read_quiet Cons.IH)
qed simp

lemma idle_rules [reads]: "idle (on_tables (list_rules_for_project pid))"
proof (rule movesI)
  fix s r t assume run: "on_tables (list_rules_for_project pid) s = (r, t)"
  obtain q d where "list_rules_for_project pid (sv_db s) = (q, d)"
    by (cases "list_rules_for_project pid (sv_db s)")
  moreover from this have "quiet_db d = quiet_db (sv_db s)"
    by (auto simp: list_rules_for_project_def split: prod.splits sum.splits dest!: read_quiet tags_quiet)
  ultimately show "content t = content s"
    using run by (auto simp: on_tables_def set_db_def content_def)
qed

lemma idle_desk [reads]: "idle (on_desk (team_grants tid))"
proof (rule movesI)
  fix s r t assume run: "on_desk (team_grants tid) s = (r, t)"
  have quiet: "quiet_db (dk_db e) = quiet_db (dk_db d) \<and> dk_config e = dk_config d \<and> dk_severities e = dk_severities d \<and>
     dk_intervals e = dk_intervals d \<and> dk_member_grants e = dk_member_grants d \<and>
     dk_group_grants e = dk_group_grants d \<and> dk_sso_groups e = dk_sso_groups d" if "read_only d = (q, e)" for d q e
    using that by (auto simp: read_only_def desk_transaction_def Let_def split: list.splits option.splits)
  show "content t = content s"
    using run by (auto simp: on_desk_def team_grants_def put_desk_def desk_of_def content_def op_bind_def
      split: prod.splits sum.splits dest!: quiet)
qed

lemma idle_summarize [reads]: "idle (summarize u ts)"
proof (induction ts)
  case Nil
  show ?case unfolding summarize.simps by (intro reads)
next
  case (Cons x xs)
  show ?case unfolding summarize.simps by (intro reads Cons.IH)
qed

lemma idle_views [reads]: "idle (load_team_view app x)" "idle (summaries u)" "idle (view_notifications app tls)"
    "idle (default_project_issues p)" "idle (visible_projects u)"
  unfolding load_team_view_def inspect_team_def summaries_def visible_teams_def view_notifications_def
    default_project_issues_def visible_projects_def
  by (intro reads)+

lemma idle_settings [reads]: "idle (read_settings app)"
proof -
  have "idle (\<lambda>s. op_ok (v s) s)" for v :: "server \<Rightarrow> 'a" by (rule movesI) simp
  then show ?thesis unfolding read_settings_def by (intro reads)
qed

lemma idle_status: "idle h \<Longrightarrow> idle (status h)"
  unfolding status_def by (intro reads)

lemma get_requests_idle:
  assumes "request_method req = GET"
  shows "idle (handle app tls u req)"
proof (cases req)
  case (OnProjects p)
  with assms show ?thesis
    by (cases p; simp; intro idle_status; unfold list_handler_def get_handler_def dsn_handler_def sdk_setup_def Let_def;
        intro reads)
next
  case (OnIssues p)
  with assms show ?thesis
    by (cases p; simp; intro idle_status; unfold list_for_project_def get_issue_def list_events_def get_event_def
        list_rules_def; intro reads)
next
  case (OnTeams p)
  with assms show ?thesis
    by (cases p; simp; intro idle_status; unfold list_teams_handler_def get_team_handler_def list_invites_def rendered_def;
        intro reads)
next
  case (OnAccounts p)
  with assms show ?thesis
    by (cases p; simp; intro idle_status; unfold get_settings_handler_def list_users_handler_def rendered_def; intro reads)
next
  case (OnNotifications p)
  with assms show ?thesis
    by (cases p; simp; intro idle_status; unfold get_notifications_handler_def project_interval_def project_severity_def
        project_test_status_def rendered_def; intro reads)
qed

text \<open>C17. Whatever a GET of the type \<open>request\<close> is answered, it changes nothing besides the clocks and the fault script: no row,
  no setting, no mail, no alert, no favourite and no entry of the login guard.\<close>

theorem get_requests_change_nothing:
  assumes "request_method req = GET" "serve app tls url_parse hs req s = (r, t)"
  shows "content t = content s"
proof -
  have "idle (current_user app f hs)" for f by (rule movesI) (use current_user_run in blast)
  then have "idle (serve app tls url_parse hs req)"
    unfolding serve_def json_error_def by (intro reads get_requests_idle [OF assms(1)])
  then show ?thesis using assms(2) by (rule movesD)
qed

section \<open>An instance that serves one user\<close>

definition example_app :: app where
  "example_app =
     \<lparr>ap_auth = example_auth, ap_management = default_management, ap_allow_invites = True,
      ap_events_retention = 1000, ap_org_name = ''org'', ap_email_login = True, ap_admin_enabled = True,
      ap_mailer = False, ap_sso_rename = False, ap_assign_default_teams = False,
      ap_sso = \<lparr>ss_provider_name = [], ss_allowed_email_domains = [], ss_require_approval = False\<rparr>,
      ap_webauthn = False, ap_passkey = None, ap_smtp_enabled = False, ap_smtp = None, ap_deploy_url = None,
      ap_sync_report = empty_report,
      ap_alerts = \<lparr>cfg_alertmanager_enabled = False, cfg_alertmanager_url = None, cfg_service_from_env = False,
        cfg_env_names = default_names, cfg_base_url = [], cfg_webhooks_enabled = False, cfg_mail_enabled = True\<rparr>,
      ap_externals = \<lparr>ex_url_parse = (\<lambda>_. None), ex_rfc3339 = (\<lambda>_. []), ex_env = (\<lambda>_ h. h)\<rparr>,
      ap_repo = quiet_repo, ap_env = (\<lambda>_ d. d), ap_parse_uuid = (\<lambda>s. if length s = 1 then Some s else None),
      ap_url_scheme = (\<lambda>_. None), ap_driver_text = (\<lambda>_. []), ap_hash = (\<lambda>salt p. Some p),
      ap_phc = (\<lambda>h. Some (\<lambda>p. Some (p = h)))\<rparr>"

definition example_server :: server where
  "example_server =
     \<lparr>sv_hub = \<lparr>hub_db = logged_in,
        hub_settings = \<lparr>set_allow_signup = False, set_org_name = [], set_updated_at = 0\<rparr>,
        hub_names = default_names, hub_default_severity = [], hub_interval = 60, hub_severities = (\<lambda>_. []),
        hub_intervals = (\<lambda>_. 0), hub_config = default_config, hub_alerts = [], hub_project_labels = (\<lambda>_. None),
        hub_clock = int, hub_tick = 5, hub_answers = [], hub_sent = [], hub_webhooks = [], hub_mail_answers = [],
        hub_mails = []\<rparr>,
      sv_member_grants = [], sv_group_grants = [], sv_sso_groups = [], sv_favorites = [],
      sv_guard = new_guard \<lparr>lc_enabled = True, lc_max_attempts = 5, lc_window = 900, lc_base_lockout = 60,
        lc_max_lockout = 3600\<rparr>,
      sv_instants = int, sv_instant_tick = 0, sv_challenges = [], sv_limiter = new_limiter DEFAULT_LIMIT DEFAULT_WINDOW\<rparr>"

definition example_headers :: headers where
  "example_headers = [(''cookie'', cookie_pair example_cookie), (''x-soika-request'', ''1'')]"

lemma example_tables [simp]: "sv_db example_server = logged_in" "faults logged_in = []"
    "db_projects logged_in = [example_project]" "user_ids logged_in = [''u'']" "sv_favorites example_server = []"
    "hub_clock (sv_hub example_server) = int" "hub_tick (sv_hub example_server) = 5"
    "usr_id example_user = ''u''" "usr_instance_role example_user = Owner" "prj_slug example_project = ''p''"
    "prj_id example_project = ''p''" "ap_auth example_app = example_auth"
  by (simp_all add: example_server_def logged_in_def example_world_def example_db_def example_user_def user_row_def
      example_project_def example_app_def)

lemma example_request:
  "authenticate_user example_auth 5 example_headers logged_in = (Inr example_user, logged_in)"
proof -
  have "session_id_from_headers (ac_crypto example_auth) (ac_secret_key example_auth) example_headers = Some ''0''"
    unfolding example_headers_def
    by (rule session_id_read_back [where secure = True]) (simp_all add: example_auth_def example_cookie_def)
  moreover have "List.find (\<lambda>x. ses_id x = ''0'' \<and> 5 < ses_expires_at x) (db_sessions logged_in) = Some example_session"
    "List.find (\<lambda>u. usr_id u = ses_user_id example_session) (db_users logged_in) = Some example_user"
    by (simp_all add: logged_in_def example_session_def example_world_def example_user_def user_row_def)
  ultimately have "authenticate_user example_auth 5 example_headers logged_in =
      (Inr (admin_users_apply (ac_admin_users example_auth) example_user), logged_in)"
    by (intro authenticate_live)
      (simp_all add: example_user_def user_row_def example_auth_def logged_in_def example_world_def example_db_def)
  moreover have "admin_users_apply (ac_admin_users example_auth) example_user = example_user"
    by (simp add: example_auth_def admin_users_apply_def effective_instance_role_def admin_users_contains_def)
  ultimately show ?thesis by simp
qed

lemma example_served:
  "\<exists>t. serve example_app True (\<lambda>_. None) example_headers (OnProjects (Favorite ''p'' (Some True))) example_server =
     (Inr 200, t)"
proof -
  have "csrf_allowed (\<lambda>_. None) (ap_base_url example_app) POST example_headers"
    by (simp add: csrf_allowed_def example_headers_def Let_def)
  then show ?thesis
    by (simp add: serve_def current_user_def op_bind_def clock_now_def answer_def on_tables_def example_request
        set_db_def status_def favorite_def resolve_project_def find_project_by_slug_def select_project_def
        transaction_def require_member_def effective_role_def can_manage_instance_def found_def
        favorite_target_def add_favorite_def stmt_def Let_def)
qed


theorem get_requests_change_nothing_witness:
  "content (snd (serve example_app True (\<lambda>_. None) example_headers (OnProjects ListProjects) example_server)) =
     content example_server"
  by (rule get_requests_change_nothing [OF _ prod.collapse [symmetric]]) simp

end
