(* ===== verification/AuthFacts.thy ===== *)
theory AuthFacts
  imports Requests
begin

text \<open>
  What the sign-in handlers guarantee: a password login succeeds only with the password of an active
  account, a wrong one is counted, and enough of them lock the key; the setup happens once.
\<close>

section \<open>Successful runs taken apart\<close>

lemma answer_Inr [simp]: "answer f m s = (Inr v, t) \<longleftrightarrow> m s = (Inr v, t)"
  by (auto simp: answer_def split: prod.splits sum.splits)

lemma answer_Inl: "answer f m s = (Inl x, t) \<longleftrightarrow> (\<exists>e. m s = (Inl e, t) \<and> x = f e)"
  by (auto simp: answer_def split: prod.splits sum.splits)

lemma on_tables_run: "on_tables m s = (r, t) \<longleftrightarrow> (\<exists>d. m (sv_db s) = (r, d) \<and> t = set_db d s)"
  by (auto simp: on_tables_def split: prod.splits)

lemma set_db_simps [simp]: "sv_db (set_db d s) = d" "set_db d (set_db e s) = set_db d s"
    "sv_guard (set_db d s) = sv_guard s" "sv_instants (set_db d s) = sv_instants s"
    "sv_instant_tick (set_db d s) = sv_instant_tick s"
  by (simp_all add: set_db_def)

lemma timed_run:
  "timed m s = (r, t) \<longleftrightarrow>
     (\<exists>d. m (hub_clock (sv_hub s) (hub_tick (sv_hub s))) (sv_db s) = (r, d) \<and>
        t = set_db d (s\<lparr>sv_hub := (sv_hub s)\<lparr>hub_tick := Suc (hub_tick (sv_hub s))\<rparr>\<rparr>))"
  by (auto simp: timed_def op_bind_def clock_now_def on_tables_def set_db_def split: prod.splits)

lemma op_res_run [simp]: "op_res r s = (q, t) \<longleftrightarrow> q = r \<and> t = s"
  by auto

text \<open>What a read of the tables gives: its answer, or the error of the driver.\<close>

lemma read_run:
  assumes "transaction (\<lambda>d. (Inr (f d), d)) d = (r, e)"
  shows "\<exists>fs. e = d\<lparr>faults := fs\<rparr> \<and> (\<forall>v. r = Inr v \<longrightarrow> v = f e) \<and> (\<forall>x. r = Inl x \<longrightarrow> (\<exists>y. x = Db y))"
  using assms by (auto simp: transaction_def Let_def split: list.splits option.splits)

lemma find_by_email_run:
  assumes "find_user_by_email email d = (r, e)"
  shows "\<exists>fs. e = d\<lparr>faults := fs\<rparr> \<and> (\<forall>v. r = Inr v \<longrightarrow> v = List.find (\<lambda>u. usr_email u = email) (db_users d)) \<and>
     (\<forall>x. r = Inl x \<longrightarrow> (\<exists>y. x = Db y))"
  using read_run assms unfolding find_user_by_email_def select_user_def by fastforce

lemma find_by_email_error: "find_user_by_email email d = (Inl x, e) \<Longrightarrow> \<exists>y. x = Db y"
  using find_by_email_run by fastforce

lemma not_locked_run:
  "not_locked key s = (r, t) \<longleftrightarrow>
     t = s\<lparr>sv_instant_tick := Suc (sv_instant_tick s)\<rparr> \<and>
     r = (case check_lock_at (sv_guard s) key (sv_instants s (sv_instant_tick s)) of
            Locked n \<Rightarrow> Inl (RetryAfter n) | Allowed \<Rightarrow> Inr ())"
  by (auto simp: not_locked_def op_bind_def instant_now_def split: lockout_decision.splits)

lemma note_failure_run:
  "note_failure key s = (r, t) \<longleftrightarrow>
     (\<exists>g. record_failure_at (sv_guard s) key (sv_instants s (sv_instant_tick s)) = (r, g) \<and>
        t = s\<lparr>sv_instant_tick := Suc (sv_instant_tick s), sv_guard := g\<rparr>)"
  by (auto simp: note_failure_def op_bind_def instant_now_def split: prod.splits)

lemma start_session_run:
  assumes "start_session cfg now uid d = (r, e)"
  shows "(\<forall>x ck. r = Inr (x, ck) \<longrightarrow> ses_user_id x = uid \<and>
        quiet_db e = quiet_db (d\<lparr>db_sessions := db_sessions d @ [x]\<rparr>)) \<and>
     (\<forall>x. r = Inl x \<longrightarrow> (\<exists>m. x = Panic m) \<or> (\<exists>y. x = Db y))"
  using assms
  by (auto simp: start_session_def create_session_def transaction_def Let_def dt_add_seconds_def delta_seconds_def dt_add_def
      foreign_key_failed_def split: sum.splits if_splits list.splits option.splits)

section \<open>Login\<close>

lemma auth_error_401: "auth_error app e = Refusal 401 m \<Longrightarrow> \<exists>x. e = Auth x"
  by (cases e) (simp_all add: auth_error_def hide_internal_def error_status_def)

text \<open>C2. A password login succeeds only for an active account with the given address, whose stored hash the given
  password verifies, while its key is not locked; under single sign-on only for an owner. It opens exactly one
  session, that of the account, clears the key in the login guard, and changes no other row.\<close>

theorem login_needs_password:
  assumes "login app peer body s = (Inr (n, cookie, v), t)"
  shows "ap_email_login app \<and> (\<exists>email u x.
     normalize_email (lr_email body) = Inr email \<and>
     check_lock_at (sv_guard s) (lockout_key (client_ip peer) email) (sv_instants s (sv_instant_tick s)) = Allowed \<and>
     u \<in> set (db_users (sv_db s)) \<and> usr_email u = email \<and> usr_status u = Active \<and> usr_password_hash u \<noteq> [] \<and>
     verify_password app (lr_password body) (usr_password_hash u) = Inr True \<and>
     (ap_oidc app \<longrightarrow> usr_instance_role (admin_users_apply (ap_admin_users app) u) = Owner) \<and>
     v = user_view_of (admin_users_apply (ap_admin_users app) u) \<and> n = 200 \<and>
     ses_user_id x = usr_id u \<and> quiet_db (sv_db t) = quiet_db ((sv_db s)\<lparr>db_sessions := db_sessions (sv_db s) @ [x]\<rparr>) \<and>
     sv_guard t = record_success (sv_guard s) (lockout_key (client_ip peer) email))"
proof -
  obtain email where on: "ap_email_login app" and email: "normalize_email (lr_email body) = Inr email"
    using assms by (auto simp: login_def op_bind_Inr require_email_login_def split: if_splits)
  let ?key = "lockout_key (client_ip peer) email"
  let ?s1 = "s\<lparr>sv_instant_tick := Suc (sv_instant_tick s)\<rparr>"
  obtain row d where free: "check_lock_at (sv_guard s) ?key (sv_instants s (sv_instant_tick s)) = Allowed"
    and row: "find_user_by_email email (sv_db s) = (Inr row, d)"
    and rest: "judge_login app ?key (map_option (admin_users_apply (ap_admin_users app)) row) (lr_password body)
       (set_db d ?s1) = (Inr (n, cookie, v), t)"
    using assms on email
    by (auto simp: login_def op_bind_Inr require_email_login_def Let_def not_locked_run on_tables_run
        split: lockout_decision.splits)
  have refused: "refuse_login app key verified u0 s0 \<noteq> (Inr y, t)" for key verified u0 s0 and y :: "nat \<times> string option \<times> user_view"
    by (auto simp: refuse_login_def op_bind_Inr)
  from rest refused obtain u where u: "row = Some u"
    and ver: "verified_login app (Some (admin_users_apply (ap_admin_users app) u)) (lr_password body) = Inr True"
    and may: "may_sign_in app (admin_users_apply (ap_admin_users app) u)"
    and fin: "finish_login app ?key (admin_users_apply (ap_admin_users app) u) (set_db d ?s1) = (Inr (n, cookie, v), t)"
    by (cases row) (auto simp: judge_login_def op_bind_Inr split: if_splits)
  have same [simp]: "usr_password_hash (admin_users_apply a u) = usr_password_hash u"
    "usr_status (admin_users_apply a u) = usr_status u" "usr_id (admin_users_apply a u) = usr_id u" for a
    by (simp_all add: admin_users_apply_def)
  from find_by_email_run [OF row] u have quiet: "quiet_db d = quiet_db (sv_db s)"
    and found: "List.find (\<lambda>u. usr_email u = email) (db_users (sv_db s)) = Some u" by auto
  from found have mem: "u \<in> set (db_users (sv_db s))" "usr_email u = email" using find_Some_in by fastforce+
  obtain x ck now where ses: "start_session (ap_auth app) now (usr_id u) d = (Inr (x, ck), sv_db t)"
    and guard: "sv_guard t = record_success (sv_guard s) ?key" and n: "n = 200"
    and v: "v = user_view_of (admin_users_apply (ap_admin_users app) u)"
    using fin by (auto simp: finish_login_def op_bind_Inr note_success_def open_session_def timed_run set_db_def)
  from start_session_run [OF ses] have "ses_user_id x = usr_id u"
    "quiet_db (sv_db t) = quiet_db (d\<lparr>db_sessions := db_sessions d @ [x]\<rparr>)" by simp_all
  moreover have "db_sessions d = db_sessions (sv_db s)" using arg_cong [OF quiet, of db_sessions] by simp
  moreover have "quiet_db (f\<lparr>db_sessions := xs\<rparr>) = (quiet_db f)\<lparr>db_sessions := xs\<rparr>" for f xs by simp
  ultimately have sessions: "ses_user_id x = usr_id u"
    "quiet_db (sv_db t) = quiet_db ((sv_db s)\<lparr>db_sessions := db_sessions (sv_db s) @ [x]\<rparr>)" using quiet by metis+
  have facts: "usr_status u = Active" "usr_password_hash u \<noteq> []" "verify_password app (lr_password body) (usr_password_hash u) = Inr True"
    "ap_oidc app \<longrightarrow> usr_instance_role (admin_users_apply (ap_admin_users app) u) = Owner"
    using ver may by (auto simp: verified_login_def may_sign_in_def is_pending_def is_owner_def split: if_splits)
      (cases "usr_status u"; simp)+
  show ?thesis
    using on email free mem facts v n sessions guard by blast
qed

section \<open>Guessing\<close>

lemma finish_login_error:
  assumes "finish_login app key u s = (Inl (Refusal 401 m), t)"
  shows False
  using assms
  by (auto simp: finish_login_def op_bind_def note_success_def answer_def open_session_def timed_run
      split: prod.splits sum.splits dest!: start_session_run auth_error_401)

lemma op_bind_Inl:
  "op_bind m f s = (Inl e, t) \<longleftrightarrow> m s = (Inl e, t) \<or> (\<exists>a u. m s = (Inr a, u) \<and> f a u = (Inl e, t))"
  by (auto simp: op_bind_def split: prod.splits sum.splits)

lemma auth_error_not_401 [simp]:
  "auth_error app (Validation x) \<noteq> Refusal 401 m" "auth_error app (Forbidden x) \<noteq> Refusal 401 m"
  "auth_error app (Internal x) \<noteq> Refusal 401 m" "auth_error app (Panic x) \<noteq> Refusal 401 m"
  "auth_error app (Db y) \<noteq> Refusal 401 m" "auth_error app (NotFound x) \<noteq> Refusal 401 m"
  "auth_error app (Conflict x) \<noteq> Refusal 401 m"
  by (auto dest!: auth_error_401)

lemmas [simp] = auth_error_not_401 [symmetric]

lemma verified_login_error:
  "verified_login app u password = Inl e \<Longrightarrow> \<exists>x. e = Internal x"
  by (auto simp: verified_login_def verify_password_def split: option.splits if_splits)

lemma record_failure_error: "record_failure_at g key now = (Inl e, h) \<Longrightarrow> \<exists>m. e = Panic m"
  by (auto simp: record_failure_at_def count_failure_def instant_add_def Let_def split: if_splits sum.splits prod.splits)

lemma refuse_login_401:
  assumes "refuse_login app key verified u s = (Inl (Refusal 401 m), t)"
  shows "record_failure_at (sv_guard s) key (sv_instants s (sv_instant_tick s)) = (Inr (), sv_guard t) \<and>
     sv_instants t = sv_instants s \<and> sv_instant_tick t = Suc (sv_instant_tick s)"
  using assms
  by (auto simp: refuse_login_def op_bind_Inl answer_Inl note_failure_run split: if_splits
      dest!: auth_error_401 record_failure_error)

lemma login_refused_401:
  assumes "login app peer body s = (Inl (Refusal 401 m), t)"
  shows "ap_email_login app \<and> (\<exists>email. normalize_email (lr_email body) = Inr email \<and>
     record_failure_at (sv_guard s) (lockout_key (client_ip peer) email)
       (sv_instants s (Suc (sv_instant_tick s))) = (Inr (), sv_guard t) \<and>
     sv_instants t = sv_instants s \<and> sv_instant_tick t = Suc (Suc (sv_instant_tick s)))"
proof -
  have on: "ap_email_login app"
    using assms by (auto simp: login_def op_bind_Inl require_email_login_def answer_Inl split: if_splits)
  have "normalize_email (lr_email body) \<noteq> Inl e" for e
  proof
    assume bad: "normalize_email (lr_email body) = Inl e"
    then have "e = Validation ''a valid email is required''"
      by (simp add: normalize_email_def Let_def split: if_splits)
    with bad assms on show False by (auto simp: login_def op_bind_def answer_def require_email_login_def)
  qed
  then obtain email where email: "normalize_email (lr_email body) = Inr email" by (cases "normalize_email (lr_email body)") auto
  let ?key = "lockout_key (client_ip peer) email"
  let ?s1 = "s\<lparr>sv_instant_tick := Suc (sv_instant_tick s)\<rparr>"
  obtain row d where row: "find_user_by_email email (sv_db s) = (Inr row, d)"
    and rest: "judge_login app ?key (map_option (admin_users_apply (ap_admin_users app)) row) (lr_password body)
       (set_db d ?s1) = (Inl (Refusal 401 m), t)"
    using assms on email
    by (auto simp: login_def op_bind_Inl answer_Inl require_email_login_def Let_def not_locked_run on_tables_run
        split: lockout_decision.splits dest!: find_by_email_error)
  from rest have "record_failure_at (sv_guard ?s1) ?key (sv_instants ?s1 (sv_instant_tick ?s1)) = (Inr (), sv_guard t) \<and>
      sv_instants t = sv_instants ?s1 \<and> sv_instant_tick t = Suc (sv_instant_tick ?s1)"
    by (cases row) (auto simp: judge_login_def op_bind_Inl answer_Inl split: if_splits
        dest!: verified_login_error finish_login_error refuse_login_401)
  then show ?thesis using on email by simp
qed

text \<open>Attempts with one address from one peer that are all refused for their credentials.\<close>

primrec wrong_guesses :: "app \<Rightarrow> string option \<Rightarrow> string \<Rightarrow> login_request list \<Rightarrow> server \<Rightarrow> server \<Rightarrow> bool" where
  "wrong_guesses app peer email [] s t \<longleftrightarrow> t = s"
| "wrong_guesses app peer email (b # bs) s t \<longleftrightarrow>
     normalize_email (lr_email b) = Inr email \<and>
     (\<exists>m u. login app peer b s = (Inl (Refusal 401 m), u) \<and> wrong_guesses app peer email bs u t)"

abbreviation guess_times :: "server \<Rightarrow> nat \<Rightarrow> int list" where
  "guess_times s n \<equiv> map (\<lambda>i. sv_instants s (sv_instant_tick s + 2 * i + 1)) [0..<n]"

lemma guess_times_Suc:
  assumes "sv_instants u = sv_instants s" "sv_instant_tick u = Suc (Suc (sv_instant_tick s))"
  shows "guess_times s (Suc n) = sv_instants s (Suc (sv_instant_tick s)) # guess_times u n"
  using assms by (simp add: upt_conv_Cons map_Suc_upt [symmetric] del: upt_Suc)

lemma wrong_guesses_run:
  assumes "wrong_guesses app peer email bs s t"
  shows "sv_guard t = fail_run (sv_guard s) (lockout_key (client_ip peer) email) (guess_times s (length bs)) \<and>
    (\<forall>i < length bs. fst (record_failure_at
       (fail_run (sv_guard s) (lockout_key (client_ip peer) email) (take i (guess_times s (length bs))))
       (lockout_key (client_ip peer) email) (guess_times s (length bs) ! i)) = Inr ()) \<and>
    sv_instants t = sv_instants s \<and> sv_instant_tick t = sv_instant_tick s + 2 * length bs \<and>
    (bs \<noteq> [] \<longrightarrow> ap_email_login app)"
  using assms
proof (induction bs arbitrary: s)
  case (Cons b bs)
  then obtain m u where first: "normalize_email (lr_email b) = Inr email"
    "login app peer b s = (Inl (Refusal 401 m), u)" and rest: "wrong_guesses app peer email bs u t" by auto
  from login_refused_401 [OF first(2)] first(1)
  have u: "record_failure_at (sv_guard s) (lockout_key (client_ip peer) email)
       (sv_instants s (Suc (sv_instant_tick s))) = (Inr (), sv_guard u)" "sv_instants u = sv_instants s"
    "sv_instant_tick u = Suc (Suc (sv_instant_tick s))" "ap_email_login app" by auto
  from u(1) Cons.IH [OF rest] show ?case
    unfolding length_Cons guess_times_Suc [OF u(2,3)] using u(2-4)
    by (auto simp: nth_Cons take_Cons less_Suc_eq_0_disj split: nat.splits)
qed simp

lemma wrong_guesses_append:
  "wrong_guesses app peer email (xs @ ys) s t \<longleftrightarrow>
     (\<exists>u. wrong_guesses app peer email xs s u \<and> wrong_guesses app peer email ys u t)"
  by (induction xs arbitrary: s) auto


lemma auth_error_no_retry [simp]: "auth_error app e \<noteq> RetryAfter n"
  by (cases e) (simp_all add: auth_error_def hide_internal_def)

lemma judge_login_no_retry: "judge_login app key u password s \<noteq> (Inl (RetryAfter n), t)"
proof
  assume "judge_login app key u password s = (Inl (RetryAfter n), t)"
  then show False
    by (cases u) (auto simp: judge_login_def refuse_login_def finish_login_def op_bind_Inl answer_Inl note_success_def
        auth_error_no_retry [symmetric] split: if_splits prod.splits)
qed

lemma login_locked_iff:
  "(\<exists>t. login app peer body s = (Inl (RetryAfter n), t)) \<longleftrightarrow>
     ap_email_login app \<and> (\<exists>email. normalize_email (lr_email body) = Inr email \<and>
       check_lock_at (sv_guard s) (lockout_key (client_ip peer) email) (sv_instants s (sv_instant_tick s)) = Locked n)"
  by (cases "normalize_email (lr_email body)")
    (auto simp: login_def op_bind_Inl answer_Inl require_email_login_def Let_def not_locked_run judge_login_no_retry
      auth_error_no_retry [symmetric] split: lockout_decision.splits)

lemma secs_until_bounds:
  assumes "now < until"
  shows "0 < secs_until now until \<and> secs (int (secs_until now until) - 1) < until - now \<and>
     until - now \<le> secs (int (secs_until now until))"
proof -
  obtain r where r: "until - now = int r" "0 < r" using assms by (metis pos_int_cases diff_gt_0_iff_gt)
  then have "elapsed_since until now = r" by (simp add: elapsed_since_def)
  moreover define q m where "q = r div 1000000000" and "m = r mod 1000000000"
  ultimately have "secs_until now until = max (if 0 < m then q + 1 else q) 1" by (simp add: secs_until_def Let_def)
  moreover have "r = 1000000000 * q + m" "m < 1000000000" by (simp_all add: q_def m_def)
  ultimately show ?thesis using r by (cases "0 < m"; cases q) (auto simp: max_def)
qed

lemma check_lock_run:
  "check_lock_at g key now = Locked n \<longleftrightarrow>
     (\<exists>until. n = secs_until now until \<and> now < until \<and> (\<forall>later. check_lock_at g key later =
        (if later < until then Locked (secs_until later until) else Allowed)))"
  by (auto simp: check_lock_at_def Let_def split: option.splits if_splits)

text \<open>C25. \<open>Retry-After\<close> tells the truth: as long as no attempt is recorded in between, a login that is answered with 429
  and \<open>wait\<close> seconds is not answered so again once they have passed, and it is until the second before.\<close>

theorem retry_after_honest:
  assumes "login app peer body s = (Inl (RetryAfter wait), t)" "sv_guard s' = sv_guard s"
    and "now = sv_instants s (sv_instant_tick s)" "later = sv_instants s' (sv_instant_tick s')"
  shows "(now + secs (int wait) \<le> later \<longrightarrow> (\<forall>w t'. login app peer body s' \<noteq> (Inl (RetryAfter w), t'))) \<and>
     (now \<le> later \<and> later < now + secs (int wait - 1) \<longrightarrow> (\<exists>w t'. login app peer body s' = (Inl (RetryAfter w), t')))"
proof -
  obtain email where on: "ap_email_login app" "normalize_email (lr_email body) = Inr email"
    and locked: "check_lock_at (sv_guard s) (lockout_key (client_ip peer) email) now = Locked wait"
    using login_locked_iff [of app peer body s wait] assms(1,3) by blast
  then obtain until where until: "wait = secs_until now until" "now < until"
    "\<And>x. check_lock_at (sv_guard s) (lockout_key (client_ip peer) email) x =
       (if x < until then Locked (secs_until x until) else Allowed)"
    using check_lock_run by blast
  have "until \<le> now + secs (int wait)" "now + secs (int wait - 1) \<le> until"
    using secs_until_bounds [OF until(2)] until(1) by (auto simp: of_nat_diff)
  moreover have "(\<exists>t'. login app peer body s' = (Inl (RetryAfter w), t')) \<longleftrightarrow> later < until \<and> w = secs_until later until" for w
    using login_locked_iff [of app peer body s' w] on until(3) assms(2,4) by auto
  ultimately show ?thesis by force
qed

section \<open>Setup\<close>

lemma count_owners_run:
  assumes "count_owners d = (Inr n, e)"
  shows "n = int (length (owners d)) \<and> quiet_db e = quiet_db d"
proof -
  obtain fs where "e = d\<lparr>faults := fs\<rparr>" "n = int (length (owners e))"
    using read_run [OF assms [unfolded count_owners_def]] by blast
  then show ?thesis by (simp add: owners_def)
qed

lemma create_owner_run:
  assumes "create_owner app email name hash s = (Inr u, t)"
  shows "owners (sv_db t) = [u] \<and> usr_email u = email \<and> usr_status u = Active"
proof -
  obtain d where run: "create_initial_owner (ap_env app) (ap_assign_default_teams app) (hub_clock (sv_hub s) (hub_tick (sv_hub s)))
       \<lparr>nu_email = email, nu_display_name = name, nu_password_hash = hash, nu_instance_role = Owner,
        nu_auth_provider = Local, nu_status = Active\<rparr> (sv_db s) = (Inr u, d)" and t: "sv_db t = d"
    using assms by (auto simp: create_owner_def initialized_conflict_def timed_run split: prod.splits sum.splits error.splits)
  obtain uid f now n where "account_write (ap_env app) ''create user with default teams''
        (create_account_body (ap_assign_default_teams app) uid now n True) f = (Inr (), d)" "u = user_row uid now n"
      "n = \<lparr>nu_email = email, nu_display_name = name, nu_password_hash = hash, nu_instance_role = Owner,
        nu_auth_provider = Local, nu_status = Active\<rparr>"
    using run by (auto simp: create_initial_owner_def create_account_def Let_def split: prod.splits sum.splits)
  moreover from this obtain f0 where "create_account_body (ap_assign_default_teams app) uid now n True f0 = (Inr (), d)"
    by (auto elim: account_write_ok)
  ultimately show ?thesis
    by (auto simp: t create_account_body_def owners_def user_row_def split: if_splits)
qed

lemma set_org_quiet:
  assumes "timed_hub (\<lambda>now. set_org_name_to now name) s = (Inr x, t)"
  shows "quiet_db (sv_db t) = quiet_db (sv_db s)"
  using assms
  by (auto simp: timed_hub_def op_bind_def clock_now_def on_hub_def set_org_name_to_def get_settings_def statement_def
      Let_def split: list.splits option.splits prod.splits sum.splits)

lemma needs_setup: "needs c (owners (sv_db c) = []) (setup_op app body)"
proof -
  have "learns c (\<lambda>n. n = int (length (owners (sv_db c)))) (on_tables count_owners)"
    unfolding count_owners_def by (rule learns_read) (simp add: owners_def)
  note step = this [THEN needs_bind]
  show ?thesis unfolding setup_op_def
    by (intro needs_if needs_err step) (rule needs_true, simp)
qed

text \<open>C18. The first-run setup happens once: it succeeds only while there is no owner and \<open>ADMIN_USERS\<close> is empty; afterwards the new
  account is the only owner, even if another connection ran the setup at the same time, and every later setup is refused
  without effect.\<close>

theorem setup_once:
  assumes "setup_handler app body s = (Inr (n, cookie, v), t)"
  shows "owners (sv_db s) = [] \<and> ap_admin_users app = [] \<and>
     (\<exists>u. owners (sv_db t) = [u] \<and> normalize_email (sr_email body) = Inr (usr_email u) \<and> usr_status u = Active \<and>
        v = user_view_of u) \<and>
     (\<forall>body' r t'. setup_handler app body' t = (r, t') \<longrightarrow> content t' = content t \<and> (\<exists>e. r = Inl e))"
proof -
  have run: "setup_op app body s = (Inr (n, cookie, v), t)" using assms by (simp add: setup_handler_def)
  have none: "owners (sv_db s) = []"
    using needsD [OF needs_setup refl run] by (simp add: owners_def)
  obtain name email hash u s1 s2 where admins: "ap_admin_users app = []"
    and email: "normalize_email (sr_email body) = Inr email"
    and u: "create_owner app email name hash s1 = (Inr u, s2)"
    and rest: "op_bind (if ms_service_source (ap_management app) \<noteq> Env
         then op_bind (timed_hub (\<lambda>now. set_org_name_to now (trim (sr_org_name body)))) (\<lambda>_. op_ok ()) else op_ok ())
       (\<lambda>_. op_bind (open_session app (usr_id u)) (\<lambda>(_, cookie). op_ok (201, Some cookie, user_view_of u))) s2 =
      (Inr (n, cookie, v), t)"
    using run by (auto simp: setup_op_def op_bind_Inr split: if_splits)
  from create_owner_run [OF u] have owner: "owners (sv_db s2) = [u]" "usr_email u = email" "usr_status u = Active" by simp_all
  obtain s3 where s3: "quiet_db (sv_db s3) = quiet_db (sv_db s2)"
    and open_run: "op_bind (open_session app (usr_id u)) (\<lambda>(_, cookie). op_ok (201, Some cookie, user_view_of u)) s3 =
      (Inr (n, cookie, v), t)"
  proof (cases "ms_service_source (ap_management app) \<noteq> Env")
    case True
    with rest obtain y s3 where a: "timed_hub (\<lambda>now. set_org_name_to now (trim (sr_org_name body))) s2 = (Inr y, s3)"
      and b: "op_bind (open_session app (usr_id u)) (\<lambda>(_, cookie). op_ok (201, Some cookie, user_view_of u)) s3 =
        (Inr (n, cookie, v), t)" by (simp add: op_bind_Inr) blast
    show ?thesis by (rule that [OF set_org_quiet [OF a] b])
  next
    case False
    with rest show ?thesis by (intro that [of s2]) (simp_all add: op_bind_Inr)
  qed
  obtain x ck now where "start_session (ap_auth app) now (usr_id u) (sv_db s3) = (Inr (x, ck), sv_db t)"
    and v: "v = user_view_of u"
    using open_run by (auto simp: op_bind_Inr open_session_def timed_run)
  then have "quiet_db (sv_db t) = quiet_db ((sv_db s3)\<lparr>db_sessions := db_sessions (sv_db s3) @ [x]\<rparr>)"
    using start_session_run by blast
  from arg_cong [OF this, of db_users] arg_cong [OF s3, of db_users]
  have users: "db_users (sv_db t) = db_users (sv_db s2)" by simp
  then have later: "owners (sv_db t) = [u]" using owner(1) by (simp add: owners_def)
  have "content t' = content t \<and> (\<exists>e. r = Inl e)" if "setup_handler app body' t = (r, t')" for body' r t'
  proof -
    have "owners (sv_db (content t)) \<noteq> []" using later by (simp add: owners_def)
    then show ?thesis
      using needsD [OF needs_answer [OF needs_setup] refl that [unfolded setup_handler_def]] by blast
  qed
  then show ?thesis using none admins email owner later v by auto
qed

section \<open>At the example instance\<close>

definition guarded_server :: server where
  "guarded_server = example_server\<lparr>
     sv_hub := (sv_hub example_server)\<lparr>hub_db := logged_in\<lparr>db_users := [example_user\<lparr>usr_password_hash := ''secret12''\<rparr>]\<rparr>\<rparr>,
     sv_guard := new_guard \<lparr>lc_enabled = True, lc_max_attempts = 2, lc_window = 900000000000,
        lc_base_lockout = 60000000000, lc_max_lockout = 3600000000000\<rparr>\<rparr>"

lemma new_guard_simps [simp]: "lg_config (new_guard c) = c" "lg_entries (new_guard c) = []"
  by (simp_all add: new_guard_def)

lemma example_email: "normalize_email ''a@b'' = Inr ''a@b''"
  by code_simp

lemma guarded_simps [simp]:
  "sv_db guarded_server = logged_in\<lparr>db_users := [example_user\<lparr>usr_password_hash := ''secret12''\<rparr>]\<rparr>"
  "sv_instants guarded_server = int" "sv_instant_tick guarded_server = 0"
  "sv_guard guarded_server = new_guard \<lparr>lc_enabled = True, lc_max_attempts = 2, lc_window = 900000000000,
        lc_base_lockout = 60000000000, lc_max_lockout = 3600000000000\<rparr>"
  by (simp_all add: guarded_server_def example_server_def)

lemma logged_in_simps [simp]:
  "rng_short logged_in = nat_to_dec" "rng_pos logged_in = 1" "db_sessions logged_in = [example_session]"
  "ses_id example_session = ''0''" "usr_email example_user = ''a@b''" "usr_status example_user = Active"
  by (simp_all add: logged_in_def example_world_def example_db_def example_session_def example_user_def user_row_def)

lemma example_app_simps [simp]:
  "ap_email_login example_app" "ac_admin_users example_auth = []" "\<not> ac_oidc example_auth"
  "ap_phc example_app = (\<lambda>h. Some (\<lambda>p. Some (p = h)))" "ap_admin_enabled example_app"
  "ap_management example_app = default_management" "ap_env example_app = (\<lambda>_ d. d)"
  "ap_hash example_app = (\<lambda>salt p. Some p)" "\<not> ap_assign_default_teams example_app"
  by (simp_all add: example_app_def example_auth_def)

lemma example_ids: "nat_to_dec 1 \<noteq> ''0''"
  by code_simp

lemma no_admins [simp]: "admin_users_apply [] u = u"
  by (simp add: admin_users_apply_def effective_instance_role_def admin_users_contains_def)

lemma set_db_same [simp]: "set_db (sv_db s) s = s" "sv_db s = d \<Longrightarrow> set_db d (s\<lparr>sv_instant_tick := n\<rparr>) = s\<lparr>sv_instant_tick := n\<rparr>"
  by (auto simp: set_db_def)

lemma login_calm:
  assumes "faults (sv_db s) = []" "ap_email_login app" "normalize_email (lr_email body) = Inr email"
    and "check_lock_at (sv_guard s) (lockout_key (client_ip peer) email) (sv_instants s (sv_instant_tick s)) = Allowed"
  shows "login app peer body s =
     judge_login app (lockout_key (client_ip peer) email)
       (map_option (admin_users_apply (ap_admin_users app)) (List.find (\<lambda>u. usr_email u = email) (db_users (sv_db s))))
       (lr_password body) (s\<lparr>sv_instant_tick := Suc (sv_instant_tick s)\<rparr>)"
  using assms
  by (simp add: login_def op_bind_def answer_def require_email_login_def Let_def not_locked_def instant_now_def
      on_tables_def find_user_by_email_def select_user_def select_calm)

lemma start_session_calm:
  assumes "faults d = []" "rng_short d (rng_pos d) \<notin> set (map ses_id (db_sessions d))" "uid \<in> set (user_ids d)"
    and "0 \<le> now" "now \<le> secs 253402300799"
  shows "\<exists>x ck e. start_session cfg now uid d = (Inr (x, ck), e)"
proof -
  have "dt_add_seconds now (SESSION_TTL_DAYS * 86400) = Inr (now + secs (SESSION_TTL_DAYS * 86400))"
    using assms(4,5) by (intro dt_add_seconds_ok) (simp_all add: SESSION_TTL_DAYS_def)
  then show ?thesis
    using assms by (auto simp: start_session_def create_session_def transaction_def Let_def)
qed

lemma finish_login_calm:
  assumes "faults (sv_db s) = []" "rng_short (sv_db s) (rng_pos (sv_db s)) \<notin> set (map ses_id (db_sessions (sv_db s)))"
    and "usr_id u \<in> set (user_ids (sv_db s))" "0 \<le> hub_clock (sv_hub s) (hub_tick (sv_hub s))"
    and "hub_clock (sv_hub s) (hub_tick (sv_hub s)) \<le> secs 253402300799"
  shows "\<exists>cookie t. finish_login app key u s = (Inr (200, cookie, user_view_of u), t)"
proof -
  let ?s = "s\<lparr>sv_guard := record_success (sv_guard s) key\<rparr>"
  obtain x ck e where "start_session (ap_auth app) (hub_clock (sv_hub s) (hub_tick (sv_hub s))) (usr_id u) (sv_db s) = (Inr (x, ck), e)"
    using start_session_calm [OF assms] by blast
  then have "open_session app (usr_id u) ?s =
      (Inr (x, ck), set_db e (?s\<lparr>sv_hub := (sv_hub ?s)\<lparr>hub_tick := Suc (hub_tick (sv_hub ?s))\<rparr>\<rparr>))"
    unfolding open_session_def timed_run by auto
  then show ?thesis by (simp add: finish_login_def op_bind_def note_success_def answer_def)
qed

lemma login_example:
  assumes "faults (sv_db s) = []" "db_users (sv_db s) = [example_user\<lparr>usr_password_hash := ''secret12''\<rparr>]"
    and "check_lock_at (sv_guard s) ''unknown|a@b'' (sv_instants s (sv_instant_tick s)) = Allowed"
  shows "login example_app None \<lparr>lr_email = ''a@b'', lr_password = p\<rparr> s =
     judge_login example_app ''unknown|a@b'' (Some (example_user\<lparr>usr_password_hash := ''secret12''\<rparr>)) p
       (s\<lparr>sv_instant_tick := Suc (sv_instant_tick s)\<rparr>)"
  using login_calm [of s example_app "\<lparr>lr_email = ''a@b'', lr_password = p\<rparr>" "''a@b''" None] assms
  by (simp add: example_email client_ip_def lockout_key_def)

lemma wrong_password_example:
  assumes "faults (sv_db s) = []" "db_users (sv_db s) = [example_user\<lparr>usr_password_hash := ''secret12''\<rparr>]"
    and "check_lock_at (sv_guard s) ''unknown|a@b'' (sv_instants s (sv_instant_tick s)) = Allowed"
    and "record_failure_at (sv_guard s) ''unknown|a@b'' (sv_instants s (Suc (sv_instant_tick s))) = (Inr (), g)"
    and "p \<noteq> ''secret12''"
  shows "\<exists>m. login example_app None \<lparr>lr_email = ''a@b'', lr_password = p\<rparr> s =
     (Inl (Refusal 401 m), s\<lparr>sv_instant_tick := Suc (Suc (sv_instant_tick s)), sv_guard := g\<rparr>)"
  using assms
  by (simp add: login_example judge_login_def verified_login_def verify_password_def op_bind_def answer_def refuse_login_def
      note_failure_def instant_now_def auth_error_def hide_internal_def error_status_def)

theorem login_needs_password_witness:
  "\<exists>v t. login example_app None \<lparr>lr_email = ''a@b'', lr_password = ''secret12''\<rparr> guarded_server = (Inr v, t) \<and>
     sv_guard t = record_success (sv_guard guarded_server) ''unknown|a@b''"
proof -
  let ?body = "\<lparr>lr_email = ''a@b'', lr_password = ''secret12''\<rparr>"
  obtain n cookie v t where run: "login example_app None ?body guarded_server = (Inr (n, cookie, v), t)"
  proof -
    let ?s = "guarded_server\<lparr>sv_instant_tick := Suc 0\<rparr>"
    have "hub_clock (sv_hub guarded_server) = int" "hub_tick (sv_hub guarded_server) = 5"
      by (simp_all add: guarded_server_def)
    then obtain cookie t where "finish_login example_app ''unknown|a@b'' (example_user\<lparr>usr_password_hash := ''secret12''\<rparr>) ?s =
        (Inr (200, cookie, user_view_of (example_user\<lparr>usr_password_hash := ''secret12''\<rparr>)), t)"
      using finish_login_calm [of ?s] example_ids by fastforce
    then show ?thesis
      by (intro that) (simp add: login_example check_lock_at_def new_guard_def judge_login_def verified_login_def
          verify_password_def may_sign_in_def is_pending_def op_bind_def answer_def)
  qed
  from login_needs_password [OF run] run show ?thesis
    by (auto simp: example_email client_ip_def lockout_key_def)
qed


text \<open>A locked key, one minute before it is free and one minute after.\<close>

theorem retry_after_honest_witness:
  "\<forall>w t. login example_app None \<lparr>lr_email = ''a@b'', lr_password = ''y''\<rparr>
     (guarded_server\<lparr>sv_instants := (\<lambda>_. 60000000000), sv_guard := (sv_guard guarded_server)\<lparr>lg_entries :=
        [(''unknown|a@b'', \<lparr>le_failures = 0, le_window_start = 0, le_locked_until = Some 60000000000, le_level = 1\<rparr>)]\<rparr>\<rparr>) \<noteq>
     (Inl (RetryAfter w), t)"
proof -
  let ?e = "[(''unknown|a@b'', \<lparr>le_failures = 0, le_window_start = 0, le_locked_until = Some 60000000000, le_level = 1\<rparr>)]"
  let ?at = "\<lambda>now. guarded_server\<lparr>sv_instants := (\<lambda>_. now), sv_guard := (sv_guard guarded_server)\<lparr>lg_entries := ?e\<rparr>\<rparr>"
  let ?body = "\<lparr>lr_email = ''a@b'', lr_password = ''y''\<rparr>"
  have "check_lock_at (sv_guard (?at 0)) ''unknown|a@b'' 0 = Locked 60"
    by (simp add: check_lock_at_def new_guard_def secs_until_def elapsed_since_def)
  then obtain t where "login example_app None ?body (?at 0) = (Inl (RetryAfter 60), t)"
    using login_locked_iff [of example_app None ?body "?at 0" 60] by (auto simp: example_email client_ip_def lockout_key_def)
  from retry_after_honest [OF this, of "?at 60000000000" 0 60000000000] show ?thesis by simp
qed

definition fresh_server :: server where
  "fresh_server = example_server\<lparr>sv_hub := (sv_hub example_server)\<lparr>hub_db := logged_in\<lparr>db_users := [], db_members := [],
     db_sessions := []\<rparr>\<rparr>\<rparr>"

theorem setup_once_witness:
  "\<exists>u t. owners (sv_db t) = [u] \<and> usr_email u = ''a@b''"
proof -
  let ?body = "\<lparr>sr_email = ''a@b'', sr_password = ''secret12'', sr_display_name = ''Ann'', sr_org_name = ''org''\<rparr>"
  have texts: "normalize_display_name ''Ann'' = Inr ''Ann''" "trim ''org'' = ''org''" by code_simp+
  let ?d = "sv_db fresh_server" and ?now = "hub_clock (sv_hub fresh_server)"
  have fresh: "faults ?d = []" "db_users ?d = []" "db_sessions ?d = []" "?now = int" "hub_tick (sv_hub fresh_server) = 5"
    by (simp_all add: fresh_server_def)
  have none: "on_tables count_owners fresh_server = (Inr 0, fresh_server)"
    using fresh by (simp add: on_tables_def count_owners_def select_calm owners_def)
  obtain s1 where hash: "hash_password example_app ''secret12'' fresh_server = (Inr ''secret12'', s1)"
    and s1: "faults (sv_db s1) = []" "db_users (sv_db s1) = []" "db_sessions (sv_db s1) = []" "hub_clock (sv_hub s1) = int"
      "hub_tick (sv_hub s1) = 5"
    using fresh by (simp add: hash_password_def op_bind_def new_token_def Let_def set_db_def)
  obtain u s2 where owner: "create_owner example_app ''a@b'' ''Ann'' ''secret12'' s1 = (Inr u, s2)"
    and s2: "faults (sv_db s2) = []" "db_users (sv_db s2) = [u]" "db_sessions (sv_db s2) = []"
      "hub_clock (sv_hub s2) = int" "hub_tick (sv_hub s2) = 6"
    using fresh s1
    by (simp add: create_owner_def initialized_conflict_def timed_def op_bind_def clock_now_def on_tables_def
        create_initial_owner_def create_account_def Let_def retry_write_def retry_from_Ok transaction_def
        create_account_body_def owners_def set_db_def)
  obtain x s3 where org: "timed_hub (\<lambda>now. set_org_name_to now ''org'') s2 = (Inr x, s3)"
    and s3: "faults (sv_db s3) = []" "db_users (sv_db s3) = [u]" "db_sessions (sv_db s3) = []"
      "hub_clock (sv_hub s3) = int" "hub_tick (sv_hub s3) = 7"
    using fresh s2
    by (simp add: timed_hub_def op_bind_def clock_now_def on_hub_def set_org_name_to_def get_settings_def statement_def Let_def)
  obtain y ck e where "start_session example_auth 7 (usr_id u) (sv_db s3) = (Inr (y, ck), e)"
    using start_session_calm [of "sv_db s3" "usr_id u" 7 example_auth] s3 by auto
  then obtain s4 where sess: "open_session example_app (usr_id u) s3 = (Inr (y, ck), s4)"
    using s3 by (simp add: open_session_def timed_run)
  obtain n cookie v t where "setup_handler example_app ?body fresh_server = (Inr (n, cookie, v), t)"
    using none hash owner org sess texts example_email
    by (simp add: setup_handler_def setup_op_def op_bind_def answer_def validate_password_def default_management_def)
  from setup_once [OF this] show ?thesis by (auto simp: example_email)
qed

end
