(* ===== verification/Dashboard.thy ===== *)
theory Dashboard
  imports Requests "HOL-Library.Multiset"
begin

text \<open>
  What the list views show: the overviews of the dashboard against the tables, the validation of tag
  rules, and the mute request that no user needs a permission for.
\<close>

section \<open>The overviews\<close>

definition open_issues :: "db \<Rightarrow> uuid \<Rightarrow> issue list" where
  "open_issues d pid = filter (\<lambda>i. iss_status i = Unresolved \<and> iss_project_id i = pid) (db_issues d)"

definition overview_spec :: "app \<Rightarrow> server \<Rightarrow> user \<Rightarrow> project \<Rightarrow> project_overview_view" where
  "overview_spec app s u p =
     \<lparr>po_project = project_view_of (ap_base_url app) p,
      po_unresolved_count = int (length (open_issues (sv_db s) (prj_id p))),
      po_favorited = ((usr_id u, prj_id p) \<in> set (sv_favorites s)),
      po_last_issue_at =
        (if open_issues (sv_db s) (prj_id p) = [] then None
         else Some (ex_rfc3339 (ap_externals app) (Max (set (map iss_last_seen (open_issues (sv_db s) (prj_id p)))))))\<rparr>"

lemma map_of_grouped:
  "map_of (map (\<lambda>p. (p, f p)) (remdups (map key rows))) p = (if \<exists>r \<in> set rows. key r = p then Some (f p) else None)"
  by (auto simp: map_of_map_restrict restrict_map_def image_iff)

lemma learns_visible:
  "learns c (\<lambda>ps. mset ps = mset (filter (\<lambda>p. sees_team (sv_db c) u (prj_team_id p)) (db_projects (sv_db c))))
     (visible_projects u)"
proof -
  have seen: "list_ex (\<lambda>m. mb_team_id m = tid \<and> mb_user_id m = usr_id u) (db_members d) \<longleftrightarrow> sees_team d u tid"
    if "\<not> manages u" for d tid
    using that by (auto simp: sees_team_def has_team_role_def list_ex_iff)
  have quiet: "sees_team (quiet_db d) u = sees_team d u" for d by (auto simp: sees_team_def has_team_role_def fun_eq_iff)
  show ?thesis
    unfolding visible_projects_def list_projects_def list_projects_for_user_def can_manage
    by (intro learns_if learns_read) (simp_all add: seen quiet, simp add: sees_team_def)
qed

lemma learns_counts:
  "learns c (\<lambda>counts. \<forall>pid \<in> set ids. (case map_of counts pid of Some n \<Rightarrow> n | None \<Rightarrow> 0) = int (length (open_issues (sv_db c) pid)))
     (on_tables (unresolved_counts ids))"
proof (cases "ids = []")
  case True
  then show ?thesis by (auto simp: unresolved_counts_def learns_def on_tables_def set_db_def)
next
  case False
  have rows: "filter (\<lambda>i. iss_project_id i = p) (filter (\<lambda>i. iss_status i = Unresolved \<and> iss_project_id i \<in> set ids) (db_issues d)) =
      open_issues d p" if "p \<in> set ids" for p d
    using that by (auto simp: open_issues_def intro!: filter_cong)
  have quiet: "open_issues (quiet_db d) = open_issues d" for d by (simp add: open_issues_def fun_eq_iff)
  have eta: "unresolved_counts ids = transaction (\<lambda>s.
        (let rows = filter (\<lambda>i. iss_status i = Unresolved \<and> iss_project_id i \<in> set ids) (db_issues s)
         in (Inr (map (\<lambda>p. (p, int (length (filter (\<lambda>i. iss_project_id i = p) rows))))
                   (remdups (map iss_project_id rows))), s)))"
    using False by (simp add: unresolved_counts_def fun_eq_iff)
  show ?thesis
    unfolding eta Let_def
    by (rule learns_read) (auto simp: map_of_grouped rows quiet open_issues_def filter_empty_conv simp del: filter_filter)
qed

lemma learns_last_seen:
  "learns c (\<lambda>seen. \<forall>pid \<in> set ids. map_of seen pid =
       (if open_issues (sv_db c) pid = [] then None else Some (Max (set (map iss_last_seen (open_issues (sv_db c) pid))))))
     (on_tables (last_seen_per_project ids))"
proof (cases "ids = []")
  case True
  then show ?thesis by (auto simp: last_seen_per_project_def learns_def on_tables_def set_db_def)
next
  case False
  have rows: "filter (\<lambda>i. iss_project_id i = p) (filter (\<lambda>i. iss_status i = Unresolved \<and> iss_project_id i \<in> set ids) (db_issues d)) =
      open_issues d p" if "p \<in> set ids" for p d
    using that by (auto simp: open_issues_def intro!: filter_cong)
  have rows_set: "{x \<in> S. iss_status x = Unresolved \<and> iss_project_id x \<in> set ids \<and> iss_project_id x = p} =
      {x \<in> S. iss_status x = Unresolved \<and> iss_project_id x = p}" if "p \<in> set ids" for p S
    using that by auto
  have quiet: "open_issues (quiet_db d) = open_issues d" for d by (simp add: open_issues_def fun_eq_iff)
  have eta: "last_seen_per_project ids = transaction (\<lambda>s.
        (let rows = filter (\<lambda>i. iss_status i = Unresolved \<and> iss_project_id i \<in> set ids) (db_issues s)
         in (Inr (map (\<lambda>p. (p, Max (set (map iss_last_seen (filter (\<lambda>i. iss_project_id i = p) rows)))))
                   (remdups (map iss_project_id rows))), s)))"
    using False by (simp add: last_seen_per_project_def fun_eq_iff)
  show ?thesis
    unfolding eta Let_def
    by (rule learns_read) (auto simp: map_of_grouped rows rows_set quiet open_issues_def filter_empty_conv simp del: filter_filter)
qed

lemma learns_favorites:
  "learns c (\<lambda>ids. \<forall>pid. pid \<in> set ids \<longleftrightarrow> (uid, pid) \<in> set (sv_favorites c)) (favorites_of uid)"
  unfolding favorites_of_def
proof (rule learnsI)
  fix s r t assume s: "content s = c"
    and run: "op_bind stmt (\<lambda>_ s. (Inr (map snd (filter (\<lambda>f. fst f = uid) (sv_favorites s))), s)) s = (r, t)"
  have favs: "sv_favorites x = sv_favorites c" if "content x = c" for x using that by (auto simp: content_def)
  have idle: "content u = content s" if "stmt s = (q, u)" for q u using idle_stmt that by (rule movesD)
  from run show "content t = c \<and> (\<forall>v. r = Inr v \<longrightarrow> (\<forall>pid. pid \<in> set v \<longleftrightarrow> (uid, pid) \<in> set (sv_favorites c)))"
  proof (cases rule: op_bind_cases)
    case (1 e)
    then show ?thesis using idle s by auto
  next
    case (2 a u)
    then show ?thesis using idle [OF 2(1)] favs [of u] s by (auto simp: image_iff)
  qed
qed

lemma overviews_learn:
  "learns c (\<lambda>vs. sorted (map overview_key vs) \<and>
       mset vs = mset (map (overview_spec app c u) (filter (\<lambda>p. sees_team (sv_db c) u (prj_team_id p)) (db_projects (sv_db c)))))
     (overviews app u)"
  unfolding overviews_def
proof (rule learns_bind [OF learns_visible], rule learns_bind [OF learns_counts], rule learns_bind [OF learns_last_seen],
    rule learns_bind [OF learns_favorites], rule learns_weaken [OF learns_ok])
  fix ps counts seen favs vs
  assume ps: "mset ps = mset (filter (\<lambda>p. sees_team (sv_db c) u (prj_team_id p)) (db_projects (sv_db c)))"
    and counts: "\<forall>pid \<in> set (map prj_id ps). (case map_of counts pid of Some n \<Rightarrow> n | None \<Rightarrow> 0) = int (length (open_issues (sv_db c) pid))"
    and seen: "\<forall>pid \<in> set (map prj_id ps). map_of seen pid =
       (if open_issues (sv_db c) pid = [] then None else Some (Max (set (map iss_last_seen (open_issues (sv_db c) pid)))))"
    and favs: "\<forall>pid. pid \<in> set favs \<longleftrightarrow> (usr_id u, pid) \<in> set (sv_favorites c)"
    and vs: "vs = sort_key overview_key (map (overview_of app counts seen favs) ps)"
  have "map (overview_of app counts seen favs) ps = map (overview_spec app c u) ps"
    using counts seen favs by (intro map_cong) (auto simp: overview_of_def overview_spec_def)
  then show "sorted (map overview_key vs) \<and>
     mset vs = mset (map (overview_spec app c u) (filter (\<lambda>p. sees_team (sv_db c) u (prj_team_id p)) (db_projects (sv_db c))))"
    using vs ps by (metis mset_map mset_sort sorted_sort_key)
qed

text \<open>C26. The dashboard shows each project the user may see, exactly once and no other, with the number of its unresolved issues, the
  latest of their last events and the user's own favourite mark, although counts and dates are fetched in one batched query
  each; favourites come first, then the names in order; and computing it changes nothing.\<close>

theorem overviews_agree:
  assumes "overviews app u s = (Inr vs, t)"
  shows "content t = content s \<and> sorted (map overview_key vs) \<and>
     mset vs = mset (map (overview_spec app s u) (filter (\<lambda>p. sees_team (sv_db s) u (prj_team_id p)) (db_projects (sv_db s))))"
proof -
  have "sees_team (sv_db (content s)) u = sees_team (sv_db s) u" by (simp add: fun_eq_iff sees_team_def has_team_role_def)
  moreover have "overview_spec app (content s) u = overview_spec app s u"
    by (simp add: fun_eq_iff overview_spec_def open_issues_def) (simp add: content_def)
  ultimately show ?thesis using learnsD [OF overviews_learn refl assms] by simp
qed

section \<open>A mute request no permission is needed for\<close>

text \<open>C27. Any signed-in user can bring a request down: a mute of more than \<open>i64::MAX / 1000\<close> seconds panics before the
  issue is looked up and before the permission of the user is checked, whatever the issue, whoever the user.\<close>

theorem mute_request_panics:
  assumes "i64_max div 1000 < seconds"
  shows "\<exists>m t. handle app tls u (OnIssues (MuteIssue raw (Some
      \<lparr>mq_duration_seconds = Some seconds, mq_events = None, mq_window_seconds = None\<rparr>))) s = (Inl (Crash m), t) \<and>
    content t = content s"
proof -
  have "dt_add_seconds now seconds = Inl (Panic ''TimeDelta::seconds out of bounds'')" for now
    using assms by (simp add: dt_add_seconds_def delta_seconds_def)
  then show ?thesis
    using assms by (simp add: status_def mute_issue_def op_bind_def clock_now_def to_spec_def content_def)
qed

section \<open>Tags of a mute rule\<close>

lemma clean_tags_Inr:
  "clean_tags seen tags = Inr cleaned \<longleftrightarrow>
     (\<forall>t \<in> set tags. trim (tag_key t) \<noteq> [] \<and> trim (tag_value t) \<noteq> []) \<and>
     distinct (map (\<lambda>t. trim (tag_key t)) tags) \<and> (\<forall>t \<in> set tags. trim (tag_key t) \<notin> set seen) \<and>
     cleaned = map (\<lambda>t. \<lparr>tag_key = trim (tag_key t), tag_value = trim (tag_value t)\<rparr>) tags"
proof (induction tags arbitrary: seen cleaned)
  case (Cons tag tags)
  let ?clean = "map (\<lambda>t. \<lparr>tag_key = trim (tag_key t), tag_value = trim (tag_value t)\<rparr>)"
  show ?case
  proof (cases "clean_tags (trim (tag_key tag) # seen) tags")
    case (Inl f)
    then have "\<not> ((\<forall>t \<in> set tags. trim (tag_key t) \<noteq> [] \<and> trim (tag_value t) \<noteq> []) \<and>
        distinct (map (\<lambda>t. trim (tag_key t)) tags) \<and> (\<forall>t \<in> set tags. trim (tag_key t) \<notin> set (trim (tag_key tag) # seen)))"
      using Cons.IH [of "trim (tag_key tag) # seen" "?clean tags"] by auto
    then show ?thesis using Inl by (auto simp: Let_def image_iff) metis
  next
    case (Inr rest)
    then show ?thesis using Cons.IH [of "trim (tag_key tag) # seen" rest] by (auto simp: Let_def)
  qed
qed auto

text \<open>The tags a mute rule is created with: accepted exactly when there is at least one, every key and value has
  something besides white space, and the trimmed keys are distinct; and they are stored trimmed, in order.\<close>

theorem tags_validated:
  "validate_tags tags = Inr cleaned \<longleftrightarrow>
     tags \<noteq> [] \<and> (\<forall>t \<in> set tags. trim (tag_key t) \<noteq> [] \<and> trim (tag_value t) \<noteq> []) \<and>
     distinct (map (\<lambda>t. trim (tag_key t)) tags) \<and>
     cleaned = map (\<lambda>t. \<lparr>tag_key = trim (tag_key t), tag_value = trim (tag_value t)\<rparr>) tags"
  by (simp add: validate_tags_def clean_tags_Inr)

section \<open>At the example instance\<close>

theorem overviews_agree_witness:
  "\<exists>vs t. overviews example_app example_user example_server = (Inr vs, t) \<and> length vs = 1"
proof -
  have "manages example_user" by (simp add: manages_def)
  moreover obtain vs t where run: "overviews example_app example_user example_server = (Inr vs, t)"
    by (simp add: overviews_def visible_projects_def op_bind_def on_tables_def list_projects_def transaction_def set_db_def
        unresolved_counts_def last_seen_per_project_def favorites_of_def stmt_def Let_def can_manage_instance_def)
  moreover have "length vs = 1"
    using overviews_agree [OF run, THEN conjunct2, THEN conjunct2, THEN arg_cong [where f = size]] \<open>manages example_user\<close>
    by (simp add: sees_team_def)
  ultimately show ?thesis by blast
qed

theorem mute_request_panics_witness:
  "\<exists>m t. handle example_app True example_user (OnIssues (MuteIssue ''x'' (Some
      \<lparr>mq_duration_seconds = Some i64_max, mq_events = None, mq_window_seconds = None\<rparr>))) example_server = (Inl (Crash m), t)"
  using mute_request_panics [of i64_max example_app True example_user "''x''" example_server] by auto

end
