(* ===== verification/Config.thy ===== *)
theory Config
  imports Access ConfigFile Lockout
begin

text \<open>
  \<open>src/config.rs\<close>: the configuration as it is read from the environment at start-up, every variable
  with its default, and the checks that refuse a configuration the rest of the program does not expect.

  The environment is a function; \<open>std::env::var\<close> fails for an absent variable and for one that is
  not Unicode. The URL and UUID parsers are arguments.
\<close>

section \<open>Steps that may fail\<close>

definition and_then :: "'e + 'a \<Rightarrow> ('a \<Rightarrow> 'e + 'b) \<Rightarrow> 'e + 'b" where
  "and_then m f = (case m of Inl e \<Rightarrow> Inl e | Inr v \<Rightarrow> f v)"

definition require :: "bool \<Rightarrow> string \<Rightarrow> unit res" where
  "require b message = (if b then Inr () else Inl (Validation message))"

named_theorems loaded

lemma and_then_Inr [loaded]: "and_then m f = Inr y \<longleftrightarrow> (\<exists>x. m = Inr x \<and> f x = Inr y)"
  by (auto simp: and_then_def split: sum.splits)

lemma require_Inr [loaded]: "require b message = Inr y \<longleftrightarrow> b"
  by (simp add: require_def)

lemma and_then_Inr_simp [simp]: "and_then (Inr v) f = f v"
  by (simp add: and_then_def)

section \<open>Numbers\<close>

text \<open>\<open>str::parse\<close> of the integer types: digit by digit, each first checked to be one, then for
  overflow.\<close>

datatype int_error = EmptyInt | InvalidDigit | PosOverflow | NegOverflow

fun int_error_text :: "int_error \<Rightarrow> string" where
  "int_error_text EmptyInt = ''cannot parse integer from empty string''"
| "int_error_text InvalidDigit = ''invalid digit found in string''"
| "int_error_text PosOverflow = ''number too large to fit in target type''"
| "int_error_text NegOverflow = ''number too small to fit in target type''"

fun add_digits :: "bool \<Rightarrow> int \<Rightarrow> int \<Rightarrow> int \<Rightarrow> string \<Rightarrow> int_error + int" where
  "add_digits negative lo hi acc [] = Inr acc"
| "add_digits negative lo hi acc (c # cs) =
     (if \<not> is_ascii_digit c then Inl InvalidDigit
      else let d = int (byte c - 48); n = (if negative then acc * 10 - d else acc * 10 + d) in
           if n < lo \<or> hi < n then Inl (if negative then NegOverflow else PosOverflow)
           else add_digits negative lo hi n cs)"

definition parse_int :: "int \<Rightarrow> int \<Rightarrow> string \<Rightarrow> int_error + int" where
  "parse_int lo hi s =
     (case s of
        [] \<Rightarrow> Inl EmptyInt
      | c # cs \<Rightarrow>
          (if cs = [] \<and> (c = CHR ''+'' \<or> c = CHR ''-'') then Inl InvalidDigit
           else if c = CHR ''+'' then add_digits False lo hi 0 cs
           else if c = CHR ''-'' \<and> lo < 0 then add_digits True lo hi 0 cs
           else add_digits False lo hi 0 s))"

definition parse_for :: "string \<Rightarrow> int \<Rightarrow> int \<Rightarrow> string \<Rightarrow> int res" where
  "parse_for key lo hi s =
     (case parse_int lo hi s of
        Inl e \<Rightarrow> Inl (Validation (key @ '': '' @ int_error_text e)) | Inr n \<Rightarrow> Inr n)"

section \<open>Reading variables\<close>

datatype env_var = Unset | NotUnicode | Value string

type_synonym environ = "string \<Rightarrow> env_var"

definition env_get :: "environ \<Rightarrow> string \<Rightarrow> string option" where
  "env_get env key = (case env key of Value v \<Rightarrow> Some v | _ \<Rightarrow> None)"

definition env_or :: "environ \<Rightarrow> string \<Rightarrow> string \<Rightarrow> string" where
  "env_or env key dflt = (case env_get env key of Some v \<Rightarrow> v | None \<Rightarrow> dflt)"

definition env_opt :: "environ \<Rightarrow> string \<Rightarrow> string option" where
  "env_opt env key =
     (case env_get env key of Some v \<Rightarrow> (if trim v = [] then None else Some v) | None \<Rightarrow> None)"

text \<open>\<open>var(key).ok().map(trim).filter(non-empty)\<close>.\<close>

definition env_trimmed :: "environ \<Rightarrow> string \<Rightarrow> string option" where
  "env_trimmed env key =
     (case env_get env key of Some v \<Rightarrow> (if trim v = [] then None else Some (trim v)) | None \<Rightarrow> None)"

definition env_millis :: "environ \<Rightarrow> string \<Rightarrow> duration \<Rightarrow> duration res" where
  "env_millis env key dflt =
     and_then (parse_for key 0 (int u64_max) (env_or env key (nat_to_dec (dflt div 1000000))))
       (\<lambda>n. Inr (nat n * 1000000))"

definition env_secs :: "environ \<Rightarrow> string \<Rightarrow> nat \<Rightarrow> duration res" where
  "env_secs env key default_secs =
     and_then (parse_for key 0 (int u64_max) (env_or env key (nat_to_dec default_secs)))
       (\<lambda>n. Inr (nat n * 1000000000))"

definition parse_bool :: "string \<Rightarrow> bool" where
  "parse_bool s \<longleftrightarrow> to_ascii_lowercase (trim s) \<in> {''1'', ''true'', ''yes'', ''on''}"

abbreviation env_flag :: "environ \<Rightarrow> string \<Rightarrow> string \<Rightarrow> bool" where
  "env_flag env key dflt \<equiv> parse_bool (env_or env key dflt)"

definition required_env :: "environ \<Rightarrow> string \<Rightarrow> string res" where
  "required_env env key =
     (case env_opt env key of
        Some v \<Rightarrow> Inr v | None \<Rightarrow> Inl (Validation (key @ '' is required when OAUTH_ENABLED'')))"

text \<open>\<open>rsplit_once\<close>: at the last occurrence.\<close>

definition rsplit_once :: "char \<Rightarrow> string \<Rightarrow> (string \<times> string) option" where
  "rsplit_once c s = map_option (\<lambda>(b, a). (rev a, rev b)) (split_once c (rev s))"

definition host_from_url :: "string \<Rightarrow> string option" where
  "host_from_url url =
     (let t = trim url in
      case str_find t ''://'' of
        None \<Rightarrow> None
      | Some i \<Rightarrow>
          (let authority = takeWhile (\<lambda>c. c \<notin> {CHR ''/'', CHR ''?'', CHR 0x23}) (drop (i + 3) t);
               host = (case rsplit_once (CHR ''@'') authority of Some (_, h) \<Rightarrow> h | None \<Rightarrow> authority);
               host = (case strip_prefix host ''['' of
                         Some rest \<Rightarrow> takeWhile (\<lambda>c. c \<noteq> CHR '']'') rest
                       | None \<Rightarrow> takeWhile (\<lambda>c. c \<noteq> CHR '':'') host)
           in if host = [] then None else Some (to_ascii_lowercase host)))"

section \<open>Database\<close>

datatype synchronous = SyncNormal | SyncFull

record db_config =
  dc_max_connections :: nat
  dc_busy_timeout :: duration
  dc_acquire_timeout :: duration
  dc_synchronous :: synchronous
  dc_busy_retry_after :: duration
  dc_write :: write_policy

definition default_db_config :: db_config where
  "default_db_config =
     \<lparr>dc_max_connections = 8, dc_busy_timeout = 5000000000, dc_acquire_timeout = 10000000000,
      dc_synchronous = SyncNormal, dc_busy_retry_after = 2000000000, dc_write = default_write_policy\<rparr>"

definition write_policy_from_env :: "environ \<Rightarrow> write_policy \<Rightarrow> write_policy res" where
  "write_policy_from_env env defaults =
     and_then (parse_for ''DB_WRITE_MAX_RETRIES'' 0 (int u32_max)
        (env_or env ''DB_WRITE_MAX_RETRIES'' (nat_to_dec (max_retries defaults)))) (\<lambda>retries.
     and_then (env_millis env ''DB_WRITE_RETRY_BASE_MS'' (retry_base defaults)) (\<lambda>base.
     and_then (env_millis env ''DB_WRITE_RETRY_MAX_MS'' (retry_max defaults)) (\<lambda>top.
     and_then (require (base \<le> top) ''DB_WRITE_RETRY_MAX_MS must be >= DB_WRITE_RETRY_BASE_MS'') (\<lambda>_.
     and_then (parse_for ''DB_DELETE_BATCH'' i64_min i64_max
        (env_or env ''DB_DELETE_BATCH'' (int_to_dec (delete_batch defaults)))) (\<lambda>batch.
     and_then (require (1 \<le> batch) ''DB_DELETE_BATCH must be at least 1'') (\<lambda>_.
     Inr \<lparr>max_retries = nat retries, retry_base = base, retry_max = top, delete_batch = batch\<rparr>))))))"

definition synchronous_from :: "string \<Rightarrow> synchronous res" where
  "synchronous_from raw =
     (let s = to_ascii_lowercase (trim raw) in
      if s = [] \<or> s = ''normal'' then Inr SyncNormal
      else if s = ''full'' then Inr SyncFull
      else Inl (Validation (''DB_SYNCHRONOUS: unknown value '' @ [CHR 0x27] @ s @
             [CHR 0x27] @ '' (expected '' @ [CHR 0x27] @ ''normal'' @ [CHR 0x27] @ '' or '' @ [CHR 0x27] @ ''full'' @
             [CHR 0x27] @ '')'')))"

definition db_from_env :: "environ \<Rightarrow> db_config res" where
  "db_from_env env =
     (let defaults = default_db_config in
     and_then (parse_for ''DB_MAX_CONNECTIONS'' 0 (int u32_max)
        (env_or env ''DB_MAX_CONNECTIONS'' (nat_to_dec (dc_max_connections defaults)))) (\<lambda>connections.
     and_then (require (connections \<noteq> 0) ''DB_MAX_CONNECTIONS must be at least 1'') (\<lambda>_.
     and_then (env_millis env ''DB_BUSY_TIMEOUT_MS'' (dc_busy_timeout defaults)) (\<lambda>busy.
     and_then (env_millis env ''DB_ACQUIRE_TIMEOUT_MS'' (dc_acquire_timeout defaults)) (\<lambda>acquire.
     and_then (require (acquire \<noteq> 0) ''DB_ACQUIRE_TIMEOUT_MS must be greater than 0'') (\<lambda>_.
     and_then (synchronous_from (env_or env ''DB_SYNCHRONOUS'' ''normal'')) (\<lambda>sync.
     and_then (env_secs env ''DB_BUSY_RETRY_AFTER_SECS'' (dc_busy_retry_after defaults div 1000000000)) (\<lambda>after.
     and_then (write_policy_from_env env (dc_write defaults)) (\<lambda>policy.
     Inr \<lparr>dc_max_connections = nat connections, dc_busy_timeout = busy, dc_acquire_timeout = acquire,
          dc_synchronous = sync, dc_busy_retry_after = after, dc_write = policy\<rparr>)))))))))"

section \<open>Telemetry, lockout, mail\<close>

record sentry_config =
  se_dsn :: string
  se_environment :: "string option"

definition sentry_from_env :: "environ \<Rightarrow> sentry_config option" where
  "sentry_from_env env =
     map_option (\<lambda>dsn. \<lparr>se_dsn = dsn, se_environment = env_opt env ''SENTRY_ENVIRONMENT''\<rparr>) (env_opt env ''SENTRY_DSN'')"

definition lockout_from_env :: "environ \<Rightarrow> lockout_config res" where
  "lockout_from_env env =
     and_then (parse_for ''LOGIN_MAX_ATTEMPTS'' 0 (int u32_max) (env_or env ''LOGIN_MAX_ATTEMPTS'' ''5'')) (\<lambda>attempts.
     and_then (require (attempts \<noteq> 0) ''LOGIN_MAX_ATTEMPTS must be at least 1'') (\<lambda>_.
     and_then (env_secs env ''LOGIN_LOCKOUT_WINDOW_SECS'' 900) (\<lambda>window.
     and_then (env_secs env ''LOGIN_LOCKOUT_BASE_SECS'' 60) (\<lambda>base.
     and_then (env_secs env ''LOGIN_LOCKOUT_MAX_SECS'' 3600) (\<lambda>top.
     and_then (require (base \<le> top) ''LOGIN_LOCKOUT_MAX_SECS must be >= LOGIN_LOCKOUT_BASE_SECS'') (\<lambda>_.
     Inr \<lparr>lc_enabled = env_flag env ''LOGIN_LOCKOUT_ENABLED'' ''true'', lc_max_attempts = word_of_int attempts,
          lc_window = window, lc_base_lockout = base, lc_max_lockout = top\<rparr>))))))"

record smtp_settings =
  sx_host :: string
  sx_port :: nat
  sx_username :: "string option"
  sx_password :: "string option"
  sx_from :: "string option"
  sx_tls :: bool

definition smtp_from_env :: "environ \<Rightarrow> smtp_settings option res" where
  "smtp_from_env env =
     (case env_opt env ''SMTP_HOST'' of
        None \<Rightarrow> Inr None
      | Some host \<Rightarrow>
          and_then (parse_for ''SMTP_PORT'' 0 65535 (env_or env ''SMTP_PORT'' ''587'')) (\<lambda>port.
          Inr (Some \<lparr>sx_host = host, sx_port = nat port, sx_username = env_opt env ''SMTP_USERNAME'',
            sx_password = env_opt env ''SMTP_PASSWORD'', sx_from = env_opt env ''SMTP_FROM'',
            sx_tls = env_flag env ''SMTP_TLS'' ''true''\<rparr>)))"

section \<open>Sign-in providers\<close>

datatype oauth_provider_kind = KindOidc | KindGithub

record oidc_config =
  od_kind :: oauth_provider_kind
  od_issuer_url :: string
  od_client_id :: string
  od_client_secret :: string
  od_redirect_url :: string
  od_scopes :: "string list"
  od_provider_name :: string
  od_allowed_email_domains :: "string list"
  od_require_approval :: bool
  od_groups_claim :: string

definition provider_kind_from :: "string \<Rightarrow> oauth_provider_kind res" where
  "provider_kind_from raw =
     (let s = to_ascii_lowercase (trim raw) in
      if s = [] \<or> s = ''oidc'' then Inr KindOidc
      else if s = ''github'' then Inr KindGithub
      else Inl (Validation (''OAUTH_PROVIDER: unknown value '' @ [CHR 0x27] @ s @
             [CHR 0x27] @ '' (expected '' @ [CHR 0x27] @ ''oidc'' @ [CHR 0x27] @ '' or '' @ [CHR 0x27] @ ''github'' @
             [CHR 0x27] @ '')'')))"

definition some_or_empty :: "string option \<Rightarrow> string" where
  "some_or_empty x = (case x of Some v \<Rightarrow> v | None \<Rightarrow> [])"

definition oidc_from_env :: "environ \<Rightarrow> string \<Rightarrow> oidc_config option res" where
  "oidc_from_env env base_url =
     (if \<not> env_flag env ''OAUTH_ENABLED'' ''false'' then Inr None
      else
        and_then (provider_kind_from (env_or env ''OAUTH_PROVIDER'' ''oidc'')) (\<lambda>kind.
        and_then (required_env env ''OAUTH_CLIENT_ID'') (\<lambda>client_id.
        and_then (required_env env ''OAUTH_CLIENT_SECRET'') (\<lambda>client_secret.
        and_then (case kind of
             KindGithub \<Rightarrow> Inr (env_or env ''OAUTH_ISSUER_URL'' ''https://github.com'')
           | KindOidc \<Rightarrow> required_env env ''OAUTH_ISSUER_URL'') (\<lambda>issuer_url.
        Inr (Some
          \<lparr>od_kind = kind, od_issuer_url = issuer_url, od_client_id = client_id, od_client_secret = client_secret,
           od_redirect_url = (case env_opt env ''OAUTH_REDIRECT_URL'' of
              Some u \<Rightarrow> u | None \<Rightarrow> trim_end_char (CHR ''/'') base_url @ ''/auth/oidc/callback''),
           od_scopes = split_list (env_or env ''OAUTH_SCOPES'' (case kind of
              KindGithub \<Rightarrow> ''read:user user:email'' | KindOidc \<Rightarrow> ''openid email profile'')) (CHR '' ''),
           od_provider_name = env_or env ''OAUTH_PROVIDER_NAME'' ''SSO'',
           od_allowed_email_domains = split_list (some_or_empty (env_opt env ''OAUTH_ALLOWED_EMAIL_DOMAINS'')) (CHR '',''),
           od_require_approval = env_flag env ''OAUTH_REQUIRE_APPROVAL'' ''false'',
           od_groups_claim = env_or env ''OAUTH_GROUPS_CLAIM'' ''groups''\<rparr>))))))"

record passkey_config =
  pf_rp_id :: string
  pf_rp_name :: string
  pf_rp_origin :: string
  pf_extra_origins :: "string list"
  pf_allow_subdomains :: bool
  pf_timeout :: duration
  pf_challenge_ttl :: duration
  pf_max_per_user :: int

definition rp_id_from_env :: "environ \<Rightarrow> string \<Rightarrow> string res" where
  "rp_id_from_env env base_url =
     (case env_opt env ''PASSKEY_RP_ID'' of
        Some v \<Rightarrow> Inr (trim v)
      | None \<Rightarrow>
          (case host_from_url base_url of
             Some h \<Rightarrow> Inr h
           | None \<Rightarrow> Inl (Validation ''PASSKEY_RP_ID could not be derived from BASE_URL; set it explicitly'')))"

definition passkey_from_env :: "environ \<Rightarrow> string \<Rightarrow> string \<Rightarrow> passkey_config option res" where
  "passkey_from_env env base_url organization_name =
     (if \<not> env_flag env ''PASSKEY_ENABLED'' ''false'' then Inr None
      else
        and_then (rp_id_from_env env base_url) (\<lambda>rp_id.
        and_then (require (rp_id \<noteq> []) ''PASSKEY_RP_ID must not be empty'') (\<lambda>_.
        and_then (env_secs env ''PASSKEY_TIMEOUT_SECONDS'' 60) (\<lambda>timeout.
        and_then (require (timeout \<noteq> 0) ''PASSKEY_TIMEOUT_SECONDS must be greater than 0'') (\<lambda>_.
        and_then (env_secs env ''PASSKEY_CHALLENGE_TTL_SECONDS'' 300) (\<lambda>ttl.
        and_then (require (ttl \<noteq> 0) ''PASSKEY_CHALLENGE_TTL_SECONDS must be greater than 0'') (\<lambda>_.
        and_then (parse_for ''PASSKEY_MAX_PER_USER'' i64_min i64_max (env_or env ''PASSKEY_MAX_PER_USER'' ''10'')) (\<lambda>top.
        and_then (require (1 \<le> top) ''PASSKEY_MAX_PER_USER must be at least 1'') (\<lambda>_.
        Inr (Some
          \<lparr>pf_rp_id = rp_id, pf_rp_name = env_or env ''PASSKEY_RP_NAME'' organization_name,
           pf_rp_origin = (case env_opt env ''PASSKEY_RP_ORIGIN'' of
              Some o' \<Rightarrow> o' | None \<Rightarrow> trim_end_char (CHR ''/'') base_url),
           pf_extra_origins = split_list (some_or_empty (env_opt env ''PASSKEY_EXTRA_ORIGINS'')) (CHR '',''),
           pf_allow_subdomains = env_flag env ''PASSKEY_ALLOW_SUBDOMAINS'' ''false'',
           pf_timeout = timeout, pf_challenge_ttl = ttl, pf_max_per_user = top\<rparr>))))))))))"

section \<open>Management sources\<close>

record env_lib =
  el_url_scheme :: "string \<Rightarrow> string + string"
  el_base_url :: "string \<Rightarrow> base_url option"
  el_uuid :: "string \<Rightarrow> uuid option"

definition source_from :: "environ \<Rightarrow> string \<Rightarrow> management_source res" where
  "source_from env key =
     (let v = env_or env key ''ui'' in
      if v = ''ui'' then Inr Ui else if v = ''yaml'' then Inr Yaml
      else Inl (Validation (key @ '' must be ui or yaml'')))"

definition policy_from :: "environ \<Rightarrow> string \<Rightarrow> orphan_policy res" where
  "policy_from env key =
     (let v = env_or env key ''readonly'' in
      if v = ''readonly'' then Inr Readonly else if v = ''delete'' then Inr DeleteOrphan
      else Inl (Validation (key @ '' must be readonly or delete'')))"

definition service_source_from :: "environ \<Rightarrow> management_source res" where
  "service_source_from env =
     (case env ''SERVICE_MANAGEMENT_SOURCE'' of
        Value v \<Rightarrow>
          (if v = ''ui'' then Inr Ui else if v = ''env'' then Inr Env
           else Inl (Validation ''SERVICE_MANAGEMENT_SOURCE must be ui or env''))
      | Unset \<Rightarrow> Inr Ui
      | NotUnicode \<Rightarrow> Inl (Validation ''invalid SERVICE_MANAGEMENT_SOURCE''))"

fun team_ids_from :: "env_lib \<Rightarrow> string list \<Rightarrow> uuid list res" where
  "team_ids_from lib [] = Inr []"
| "team_ids_from lib (s # ss) =
     (case el_uuid lib s of
        None \<Rightarrow> Inl (Validation ''DEFAULT_TEAM_IDS must contain comma-separated team UUIDs'')
      | Some i \<Rightarrow> and_then (team_ids_from lib ss) (\<lambda>ids. Inr (i # ids)))"

definition management_from_env :: "env_lib \<Rightarrow> environ \<Rightarrow> management_settings res" where
  "management_from_env lib env =
     and_then (source_from env ''PROJECT_MANAGEMENT_SOURCE'') (\<lambda>project_source.
     and_then (source_from env ''TEAM_MANAGEMENT_SOURCE'') (\<lambda>team_source.
     and_then (service_source_from env) (\<lambda>service_source.
     and_then (team_ids_from lib (split_list (env_or env ''DEFAULT_TEAM_IDS'' []) (CHR '',''))) (\<lambda>ids.
     and_then (if env ''SERVICE_MANAGEMENT_SOURCE'' \<noteq> Unset then Inr Ui
               else source_from env ''NOTIFICATION_MANAGEMENT_SOURCE'') (\<lambda>notification_source.
     and_then (policy_from env ''PROJECT_ORPHAN_POLICY'') (\<lambda>project_policy.
     and_then (policy_from env ''TEAM_ORPHAN_POLICY'') (\<lambda>team_policy.
     Inr \<lparr>ms_path = env_or env ''CONFIG_PATH'' ''/etc/soika/config.yaml'', ms_project_source = project_source,
          ms_team_source = team_source, ms_service_source = service_source, ms_default_team_ids = ids,
          ms_notification_source = notification_source, ms_project_orphan_policy = project_policy,
          ms_team_orphan_policy = team_policy\<rparr>)))))))"

section \<open>The whole configuration\<close>

record config =
  cg_management :: management_settings
  cg_organization_name :: string
  cg_database_url :: string
  cg_db :: db_config
  cg_bind_addr :: string
  cg_base_url :: string
  cg_secret_key :: string
  cg_allow_signup :: bool
  cg_allow_invites :: bool
  cg_admin_users :: admin_users
  cg_admin_enabled :: bool
  cg_email_login_enabled :: bool
  cg_sso_rename :: bool
  cg_events_retention :: int
  cg_retention_days :: int
  cg_retention_cron :: string
  cg_smtp_enabled :: bool
  cg_webhooks_enabled :: bool
  cg_alertmanager_url :: "string option"
  cg_alert_names :: alertmanager_names
  cg_alert_interval :: int
  cg_alert_severity :: "alert_severity option"
  cg_alert_skip_tls :: bool
  cg_alerts_enabled :: bool
  cg_smtp :: "smtp_settings option"
  cg_oidc :: "oidc_config option"
  cg_passkey :: "passkey_config option"
  cg_sentry :: "sentry_config option"
  cg_lockout :: lockout_config
  cg_timezone :: string
  cg_deploy_url :: "string option"

definition secret_key_from :: "environ \<Rightarrow> string res" where
  "secret_key_from env =
     (case env_get env ''SECRET_KEY'' of
        None \<Rightarrow> Inl (Validation ''SECRET_KEY is required'')
      | Some k \<Rightarrow> (if trim k = [] then Inl (Validation ''SECRET_KEY must not be empty'') else Inr k))"

definition deploy_url_from_env :: "env_lib \<Rightarrow> environ \<Rightarrow> string option res" where
  "deploy_url_from_env lib env =
     (case env_opt env ''SERVICE_DEPLOY_URL'' of
        None \<Rightarrow> Inr None
      | Some raw \<Rightarrow>
          (case el_url_scheme lib (trim raw) of
             Inl e \<Rightarrow> Inl (Validation (''SERVICE_DEPLOY_URL: '' @ e))
           | Inr scheme \<Rightarrow>
               (if scheme = ''http'' \<or> scheme = ''https'' then Inr (Some (trim raw))
                else Inl (Validation ''SERVICE_DEPLOY_URL: only http and https URLs are allowed''))))"

definition alert_names_from :: "environ \<Rightarrow> alertmanager_names" where
  "alert_names_from env =
     (let name = (\<lambda>key dflt. case env_trimmed env key of Some v \<Rightarrow> v | None \<Rightarrow> dflt) in
      \<lparr>an_critical = name ''ALERTMANAGER_SEVERITY_CRITICAL'' (alert_name Critical),
       an_warning = name ''ALERTMANAGER_SEVERITY_WARNING'' (alert_name Warning),
       an_info = name ''ALERTMANAGER_SEVERITY_INFO'' (alert_name Info),
       an_project_test = name ''ALERTMANAGER_TEST_ALERT_KIND'' ''SoikaIssueCritical''\<rparr>)"

definition alertmanager_url_from :: "env_lib \<Rightarrow> environ \<Rightarrow> string option res" where
  "alertmanager_url_from lib env =
     (case env_trimmed env ''ALERTMANAGER_URL'' of
        None \<Rightarrow> Inr None
      | Some url \<Rightarrow>
          and_then (validate_config (el_base_url lib) (default_config\<lparr>am_url := url\<rparr>)) (\<lambda>_. Inr (Some url)))"

definition alert_interval_from :: "environ \<Rightarrow> int res" where
  "alert_interval_from env =
     (case parse_int i64_min i64_max (env_or env ''ALERTMANAGER_DEFAULT_INTERVAL_SECONDS'' ''60'') of
        Inl _ \<Rightarrow> Inl (Validation ''ALERTMANAGER_DEFAULT_INTERVAL_SECONDS must be an integer'')
      | Inr n \<Rightarrow> and_then (validate_interval n) (\<lambda>_. Inr n))"

definition alert_severity_from :: "environ \<Rightarrow> alert_severity option res" where
  "alert_severity_from env =
     (case env_trimmed env ''ALERTMANAGER_DEFAULT_SEVERITY'' of
        None \<Rightarrow> Inr (Some Critical)
      | Some v \<Rightarrow> and_then (severity_from_str v) (\<lambda>sev. Inr (Some sev)))"

abbreviation one_provider :: "'a option \<Rightarrow> 'b option \<Rightarrow> unit res" where
  "one_provider oidc passkey \<equiv> require (oidc = None \<or> passkey = None)
     ''passkeys cannot be enabled together with SSO; set PASSKEY_ENABLED=false or OAUTH_ENABLED=false''"

definition from_env :: "env_lib \<Rightarrow> environ \<Rightarrow> config res" where
  "from_env lib env =
     (let organization_name = env_or env ''ORGANIZATION_NAME'' ''soika'';
          base_url = env_or env ''BASE_URL'' ''http://localhost:8080'' in
     and_then (secret_key_from env) (\<lambda>secret_key.
     and_then (db_from_env env) (\<lambda>db.
     and_then (parse_for ''DEFAULT_EVENTS_RETENTION'' i64_min i64_max (env_or env ''DEFAULT_EVENTS_RETENTION'' ''1000'')) (\<lambda>events.
     and_then (parse_for ''DEFAULT_RETENTION_DAYS'' i64_min i64_max (env_or env ''DEFAULT_RETENTION_DAYS'' ''0'')) (\<lambda>days.
     and_then (alertmanager_url_from lib env) (\<lambda>alertmanager_url.
     and_then (alert_interval_from env) (\<lambda>alert_interval.
     and_then (alert_severity_from env) (\<lambda>alert_severity.
     and_then (smtp_from_env env) (\<lambda>smtp.
     and_then (oidc_from_env env base_url) (\<lambda>oidc.
     and_then (passkey_from_env env base_url organization_name) (\<lambda>passkey.
     and_then (one_provider oidc passkey) (\<lambda>_.
     and_then (lockout_from_env env) (\<lambda>lockout.
     and_then (deploy_url_from_env lib env) (\<lambda>deploy_url.
     and_then (management_from_env lib env) (\<lambda>management.
     and_then (admin_users_parse (env_or env ''ADMIN_USERS'' [])) (\<lambda>admins.
     Inr \<lparr>cg_management = management, cg_organization_name = organization_name,
          cg_database_url = env_or env ''DATABASE_URL'' ''sqlite://soika.db'', cg_db = db,
          cg_bind_addr = env_or env ''BIND_ADDR'' ''127.0.0.1:8080'', cg_base_url = base_url,
          cg_secret_key = secret_key,
          cg_allow_signup = env_flag env ''ALLOW_SIGNUP'' ''false'',
          cg_allow_invites = env_flag env ''ALLOW_INVITES'' ''false'', cg_admin_users = admins,
          cg_admin_enabled = env_flag env ''ADMIN_ENABLED'' ''true'',
          cg_email_login_enabled = env_flag env ''EMAIL_LOGIN_ENABLED'' ''true'',
          cg_sso_rename = env_flag env ''SSO_ALLOW_DISPLAY_NAME_CHANGE'' ''false'',
          cg_events_retention = events, cg_retention_days = days,
          cg_retention_cron = env_or env ''RETENTION_CRON'' ''0 */15 * * * *'',
          cg_smtp_enabled = env_flag env ''SMTP_ENABLED'' ''false'',
          cg_webhooks_enabled = env_flag env ''WEBHOOKS_ENABLED'' ''false'',
          cg_alertmanager_url = alertmanager_url, cg_alert_names = alert_names_from env,
          cg_alert_interval = alert_interval, cg_alert_severity = alert_severity,
          cg_alert_skip_tls = env_flag env ''ALERTMANAGER_SKIP_TLS'' ''false'',
          cg_alerts_enabled = env_flag env ''NOTIFICATIONS_ALERTMANAGER_ENABLED'' ''false'',
          cg_smtp = smtp, cg_oidc = oidc, cg_passkey = passkey, cg_sentry = sentry_from_env env,
          cg_lockout = lockout, cg_timezone = env_or env ''TIMEZONE'' ''UTC'', cg_deploy_url = deploy_url\<rparr>))))))))))))))))"

section \<open>What a loaded configuration guarantees\<close>

lemma add_digits_range:
  "add_digits negative lo hi acc s = Inr n \<Longrightarrow> lo \<le> acc \<Longrightarrow> acc \<le> hi \<Longrightarrow> lo \<le> n \<and> n \<le> hi"
  by (induction s arbitrary: acc) (auto simp: Let_def split: if_splits)

lemma parse_int_range: "parse_int lo hi s = Inr n \<Longrightarrow> lo \<le> 0 \<Longrightarrow> 0 \<le> hi \<Longrightarrow> lo \<le> n \<and> n \<le> hi"
  by (auto simp: parse_int_def simp del: add_digits.simps split: list.splits if_splits dest!: add_digits_range)

lemma parse_for_range [dest]:
  "parse_for key lo hi s = Inr n \<Longrightarrow> lo \<le> 0 \<Longrightarrow> 0 \<le> hi \<Longrightarrow> lo \<le> n \<and> n \<le> hi"
  using parse_int_range by (auto simp: parse_for_def split: sum.splits)

lemma env_secs_range: "env_secs env key d = Inr n \<Longrightarrow> n \<le> u64_max * 1000000000"
  by (auto simp: env_secs_def loaded)

definition write_policy_sound :: "write_policy \<Rightarrow> bool" where
  "write_policy_sound p \<longleftrightarrow> max_retries p \<le> u32_max \<and> retry_base p \<le> retry_max p \<and> 1 \<le> delete_batch p \<and> delete_batch p \<le> i64_max"

lemma write_policy_from_env_sound: "write_policy_from_env env d = Inr p \<Longrightarrow> write_policy_sound p"
  by (auto simp: write_policy_from_env_def loaded write_policy_sound_def dest!: parse_for_range)

definition db_config_sound :: "db_config \<Rightarrow> bool" where
  "db_config_sound c \<longleftrightarrow> 1 \<le> dc_max_connections c \<and> dc_max_connections c \<le> u32_max \<and> 0 < dc_acquire_timeout c \<and>
     write_policy_sound (dc_write c)"

lemma db_from_env_sound: "db_from_env env = Inr c \<Longrightarrow> db_config_sound c"
  by (auto simp: db_from_env_def Let_def loaded db_config_sound_def dest!: parse_for_range write_policy_from_env_sound)

definition lockout_sound :: "lockout_config \<Rightarrow> bool" where
  "lockout_sound c \<longleftrightarrow> 1 \<le> unat (lc_max_attempts c) \<and> lc_base_lockout c \<le> lc_max_lockout c"

lemma lockout_from_env_sound: "lockout_from_env env = Inr c \<Longrightarrow> lockout_sound c"
  by (auto simp: lockout_from_env_def loaded lockout_sound_def unsigned_of_int take_bit_int_eq_self dest!: parse_for_range)

definition passkey_sound :: "passkey_config \<Rightarrow> bool" where
  "passkey_sound p \<longleftrightarrow> pf_rp_id p \<noteq> [] \<and> 0 < pf_timeout p \<and> 0 < pf_challenge_ttl p \<and> 1 \<le> pf_max_per_user p \<and>
     pf_max_per_user p \<le> i64_max"

lemma passkey_from_env_sound: "passkey_from_env env b n = Inr (Some p) \<Longrightarrow> passkey_sound p"
  by (auto simp: passkey_from_env_def loaded passkey_sound_def split: if_splits dest!: parse_for_range)

lemma admin_users_sound: "admin_users_parse raw = Inr a \<Longrightarrow> distinct a \<and> (\<forall>e \<in> set a. to_ascii_lowercase e = e \<and> CHR ''@'' \<in> set e)"
proof -
  assume "admin_users_parse raw = Inr a"
  then obtain emails where ok: "list_all admin_email_ok emails" and a: "a = remdups (map to_ascii_lowercase emails)"
    by (auto simp: admin_users_parse_def Let_def split: if_splits)
  have "CHR ''@'' \<in> set (to_ascii_lowercase e)" if "e \<in> set emails" for e
  proof -
    from that ok obtain x y where "split_once (CHR ''@'') e = Some (x, y)"
      by (auto simp: list_all_iff admin_email_ok_def split: option.splits)
    then have "CHR ''@'' \<in> set e" using split_onceE by fastforce
    moreover have "to_ascii_lower (CHR ''@'') = CHR ''@''" by code_simp
    ultimately show ?thesis by (force simp: to_ascii_lowercase_def)
  qed
  moreover have "to_ascii_lowercase (to_ascii_lowercase e) = to_ascii_lowercase e" for e
    by (simp add: to_ascii_lowercase_def to_ascii_lower_def ascii_defs)
  ultimately show ?thesis using a by auto
qed

text \<open>C23. A configuration that loads is one the rest of the program can work with: the secret is not blank, the pool
  and its timeouts are usable, the retry delays are ordered and a deletion batch deletes at least one row, the login
  guard locks after at least one failure and never for longer than its bound, the alert interval is between ten
  seconds and a day, a passkey ceremony has a relying party, time and room, and passkeys and single sign-on are not
  enabled together.\<close>

theorem loaded_configuration_sound:
  assumes "from_env lib env = Inr c"
  shows "trim (cg_secret_key c) \<noteq> [] \<and> db_config_sound (cg_db c) \<and> lockout_sound (cg_lockout c) \<and>
     10 \<le> cg_alert_interval c \<and> cg_alert_interval c \<le> 86400 \<and>
     (\<forall>p. cg_passkey c = Some p \<longrightarrow> passkey_sound p \<and> cg_oidc c = None) \<and>
     (\<forall>e \<in> set (cg_admin_users c). to_ascii_lowercase e = e \<and> CHR ''@'' \<in> set e)"
proof -
  have "trim (cg_secret_key c) \<noteq> []"
    using assms by (auto simp: from_env_def Let_def loaded secret_key_from_def split: option.splits if_splits)
  moreover have "db_config_sound (cg_db c)" "lockout_sound (cg_lockout c)"
    using assms by (auto simp: from_env_def Let_def loaded dest!: db_from_env_sound lockout_from_env_sound)
  moreover have "10 \<le> cg_alert_interval c \<and> cg_alert_interval c \<le> 86400"
    using assms by (auto simp: from_env_def Let_def loaded alert_interval_from_def validate_interval_def split: sum.splits if_splits)
  moreover have "passkey_sound p \<and> cg_oidc c = None" if "cg_passkey c = Some p" for p
    using assms that by (auto simp: from_env_def Let_def loaded dest!: passkey_from_env_sound)
  moreover have "\<forall>e \<in> set (cg_admin_users c). to_ascii_lowercase e = e \<and> CHR ''@'' \<in> set e"
    using assms by (auto simp: from_env_def Let_def loaded dest!: admin_users_sound)
  ultimately show ?thesis by blast
qed

section \<open>The defaults\<close>

lemma add_digits_append:
  "add_digits neg lo hi acc (xs @ ys) = and_then (add_digits neg lo hi acc xs) (\<lambda>m. add_digits neg lo hi m ys)"
  by (induction xs arbitrary: acc) (simp_all add: and_then_def Let_def)

lemma add_digits_nat:
  "int n \<le> hi \<Longrightarrow> lo \<le> 0 \<Longrightarrow> add_digits False lo hi 0 (nat_to_dec n) = Inr (int n)"
proof (induction n rule: nat_to_dec.induct)
  case (1 n)
  have digit: "is_ascii_digit (char_of (48 + d))" "byte (char_of (48 + d)) = 48 + d" if "d < 10" for d :: nat
    using that by (simp_all add: is_ascii_digit_def)
  show ?case
  proof (cases "n < 10")
    case True
    then show ?thesis using 1(2,3) digit [of n] by (simp add: nat_to_dec.simps Let_def)
  next
    case False
    have "int (n div 10) * 10 + int (n mod 10) = int n"
      by (metis div_mult_mod_eq of_nat_add of_nat_mult of_nat_numeral)
    then show ?thesis
      using False 1 digit [of "n mod 10"] by (simp add: nat_to_dec.simps [of n] add_digits_append Let_def)
  qed
qed

text \<open>A number printed is a number read.\<close>

lemma parse_printed [simp]:
  assumes "int n \<le> hi" "lo \<le> 0"
  shows "parse_for key lo hi (nat_to_dec n) = Inr (int n)"
proof -
  obtain c cs where cs: "nat_to_dec n = c # cs" and c: "is_ascii_digit c"
    using nat_to_dec_digits [of n] by (cases "nat_to_dec n") auto
  then have "c \<noteq> CHR ''+'' \<and> c \<noteq> CHR ''-''" by (auto simp: is_ascii_digit_def)
  then show ?thesis
    using add_digits_nat [OF assms] unfolding cs parse_for_def parse_int_def by simp
qed

definition bare_env :: "string \<Rightarrow> environ" where
  "bare_env k = (\<lambda>_. Unset)(''SECRET_KEY'' := Value k)"

lemma bare_env_simps [simp]:
  "key \<noteq> ''SECRET_KEY'' \<Longrightarrow> env_or (bare_env k) key d = d"
  "key \<noteq> ''SECRET_KEY'' \<Longrightarrow> env_opt (bare_env k) key = None"
  "key \<noteq> ''SECRET_KEY'' \<Longrightarrow> env_trimmed (bare_env k) key = None"
  "key \<noteq> ''SECRET_KEY'' \<Longrightarrow> bare_env k key = Unset"
  "env_get (bare_env k) ''SECRET_KEY'' = Some k"
  by (simp_all add: bare_env_def env_or_def env_opt_def env_trimmed_def env_get_def)

lemma bare_durations [simp]:
  "key \<noteq> ''SECRET_KEY'' \<Longrightarrow> d div 1000000 \<le> u64_max \<Longrightarrow> env_millis (bare_env k) key d = Inr (d div 1000000 * 1000000)"
  "key \<noteq> ''SECRET_KEY'' \<Longrightarrow> n \<le> u64_max \<Longrightarrow> env_secs (bare_env k) key n = Inr (n * 1000000000)"
  by (simp_all add: env_millis_def env_secs_def)

lemma bare_flags [simp]: "\<not> parse_bool ''false''" "parse_bool ''true''"
  by code_simp+

text \<open>An environment with nothing but a secret and what says how the instance is managed.\<close>

definition silent :: "environ \<Rightarrow> bool" where
  "silent env \<longleftrightarrow> (\<forall>key. key \<notin> {''SECRET_KEY'', ''PROJECT_MANAGEMENT_SOURCE'', ''TEAM_MANAGEMENT_SOURCE'',
     ''SERVICE_MANAGEMENT_SOURCE'', ''PROJECT_ORPHAN_POLICY'', ''TEAM_ORPHAN_POLICY''} \<longrightarrow> env key = Unset)"

lemma silent_env_loads:
  assumes "trim k \<noteq> []" "silent env" "env ''SECRET_KEY'' = Value k" "management_from_env lib env = Inr m"
  shows "\<exists>c. from_env lib env = Inr c \<and> cg_secret_key c = k \<and> cg_db c = default_db_config \<and>
     cg_lockout c = default_lockout_config \<and> cg_management c = m \<and> cg_alert_names c = default_names \<and>
     cg_admin_users c = [] \<and> cg_oidc c = None \<and> cg_passkey c = None \<and> cg_smtp c = None \<and> cg_sentry c = None \<and>
     \<not> cg_alerts_enabled c \<and> \<not> cg_allow_signup c \<and> cg_email_login_enabled c \<and>
     cg_organization_name c = ''soika'' \<and> cg_alert_interval c = 60 \<and> cg_alert_severity c = Some Critical \<and>
     cg_alertmanager_url c = None \<and> cg_events_retention c = 1000"
proof -
  let ?managed = "{''SECRET_KEY'', ''PROJECT_MANAGEMENT_SOURCE'', ''TEAM_MANAGEMENT_SOURCE'',
     ''SERVICE_MANAGEMENT_SOURCE'', ''PROJECT_ORPHAN_POLICY'', ''TEAM_ORPHAN_POLICY''}"
  have unset: "env key = Unset" if "key \<notin> ?managed" for key
    using assms(2) [unfolded silent_def, rule_format, OF that] .
  then have reads [simp]: "key \<notin> ?managed \<Longrightarrow> env_or env key d = d" "key \<notin> ?managed \<Longrightarrow> env_opt env key = None"
    "key \<notin> ?managed \<Longrightarrow> env_trimmed env key = None" "key \<notin> ?managed \<Longrightarrow> env key = Unset" for key d
    by (simp_all add: env_or_def env_opt_def env_trimmed_def env_get_def)
  have [simp]: "env_get env ''SECRET_KEY'' = Some k" using assms(3) by (simp add: env_get_def)
  have [simp]: "key \<notin> ?managed \<Longrightarrow> d div 1000000 \<le> u64_max \<Longrightarrow> env_millis env key d = Inr (d div 1000000 * 1000000)"
    "key \<notin> ?managed \<Longrightarrow> n \<le> u64_max \<Longrightarrow> env_secs env key n = Inr (n * 1000000000)" for key d n
    by (simp_all add: env_millis_def env_secs_def)
  have secret: "secret_key_from env = Inr k" using assms by (simp add: secret_key_from_def)
  have literals: "parse_for a i64_min i64_max ''1000'' = Inr 1000" "parse_for b i64_min i64_max ''0'' = Inr 0"
    "parse_for d 0 (int u32_max) ''5'' = Inr 5" "parse_int i64_min i64_max ''60'' = Inr 60" for a b d
    by (simp_all add: parse_for_def parse_int_def is_ascii_digit_def)
  have db: "db_from_env env = Inr default_db_config"
  proof -
    have "parse_for ''DB_DELETE_BATCH'' i64_min i64_max (int_to_dec 500) = Inr 500"
      using parse_printed [of 500 i64_max i64_min] by (simp add: int_to_dec_def)
    then have "write_policy_from_env env default_write_policy = Inr default_write_policy"
      using parse_printed [of 5 "int u32_max" 0] by (simp add: write_policy_from_env_def default_write_policy_def require_def)
    moreover have "synchronous_from ''normal'' = Inr SyncNormal" by code_simp
    ultimately show ?thesis
      using parse_printed [of 8 "int u32_max" 0] by (simp add: db_from_env_def default_db_config_def Let_def require_def)
  qed
  have lockout: "lockout_from_env env = Inr default_lockout_config"
    using literals by (simp add: lockout_from_env_def default_lockout_config_def require_def)
  note management = assms(4)
  have rest: "alertmanager_url_from lib env = Inr None" "alert_interval_from env = Inr 60"
    "alert_severity_from env = Inr (Some Critical)" "smtp_from_env env = Inr None"
    "oidc_from_env env b = Inr None" "passkey_from_env env b n = Inr None"
    "deploy_url_from_env lib env = Inr None" "alert_names_from env = default_names"
    "sentry_from_env env = None" "admin_users_parse [] = Inr []" for b n
    using literals
    by (simp_all add: alertmanager_url_from_def alert_interval_from_def validate_interval_def alert_severity_from_def
      smtp_from_env_def oidc_from_env_def passkey_from_env_def deploy_url_from_env_def alert_names_from_def
      default_names_def sentry_from_env_def admin_users_parse_def split_list_def)
  show ?thesis
    using secret db lockout management rest literals by (simp add: from_env_def Let_def require_def)
qed

lemma bare_env_loads:
  assumes "trim k \<noteq> []"
  shows "\<exists>c. from_env lib (bare_env k) = Inr c \<and> cg_secret_key c = k \<and> cg_db c = default_db_config \<and>
     cg_lockout c = default_lockout_config \<and> cg_management c = default_management \<and> cg_alert_names c = default_names \<and>
     cg_admin_users c = [] \<and> cg_oidc c = None \<and> cg_passkey c = None \<and> cg_smtp c = None \<and> cg_sentry c = None \<and>
     \<not> cg_alerts_enabled c \<and> \<not> cg_allow_signup c \<and> cg_email_login_enabled c"
proof -
  have "management_from_env lib (bare_env k) = Inr default_management"
    by (simp add: management_from_env_def source_from_def policy_from_def service_source_from_def default_management_def
      split_list_def)
  moreover have "silent (bare_env k)" "bare_env k ''SECRET_KEY'' = Value k" by (simp_all add: silent_def bare_env_def)
  ultimately show ?thesis using silent_env_loads [OF assms] by blast
qed

text \<open>The defaults agree: an environment with nothing but a secret loads, and what it gives is what the
  \<open>Default\<close> implementations of the database, retry and lockout settings say, with the interface managing
  everything, no owner named, single sign-on, passkeys, mail, alerts and telemetry off.\<close>

theorem defaults_agree:
  assumes "trim k \<noteq> []"
  shows "\<exists>c. from_env lib (bare_env k) = Inr c \<and> cg_secret_key c = k \<and> cg_db c = default_db_config \<and>
     cg_lockout c = default_lockout_config \<and> cg_management c = default_management \<and> cg_alert_names c = default_names \<and>
     cg_admin_users c = [] \<and> cg_oidc c = None \<and> cg_passkey c = None \<and> cg_smtp c = None \<and> cg_sentry c = None \<and>
     \<not> cg_alerts_enabled c \<and> \<not> cg_allow_signup c \<and> cg_email_login_enabled c"
  using assms by (rule bare_env_loads)

theorem defaults_agree_witness: "\<forall>lib. \<exists>c. from_env lib (bare_env ''k'') = Inr c \<and> cg_secret_key c = ''k''"
proof -
  have "trim ''k'' \<noteq> []" by code_simp
  from defaults_agree [OF this] show ?thesis by fast
qed

theorem loaded_configuration_sound_witness:
  "\<forall>lib. \<exists>c. from_env lib (bare_env ''k'') = Inr c \<and> db_config_sound (cg_db c) \<and> lockout_sound (cg_lockout c)"
proof -
  have "trim ''k'' \<noteq> []" by code_simp
  then have "\<exists>c. from_env lib (bare_env ''k'') = Inr c" for lib using bare_env_loads by blast
  then show ?thesis using loaded_configuration_sound by blast
qed

end
