(* ===== verification/Oidc.thy ===== *)
theory Oidc
  imports AuthHandlers Config
begin

text \<open>
  Single sign-on: the authorization-code flow of \<open>src/auth/oidc.rs\<close> with its signed state cookie
  and the normalization of the claims, and the browser routes of \<open>src/auth/oidc_handlers.rs\<close> that
  start the flow, finish it, and find or provision the account.

  The \<open>openidconnect\<close> client is an argument (\<open>oidc_client\<close>): what its token exchange, its
  verification of an ID token and the userinfo request answer; so is the JSON of the state cookie
  (\<open>state_codec\<close>).
\<close>

section \<open>Errors of the library, without their text\<close>

datatype token_error = ServerResponse | RequestFailed | Unparsable | OtherTokenError

definition safe_token_error :: "token_error \<Rightarrow> error" where
  "safe_token_error e =
     Auth (''OIDC token exchange failed: '' @
       (case e of
          ServerResponse \<Rightarrow> ''provider rejected request''
        | RequestFailed \<Rightarrow> ''transport failure''
        | Unparsable \<Rightarrow> ''invalid response''
        | OtherTokenError \<Rightarrow> ''unexpected response''))"

text \<open>A response carries its status as the HTTP library prints it.\<close>

datatype discovery_error =
  DiscoveryRequest | DiscoveryResponse string | DiscoveryParse | DiscoveryUrl | DiscoveryValidation | DiscoveryOther

definition safe_discovery_error :: "discovery_error \<Rightarrow> error" where
  "safe_discovery_error e =
     Internal (''OIDC discovery failed: '' @
       (case e of
          DiscoveryRequest \<Rightarrow> ''transport failure''
        | DiscoveryResponse status \<Rightarrow> ''HTTP status '' @ status
        | DiscoveryParse \<Rightarrow> ''invalid response''
        | DiscoveryUrl \<Rightarrow> ''invalid URL''
        | DiscoveryValidation \<Rightarrow> ''invalid metadata''
        | DiscoveryOther \<Rightarrow> ''unexpected response''))"

datatype claims_error =
  ClaimsExpired | InvalidAudience | InvalidAuthContext | InvalidAuthTime | InvalidIssuer | InvalidNonce |
  InvalidSubject | SignatureVerification | UnsupportedClaim | OtherClaimsError

definition safe_claims_error :: "claims_error \<Rightarrow> error" where
  "safe_claims_error e =
     Auth (''ID token verification failed: '' @
       (case e of
          ClaimsExpired \<Rightarrow> ''expired''
        | InvalidAudience \<Rightarrow> ''invalid audience''
        | InvalidAuthContext \<Rightarrow> ''invalid auth context''
        | InvalidAuthTime \<Rightarrow> ''invalid auth time''
        | InvalidIssuer \<Rightarrow> ''invalid issuer''
        | InvalidNonce \<Rightarrow> ''invalid nonce''
        | InvalidSubject \<Rightarrow> ''invalid subject''
        | SignatureVerification \<Rightarrow> ''invalid signature''
        | UnsupportedClaim \<Rightarrow> ''unsupported value''
        | OtherClaimsError \<Rightarrow> ''invalid claims''))"

section \<open>Claims\<close>

record oidc_claims =
  cl_email :: string
  cl_email_verified :: bool
  cl_display_name :: string
  cl_groups :: "string list"

text \<open>What the library reads of a verified ID token; \<open>tc_name\<close> is the name without a language
  tag.\<close>

record token_claims =
  tc_email :: "string option"
  tc_email_verified :: "bool option"
  tc_name :: "string option"
  tc_preferred_username :: "string option"
  tc_subject :: string

definition email_local_part :: "string \<Rightarrow> string" where
  "email_local_part email =
     (case split_once (CHR ''@'') email of Some (local, _) \<Rightarrow> local | None \<Rightarrow> email)"

definition normalize_claims :: "token_claims \<Rightarrow> oidc_claims res" where
  "normalize_claims c =
     (case non_empty (map_option (\<lambda>e. to_ascii_lowercase (trim e)) (tc_email c)) of
        None \<Rightarrow> Inl (Auth ''provider did not return an email claim'')
      | Some email \<Rightarrow>
          Inr \<lparr>cl_email = email,
               cl_email_verified = (case tc_email_verified c of Some b \<Rightarrow> b | None \<Rightarrow> False),
               cl_display_name =
                 (case non_empty (map_option trim (tc_name c)) of
                    Some n \<Rightarrow> n
                  | None \<Rightarrow>
                      (case non_empty (map_option trim (tc_preferred_username c)) of
                         Some u \<Rightarrow> u
                       | None \<Rightarrow> email_local_part email)),
               cl_groups = []\<rparr>)"

definition email_domain_allowed :: "string \<Rightarrow> string list \<Rightarrow> bool" where
  "email_domain_allowed email allowed_domains \<longleftrightarrow>
     (if allowed_domains = [] then True
      else case rsplit_once (CHR ''@'') email of
             None \<Rightarrow> False
           | Some (_, domain) \<Rightarrow>
               (let domain = to_ascii_lowercase (trim domain) in
                domain \<noteq> [] \<and> list_ex (\<lambda>d. eq_ignore_ascii_case (trim d) domain) allowed_domains))"

section \<open>The client\<close>

record token_response =
  tr_id_token :: "string option"
  tr_access_token :: string

record userinfo_answer =
  ua_status :: nat
  ua_json :: "val option"

text \<open>\<open>oc_http\<close> is the error of building the HTTP client, \<open>oc_exchange\<close> the token request
  (no endpoint is \<open>None\<close> with the library's text in \<open>oc_no_endpoint\<close>), \<open>oc_verify\<close> the
  check of signature, audience, issuer, expiry and nonce, \<open>oc_userinfo\<close> the GET with the access
  token.\<close>

record oidc_client =
  oc_http :: "string option"
  oc_no_endpoint :: "string option"
  oc_exchange :: "string \<Rightarrow> string \<Rightarrow> token_error + token_response"
  oc_verify :: "string \<Rightarrow> string \<Rightarrow> claims_error + token_claims"
  oc_userinfo :: "string \<Rightarrow> string \<Rightarrow> userinfo_answer option"
  oc_b64 :: "string \<Rightarrow> string option"
  oc_json :: "string \<Rightarrow> val option"
  oc_groups_claim :: string
  oc_userinfo_url :: "string option"
  oc_groups_enabled :: bool
  oc_provider_name :: string
  oc_allowed_email_domains :: "string list"
  oc_require_approval :: bool

definition with_group_claims :: "bool \<Rightarrow> oidc_client \<Rightarrow> oidc_client" where
  "with_group_claims enabled c = c\<lparr>oc_groups_enabled := enabled\<rparr>"

definition build_http_client :: "oidc_client \<Rightarrow> unit res" where
  "build_http_client c =
     (case oc_http c of None \<Rightarrow> Inr () | Some e \<Rightarrow> Inl (Internal (''failed to build OIDC HTTP client: '' @ e)))"

text \<open>Discovery at start-up: the text of a parse error of the issuer or redirect URL, and what the
  provider's metadata gives, a client with the endpoints set and the userinfo endpoint.\<close>

record discovery_lib =
  dv_issuer_error :: "string \<Rightarrow> string option"
  dv_redirect_error :: "string \<Rightarrow> string option"
  dv_metadata :: "string \<Rightarrow> discovery_error + string option"
  dv_client :: oidc_client

definition discover :: "discovery_lib \<Rightarrow> oidc_config \<Rightarrow> oidc_client res" where
  "discover lib config =
     (case dv_issuer_error lib (od_issuer_url config) of
        Some e \<Rightarrow> Inl (Validation (''invalid OAUTH_ISSUER_URL: '' @ e))
      | None \<Rightarrow>
     (case dv_redirect_error lib (od_redirect_url config) of
        Some e \<Rightarrow> Inl (Validation (''invalid OAUTH_REDIRECT_URL: '' @ e))
      | None \<Rightarrow>
     (case build_http_client (dv_client lib) of
        Inl e \<Rightarrow> Inl e
      | Inr _ \<Rightarrow>
     (case dv_metadata lib (od_issuer_url config) of
        Inl e \<Rightarrow> Inl (safe_discovery_error e)
      | Inr userinfo_url \<Rightarrow>
          Inr ((dv_client lib)\<lparr>oc_groups_claim := od_groups_claim config, oc_userinfo_url := userinfo_url,
            oc_groups_enabled := False, oc_provider_name := od_provider_name config,
            oc_allowed_email_domains := od_allowed_email_domains config,
            oc_require_approval := od_require_approval config\<rparr>)))))"

text \<open>\<open>serde_json::from_value::<Vec<String>>\<close>.\<close>

fun string_items :: "val list \<Rightarrow> string list option" where
  "string_items [] = Some []"
| "string_items (Str s # vs) = map_option (Cons s) (string_items vs)"
| "string_items (_ # vs) = None"

definition groups_of :: "val option \<Rightarrow> string list res" where
  "groups_of value =
     (case value of
        None \<Rightarrow> Inr []
      | Some v \<Rightarrow>
          (case Option.bind (as_array v) string_items of
             Some gs \<Rightarrow> Inr gs
           | None \<Rightarrow> Inl (Auth ''OIDC groups claim must be a string array'')))"

definition userinfo_claim :: "oidc_client \<Rightarrow> string \<Rightarrow> string \<Rightarrow> string \<Rightarrow> val option res" where
  "userinfo_claim c url subject token =
     (case oc_userinfo c url token of
        None \<Rightarrow> Inl (Auth ''OIDC userinfo request failed'')
      | Some a \<Rightarrow>
          (if 400 \<le> ua_status a \<and> ua_status a < 600 then Inl (Auth ''OIDC userinfo request failed'')
           else case ua_json a of
                  None \<Rightarrow> Inl (Auth ''invalid OIDC userinfo response'')
                | Some info \<Rightarrow>
                    (if Option.bind (val_get info ''sub'') as_str \<noteq> Some subject then
                       Inl (Auth ''OIDC userinfo subject mismatch'')
                     else Inr (val_get info (oc_groups_claim c)))))"

definition load_group_claims :: "oidc_client \<Rightarrow> val \<Rightarrow> string \<Rightarrow> string \<Rightarrow> string list res" where
  "load_group_claims c raw subject token =
     (case val_get raw (oc_groups_claim c) of
        Some v \<Rightarrow> groups_of (Some v)
      | None \<Rightarrow>
          (case oc_userinfo_url c of
             None \<Rightarrow> groups_of None
           | Some url \<Rightarrow>
               (case userinfo_claim c url subject token of Inl e \<Rightarrow> Inl e | Inr v \<Rightarrow> groups_of v)))"

text \<open>The payload is the second dot-separated part of the compact token.\<close>

definition token_payload :: "oidc_client \<Rightarrow> string \<Rightarrow> val res" where
  "token_payload c token =
     (let parts = split_on (\<lambda>b. b = CHR ''.'') token in
      if length parts < 2 then Inl (Auth ''invalid ID token'')
      else case Option.bind (oc_b64 c (parts ! 1)) (oc_json c) of
             None \<Rightarrow> Inl (Auth ''invalid ID token'')
           | Some raw \<Rightarrow> Inr raw)"

definition exchange_code :: "oidc_client \<Rightarrow> string \<Rightarrow> string \<Rightarrow> string \<Rightarrow> oidc_claims res" where
  "exchange_code c code pkce_verifier nonce =
     (case build_http_client c of
        Inl e \<Rightarrow> Inl e
      | Inr _ \<Rightarrow>
     (case oc_no_endpoint c of
        Some e \<Rightarrow> Inl (Auth (''OIDC token endpoint unavailable: '' @ e))
      | None \<Rightarrow>
     (case oc_exchange c code pkce_verifier of
        Inl e \<Rightarrow> Inl (safe_token_error e)
      | Inr response \<Rightarrow>
     (case tr_id_token response of
        None \<Rightarrow> Inl (Auth ''provider did not return an ID token'')
      | Some id_token \<Rightarrow>
     (case oc_verify c id_token nonce of
        Inl e \<Rightarrow> Inl (safe_claims_error e)
      | Inr claims \<Rightarrow>
     (case normalize_claims claims of
        Inl e \<Rightarrow> Inl e
      | Inr identity \<Rightarrow>
     (if \<not> oc_groups_enabled c then Inr identity
      else case token_payload c id_token of
             Inl e \<Rightarrow> Inl e
           | Inr raw \<Rightarrow>
     (case load_group_claims c raw (tc_subject claims) (tr_access_token response) of
        Inl e \<Rightarrow> Inl e
      | Inr gs \<Rightarrow> Inr (identity\<lparr>cl_groups := gs\<rparr>)))))))))"

text \<open>\<open>OidcProvider\<close>, the interface the handlers see, and the client as one. The authorize request
  is drawn by the library at each call.\<close>

record oidc_provider =
  pv_exchange_code :: "string \<Rightarrow> string \<Rightarrow> string \<Rightarrow> oidc_claims res"
  pv_provider_name :: string
  pv_allowed_email_domains :: "string list"
  pv_require_approval :: bool

definition client_provider :: "oidc_client \<Rightarrow> oidc_provider" where
  "client_provider c =
     \<lparr>pv_exchange_code = exchange_code c, pv_provider_name = oc_provider_name c,
      pv_allowed_email_domains = oc_allowed_email_domains c, pv_require_approval = oc_require_approval c\<rparr>"

record authorize_request =
  ar_url :: string
  ar_csrf_state :: string
  ar_nonce :: string
  ar_pkce_verifier :: string

section \<open>The state cookie\<close>

definition STATE_COOKIE :: string where "STATE_COOKIE = ''soika_oidc_state''"
definition STATE_TTL_SECS :: int where "STATE_TTL_SECS = 600"

record state_payload =
  sp_state :: string
  sp_nonce :: string
  sp_pkce_verifier :: string
  sp_next :: "string option"
  sp_expires_at :: int

text \<open>\<open>serde_json::to_string\<close> and \<open>from_str\<close> on a payload.\<close>

record state_codec =
  sc_print :: "state_payload \<Rightarrow> string"
  sc_parse :: "string \<Rightarrow> state_payload option"

definition encode_state_cookie ::
  "crypto \<Rightarrow> state_codec \<Rightarrow> string \<Rightarrow> string \<Rightarrow> string \<Rightarrow> string \<Rightarrow> string option \<Rightarrow> int \<Rightarrow> string" where
  "encode_state_cookie c j secret_key st nonce pkce_verifier nxt now_unix =
     sign c secret_key (sc_print j
       \<lparr>sp_state = st, sp_nonce = nonce, sp_pkce_verifier = pkce_verifier, sp_next = nxt,
        sp_expires_at = now_unix + STATE_TTL_SECS\<rparr>)"

definition decode_state_cookie :: "crypto \<Rightarrow> state_codec \<Rightarrow> string \<Rightarrow> string \<Rightarrow> int \<Rightarrow> state_payload res" where
  "decode_state_cookie c j secret_key token now_unix =
     (case verify_str c secret_key token of
        Inl e \<Rightarrow> Inl e
      | Inr json \<Rightarrow>
          (case sc_parse j json of
             None \<Rightarrow> Inl (Auth ''malformed OIDC state'')
           | Some p \<Rightarrow> (if sp_expires_at p \<le> now_unix then Inl (Auth ''OIDC state expired'') else Inr p)))"

definition build_state_cookie :: "string \<Rightarrow> bool \<Rightarrow> string" where
  "build_state_cookie signed_value secure =
     STATE_COOKIE @ ''='' @ signed_value @ ''; HttpOnly; SameSite=Lax; Path=/; Max-Age='' @ int_to_dec STATE_TTL_SECS @
     (if secure then ''; Secure'' else [])"

definition build_clearing_state_cookie :: "bool \<Rightarrow> string" where
  "build_clearing_state_cookie secure =
     STATE_COOKIE @ ''=; HttpOnly; SameSite=Lax; Path=/; Max-Age=0'' @ (if secure then ''; Secure'' else [])"

section \<open>Redirects\<close>

text \<open>What the browser is answered: a 404, or a 302 with its \<open>Location\<close> and \<open>Set-Cookie\<close>
  headers.\<close>

datatype page = NotFoundPage | Redirect "string option" "string list"

definition validated_next :: "string option \<Rightarrow> string option" where
  "validated_next nxt =
     Option.bind nxt (\<lambda>n.
       if starts_with n ''/'' \<and> \<not> starts_with n ''//'' \<and> CHR 0x5C \<notin> set n \<and> \<not> list_ex is_control (chars n)
       then Some n else None)"

text \<open>\<open>HeaderValue::from_str\<close>.\<close>

definition header_value :: "string \<Rightarrow> string \<Rightarrow> string res" where
  "header_value what v =
     (if list_all (\<lambda>b. 32 \<le> byte b \<and> byte b \<noteq> 127 \<or> byte b = 9) v then Inr v
      else Inl (Internal (''invalid '' @ what @ '' value: failed to parse header value'')))"

definition push_cookie :: "string \<Rightarrow> string res" where
  "push_cookie cookie = header_value ''Set-Cookie'' cookie"

definition set_location :: "string \<Rightarrow> string res" where
  "set_location location = header_value ''Location'' location"

definition error_code :: "error \<Rightarrow> string" where
  "error_code e =
     (case e of
        Forbidden _ \<Rightarrow> ''forbidden''
      | Auth _ \<Rightarrow> ''auth_failed''
      | Validation _ \<Rightarrow> ''invalid_request''
      | _ \<Rightarrow> ''sso_failed'')"

text \<open>\<open>c as u32\<close>, and \<open>%{:02X}\<close>.\<close>

fun code_point :: "string \<Rightarrow> nat" where
  "code_point [a] = byte a"
| "code_point [a, b] = (byte a - 192) * 64 + (byte b - 128)"
| "code_point [a, b, c] = (byte a - 224) * 4096 + (byte b - 128) * 64 + (byte c - 128)"
| "code_point [a, b, c, d] =
     (byte a - 240) * 262144 + (byte b - 128) * 4096 + (byte c - 128) * 64 + (byte d - 128)"
| "code_point _ = 0"

definition hex_digit :: "nat \<Rightarrow> char" where
  "hex_digit n = char_of (if n < 10 then 48 + n else 55 + n)"

fun hex_upper :: "nat \<Rightarrow> string" where
  "hex_upper n = (if n < 16 then [hex_digit n] else hex_upper (n div 16) @ [hex_digit (n mod 16)])"

definition percent :: "string \<Rightarrow> string" where
  "percent c =
     (let n = code_point c in CHR ''%'' # (if n < 16 then ''0'' else []) @ hex_upper n)"

definition url_safe :: "string \<Rightarrow> bool" where
  "url_safe c \<longleftrightarrow>
     (case c of [b] \<Rightarrow> is_ascii_alphanumeric b \<or> b = CHR ''-'' \<or> b = CHR ''_'' \<or> b = CHR ''.'' \<or> b = CHR ''~'' | _ \<Rightarrow> False)"

definition url_encode :: "string \<Rightarrow> string" where
  "url_encode s = concat (map (\<lambda>c. if url_safe c then c else percent c) (chars s))"

text \<open>The header values are printable ASCII, so they are set.\<close>

definition redirect_to_login :: "error \<Rightarrow> string option \<Rightarrow> page" where
  "redirect_to_login e clear_cookie =
     Redirect (Some (''/login?error='' @ url_encode (error_code e)))
       (case clear_cookie of Some c \<Rightarrow> [c] | None \<Rightarrow> [])"

definition redirect_to_pending :: "bool \<Rightarrow> page" where
  "redirect_to_pending secure = Redirect (Some ''/pending'') [build_clearing_state_cookie secure]"

section \<open>Starting the flow\<close>

abbreviation (input) unix_seconds :: "timestamp \<Rightarrow> int" where
  "unix_seconds t \<equiv> t div 1000000000"

abbreviation ap_secure :: "app \<Rightarrow> bool" where
  "ap_secure app \<equiv> cookie_secure (ap_base_url app)"

definition build_login_redirect ::
  "app \<Rightarrow> state_codec \<Rightarrow> authorize_request \<Rightarrow> string option \<Rightarrow> (server, page) op" where
  "build_login_redirect app j req nxt =
     op_bind clock_now (\<lambda>now.
     op_bind (op_res (push_cookie (build_state_cookie
        (encode_state_cookie (ac_crypto (ap_auth app)) j (ac_secret_key (ap_auth app)) (ar_csrf_state req)
          (ar_nonce req) (ar_pkce_verifier req) (validated_next nxt) (unix_seconds now)) (ap_secure app)))) (\<lambda>cookie.
     op_bind (op_res (set_location (ar_url req))) (\<lambda>location.
     op_ok (Redirect (Some location) [cookie]))))"

text \<open>An error of the flow is a redirect too; only a panic has no answer.\<close>

definition page_or :: "(error \<Rightarrow> page) \<Rightarrow> (server, page) op \<Rightarrow> (server, failure, page) run" where
  "page_or f m =
     op_bind (op_try m) (\<lambda>r.
       case r of
         Inr p \<Rightarrow> op_ok p
       | Inl e \<Rightarrow> (case e of Panic msg \<Rightarrow> op_err (Crash msg) | _ \<Rightarrow> op_ok (f e)))"

definition oidc_login ::
  "app \<Rightarrow> state_codec \<Rightarrow> (oidc_provider \<times> authorize_request) option \<Rightarrow> string option \<Rightarrow> (server, failure, page) run" where
  "oidc_login app j provider nxt =
     (case provider of
        None \<Rightarrow> op_ok NotFoundPage
      | Some (_, req) \<Rightarrow> page_or (\<lambda>e. redirect_to_login e None) (build_login_redirect app j req nxt))"

section \<open>Finishing it\<close>

record callback_query =
  cq_code :: "string option"
  cq_state :: "string option"

text \<open>What the reconciliation of grants needs besides: interference, retry policy and the lower-casing
  of the database.\<close>

record grant_lib =
  gl_env :: "nat \<Rightarrow> desk \<Rightarrow> desk"
  gl_policy :: write_policy
  gl_lower :: "string \<Rightarrow> string"

definition required_param :: "string \<Rightarrow> string option \<Rightarrow> string res" where
  "required_param message x = (case non_empty x of Some v \<Rightarrow> Inr v | None \<Rightarrow> Inl (Auth message))"

definition state_cookie :: "headers \<Rightarrow> string res" where
  "state_cookie hs =
     (case read_cookie hs STATE_COOKIE of
        None \<Rightarrow> Inl (Auth ''missing OIDC state cookie'') | Some token \<Rightarrow> Inr token)"

text \<open>The state cookie must be genuine, unexpired and bound to the query's state.\<close>

definition callback_payload :: "app \<Rightarrow> state_codec \<Rightarrow> string \<Rightarrow> string \<Rightarrow> timestamp \<Rightarrow> state_payload res" where
  "callback_payload app j token state_param now =
     (case decode_state_cookie (ac_crypto (ap_auth app)) j (ac_secret_key (ap_auth app)) token (unix_seconds now) of
        Inl e \<Rightarrow> Inl e
      | Inr p \<Rightarrow> (if sp_state p \<noteq> state_param then Inl (Auth ''OIDC state mismatch'') else Inr p))"

definition claims_accepted :: "oidc_provider \<Rightarrow> oidc_claims \<Rightarrow> unit res" where
  "claims_accepted provider c =
     (if \<not> cl_email_verified c then Inl (Forbidden ''email is not verified by the provider'')
      else if cl_email c = [] then Inl (Auth ''provider returned an empty email'')
      else if \<not> email_domain_allowed (cl_email c) (pv_allowed_email_domains provider) then
        Inl (Forbidden ''email domain is not allowed'')
      else Inr ())"

definition should_convert_to_sso :: "user \<Rightarrow> bool" where
  "should_convert_to_sso u \<longleftrightarrow> usr_auth_provider u = Local \<and> \<not> is_owner (usr_instance_role u)"

definition sso_account :: "app \<Rightarrow> user \<Rightarrow> (server, user) op" where
  "sso_account app existing =
     (if should_convert_to_sso (admin_users_apply (ap_admin_users app) existing)
      then on_tables (convert_to_sso (ap_env app) (usr_id existing))
      else op_ok existing)"

definition find_or_create :: "app \<Rightarrow> oidc_provider \<Rightarrow> oidc_claims \<Rightarrow> (server, user) op" where
  "find_or_create app provider c =
     op_bind (on_tables (find_user_by_email (cl_email c))) (\<lambda>row.
       case row of
         Some existing \<Rightarrow>
           (if is_owner (usr_instance_role existing) \<and> \<not> admin_users_contains (ap_admin_users app) (usr_email existing)
            then op_err (Forbidden ''owner account uses password login, not SSO'')
            else sso_account app existing)
       | None \<Rightarrow>
           timed (\<lambda>now. create_user (ap_env app) (ap_assign_default_teams app) now
             \<lparr>nu_email = cl_email c, nu_display_name = cl_display_name c, nu_password_hash = [],
              nu_instance_role = InstMember, nu_auth_provider = Oidc,
              nu_status = (if pv_require_approval provider then Pending else Active)\<rparr>))"

definition activation :: user_update where
  "activation =
     \<lparr>uu_display_name = None, uu_password_hash = None, uu_notifications_enabled = None, uu_locale = None,
      uu_initial_locale = None, uu_status = Some Active\<rparr>"

definition sync_grants :: "app \<Rightarrow> grant_lib \<Rightarrow> string list \<Rightarrow> user \<Rightarrow> (server, user) op" where
  "sync_grants app gl groups u =
     (if ms_team_source (ap_management app) = Yaml then
        op_bind clock_now (\<lambda>now.
        op_bind (on_desk (reconcile_user_grants (gl_env gl) (gl_policy gl) (gl_lower gl) now (usr_id u) groups)) (\<lambda>granted.
        if granted \<and> is_pending (usr_status u) then timed (\<lambda>now. update_user (ap_env app) now (usr_id u) activation)
        else op_ok u))
      else op_ok u)"

definition finish_callback :: "app \<Rightarrow> state_payload \<Rightarrow> user \<Rightarrow> (server, page) op" where
  "finish_callback app p u =
     (if is_pending (usr_status u) then op_ok (redirect_to_pending (ap_secure app))
      else
        op_bind (open_session app (usr_id u)) (\<lambda>(_, session_cookie).
        op_bind (op_res (push_cookie session_cookie)) (\<lambda>c1.
        op_bind (op_res (push_cookie (build_clearing_state_cookie (ap_secure app)))) (\<lambda>c2.
        op_bind (op_res (set_location (case sp_next p of Some n \<Rightarrow> n | None \<Rightarrow> ''/''))) (\<lambda>location.
        op_ok (Redirect (Some location) [c1, c2]))))))"

definition run_callback ::
  "app \<Rightarrow> grant_lib \<Rightarrow> state_codec \<Rightarrow> oidc_provider \<Rightarrow> headers \<Rightarrow> callback_query \<Rightarrow> (server, page) op" where
  "run_callback app gl j provider hs q =
     op_bind (op_res (required_param ''missing authorization code'' (cq_code q))) (\<lambda>code.
     op_bind (op_res (required_param ''missing state parameter'' (cq_state q))) (\<lambda>state_param.
     op_bind (op_res (state_cookie hs)) (\<lambda>token.
     op_bind clock_now (\<lambda>now.
     op_bind (op_res (callback_payload app j token state_param now)) (\<lambda>p.
     op_bind (op_res (pv_exchange_code provider code (sp_pkce_verifier p) (sp_nonce p))) (\<lambda>claims.
     op_bind (op_res (claims_accepted provider claims)) (\<lambda>_.
     op_bind (find_or_create app provider claims) (\<lambda>u.
     op_bind (sync_grants app gl (cl_groups claims) u) (\<lambda>u.
     finish_callback app p u)))))))))"

definition oidc_callback ::
  "app \<Rightarrow> grant_lib \<Rightarrow> state_codec \<Rightarrow> oidc_provider option \<Rightarrow> headers \<Rightarrow> callback_query \<Rightarrow> (server, failure, page) run" where
  "oidc_callback app gl j provider hs q =
     (case provider of
        None \<Rightarrow> op_ok NotFoundPage
      | Some pv \<Rightarrow>
          page_or (\<lambda>e. redirect_to_login e (Some (build_clearing_state_cookie (ap_secure app))))
            (run_callback app gl j pv hs q))"

end
