(* ===== verification/OidcFacts.thy ===== *)
theory OidcFacts
  imports Oidc AuthFacts
begin

text \<open>
  What single sign-on guarantees: the state cookie comes back to the callback as it was sent, and only
  for ten minutes; an account is entered only through it and with a verified address of an allowed
  domain, never an owner by the match of an address alone; no redirect leaves the site.
\<close>

section \<open>The state cookie comes back\<close>

text \<open>What the codec is relied on for: a payload reads back, and its JSON is text.\<close>

definition reads_back :: "state_codec \<Rightarrow> state_payload \<Rightarrow> bool" where
  "reads_back j p \<longleftrightarrow> sc_parse j (sc_print j p) = Some p \<and> from_utf8 (sc_print j p) = Some (sc_print j p)"

definition login_payload :: "authorize_request \<Rightarrow> string option \<Rightarrow> timestamp \<Rightarrow> state_payload" where
  "login_payload req nxt now =
     \<lparr>sp_state = ar_csrf_state req, sp_nonce = ar_nonce req, sp_pkce_verifier = ar_pkce_verifier req,
      sp_next = validated_next nxt, sp_expires_at = unix_seconds now + 600\<rparr>"

lemma state_cookie_chars: "list_all token_char STATE_COOKIE"
  by (simp add: STATE_COOKIE_def token_char_def ascii_defs)

lemma state_cookie_back:
  assumes c: "crypto_ok (ac_crypto (ap_auth app))"
    and login: "oidc_login app j (Some (pv, req)) nxt s = (Inr (Redirect location [cookie]), t)"
    and j: "reads_back j (login_payload req nxt (hub_clock (sv_hub s) (hub_tick (sv_hub s))))"
    and hs: "map_of hs ''cookie'' = Some (cookie_pair cookie)"
  shows "location = Some (ar_url req)"
    "\<exists>tok. state_cookie hs = Inr tok \<and> (\<forall>st now. callback_payload app j tok st now =
     (if unix_seconds (hub_clock (sv_hub s) (hub_tick (sv_hub s))) + 600 \<le> unix_seconds now
      then Inl (Auth ''OIDC state expired'')
      else if st \<noteq> ar_csrf_state req then Inl (Auth ''OIDC state mismatch'')
      else Inr (login_payload req nxt (hub_clock (sv_hub s) (hub_tick (sv_hub s))))))"
proof -
  let ?c = "ac_crypto (ap_auth app)" and ?k = "ac_secret_key (ap_auth app)"
  let ?p = "login_payload req nxt (hub_clock (sv_hub s) (hub_tick (sv_hub s)))"
  let ?answer = "\<lambda>st now. if unix_seconds (hub_clock (sv_hub s) (hub_tick (sv_hub s))) + 600 \<le> unix_seconds now
      then Inl (Auth ''OIDC state expired'') else if st \<noteq> ar_csrf_state req then Inl (Auth ''OIDC state mismatch'') else Inr ?p"
  let ?tok = "sign ?c ?k (sc_print j ?p)"
  have made: "location = Some (ar_url req) \<and> cookie = build_state_cookie ?tok (ap_secure app)"
    using login
    by (auto simp: oidc_login_def page_or_def op_bind_Inr op_try_def build_login_redirect_def clock_now_def push_cookie_def
        set_location_def header_value_def encode_state_cookie_def login_payload_def STATE_TTL_SECS_def
        redirect_to_login_def split: prod.splits sum.splits error.splits if_splits)
  have "cookie_pair cookie = STATE_COOKIE @ ''='' @ ?tok"
    using made cookie_pair_named [OF state_cookie_chars, of ?tok] sign_chars [OF c] by (simp add: build_state_cookie_def)
  then have "read_cookie hs STATE_COOKIE = Some ?tok"
    using hs sign_chars [OF c] by (intro read_named_cookie state_cookie_chars) simp_all
  moreover have "verify_str ?c ?k ?tok = Inr (sc_print j ?p)"
    using j by (simp add: verify_str_def verify_sign [OF c] reads_back_def)
  ultimately show "\<exists>tok. state_cookie hs = Inr tok \<and> (\<forall>st now. callback_payload app j tok st now = ?answer st now)"
    using made j by (simp add: state_cookie_def callback_payload_def decode_state_cookie_def reads_back_def login_payload_def)
  show "location = Some (ar_url req)" using made by simp
qed

text \<open>C5. The state cookie carries the flow from the login to the callback: sent back with the provider's
  answer, it hands the callback the nonce, the PKCE verifier and the validated target of this login while ten
  minutes have not passed and the answer names its CSRF state; any other state is a mismatch, and later it has
  expired.\<close>

theorem state_cookie_carries_flow:
  assumes c: "crypto_ok (ac_crypto (ap_auth app))"
    and login: "oidc_login app j (Some (pv, req)) nxt s = (Inr (Redirect (Some location) [cookie]), t)"
    and j: "reads_back j (login_payload req nxt (hub_clock (sv_hub s) (hub_tick (sv_hub s))))"
    and hs: "map_of hs ''cookie'' = Some (cookie_pair cookie)"
  shows "location = ar_url req \<and> (\<exists>tok. state_cookie hs = Inr tok \<and> (\<forall>st now. callback_payload app j tok st now =
     (if unix_seconds (hub_clock (sv_hub s) (hub_tick (sv_hub s))) + 600 \<le> unix_seconds now
      then Inl (Auth ''OIDC state expired'')
      else if st \<noteq> ar_csrf_state req then Inl (Auth ''OIDC state mismatch'')
      else Inr (login_payload req nxt (hub_clock (sv_hub s) (hub_tick (sv_hub s)))))))"
  using state_cookie_back [OF c login j hs] by simp

lemma state_cookie_target:
  assumes "crypto_ok (ac_crypto (ap_auth app))"
    and "oidc_login app j (Some (pv, req)) nxt s = (Inr (Redirect location [cookie]), t)"
    and "reads_back j (login_payload req nxt (hub_clock (sv_hub s) (hub_tick (sv_hub s))))"
    and "map_of hs ''cookie'' = Some (cookie_pair cookie)"
  shows "\<exists>tok. state_cookie hs = Inr tok \<and>
     (\<forall>st now p. callback_payload app j tok st now = Inr p \<longrightarrow> sp_next p = validated_next nxt)"
  using state_cookie_back(2) [OF assms]
  apply (elim ex_forward conj_forward)
   apply assumption
  apply (intro allI impI)
  subgoal for tok st now p
    by (drule spec [of _ st], drule spec [of _ now]) (auto simp: login_payload_def split: if_splits)
  done

section \<open>Who is signed in\<close>

lemma reread_run: "reread_user uid missing d = (Inr u, e) \<Longrightarrow> usr_id u = uid"
  by (auto simp: reread_user_def find_user_by_id_def select_user_def split: prod.splits sum.splits option.splits
      dest!: read_run find_Some_in [OF sym])

lemma convert_id: "convert_to_sso env uid d = (Inr u, e) \<Longrightarrow> usr_id u = uid"
  by (auto simp: convert_to_sso_def split: prod.splits sum.splits dest!: reread_run)

lemma update_id: "update_user env now uid up d = (Inr u, e) \<Longrightarrow> usr_id u = uid"
  by (auto simp: update_user_def split: prod.splits sum.splits if_splits dest!: reread_run)

definition sso_member :: "oidc_provider \<Rightarrow> oidc_claims \<Rightarrow> new_user" where
  "sso_member pv claims =
     \<lparr>nu_email = cl_email claims, nu_display_name = cl_display_name claims, nu_password_hash = [],
      nu_instance_role = InstMember, nu_auth_provider = Oidc,
      nu_status = (if pv_require_approval pv then Pending else Active)\<rparr>"

lemma create_user_run:
  assumes "create_user env assign now n d = (Inr u, e)"
  shows "usr_id u = rng_uuid d (rng_pos d) \<and> (\<exists>d1 d2. create_account_body assign (usr_id u) now n False d1 = (Inr (), d2))"
proof -
  let ?uid = "rng_uuid d (rng_pos d)"
  obtain x where body: "account_write env ''create user with default teams'' (create_account_body assign ?uid now n False)
      (d\<lparr>rng_pos := Suc (rng_pos d)\<rparr>) = (Inr x, e)" and u: "u = user_row ?uid now n"
    using assms by (auto simp: create_user_def create_account_def Let_def split: prod.splits sum.splits)
  from body obtain d1 where "create_account_body assign ?uid now n False d1 = (Inr x, e)"
    by (rule account_write_ok)
  then show ?thesis using u by (auto simp: user_row_def)
qed

text \<open>The account that the claims give access to: the one stored under their address, an owner's only where the
  configuration trusts it, or else a member created under it with a fresh id.\<close>

definition entered :: "app \<Rightarrow> oidc_provider \<Rightarrow> oidc_claims \<Rightarrow> db \<Rightarrow> uuid \<Rightarrow> bool" where
  "entered app pv claims d uid \<longleftrightarrow>
     (case List.find (\<lambda>u. usr_email u = cl_email claims) (db_users d) of
        Some x \<Rightarrow> usr_id x = uid \<and> (usr_instance_role x = Owner \<longrightarrow> admin_users_contains (ap_admin_users app) (cl_email claims))
      | None \<Rightarrow> uid = rng_uuid d (rng_pos d) \<and>
          (\<exists>now d1 d2. create_account_body (ap_assign_default_teams app) uid now (sso_member pv claims) False d1 = (Inr (), d2)))"

lemma find_or_create_run:
  assumes "find_or_create app pv claims s = (Inr u, t)"
  shows "entered app pv claims (sv_db s) (usr_id u)"
proof -
  obtain row d where row: "find_user_by_email (cl_email claims) (sv_db s) = (Inr row, d)"
    and rest: "(case row of
         Some existing \<Rightarrow>
           (if is_owner (usr_instance_role existing) \<and> \<not> admin_users_contains (ap_admin_users app) (usr_email existing)
            then op_err (Forbidden ''owner account uses password login, not SSO'')
            else sso_account app existing)
       | None \<Rightarrow>
           timed (\<lambda>now. create_user (ap_env app) (ap_assign_default_teams app) now
             \<lparr>nu_email = cl_email claims, nu_display_name = cl_display_name claims, nu_password_hash = [],
              nu_instance_role = InstMember, nu_auth_provider = Oidc,
              nu_status = (if pv_require_approval pv then Pending else Active)\<rparr>)) (set_db d s) = (Inr u, t)"
    using assms by (auto simp: find_or_create_def op_bind_Inr on_tables_run)
  from find_by_email_run [OF row] have rng: "rng_uuid d = rng_uuid (sv_db s)" "rng_pos d = rng_pos (sv_db s)"
    and found: "row = List.find (\<lambda>u. usr_email u = cl_email claims) (db_users (sv_db s))" by auto
  show ?thesis
  proof (cases row)
    case None
    with rest obtain now e where "create_user (ap_env app) (ap_assign_default_teams app) now (sso_member pv claims) d = (Inr u, e)"
      by (auto simp: timed_run sso_member_def)
    from create_user_run [OF this] have new: "usr_id u = rng_uuid d (rng_pos d)"
      "\<exists>d1 d2. create_account_body (ap_assign_default_teams app) (usr_id u) now (sso_member pv claims) False d1 = (Inr (), d2)"
      by blast+
    have uid: "usr_id u = rng_uuid (sv_db s) (rng_pos (sv_db s))" using new(1) rng by simp
    have "List.find (\<lambda>u. usr_email u = cl_email claims) (db_users (sv_db s)) = None" using None found by simp
    with uid new(2) show ?thesis unfolding entered_def by (simp only: option.case) blast
  next
    case (Some x)
    then have "List.find (\<lambda>u. usr_email u = cl_email claims) (db_users (sv_db s)) = Some x" using found by simp
    from find_Some_in [OF this] have mail: "usr_email x = cl_email claims" by simp
    show ?thesis using rest Some found mail
      by (auto simp: entered_def sso_account_def on_tables_run is_owner_def split: if_splits instance_role.splits dest!: convert_id)
  qed
qed

lemma sync_grants_run: "sync_grants app gl groups u s = (Inr v, t) \<Longrightarrow> usr_id v = usr_id u"
  by (auto simp: sync_grants_def op_bind_Inr timed_run split: if_splits dest!: update_id)

text \<open>The cookie of a session, and the page a login ends with.\<close>

abbreviation cookie_of :: "app \<Rightarrow> session \<Rightarrow> string" where
  "cookie_of app x \<equiv>
     build_session_cookie (ac_crypto (ap_auth app)) (ac_secret_key (ap_auth app)) (ses_id x) (ap_secure app)"

abbreviation signed_in_page :: "app \<Rightarrow> state_payload \<Rightarrow> session \<Rightarrow> page" where
  "signed_in_page app p x \<equiv> Redirect (Some (case sp_next p of Some n \<Rightarrow> n | None \<Rightarrow> ''/''))
     [cookie_of app x, build_clearing_state_cookie (ap_secure app)]"

lemma start_session_cookie:
  assumes "start_session cfg now uid d = (Inr (x, ck), e)"
  shows "ses_user_id x = uid \<and> db_sessions e = db_sessions d @ [x] \<and> db_users e = db_users d \<and>
     ck = build_session_cookie (ac_crypto cfg) (ac_secret_key cfg) (ses_id x) (cookie_secure (ac_base_url cfg))"
  using assms
  by (auto simp: start_session_def create_session_def transaction_def Let_def
      split: sum.splits if_splits list.splits option.splits)

lemma finish_callback_run:
  assumes "finish_callback app p u s = (Inr pg, t)"
  shows "if usr_status u = Pending then pg = redirect_to_pending (ap_secure app) \<and> t = s
     else \<exists>x. ses_user_id x = usr_id u \<and> db_sessions (sv_db t) = db_sessions (sv_db s) @ [x] \<and>
       db_users (sv_db t) = db_users (sv_db s) \<and> pg = signed_in_page app p x"
  using assms
  by (auto simp: finish_callback_def op_bind_Inr open_session_def timed_run is_pending_def push_cookie_def set_location_def
      header_value_def split: if_splits user_status.splits dest!: start_session_cookie)

text \<open>Other connections that, while a write sleeps, change no account and open or end no session.\<close>

definition keeps_accounts :: "db \<Rightarrow> db \<Rightarrow> bool" where
  "keeps_accounts s t \<longleftrightarrow> db_users t = db_users s \<and> db_sessions t = db_sessions s"

definition undisturbed_accounts :: "app \<Rightarrow> grant_lib \<Rightarrow> bool" where
  "undisturbed_accounts app gl \<longleftrightarrow>
     (\<forall>n d. keeps_accounts d (ap_env app n d)) \<and> (\<forall>n d. keeps_accounts (dk_db d) (dk_db (gl_env gl n d)))"

interpretation accounts: step_relation "\<lambda>s t. keeps_accounts (dk_db s) (dk_db t)"
  by unfold_locales (auto simp: keeps_accounts_def)

lemma account_write_last:
  assumes "account_write env what body s = (Inr v, t)" "\<And>n d. keeps_accounts d (env n d)"
  obtains s0 where "keeps_accounts s s0" "body s0 = (Inr v, t)"
proof -
  have failed: "keeps_accounts s y" if "keeps_accounts s x" "transaction body x = (Inl e, y)" for x e y
    using that transaction_error [OF that(2)] by (simp add: keeps_accounts_def tables_def accounts_def)
  have "\<exists>x. keeps_accounts s x \<and> transaction body x = (Inr v, t)"
  proof (rule retry_from_last [where I = "keeps_accounts s" and env = env])
    show "keeps_accounts s (env n x)" if "keeps_accounts s x" for n x
      using that assms(2) [of x n] by (simp add: keeps_accounts_def)
    show "keeps_accounts s s" by (simp add: keeps_accounts_def)
  qed (use assms(1) failed in \<open>simp_all add: retry_write_def\<close>)
  then obtain x where x: "keeps_accounts s x" "transaction body x = (Inr v, t)" by blast
  from x(2) show thesis
  proof (rule transaction_ok)
    fix s0 assume "tables s0 = tables x" "body s0 = (Inr v, t)"
    then show thesis using x(1) by (intro that [of s0]) (simp_all add: keeps_accounts_def tables_def accounts_def)
  qed
qed

lemma reread_keeps: "reread_user uid missing d = (Inr u, e) \<Longrightarrow> keeps_accounts d e \<and> u \<in> set (db_users e) \<and> usr_id u = uid"
  by (auto simp: reread_user_def find_user_by_id_def select_user_def keeps_accounts_def split: prod.splits sum.splits option.splits
      dest!: read_run find_Some_in [OF sym])

text \<open>An account that is turned into one of the provider: a local one that is no owner. Its sessions end.\<close>

definition converts :: "app \<Rightarrow> oidc_claims \<Rightarrow> db \<Rightarrow> bool" where
  "converts app claims d \<longleftrightarrow>
     (case List.find (\<lambda>u. usr_email u = cl_email claims) (db_users d) of
        Some x \<Rightarrow> usr_auth_provider x = Local \<and> usr_instance_role x \<noteq> Owner \<and>
          \<not> admin_users_contains (ap_admin_users app) (cl_email claims)
      | None \<Rightarrow> False)"

lemma convert_keeps:
  assumes "convert_to_sso env uid d = (Inr u, e)" "\<And>n d. keeps_accounts d (env n d)"
  shows "u \<in> set (db_users e) \<and> usr_id u = uid \<and> db_sessions e = filter (\<lambda>x. ses_user_id x \<noteq> uid) (db_sessions d)"
proof -
  obtain v m where run: "account_write env ''convert account to SSO'' (convert_to_sso_body uid) d = (Inr v, m)"
    and re: "reread_user uid (NotFound ''user not found'') m = (Inr u, e)"
    using assms(1) by (auto simp: convert_to_sso_def split: prod.splits sum.splits)
  from run assms(2) obtain s0 where "keeps_accounts d s0" "convert_to_sso_body uid s0 = (Inr v, m)"
    by (rule account_write_last)
  then have "db_sessions m = filter (\<lambda>x. ses_user_id x \<noteq> uid) (db_sessions d)"
    by (auto simp: convert_to_sso_body_def keeps_accounts_def split: option.splits if_splits)
  with reread_keeps [OF re] show ?thesis by (auto simp: keeps_accounts_def)
qed

lemma find_or_create_keeps:
  assumes "find_or_create app pv claims s = (Inr u, t)" "\<And>n d. keeps_accounts d (ap_env app n d)"
  shows "u \<in> set (db_users (sv_db t)) \<and> db_sessions (sv_db t) =
     filter (\<lambda>y. ses_user_id y = usr_id u \<longrightarrow> \<not> converts app claims (sv_db s)) (db_sessions (sv_db s))"
proof -
  obtain row d where row: "find_user_by_email (cl_email claims) (sv_db s) = (Inr row, d)"
    and rest: "(case row of
         Some existing \<Rightarrow>
           (if is_owner (usr_instance_role existing) \<and> \<not> admin_users_contains (ap_admin_users app) (usr_email existing)
            then op_err (Forbidden ''owner account uses password login, not SSO'')
            else sso_account app existing)
       | None \<Rightarrow>
           timed (\<lambda>now. create_user (ap_env app) (ap_assign_default_teams app) now (sso_member pv claims)))
       (set_db d s) = (Inr u, t)"
    using assms(1) unfolding find_or_create_def sso_member_def [symmetric] op_bind_Inr on_tables_run by blast
  from find_by_email_run [OF row] have same: "db_users d = db_users (sv_db s)" "db_sessions d = db_sessions (sv_db s)"
    and found: "row = List.find (\<lambda>u. usr_email u = cl_email claims) (db_users (sv_db s))" by auto
  show ?thesis
  proof (cases row)
    case None
    with rest obtain now e where made: "create_user (ap_env app) (ap_assign_default_teams app) now (sso_member pv claims) d = (Inr u, e)"
      and t: "sv_db t = e" by (auto simp: timed_run)
    let ?uid = "rng_uuid d (rng_pos d)"
    obtain x where body: "account_write (ap_env app) ''create user with default teams''
        (create_account_body (ap_assign_default_teams app) ?uid now (sso_member pv claims) False)
        (d\<lparr>rng_pos := Suc (rng_pos d)\<rparr>) = (Inr x, e)" and u: "u = user_row ?uid now (sso_member pv claims)"
      using made by (auto simp: create_user_def create_account_def Let_def split: prod.splits sum.splits)
    from body assms(2) obtain d1 where "keeps_accounts (d\<lparr>rng_pos := Suc (rng_pos d)\<rparr>) d1"
      "create_account_body (ap_assign_default_teams app) ?uid now (sso_member pv claims) False d1 = (Inr x, e)"
      by (rule account_write_last)
    then have "u \<in> set (db_users e) \<and> db_sessions e = db_sessions (sv_db s)"
      using same u by (auto simp: create_account_body_def keeps_accounts_def split: if_splits)
    moreover have "\<not> converts app claims (sv_db s)" using None found by (simp add: converts_def)
    ultimately show ?thesis using t by simp
  next
    case (Some x)
    then have x: "List.find (\<lambda>u. usr_email u = cl_email claims) (db_users (sv_db s)) = Some x" using found by simp
    from find_Some_in [OF this] have mem: "usr_email x = cl_email claims" "x \<in> set (db_users (sv_db s))" by simp_all
    have converts: "converts app claims (sv_db s) \<longleftrightarrow> should_convert_to_sso (admin_users_apply (ap_admin_users app) x)"
      using x mem by (auto simp: converts_def should_convert_to_sso_def is_owner_def admin_users_apply_def effective_instance_role_def
          split: instance_role.splits if_splits)
    show ?thesis
    proof (cases "should_convert_to_sso (admin_users_apply (ap_admin_users app) x)")
      case True
      with rest Some have "convert_to_sso (ap_env app) (usr_id x) d = (Inr u, sv_db t)"
        by (auto simp: sso_account_def on_tables_run split: if_splits)
      from convert_keeps [OF this assms(2)] True converts same(2) show ?thesis by auto
    next
      case False
      with rest Some have "u = x" "t = set_db d s" by (auto simp: sso_account_def split: if_splits)
      with False converts same mem show ?thesis by simp
    qed
  qed
qed

lemma grants_keep:
  assumes "\<forall>n d. keeps_accounts (dk_db d) (dk_db (env n d))"
  shows "moves (\<lambda>s t. keeps_accounts (dk_db s) (dk_db t)) (reconcile_user_grants env policy lower now uid groups)"
proof -
  let ?keep = "moves (\<lambda>s t. keeps_accounts (dk_db s) (dk_db t))"
  have member: "?keep (reconcile_member lower now tid uid email)" for tid email
    by (rule movesI) (auto simp: reconcile_member_def op_bind_def in_db_def upsert_member_def keeps_accounts_def
        split: option.splits prod.splits sum.splits if_splits)
  have groups: "?keep (replace_sso_groups now uid groups)"
    by (rule movesI) (auto simp: replace_sso_groups_def keeps_accounts_def split: if_splits)
  have each: "?keep (op_fold (\<lambda>x granted. op_bind (reconcile_member lower now (tm_id x) uid (usr_email u))
      (\<lambda>b. op_ok (granted \<or> b))) ts acc)" for u ts acc
    by (intro accounts.moves_fold accounts.moves_bind member accounts.moves_ok)
  have body: "?keep (reconcile_user_body lower now uid groups)"
    unfolding reconcile_user_body_def
  proof (rule accounts.moves_bind [OF groups], rule movesI)
    fix v :: unit and s r t
    assume "(case List.find (\<lambda>u. usr_id u = uid) (db_users (dk_db s)) of
         None \<Rightarrow> (Inl (Db RowNotFound), s)
       | Some u \<Rightarrow>
           op_fold (\<lambda>x granted. op_bind (reconcile_member lower now (tm_id x) uid (usr_email u)) (\<lambda>b. op_ok (granted \<or> b)))
             (filter (\<lambda>x. tm_orphaned_at x = None) (db_teams (dk_db s))) False s) = (r, t)"
    then show "keeps_accounts (dk_db s) (dk_db t)"
      by (cases "List.find (\<lambda>u. usr_id u = uid) (db_users (dk_db s))") (auto simp: keeps_accounts_def dest!: movesD [OF each])
  qed
  have "?keep (desk_transaction (reconcile_user_body lower now uid groups))"
    by (rule movesI) (use movesD [OF body] in \<open>fastforce simp: desk_transaction_def keeps_accounts_def Let_def
        split: list.splits option.splits prod.splits sum.splits\<close>)
  then show ?thesis
    unfolding reconcile_user_grants_def using assms by (rule accounts.moves_retry)
qed

lemma update_keeps:
  assumes "update_user env now uid up d = (Inr u, e)" "\<And>n d. keeps_accounts d (env n d)"
  shows "u \<in> set (db_users e) \<and> db_sessions e = db_sessions d"
proof -
  obtain v m where run: "account_write env ''update user profile'' (update_user_body now uid up) d = (Inr v, m)"
    and re: "reread_user uid (user_not_found uid) m = (Inr u, e)"
    using assms(1) by (auto simp: update_user_def split: prod.splits sum.splits if_splits)
  from run assms(2) obtain s0 where "keeps_accounts d s0" "update_user_body now uid up s0 = (Inr v, m)"
    by (rule account_write_last)
  then have "db_sessions m = db_sessions d" by (auto simp: update_user_body_def set_user_def keeps_accounts_def)
  with reread_keeps [OF re] show ?thesis by (auto simp: keeps_accounts_def)
qed

lemma sync_grants_keeps:
  assumes "sync_grants app gl groups u s = (Inr v, t)" "undisturbed_accounts app gl" "u \<in> set (db_users (sv_db s))"
  shows "v \<in> set (db_users (sv_db t)) \<and> db_sessions (sv_db t) = db_sessions (sv_db s)"
proof (cases "ms_team_source (ap_management app) = Yaml")
  case True
  with assms(1) obtain granted s1 where
    grants: "on_desk (reconcile_user_grants (gl_env gl) (gl_policy gl) (gl_lower gl)
        (hub_clock (sv_hub s) (hub_tick (sv_hub s))) (usr_id u) groups)
        (s\<lparr>sv_hub := (sv_hub s)\<lparr>hub_tick := Suc (hub_tick (sv_hub s))\<rparr>\<rparr>) = (Inr granted, s1)"
    and rest: "(if granted \<and> is_pending (usr_status u) then timed (\<lambda>now. update_user (ap_env app) now (usr_id u) activation)
        else op_ok u) s1 = (Inr v, t)"
    by (auto simp: sync_grants_def op_bind_Inr clock_now_def)
  have "keeps_accounts (sv_db s) (sv_db s1)"
    using grants movesD [OF grants_keep, of "gl_env gl"] assms(2)
    by (auto simp: on_desk_def desk_of_def put_desk_def undisturbed_accounts_def split: prod.splits) fastforce
  then show ?thesis
    using rest assms(2,3) update_keeps [of "ap_env app"]
    by (auto simp: timed_run keeps_accounts_def undisturbed_accounts_def split: if_splits)
next
  case False
  with assms show ?thesis by (auto simp: sync_grants_def)
qed

text \<open>C4. A sign-in through the provider is answered with a page instead of an error only if the callback
  brought a code and a state, the state cookie is genuine, unexpired and bound to that state, and the claims that
  the code was exchanged for, with the verifier and the nonce of that cookie, name a verified address of an allowed
  domain. The account is the one stored under the address, which is an owner's only if the configuration trusts
  the address, or a new member. The page is the one of the accounts that await approval, or it carries the cookie of a
  stored session of the account. When no other connection changes accounts or sessions between the attempts of its writes,
  the stored account decides: while its status is pending no session is opened, otherwise exactly one, whose cookie the
  page carries; and all other sessions stay, save those of a local account that the sign-in turns into one of the
  provider, which end.\<close>

theorem sso_admits_only_verified:
  assumes "run_callback app gl j pv hs q s = (Inr pg, t)"
  shows "\<exists>code st tok p claims uid.
     cq_code q = Some code \<and> code \<noteq> [] \<and> cq_state q = Some st \<and> read_cookie hs STATE_COOKIE = Some tok \<and>
     decode_state_cookie (ac_crypto (ap_auth app)) j (ac_secret_key (ap_auth app)) tok
       (unix_seconds (hub_clock (sv_hub s) (hub_tick (sv_hub s)))) = Inr p \<and> sp_state p = st \<and>
     pv_exchange_code pv code (sp_pkce_verifier p) (sp_nonce p) = Inr claims \<and>
     cl_email_verified claims \<and> cl_email claims \<noteq> [] \<and>
     email_domain_allowed (cl_email claims) (pv_allowed_email_domains pv) \<and>
     entered app pv claims (sv_db s) uid \<and>
     (pg = redirect_to_pending (ap_secure app) \<or>
      (\<exists>x \<in> set (db_sessions (sv_db t)). ses_user_id x = uid \<and> pg = signed_in_page app p x)) \<and>
     (undisturbed_accounts app gl \<longrightarrow>
       (\<exists>u \<in> set (db_users (sv_db t)). usr_id u = uid \<and>
         (let kept = filter (\<lambda>y. ses_user_id y = uid \<longrightarrow> \<not> converts app claims (sv_db s)) (db_sessions (sv_db s))
          in if usr_status u = Pending
             then pg = redirect_to_pending (ap_secure app) \<and> db_sessions (sv_db t) = kept
             else \<exists>x. ses_user_id x = uid \<and> pg = signed_in_page app p x \<and> db_sessions (sv_db t) = kept @ [x])))"
proof -
  let ?now = "hub_clock (sv_hub s) (hub_tick (sv_hub s))"
  let ?s1 = "s\<lparr>sv_hub := (sv_hub s)\<lparr>hub_tick := Suc (hub_tick (sv_hub s))\<rparr>\<rparr>"
  obtain code st tok p claims where params: "required_param ''missing authorization code'' (cq_code q) = Inr code"
      "required_param ''missing state parameter'' (cq_state q) = Inr st" "state_cookie hs = Inr tok"
      "callback_payload app j tok st ?now = Inr p"
    and ex: "pv_exchange_code pv code (sp_pkce_verifier p) (sp_nonce p) = Inr claims" "claims_accepted pv claims = Inr ()"
    and rest: "op_bind (find_or_create app pv claims) (\<lambda>u. op_bind (sync_grants app gl (cl_groups claims) u)
       (\<lambda>u. finish_callback app p u)) ?s1 = (Inr pg, t)"
    using assms by (auto simp: run_callback_def op_bind_Inr clock_now_def)
  from rest obtain u0 s2 u r where account: "find_or_create app pv claims ?s1 = (Inr u0, s2)"
    "sync_grants app gl (cl_groups claims) u0 s2 = (Inr u, r)" and fin: "finish_callback app p u r = (Inr pg, t)"
    by (auto simp: op_bind_Inr)
  have codes: "cq_code q = Some code" "code \<noteq> []" "cq_state q = Some st"
    using params(1,2) by (auto simp: required_param_def non_empty_def split: option.splits if_splits)
  have cookie: "read_cookie hs STATE_COOKIE = Some tok" using params(3) by (auto simp: state_cookie_def split: option.splits)
  have flow: "decode_state_cookie (ac_crypto (ap_auth app)) j (ac_secret_key (ap_auth app)) tok (unix_seconds ?now) = Inr p"
      "sp_state p = st"
    using params(4) by (auto simp: callback_payload_def split: sum.splits if_splits)
  have identity: "cl_email_verified claims" "cl_email claims \<noteq> []"
      "email_domain_allowed (cl_email claims) (pv_allowed_email_domains pv)"
    using ex(2) by (auto simp: claims_accepted_def split: if_splits)
  have ids: "usr_id u = usr_id u0" using sync_grants_run [OF account(2)] .
  have "entered app pv claims (sv_db s) (usr_id u)"
    using find_or_create_run [OF account(1)] ids by simp
  note facts = codes cookie flow ex(1) identity this
  have page: "pg = redirect_to_pending (ap_secure app) \<or>
      (\<exists>x \<in> set (db_sessions (sv_db t)). ses_user_id x = usr_id u \<and> pg = signed_in_page app p x)"
    using finish_callback_run [OF fin] by (auto split: if_splits)
  have sessions: "\<exists>v \<in> set (db_users (sv_db t)). usr_id v = usr_id u \<and>
      (let kept = filter (\<lambda>y. ses_user_id y = usr_id u \<longrightarrow> \<not> converts app claims (sv_db s)) (db_sessions (sv_db s))
       in if usr_status v = Pending
          then pg = redirect_to_pending (ap_secure app) \<and> db_sessions (sv_db t) = kept
          else \<exists>x. ses_user_id x = usr_id u \<and> pg = signed_in_page app p x \<and> db_sessions (sv_db t) = kept @ [x])"
    if alone: "undisturbed_accounts app gl"
  proof -
    have made: "u0 \<in> set (db_users (sv_db s2)) \<and> db_sessions (sv_db s2) =
        filter (\<lambda>y. ses_user_id y = usr_id u0 \<longrightarrow> \<not> converts app claims (sv_db s)) (db_sessions (sv_db s))"
      using find_or_create_keeps [OF account(1)] alone by (simp add: undisturbed_accounts_def)
    from sync_grants_keeps [OF account(2) alone] this
    have "u \<in> set (db_users (sv_db r))" "db_sessions (sv_db r) = db_sessions (sv_db s2)" by blast+
    with made ids finish_callback_run [OF fin] show ?thesis
      by (intro bexI [of _ u] conjI refl) (auto simp: Let_def split: if_splits)
  qed
  show ?thesis by (intro exI conjI; (rule facts | rule page | rule impI, erule sessions))
qed

section \<open>Redirects\<close>

text \<open>A site-relative target: a path of this site for every browser. They also read a backslash as a slash, and drop
  tabs and line breaks before they look for a second slash, so no control character may occur.\<close>

definition site_relative :: "string \<Rightarrow> bool" where
  "site_relative l \<longleftrightarrow> (case l of [] \<Rightarrow> False | c # l' \<Rightarrow> c = CHR ''/'' \<and> (case l' of [] \<Rightarrow> True | d # _ \<Rightarrow> d \<noteq> CHR ''/'')) \<and>
     (\<forall>b \<in> set l. b \<noteq> CHR 0x5C) \<and> (\<forall>c \<in> set (chars l). \<not> is_control c)"

lemma page_or_Inr: "page_or f m s = (Inr pg, t) \<Longrightarrow> m s = (Inr pg, t) \<or> (\<exists>e. pg = f e)"
  by (auto simp: page_or_def op_try_def op_bind_Inr split: prod.splits sum.splits error.splits)

lemma validated_next_eq:
  "validated_next nxt = (case nxt of Some n \<Rightarrow> (if site_relative n then Some n else None) | None \<Rightarrow> None)"
  by (cases nxt) (auto simp: validated_next_def site_relative_def starts_with_def list_ex_iff split: list.splits)

lemma error_codes:
  "url_encode ''forbidden'' = ''forbidden''" "url_encode ''auth_failed'' = ''auth_failed''"
  "url_encode ''invalid_request'' = ''invalid_request''" "url_encode ''sso_failed'' = ''sso_failed''"
  by code_simp+

lemma site_pages:
  "site_relative ''/''" "site_relative ''/pending''" "site_relative ''/login?error=forbidden''"
  "site_relative ''/login?error=auth_failed''" "site_relative ''/login?error=invalid_request''"
  "site_relative ''/login?error=sso_failed''"
  by code_simp+

text \<open>C24. Every page that the flow ends with stays on this site. After a login that asked for whatever target, a
  callback that succeeds redirects to that target if it is a path of the site, to the start page if it is not, or
  to the page of the accounts that await approval; one that fails redirects to the login page with the code
  of its error: forbidden, a failed authentication, an invalid request, or else a failed sign-in. A path of the
  site starts with one slash and holds no second one after it, no backslash and no control character, so no browser
  takes it for another host.\<close>

theorem sso_stays_on_site:
  assumes c: "crypto_ok (ac_crypto (ap_auth app))"
    and login: "oidc_login app j (Some (pv, req)) nxt s = (Inr (Redirect location [cookie]), t)"
    and j: "reads_back j (login_payload req nxt (hub_clock (sv_hub s) (hub_tick (sv_hub s))))"
    and hs: "map_of hs ''cookie'' = Some (cookie_pair cookie)"
    and callback: "oidc_callback app gl j (Some pv) hs q s' = (Inr (Redirect l cs), t')"
  shows "\<exists>path. l = Some path \<and> site_relative path \<and>
     (case fst (run_callback app gl j pv hs q s') of
        Inr _ \<Rightarrow> path = ''/pending'' \<or> path = (case nxt of Some n \<Rightarrow> (if site_relative n then n else ''/'') | None \<Rightarrow> ''/'')
      | Inl e \<Rightarrow> path = (case e of
            Forbidden _ \<Rightarrow> ''/login?error=forbidden''
          | Auth _ \<Rightarrow> ''/login?error=auth_failed''
          | Validation _ \<Rightarrow> ''/login?error=invalid_request''
          | _ \<Rightarrow> ''/login?error=sso_failed''))"
proof -
  from state_cookie_target [OF c login j hs] obtain tok where tok: "state_cookie hs = Inr tok"
    and target: "\<And>st now p. callback_payload app j tok st now = Inr p \<Longrightarrow> sp_next p = validated_next nxt" by blast
  obtain r u where run: "run_callback app gl j pv hs q s' = (r, u)" by (cases "run_callback app gl j pv hs q s'")
  show ?thesis
  proof (cases r)
    case (Inl e)
    with callback run have "Redirect l cs = redirect_to_login e (Some (build_clearing_state_cookie (ap_secure app)))"
      by (auto simp: oidc_callback_def page_or_def op_try_def op_bind_def split: error.splits)
    then show ?thesis using run Inl
      by (cases e) (simp_all add: redirect_to_login_def error_code_def error_codes site_pages)
  next
    case (Inr pg)
    with callback run have run': "run_callback app gl j pv hs q s' = (Inr (Redirect l cs), t')"
      by (auto simp: oidc_callback_def page_or_def op_try_def op_bind_def)
    then obtain st now p u r where "callback_payload app j tok st now = Inr p"
      and fin: "finish_callback app p u r = (Inr (Redirect l cs), t')"
      using tok by (auto simp: run_callback_def op_bind_Inr)
    from target [OF this(1)] have "sp_next p = validated_next nxt" .
    then show ?thesis using finish_callback_run [OF fin] run'
      by (cases nxt) (auto simp: redirect_to_pending_def validated_next_eq site_pages split: if_splits)
  qed
qed

section \<open>The cookies are header values\<close>

lemma plain_cookie:
  assumes "list_all (\<lambda>b. 32 \<le> byte b \<and> byte b \<noteq> 127 \<or> byte b = 9) a" "list_all token_char tok"
    "list_all (\<lambda>b. 32 \<le> byte b \<and> byte b \<noteq> 127 \<or> byte b = 9) z"
  shows "push_cookie (a @ tok @ z) = Inr (a @ tok @ z)"
proof -
  have "list_all (\<lambda>b. 32 \<le> byte b \<and> byte b \<noteq> 127 \<or> byte b = 9) tok"
    using assms(2) token_char_plain(5) by (fastforce simp: list_all_iff)
  then show ?thesis using assms(1,3) by (simp add: push_cookie_def header_value_def)
qed

lemma digits_plain: "0 \<le> n \<Longrightarrow> list_all (\<lambda>b. 32 \<le> byte b \<and> byte b \<noteq> 127 \<or> byte b = 9) (int_to_dec n)"
  using nat_to_dec_digits [of "nat n"] by (auto simp: int_to_dec_def list_all_iff ascii_defs)

lemma push_state_cookie:
  assumes "crypto_ok c"
  shows "push_cookie (build_state_cookie (sign c k v) secure) = Inr (build_state_cookie (sign c k v) secure)"
proof -
  show ?thesis
    using plain_cookie [of "STATE_COOKIE @ ''=''" "sign c k v"] sign_chars [OF assms]
    unfolding build_state_cookie_def by (simp add: STATE_COOKIE_def STATE_TTL_SECS_def digits_plain)
qed

lemma push_session_cookie:
  assumes "crypto_ok c"
  shows "push_cookie (build_session_cookie c k sid secure) = Inr (build_session_cookie c k sid secure)"
proof -
  show ?thesis
    using plain_cookie [of "SESSION_COOKIE @ ''=''" "sign c k sid"] sign_chars [OF assms]
    unfolding build_session_cookie_def by (simp add: SESSION_COOKIE_def SESSION_TTL_DAYS_def digits_plain)
qed

section \<open>At the example instance\<close>

text \<open>The fields in letters, separated by dots.\<close>

definition letter_codec :: state_codec where
  "letter_codec =
     \<lparr>sc_print = (\<lambda>p. str_join ''.'' [letters (sp_state p), letters (sp_nonce p), letters (sp_pkce_verifier p),
        (case sp_next p of None \<Rightarrow> [] | Some n \<Rightarrow> CHR ''n'' # letters n),
        letters [char_of (nat (sp_expires_at p) div 256), char_of (nat (sp_expires_at p) mod 256)]]),
      sc_parse = (\<lambda>s. case split_on (\<lambda>b. b = CHR ''.'') s of
         [a, b, c, n, e] \<Rightarrow>
           (case (unletters a, unletters b, unletters c, unletters (drop 1 n), unletters e) of
              (Some st, Some no, Some v, Some nxt, Some [h, l]) \<Rightarrow>
                Some \<lparr>sp_state = st, sp_nonce = no, sp_pkce_verifier = v, sp_next = (if n = [] then None else Some nxt),
                      sp_expires_at = int (byte h * 256 + byte l)\<rparr>
            | _ \<Rightarrow> None)
       | _ \<Rightarrow> None)\<rparr>"

definition example_authorize :: authorize_request where
  "example_authorize = \<lparr>ar_url = ''https://idp/'', ar_csrf_state = ''c'', ar_nonce = ''n'', ar_pkce_verifier = ''v''\<rparr>"

definition example_provider :: oidc_provider where
  "example_provider =
     \<lparr>pv_exchange_code = (\<lambda>code v n. if code = ''k'' \<and> v = ''v'' \<and> n = ''n''
        then Inr \<lparr>cl_email = ''b@c'', cl_email_verified = True, cl_display_name = ''Bob'', cl_groups = []\<rparr>
        else Inl (Auth ''bad code'')),
      pv_provider_name = ''idp'', pv_allowed_email_domains = [''c''], pv_require_approval = False\<rparr>"

definition example_state_cookie :: string where
  "example_state_cookie = build_state_cookie (encode_state_cookie letter_crypto letter_codec ''key'' ''c'' ''n'' ''v''
     (validated_next (Some ''/x'')) 0) True"

definition example_back :: headers where
  "example_back = [(''cookie'', cookie_pair example_state_cookie)]"

lemma example_flow:
  "push_cookie example_state_cookie = Inr example_state_cookie" "set_location ''https://idp/'' = Inr ''https://idp/''"
  "cookie_secure ''https://s''" "reads_back letter_codec (login_payload example_authorize (Some ''/x'') 5)"
  "validated_next (Some ''/x'') = Some ''/x''"
proof -
  show "validated_next (Some ''/x'') = Some ''/x''" by code_simp
  show "cookie_secure ''https://s''" by code_simp
  show "set_location ''https://idp/'' = Inr ''https://idp/''" by code_simp
  then show "push_cookie example_state_cookie = Inr example_state_cookie"
    unfolding example_state_cookie_def encode_state_cookie_def by (simp add: push_state_cookie)
  have x: "validated_next (Some ''/x'') = Some ''/x''" by code_simp
  show "reads_back letter_codec (login_payload example_authorize (Some ''/x'') 5)"
    by (simp add: x reads_back_def letter_codec_def login_payload_def example_authorize_def from_utf8_def char_width_def)
      code_simp
qed

lemma example_login_redirect:
  "oidc_login example_app letter_codec (Some (example_provider, example_authorize)) (Some ''/x'') example_server =
     (Inr (Redirect (Some ''https://idp/'') [example_state_cookie]),
      example_server\<lparr>sv_hub := (sv_hub example_server)\<lparr>hub_tick := 6\<rparr>\<rparr>)"
  using example_flow
  by (simp add: oidc_login_def page_or_def op_bind_def op_try_def build_login_redirect_def clock_now_def example_state_cookie_def
      example_auth_def example_authorize_def)

theorem state_cookie_carries_flow_witness:
  "\<exists>tok. state_cookie example_back = Inr tok \<and> callback_payload example_app letter_codec tok ''c'' 7 =
       Inr \<lparr>sp_state = ''c'', sp_nonce = ''n'', sp_pkce_verifier = ''v'', sp_next = Some ''/x'', sp_expires_at = 600\<rparr> \<and>
     callback_payload example_app letter_codec tok ''d'' 7 = Inl (Auth ''OIDC state mismatch'') \<and>
     callback_payload example_app letter_codec tok ''c'' 600000000000 = Inl (Auth ''OIDC state expired'')"
  using state_cookie_carries_flow [OF _ example_login_redirect, of example_back] example_flow
  by (auto simp: example_auth_def example_back_def example_authorize_def login_payload_def)

definition example_query :: callback_query where
  "example_query = \<lparr>cq_code = Some ''k'', cq_state = Some ''c''\<rparr>"

definition example_grants :: grant_lib where
  "example_grants = \<lparr>gl_env = (\<lambda>_ d. d), gl_policy = default_write_policy, gl_lower = (\<lambda>s. s)\<rparr>"

text \<open>Bob signs in for the first time.\<close>

lemma example_callback:
  "\<exists>t. run_callback example_app example_grants letter_codec example_provider example_back example_query example_server =
     (Inr (Redirect (Some ''/x'') [build_session_cookie letter_crypto ''key'' (nat_to_dec 2) True,
        build_clearing_state_cookie True]), t)"
proof -
  let ?claims = "\<lparr>cl_email = ''b@c'', cl_email_verified = True, cl_display_name = ''Bob'', cl_groups = []\<rparr>"
  let ?p = "\<lparr>sp_state = ''c'', sp_nonce = ''n'', sp_pkce_verifier = ''v'', sp_next = Some ''/x'', sp_expires_at = 600\<rparr>"
  have sent: "map_of example_back ''cookie'' = Some (cookie_pair example_state_cookie)" by (simp add: example_back_def)
  have crypto: "crypto_ok (ac_crypto (ap_auth example_app))" by (simp add: example_auth_def)
  obtain tok where tok: "state_cookie example_back = Inr tok" "callback_payload example_app letter_codec tok ''c'' 5 = Inr ?p"
    using state_cookie_back(2) [OF crypto example_login_redirect _ sent] example_flow
    by (auto simp: example_authorize_def login_payload_def)
  have allowed: "email_domain_allowed ''b@c'' [''c'']" by code_simp
  let ?s1 = "example_server\<lparr>sv_hub := (sv_hub example_server)\<lparr>hub_tick := 6\<rparr>\<rparr>"
  have calm: "faults logged_in = []" "List.find (\<lambda>u. usr_email u = ''b@c'') (db_users logged_in) = None"
    "rng_uuid logged_in = nat_to_dec" "user_ids logged_in = [''u'']"
    by (simp_all add: logged_in_def example_world_def example_db_def example_user_def user_row_def)
  have new: "nat_to_dec 1 \<noteq> ''u''" "nat_to_dec 2 \<noteq> ''0''" by code_simp+
  obtain u s2 where account: "find_or_create example_app example_provider ?claims ?s1 = (Inr u, s2)"
    and u: "usr_id u = nat_to_dec 1" "usr_status u = Active"
    and s2: "faults (sv_db s2) = []" "rng_pos (sv_db s2) = 2" "rng_short (sv_db s2) = nat_to_dec"
      "db_sessions (sv_db s2) = [example_session]" "nat_to_dec 1 \<in> set (user_ids (sv_db s2))"
      "hub_clock (sv_hub s2) = int" "hub_tick (sv_hub s2) = 7"
  proof -
    let ?n = "sso_member example_provider ?claims"
    let ?d = "logged_in\<lparr>rng_pos := 2, db_users := db_users logged_in @ [user_row (nat_to_dec 1) 6 ?n]\<rparr>"
    have found: "on_tables (find_user_by_email ''b@c'') ?s1 = (Inr None, ?s1)"
      using calm by (simp add: on_tables_def find_user_by_email_def select_user_def select_calm set_db_def)
    have n: "nu_email ?n = ''b@c''" "nu_status ?n = Active" by (simp_all add: sso_member_def example_provider_def)
    have mails: "''b@c'' \<notin> set (map usr_email (db_users logged_in))" "nat_to_dec 1 \<notin> set (map usr_id (db_users logged_in))"
      using calm(2,4) new(1) by (auto simp: find_None_iff)
    have body: "create_account_body False (nat_to_dec 1) 6 ?n False (logged_in\<lparr>rng_pos := 2\<rparr>) = (Inr (), ?d)"
      using mails n by (simp add: create_account_body_def)
    have "create_user (ap_env example_app) (ap_assign_default_teams example_app) 6 ?n logged_in = (Inr (user_row (nat_to_dec 1) 6 ?n), ?d)"
      using calm body
      by (simp add: create_user_def create_account_def Let_def numeral_2_eq_2 retry_write_def transaction_no_fault retry_from_Ok)
    then have "timed (\<lambda>now. create_user (ap_env example_app) (ap_assign_default_teams example_app) now ?n) ?s1 =
        (Inr (user_row (nat_to_dec 1) 6 ?n), set_db ?d (?s1\<lparr>sv_hub := (sv_hub ?s1)\<lparr>hub_tick := 7\<rparr>\<rparr>))"
      by (simp add: timed_def op_bind_def clock_now_def on_tables_def set_db_def)
    with found have "find_or_create example_app example_provider ?claims ?s1 =
        (Inr (user_row (nat_to_dec 1) 6 ?n), set_db ?d (?s1\<lparr>sv_hub := (sv_hub ?s1)\<lparr>hub_tick := 7\<rparr>\<rparr>))"
      by (simp add: find_or_create_def op_bind_def sso_member_def)
    then show ?thesis by (rule that) (use calm n in \<open>simp_all add: user_row_def set_db_def\<close>)
  qed
  have grants: "sync_grants example_app example_grants [] u s2 = (Inr u, s2)"
    by (simp add: sync_grants_def default_management_def)
  obtain t where "finish_callback example_app ?p u s2 = (Inr (Redirect (Some ''/x'')
      [build_session_cookie letter_crypto ''key'' (nat_to_dec 2) True, build_clearing_state_cookie True]), t)"
  proof -
    have "dt_add_seconds 7 (SESSION_TTL_DAYS * 86400) = Inr (7 + secs (SESSION_TTL_DAYS * 86400))"
      by (intro dt_add_seconds_ok) (simp_all add: SESSION_TTL_DAYS_def)
    moreover have "push_cookie (build_clearing_state_cookie True) = Inr (build_clearing_state_cookie True)"
      "set_location ''/x'' = Inr ''/x''" by code_simp+
    ultimately show ?thesis
      using s2 u new example_flow(3) push_session_cookie [OF letter_crypto_ok, of "''key''" "nat_to_dec 2" True]
      by (intro that) (auto simp: finish_callback_def is_pending_def op_bind_def open_session_def timed_def clock_now_def
        on_tables_def start_session_def create_session_def transaction_def example_auth_def Let_def)
  qed
  then show ?thesis
    using tok account grants allowed
    by (simp add: run_callback_def op_bind_def example_query_def required_param_def non_empty_def clock_now_def
        example_provider_def claims_accepted_def)
qed

text \<open>One session is opened, that of the new member.\<close>

theorem sso_admits_only_verified_witness:
  "\<exists>pg t u x. run_callback example_app example_grants letter_codec example_provider example_back example_query example_server =
      (Inr pg, t) \<and> entered example_app example_provider
        \<lparr>cl_email = ''b@c'', cl_email_verified = True, cl_display_name = ''Bob'', cl_groups = []\<rparr> logged_in (nat_to_dec 1) \<and>
      u \<in> set (db_users (sv_db t)) \<and> usr_id u = nat_to_dec 1 \<and> usr_status u \<noteq> Pending \<and>
      ses_user_id x = nat_to_dec 1 \<and> db_sessions (sv_db t) = db_sessions logged_in @ [x]"
proof -
  obtain cs t where run: "run_callback example_app example_grants letter_codec example_provider example_back example_query
      example_server = (Inr (Redirect (Some ''/x'') cs), t)" using example_callback by blast
  have none: "List.find (\<lambda>u. usr_email u = ''b@c'') (db_users logged_in) = None" "rng_uuid logged_in = nat_to_dec"
    "rng_pos logged_in = 1"
    by (simp_all add: logged_in_def example_world_def example_db_def example_user_def user_row_def)
  let ?claims = "\<lparr>cl_email = ''b@c'', cl_email_verified = True, cl_display_name = ''Bob'', cl_groups = []\<rparr>"
  have kept: "filter (\<lambda>y. ses_user_id y = uid \<longrightarrow> \<not> converts example_app ?claims logged_in) xs = xs" for uid xs
    using none by (simp add: converts_def)
  have alone: "undisturbed_accounts example_app example_grants"
    by (simp add: undisturbed_accounts_def keeps_accounts_def example_app_def example_grants_def)
  from sso_admits_only_verified [OF run] alone obtain code p claims uid u where
    ex: "pv_exchange_code example_provider code (sp_pkce_verifier p) (sp_nonce p) = Inr claims"
    and ent: "entered example_app example_provider claims (sv_db example_server) uid"
    and u: "u \<in> set (db_users (sv_db t))" "usr_id u = uid"
    and page: "let kept = filter (\<lambda>y. ses_user_id y = uid \<longrightarrow> \<not> converts example_app claims (sv_db example_server))
           (db_sessions (sv_db example_server))
       in if usr_status u = Pending
          then Redirect (Some ''/x'') cs = redirect_to_pending (ap_secure example_app) \<and> db_sessions (sv_db t) = kept
          else \<exists>x. ses_user_id x = uid \<and> Redirect (Some ''/x'') cs = signed_in_page example_app p x \<and> db_sessions (sv_db t) = kept @ [x]"
    by blast
  have claims: "claims = ?claims" using ex by (auto simp: example_provider_def split: if_splits)
  with ent none have uid: "uid = nat_to_dec 1" by (simp add: entered_def)
  from page obtain x where "usr_status u \<noteq> Pending" "ses_user_id x = uid" "db_sessions (sv_db t) = db_sessions logged_in @ [x]"
    unfolding claims example_tables(1) kept by (auto simp: Let_def redirect_to_pending_def split: if_splits)
  with run ent u show ?thesis unfolding claims uid example_tables(1) by blast
qed

theorem sso_stays_on_site_witness: "site_relative ''/x'' \<and> \<not> site_relative ''//x'' \<and> \<not> site_relative ''https://idp/''"
proof -
  obtain cs t where run: "oidc_callback example_app example_grants letter_codec (Some example_provider) example_back example_query
      example_server = (Inr (Redirect (Some ''/x'') cs), t)"
    using example_callback by (auto simp: oidc_callback_def page_or_def op_bind_def op_try_def)
  have crypto: "crypto_ok (ac_crypto (ap_auth example_app))" by (simp add: example_auth_def)
  from sso_stays_on_site [OF crypto example_login_redirect _ _ run] example_flow show ?thesis
    by (simp add: example_back_def) (simp add: site_relative_def)
qed

end
