(* ===== verification/Passkeys.thy ===== *)
theory Passkeys
  imports AuthHandlers Config
begin

text \<open>
  Passkeys: the one-use challenges of \<open>src/adapters/sqlite/auth_challenge.rs\<close>, the ceremony state of
  \<open>src/auth/passkey.rs\<close>, and the handlers of \<open>src/auth/passkey_handlers.rs\<close> for signing in
  with a credential and for managing one's own.

  The WebAuthn library is an argument: its values (ceremony states, credentials, responses) are
  represented by their JSON texts.
\<close>

section \<open>Challenges\<close>

text \<open>A statement on the table of challenges consumes one entry of the fault script of the database. The
  purge takes the rows that expired first, the order of the index it reads.\<close>

type_synonym server_env = "nat \<Rightarrow> server \<Rightarrow> server"

definition purge_expired :: "timestamp \<Rightarrow> challenge list \<Rightarrow> challenge list" where
  "purge_expired now cs =
     (let gone = map ch_id (take (nat (delete_batch default_write_policy))
        (sort_key ch_expires_at (filter (\<lambda>c. ch_expires_at c \<le> now) cs))) in
      filter (\<lambda>c. ch_id c \<notin> set gone) cs)"

definition store_body :: "challenge \<Rightarrow> timestamp \<Rightarrow> (server, unit) op" where
  "store_body c now s =
     (let rest = purge_expired now (sv_challenges s) in
      if ch_id c \<in> set (map ch_id rest) then
        (Inl (Db (Database (DriverError (Some ''1555'') ''UNIQUE constraint failed: auth_challenges.id''))), s)
      else (Inr (), s\<lparr>sv_challenges := rest @ [c]\<rparr>))"

definition store_challenge :: "server_env \<Rightarrow> challenge \<Rightarrow> (server, unit) op" where
  "store_challenge env c =
     retry_write env default_write_policy ''store authentication challenge''
       (op_bind stmt (\<lambda>_. op_bind clock_now (store_body c)))"

definition take_body :: "string \<Rightarrow> string \<Rightarrow> timestamp \<Rightarrow> (server, string option) op" where
  "take_body handle purpose now s =
     (case List.find (\<lambda>c. ch_id c = handle \<and> ch_purpose c = purpose \<and> now < ch_expires_at c) (sv_challenges s) of
        None \<Rightarrow> (Inr None, s)
      | Some c \<Rightarrow>
          (Inr (Some (ch_state c)), s\<lparr>sv_challenges := filter (\<lambda>c. \<not> (ch_id c = handle \<and> ch_purpose c = purpose \<and>
             now < ch_expires_at c)) (sv_challenges s)\<rparr>))"

definition take_stored :: "server_env \<Rightarrow> string \<Rightarrow> string \<Rightarrow> timestamp \<Rightarrow> (server, string option) op" where
  "take_stored env handle purpose now =
     retry_write env default_write_policy ''consume authentication challenge''
       (op_bind stmt (\<lambda>_. take_body handle purpose now))"

section \<open>Ceremony state\<close>

definition PASSKEY_REGISTRATION_COOKIE :: string where "PASSKEY_REGISTRATION_COOKIE = ''soika_passkey_reg''"
definition PASSKEY_AUTHENTICATION_COOKIE :: string where "PASSKEY_AUTHENTICATION_COOKIE = ''soika_passkey_auth''"

record challenge_payload =
  cp_state :: string
  cp_user_id :: "uuid option"
  cp_expires_at :: int

text \<open>\<open>serde_json\<close> on a payload; the two ceremonies have states of different types, so each has its
  own reader.\<close>

record challenge_codec =
  cc_print :: "challenge_payload \<Rightarrow> string"
  cc_parse :: "string \<Rightarrow> challenge_payload option"

text \<open>Sums of \<open>i64\<close> wrap in the release build.\<close>

definition wrap_i64 :: "int \<Rightarrow> int" where
  "wrap_i64 n = (n + 9223372036854775808) mod 18446744073709551616 - 9223372036854775808"

definition encode_challenge ::
  "crypto \<Rightarrow> challenge_codec \<Rightarrow> string \<Rightarrow> string \<Rightarrow> uuid option \<Rightarrow> int \<Rightarrow> int \<Rightarrow> string" where
  "encode_challenge c j secret_key st user_id now_unix ttl_secs =
     sign c secret_key (cc_print j \<lparr>cp_state = st, cp_user_id = user_id, cp_expires_at = wrap_i64 (now_unix + ttl_secs)\<rparr>)"

definition decode_challenge :: "crypto \<Rightarrow> challenge_codec \<Rightarrow> string \<Rightarrow> string \<Rightarrow> int \<Rightarrow> challenge_payload res" where
  "decode_challenge c j secret_key token now_unix =
     (case verify_str c secret_key token of
        Inl e \<Rightarrow> Inl e
      | Inr json \<Rightarrow>
          (case cc_parse j json of
             None \<Rightarrow> Inl (Auth ''malformed passkey state'')
           | Some p \<Rightarrow> (if cp_expires_at p \<le> now_unix then Inl (Auth ''passkey challenge expired'') else Inr p)))"

definition build_challenge_cookie :: "string \<Rightarrow> string \<Rightarrow> int \<Rightarrow> bool \<Rightarrow> string" where
  "build_challenge_cookie name value ttl_secs secure =
     name @ ''='' @ value @ ''; HttpOnly; SameSite=Lax; Path=/; Max-Age='' @ int_to_dec ttl_secs @
     (if secure then ''; Secure'' else [])"

definition build_clearing_challenge_cookie :: "string \<Rightarrow> bool \<Rightarrow> string" where
  "build_clearing_challenge_cookie name secure =
     name @ ''=; HttpOnly; SameSite=Lax; Path=/; Max-Age=0'' @ (if secure then ''; Secure'' else [])"

text \<open>The credential id travels in URL-safe base64.\<close>

definition encode_credential_id :: "crypto \<Rightarrow> string \<Rightarrow> string" where
  "encode_credential_id c bytes = b64_encode c bytes"

definition decode_credential_id :: "crypto \<Rightarrow> (string \<Rightarrow> string) \<Rightarrow> string \<Rightarrow> string res" where
  "decode_credential_id c b64_error encoded =
     (case b64_decode c encoded of
        Some bytes \<Rightarrow> Inr bytes
      | None \<Rightarrow> Inl (Internal (''stored credential id is unreadable: '' @ b64_error encoded)))"

section \<open>The relying party\<close>

text \<open>The options of a registration as far as the handlers change them: the selection criteria of the
  authenticator; and those of a request, with the mediation hint.\<close>

record selection =
  sl_resident_key :: "string option"
  sl_require_resident_key :: bool
  sl_rest :: string

record creation_options =
  co_selection :: "selection option"
  co_rest :: string

record request_options =
  ro_mediation :: "string option"
  ro_rest :: string

record webauthn =
  wa_start_authentication :: "string + request_options \<times> string"
  wa_start_registration :: "uuid \<Rightarrow> string \<Rightarrow> string \<Rightarrow> string list \<Rightarrow> string + creation_options \<times> string"
  wa_identify :: "string \<Rightarrow> (uuid \<times> string) option"
  wa_finish_authentication :: "string \<Rightarrow> string \<Rightarrow> string list \<Rightarrow> string + string"
  wa_finish_registration :: "string \<Rightarrow> string \<Rightarrow> string + string"
  wa_update_credential :: "string \<Rightarrow> string \<Rightarrow> string"
  wa_credential_id :: "string \<Rightarrow> string"
  wa_parse_credential :: "string \<Rightarrow> string + string"
  wa_b64_error :: "string \<Rightarrow> string"
  wa_authentication_codec :: challenge_codec
  wa_registration_codec :: challenge_codec
  wa_env :: server_env

definition credential_id_b64 :: "crypto \<Rightarrow> webauthn \<Rightarrow> string \<Rightarrow> string" where
  "credential_id_b64 c wa key = b64_encode c (wa_credential_id wa key)"

type_synonym passkeys = "(webauthn \<times> passkey_config) option"

definition require_passkeys :: "passkeys \<Rightarrow> (webauthn \<times> passkey_config) res" where
  "require_passkeys pk = (case pk of Some w \<Rightarrow> Inr w | None \<Rightarrow> Inl (NotFound ''passkeys are not enabled''))"

definition require_discoverable :: "creation_options \<Rightarrow> creation_options" where
  "require_discoverable o' =
     o'\<lparr>co_selection := map_option (\<lambda>x. x\<lparr>sl_resident_key := Some ''required'', sl_require_resident_key := True\<rparr>)
          (co_selection o')\<rparr>"

definition strip_mediation :: "request_options \<Rightarrow> request_options" where
  "strip_mediation o' = o'\<lparr>ro_mediation := None\<rparr>"

definition webauthn_start_error :: "string \<Rightarrow> error" where
  "webauthn_start_error e = Internal (''could not start the passkey ceremony: '' @ e)"

definition parse_credential :: "webauthn \<Rightarrow> passkey \<Rightarrow> string res" where
  "parse_credential wa stored =
     (case wa_parse_credential wa (pk_credential stored) of
        Inr key \<Rightarrow> Inr key | Inl e \<Rightarrow> Inl (Internal (''stored passkey is unreadable: '' @ e)))"

text \<open>A library call that gives an error text.\<close>

definition lib_res :: "(string \<Rightarrow> error) \<Rightarrow> string + 'a \<Rightarrow> (server, 'a) op" where
  "lib_res f r = (case r of Inl e \<Rightarrow> op_err (f e) | Inr v \<Rightarrow> op_ok v)"

text \<open>\<open>as_secs() as i64\<close>.\<close>

definition ttl_of :: "passkey_config \<Rightarrow> int" where
  "ttl_of config = wrap_i64 (int (pf_challenge_ttl config div 1000000000))"

definition challenge_cookie ::
  "app \<Rightarrow> webauthn \<Rightarrow> challenge_codec \<Rightarrow> passkey_config \<Rightarrow> string \<Rightarrow> string \<Rightarrow> uuid option \<Rightarrow> (server, string) op" where
  "challenge_cookie app wa j config name ceremony user_id =
     (let ttl_secs = ttl_of config in
      op_bind clock_now (\<lambda>now.
      op_bind new_token (\<lambda>handle.
      op_bind clock_now (\<lambda>later.
      op_bind (op_res (dt_add_seconds later ttl_secs)) (\<lambda>expires_at.
      op_bind (store_challenge (wa_env wa)
        \<lparr>ch_id = handle, ch_purpose = name,
         ch_state = encode_challenge (ac_crypto (ap_auth app)) j (ac_secret_key (ap_auth app)) ceremony user_id
           (now div 1000000000) ttl_secs,
         ch_expires_at = expires_at\<rparr>) (\<lambda>_.
      op_ok (build_challenge_cookie name handle ttl_secs (cookie_secure (ap_base_url app)))))))))"

definition take_challenge ::
  "app \<Rightarrow> webauthn \<Rightarrow> challenge_codec \<Rightarrow> string \<Rightarrow> string \<Rightarrow> (server, challenge_payload) op" where
  "take_challenge app wa j handle purpose =
     op_bind clock_now (\<lambda>now.
     op_bind (take_stored (wa_env wa) handle purpose now) (\<lambda>found_state.
       case found_state of
         None \<Rightarrow> op_err (Auth ''passkey challenge expired or already used'')
       | Some token \<Rightarrow>
           op_bind clock_now (\<lambda>later.
           op_res (decode_challenge (ac_crypto (ap_auth app)) j (ac_secret_key (ap_auth app)) token (later div 1000000000)))))"

definition required_field_auth :: "string \<Rightarrow> string option \<Rightarrow> (server, string) op" where
  "required_field_auth message x = (case x of Some v \<Rightarrow> op_ok v | None \<Rightarrow> op_err (Auth message))"

section \<open>Signing in\<close>

definition PASSKEY_LOCKOUT_SUBJECT :: string where "PASSKEY_LOCKOUT_SUBJECT = ''passkey''"

text \<open>A body with its cookies, or the refusal that clears the ceremony cookie.\<close>

datatype 'a ceremony_answer = Answered 'a "string list" | Declined failure "string list"

definition passkey_key :: "string option \<Rightarrow> string" where
  "passkey_key peer = lockout_key (client_ip peer) PASSKEY_LOCKOUT_SUBJECT"

text \<open>A locked key answers 429 here, without \<open>Retry-After\<close>.\<close>

definition passkey_not_locked :: "string \<Rightarrow> (server, unit) op" where
  "passkey_not_locked key =
     op_bind instant_now (\<lambda>now s.
       case check_lock_at (sv_guard s) key now of
         Locked _ \<Rightarrow> (Inl RateLimited, s)
       | Allowed \<Rightarrow> (Inr (), s))"

text \<open>One bucket of the ingest limiter bounds the anonymous challenges of everyone.\<close>

definition challenge_limit :: "(server, 'e, decision) run" where
  "challenge_limit =
     op_bind instant_now (\<lambda>now s.
       case check_at (sv_limiter s) ''auth:passkey-options'' now of (d, l) \<Rightarrow> (Inr d, s\<lparr>sv_limiter := l\<rparr>))"

definition start_ceremony :: "app \<Rightarrow> webauthn \<Rightarrow> passkey_config \<Rightarrow> string option \<Rightarrow> (server, request_options \<times> string) op" where
  "start_ceremony app wa config peer =
     op_bind (passkey_not_locked (passkey_key peer)) (\<lambda>_.
     op_bind (lib_res webauthn_start_error (wa_start_authentication wa)) (\<lambda>(options, ceremony).
     op_bind (challenge_cookie app wa (wa_authentication_codec wa) config PASSKEY_AUTHENTICATION_COOKIE ceremony None) (\<lambda>cookie.
     op_ok (strip_mediation options, cookie))))"

definition login_options ::
  "app \<Rightarrow> passkeys \<Rightarrow> string option \<Rightarrow> (server, failure, request_options ceremony_answer) run" where
  "login_options app pk peer =
     op_bind (answer (auth_error app) (op_res (require_passkeys pk))) (\<lambda>(wa, config).
     op_bind challenge_limit (\<lambda>limit.
       case limit of
         Limited retry_after \<Rightarrow> op_err (RetryAfter (nat retry_after))
       | Allow \<Rightarrow>
           op_bind (answer (auth_error app) (start_ceremony app wa config peer)) (\<lambda>(options, cookie).
           op_ok (Answered options [cookie]))))"

text \<open>The stored credential the assertion names, if the named account owns it.\<close>

definition owned_credential :: "app \<Rightarrow> uuid \<Rightarrow> string \<Rightarrow> (server, passkey option) op" where
  "owned_credential app uid cid =
     op_bind (on_tables (find_by_credential_id (encode_credential_id (ac_crypto (ap_auth app)) cid))) (\<lambda>row.
     op_ok (case row of Some k \<Rightarrow> (if pk_user_id k = uid then Some k else None) | None \<Rightarrow> None))"

definition complete_login ::
  "app \<Rightarrow> webauthn \<Rightarrow> string \<Rightarrow> uuid \<Rightarrow> passkey \<Rightarrow> string \<Rightarrow> string \<Rightarrow> (server, user_view ceremony_answer) op" where
  "complete_login app wa key uid stored credential result =
     op_bind (on_tables (find_user_by_id uid)) (\<lambda>row.
       case row of
         None \<Rightarrow> op_err (Auth ''passkey is not recognised'')
       | Some u \<Rightarrow>
           (if is_pending (usr_status u) then op_err (Forbidden ''account is awaiting approval'')
            else
              op_bind clock_now (\<lambda>now.
              op_bind (on_tables (touch_passkey (ap_repo app) (pk_id stored) (wa_update_credential wa credential result) now)) (\<lambda>_.
              op_bind (note_success key) (\<lambda>_.
              op_bind (open_session app (usr_id u)) (\<lambda>(_, cookie).
              op_ok (Answered (user_view_of (admin_users_apply (ap_admin_users app) u))
                [cookie, build_clearing_challenge_cookie PASSKEY_AUTHENTICATION_COOKIE (cookie_secure (ap_base_url app))])))))))"

definition judge_assertion ::
  "app \<Rightarrow> webauthn \<Rightarrow> string \<Rightarrow> string \<Rightarrow> challenge_payload \<Rightarrow> (server, user_view ceremony_answer) op" where
  "judge_assertion app wa key assertion payload =
     (case wa_identify wa assertion of
        None \<Rightarrow> op_err (Auth ''passkey is not recognised'')
      | Some (uid, cid) \<Rightarrow>
          op_bind (owned_credential app uid cid) (\<lambda>owned.
            case owned of
              None \<Rightarrow> op_bind (note_failure key) (\<lambda>_. op_err (Auth ''passkey is not recognised''))
            | Some stored \<Rightarrow>
                op_bind (op_res (parse_credential wa stored)) (\<lambda>credential.
                  case wa_finish_authentication wa assertion (cp_state payload) [credential] of
                    Inl _ \<Rightarrow>
                      op_bind (note_failure key) (\<lambda>_.
                      op_ok (Declined (auth_error app (Auth ''passkey verification failed''))
                        [build_clearing_challenge_cookie PASSKEY_AUTHENTICATION_COOKIE (cookie_secure (ap_base_url app))]))
                  | Inr result \<Rightarrow> complete_login app wa key uid stored credential result)))"

definition login_verify_op ::
  "app \<Rightarrow> passkeys \<Rightarrow> headers \<Rightarrow> string option \<Rightarrow> string \<Rightarrow> (server, user_view ceremony_answer) op" where
  "login_verify_op app pk hs peer assertion =
     op_bind (op_res (require_passkeys pk)) (\<lambda>(wa, _).
     op_bind (passkey_not_locked (passkey_key peer)) (\<lambda>_.
     op_bind (required_field_auth ''no passkey challenge in progress'' (read_cookie hs PASSKEY_AUTHENTICATION_COOKIE)) (\<lambda>handle.
     op_bind (take_challenge app wa (wa_authentication_codec wa) handle PASSKEY_AUTHENTICATION_COOKIE) (\<lambda>payload.
     judge_assertion app wa (passkey_key peer) assertion payload))))"

definition login_verify ::
  "app \<Rightarrow> passkeys \<Rightarrow> headers \<Rightarrow> string option \<Rightarrow> string \<Rightarrow> (server, failure, user_view ceremony_answer) run" where
  "login_verify app pk hs peer assertion = answer (auth_error app) (login_verify_op app pk hs peer assertion)"

section \<open>Managing one's credentials\<close>

record passkey_view =
  kv_id :: uuid
  kv_name :: string
  kv_created_at :: timestamp
  kv_last_used_at :: "timestamp option"

definition passkey_view_of :: "passkey \<Rightarrow> passkey_view" where
  "passkey_view_of k =
     \<lparr>kv_id = pk_id k, kv_name = pk_name k, kv_created_at = pk_created_at k, kv_last_used_at = pk_last_used_at k\<rparr>"

definition DEFAULT_PASSKEY_NAME :: string where "DEFAULT_PASSKEY_NAME = ''Passkey''"

definition passkey_name :: "string \<Rightarrow> string res" where
  "passkey_name raw =
     (case normalize_passkey_name raw DEFAULT_PASSKEY_NAME of Inl m \<Rightarrow> Inl (Validation m) | Inr n \<Rightarrow> Inr n)"

definition passkey_list :: "app \<Rightarrow> passkeys \<Rightarrow> user \<Rightarrow> passkey_view list handler" where
  "passkey_list app pk u = rendered app (
     op_bind (op_res (require_passkeys pk)) (\<lambda>_.
     op_bind (on_tables (list_passkeys_for_user (usr_id u))) (\<lambda>ks. op_ok (200, map passkey_view_of ks))))"

definition below_quota :: "passkey_config \<Rightarrow> int \<Rightarrow> unit res" where
  "below_quota config registered =
     (if pf_max_per_user config \<le> registered
      then Inl (Validation (''at most '' @ int_to_dec (pf_max_per_user config) @ '' passkeys can be registered per user''))
      else Inr ())"

fun decode_ids :: "crypto \<Rightarrow> (string \<Rightarrow> string) \<Rightarrow> passkey list \<Rightarrow> string list res" where
  "decode_ids c e [] = Inr []"
| "decode_ids c e (k # ks) =
     and_then (decode_credential_id c e (pk_credential_id k)) (\<lambda>i. and_then (decode_ids c e ks) (\<lambda>is'. Inr (i # is')))"

definition register_options_op :: "app \<Rightarrow> passkeys \<Rightarrow> user \<Rightarrow> (server, creation_options ceremony_answer) op" where
  "register_options_op app pk u =
     op_bind (op_res (require_passkeys pk)) (\<lambda>(wa, config).
     op_bind (on_tables (count_passkeys_for_user (usr_id u))) (\<lambda>registered.
     op_bind (op_res (below_quota config registered)) (\<lambda>_.
     op_bind (on_tables (list_passkeys_for_user (usr_id u))) (\<lambda>existing.
     op_bind (op_res (decode_ids (ac_crypto (ap_auth app)) (wa_b64_error wa) existing)) (\<lambda>exclude.
     op_bind (lib_res webauthn_start_error (wa_start_registration wa (usr_id u) (usr_email u) (usr_display_name u) exclude)) (\<lambda>(options, ceremony).
     op_bind (challenge_cookie app wa (wa_registration_codec wa) config PASSKEY_REGISTRATION_COOKIE ceremony (Some (usr_id u))) (\<lambda>cookie.
     op_ok (Answered (require_discoverable options) [cookie]))))))))"

definition register_options :: "app \<Rightarrow> passkeys \<Rightarrow> user \<Rightarrow> (server, failure, creation_options ceremony_answer) run" where
  "register_options app pk u = answer (api_error app) (register_options_op app pk u)"

record register_passkey_request =
  rp_name :: "string option"
  rp_credential :: string

text \<open>The part of \<open>register_verify\<close> after the challenge is known to be the caller's.\<close>

definition store_registration ::
  "app \<Rightarrow> webauthn \<Rightarrow> passkey_config \<Rightarrow> user \<Rightarrow> string \<Rightarrow> register_passkey_request \<Rightarrow> challenge_payload \<Rightarrow>
     (server, passkey_view ceremony_answer) op" where
  "store_registration app wa config me name body p =
     op_bind (lib_res (\<lambda>_. Validation ''passkey registration could not be verified'')
           (wa_finish_registration wa (rp_credential body) (cp_state p))) (\<lambda>credential.
       op_bind (on_tables (count_passkeys_for_user (usr_id me))) (\<lambda>registered.
       op_bind (op_res (below_quota config registered)) (\<lambda>_.
       op_bind (timed (\<lambda>now. create_passkey (ap_repo app) now
         \<lparr>nk_user_id = usr_id me, nk_credential_id = credential_id_b64 (ac_crypto (ap_auth app)) wa credential,
          nk_name = name, nk_credential = credential\<rparr>)) (\<lambda>stored.
       op_ok (Answered (passkey_view_of stored)
         [build_clearing_challenge_cookie PASSKEY_REGISTRATION_COOKIE (cookie_secure (ap_base_url app))])))))"

definition register_verify_op ::
  "app \<Rightarrow> passkeys \<Rightarrow> user \<Rightarrow> headers \<Rightarrow> register_passkey_request \<Rightarrow> (server, passkey_view ceremony_answer) op" where
  "register_verify_op app pk u hs body =
     op_bind (op_res (require_passkeys pk)) (\<lambda>(wa, config).
     op_bind (op_res (passkey_name (some_or_empty (rp_name body)))) (\<lambda>name.
     op_bind (required_field_auth ''no passkey registration in progress'' (read_cookie hs PASSKEY_REGISTRATION_COOKIE)) (\<lambda>handle.
     op_bind (take_challenge app wa (wa_registration_codec wa) handle PASSKEY_REGISTRATION_COOKIE) (\<lambda>payload.
     if cp_user_id payload \<noteq> Some (usr_id u) then
       op_err (Auth ''passkey registration does not belong to this session'')
     else
       store_registration app wa config u name body payload))))"

definition register_verify ::
  "app \<Rightarrow> passkeys \<Rightarrow> user \<Rightarrow> headers \<Rightarrow> register_passkey_request \<Rightarrow> (server, failure, passkey_view ceremony_answer) run" where
  "register_verify app pk u hs body = answer (api_error app) (register_verify_op app pk u hs body)"

definition rename_handler :: "app \<Rightarrow> passkeys \<Rightarrow> user \<Rightarrow> uuid \<Rightarrow> string \<Rightarrow> passkey_view handler" where
  "rename_handler app pk u kid name = rendered app (
     op_bind (op_res (require_passkeys pk)) (\<lambda>_.
     op_bind (op_res (passkey_name name)) (\<lambda>name.
     op_bind (on_tables (rename_passkey (ap_repo app) (usr_id u) kid name)) (\<lambda>k. op_ok (200, passkey_view_of k)))))"

definition delete_passkey_handler :: "app \<Rightarrow> passkeys \<Rightarrow> user \<Rightarrow> uuid \<Rightarrow> unit handler" where
  "delete_passkey_handler app pk u kid = rendered app (
     op_bind (op_res (require_passkeys pk)) (\<lambda>_.
     op_bind (on_tables (delete_passkey (ap_repo app) (usr_id u) kid)) (\<lambda>_. op_ok (204, ()))))"

end
