(* ===== verification/PasskeyFacts.thy ===== *)
theory PasskeyFacts
  imports Passkeys AuthFacts
begin

text \<open>
  What passkeys guarantee: a challenge is answered once, a sign-in needs an unexpired challenge of this
  server, a stored credential of the account it names and the library's verification of the answer, and a
  credential is registered only for the account that started the ceremony, within its quota.
\<close>

section \<open>Challenges only go\<close>

text \<open>What one step of a sign-in does to the clock and to the challenges.\<close>

definition later :: "server \<Rightarrow> server \<Rightarrow> bool" where
  "later s t \<longleftrightarrow> hub_clock (sv_hub t) = hub_clock (sv_hub s) \<and> hub_tick (sv_hub s) \<le> hub_tick (sv_hub t) \<and>
     set (sv_challenges t) \<subseteq> set (sv_challenges s)"

interpretation passing: step_relation later
  by unfold_locales (auto simp: later_def)

named_theorems passes

lemmas [passes] = passing.moves_ok passing.moves_bind passing.moves_if

lemma later_set_db [simp]: "later s (set_db d s)"
  by (simp add: later_def set_db_def)

lemma passes_answer [passes]: "moves later m \<Longrightarrow> moves later (answer f m)"
  by (auto intro!: movesI simp: answer_def split: prod.splits sum.splits dest: movesD)

lemma passes_tables [passes]: "moves later (on_tables m)"
  by (auto intro!: movesI simp: on_tables_run)

lemma passes_clocks [passes]: "moves later clock_now" "moves later instant_now"
  by (auto intro!: movesI simp: clock_now_def instant_now_def later_def)

lemma passes_timed [passes]: "moves later (timed m)"
  unfolding timed_def by (intro passes)

lemma passes_guard [passes]: "moves later (note_failure key)" "moves later (note_success key)"
    "moves later (passkey_not_locked key)"
  by (auto intro!: movesI simp: note_failure_run note_success_def passkey_not_locked_def op_bind_def instant_now_def
      later_def split: lockout_decision.splits)

lemma passes_cases [passes]:
  "moves later m \<Longrightarrow> (\<And>v. moves later (f v)) \<Longrightarrow> moves later (case x of None \<Rightarrow> m | Some v \<Rightarrow> f v)"
  "(\<And>e. moves later (g e)) \<Longrightarrow> (\<And>v. moves later (h v)) \<Longrightarrow> moves later (case y of Inl e \<Rightarrow> g e | Inr v \<Rightarrow> h v)"
  "(\<And>a b. moves later (k a b)) \<Longrightarrow> moves later (case z of (a, b) \<Rightarrow> k a b)"
  by (simp_all split: option.splits sum.splits prod.splits)

text \<open>What other connections do between the attempts of a write on the challenges, as far as it is relied on:
  they leave the tables of the accounts alone and store no challenge.\<close>

definition near :: "server \<Rightarrow> server \<Rightarrow> bool" where
  "near s t \<longleftrightarrow> later s t \<and> quiet_db (sv_db t) = quiet_db (sv_db s)"

interpretation staying: step_relation near
  by unfold_locales (auto simp: near_def dest: passing.trans intro: passing.refl)

definition bystander :: "server_env \<Rightarrow> bool" where
  "bystander env \<longleftrightarrow> (\<forall>n s. near s (env n s))"

lemma read_unit: "transaction (Pair (Inr ())) d = (r, e) \<Longrightarrow> quiet_db e = quiet_db d"
  by (rule read_quiet [of "\<lambda>_. ()"])

lemma near_stmt: "moves near stmt"
proof (rule movesI)
  fix s t :: server and r assume "stmt s = (r, t)"
  then obtain d where "transaction (Pair (Inr ())) (sv_db s) = (r, d)" "t = set_db d s"
    by (auto simp: stmt_def on_tables_run)
  then show "near s t" using read_unit by (simp add: near_def)
qed

definition spent :: "string \<Rightarrow> string \<Rightarrow> timestamp \<Rightarrow> server \<Rightarrow> bool" where
  "spent h p now s \<longleftrightarrow>
     (\<forall>c \<in> set (sv_challenges s). ch_id c = h \<longrightarrow> ch_purpose c = p \<longrightarrow> ch_expires_at c \<le> now)"

lemma spent_later: "spent h p now s \<Longrightarrow> later s t \<Longrightarrow> spent h p now t"
  by (auto simp: spent_def later_def)

lemma spent_mono: "spent h p now s \<Longrightarrow> now \<le> now' \<Longrightarrow> spent h p now' s"
  by (force simp: spent_def)

lemma take_body_run:
  assumes "take_body h p now s = (r, t)"
  shows "near s t \<and>
    (\<forall>st. r = Inr (Some st) \<longrightarrow> spent h p now t \<and>
       (\<exists>c \<in> set (sv_challenges s). ch_id c = h \<and> ch_purpose c = p \<and> now < ch_expires_at c \<and> ch_state c = st))"
  using assms by (auto simp: take_body_def near_def later_def spent_def split: option.splits dest!: find_Some_in)

lemma near_take: "moves near (op_bind stmt (\<lambda>_. take_body h p now))"
  by (intro staying.moves_bind near_stmt movesI) (use take_body_run in blast)

lemma take_stored_run:
  assumes env: "bystander env" and run: "take_stored env h p now s = (r, t)"
  shows "near s t \<and>
    (\<forall>st. r = Inr (Some st) \<longrightarrow> spent h p now t \<and>
       (\<exists>c \<in> set (sv_challenges s). ch_id c = h \<and> ch_purpose c = p \<and> now < ch_expires_at c \<and> ch_state c = st))"
proof -
  let ?op = "op_bind stmt (\<lambda>_. take_body h p now)"
  have "moves near (take_stored env h p now)"
    unfolding take_stored_def using env by (intro staying.moves_retry near_take) (simp add: bystander_def)
  then have "near s t" using run by (rule movesD)
  moreover have "spent h p now t \<and> (\<exists>c \<in> set (sv_challenges s). ch_id c = h \<and> ch_purpose c = p \<and> now < ch_expires_at c \<and> ch_state c = st)"
    if "r = Inr (Some st)" for st
  proof -
    have "\<exists>s0. near s s0 \<and> ?op s0 = (Inr (Some st), t)"
    proof (rule retry_from_last [where I = "near s" and env = env])
      show "near s v" if "near s u" "?op u = (Inl e, v)" for u v e
        using that movesD [OF near_take] staying.trans by blast
      show "near s (env n u)" if "near s u" for n u
        using that env staying.trans by (auto simp: bystander_def)
      show "retry_from env default_write_policy ''consume authentication challenge'' ?op 0 s = (Inr (Some st), t)"
        using run that by (simp add: take_stored_def retry_write_def)
    qed (rule staying.refl)
    then obtain s0 s1 where near: "near s s0" "near s0 s1" and body: "take_body h p now s1 = (Inr (Some st), t)"
      unfolding op_bind_Inr using movesD [OF near_stmt] by blast
    then have "set (sv_challenges s1) \<subseteq> set (sv_challenges s)" by (auto simp: near_def later_def)
    with take_body_run [OF body] show ?thesis by blast
  qed
  ultimately show ?thesis by blast
qed

lemma spent_taken:
  assumes "bystander env" "take_stored env h p now s = (r, t)" "spent h p now s"
  shows "r \<noteq> Inr (Some st)"
  using take_stored_run [OF assms(1,2)] assms(3) by (force simp: spent_def)

section \<open>Signing in\<close>

lemma take_challenge_run:
  assumes "bystander (wa_env wa)" "take_challenge app wa j h p s = (Inr payload, t)"
  shows "near s t \<and> spent h p (hub_clock (sv_hub s) (hub_tick (sv_hub s))) t \<and>
    (\<exists>c \<in> set (sv_challenges s). \<exists>now. ch_id c = h \<and> ch_purpose c = p \<and>
       hub_clock (sv_hub s) (hub_tick (sv_hub s)) < ch_expires_at c \<and>
       decode_challenge (ac_crypto (ap_auth app)) j (ac_secret_key (ap_auth app)) (ch_state c) (now div 1000000000) = Inr payload)"
proof -
  let ?now = "hub_clock (sv_hub s) (hub_tick (sv_hub s))"
  have clock: "clock_now v = (Inr n, w) \<Longrightarrow> near v w \<and> sv_challenges w = sv_challenges v" for v w n
    by (auto simp: clock_now_def near_def later_def)
  obtain s1 st s2 now where one: "clock_now s = (Inr ?now, s1)"
    and two: "take_stored (wa_env wa) h p ?now s1 = (Inr (Some st), s2)"
    and three: "clock_now s2 = (Inr now, t)"
    and dec: "decode_challenge (ac_crypto (ap_auth app)) j (ac_secret_key (ap_auth app)) st (now div 1000000000) = Inr payload"
  proof -
    obtain s1 found s2 where a: "clock_now s = (Inr ?now, s1)" and b: "take_stored (wa_env wa) h p ?now s1 = (Inr found, s2)"
      and c: "(case found of None \<Rightarrow> op_err (Auth ''passkey challenge expired or already used'')
         | Some token \<Rightarrow> op_bind clock_now (\<lambda>later. op_res (decode_challenge (ac_crypto (ap_auth app)) j
             (ac_secret_key (ap_auth app)) token (later div 1000000000)))) s2 = (Inr payload, t)"
      using assms(2) unfolding take_challenge_def op_bind_Inr by (auto simp: clock_now_def)
    show ?thesis
    proof (cases found)
      case (Some st)
      with c show ?thesis using a b by (intro that) (auto simp: op_bind_def clock_now_def)
    qed (use c in simp)
  qed
  note taken = take_stored_run [OF assms(1) two]
  have first: "near s s1" "sv_challenges s1 = sv_challenges s" and last: "near s2 t" "sv_challenges t = sv_challenges s2"
    using clock [OF one] clock [OF three] by blast+
  have "near s t" using staying.trans [OF staying.trans [OF first(1) taken [THEN conjunct1]] last(1)] .
  moreover have "spent h p ?now t" using taken last(2) by (simp add: spent_def)
  moreover from taken obtain c where c: "c \<in> set (sv_challenges s1)" "ch_id c = h" "ch_purpose c = p" "?now < ch_expires_at c"
      "ch_state c = st" by blast
  ultimately show ?thesis using dec first(2) by (intro conjI bexI [of _ c] exI [of _ now]) simp_all
qed

lemma passkey_not_locked_run:
  "passkey_not_locked key s = (r, t) \<longleftrightarrow>
     t = s\<lparr>sv_instant_tick := Suc (sv_instant_tick s)\<rparr> \<and>
     r = (case check_lock_at (sv_guard s) key (sv_instants s (sv_instant_tick s)) of
            Locked n \<Rightarrow> Inl RateLimited | Allowed \<Rightarrow> Inr ())"
  by (auto simp: passkey_not_locked_def op_bind_def instant_now_def split: lockout_decision.splits)

lemma login_verify_run:
  assumes "login_verify app (Some (wa, config)) hs peer assertion s = (Inr x, t)"
  obtains h payload s2 where
    "check_lock_at (sv_guard s) (passkey_key peer) (sv_instants s (sv_instant_tick s)) = Allowed"
    "read_cookie hs PASSKEY_AUTHENTICATION_COOKIE = Some h"
    "take_challenge app wa (wa_authentication_codec wa) h PASSKEY_AUTHENTICATION_COOKIE
       (s\<lparr>sv_instant_tick := Suc (sv_instant_tick s)\<rparr>) = (Inr payload, s2)"
    "judge_assertion app wa (passkey_key peer) assertion payload s2 = (Inr x, t)"
  using assms
  by (auto simp: login_verify_def login_verify_op_def op_bind_Inr require_passkeys_def required_field_auth_def
      passkey_not_locked_run split: option.splits lockout_decision.splits)

lemma owned_run:
  assumes "owned_credential app uid cid s = (Inr (Some k), t)"
  shows "near s t \<and> sv_guard t = sv_guard s \<and> k \<in> set (db_passkeys (sv_db s)) \<and> pk_user_id k = uid \<and>
    pk_credential_id k = encode_credential_id (ac_crypto (ap_auth app)) cid"
proof -
  obtain row d where read: "find_by_credential_id (encode_credential_id (ac_crypto (ap_auth app)) cid) (sv_db s) = (Inr row, d)"
    and t: "t = set_db d s" and row: "(case row of Some k \<Rightarrow> (if pk_user_id k = uid then Some k else None) | None \<Rightarrow> None) = Some k"
    using assms by (auto simp: owned_credential_def op_bind_Inr on_tables_run)
  from row have k: "row = Some k" "pk_user_id k = uid" by (auto split: option.splits if_splits)
  from read_run [OF read [unfolded find_by_credential_id_def]] k obtain fs where d: "d = (sv_db s)\<lparr>faults := fs\<rparr>"
    and found: "List.find (\<lambda>k. pk_credential_id k = encode_credential_id (ac_crypto (ap_auth app)) cid) (db_passkeys d) = Some k"
    by auto
  from find_Some_in [OF found] show ?thesis using k d t by (auto simp: near_def later_def set_db_def)
qed

lemma judge_run:
  assumes "judge_assertion app wa key assertion p s = (Inr (Answered v cookies), t)"
  obtains uid cid k credential result s1 where "wa_identify wa assertion = Some (uid, cid)"
    "owned_credential app uid cid s = (Inr (Some k), s1)" "wa_parse_credential wa (pk_credential k) = Inr credential"
    "wa_finish_authentication wa assertion (cp_state p) [credential] = Inr result"
    "complete_login app wa key uid k credential result s1 = (Inr (Answered v cookies), t)"
proof (cases "wa_identify wa assertion")
  case None
  then show ?thesis using assms by (simp add: judge_assertion_def)
next
  case (Some ids)
  obtain uid cid where ids: "ids = (uid, cid)" by fastforce
  obtain owned s1 where owned: "owned_credential app uid cid s = (Inr owned, s1)"
    and rest: "(case owned of
              None \<Rightarrow> op_bind (note_failure key) (\<lambda>_. op_err (Auth ''passkey is not recognised''))
            | Some stored \<Rightarrow>
                op_bind (op_res (parse_credential wa stored)) (\<lambda>credential.
                  case wa_finish_authentication wa assertion (cp_state p) [credential] of
                    Inl _ \<Rightarrow>
                      op_bind (note_failure key) (\<lambda>_.
                      op_ok (Declined (auth_error app (Auth ''passkey verification failed''))
                        [build_clearing_challenge_cookie PASSKEY_AUTHENTICATION_COOKIE (cookie_secure (ap_base_url app))]))
                  | Inr result \<Rightarrow> complete_login app wa key uid stored credential result)) s1 = (Inr (Answered v cookies), t)"
    using assms unfolding judge_assertion_def Some ids option.case prod.case op_bind_Inr by blast
  show ?thesis
  proof (cases owned)
    case None
    then show ?thesis using rest by (auto simp: op_bind_Inr)
  next
    case key: (Some k)
    obtain credential where parsed: "parse_credential wa k = Inr credential"
      using rest by (cases "parse_credential wa k") (auto simp: key op_bind_def)
    then have fin: "(case wa_finish_authentication wa assertion (cp_state p) [credential] of
                    Inl _ \<Rightarrow>
                      op_bind (note_failure key) (\<lambda>_.
                      op_ok (Declined (auth_error app (Auth ''passkey verification failed''))
                        [build_clearing_challenge_cookie PASSKEY_AUTHENTICATION_COOKIE (cookie_secure (ap_base_url app))]))
                  | Inr result \<Rightarrow> complete_login app wa key uid k credential result) s1 = (Inr (Answered v cookies), t)"
      using rest by (simp add: key op_bind_def)
    from parsed have "wa_parse_credential wa (pk_credential k) = Inr credential"
      by (auto simp: parse_credential_def split: sum.splits)
    moreover obtain result where "wa_finish_authentication wa assertion (cp_state p) [credential] = Inr result"
      "complete_login app wa key uid k credential result s1 = (Inr (Answered v cookies), t)"
      using fin by (cases "wa_finish_authentication wa assertion (cp_state p) [credential]") (auto simp: op_bind_Inr)
    ultimately show ?thesis using that Some ids owned key by blast
  qed
qed

lemma complete_run:
  assumes "complete_login app wa key uid k credential result s = (Inr (Answered v cookies), t)"
  obtains u d where "find_user_by_id uid (sv_db s) = (Inr (Some u), d)" "usr_status u = Active"
    "v = user_view_of (admin_users_apply (ap_admin_users app) u)"
    "\<exists>now x e. start_session (ap_auth app) now (usr_id u) e = (Inr x, sv_db t)"
proof -
  obtain row d where row: "find_user_by_id uid (sv_db s) = (Inr row, d)" and rest: "(case row of
         None \<Rightarrow> op_err (Auth ''passkey is not recognised'')
       | Some u \<Rightarrow>
           (if is_pending (usr_status u) then op_err (Forbidden ''account is awaiting approval'')
            else
              op_bind clock_now (\<lambda>now.
              op_bind (on_tables (touch_passkey (ap_repo app) (pk_id k) (wa_update_credential wa credential result) now)) (\<lambda>_.
              op_bind (note_success key) (\<lambda>_.
              op_bind (open_session app (usr_id u)) (\<lambda>(_, cookie).
              op_ok (Answered (user_view_of (admin_users_apply (ap_admin_users app) u))
                [cookie, build_clearing_challenge_cookie PASSKEY_AUTHENTICATION_COOKIE (cookie_secure (ap_base_url app))]))))))) (set_db d s) =
      (Inr (Answered v cookies), t)"
    using assms unfolding complete_login_def op_bind_Inr on_tables_run by blast
  show ?thesis
  proof (cases row)
    case (Some u)
    have active: "usr_status u = Active" using rest Some by (cases "usr_status u") (auto simp: is_pending_def)
    obtain s1 x s2 where sess: "open_session app (usr_id u) s1 = (Inr x, s2)"
      and out: "op_ok (Answered (user_view_of (admin_users_apply (ap_admin_users app) u))
                [snd x, build_clearing_challenge_cookie PASSKEY_AUTHENTICATION_COOKIE (cookie_secure (ap_base_url app))]) s2 =
        (Inr (Answered v cookies) :: error + _, t)"
      using rest Some active by (auto simp: op_bind_Inr is_pending_def)
    moreover have "\<exists>now x e. start_session (ap_auth app) now (usr_id u) e = (Inr x, sv_db t)"
    proof -
      have "start_session (ap_auth app) (hub_clock (sv_hub s1) (hub_tick (sv_hub s1))) (usr_id u) (sv_db s1) = (Inr x, sv_db s2)"
        using sess by (auto simp: open_session_def timed_run set_db_def)
      moreover have "s2 = t" using out by simp
      ultimately show ?thesis by (intro exI) simp
    qed
    moreover have "v = user_view_of (admin_users_apply (ap_admin_users app) u)" using out by simp
    ultimately show ?thesis using row Some active that by blast
  qed (use rest in simp)
qed

text \<open>C19. A passkey signs in the account that owns it: the answer is a session only if the client is not locked out,
  the cookie names an unexpired challenge of this server for signing in, whose state is genuine, the assertion names a
  stored credential of the very account it claims, the library verified it against that credential and that
  challenge, and the account is active; the session opened is its own.\<close>

theorem passkey_signs_in_owner:
  assumes "bystander (wa_env wa)"
    and "login_verify app (Some (wa, config)) hs peer assertion s = (Inr (Answered v cookies), t)"
  shows "\<exists>h c now p uid cid k credential result u.
     check_lock_at (sv_guard s) (passkey_key peer) (sv_instants s (sv_instant_tick s)) = Allowed \<and>
     read_cookie hs PASSKEY_AUTHENTICATION_COOKIE = Some h \<and> c \<in> set (sv_challenges s) \<and> ch_id c = h \<and>
     ch_purpose c = PASSKEY_AUTHENTICATION_COOKIE \<and> hub_clock (sv_hub s) (hub_tick (sv_hub s)) < ch_expires_at c \<and>
     decode_challenge (ac_crypto (ap_auth app)) (wa_authentication_codec wa) (ac_secret_key (ap_auth app)) (ch_state c) now = Inr p \<and>
     wa_identify wa assertion = Some (uid, cid) \<and> k \<in> set (db_passkeys (sv_db s)) \<and> pk_user_id k = uid \<and>
     pk_credential_id k = encode_credential_id (ac_crypto (ap_auth app)) cid \<and>
     wa_parse_credential wa (pk_credential k) = Inr credential \<and>
     wa_finish_authentication wa assertion (cp_state p) [credential] = Inr result \<and>
     u \<in> set (db_users (sv_db s)) \<and> usr_id u = uid \<and> usr_status u = Active \<and>
     v = user_view_of (admin_users_apply (ap_admin_users app) u) \<and>
     (\<exists>x. x \<in> set (db_sessions (sv_db t)) \<and> ses_user_id x = uid)"
proof -
  let ?s1 = "s\<lparr>sv_instant_tick := Suc (sv_instant_tick s)\<rparr>"
  obtain h p s2 where free: "check_lock_at (sv_guard s) (passkey_key peer) (sv_instants s (sv_instant_tick s)) = Allowed"
    and cookie: "read_cookie hs PASSKEY_AUTHENTICATION_COOKIE = Some h"
    and take: "take_challenge app wa (wa_authentication_codec wa) h PASSKEY_AUTHENTICATION_COOKIE ?s1 = (Inr p, s2)"
    and judge: "judge_assertion app wa (passkey_key peer) assertion p s2 = (Inr (Answered v cookies), t)"
    using assms(2) by (rule login_verify_run)
  note taken = take_challenge_run [OF assms(1) take]
  then obtain c now where c: "c \<in> set (sv_challenges s)" "ch_id c = h" "ch_purpose c = PASSKEY_AUTHENTICATION_COOKIE"
      "hub_clock (sv_hub s) (hub_tick (sv_hub s)) < ch_expires_at c"
      "decode_challenge (ac_crypto (ap_auth app)) (wa_authentication_codec wa) (ac_secret_key (ap_auth app)) (ch_state c) now = Inr p"
    by auto
  from judge obtain uid cid k credential result s3 where named: "wa_identify wa assertion = Some (uid, cid)"
    and owned: "owned_credential app uid cid s2 = (Inr (Some k), s3)"
    and parsed: "wa_parse_credential wa (pk_credential k) = Inr credential"
    and verified: "wa_finish_authentication wa assertion (cp_state p) [credential] = Inr result"
    and done': "complete_login app wa (passkey_key peer) uid k credential result s3 = (Inr (Answered v cookies), t)"
    by (rule judge_run)
  note mine = owned_run [OF owned]
  from done' obtain u d where user: "find_user_by_id uid (sv_db s3) = (Inr (Some u), d)" and active: "usr_status u = Active"
    and v: "v = user_view_of (admin_users_apply (ap_admin_users app) u)"
    and session: "\<exists>now x e. start_session (ap_auth app) now (usr_id u) e = (Inr x, sv_db t)"
    by (rule complete_run)
  from user have u: "u \<in> set (db_users (sv_db s3))" "usr_id u = uid" using find_user_sound by blast+
  have near: "near s s3" "near s s2" using taken mine staying.trans by (auto simp: near_def later_def)
  then have same: "db_users (sv_db s3) = db_users (sv_db s)" "db_passkeys (sv_db s2) = db_passkeys (sv_db s)"
    unfolding near_def by (auto dest: arg_cong [where f = db_users] arg_cong [where f = db_passkeys])
  from session obtain now' x ck e where "start_session (ap_auth app) now' (usr_id u) e = (Inr (x, ck), sv_db t)" by auto
  from start_session_run [OF this] have "ses_user_id x = uid" "x \<in> set (db_sessions (sv_db t))"
    using u(2) by (auto dest: arg_cong [where f = db_sessions])
  note facts = free cookie c named mine [THEN conjunct2, THEN conjunct2] parsed verified u active v this
  show ?thesis using facts same by (intro exI conjI) auto
qed

section \<open>A challenge is answered once\<close>

lemma near_clock: "moves near clock_now"
  by (rule movesI) (auto simp: clock_now_def near_def later_def)

lemma near_take_challenge:
  assumes "bystander (wa_env wa)"
  shows "moves near (take_challenge app wa j h p)"
proof -
  have "moves near (take_stored (wa_env wa) h p now)" for now
    by (rule movesI) (use take_stored_run [OF assms] in blast)
  then show ?thesis
    unfolding take_challenge_def
    by (intro staying.moves_bind near_clock) (auto intro!: staying.moves_bind near_clock staying.moves_ok split: option.splits)
qed

lemma take_challenge_spent:
  assumes "bystander (wa_env wa)" "take_challenge app wa j h p s = (r, t)"
    and "spent h p (hub_clock (sv_hub s) (hub_tick (sv_hub s))) s"
  shows "\<exists>e. r = Inl e"
proof (cases r)
  case (Inr payload)
  from take_challenge_run [OF assms(1) assms(2) [unfolded this]] assms(3) show ?thesis by (force simp: spent_def)
qed simp

lemma passes_complete: "moves later (complete_login app wa key uid k credential result)"
  unfolding complete_login_def open_session_def by (intro passes)

lemma passes_judge: "moves later (judge_assertion app wa key assertion p)"
  unfolding judge_assertion_def owned_credential_def by (intro passes passes_complete)

text \<open>C20. An answered challenge is spent: once a sign-in with a challenge has been judged, whether the assertion was
  accepted or declined, no later sign-in with the same cookie gets as far, whatever its assertion and its client;
  it is refused, and leaves every table as it was.\<close>

theorem challenge_spent_once:
  assumes "bystander (wa_env wa)" and "mono (hub_clock (sv_hub s))"
    and "login_verify app (Some (wa, config)) hs peer assertion s = (Inr x, t)"
    and "hub_clock (sv_hub u) = hub_clock (sv_hub t)" "hub_tick (sv_hub t) \<le> hub_tick (sv_hub u)"
    and "read_cookie hs' PASSKEY_AUTHENTICATION_COOKIE = read_cookie hs PASSKEY_AUTHENTICATION_COOKIE"
    and "\<forall>c \<in> set (sv_challenges u). c \<in> set (sv_challenges t) \<or> Some (ch_id c) \<noteq> read_cookie hs PASSKEY_AUTHENTICATION_COOKIE"
    and "login_verify app (Some (wa, config)) hs' peer' assertion' u = (r, w)"
  shows "(\<exists>e. r = Inl e) \<and> quiet_db (sv_db w) = quiet_db (sv_db u)"
proof -
  let ?tick = "\<lambda>s. s\<lparr>sv_instant_tick := Suc (sv_instant_tick s)\<rparr>" and ?p = PASSKEY_AUTHENTICATION_COOKIE
  obtain h payload s2 where cookie: "read_cookie hs ?p = Some h"
    and take: "take_challenge app wa (wa_authentication_codec wa) h ?p (?tick s) = (Inr payload, s2)"
    and judge: "judge_assertion app wa (passkey_key peer) assertion payload s2 = (Inr x, t)"
    using assms(3) by (rule login_verify_run)
  note taken = take_challenge_run [OF assms(1) take]
  let ?now = "hub_clock (sv_hub s) (hub_tick (sv_hub s))" and ?now' = "hub_clock (sv_hub u) (hub_tick (sv_hub u))"
  have after: "later s2 t" using movesD [OF passes_judge judge] .
  have before: "later s s2" using taken by (simp add: near_def later_def)
  have "?now \<le> ?now'"
    using before after assms(2,4,5) by (auto simp: later_def intro: monoD)
  moreover have "spent h ?p ?now t" using taken after spent_later by simp blast
  then have "spent h ?p ?now u" using assms(7) cookie by (auto simp: spent_def)
  ultimately have spent: "spent h ?p ?now' (?tick u)" using spent_mono by (auto simp: spent_def)
  show ?thesis
  proof (cases "passkey_not_locked (passkey_key peer') u")
    case (Pair q v)
    note lock = this passkey_not_locked_run [THEN iffD1, OF this]
    then have v: "v = ?tick u" by simp
    show ?thesis
    proof (cases q)
      case (Inl e)
      then show ?thesis using lock assms(8)
        by (auto simp: login_verify_def login_verify_op_def op_bind_def require_passkeys_def answer_def)
    next
      case (Inr _)
      obtain r' w' where again: "take_challenge app wa (wa_authentication_codec wa) h ?p v = (r', w')" by fastforce
      have "spent h ?p (hub_clock (sv_hub v) (hub_tick (sv_hub v))) v" using spent by (simp add: v)
      then obtain e where e: "r' = Inl e" using take_challenge_spent [OF assms(1) again] by blast
      have "near v w'" using movesD [OF near_take_challenge [OF assms(1)] again] .
      moreover have "w = w' \<and> (\<exists>e. r = Inl e)"
        using lock(1) Inr again e cookie assms(6,8)
        by (auto simp: login_verify_def login_verify_op_def op_bind_def require_passkeys_def required_field_auth_def answer_def)
      ultimately show ?thesis using v by (auto simp: near_def)
    qed
  qed
qed

section \<open>Registration\<close>

lemma create_passkey_run:
  assumes "create_passkey r now n s = (Inr k, t)"
  shows "k \<in> set (db_passkeys t) \<and> pk_user_id k = nk_user_id n \<and> pk_credential_id k = nk_credential_id n \<and>
    pk_credential k = nk_credential n"
proof -
  obtain kid s0 s1 where k: "k = passkey_row kid now n"
    and run: "retry_write (rp_env r) (rp_write r) ''insert passkey'' (transaction (create_passkey_body kid now n)) s0 = (Inr (), s1)"
    and t: "t = s1"
    using assms by (auto simp: create_passkey_def Let_def split: prod.splits sum.splits)
  have "\<exists>s2. True \<and> transaction (create_passkey_body kid now n) s2 = (Inr (), s1)"
    by (rule retry_from_last [OF _ _ _ run [unfolded retry_write_def]]) simp_all
  then obtain s2 s3 where "create_passkey_body kid now n s3 = (Inr (), t)" unfolding t by (elim exE conjE transaction_ok)
  then show ?thesis by (auto simp: create_passkey_body_def k passkey_row_def split: if_splits)
qed

lemma store_run:
  assumes "store_registration app wa config me name body p s = (Inr (Answered v cookies), t)"
  obtains credential k where "wa_finish_registration wa (rp_credential body) (cp_state p) = Inr credential"
    "int (length (filter (\<lambda>k. pk_user_id k = usr_id me) (db_passkeys (sv_db s)))) < pf_max_per_user config"
    "v = passkey_view_of k" "k \<in> set (db_passkeys (sv_db t))" "pk_user_id k = usr_id me" "pk_credential k = credential"
proof -
  obtain credential registered s1 u where verified: "wa_finish_registration wa (rp_credential body) (cp_state p) = Inr credential"
    and count: "on_tables (count_passkeys_for_user (usr_id me)) s = (Inr registered, s1)"
    and quota: "below_quota config registered = Inr ()"
    and rest: "op_bind (timed (\<lambda>now. create_passkey (ap_repo app) now
         \<lparr>nk_user_id = usr_id me, nk_credential_id = credential_id_b64 (ac_crypto (ap_auth app)) wa credential,
          nk_name = name, nk_credential = credential\<rparr>)) (\<lambda>stored.
       op_ok (Answered (passkey_view_of stored)
         [build_clearing_challenge_cookie PASSKEY_REGISTRATION_COOKIE (cookie_secure (ap_base_url app))])) s1 = (Inr (Answered v cookies), t)"
    using assms unfolding store_registration_def op_bind_Inr lib_res_def by (auto split: sum.splits)
  obtain k s2 where stored: "timed (\<lambda>now. create_passkey (ap_repo app) now
         \<lparr>nk_user_id = usr_id me, nk_credential_id = credential_id_b64 (ac_crypto (ap_auth app)) wa credential,
          nk_name = name, nk_credential = credential\<rparr>) s1 = (Inr k, s2)"
    and out: "v = passkey_view_of k" "t = s2"
    using rest by (auto simp: op_bind_Inr)
  obtain d where "count_passkeys_for_user (usr_id me) (sv_db s) = (Inr registered, d)"
    using count by (auto simp: on_tables_run)
  from read_run [OF this [unfolded count_passkeys_for_user_def]]
  have "registered = int (length (filter (\<lambda>k. pk_user_id k = usr_id me) (db_passkeys (sv_db s))))" by auto
  moreover have "registered < pf_max_per_user config" using quota by (auto simp: below_quota_def split: if_splits)
  moreover from stored obtain now n d where "create_passkey (ap_repo app) now n d = (Inr k, sv_db t)"
      "nk_user_id n = usr_id me" "nk_credential n = credential"
    by (auto simp: timed_run out set_db_def)
  from create_passkey_run [OF this(1)] this(2,3)
  have "k \<in> set (db_passkeys (sv_db t))" "pk_user_id k = usr_id me" "pk_credential k = credential" by auto
  ultimately show ?thesis using that verified out by simp
qed

text \<open>C21. A passkey is registered only by the account that asked for it: a registration is stored only if the cookie
  names an unexpired registration challenge of this server, whose genuine state was made for the caller, the
  library verified the answer against it, and the caller is below the quota; the stored row is the caller's and
  holds the credential verified.\<close>

theorem passkey_registered_by_owner:
  assumes "bystander (wa_env wa)"
    and "register_verify app (Some (wa, config)) me hs body s = (Inr (Answered v cookies), t)"
  shows "\<exists>h c now p credential k.
     read_cookie hs PASSKEY_REGISTRATION_COOKIE = Some h \<and> c \<in> set (sv_challenges s) \<and> ch_id c = h \<and>
     ch_purpose c = PASSKEY_REGISTRATION_COOKIE \<and> hub_clock (sv_hub s) (hub_tick (sv_hub s)) < ch_expires_at c \<and>
     decode_challenge (ac_crypto (ap_auth app)) (wa_registration_codec wa) (ac_secret_key (ap_auth app)) (ch_state c) now = Inr p \<and>
     cp_user_id p = Some (usr_id me) \<and> wa_finish_registration wa (rp_credential body) (cp_state p) = Inr credential \<and>
     int (length (filter (\<lambda>k. pk_user_id k = usr_id me) (db_passkeys (sv_db s)))) < pf_max_per_user config \<and>
     v = passkey_view_of k \<and> k \<in> set (db_passkeys (sv_db t)) \<and> pk_user_id k = usr_id me \<and> pk_credential k = credential"
proof -
  let ?p = PASSKEY_REGISTRATION_COOKIE
  obtain nm h p s2 where cookie: "read_cookie hs ?p = Some h"
    and take: "take_challenge app wa (wa_registration_codec wa) h ?p s = (Inr p, s2)"
    and rest: "(if cp_user_id p \<noteq> Some (usr_id me) then
       op_err (Auth ''passkey registration does not belong to this session'')
     else store_registration app wa config me nm body p) s2 = (Inr (Answered v cookies), t)"
    using assms(2)
    by (auto simp: register_verify_def register_verify_op_def op_bind_Inr require_passkeys_def required_field_auth_def
        split: option.splits)
  have mine: "cp_user_id p = Some (usr_id me)"
    and stored: "store_registration app wa config me nm body p s2 = (Inr (Answered v cookies), t)"
    using rest by (auto split: if_splits)
  note taken = take_challenge_run [OF assms(1) take]
  then have "db_passkeys (sv_db s2) = db_passkeys (sv_db s)"
    unfolding near_def by (auto dest: arg_cong [where f = db_passkeys])
  with store_run [OF stored] obtain credential k
    where key: "wa_finish_registration wa (rp_credential body) (cp_state p) = Inr credential"
      "int (length (filter (\<lambda>k. pk_user_id k = usr_id me) (db_passkeys (sv_db s)))) < pf_max_per_user config"
      "v = passkey_view_of k" "k \<in> set (db_passkeys (sv_db t))" "pk_user_id k = usr_id me" "pk_credential k = credential"
    by metis
  from taken obtain c now where "c \<in> set (sv_challenges s)" "ch_id c = h" "ch_purpose c = ?p"
      "hub_clock (sv_hub s) (hub_tick (sv_hub s)) < ch_expires_at c"
      "decode_challenge (ac_crypto (ap_auth app)) (wa_registration_codec wa) (ac_secret_key (ap_auth app)) (ch_state c) now = Inr p"
    by blast
  note facts = cookie this mine key
  show ?thesis by (intro exI conjI) (rule facts)+
qed

section \<open>At the example instance\<close>

text \<open>A library that accepts one assertion, and keeps its states and credentials as they are.\<close>

definition plain_codec :: challenge_codec where
  "plain_codec = \<lparr>cc_print = cp_state, cc_parse = (\<lambda>s. Some \<lparr>cp_state = s, cp_user_id = Some ''u'', cp_expires_at = 600\<rparr>)\<rparr>"

definition example_library :: webauthn where
  "example_library =
     \<lparr>wa_start_authentication = Inr (\<lparr>ro_mediation = Some ''conditional'', ro_rest = []\<rparr>, ''x''),
      wa_start_registration = (\<lambda>_ _ _ _. Inr (\<lparr>co_selection = None, co_rest = []\<rparr>, ''x'')),
      wa_identify = (\<lambda>_. Some (''u'', ''z'')),
      wa_finish_authentication = (\<lambda>a st ks. if a = ''y'' \<and> st = ''x'' \<and> ks = [''c''] then Inr ''r'' else Inl ''no''),
      wa_finish_registration = (\<lambda>a st. if a = ''y'' \<and> st = ''x'' then Inr ''d'' else Inl ''no''),
      wa_update_credential = (\<lambda>c r. c @ r), wa_credential_id = (\<lambda>c. c), wa_parse_credential = Inr,
      wa_b64_error = (\<lambda>_. []), wa_authentication_codec = plain_codec, wa_registration_codec = plain_codec,
      wa_env = (\<lambda>_ s. s)\<rparr>"

definition example_passkeys :: passkey_config where
  "example_passkeys = \<lparr>pf_rp_id = ''s'', pf_rp_name = ''s'', pf_rp_origin = ''https://s'', pf_extra_origins = [],
     pf_allow_subdomains = False, pf_timeout = 60000000000, pf_challenge_ttl = 600000000000, pf_max_per_user = 2\<rparr>"

definition example_key :: passkey where
  "example_key = \<lparr>pk_id = ''k'', pk_user_id = ''u'', pk_credential_id = letters ''z'', pk_name = ''laptop'', pk_credential = ''c'',
     pk_created_at = 0, pk_last_used_at = None\<rparr>"

definition example_challenge :: "string \<Rightarrow> challenge" where
  "example_challenge purpose = \<lparr>ch_id = ''h'', ch_purpose = purpose, ch_state = sign letter_crypto ''key'' ''x'', ch_expires_at = 600000000000\<rparr>"

definition passkey_server :: "string \<Rightarrow> server" where
  "passkey_server purpose = guarded_server\<lparr>
     sv_hub := (sv_hub guarded_server)\<lparr>hub_db := (sv_db guarded_server)\<lparr>db_passkeys := [example_key]\<rparr>\<rparr>,
     sv_challenges := [example_challenge purpose]\<rparr>"

definition passkey_headers :: "string \<Rightarrow> headers" where
  "passkey_headers purpose = [(''cookie'', purpose @ ''=h'')]"

lemma passkey_cookie:
  assumes "purpose \<in> {PASSKEY_AUTHENTICATION_COOKIE, PASSKEY_REGISTRATION_COOKIE}"
  shows "read_cookie (passkey_headers purpose) purpose = Some ''h''"
proof (rule read_named_cookie)
  have "list_all token_char PASSKEY_AUTHENTICATION_COOKIE" "list_all token_char PASSKEY_REGISTRATION_COOKIE" by code_simp+
  with assms show "list_all token_char purpose" by auto
  show "list_all token_char ''h''" by code_simp
qed (simp add: passkey_headers_def)

lemma library_simps [simp]:
  "wa_authentication_codec example_library = plain_codec" "wa_registration_codec example_library = plain_codec"
  "wa_identify example_library a = Some (''u'', ''z'')" "wa_parse_credential example_library c = Inr c"
  "wa_finish_authentication example_library a st ks = (if a = ''y'' \<and> st = ''x'' \<and> ks = [''c''] then Inr ''r'' else Inl ''no'')"
  "wa_finish_registration example_library a st = (if a = ''y'' \<and> st = ''x'' then Inr ''d'' else Inl ''no'')"
  "wa_env example_library = (\<lambda>_ s. s)" "wa_credential_id example_library c = c"
  by (simp_all add: example_library_def)

lemma bystander_example: "bystander (wa_env example_library)"
  by (simp add: bystander_def staying.refl)

lemma passkey_server_simps [simp]:
  "sv_db (passkey_server p) = logged_in\<lparr>db_users := [example_user\<lparr>usr_password_hash := ''secret12''\<rparr>], db_passkeys := [example_key]\<rparr>"
  "sv_challenges (passkey_server p) = [example_challenge p]" "hub_clock (sv_hub (passkey_server p)) = int"
  "hub_tick (sv_hub (passkey_server p)) = 5" "sv_instant_tick (passkey_server p) = 0" "sv_instants (passkey_server p) = int"
  "sv_guard (passkey_server p) = sv_guard guarded_server"
  by (simp_all add: passkey_server_def) (simp_all add: guarded_server_def)

lemma take_example:
  assumes "sv_challenges s = [example_challenge p]" "faults (sv_db s) = []" "hub_clock (sv_hub s) = int" "hub_tick (sv_hub s) = 5"
  shows "take_challenge example_app example_library plain_codec ''h'' p s =
    (Inr \<lparr>cp_state = ''x'', cp_user_id = Some ''u'', cp_expires_at = 600\<rparr>,
     s\<lparr>sv_hub := (sv_hub s)\<lparr>hub_tick := 7\<rparr>, sv_challenges := []\<rparr>)"
proof -
  have verified: "verify_str letter_crypto ''key'' (sign letter_crypto ''key'' ''x'') = Inr ''x''"
    by (simp add: verify_str_def verify_sign) code_simp
  have "stmt u = (Inr (), u)" if "faults (sv_db u) = []" for u :: server
    using that by (auto simp: stmt_def on_tables_def transaction_no_fault set_db_def)
  then show ?thesis using assms
    by (simp add: take_challenge_def op_bind_def clock_now_def take_stored_def retry_write_def retry_from_Ok take_body_def
        example_challenge_def decode_challenge_def example_auth_def verified plain_codec_def numeral_eq_Suc)
qed

lemma calm_retry:
  assumes "faults d = []" "body d = (Inr v, e)"
  shows "retry_write (rp_env r) w what (transaction body) d = (Inr v, e)"
  using assms by (simp add: retry_write_def transaction_no_fault retry_from_Ok)

lemma passkey_login_example:
  "\<exists>v cookies t. login_verify example_app (Some (example_library, example_passkeys)) (passkey_headers PASSKEY_AUTHENTICATION_COOKIE) None ''y''
     (passkey_server PASSKEY_AUTHENTICATION_COOKIE) = (Inr (Answered v cookies), t)"
proof -
  let ?p = PASSKEY_AUTHENTICATION_COOKIE and ?me = "example_user\<lparr>usr_password_hash := ''secret12''\<rparr>"
  let ?s = "(passkey_server ?p)\<lparr>sv_instant_tick := Suc 0\<rparr>"
  let ?s1 = "?s\<lparr>sv_hub := (sv_hub ?s)\<lparr>hub_tick := 7\<rparr>, sv_challenges := []\<rparr>"
  let ?k = "example_key\<lparr>pk_credential := ''cr'', pk_last_used_at := Some 7\<rparr>"
  let ?d = "(sv_db ?s1)\<lparr>db_passkeys := [?k]\<rparr>"
  have take: "take_challenge example_app example_library plain_codec ''h'' ?p ?s =
      (Inr \<lparr>cp_state = ''x'', cp_user_id = Some ''u'', cp_expires_at = 600\<rparr>, ?s1)"
    by (rule take_example) simp_all
  have "touch_passkey (ap_repo example_app) ''k'' ''cr'' 7 (sv_db ?s1) = (Inr (), ?d)"
    unfolding touch_passkey_def by (intro calm_retry) (simp_all add: example_key_def)
  moreover obtain x ck e where "start_session (ap_auth example_app) 8 ''u'' ?d = (Inr (x, ck), e)"
    using start_session_calm [of ?d "''u''" 8 "ap_auth example_app"] example_ids by auto
  moreover have "find_user_by_id ''u'' (sv_db ?s1) = (Inr (Some ?me), sv_db ?s1)"
    by (simp add: find_user_by_id_def select_user_def select_calm)
  moreover have "wa_update_credential example_library ''c'' ''r'' = ''cr''" "pk_id example_key = ''k''"
    by (simp_all add: example_library_def example_key_def)
  ultimately obtain v cookies t where "complete_login example_app example_library ''unknown|passkey'' ''u'' example_key ''c'' ''r'' ?s1 =
      (Inr (Answered v cookies), t)"
    by (simp add: complete_login_def op_bind_def on_tables_def set_db_def clock_now_def is_pending_def note_success_def
        open_session_def timed_def)
  moreover have "owned_credential example_app ''u'' ''z'' ?s1 = (Inr (Some example_key), ?s1)"
    by (simp add: owned_credential_def op_bind_def on_tables_def find_by_credential_id_def select_calm set_db_def
        encode_credential_id_def example_key_def example_auth_def letter_crypto_def)
  moreover have "pk_credential example_key = ''c''" by (simp add: example_key_def)
  ultimately show ?thesis using take passkey_cookie [of ?p]
    by (simp add: login_verify_def login_verify_op_def answer_def op_bind_def require_passkeys_def passkey_not_locked_def
        instant_now_def check_lock_at_def new_guard_def required_field_auth_def judge_assertion_def parse_credential_def
        passkey_key_def lockout_key_def client_ip_def PRUNE_THRESHOLD_def PASSKEY_LOCKOUT_SUBJECT_def)
qed

theorem passkey_signs_in_owner_witness:
  "\<exists>t x. x \<in> set (db_sessions (sv_db t)) \<and> ses_user_id x = ''u'' \<and>
     (\<exists>v cookies. login_verify example_app (Some (example_library, example_passkeys)) (passkey_headers PASSKEY_AUTHENTICATION_COOKIE)
        None ''y'' (passkey_server PASSKEY_AUTHENTICATION_COOKIE) = (Inr (Answered v cookies), t))"
proof -
  obtain v cookies t where run: "login_verify example_app (Some (example_library, example_passkeys))
     (passkey_headers PASSKEY_AUTHENTICATION_COOKIE) None ''y'' (passkey_server PASSKEY_AUTHENTICATION_COOKIE) = (Inr (Answered v cookies), t)"
    using passkey_login_example by blast
  from passkey_signs_in_owner [OF bystander_example run] have "\<exists>x. x \<in> set (db_sessions (sv_db t)) \<and> ses_user_id x = ''u''"
    by auto
  with run show ?thesis by blast
qed

theorem challenge_spent_once_witness:
  "\<exists>x t e. login_verify example_app (Some (example_library, example_passkeys)) (passkey_headers PASSKEY_AUTHENTICATION_COOKIE)
       None ''y'' (passkey_server PASSKEY_AUTHENTICATION_COOKIE) = (Inr x, t) \<and>
     fst (login_verify example_app (Some (example_library, example_passkeys)) (passkey_headers PASSKEY_AUTHENTICATION_COOKIE)
       None ''y'' t) = Inl e"
proof -
  obtain x t where run: "login_verify example_app (Some (example_library, example_passkeys))
     (passkey_headers PASSKEY_AUTHENTICATION_COOKIE) None ''y'' (passkey_server PASSKEY_AUTHENTICATION_COOKIE) = (Inr x, t)"
    using passkey_login_example by blast
  have "mono (hub_clock (sv_hub (passkey_server PASSKEY_AUTHENTICATION_COOKIE)))" by (simp add: mono_def)
  from challenge_spent_once [OF bystander_example this run refl order.refl refl, of None "''y''"
      "fst (login_verify example_app (Some (example_library, example_passkeys)) (passkey_headers PASSKEY_AUTHENTICATION_COOKIE) None ''y'' t)"
      "snd (login_verify example_app (Some (example_library, example_passkeys)) (passkey_headers PASSKEY_AUTHENTICATION_COOKIE) None ''y'' t)"]
  show ?thesis using run by auto
qed

theorem passkey_registered_by_owner_witness:
  "\<exists>k t. k \<in> set (db_passkeys (sv_db t)) \<and> pk_user_id k = ''u'' \<and> pk_credential k = ''d'' \<and>
     (\<exists>v cookies. register_verify example_app (Some (example_library, example_passkeys)) example_user
        (passkey_headers PASSKEY_REGISTRATION_COOKIE) \<lparr>rp_name = Some ''phone'', rp_credential = ''y''\<rparr>
        (passkey_server PASSKEY_REGISTRATION_COOKIE) = (Inr (Answered v cookies), t))"
proof -
  let ?p = PASSKEY_REGISTRATION_COOKIE and ?body = "\<lparr>rp_name = Some ''phone'', rp_credential = ''y''\<rparr>"
  let ?s = "passkey_server ?p"
  let ?s1 = "?s\<lparr>sv_hub := (sv_hub ?s)\<lparr>hub_tick := 7\<rparr>, sv_challenges := []\<rparr>"
  let ?n = "\<lparr>nk_user_id = ''u'', nk_credential_id = letters ''d'', nk_name = ''phone'', nk_credential = ''d''\<rparr>"
  have take: "take_challenge example_app example_library plain_codec ''h'' ?p ?s =
      (Inr \<lparr>cp_state = ''x'', cp_user_id = Some ''u'', cp_expires_at = 600\<rparr>, ?s1)"
    by (rule take_example) simp_all
  have name: "passkey_name ''phone'' = Inr ''phone''" by code_simp
  have new: "nat_to_dec 1 \<noteq> ''k''" "letters ''d'' \<noteq> letters ''z''" by code_simp+
  let ?d = "(sv_db ?s1)\<lparr>rng_pos := 2\<rparr>"
  have ids: "rng_uuid logged_in = nat_to_dec" by (simp add: logged_in_def example_world_def example_db_def)
  have "create_passkey_body (nat_to_dec 1) 7 ?n ?d = (Inr (), ?d\<lparr>db_passkeys := [example_key, passkey_row (nat_to_dec 1) 7 ?n]\<rparr>)"
    using new by (simp add: create_passkey_body_def example_key_def)
  then obtain e where "create_passkey (ap_repo example_app) 7 ?n (sv_db ?s1) = (Inr (passkey_row (nat_to_dec 1) 7 ?n), e)"
    using ids by (simp add: create_passkey_def Let_def calm_retry numeral_2_eq_2)
  moreover have "count_passkeys_for_user ''u'' (sv_db ?s1) = (Inr 1, sv_db ?s1)"
    by (simp add: count_passkeys_for_user_def select_calm example_key_def)
  moreover have "below_quota example_passkeys 1 = Inr ()" by (simp add: below_quota_def example_passkeys_def)
  ultimately obtain v cookies t where run: "register_verify example_app (Some (example_library, example_passkeys)) example_user
      (passkey_headers ?p) ?body ?s = (Inr (Answered v cookies), t)"
    using take name passkey_cookie [of ?p]
    by (simp add: register_verify_def register_verify_op_def answer_def op_bind_def require_passkeys_def required_field_auth_def
        some_or_empty_def store_registration_def lib_res_def on_tables_def set_db_def timed_def clock_now_def
        credential_id_b64_def example_auth_def letter_crypto_def)
  from passkey_registered_by_owner [OF bystander_example run]
  have "\<exists>k. k \<in> set (db_passkeys (sv_db t)) \<and> pk_user_id k = ''u'' \<and> pk_credential k = ''d''"
    by (auto split: if_splits)
  with run show ?thesis by blast
qed

end
