(* ===== verification/Bootstrap.thy ===== *)
theory Bootstrap
  imports Passkeys Dashboard
begin

text \<open>
  The single request the pages start from (\<open>src/api/config.rs\<close>, \<open>auth_config\<close> of
  \<open>src/auth/oidc_handlers.rs\<close>, \<open>src/api/client_config.rs\<close>): the public configuration, and for a
  signed-in caller the profile, the telemetry settings and the dashboard, for an administrator the
  administration too; and what it discloses to whom.
\<close>

section \<open>Who asks\<close>

text \<open>A result or nothing: an error is logged and dropped, a panic is not an error.\<close>

definition degraded :: "(server, 'a) op \<Rightarrow> (server, failure, 'a option) run" where
  "degraded m =
     op_bind (op_try m) (\<lambda>r. case r of
       Inr v \<Rightarrow> op_ok (Some v)
     | Inl e \<Rightarrow> (case e of Panic message \<Rightarrow> op_err (Crash message) | _ \<Rightarrow> op_ok None))"

text \<open>\<open>OptionalAuthUser\<close>.\<close>

definition optional_user :: "app \<Rightarrow> headers \<Rightarrow> (server, failure, user option) run" where
  "optional_user app hs =
     op_bind clock_now (\<lambda>now. degraded (on_tables (authenticate_user (ap_auth app) now hs)))"

section \<open>The telemetry settings\<close>

record client_config_view =
  tv_project_source :: management_source
  tv_team_source :: management_source
  tv_sentry_dsn :: "string option"
  tv_sentry_environment :: "string option"
  tv_release :: string
  tv_timezone :: string
  tv_webhooks_enabled :: bool
  tv_invites_enabled :: bool

definition client_config :: "app \<Rightarrow> config \<Rightarrow> client_config_view" where
  "client_config app cfg =
     \<lparr>tv_project_source = ms_project_source (ap_management app), tv_team_source = ms_team_source (ap_management app),
      tv_sentry_dsn = map_option se_dsn (cg_sentry cfg),
      tv_sentry_environment = (case cg_sentry cfg of Some sentry \<Rightarrow> se_environment sentry | None \<Rightarrow> None),
      tv_release = ''soika@0.10.1'', tv_timezone = cg_timezone cfg, tv_webhooks_enabled = cg_webhooks_enabled cfg,
      tv_invites_enabled = invites_enabled (ap_allow_invites app) (ap_management app)\<rparr>"

text \<open>\<open>GET /api/client-config\<close>, behind the extractor of the user.\<close>

definition client_config_handler :: "app \<Rightarrow> config \<Rightarrow> user \<Rightarrow> client_config_view handler" where
  "client_config_handler app cfg u = ok_json (client_config app cfg)"

section \<open>\<open>GET /auth/config\<close>\<close>

record auth_config_view =
  bc_oauth_enabled :: bool
  bc_admin_enabled :: bool
  bc_oauth_provider_name :: string
  bc_password_login :: bool
  bc_sso_rename :: bool
  bc_passkey_enabled :: bool
  bc_allow_signup :: bool
  bc_initialized :: bool
  bc_user :: "profile_view option"
  bc_telemetry :: "client_config_view option"
  bc_projects :: "project_overview_view list option"
  bc_teams :: "team_summary list option"

definition configured_signup :: "config \<Rightarrow> service_settings option \<Rightarrow> bool" where
  "configured_signup cfg settings =
     (case settings of Some st \<Rightarrow> set_allow_signup st | None \<Rightarrow> cg_allow_signup cfg)"

definition dashboard_slice ::
  "app \<Rightarrow> user option \<Rightarrow> (server, failure, project_overview_view list option \<times> team_summary list option) run" where
  "dashboard_slice app who =
     (case who of
        Some u \<Rightarrow>
          op_bind (degraded (overviews app u)) (\<lambda>projects.
          op_bind (degraded (summaries u)) (\<lambda>teams.
          op_ok (projects, teams)))
      | None \<Rightarrow> op_ok (None, None))"

definition auth_config_of :: "app \<Rightarrow> config \<Rightarrow> user option \<Rightarrow> (server, failure, auth_config_view) run" where
  "auth_config_of app cfg who =
     op_bind (degraded (on_hub get_settings)) (\<lambda>settings.
     op_bind (degraded (on_tables count_owners)) (\<lambda>owners.
     op_bind (dashboard_slice app who) (\<lambda>(projects, teams).
     op_ok
       \<lparr>bc_oauth_enabled = ap_oidc app,
        bc_admin_enabled = (ap_admin_enabled app \<and> ap_admin_users app = []),
        bc_oauth_provider_name = (if ap_oidc app then ss_provider_name (ap_sso app) else []),
        bc_password_login = ap_email_login app, bc_sso_rename = ap_sso_rename app,
        bc_passkey_enabled = ap_webauthn app,
        bc_allow_signup = (configured_signup cfg settings \<and> ap_email_login app \<and> \<not> ap_oidc app \<and>
          ms_team_source (ap_management app) = Ui),
        bc_initialized = (case owners of Some n \<Rightarrow> 0 < n | None \<Rightarrow> True),
        bc_user = map_option profile_view_of who,
        bc_telemetry = map_option (\<lambda>_. client_config app cfg) who,
        bc_projects = projects, bc_teams = teams\<rparr>)))"

section \<open>\<open>GET /api/config\<close>\<close>

record admin_config =
  ba_notifications :: notification_view
  ba_settings :: settings_view
  ba_users :: "admin_user_row list"

record config_view =
  bv_config :: auth_config_view
  bv_admin :: "admin_config option"
  bv_passkeys :: "passkey_view list option"

definition admin_slice :: "app \<Rightarrow> bool \<Rightarrow> user option \<Rightarrow> (server, failure, admin_config option) run" where
  "admin_slice app skip_tls who =
     (case who of
        Some u \<Rightarrow>
          if can_manage_instance (usr_instance_role u) then
            op_bind (get_notifications_handler app skip_tls u) (\<lambda>(_, notifications).
            op_bind (get_settings_handler app u) (\<lambda>(_, settings).
            op_bind (list_users_handler app u) (\<lambda>(_, users).
            op_ok (Some \<lparr>ba_notifications = notifications, ba_settings = settings, ba_users = users\<rparr>))))
          else op_ok None
      | None \<Rightarrow> op_ok None)"

definition passkey_slice :: "app \<Rightarrow> passkeys \<Rightarrow> user option \<Rightarrow> (server, failure, passkey_view list option) run" where
  "passkey_slice app pk who =
     (case who of
        Some u \<Rightarrow>
          if ap_webauthn app then op_bind (passkey_list app pk u) (\<lambda>(_, keys). op_ok (Some keys)) else op_ok None
      | None \<Rightarrow> op_ok None)"

definition config_headers :: headers where
  "config_headers = [(''cache-control'', ''private, no-store''), (''vary'', ''Cookie'')]"

definition get_config ::
  "app \<Rightarrow> config \<Rightarrow> bool \<Rightarrow> passkeys \<Rightarrow> user option \<Rightarrow> (server, failure, headers \<times> config_view) run" where
  "get_config app cfg skip_tls pk who =
     op_bind (admin_slice app skip_tls who) (\<lambda>admin.
     op_bind (passkey_slice app pk who) (\<lambda>keys.
     op_bind (auth_config_of app cfg who) (\<lambda>public.
     op_ok (config_headers, \<lparr>bv_config = public, bv_admin = admin, bv_passkeys = keys\<rparr>))))"

definition bootstrap ::
  "app \<Rightarrow> config \<Rightarrow> bool \<Rightarrow> passkeys \<Rightarrow> headers \<Rightarrow> (server, failure, headers \<times> config_view) run" where
  "bootstrap app cfg skip_tls pk hs = op_bind (optional_user app hs) (get_config app cfg skip_tls pk)"

section \<open>What is disclosed\<close>

lemma learns_degraded:
  assumes "learns c P m"
  shows "learns c (\<lambda>x. \<forall>v. x = Some v \<longrightarrow> P v) (degraded m)"
proof (rule learnsI)
  fix s r t assume s: "content s = c" and run: "degraded m s = (r, t)"
  obtain q u where m: "m s = (q, u)" by fastforce
  from learnsD [OF assms s m] run m show "content t = c \<and> (\<forall>v. r = Inr v \<longrightarrow> (\<forall>w. v = Some w \<longrightarrow> P w))"
    by (auto simp: degraded_def op_bind_def op_try_def split: sum.splits error.splits)
qed

lemma learns_idle: "idle m \<Longrightarrow> learns c (\<lambda>_. True) m"
  unfolding learns_def moves_def by auto

text \<open>What each slice may hold, from the tables.\<close>

definition own_passkeys :: "server \<Rightarrow> user \<Rightarrow> passkey_view multiset" where
  "own_passkeys s u = image_mset passkey_view_of (filter_mset (\<lambda>k. pk_user_id k = usr_id u) (mset (db_passkeys (sv_db s))))"

definition visible_overviews :: "app \<Rightarrow> server \<Rightarrow> user \<Rightarrow> project_overview_view multiset" where
  "visible_overviews app s u =
     mset (map (overview_spec app s u) (filter (\<lambda>p. sees_team (sv_db s) u (prj_team_id p)) (db_projects (sv_db s))))"

lemma learns_dashboard:
  "learns c (\<lambda>(projects, teams). (who = None \<longrightarrow> projects = None \<and> teams = None) \<and>
      (\<forall>u ps. who = Some u \<longrightarrow> projects = Some ps \<longrightarrow> sorted (map overview_key ps) \<and> mset ps = visible_overviews app c u))
    (dashboard_slice app who)"
proof (cases who)
  case None
  then show ?thesis unfolding dashboard_slice_def option.case by (auto intro: learns_weaken [OF learns_ok])
next
  case (Some u)
  show ?thesis unfolding dashboard_slice_def Some option.case
    by (rule learns_bind [OF learns_degraded [OF overviews_learn]], rule learns_bind [OF learns_degraded [OF learns_idle]],
        intro reads, rule learns_weaken [OF learns_ok]) (auto simp: visible_overviews_def)
qed

lemma learns_owners: "learns c (\<lambda>n. n = int (length (owners (sv_db c)))) (on_tables count_owners)"
  unfolding count_owners_def by (rule learns_read) (simp add: owners_def)

lemma learns_passkeys:
  "learns c (\<lambda>x. (who = None \<longrightarrow> x = None) \<and> (\<forall>u ks. who = Some u \<longrightarrow> x = Some ks \<longrightarrow> mset ks = own_passkeys c u))
     (passkey_slice app pk who)"
proof (cases who)
  case None
  then show ?thesis unfolding passkey_slice_def option.case by (auto intro: learns_weaken [OF learns_ok])
next
  case (Some u)
  have keys: "learns c (\<lambda>(n, ks). mset ks = own_passkeys c u) (passkey_list app pk u)"
    unfolding passkey_list_def rendered_def
  proof (rule learns_answer, rule learns_bind [OF learns_res], rule learns_bind)
    show "learns c (\<lambda>ks. image_mset passkey_view_of (mset ks) = own_passkeys c u) (on_tables (list_passkeys_for_user (usr_id u)))"
      unfolding list_passkeys_for_user_def by (rule learns_read) (simp add: own_passkeys_def)
  qed (rule learns_weaken [OF learns_ok], simp)
  have "learns c (\<lambda>x. \<forall>ks. x = Some ks \<longrightarrow> mset ks = own_passkeys c u)
      (op_bind (passkey_list app pk u) (\<lambda>(_, ks). op_ok (Some ks)))"
    using keys by (rule learns_bind) (auto intro: learns_weaken [OF learns_ok])
  moreover have "learns c (\<lambda>x. \<forall>ks. x = Some ks \<longrightarrow> mset ks = own_passkeys c u) (op_ok None)"
    by (rule learns_weaken [OF learns_ok]) simp
  ultimately show ?thesis unfolding passkey_slice_def Some option.case by (auto intro: learns_weaken)
qed

lemma learns_admin: "learns c (\<lambda>x. x \<noteq> None \<longleftrightarrow> (\<exists>u. who = Some u \<and> manages u)) (admin_slice app skip_tls who)"
proof (cases who)
  case None
  then show ?thesis unfolding admin_slice_def option.case by (auto intro: learns_weaken [OF learns_ok])
next
  case (Some u)
  have idle: "idle (get_notifications_handler app skip_tls u)" "idle (get_settings_handler app u)" "idle (list_users_handler app u)"
    unfolding get_notifications_handler_def get_settings_handler_def list_users_handler_def rendered_def by (intro reads)+
  show ?thesis unfolding admin_slice_def Some option.case
    by (rule learns_if, (rule learns_bind, (rule learns_idle, rule idle), simp only: split_beta)+)
      (auto intro: learns_weaken [OF learns_ok])
qed

definition discloses :: "app \<Rightarrow> server \<Rightarrow> user option \<Rightarrow> config_view \<Rightarrow> bool" where
  "discloses app s who v \<longleftrightarrow>
     (bv_admin v \<noteq> None \<longleftrightarrow> (\<exists>u. who = Some u \<and> manages u)) \<and>
     bc_user (bv_config v) = map_option profile_view_of who \<and>
     (who = None \<longrightarrow> bc_telemetry (bv_config v) = None \<and> bc_projects (bv_config v) = None \<and>
        bc_teams (bv_config v) = None \<and> bv_passkeys v = None) \<and>
     (\<forall>u ps. who = Some u \<longrightarrow> bc_projects (bv_config v) = Some ps \<longrightarrow>
        sorted (map overview_key ps) \<and> mset ps = visible_overviews app s u) \<and>
     (\<forall>u ks. who = Some u \<longrightarrow> bv_passkeys v = Some ks \<longrightarrow> mset ks = own_passkeys s u) \<and>
     (bc_allow_signup (bv_config v) \<longrightarrow> ap_email_login app \<and> \<not> ap_oidc app \<and> ms_team_source (ap_management app) = Ui) \<and>
     (owners (sv_db s) \<noteq> [] \<longrightarrow> bc_initialized (bv_config v))"

definition public_ok :: "app \<Rightarrow> server \<Rightarrow> user option \<Rightarrow> auth_config_view \<Rightarrow> bool" where
  "public_ok app s who v \<longleftrightarrow>
     bc_user v = map_option profile_view_of who \<and>
     (who = None \<longrightarrow> bc_telemetry v = None \<and> bc_projects v = None \<and> bc_teams v = None) \<and>
     (\<forall>u ps. who = Some u \<longrightarrow> bc_projects v = Some ps \<longrightarrow> sorted (map overview_key ps) \<and> mset ps = visible_overviews app s u) \<and>
     (bc_allow_signup v \<longrightarrow> ap_email_login app \<and> \<not> ap_oidc app \<and> ms_team_source (ap_management app) = Ui) \<and>
     (owners (sv_db s) \<noteq> [] \<longrightarrow> bc_initialized v)"

lemma learns_public: "learns c (public_ok app c who) (auth_config_of app cfg who)"
  unfolding auth_config_of_def
proof (rule learns_bind [OF learns_degraded [OF learns_idle]])
  show "idle (on_hub get_settings)" by (intro reads)
next
  fix settings
  show "learns c (public_ok app c who) (op_bind (degraded (on_tables count_owners)) (\<lambda>n.
     op_bind (dashboard_slice app who) (\<lambda>(projects, teams).
     op_ok
       \<lparr>bc_oauth_enabled = ap_oidc app,
        bc_admin_enabled = (ap_admin_enabled app \<and> ap_admin_users app = []),
        bc_oauth_provider_name = (if ap_oidc app then ss_provider_name (ap_sso app) else []),
        bc_password_login = ap_email_login app, bc_sso_rename = ap_sso_rename app,
        bc_passkey_enabled = ap_webauthn app,
        bc_allow_signup = (configured_signup cfg settings \<and> ap_email_login app \<and> \<not> ap_oidc app \<and>
          ms_team_source (ap_management app) = Ui),
        bc_initialized = (case n of Some n \<Rightarrow> 0 < n | None \<Rightarrow> True),
        bc_user = map_option profile_view_of who,
        bc_telemetry = map_option (\<lambda>_. client_config app cfg) who,
        bc_projects = projects, bc_teams = teams\<rparr>)))"
    by (rule learns_bind [OF learns_degraded [OF learns_owners]], rule learns_bind [OF learns_dashboard])
      (auto intro!: learns_weaken [OF learns_ok] simp: public_ok_def split: option.splits)
qed

lemma learns_config:
  "learns c (\<lambda>(hs, v). hs = config_headers \<and> discloses app c who v) (get_config app cfg skip_tls pk who)"
  unfolding get_config_def
  by (rule learns_bind [OF learns_admin], rule learns_bind [OF learns_passkeys], rule learns_bind [OF learns_public],
      rule learns_weaken [OF learns_ok]) (auto simp: discloses_def public_ok_def)

text \<open>The caller as the signed cookie and the tables give it.\<close>

definition caller :: "app \<Rightarrow> headers \<Rightarrow> server \<Rightarrow> user option" where
  "caller app hs s =
     (case fst (authenticate_user (ap_auth app) (hub_clock (sv_hub s) (hub_tick (sv_hub s))) hs (sv_db s)) of
        Inr u \<Rightarrow> Some u | Inl _ \<Rightarrow> None)"

lemma optional_user_run:
  assumes "optional_user app hs s = (Inr who, t)"
  shows "content t = content s \<and> who = caller app hs s"
proof -
  obtain q d where run: "authenticate_user (ap_auth app) (hub_clock (sv_hub s) (hub_tick (sv_hub s))) hs (sv_db s) = (q, d)"
    by (cases "authenticate_user (ap_auth app) (hub_clock (sv_hub s) (hub_tick (sv_hub s))) hs (sv_db s)")
  from authenticate_quiet [OF run] have "quiet_db d = quiet_db (sv_db s)" .
  then show ?thesis
    using assms run
    by (auto simp: optional_user_def degraded_def op_try_def op_bind_def clock_now_def on_tables_def set_db_def content_def
        caller_def split: sum.splits prod.splits error.splits)
qed

lemma discloses_content: "discloses app (content s) who v = discloses app s who v"
proof -
  have "sees_team (sv_db (content s)) = sees_team (sv_db s)" by (simp add: fun_eq_iff sees_team_def has_team_role_def)
  moreover have "overview_spec app (content s) u = overview_spec app s u" for u
    by (simp add: fun_eq_iff overview_spec_def open_issues_def) (simp add: content_def)
  ultimately show ?thesis by (simp add: discloses_def visible_overviews_def own_passkeys_def owners_def)
qed

text \<open>C22. The start request tells each caller its own: without a valid session it holds no profile, no telemetry
  settings, no project, no team, no passkey and nothing of the administration; with one, the caller's own profile
  and passkeys, exactly the projects the caller may see with their counts, and the administration only for a
  manager of the instance. It never offers public sign-up where password login is off, single sign-on is on or the
  teams come from a file, nor the first-run setup once there is an owner; the answer is not cached, and nothing changes.\<close>

theorem bootstrap_discloses:
  assumes "bootstrap app cfg skip_tls pk hs s = (Inr (answer_headers, v), t)"
  shows "content t = content s \<and> discloses app s (caller app hs s) v \<and> answer_headers = config_headers"
proof -
  obtain who u where who: "optional_user app hs s = (Inr who, u)"
    and rest: "get_config app cfg skip_tls pk who u = (Inr (answer_headers, v), t)"
    using assms unfolding bootstrap_def op_bind_Inr by blast
  from optional_user_run [OF who] have u: "content u = content s" "who = caller app hs s" by blast+
  from learnsD [OF learns_config u(1) rest] u(2) show ?thesis by (simp add: discloses_content)
qed

theorem bootstrap_discloses_witness:
  "\<forall>cfg. \<exists>v t. bootstrap example_app cfg True None [] example_server = (Inr (config_headers, v), t) \<and>
     bc_user (bv_config v) = None \<and> bc_projects (bv_config v) = None \<and> bc_telemetry (bv_config v) = None"
proof
  fix cfg
  have anonymous: "authenticate_user example_auth n [] d = (Inl (Auth ''missing or invalid session''), d)" for n d
    by (simp add: authenticate_user_def session_id_from_headers_def read_cookie_def header_get_def)
  obtain v t where run: "bootstrap example_app cfg True None [] example_server = (Inr (config_headers, v), t)"
    by (simp add: bootstrap_def optional_user_def op_bind_def degraded_def op_try_def on_tables_def clock_now_def anonymous set_db_def
        get_config_def admin_slice_def passkey_slice_def auth_config_of_def on_hub_def get_settings_def statement_def
        count_owners_def select_calm dashboard_slice_def)
  have "caller example_app [] example_server = None" by (simp add: caller_def anonymous)
  with bootstrap_discloses [OF run] run show
    "\<exists>v t. bootstrap example_app cfg True None [] example_server = (Inr (config_headers, v), t) \<and>
     bc_user (bv_config v) = None \<and> bc_projects (bv_config v) = None \<and> bc_telemetry (bv_config v) = None"
    by (auto simp: discloses_def)
qed

end
