(* ===== verification/Startup.thy ===== *)
theory Startup
  imports Bootstrap ConfigSyncFacts
begin

text \<open>
  The start-up synchronisation (\<open>src/config_sync.rs\<close>): the configuration file is read where something is managed
  by it, the settings of the environment are published where the service is managed by it, the declared
  projects and teams are applied, and the labels of the projects are handed to the alert delivery.

  The file system, the YAML library and the environment are arguments.
\<close>

section \<open>Synchronisation\<close>

record startup_lib =
  su_readers :: file_readers
  su_read :: "string \<Rightarrow> string option"
  su_exists :: "string \<Rightarrow> bool option"
  su_yaml_text :: "yaml \<Rightarrow> string option"
  su_environ :: environ
  su_sync :: sync_env
  su_desk_env :: "nat \<Rightarrow> desk \<Rightarrow> desk"
  su_policy :: write_policy
  su_hub_env :: hub_env

definition wants_file :: "management_settings \<Rightarrow> bool" where
  "wants_file settings \<longleftrightarrow>
     ms_project_source settings = Yaml \<or> ms_team_source settings = Yaml \<or> ms_notification_source settings = Yaml"

definition env_file_exists :: "startup_lib \<Rightarrow> management_settings \<Rightarrow> bool res" where
  "env_file_exists lib settings =
     (if ms_service_source settings = Env then
        (case su_exists lib (ms_path settings) of
           None \<Rightarrow> Inl (Validation (''configuration file unreadable at '' @ ms_path settings))
         | Some b \<Rightarrow> Inr b)
      else Inr False)"

definition declares_groups :: "config_file \<Rightarrow> bool" where
  "declares_groups desired \<longleftrightarrow>
     list_ex (\<lambda>t. is_some_and (\<lambda>gs. gs \<noteq> []) (tc_sso_groups t)) (opt_list (cf_teams desired))"

definition groups_supported :: "config \<Rightarrow> config_file \<Rightarrow> unit res" where
  "groups_supported cfg desired =
     (if declares_groups desired \<and> \<not> is_some_and (\<lambda>o'. od_kind o' = KindOidc) (cg_oidc cfg)
      then Inl (Validation ''sso_groups require an OIDC provider that returns group claims'')
      else Inr ())"

definition no_file :: config_file where
  "no_file = \<lparr>cf_version = 1, cf_notifications = None, cf_projects = None, cf_teams = None, cf_project_labels = []\<rparr>"

definition desired_file :: "startup_lib \<Rightarrow> config \<Rightarrow> (config_file \<times> bool) res" where
  "desired_file lib cfg =
     (let settings = cg_management cfg in
      and_then (env_file_exists lib settings) (\<lambda>env_file.
      if wants_file settings \<or> env_file then
        and_then (read_configuration (su_readers lib) (su_read lib) (env_get (su_environ lib)) (su_yaml_text lib) settings)
          (\<lambda>(desired, default_file). and_then (groups_supported cfg desired) (\<lambda>_. Inr (desired, default_file)))
      else Inr (no_file, False)))"

text \<open>The notification settings the environment gives.\<close>

definition published_config :: "startup_lib \<Rightarrow> config \<Rightarrow> notification_config res" where
  "published_config lib cfg =
     (let c = default_config\<lparr>am_enabled := cg_alerts_enabled cfg,
                am_url := (case cg_alertmanager_url cfg of Some u \<Rightarrow> u | None \<Rightarrow> [])\<rparr> in
      case env_get (su_environ lib) ''ALERTMANAGER_DEFAULT_LABELS'' of
        Some labels \<Rightarrow> apply_alertmanager_labels c labels
      | None \<Rightarrow> Inr c)"

fun check_project_labels :: "(string \<Rightarrow> base_url option) \<Rightarrow> notification_config \<Rightarrow> string bmap list \<Rightarrow> unit res" where
  "check_project_labels url c [] = Inr ()"
| "check_project_labels url c (labels # rest) =
     and_then (validate_config url (c\<lparr>am_labels := bm_extend (am_labels c) labels\<rparr>)) (\<lambda>_. check_project_labels url c rest)"

definition publish_settings :: "startup_lib \<Rightarrow> config \<Rightarrow> config_file \<Rightarrow> (server, unit) op" where
  "publish_settings lib cfg desired =
     (let url = se_url (su_sync lib); env = su_hub_env lib in
      op_bind (on_hub (set_interval env None (Some (cg_alert_interval cfg)))) (\<lambda>_.
      op_bind (on_hub (set_severity env None (cg_alert_severity cfg))) (\<lambda>_.
      op_bind (op_res (published_config lib cfg)) (\<lambda>c.
      op_bind (op_res (validate_config url c)) (\<lambda>_.
      op_bind (op_res (check_project_labels url c (map snd (cf_project_labels desired)))) (\<lambda>_.
      op_bind (on_hub (set_notifications url env c)) (\<lambda>_.
      op_bind (timed_hub (\<lambda>now. set_org_name_to now (cg_organization_name cfg))) (\<lambda>_.
      op_bind (timed_hub (\<lambda>now. set_allow_signup_to now (cg_allow_signup cfg))) (\<lambda>_. op_ok ())))))))))"

definition set_project_labels :: "string bmap bmap \<Rightarrow> (server, unit) op" where
  "set_project_labels labels s = (Inr (), s\<lparr>sv_hub := (sv_hub s)\<lparr>hub_project_labels := map_of labels\<rparr>\<rparr>)"

definition synchronize :: "startup_lib \<Rightarrow> config \<Rightarrow> (server, sync_report) op" where
  "synchronize lib cfg =
     (let settings = cg_management cfg; url = se_url (su_sync lib) in
      op_bind (op_res (desired_file lib cfg)) (\<lambda>(desired, default_file).
      op_bind (if ms_service_source settings = Env then publish_settings lib cfg desired else op_ok ()) (\<lambda>_.
      op_bind (case cf_notifications desired of Some c \<Rightarrow> op_ok c | None \<Rightarrow> on_hub get_notifications) (\<lambda>notifications.
      op_bind (if cg_alerts_enabled cfg then op_res (effective_config url notifications (cg_alertmanager_url cfg))
               else op_ok notifications) (\<lambda>_.
      op_bind (op_bind clock_now (\<lambda>now. on_desk (apply_with_retry (su_desk_env lib) (su_policy lib) (su_sync lib) desired settings
                 (cg_events_retention cfg) now))) (\<lambda>report.
      op_bind (if ms_service_source settings = Env
               then timed_hub (\<lambda>now. set_default_team_ids (su_hub_env lib) now (ms_default_team_ids settings)) else op_ok ()) (\<lambda>_.
      op_bind (set_project_labels (cf_project_labels desired)) (\<lambda>_.
      op_ok (report\<lparr>sr_default_file := default_file\<rparr>)))))))))"

section \<open>Writes that other connections do not disturb\<close>

text \<open>The settings of the service that the start-up publishes, and the tables.\<close>

definition undisturbed :: "hub \<Rightarrow> hub \<Rightarrow> bool" where
  "undisturbed h t \<longleftrightarrow>
     quiet_db (hub_db t) = quiet_db (hub_db h) \<and> hub_interval t = hub_interval h \<and>
     hub_default_severity t = hub_default_severity h \<and> hub_settings t = hub_settings h \<and>
     hub_severities t = hub_severities h \<and> hub_intervals t = hub_intervals h"

interpretation undisturbed: step_relation undisturbed
  by unfold_locales (auto simp: undisturbed_def)

lemma statement_run:
  assumes "statement body h = (r, t)"
  shows "(\<forall>e. r = Inl e \<longrightarrow> undisturbed h t) \<and> (\<forall>v. r = Inr v \<longrightarrow> (\<exists>x. undisturbed h x \<and> body x = (Inr v, t)))"
proof (cases "\<exists>e fs. faults (hub_db h) = Some e # fs")
  case True
  then show ?thesis using assms by (auto simp: statement_def undisturbed_def)
next
  case False
  let ?h0 = "h\<lparr>hub_db := hub_db h\<lparr>faults := tl (faults (hub_db h))\<rparr>\<rparr>"
  have "statement body h = (case body ?h0 of (Inr v, t) \<Rightarrow> (Inr v, t) | (Inl e, t) \<Rightarrow> (Inl e, ?h0))"
    using False by (cases "faults (hub_db h)"; cases "hd (faults (hub_db h))") (auto simp: statement_def Let_def split: prod.split sum.split)
  moreover have "undisturbed h ?h0" by (simp add: undisturbed_def)
  ultimately show ?thesis using assms by (auto split: prod.splits sum.splits)
qed

lemma hub_write_run:
  assumes env: "\<forall>n x. undisturbed x (env n x)" and run: "hub_write env what body h = (Inr v, t)"
  shows "\<exists>x. undisturbed h x \<and> body x = (Inr v, t)"
proof -
  have "\<exists>x. undisturbed h x \<and> statement body x = (Inr v, t)"
  proof (rule retry_from_last [where I = "undisturbed h" and env = env])
    show "undisturbed h z" if "undisturbed h y" "statement body y = (Inl e, z)" for y e z
      using that statement_run undisturbed.trans by blast
    show "undisturbed h (env n y)" if "undisturbed h y" for n y using that env undisturbed.trans by blast
  qed (use run undisturbed.refl in \<open>simp_all add: retry_write_def\<close>)
  then obtain x where x: "undisturbed h x" "statement body x = (Inr v, t)" by blast
  with statement_run [OF x(2)] show ?thesis using undisturbed.trans by blast
qed

lemma on_hub_Inr: "on_hub m s = (Inr v, t) \<longleftrightarrow> (\<exists>h. m (sv_hub s) = (Inr v, h) \<and> t = s\<lparr>sv_hub := h\<rparr>)"
  by (auto simp: on_hub_def split: prod.splits)

section \<open>Publishing the settings of the environment\<close>

definition severity_text_of :: "alert_severity option \<Rightarrow> string" where
  "severity_text_of sev = (case sev of None \<Rightarrow> [] | Some x \<Rightarrow> severity_as_str x)"

lemma set_setting_run:
  assumes "op_bind (statement (\<lambda>h. (Inr (), f h))) (\<lambda>_. get_settings) h = (Inr v, t)"
  shows "\<exists>x. undisturbed h x \<and> undisturbed (f x) t"
proof -
  obtain a where one: "statement (\<lambda>h. (Inr (), f h)) h = (Inr (), a)" and two: "get_settings a = (Inr v, t)"
    using assms by (auto simp: op_bind_Inr)
  from statement_run [OF one] obtain x where "undisturbed h x" "a = f x" by auto
  moreover from statement_run [OF two [unfolded get_settings_def]] have "undisturbed a t" by auto
  ultimately show ?thesis by blast
qed

lemma publish_run:
  assumes env: "\<forall>n x. undisturbed x (su_hub_env lib n x)" and run: "publish_settings lib cfg desired s = (Inr v, t)"
  shows "quiet_db (sv_db t) = quiet_db (sv_db s) \<and> hub_severities (sv_hub t) = hub_severities (sv_hub s) \<and>
    hub_intervals (sv_hub t) = hub_intervals (sv_hub s) \<and> hub_interval (sv_hub t) = cg_alert_interval cfg \<and>
    hub_default_severity (sv_hub t) = severity_text_of (cg_alert_severity cfg) \<and>
    set_org_name (hub_settings (sv_hub t)) = cg_organization_name cfg \<and>
    set_allow_signup (hub_settings (sv_hub t)) = cg_allow_signup cfg"
proof -
  let ?e = "su_hub_env lib"
  obtain a b c d cfg' n m where one: "set_interval ?e None (Some (cg_alert_interval cfg)) (sv_hub s) = (Inr (), a)"
    and two: "set_severity ?e None (cg_alert_severity cfg) a = (Inr (), b)"
    and three: "set_notifications (se_url (su_sync lib)) ?e cfg' b = (Inr (), c)"
    and four: "\<exists>w. set_org_name_to n (cg_organization_name cfg) (c\<lparr>hub_tick := Suc (hub_tick c)\<rparr>) = (Inr w, d)"
    and five: "\<exists>w. set_allow_signup_to m (cg_allow_signup cfg) (d\<lparr>hub_tick := Suc (hub_tick d)\<rparr>) = (Inr w, sv_hub t)"
    using run
    by (auto simp: publish_settings_def Let_def op_bind_Inr on_hub_Inr timed_hub_def clock_now_def) blast
  from one obtain x where "undisturbed (sv_hub s) x" "a = x\<lparr>hub_interval := cg_alert_interval cfg\<rparr>"
    by (auto simp: set_interval_def op_bind_Inr dest!: hub_write_run [OF env])
  moreover from two obtain y where "undisturbed a y" "b = y\<lparr>hub_default_severity := severity_text_of (cg_alert_severity cfg)\<rparr>"
    by (auto simp: set_severity_def Let_def severity_text_of_def dest!: hub_write_run [OF env])
  moreover from three obtain z where "undisturbed b z" "c = z\<lparr>hub_config := cfg'\<rparr>"
    by (auto simp: set_notifications_def op_bind_Inr dest!: hub_write_run [OF env])
  moreover from four obtain u where "undisturbed (c\<lparr>hub_tick := Suc (hub_tick c)\<rparr>) u"
      "undisturbed (u\<lparr>hub_settings := hub_settings u\<lparr>set_org_name := cg_organization_name cfg, set_updated_at := n\<rparr>\<rparr>) d"
    by (auto simp: set_org_name_to_def dest!: set_setting_run)
  moreover from five obtain w where "undisturbed (d\<lparr>hub_tick := Suc (hub_tick d)\<rparr>) w"
      "undisturbed (w\<lparr>hub_settings := hub_settings w\<lparr>set_allow_signup := cg_allow_signup cfg, set_updated_at := m\<rparr>\<rparr>) (sv_hub t)"
    by (auto simp: set_allow_signup_to_def dest!: set_setting_run)
  ultimately show ?thesis by (simp add: undisturbed_def)
qed

section \<open>What a start leaves\<close>

definition same_desk :: "desk \<Rightarrow> desk \<Rightarrow> bool" where
  "same_desk d e \<longleftrightarrow>
     db_teams (dk_db e) = db_teams (dk_db d) \<and> db_users (dk_db e) = db_users (dk_db d) \<and>
     db_members (dk_db e) = db_members (dk_db d) \<and> db_projects (dk_db e) = db_projects (dk_db d) \<and>
     dk_sso_groups e = dk_sso_groups d \<and> dk_severities e = dk_severities d \<and> dk_intervals e = dk_intervals d"

lemma declared_same: "same_desk d e \<Longrightarrow> as_declared lower settings retention desired e = as_declared lower settings retention desired d"
  by (simp add: same_desk_def as_declared_def team_as_declared_def project_as_declared_def row_declared_def teams_settled_def
      projects_settled_def)

lemma world_ok_rng [simp]: "world_ok (d\<lparr>rng_pos := n\<rparr>) = world_ok d"
  by (simp add: world_ok_def users_ok_def teams_ok_def members_ok_def)

lemma quiet_world:
  assumes "quiet_db e = quiet_db d" "world_ok d"
  shows "world_ok e"
proof -
  have "world_ok (quiet_db d)" using assms(2) by simp
  then show ?thesis unfolding assms(1) [symmetric] by simp
qed

definition file_sources :: "management_settings \<Rightarrow> bool" where
  "file_sources settings \<longleftrightarrow> ms_project_source settings \<in> {Ui, Yaml} \<and> ms_team_source settings \<in> {Ui, Yaml}"

lemma management_sources:
  "management_from_env el env = Inr m \<Longrightarrow> file_sources m"
proof -
  assume "management_from_env el env = Inr m"
  then have "source_from env ''PROJECT_MANAGEMENT_SOURCE'' = Inr (ms_project_source m)"
      "source_from env ''TEAM_MANAGEMENT_SOURCE'' = Inr (ms_team_source m)"
    by (auto simp: management_from_env_def loaded simp del: Let_def)
  moreover have "source_from env key = Inr x \<Longrightarrow> x \<in> {Ui, Yaml}" for key x
    by (auto simp: source_from_def Let_def split: if_splits)
  ultimately show ?thesis unfolding file_sources_def by blast
qed

lemma loaded_sources: "from_env el env = Inr cfg \<Longrightarrow> file_sources (cg_management cfg)"
  by (auto simp: from_env_def Let_def loaded intro: management_sources)

lemma no_file_checks:
  "\<not> wants_file settings \<Longrightarrow> file_sources settings \<Longrightarrow> check_sections rd settings no_file = Inr no_file"
  by (auto simp: check_sections_def wants_file_def file_sources_def no_file_def Let_def validate_projects_def validate_teams_def
      validate_project_slugs_def errors_res_def)

lemma desired_file_checks:
  assumes "desired_file lib cfg = Inr (desired, dflt)" "file_sources (cg_management cfg)"
  shows "\<exists>file. check_sections (su_readers lib) (cg_management cfg) file = Inr desired"
proof (cases "desired = no_file \<and> \<not> wants_file (cg_management cfg)")
  case True
  then show ?thesis using no_file_checks assms(2) by blast
next
  case False
  with assms obtain expanded where "parse_config (su_readers lib) expanded (cg_management cfg) = Inr desired"
    by (auto simp: desired_file_def Let_def loaded read_configuration_def split: if_splits option.splits sum.splits)
  then show ?thesis by (auto simp: parse_config_def split: option.splits sum.splits prod.splits)
qed

lemma apply_run:
  assumes env: "\<forall>n d. world_ok (dk_db d) \<longrightarrow> world_ok (dk_db (su_desk_env lib n d))"
    and checks: "check_sections rd settings file = Inr desired" and "world_ok (dk_db d)"
    and run: "apply_with_retry (su_desk_env lib) policy se desired settings retention now d = (Inr rep, t)"
  shows "as_declared (se_lower se) settings retention desired t"
proof -
  have "\<exists>x. world_ok (dk_db x) \<and> apply_once se desired settings retention now x = (Inr rep, t)"
  proof (rule retry_from_last [where I = "\<lambda>x. world_ok (dk_db x)" and env = "su_desk_env lib"])
    show "world_ok (dk_db z)" if "world_ok (dk_db y)" "apply_once se desired settings retention now y = (Inl e, z)" for y e z
      using that by (auto simp: apply_once_def desk_transaction_def Let_def split: list.splits option.splits prod.splits sum.splits)
  qed (use assms in \<open>simp_all add: apply_with_retry_def retry_write_def\<close>)
  then obtain x where "world_ok (dk_db x)" "apply_once se desired settings retention now x = (Inr rep, t)" by blast
  then show ?thesis by (rule committed_as_declared [OF checks])
qed

lemma default_teams_run:
  assumes env: "\<forall>n x. undisturbed x (env n x)" and run: "set_default_team_ids env now ids h = (Inr v, t)"
  shows "\<exists>x. undisturbed h x \<and> t = x\<lparr>hub_db := hub_db x\<lparr>db_default_teams := remdups (sort ids)\<rparr>,
     hub_settings := hub_settings x\<lparr>set_updated_at := now\<rparr>\<rparr>"
  using hub_write_run [OF env run [unfolded set_default_team_ids_def Let_def]] by (auto split: option.splits)

lemma synchronize_run:
  assumes "synchronize lib cfg s = (Inr rep, t)"
  shows "\<exists>desired dflt s1 wanted s2 report d s4. desired_file lib cfg = Inr (desired, dflt) \<and>
    (if ms_service_source (cg_management cfg) = Env then publish_settings lib cfg desired else op_ok ()) s = (Inr (), s1) \<and>
    (case cf_notifications desired of Some c \<Rightarrow> op_ok c | None \<Rightarrow> on_hub get_notifications) s1 = (Inr wanted, s2) \<and>
    (\<exists>now. apply_with_retry (su_desk_env lib) (su_policy lib) (su_sync lib) desired (cg_management cfg) (cg_events_retention cfg) now
        (desk_of (s2\<lparr>sv_hub := (sv_hub s2)\<lparr>hub_tick := Suc (hub_tick (sv_hub s2))\<rparr>\<rparr>)) = (Inr report, d)) \<and>
    (if ms_service_source (cg_management cfg) = Env
     then timed_hub (\<lambda>now. set_default_team_ids (su_hub_env lib) now (ms_default_team_ids (cg_management cfg))) else op_ok ())
        (put_desk d (s2\<lparr>sv_hub := (sv_hub s2)\<lparr>hub_tick := Suc (hub_tick (sv_hub s2))\<rparr>\<rparr>)) = (Inr (), s4) \<and>
    t = s4\<lparr>sv_hub := (sv_hub s4)\<lparr>hub_project_labels := map_of (cf_project_labels desired)\<rparr>\<rparr> \<and> sr_default_file rep = dflt"
proof -
  have on_desk_Inr: "on_desk m u = (Inr v, w) \<longleftrightarrow> (\<exists>d. m (desk_of u) = (Inr v, d) \<and> w = put_desk d u)" for m :: "(desk, 'x) op" and u v w
    by (auto simp: on_desk_def split: prod.splits)
  have checked: "(if b then op_res r else op_ok x) u = (Inr v, w) \<longleftrightarrow> w = u \<and> (if b then r = Inr v else v = x)"
    for b and r :: "'y res" and x v and u w :: server
    by auto
  show ?thesis
    using assms
    by (simp only: synchronize_def Let_def op_bind_Inr split_paired_Ex prod.case on_desk_Inr checked clock_now_def set_project_labels_def
        op_simps prod.inject sum.inject) (auto; blast)
qed


section \<open>At an instance without a file\<close>

definition bare_start :: startup_lib where
  "bare_start =
     \<lparr>su_readers = example_readers, su_read = (\<lambda>_. None), su_exists = (\<lambda>_. Some False), su_yaml_text = (\<lambda>_. None),
      su_environ = bare_env ''k'', su_sync = example_sync, su_desk_env = (\<lambda>_ d. d), su_policy = default_write_policy,
      su_hub_env = (\<lambda>_ h. h)\<rparr>"

definition bare_server :: server where
  "bare_server = example_server\<lparr>sv_hub := (sv_hub example_server)\<lparr>hub_db := example_world\<rparr>\<rparr>"


end
