(* ===== verification/Github.thy ===== *)
theory Github
  imports Oidc
begin

text \<open>
  Signing in with GitHub (\<open>src/auth/github.rs\<close>): a provider of the same port as the OpenID Connect client,
  whose identity is read from the REST interface instead of an ID token.

  The HTTP client, the JSON readers and the URL library are arguments; the random values of a flow are too.
\<close>

section \<open>The provider\<close>

definition AUTHORIZE_URL :: string where "AUTHORIZE_URL = ''https://github.com/login/oauth/authorize''"
definition TOKEN_URL :: string where "TOKEN_URL = ''https://github.com/login/oauth/access_token''"
definition USER_API :: string where "USER_API = ''https://api.github.com/user''"
definition EMAILS_API :: string where "EMAILS_API = ''https://api.github.com/user/emails''"
definition GH_ACCEPT :: string where "GH_ACCEPT = ''application/vnd.github+json''"

record github_user =
  gu_login :: string
  gu_name :: "string option"

record github_email =
  gm_email :: string
  gm_primary :: bool
  gm_verified :: bool

text \<open>A reply: the text of its error status, if it has one, and its body.\<close>

record reply =
  ry_status_error :: "string option"
  ry_body :: string

record github_lib =
  gh_url_error :: "string \<Rightarrow> string option"
  gh_client_error :: "string option"
  gh_with_params :: "string \<Rightarrow> (string \<times> string) list \<Rightarrow> string"
  gh_post :: "string \<Rightarrow> string \<Rightarrow> (string \<times> string) list \<Rightarrow> string + reply"
  gh_get :: "string \<Rightarrow> string \<Rightarrow> string \<Rightarrow> string + reply"
  gh_parse_token :: "string \<Rightarrow> string + string option"
  gh_parse_user :: "string \<Rightarrow> string + github_user"
  gh_parse_emails :: "string \<Rightarrow> string + github_email list"

record github_provider =
  gp_client_id :: string
  gp_client_secret :: string
  gp_redirect_url :: string
  gp_scopes :: "string list"
  gp_provider_name :: string
  gp_allowed_email_domains :: "string list"
  gp_require_approval :: bool

definition github_new :: "github_lib \<Rightarrow> oidc_config \<Rightarrow> github_provider res" where
  "github_new lib config =
     (case gh_url_error lib (od_redirect_url config) of
        Some e \<Rightarrow> Inl (Validation (''invalid OAUTH_REDIRECT_URL: '' @ e))
      | None \<Rightarrow>
     (case gh_client_error lib of
        Some e \<Rightarrow> Inl (Internal (''failed to build HTTP client: '' @ e))
      | None \<Rightarrow>
          Inr \<lparr>gp_client_id = od_client_id config, gp_client_secret = od_client_secret config,
               gp_redirect_url = od_redirect_url config, gp_scopes = od_scopes config,
               gp_provider_name = od_provider_name config,
               gp_allowed_email_domains = od_allowed_email_domains config,
               gp_require_approval = od_require_approval config\<rparr>))"

definition github_authorize :: "github_lib \<Rightarrow> github_provider \<Rightarrow> string \<Rightarrow> string \<Rightarrow> string \<Rightarrow> authorize_request" where
  "github_authorize lib p csrf_state nonce pkce_verifier =
     \<lparr>ar_url = gh_with_params lib AUTHORIZE_URL
        [(''client_id'', gp_client_id p), (''redirect_uri'', gp_redirect_url p), (''scope'', str_join '' '' (gp_scopes p)),
         (''state'', csrf_state)],
      ar_csrf_state = csrf_state, ar_nonce = nonce, ar_pkce_verifier = pkce_verifier\<rparr>"

section \<open>Reading the identity\<close>

text \<open>A request, then its JSON: \<open>fetch\<close> checks the status in between, \<open>fetch_any\<close> does not.\<close>

definition read_json :: "string \<Rightarrow> string + 'a \<Rightarrow> 'a res" where
  "read_json what r =
     (case r of Inl e \<Rightarrow> Inl (Auth (''GitHub '' @ what @ '' response was not valid JSON: '' @ e)) | Inr v \<Rightarrow> Inr v)"

definition fetch :: "string \<Rightarrow> string + reply \<Rightarrow> (string \<Rightarrow> string + 'a) \<Rightarrow> 'a res" where
  "fetch what sent parse =
     (case sent of
        Inl e \<Rightarrow> Inl (Auth (''GitHub '' @ what @ '' request failed: '' @ e))
      | Inr r \<Rightarrow>
          (case ry_status_error r of
             Some e \<Rightarrow> Inl (Auth (''GitHub '' @ what @ '' request returned an error: '' @ e))
           | None \<Rightarrow> read_json what (parse (ry_body r))))"

definition primary_verified_email :: "github_lib \<Rightarrow> string \<Rightarrow> string res" where
  "primary_verified_email lib access_token =
     and_then (fetch ''emails'' (gh_get lib EMAILS_API access_token GH_ACCEPT) (gh_parse_emails lib)) (\<lambda>emails.
       let chosen = (case List.find (\<lambda>e. gm_primary e \<and> gm_verified e) emails of
                       Some e \<Rightarrow> Some e | None \<Rightarrow> List.find gm_verified emails) in
       case chosen of
         None \<Rightarrow> Inl (Forbidden ''no verified email is available from GitHub'')
       | Some e \<Rightarrow> Inr (to_ascii_lowercase (trim (gm_email e))))"

definition github_token :: "github_lib \<Rightarrow> github_provider \<Rightarrow> string \<Rightarrow> string res" where
  "github_token lib p code =
     and_then (case gh_post lib TOKEN_URL ''application/json''
                 [(''client_id'', gp_client_id p), (''client_secret'', gp_client_secret p), (''code'', code),
                  (''redirect_uri'', gp_redirect_url p)] of
                 Inl e \<Rightarrow> Inl (Auth (''GitHub token exchange request failed: '' @ e))
               | Inr r \<Rightarrow> read_json ''token'' (gh_parse_token lib (ry_body r))) (\<lambda>access_token.
       case access_token of
         Some t \<Rightarrow> (if t = [] then Inl (Auth ''GitHub token exchange failed: provider rejected request'') else Inr t)
       | None \<Rightarrow> Inl (Auth ''GitHub token exchange failed: provider rejected request''))"

definition github_display_name :: "github_user \<Rightarrow> string" where
  "github_display_name u =
     (case gu_name u of
        Some n \<Rightarrow> (if trim n = [] then gu_login u else trim n)
      | None \<Rightarrow> gu_login u)"

definition github_exchange_code :: "github_lib \<Rightarrow> github_provider \<Rightarrow> string \<Rightarrow> string \<Rightarrow> string \<Rightarrow> oidc_claims res" where
  "github_exchange_code lib p code pkce_verifier nonce =
     and_then (github_token lib p code) (\<lambda>access_token.
     and_then (fetch ''user'' (gh_get lib USER_API access_token GH_ACCEPT) (gh_parse_user lib)) (\<lambda>u.
     and_then (primary_verified_email lib access_token) (\<lambda>email.
     Inr \<lparr>cl_email = email, cl_email_verified = True, cl_display_name = github_display_name u, cl_groups = []\<rparr>)))"

definition github_port :: "github_lib \<Rightarrow> github_provider \<Rightarrow> oidc_provider" where
  "github_port lib p =
     \<lparr>pv_exchange_code = github_exchange_code lib p, pv_provider_name = gp_provider_name p,
      pv_allowed_email_domains = gp_allowed_email_domains p, pv_require_approval = gp_require_approval p\<rparr>"

section \<open>Whose address it is\<close>

lemma fetch_Inr:
  "fetch what sent parse = Inr v \<longleftrightarrow> (\<exists>r. sent = Inr r \<and> ry_status_error r = None \<and> parse (ry_body r) = Inr v)"
  by (auto simp: fetch_def read_json_def split: sum.splits option.splits)

text \<open>An identity from GitHub has a verified address: the code was exchanged for a token with the secret of the
  client, and the address is one of the account of that token that GitHub marks as verified, the primary one if it is
  verified, in lower case and without white space at its ends. Neither an unverified address nor an answer with an
  error status gives an identity, and no group is claimed.\<close>

theorem github_identity_verified:
  assumes "github_exchange_code lib p code pkce_verifier nonce = Inr c"
  shows "\<exists>token r emails e.
     github_token lib p code = Inr token \<and> token \<noteq> [] \<and>
     gh_get lib EMAILS_API token GH_ACCEPT = Inr r \<and> ry_status_error r = None \<and>
     gh_parse_emails lib (ry_body r) = Inr emails \<and>
     e \<in> set emails \<and> gm_verified e \<and> ((\<exists>x \<in> set emails. gm_primary x \<and> gm_verified x) \<longrightarrow> gm_primary e) \<and>
     cl_email c = to_ascii_lowercase (trim (gm_email e)) \<and> cl_email_verified c \<and> cl_groups c = []"
proof -
  obtain token u email where token: "github_token lib p code = Inr token"
    and email: "primary_verified_email lib token = Inr email"
    and c: "c = \<lparr>cl_email = email, cl_email_verified = True, cl_display_name = github_display_name u, cl_groups = []\<rparr>"
    using assms by (auto simp: github_exchange_code_def loaded)
  have "token \<noteq> []" using token by (auto simp: github_token_def loaded split: option.splits if_splits)
  moreover obtain r emails e where "gh_get lib EMAILS_API token GH_ACCEPT = Inr r" "ry_status_error r = None"
      "gh_parse_emails lib (ry_body r) = Inr emails"
    and found: "(case List.find (\<lambda>e. gm_primary e \<and> gm_verified e) emails of Some e \<Rightarrow> Some e | None \<Rightarrow> List.find gm_verified emails) = Some e"
    and "email = to_ascii_lowercase (trim (gm_email e))"
    using email by (auto simp: primary_verified_email_def loaded fetch_Inr Let_def split: option.splits)
  moreover from found have "e \<in> set emails \<and> gm_verified e \<and> ((\<exists>x \<in> set emails. gm_primary x \<and> gm_verified x) \<longrightarrow> gm_primary e)"
    by (auto split: option.splits simp: find_None_iff find_Some_iff)
  ultimately show ?thesis using token c by (intro exI conjI) auto
qed

section \<open>At an example account\<close>

text \<open>Its primary address is not verified, its second one is.\<close>

definition example_github :: github_lib where
  "example_github =
     \<lparr>gh_url_error = (\<lambda>_. None), gh_client_error = None, gh_with_params = (\<lambda>u _. u),
      gh_post = (\<lambda>_ _ form. if map_of form ''code'' = Some ''k'' then Inr \<lparr>ry_status_error = None, ry_body = ''t''\<rparr> else Inl ''no''),
      gh_get = (\<lambda>u t _. if t = ''t'' then Inr \<lparr>ry_status_error = None, ry_body = u\<rparr> else Inl ''no''),
      gh_parse_token = (\<lambda>b. Inr (Some b)),
      gh_parse_user = (\<lambda>_. Inr \<lparr>gu_login = ''bob'', gu_name = Some '' ''\<rparr>),
      gh_parse_emails = (\<lambda>_. Inr [\<lparr>gm_email = ''a@c'', gm_primary = True, gm_verified = False\<rparr>,
        \<lparr>gm_email = '' B@c'', gm_primary = False, gm_verified = True\<rparr>])\<rparr>"

definition example_github_app :: github_provider where
  "example_github_app =
     \<lparr>gp_client_id = ''i'', gp_client_secret = ''s'', gp_redirect_url = ''https://s/'', gp_scopes = [], gp_provider_name = ''GitHub'',
      gp_allowed_email_domains = [], gp_require_approval = False\<rparr>"

theorem github_identity_verified_witness:
  "\<exists>c. github_exchange_code example_github example_github_app ''k'' [] [] = Inr c \<and> cl_email c = ''b@c'' \<and>
     cl_display_name c = ''bob''"
proof -
  have lower: "to_ascii_lowercase (trim '' B@c'') = ''b@c''" "trim '' '' = []" by code_simp+
  obtain c where run: "github_exchange_code example_github example_github_app ''k'' [] [] = Inr c" and name: "cl_display_name c = ''bob''"
    using lower
    by (simp add: github_exchange_code_def github_token_def example_github_def example_github_app_def read_json_def fetch_def
        primary_verified_email_def github_display_name_def)
  from github_identity_verified [OF run] have "cl_email c = ''b@c''"
    using lower by (auto simp: example_github_def)
  with run name show ?thesis by blast
qed

end
