(* ===== verification/Mail.thy ===== *)
theory Mail
  imports Alerting Config
begin

text \<open>
  Composition and delivery of mail (\<open>src/mail.rs\<close>): the messages with their subjects and links, the data
  the templates are rendered with, the message as parts, and the transport it is sent by.

  The template engine, the printer of dates, the address parser and the SMTP client are arguments.
\<close>

section \<open>Templates\<close>

definition REQUIRED_TEMPLATES :: "string list" where
  "REQUIRED_TEMPLATES = [''email/notification.html'', ''email/notification.txt'']"

text \<open>The values of a template's context.\<close>

datatype template_value = TStr string | TInt int

type_synonym template_context = "(string \<times> template_value) list"

record template_engine =
  te_load :: "string \<Rightarrow> string + string list"
  te_render :: "string \<Rightarrow> template_context \<Rightarrow> string + string"
  te_debug :: "string \<Rightarrow> string"

definition load_templates :: "template_engine \<Rightarrow> string \<Rightarrow> unit res" where
  "load_templates te dir =
     (let pattern = trim_end_char (CHR ''/'') dir @ ''/**/*'' in
      case te_load te pattern of
        Inl e \<Rightarrow> Inl (Template (''loading '' @ te_debug te pattern @ '': '' @ e))
      | Inr names \<Rightarrow>
          (case List.find (\<lambda>t. t \<notin> set names) REQUIRED_TEMPLATES of
             Some t \<Rightarrow> Inl (Template (''template '' @ te_debug te t @ '' not found under '' @ te_debug te dir))
           | None \<Rightarrow> Inr ()))"

definition render_with :: "template_engine \<Rightarrow> string \<Rightarrow> template_context \<Rightarrow> string res" where
  "render_with te name ctx =
     (case te_render te name ctx of
        Inl e \<Rightarrow> Inl (Template (''rendering '' @ te_debug te name @ '': '' @ e)) | Inr out \<Rightarrow> Inr out)"

definition templates_dir :: "environ \<Rightarrow> string" where
  "templates_dir env = env_or env ''TEMPLATES_DIR'' ''templates''"

section \<open>Messages\<close>

record outbound_email =
  ob_to :: string
  ob_subject :: string
  ob_body :: string
  ob_html :: "string option"

abbreviation nl :: string where "nl \<equiv> [CHR 0x0A]"
abbreviation dash :: string where "dash \<equiv> [CHR 0xE2, CHR 0x80, CHR 0x94]"

text \<open>\<open>\<dots>\<close> after at most 120 characters, on one line.\<close>

definition SUBJECT_MAX :: nat where "SUBJECT_MAX = 120"

definition truncate_subject :: "string \<Rightarrow> string" where
  "truncate_subject s =
     (let s = trim (map (\<lambda>b. if b = CHR 0x0A \<or> b = CHR 0x0D then CHR '' '' else b) s) in
      if char_count s \<le> SUBJECT_MAX then s
      else concat (take SUBJECT_MAX (chars s)) @ [CHR 0xE2, CHR 0x80, CHR 0xA6])"

definition invite_email :: "(timestamp \<Rightarrow> string) \<Rightarrow> config \<Rightarrow> string \<Rightarrow> invite \<Rightarrow> outbound_email" where
  "invite_email minutes cfg to invite =
     (let link = invite_link (cg_base_url cfg) (inv_token invite); org = cg_organization_name cfg in
      \<lparr>ob_to = to, ob_subject = ''You'' @ [CHR 0x27] @ ''ve been invited to '' @ org,
       ob_body = ''Hello,'' @ nl @ nl @ ''You have been invited to join a project on '' @ org @ ''.'' @ nl @ nl @
         ''Accept the invitation by opening this link:'' @ nl @ link @ nl @ nl @
         ''This invite expires on '' @ minutes (inv_expires_at invite) @ ''.'' @ nl @ nl @ dash @ '' '' @ org,
       ob_html = None\<rparr>)"

definition settings_link :: "string \<Rightarrow> string" where
  "settings_link base_url = trim_end_char (CHR ''/'') base_url @ ''/profile''"

definition notification_context :: "(timestamp \<Rightarrow> string) \<Rightarrow> config \<Rightarrow> project \<Rightarrow> issue \<Rightarrow> string \<Rightarrow> template_context" where
  "notification_context minutes cfg p i kind =
     [(''kind'', TStr kind), (''project_name'', TStr (prj_name p)), (''title'', TStr (iss_title i)),
      (''culprit'', TStr (text_or [] (iss_culprit i))), (''level'', TStr (text_or [] (iss_level i))),
      (''environment'', TStr (text_or [] (iss_environment i))), (''event_count'', TInt (iss_event_count i)),
      (''first_seen'', TStr (minutes (iss_first_seen i))), (''issue_url'', TStr (issue_url (cg_base_url cfg) p i)),
      (''settings_url'', TStr (settings_link (cg_base_url cfg))), (''org_name'', TStr (cg_organization_name cfg))]"

definition notification_email ::
  "template_engine \<Rightarrow> (timestamp \<Rightarrow> string) \<Rightarrow> config \<Rightarrow> string \<Rightarrow> project \<Rightarrow> issue \<Rightarrow> string \<Rightarrow> string \<Rightarrow> outbound_email res" where
  "notification_email te minutes cfg to p i kind subject_kind =
     (let ctx = notification_context minutes cfg p i kind in
      and_then (render_with te ''email/notification.html'' ctx) (\<lambda>html.
      and_then (render_with te ''email/notification.txt'' ctx) (\<lambda>body.
      Inr \<lparr>ob_to = to, ob_subject = ''['' @ prj_name p @ ''] '' @ subject_kind @ '': '' @ truncate_subject (iss_title i),
           ob_body = body, ob_html = Some html\<rparr>)))"

definition new_issue_email where
  "new_issue_email te minutes cfg to p i = notification_email te minutes cfg to p i ''new_issue'' ''New issue''"

definition regression_email where
  "regression_email te minutes cfg to p i = notification_email te minutes cfg to p i ''regression'' ''Regression''"

section \<open>Delivery\<close>

text \<open>A message as the client sends it: the parts in order, the most preferred last.\<close>

datatype part = PlainText string | Html string

record 'm message =
  mm_from :: 'm
  mm_to :: 'm
  mm_subject :: string
  mm_parts :: "part list"

datatype tls_mode = Plaintext | StartTls | ImplicitTls

record transport =
  tr_mode :: tls_mode
  tr_host :: string
  tr_port :: nat
  tr_credentials :: "(string \<times> string) option"

record smtp_failure =
  sf_status :: string
  sf_timeout :: bool
  sf_tls :: bool
  sf_transient :: bool

record 'm smtp_client =
  sc_mailbox :: "string \<Rightarrow> string + 'm"
  sc_build_error :: "'m message \<Rightarrow> string option"
  sc_relay_error :: "string \<Rightarrow> string option"
  sc_send :: "transport \<Rightarrow> 'm message \<Rightarrow> smtp_failure option"

definition build_message :: "'m smtp_client \<Rightarrow> 'm \<Rightarrow> outbound_email \<Rightarrow> 'm message res" where
  "build_message sc from' email' =
     (case sc_mailbox sc (ob_to email') of
        Inl e \<Rightarrow> Inl (Mail (''invalid recipient address: '' @ e))
      | Inr to \<Rightarrow>
          (let m = \<lparr>mm_from = from', mm_to = to, mm_subject = ob_subject email',
                mm_parts = (case ob_html email' of
                    Some html \<Rightarrow> [PlainText (ob_body email'), Html html] | None \<Rightarrow> [PlainText (ob_body email')])\<rparr> in
           case sc_build_error sc m of
             Some e \<Rightarrow> Inl (Mail (''building message: '' @ e)) | None \<Rightarrow> Inr m))"

definition SUBMISSIONS_PORT :: nat where "SUBMISSIONS_PORT = 465"

definition with_credentials :: "smtp_settings \<Rightarrow> (string \<times> string) option" where
  "with_credentials smtp =
     (case (sx_username smtp, sx_password smtp) of (Some u, Some p) \<Rightarrow> Some (u, p) | _ \<Rightarrow> None)"

definition build_transport :: "'m smtp_client \<Rightarrow> smtp_settings \<Rightarrow> transport res" where
  "build_transport sc smtp =
     (let t = (\<lambda>mode. \<lparr>tr_mode = mode, tr_host = sx_host smtp, tr_port = sx_port smtp, tr_credentials = with_credentials smtp\<rparr>) in
      if \<not> sx_tls smtp then Inr (t Plaintext)
      else case sc_relay_error sc (sx_host smtp) of
             Some e \<Rightarrow> Inl (Mail (''configuring SMTP relay: '' @ e))
           | None \<Rightarrow> Inr (t (if sx_port smtp = SUBMISSIONS_PORT then ImplicitTls else StartTls)))"

definition smtp_from_mailbox :: "'m smtp_client \<Rightarrow> smtp_settings \<Rightarrow> 'm res" where
  "smtp_from_mailbox sc smtp =
     (case sc_mailbox sc (case sx_from smtp of Some f \<Rightarrow> f | None \<Rightarrow> ''soika@'' @ sx_host smtp) of
        Inl e \<Rightarrow> Inl (Mail (''invalid SMTP_FROM address: '' @ e)) | Inr m \<Rightarrow> Inr m)"

definition bool_text :: "bool \<Rightarrow> string" where "bool_text b = (if b then ''true'' else ''false'')"

definition send_via_smtp :: "'m smtp_client \<Rightarrow> smtp_settings \<Rightarrow> outbound_email \<Rightarrow> unit res" where
  "send_via_smtp sc smtp email' =
     and_then (smtp_from_mailbox sc smtp) (\<lambda>from'.
     and_then (build_message sc from' email') (\<lambda>m.
     and_then (build_transport sc smtp) (\<lambda>t.
       case sc_send sc t m of
         None \<Rightarrow> Inr ()
       | Some f \<Rightarrow> Inl (Mail (''SMTP delivery failed (status='' @ sf_status f @ '', timeout='' @ bool_text (sf_timeout f) @
           '', tls='' @ bool_text (sf_tls f) @ '', transient='' @ bool_text (sf_transient f) @ '')'')))))"

section \<open>Subjects and secrets\<close>

text \<open>The subject of a notification shows the title on one line of at most 121 characters, whatever the title.\<close>

theorem subject_one_line:
  "char_count (truncate_subject s) \<le> 121 \<and> CHR 0x0A \<notin> set (truncate_subject s) \<and> CHR 0x0D \<notin> set (truncate_subject s)"
proof -
  define m where "m = map (\<lambda>b. if b = CHR 0x0A \<or> b = CHR 0x0D then CHR '' '' else b) s"
  define t where "t = trim m"
  have cut: "truncate_subject s = (if char_count t \<le> SUBJECT_MAX then t else concat (take SUBJECT_MAX (chars t)) @ [CHR 0xE2, CHR 0x80, CHR 0xA6])"
    by (simp add: truncate_subject_def Let_def t_def m_def)
  have "set t \<subseteq> set m"
    using set_chars_trim [of m] set_concat_chars [of _ t] set_concat_chars [of _ m] unfolding t_def by blast
  moreover have "CHR 0x0A \<notin> set m" "CHR 0x0D \<notin> set m" by (auto simp: m_def)
  ultimately have plain: "CHR 0x0A \<notin> set t" "CHR 0x0D \<notin> set t" by blast+
  have "set (concat (take n (chars t))) \<subseteq> set t" for n
    using set_take_subset [of n "chars t"] set_concat_chars [of _ t] by (simp only: set_concat) blast
  then have short: "CHR 0x0A \<notin> set (concat (take n (chars t)))" "CHR 0x0D \<notin> set (concat (take n (chars t)))" for n
    using plain by blast+
  have "char_count (truncate_subject s) \<le> 121"
  proof (cases "char_count t \<le> SUBJECT_MAX")
    case True
    then show ?thesis by (simp add: cut SUBJECT_MAX_def)
  next
    case False
    then have "well_cut (take SUBJECT_MAX (chars t) @ [[CHR 0xE2, CHR 0x80, CHR 0xA6]])"
      by (intro well_cut_take_snoc) (simp_all add: char_count_def char_width_def)
    from chars_concat [OF this] False show ?thesis by (simp add: cut char_count_def SUBJECT_MAX_def)
  qed
  then show ?thesis using plain short by (simp add: cut del: set_concat)
qed

text \<open>Credentials are sent over a plain connection only where TLS is switched off, and only both together.\<close>

theorem credentials_guarded:
  assumes "build_transport sc smtp = Inr t" "tr_credentials t = Some (u, p)"
  shows "sx_username smtp = Some u \<and> sx_password smtp = Some p \<and> (sx_tls smtp \<longrightarrow> tr_mode t \<noteq> Plaintext)"
  using assms by (auto simp: build_transport_def Let_def with_credentials_def split: if_splits option.splits)

end
