(* ===== verification/Edge.thy ===== *)
theory Edge
  imports Mail
begin

text \<open>
  The edges of the program: the HTTP transport to the Alertmanager with its diagnoses
  (\<open>src/adapters/alertmanager.rs\<close>), the two mailers (\<open>src/adapters/mailer.rs\<close>) and which of them is
  wired (\<open>src/lib.rs\<close>), and the files of the web interface (\<open>src/web.rs\<close>).

  What the HTTP client reports, and the embedded files, are arguments.
\<close>

section \<open>The transport to the Alertmanager\<close>

datatype io_kind = ConnectionRefused | ConnectionReset | TimedOut | NetworkUnreachable | HostUnreachable | OtherIo

text \<open>An error of the HTTP client: the chain of its causes, itself first, each with its kind if it is an I/O
  error and its text, and what the client says of it.\<close>

record cause =
  ca_io :: "io_kind option"
  ca_message :: string

record http_error =
  he_causes :: "cause list"
  he_timeout :: bool
  he_connect :: bool
  he_body :: bool
  he_decode :: bool

fun io_detail :: "io_kind \<Rightarrow> string option" where
  "io_detail ConnectionRefused = Some ''connection refused''"
| "io_detail ConnectionReset = Some ''connection reset''"
| "io_detail TimedOut = Some ''connection timed out''"
| "io_detail NetworkUnreachable = Some ''network unreachable''"
| "io_detail HostUnreachable = Some ''host unreachable''"
| "io_detail OtherIo = None"

definition cause_needles :: "(string \<times> string) list" where
  "cause_needles =
     [(''unknownissuer'', ''TLS certificate has an unknown issuer''),
      (''unknown issuer'', ''TLS certificate has an unknown issuer''),
      (''notvalidforname'', ''TLS certificate does not match the hostname''),
      (''not valid for name'', ''TLS certificate does not match the hostname''),
      (''expired'', ''TLS certificate expired''),
      (''notvalidyet'', ''TLS certificate is not valid yet''),
      (''invalid peer certificate'', ''TLS certificate validation failed''),
      (''dns error'', ''DNS lookup failed''),
      (''failed to lookup address'', ''DNS lookup failed''),
      (''name or service not known'', ''DNS lookup failed''),
      (''nodename nor servname'', ''DNS lookup failed'')]"

definition message_detail :: "string \<Rightarrow> string option" where
  "message_detail message =
     map_option snd (List.find (\<lambda>(needle, _). str_find (to_ascii_lowercase message) needle \<noteq> None) cause_needles)"

fun cause_detail :: "cause list \<Rightarrow> string option" where
  "cause_detail [] = None"
| "cause_detail (c # cs) =
     (case Option.bind (ca_io c) io_detail of
        Some d \<Rightarrow> Some d
      | None \<Rightarrow> (case message_detail (ca_message c) of Some d \<Rightarrow> Some d | None \<Rightarrow> cause_detail cs))"

definition transport_detail :: "http_error \<Rightarrow> string" where
  "transport_detail e =
     (case cause_detail (he_causes e) of
        Some d \<Rightarrow> d
      | None \<Rightarrow>
          (if he_timeout e then ''request timed out''
           else if he_connect e then ''connection failed''
           else if he_body e then ''request or response body failed''
           else if he_decode e then ''response decoding failed''
           else ''HTTP request failed''))"

definition transport_error :: "http_error \<Rightarrow> error" where
  "transport_error e = Alertmanager (''Alertmanager delivery failed: '' @ transport_detail e)"

text \<open>The answer of the POST: an error of the client or a status.\<close>

definition send_alert :: "http_error + nat \<Rightarrow> unit res" where
  "send_alert answer =
     (case answer of
        Inl e \<Rightarrow> Inl (transport_error e)
      | Inr status \<Rightarrow>
          (if 200 \<le> status \<and> status < 300 then Inr ()
           else Inl (Alertmanager (''Alertmanager returned HTTP '' @ nat_to_dec status))))"

section \<open>Mailers\<close>

datatype mailer = SmtpMailer smtp_settings | NoopMailer

definition wired_mailer :: "config \<Rightarrow> mailer" where
  "wired_mailer cfg =
     (case (cg_smtp_enabled cfg, cg_smtp cfg) of (True, Some smtp) \<Rightarrow> SmtpMailer smtp | _ \<Rightarrow> NoopMailer)"

definition mailer_send :: "'m smtp_client \<Rightarrow> mailer \<Rightarrow> outbound_email \<Rightarrow> unit res" where
  "mailer_send sc m email' = (case m of SmtpMailer smtp \<Rightarrow> send_via_smtp sc smtp email' | NoopMailer \<Rightarrow> Inr ())"

section \<open>The web interface\<close>

record asset_answer =
  an_status :: nat
  an_content_type :: "string option"
  an_cache_control :: "string option"
  an_body :: string

definition cache_control :: "string \<Rightarrow> string" where
  "cache_control path =
     (if strip_prefix path ''_app/immutable/'' \<noteq> None then ''public, max-age=31536000, immutable'' else ''no-cache'')"

definition spa_fallback :: "(string \<Rightarrow> string option) \<Rightarrow> (string \<Rightarrow> string) \<Rightarrow> string \<Rightarrow> asset_answer" where
  "spa_fallback asset mime uri_path =
     (let stripped = dropWhile (\<lambda>c. c = CHR ''/'') uri_path;
          path = (if stripped = [] then ''index.html'' else stripped) in
      case asset path of
        Some data \<Rightarrow>
          \<lparr>an_status = 200, an_content_type = Some (mime path), an_cache_control = Some (cache_control path), an_body = data\<rparr>
      | None \<Rightarrow>
          (case asset ''index.html'' of
             Some data \<Rightarrow>
               \<lparr>an_status = 200, an_content_type = Some ''text/html'', an_cache_control = Some (cache_control ''index.html''),
                an_body = data\<rparr>
           | None \<Rightarrow>
               \<lparr>an_status = 404, an_content_type = None, an_cache_control = None, an_body = ''frontend assets not embedded''\<rparr>))"

section \<open>Nothing of the endpoint in an error\<close>

definition diagnoses :: "string set" where
  "diagnoses = snd ` set cause_needles \<union>
     {''connection refused'', ''connection reset'', ''connection timed out'', ''network unreachable'', ''host unreachable'',
      ''request timed out'', ''connection failed'', ''request or response body failed'', ''response decoding failed'',
      ''HTTP request failed''}"

lemma io_detail_known: "io_detail k = Some d \<Longrightarrow> d \<in> diagnoses"
  by (cases k) (auto simp: diagnoses_def)

lemma message_detail_known:
  assumes "message_detail m = Some d"
  shows "d \<in> diagnoses"
proof -
  obtain p where found: "List.find (\<lambda>(needle, _). str_find (to_ascii_lowercase m) needle \<noteq> None) cause_needles = Some p"
    and d: "d = snd p"
    using assms by (auto simp only: message_detail_def map_option_eq_Some)
  have "p \<in> set cause_needles"
    using found by (metis find_Some_iff nth_mem)
  then show ?thesis
    unfolding diagnoses_def d by blast
qed

lemma cause_detail_known: "cause_detail cs = Some d \<Longrightarrow> d \<in> diagnoses"
proof (induction cs)
  case (Cons c cs)
  show ?case
  proof (cases "Option.bind (ca_io c) io_detail")
    case None
    with Cons show ?thesis
      by (cases "message_detail (ca_message c)") (simp_all add: message_detail_known)
  next
    case (Some x)
    then obtain k where "io_detail k = Some x"
      by (cases "ca_io c") simp_all
    with Some Cons.prems show ?thesis
      by (simp add: io_detail_known)
  qed
qed simp

lemma transport_detail_known: "transport_detail x \<in> diagnoses"
proof (cases "cause_detail (he_causes x)")
  case None
  then show ?thesis
    by (simp only: transport_detail_def option.case) (simp add: diagnoses_def)
next
  case (Some d)
  then show ?thesis
    by (simp add: transport_detail_def cause_detail_known)
qed

text \<open>An alert that cannot be delivered fails with one of a fixed list of diagnoses or with the status of the answer:
  nothing of the endpoint, its credentials or the text of an error reaches the message, which is reported and shown to
  administrators.\<close>

theorem alert_errors_redacted:
  assumes "send_alert answer = Inl e"
  shows "(\<exists>d \<in> diagnoses. e = Alertmanager (''Alertmanager delivery failed: '' @ d)) \<or>
    (\<exists>status. answer = Inr status \<and> (status < 200 \<or> 300 \<le> status) \<and>
       e = Alertmanager (''Alertmanager returned HTTP '' @ nat_to_dec status))"
proof (cases answer)
  case (Inl x)
  then show ?thesis
    using assms transport_detail_known [of x] by (simp only: send_alert_def transport_error_def sum.case) blast
qed (use assms in \<open>auto simp: send_alert_def split: if_splits\<close>)

text \<open>Only a file whose name carries its hash is cached for good; the page that names the others never is.\<close>

theorem shell_revalidated:
  assumes "an_cache_control (spa_fallback asset mime path) = Some ''public, max-age=31536000, immutable''"
  defines "name \<equiv> dropWhile (\<lambda>c. c = CHR ''/'') path"
  shows "strip_prefix name ''_app/immutable/'' \<noteq> None \<and> asset name = Some (an_body (spa_fallback asset mime path))"
proof -
  have index: "cache_control ''index.html'' = ''no-cache''" by code_simp
  have other: "''no-cache'' \<noteq> ''public, max-age=31536000, immutable''" by simp
  define long where "long = ''public, max-age=31536000, immutable''"
  define shell where "shell = ''index.html''"
  have cases: "cache_control n = long \<Longrightarrow> strip_prefix n ''_app/immutable/'' \<noteq> None" for n
    using other by (auto simp only: cache_control_def long_def split: if_splits)
  have shell: "cache_control shell \<noteq> long"
    using index other by (simp only: shell_def long_def) simp
  show ?thesis
    using assms(1) cases shell
    by (auto simp: spa_fallback_def Let_def name_def long_def [symmetric] shell_def [symmetric]
      simp del: One_nat_def split: option.splits if_splits)
qed

end
