(* ===== verification/PgStore.thy ===== *)
theory PgStore
  imports Pipeline Ops
begin

text \<open>
  The PostgreSQL adapter of issues (\<open>src/adapters/postgres/issue.rs\<close>) with the helpers of
  \<open>src/adapters/postgres/convert.rs\<close>.

  PostgreSQL runs writers concurrently (\<open>READ COMMITTED\<close>): before every statement of a transaction
  other connections may have committed. Their commits come from a script of functions on the database,
  one for each statement; a commit is told the ids of the issues this transaction has locked
  (\<open>FOR UPDATE\<close>), which PostgreSQL makes it wait for. From its first write on, a transaction here
  only touches rows that it holds the locks of, so its last statements are one step. The tables and the
  script of driver errors are those of \<open>Store\<close>; the texts of driver errors are abbreviated.
\<close>

section \<open>A database with other writers\<close>

record pg =
  pg_db :: db
  pg_commits :: "(uuid list \<Rightarrow> db \<Rightarrow> db) list"

record pg_repo =
  pr_write :: write_policy
  pr_env :: "nat \<Rightarrow> pg \<Rightarrow> pg"

text \<open>What is committed before the next statement.\<close>

definition others :: "uuid list \<Rightarrow> pg \<Rightarrow> pg" where
  "others lks p =
     (case pg_commits p of [] \<Rightarrow> p | f # fs \<Rightarrow> \<lparr>pg_db = f lks (pg_db p), pg_commits = fs\<rparr>)"

text \<open>A statement sees what is committed by then; when it fails it changes nothing.\<close>

definition pg_statement :: "uuid list \<Rightarrow> (db, 'a) op \<Rightarrow> (pg, 'a) op" where
  "pg_statement lks body p =
     (let p = others lks p in
      case body (pg_db p) of
        (Inr v, t) \<Rightarrow> (Inr v, p\<lparr>pg_db := t\<rparr>)
      | (Inl e, t) \<Rightarrow> (Inl e, p\<lparr>pg_db := (pg_db p)\<lparr>rng_pos := rng_pos t\<rparr>\<rparr>))"

definition pg_transaction :: "(pg, 'a) op \<Rightarrow> (pg, 'a) op" where
  "pg_transaction body p =
     (case faults (pg_db p) of
        Some e # fs \<Rightarrow> (Inl (Db e), p\<lparr>pg_db := (pg_db p)\<lparr>faults := fs\<rparr>\<rparr>)
      | _ \<Rightarrow> body (p\<lparr>pg_db := (pg_db p)\<lparr>faults := tl (faults (pg_db p))\<rparr>\<rparr>))"

text \<open>A statement outside a transaction.\<close>

definition pg_single :: "(db, 'a) op \<Rightarrow> (pg, 'a) op" where
  "pg_single body = pg_transaction (pg_statement [] body)"

text \<open>\<open>TIMESTAMPTZ\<close> keeps microseconds.\<close>

definition pg_ts :: "timestamp \<Rightarrow> timestamp" where
  "pg_ts t = t - t mod 1000"

definition is_unique_violation :: "sqlx_error \<Rightarrow> bool" where
  "is_unique_violation err =
     (case err of Database (PgDatabaseError sqlstate msg) \<Rightarrow> sqlstate = ''23505'' | _ \<Rightarrow> False)"

definition pg_conflict_or_db :: "sqlx_error \<Rightarrow> string \<Rightarrow> error" where
  "pg_conflict_or_db err what = (if is_unique_violation err then Conflict what else Db err)"

definition pg_unique_violation :: "string \<Rightarrow> sqlx_error" where
  "pg_unique_violation index = Database (PgDatabaseError ''23505'' (''duplicate key value violates unique constraint '' @ index))"

definition pg_foreign_key_violation :: sqlx_error where
  "pg_foreign_key_violation = Database (PgDatabaseError ''23503'' ''violates foreign key constraint'')"

text \<open>PostgreSQL has no text with a zero byte.\<close>

definition pg_text :: "string \<Rightarrow> bool" where
  "pg_text s \<longleftrightarrow> CHR 0x00 \<notin> set s"

definition pg_bind :: "string list \<Rightarrow> (db, 'a) op \<Rightarrow> (db, 'a) op" where
  "pg_bind texts body s =
     (if list_all pg_text texts then body s
      else (Inl (Db (Database (PgDatabaseError ''22021'' ''invalid byte sequence for encoding UTF8: 0x00''))), s))"

definition opt_texts :: "string option list \<Rightarrow> string list" where
  "opt_texts cs = concat (map (\<lambda>c. case c of Some t \<Rightarrow> [t] | None \<Rightarrow> []) cs)"

fun pg_short_id_loop :: "nat \<Rightarrow> (pg, string) op" where
  "pg_short_id_loop 0 p = (Inl (Internal ''could not allocate a unique short id''), p)"
| "pg_short_id_loop (Suc n) p =
     op_bind (pg_statement [] (\<lambda>s.
         (let candidate = rng_short s (rng_pos s); s = s\<lparr>rng_pos := Suc (rng_pos s)\<rparr> in
          (Inr (if issue_short_id_taken s candidate then None else Some candidate), s))))
       (\<lambda>free. case free of Some candidate \<Rightarrow> op_ok candidate | None \<Rightarrow> pg_short_id_loop n) p"

definition pg_unique_short_id_on :: "(pg, string) op" where
  "pg_unique_short_id_on = pg_short_id_loop 16"

section \<open>The upsert\<close>

definition RACE_ATTEMPTS :: nat where "RACE_ATTEMPTS = 3"

definition lock_by_fingerprint :: "issue_upsert \<Rightarrow> (pg, issue option) op" where
  "lock_by_fingerprint u =
     pg_statement [] (pg_bind [up_fingerprint u] (\<lambda>s.
       (Inr (select_issue (\<lambda>i. iss_project_id i = up_project_id u \<and> iss_fingerprint i = up_fingerprint u) s), s)))"

definition pg_bump_row :: "issue_status \<Rightarrow> string \<Rightarrow> timestamp \<Rightarrow> issue \<Rightarrow> issue" where
  "pg_bump_row new_status title seen i =
     i\<lparr>iss_status := new_status, iss_title := title, iss_last_seen := seen,
       iss_event_count := iss_event_count i + 1, iss_updated_at := seen\<rparr>"

definition bump_existing :: "issue \<Rightarrow> issue_upsert \<Rightarrow> timestamp \<Rightarrow> (pg, upsert_outcome) op" where
  "bump_existing current u seen =
     (let is_regression = (iss_status current = Resolved);
          new_status = (if is_regression then Unresolved else iss_status current) in
      pg_statement [iss_id current] (pg_bind [up_title u] (\<lambda>s.
        case update_issue (iss_id current) (pg_bump_row new_status (up_title u) seen) s of
          (Some i, s') \<Rightarrow> (Inr \<lparr>uo_issue = i, uo_is_new = False, uo_is_regression = is_regression\<rparr>, s')
        | (None, s') \<Rightarrow> (Inl (Db RowNotFound), s'))))"

text \<open>\<open>INSERT ... ON CONFLICT (project_id, fingerprint) DO NOTHING RETURNING ...\<close>\<close>

definition pg_insert_issue :: "issue \<Rightarrow> (db, issue option) op" where
  "pg_insert_issue i s =
     (if (iss_project_id i, iss_fingerprint i) \<in> set (map (\<lambda>j. (iss_project_id j, iss_fingerprint j)) (db_issues s))
      then (Inr None, s)
      else if iss_id i \<in> set (map iss_id (db_issues s)) then (Inl (Db (pg_unique_violation ''issues_pkey'')), s)
      else if iss_short_id i \<in> set (map iss_short_id (db_issues s))
      then (Inl (Db (pg_unique_violation ''issues_short_id_key'')), s)
      else if iss_project_id i \<notin> set (project_ids s) then (Inl (Db pg_foreign_key_violation), s)
      else (Inr (Some i), s\<lparr>db_issues := db_issues s @ [i]\<rparr>))"

text \<open>The generated short id is plain ASCII.\<close>

definition insert_unseen :: "issue_upsert \<Rightarrow> string \<Rightarrow> timestamp \<Rightarrow> (pg, issue option) op" where
  "insert_unseen u short_id seen =
     pg_statement [] (pg_bind ([up_fingerprint u, up_title u] @
         opt_texts [up_culprit u, up_level u, up_environment u, up_release u]) (\<lambda>s.
       (let iid = rng_uuid s (rng_pos s); s = s\<lparr>rng_pos := Suc (rng_pos s)\<rparr> in
        pg_insert_issue (new_issue (u\<lparr>up_seen_at := seen\<rparr>) iid short_id) s)))"

text \<open>One attempt; no outcome when the issue vanished between the conflicting insertion and the lock.\<close>

definition pg_upsert_once :: "issue_upsert \<Rightarrow> (pg, upsert_outcome option) op" where
  "pg_upsert_once u =
     (let seen = pg_ts (up_seen_at u) in
      pg_transaction (op_bind (lock_by_fingerprint u) (\<lambda>found.
        case found of
          Some current \<Rightarrow> op_bind (bump_existing current u seen) (\<lambda>out. op_ok (Some out))
        | None \<Rightarrow>
            op_bind pg_unique_short_id_on (\<lambda>short_id.
            op_bind (insert_unseen u short_id seen) (\<lambda>inserted.
              case inserted of
                Some i \<Rightarrow> op_ok (Some \<lparr>uo_issue = i, uo_is_new = True, uo_is_regression = False\<rparr>)
              | None \<Rightarrow>
                  op_bind (lock_by_fingerprint u) (\<lambda>found.
                    case found of
                      None \<Rightarrow> op_ok None
                    | Some current \<Rightarrow> op_bind (bump_existing current u seen) (\<lambda>out. op_ok (Some out))))))))"

text \<open>An attempt that lost a race is run again, at most \<open>RACE_ATTEMPTS\<close> times.\<close>

fun raced :: "nat \<Rightarrow> error \<Rightarrow> (pg, 'a option) op \<Rightarrow> (pg, 'a) op" where
  "raced 0 lost attempt p = (Inl lost, p)"
| "raced (Suc n) lost attempt p =
     op_bind attempt (\<lambda>out. case out of Some v \<Rightarrow> op_ok v | None \<Rightarrow> raced n lost attempt) p"

definition pg_upsert_by_fingerprint :: "pg_repo \<Rightarrow> issue_upsert \<Rightarrow> (pg, upsert_outcome) op" where
  "pg_upsert_by_fingerprint r u =
     raced RACE_ATTEMPTS
       (Internal ''upsert issue by fingerprint kept losing races to concurrent deletes'')
       (retry_write (pr_env r) (pr_write r) ''upsert issue by fingerprint'' (pg_upsert_once u))"

section \<open>Merging and splitting by fingerprint\<close>

definition key_taken :: "issue \<Rightarrow> string \<Rightarrow> db \<Rightarrow> bool" where
  "key_taken target fp s \<longleftrightarrow>
     list_ex (\<lambda>j. iss_id j \<noteq> iss_id target \<and> iss_project_id j = iss_project_id target \<and> iss_fingerprint j = fp)
       (db_issues s)"

text \<open>\<open>UPDATE issues SET fingerprint = ... WHERE id = ... RETURNING ...\<close> with \<open>fetch_one\<close>\<close>

definition pg_update_fingerprint :: "issue \<Rightarrow> string \<Rightarrow> (issue \<Rightarrow> issue) \<Rightarrow> (db, issue) op" where
  "pg_update_fingerprint target fp f s =
     (case select_issue (\<lambda>i. iss_id i = iss_id target) s of
        None \<Rightarrow> (Inl (Db RowNotFound), s)
      | Some t \<Rightarrow>
          (if key_taken target fp s then (Inl (Db (pg_unique_violation ''idx_issues_project_fingerprint'')), s)
           else case update_issue (iss_id target) (\<lambda>i. (f i)\<lparr>iss_fingerprint := fp\<rparr>) s of
                  (Some i, s') \<Rightarrow> (Inr i, s')
                | (None, s') \<Rightarrow> (Inl (Db RowNotFound), s')))"

definition lock_issue :: "uuid \<Rightarrow> (pg, issue option) op" where
  "lock_issue iid = pg_statement [] (\<lambda>s. (Inr (select_issue (\<lambda>i. iss_id i = iid) s), s))"

definition lock_collision :: "issue \<Rightarrow> string \<Rightarrow> (pg, issue option) op" where
  "lock_collision target fp =
     pg_statement [iss_id target] (pg_bind [fp] (\<lambda>s.
       (Inr (select_issue (\<lambda>i. iss_project_id i = iss_project_id target \<and> iss_fingerprint i = fp \<and>
               iss_id i \<noteq> iss_id target) s), s)))"

definition merge_issues :: "timestamp \<Rightarrow> issue \<Rightarrow> issue \<Rightarrow> string \<Rightarrow> (pg, issue) op" where
  "merge_issues now target source fp =
     pg_statement [iss_id target, iss_id source] (\<lambda>s.
       pg_update_fingerprint target fp (fold_aggregates target source now)
         (delete_issue_row (iss_id source) (repoint_events (iss_id target) (iss_id source) s)))"

definition rename_issue :: "timestamp \<Rightarrow> issue \<Rightarrow> string \<Rightarrow> (pg, issue) op" where
  "rename_issue now target fp =
     pg_statement [iss_id target] (pg_update_fingerprint target fp (\<lambda>i. i\<lparr>iss_updated_at := now\<rparr>))"

definition pg_override_once :: "timestamp \<Rightarrow> uuid \<Rightarrow> string \<Rightarrow> (pg, issue option) op" where
  "pg_override_once clock issue_id new_fingerprint =
     (let now = pg_ts clock in
      pg_transaction (op_bind (lock_issue issue_id) (\<lambda>found.
        case found of
          None \<Rightarrow> op_err (issue_not_found issue_id)
        | Some target \<Rightarrow>
            if iss_fingerprint target = new_fingerprint then op_ok (Some target)
            else
              op_bind (lock_collision target new_fingerprint) (\<lambda>collision.
                case collision of
                  Some source \<Rightarrow> op_bind (merge_issues now target source new_fingerprint) (\<lambda>i. op_ok (Some i))
                | None \<Rightarrow>
                    op_bind (op_try (rename_issue now target new_fingerprint)) (\<lambda>renamed.
                      case renamed of
                        Inr i \<Rightarrow> op_ok (Some i)
                      | Inl (Db e) \<Rightarrow> (if is_unique_violation e then op_ok None else op_err (Db e))
                      | Inl e \<Rightarrow> op_err e)))))"

definition pg_override_fingerprint :: "pg_repo \<Rightarrow> timestamp \<Rightarrow> uuid \<Rightarrow> string \<Rightarrow> (pg, issue) op" where
  "pg_override_fingerprint r clock issue_id new_fingerprint =
     raced RACE_ATTEMPTS
       (Conflict (''fingerprint '' @ new_fingerprint @ '' is being written concurrently; try again''))
       (retry_write (pr_env r) (pr_write r) ''override issue fingerprint''
         (pg_override_once clock issue_id new_fingerprint))"

section \<open>Single statements\<close>

definition pg_find_issue_by_id :: "uuid \<Rightarrow> (pg, issue option) op" where
  "pg_find_issue_by_id iid = pg_single (\<lambda>s. (Inr (select_issue (\<lambda>i. iss_id i = iid) s), s))"

definition pg_find_by_short_id :: "string \<Rightarrow> (pg, issue option) op" where
  "pg_find_by_short_id c =
     pg_single (pg_bind [c] (\<lambda>s. (Inr (select_issue (\<lambda>i. iss_short_id i = c) s), s)))"

definition pg_find_by_fingerprint :: "uuid \<Rightarrow> string \<Rightarrow> (pg, issue option) op" where
  "pg_find_by_fingerprint p fp =
     pg_single (pg_bind [fp] (\<lambda>s.
       (Inr (select_issue (\<lambda>i. iss_project_id i = p \<and> iss_fingerprint i = fp) s), s)))"

definition pg_set_status :: "timestamp \<Rightarrow> uuid \<Rightarrow> issue_status \<Rightarrow> (pg, issue) op" where
  "pg_set_status clock iid st =
     pg_single (\<lambda>s.
       case update_issue iid (clear_mute st (pg_ts clock)) s of
         (Some i, s') \<Rightarrow> (Inr i, s')
       | (None, s') \<Rightarrow> (Inl (issue_not_found iid), s'))"

definition pg_mute_row :: "mute_spec \<Rightarrow> timestamp \<Rightarrow> issue \<Rightarrow> issue" where
  "pg_mute_row spec now i =
     (let (until, threshold, window) =
            (case spec of
               Forever \<Rightarrow> (None, None, None)
             | Until u \<Rightarrow> (Some (pg_ts u), None, None)
             | EventRate n w \<Rightarrow> (None, Some n, Some w))
      in i\<lparr>iss_status := Muted, iss_muted_at := Some (pg_ts now), iss_muted_until := until,
           iss_mute_threshold := threshold, iss_mute_window_seconds := window,
           iss_updated_at := pg_ts now\<rparr>)"

definition pg_mute :: "uuid \<Rightarrow> mute_spec \<Rightarrow> timestamp \<Rightarrow> (pg, issue) op" where
  "pg_mute iid spec now =
     pg_single (\<lambda>s.
       case update_issue iid (pg_mute_row spec now) s of
         (Some i, s') \<Rightarrow> (Inr i, s')
       | (None, s') \<Rightarrow> (Inl (issue_not_found iid), s'))"

definition pg_clear_expired_mutes :: "timestamp \<Rightarrow> (pg, nat) op" where
  "pg_clear_expired_mutes clock =
     pg_single (\<lambda>s.
       (let now = pg_ts clock in
        (Inr (length (filter (mute_expired now) (db_issues s))),
         s\<lparr>db_issues := map (\<lambda>i. if mute_expired now i then clear_mute Unresolved now i else i)
             (db_issues s)\<rparr>)))"

definition pg_delete_issue :: "uuid \<Rightarrow> (pg, unit) op" where
  "pg_delete_issue iid = pg_single (\<lambda>s. (Inr (), delete_issue_row iid s))"

text \<open>\<open>ILIKE\<close>: both sides are lowered by the rules of the database (\<open>lower\<close>), and a
  backslash makes the next character of the pattern stand for itself.\<close>

fun pg_like :: "string list \<Rightarrow> string list \<Rightarrow> bool" where
  "pg_like [] cs = (cs = [])"
| "pg_like (p # ps) [] = (p = ''%'' \<and> pg_like ps [])"
| "pg_like (p # ps) (c # cs) =
     (if p = [CHR 0x5C] then (case ps of [] \<Rightarrow> False | e # ps' \<Rightarrow> e = c \<and> pg_like ps' cs)
      else if p = ''%'' then pg_like ps (c # cs) \<or> pg_like (p # ps) cs
      else if p = ''_'' then pg_like ps cs
      else p = c \<and> pg_like ps cs)"

definition sql_ilike :: "(string \<Rightarrow> string) \<Rightarrow> string option \<Rightarrow> string \<Rightarrow> bool" where
  "sql_ilike lower column pattern =
     (case column of Some v \<Rightarrow> pg_like (chars (lower pattern)) (chars (lower v)) | None \<Rightarrow> False)"

definition pg_filter_matches :: "(string \<Rightarrow> string) \<Rightarrow> uuid \<Rightarrow> issue_filter \<Rightarrow> issue \<Rightarrow> bool" where
  "pg_filter_matches lower p f i \<longleftrightarrow>
     iss_project_id i = p \<and> matches_opt (flt_status f) (Some (iss_status i)) \<and>
     matches_opt (flt_level f) (iss_level i) \<and>
     matches_opt (flt_environment f) (iss_environment i) \<and>
     matches_opt (flt_release f) (iss_release i) \<and>
     (case flt_query f of
        None \<Rightarrow> True
      | Some q \<Rightarrow> sql_ilike lower (Some (iss_title i)) (''%'' @ q @ ''%'')
               \<or> sql_ilike lower (iss_culprit i) (''%'' @ q @ ''%''))"

definition pg_list_issues :: "(string \<Rightarrow> string) \<Rightarrow> uuid \<Rightarrow> issue_filter \<Rightarrow> (pg, issue list) op" where
  "pg_list_issues lower p f =
     pg_single (pg_bind (opt_texts [flt_level f, flt_environment f, flt_release f, flt_query f]) (\<lambda>s.
       (let limit = clamp 1 500 (case flt_limit f of Some n \<Rightarrow> n | None \<Rightarrow> 50);
            offset = max 0 (case flt_offset f of Some n \<Rightarrow> n | None \<Rightarrow> 0)
        in (Inr (take (nat limit) (drop (nat offset)
              (issue_order (flt_sort f) (filter (pg_filter_matches lower p f) (db_issues s))))), s))))"

definition pg_unresolved_counts :: "uuid list \<Rightarrow> (pg, (uuid \<times> int) list) op" where
  "pg_unresolved_counts ids p =
     (if ids = [] then (Inr [], p)
      else pg_single (\<lambda>s.
        (let rows = filter (\<lambda>i. iss_status i = Unresolved \<and> iss_project_id i \<in> set ids) (db_issues s)
         in (Inr (map (\<lambda>p. (p, int (length (filter (\<lambda>i. iss_project_id i = p) rows))))
                   (remdups (map iss_project_id rows))), s))) p)"

definition pg_last_seen_per_project :: "uuid list \<Rightarrow> (pg, (uuid \<times> timestamp) list) op" where
  "pg_last_seen_per_project ids p =
     (if ids = [] then (Inr [], p)
      else pg_single (\<lambda>s.
        (let rows = filter (\<lambda>i. iss_status i = Unresolved \<and> iss_project_id i \<in> set ids) (db_issues s)
         in (Inr (map (\<lambda>p. (p, Max (set (map iss_last_seen (filter (\<lambda>i. iss_project_id i = p) rows)))))
                   (remdups (map iss_project_id rows))), s))) p)"

end
