(* ===== verification/PgFacts.thy ===== *)
theory PgFacts
  imports PgStore
begin

text \<open>
  What the PostgreSQL adapters guarantee: an upsert counts its event exactly once whatever other
  connections commit between its statements, and without other writers the adapters do what the SQLite
  adapters do.
\<close>

section \<open>Other writers\<close>

text \<open>A commit of other connections keeps the tables consistent and waits for the locked issues.\<close>

definition honours :: "(uuid list \<Rightarrow> db \<Rightarrow> db) \<Rightarrow> bool" where
  "honours f \<longleftrightarrow>
     (\<forall>lks s. db_ok s \<longrightarrow> db_ok (f lks s) \<and>
        (\<forall>iid \<in> set lks. select_issue (\<lambda>i. iss_id i = iid) (f lks s) = select_issue (\<lambda>i. iss_id i = iid) s))"

definition pg_ok :: "pg \<Rightarrow> bool" where
  "pg_ok p \<longleftrightarrow> db_ok (pg_db p) \<and> list_all honours (pg_commits p)"

lemma pg_ok_db: "pg_ok p \<Longrightarrow> db_ok t \<Longrightarrow> pg_ok (p\<lparr>pg_db := t\<rparr>)"
  by (simp add: pg_ok_def)

lemma others_ok:
  assumes "pg_ok p"
  shows "pg_ok (others lks p)"
    and "iid \<in> set lks \<Longrightarrow> select_issue (\<lambda>i. iss_id i = iid) (pg_db (others lks p)) =
      select_issue (\<lambda>i. iss_id i = iid) (pg_db p)"
  using assms by (auto simp: pg_ok_def others_def honours_def split: list.splits)

lemma pg_statement_cases:
  assumes "pg_statement lks body p = (r, q)"
  obtains v t where "r = Inr v" "body (pg_db (others lks p)) = (Inr v, t)" "q = (others lks p)\<lparr>pg_db := t\<rparr>"
  | e n where "r = Inl e" "q = (others lks p)\<lparr>pg_db := (pg_db (others lks p))\<lparr>rng_pos := n\<rparr>\<rparr>"
  using assms by (auto simp: pg_statement_def Let_def split: prod.splits sum.splits)

lemma pg_statement_ok:
  assumes "pg_ok p" "\<And>s v t. db_ok s \<Longrightarrow> body s = (Inr v, t) \<Longrightarrow> db_ok t"
    and "pg_statement lks body p = (r, q)"
  shows "pg_ok q"
  using assms(3)
proof (cases rule: pg_statement_cases)
  case (1 v t)
  then show ?thesis using others_ok(1) [OF assms(1)] assms(2) by (auto simp: pg_ok_def)
next
  case (2 e n)
  then show ?thesis using others_ok(1) [OF assms(1)] by (simp add: pg_ok_def)
qed

text \<open>A database that came from another one by commits of other connections alone, and a connection that
  has found it there.\<close>

inductive grown :: "(uuid list \<Rightarrow> db \<Rightarrow> db) set \<Rightarrow> db \<Rightarrow> db \<Rightarrow> bool" for C where
  start: "tables t = tables s \<Longrightarrow> grown C s t"
| commit: "grown C s t \<Longrightarrow> f \<in> C \<Longrightarrow> tables v = tables (f lks t) \<Longrightarrow> grown C s v"

definition pg_at :: "(uuid list \<Rightarrow> db \<Rightarrow> db) set \<Rightarrow> db \<Rightarrow> pg \<Rightarrow> bool" where
  "pg_at C s p \<longleftrightarrow> pg_ok p \<and> set (pg_commits p) \<subseteq> C \<and> grown C s (pg_db p)"

lemma pg_at_ok: "pg_at C s p \<Longrightarrow> pg_ok p"
  by (simp add: pg_at_def)

lemma grown_tables: "grown C s t \<Longrightarrow> tables v = tables t \<Longrightarrow> grown C s v"
  by (erule grown.cases) (auto intro: grown.intros)

lemma pg_at_tables:
  assumes "pg_at C s p" "tables t = tables (pg_db p)"
  shows "pg_at C s (p\<lparr>pg_db := t\<rparr>)"
  using assms db_ok_tables [OF assms(2)] grown_tables [of C s "pg_db p" t] by (simp add: pg_at_def pg_ok_def)

lemma others_at:
  assumes "pg_at C s p"
  shows "pg_at C s (others lks p)"
proof (cases "pg_commits p")
  case Nil
  then show ?thesis using assms by (simp add: others_def)
next
  case (Cons f fs)
  then have "grown C s (f lks (pg_db p))"
    using assms grown.commit [of C s "pg_db p" f _ lks] by (auto simp: pg_at_def)
  then show ?thesis
    using others_ok(1) [OF pg_at_ok [OF assms], of lks] assms Cons by (auto simp: pg_at_def others_def)
qed

lemma pg_statement_at:
  assumes "pg_at C s p" "\<And>s v t. body s = (Inr v, t) \<Longrightarrow> tables t = tables s"
    and "pg_statement lks body p = (r, q)"
  shows "pg_at C s q"
  using assms(3)
  by (cases rule: pg_statement_cases) (auto intro!: pg_at_tables others_at assms(1) dest: assms(2))

lemma pg_bind_Inr: "pg_bind texts body s = (Inr v, t) \<Longrightarrow> body s = (Inr v, t)"
  by (auto simp: pg_bind_def split: if_splits)

section \<open>The upsert\<close>

abbreviation upsert_key :: "issue_upsert \<Rightarrow> uuid \<times> string" where
  "upsert_key u \<equiv> (up_project_id u, up_fingerprint u)"

definition truncated :: "issue_upsert \<Rightarrow> issue_upsert" where
  "truncated u = u\<lparr>up_seen_at := pg_ts (up_seen_at u)\<rparr>"

text \<open>One entry of the map from project and fingerprint to issue was updated, in what the other
  connections made of the database.\<close>

definition upserted :: "(uuid list \<Rightarrow> db \<Rightarrow> db) set \<Rightarrow> db \<Rightarrow> issue_upsert \<Rightarrow> upsert_outcome \<Rightarrow> pg \<Rightarrow> bool" where
  "upserted C s u out q \<longleftrightarrow>
     pg_ok q \<and> set (pg_commits q) \<subseteq> C \<and> (\<exists>s0. grown C s s0 \<and> db_ok s0 \<and> issue_map (pg_db q) = (issue_map s0)(upsert_key u \<mapsto> uo_issue out) \<and>
        upsert_spec u (issue_map s0 (upsert_key u)) out \<and> db_events (pg_db q) = db_events s0)"

lemma lock_step:
  assumes "pg_at C s p" "lock_by_fingerprint u p = (r, q)"
  shows "pg_at C s q" "r = Inr (Some i) \<Longrightarrow> i \<in> set (db_issues (pg_db q)) \<and> issue_key i = upsert_key u"
proof -
  show "pg_at C s q"
    using assms(2) unfolding lock_by_fingerprint_def
    by (rule pg_statement_at [OF assms(1), rotated]) (auto dest!: pg_bind_Inr)
  show "r = Inr (Some i) \<Longrightarrow> i \<in> set (db_issues (pg_db q)) \<and> issue_key i = upsert_key u"
    using assms(2) unfolding lock_by_fingerprint_def
    by (elim pg_statement_cases) (auto dest!: pg_bind_Inr select_issue_Some simp: issue_key_def)
qed

text \<open>The row that is bumped is the one that was locked.\<close>

lemma update_issue_same:
  assumes "db_ok s" "cur \<in> set (db_issues s)" "f cur = g cur"
  shows "update_issue (iss_id cur) f s = update_issue (iss_id cur) g s"
proof -
  have "map (\<lambda>i. if iss_id i = iss_id cur then f i else i) (db_issues s) =
      map (\<lambda>i. if iss_id i = iss_id cur then g i else i) (db_issues s)"
    using issue_id_iff [OF assms(1) _ assms(2)] assms(3) by auto
  then show ?thesis
    using select_by_id [OF assms(1,2)] assms(3) by (simp add: update_issue_def)
qed

lemma bump_step:
  assumes "pg_at C s p" "cur \<in> set (db_issues (pg_db p))" "issue_key cur = upsert_key u"
    and "bump_existing cur u seen p = (r, q)"
  shows "case r of Inl e \<Rightarrow> pg_at C s q | Inr out \<Rightarrow> upserted C s (u\<lparr>up_seen_at := seen\<rparr>) out q"
proof -
  have p: "pg_ok p" using pg_at_ok [OF assms(1)] .
  have at: "pg_at C s (others [iss_id cur] p)" using others_at [OF assms(1)] .
  let ?u = "u\<lparr>up_seen_at := seen\<rparr>" and ?p = "others [iss_id cur] p"
  let ?st = "if iss_status cur = Resolved then Unresolved else iss_status cur"
  have p': "pg_ok ?p" using pg_at_ok [OF at] .
  then have ok: "db_ok (pg_db ?p)" by (simp add: pg_ok_def)
  have sel: "select_issue (\<lambda>i. iss_id i = iss_id cur) (pg_db ?p) = Some cur"
    using others_ok(2) [OF p, of "iss_id cur" "[iss_id cur]"] select_by_id p assms(2)
    by (simp add: pg_ok_def)
  then have mem: "cur \<in> set (db_issues (pg_db ?p))" using select_issue_Some by blast
  have upd: "update_issue (iss_id cur) (pg_bump_row ?st (up_title u) seen) (pg_db ?p) =
      update_issue (iss_id cur) (bump_issue ?u) (pg_db ?p)"
    by (rule update_issue_same [OF ok mem]) (simp add: pg_bump_row_def bump_issue_def)
  note after = update_issue_map [OF row_change_bump ok mem, of ?u]
  show ?thesis
    using assms(4) unfolding bump_existing_def Let_def
  proof (cases rule: pg_statement_cases)
    case (1 v t)
    then have run: "(case update_issue (iss_id cur) (bump_issue ?u) (pg_db ?p) of
        (Some i, s') \<Rightarrow> (Inr \<lparr>uo_issue = i, uo_is_new = False, uo_is_regression = (iss_status cur = Resolved)\<rparr>, s')
      | (None, s') \<Rightarrow> (Inl (Db RowNotFound), s')) = (Inr v, t)"
      using pg_bind_Inr upd by fastforce
    then have v: "v = \<lparr>uo_issue = bump_issue ?u cur, uo_is_new = False,
        uo_is_regression = (iss_status cur = Resolved)\<rparr>"
      and t: "t = snd (update_issue (iss_id cur) (bump_issue ?u) (pg_db ?p))"
      using after(1) by (auto split: prod.splits)
    have "db_ok t" using update_issue_ok [OF row_change_bump ok] t by (metis prod.collapse)
    moreover have "db_events t = db_events (pg_db ?p)" by (simp add: t update_issue_def)
    moreover have "issue_map (pg_db ?p) (upsert_key u) = Some cur"
      using issue_map_mem [of "pg_db ?p" cur] ok mem assms(3) by (simp add: db_ok_def)
    ultimately show ?thesis
      using 1 p' at v t after(2) assms(3) ok
      by (auto simp: pg_ok_def pg_at_def upserted_def upsert_spec_iff intro!: exI [of _ "pg_db ?p"])
  next
    case (2 e n)
    then show ?thesis using at pg_at_tables by auto
  qed
qed

lemma short_id_at: "pg_at C s p \<Longrightarrow> pg_short_id_loop n p = (r, q) \<Longrightarrow> pg_at C s q"
proof (induction n arbitrary: p)
  case (Suc n)
  from Suc.prems(2) show ?case
    by (auto simp: op_bind_def Let_def split: prod.splits sum.splits option.splits
        dest!: pg_statement_at [OF Suc.prems(1), rotated] intro: Suc.IH)
qed simp

lemma pg_insert_issue_Some:
  "pg_insert_issue i s = (Inr (Some j), t) \<Longrightarrow> insert_issue i s = (Inr j, t)"
  by (auto simp: pg_insert_issue_def insert_issue_def split: if_splits)

lemma pg_insert_issue_None: "pg_insert_issue i s = (Inr None, t) \<Longrightarrow> t = s"
  by (auto simp: pg_insert_issue_def split: if_splits)

lemma insert_step:
  assumes "pg_at C s p" "insert_unseen u c seen p = (r, q)"
  shows "case r of Inr (Some i) \<Rightarrow>
      upserted C s (u\<lparr>up_seen_at := seen\<rparr>) \<lparr>uo_issue = i, uo_is_new = True, uo_is_regression = False\<rparr> q
    | _ \<Rightarrow> pg_at C s q"
proof -
  have at: "pg_at C s (others [] p)" using others_at [OF assms(1)] .
  let ?u = "u\<lparr>up_seen_at := seen\<rparr>" and ?p = "others [] p"
  let ?s = "(pg_db ?p)\<lparr>rng_pos := Suc (rng_pos (pg_db ?p))\<rparr>"
  let ?i = "new_issue ?u (rng_uuid (pg_db ?p) (rng_pos (pg_db ?p))) c"
  have p': "pg_ok ?p" using pg_at_ok [OF at] .
  then have ok: "db_ok ?s" by (simp add: pg_ok_def)
  have grown: "grown C s ?s" using at grown_tables [of C s "pg_db ?p" ?s] by (simp add: pg_at_def)
  show ?thesis
    using assms(2) unfolding insert_unseen_def
  proof (cases rule: pg_statement_cases)
    case (1 v t)
    then have ins: "pg_insert_issue ?i ?s = (Inr v, t)"
      using pg_bind_Inr by (fastforce simp: Let_def)
    show ?thesis
    proof (cases v)
      case None
      then have "t = ?s" using pg_insert_issue_None ins by blast
      then show ?thesis using 1(1,3) None at pg_at_tables [of C s ?p ?s] by simp
    next
      case (Some j)
      then have ins': "insert_issue ?i ?s = (Inr j, t)" using ins pg_insert_issue_Some by simp
      note m = insert_issue_map [OF ins']
      have "db_events t = db_events ?s"
        using ins' by (auto simp: insert_issue_def split: if_splits)
      moreover have "db_ok t" using insert_issue_ok [OF ok mute_ok_new_issue ins'] .
      ultimately show ?thesis
        using 1 Some m ok p' at grown
        by (auto simp: pg_ok_def pg_at_def upserted_def upsert_spec_iff intro!: exI [of _ ?s]; blast)
    qed
  next
    case (2 e n)
    then show ?thesis using at pg_at_tables by auto
  qed
qed

lemma pg_transaction_cases:
  assumes "pg_transaction body p = (r, q)" "pg_at C s p"
  obtains e where "r = Inl e" "pg_at C s q"
  | p' where "pg_at C s p'" "body p' = (r, q)"
proof (cases "\<exists>e fs. faults (pg_db p) = Some e # fs")
  case True
  then show thesis using assms that(1) pg_at_tables by (auto simp: pg_transaction_def)
next
  case False
  let ?p = "p\<lparr>pg_db := (pg_db p)\<lparr>faults := tl (faults (pg_db p))\<rparr>\<rparr>"
  have "pg_transaction body p = body ?p"
    using False by (auto simp: pg_transaction_def split: list.splits option.splits)
  moreover have "pg_at C s ?p" using assms(2) pg_at_tables by simp
  ultimately show thesis using assms(1) that(2) by simp
qed

abbreviation attempted :: "(uuid list \<Rightarrow> db \<Rightarrow> db) set \<Rightarrow> db \<Rightarrow> issue_upsert \<Rightarrow> upsert_outcome option res \<Rightarrow> pg \<Rightarrow> bool" where
  "attempted C s u r q \<equiv> (case r of Inr (Some out) \<Rightarrow> upserted C s (truncated u) out q | _ \<Rightarrow> pg_at C s q)"

lemma bump_attempted:
  assumes "pg_at C s x" "cur \<in> set (db_issues (pg_db x))" "issue_key cur = upsert_key u"
    and "op_bind (bump_existing cur u (pg_ts (up_seen_at u))) (\<lambda>out. op_ok (Some out)) x = (r, q)"
  shows "attempted C s u r q"
  using assms(4)
proof (cases rule: op_bind_cases)
  case (1 e)
  then show ?thesis using bump_step [OF assms(1-3)] by fastforce
next
  case (2 a y)
  then show ?thesis using bump_step [OF assms(1-3)] by (fastforce simp: truncated_def)
qed

text \<open>The second look, after the insertion met another one.\<close>

lemma relock_attempted:
  assumes "pg_at C s w"
    and "op_bind (lock_by_fingerprint u) (\<lambda>found.
        case found of None \<Rightarrow> op_ok None
        | Some current \<Rightarrow> op_bind (bump_existing current u (pg_ts (up_seen_at u))) (\<lambda>out. op_ok (Some out))) w = (r, q)"
  shows "attempted C s u r q"
  using assms(2)
proof (cases rule: op_bind_cases)
  case (1 e)
  then show ?thesis using lock_step(1) [OF assms(1)] by simp
next
  case (2 found v)
  note L = lock_step [OF assms(1) 2(1)]
  show ?thesis
  proof (cases found)
    case None
    then show ?thesis using 2 L by auto
  next
    case (Some cur)
    then show ?thesis using 2 L bump_attempted [of C s v cur] by simp
  qed
qed

lemma insert_attempted:
  assumes "pg_at C s z"
    and "op_bind (insert_unseen u c (pg_ts (up_seen_at u))) (\<lambda>inserted.
        case inserted of
          Some i \<Rightarrow> op_ok (Some \<lparr>uo_issue = i, uo_is_new = True, uo_is_regression = False\<rparr>)
        | None \<Rightarrow> op_bind (lock_by_fingerprint u) (\<lambda>found.
            case found of None \<Rightarrow> op_ok None
            | Some current \<Rightarrow> op_bind (bump_existing current u (pg_ts (up_seen_at u))) (\<lambda>out. op_ok (Some out)))) z = (r, q)"
  shows "attempted C s u r q"
  using assms(2)
proof (cases rule: op_bind_cases)
  case (1 e)
  then show ?thesis using insert_step [OF assms(1)] by fastforce
next
  case (2 ins w)
  note I = insert_step [OF assms(1) 2(1)]
  show ?thesis
  proof (cases ins)
    case (Some i)
    then show ?thesis using 2 I by (auto simp: truncated_def)
  next
    case None
    then show ?thesis using 2 I relock_attempted [of C s w u r q] by simp
  qed
qed

lemma pg_upsert_once_step:
  assumes "pg_at C s p" "pg_upsert_once u p = (r, q)"
  shows "attempted C s u r q"
  using assms(2) [unfolded pg_upsert_once_def Let_def] assms(1)
proof (cases rule: pg_transaction_cases)
  case (2 p1)
  from 2(2) show ?thesis
  proof (cases rule: op_bind_cases)
    case (1 e)
    then show ?thesis using lock_step(1) [OF 2(1)] by simp
  next
    case (2 found y)
    note L = lock_step [OF \<open>pg_at C s p1\<close> 2(1)]
    show ?thesis
    proof (cases found)
      case (Some cur)
      then show ?thesis using 2 L bump_attempted [of C s y cur] by simp
    next
      case None
      note rest = 2(2) [unfolded None option.case]
      from rest show ?thesis
      proof (cases rule: op_bind_cases)
        case (1 e)
        then show ?thesis using short_id_at L by (auto simp: pg_unique_short_id_on_def)
      next
        case (2 c z)
        then have "pg_at C s z" using short_id_at L by (auto simp: pg_unique_short_id_on_def)
        then show ?thesis using 2(2) insert_attempted by blast
      qed
    qed
  qed
qed auto

lemma raced_Ok:
  assumes "\<And>p r q. I p \<Longrightarrow> attempt p = (r, q) \<Longrightarrow> (case r of Inr (Some v) \<Rightarrow> Q v q | _ \<Rightarrow> I q)"
    and "I p" "raced n lost attempt p = (Inr v, q)"
  shows "Q v q"
  using assms(2,3)
proof (induction n arbitrary: p)
  case (Suc n)
  obtain r p' where run: "attempt p = (r, p')" by fastforce
  from assms(1) [OF Suc.prems(1) run] Suc.prems(2) run Suc.IH [of p'] show ?case
    by (auto simp: op_bind_def split: sum.splits option.splits)
qed simp

lemma retried_step:
  assumes step: "\<And>p r q. I p \<Longrightarrow> op p = (r, q) \<Longrightarrow> (case r of Inr (Some v) \<Rightarrow> Q v q | _ \<Rightarrow> I q)"
    and "I p" "retry_write (\<lambda>_ p. p) w what op p = (r, q)"
  shows "case r of Inr (Some v) \<Rightarrow> Q v q | _ \<Rightarrow> I q"
proof (cases r)
  case (Inl e)
  have "I t" if "I x" "op x = (Inl err, t)" for x err t
    using step [OF that] by simp
  then show ?thesis
    using retry_from_error [of I op "\<lambda>_ p. p" p w what 0 e q] assms(2,3) Inl unfolding retry_write_def by simp
next
  case (Inr v)
  have "I t" if "I x" "op x = (Inl err, t)" for x err t
    using step [OF that] by simp
  then obtain p0 where "I p0" "op p0 = (Inr v, q)"
    using retry_from_last [of I op "\<lambda>_ p. p" p w what 0 v q] assms(2,3) Inr unfolding retry_write_def by auto
  then show ?thesis using step Inr by blast
qed

lemma raced_Err:
  assumes "\<And>p r q. I p \<Longrightarrow> attempt p = (r, q) \<Longrightarrow> (case r of Inr (Some v) \<Rightarrow> Q v q | _ \<Rightarrow> I q)"
    and "I p" "raced n lost attempt p = (Inl e, q)"
  shows "I q"
  using assms(2,3)
proof (induction n arbitrary: p)
  case (Suc n)
  obtain r p' where run: "attempt p = (r, p')" by fastforce
  from assms(1) [OF Suc.prems(1) run] Suc.prems(2) run Suc.IH [of p'] show ?case
    by (auto simp: op_bind_def split: sum.splits option.splits)
qed simp

lemma pg_upsert_outcome:
  assumes "pg_ok p" "pr_env r = (\<lambda>_ p. p)" "pg_upsert_by_fingerprint r u p = (x, q)"
  shows "case x of Inr out \<Rightarrow> upserted (set (pg_commits p)) (pg_db p) (truncated u) out q
    | Inl e \<Rightarrow> pg_at (set (pg_commits p)) (pg_db p) q"
proof -
  let ?I = "pg_at (set (pg_commits p)) (pg_db p)" and ?Q = "upserted (set (pg_commits p)) (pg_db p) (truncated u)"
  have I: "?I p" using assms(1) by (simp add: pg_at_def grown.start)
  have step: "case r' of Inr (Some v) \<Rightarrow> ?Q v y | _ \<Rightarrow> ?I y"
    if "?I z" "retry_write (pr_env r) (pr_write r) ''upsert issue by fingerprint'' (pg_upsert_once u) z = (r', y)"
    for z r' y
    using that unfolding assms(2)
    by - (rule retried_step [where I = ?I and Q = ?Q and op = "pg_upsert_once u" and p = z],
        rule pg_upsert_once_step, assumption+)
  note run = assms(3) [unfolded pg_upsert_by_fingerprint_def]
  show ?thesis
  proof (cases x)
    case (Inl e)
    have "?I q"
      using I run [unfolded Inl]
      by - (rule raced_Err [where I = ?I and Q = ?Q], rule step, assumption+)
    with Inl show ?thesis by simp
  next
    case (Inr out)
    have "?Q out q"
      using I run [unfolded Inr]
      by - (rule raced_Ok [where I = ?I and Q = ?Q], rule step, assumption+)
    with Inr show ?thesis by simp
  qed
qed

end
