(* ===== verification/PgEvents.thy ===== *)
theory PgEvents
  imports PgFacts
begin

text \<open>
  The PostgreSQL adapter of events (\<open>src/adapters/postgres/event.rs\<close>), the ports of the ingestion
  pipeline on PostgreSQL, and the agreement of the two backends: without other writers the PostgreSQL
  adapters do what the SQLite adapters do, with every time cut to microseconds.
\<close>

section \<open>The event repository\<close>

definition pg_insert_event_row :: "event \<Rightarrow> (db, unit) op" where
  "pg_insert_event_row e s =
     (if ev_id e \<in> set (map ev_id (db_events s)) then (Inl (Db (pg_unique_violation ''events_pkey'')), s)
      else if ev_issue_id e \<notin> set (map iss_id (db_issues s)) \<or> ev_project_id e \<notin> set (project_ids s)
      then (Inl (Db pg_foreign_key_violation), s)
      else (Inr (), s\<lparr>db_events := db_events s @ [e]\<rparr>))"

text \<open>The payload is bound as JSON text, which escapes control characters.\<close>

definition pg_insert_event :: "pg_repo \<Rightarrow> new_event \<Rightarrow> (pg, event) op" where
  "pg_insert_event r n p =
     (let s = pg_db p;
          e = event_row (rng_uuid s (rng_pos s)) (n\<lparr>nev_received_at := pg_ts (nev_received_at n)\<rparr>);
          p = p\<lparr>pg_db := s\<lparr>rng_pos := Suc (rng_pos s)\<rparr>\<rparr> in
      op_bind (retry_write (pr_env r) (pr_write r) ''insert event''
          (pg_single (pg_bind [nev_event_id n] (pg_insert_event_row e))))
        (\<lambda>_. op_ok e) p)"

definition pg_find_event_by_id :: "uuid \<Rightarrow> (pg, event option) op" where
  "pg_find_event_by_id iid = pg_single (\<lambda>s. (Inr (List.find (\<lambda>e. ev_id e = iid) (db_events s)), s))"

definition pg_recent_events :: "uuid \<Rightarrow> int \<Rightarrow> (pg, event list) op" where
  "pg_recent_events iid limit =
     pg_single (\<lambda>s.
       (Inr (take (nat (clamp 1 500 limit))
          (newest_first (filter (\<lambda>e. ev_issue_id e = iid) (db_events s)))), s))"

definition pg_latest_for_issue :: "uuid \<Rightarrow> (pg, event option) op" where
  "pg_latest_for_issue iid =
     pg_single (\<lambda>s.
       (Inr (case newest_first (filter (\<lambda>e. ev_issue_id e = iid) (db_events s)) of
               [] \<Rightarrow> None | e # es \<Rightarrow> Some e), s))"

definition pg_count_for_project :: "uuid \<Rightarrow> (pg, int) op" where
  "pg_count_for_project p =
     pg_single (\<lambda>s. (Inr (int (length (filter (\<lambda>e. ev_project_id e = p) (db_events s)))), s))"

text \<open>A time that is bound for a comparison reaches the server in microseconds as well.\<close>

definition pg_count_in_window :: "uuid \<Rightarrow> timestamp \<Rightarrow> (pg, int) op" where
  "pg_count_in_window iid since =
     pg_single (\<lambda>s.
       (Inr (int (length (filter (\<lambda>e. ev_issue_id e = iid \<and> pg_ts since \<le> ev_received_at e) (db_events s)))), s))"

definition pg_project_ids_with_events :: "(pg, uuid list) op" where
  "pg_project_ids_with_events = pg_single (\<lambda>s. (Inr (remdups (map ev_project_id (db_events s))), s))"

partial_function (option) pg_delete_in_batches ::
  "pg_repo \<Rightarrow> string \<Rightarrow> (int \<Rightarrow> (pg, nat) op) \<Rightarrow> nat \<Rightarrow> pg \<Rightarrow> (nat res \<times> pg) option" where
  "pg_delete_in_batches r what run_batch tot p =
     (case retry_write (pr_env r) (pr_write r) what (run_batch (delete_batch (pr_write r))) p of
        (Inl e, q) \<Rightarrow> Some (Inl e, q)
      | (Inr deleted, q) \<Rightarrow>
          if int deleted < delete_batch (pr_write r) mod 2 ^ 64 then Some (Inr (tot + deleted), q)
          else pg_delete_in_batches r what run_batch (tot + deleted) q)"

text \<open>A negative \<open>LIMIT\<close> is an error on PostgreSQL.\<close>

definition pg_limited :: "int \<Rightarrow> (db, 'a) op \<Rightarrow> (db, 'a) op" where
  "pg_limited limit body s =
     (if limit < 0 then (Inl (Db (Database (PgDatabaseError ''2201W'' ''LIMIT must not be negative''))), s) else body s)"

definition pg_prune_batch :: "uuid \<Rightarrow> int \<Rightarrow> int \<Rightarrow> (pg, nat) op" where
  "pg_prune_batch project keep batch =
     pg_single (pg_limited batch (\<lambda>s. delete_events (map ev_id (take (nat batch) (over_retention project keep s))) s))"

definition pg_prune_events_over_retention :: "pg_repo \<Rightarrow> uuid \<Rightarrow> int \<Rightarrow> pg \<Rightarrow> (nat res \<times> pg) option" where
  "pg_prune_events_over_retention r project retention_events p =
     (let keep = max retention_events 0
      in pg_delete_in_batches r ''prune events over retention'' (pg_prune_batch project keep) 0 p)"

definition pg_older_batch :: "uuid \<Rightarrow> timestamp \<Rightarrow> int \<Rightarrow> (pg, nat) op" where
  "pg_older_batch project cutoff batch =
     pg_single (pg_limited batch (\<lambda>s.
       delete_events (map ev_id (take (nat batch) (older_than project (pg_ts cutoff) s))) s))"

definition pg_delete_older_than :: "pg_repo \<Rightarrow> uuid \<Rightarrow> timestamp \<Rightarrow> pg \<Rightarrow> (nat res \<times> pg) option" where
  "pg_delete_older_than r project cutoff p =
     pg_delete_in_batches r ''delete events older than cutoff'' (pg_older_batch project cutoff) 0 p"

section \<open>Without other writers\<close>

definition on_pg :: "db \<Rightarrow> pg" where
  "on_pg s = \<lparr>pg_db = s, pg_commits = []\<rparr>"

lemma on_pg_simps [simp]: "pg_db (on_pg s) = s" "pg_commits (on_pg s) = []" "(on_pg s)\<lparr>pg_db := t\<rparr> = on_pg t"
  by (simp_all add: on_pg_def)

lemma pg_statement_on:
  "pg_statement lks body (on_pg s) =
     (case body s of (Inr v, t) \<Rightarrow> (Inr v, on_pg t) | (Inl e, t) \<Rightarrow> (Inl e, on_pg (s\<lparr>rng_pos := rng_pos t\<rparr>)))"
  by (simp add: pg_statement_def others_def Let_def split: prod.split sum.split)

lemma no_faults: "faults s = [] \<Longrightarrow> s\<lparr>faults := []\<rparr> = s"
  by (cases s) simp

lemma pg_transaction_on: "faults s = [] \<Longrightarrow> pg_transaction body (on_pg s) = body (on_pg s)"
  by (simp add: pg_transaction_def no_faults)

lemma pg_single_on: "faults s = [] \<Longrightarrow> body s = (Inr v, t) \<Longrightarrow> pg_single body (on_pg s) = (Inr v, on_pg t)"
  by (simp add: pg_single_def pg_transaction_on pg_statement_on)

lemma pg_bind_on: "list_all pg_text texts \<Longrightarrow> pg_bind texts body s = body s"
  by (simp add: pg_bind_def)

lemma transaction_free: "faults s = [] \<Longrightarrow> transaction body s = (Inr v, t) \<Longrightarrow> body s = (Inr v, t)"
  by (auto simp: transaction_def Let_def no_faults split: prod.splits sum.splits)

text \<open>The constraint errors of SQLite are not lock conflicts, so a transaction that succeeds on a
  database without faults succeeds at once.\<close>

lemma retry_free:
  assumes "faults s = []" "retry_write env w what (transaction body) s = (Inr v, t)"
    and "\<And>e u. body s = (Inl e, u) \<Longrightarrow> \<not> is_busy e"
  shows "body s = (Inr v, t)"
proof -
  obtain q u where run: "transaction body s = (q, u)" by fastforce
  show ?thesis
  proof (cases q)
    case (Inr x)
    then show ?thesis
      using assms(1,2) run transaction_free [of s body] by (simp add: retry_write_def retry_from_Ok)
  next
    case (Inl e)
    then obtain u' where "body s = (Inl e, u')"
      using run assms(1) by (auto simp: transaction_def Let_def no_faults split: prod.splits sum.splits)
    with assms(2,3) run Inl show ?thesis by (simp add: retry_write_def retry_from_fatal)
  qed
qed

lemma constraint_not_busy: "\<not> is_busy foreign_key_failed"
    "\<not> is_busy (constraint_failed ''UNIQUE constraint failed: issues.id'')"
    "\<not> is_busy (constraint_failed ''UNIQUE constraint failed: issues.short_id'')"
    "\<not> is_busy (constraint_failed ''UNIQUE constraint failed: issues.project_id, issues.fingerprint'')"
    "\<not> is_busy (constraint_failed ''UNIQUE constraint failed: events.id'')"
  by code_simp+

lemma insert_issue_not_busy: "insert_issue i s = (Inl e, t) \<Longrightarrow> \<not> is_busy e"
  using constraint_not_busy by (auto simp: insert_issue_def split: if_splits)

lemma short_id_not_busy: "unique_short_id_loop n taken s = (Inl e, t) \<Longrightarrow> \<not> is_busy e"
  by (induction n arbitrary: s) (auto simp: Let_def split: if_splits)

lemma upsert_body_not_busy: "upsert_body u s = (Inl e, t) \<Longrightarrow> \<not> is_busy e"
  by (auto simp: upsert_body_def Let_def unique_short_id_on_def split: option.splits prod.splits sum.splits
      dest: short_id_not_busy insert_issue_not_busy)

lemma short_id_on:
  assumes "unique_short_id_loop n (issue_short_id_taken s0) s = (Inr c, t)" "db_issues s = db_issues s0"
  shows "pg_short_id_loop n (on_pg s) = (Inr c, on_pg t)"
  using assms
proof (induction n arbitrary: s)
  case (Suc n)
  let ?s = "s\<lparr>rng_pos := Suc (rng_pos s)\<rparr>" and ?c = "rng_short s (rng_pos s)"
  have taken: "issue_short_id_taken ?s ?c = issue_short_id_taken s0 ?c"
    using Suc.prems(2) by (simp add: issue_short_id_taken_def)
  show ?case
    using Suc.prems Suc.IH [of ?s]
    by (cases "issue_short_id_taken s0 ?c") (auto simp: op_bind_def pg_statement_on Let_def taken)
qed simp

lemma insert_issue_on: "insert_issue i s = (Inr j, t) \<Longrightarrow> pg_insert_issue i s = (Inr (Some j), t)"
  by (auto simp: insert_issue_def pg_insert_issue_def split: if_splits)

definition upsert_texts :: "issue_upsert \<Rightarrow> string list" where
  "upsert_texts u = [up_fingerprint u, up_title u] @ opt_texts [up_culprit u, up_level u, up_environment u, up_release u]"

lemma upsert_texts_ok:
  assumes "list_all pg_text (upsert_texts u)"
  shows "list_all pg_text [up_fingerprint u]" "list_all pg_text [up_title u]"
    "list_all pg_text ([up_fingerprint u, up_title u] @ opt_texts [up_culprit u, up_level u, up_environment u, up_release u])"
  using assms by (simp_all add: upsert_texts_def)

lemma pg_upsert_once_on:
  assumes "db_ok s" "faults s = []" "list_all pg_text (upsert_texts u)"
    and run: "upsert_body (truncated u) s = (Inr out, t)"
  shows "pg_upsert_once u (on_pg s) = (Inr (Some out), on_pg t)"
proof -
  note texts = upsert_texts_ok [OF assms(3)]
  let ?look = "select_issue (\<lambda>i. iss_project_id i = up_project_id u \<and> iss_fingerprint i = up_fingerprint u) s"
  have lock: "lock_by_fingerprint u (on_pg s) = (Inr ?look, on_pg s)"
    by (simp only: lock_by_fingerprint_def pg_statement_on pg_bind_on [OF texts(1)] prod.case sum.case)
  show ?thesis
  proof (cases ?look)
    case (Some cur)
    then have mem: "cur \<in> set (db_issues s)" using select_issue_Some by blast
    have upd: "update_issue (iss_id cur) (pg_bump_row (if iss_status cur = Resolved then Unresolved else iss_status cur)
        (up_title u) (pg_ts (up_seen_at u))) s = update_issue (iss_id cur) (bump_issue (truncated u)) s"
      by (rule update_issue_same [OF assms(1) mem]) (simp add: pg_bump_row_def bump_issue_def truncated_def)
    show ?thesis
      using run Some lock
      by (auto simp: upsert_body_def truncated_def [of u] pg_upsert_once_def pg_transaction_on assms(2) op_bind_def
          bump_existing_def pg_statement_on pg_bind_on [OF texts(2)] upd Let_def
          split: option.splits prod.splits)
  next
    case None
    with run obtain c s1 where c: "unique_short_id_on s = (Inr c, s1)"
      and ins: "(case insert_issue (new_issue (truncated u) (rng_uuid s1 (rng_pos s1)) c) (s1\<lparr>rng_pos := Suc (rng_pos s1)\<rparr>) of
          (Inl e, t) \<Rightarrow> (Inl e, t)
        | (Inr i, t) \<Rightarrow> (Inr \<lparr>uo_issue = i, uo_is_new = True, uo_is_regression = False\<rparr>, t)) = (Inr out, t)"
      by (auto simp: upsert_body_def truncated_def Let_def split: prod.splits sum.splits)
    have sid: "pg_unique_short_id_on (on_pg s) = (Inr c, on_pg s1)"
      using short_id_on [of 16 s s c s1] c by (simp add: unique_short_id_on_def pg_unique_short_id_on_def)
    from ins obtain i where i: "insert_issue (new_issue (truncated u) (rng_uuid s1 (rng_pos s1)) c)
        (s1\<lparr>rng_pos := Suc (rng_pos s1)\<rparr>) = (Inr i, t)"
      and out: "out = \<lparr>uo_issue = i, uo_is_new = True, uo_is_regression = False\<rparr>"
      by (auto split: prod.splits sum.splits)
    have "insert_unseen u c (pg_ts (up_seen_at u)) (on_pg s1) = (Inr (Some i), on_pg t)"
      using insert_issue_on [OF i]
      by (simp add: insert_unseen_def pg_statement_on pg_bind_on [OF texts(3), simplified] Let_def truncated_def)
    with None lock sid out show ?thesis
      by (simp add: pg_upsert_once_def Let_def pg_transaction_on assms(2) op_bind_def)
  qed
qed

lemma raced_on:
  "attempt p = (Inr (Some v), q) \<Longrightarrow> raced RACE_ATTEMPTS lost attempt p = (Inr v, q)"
  by (simp add: RACE_ATTEMPTS_def numeral_3_eq_3 op_bind_def)

lemma retry_at_once: "op p = (Inr v, q) \<Longrightarrow> retry_write env w what op p = (Inr v, q)"
  by (simp add: retry_write_def retry_from_Ok)


lemma pg_upsert_on:
  assumes "db_ok s" "faults s = []" "list_all pg_text (upsert_texts u)"
    and "upsert_by_fingerprint r0 (truncated u) s = (Inr out, t)"
  shows "pg_upsert_by_fingerprint r u (on_pg s) = (Inr out, on_pg t)"
proof -
  have "upsert_body (truncated u) s = (Inr out, t)"
    using assms(4) upsert_body_not_busy unfolding upsert_by_fingerprint_def upsert_once_def
    by (rule retry_free [OF assms(2)])
  then show ?thesis
    unfolding pg_upsert_by_fingerprint_def
    by (intro raced_on retry_at_once pg_upsert_once_on [OF assms(1-3)])
qed

lemma update_fingerprint_not_busy: "update_fingerprint iid fp f s = (Inl e, t) \<Longrightarrow> \<not> is_busy e"
  using constraint_not_busy(4) by (auto simp: update_fingerprint_def split: option.splits if_splits prod.splits)

lemma override_body_not_busy: "override_body now iid fp s = (Inl e, t) \<Longrightarrow> \<not> is_busy e"
  by (auto simp: override_body_def issue_not_found_def split: option.splits if_splits prod.splits sum.splits
      dest: update_fingerprint_not_busy)

lemma update_fingerprint_on:
  assumes "update_fingerprint (iss_id target) fp f s = (Inr (Some i), t)"
    and "\<And>x. select_issue (\<lambda>i. iss_id i = iss_id target) s = Some x \<Longrightarrow> iss_project_id x = iss_project_id target"
  shows "pg_update_fingerprint target fp f s = (Inr i, t)"
proof -
  obtain x where x: "select_issue (\<lambda>i. iss_id i = iss_id target) s = Some x"
    using assms(1) by (auto simp: update_fingerprint_def split: option.splits)
  show ?thesis
    using assms(1) assms(2) [OF x] x
    by (auto simp: update_fingerprint_def pg_update_fingerprint_def key_taken_def split: if_splits prod.splits option.splits)
qed

lemma same_row:
  assumes "db_ok s" "target \<in> set (db_issues s)" "set (db_issues s') \<subseteq> set (db_issues s)"
    and "select_issue (\<lambda>i. iss_id i = iss_id target) s' = Some x"
  shows "x = target"
  using select_issue_Some [OF assms(4)] assms(1-3) issue_id_iff by blast

lemma pg_override_once_on:
  assumes "db_ok s" "faults s = []" "pg_text fp" "override_body (pg_ts clock) iid fp s = (Inr i, t)"
  shows "pg_override_once clock iid fp (on_pg s) = (Inr (Some i), on_pg t)"
proof -
  let ?now = "pg_ts clock"
  obtain target where target: "select_issue (\<lambda>i. iss_id i = iid) s = Some target"
    using assms(4) by (auto simp: override_body_def split: option.splits)
  then have mem: "target \<in> set (db_issues s)" and iid: "iss_id target = iid" using select_issue_Some by blast+
  have lock: "lock_issue iid (on_pg s) = (Inr (Some target), on_pg s)"
    by (simp add: lock_issue_def pg_statement_on target)
  show ?thesis
  proof (cases "iss_fingerprint target = fp")
    case True
    with assms(2,4) target lock show ?thesis
      by (simp add: override_body_def pg_override_once_def Let_def pg_transaction_on op_bind_def)
  next
    case False
    define col where "col = select_issue (\<lambda>i. iss_project_id i = iss_project_id target \<and> iss_fingerprint i = fp \<and>
        iss_id i \<noteq> iid) s"
    have collision: "lock_collision target fp (on_pg s) = (Inr col, on_pg s)"
      using assms(3) iid by (simp add: lock_collision_def pg_statement_on pg_bind_on col_def)
    show ?thesis
    proof (cases col)
      case None
      have "update_fingerprint iid fp (\<lambda>i. i\<lparr>iss_updated_at := ?now\<rparr>) s = (Inr (Some i), t)"
        using assms(4) target False None iid
        by (auto simp: override_body_def col_def split: option.splits sum.splits prod.splits)
      then have "pg_update_fingerprint target fp (\<lambda>i. i\<lparr>iss_updated_at := ?now\<rparr>) s = (Inr i, t)"
        using update_fingerprint_on [of target fp _ s i t] same_row [OF assms(1) mem order_refl] iid by auto
      then have "rename_issue ?now target fp (on_pg s) = (Inr i, on_pg t)"
        by (simp add: rename_issue_def pg_statement_on)
      with None False assms(2) lock collision show ?thesis
        by (simp add: pg_override_once_def Let_def pg_transaction_on op_bind_def op_try_def)
    next
      case (Some source)
      let ?s = "delete_issue_row (iss_id source) (repoint_events (iss_id target) (iss_id source) s)"
      have sub: "set (db_issues ?s) \<subseteq> set (db_issues s)" by (auto simp: delete_issue_row_def repoint_events_def)
      have "update_fingerprint iid fp (fold_aggregates target source ?now) ?s = (Inr (Some i), t)"
        using assms(4) target False Some iid
        by (auto simp: override_body_def col_def split: option.splits sum.splits prod.splits)
      then have "pg_update_fingerprint target fp (fold_aggregates target source ?now) ?s = (Inr i, t)"
        using update_fingerprint_on [of target fp _ ?s i t] same_row [OF assms(1) mem sub] iid by auto
      then have "merge_issues ?now target source fp (on_pg s) = (Inr i, on_pg t)"
        by (simp add: merge_issues_def pg_statement_on)
      with Some False assms(2) lock collision show ?thesis
        by (simp add: pg_override_once_def Let_def pg_transaction_on op_bind_def)
    qed
  qed
qed

lemma pg_override_on:
  assumes "db_ok s" "faults s = []" "pg_text fp"
    and "override_fingerprint r0 (pg_ts clock) iid fp s = (Inr i, t)"
  shows "pg_override_fingerprint r clock iid fp (on_pg s) = (Inr i, on_pg t)"
proof -
  have "override_body (pg_ts clock) iid fp s = (Inr i, t)"
    using assms(4) override_body_not_busy unfolding override_fingerprint_def override_fingerprint_once_def
    by (rule retry_free [OF assms(2)])
  then show ?thesis
    unfolding pg_override_fingerprint_def
    by (intro raced_on retry_at_once pg_override_once_on [OF assms(1-3)])
qed

lemma pg_insert_event_on:
  assumes "faults s = []" "pg_text (nev_event_id n)"
    and "insert_event r0 (n\<lparr>nev_received_at := pg_ts (nev_received_at n)\<rparr>) s = (Inr e, t)"
  shows "pg_insert_event r n (on_pg s) = (Inr e, on_pg t)"
proof -
  let ?n = "n\<lparr>nev_received_at := pg_ts (nev_received_at n)\<rparr>" and ?s = "s\<lparr>rng_pos := Suc (rng_pos s)\<rparr>"
  let ?e = "event_row (rng_uuid s (rng_pos s)) ?n"
  have run: "retry_write (rp_env r0) (rp_write r0) ''insert event'' (transaction (insert_event_row ?e)) ?s = (Inr (), t)"
    and e: "e = ?e"
    using assms(3) by (auto simp: insert_event_def Let_def split: prod.splits sum.splits)
  have "insert_event_row ?e ?s = (Inr (), t)"
    using run by (rule retry_free [rotated])
      (use assms(1) constraint_not_busy in \<open>auto simp: insert_event_row_def split: if_splits\<close>)
  then have "pg_insert_event_row ?e ?s = (Inr (), t)"
    by (auto simp: insert_event_row_def pg_insert_event_row_def split: if_splits)
  then have "pg_single (pg_bind [nev_event_id n] (pg_insert_event_row ?e)) (on_pg ?s) = (Inr (), on_pg t)"
    using assms(1,2) by (intro pg_single_on) (simp_all add: pg_bind_on)
  with e show ?thesis
    by (simp add: pg_insert_event_def Let_def op_bind_def retry_at_once)
qed

text \<open>The reads and the single statements.\<close>

lemma pg_single_agrees:
  "faults s = [] \<Longrightarrow> transaction body s = (Inr v, t) \<Longrightarrow> pg_single body (on_pg s) = (Inr v, on_pg t)"
  using transaction_free [of s body v t] pg_single_on [of s body v t] by simp

lemma pg_set_status_on:
  "faults s = [] \<Longrightarrow> set_status (pg_ts clock) iid st s = (Inr i, t) \<Longrightarrow>
     pg_set_status clock iid st (on_pg s) = (Inr i, on_pg t)"
  unfolding set_status_def pg_set_status_def by (rule pg_single_agrees)

definition cut_spec :: "mute_spec \<Rightarrow> mute_spec" where
  "cut_spec spec = (case spec of Until at \<Rightarrow> Until (pg_ts at) | _ \<Rightarrow> spec)"

lemma pg_mute_on:
  assumes "faults s = []" "mute iid (cut_spec spec) (pg_ts now) s = (Inr i, t)"
  shows "pg_mute iid spec now (on_pg s) = (Inr i, on_pg t)"
proof -
  have "pg_mute_row spec now = apply_mute (cut_spec spec) (pg_ts now)"
    by (auto simp: pg_mute_row_def apply_mute_def cut_spec_def fun_eq_iff split: mute_spec.split)
  then show ?thesis
    using assms pg_single_agrees unfolding mute_def pg_mute_def by simp
qed

lemma pg_clear_expired_on:
  "faults s = [] \<Longrightarrow> clear_expired_mutes (pg_ts clock) s = (Inr n, t) \<Longrightarrow>
     pg_clear_expired_mutes clock (on_pg s) = (Inr n, on_pg t)"
  unfolding clear_expired_mutes_def pg_clear_expired_mutes_def Let_def by (rule pg_single_agrees)

section \<open>Searching\<close>

lemma byte_lower: "byte (to_ascii_lower c) = (if is_ascii_uppercase c then byte c + 32 else byte c)"
  by (simp add: to_ascii_lower_def is_ascii_uppercase_def)

lemma lower_eq:
  assumes "\<not> is_ascii_alphabetic d"
  shows "to_ascii_lower c = d \<longleftrightarrow> c = d"
proof (cases "is_ascii_uppercase c")
  case True
  then have "is_ascii_lowercase (to_ascii_lower c)"
    by (simp add: is_ascii_lowercase_def byte_lower) (simp add: is_ascii_uppercase_def)
  with True assms show ?thesis by (auto simp: is_ascii_alphabetic_def)
qed (simp add: to_ascii_lower_def)

lemma char_width_lower [simp]: "char_width (to_ascii_lower c) = char_width c"
  by (simp add: char_width_def byte_lower is_ascii_uppercase_def)

lemma chars_lower: "chars (to_ascii_lowercase s) = map to_ascii_lowercase (chars s)"
  by (induction s rule: chars.induct) (simp_all add: to_ascii_lowercase_def take_map drop_map)

lemma lower_char:
  assumes "\<not> is_ascii_alphabetic d"
  shows "to_ascii_lowercase c = [d] \<longleftrightarrow> c = [d]"
  using lower_eq [OF assms] by (auto simp: to_ascii_lowercase_def)

lemma special_chars: "\<not> is_ascii_alphabetic CHR ''%''" "\<not> is_ascii_alphabetic CHR ''_''"
    "\<not> is_ascii_alphabetic CHR 0x5C"
  by code_simp+

lemma pg_like_lowered:
  "[CHR 0x5C] \<notin> set ps \<Longrightarrow>
     pg_like (map to_ascii_lowercase ps) (map to_ascii_lowercase cs) = like_chars ps cs"
proof (induction ps cs rule: like_chars.induct)
  case (3 p ps c cs)
  have ps: "[CHR 0x5C] \<notin> set ps" and p: "p \<noteq> [CHR 0x5C]" using 3(5) by auto
  note eqs = lower_char [OF special_chars(1), of p] lower_char [OF special_chars(2), of p]
    lower_char [OF special_chars(3), of p]
  consider (any) "p = ''%''" | (one) "p = ''_''" | (plain) "p \<noteq> ''%''" "p \<noteq> ''_''" by blast
  then show ?case
  proof cases
    case any
    have "to_ascii_lowercase ''%'' = ''%''" by code_simp
    then show ?thesis using 3(1,2) [OF any] 3(5) ps any by simp
  next
    case one
    have "to_ascii_lowercase ''_'' = ''_''" by code_simp
    then show ?thesis using 3(3) ps one by simp
  next
    case plain
    then show ?thesis using 3(4) [OF plain ps] p eqs by simp
  qed
qed (use lower_char [OF special_chars(1)] in auto)

lemma sql_ilike_agrees:
  assumes "[CHR 0x5C] \<notin> set (chars pattern)"
  shows "sql_ilike to_ascii_lowercase column pattern = sql_like column pattern"
  using pg_like_lowered [OF assms] by (simp add: sql_ilike_def sql_like_def chars_lower split: option.split)

lemma pg_filter_agrees:
  assumes "\<And>q. flt_query f = Some q \<Longrightarrow> [CHR 0x5C] \<notin> set (chars (''%'' @ q @ ''%''))"
  shows "pg_filter_matches to_ascii_lowercase p f = filter_matches p f"
  using assms sql_ilike_agrees by (auto simp: pg_filter_matches_def filter_matches_def fun_eq_iff split: option.split)

lemma pg_list_issues_on:
  assumes "faults s = []" "list_all pg_text (opt_texts [flt_level f, flt_environment f, flt_release f, flt_query f])"
    and "\<And>q. flt_query f = Some q \<Longrightarrow> [CHR 0x5C] \<notin> set (chars (''%'' @ q @ ''%''))"
    and "list_issues p f s = (Inr is, t)"
  shows "pg_list_issues to_ascii_lowercase p f (on_pg s) = (Inr is, on_pg t)"
proof -
  have "(Inr (take (nat (clamp 1 500 (case flt_limit f of Some n \<Rightarrow> n | None \<Rightarrow> 50)))
      (drop (nat (max 0 (case flt_offset f of Some n \<Rightarrow> n | None \<Rightarrow> 0)))
        (issue_order (flt_sort f) (filter (filter_matches p f) (db_issues s))))) :: issue list res, s) = (Inr is, t)"
    using transaction_free [OF assms(1) assms(4) [unfolded list_issues_def Let_def]] .
  then have rows: "is = take (nat (clamp 1 500 (case flt_limit f of Some n \<Rightarrow> n | None \<Rightarrow> 50)))
      (drop (nat (max 0 (case flt_offset f of Some n \<Rightarrow> n | None \<Rightarrow> 0)))
        (issue_order (flt_sort f) (filter (filter_matches p f) (db_issues s))))" and t: "t = s" by auto
  have eq: "pg_filter_matches to_ascii_lowercase p f = filter_matches p f"
    using assms(3) by (rule pg_filter_agrees)
  show ?thesis
    unfolding pg_list_issues_def Let_def eq rows t
    by (intro pg_single_on [OF assms(1)]) (simp only: pg_bind_on [OF assms(2)])
qed

text \<open>With a backslash they do not: it is a character for \<open>LIKE\<close> on SQLite and an escape for
  \<open>ILIKE\<close> on PostgreSQL.\<close>

lemma backslash_differs:
  "sql_like (Some [CHR ''a'', CHR 0x5C, CHR ''b'']) [CHR ''%'', CHR 0x5C, CHR ''%'']"
  "\<not> sql_ilike to_ascii_lowercase (Some [CHR ''a'', CHR 0x5C, CHR ''b'']) [CHR ''%'', CHR 0x5C, CHR ''%'']"
  by code_simp+

section \<open>Retention\<close>

context batch_sweep
begin

text \<open>Both loops take the same batches.\<close>

lemma sweeps_agree:
  assumes "0 < delete_batch w" "delete_batch w < 2 ^ 63" "pr_write r = w"
    and lift: "\<And>s n t. faults s = [] \<Longrightarrow> run (delete_batch w) s = (Inr n, t) \<Longrightarrow>
      pg_run (delete_batch w) (on_pg s) = (Inr n, on_pg t)"
    and "db_ok s" "faults s = []"
  shows "\<exists>t. delete_in_batches (quiet_of w) what run acc s = Some (Inr (acc + length (doomed s)), t) \<and>
    pg_delete_in_batches r what pg_run acc (on_pg s) = Some (Inr (acc + length (doomed s)), on_pg t)"
  using assms(5,6)
proof (induction "length (doomed s)" arbitrary: s acc rule: less_induct)
  case less
  let ?b = "delete_batch w"
  obtain n t where run: "run ?b s = (Inr n, t)" "faults t = []"
    using run_no_fault [OF less.prems(2)] by blast
  note step = run_ok [OF assms(1) less.prems(1) run(1)]
  have once: "retry_write (rp_env (quiet_of w)) (rp_write (quiet_of w)) what (run ?b) s = (Inr n, t)"
    "retry_write (pr_env r) (pr_write r) what (pg_run ?b) (on_pg s) = (Inr n, on_pg t)"
    using retry_at_once [of "run ?b"] retry_at_once [of "pg_run ?b"] run(1) lift [OF less.prems(2) run(1)] by blast+
  have mod: "?b mod 2 ^ 64 = ?b" using assms(1,2) by simp
  show ?case
  proof (cases "int n < ?b")
    case True
    then have "n = length (doomed s)" using step by auto
    then show ?thesis
      using True once mod assms(3)
      by (intro exI [of _ t]) (simp add: delete_in_batches.simps [of "quiet_of w"] pg_delete_in_batches.simps [of r])
  next
    case False
    then have "length (doomed t) < length (doomed s)" using step assms(1) by auto
    from less.hyps [OF this] obtain u where
      "delete_in_batches (quiet_of w) what run (acc + n) t = Some (Inr (acc + n + length (doomed t)), u)"
      "pg_delete_in_batches r what pg_run (acc + n) (on_pg t) = Some (Inr (acc + n + length (doomed t)), on_pg u)"
      using step run(2) by blast
    moreover have "n + length (doomed t) = length (doomed s)" using step by auto
    ultimately show ?thesis
      using False once mod assms(3)
      by (intro exI [of _ u])
        (simp add: delete_in_batches.simps [of "quiet_of w" what run acc s] pg_delete_in_batches.simps [of r what pg_run acc "on_pg s"] add.assoc)
  qed
qed

end

lemma pg_batch_on:
  assumes "faults s = []" "0 < b"
    and "transaction (\<lambda>s. delete_events (map ev_id (sql_limit b (d s))) s) s = (Inr n, t)"
  shows "pg_single (pg_limited b (\<lambda>s. delete_events (map ev_id (take (nat b) (d s))) s)) (on_pg s) = (Inr n, on_pg t)"
proof -
  have "delete_events (map ev_id (take (nat b) (d s))) s = (Inr n, t)"
    using transaction_free [OF assms(1,3)] assms(2) by (simp add: sql_limit_def)
  then show ?thesis
    using assms(2) by (intro pg_single_on [OF assms(1)]) (simp add: pg_limited_def)
qed

lemma pg_prune_agrees:
  assumes "0 < delete_batch (pr_write r)" "delete_batch (pr_write r) < 2 ^ 63" "db_ok s" "faults s = []"
  shows "\<exists>n t. prune_events_over_retention (quiet_of (pr_write r)) project keep s = Some (Inr n, t) \<and>
    pg_prune_events_over_retention r project keep (on_pg s) = Some (Inr n, on_pg t)"
  using retention.sweeps_agree [OF assms(1,2) refl _ assms(3,4), of project "max keep 0"
      "pg_prune_batch project (max keep 0)" "''prune events over retention''" 0]
    pg_batch_on [OF _ assms(1)]
  unfolding prune_events_over_retention_def pg_prune_events_over_retention_def prune_batch_def pg_prune_batch_def Let_def
  by blast

lemma pg_delete_older_agrees:
  assumes "0 < delete_batch (pr_write r)" "delete_batch (pr_write r) < 2 ^ 63" "db_ok s" "faults s = []"
  shows "\<exists>n t. delete_older_than (quiet_of (pr_write r)) project (pg_ts cutoff) s = Some (Inr n, t) \<and>
    pg_delete_older_than r project cutoff (on_pg s) = Some (Inr n, on_pg t)"
  using ageing.sweeps_agree [OF assms(1,2) refl _ assms(3,4), of project "pg_ts cutoff"
      "pg_older_batch project cutoff" "''delete events older than cutoff''" 0]
    pg_batch_on [OF _ assms(1)]
  unfolding delete_older_than_def pg_delete_older_than_def older_batch_def pg_older_batch_def
  by blast

section \<open>The ports on PostgreSQL\<close>

definition pg_quiet :: "write_policy \<Rightarrow> pg_repo" where
  "pg_quiet w = \<lparr>pr_write = w, pr_env = (\<lambda>_ p. p)\<rparr>"

definition pg_issues :: "pg_repo \<Rightarrow> timestamp \<Rightarrow> pg issue_port" where
  "pg_issues r clock = \<lparr>ip_upsert = pg_upsert_by_fingerprint r, ip_set_status = pg_set_status clock\<rparr>"

definition pg_events :: "pg_repo \<Rightarrow> pg event_port" where
  "pg_events r = \<lparr>ep_insert = pg_insert_event r, ep_count_in_window = pg_count_in_window\<rparr>"

text \<open>A database that nobody else writes to.\<close>

definition alone :: "pg \<Rightarrow> bool" where
  "alone p \<longleftrightarrow> db_ok (pg_db p) \<and> pg_commits p = []"

lemma alone_on: "alone p \<longleftrightarrow> db_ok (pg_db p) \<and> p = on_pg (pg_db p)"
  by (cases p) (auto simp: alone_def on_pg_def)

lemma alone_pg_ok: "alone p \<Longrightarrow> pg_ok p"
  by (simp add: alone_def pg_ok_def)

lemma grown_none: "grown {} s t \<Longrightarrow> tables t = tables s"
  by (induction rule: grown.induct) auto


lemma pg_single_alone:
  assumes "pg_commits p = []" "pg_single body p = (r, q)"
  shows "pg_commits q = [] \<and> (case r of Inl e \<Rightarrow> tables (pg_db q) = tables (pg_db p)
    | Inr v \<Rightarrow> \<exists>s0. tables s0 = tables (pg_db p) \<and> body s0 = (Inr v, pg_db q))"
proof (cases "\<exists>e fs. faults (pg_db p) = Some e # fs")
  case True
  then show ?thesis using assms by (auto simp: pg_single_def pg_transaction_def)
next
  case False
  let ?s = "(pg_db p)\<lparr>faults := tl (faults (pg_db p))\<rparr>"
  have "p\<lparr>pg_db := ?s\<rparr> = on_pg ?s" using assms(1) by (cases p) (simp add: on_pg_def)
  then have "pg_single body p = pg_statement [] body (on_pg ?s)"
    using False by (auto simp: pg_single_def pg_transaction_def split: list.splits option.splits)
  then show ?thesis
    using assms(2) by (auto simp: pg_statement_on split: prod.splits sum.splits intro!: exI [of _ ?s])
qed

text \<open>Two states with the same tables are the same to the ports.\<close>

definition same_tables :: "pg \<Rightarrow> pg \<Rightarrow> bool" where
  "same_tables p q \<longleftrightarrow> tables (pg_db q) = tables (pg_db p) \<and> pg_commits q = []"

lemma same_tables_alone:
  assumes "alone p" "same_tables p q"
  shows "alone q \<and> issue_map (pg_db q) = issue_map (pg_db p) \<and> db_events (pg_db q) = db_events (pg_db p)"
  using assms tables_eqs [of "pg_db q" "pg_db p"] by (simp add: alone_def same_tables_def)

lemma pg_upsert_alone:
  assumes "alone p" "pg_upsert_by_fingerprint (pg_quiet w) u p = (x, q)"
  shows "case x of
      Inl e \<Rightarrow> same_tables p q
    | Inr out \<Rightarrow> alone q \<and> issue_map (pg_db q) = (issue_map (pg_db p))(upsert_key u \<mapsto> uo_issue out) \<and>
        upsert_spec (truncated u) (issue_map (pg_db p) (upsert_key u)) out \<and> db_events (pg_db q) = db_events (pg_db p)"
proof -
  have none: "pg_commits p = []" using assms(1) by (simp add: alone_def)
  note run = pg_upsert_outcome [OF alone_pg_ok [OF assms(1)] _ assms(2), unfolded none, simplified]
  show ?thesis
  proof (cases x)
    case (Inl e)
    then show ?thesis
      using run grown_none [of "pg_db p" "pg_db q"] by (simp add: pg_quiet_def pg_at_def same_tables_def)
  next
    case (Inr out)
    then obtain s0 where s0: "grown {} (pg_db p) s0" and q: "pg_ok q" "pg_commits q = []"
      "issue_map (pg_db q) = (issue_map s0)(upsert_key u \<mapsto> uo_issue out)"
      "upsert_spec (truncated u) (issue_map s0 (upsert_key u)) out" "db_events (pg_db q) = db_events s0"
      using run by (auto simp: pg_quiet_def upserted_def truncated_def)
    show ?thesis
      using q Inr tables_eqs [OF grown_none [OF s0]] by (simp add: alone_def pg_ok_def)
  qed
qed

lemma retried_single_alone:
  assumes "pg_commits p = []" "retry_write (\<lambda>_ p. p) w what (pg_single body) p = (x, q)"
  shows "pg_commits q = [] \<and> (case x of Inl e \<Rightarrow> tables (pg_db q) = tables (pg_db p)
    | Inr v \<Rightarrow> \<exists>s0. tables s0 = tables (pg_db p) \<and> body s0 = (Inr v, pg_db q))"
proof -
  let ?I = "\<lambda>y. pg_commits y = [] \<and> tables (pg_db y) = tables (pg_db p)"
  have fail: "?I z" if "?I y" "pg_single body y = (Inl e, z)" for y e z
    using pg_single_alone [of y body "Inl e" z] that by simp
  show ?thesis
  proof (cases x)
    case (Inl e)
    have "?I q"
      by (rule retry_from_error [of ?I "pg_single body" "\<lambda>_ p. p" p w what 0 e q])
        (use assms Inl fail in \<open>unfold retry_write_def, blast+\<close>)
    then show ?thesis using Inl by simp
  next
    case (Inr v)
    have "\<exists>y. ?I y \<and> pg_single body y = (Inr v, q)"
      by (rule retry_from_last [of ?I "pg_single body" "\<lambda>_ p. p" p w what 0 v q])
        (use assms Inr fail in \<open>unfold retry_write_def, blast+\<close>)
    then obtain y where "?I y" "pg_single body y = (Inr v, q)" by blast
    then show ?thesis using pg_single_alone [of y body "Inr v" q] Inr by simp
  qed
qed

lemma pg_insert_event_alone:
  assumes "alone p" "pg_insert_event (pg_quiet w) n p = (x, q)"
  shows "case x of
      Inl e \<Rightarrow> same_tables p q
    | Inr e \<Rightarrow> alone q \<and> issue_map (pg_db q) = issue_map (pg_db p) \<and> db_events (pg_db q) = db_events (pg_db p) @ [e] \<and>
        e = event_row (ev_id e) (n\<lparr>nev_received_at := pg_ts (nev_received_at n)\<rparr>)"
proof -
  let ?n = "n\<lparr>nev_received_at := pg_ts (nev_received_at n)\<rparr>"
    and ?s = "(pg_db p)\<lparr>rng_pos := Suc (rng_pos (pg_db p))\<rparr>"
  let ?e = "event_row (rng_uuid (pg_db p) (rng_pos (pg_db p))) ?n" and ?p = "p\<lparr>pg_db := ?s\<rparr>"
  obtain y z where y: "retry_write (\<lambda>_ p. p) w ''insert event''
      (pg_single (pg_bind [nev_event_id n] (pg_insert_event_row ?e))) ?p = (y, z)" by fastforce
  have "pg_commits ?p = []" using assms(1) by (simp add: alone_def)
  note run = retried_single_alone [OF this y]
  have x: "(x, q) = (case y of Inl e \<Rightarrow> (Inl e, z) | Inr _ \<Rightarrow> (Inr ?e, z))"
    using assms(2) y by (simp add: pg_insert_event_def Let_def op_bind_def pg_quiet_def split: sum.splits)
  show ?thesis
  proof (cases y)
    case (Inl e)
    then show ?thesis using x run by (simp add: same_tables_def)
  next
    case (Inr v)
    then obtain s0 where s0: "tables s0 = tables (pg_db p)" "pg_insert_event_row ?e s0 = (Inr v, pg_db z)"
      using run pg_bind_Inr [of "[nev_event_id n]" "pg_insert_event_row ?e"] by (simp only: sum.case) auto
    have rows: "insert_event_row ?e s0 = (Inr (), pg_db z)" "pg_db z = s0\<lparr>db_events := db_events s0 @ [?e]\<rparr>"
      using s0(2) by (auto simp: pg_insert_event_row_def insert_event_row_def split: if_splits)
    note eqs = tables_eqs [OF s0(1)]
    have "db_ok (pg_db z)"
      using insert_event_row_ok [OF _ rows(1)] eqs assms(1) by (simp add: alone_def)
    moreover have "issue_map (pg_db z) = issue_map s0"
      by (simp add: rows(2) issue_map_def select_issue_def fun_eq_iff)
    ultimately show ?thesis
      using x Inr run eqs rows(2) by (simp add: alone_def event_row_def)
  qed
qed

interpretation postgres: ingest_ports "pg_issues (pg_quiet w) clock" "pg_events (pg_quiet w)"
  alone "\<lambda>p. issue_map (pg_db p)" "\<lambda>p. db_events (pg_db p)" pg_ts for w clock
proof unfold_locales
  fix s u out t
  assume "alone s" "ip_upsert (pg_issues (pg_quiet w) clock) u s = (Inr out, t)"
  then show "alone t \<and> issue_map (pg_db t) = (issue_map (pg_db s))(upsert_key u \<mapsto> uo_issue out) \<and>
      upsert_spec (u\<lparr>up_seen_at := pg_ts (up_seen_at u)\<rparr>) (issue_map (pg_db s) (upsert_key u)) out \<and>
      db_events (pg_db t) = db_events (pg_db s)"
    using pg_upsert_alone [of s w u "Inr out" t] by (simp add: pg_issues_def truncated_def)
next
  fix s u err t
  assume "alone s" "ip_upsert (pg_issues (pg_quiet w) clock) u s = (Inl err, t)"
  then show "alone t \<and> issue_map (pg_db t) = issue_map (pg_db s) \<and> db_events (pg_db t) = db_events (pg_db s)"
    using pg_upsert_alone [of s w u "Inl err" t] same_tables_alone by (simp add: pg_issues_def)
next
  fix s n e t
  assume "alone s" "ep_insert (pg_events (pg_quiet w)) n s = (Inr e, t)"
  then show "alone t \<and> issue_map (pg_db t) = issue_map (pg_db s) \<and> db_events (pg_db t) = db_events (pg_db s) @ [e] \<and>
      e = event_row (ev_id e) (n\<lparr>nev_received_at := pg_ts (nev_received_at n)\<rparr>)"
    using pg_insert_event_alone [of s w n "Inr e" t] by (simp add: pg_events_def)
next
  fix s n err t
  assume "alone s" "ep_insert (pg_events (pg_quiet w)) n s = (Inl err, t)"
  then show "alone t \<and> issue_map (pg_db t) = issue_map (pg_db s) \<and> db_events (pg_db t) = db_events (pg_db s)"
    using pg_insert_event_alone [of s w n "Inl err" t] same_tables_alone by (simp add: pg_events_def)
next
  fix s iid since c t
  assume a: "alone s" and "ep_count_in_window (pg_events (pg_quiet w)) iid since s = (Inr c, t)"
  then have run: "pg_count_in_window iid since s = (Inr c, t)" by (simp add: pg_events_def)
  have "pg_commits s = []" using a by (simp add: alone_def)
  from pg_single_alone [OF this run [unfolded pg_count_in_window_def]]
  have "same_tables s t" "c = int (length (filter (\<lambda>e. ev_issue_id e = iid \<and> pg_ts since \<le> ev_received_at e)
      (db_events (pg_db s))))"
    by (auto simp: same_tables_def tables_def)
  then show "alone t \<and> issue_map (pg_db t) = issue_map (pg_db s) \<and> db_events (pg_db t) = db_events (pg_db s) \<and>
      c = int (length (filter (\<lambda>e. ev_issue_id e = iid \<and> pg_ts since \<le> ev_received_at e) (db_events (pg_db s))))"
    using same_tables_alone [OF a] by blast
next
  fix s iid since err t
  assume a: "alone s" and "ep_count_in_window (pg_events (pg_quiet w)) iid since s = (Inl err, t)"
  then have "pg_single (\<lambda>s. (Inr (int (length (filter (\<lambda>e. ev_issue_id e = iid \<and> pg_ts since \<le> ev_received_at e)
      (db_events s)))), s)) s = (Inl err, t)" by (simp add: pg_events_def pg_count_in_window_def)
  from pg_single_alone [OF _ this] a have "same_tables s t" by (simp add: same_tables_def alone_def)
  then show "alone t \<and> issue_map (pg_db t) = issue_map (pg_db s) \<and> db_events (pg_db t) = db_events (pg_db s)"
    by (rule same_tables_alone [OF a])
next
  fix s i st j t
  assume a: "alone s" and i: "issue_map (pg_db s) (issue_key i) = Some i"
    and "ip_set_status (pg_issues (pg_quiet w) clock) (iss_id i) st s = (Inr j, t)"
  then have run: "pg_set_status clock (iss_id i) st s = (Inr j, t)" by (simp add: pg_issues_def)
  have none: "pg_commits s = []" and ok: "db_ok (pg_db s)" using a by (simp_all add: alone_def)
  obtain s0 where s0: "tables s0 = tables (pg_db s)"
    "(case update_issue (iss_id i) (clear_mute st (pg_ts clock)) s0 of
        (Some i, s') \<Rightarrow> (Inr i, s') | (None, s') \<Rightarrow> (Inl (issue_not_found (iss_id i)), s')) = (Inr j, pg_db t)"
    and t: "pg_commits t = []"
    using pg_single_alone [OF none run [unfolded pg_set_status_def]] by auto
  have eqs: "db_ok s0" "issue_map s0 = issue_map (pg_db s)" "db_events s0 = db_events (pg_db s)"
    using tables_eqs [OF s0(1)] ok by simp_all
  have "set_status (pg_ts clock) (iss_id i) st (s0\<lparr>faults := []\<rparr>) = (Inr j, (pg_db t)\<lparr>faults := []\<rparr>)"
    using s0(2) [symmetric] by (auto simp: set_status_def transaction_def Let_def update_issue_def select_issue_def split: option.splits)
  moreover have "issue_map (s0\<lparr>faults := []\<rparr>) (issue_key i) = Some i"
    using issue_map_tables [of "s0\<lparr>faults := []\<rparr>" s0] eqs(2) i by simp
  ultimately have "db_ok ((pg_db t)\<lparr>faults := []\<rparr>) \<and>
      issue_map ((pg_db t)\<lparr>faults := []\<rparr>) = (issue_map (s0\<lparr>faults := []\<rparr>))(issue_key i \<mapsto> j) \<and>
      db_events ((pg_db t)\<lparr>faults := []\<rparr>) = db_events (s0\<lparr>faults := []\<rparr>) \<and> j = clear_mute st (pg_ts clock) i"
    using set_status_Ok_map [of "s0\<lparr>faults := []\<rparr>" i "pg_ts clock" st j] eqs(1) by simp
  then show "alone t \<and> issue_map (pg_db t) = (issue_map (pg_db s))(issue_key i \<mapsto> j) \<and>
      db_events (pg_db t) = db_events (pg_db s) \<and> (\<exists>now. j = clear_mute st now i)"
    using issue_map_tables [of "(pg_db t)\<lparr>faults := []\<rparr>" "pg_db t"] issue_map_tables [of "s0\<lparr>faults := []\<rparr>" s0] eqs t
    by (auto simp: alone_def)
next
  fix s iid st err t
  assume a: "alone s" and "ip_set_status (pg_issues (pg_quiet w) clock) iid st s = (Inl err, t)"
  then have run: "pg_set_status clock iid st s = (Inl err, t)" by (simp add: pg_issues_def)
  have "same_tables s t"
    using pg_single_alone [OF _ run [unfolded pg_set_status_def]] a by (simp add: same_tables_def alone_def)
  then show "alone t \<and> issue_map (pg_db t) = issue_map (pg_db s) \<and> db_events (pg_db t) = db_events (pg_db s)"
    by (rule same_tables_alone [OF a])
next
  fix s k i
  assume "alone s" "issue_map (pg_db s) k = Some i"
  then show "issue_key i = k" by (simp add: alone_def db_ok_def issue_map_Some_iff)
qed

end
