(* ===== verification/PgIngest.thy ===== *)
theory PgIngest
  imports PgEvents
begin

text \<open>
  Ingestion on PostgreSQL: the pipeline over the PostgreSQL ports, what it stores and counts, that it
  does what it does on SQLite, and the one kind of event that only SQLite takes.
\<close>

text \<open>C13. The upsert on PostgreSQL is one update of one entry, whatever other connections commit between its
  statements: the database it starts from, the commits of the others, and then the entry of its key alone
  changes, to the bumped issue (a regression exactly when it was resolved at that moment) or to a new one
  counted once. No event is touched and the tables stay consistent.\<close>

theorem pg_upsert_linearizes:
  assumes "pg_ok p" "pr_env r = (\<lambda>_ p. p)" "pg_upsert_by_fingerprint r u p = (Inr out, q)"
  shows "\<exists>s0. grown (set (pg_commits p)) (pg_db p) s0 \<and>
    issue_map (pg_db q) = (issue_map s0)(upsert_key u \<mapsto> uo_issue out) \<and>
    upsert_spec (truncated u) (issue_map s0 (upsert_key u)) out \<and>
    db_events (pg_db q) = db_events s0 \<and> db_ok s0 \<and> db_ok (pg_db q)"
  using pg_upsert_outcome [OF assms] by (auto simp: upserted_def truncated_def pg_ok_def)

abbreviation pg_ingest :: "write_policy \<Rightarrow> timestamp \<Rightarrow> ingest_input \<Rightarrow> timestamp \<Rightarrow> (pg, ingest_outcome) op" where
  "pg_ingest w clock input now \<equiv>
     ingest_normalized (pg_issues (pg_quiet w) clock) (pg_events (pg_quiet w)) input now"

text \<open>On PostgreSQL, too, an event that is ingested is stored once and counted once, at the
  microsecond.\<close>

theorem pg_ingest_stores_and_counts:
  assumes "alone p" "pg_ingest w clock input now p = (Inr out, q)"
  shows "db_events (pg_db q) = db_events (pg_db p) @ [io_event out] \<and>
    ev_payload (io_event out) = ii_payload input \<and> ev_event_id (io_event out) = ii_event_id input \<and>
    ev_issue_id (io_event out) = iss_id (io_issue out) \<and> ev_received_at (io_event out) = pg_ts now \<and>
    issue_map (pg_db q) = (issue_map (pg_db p))(input_key input \<mapsto> io_issue out) \<and>
    iss_event_count (io_issue out) =
      (case issue_map (pg_db p) (input_key input) of Some cur \<Rightarrow> iss_event_count cur + 1 | None \<Rightarrow> 1) \<and>
    iss_last_seen (io_issue out) = pg_ts now \<and> alone q"
proof -
  obtain up where up: "upsert_spec (upsert_of input (pg_ts now)) (issue_map (pg_db p) (input_key input)) up"
    and ing: "alone q" "db_events (pg_db q) = db_events (pg_db p) @ [io_event out]"
      "io_event out = event_row (ev_id (io_event out)) (new_event_of input (iss_id (uo_issue up)) (pg_ts now))"
      "issue_map (pg_db q) = (issue_map (pg_db p))(input_key input \<mapsto> io_issue out)"
    and iss: "(\<exists>at. io_issue out = clear_mute Unresolved at (uo_issue up)) \<or> io_issue out = uo_issue up"
    using postgres.ingest_Ok [OF assms] by (auto split: if_splits)
  have "iss_event_count (io_issue out) = iss_event_count (uo_issue up)"
    "iss_last_seen (io_issue out) = iss_last_seen (uo_issue up)" "iss_id (io_issue out) = iss_id (uo_issue up)"
    using iss by (auto simp: clear_mute_def)
  moreover have "iss_event_count (uo_issue up) =
      (case issue_map (pg_db p) (input_key input) of Some cur \<Rightarrow> iss_event_count cur + 1 | None \<Rightarrow> 1)"
    "iss_last_seen (uo_issue up) = pg_ts now"
    using up by (auto simp: upsert_spec_iff bump_issue_def new_issue_def upsert_of_def split: option.splits)
  moreover have "ev_payload (io_event out) = ii_payload input" "ev_event_id (io_event out) = ii_event_id input"
    "ev_issue_id (io_event out) = iss_id (uo_issue up)" "ev_received_at (io_event out) = pg_ts now"
    by (subst ing(3), simp add: event_row_def new_event_of_def)+
  ultimately show ?thesis using ing(1,2,4) by simp
qed

section \<open>The same as on SQLite\<close>

definition whole :: "timestamp \<Rightarrow> bool" where
  "whole at \<longleftrightarrow> pg_ts at = at"

lemma whole_mod: "whole at \<longleftrightarrow> at mod 1000 = 0"
  by (simp add: whole_def pg_ts_def)

lemma whole_dvd: "whole at \<longleftrightarrow> 1000 dvd at"
  unfolding whole_mod by (rule dvd_eq_mod_eq_0 [symmetric])

lemma whole_sub_secs: "whole at \<Longrightarrow> whole (at - secs n)"
  unfolding whole_dvd by (rule dvd_diff, assumption, rule dvd_mult) simp

lemma whole_max: "whole a \<Longrightarrow> whole b \<Longrightarrow> whole (max a b)"
  by (simp add: max_def)

definition whole_mutes :: "db \<Rightarrow> bool" where
  "whole_mutes s \<longleftrightarrow> list_all (\<lambda>i. case iss_muted_at i of Some at \<Rightarrow> whole at | None \<Rightarrow> True) (db_issues s)"

lemma upsert_body_faults: "upsert_body u s = (Inr out, t) \<Longrightarrow> faults t = faults s"
proof -
  have sid: "faults s' = faults s" if "unique_short_id_on s = (r, s')" for r s'
    using unique_short_id_loop_state that by (fastforce simp: unique_short_id_on_def)
  assume "upsert_body u s = (Inr out, t)"
  then show ?thesis
    by (auto simp: upsert_body_def update_issue_def insert_issue_def Let_def
        split: option.splits prod.splits sum.splits if_splits dest!: sid)
qed

lemma insert_event_faults:
  assumes "faults s = []" "insert_event r n s = (Inr e, t)"
  shows "faults t = []"
proof -
  let ?e = "event_row (rng_uuid s (rng_pos s)) n" and ?s = "s\<lparr>rng_pos := Suc (rng_pos s)\<rparr>"
  have run: "retry_write (rp_env r) (rp_write r) ''insert event'' (transaction (insert_event_row ?e)) ?s = (Inr (), t)"
    using assms(2) by (auto simp: insert_event_def Let_def split: prod.splits sum.splits)
  have "insert_event_row ?e ?s = (Inr (), t)"
    using run by (rule retry_free [rotated])
      (use assms(1) constraint_not_busy in \<open>auto simp: insert_event_row_def split: if_splits\<close>)
  then show ?thesis using assms(1) by (auto simp: insert_event_row_def split: if_splits)
qed

lemma count_on:
  assumes "faults s = []" "whole since" "count_in_window iid since s = (Inr c, t)"
  shows "pg_count_in_window iid since (on_pg s) = (Inr c, on_pg t)" "t = s"
proof -
  have cut: "pg_ts since = since" using assms(2) by (simp add: whole_def)
  show "pg_count_in_window iid since (on_pg s) = (Inr c, on_pg t)"
    using assms(1,3) unfolding count_in_window_def pg_count_in_window_def cut by (rule pg_single_agrees)
  show "t = s" using transaction_free [OF assms(1) assms(3) [unfolded count_in_window_def]] by simp
qed

lemma resurface_on:
  assumes "faults s = []" "whole now" "whole clock" "\<And>at. iss_muted_at i = Some at \<Longrightarrow> whole at"
    and "resurface_if_rate_exceeded (sqlite_issues (quiet_of w) clock) (sqlite_events (quiet_of w)) i now s = (Inr r, t)"
  shows "resurface_if_rate_exceeded (pg_issues (pg_quiet w) clock) (pg_events (pg_quiet w)) i now (on_pg s) = (Inr r, on_pg t)"
proof (cases "iss_status i = Muted \<and> iss_mute_threshold i \<noteq> None \<and> iss_mute_window_seconds i \<noteq> None")
  case False
  then show ?thesis
    using assms(5) by (auto simp: resurface_if_rate_exceeded_def split: option.splits if_splits)
next
  case True
  then obtain n m where nm: "iss_mute_threshold i = Some n" "iss_mute_window_seconds i = Some m" by auto
  from True assms(5) nm obtain ws where ws: "dt_sub_seconds now (max m 0) = Inr ws"
    by (auto simp: resurface_if_rate_exceeded_def split: sum.splits)
  then have "ws = now - secs (max m 0)"
    by (auto simp: dt_sub_seconds_def delta_seconds_def dt_sub_def split: if_splits sum.splits)
  then have "whole ws" using whole_sub_secs [OF assms(2)] by simp
  then have since: "whole (window_since i ws)"
    using assms(4) whole_max by (auto simp: window_since_def split: option.split)
  obtain q v where q: "count_in_window (iss_id i) (window_since i ws) s = (q, v)" by fastforce
  then obtain c where c: "q = Inr c"
    using True assms(5) nm ws by (cases q) (auto simp: resurface_if_rate_exceeded_def sqlite_events_def)
  note cnt = count_on [OF assms(1) since q [unfolded c]]
  have rest: "(if c < n then (Inr None, s)
      else case set_status clock (iss_id i) Unresolved s of
             (Inl e, s'') \<Rightarrow> (Inl e, s'') | (Inr unmuted, s'') \<Rightarrow> (Inr (Some unmuted), s'')) = (Inr r, t)"
    using True assms(5) nm c q ws cnt(2)
    by (simp add: resurface_if_rate_exceeded_def sqlite_events_def sqlite_issues_def split: if_splits)
  show ?thesis
  proof (cases "c < n")
    case True
    with rest nm ws cnt \<open>iss_status i = Muted \<and> _\<close> show ?thesis
      by (simp add: resurface_if_rate_exceeded_def pg_events_def)
  next
    case False
    with rest obtain j where j: "set_status clock (iss_id i) Unresolved s = (Inr j, t)" "r = Some j"
      by (auto split: prod.splits sum.splits)
    have "pg_ts clock = clock" using assms(3) by (simp add: whole_def)
    then have "pg_set_status clock (iss_id i) Unresolved (on_pg s) = (Inr j, on_pg t)"
      using pg_set_status_on [OF assms(1), of clock "iss_id i" Unresolved j t] j(1) by simp
    with False j nm ws cnt \<open>iss_status i = Muted \<and> _\<close> show ?thesis
      by (simp add: resurface_if_rate_exceeded_def pg_events_def pg_issues_def)
  qed
qed

definition input_texts :: "ingest_input \<Rightarrow> string list" where
  "input_texts input = ii_event_id input # upsert_texts (upsert_of input 0)"

text \<open>C14. The two databases ingest alike: at whole microseconds and without zero bytes in what is stored as
  text, an event that the SQLite adapters take leaves the same rows and gives the same answer with the
  PostgreSQL adapters, down to the ids.\<close>

theorem backends_ingest_alike:
  assumes "db_ok s" "faults s = []" "whole_mutes s" "whole now" "whole clock"
    and "list_all pg_text (input_texts input)"
    and "sqlite_ingest w clock input now s = (Inr out, t)"
  shows "pg_ingest w clock input now (on_pg s) = (Inr out, on_pg t)"
proof -
  let ?u = "upsert_of input now"
  have same: "truncated ?u = ?u" using assms(4) by (simp add: truncated_def whole_def)
  obtain q s1 where q: "upsert_by_fingerprint (quiet_of w) ?u s = (q, s1)" by fastforce
  then obtain up where up: "q = Inr up"
    using assms(7) by (cases q) (auto simp: ingest_normalized_def sqlite_issues_def)
  have texts: "list_all pg_text (upsert_texts ?u)" "pg_text (ii_event_id input)"
    using assms(6) by (simp_all add: input_texts_def upsert_texts_def upsert_of_def)
  have run1: "pg_upsert_by_fingerprint (pg_quiet w) ?u (on_pg s) = (Inr up, on_pg s1)"
    using pg_upsert_on [OF assms(1,2) texts(1)] q up same by simp
  have "upsert_body ?u s = (Inr up, s1)"
    using q [unfolded up upsert_by_fingerprint_def upsert_once_def] upsert_body_not_busy
    by (rule retry_free [OF assms(2)])
  then have f1: "faults s1 = []" using upsert_body_faults assms(2) by metis
  let ?n = "new_event_of input (iss_id (uo_issue up)) now"
  obtain p s2 where p: "insert_event (quiet_of w) ?n s1 = (p, s2)" by fastforce
  then obtain ev where ev: "p = Inr ev"
    using assms(7) q up by (cases p) (auto simp: ingest_normalized_def sqlite_issues_def sqlite_events_def)
  have cut: "pg_ts now = now" using assms(4) by (simp add: whole_def)
  have run2: "pg_insert_event (pg_quiet w) ?n (on_pg s1) = (Inr ev, on_pg s2)"
    using pg_insert_event_on [OF f1, of ?n "quiet_of w" ev s2] p ev texts(2) cut by (simp add: new_event_of_def)
  have f2: "faults s2 = []" using insert_event_faults [OF f1] p ev by blast
  obtain x where x: "resurface_if_rate_exceeded (sqlite_issues (quiet_of w) clock) (sqlite_events (quiet_of w))
      (uo_issue up) now s2 = (Inr x, t)"
    and out: "out = \<lparr>io_issue = (case x of Some i \<Rightarrow> i | None \<Rightarrow> uo_issue up), io_event = ev,
        io_fingerprint = fingerprint_normalized (ii_normalized input),
        io_notify = (if x = None then notify_kind_of up else Regression)\<rparr>"
    using assms(7) q up p ev
    by (auto simp: ingest_normalized_def sqlite_issues_def sqlite_events_def split: prod.splits sum.splits)
  have muted: "whole at" if "iss_muted_at (uo_issue up) = Some at" for at
  proof -
    have spec: "upsert_spec ?u (issue_map s (upsert_key ?u)) up"
      using upsert_quiet_Ok [OF assms(1) q [unfolded up]] by blast
    show ?thesis
    proof (cases "issue_map s (upsert_key ?u)")
      case None
      then show ?thesis using spec that by (auto simp: upsert_spec_iff new_issue_def)
    next
      case (Some cur)
      then have "cur \<in> set (db_issues s)" using assms(1) by (simp add: db_ok_def issue_map_Some_iff)
      moreover have "iss_muted_at cur = Some at" using spec Some that by (simp add: upsert_spec_iff bump_issue_def)
      ultimately show ?thesis using assms(3) by (auto simp: whole_mutes_def list_all_iff)
    qed
  qed
  from resurface_on [OF f2 assms(4,5) muted x] run1 run2 out show ?thesis
    by (simp add: ingest_normalized_def pg_issues_def pg_events_def)
qed

section \<open>What only SQLite takes\<close>

lemma pg_bind_nul: "CHR 0x00 \<in> set x \<Longrightarrow> x \<in> set texts \<Longrightarrow> \<exists>e. pg_bind texts body s = (Inl e, s)"
  by (auto simp: pg_bind_def pg_text_def list_all_iff)

lemma pg_statement_nul:
  assumes "CHR 0x00 \<in> set x" "x \<in> set texts"
  shows "\<exists>e q. pg_statement lks (pg_bind texts body) p = (Inl e, q)"
  using pg_bind_nul [OF assms, of body "pg_db (others lks p)"] by (auto simp: pg_statement_def Let_def)

lemma upsert_nul:
  assumes "CHR 0x00 \<in> set (up_title u)"
  shows "\<exists>e q. pg_upsert_once u p = (Inl e, q)"
proof -
  have bump: "\<exists>e q. bump_existing cur u seen x = (Inl e, q)" for cur seen x
    unfolding bump_existing_def Let_def by (rule pg_statement_nul [OF assms]) simp
  have ins: "\<exists>e q. insert_unseen u c seen x = (Inl e, q)" for c seen x
    unfolding insert_unseen_def by (rule pg_statement_nul [OF assms]) simp
  have "\<exists>e q. op_bind (lock_by_fingerprint u) (\<lambda>found. case found of
      Some cur \<Rightarrow> op_bind (bump_existing cur u (pg_ts (up_seen_at u))) (\<lambda>out. op_ok (Some out))
    | None \<Rightarrow> op_bind pg_unique_short_id_on (\<lambda>short_id. op_bind (insert_unseen u short_id (pg_ts (up_seen_at u))) (rest short_id))) x
    = (Inl e, q)" for x and rest :: "string \<Rightarrow> issue option \<Rightarrow> (pg, upsert_outcome option) op"
  proof -
    obtain r y where lk: "lock_by_fingerprint u x = (r, y)" by fastforce
    obtain r' z where sid: "pg_unique_short_id_on y = (r', z)" by fastforce
    show ?thesis
    proof (cases r)
      case (Inl e)
      then show ?thesis using lk by (simp add: op_bind_def)
    next
      case (Inr found)
      show ?thesis
      proof (cases found)
        case (Some cur)
        then show ?thesis using lk Inr bump [of cur "pg_ts (up_seen_at u)" y] by (auto simp: op_bind_def)
      next
        case None
        show ?thesis
        proof (cases r')
          case (Inl e)
          then show ?thesis using lk \<open>r = Inr found\<close> None sid by (simp add: op_bind_def)
        next
          case (Inr c)
          then show ?thesis
            using lk \<open>r = Inr found\<close> None sid ins [of c "pg_ts (up_seen_at u)" z] by (auto simp: op_bind_def)
        qed
      qed
    qed
  qed
  then show ?thesis
    by (auto simp: pg_upsert_once_def Let_def pg_transaction_def split: list.split option.split)
qed

text \<open>An event whose title carries a zero byte (a JSON string may, as an escape) is refused by
  PostgreSQL, which has no such text: nothing of it is stored. SQLite stores it.\<close>

theorem pg_refuses_zero_bytes:
  assumes "alone p" "CHR 0x00 \<in> set (up_title u)"
  shows "\<exists>e q. pg_upsert_by_fingerprint (pg_quiet w) u p = (Inl e, q) \<and> same_tables p q"
proof -
  obtain x q where run: "pg_upsert_by_fingerprint (pg_quiet w) u p = (x, q)" by fastforce
  have attempt: "\<exists>e q. retry_write env w what (pg_upsert_once u) p = (Inl e, q)" for env what p
  proof -
    obtain r t where r: "retry_write env w what (pg_upsert_once u) p = (r, t)" by fastforce
    have last: "\<exists>z. (\<lambda>_. True) z \<and> pg_upsert_once u z = (Inr v, t)" if "r = Inr v" for v
      using r that unfolding retry_write_def
      by (intro retry_from_last [where I = "\<lambda>_. True" and env = env and p = w]) auto
    have "r \<noteq> Inr v" for v
    proof
      assume "r = Inr v"
      from last [OF this] obtain z where "pg_upsert_once u z = (Inr v, t)" by blast
      then show False using upsert_nul [OF assms(2), of z] by simp
    qed
    then show ?thesis using r by (cases r) auto
  qed
  have "\<exists>e. x = Inl e"
    using run attempt [of "\<lambda>_ p. p" "''upsert issue by fingerprint''" p]
    by (auto simp: pg_upsert_by_fingerprint_def RACE_ATTEMPTS_def numeral_3_eq_3 pg_quiet_def op_bind_def)
  then show ?thesis using run pg_upsert_alone [OF assms(1) run] by auto
qed

section \<open>Witnesses\<close>

text \<open>Another connection inserts the fingerprint between the first look and the insertion: the event is
  counted on the issue of the other one.\<close>

definition rival :: "uuid list \<Rightarrow> db \<Rightarrow> db" where
  "rival lks s = (if lks = [] then snd (upsert_body example_upsert s) else s)"

definition contested :: pg where
  "contested = \<lparr>pg_db = example_db\<lparr>db_issues := [], db_events := []\<rparr>, pg_commits = [\<lambda>_ s. s, \<lambda>_ s. s, rival]\<rparr>"

lemma honours_rival: "honours rival" "honours (\<lambda>_ s. s)"
  using upsert_body_ok by (auto simp: honours_def rival_def) (metis prod.collapse)

lemma contested_ok: "pg_ok contested"
  by (simp add: pg_ok_def contested_def honours_rival db_ok_defs example_db_def)

lemma contested_run: "case pg_upsert_once example_upsert contested of
    (Inr (Some out), q) \<Rightarrow> \<not> uo_is_new out \<and> iss_event_count (uo_issue out) = 2 \<and> length (db_issues (pg_db q)) = 1
  | _ \<Rightarrow> False"
  by code_simp

theorem pg_upsert_linearizes_witness:
  "\<exists>out q s0. pg_upsert_by_fingerprint (pg_quiet default_write_policy) example_upsert contested = (Inr out, q) \<and>
     \<not> uo_is_new out \<and> iss_event_count (uo_issue out) = 2 \<and>
     grown (set (pg_commits contested)) (pg_db contested) s0 \<and>
     issue_map (pg_db q) = (issue_map s0)(upsert_key example_upsert \<mapsto> uo_issue out)"
proof -
  obtain out q where once: "pg_upsert_once example_upsert contested = (Inr (Some out), q)"
    and out: "\<not> uo_is_new out" "iss_event_count (uo_issue out) = 2"
    using contested_run by (auto split: prod.splits sum.splits option.splits)
  have run: "pg_upsert_by_fingerprint (pg_quiet default_write_policy) example_upsert contested = (Inr out, q)"
    unfolding pg_upsert_by_fingerprint_def by (intro raced_on retry_at_once once)
  have "pr_env (pg_quiet default_write_policy) = (\<lambda>_ p. p)" by (simp add: pg_quiet_def)
  from pg_upsert_linearizes [OF contested_ok this run] run out show ?thesis by blast
qed

text \<open>A fingerprint is hexadecimal.\<close>

lemma pg_text_fingerprint: "pg_text (fingerprint_normalized e)"
proof -
  have "pg_text (hash_hex x)" for x
  proof -
    have "list_all is_ascii_hexdigit (hash_hex x)"
      using hex_digit_lower by (simp add: hash_hex_def hex16_def list_all_iff)
    moreover have "\<not> is_ascii_hexdigit CHR 0x00" by code_simp
    ultimately show ?thesis by (auto simp: pg_text_def list_all_iff)
  qed
  then show ?thesis
    by (simp add: fingerprint_normalized_def default_fingerprint_def custom_fingerprint_def Let_def split: option.split)
qed

lemma example_texts: "list_all pg_text (input_texts example_input)"
proof -
  have "list_all pg_text (''ev'' # title_from_normalized (plain_message ''boom'') #
      opt_texts [culprit_from_normalized (plain_message ''boom''), ne_level (plain_message ''boom''),
        payload_string Null ''environment'', payload_string Null ''release''])" by code_simp
  then show ?thesis
    using pg_text_fingerprint by (simp add: input_texts_def upsert_texts_def upsert_of_def example_input_def)
qed

theorem backends_ingest_alike_witness:
  "\<exists>out t. sqlite_ingest default_write_policy 3000 example_input 2000 grouped_db = (Inr out, t) \<and>
     pg_ingest default_write_policy 3000 example_input 2000 (on_pg grouped_db) = (Inr out, on_pg t)"
proof -
  obtain out t where run: "sqlite_ingest default_write_policy 3000 example_input 2000 grouped_db = (Inr out, t)"
    using grouped_ingest by blast
  have "faults grouped_db = []" "whole_mutes grouped_db" "whole 2000" "whole 3000"
    by (simp_all add: grouped_db_def example_defs whole_mutes_def whole_def pg_ts_def)
  from backends_ingest_alike [OF grouped_db_ok(2) this example_texts run] run show ?thesis by blast
qed

end
