(* ===== verification/Spec2Isabelle.thy ===== *)
theory Spec2Isabelle
  imports Pipeline Envelope Tags RateLimit Lockout Enrich ProjectStore AccessFacts AlertingFacts Ingest Scheduler ConfigSyncFacts Requests AuthFacts Dashboard OidcFacts PasskeyFacts Startup Github Edge PgIngest
begin

text \<open>
  A model of soika, an error tracker that speaks the Sentry protocol, with the theorems that make it
  correct. Paths below are relative to \<open>src/src\<close> of the repository.

  \<^bold>\<open>The program.\<close> SDKs send envelopes to the ingestion endpoints. An accepted event is enriched, normalized,
  fingerprinted and grouped: its issue is inserted or bumped, the event is stored under it, and members
  are notified by mail, webhook and Alertmanager. A JSON API and a web interface show issues and manage
  projects, teams, users, invites, mute rules and notification settings; users sign in with a password, a
  passkey, or through OpenID Connect or GitHub. A scheduler enforces retention and ends timed mutes. A
  configuration file may declare teams, grants and projects. Everything is kept in SQLite or PostgreSQL.

  \<^bold>\<open>How the model is written.\<close> A Rust \<open>struct\<close> is a record, an \<open>enum\<close> a datatype, a function a function of
  the same name (with a suffix or prefix where the name is taken). A Rust string is the list of its bytes;
  where the code works by character, \<open>chars\<close> cuts it. An operation that changes state takes the state and
  returns a result and the new state; every error, early return and panic of the source is a value of the
  result (\<open>Inl\<close>; a panic is the constructor \<open>Panic\<close>, or \<open>Crash\<close> at a handler). Instants are integers in
  nanoseconds, checked at the bounds of \<open>chrono\<close>; machine integers that wrap are words or written modulo.
  The database is a record of tables of decoded rows with the constraints and cascades of the migrations.
  A script of driver errors (\<open>faults\<close>, one entry for each transaction or statement) stands for what the
  database may answer, a function for what other connections commit while a retried write sleeps. Random
  ids are drawn from sequences. Deliveries read the answers of the outer world from scripts and record what
  was sent.

  \<^bold>\<open>Parameters.\<close> Code outside the repository is an argument: HMAC, argon2, URL, UUID, JSON and YAML parsers,
  decompression, the texts of floats and dates, Unicode case folding, the e-mail templates, the HTTP and
  SMTP clients, the libraries for OpenID Connect and WebAuthn, and the embedded files. What a theorem needs
  of one is a named hypothesis, and its witness instantiates it.

  \<^bold>\<open>The theories\<close>, in the order of their use:

  \<^item> \<open>Prelude\<close>: bytes, characters, the methods of strings, sorted association lists (the locale
    \<open>string_map\<close>, interpreted on the insertion that the code uses).
  \<^item> \<open>Errors\<close>: \<open>error.rs\<close>, the write policy of \<open>config.rs\<close> and the retry loop of \<open>adapters/retry.rs\<close>;
    bounds of the back-off, what a retried operation may leave behind.
  \<^item> \<open>Json\<close>, \<open>Stacktrace\<close>, \<open>Normalize\<close>, \<open>Fingerprint\<close>: \<open>domain/stacktrace.rs\<close> and \<open>grouping/\<close>: events read
    from JSON, volatile detail removed, FNV-1a on 64-bit words; the shape and the invariances of
    fingerprints.
  \<^item> \<open>Domain\<close>, \<open>Chrono\<close>: the entities of \<open>domain/\<close> and the arithmetic of time.
  \<^item> \<open>Store\<close>, \<open>EventStore\<close>, \<open>ProjectStore\<close>, \<open>AccountStore\<close>, \<open>Ops\<close>, \<open>NotifyStore\<close>: the SQLite adapters of
    \<open>adapters/sqlite/\<close>. The invariant \<open>db_ok\<close> and its preservation by every step; the upsert as a
    refinement of a map update; merging; retention (the locale \<open>batch_sweep\<close>, interpreted on both sweeps);
    the last owner and the last team administrator.
  \<^item> \<open>PgStore\<close>, \<open>PgFacts\<close>, \<open>PgEvents\<close>, \<open>PgIngest\<close>: the PostgreSQL adapters of issues and events
    (\<open>adapters/postgres/\<close>) with the commits of other connections between the statements; the upsert is
    one step on what the others made of the database; both databases ingest alike.
  \<^item> \<open>Pipeline\<close>, \<open>Envelope\<close>, \<open>Tags\<close>, \<open>RateLimit\<close>, \<open>Enrich\<close>, \<open>Ingest\<close>: \<open>grouping/pipeline.rs\<close> and \<open>ingest/\<close>.
    The repositories that the pipeline calls are the locale \<open>ingest_ports\<close>, interpreted on the SQLite
    and on the PostgreSQL adapters; what an answer of the endpoints means for the tables.
  \<^item> \<open>Lockout\<close>, \<open>Access\<close>, \<open>AccessFacts\<close>: \<open>auth/lockout.rs\<close> (32-bit counters), \<open>signing.rs\<close>, \<open>session.rs\<close>,
    \<open>csrf.rs\<close>, \<open>extractor.rs\<close>, invites and the guards of requests; the life of a session and of an invite.
  \<^item> \<open>Notifications\<close>, \<open>Alerting\<close>, \<open>AlertingFacts\<close>: \<open>domain/notifications.rs\<close>, \<open>alertmanager.rs\<close>,
    \<open>notify.rs\<close>: templates, recipients, alerts and their refresh; no alert is left firing unaccounted.
  \<^item> \<open>Scheduler\<close>: \<open>scheduler.rs\<close>; what one sweep enforces and when the loop comes back.
  \<^item> \<open>ConfigFile\<close>, \<open>ConfigSync\<close>, \<open>ConfigSyncFacts\<close>, \<open>Startup\<close>: the configuration file, its validation and its
    reconciliation with the database (\<open>domain/config_file.rs\<close>, \<open>adapters/config_sync.rs\<close>,
    \<open>config_sync.rs\<close>); the locale \<open>orphanable\<close> for what the file no longer names.
  \<^item> \<open>Config\<close>: \<open>config.rs\<close>: every variable, its default, its parser and its checks.
  \<^item> \<open>Server\<close>, \<open>ApiIssues\<close>, \<open>ApiProjects\<close>, \<open>ApiTeams\<close>, \<open>ApiAccounts\<close>, \<open>ApiNotifications\<close>, \<open>AuthHandlers\<close>:
    the handlers of \<open>api/\<close> and \<open>auth/handlers.rs\<close>, each whole.
  \<^item> \<open>ApiPolicy\<close>, \<open>ApiFacts\<close>, \<open>Requests\<close>, \<open>AuthFacts\<close>, \<open>Dashboard\<close>: one policy for all requests, stated on
    the tables alone, and the proof that nothing else acts; sign-in, setup and lockout; the dashboard.
  \<^item> \<open>Oidc\<close>, \<open>OidcFacts\<close>, \<open>Github\<close>, \<open>Passkeys\<close>, \<open>PasskeyFacts\<close>: \<open>auth/oidc.rs\<close>, \<open>oidc_handlers.rs\<close>,
    \<open>github.rs\<close>, \<open>passkey.rs\<close>, \<open>passkey_handlers.rs\<close>.
  \<^item> \<open>Bootstrap\<close>: the start request of the pages (\<open>api/config.rs\<close>, \<open>auth/extractor.rs\<close>).
  \<^item> \<open>Mail\<close>, \<open>Edge\<close>: \<open>mail.rs\<close>, the transport to the Alertmanager, the mailers and \<open>web.rs\<close>; one-line
    subjects, no credentials in the clear, no endpoint in an error.

  Where several operations keep a relation between the states before and after, it is an interpretation of
  the locale \<open>step_relation\<close> (\<open>Ops\<close>), whose lemmas carry it through sequences, branches and retries.

  \<^bold>\<open>Bounds and fuel.\<close> A retried write makes at most \<open>max_retries\<close> further attempts; an upsert or a merge on
  PostgreSQL that loses a race is run three times at most. A short id takes at most sixteen draws. The
  deletion loops have no bound in the source: they are partial functions into an option, and both sweeps
  are proved to return. The refresh of alerts has fuel, and one round more than there are tracked alerts is
  proved to be enough. The other loops recurse on their input.

  \<^bold>\<open>Interleaving.\<close> A handler runs alone between its own steps, except that other connections may commit while
  a retried write sleeps and, on PostgreSQL, before every statement of an upsert or a merge. A request
  arrives decoded: routing by path, query strings and the extraction of bodies belong to the framework. An
  attempt to apply the configuration file reads the clock once.

  \<^bold>\<open>Not modelled.\<close> The other PostgreSQL adapters, which are the SQLite ones in another dialect; the process
  itself (logging, pools, migrations, signals, the construction of the state); the ports, which are
  signatures; the web client; packaging. The TEXT encoding of ids and times on SQLite is not modelled, nor
  is the order of rows that a query leaves open: the model keeps the order of insertion.
\<close>

end
